(* ===== verification/Prelude.thy ===== *)
theory Prelude
  imports Main "HOL-Library.Word" "HOL-Library.Multiset" "HOL-Library.Char_ord"
    "HOL-Library.List_Lexorder"
begin

text \<open>
  Shared vocabulary of the camera-adapter development: fallible results, the fixed-width integer
  operations of the Rust standard library the adapter uses (checked, saturating and wrapping
  arithmetic on \<open>u64\<close> and \<open>u128\<close>), the byte-level view of Rust strings, the few operations of
  \<open>Vec\<close> (\<open>swap_remove\<close>, \<open>position\<close>, \<open>max_by\<close>) whose exact behaviour matters, and the
  generic facts about counting, filtering and folding lists that the component proofs share.

  Conventions. A Rust \<open>Result<T>\<close> is \<open>'e + 'a\<close> with \<open>Inl\<close> for \<open>Err\<close>; the \<open>?\<close> operator is
  \<open>and_then\<close>. A Rust \<open>String\<close> is the list of its UTF-8 bytes (HOL \<open>string\<close>), so \<open>len()\<close> is
  \<^const>\<open>length\<close> and \<open>Ord\<close> on \<open>str\<close> is the lexicographic order on bytes. Instants and durations are
  natural numbers of nanoseconds.
\<close>

section \<open>Collections of facts\<close>

named_theorems result_simps "rewriting of fallible results"
named_theorems vec_simps "facts about vectors updated by swap_remove and filter"
named_theorems u64_simps "reading checked, saturating and wrapping arithmetic as natural numbers"
named_theorems inv_intros "operations that keep a component's invariant"

section \<open>Fallible results\<close>

definition and_then :: "'e + 'a \<Rightarrow> ('a \<Rightarrow> 'e + 'b) \<Rightarrow> 'e + 'b" where
  "and_then r f = (case r of Inl e \<Rightarrow> Inl e | Inr x \<Rightarrow> f x)"

definition ensure :: "bool \<Rightarrow> 'e \<Rightarrow> 'e + unit" where
  "ensure b e = (if b then Inr () else Inl e)"

definition ok_or :: "'a option \<Rightarrow> 'e \<Rightarrow> 'e + 'a" where
  "ok_or x e = (case x of None \<Rightarrow> Inl e | Some y \<Rightarrow> Inr y)"

definition is_ok :: "'e + 'a \<Rightarrow> bool" where
  "is_ok r = (case r of Inl _ \<Rightarrow> False | Inr _ \<Rightarrow> True)"

fun for_each :: "('a \<Rightarrow> 'e + unit) \<Rightarrow> 'a list \<Rightarrow> 'e + unit" where
  "for_each f [] = Inr ()"
| "for_each f (x # xs) = and_then (f x) (\<lambda>_. for_each f xs)"

text \<open>A sequence of independent checks, each followed by \<open>?\<close>: the first failure is returned.\<close>

definition checks :: "('e + unit) list \<Rightarrow> 'e + unit" where
  "checks rs = for_each (\<lambda>r. r) rs"

text \<open>The outcome of polling a future once: it is still waiting, or it has resolved.\<close>

datatype 'a poll = Pending | Ready 'a

lemma and_then_simps [simp, result_simps]:
  "and_then (Inl e) f = Inl e"
  "and_then (Inr x) f = f x"
  by (simp_all add: and_then_def)

lemma and_then_Inr_iff [result_simps]:
  "and_then r f = Inr y \<longleftrightarrow> (\<exists>x. r = Inr x \<and> f x = Inr y)"
  by (cases r) auto

lemma and_then_Inl_iff [result_simps]:
  "and_then r f = Inl e \<longleftrightarrow> r = Inl e \<or> (\<exists>x. r = Inr x \<and> f x = Inl e)"
  by (cases r) auto

lemma ensure_Inr_iff [simp, result_simps]: "ensure b e = Inr u \<longleftrightarrow> b"
  by (simp add: ensure_def)

lemma ensure_Inl_iff [simp, result_simps]: "ensure b e = Inl e' \<longleftrightarrow> \<not> b \<and> e' = e"
  by (auto simp: ensure_def)

lemma ensure_eval [simp]: "ensure True e = Inr ()" "ensure False e = Inl e"
  by (simp_all add: ensure_def)

lemma ok_or_Inr_iff [simp, result_simps]: "ok_or x e = Inr y \<longleftrightarrow> x = Some y"
  by (cases x) (auto simp: ok_or_def)

lemma ok_or_Inl_iff [simp, result_simps]: "ok_or x e = Inl e' \<longleftrightarrow> x = None \<and> e' = e"
  by (cases x) (auto simp: ok_or_def)

lemma is_ok_simps [simp]: "is_ok (Inr x)" "\<not> is_ok (Inl e)"
  by (simp_all add: is_ok_def)

lemma for_each_Inr_iff [result_simps]:
  "for_each f xs = Inr u \<longleftrightarrow> (\<forall>x \<in> set xs. f x = Inr ())"
  by (induction xs) (auto simp: and_then_Inr_iff)

lemma checks_Inr_iff [result_simps]: "checks rs = Inr u \<longleftrightarrow> (\<forall>r \<in> set rs. r = Inr ())"
  by (simp add: checks_def for_each_Inr_iff)

lemma checks_simps [simp]:
  "checks [] = Inr ()"
  "checks (r # rs) = and_then r (\<lambda>_. checks rs)"
  by (simp_all add: checks_def)

section \<open>Fixed-width integers\<close>

type_synonym u64 = "64 word"

definition u64_max :: nat where "u64_max = 2 ^ 64 - 1"
definition u128_max :: nat where "u128_max = 2 ^ 128 - 1"

definition checked_add :: "'a::len word \<Rightarrow> 'a word \<Rightarrow> 'a word option" where
  "checked_add a b = (if unat a + unat b < 2 ^ LENGTH('a) then Some (a + b) else None)"

definition checked_mul :: "'a::len word \<Rightarrow> 'a word \<Rightarrow> 'a word option" where
  "checked_mul a b = (if unat a * unat b < 2 ^ LENGTH('a) then Some (a * b) else None)"

definition saturating_add_u64 :: "u64 \<Rightarrow> u64 \<Rightarrow> u64" where
  "saturating_add_u64 a b = (if unat a + unat b < 2 ^ 64 then a + b else - 1)"

definition saturating_mul_u64 :: "u64 \<Rightarrow> u64 \<Rightarrow> u64" where
  "saturating_mul_u64 a b = (if unat a * unat b < 2 ^ 64 then a * b else - 1)"

text \<open>\<open>u128\<close> arithmetic on natural numbers, with the saturation written out.\<close>

definition saturating_mul_u128 :: "nat \<Rightarrow> nat \<Rightarrow> nat" where
  "saturating_mul_u128 a b = min (a * b) u128_max"

definition saturating_add_u128 :: "nat \<Rightarrow> nat \<Rightarrow> nat" where
  "saturating_add_u128 a b = min (a + b) u128_max"

definition checked_mul_u128 :: "nat \<Rightarrow> nat \<Rightarrow> nat option" where
  "checked_mul_u128 a b = (if a * b \<le> u128_max then Some (a * b) else None)"

definition checked_add_u128 :: "nat \<Rightarrow> nat \<Rightarrow> nat option" where
  "checked_add_u128 a b = (if a + b \<le> u128_max then Some (a + b) else None)"

lemma checked_add_Some_iff [u64_simps]:
  "checked_add (a :: 'a::len word) b = Some c \<longleftrightarrow>
     unat a + unat b < 2 ^ LENGTH('a) \<and> unat c = unat a + unat b"
  by (auto simp: checked_add_def unat_word_ariths word_unat_eq_iff)

lemma checked_add_None_iff [u64_simps]:
  "checked_add (a :: 'a::len word) b = None \<longleftrightarrow> 2 ^ LENGTH('a) \<le> unat a + unat b"
  by (auto simp: checked_add_def)

lemma checked_mul_Some_iff [u64_simps]:
  "checked_mul (a :: 'a::len word) b = Some c \<longleftrightarrow>
     unat a * unat b < 2 ^ LENGTH('a) \<and> unat c = unat a * unat b"
  by (auto simp: checked_mul_def unat_word_ariths word_unat_eq_iff)

lemma unat_u64_minus_one: "unat (- 1 :: u64) = 2 ^ 64 - 1"
  by (simp add: unsigned_minus_1_eq_mask mask_eq_exp_minus_1)

lemma unat_saturating_add_u64 [u64_simps]:
  "unat (saturating_add_u64 a b) = min (unat a + unat b) u64_max"
  by (auto simp: saturating_add_u64_def u64_max_def unat_word_ariths unat_u64_minus_one min_def)

lemma unat_saturating_mul_u64 [u64_simps]:
  "unat (saturating_mul_u64 a b) = min (unat a * unat b) u64_max"
  by (auto simp: saturating_mul_u64_def u64_max_def unat_word_ariths unat_u64_minus_one min_def)

lemma unat_u64_less: "unat (a :: u64) < 2 ^ 64"
  using unsigned_less [of a] by simp

lemma unat_u64_le_max [simp]: "unat (a :: u64) \<le> u64_max"
  using unat_u64_less [of a] by (simp add: u64_max_def)

lemma unat_minus_u64 [u64_simps]: "b \<le> a \<Longrightarrow> unat (a - b :: u64) = unat a - unat b"
  by (rule unat_sub)

lemma unat_plus_u64 [u64_simps]:
  "unat a + unat b < 2 ^ 64 \<Longrightarrow> unat (a + b :: u64) = unat a + unat b"
  by (simp add: unat_word_ariths)

section \<open>Vectors\<close>

text \<open>\<open>Vec::swap_remove\<close>: the last element takes the place of the removed one.\<close>

definition swap_remove :: "nat \<Rightarrow> 'a list \<Rightarrow> 'a list" where
  "swap_remove i xs =
     (if i < length xs
      then (let ys = butlast xs in if i < length ys then ys[i := last xs] else ys)
      else xs)"

text \<open>\<open>Iterator::position\<close>.\<close>

fun position :: "('a \<Rightarrow> bool) \<Rightarrow> 'a list \<Rightarrow> nat option" where
  "position p [] = None"
| "position p (x # xs) = (if p x then Some 0 else map_option Suc (position p xs))"

text \<open>\<open>Iterator::max_by\<close>: of several maximal elements the last one is returned.\<close>

definition max_by :: "('a \<Rightarrow> 'a \<Rightarrow> bool) \<Rightarrow> 'a list \<Rightarrow> 'a option" where
  "max_by le xs = fold (\<lambda>y best. case best of None \<Rightarrow> Some y
                        | Some b \<Rightarrow> if le b y then Some y else Some b) xs None"

lemma length_swap_remove [simp, vec_simps]:
  "i < length xs \<Longrightarrow> length (swap_remove i xs) = length xs - 1"
  by (auto simp: swap_remove_def Let_def)

lemma mset_last_butlast: "xs \<noteq> [] \<Longrightarrow> mset xs = add_mset (last xs) (mset (butlast xs))"
  by (induction xs) auto

lemma mset_swap_remove [vec_simps]:
  assumes "i < length xs"
  shows "mset xs = add_mset (xs ! i) (mset (swap_remove i xs))"
proof (cases "i < length xs - 1")
  case True
  then have ne: "xs \<noteq> []" by auto
  have split: "mset xs = add_mset (last xs) (mset (butlast xs))"
    using ne by (rule mset_last_butlast)
  have nth: "butlast xs ! i = xs ! i" using True by (simp add: nth_butlast)
  have len: "i < length (butlast xs)" using True by simp
  have upd: "mset ((butlast xs)[i := last xs]) =
      add_mset (last xs) (mset (butlast xs) - {#butlast xs ! i#})"
    using len by (rule mset_update)
  have "butlast xs ! i \<in># mset (butlast xs)" using len by (metis nth_mem set_mset_mset)
  then have "mset xs = add_mset (last xs) (add_mset (xs ! i) (mset (butlast xs) - {#xs ! i#}))"
    using split nth by simp
  then show ?thesis using assms len upd nth by (simp add: swap_remove_def Let_def)
next
  case False
  then have i: "i = length xs - 1" and ne: "xs \<noteq> []" using assms by auto
  have "mset xs = add_mset (last xs) (mset (butlast xs))"
    using ne by (rule mset_last_butlast)
  then show ?thesis using i ne by (simp add: swap_remove_def Let_def last_conv_nth)
qed

lemma set_swap_remove_subset: "set (swap_remove i xs) \<subseteq> set xs"
proof (cases "i < length xs")
  case True
  then show ?thesis by (metis mset_swap_remove set_mset_add_mset_insert set_mset_mset subset_insertI)
qed (simp add: swap_remove_def)

lemma position_Some [vec_simps]:
  "position p xs = Some i \<Longrightarrow> i < length xs \<and> p (xs ! i)"
  by (induction xs arbitrary: i) (auto split: if_splits)

lemma position_None [vec_simps]: "position p xs = None \<longleftrightarrow> (\<forall>x \<in> set xs. \<not> p x)"
  by (induction xs) auto

definition max_by_step :: "('a \<Rightarrow> 'a \<Rightarrow> bool) \<Rightarrow> 'a \<Rightarrow> 'a option \<Rightarrow> 'a option" where
  "max_by_step le y best = (case best of None \<Rightarrow> Some y
     | Some b \<Rightarrow> if le b y then Some y else Some b)"

lemma max_by_fold: "max_by le xs = fold (max_by_step le) xs None"
  by (simp add: max_by_def max_by_step_def [abs_def])

lemma max_by_fold_Some:
  assumes total: "\<forall>a b. le a b \<or> le b a" and trans: "transp le"
  shows "\<exists>m \<in> insert b (set xs). fold (max_by_step le) xs (Some b) = Some m \<and>
           (\<forall>x \<in> insert b (set xs). le x m)"
proof (induction xs arbitrary: b)
  case Nil
  show ?case using total by auto
next
  case (Cons y ys)
  let ?b = "if le b y then y else b"
  from Cons.IH [of ?b] obtain m where m: "m \<in> insert ?b (set ys)"
    "fold (max_by_step le) ys (Some ?b) = Some m" "\<forall>x \<in> insert ?b (set ys). le x m" by blast
  have "le b ?b" "le y ?b" using total by auto
  then have "le b m" "le y m" using m(3) transpD [OF trans] by blast+
  moreover have "m \<in> insert b (set (y # ys))" using m(1) by (auto split: if_splits)
  moreover have "fold (max_by_step le) (y # ys) (Some b) = Some m"
    using m(2) by (simp add: max_by_step_def split: if_splits)
  ultimately show ?case using m(3) by auto
qed

lemma max_by_Some:
  assumes "\<forall>a b. le a b \<or> le b a" and "transp le" and "xs \<noteq> []"
  shows "\<exists>m \<in> set xs. max_by le xs = Some m \<and> (\<forall>x \<in> set xs. le x m)"
proof -
  obtain b ys where xs: "xs = b # ys" using assms(3) by (cases xs) auto
  have "max_by le xs = fold (max_by_step le) ys (Some b)"
    by (simp add: xs max_by_fold max_by_step_def)
  with max_by_fold_Some [of le b ys] assms(1,2) xs show ?thesis by auto
qed

lemma max_by_None [simp]: "max_by le xs = None \<longleftrightarrow> xs = []"
proof -
  have "fold (max_by_step le) ys (Some b) \<noteq> None" for ys b
    by (induction ys arbitrary: b) (auto simp: max_by_step_def)
  then show ?thesis by (cases xs) (auto simp: max_by_fold max_by_step_def)
qed

section \<open>Ordered maps\<close>

text \<open>A \<open>BTreeMap\<close> is the association list of its entries in ascending key order; \<open>get\<close> is
  \<^const>\<open>map_of\<close>.\<close>

fun bt_insert :: "'k::linorder \<Rightarrow> 'v \<Rightarrow> ('k \<times> 'v) list \<Rightarrow> ('k \<times> 'v) list" where
  "bt_insert k v [] = [(k, v)]"
| "bt_insert k v ((k', v') # m) =
     (if k < k' then (k, v) # (k', v') # m
      else if k = k' then (k, v) # m
      else (k', v') # bt_insert k v m)"

definition bt_remove :: "'k \<Rightarrow> ('k \<times> 'v) list \<Rightarrow> ('k \<times> 'v) list" where
  "bt_remove k m = filter (\<lambda>(k', _). k' \<noteq> k) m"

definition bt_sorted :: "('k::linorder \<times> 'v) list \<Rightarrow> bool" where
  "bt_sorted m = sorted_wrt (<) (map fst m)"

lemma map_of_bt_insert [simp]: "map_of (bt_insert k v m) = (map_of m)(k \<mapsto> v)"
  by (induction m) (auto simp: fun_upd_twist)

lemma fst_bt_insert: "set (map fst (bt_insert k v m)) = insert k (set (map fst m))"
proof (induction m)
  case (Cons x m)
  then show ?case by (cases x) (simp add: insert_commute)
qed simp

lemma bt_sorted_insert [simp]: "bt_sorted m \<Longrightarrow> bt_sorted (bt_insert k v m)"
proof (induction m)
  case (Cons x m)
  obtain k' v' where x: "x = (k', v')" by fastforce
  have "set (map fst (bt_insert k v m)) = insert k (set (map fst m))" by (rule fst_bt_insert)
  then show ?case using Cons by (auto simp: x bt_sorted_def)
qed (simp add: bt_sorted_def)

lemma map_of_bt_remove [simp]: "map_of (bt_remove k m) = (map_of m)(k := None)"
  by (induction m) (auto simp: bt_remove_def fun_upd_twist)

lemma fst_bt_remove: "set (map fst (bt_remove k m)) = set (map fst m) - {k}"
  by (auto simp: bt_remove_def image_iff)

lemma bt_sorted_remove [simp]: "bt_sorted m \<Longrightarrow> bt_sorted (bt_remove k m)"
  unfolding bt_sorted_def bt_remove_def
  by (metis sorted_wrt_filter sorted_wrt_map)

section \<open>Counting\<close>

lemma length_filter_mset: "length (filter p xs) = size (filter_mset p (mset xs))"
  by (metis mset_filter size_mset)

lemma length_filter_split:
  "length (filter p xs) + length (filter (\<lambda>x. \<not> p x) xs) = length xs"
  by (induction xs) auto

lemma sum_list_mset: "sum_list (map f xs) = sum_mset (image_mset f (mset xs))"
  for f :: "'a \<Rightarrow> nat"
  by (simp flip: sum_mset_sum_list)

lemma filter_length_le_sum: "length (filter p xs) \<le> length xs"
  by simp

section \<open>Strings as UTF-8 bytes\<close>

text \<open>\<open>str::is_char_boundary\<close>: the ends of the string, and every byte that is not a continuation
  byte \<open>0x80..=0xBF\<close>.\<close>

definition is_continuation :: "char \<Rightarrow> bool" where
  "is_continuation c = (128 \<le> (of_char c :: nat) \<and> (of_char c :: nat) < 192)"

definition is_char_boundary :: "string \<Rightarrow> nat \<Rightarrow> bool" where
  "is_char_boundary s i =
     (i = 0 \<or> i = length s \<or> (i < length s \<and> \<not> is_continuation (s ! i)))"

text \<open>\<open>str::chars\<close> on a valid UTF-8 string: each lead byte absorbs its continuation bytes.\<close>

function utf8_chars :: "string \<Rightarrow> string list" where
  "utf8_chars [] = []"
| "utf8_chars (c # cs) =
     (c # takeWhile is_continuation cs) # utf8_chars (dropWhile is_continuation cs)"
  by pat_completeness auto
termination
  by (relation "measure length") (auto simp: le_imp_less_Suc length_dropWhile_le)

text \<open>\<open>char::is_control\<close> (general category Cc) and \<open>char::is_whitespace\<close> (White_Space) on one UTF-8
  encoded character.\<close>

definition is_control :: "string \<Rightarrow> bool" where
  "is_control ch =
     (case map of_char ch of
        [b :: nat] \<Rightarrow> b < 32 \<or> b = 127
      | [b, c] \<Rightarrow> b = 194 \<and> 128 \<le> c \<and> c \<le> 159
      | _ \<Rightarrow> False)"

definition is_whitespace :: "string \<Rightarrow> bool" where
  "is_whitespace ch =
     (case map of_char ch of
        [b :: nat] \<Rightarrow> (9 \<le> b \<and> b \<le> 13) \<or> b = 32
      | [b, c] \<Rightarrow> b = 194 \<and> (c = 133 \<or> c = 160)
      | [b, c, d] \<Rightarrow>
          (b = 225 \<and> c = 154 \<and> d = 128) \<or>
          (b = 226 \<and> c = 128 \<and> (128 \<le> d \<and> d \<le> 138 \<or> d = 168 \<or> d = 169 \<or> d = 175)) \<or>
          (b = 226 \<and> c = 129 \<and> d = 159) \<or>
          (b = 227 \<and> c = 128 \<and> d = 128)
      | _ \<Rightarrow> False)"

definition has_control :: "string \<Rightarrow> bool" where
  "has_control s = list_ex is_control (utf8_chars s)"

text \<open>\<open>str::split_whitespace().count()\<close>: the number of maximal runs without white space.\<close>

fun count_words :: "bool \<Rightarrow> string list \<Rightarrow> nat" where
  "count_words inside [] = 0"
| "count_words inside (ch # chs) =
     (if is_whitespace ch then count_words False chs
      else (if inside then 0 else 1) + count_words True chs)"

definition split_whitespace_count :: "string \<Rightarrow> nat" where
  "split_whitespace_count s = count_words False (utf8_chars s)"

text \<open>\<open>str::split\<close> on a set of ASCII separators.\<close>

fun split_on :: "(char \<Rightarrow> bool) \<Rightarrow> string \<Rightarrow> string list" where
  "split_on p [] = [[]]"
| "split_on p (c # cs) =
     (case split_on p cs of
        [] \<Rightarrow> [[c]]
      | w # ws \<Rightarrow> if p c then [] # w # ws else (c # w) # ws)"

text \<open>\<open>str::find\<close> of an ASCII character, as the text before and after its first occurrence, and
  \<open>str::contains\<close> of a substring.\<close>

fun split_at :: "char \<Rightarrow> string \<Rightarrow> (string \<times> string) option" where
  "split_at x [] = None"
| "split_at x (c # cs) =
     (if c = x then Some ([], cs) else map_option (\<lambda>(u, v). (c # u, v)) (split_at x cs))"

fun starts_with :: "string \<Rightarrow> string \<Rightarrow> bool" where
  "starts_with [] s = True"
| "starts_with (p # ps) [] = False"
| "starts_with (p # ps) (c # cs) = (p = c \<and> starts_with ps cs)"

fun contains_str :: "string \<Rightarrow> string \<Rightarrow> bool" where
  "contains_str p [] = (p = [])"
| "contains_str p (c # cs) = (starts_with p (c # cs) \<or> contains_str p cs)"

lemma split_at_Some:
  "split_at x s = Some (u, v) \<Longrightarrow> s = u @ x # v \<and> x \<notin> set u"
  by (induction s arbitrary: u v) (auto split: if_splits)

lemma split_at_None: "split_at x s = None \<longleftrightarrow> x \<notin> set s"
  by (induction s) auto

lemma split_at_length: "split_at x s = Some (u, v) \<Longrightarrow> length v < length s"
  by (auto dest!: split_at_Some)

lemma concat_utf8_chars: "concat (utf8_chars s) = s"
  by (induction s rule: utf8_chars.induct) auto

text \<open>Decimal rendering of unsigned integers.\<close>

definition digit_char :: "nat \<Rightarrow> char" where
  "digit_char d = char_of (48 + d)"

fun show_nat :: "nat \<Rightarrow> string" where
  "show_nat n = (if n < 10 then [digit_char n] else show_nat (n div 10) @ [digit_char (n mod 10)])"

declare show_nat.simps [simp del]

section \<open>Systems of operations and their invariants\<close>

text \<open>
  Components are state machines whose operations run under a lock, one after the other. Every
  component interprets this interface on its own operation type: an invariant that every operation
  keeps holds after every finite interleaving of operations.
\<close>

locale operation_system =
  fixes exec :: "'s \<Rightarrow> 'op \<Rightarrow> 's"
    and inv :: "'s \<Rightarrow> bool"
  assumes exec_inv: "inv s \<Longrightarrow> inv (exec s op)"
begin

lemma run_inv: "inv s \<Longrightarrow> inv (foldl exec s ops)"
  by (induction ops arbitrary: s) (auto intro: exec_inv)

lemma run_prefix_inv: "inv s \<Longrightarrow> inv (foldl exec s (take n ops))"
  by (rule run_inv)

end

text \<open>
  Operations can also be stable for a fact: once it holds of a state that satisfies the invariant,
  no operation undoes it.
\<close>

locale stable_fact = operation_system exec inv
  for exec :: "'s \<Rightarrow> 'op \<Rightarrow> 's" and inv :: "'s \<Rightarrow> bool" +
  fixes fact :: "'s \<Rightarrow> bool"
  assumes exec_fact: "inv s \<Longrightarrow> fact s \<Longrightarrow> fact (exec s op)"
begin

lemma run_fact: "inv s \<Longrightarrow> fact s \<Longrightarrow> fact (foldl exec s ops)"
  by (induction ops arbitrary: s) (auto intro: exec_inv exec_fact)

end

text \<open>
  A detailed system refines an abstract step relation when the abstraction of every operation is a step.
\<close>

locale simulation = operation_system exec inv
  for exec :: "'s \<Rightarrow> 'op \<Rightarrow> 's" and inv :: "'s \<Rightarrow> bool" +
  fixes abstraction :: "'s \<Rightarrow> 'a"
    and spec :: "'a \<Rightarrow> 'a \<Rightarrow> bool"
  assumes exec_sim: "inv s \<Longrightarrow> spec (abstraction s) (abstraction (exec s op))"
begin

lemma run_sim: "inv s \<Longrightarrow> spec\<^sup>*\<^sup>* (abstraction s) (abstraction (foldl exec s ops))"
  by (induction ops arbitrary: s) (auto intro: exec_inv exec_sim converse_rtranclp_into_rtranclp)

end

end
