(* ===== verification/Camera_Error.thy ===== *)
theory Camera_Error
  imports Prelude
begin

text \<open>
  The typed failures of the adapter (\<open>src/error.rs\<close>): the stable public error codes with their wire
  spelling, the internal error type, the mapping from the one to the other, and the sanitised detail
  that may leave the component. The three variants that wrap a foreign error type carry that error's
  rendering; the SQLite one also records whether its result code is the disk-full condition, the
  only part of it the adapter inspects.
\<close>

section \<open>Definitions\<close>

datatype error_code =
    BadArgs | NoSuchInstance | CameraDisabled | DeviceUnavailable | InstancePaused | CameraMoving
  | UnsupportedCapability | UnknownCaptureProfile | QueueFull | GroupTooLarge | ResourceLimit
  | CaptureTimeout | CaptureCancelled | ProcessInterrupted | CaptureNotFound | IdempotencyConflict
  | PreviousOutcomeUnknown | ReplyRequired | UnsupportedPixelFormat | StoragePressure
  | PersistenceFailed | PtzDisabled | PtzRangeError | PtzTimeout | ComponentStopping | BackendError

fun error_code_as_str :: "error_code \<Rightarrow> string" where
  "error_code_as_str BadArgs = ''BAD_ARGS''"
| "error_code_as_str NoSuchInstance = ''NO_SUCH_INSTANCE''"
| "error_code_as_str CameraDisabled = ''CAMERA_DISABLED''"
| "error_code_as_str DeviceUnavailable = ''DEVICE_UNAVAILABLE''"
| "error_code_as_str InstancePaused = ''PAUSED''"
| "error_code_as_str CameraMoving = ''CAMERA_MOVING''"
| "error_code_as_str UnsupportedCapability = ''UNSUPPORTED_CAPABILITY''"
| "error_code_as_str UnknownCaptureProfile = ''UNKNOWN_CAPTURE_PROFILE''"
| "error_code_as_str QueueFull = ''QUEUE_FULL''"
| "error_code_as_str GroupTooLarge = ''GROUP_TOO_LARGE''"
| "error_code_as_str ResourceLimit = ''RESOURCE_LIMIT''"
| "error_code_as_str CaptureTimeout = ''CAPTURE_TIMEOUT''"
| "error_code_as_str CaptureCancelled = ''CAPTURE_CANCELLED''"
| "error_code_as_str ProcessInterrupted = ''PROCESS_INTERRUPTED''"
| "error_code_as_str CaptureNotFound = ''CAPTURE_NOT_FOUND''"
| "error_code_as_str IdempotencyConflict = ''IDEMPOTENCY_CONFLICT''"
| "error_code_as_str PreviousOutcomeUnknown = ''PREVIOUS_OUTCOME_UNKNOWN''"
| "error_code_as_str ReplyRequired = ''REPLY_REQUIRED''"
| "error_code_as_str UnsupportedPixelFormat = ''UNSUPPORTED_PIXEL_FORMAT''"
| "error_code_as_str StoragePressure = ''STORAGE_PRESSURE''"
| "error_code_as_str PersistenceFailed = ''PERSISTENCE_FAILED''"
| "error_code_as_str PtzDisabled = ''PTZ_DISABLED''"
| "error_code_as_str PtzRangeError = ''PTZ_RANGE_ERROR''"
| "error_code_as_str PtzTimeout = ''PTZ_TIMEOUT''"
| "error_code_as_str ComponentStopping = ''COMPONENT_STOPPING''"
| "error_code_as_str BackendError = ''BACKEND_ERROR''"

datatype camera_error =
    ConfigError (config_path: string) (config_message: string)
  | Rejected (rejected_code: error_code) (rejected_message: string)
  | Backend (backend_kind: string) (backend_message: string)
  | CatalogError string
  | Messaging string
  | StorageError string
  | Io string
  | JsonError string
  | Sqlite (sqlite_disk_full: bool) (sqlite_detail: string)

type_synonym 'a result = "camera_error + 'a"

abbreviation rejected :: "error_code \<Rightarrow> string \<Rightarrow> camera_error" where
  "rejected \<equiv> Rejected"

text \<open>The \<open>Display\<close> rendering, meant for logs.\<close>

fun camera_error_display :: "camera_error \<Rightarrow> string" where
  "camera_error_display (ConfigError path message) =
     ''configuration error at '' @ path @ '': '' @ message"
| "camera_error_display (Rejected code message) = error_code_as_str code @ '': '' @ message"
| "camera_error_display (Backend backend message) =
     ''backend '' @ [CHR 0x27] @ backend @ [CHR 0x27] @ '' failed: '' @ message"
| "camera_error_display (CatalogError message) = ''catalog error: '' @ message"
| "camera_error_display (Messaging message) = ''messaging error: '' @ message"
| "camera_error_display (StorageError message) = ''storage error: '' @ message"
| "camera_error_display (Io detail) = ''I/O error: '' @ detail"
| "camera_error_display (JsonError detail) = ''JSON error: '' @ detail"
| "camera_error_display (Sqlite _ detail) = ''SQLite error: '' @ detail"

fun operator_detail :: "camera_error \<Rightarrow> string" where
  "operator_detail (Rejected _ message) = message"
| "operator_detail (ConfigError path message) = ''configuration error at '' @ path @ '': '' @ message"
| "operator_detail (Backend backend message) =
     ''backend '' @ [CHR 0x27] @ backend @ [CHR 0x27] @ '' failed: '' @ message"
| "operator_detail (CatalogError message) = message"
| "operator_detail (Messaging message) = message"
| "operator_detail (StorageError message) = message"
| "operator_detail (Io _) = ''the output filesystem reported an error''"
| "operator_detail (JsonError _) = ''a request or record could not be parsed''"
| "operator_detail (Sqlite _ _) = ''the durable store reported an error''"

fun error_code_of :: "camera_error \<Rightarrow> error_code" where
  "error_code_of (Rejected code _) = code"
| "error_code_of (StorageError _) = PersistenceFailed"
| "error_code_of (Io _) = PersistenceFailed"
| "error_code_of (Backend _ _) = BackendError"
| "error_code_of (ConfigError _ _) = BadArgs"
| "error_code_of (JsonError _) = BadArgs"
| "error_code_of (CatalogError _) = BackendError"
| "error_code_of (Messaging _) = BackendError"
| "error_code_of (Sqlite _ _) = BackendError"

definition is_durable_store_failure :: "camera_error \<Rightarrow> bool" where
  "is_durable_store_failure e = (case e of Sqlite _ _ \<Rightarrow> True | StorageError _ \<Rightarrow> True | _ \<Rightarrow> False)"

text \<open>The specification side of sanitisation: a foreign rendering is replaced by a blank one.\<close>

definition redact :: "camera_error \<Rightarrow> camera_error" where
  "redact e = (case e of Io _ \<Rightarrow> Io [] | JsonError _ \<Rightarrow> JsonError [] | Sqlite f _ \<Rightarrow> Sqlite f [] | _ \<Rightarrow> e)"

section \<open>Properties\<close>

lemma error_code_as_str_inj_aux: "error_code_as_str a = error_code_as_str b \<Longrightarrow> a = b"
  by (cases a; cases b; simp)

text \<open>No two public error codes share a wire spelling, and what leaves the component (the code
  and the operator detail) never depends on the text of a wrapped filesystem, JSON or SQLite error:
  it is the same as for the error with that text removed.\<close>

theorem public_error_sanitised:
  "inj error_code_as_str \<and>
   operator_detail (redact e) = operator_detail e \<and> error_code_of (redact e) = error_code_of e \<and>
   is_durable_store_failure (redact e) = is_durable_store_failure e"
proof (intro conjI)
  show "inj error_code_as_str" by (rule injI) (rule error_code_as_str_inj_aux)
qed (cases e; simp add: redact_def is_durable_store_failure_def)+

end
