(* ===== verification/Model.thy ===== *)
theory Model
  imports Complex_Main Prelude
begin

text \<open>
  The protocol-neutral value types of \<open>src/model.rs\<close>: backend kinds, pixel formats and output
  encodings, capture frames, PTZ vectors and requests, capabilities, and the durable job states with
  their stage graph. A finite \<open>f64\<close> is the rational number it denotes; the non-finite ones are kept
  apart because the range checks reject them.
\<close>

section \<open>Definitions\<close>

datatype BackendKind = Sim | GenicamAravis | OnvifRtsp | Rtsp

fun backend_kind_as_str :: "BackendKind \<Rightarrow> string" where
  "backend_kind_as_str Sim = ''sim''"
| "backend_kind_as_str GenicamAravis = ''genicam-aravis''"
| "backend_kind_as_str OnvifRtsp = ''onvif-rtsp''"
| "backend_kind_as_str Rtsp = ''rtsp''"

datatype PixelFormat = Mono8 | Rgb8 | Bgr8 | Px_Jpeg

definition uncompressed_len :: "PixelFormat \<Rightarrow> 32 word \<Rightarrow> 32 word \<Rightarrow> u64 option" where
  "uncompressed_len fmt width height =
     (case (case fmt of Mono8 \<Rightarrow> Some (1 :: u64) | Rgb8 \<Rightarrow> Some 3 | Bgr8 \<Rightarrow> Some 3 | Px_Jpeg \<Rightarrow> None) of
        None \<Rightarrow> None
      | Some channels \<Rightarrow>
          (case checked_mul (ucast width :: u64) (ucast height) of
             None \<Rightarrow> None
           | Some area \<Rightarrow> checked_mul area channels))"

datatype OutputEncoding = Passthrough | Out_Jpeg | Png | Tiff | Raw

datatype CaptureMode = Simulated | SoftwareTrigger | SnapshotUri | RtspFrame

datatype FrameTimestampQuality = TsCamera | TsStream | TsAdapterReceive | TsUnknown

record CaptureFrame =
  cf_bytes :: "8 word list"
  cf_width :: "32 word"
  cf_height :: "32 word"
  cf_pixel_format :: PixelFormat
  cf_capture_mode :: CaptureMode
  cf_source_timestamp :: "int option"
  cf_timestamp_quality :: FrameTimestampQuality

datatype f64 = NaN | PosInf | NegInf | Finite rat

fun f64_in :: "rat \<Rightarrow> rat \<Rightarrow> f64 \<Rightarrow> bool" where
  "f64_in lo hi (Finite x) = (lo \<le> x \<and> x \<le> hi)"
| "f64_in lo hi _ = False"

record PtzVector =
  pan :: f64
  tilt :: f64
  zoom :: f64

definition validate_signed :: "PtzVector \<Rightarrow> bool" where
  "validate_signed v = list_all (f64_in (-1) 1) [pan v, tilt v, zoom v]"

definition validate_absolute :: "PtzVector \<Rightarrow> bool" where
  "validate_absolute v = (f64_in (-1) 1 (pan v) \<and> f64_in (-1) 1 (tilt v) \<and> f64_in 0 1 (zoom v))"

datatype JobState =
    Accepted | Queued | Acquiring | Encoding | Persisting
  | Succeeded | Failed | Cancelled | Interrupted

definition is_terminal :: "JobState \<Rightarrow> bool" where
  "is_terminal s = (s \<in> {Succeeded, Failed, Cancelled, Interrupted})"

fun can_transition_to :: "JobState \<Rightarrow> JobState \<Rightarrow> bool" where
  "can_transition_to Accepted next = (next \<in> {Queued, Interrupted})"
| "can_transition_to Queued next = (next \<in> {Acquiring, Failed, Cancelled, Interrupted})"
| "can_transition_to Acquiring next =
     (next \<in> {Encoding, Persisting, Failed, Cancelled, Interrupted})"
| "can_transition_to Encoding next = (next \<in> {Persisting, Failed, Cancelled, Interrupted})"
| "can_transition_to Persisting next = (next \<in> {Succeeded, Failed, Cancelled, Interrupted})"
| "can_transition_to _ next = False"

text \<open>A run of the stage graph: each state may move to the next one.\<close>

fun job_path :: "JobState \<Rightarrow> JobState list \<Rightarrow> bool" where
  "job_path s [] = True"
| "job_path s (t # ts) = (can_transition_to s t \<and> job_path t ts)"

text \<open>How many stages are left at most.\<close>

fun stages_left :: "JobState \<Rightarrow> nat" where
  "stages_left Accepted = 5"
| "stages_left Queued = 4"
| "stages_left Acquiring = 3"
| "stages_left Encoding = 2"
| "stages_left Persisting = 1"
| "stages_left _ = 0"

section \<open>The stage graph\<close>

lemma is_terminal_simps [simp]:
  "\<not> is_terminal Accepted" "\<not> is_terminal Queued" "\<not> is_terminal Acquiring" "\<not> is_terminal Encoding"
  "\<not> is_terminal Persisting" "is_terminal Succeeded" "is_terminal Failed" "is_terminal Cancelled"
  "is_terminal Interrupted"
  by (simp_all add: is_terminal_def)

lemma terminal_no_transition: "is_terminal s \<Longrightarrow> \<not> can_transition_to s t"
  by (cases s) auto

lemma nonterminal_transition: "\<not> is_terminal s \<Longrightarrow> can_transition_to s Interrupted"
  by (cases s) auto

lemma transition_stages_left: "can_transition_to s t \<Longrightarrow> stages_left t < stages_left s"
  by (cases s) auto

lemma job_path_length: "job_path s ts \<Longrightarrow> length ts \<le> stages_left s"
proof (induction ts arbitrary: s)
  case (Cons t ts)
  then have "length ts \<le> stages_left t" "stages_left t < stages_left s"
    by (auto dest: transition_stages_left)
  then show ?case by simp
qed simp

lemma job_path_to_success:
  "job_path s ts \<Longrightarrow> ts \<noteq> [] \<Longrightarrow> last ts = Succeeded \<Longrightarrow> s = Persisting \<or> Persisting \<in> set ts"
proof (induction ts arbitrary: s)
  case (Cons t ts)
  then show ?case by (cases "ts = []"; cases s) auto
qed simp

text \<open>C30: The durable stage graph: a state is terminal exactly when it has no successor, every run
  from any state has at most five steps (so a job cannot cycle through its stages), and no run
  reaches SUCCEEDED without having been PERSISTING.\<close>

theorem job_stage_graph:
  "(is_terminal s \<longleftrightarrow> (\<forall>t. \<not> can_transition_to s t)) \<and>
   (job_path s ts \<longrightarrow> length ts \<le> 5 \<and>
     (s \<noteq> Persisting \<and> ts \<noteq> [] \<and> last ts = Succeeded \<longrightarrow> Persisting \<in> set ts))"
proof -
  have "stages_left s \<le> 5" by (cases s) auto
  then show ?thesis
    using terminal_no_transition nonterminal_transition job_path_length [of s ts]
      job_path_to_success [of s ts] by fastforce
qed

theorem job_stage_graph_witness:
  "job_path Accepted [Queued, Acquiring, Encoding, Persisting, Succeeded] \<and>
   Persisting \<in> set [Queued, Acquiring, Encoding, Persisting, Succeeded]"
proof -
  have "job_path Accepted [Queued, Acquiring, Encoding, Persisting, Succeeded]" by simp
  then show ?thesis
    using job_stage_graph [of Accepted "[Queued, Acquiring, Encoding, Persisting, Succeeded]"] by simp
qed

section \<open>Frame sizes\<close>

definition channels_of :: "PixelFormat \<Rightarrow> nat" where
  "channels_of fmt = (case fmt of Mono8 \<Rightarrow> 1 | Rgb8 \<Rightarrow> 3 | Bgr8 \<Rightarrow> 3 | Px_Jpeg \<Rightarrow> 0)"

lemma unat_ucast_32_64 [simp]: "unat (ucast (w :: 32 word) :: u64) = unat w"
proof -
  have "unat w < 2 ^ 64" using unsigned_less [of w, where ?'a = nat] by simp
  then show ?thesis by (simp add: unsigned_ucast_eq take_bit_nat_eq_self)
qed

lemma area_no_overflow: "unat (w :: 32 word) * unat (h :: 32 word) < 2 ^ 64"
proof -
  have "unat w < 2 ^ 32" "unat h < 2 ^ 32"
    using unsigned_less [of w, where ?'a = nat] unsigned_less [of h, where ?'a = nat] by simp_all
  then have "unat w * unat h < 2 ^ 32 * 2 ^ 32" by (intro mult_strict_mono) auto
  then show ?thesis by simp
qed

text \<open>The byte count of an uncompressed frame is exact: it is returned exactly when the format is
  uncompressed and the product fits 64 bits, and never a wrapped value.\<close>

lemma uncompressed_len_exact:
  "uncompressed_len fmt w h = Some n \<longleftrightarrow>
     fmt \<noteq> Px_Jpeg \<and> unat w * unat h * channels_of fmt < 2 ^ 64 \<and>
     unat n = unat w * unat h * channels_of fmt"
proof -
  obtain a :: u64 where a: "checked_mul (ucast w :: u64) (ucast h) = Some a"
    and ua: "unat a = unat w * unat h"
    using area_no_overflow [of w h]
    by (auto simp: checked_mul_def unat_word_ariths)
  show ?thesis
    by (cases fmt) (auto simp: uncompressed_len_def a ua checked_mul_Some_iff channels_of_def)
qed

end
