(* ===== verification/Json.thy ===== *)
theory Json
  imports Model
begin

text \<open>
  JSON values as \<open>serde_json::Value\<close> holds them. A number keeps the three representations of
  \<open>serde_json::Number\<close>: a non-negative integer below \<open>2^64\<close>, a negative integer, or a finite float.
  An object is the list of its entries in the order the map iterates them.
\<close>

datatype json_number = PosInt u64 | NegInt int | Float f64

datatype json =
    JNull
  | JBool bool
  | is_JNumber: JNumber json_number
  | is_JString: JString string
  | is_JArray: JArray "json list"
  | is_JObject: JObject "(string \<times> json) list"

section \<open>Accessors\<close>

fun json_as_str :: "json \<Rightarrow> string option" where
  "json_as_str (JString s) = Some s"
| "json_as_str _ = None"

fun json_as_u64 :: "json \<Rightarrow> u64 option" where
  "json_as_u64 (JNumber (PosInt n)) = Some n"
| "json_as_u64 _ = None"

fun json_as_i64 :: "json \<Rightarrow> int option" where
  "json_as_i64 (JNumber (PosInt n)) = (if unat n < 2 ^ 63 then Some (uint n) else None)"
| "json_as_i64 (JNumber (NegInt n)) = Some n"
| "json_as_i64 _ = None"

fun json_is_boolean :: "json \<Rightarrow> bool" where
  "json_is_boolean (JBool _) = True"
| "json_is_boolean _ = False"

fun f64_is_finite :: "f64 \<Rightarrow> bool" where
  "f64_is_finite (Finite _) = True"
| "f64_is_finite _ = False"

text \<open>\<open>value.as_f64().is_some_and(f64::is_finite)\<close>: every integer of the format converts to a finite
  float.\<close>

fun json_is_finite_number :: "json \<Rightarrow> bool" where
  "json_is_finite_number (JNumber (PosInt _)) = True"
| "json_is_finite_number (JNumber (NegInt _)) = True"
| "json_is_finite_number (JNumber (Float x)) = f64_is_finite x"
| "json_is_finite_number _ = False"

end
