(* ===== verification/Config_Data.thy ===== *)
theory Config_Data
  imports Camera_Error Json
begin

text \<open>
  The deserialized configuration records of \<open>src/config.rs\<close> with their defaults. Unsigned 64-bit
  fields are words; counts (\<open>usize\<close>) and the narrower integers are natural numbers, except the
  image dimensions, which stay 32-bit words because frame sizes are computed from them. A \<open>BTreeMap\<close>
  is the association list of its entries in key order. The allowed CIDR lists are left out: no
  validation reads them.
\<close>

section \<open>Records\<close>

record OutputConfig =
  root_directory :: string
  camera_directory_template :: string
  file_name_template :: string
  write_metadata_sidecar :: bool
  minimum_free_bytes :: u64
  minimum_free_percent :: nat
  directory_mode :: string
  file_mode :: string

datatype QueuedRecoveryPolicy = Requeue | Interrupt

record StateConfig =
  state_directory :: "string option"
  result_retention_hours :: nat
  max_result_records :: u64
  queued_recovery_policy :: QueuedRecoveryPolicy

definition StateConfig_default :: StateConfig where
  "StateConfig_default = \<lparr>state_directory = None, result_retention_hours = 72,
     max_result_records = 100000, queued_recovery_policy = Requeue\<rparr>"

record ResourceGroupConfig =
  rg_max_concurrent_captures :: nat

record LimitsConfig =
  max_connected_cameras :: nat
  max_concurrent_captures :: nat
  max_concurrent_encodes :: nat
  max_concurrent_writes :: nat
  max_concurrent_connects :: nat
  max_in_flight_bytes :: u64
  max_frame_bytes_per_camera :: u64
  max_metadata_bytes :: nat
  max_queued_captures_per_camera :: nat
  max_queued_controls_per_camera :: nat
  max_deferred_waiters_per_capture :: nat
  max_cameras_per_group :: nat
  max_pending_captures :: nat
  max_queue_wait_ms :: u64
  lim_resource_groups :: "(string \<times> ResourceGroupConfig) list"

definition MIB :: u64 where "MIB = 1024 * 1024"
definition GIB :: u64 where "GIB = 1024 * MIB"

definition LimitsConfig_default :: "nat \<Rightarrow> LimitsConfig" where
  "LimitsConfig_default available_parallelism = \<lparr>max_connected_cameras = 256,
     max_concurrent_captures = 32, max_concurrent_encodes = min available_parallelism 8,
     max_concurrent_writes = 8, max_concurrent_connects = 16, max_in_flight_bytes = 32 * 64 * MIB,
     max_frame_bytes_per_camera = 64 * MIB, max_metadata_bytes = 8 * 1024,
     max_queued_captures_per_camera = 4, max_queued_controls_per_camera = 32,
     max_deferred_waiters_per_capture = 8, max_cameras_per_group = 32, max_pending_captures = 256,
     max_queue_wait_ms = 300000, lim_resource_groups = []\<rparr>"

record TimeoutsConfig =
  connect_ms :: u64
  reconnect_backoff_min_ms :: u64
  reconnect_backoff_max_ms :: u64
  job_terminal_ms :: u64
  capture_ms :: u64
  encode_ms :: u64
  persist_ms :: u64
  ptz_ms :: u64
  reply_margin_ms :: u64
  max_deferred_reply_lifetime_ms :: u64
  reload_drain_timeout_ms :: u64
  shutdown_grace_ms :: u64

definition TimeoutsConfig_default :: TimeoutsConfig where
  "TimeoutsConfig_default = \<lparr>connect_ms = 10000, reconnect_backoff_min_ms = 1000,
     reconnect_backoff_max_ms = 60000, job_terminal_ms = 90000, capture_ms = 30000,
     encode_ms = 30000, persist_ms = 30000, ptz_ms = 10000, reply_margin_ms = 5000,
     max_deferred_reply_lifetime_ms = 95000, reload_drain_timeout_ms = 30000,
     shutdown_grace_ms = 30000\<rparr>"

record DiscoveryConfig =
  disc_enabled :: bool
  report_unconfigured :: bool
  interval_seconds :: u64
  max_results :: nat
  eligible_interfaces :: "string list"

definition DiscoveryConfig_default :: DiscoveryConfig where
  "DiscoveryConfig_default = \<lparr>disc_enabled = False, report_unconfigured = False,
     interval_seconds = 60, max_results = 1000, eligible_interfaces = []\<rparr>"

record OperatorEventsConfig =
  capture_lifecycle :: bool

record HealthThresholdsConfig =
  stale_signal_secs :: u64

record SecurityConfig =
  max_header_bytes :: nat
  max_decompression_ratio :: nat
  allow_basic_over_plaintext :: bool

definition SecurityConfig_default :: SecurityConfig where
  "SecurityConfig_default = \<lparr>max_header_bytes = 65536, max_decompression_ratio = 100,
     allow_basic_over_plaintext = False\<rparr>"

datatype MisfirePolicy = Misfire_Skip | Coalesce
datatype OverlapPolicy = Overlap_Skip | Overlap_Queue

record CaptureGroupScheduleConfig =
  gs_id :: string
  gs_enabled :: bool
  gs_cron :: string
  gs_timezone :: string
  gs_instances :: "string list"
  gs_capture_profile :: "string option"
  gs_profile_overrides :: "(string \<times> string) list"
  gs_misfire_policy :: MisfirePolicy
  gs_overlap_policy :: OverlapPolicy
  gs_jitter_seconds :: nat
  gs_timeout_ms :: "u64 option"

record GlobalConfig =
  g_output :: OutputConfig
  g_state :: StateConfig
  g_limits :: LimitsConfig
  g_timeouts :: TimeoutsConfig
  g_discovery :: DiscoveryConfig
  g_operator_events :: OperatorEventsConfig
  g_health_thresholds :: HealthThresholdsConfig
  g_security :: SecurityConfig
  g_capture_group_schedules :: "CaptureGroupScheduleConfig list"

record SimPlaylistConfig =
  playlist_directory :: string
  playlist_include :: "string list"
  playlist_seeded :: bool
  loop_playlist :: bool

datatype SimPattern = ColorBars | Gradient | Checkerboard | Solid | Playlist SimPlaylistConfig

fun sim_playlist :: "SimPattern \<Rightarrow> SimPlaylistConfig option" where
  "sim_playlist (Playlist p) = Some p"
| "sim_playlist _ = None"

record SimFrameConfig =
  sim_width :: "32 word"
  sim_height :: "32 word"
  sim_pixel_format :: PixelFormat
  sim_pattern :: SimPattern

record SimPtzConfig =
  ptz_supported :: bool
  status_supported :: bool
  presets_supported :: bool

record SimFaultConfig =
  disconnect_after_captures :: "u64 option"
  fail_every_nth_capture :: "u64 option"
  incomplete_every_nth_capture :: "u64 option"

record SimBackendConfig =
  simulated_id :: "string option"
  sim_seed :: "u64 option"
  sim_frame :: SimFrameConfig
  connect_delay_ms :: u64
  capture_delay_ms :: u64
  sim_ptz :: SimPtzConfig
  sim_faults :: SimFaultConfig

record GenicamSelector =
  sel_serial :: "string option"
  sel_mac :: "string option"
  sel_device_id :: "string option"
  sel_ip :: "string option"

datatype GenicamTransport = Transport_Auto | GigeVision | Usb3Vision

record GenicamBackendConfig =
  genicam_selector :: GenicamSelector
  genicam_transport :: GenicamTransport
  genicam_interface :: "string option"
  packet_size :: "json option"
  packet_delay_ns :: "u64 option"
  buffer_count :: "nat option"
  feature_overrides :: "(string \<times> json) list"

record SecretRef =
  secret_name :: string
  secret_field :: "string option"

record TlsConfig =
  tls_ca :: "SecretRef option"
  verify_hostname :: bool

datatype RtspSessionPolicy = OnDemand | Warm
datatype MediaService = Media_Auto | Media1 | Media2
datatype AuthenticationMode = Auth_Auto | HttpDigest | WsseDigest | Basic

record OnvifBackendConfig =
  device_service_url :: "string option"
  endpoint_reference :: "string option"
  onvif_credentials :: "SecretRef option"
  media_profile :: string
  onvif_capture_mode :: CaptureMode
  rtsp_fallback :: bool
  onvif_session_policy :: RtspSessionPolicy
  onvif_allow_insecure :: bool
  onvif_allowed_uri_hosts :: "string list"
  max_soap_bytes :: u64
  max_snapshot_bytes :: u64
  max_xml_depth :: nat
  onvif_tls :: TlsConfig
  media_service :: MediaService
  onvif_authentication_mode :: AuthenticationMode

record RtspBackendConfig =
  rtsp_url :: string
  rtsp_credentials :: "SecretRef option"
  rtsp_tls :: TlsConfig
  rtsp_allow_insecure :: bool
  rtsp_allowed_uri_hosts :: "string list"
  rtsp_session_policy :: RtspSessionPolicy
  rtsp_capture_mode :: CaptureMode
  rtsp_max_frame_bytes :: u64
  rtsp_authentication_mode :: AuthenticationMode

datatype BackendConfig =
    SimCfg SimBackendConfig
  | GenicamCfg GenicamBackendConfig
  | OnvifCfg OnvifBackendConfig
  | RtspCfg RtspBackendConfig

fun backend_config_kind :: "BackendConfig \<Rightarrow> BackendKind" where
  "backend_config_kind (SimCfg _) = Sim"
| "backend_config_kind (GenicamCfg _) = GenicamAravis"
| "backend_config_kind (OnvifCfg _) = OnvifRtsp"
| "backend_config_kind (RtspCfg _) = Rtsp"

datatype ThumbnailSize = Small | Medium | Large

fun longest_edge :: "ThumbnailSize \<Rightarrow> nat" where
  "longest_edge Small = 160"
| "longest_edge Medium = 320"
| "longest_edge Large = 640"

datatype OfflinePolicy = FailFast | WaitUntilDeadline | Offline_Queue
datatype CaptureInterlock = Reject | StopAndSettle | Allow

record CaptureProfile =
  prof_capture_mode :: "CaptureMode option"
  prof_offline_policy :: "OfflinePolicy option"
  prof_queue_expiry_ms :: "u64 option"
  prof_timeout_ms :: "u64 option"
  prof_maximum_frame_bytes :: "u64 option"
  prof_pixel_format :: "PixelFormat option"
  region_width :: "32 word option"
  region_height :: "32 word option"
  offset_x :: "32 word option"
  offset_y :: "32 word option"
  prof_exposure_micros :: "u64 option"
  prof_gain :: "f64 option"
  prof_encoding :: OutputEncoding
  prof_jpeg_quality :: nat
  prof_thumbnail :: "ThumbnailSize option"
  profile_interlock :: "CaptureInterlock option"

record ScheduleConfig =
  sc_id :: string
  sc_enabled :: bool
  sc_cron :: string
  sc_timezone :: string
  sc_capture_profile :: string
  sc_misfire_policy :: MisfirePolicy
  sc_overlap_policy :: OverlapPolicy
  sc_jitter_seconds :: nat

record PtzConfig =
  ptz_enabled :: bool
  maximum_continuous_move_ms :: u64
  capture_interlock :: CaptureInterlock
  settle_ms :: u64
  allow_preset_mutation :: bool

definition PtzConfig_default :: PtzConfig where
  "PtzConfig_default = \<lparr>ptz_enabled = False, maximum_continuous_move_ms = 10000,
     capture_interlock = Reject, settle_ms = 750, allow_preset_mutation = False\<rparr>"

record CameraConfig =
  cam_id :: string
  cam_enabled :: bool
  cam_resource_group :: "string option"
  cam_backend :: BackendConfig
  default_capture_profile :: string
  capture_profiles :: "(string \<times> CaptureProfile) list"
  cam_schedules :: "ScheduleConfig list"
  cam_ptz :: PtzConfig

record AdapterConfig =
  ad_global :: GlobalConfig
  ad_instances :: "CameraConfig list"

record ConfigIssue =
  ci_instance :: "string option"
  ci_path :: string
  ci_message :: string

end
