(* ===== verification/Config.thy ===== *)
theory Config
  imports Config_Data
begin

text \<open>
  Validation of the configuration (\<open>src/config.rs\<close>), which stands between a configuration document
  and every other component, and the two loaders built on it: startup, which skips invalid camera
  instances, and reload, which rejects the whole candidate.

  What is not in this repository is a parameter: the deserializer of the global block and of one
  instance, the cron parser (\<open>cron_ok\<close>), the timezone table (\<open>tz_ok\<close>) and the URL parser
  (\<open>url_parse\<close>). The IPv4 parser of the standard library enters as \<open>ipv4_ok\<close>, and the \<open>rtsp\<close> build
  feature as a boolean. Paths follow the POSIX target.

  Shown: what an accepted configuration guarantees, that startup and reload agree exactly where they
  should, and two places where an accepted configuration falls short of the documented rule.
\<close>

section \<open>Elementary checks\<close>

definition config_error :: "string \<Rightarrow> string \<Rightarrow> 'a result" where
  "config_error path message = Inl (ConfigError path message)"

definition range_message :: "nat \<Rightarrow> nat \<Rightarrow> string" where
  "range_message minimum maximum =
     ''must be in range '' @ show_nat minimum @ ''..='' @ show_nat maximum"

definition range_u64 :: "u64 \<Rightarrow> u64 \<Rightarrow> u64 \<Rightarrow> string \<Rightarrow> unit result" where
  "range_u64 value minimum maximum path =
     (if \<not> (minimum \<le> value \<and> value \<le> maximum)
      then config_error path (range_message (unat minimum) (unat maximum)) else Inr ())"

definition range_usize :: "nat \<Rightarrow> nat \<Rightarrow> nat \<Rightarrow> string \<Rightarrow> unit result" where
  "range_usize value minimum maximum path =
     (if \<not> (minimum \<le> value \<and> value \<le> maximum)
      then config_error path (range_message minimum maximum) else Inr ())"

definition is_ascii_alphabetic :: "char \<Rightarrow> bool" where
  "is_ascii_alphabetic c = ((65 \<le> (of_char c :: nat) \<and> (of_char c :: nat) \<le> 90) \<or>
     (97 \<le> (of_char c :: nat) \<and> (of_char c :: nat) \<le> 122))"

definition is_ascii_digit :: "char \<Rightarrow> bool" where
  "is_ascii_digit c = (48 \<le> (of_char c :: nat) \<and> (of_char c :: nat) \<le> 57)"

definition is_ascii_hexdigit :: "char \<Rightarrow> bool" where
  "is_ascii_hexdigit c = (is_ascii_digit c \<or>
     (65 \<le> (of_char c :: nat) \<and> (of_char c :: nat) \<le> 70) \<or>
     (97 \<le> (of_char c :: nat) \<and> (of_char c :: nat) \<le> 102))"

definition is_token_byte :: "char \<Rightarrow> bool" where
  "is_token_byte c =
     (is_ascii_alphabetic c \<or> is_ascii_digit c \<or> c = CHR ''-'' \<or> c = CHR ''_'' \<or> c = CHR ''.'')"

definition check_token :: "string \<Rightarrow> string \<Rightarrow> unit result" where
  "check_token value path =
     (if value = [] \<or> 128 < length value \<or> list_ex (\<lambda>byte. \<not> is_token_byte byte) value
      then config_error path
             (''must be a non-empty UNS token using ASCII letters, digits, '.', '_', or '' @
              [CHR 0x27, CHR ''-'', CHR 0x27])
      else Inr ())"

definition is_absolute_cross_platform :: "string \<Rightarrow> bool" where
  "is_absolute_cross_platform value =
     (starts_with ''/'' value \<or> starts_with [CHR 0x5C, CHR 0x5C] value \<or>
      (3 \<le> length value \<and> is_ascii_alphabetic (value ! 0) \<and> value ! 1 = CHR '':'' \<and>
       (value ! 2 = CHR ''/'' \<or> value ! 2 = CHR 0x5C)))"

definition require_absolute :: "string \<Rightarrow> string \<Rightarrow> unit result" where
  "require_absolute value path =
     (if \<not> is_absolute_cross_platform value
      then config_error path ''must be an absolute POSIX, drive-qualified, or UNC path''
      else Inr ())"

definition template_variables :: "string list" where
  "template_variables =
     [''cameraId'', ''yyyy'', ''MM'', ''dd'', ''timestamp'', ''captureId'', ''extension'']"

text \<open>The scan of the template variables: only the text after the last variable is searched for an
  unmatched closing brace.\<close>

function template_scan :: "string \<Rightarrow> string \<Rightarrow> unit result" where
  "template_scan path remainder =
     (case split_at (CHR ''{'') remainder of
        None \<Rightarrow>
          if CHR ''}'' \<in> set remainder
          then config_error path (''contains an unmatched '' @ [CHR 0x27, CHR ''}'', CHR 0x27])
          else Inr ()
      | Some (before, after) \<Rightarrow>
          (case split_at (CHR ''}'') after of
             None \<Rightarrow> config_error path ''contains an unclosed template variable''
           | Some (var, rest) \<Rightarrow>
               if var \<notin> set template_variables
               then config_error path (''unknown template variable '' @ [CHR 0x27, CHR ''{''] @
                      var @ [CHR ''}'', CHR 0x27])
               else template_scan path rest))"
  by pat_completeness auto
termination
  by (relation "measure (\<lambda>(path, remainder). length remainder)")
     (auto dest!: split_at_length)

declare template_scan.simps [simp del]

definition validate_template :: "string \<Rightarrow> bool \<Rightarrow> unit result" where
  "validate_template template directory =
     (let path = (if directory then ''component.global.output.cameraDirectoryTemplate''
                  else ''component.global.output.fileNameTemplate'')
      in if template = [] \<or> 1024 < length template
         then config_error path ''must be 1..1024 bytes''
         else if is_absolute_cross_platform template \<or>
                 ''..'' \<in> set (split_on (\<lambda>c. c = CHR ''/'' \<or> c = CHR 0x5C) template)
         then config_error path (''must be relative and may not contain '' @
                [CHR 0x27] @ ''..'' @ [CHR 0x27])
         else template_scan path template)"

definition octal_value :: "string \<Rightarrow> nat" where
  "octal_value value = foldl (\<lambda>acc c. 8 * acc + (of_char c - 48)) 0 value"

definition validate_mode :: "string \<Rightarrow> bool \<Rightarrow> string \<Rightarrow> unit result" where
  "validate_mode value file path =
     (if length value \<noteq> 4 \<or> \<not> starts_with ''0'' value \<or>
         \<not> list_all (\<lambda>c. 48 \<le> (of_char c :: nat) \<and> (of_char c :: nat) \<le> 55) value
      then config_error path ''must be a four-digit octal mode''
      else let mode = (of_nat (octal_value value) :: 16 word)
      in if and mode 0xE00 \<noteq> 0 \<or> (file \<and> and mode 0x49 \<noteq> 0)
         then config_error path ''special bits and file execute bits are forbidden''
         else Inr ())"

section \<open>The global block\<close>

definition validate_output :: "OutputConfig \<Rightarrow> unit result" where
  "validate_output out = checks
     [require_absolute (root_directory out) ''component.global.output.rootDirectory'',
      validate_template (camera_directory_template out) True,
      validate_template (file_name_template out) False,
      (if \<not> contains_str ''{captureId}'' (file_name_template out) \<and>
          \<not> contains_str ''{captureId}'' (camera_directory_template out)
       then config_error ''component.global.output.fileNameTemplate''
              (''must contain {captureId} so that two captures cannot resolve to the same file;'' @
               ''              {cameraId} and the date parts repeat, and a capture that cannot be'' @
               '' written without              overwriting another is refused and fails with'' @
               '' PERSISTENCE_FAILED'')
       else Inr ()),
      range_usize (minimum_free_percent out) 0 100 ''component.global.output.minimumFreePercent'',
      validate_mode (directory_mode out) False ''component.global.output.directoryMode'',
      validate_mode (file_mode out) True ''component.global.output.fileMode'']"

definition validate_state :: "StateConfig \<Rightarrow> unit result" where
  "validate_state st = checks
     [(case state_directory st of None \<Rightarrow> Inr ()
       | Some directory \<Rightarrow> require_absolute directory ''component.global.state.directory''),
      range_usize (result_retention_hours st) 1 8760 ''component.global.state.resultRetentionHours'',
      range_u64 (max_result_records st) 1000 10000000 ''component.global.state.maxResultRecords'']"

definition validate_limit_ranges :: "LimitsConfig \<Rightarrow> unit result" where
  "validate_limit_ranges lims = checks
     [range_usize (max_connected_cameras lims) 1 4096 ''limits.maxConnectedCameras'',
      range_usize (max_concurrent_captures lims) 1 256 ''limits.maxConcurrentCaptures'',
      range_usize (max_concurrent_encodes lims) 1 64 ''limits.maxConcurrentEncodes'',
      range_usize (max_concurrent_writes lims) 1 64 ''limits.maxConcurrentWrites'',
      range_usize (max_concurrent_connects lims) 1 256 ''limits.maxConcurrentConnects'',
      range_u64 (max_in_flight_bytes lims) (64 * MIB) (- 1) ''limits.maxInFlightBytes'',
      range_u64 (max_frame_bytes_per_camera lims) MIB (2 * GIB) ''limits.maxFrameBytesPerCamera'',
      range_usize (max_metadata_bytes lims) 0 65536 ''limits.maxMetadataBytes'',
      range_usize (max_queued_captures_per_camera lims) 1 1000 ''limits.maxQueuedCapturesPerCamera'',
      range_usize (max_queued_controls_per_camera lims) 1 1024 ''limits.maxQueuedControlsPerCamera'',
      range_usize (max_deferred_waiters_per_capture lims) 1 64 ''limits.maxDeferredWaitersPerCapture'',
      range_usize (max_cameras_per_group lims) 2 256 ''limits.maxCamerasPerGroup'']"

definition validate_pending_limits :: "LimitsConfig \<Rightarrow> unit result" where
  "validate_pending_limits lims =
     (if max_pending_captures lims < max_queued_captures_per_camera lims
      then config_error ''component.global.limits.maxPendingCaptures''
             (''must be at least maxQueuedCapturesPerCamera ('' @
              show_nat (max_queued_captures_per_camera lims) @ ''); '' @
              show_nat (max_pending_captures lims) @
              '' would cap the component's                  whole backlog below what a single'' @
              '' camera is permitted to queue'')
      else if max_pending_captures lims = 0 \<or> max_queue_wait_ms lims = 0
      then config_error ''component.global.limits.maxPendingCaptures''
             ''maxPendingCaptures and maxQueueWaitMs must be positive''
      else Inr ())"

definition validate_byte_budget :: "LimitsConfig \<Rightarrow> unit result" where
  "validate_byte_budget lims =
     (let required_in_flight =
            saturating_mul_u64 (of_nat (max_concurrent_captures lims)) (max_frame_bytes_per_camera lims)
      in if max_in_flight_bytes lims < required_in_flight
         then let admits = show_nat (unat (max_in_flight_bytes lims) div
                             max (unat (max_frame_bytes_per_camera lims)) 1);
                  width = show_nat (max_concurrent_captures lims)
         in config_error ''component.global.limits.maxInFlightBytes''
              (''must be at least maxConcurrentCaptures x maxFrameBytesPerCamera ('' @ width @ '' x '' @
               show_nat (unat (max_frame_bytes_per_camera lims)) @ '' = '' @
               show_nat (unat required_in_flight) @ '' bytes); '' @
               show_nat (unat (max_in_flight_bytes lims)) @ '' admits only '' @ admits @
               '' concurrent capture(s), so a component configured for '' @ width @
               '' would silently run '' @ admits @ ''-wide and time the rest out'')
         else Inr ())"

definition validate_resource_groups :: "LimitsConfig \<Rightarrow> unit result" where
  "validate_resource_groups lims = for_each (\<lambda>(name, group).
     and_then (check_token name ''component.global.limits.resourceGroups'') (\<lambda>_.
       if rg_max_concurrent_captures group = 0 \<or>
          max_concurrent_captures lims < rg_max_concurrent_captures group
       then config_error
              (''component.global.limits.resourceGroups.'' @ name @ ''.maxConcurrentCaptures'')
              ''must be between 1 and global maxConcurrentCaptures''
       else Inr ())) (lim_resource_groups lims)"

definition validate_limits :: "LimitsConfig \<Rightarrow> unit result" where
  "validate_limits lims = checks
     [validate_limit_ranges lims, validate_pending_limits lims, validate_byte_budget lims,
      validate_resource_groups lims]"

definition validate_timeouts :: "TimeoutsConfig \<Rightarrow> unit result" where
  "validate_timeouts t = checks
     [range_u64 (connect_ms t) 100 300000 ''timeouts.connectMs'',
      range_u64 (reconnect_backoff_min_ms t) 100 60000 ''timeouts.reconnectBackoffMinMs'',
      range_u64 (reconnect_backoff_max_ms t) (reconnect_backoff_min_ms t) 3600000
        ''timeouts.reconnectBackoffMaxMs'',
      range_u64 (job_terminal_ms t) 1000 1800000 ''timeouts.jobTerminalMs'',
      range_u64 (capture_ms t) 100 600000 ''timeouts.captureMs'',
      range_u64 (encode_ms t) 100 600000 ''timeouts.encodeMs'',
      range_u64 (persist_ms t) 100 600000 ''timeouts.persistMs'',
      range_u64 (ptz_ms t) 100 60000 ''timeouts.ptzMs'',
      range_u64 (reply_margin_ms t) 100 60000 ''timeouts.replyMarginMs'',
      range_u64 (max_deferred_reply_lifetime_ms t) 1100 1860000
        ''timeouts.maxDeferredReplyLifetimeMs'',
      (if max_deferred_reply_lifetime_ms t <
          saturating_add_u64 (job_terminal_ms t) (reply_margin_ms t)
       then config_error ''component.global.timeouts.maxDeferredReplyLifetimeMs''
              ''must be at least jobTerminalMs plus replyMarginMs''
       else Inr ())]"

fun check_interfaces :: "nat \<Rightarrow> string list \<Rightarrow> string list \<Rightarrow> unit result" where
  "check_interfaces index seen [] = Inr ()"
| "check_interfaces index seen (interface # rest) =
     (if interface = [] \<or> 256 < length interface \<or> has_control interface \<or> interface \<in> set seen
      then config_error (''discovery.eligibleInterfaces['' @ show_nat index @ '']'')
             ''must be a distinct 1..256-byte interface name without controls''
      else check_interfaces (Suc index) (interface # seen) rest)"

definition validate_discovery :: "DiscoveryConfig \<Rightarrow> unit result" where
  "validate_discovery d = checks
     [range_u64 (interval_seconds d) 5 3600 ''discovery.intervalSeconds'',
      range_usize (max_results d) 1 10000 ''discovery.maxResults'',
      (if 64 < length (eligible_interfaces d)
       then config_error ''discovery.eligibleInterfaces''
              ''must contain at most 64 explicit interface names''
       else Inr ()),
      check_interfaces 0 [] (eligible_interfaces d),
      (if disc_enabled d \<and> eligible_interfaces d = []
       then config_error ''discovery.eligibleInterfaces''
              ''at least one explicit interface is required when discovery is enabled''
       else Inr ())]"

definition validate_global :: "GlobalConfig \<Rightarrow> unit result" where
  "validate_global g = checks
     [validate_output (g_output g), validate_state (g_state g), validate_limits (g_limits g),
      validate_timeouts (g_timeouts g), validate_discovery (g_discovery g),
      range_u64 (stale_signal_secs (g_health_thresholds g)) 1 86400
        ''healthThresholds.staleSignalSecs'',
      range_usize (max_header_bytes (g_security g)) 4096 1048576 ''security.maxHeaderBytes'',
      range_usize (max_decompression_ratio (g_security g)) 1 1000 ''security.maxDecompressionRatio'']"

section \<open>Camera instances\<close>

text \<open>What the URL parser reports of a URL, and the external services validation consults.\<close>

record ParsedUrl =
  url_scheme :: string
  url_username :: string
  url_password :: "string option"
  url_host :: "string option"
  url_port :: "nat option"

record ConfigEnv =
  cron_ok :: "string \<Rightarrow> bool"
  tz_ok :: "string \<Rightarrow> bool"
  ipv4_ok :: "string \<Rightarrow> bool"
  url_parse :: "string \<Rightarrow> string + ParsedUrl"
  rtsp_feature :: bool

definition contains_key :: "string \<Rightarrow> (string \<times> 'a) list \<Rightarrow> bool" where
  "contains_key k m = (k \<in> set (map fst m))"

fun capture_mode_allowed :: "BackendKind \<Rightarrow> CaptureMode \<Rightarrow> bool" where
  "capture_mode_allowed Sim mode = (mode = Simulated)"
| "capture_mode_allowed GenicamAravis mode = (mode = SoftwareTrigger)"
| "capture_mode_allowed OnvifRtsp mode = (mode = SnapshotUri \<or> mode = RtspFrame)"
| "capture_mode_allowed Rtsp mode = (mode = RtspFrame)"

fun gain_ok :: "f64 \<Rightarrow> bool" where
  "gain_ok (Finite x) = (\<not> x < 0)"
| "gain_ok _ = False"

definition profile_terminal_ms :: "CaptureProfile \<Rightarrow> GlobalConfig \<Rightarrow> u64" where
  "profile_terminal_ms profile g =
     (case prof_timeout_ms profile of Some t \<Rightarrow> t | None \<Rightarrow> job_terminal_ms (g_timeouts g))"

definition profile_maximum_frame_bytes :: "CaptureProfile \<Rightarrow> GlobalConfig \<Rightarrow> u64" where
  "profile_maximum_frame_bytes profile g =
     (case prof_maximum_frame_bytes profile of Some m \<Rightarrow> m
      | None \<Rightarrow> max_frame_bytes_per_camera (g_limits g))"

definition validate_queue_expiry :: "CaptureProfile \<Rightarrow> string \<Rightarrow> unit result" where
  "validate_queue_expiry profile path =
     (if prof_offline_policy profile = Some Offline_Queue
      then (case prof_queue_expiry_ms profile of
              None \<Rightarrow> config_error (path @ ''.queueExpiryMs'')
                        ''is required when offlinePolicy is queue''
            | Some expiry \<Rightarrow> range_u64 expiry 100 86400000 (path @ ''.queueExpiryMs''))
      else if prof_queue_expiry_ms profile \<noteq> None
      then config_error (path @ ''.queueExpiryMs'') ''is valid only when offlinePolicy is queue''
      else Inr ())"

definition validate_profile ::
    "CaptureProfile \<Rightarrow> BackendKind \<Rightarrow> GlobalConfig \<Rightarrow> string \<Rightarrow> unit result" where
  "validate_profile profile kind g path = checks
     [validate_queue_expiry profile path,
      range_u64 (profile_terminal_ms profile g) 1000 1800000 (path @ ''.timeoutMs''),
      (if max_deferred_reply_lifetime_ms (g_timeouts g) <
          saturating_add_u64 (profile_terminal_ms profile g) (reply_margin_ms (g_timeouts g))
       then config_error (path @ ''.timeoutMs'')
              ''requires maxDeferredReplyLifetimeMs >= timeoutMs + replyMarginMs''
       else Inr ()),
      range_u64 (profile_maximum_frame_bytes profile g) MIB (2 * GIB) (path @ ''.maximumFrameBytes''),
      (if max_in_flight_bytes (g_limits g) < profile_maximum_frame_bytes profile g
       then config_error (path @ ''.maximumFrameBytes'') ''must not exceed global maxInFlightBytes''
       else Inr ()),
      range_usize (prof_jpeg_quality profile) 1 100 (path @ ''.output.jpegQuality''),
      (case prof_gain profile of
         Some x \<Rightarrow> if gain_ok x then Inr ()
                   else config_error (path @ ''.gain'') ''must be a finite non-negative number''
       | None \<Rightarrow> Inr ()),
      (case prof_capture_mode profile of
         Some mode \<Rightarrow> if capture_mode_allowed kind mode then Inr ()
                      else config_error (path @ ''.captureMode'')
                             ''capture mode is not supported by the configured backend''
       | None \<Rightarrow> Inr ())]"

definition trims_to_empty :: "string \<Rightarrow> bool" where
  "trims_to_empty s = list_all is_whitespace (utf8_chars s)"

definition fault_positive :: "string \<Rightarrow> string \<Rightarrow> u64 option \<Rightarrow> unit result" where
  "fault_positive path field value =
     (if value = Some 0 then config_error (path @ ''.faults.'' @ field) ''must be positive when set''
      else Inr ())"

definition validate_playlist :: "SimPlaylistConfig \<Rightarrow> string \<Rightarrow> unit result" where
  "validate_playlist pl field = checks
     [(if \<not> starts_with ''/'' (playlist_directory pl)
       then config_error (field @ ''.directory'') ''must be an absolute path'' else Inr ()),
      (if playlist_include pl = []
       then config_error (field @ ''.include'') ''must list at least one glob'' else Inr ()),
      (if list_ex trims_to_empty (playlist_include pl)
       then config_error (field @ ''.include'') ''globs must not be empty'' else Inr ())]"

definition validate_sim :: "SimBackendConfig \<Rightarrow> GlobalConfig \<Rightarrow> string \<Rightarrow> unit result" where
  "validate_sim sim g path =
     (let fr = sim_frame sim in checks
     [range_usize (unat (sim_width fr)) 1 16384 (path @ ''.frame.width''),
      range_usize (unat (sim_height fr)) 1 16384 (path @ ''.frame.height''),
      range_u64 (connect_delay_ms sim) 0 300000 (path @ ''.connectDelayMs''),
      range_u64 (capture_delay_ms sim) 0 600000 (path @ ''.captureDelayMs''),
      (case uncompressed_len (sim_pixel_format fr) (sim_width fr) (sim_height fr) of
         Some bytes \<Rightarrow>
           if max_frame_bytes_per_camera (g_limits g) < bytes
           then config_error (path @ ''.frame'') ''simulated frame exceeds maxFrameBytesPerCamera''
           else Inr ()
       | None \<Rightarrow> Inr ()),
      (case sim_playlist (sim_pattern fr) of
         Some pl \<Rightarrow> validate_playlist pl (path @ ''.frame.pattern.playlist'')
       | None \<Rightarrow> Inr ()),
      fault_positive path ''disconnectAfterCaptures'' (disconnect_after_captures (sim_faults sim)),
      fault_positive path ''failEveryNthCapture'' (fail_every_nth_capture (sim_faults sim)),
      fault_positive path ''incompleteEveryNthCapture''
        (incomplete_every_nth_capture (sim_faults sim))])"

definition bounded_text :: "nat \<Rightarrow> string \<Rightarrow> bool" where
  "bounded_text maximum value = (value \<noteq> [] \<and> length value \<le> maximum \<and> \<not> has_control value)"

definition valid_mac_address :: "string \<Rightarrow> bool" where
  "valid_mac_address value =
     (if CHR '':'' \<in> set value \<or> CHR ''-'' \<in> set value
      then let separator = (if CHR '':'' \<in> set value then CHR '':'' else CHR ''-'');
               octets = split_on (\<lambda>c. c = separator) value
           in length octets = 6 \<and>
              list_all (\<lambda>octet. length octet = 2 \<and> list_all is_ascii_hexdigit octet) octets
      else False)"

definition selector_text_ok :: "string \<Rightarrow> string \<Rightarrow> string option \<Rightarrow> unit result" where
  "selector_text_ok path name value =
     (case value of
        Some text \<Rightarrow> if bounded_text 256 text then Inr ()
                     else config_error (path @ ''.selector.'' @ name)
                            ''must be 1..256 UTF-8 bytes without controls''
      | None \<Rightarrow> Inr ())"

definition packet_size_ok :: "json \<Rightarrow> bool" where
  "packet_size_ok v =
     (json_as_str v = Some ''auto'' \<or>
      (case json_as_u64 v of Some n \<Rightarrow> 1 \<le> n \<and> n \<le> 2147483647 | None \<Rightarrow> False))"

definition feature_ok :: "string \<Rightarrow> json \<Rightarrow> bool" where
  "feature_ok name v =
     (if name \<in> {''AcquisitionFrameRateEnable'', ''ReverseX'', ''ReverseY''} then json_is_boolean v
      else if name = ''DeviceLinkThroughputLimit''
      then (case json_as_u64 v of Some n \<Rightarrow> n \<le> 9223372036854775807 | None \<Rightarrow> False) \<or>
           (case json_as_i64 v of Some n \<Rightarrow> 0 \<le> n | None \<Rightarrow> False)
      else if name \<in> {''AcquisitionFrameRate'', ''BlackLevel'', ''Gamma''}
      then json_is_finite_number v
      else if name \<in> {''BalanceWhiteAuto'', ''BlackLevelAuto''}
      then (case json_as_str v of Some text \<Rightarrow> bounded_text 128 text | None \<Rightarrow> False)
      else False)"

definition validate_genicam_selector ::
    "ConfigEnv \<Rightarrow> GenicamSelector \<Rightarrow> string \<Rightarrow> unit result" where
  "validate_genicam_selector env sel path = checks
     [(if length (filter (\<lambda>x. x \<noteq> None) [sel_serial sel, sel_mac sel, sel_device_id sel, sel_ip sel]) \<noteq> 1
       then config_error (path @ ''.selector'')
              ''exactly one of serial, mac, deviceId, or ip is required''
       else Inr ()),
      selector_text_ok path ''serial'' (sel_serial sel), selector_text_ok path ''mac'' (sel_mac sel),
      selector_text_ok path ''deviceId'' (sel_device_id sel), selector_text_ok path ''ip'' (sel_ip sel),
      (case sel_mac sel of
         Some m \<Rightarrow> if valid_mac_address m then Inr ()
                   else config_error (path @ ''.selector.mac'')
                          (''must contain six hexadecimal octets separated by ':' or '' @
                           [CHR 0x27, CHR ''-'', CHR 0x27])
       | None \<Rightarrow> Inr ()),
      (case sel_ip sel of
         Some a \<Rightarrow> if ipv4_ok env a then Inr ()
                   else config_error (path @ ''.selector.ip'') ''must be a valid IPv4 address''
       | None \<Rightarrow> Inr ())]"

definition validate_genicam_usb3 :: "GenicamBackendConfig \<Rightarrow> string \<Rightarrow> unit result" where
  "validate_genicam_usb3 cfg path =
     (if genicam_transport cfg = Usb3Vision then checks
        [(if genicam_interface cfg \<noteq> None
          then config_error (path @ ''.interface'') ''is not valid for usb3-vision'' else Inr ()),
         (if sel_ip (genicam_selector cfg) \<noteq> None \<or> sel_mac (genicam_selector cfg) \<noteq> None
          then config_error (path @ ''.selector'')
                 ''ip and mac selectors require gige-vision or auto transport'' else Inr ()),
         (if packet_size cfg \<noteq> None \<or> packet_delay_ns cfg \<noteq> None
          then config_error path ''packetSize and packetDelayNs are not valid for usb3-vision''
          else Inr ())]
      else Inr ())"

definition validate_genicam :: "ConfigEnv \<Rightarrow> GenicamBackendConfig \<Rightarrow> string \<Rightarrow> unit result" where
  "validate_genicam env cfg path = checks
     [validate_genicam_selector env (genicam_selector cfg) path,
      (case genicam_interface cfg of
         Some i \<Rightarrow> if bounded_text 256 i then Inr ()
                   else config_error (path @ ''.interface'')
                          ''must be 1..256 UTF-8 bytes without controls''
       | None \<Rightarrow> Inr ()),
      validate_genicam_usb3 cfg path,
      (case buffer_count cfg of
         Some n \<Rightarrow> range_usize n 2 64 (path @ ''.bufferCount'') | None \<Rightarrow> Inr ()),
      (case packet_size cfg of
         Some v \<Rightarrow> if packet_size_ok v then Inr ()
                   else config_error (path @ ''.packetSize'')
                          ''must be 'auto' or an integer in 1..=2147483647''
       | None \<Rightarrow> Inr ()),
      (if 32 < length (feature_overrides cfg)
       then config_error (path @ ''.featureOverrides'')
              ''must contain at most 32 allowlisted standard features''
       else Inr ()),
      for_each (\<lambda>(name, v). if feature_ok name v then Inr ()
          else config_error (path @ ''.featureOverrides.'' @ name)
                 ''is unknown or has the wrong JSON type for the standard-feature allowlist'')
        (feature_overrides cfg)]"

definition validate_secret_ref :: "SecretRef \<Rightarrow> string \<Rightarrow> unit result" where
  "validate_secret_ref reference path = checks
     [(if bounded_text 1024 (secret_name reference) then Inr ()
       else config_error (path @ ''.$secret'')
              ''must be 1..1024 UTF-8 bytes without control characters''),
      (case secret_field reference of
         Some field \<Rightarrow> if bounded_text 256 field then Inr ()
                       else config_error (path @ ''.field'')
                              ''must be 1..256 UTF-8 bytes without control characters''
       | None \<Rightarrow> Inr ())]"

definition optional_secret :: "SecretRef option \<Rightarrow> string \<Rightarrow> unit result" where
  "optional_secret reference path =
     (case reference of Some r \<Rightarrow> validate_secret_ref r path | None \<Rightarrow> Inr ())"

text \<open>The two URL checks share their structure: no user information, a host, and a scheme that is
  secure or explicitly allowed to be plaintext.\<close>

definition validate_endpoint_url ::
    "ConfigEnv \<Rightarrow> string \<Rightarrow> bool \<Rightarrow> string \<Rightarrow> unit result" where
  "validate_endpoint_url env value allow_insecure path =
     (case url_parse env value of
        Inl detail \<Rightarrow> config_error path detail
      | Inr url \<Rightarrow>
          if url_username url \<noteq> [] \<or> url_password url \<noteq> None
          then config_error path ''URI user information is forbidden''
          else if url_host url = None then config_error path ''URI must contain a host''
          else if url_scheme url = ''https'' then Inr ()
          else if url_scheme url = ''http'' \<and> allow_insecure then Inr ()
          else if url_scheme url = ''http''
          then config_error path ''plaintext HTTP requires allowInsecure=true''
          else config_error path ''scheme must be http or https'')"

definition validate_rtsp_url ::
    "ConfigEnv \<Rightarrow> string \<Rightarrow> bool \<Rightarrow> string \<Rightarrow> unit result" where
  "validate_rtsp_url env value allow_insecure path =
     (case url_parse env value of
        Inl detail \<Rightarrow> config_error path detail
      | Inr url \<Rightarrow>
          if url_username url \<noteq> [] \<or> url_password url \<noteq> None
          then config_error path ''URI user information is forbidden''
          else if url_host url = None then config_error path ''URI must contain a host''
          else if url_scheme url = ''rtsp'' \<and> \<not> allow_insecure
          then config_error path ''plaintext RTSP requires allowInsecure=true''
          else if url_scheme url \<noteq> ''rtsps'' \<and> url_scheme url \<noteq> ''rtsp''
          then config_error path ''scheme must be rtsp or rtsps''
          else if (case url_port url of Some p \<Rightarrow> p
                   | None \<Rightarrow> if url_scheme url = ''rtsps'' then 322 else 554) = 0
          then config_error path ''URI port is invalid''
          else Inr ())"

fun check_allowed_hosts :: "nat \<Rightarrow> string list \<Rightarrow> string \<Rightarrow> unit result" where
  "check_allowed_hosts index [] path = Inr ()"
| "check_allowed_hosts index (host # rest) path =
     (if host = [] \<or> 253 < length host \<or> has_control host \<or> CHR ''/'' \<in> set host \<or>
         CHR ''@'' \<in> set host
      then config_error (path @ ''.allowedUriHosts['' @ show_nat index @ '']'')
             ''must be a hostname or IP without path/userinfo''
      else check_allowed_hosts (Suc index) rest path)"

text \<open>Credentials may cross the network in the clear only with both explicit permissions, and a
  certificate's host name is verified unless insecure operation is allowed.\<close>

definition plaintext_url :: "ConfigEnv \<Rightarrow> string \<Rightarrow> string \<Rightarrow> bool" where
  "plaintext_url env scheme value =
     (case url_parse env value of Inl _ \<Rightarrow> False | Inr url \<Rightarrow> url_scheme url = scheme)"

definition validate_transport_security ::
    "AuthenticationMode \<Rightarrow> bool \<Rightarrow> bool \<Rightarrow> TlsConfig \<Rightarrow> GlobalConfig \<Rightarrow> string \<Rightarrow> unit result" where
  "validate_transport_security mode plaintext allow_insecure tls g path = checks
     [(if mode = Basic \<and> plaintext \<and>
          \<not> (allow_insecure \<and> allow_basic_over_plaintext (g_security g))
       then config_error (path @ ''.authenticationMode'')
              ''Basic over plaintext requires security.allowBasicOverPlaintext=true''
       else Inr ()),
      (if \<not> verify_hostname tls \<and> \<not> allow_insecure
       then config_error (path @ ''.tls.verifyHostname'') ''false requires allowInsecure=true''
       else Inr ())]"

definition validate_endpoint_selector :: "string \<Rightarrow> GlobalConfig \<Rightarrow> string \<Rightarrow> unit result" where
  "validate_endpoint_selector reference g path = checks
     [(if bounded_text 1024 reference then Inr ()
       else config_error (path @ ''.selector.endpointReference'')
              ''must be 1..1024 bytes without control characters''),
      (if eligible_interfaces (g_discovery g) = []
       then config_error (path @ ''.selector'')
              ''endpoint-reference selection requires discovery.eligibleInterfaces''
       else Inr ())]"

definition validate_onvif ::
    "ConfigEnv \<Rightarrow> OnvifBackendConfig \<Rightarrow> GlobalConfig \<Rightarrow> string \<Rightarrow> unit result" where
  "validate_onvif env cfg g path = checks
     [(if (device_service_url cfg \<noteq> None) = (endpoint_reference cfg \<noteq> None)
       then config_error path
              ''exactly one of deviceServiceUrl or selector.endpointReference is required''
       else Inr ()),
      (case device_service_url cfg of
         Some url \<Rightarrow> validate_endpoint_url env url (onvif_allow_insecure cfg) (path @ ''.deviceServiceUrl'')
       | None \<Rightarrow> Inr ()),
      (case endpoint_reference cfg of
         Some reference \<Rightarrow> validate_endpoint_selector reference g path | None \<Rightarrow> Inr ()),
      optional_secret (onvif_credentials cfg) (path @ ''.credentials''),
      optional_secret (tls_ca (onvif_tls cfg)) (path @ ''.tls.ca''),
      (if media_profile cfg = [] \<or> 1024 < length (media_profile cfg)
       then config_error (path @ ''.mediaProfile'') ''must be 1..1024 bytes'' else Inr ()),
      (if onvif_capture_mode cfg \<noteq> SnapshotUri \<and> onvif_capture_mode cfg \<noteq> RtspFrame
       then config_error (path @ ''.captureMode'') ''must be snapshot-uri or rtsp-frame'' else Inr ()),
      (if \<not> rtsp_feature env \<and> (onvif_capture_mode cfg = RtspFrame \<or> rtsp_fallback cfg)
       then config_error (path @ ''.captureMode'')
              ''rtsp-frame capture and snapshot fallback require the 'rtsp' build feature''
       else Inr ()),
      range_u64 (max_soap_bytes cfg) (4 * 1024) (16 * MIB) (path @ ''.maxSoapBytes''),
      range_u64 (max_snapshot_bytes cfg) MIB (2 * GIB) (path @ ''.maxSnapshotBytes''),
      range_usize (max_xml_depth cfg) 8 256 (path @ ''.maxXmlDepth''),
      (if max_in_flight_bytes (g_limits g) < max_snapshot_bytes cfg
       then config_error (path @ ''.maxSnapshotBytes'') ''must not exceed global maxInFlightBytes''
       else Inr ()),
      validate_transport_security (onvif_authentication_mode cfg)
        (case device_service_url cfg of Some url \<Rightarrow> plaintext_url env ''http'' url | None \<Rightarrow> False)
        (onvif_allow_insecure cfg) (onvif_tls cfg) g path,
      check_allowed_hosts 0 (onvif_allowed_uri_hosts cfg) path]"

definition validate_rtsp ::
    "ConfigEnv \<Rightarrow> RtspBackendConfig \<Rightarrow> GlobalConfig \<Rightarrow> string \<Rightarrow> unit result" where
  "validate_rtsp env cfg g path =
     (if \<not> rtsp_feature env
      then config_error path ''the 'rtsp' backend requires the 'rtsp' build feature''
      else checks
     [validate_rtsp_url env (rtsp_url cfg) (rtsp_allow_insecure cfg) (path @ ''.url''),
      optional_secret (rtsp_credentials cfg) (path @ ''.credentials''),
      optional_secret (tls_ca (rtsp_tls cfg)) (path @ ''.tls.ca''),
      (if rtsp_capture_mode cfg \<noteq> RtspFrame
       then config_error (path @ ''.captureMode'') ''must be rtsp-frame'' else Inr ()),
      (if rtsp_authentication_mode cfg = WsseDigest
       then config_error (path @ ''.authenticationMode'')
              ''wsse-digest is an ONVIF SOAP mode and is not valid for a bare RTSP backend''
       else Inr ()),
      range_u64 (rtsp_max_frame_bytes cfg) MIB (2 * GIB) (path @ ''.maxFrameBytes''),
      (if max_in_flight_bytes (g_limits g) < rtsp_max_frame_bytes cfg
       then config_error (path @ ''.maxFrameBytes'') ''must not exceed global maxInFlightBytes''
       else Inr ()),
      validate_transport_security (rtsp_authentication_mode cfg)
        (plaintext_url env ''rtsp'' (rtsp_url cfg)) (rtsp_allow_insecure cfg) (rtsp_tls cfg) g path,
      check_allowed_hosts 0 (rtsp_allowed_uri_hosts cfg) path])"

definition cron_and_timezone :: "ConfigEnv \<Rightarrow> string \<Rightarrow> string \<Rightarrow> string \<Rightarrow> unit result" where
  "cron_and_timezone env cron timezone path = checks
     [(if split_whitespace_count cron \<noteq> 6 \<or> \<not> cron_ok env cron
       then config_error (path @ ''.cron'')
              ''must be a valid six-field cron expression including seconds''
       else Inr ()),
      (if \<not> tz_ok env timezone
       then config_error (path @ ''.timezone'') ''must be an IANA timezone identifier''
       else Inr ())]"

fun validate_schedules ::
    "ConfigEnv \<Rightarrow> CameraConfig \<Rightarrow> string \<Rightarrow> nat \<Rightarrow> string list \<Rightarrow> ScheduleConfig list \<Rightarrow> unit result" where
  "validate_schedules env camera path index seen [] = Inr ()"
| "validate_schedules env camera path index seen (schedule # rest) =
     (let schedule_path = path @ ''.schedules['' @ show_nat index @ '']'' in checks
       [check_token (sc_id schedule) (schedule_path @ ''.id''),
        (if sc_id schedule \<in> set seen
         then config_error (schedule_path @ ''.id'') ''schedule id is duplicated'' else Inr ()),
        cron_and_timezone env (sc_cron schedule) (sc_timezone schedule) schedule_path,
        (if \<not> contains_key (sc_capture_profile schedule) (capture_profiles camera)
         then config_error (schedule_path @ ''.captureProfile'')
                ''must name a configured capture profile'' else Inr ()),
        range_usize (sc_jitter_seconds schedule) 0 3600 (schedule_path @ ''.jitterSeconds''),
        validate_schedules env camera path (Suc index) (sc_id schedule # seen) rest])"

fun validate_backend ::
    "ConfigEnv \<Rightarrow> BackendConfig \<Rightarrow> GlobalConfig \<Rightarrow> string \<Rightarrow> unit result" where
  "validate_backend env (SimCfg cfg) g path = validate_sim cfg g path"
| "validate_backend env (GenicamCfg cfg) g path = validate_genicam env cfg path"
| "validate_backend env (OnvifCfg cfg) g path = validate_onvif env cfg g path"
| "validate_backend env (RtspCfg cfg) g path = validate_rtsp env cfg g path"

definition validate_camera ::
    "ConfigEnv \<Rightarrow> CameraConfig \<Rightarrow> GlobalConfig \<Rightarrow> string \<Rightarrow> unit result" where
  "validate_camera env camera g path = checks
     [check_token (cam_id camera) (path @ ''.id''),
      (if capture_profiles camera = [] \<or> 100 < length (capture_profiles camera)
       then config_error (path @ ''.captureProfiles'') ''must contain between 1 and 100 profiles''
       else Inr ()),
      (if \<not> contains_key (default_capture_profile camera) (capture_profiles camera)
       then config_error (path @ ''.defaultCaptureProfile'') ''must name a configured capture profile''
       else Inr ()),
      (if 100 < length (cam_schedules camera)
       then config_error (path @ ''.schedules'') ''must contain at most 100 schedules'' else Inr ()),
      (case cam_resource_group camera of
         Some group_name \<Rightarrow>
           if contains_key group_name (lim_resource_groups (g_limits g)) then Inr ()
           else config_error (path @ ''.resourceGroup'')
                  ''must name component.global.limits.resourceGroups entry''
       | None \<Rightarrow> Inr ()),
      for_each (\<lambda>(name, profile). checks
        [check_token name (path @ ''.captureProfiles''),
         validate_profile profile (backend_config_kind (cam_backend camera)) g
           (path @ ''.captureProfiles.'' @ name)]) (capture_profiles camera),
      validate_schedules env camera path 0 [] (cam_schedules camera),
      range_u64 (maximum_continuous_move_ms (cam_ptz camera)) 100 60000
        (path @ ''.ptz.maximumContinuousMoveMs''),
      range_u64 (settle_ms (cam_ptz camera)) 0 30000 (path @ ''.ptz.settleMs''),
      validate_backend env (cam_backend camera) g (path @ ''.backend'')]"

section \<open>Rules that span instances\<close>

fun check_members :: "string list \<Rightarrow> string \<Rightarrow> string list \<Rightarrow> string list \<Rightarrow> unit result" where
  "check_members declared path members [] = Inr ()"
| "check_members declared path members (member # rest) = checks
     [check_token member (path @ ''.instances''),
      (if member \<in> set members
       then config_error (path @ ''.instances'') ''must not name the same camera twice'' else Inr ()),
      (if member \<notin> set declared
       then config_error (path @ ''.instances'') ''must name cameras declared in component.instances''
       else Inr ()),
      check_members declared path (member # members) rest]"

definition selected_profile :: "CaptureGroupScheduleConfig \<Rightarrow> string \<Rightarrow> string option" where
  "selected_profile schedule member =
     (case map_of (gs_profile_overrides schedule) member of
        Some p \<Rightarrow> Some p | None \<Rightarrow> gs_capture_profile schedule)"

definition camera_by_id :: "CameraConfig list \<Rightarrow> string \<Rightarrow> CameraConfig option" where
  "camera_by_id cameras = map_of (rev (map (\<lambda>camera. (cam_id camera, camera)) cameras))"

definition check_member_profile ::
    "CameraConfig list \<Rightarrow> CaptureGroupScheduleConfig \<Rightarrow> string \<Rightarrow> string \<Rightarrow> unit result" where
  "check_member_profile cameras schedule path member =
     (case camera_by_id cameras member of
        None \<Rightarrow> Inr ()
      | Some camera \<Rightarrow>
          (case selected_profile schedule member of
             Some selected \<Rightarrow>
               if contains_key selected (capture_profiles camera) then Inr ()
               else config_error (path @ ''.captureProfile'')
                      (''camera '' @ [CHR 0x27] @ member @ [CHR 0x27] @
                       '' has no capture profile named '' @ [CHR 0x27] @ selected @ [CHR 0x27])
           | None \<Rightarrow> Inr ()))"

definition validate_group_schedule ::
    "ConfigEnv \<Rightarrow> CameraConfig list \<Rightarrow> GlobalConfig \<Rightarrow> string list \<Rightarrow> string list \<Rightarrow> string \<Rightarrow>
     CaptureGroupScheduleConfig \<Rightarrow> unit result" where
  "validate_group_schedule env cameras g declared seen path schedule = checks
     [check_token (gs_id schedule) (path @ ''.id''),
      (if gs_id schedule \<in> set seen
       then config_error (path @ ''.id'') ''group schedule id is duplicated'' else Inr ()),
      cron_and_timezone env (gs_cron schedule) (gs_timezone schedule) path,
      (if length (gs_instances schedule) < 2
       then config_error (path @ ''.instances'') ''must name at least two cameras'' else Inr ()),
      (if max_cameras_per_group (g_limits g) < length (gs_instances schedule)
       then config_error (path @ ''.instances'') ''exceeds limits.maxCamerasPerGroup'' else Inr ()),
      check_members declared path [] (gs_instances schedule),
      (case gs_capture_profile schedule of
         Some profile \<Rightarrow> check_token profile (path @ ''.captureProfile'') | None \<Rightarrow> Inr ()),
      for_each (\<lambda>(member, profile). checks
        [(if member \<notin> set (gs_instances schedule)
          then config_error (path @ ''.profileOverrides'') ''keys must be a subset of instances''
          else Inr ()),
         check_token profile (path @ ''.profileOverrides'')]) (gs_profile_overrides schedule),
      for_each (check_member_profile cameras schedule path) (gs_instances schedule),
      range_usize (gs_jitter_seconds schedule) 0 3600 (path @ ''.jitterSeconds''),
      (case gs_timeout_ms schedule of
         Some t \<Rightarrow> range_u64 t 1000 1800000 (path @ ''.timeoutMs'') | None \<Rightarrow> Inr ())]"

fun group_schedules_loop ::
    "ConfigEnv \<Rightarrow> CameraConfig list \<Rightarrow> GlobalConfig \<Rightarrow> string list \<Rightarrow> nat \<Rightarrow> string list \<Rightarrow>
     CaptureGroupScheduleConfig list \<Rightarrow> unit result" where
  "group_schedules_loop env cameras g declared index seen [] = Inr ()"
| "group_schedules_loop env cameras g declared index seen (schedule # rest) =
     and_then (validate_group_schedule env cameras g declared seen
                 (''component.global.captureGroupSchedules['' @ show_nat index @ '']'') schedule)
       (\<lambda>_. group_schedules_loop env cameras g declared (Suc index) (gs_id schedule # seen) rest)"

definition validate_group_schedules ::
    "ConfigEnv \<Rightarrow> CameraConfig list \<Rightarrow> GlobalConfig \<Rightarrow> string list \<Rightarrow> unit result" where
  "validate_group_schedules env cameras g declared =
     (if 100 < length (g_capture_group_schedules g)
      then config_error ''component.global.captureGroupSchedules''
             ''must contain at most 100 group schedules''
      else group_schedules_loop env cameras g declared 0 [] (g_capture_group_schedules g))"

definition validate_cross_instance ::
    "ConfigEnv \<Rightarrow> CameraConfig list \<Rightarrow> GlobalConfig \<Rightarrow> string list \<Rightarrow> unit result" where
  "validate_cross_instance env cameras g declared =
     (if max_connected_cameras (g_limits g) < length (filter cam_enabled cameras)
      then config_error ''component.instances''
             ''enabled camera count exceeds limits.maxConnectedCameras''
      else validate_group_schedules env cameras g declared)"

section \<open>The loaders\<close>

definition safe_deserialization_message :: string where
  "safe_deserialization_message = ''contains an unknown field or a value with an invalid type''"

definition issue_from_error :: "string option \<Rightarrow> camera_error \<Rightarrow> ConfigIssue" where
  "issue_from_error camera error =
     (case error of
        ConfigError path message \<Rightarrow> \<lparr>ci_instance = camera, ci_path = path, ci_message = message\<rparr>
      | other \<Rightarrow> \<lparr>ci_instance = camera, ci_path = ''component.instances'',
                   ci_message = camera_error_display other\<rparr>)"

definition parse_global :: "('raw \<Rightarrow> GlobalConfig option) \<Rightarrow> 'raw \<Rightarrow> GlobalConfig result" where
  "parse_global deser_global raw =
     (case deser_global raw of
        None \<Rightarrow> config_error ''component.global'' safe_deserialization_message
      | Some g \<Rightarrow> and_then (validate_global g) (\<lambda>_. Inr g))"

definition instance_path :: "nat \<Rightarrow> string" where
  "instance_path index = ''component.instances['' @ show_nat index @ '']''"

text \<open>The startup loop: accumulates the valid cameras, the issues and the identifiers seen.\<close>

fun initial_loop ::
    "ConfigEnv \<Rightarrow> ('raw \<Rightarrow> string option) \<Rightarrow> ('raw \<Rightarrow> CameraConfig option) \<Rightarrow> GlobalConfig \<Rightarrow> nat \<Rightarrow>
     CameraConfig list \<Rightarrow> ConfigIssue list \<Rightarrow> string list \<Rightarrow> 'raw list \<Rightarrow>
     CameraConfig list \<times> ConfigIssue list \<times> string list" where
  "initial_loop env raw_id deser g index cams skipped seen [] = (cams, skipped, seen)"
| "initial_loop env raw_id deser g index cams skipped seen (raw # rest) =
     (case deser raw of
        Some camera \<Rightarrow>
          let path = instance_path index in
          if cam_id camera \<in> set seen
          then initial_loop env raw_id deser g (Suc index) cams
                 (skipped @ [\<lparr>ci_instance = Some (cam_id camera), ci_path = path @ ''.id'',
                              ci_message = ''camera id is duplicated''\<rparr>]) seen rest
          else (case validate_camera env camera g path of
                  Inl error \<Rightarrow>
                    initial_loop env raw_id deser g (Suc index) cams
                      (skipped @ [issue_from_error (raw_id raw) error]) (cam_id camera # seen) rest
                | Inr _ \<Rightarrow>
                    initial_loop env raw_id deser g (Suc index) (cams @ [camera]) skipped
                      (cam_id camera # seen) rest)
      | None \<Rightarrow>
          initial_loop env raw_id deser g (Suc index) cams
            (skipped @ [\<lparr>ci_instance = raw_id raw, ci_path = instance_path index,
                         ci_message = safe_deserialization_message\<rparr>]) seen rest)"

definition no_enabled_camera :: "'a result" where
  "no_enabled_camera = config_error ''component.instances''
     ''at least one enabled valid camera instance is required''"

definition from_core_initial ::
    "ConfigEnv \<Rightarrow> ('raw \<Rightarrow> GlobalConfig option) \<Rightarrow> ('raw \<Rightarrow> string option) \<Rightarrow>
     ('raw \<Rightarrow> CameraConfig option) \<Rightarrow> 'raw \<Rightarrow> 'raw list \<Rightarrow> (AdapterConfig \<times> ConfigIssue list) result" where
  "from_core_initial env deser_global raw_id deser raw_global raws =
     and_then (parse_global deser_global raw_global) (\<lambda>g.
       let (cams, skipped, seen) = initial_loop env raw_id deser g 0 [] [] [] raws
       in if \<not> list_ex cam_enabled cams then no_enabled_camera
          else and_then (validate_cross_instance env cams g seen)
                 (\<lambda>_. Inr (\<lparr>ad_global = g, ad_instances = cams\<rparr>, skipped)))"

fun reload_loop ::
    "ConfigEnv \<Rightarrow> ('raw \<Rightarrow> CameraConfig option) \<Rightarrow> GlobalConfig \<Rightarrow> nat \<Rightarrow> CameraConfig list \<Rightarrow>
     string list \<Rightarrow> 'raw list \<Rightarrow> (CameraConfig list \<times> string list) result" where
  "reload_loop env deser g index cams seen [] = Inr (cams, seen)"
| "reload_loop env deser g index cams seen (raw # rest) =
     (case deser raw of
        None \<Rightarrow> config_error (instance_path index) safe_deserialization_message
      | Some camera \<Rightarrow>
          if cam_id camera \<in> set seen
          then config_error (instance_path index @ ''.id'') ''camera id is duplicated''
          else and_then (validate_camera env camera g (instance_path index))
                 (\<lambda>_. reload_loop env deser g (Suc index) (cams @ [camera]) (cam_id camera # seen) rest))"

definition from_core_reload ::
    "ConfigEnv \<Rightarrow> ('raw \<Rightarrow> GlobalConfig option) \<Rightarrow> ('raw \<Rightarrow> CameraConfig option) \<Rightarrow>
     'raw \<Rightarrow> 'raw list \<Rightarrow> AdapterConfig result" where
  "from_core_reload env deser_global deser raw_global raws =
     and_then (parse_global deser_global raw_global) (\<lambda>g.
       and_then (reload_loop env deser g 0 [] [] raws) (\<lambda>(cams, seen).
         if \<not> list_ex cam_enabled cams then no_enabled_camera
         else and_then (validate_cross_instance env cams g seen)
                (\<lambda>_. Inr \<lparr>ad_global = g, ad_instances = cams\<rparr>)))"

section \<open>What the elementary checks accept\<close>

lemma config_error_neq [simp]: "config_error path message \<noteq> Inr x"
  by (simp add: config_error_def)

lemma range_u64_ok [result_simps]: "range_u64 v lo hi path = Inr u \<longleftrightarrow> lo \<le> v \<and> v \<le> hi"
  by (simp add: range_u64_def)

lemma range_usize_ok [result_simps]: "range_usize v lo hi path = Inr u \<longleftrightarrow> lo \<le> v \<and> v \<le> hi"
  by (simp add: range_usize_def)

lemma guard_ok [simp, result_simps]: "(if b then config_error path m else Inr ()) = Inr u \<longleftrightarrow> \<not> b"
  by simp

lemma guard_ok' [simp, result_simps]: "(if b then Inr () else config_error path m) = Inr u \<longleftrightarrow> b"
  by simp

lemma MIB_GIB [simp]: "unat MIB = 1048576" "unat GIB = 1073741824" "unat (2 * GIB) = 2147483648"
    "unat (64 * MIB) = 67108864"
  by (simp_all add: MIB_def GIB_def)

lemma validate_limits_facts:
  assumes "validate_limits l = Inr ()"
  shows "1 \<le> max_concurrent_captures l" "max_concurrent_captures l \<le> 256"
    and "1 \<le> max_concurrent_encodes l" "1 \<le> max_concurrent_writes l"
    and "1 \<le> max_queued_captures_per_camera l" "1 \<le> max_queued_controls_per_camera l"
    and "max_queued_captures_per_camera l \<le> max_pending_captures l"
    and "0 < unat (max_in_flight_bytes l)" "0 < unat (max_frame_bytes_per_camera l)"
    and "\<forall>(name, grp) \<in> set (lim_resource_groups l).
           1 \<le> rg_max_concurrent_captures grp \<and> rg_max_concurrent_captures grp \<le> max_concurrent_captures l"
    and "max_concurrent_captures l * unat (max_frame_bytes_per_camera l) \<le> unat (max_in_flight_bytes l)"
proof -
  have r: "validate_limit_ranges l = Inr ()" "validate_pending_limits l = Inr ()"
    "validate_byte_budget l = Inr ()" "validate_resource_groups l = Inr ()"
    using assms by (simp_all add: validate_limits_def and_then_Inr_iff)
  note ranges = r(1) [unfolded validate_limit_ranges_def checks_Inr_iff, simplified,
      unfolded range_usize_ok range_u64_ok]
  from ranges show c: "1 \<le> max_concurrent_captures l" "max_concurrent_captures l \<le> 256"
    and "1 \<le> max_concurrent_encodes l" "1 \<le> max_concurrent_writes l"
    and "1 \<le> max_queued_captures_per_camera l" "1 \<le> max_queued_controls_per_camera l" by auto
  from ranges have "64 * MIB \<le> max_in_flight_bytes l" "MIB \<le> max_frame_bytes_per_camera l"
    and f: "max_frame_bytes_per_camera l \<le> 2 * GIB" by auto
  then show "0 < unat (max_in_flight_bytes l)" "0 < unat (max_frame_bytes_per_camera l)"
    by (simp_all add: word_le_nat_alt)
  show "max_queued_captures_per_camera l \<le> max_pending_captures l"
    using r(2) by (simp add: validate_pending_limits_def split: if_splits)
  show "\<forall>(name, grp) \<in> set (lim_resource_groups l).
           1 \<le> rg_max_concurrent_captures grp \<and> rg_max_concurrent_captures grp \<le> max_concurrent_captures l"
    using r(4) by (fastforce simp: validate_resource_groups_def for_each_Inr_iff and_then_Inr_iff
        split: if_splits)
  have f': "unat (max_frame_bytes_per_camera l) \<le> 2147483648"
    using f by (simp add: word_le_nat_alt)
  have "max_concurrent_captures l * unat (max_frame_bytes_per_camera l) \<le> 256 * 2147483648"
    using c(2) f' by (rule mult_le_mono)
  then have small: "max_concurrent_captures l * unat (max_frame_bytes_per_camera l) \<le> u64_max"
    by (simp add: u64_max_def)
  have n: "unat (of_nat (max_concurrent_captures l) :: u64) = max_concurrent_captures l"
    using c(2) by (simp add: unat_of_nat)
  have "saturating_mul_u64 (of_nat (max_concurrent_captures l)) (max_frame_bytes_per_camera l)
      \<le> max_in_flight_bytes l"
    using r(3) by (simp add: validate_byte_budget_def Let_def split: if_splits)
  then show "max_concurrent_captures l * unat (max_frame_bytes_per_camera l) \<le> unat (max_in_flight_bytes l)"
    using small by (simp add: word_le_nat_alt unat_saturating_mul_u64 n min_def)
qed

lemma validate_timeouts_facts:
  assumes "validate_timeouts t = Inr ()"
  shows "0 < unat (reconnect_backoff_min_ms t)" "reconnect_backoff_min_ms t \<le> reconnect_backoff_max_ms t"
    and "unat (job_terminal_ms t) + unat (reply_margin_ms t) \<le> unat (max_deferred_reply_lifetime_ms t)"
proof -
  note ranges = assms [unfolded validate_timeouts_def checks_Inr_iff, simplified, unfolded range_u64_ok]
  have a: "(100 :: u64) \<le> reconnect_backoff_min_ms t" using ranges by auto
  have "unat (100 :: u64) \<le> unat (reconnect_backoff_min_ms t)"
    using a by (simp only: word_le_nat_alt)
  then show "0 < unat (reconnect_backoff_min_ms t)" by simp
  show "reconnect_backoff_min_ms t \<le> reconnect_backoff_max_ms t" using ranges by auto
  have b: "job_terminal_ms t \<le> 1800000" "reply_margin_ms t \<le> 60000" using ranges by auto
  then have "unat (job_terminal_ms t) \<le> unat (1800000 :: u64)"
    "unat (reply_margin_ms t) \<le> unat (60000 :: u64)" by (simp_all only: word_le_nat_alt)
  then have small: "unat (job_terminal_ms t) + unat (reply_margin_ms t) \<le> u64_max"
    by (simp add: u64_max_def)
  have "saturating_add_u64 (job_terminal_ms t) (reply_margin_ms t) \<le> max_deferred_reply_lifetime_ms t"
    using ranges by auto
  then show "unat (job_terminal_ms t) + unat (reply_margin_ms t) \<le> unat (max_deferred_reply_lifetime_ms t)"
    using small by (simp add: word_le_nat_alt unat_saturating_add_u64 min_def)
qed

section \<open>Startup and reload\<close>

lemma initial_loop_skipped:
  "initial_loop env raw_id deser g i cams skipped seen raws = (cams', skipped', seen') \<Longrightarrow>
     \<exists>new. skipped' = skipped @ new"
proof (induction raws arbitrary: i cams skipped seen)
  case (Cons raw raws)
  show ?case
    using Cons.prems Cons.IH
    by (fastforce simp: Let_def split: option.splits sum.splits if_splits)
qed simp

lemma reload_loop_iff:
  "reload_loop env deser g i cams seen raws = Inr (cams', seen') \<longleftrightarrow>
     initial_loop env raw_id deser g i cams [] seen raws = (cams', [], seen')"
proof (induction raws arbitrary: i cams seen)
  case (Cons raw raws)
  have grow: "initial_loop env raw_id deser g j c [x] s raws \<noteq> (cams', [], seen')" for j c x s
    using initial_loop_skipped [of env raw_id deser g j c "[x]" s raws cams' "[]" seen'] by auto
  show ?case
    using Cons.IH by (auto simp: Let_def grow split: option.splits sum.splits)
qed auto

text \<open>A reload accepts a document exactly when startup would accept it without skipping any
  instance, and both then produce the same configuration.\<close>

theorem reload_is_strict_startup:
  "from_core_reload env deser_global deser raw_global raws = Inr cfg \<longleftrightarrow>
   from_core_initial env deser_global raw_id deser raw_global raws = Inr (cfg, [])"
proof (cases "parse_global deser_global raw_global")
  case (Inl e)
  then show ?thesis by (simp add: from_core_reload_def from_core_initial_def)
next
  case (Inr g)
  obtain cams skipped seen
    where loop: "initial_loop env raw_id deser g 0 [] [] [] raws = (cams, skipped, seen)"
    by (metis prod_cases3)
  have accept: "from_core_initial env deser_global raw_id deser raw_global raws = Inr (cfg, [])
      \<longleftrightarrow> skipped = [] \<and> list_ex cam_enabled cams \<and> validate_cross_instance env cams g seen = Inr () \<and>
          cfg = \<lparr>ad_global = g, ad_instances = cams\<rparr>"
    by (auto simp: from_core_initial_def Inr loop and_then_Inr_iff no_enabled_camera_def)
  have reload: "reload_loop env deser g 0 [] [] raws = Inr (c, s) \<longleftrightarrow>
      skipped = [] \<and> c = cams \<and> s = seen" for c s
    using reload_loop_iff [of env deser g 0 "[]" "[]" raws c s raw_id] loop by auto
  show ?thesis
    unfolding accept using reload [of cams seen]
    by (cases "reload_loop env deser g 0 [] [] raws")
       (auto simp: from_core_reload_def Inr and_then_Inr_iff no_enabled_camera_def reload split: prod.splits)
qed

lemma initial_loop_spec:
  assumes "initial_loop env raw_id deser g i cams skipped seen raws = (cams', skipped', seen')"
    and "distinct (map cam_id cams)" and "set (map cam_id cams) \<subseteq> set seen"
    and "\<forall>c \<in> set cams. \<exists>path. validate_camera env c g path = Inr ()"
  shows "distinct (map cam_id cams') \<and> set (map cam_id cams') \<subseteq> set seen' \<and>
    (\<forall>c \<in> set cams'. \<exists>path. validate_camera env c g path = Inr ())"
  using assms
proof (induction raws arbitrary: i cams skipped seen)
  case (Cons raw raws)
  show ?case
  proof (cases "deser raw")
    case None
    then show ?thesis using Cons.prems by (intro Cons.IH [of "Suc i" cams _ seen]) auto
  next
    case (Some camera)
    show ?thesis
    proof (cases "cam_id camera \<in> set seen")
      case True
      then show ?thesis using Cons.prems Some by (intro Cons.IH [of "Suc i" cams _ seen]) auto
    next
      case False
      show ?thesis
      proof (cases "validate_camera env camera g (instance_path i)")
        case (Inl e)
        then show ?thesis using Cons.prems Some False
          by (intro Cons.IH [of "Suc i" cams _ "cam_id camera # seen"]) (auto simp: Let_def)
      next
        case (Inr u)
        then show ?thesis using Cons.prems Some False
          by (intro Cons.IH [of "Suc i" "cams @ [camera]" skipped "cam_id camera # seen"])
             (auto simp: Let_def)
      qed
    qed
  qed
qed simp

lemma from_core_initial_parts:
  assumes "from_core_initial env dg raw_id deser raw_global raws = Inr (cfg, skipped)"
  shows "validate_global (ad_global cfg) = Inr ()"
    and "distinct (map cam_id (ad_instances cfg))"
    and "\<forall>c \<in> set (ad_instances cfg). \<exists>path. validate_camera env c (ad_global cfg) path = Inr ()"
    and "list_ex cam_enabled (ad_instances cfg)"
    and "\<exists>seen. validate_cross_instance env (ad_instances cfg) (ad_global cfg) seen = Inr ()"
proof -
  obtain g where g: "parse_global dg raw_global = Inr g"
    using assms by (auto simp: from_core_initial_def and_then_Inr_iff)
  obtain cams sk seen where loop: "initial_loop env raw_id deser g 0 [] [] [] raws = (cams, sk, seen)"
    by (metis prod_cases3)
  have *: "list_ex cam_enabled cams" "validate_cross_instance env cams g seen = Inr ()"
    "cfg = \<lparr>ad_global = g, ad_instances = cams\<rparr>"
    using assms by (auto simp: from_core_initial_def g loop and_then_Inr_iff no_enabled_camera_def
        split: if_splits)
  have "validate_global g = Inr ()"
    using g by (auto simp: parse_global_def and_then_Inr_iff split: option.splits)
  with * initial_loop_spec [OF loop] show "validate_global (ad_global cfg) = Inr ()"
    "distinct (map cam_id (ad_instances cfg))"
    "\<forall>c \<in> set (ad_instances cfg). \<exists>path. validate_camera env c (ad_global cfg) path = Inr ()"
    "list_ex cam_enabled (ad_instances cfg)"
    "\<exists>seen. validate_cross_instance env (ad_instances cfg) (ad_global cfg) seen = Inr ()"
    by auto
qed

lemma check_members_ok:
  "check_members declared path members ms = Inr () \<Longrightarrow>
     distinct ms \<and> set ms \<inter> set members = {} \<and> set ms \<subseteq> set declared"
  by (induction ms arbitrary: members) (fastforce simp: and_then_Inr_iff split: if_splits)+

lemma group_schedules_loop_ok:
  "group_schedules_loop env cameras g declared i seen ss = Inr () \<Longrightarrow> s \<in> set ss \<Longrightarrow>
     \<exists>seen' path. validate_group_schedule env cameras g declared seen' path s = Inr ()"
  by (induction ss arbitrary: i seen) (auto simp: and_then_Inr_iff)

lemma camera_by_id_distinct:
  "distinct (map cam_id cs) \<Longrightarrow> c \<in> set cs \<Longrightarrow> camera_by_id cs (cam_id c) = Some c"
  unfolding camera_by_id_def by (intro map_of_is_SomeI) (auto simp: rev_map [symmetric] comp_def)

lemma validate_group_schedule_facts:
  assumes "validate_group_schedule env cameras g declared seen path s = Inr ()"
  shows "2 \<le> length (gs_instances s)" "length (gs_instances s) \<le> max_cameras_per_group (g_limits g)"
    and "distinct (gs_instances s)" "set (gs_instances s) \<subseteq> set declared"
    and "m \<in> set (gs_instances s) \<Longrightarrow> check_member_profile cameras s path m = Inr ()"
proof -
  note parts = assms [unfolded validate_group_schedule_def checks_Inr_iff, simplified]
  from parts show "2 \<le> length (gs_instances s)"
    "length (gs_instances s) \<le> max_cameras_per_group (g_limits g)" by auto
  have "check_members declared path [] (gs_instances s) = Inr ()" using parts by blast
  then show "distinct (gs_instances s)" "set (gs_instances s) \<subseteq> set declared"
    by (auto dest: check_members_ok)
  have "for_each (check_member_profile cameras s path) (gs_instances s) = Inr ()"
    using parts by blast
  then show "m \<in> set (gs_instances s) \<Longrightarrow> check_member_profile cameras s path m = Inr ()"
    by (simp add: for_each_Inr_iff)
qed

lemma validate_schedules_ok:
  "validate_schedules env camera path i seen ss = Inr () \<Longrightarrow> s \<in> set ss \<Longrightarrow>
     contains_key (sc_capture_profile s) (capture_profiles camera)"
  by (induction ss arbitrary: i seen) (auto simp: Let_def and_then_Inr_iff split: if_splits)

lemma validate_camera_facts:
  assumes "validate_camera env c g path = Inr ()"
  shows "contains_key (default_capture_profile c) (capture_profiles c)"
    and "s \<in> set (cam_schedules c) \<Longrightarrow> contains_key (sc_capture_profile s) (capture_profiles c)"
    and "cam_resource_group c = Some r \<Longrightarrow> contains_key r (lim_resource_groups (g_limits g))"
    and "(name, prof) \<in> set (capture_profiles c) \<Longrightarrow>
      validate_profile prof (backend_config_kind (cam_backend c)) g
        (path @ ''.captureProfiles.'' @ name) = Inr ()"
proof -
  note parts = assms [unfolded validate_camera_def checks_Inr_iff, simplified]
  from parts show "contains_key (default_capture_profile c) (capture_profiles c)" by auto
  have "validate_schedules env c path 0 [] (cam_schedules c) = Inr ()" using parts by blast
  then show "s \<in> set (cam_schedules c) \<Longrightarrow> contains_key (sc_capture_profile s) (capture_profiles c)"
    by (rule validate_schedules_ok)
  show "cam_resource_group c = Some r \<Longrightarrow> contains_key r (lim_resource_groups (g_limits g))"
    using parts by auto
  show "(name, prof) \<in> set (capture_profiles c) \<Longrightarrow>
      validate_profile prof (backend_config_kind (cam_backend c)) g
        (path @ ''.captureProfiles.'' @ name) = Inr ()"
    using parts by (fastforce simp: for_each_Inr_iff and_then_Inr_iff)
qed

text \<open>Every reference inside an accepted configuration resolves. The camera identifiers are
  unique, some camera is enabled and no more than allowed; each camera's default profile, the profile
  of each of its schedules and its resource group exist; each group schedule names between two and
  the maximum number of distinct cameras, and every member that was not skipped has the profile the
  schedule selects for it.\<close>

theorem accepted_config_references:
  assumes "from_core_initial env dg raw_id deser raw_global raws = Inr (cfg, skipped)"
    and "c \<in> set (ad_instances cfg)" and "gs \<in> set (g_capture_group_schedules (ad_global cfg))"
  shows "distinct (map cam_id (ad_instances cfg)) \<and> list_ex cam_enabled (ad_instances cfg) \<and>
    length (filter cam_enabled (ad_instances cfg)) \<le> max_connected_cameras (g_limits (ad_global cfg)) \<and>
    contains_key (default_capture_profile c) (capture_profiles c) \<and>
      (\<forall>s \<in> set (cam_schedules c). contains_key (sc_capture_profile s) (capture_profiles c)) \<and>
      (\<forall>r. cam_resource_group c = Some r \<longrightarrow>
         contains_key r (lim_resource_groups (g_limits (ad_global cfg)))) \<and>
    2 \<le> length (gs_instances gs) \<and>
      length (gs_instances gs) \<le> max_cameras_per_group (g_limits (ad_global cfg)) \<and>
      distinct (gs_instances gs) \<and>
      (cam_id c \<in> set (gs_instances gs) \<longrightarrow>
        (\<forall>p. selected_profile gs (cam_id c) = Some p \<longrightarrow> contains_key p (capture_profiles c)))"
proof -
  note parts = from_core_initial_parts [OF assms(1)]
  obtain seen where cross: "validate_cross_instance env (ad_instances cfg) (ad_global cfg) seen = Inr ()"
    using parts(5) by blast
  then have fleet: "distinct (map cam_id (ad_instances cfg)) \<and> list_ex cam_enabled (ad_instances cfg) \<and>
    length (filter cam_enabled (ad_instances cfg)) \<le> max_connected_cameras (g_limits (ad_global cfg))"
    using parts(2,4) by (simp add: validate_cross_instance_def split: if_splits)
  have own: "contains_key (default_capture_profile c) (capture_profiles c) \<and>
      (\<forall>s \<in> set (cam_schedules c). contains_key (sc_capture_profile s) (capture_profiles c)) \<and>
      (\<forall>r. cam_resource_group c = Some r \<longrightarrow>
         contains_key r (lim_resource_groups (g_limits (ad_global cfg))))"
    using parts(3) assms(2) validate_camera_facts by blast
  obtain s' path where v: "validate_group_schedule env (ad_instances cfg) (ad_global cfg) seen s' path gs
      = Inr ()"
    using cross assms(3) group_schedules_loop_ok
    by (fastforce simp: validate_cross_instance_def validate_group_schedules_def split: if_splits)
  note gsf = validate_group_schedule_facts [OF v]
  have "contains_key p (capture_profiles c)"
    if "cam_id c \<in> set (gs_instances gs)" "selected_profile gs (cam_id c) = Some p" for p
    using gsf(5) [OF that(1)] camera_by_id_distinct [OF parts(2) assms(2)] that(2)
    by (simp add: check_member_profile_def split: if_splits)
  then have "2 \<le> length (gs_instances gs) \<and>
      length (gs_instances gs) \<le> max_cameras_per_group (g_limits (ad_global cfg)) \<and>
      distinct (gs_instances gs) \<and>
      (cam_id c \<in> set (gs_instances gs) \<longrightarrow>
        (\<forall>p. selected_profile gs (cam_id c) = Some p \<longrightarrow> contains_key p (capture_profiles c)))"
    using gsf(1-3) by blast
  then show ?thesis using fleet own by blast
qed

section \<open>A configuration that is accepted\<close>

definition demo_profile :: CaptureProfile where
  "demo_profile = \<lparr>prof_capture_mode = None, prof_offline_policy = None, prof_queue_expiry_ms = None,
     prof_timeout_ms = None, prof_maximum_frame_bytes = Some GIB, prof_pixel_format = None,
     region_width = None, region_height = None, offset_x = None, offset_y = None,
     prof_exposure_micros = None, prof_gain = None, prof_encoding = Passthrough,
     prof_jpeg_quality = 90, prof_thumbnail = None, profile_interlock = None\<rparr>"

definition demo_sim :: SimBackendConfig where
  "demo_sim = \<lparr>simulated_id = None, sim_seed = None,
     sim_frame = \<lparr>sim_width = 640, sim_height = 480, sim_pixel_format = Rgb8, sim_pattern = ColorBars\<rparr>,
     connect_delay_ms = 0, capture_delay_ms = 10,
     sim_ptz = \<lparr>ptz_supported = False, status_supported = True, presets_supported = False\<rparr>,
     sim_faults = \<lparr>disconnect_after_captures = None, fail_every_nth_capture = None,
                   incomplete_every_nth_capture = None\<rparr>\<rparr>"

definition demo_camera :: "string \<Rightarrow> CameraConfig" where
  "demo_camera cid = \<lparr>cam_id = cid, cam_enabled = True, cam_resource_group = None,
     cam_backend = SimCfg demo_sim, default_capture_profile = ''p'',
     capture_profiles = [(''p'', demo_profile)], cam_schedules = [], cam_ptz = PtzConfig_default\<rparr>"

definition demo_group_schedule :: CaptureGroupScheduleConfig where
  "demo_group_schedule = \<lparr>gs_id = ''pair'', gs_enabled = True, gs_cron = ''0 0 * * * *'',
     gs_timezone = ''UTC'', gs_instances = [''a'', ''b''], gs_capture_profile = Some ''p'',
     gs_profile_overrides = [], gs_misfire_policy = Misfire_Skip, gs_overlap_policy = Overlap_Skip,
     gs_jitter_seconds = 0, gs_timeout_ms = None\<rparr>"

definition demo_global :: GlobalConfig where
  "demo_global = \<lparr>g_output = \<lparr>root_directory = ''/data'',
       camera_directory_template = ''{cameraId}'', file_name_template = ''{captureId}'',
       write_metadata_sidecar = False, minimum_free_bytes = GIB, minimum_free_percent = 5,
       directory_mode = ''0750'', file_mode = ''0640''\<rparr>,
     g_state = StateConfig_default, g_limits = LimitsConfig_default 4,
     g_timeouts = TimeoutsConfig_default, g_discovery = DiscoveryConfig_default,
     g_operator_events = \<lparr>capture_lifecycle = False\<rparr>,
     g_health_thresholds = \<lparr>stale_signal_secs = 300\<rparr>, g_security = SecurityConfig_default,
     g_capture_group_schedules = [demo_group_schedule]\<rparr>"

definition demo_env :: ConfigEnv where
  "demo_env = \<lparr>cron_ok = (\<lambda>c. c = ''0 0 * * * *''), tz_ok = (\<lambda>z. z = ''UTC''), ipv4_ok = (\<lambda>_. False),
     url_parse = (\<lambda>_. Inl ''relative URL without a base''), rtsp_feature = False\<rparr>"

lemma demo_output_ok: "validate_output (g_output demo_global) = Inr ()"
  by (simp add: validate_output_def demo_global_def require_absolute_def is_absolute_cross_platform_def
      validate_template_def Let_def template_scan.simps template_variables_def range_usize_def
      validate_mode_def octal_value_def is_ascii_alphabetic_def)

lemma demo_limits_ok: "validate_limits (LimitsConfig_default 4) = Inr ()"
  by (simp add: validate_limits_def validate_limit_ranges_def validate_pending_limits_def
      validate_byte_budget_def validate_resource_groups_def LimitsConfig_default_def range_usize_def
      range_u64_def MIB_def GIB_def saturating_mul_u64_def Let_def)

lemma demo_global_ok: "validate_global demo_global = Inr ()"
  using demo_output_ok demo_limits_ok
  by (simp add: validate_global_def demo_global_def validate_state_def StateConfig_default_def
      validate_timeouts_def TimeoutsConfig_default_def saturating_add_u64_def validate_discovery_def
      DiscoveryConfig_default_def SecurityConfig_default_def range_usize_def range_u64_def)

lemma demo_profile_ok: "validate_profile demo_profile Sim demo_global path = Inr ()"
  by (simp add: validate_profile_def demo_profile_def validate_queue_expiry_def profile_terminal_ms_def
      profile_maximum_frame_bytes_def demo_global_def TimeoutsConfig_default_def LimitsConfig_default_def
      saturating_add_u64_def range_usize_def range_u64_def MIB_def GIB_def)

lemma demo_camera_ok:
  assumes "check_token cid (path @ ''.id'') = Inr ()"
  shows "validate_camera demo_env (demo_camera cid) demo_global path = Inr ()"
  using assms demo_profile_ok
  by (simp add: validate_camera_def demo_camera_def contains_key_def check_token_def is_token_byte_def
      is_ascii_alphabetic_def is_ascii_digit_def PtzConfig_default_def range_u64_def range_usize_def
      validate_sim_def demo_sim_def Let_def uncompressed_len_def checked_mul_def fault_positive_def
      demo_global_def LimitsConfig_default_def MIB_def)

lemma demo_initial:
  "from_core_initial demo_env (\<lambda>r. case r of Inl g \<Rightarrow> Some g | Inr _ \<Rightarrow> None) (\<lambda>_. None)
     (\<lambda>r. case r of Inr c \<Rightarrow> Some c | Inl _ \<Rightarrow> None) (Inl demo_global)
     [Inr (demo_camera ''a''), Inr (demo_camera ''b'')] =
   Inr (\<lparr>ad_global = demo_global, ad_instances = [demo_camera ''a'', demo_camera ''b'']\<rparr>, [])"
proof -
  have "validate_cross_instance demo_env [demo_camera ''a'', demo_camera ''b''] demo_global [''b'', ''a'']
      = Inr ()"
    by (simp add: validate_cross_instance_def demo_camera_def demo_global_def LimitsConfig_default_def
        validate_group_schedules_def validate_group_schedule_def demo_group_schedule_def check_token_def
        is_token_byte_def is_ascii_alphabetic_def is_ascii_digit_def cron_and_timezone_def demo_env_def
        split_whitespace_count_def is_continuation_def is_whitespace_def check_member_profile_def
        camera_by_id_def selected_profile_def contains_key_def range_usize_def)
  moreover have "validate_camera demo_env (demo_camera ''a'') demo_global path = Inr ()"
    "validate_camera demo_env (demo_camera ''b'') demo_global path = Inr ()" for path
    by (simp_all add: demo_camera_ok check_token_def is_token_byte_def is_ascii_alphabetic_def)
  moreover have "cam_id (demo_camera cid) = cid" "cam_enabled (demo_camera cid)" for cid
    by (simp_all add: demo_camera_def)
  ultimately show ?thesis
    by (simp add: from_core_initial_def parse_global_def demo_global_ok)
qed

theorem accepted_config_references_witness:
  "contains_key (default_capture_profile (demo_camera ''a'')) (capture_profiles (demo_camera ''a'')) \<and>
   distinct (gs_instances demo_group_schedule)"
  using accepted_config_references [OF demo_initial, of "demo_camera ''a''" demo_group_schedule]
  by (simp add: demo_global_def)

section \<open>Where an accepted configuration falls short\<close>

text \<open>The documented hard per-camera frame ceiling does not bind capture profiles. Some global
  block and camera are both accepted although the camera's default profile reserves more than the
  ceiling per capture, and then the byte budget admits fewer captures at a time than the configured
  concurrency: the condition the budget check was written to exclude.\<close>

theorem profile_ceiling_not_enforced:
  "\<exists>env g c prof. validate_global g = Inr () \<and> validate_camera env c g path = Inr () \<and>
     (default_capture_profile c, prof) \<in> set (capture_profiles c) \<and>
     max_frame_bytes_per_camera (g_limits g) < profile_maximum_frame_bytes prof g \<and>
     unat (max_in_flight_bytes (g_limits g)) div unat (profile_maximum_frame_bytes prof g)
       < max_concurrent_captures (g_limits g)"
proof (intro exI conjI)
  show "validate_global demo_global = Inr ()" by (rule demo_global_ok)
  show "validate_camera demo_env (demo_camera ''a'') demo_global path = Inr ()"
    by (simp add: demo_camera_ok check_token_def is_token_byte_def is_ascii_alphabetic_def)
  show "(default_capture_profile (demo_camera ''a''), demo_profile)
      \<in> set (capture_profiles (demo_camera ''a''))" by (simp add: demo_camera_def)
  show "max_frame_bytes_per_camera (g_limits demo_global)
      < profile_maximum_frame_bytes demo_profile demo_global"
    "unat (max_in_flight_bytes (g_limits demo_global)) div
        unat (profile_maximum_frame_bytes demo_profile demo_global)
      < max_concurrent_captures (g_limits demo_global)"
    by (simp_all add: demo_profile_def demo_global_def profile_maximum_frame_bytes_def
        LimitsConfig_default_def MIB_def GIB_def)
qed

lemma split_at_prefix: "x \<notin> set u \<Longrightarrow> split_at x (u @ x # v) = Some (u, v)"
  by (induction u) auto

lemma template_variable_no_brace: "var \<in> set template_variables \<Longrightarrow> CHR ''}'' \<notin> set var"
  by (auto simp: template_variables_def)

text \<open>The unmatched-brace check of a template sees only the text after its last variable:
  whatever stands before a known variable, closing braces included, has no influence on the outcome.\<close>

theorem template_scan_ignores_prefix:
  assumes "CHR ''{'' \<notin> set u" and "var \<in> set template_variables"
  shows "template_scan path (u @ [CHR ''{''] @ var @ [CHR ''}''] @ v) = template_scan path v"
  using split_at_prefix [OF assms(1), of "var @ CHR ''}'' # v"]
    split_at_prefix [OF template_variable_no_brace [OF assms(2)], of v] assms(2)
  by (subst template_scan.simps) simp

theorem template_scan_ignores_prefix_witness:
  "validate_template ''a}b-{captureId}'' False = Inr ()"
proof -
  have "template_scan ''component.global.output.fileNameTemplate'' ''a}b-{captureId}'' =
      template_scan ''component.global.output.fileNameTemplate'' []"
    using template_scan_ignores_prefix [of "''a}b-''" "''captureId''" _ "[]"]
    by (simp add: template_variables_def)
  then show ?thesis
    by (simp add: validate_template_def is_absolute_cross_platform_def is_ascii_alphabetic_def
        template_scan.simps [of _ "[]"])
qed

end
