(* ===== verification/Admission_Queue.thy ===== *)
theory Admission_Queue
  imports Camera_Error
begin

text \<open>
  The bounded, priority-aged capture queue of \<open>src/admission.rs\<close> (\<open>QueueInner\<close> and
  \<open>CaptureAdmissionQueue\<close>). The queue runs under one mutex, so every method is one atomic operation on
  the state. A cancellation token is named by a number and \<open>cancelled\<close> says which tokens are
  cancelled when the operation looks; instants are passed in. The watcher task spawned for each
  descriptor is explicit state: it is alive from the enqueue until its \<open>expiry_task_cancel\<close> token is
  cancelled or it fires. Operations return the descriptors they drop, because dropping one releases
  what its payload holds.

  Shown: the per-camera counters always agree with the entries, both hard bounds hold, tickets are
  unique and every queued descriptor has exactly one live watcher, after any interleaving of
  operations; selection returns the live admissible descriptor of the highest aged score, oldest
  ticket first; and a descriptor is never overtaken by one that arrived two aging intervals later.
\<close>

section \<open>State\<close>

datatype CapturePriority = Direct | Submitted | Scheduled

fun base_score :: "CapturePriority \<Rightarrow> nat" where
  "base_score Direct = 2"
| "base_score Submitted = 1"
| "base_score Scheduled = 0"

record 'p QueueEntry =
  qe_ticket :: u64
  qe_camera_id :: string
  qe_priority :: CapturePriority
  qe_enqueued_at :: nat
  qe_deadline :: nat
  qe_cancellation :: nat
  qe_payload :: 'p

text \<open>The watcher task of one descriptor: the ticket it removes, and the two events it waits for.\<close>

record Watcher =
  w_ticket :: u64
  w_cancellation :: nat
  w_deadline :: nat

record 'p QueueInner =
  entries :: "'p QueueEntry list"
  per_camera :: "string \<rightharpoonup> nat"
  next_ticket :: u64
  max_global_pending :: nat
  max_per_camera :: nat
  aging_interval :: nat
  watchers :: "Watcher list"

section \<open>Operations\<close>

definition effective_score :: "'p QueueEntry \<Rightarrow> nat \<Rightarrow> nat \<Rightarrow> nat" where
  "effective_score entry now aging =
     base_score (qe_priority entry) + (now - qe_enqueued_at entry) div aging"

definition decrement_camera_count :: "(string \<rightharpoonup> nat) \<Rightarrow> string \<Rightarrow> (string \<rightharpoonup> nat)" where
  "decrement_camera_count counts camera =
     (case counts camera of
        None \<Rightarrow> counts
      | Some n \<Rightarrow> if n - 1 = 0 then counts(camera := None) else counts(camera \<mapsto> n - 1))"

definition cancel_watcher :: "u64 \<Rightarrow> Watcher list \<Rightarrow> Watcher list" where
  "cancel_watcher ticket ws = filter (\<lambda>w. w_ticket w \<noteq> ticket) ws"

definition remove_ticket :: "u64 \<Rightarrow> 'p QueueInner \<Rightarrow> 'p QueueInner \<times> 'p QueueEntry option" where
  "remove_ticket ticket q =
     (case position (\<lambda>entry. qe_ticket entry = ticket) (entries q) of
        None \<Rightarrow> (q, None)
      | Some index \<Rightarrow>
          (let entry = entries q ! index
           in (q\<lparr>entries := swap_remove index (entries q),
                 per_camera := decrement_camera_count (per_camera q) (qe_camera_id entry),
                 watchers := cancel_watcher (qe_ticket entry) (watchers q)\<rparr>, Some entry)))"

text \<open>The sweep of expired and cancelled descriptors: the removed entry's place is taken by the last
  one, so the index advances only over an entry that stays.\<close>

function sweep :: "('p QueueEntry \<Rightarrow> bool) \<Rightarrow> nat \<Rightarrow> 'p QueueEntry list \<Rightarrow> (string \<rightharpoonup> nat) \<Rightarrow>
    'p QueueEntry list \<Rightarrow> 'p QueueEntry list \<times> (string \<rightharpoonup> nat) \<times> 'p QueueEntry list" where
  "sweep dead index es counts discarded =
     (if index < length es
      then if dead (es ! index)
           then sweep dead index (swap_remove index es)
                  (decrement_camera_count counts (qe_camera_id (es ! index)))
                  (discarded @ [es ! index])
           else sweep dead (Suc index) es counts discarded
      else (es, counts, discarded))"
  by pat_completeness auto
termination
  by (relation "measure (\<lambda>(dead, index, es, counts, discarded). length es - index)") auto

declare sweep.simps [simp del]

definition entry_dead :: "(nat \<Rightarrow> bool) \<Rightarrow> nat \<Rightarrow> 'p QueueEntry \<Rightarrow> bool" where
  "entry_dead cancelled now entry = (cancelled (qe_cancellation entry) \<or> qe_deadline entry \<le> now)"

definition entry_le :: "nat \<Rightarrow> nat \<Rightarrow> 'p QueueEntry \<Rightarrow> 'p QueueEntry \<Rightarrow> bool" where
  "entry_le now aging left right =
     (effective_score left now aging < effective_score right now aging \<or>
      (effective_score left now aging = effective_score right now aging \<and>
       qe_ticket right \<le> qe_ticket left))"

definition best_index :: "nat \<Rightarrow> nat \<Rightarrow> (string \<Rightarrow> bool) \<Rightarrow> 'p QueueEntry list \<Rightarrow> nat option" where
  "best_index now aging admissible es =
     map_option fst
       (max_by (\<lambda>(_, left) (_, right). entry_le now aging left right)
          (filter (\<lambda>(_, entry). admissible (qe_camera_id entry)) (enumerate 0 es)))"

definition cancel_watchers_of :: "'p QueueEntry list \<Rightarrow> Watcher list \<Rightarrow> Watcher list" where
  "cancel_watchers_of dropped ws = filter (\<lambda>w. w_ticket w \<notin> qe_ticket ` set dropped) ws"

text \<open>Returns the new state, the selected descriptor and the discarded ones.\<close>

definition pop_best_admissible ::
    "(nat \<Rightarrow> bool) \<Rightarrow> nat \<Rightarrow> (string \<Rightarrow> bool) \<Rightarrow> 'p QueueInner \<Rightarrow>
     'p QueueInner \<times> 'p QueueEntry option \<times> 'p QueueEntry list" where
  "pop_best_admissible cancelled now admissible q =
     (let (live, counts, discarded) = sweep (entry_dead cancelled now) 0 (entries q) (per_camera q) []
      in case best_index now (aging_interval q) admissible live of
           None \<Rightarrow>
             (q\<lparr>entries := live, per_camera := counts,
                watchers := cancel_watchers_of discarded (watchers q)\<rparr>, None, discarded)
         | Some index \<Rightarrow>
             (let entry = live ! index
              in (q\<lparr>entries := swap_remove index live,
                    per_camera := decrement_camera_count counts (qe_camera_id entry),
                    watchers := cancel_watchers_of (discarded @ [entry]) (watchers q)\<rparr>,
                  Some entry, discarded)))"

definition pop_best ::
    "(nat \<Rightarrow> bool) \<Rightarrow> nat \<Rightarrow> 'p QueueInner \<Rightarrow>
     'p QueueInner \<times> 'p QueueEntry option \<times> 'p QueueEntry list" where
  "pop_best cancelled now q = pop_best_admissible cancelled now (\<lambda>_. True) q"

definition queue_full :: "string \<Rightarrow> camera_error" where
  "queue_full message = Rejected QueueFull message"

definition timeout_error :: "string \<Rightarrow> camera_error" where
  "timeout_error stage =
     Rejected CaptureTimeout (''deadline expired while waiting for '' @ stage)"

definition cancelled_error :: "string \<Rightarrow> camera_error" where
  "cancelled_error stage = Rejected CaptureCancelled (''cancelled while waiting for '' @ stage)"

definition queue_new :: "nat \<Rightarrow> nat \<Rightarrow> nat \<Rightarrow> 'p QueueInner result" where
  "queue_new global per_cam aging =
     (if global = 0 \<or> per_cam = 0
      then Inl (Rejected BadArgs ''capture queue bounds must be non-zero'')
      else if aging = 0
      then Inl (Rejected BadArgs ''capture queue aging interval must be non-zero'')
      else Inr \<lparr>entries = [], per_camera = Map.empty, next_ticket = 1, max_global_pending = global,
                max_per_camera = per_cam, aging_interval = aging, watchers = []\<rparr>)"

text \<open>The queue reads the clock twice: \<open>now\<close> for the deadline check, \<open>now'\<close> for the enqueue time.
  The ticket is taken before the capacity checks, so a full queue still consumes a ticket number.\<close>

definition try_enqueue ::
    "bool \<Rightarrow> (nat \<Rightarrow> bool) \<Rightarrow> nat \<Rightarrow> nat \<Rightarrow> string \<Rightarrow> CapturePriority \<Rightarrow> nat \<Rightarrow> nat \<Rightarrow> 'p \<Rightarrow>
     'p QueueInner \<Rightarrow> 'p QueueInner \<times> u64 result" where
  "try_enqueue in_runtime cancelled now now' camera_id priority deadline cancellation payload q =
     (if camera_id = [] then (q, Inl (Rejected BadArgs ''camera id must not be empty''))
      else if cancelled cancellation then (q, Inl (cancelled_error ''capture queue''))
      else if deadline \<le> now then (q, Inl (timeout_error ''capture queue''))
      else if \<not> in_runtime
      then (q, Inl (CatalogError ''capture admission queue requires a Tokio runtime''))
      else case checked_add (next_ticket q) 1 of
        None \<Rightarrow> (q, Inl (Rejected ResourceLimit ''capture queue ticket space exhausted''))
      | Some next' \<Rightarrow>
          (let ticket = next_ticket q; q1 = q\<lparr>next_ticket := next'\<rparr>
           in if max_global_pending q \<le> length (entries q)
              then (q1, Inl (queue_full ''global capture descriptor queue is full''))
              else let camera_pending = (case per_camera q camera_id of None \<Rightarrow> 0 | Some n \<Rightarrow> n)
              in if max_per_camera q \<le> camera_pending
              then (q1, Inl (queue_full ''camera capture descriptor queue is full''))
              else (q1\<lparr>per_camera := (per_camera q)(camera_id \<mapsto> camera_pending + 1),
                       entries := entries q @ [\<lparr>qe_ticket = ticket, qe_camera_id = camera_id,
                          qe_priority = priority, qe_enqueued_at = now', qe_deadline = deadline,
                          qe_cancellation = cancellation, qe_payload = payload\<rparr>],
                       watchers := watchers q @ [\<lparr>w_ticket = ticket,
                          w_cancellation = cancellation, w_deadline = deadline\<rparr>]\<rparr>,
                    Inr ticket)))"

text \<open>A watcher task resolves: with its token already cancelled it returns without touching the
  queue, otherwise it removes its ticket once the capture is cancelled or its deadline has passed.\<close>

definition watcher_fire ::
    "(nat \<Rightarrow> bool) \<Rightarrow> nat \<Rightarrow> u64 \<Rightarrow> 'p QueueInner \<Rightarrow> 'p QueueInner \<times> 'p QueueEntry option" where
  "watcher_fire cancelled now ticket q =
     (case find (\<lambda>w. w_ticket w = ticket) (watchers q) of
        None \<Rightarrow> (q, None)
      | Some w \<Rightarrow>
          if cancelled (w_cancellation w) \<or> w_deadline w \<le> now
          then (case remove_ticket ticket q of (q', dropped) \<Rightarrow>
                  (q'\<lparr>watchers := cancel_watcher ticket (watchers q')\<rparr>, dropped))
          else (q, None))"

text \<open>One turn of the consumer loop: look, and if nothing can be served wait, unless the consumer
  itself is cancelled.\<close>

definition next_admissible ::
    "(nat \<Rightarrow> bool) \<Rightarrow> nat \<Rightarrow> bool \<Rightarrow> (string \<Rightarrow> bool) \<Rightarrow> 'p QueueInner \<Rightarrow>
     'p QueueInner \<times> 'p QueueEntry option poll \<times> 'p QueueEntry list" where
  "next_admissible cancelled now consumer_cancelled admissible q =
     (case pop_best_admissible cancelled now admissible q of
        (q', Some entry, dropped) \<Rightarrow> (q', Ready (Some entry), dropped)
      | (q', None, dropped) \<Rightarrow> (q', if consumer_cancelled then Ready None else Pending, dropped))"

definition pending :: "'p QueueInner \<Rightarrow> nat" where
  "pending q = length (entries q)"

definition pending_for :: "'p QueueInner \<Rightarrow> string \<Rightarrow> nat" where
  "pending_for q camera = (case per_camera q camera of None \<Rightarrow> 0 | Some n \<Rightarrow> n)"

section \<open>Invariant\<close>

definition camera_count :: "string \<Rightarrow> 'p QueueEntry list \<Rightarrow> nat" where
  "camera_count camera es = length (filter (\<lambda>e. qe_camera_id e = camera) es)"

definition counts_ok :: "(string \<rightharpoonup> nat) \<Rightarrow> 'p QueueEntry list \<Rightarrow> bool" where
  "counts_ok counts es =
     (\<forall>camera. counts camera =
        (if camera_count camera es = 0 then None else Some (camera_count camera es)))"

definition queue_inv :: "'p QueueInner \<Rightarrow> bool" where
  "queue_inv q \<longleftrightarrow>
     counts_ok (per_camera q) (entries q) \<and>
     length (entries q) \<le> max_global_pending q \<and>
     (\<forall>camera. camera_count camera (entries q) \<le> max_per_camera q) \<and>
     distinct (map qe_ticket (entries q)) \<and>
     (\<forall>e \<in> set (entries q). qe_ticket e < next_ticket q \<and> qe_camera_id e \<noteq> []) \<and>
     mset (map w_ticket (watchers q)) = mset (map qe_ticket (entries q)) \<and>
     0 < aging_interval q"

section \<open>Counters\<close>

lemma camera_count_mset:
  "camera_count c es = size (filter_mset (\<lambda>e. qe_camera_id e = c) (mset es))"
  by (simp add: camera_count_def length_filter_mset)

lemma camera_count_cong: "mset es = mset es' \<Longrightarrow> camera_count c es = camera_count c es'"
  by (simp add: camera_count_mset)

lemma camera_count_add_mset:
  "mset es = add_mset e (mset es') \<Longrightarrow>
     camera_count c es = camera_count c es' + (if qe_camera_id e = c then 1 else 0)"
  by (simp add: camera_count_mset)

lemma counts_ok_remove:
  assumes "counts_ok m es" and "mset es = add_mset e (mset es')"
  shows "counts_ok (decrement_camera_count m (qe_camera_id e)) es'"
  using assms(1) camera_count_add_mset [OF assms(2)]
  by (auto simp: counts_ok_def decrement_camera_count_def split: if_splits)

lemma counts_ok_snoc:
  assumes "counts_ok m es" and "qe_camera_id e = c"
  shows "counts_ok (m(c \<mapsto> (case m c of None \<Rightarrow> 0 | Some n \<Rightarrow> n) + 1)) (es @ [e])"
  using assms by (auto simp: counts_ok_def camera_count_def)

lemma counts_ok_pending: "counts_ok (per_camera q) (entries q) \<Longrightarrow>
    pending_for q c = camera_count c (entries q)"
  by (simp add: counts_ok_def pending_for_def)

section \<open>The sweep\<close>

lemma nth_swap_remove_below: "j < i \<Longrightarrow> i < length xs \<Longrightarrow> swap_remove i xs ! j = xs ! j"
  by (auto simp: swap_remove_def Let_def nth_butlast)

lemma sweep_spec:
  assumes "sweep dead i es m d = (es', m', d')" and "\<forall>j < i. \<not> dead (es ! j)" and "i \<le> length es"
  shows "(\<forall>e \<in> set es'. \<not> dead e) \<and> mset es + mset d = mset es' + mset d' \<and>
         (\<exists>new. d' = d @ new \<and> (\<forall>e \<in> set new. dead e)) \<and> (counts_ok m es \<longrightarrow> counts_ok m' es')"
  using assms
proof (induction dead i es m d rule: sweep.induct)
  case (1 dead i es m d)
  consider (stop) "\<not> i < length es" | (drop) "i < length es" "dead (es ! i)"
    | (keep) "i < length es" "\<not> dead (es ! i)" by blast
  then show ?case
  proof cases
    case stop
    then have "es' = es" "m' = m" "d' = d" using "1.prems" by (simp_all add: sweep.simps)
    then show ?thesis using stop "1.prems" by (auto simp: in_set_conv_nth)
  next
    case drop
    let ?e = "es ! i"
    have rec: "sweep dead i (swap_remove i es) (decrement_camera_count m (qe_camera_id ?e))
        (d @ [?e]) = (es', m', d')"
      using drop "1.prems"(1) by (simp add: sweep.simps [of dead i es])
    have ms: "mset es = add_mset ?e (mset (swap_remove i es))" using drop(1) by (rule mset_swap_remove)
    have below: "\<forall>j < i. \<not> dead (swap_remove i es ! j)"
      using drop(1) "1.prems"(2) by (simp add: nth_swap_remove_below)
    have le: "i \<le> length (swap_remove i es)" using drop(1) by simp
    note IH = "1.IH"(1) [OF drop rec below le]
    have "mset es + mset d = mset es' + mset d'" using IH ms by simp
    moreover have "counts_ok m es \<longrightarrow> counts_ok m' es'" using IH counts_ok_remove [OF _ ms] by blast
    ultimately show ?thesis using IH drop(2) by auto
  next
    case keep
    have rec: "sweep dead (Suc i) es m d = (es', m', d')"
      using keep "1.prems"(1) by (simp add: sweep.simps [of dead i es])
    have below: "\<forall>j < Suc i. \<not> dead (es ! j)"
      using keep "1.prems"(2) by (auto simp: less_Suc_eq)
    show ?thesis using "1.IH"(2) [OF keep rec below] keep(1) by simp
  qed
qed

lemma sweep_live:
  assumes "sweep dead 0 es m [] = (es', m', d)"
  shows "mset es' = filter_mset (\<lambda>e. \<not> dead e) (mset es)" and "mset d = filter_mset dead (mset es)"
    and "counts_ok m es \<Longrightarrow> counts_ok m' es'"
proof -
  note spec = sweep_spec [OF assms, simplified]
  have ms: "mset es = mset es' + mset d" using spec by simp
  have live: "filter_mset (\<lambda>e. \<not> dead e) (mset es') = mset es'" "filter_mset dead (mset es') = {#}"
    and dead: "filter_mset dead (mset d) = mset d" "filter_mset (\<lambda>e. \<not> dead e) (mset d) = {#}"
    using spec by (auto simp: filter_mset_eq_conv)
  show "mset es' = filter_mset (\<lambda>e. \<not> dead e) (mset es)" by (simp add: ms live dead)
  show "mset d = filter_mset dead (mset es)" by (simp add: ms live dead)
  show "counts_ok m es \<Longrightarrow> counts_ok m' es'" using spec by blast
qed

section \<open>Selection\<close>

lemma entry_le_total: "entry_le now aging a b \<or> entry_le now aging b a"
  by (auto simp: entry_le_def)

lemma entry_le_trans: "entry_le now aging a b \<Longrightarrow> entry_le now aging b c \<Longrightarrow> entry_le now aging a c"
  by (auto simp: entry_le_def)

lemma best_index_Some:
  assumes "best_index now aging adm es = Some i"
  shows "i < length es" and "adm (qe_camera_id (es ! i))"
    and "\<forall>e \<in> set es. adm (qe_camera_id e) \<longrightarrow> entry_le now aging e (es ! i)"
proof -
  let ?le = "\<lambda>(_ :: nat, l) (_ :: nat, r). entry_le now aging l r"
  let ?c = "filter (\<lambda>(_, e). adm (qe_camera_id e)) (enumerate 0 es)"
  obtain x where x: "max_by ?le ?c = Some x" "fst x = i"
    using assms by (auto simp: best_index_def)
  then have ne: "?c \<noteq> []" by (metis max_by_None option.discI)
  have total: "\<forall>a b. ?le a b \<or> ?le b a"
    using entry_le_total by (auto simp: split_def)
  have trans: "transp ?le"
    by (rule transpI) (auto intro: entry_le_trans)
  from max_by_Some [OF total trans ne] x have in_c: "x \<in> set ?c"
    and max: "\<forall>y \<in> set ?c. ?le y x"
    by auto
  from in_c x(2) have "i < length es" "snd x = es ! i" "adm (qe_camera_id (snd x))"
    by (auto simp: in_set_enumerate_eq)
  then show "i < length es" "adm (qe_camera_id (es ! i))" by auto
  show "\<forall>e \<in> set es. adm (qe_camera_id e) \<longrightarrow> entry_le now aging e (es ! i)"
  proof (intro ballI impI)
    fix e assume "e \<in> set es" "adm (qe_camera_id e)"
    then obtain j where "j < length es" "es ! j = e" by (auto simp: in_set_conv_nth)
    then have "(j, e) \<in> set ?c" using \<open>adm (qe_camera_id e)\<close> by (auto simp: in_set_enumerate_eq)
    then show "entry_le now aging e (es ! i)"
      using max \<open>snd x = es ! i\<close> by (auto simp: split_def)
  qed
qed

lemma best_index_None:
  "best_index now aging adm es = None \<longleftrightarrow> (\<forall>e \<in> set es. \<not> adm (qe_camera_id e))"
proof -
  have "set es = snd ` set (enumerate 0 es)" by (simp flip: set_map)
  then show ?thesis by (simp add: best_index_def filter_empty_conv split_def)
qed

text \<open>What a pop does, as a fact about the multiset of queued descriptors.\<close>

definition dropped_by_pop :: "'p QueueEntry option \<Rightarrow> 'p QueueEntry list \<Rightarrow> 'p QueueEntry list" where
  "dropped_by_pop sel discarded = discarded @ (case sel of None \<Rightarrow> [] | Some e \<Rightarrow> [e])"

definition selectable :: "(nat \<Rightarrow> bool) \<Rightarrow> nat \<Rightarrow> (string \<Rightarrow> bool) \<Rightarrow> 'p QueueInner \<Rightarrow> 'p QueueEntry set" where
  "selectable cancelled now adm q =
     {e \<in> set (entries q). \<not> entry_dead cancelled now e \<and> adm (qe_camera_id e)}"

lemma pop_best_admissible_all:
  assumes "pop_best_admissible cancelled now adm q = (q', sel, discarded)"
  shows "mset discarded = filter_mset (entry_dead cancelled now) (mset (entries q)) \<and>
    mset (entries q) = mset (entries q') + mset (dropped_by_pop sel discarded) \<and>
    (counts_ok (per_camera q) (entries q) \<longrightarrow> counts_ok (per_camera q') (entries q')) \<and>
    q' = q\<lparr>entries := entries q', per_camera := per_camera q',
           watchers := cancel_watchers_of (dropped_by_pop sel discarded) (watchers q)\<rparr> \<and>
    (case sel of None \<Rightarrow> selectable cancelled now adm q = {}
     | Some b \<Rightarrow> b \<in> selectable cancelled now adm q \<and>
         (\<forall>e \<in> selectable cancelled now adm q. entry_le now (aging_interval q) e b))"
proof -
  obtain live m d where s: "sweep (entry_dead cancelled now) 0 (entries q) (per_camera q) [] = (live, m, d)"
    by (metis prod_cases3)
  note live = sweep_live [OF s]
  have live_set: "set live = {e \<in> set (entries q). \<not> entry_dead cancelled now e}"
    using arg_cong [OF live(1), of set_mset] by simp
  have total: "mset (entries q) = mset live + mset d"
    using multiset_partition [of "mset (entries q)" "entry_dead cancelled now"] live by simp
  show ?thesis
  proof (cases "best_index now (aging_interval q) adm live")
    case None
    then have q': "q' = q\<lparr>entries := live, per_camera := m, watchers := cancel_watchers_of d (watchers q)\<rparr>"
      and sel: "sel = None" "discarded = d"
      using assms by (auto simp: pop_best_admissible_def s Let_def)
    show ?thesis
      using None total live(2,3) live_set
      by (auto simp: q' sel best_index_None dropped_by_pop_def selectable_def)
  next
    case (Some i)
    note best = best_index_Some [OF Some]
    let ?e = "live ! i"
    have q': "q' = q\<lparr>entries := swap_remove i live,
          per_camera := decrement_camera_count m (qe_camera_id ?e),
          watchers := cancel_watchers_of (d @ [?e]) (watchers q)\<rparr>"
      and sel: "sel = Some ?e" "discarded = d"
      using Some assms by (auto simp: pop_best_admissible_def s Let_def)
    have ms: "mset live = add_mset ?e (mset (swap_remove i live))"
      using best(1) by (rule mset_swap_remove)
    have "?e \<in> set live" using best(1) by simp
    then have "?e \<in> selectable cancelled now adm q" using live_set best(2) by (simp add: selectable_def)
    then show ?thesis
      using total ms live(2,3) counts_ok_remove [OF _ ms] best(3) live_set
      by (auto simp: q' sel dropped_by_pop_def selectable_def)
  qed
qed

lemmas pop_best_admissible_spec =
  pop_best_admissible_all [THEN conjunct1]
  pop_best_admissible_all [THEN conjunct2, THEN conjunct1]
  pop_best_admissible_all [THEN conjunct2, THEN conjunct2, THEN conjunct1, rule_format]
  pop_best_admissible_all [THEN conjunct2, THEN conjunct2, THEN conjunct2, THEN conjunct1]
  pop_best_admissible_all [THEN conjunct2, THEN conjunct2, THEN conjunct2, THEN conjunct2]

section \<open>Every operation keeps the invariant\<close>

lemma queue_inv_drop:
  assumes inv: "queue_inv q" and ms: "mset (entries q) = mset es + mset ds" and counts: "counts_ok m es"
  shows "queue_inv (q\<lparr>entries := es, per_camera := m, watchers := cancel_watchers_of ds (watchers q)\<rparr>)"
proof -
  have "mset (map qe_ticket (entries q)) = mset (map qe_ticket (es @ ds))" using ms by simp
  then have dist: "distinct (map qe_ticket (es @ ds))"
    using inv mset_eq_imp_distinct_iff unfolding queue_inv_def by blast
  have set: "set (entries q) = set es \<union> set ds" using arg_cong [OF ms, of set_mset] by simp
  have "mset (map w_ticket (cancel_watchers_of ds (watchers q))) =
      filter_mset (\<lambda>t. t \<notin> qe_ticket ` set ds) (mset (map w_ticket (watchers q)))"
    by (simp add: cancel_watchers_of_def filter_mset_image_mset)
  also have "\<dots> = filter_mset (\<lambda>t. t \<notin> qe_ticket ` set ds) (mset (map qe_ticket (es @ ds)))"
    using inv ms by (simp add: queue_inv_def)
  also have "\<dots> = mset (filter (\<lambda>t. t \<notin> qe_ticket ` set ds) (map qe_ticket (es @ ds)))"
    by (rule mset_filter [symmetric])
  also have "filter (\<lambda>t. t \<notin> qe_ticket ` set ds) (map qe_ticket (es @ ds)) = map qe_ticket es"
    using dist by (auto simp: filter_empty_conv filter_id_conv)
  finally have w: "mset (map w_ticket (cancel_watchers_of ds (watchers q))) = mset (map qe_ticket es)" .
  have "length es \<le> length (entries q)" using arg_cong [OF ms, of size] by simp
  moreover have "camera_count c es \<le> camera_count c (entries q)" for c
    using ms by (simp add: camera_count_mset)
  ultimately show ?thesis
    using inv counts dist set w unfolding queue_inv_def by (fastforce intro: order_trans)
qed

lemma cancel_watcher_single: "cancel_watcher (qe_ticket e) ws = cancel_watchers_of [e] ws"
  by (auto simp: cancel_watcher_def cancel_watchers_of_def)

lemma remove_ticket_inv [inv_intros]:
  assumes "queue_inv q" shows "queue_inv (fst (remove_ticket t q))"
proof (cases "position (\<lambda>e. qe_ticket e = t) (entries q)")
  case None
  then show ?thesis using assms by (simp add: remove_ticket_def)
next
  case (Some i)
  let ?e = "entries q ! i"
  have i: "i < length (entries q)" using position_Some [OF Some] by simp
  note ms = mset_swap_remove [OF i]
  have "counts_ok (decrement_camera_count (per_camera q) (qe_camera_id ?e)) (swap_remove i (entries q))"
    using assms counts_ok_remove [OF _ ms] by (simp add: queue_inv_def)
  then show ?thesis
    using queue_inv_drop [OF assms, of "swap_remove i (entries q)" "[?e]"] ms Some
    by (simp add: remove_ticket_def Let_def cancel_watcher_single)
qed

lemma pop_best_admissible_inv [inv_intros]:
  assumes "queue_inv q" shows "queue_inv (fst (pop_best_admissible cancelled now adm q))"
proof -
  obtain q' sel d where p: "pop_best_admissible cancelled now adm q = (q', sel, d)"
    by (metis prod_cases3)
  note spec = pop_best_admissible_spec [OF p]
  have "counts_ok (per_camera q') (entries q')" using assms spec(3) by (simp add: queue_inv_def)
  from queue_inv_drop [OF assms spec(2) this] show ?thesis using spec(4) p by simp
qed

lemma watcher_fire_inv [inv_intros]:
  assumes "queue_inv q" shows "queue_inv (fst (watcher_fire cancelled now t q))"
proof (cases "find (\<lambda>w. w_ticket w = t) (watchers q)")
  case (Some w)
  then have w: "w \<in> set (watchers q)" "w_ticket w = t"
    by (auto simp: find_Some_iff)
  then have "t \<in># mset (map qe_ticket (entries q))"
    using assms unfolding queue_inv_def by (metis image_eqI set_map set_mset_mset)
  then obtain i where i: "position (\<lambda>e. qe_ticket e = t) (entries q) = Some i"
    using position_None [of "\<lambda>e. qe_ticket e = t" "entries q"] by fastforce
  have "cancel_watcher t (watchers (fst (remove_ticket t q))) = watchers (fst (remove_ticket t q))"
    using position_Some [OF i] by (simp add: remove_ticket_def i Let_def cancel_watcher_def)
  then show ?thesis
    using assms remove_ticket_inv [OF assms, of t] Some
    by (simp add: watcher_fire_def split_beta)
qed (use assms in \<open>simp add: watcher_fire_def\<close>)

lemma u64_checked_succ: "checked_add (t :: u64) 1 = Some t' \<Longrightarrow> t < t'"
  by (simp add: checked_add_Some_iff word_less_nat_alt)

lemma try_enqueue_inv [inv_intros]:
  assumes inv: "queue_inv q"
  shows "queue_inv (fst (try_enqueue rt cancelled now now' c p dl tok pay q))"
proof (cases "c \<noteq> [] \<and> \<not> cancelled tok \<and> \<not> dl \<le> now \<and> rt")
  case True
  show ?thesis
  proof (cases "checked_add (next_ticket q) 1")
    case (Some n)
    have less: "next_ticket q < n" using Some by (rule u64_checked_succ)
    then have bump: "queue_inv (q\<lparr>next_ticket := n\<rparr>)" using inv by (auto simp: queue_inv_def)
    let ?pend = "case per_camera q c of None \<Rightarrow> 0 | Some n \<Rightarrow> n"
    let ?e = "\<lparr>qe_ticket = next_ticket q, qe_camera_id = c, qe_priority = p, qe_enqueued_at = now',
        qe_deadline = dl, qe_cancellation = tok, qe_payload = pay\<rparr>"
    have counts: "counts_ok ((per_camera q)(c \<mapsto> ?pend + 1)) (entries q @ [?e])"
      using inv by (intro counts_ok_snoc) (simp_all add: queue_inv_def)
    have fresh: "next_ticket q \<notin> qe_ticket ` set (entries q)"
      using inv by (auto simp: queue_inv_def)
    have pend: "?pend = camera_count c (entries q)"
      using inv by (simp add: queue_inv_def counts_ok_def)
    show ?thesis
      using True Some bump inv counts fresh pend less
      by (auto simp: try_enqueue_def Let_def queue_inv_def camera_count_def)
  qed (use True inv in \<open>simp add: try_enqueue_def\<close>)
qed (use inv in \<open>auto simp: try_enqueue_def\<close>)

section \<open>The queue as a system of operations\<close>

datatype 'p queue_op =
    OpEnqueue bool "nat \<Rightarrow> bool" nat nat string CapturePriority nat nat 'p
  | OpPop "nat \<Rightarrow> bool" nat "string \<Rightarrow> bool"
  | OpRemove u64
  | OpWatcher "nat \<Rightarrow> bool" nat u64

fun exec_queue :: "'p QueueInner \<Rightarrow> 'p queue_op \<Rightarrow> 'p QueueInner" where
  "exec_queue q (OpEnqueue rt cancelled now now' c p dl tok pay) =
     fst (try_enqueue rt cancelled now now' c p dl tok pay q)"
| "exec_queue q (OpPop cancelled now adm) = fst (pop_best_admissible cancelled now adm q)"
| "exec_queue q (OpRemove t) = fst (remove_ticket t q)"
| "exec_queue q (OpWatcher cancelled now t) = fst (watcher_fire cancelled now t q)"

interpretation capture_queue: operation_system exec_queue queue_inv
proof
  fix q :: "'p QueueInner" and op assume "queue_inv q"
  then show "queue_inv (exec_queue q op)" by (cases op) (simp_all add: inv_intros)
qed

definition queue_limits :: "'p QueueInner \<Rightarrow> nat \<times> nat \<times> nat" where
  "queue_limits q = (max_global_pending q, max_per_camera q, aging_interval q)"

lemma queue_limits_remove: "queue_limits (fst (remove_ticket t q)) = queue_limits q"
  by (simp add: remove_ticket_def queue_limits_def Let_def split: option.splits)

lemma queue_limits_pop: "queue_limits (fst (pop_best_admissible cancelled now adm q)) = queue_limits q"
  by (simp add: pop_best_admissible_def queue_limits_def Let_def split: prod.splits option.splits)

lemma queue_limits_exec: "queue_limits (exec_queue q op) = queue_limits q"
proof (cases op)
  case (OpEnqueue rt cancelled now now' c p dl tok pay)
  then show ?thesis by (simp add: try_enqueue_def queue_limits_def Let_def split: option.splits)
next
  case (OpWatcher cancelled now t)
  have "queue_limits (q'\<lparr>watchers := ws\<rparr>) = queue_limits q'" for q' :: "'a QueueInner" and ws
    by (simp add: queue_limits_def)
  then show ?thesis using OpWatcher queue_limits_remove [of t q]
    by (simp add: watcher_fire_def split_beta split: option.splits)
qed (simp_all add: queue_limits_remove queue_limits_pop)

lemma queue_limits_run: "queue_limits (foldl exec_queue q ops) = queue_limits q"
  by (induction ops arbitrary: q) (simp_all add: queue_limits_exec)

lemma queue_new_inv: "queue_new g p a = Inr q \<Longrightarrow> queue_inv q \<and> queue_limits q = (g, p, a)"
  by (auto simp: queue_new_def queue_inv_def counts_ok_def camera_count_def queue_limits_def
      split: if_splits)

text \<open>C1: From a freshly built queue, after any finite sequence of enqueues, pops, removals and
  watcher firings in any order: the global and the per-camera bound both hold, the per-camera counter
  reported for a camera is exactly the number of its queued descriptors (so a slot can neither leak
  nor be counted twice), tickets are unique, and each queued descriptor has exactly one live watcher
  task while no other watcher is left over.\<close>

theorem capture_queue_bounded:
  assumes "queue_new max_global max_cam aging = Inr q\<^sub>0"
    and q: "q = foldl exec_queue q\<^sub>0 ops"
  shows "pending q \<le> max_global \<and> pending_for q camera \<le> max_cam \<and>
    pending_for q camera = camera_count camera (entries q) \<and> distinct (map qe_ticket (entries q)) \<and>
    mset (map w_ticket (watchers q)) = mset (map qe_ticket (entries q))"
proof -
  have inv: "queue_inv q"
    unfolding q using queue_new_inv [OF assms(1)] by (blast intro: capture_queue.run_inv)
  have "max_global_pending q = max_global" "max_per_camera q = max_cam"
    using queue_new_inv [OF assms(1)] queue_limits_run [of q\<^sub>0 ops] by (auto simp: q queue_limits_def)
  then show ?thesis using inv counts_ok_pending [of q] by (simp add: queue_inv_def pending_def)
qed

definition demo_queue :: "nat QueueInner" where
  "demo_queue = (case queue_new 2 1 10 of Inr q \<Rightarrow> q | Inl _ \<Rightarrow> undefined)"

definition demo_ops :: "nat queue_op list" where
  "demo_ops = [OpEnqueue True (\<lambda>_. False) 0 0 ''cam-a'' Scheduled 100 7 1,
     OpEnqueue True (\<lambda>_. False) 1 1 ''cam-a'' Direct 100 8 2,
     OpEnqueue True (\<lambda>_. False) 2 2 ''cam-b'' Direct 100 9 3]"

lemma demo_queue_new: "queue_new 2 1 10 = Inr demo_queue"
  by (simp add: demo_queue_def queue_new_def)

theorem capture_queue_bounded_witness:
  "pending (foldl exec_queue demo_queue demo_ops) = 2 \<and>
   pending_for (foldl exec_queue demo_queue demo_ops) ''cam-a'' \<le> 1"
  using capture_queue_bounded [OF demo_queue_new refl, of demo_ops "''cam-a''"]
  by (simp add: demo_queue_def queue_new_def demo_ops_def try_enqueue_def checked_add_def Let_def
      pending_def)

text \<open>C20: A pop discards exactly the expired and cancelled descriptors, whatever camera they target;
  it returns nothing exactly when no live descriptor targets an admissible camera; otherwise it
  returns one whose aged score no live admissible descriptor exceeds, the oldest ticket among equals,
  and removes only that one.\<close>

theorem pop_selects_best:
  assumes "pop_best_admissible cancelled now adm q = (q', sel, discarded)"
  shows "mset discarded = filter_mset (entry_dead cancelled now) (mset (entries q)) \<and>
    (sel = None \<longleftrightarrow> selectable cancelled now adm q = {}) \<and>
    (\<forall>b. sel = Some b \<longrightarrow> b \<in> selectable cancelled now adm q \<and>
      (\<forall>e \<in> selectable cancelled now adm q.
         effective_score e now (aging_interval q) < effective_score b now (aging_interval q) \<or>
         effective_score e now (aging_interval q) = effective_score b now (aging_interval q) \<and>
         qe_ticket b \<le> qe_ticket e)) \<and>
    mset (entries q') =
      filter_mset (\<lambda>e. \<not> entry_dead cancelled now e) (mset (entries q)) -
        (case sel of None \<Rightarrow> {#} | Some e \<Rightarrow> {#e#})"
proof -
  note spec = pop_best_admissible_spec [OF assms]
  have none: "sel = None \<longleftrightarrow> selectable cancelled now adm q = {}"
    using spec(5) by (cases sel) auto
  have best: "\<forall>b. sel = Some b \<longrightarrow> b \<in> selectable cancelled now adm q \<and>
      (\<forall>e \<in> selectable cancelled now adm q.
         effective_score e now (aging_interval q) < effective_score b now (aging_interval q) \<or>
         effective_score e now (aging_interval q) = effective_score b now (aging_interval q) \<and>
         qe_ticket b \<le> qe_ticket e)"
    using spec(5) by (cases sel) (simp_all add: entry_le_def)
  have "filter_mset (\<lambda>e. \<not> entry_dead cancelled now e) (mset (entries q)) + mset discarded =
      mset (entries q') + mset (dropped_by_pop sel discarded)"
    using multiset_partition [of "mset (entries q)" "entry_dead cancelled now"] spec(1,2)
    by (metis add.commute)
  then have "filter_mset (\<lambda>e. \<not> entry_dead cancelled now e) (mset (entries q)) =
      mset (entries q') + (case sel of None \<Rightarrow> {#} | Some e \<Rightarrow> {#e#})"
    by (cases sel) (simp_all add: dropped_by_pop_def)
  then have "mset (entries q') =
      filter_mset (\<lambda>e. \<not> entry_dead cancelled now e) (mset (entries q)) -
        (case sel of None \<Rightarrow> {#} | Some e \<Rightarrow> {#e#})" by simp
  with spec(1) none best show ?thesis by (intro conjI)
qed

definition demo_pop_state :: "nat QueueInner" where
  "demo_pop_state = foldl exec_queue demo_queue
     [OpEnqueue True (\<lambda>_. False) 0 0 ''cam-a'' Scheduled 100 7 1,
      OpEnqueue True (\<lambda>_. False) 2 2 ''cam-b'' Direct 100 9 3]"

lemma demo_pop_state_eval:
  "pop_best_admissible (\<lambda>_. False) 50 (\<lambda>_. True) demo_pop_state =
     (fst (pop_best_admissible (\<lambda>_. False) 50 (\<lambda>_. True) demo_pop_state),
      Some (entries demo_pop_state ! 1), [])"
  by (simp add: demo_pop_state_def demo_queue_def queue_new_def try_enqueue_def checked_add_def
      Let_def pop_best_admissible_def sweep.simps entry_dead_def best_index_def max_by_def
      entry_le_def effective_score_def)

theorem pop_selects_best_witness:
  "entries demo_pop_state ! 1 \<in> selectable (\<lambda>_. False) 50 (\<lambda>_. True) demo_pop_state \<and>
   qe_priority (entries demo_pop_state ! 1) = Direct"
  using pop_selects_best [OF demo_pop_state_eval]
  by (simp add: demo_pop_state_def demo_queue_def queue_new_def try_enqueue_def checked_add_def Let_def)

section \<open>Aging\<close>

lemma age_gap:
  fixes now t t' i :: nat
  assumes "0 < i" "t + k * i \<le> t'" "t' \<le> now"
  shows "(now - t') div i + k \<le> (now - t) div i"
proof -
  have "(now - t') + k * i \<le> now - t" using assms(2,3) by simp
  then have "((now - t') + k * i) div i \<le> (now - t) div i" by (rule div_le_mono)
  then show ?thesis using assms(1) by simp
qed

lemma base_score_le: "base_score p \<le> 2"
  by (cases p) auto

text \<open>No starvation by priority: when a pop passes over a live descriptor of an admissible camera
  and selects another one, the selected one carries an older ticket or entered the queue less than two
  aging intervals after it. So whatever arrives two aging intervals later, at any priority, waits
  behind it.\<close>

theorem no_late_overtaking:
  assumes "pop_best_admissible cancelled now adm q = (q', Some b, discarded)"
    and "e \<in> selectable cancelled now adm q" and "e \<noteq> b"
    and "distinct (map qe_ticket (entries q))" and "0 < aging_interval q" and "qe_enqueued_at b \<le> now"
  shows "qe_ticket b < qe_ticket e \<or> qe_enqueued_at b < qe_enqueued_at e + 2 * aging_interval q"
proof (rule ccontr)
  assume late: "\<not> ?thesis"
  from pop_best_admissible_spec(5) [OF assms(1)] assms(2)
  have le: "entry_le now (aging_interval q) e b" and b: "b \<in> set (entries q)"
    by (auto simp: selectable_def)
  have "qe_ticket b \<noteq> qe_ticket e"
    using assms(2-4) b by (auto simp: selectable_def distinct_map dest: inj_onD)
  with late have older: "qe_ticket e < qe_ticket b" by (meson linorder_neqE)
  have "(now - qe_enqueued_at b) div aging_interval q + 2 \<le> (now - qe_enqueued_at e) div aging_interval q"
    using assms(5,6) late by (intro age_gap) (auto simp: mult.commute)
  then have "effective_score b now (aging_interval q) \<le> effective_score e now (aging_interval q)"
    using base_score_le [of "qe_priority b"] by (simp add: effective_score_def)
  then show False using le older by (auto simp: entry_le_def)
qed

theorem no_late_overtaking_witness:
  "qe_ticket (entries demo_pop_state ! 1) < qe_ticket (entries demo_pop_state ! 0) \<or>
   qe_enqueued_at (entries demo_pop_state ! 1) < qe_enqueued_at (entries demo_pop_state ! 0) + 2 * 10"
proof -
  have "entries demo_pop_state ! 0 \<in> selectable (\<lambda>_. False) 50 (\<lambda>_. True) demo_pop_state"
    "entries demo_pop_state ! 0 \<noteq> entries demo_pop_state ! 1"
    "distinct (map qe_ticket (entries demo_pop_state))" "aging_interval demo_pop_state = 10"
    "qe_enqueued_at (entries demo_pop_state ! 1) \<le> 50"
    by (simp_all add: demo_pop_state_def demo_queue_def queue_new_def try_enqueue_def
        checked_add_def Let_def selectable_def entry_dead_def)
  then show ?thesis
    using no_late_overtaking [OF demo_pop_state_eval, of "entries demo_pop_state ! 0"] by simp
qed

end
