(* ===== verification/Control_Lanes.thy ===== *)
theory Control_Lanes
  imports Camera_Error
begin

text \<open>
  The per-camera control lanes of \<open>src/admission.rs\<close> (\<open>SafetyStop\<close>, \<open>ControlLanes\<close>): a bounded queue
  of ordinary operations and a separate lane that holds at most one coalesced safety stop. The lanes
  run under one mutex, so every method is one atomic operation. Shown: a stop is never refused for
  lack of capacity and never displaced, stops coalesce to the union of their axes and the tightest
  deadline, the next pop returns it before any ordinary work, and ordinary work stays within its
  bound and leaves in arrival order.
\<close>

section \<open>Definitions\<close>

record SafetyStop =
  stop_pan :: bool
  stop_tilt :: bool
  stop_zoom :: bool
  stop_deadline :: nat

definition safety_merge :: "SafetyStop \<Rightarrow> SafetyStop \<Rightarrow> SafetyStop" where
  "safety_merge self other =
     self\<lparr>stop_pan := stop_pan self \<or> stop_pan other,
          stop_tilt := stop_tilt self \<or> stop_tilt other,
          stop_zoom := stop_zoom self \<or> stop_zoom other,
          stop_deadline := min (stop_deadline self) (stop_deadline other)\<rparr>"

datatype 'o ControlWork = SafetyWork SafetyStop | Ordinary 'o

record 'o ControlLanes =
  safety_stop :: "SafetyStop option"
  ordinary :: "'o list"
  ordinary_capacity :: nat

definition control_new :: "nat \<Rightarrow> 'o ControlLanes result" where
  "control_new capacity =
     (if \<not> (1 \<le> capacity \<and> capacity \<le> 1024)
      then Inl (Rejected BadArgs ''ordinary control capacity must be between 1 and 1024'')
      else Inr \<lparr>safety_stop = None, ordinary = [], ordinary_capacity = capacity\<rparr>)"

definition try_push_ordinary :: "'o \<Rightarrow> 'o ControlLanes \<Rightarrow> 'o ControlLanes \<times> unit result" where
  "try_push_ordinary operation lanes =
     (if ordinary_capacity lanes \<le> length (ordinary lanes)
      then (lanes, Inl (Rejected QueueFull ''ordinary control queue is full''))
      else (lanes\<lparr>ordinary := ordinary lanes @ [operation]\<rparr>, Inr ()))"

definition push_safety_stop :: "SafetyStop \<Rightarrow> 'o ControlLanes \<Rightarrow> 'o ControlLanes \<times> unit result" where
  "push_safety_stop stop lanes =
     (if \<not> stop_pan stop \<and> \<not> stop_tilt stop \<and> \<not> stop_zoom stop
      then (lanes, Inl (Rejected BadArgs ''safety stop must select at least one axis''))
      else (lanes\<lparr>safety_stop :=
              (case safety_stop lanes of
                 Some existing \<Rightarrow> Some (safety_merge existing stop)
               | None \<Rightarrow> Some stop)\<rparr>, Inr ()))"

definition pop_next :: "'o ControlLanes \<Rightarrow> 'o ControlLanes \<times> 'o ControlWork option" where
  "pop_next lanes =
     (case safety_stop lanes of
        Some stop \<Rightarrow> (lanes\<lparr>safety_stop := None\<rparr>, Some (SafetyWork stop))
      | None \<Rightarrow>
          (case ordinary lanes of
             [] \<Rightarrow> (lanes, None)
           | x # xs \<Rightarrow> (lanes\<lparr>ordinary := xs\<rparr>, Some (Ordinary x))))"

definition ordinary_len :: "'o ControlLanes \<Rightarrow> nat" where
  "ordinary_len lanes = length (ordinary lanes)"

definition has_safety_stop :: "'o ControlLanes \<Rightarrow> bool" where
  "has_safety_stop lanes = (safety_stop lanes \<noteq> None)"

definition safety_stop_arrived :: "'o ControlLanes \<Rightarrow> unit poll" where
  "safety_stop_arrived lanes = (if has_safety_stop lanes then Ready () else Pending)"

datatype 'o lane_push = PushStop SafetyStop | PushOrdinary 'o

fun exec_push :: "'o ControlLanes \<Rightarrow> 'o lane_push \<Rightarrow> 'o ControlLanes" where
  "exec_push lanes (PushStop stop) = fst (push_safety_stop stop lanes)"
| "exec_push lanes (PushOrdinary op) = fst (try_push_ordinary op lanes)"

definition lanes_inv :: "'o ControlLanes \<Rightarrow> bool" where
  "lanes_inv lanes \<longleftrightarrow>
     length (ordinary lanes) \<le> ordinary_capacity lanes \<and>
     (case safety_stop lanes of None \<Rightarrow> True
      | Some stop \<Rightarrow> stop_pan stop \<or> stop_tilt stop \<or> stop_zoom stop)"

text \<open>The stops of a history that the lane accepts, and their coalesced effect.\<close>

definition selects_axis :: "SafetyStop \<Rightarrow> bool" where
  "selects_axis stop \<longleftrightarrow> stop_pan stop \<or> stop_tilt stop \<or> stop_zoom stop"

definition accepted_stops :: "'o lane_push list \<Rightarrow> SafetyStop list" where
  "accepted_stops ops =
     filter selects_axis (concat (map (\<lambda>op. case op of PushStop s \<Rightarrow> [s] | PushOrdinary _ \<Rightarrow> []) ops))"

section \<open>Coalescing\<close>

lemma lanes_inv_push: "lanes_inv lanes \<Longrightarrow> lanes_inv (exec_push lanes op)"
  by (cases op) (auto simp: lanes_inv_def push_safety_stop_def try_push_ordinary_def
      safety_merge_def split: option.splits)

interpretation control_pushes: operation_system exec_push lanes_inv
  by unfold_locales (rule lanes_inv_push)

lemma lanes_inv_pop: "lanes_inv lanes \<Longrightarrow> lanes_inv (fst (pop_next lanes))"
  by (auto simp: lanes_inv_def pop_next_def split: option.splits list.splits)

lemma safety_stop_exec_push:
  "safety_stop (exec_push lanes (PushOrdinary op)) = safety_stop lanes"
  "safety_stop (exec_push lanes (PushStop s)) =
     (if selects_axis s then Some (case safety_stop lanes of None \<Rightarrow> s | Some e \<Rightarrow> safety_merge e s)
      else safety_stop lanes)"
  by (auto simp: try_push_ordinary_def push_safety_stop_def selects_axis_def split: option.splits)

lemma accepted_stops_Cons [simp]:
  "accepted_stops [] = []"
  "accepted_stops (PushOrdinary x # ops) = accepted_stops ops"
  "accepted_stops (PushStop s # ops) =
     (if selects_axis s then s # accepted_stops ops else accepted_stops ops)"
  by (simp_all add: accepted_stops_def)

lemma safety_stop_run:
  "safety_stop (foldl exec_push lanes ops) =
     (case safety_stop lanes of
        Some e \<Rightarrow> Some (foldl safety_merge e (accepted_stops ops))
      | None \<Rightarrow> (case accepted_stops ops of [] \<Rightarrow> None | s # ss \<Rightarrow> Some (foldl safety_merge s ss)))"
proof (induction ops arbitrary: lanes)
  case (Cons op ops)
  show ?case
    by (cases op)
       (auto simp del: exec_push.simps simp: Cons.IH safety_stop_exec_push split: option.splits)
qed (simp split: option.splits)

lemma Min_insert_min: "finite A \<Longrightarrow> Min (insert (min a b) A) = Min (insert a (insert b A))"
  for a b :: nat
  by (cases "A = {}") (simp_all add: min.assoc)

lemma foldl_safety_merge:
  "stop_pan (foldl safety_merge s ss) = (\<exists>x \<in> set (s # ss). stop_pan x)"
  "stop_tilt (foldl safety_merge s ss) = (\<exists>x \<in> set (s # ss). stop_tilt x)"
  "stop_zoom (foldl safety_merge s ss) = (\<exists>x \<in> set (s # ss). stop_zoom x)"
  "stop_deadline (foldl safety_merge s ss) = Min (stop_deadline ` set (s # ss))"
  by (induction ss arbitrary: s) (auto simp: safety_merge_def Min_insert_min simp del: Min_insert)

lemma ordinary_capacity_run: "ordinary_capacity (foldl exec_push lanes ops) = ordinary_capacity lanes"
proof (induction ops arbitrary: lanes)
  case (Cons op ops)
  then show ?case
    by (cases op) (simp_all add: push_safety_stop_def try_push_ordinary_def)
qed simp

text \<open>Safety first. Whatever mix of ordinary operations and safety stops has been pushed onto
  freshly built lanes, and however full the ordinary queue is: every stop that selects an axis is
  kept, the next pop returns one stop whose axes are exactly the union of the axes of all of them and
  whose deadline is the earliest of theirs, before any ordinary operation, and the ordinary queue
  never exceeds its capacity.\<close>

theorem safety_stop_first:
  fixes lanes :: "'o ControlLanes"
  assumes "control_new capacity = Inr lanes" and "stops = accepted_stops ops" and "stops \<noteq> []"
  shows "\<exists>stop. snd (pop_next (foldl exec_push lanes ops)) = Some (SafetyWork stop) \<and>
     (stop_pan stop \<longleftrightarrow> (\<exists>s \<in> set stops. stop_pan s)) \<and>
     (stop_tilt stop \<longleftrightarrow> (\<exists>s \<in> set stops. stop_tilt s)) \<and>
     (stop_zoom stop \<longleftrightarrow> (\<exists>s \<in> set stops. stop_zoom s)) \<and>
     stop_deadline stop = Min (stop_deadline ` set stops) \<and>
     ordinary_len (foldl exec_push lanes ops) \<le> capacity"
proof -
  have lanes: "safety_stop lanes = None" "ordinary_capacity lanes = capacity" "lanes_inv lanes"
    using assms(1) by (auto simp: control_new_def lanes_inv_def split: if_splits)
  obtain s ss where ss: "stops = s # ss" using assms(3) by (cases stops) auto
  let ?l = "foldl exec_push lanes ops"
  have "accepted_stops ops = s # ss" using ss assms(2) by simp
  then have stop: "safety_stop ?l = Some (foldl safety_merge s ss)"
    by (simp add: safety_stop_run lanes(1))
  have "lanes_inv ?l" using lanes(3) by (rule control_pushes.run_inv)
  then have "ordinary_len ?l \<le> capacity"
    using lanes(2) by (simp add: lanes_inv_def ordinary_len_def ordinary_capacity_run)
  then show ?thesis
    using stop by (simp add: pop_next_def ss foldl_safety_merge del: Min_insert)
qed

definition demo_pushes :: "nat lane_push list" where
  "demo_pushes = [PushOrdinary 1, PushStop \<lparr>stop_pan = True, stop_tilt = False, stop_zoom = False, stop_deadline = 9\<rparr>,
     PushOrdinary 2, PushStop \<lparr>stop_pan = False, stop_tilt = True, stop_zoom = False, stop_deadline = 4\<rparr>]"

theorem safety_stop_first_witness:
  "\<exists>stop. snd (pop_next (foldl exec_push
        \<lparr>safety_stop = None, ordinary = [], ordinary_capacity = 1\<rparr> demo_pushes)) =
      Some (SafetyWork stop) \<and> stop_pan stop \<and> stop_tilt stop \<and> \<not> stop_zoom stop \<and> stop_deadline stop = 4"
proof -
  let ?lanes = "\<lparr>safety_stop = None, ordinary = [], ordinary_capacity = 1\<rparr> :: nat ControlLanes"
  have new: "control_new 1 = Inr ?lanes" by (simp add: control_new_def)
  have stops: "accepted_stops demo_pushes =
      [\<lparr>stop_pan = True, stop_tilt = False, stop_zoom = False, stop_deadline = 9\<rparr>,
       \<lparr>stop_pan = False, stop_tilt = True, stop_zoom = False, stop_deadline = 4\<rparr>]"
    by (simp add: demo_pushes_def selects_axis_def)
  show ?thesis using safety_stop_first [OF new refl, of demo_pushes] by (auto simp: stops)
qed

text \<open>Ordinary work leaves in arrival order, and only when no stop is pending.\<close>

lemma pop_next_ordinary:
  "snd (pop_next lanes) = Some (Ordinary x) \<longleftrightarrow>
     safety_stop lanes = None \<and> ordinary lanes \<noteq> [] \<and> x = hd (ordinary lanes)"
  by (cases "ordinary lanes") (auto simp: pop_next_def split: option.splits)

end
