(* ===== verification/Resource_Budgets.thy ===== *)
theory Resource_Budgets
  imports Config_Data Admission_Queue
begin

text \<open>
  The capacity controls of \<open>src/admission.rs\<close>: semaphores, the atomic byte budget, the disk budget
  with its free-space floor, the staged acquisition of a capture's capacity, and the leases that give
  it back (\<open>AdmissionController\<close>, \<open>AcquisitionLease\<close>, \<open>ProcessingLease\<close>, \<open>ByteReservation\<close> and
  \<open>DiskReservation\<close>).

  Budgets are atomic 64-bit counters, modelled as words with the wrapping arithmetic of \<open>fetch_add\<close>
  and \<open>fetch_sub\<close>; a successful compare-and-exchange is one atomic update and a spurious failure
  repeats the loop without effect. An \<open>async\<close> function is polled: each step takes the instant, the
  cancellation flag and, for the filesystem probe, the outcome of that poll, and either waits or
  resolves. Where a function checks something only before its first suspension, the argument \<open>first\<close>
  says whether this is the first poll. The acquisition of one capture is a task that advances one
  stage at a time, so the operations of different captures interleave between stages, as they do on
  a multi-threaded runtime.

  Shown: conservation of every kind of capacity over all interleavings of all operations, the
  free-space floor, rollback of failed acquisitions, and admission when capacity is there.
\<close>

section \<open>Semaphores\<close>

record Semaphore =
  permits :: nat
  closed :: bool

definition resource_error :: "string \<Rightarrow> camera_error" where
  "resource_error message = Rejected ResourceLimit message"

definition acquire_semaphore ::
    "bool \<Rightarrow> nat \<Rightarrow> nat \<Rightarrow> bool \<Rightarrow> string \<Rightarrow> Semaphore \<Rightarrow> Semaphore \<times> unit result poll" where
  "acquire_semaphore first now deadline cancelled label sem =
     (if first \<and> deadline \<le> now then (sem, Ready (Inl (timeout_error label)))
      else if cancelled then (sem, Ready (Inl (cancelled_error label)))
      else if deadline \<le> now then (sem, Ready (Inl (timeout_error label)))
      else if closed sem then (sem, Ready (Inl (CatalogError (label @ '' semaphore closed''))))
      else if 0 < permits sem then (sem\<lparr>permits := permits sem - 1\<rparr>, Ready (Inr ()))
      else (sem, Pending))"

text \<open>Dropping an \<open>OwnedSemaphorePermit\<close>.\<close>

definition release_permit :: "Semaphore \<Rightarrow> Semaphore" where
  "release_permit sem = sem\<lparr>permits := permits sem + 1\<rparr>"

section \<open>The byte budget\<close>

record ByteBudget =
  capacity :: u64
  available :: u64

definition byte_budget_new :: "u64 \<Rightarrow> ByteBudget result" where
  "byte_budget_new cap =
     (if cap = 0 then Inl (Rejected BadArgs ''byte budget must be non-zero'')
      else Inr \<lparr>capacity = cap, available = cap\<rparr>)"

definition release_atomic_budget :: "u64 \<Rightarrow> u64 \<Rightarrow> u64" where
  "release_atomic_budget value amount = (if amount \<noteq> 0 then value + amount else value)"

definition byte_reserve ::
    "u64 \<Rightarrow> nat \<Rightarrow> nat \<Rightarrow> bool \<Rightarrow> ByteBudget \<Rightarrow> ByteBudget \<times> u64 result poll" where
  "byte_reserve amount now deadline cancelled b =
     (if amount = 0 \<or> capacity b < amount
      then (b, Ready (Inl (resource_error
              ''requested memory reservation exceeds the configured byte budget'')))
      else if cancelled then (b, Ready (Inl (cancelled_error ''memory reservation'')))
      else if deadline \<le> now then (b, Ready (Inl (timeout_error ''memory reservation'')))
      else if amount \<le> available b
      then (b\<lparr>available := available b - amount\<rparr>, Ready (Inr amount))
      else (b, Pending))"

text \<open>Shrinking a reservation returns the new reservation; growth is refused and changes nothing.\<close>

definition byte_shrink :: "u64 \<Rightarrow> u64 \<Rightarrow> ByteBudget \<Rightarrow> ByteBudget \<times> u64 result" where
  "byte_shrink new_amount reserved b =
     (if reserved < new_amount
      then (b, Inl (resource_error ''memory reservation cannot grow after admission''))
      else (b\<lparr>available := release_atomic_budget (available b) (reserved - new_amount)\<rparr>,
            Inr new_amount))"

text \<open>\<open>release_all\<close> and \<open>Drop\<close> both give back everything that is still reserved.\<close>

definition byte_release_all :: "u64 \<Rightarrow> ByteBudget \<Rightarrow> ByteBudget" where
  "byte_release_all reserved b = b\<lparr>available := release_atomic_budget (available b) reserved\<rparr>"

section \<open>The disk budget\<close>

record DiskSpace =
  available_bytes :: u64
  total_bytes :: u64

record DiskBudget =
  floor_bytes :: u64
  floor_percent :: nat
  outstanding :: u64

definition disk_budget_new :: "OutputConfig \<Rightarrow> DiskBudget result" where
  "disk_budget_new out =
     (if 100 < minimum_free_percent out
      then Inl (Rejected BadArgs ''minimum free percent must not exceed 100'')
      else Inr \<lparr>floor_bytes = minimum_free_bytes out, floor_percent = minimum_free_percent out,
                outstanding = 0\<rparr>)"

definition percentage_floor :: "u64 \<Rightarrow> nat \<Rightarrow> u64 result" where
  "percentage_floor tot percent =
     (case checked_mul_u128 (unat tot) percent of
        None \<Rightarrow> Inl (resource_error ''disk percentage floor overflowed'')
      | Some numerator \<Rightarrow>
          (case checked_add_u128 numerator 99 of
             None \<Rightarrow> Inl (resource_error ''disk percentage rounding overflowed'')
           | Some n \<Rightarrow>
               (let rounded = n div 100
                in if rounded \<le> u64_max then Inr (of_nat rounded)
                   else Inl (resource_error ''disk percentage floor exceeds u64''))))"

definition release_atomic_outstanding :: "u64 \<Rightarrow> u64 \<Rightarrow> u64" where
  "release_atomic_outstanding value amount = (if amount \<noteq> 0 then value - amount else value)"

text \<open>The decision once the filesystem has answered.\<close>

definition disk_commit :: "u64 \<Rightarrow> DiskSpace \<Rightarrow> DiskBudget \<Rightarrow> DiskBudget \<times> u64 result" where
  "disk_commit amount space b =
     (if total_bytes space < available_bytes space
      then (b, Inl (StorageError ''filesystem reported available bytes greater than total bytes''))
      else case percentage_floor (total_bytes space) (floor_percent b) of
        Inl e \<Rightarrow> (b, Inl e)
      | Inr percent_floor \<Rightarrow>
          (let fl = max (floor_bytes b) percent_floor
           in case checked_add (outstanding b) amount of
                None \<Rightarrow> (b, Inl (resource_error ''disk reservation arithmetic overflowed''))
              | Some projected \<Rightarrow>
                  (case checked_add projected fl of
                     None \<Rightarrow> (b, Inl (resource_error ''disk floor arithmetic overflowed''))
                   | Some required \<Rightarrow>
                       if available_bytes space < required
                       then (b, Inl (Rejected StoragePressure
                              ''disk reservation would violate the configured free-space floor''))
                       else (b\<lparr>outstanding := projected\<rparr>, Inr amount))))"

definition disk_reserve ::
    "bool \<Rightarrow> u64 \<Rightarrow> nat \<Rightarrow> nat \<Rightarrow> bool \<Rightarrow> DiskSpace result poll \<Rightarrow> DiskBudget \<Rightarrow>
     DiskBudget \<times> u64 result poll" where
  "disk_reserve first amount now deadline cancelled probe b =
     (if first \<and> amount = 0 then (b, Ready (Inl (resource_error ''disk reservation must be non-zero'')))
      else if first \<and> deadline \<le> now then (b, Ready (Inl (timeout_error ''disk reservation'')))
      else if cancelled then (b, Ready (Inl (cancelled_error ''disk reservation'')))
      else if deadline \<le> now then (b, Ready (Inl (timeout_error ''disk reservation'')))
      else case probe of
        Pending \<Rightarrow> (b, Pending)
      | Ready (Inl e) \<Rightarrow> (b, Ready (Inl e))
      | Ready (Inr space) \<Rightarrow> (case disk_commit amount space b of (b', r) \<Rightarrow> (b', Ready r)))"

definition disk_shrink :: "u64 \<Rightarrow> u64 \<Rightarrow> DiskBudget \<Rightarrow> DiskBudget \<times> u64 result" where
  "disk_shrink new_amount reserved b =
     (if reserved < new_amount
      then (b, Inl (resource_error ''disk reservation cannot grow after admission''))
      else (b\<lparr>outstanding := release_atomic_outstanding (outstanding b) (reserved - new_amount)\<rparr>,
            Inr new_amount))"

definition disk_release :: "u64 \<Rightarrow> DiskBudget \<Rightarrow> DiskBudget" where
  "disk_release reserved b = b\<lparr>outstanding := release_atomic_outstanding (outstanding b) reserved\<rparr>"

section \<open>The controller\<close>

record AdmissionController =
  global_acquisitions :: Semaphore
  resource_groups :: "string \<rightharpoonup> Semaphore"
  memory :: ByteBudget
  disk :: DiskBudget
  encoders :: Semaphore
  writers :: Semaphore

definition semaphore_new :: "nat \<Rightarrow> Semaphore" where
  "semaphore_new n = \<lparr>permits = n, closed = False\<rparr>"

definition admission_controller_new ::
    "LimitsConfig \<Rightarrow> OutputConfig \<Rightarrow> AdmissionController result" where
  "admission_controller_new lims out =
     (if max_concurrent_captures lims = 0 \<or> max_concurrent_encodes lims = 0 \<or>
         max_concurrent_writes lims = 0
      then Inl (Rejected BadArgs ''admission semaphore limits must be non-zero'')
      else and_then (for_each (\<lambda>(name, grp).
             if rg_max_concurrent_captures grp = 0 \<or>
                max_concurrent_captures lims < rg_max_concurrent_captures grp
             then Inl (Rejected BadArgs
                    ''resource-group capacity must be between 1 and the global capture limit'')
             else Inr ()) (lim_resource_groups lims)) (\<lambda>_.
           and_then (byte_budget_new (max_in_flight_bytes lims)) (\<lambda>mem.
           and_then (disk_budget_new out) (\<lambda>dsk.
             Inr \<lparr>global_acquisitions = semaphore_new (max_concurrent_captures lims),
                  resource_groups = map_of (map (\<lambda>(name, grp).
                    (name, semaphore_new (rg_max_concurrent_captures grp))) (lim_resource_groups lims)),
                  memory = mem, disk = dsk,
                  encoders = semaphore_new (max_concurrent_encodes lims),
                  writers = semaphore_new (max_concurrent_writes lims)\<rparr>))))"

text \<open>A selected capture descriptor's request, and what its task, lease or permit holds.\<close>

record CaptureResourceRequest =
  req_resource_group :: "string option"
  req_maximum_frame_bytes :: u64
  req_deadline :: nat

record Held =
  h_global :: bool
  h_group :: "string option"
  h_memory :: u64
  h_disk :: u64
  h_encoder :: bool
  h_writer :: bool

definition holds_nothing :: Held where
  "holds_nothing = \<lparr>h_global = False, h_group = None, h_memory = 0, h_disk = 0, h_encoder = False,
     h_writer = False\<rparr>"

text \<open>The drop of whatever is held, in the order the fields and locals are dropped: disk, memory,
  group, global; a permit of the encode or write stage is dropped alone.\<close>

definition release_disk :: "u64 \<Rightarrow> AdmissionController \<Rightarrow> AdmissionController" where
  "release_disk n c = c\<lparr>disk := disk_release n (disk c)\<rparr>"

definition release_memory :: "u64 \<Rightarrow> AdmissionController \<Rightarrow> AdmissionController" where
  "release_memory n c = c\<lparr>memory := byte_release_all n (memory c)\<rparr>"

definition release_group :: "string option \<Rightarrow> AdmissionController \<Rightarrow> AdmissionController" where
  "release_group grp c = (case grp of None \<Rightarrow> c
     | Some name \<Rightarrow> c\<lparr>resource_groups := (resource_groups c)
         (name := map_option release_permit (resource_groups c name))\<rparr>)"

definition release_global :: "bool \<Rightarrow> AdmissionController \<Rightarrow> AdmissionController" where
  "release_global b c =
     (if b then c\<lparr>global_acquisitions := release_permit (global_acquisitions c)\<rparr> else c)"

definition release_encoder :: "bool \<Rightarrow> AdmissionController \<Rightarrow> AdmissionController" where
  "release_encoder b c = (if b then c\<lparr>encoders := release_permit (encoders c)\<rparr> else c)"

definition release_writer :: "bool \<Rightarrow> AdmissionController \<Rightarrow> AdmissionController" where
  "release_writer b c = (if b then c\<lparr>writers := release_permit (writers c)\<rparr> else c)"

definition drop_held :: "Held \<Rightarrow> AdmissionController \<Rightarrow> AdmissionController" where
  "drop_held h c =
     release_writer (h_writer h) (release_encoder (h_encoder h)
       (release_global (h_global h) (release_group (h_group h)
         (release_memory (h_memory h) (release_disk (h_disk h) c)))))"

section \<open>Acquisition, leases and permits\<close>

datatype HolderStage =
    WantGlobal | WantGroup | WantMemory | WantDisk
  | AcquisitionLease | ProcessingLease | StagePermit
  | RejectedWith camera_error | Dropped

record Holder =
  t_request :: CaptureResourceRequest
  t_first :: bool
  t_stage :: HolderStage
  t_held :: Held

definition fail_holder ::
    "camera_error \<Rightarrow> Holder \<Rightarrow> AdmissionController \<Rightarrow> AdmissionController \<times> Holder" where
  "fail_holder e t c =
     (drop_held (t_held t) c, t\<lparr>t_held := holds_nothing, t_stage := RejectedWith e\<rparr>)"

definition drop_holder :: "Holder \<Rightarrow> AdmissionController \<Rightarrow> AdmissionController \<times> Holder" where
  "drop_holder t c = (drop_held (t_held t) c, t\<lparr>t_held := holds_nothing, t_stage := Dropped\<rparr>)"

text \<open>\<open>acquire_capture\<close>, one stage per step: global permit, resource-group permit, memory, disk.\<close>

definition want_global ::
    "nat \<Rightarrow> bool \<Rightarrow> Holder \<Rightarrow> AdmissionController \<Rightarrow> AdmissionController \<times> Holder" where
  "want_global now cancelled t c =
     (if t_first t \<and> req_maximum_frame_bytes (t_request t) = 0
      then fail_holder (resource_error ''maximum frame reservation must be non-zero'') t c
      else case acquire_semaphore (t_first t) now (req_deadline (t_request t)) cancelled
                  ''global acquisition permit'' (global_acquisitions c) of
        (sem, Pending) \<Rightarrow> (c, t\<lparr>t_first := False\<rparr>)
      | (sem, Ready (Inl e)) \<Rightarrow> fail_holder e t c
      | (sem, Ready (Inr _)) \<Rightarrow>
          (c\<lparr>global_acquisitions := sem\<rparr>,
           t\<lparr>t_first := True, t_stage := WantGroup, t_held := (t_held t)\<lparr>h_global := True\<rparr>\<rparr>))"

definition want_group ::
    "nat \<Rightarrow> bool \<Rightarrow> Holder \<Rightarrow> AdmissionController \<Rightarrow> AdmissionController \<times> Holder" where
  "want_group now cancelled t c =
     (case req_resource_group (t_request t) of
        None \<Rightarrow> (c, t\<lparr>t_first := True, t_stage := WantMemory\<rparr>)
      | Some name \<Rightarrow>
          (case resource_groups c name of
             None \<Rightarrow> fail_holder (ConfigError ''component.instances[].resourceGroup''
                       (''unknown admission resource group '' @ [CHR 0x27] @ name @ [CHR 0x27])) t c
           | Some sem0 \<Rightarrow>
               (case acquire_semaphore (t_first t) now (req_deadline (t_request t)) cancelled
                       ''resource-group acquisition permit'' sem0 of
                  (sem, Pending) \<Rightarrow> (c, t\<lparr>t_first := False\<rparr>)
                | (sem, Ready (Inl e)) \<Rightarrow> fail_holder e t c
                | (sem, Ready (Inr _)) \<Rightarrow>
                    (c\<lparr>resource_groups := (resource_groups c)(name \<mapsto> sem)\<rparr>,
                     t\<lparr>t_first := True, t_stage := WantMemory,
                       t_held := (t_held t)\<lparr>h_group := Some name\<rparr>\<rparr>))))"

definition want_memory ::
    "nat \<Rightarrow> bool \<Rightarrow> Holder \<Rightarrow> AdmissionController \<Rightarrow> AdmissionController \<times> Holder" where
  "want_memory now cancelled t c =
     (case byte_reserve (req_maximum_frame_bytes (t_request t)) now (req_deadline (t_request t))
             cancelled (memory c) of
        (b, Pending) \<Rightarrow> (c, t\<lparr>t_first := False\<rparr>)
      | (b, Ready (Inl e)) \<Rightarrow> fail_holder e t c
      | (b, Ready (Inr n)) \<Rightarrow>
          (c\<lparr>memory := b\<rparr>,
           t\<lparr>t_first := True, t_stage := WantDisk, t_held := (t_held t)\<lparr>h_memory := n\<rparr>\<rparr>))"

definition want_disk ::
    "nat \<Rightarrow> bool \<Rightarrow> DiskSpace result poll \<Rightarrow> Holder \<Rightarrow> AdmissionController \<Rightarrow>
     AdmissionController \<times> Holder" where
  "want_disk now cancelled probe t c =
     (case disk_reserve (t_first t) (req_maximum_frame_bytes (t_request t)) now
             (req_deadline (t_request t)) cancelled probe (disk c) of
        (b, Pending) \<Rightarrow> (c, t\<lparr>t_first := False\<rparr>)
      | (b, Ready (Inl e)) \<Rightarrow> fail_holder e t c
      | (b, Ready (Inr n)) \<Rightarrow>
          (c\<lparr>disk := b\<rparr>,
           t\<lparr>t_stage := AcquisitionLease, t_held := (t_held t)\<lparr>h_disk := n\<rparr>\<rparr>))"

definition acquire_capture ::
    "nat \<Rightarrow> bool \<Rightarrow> DiskSpace result poll \<Rightarrow> Holder \<Rightarrow> AdmissionController \<Rightarrow>
     AdmissionController \<times> Holder" where
  "acquire_capture now cancelled probe t c =
     (case t_stage t of
        WantGlobal \<Rightarrow> want_global now cancelled t c
      | WantGroup \<Rightarrow> want_group now cancelled t c
      | WantMemory \<Rightarrow> want_memory now cancelled t c
      | WantDisk \<Rightarrow> want_disk now cancelled probe t c
      | _ \<Rightarrow> (c, t))"

text \<open>The lease is consumed: a frame larger than the reservation drops it, otherwise the group and
  global permits are returned and the byte and disk reservations live on.\<close>

definition finish_acquisition :: "u64 \<Rightarrow> Holder \<Rightarrow> AdmissionController \<Rightarrow> AdmissionController \<times> Holder" where
  "finish_acquisition actual t c =
     (case byte_shrink actual (h_memory (t_held t)) (memory c) of
        (b, Inl e) \<Rightarrow> fail_holder e t c
      | (b, Inr n) \<Rightarrow>
          (release_global (h_global (t_held t)) (release_group (h_group (t_held t)) (c\<lparr>memory := b\<rparr>)),
           t\<lparr>t_stage := ProcessingLease,
             t_held := (t_held t)\<lparr>h_memory := n, h_group := None, h_global := False\<rparr>\<rparr>))"

definition shrink_memory :: "u64 \<Rightarrow> Holder \<Rightarrow> AdmissionController \<Rightarrow> AdmissionController \<times> Holder" where
  "shrink_memory bytes t c =
     (case byte_shrink bytes (h_memory (t_held t)) (memory c) of
        (b, Inl e) \<Rightarrow> (c, t)
      | (b, Inr n) \<Rightarrow> (c\<lparr>memory := b\<rparr>, t\<lparr>t_held := (t_held t)\<lparr>h_memory := n\<rparr>\<rparr>))"

definition release_lease_memory :: "Holder \<Rightarrow> AdmissionController \<Rightarrow> AdmissionController \<times> Holder" where
  "release_lease_memory t c =
     (release_memory (h_memory (t_held t)) c, t\<lparr>t_held := (t_held t)\<lparr>h_memory := 0\<rparr>\<rparr>)"

definition shrink_disk :: "u64 \<Rightarrow> Holder \<Rightarrow> AdmissionController \<Rightarrow> AdmissionController \<times> Holder" where
  "shrink_disk bytes t c =
     (case disk_shrink bytes (h_disk (t_held t)) (disk c) of
        (b, Inl e) \<Rightarrow> (c, t)
      | (b, Inr n) \<Rightarrow> (c\<lparr>disk := b\<rparr>, t\<lparr>t_held := (t_held t)\<lparr>h_disk := n\<rparr>\<rparr>))"

definition idle_request :: "nat \<Rightarrow> CaptureResourceRequest" where
  "idle_request deadline =
     \<lparr>req_resource_group = None, req_maximum_frame_bytes = 0, req_deadline = deadline\<rparr>"

text \<open>Stage permits and the memory of a thumbnail: a holder exists only once the future resolved.\<close>

definition stage_permit :: "nat \<Rightarrow> Held \<Rightarrow> Holder" where
  "stage_permit deadline h =
     \<lparr>t_request = idle_request deadline, t_first = False, t_stage = StagePermit, t_held = h\<rparr>"

definition acquire_encoder ::
    "bool \<Rightarrow> nat \<Rightarrow> nat \<Rightarrow> bool \<Rightarrow> AdmissionController \<Rightarrow> AdmissionController \<times> Holder result poll" where
  "acquire_encoder first now deadline cancelled c =
     (case acquire_semaphore first now deadline cancelled ''encoder permit'' (encoders c) of
        (sem, Pending) \<Rightarrow> (c, Pending)
      | (sem, Ready (Inl e)) \<Rightarrow> (c, Ready (Inl e))
      | (sem, Ready (Inr _)) \<Rightarrow>
          (c\<lparr>encoders := sem\<rparr>,
           Ready (Inr (stage_permit deadline (holds_nothing\<lparr>h_encoder := True\<rparr>)))))"

definition acquire_writer ::
    "bool \<Rightarrow> nat \<Rightarrow> nat \<Rightarrow> bool \<Rightarrow> AdmissionController \<Rightarrow> AdmissionController \<times> Holder result poll" where
  "acquire_writer first now deadline cancelled c =
     (case acquire_semaphore first now deadline cancelled ''writer permit'' (writers c) of
        (sem, Pending) \<Rightarrow> (c, Pending)
      | (sem, Ready (Inl e)) \<Rightarrow> (c, Ready (Inl e))
      | (sem, Ready (Inr _)) \<Rightarrow>
          (c\<lparr>writers := sem\<rparr>,
           Ready (Inr (stage_permit deadline (holds_nothing\<lparr>h_writer := True\<rparr>)))))"

definition reserve_memory ::
    "u64 \<Rightarrow> nat \<Rightarrow> nat \<Rightarrow> bool \<Rightarrow> AdmissionController \<Rightarrow> AdmissionController \<times> Holder result poll" where
  "reserve_memory amount now deadline cancelled c =
     (case byte_reserve amount now deadline cancelled (memory c) of
        (b, Pending) \<Rightarrow> (c, Pending)
      | (b, Ready (Inl e)) \<Rightarrow> (c, Ready (Inl e))
      | (b, Ready (Inr n)) \<Rightarrow>
          (c\<lparr>memory := b\<rparr>, Ready (Inr (stage_permit deadline (holds_nothing\<lparr>h_memory := n\<rparr>)))))"

section \<open>The system of all holders\<close>

record AdmissionSystem =
  controller :: AdmissionController
  holders :: "Holder list"

datatype admission_op =
    OpSubmit CaptureResourceRequest
  | OpPoll nat nat bool "DiskSpace result poll"
  | OpFinish nat u64
  | OpShrinkMemory nat u64
  | OpReleaseMemory nat
  | OpShrinkDisk nat u64
  | OpDrop nat
  | OpEncoder bool nat nat bool
  | OpWriter bool nat nat bool
  | OpReserve u64 nat nat bool

definition on_holder ::
    "nat \<Rightarrow> (Holder \<Rightarrow> bool) \<Rightarrow> (Holder \<Rightarrow> AdmissionController \<Rightarrow> AdmissionController \<times> Holder) \<Rightarrow>
     AdmissionSystem \<Rightarrow> AdmissionSystem" where
  "on_holder i ok f s =
     (if i < length (holders s) \<and> ok (holders s ! i)
      then (case f (holders s ! i) (controller s) of (c, t) \<Rightarrow>
              s\<lparr>controller := c, holders := (holders s)[i := t]\<rparr>)
      else s)"

definition add_holder ::
    "AdmissionController \<times> Holder result poll \<Rightarrow> AdmissionSystem \<Rightarrow> AdmissionSystem" where
  "add_holder r s =
     (case r of
        (c, Ready (Inr t)) \<Rightarrow> s\<lparr>controller := c, holders := holders s @ [t]\<rparr>
      | (c, _) \<Rightarrow> s\<lparr>controller := c\<rparr>)"

fun exec_admission :: "AdmissionSystem \<Rightarrow> admission_op \<Rightarrow> AdmissionSystem" where
  "exec_admission s (OpSubmit req) =
     s\<lparr>holders := holders s @ [\<lparr>t_request = req, t_first = True, t_stage = WantGlobal,
                                 t_held = holds_nothing\<rparr>]\<rparr>"
| "exec_admission s (OpPoll i now cancelled probe) =
     on_holder i (\<lambda>_. True) (acquire_capture now cancelled probe) s"
| "exec_admission s (OpFinish i actual) =
     on_holder i (\<lambda>t. t_stage t = AcquisitionLease) (finish_acquisition actual) s"
| "exec_admission s (OpShrinkMemory i n) =
     on_holder i (\<lambda>t. t_stage t = ProcessingLease) (shrink_memory n) s"
| "exec_admission s (OpReleaseMemory i) =
     on_holder i (\<lambda>t. t_stage t = ProcessingLease) release_lease_memory s"
| "exec_admission s (OpShrinkDisk i n) =
     on_holder i (\<lambda>t. t_stage t = ProcessingLease) (shrink_disk n) s"
| "exec_admission s (OpDrop i) = on_holder i (\<lambda>_. True) drop_holder s"
| "exec_admission s (OpEncoder first now deadline cancelled) =
     add_holder (acquire_encoder first now deadline cancelled (controller s)) s"
| "exec_admission s (OpWriter first now deadline cancelled) =
     add_holder (acquire_writer first now deadline cancelled (controller s)) s"
| "exec_admission s (OpReserve amount now deadline cancelled) =
     add_holder (reserve_memory amount now deadline cancelled (controller s)) s"

section \<open>Conservation\<close>

text \<open>A transfer of capacity between the controller and one holder: for every kind of capacity, what
  is free plus what the holder has is unchanged.\<close>

definition group_permits :: "AdmissionController \<Rightarrow> string \<Rightarrow> nat" where
  "group_permits c name = (case resource_groups c name of None \<Rightarrow> 0 | Some sem \<Rightarrow> permits sem)"

definition transfer :: "AdmissionController \<Rightarrow> Held \<Rightarrow> AdmissionController \<Rightarrow> Held \<Rightarrow> bool" where
  "transfer c h c' h' \<longleftrightarrow>
     permits (global_acquisitions c') + of_bool (h_global h') =
       permits (global_acquisitions c) + of_bool (h_global h) \<and>
     dom (resource_groups c') = dom (resource_groups c) \<and>
     (\<forall>n. group_permits c' n + of_bool (h_group h' = Some n) =
          group_permits c n + of_bool (h_group h = Some n)) \<and>
     (h_group h' = h_group h \<or> h_group h' = None \<or> h_group h' \<in> Some ` dom (resource_groups c)) \<and>
     capacity (memory c') = capacity (memory c) \<and>
     unat (available (memory c')) + unat (h_memory h') =
       unat (available (memory c)) + unat (h_memory h) \<and>
     unat (outstanding (disk c')) + unat (h_disk h) = unat (outstanding (disk c)) + unat (h_disk h') \<and>
     permits (encoders c') + of_bool (h_encoder h') = permits (encoders c) + of_bool (h_encoder h) \<and>
     permits (writers c') + of_bool (h_writer h') = permits (writers c) + of_bool (h_writer h)"

text \<open>What makes a drop arithmetically safe: no counter would wrap.\<close>

definition covered :: "AdmissionController \<Rightarrow> Held \<Rightarrow> bool" where
  "covered c h \<longleftrightarrow>
     unat (available (memory c)) + unat (h_memory h) < 2 ^ 64 \<and>
     unat (h_disk h) \<le> unat (outstanding (disk c)) \<and>
     (\<forall>n. h_group h = Some n \<longrightarrow> n \<in> dom (resource_groups c))"

lemma unat_release_atomic_budget [u64_simps]:
  "unat a + unat n < 2 ^ 64 \<Longrightarrow> unat (release_atomic_budget a n) = unat a + unat n"
  by (simp add: release_atomic_budget_def unat_plus_u64)

lemma unat_release_atomic_outstanding [u64_simps]:
  "unat n \<le> unat a \<Longrightarrow> unat (release_atomic_outstanding a n) = unat a - unat n"
  by (simp add: release_atomic_outstanding_def unat_minus_u64 word_le_nat_alt)

lemma transfer_refl: "transfer c h c h"
  by (simp add: transfer_def)

lemma transfer_drop:
  assumes "covered c h" shows "transfer c h (drop_held h c) holds_nothing"
proof -
  have m: "unat (release_atomic_budget (available (memory c)) (h_memory h)) =
      unat (available (memory c)) + unat (h_memory h)"
    using assms by (simp add: covered_def unat_release_atomic_budget)
  have d: "unat (release_atomic_outstanding (outstanding (disk c)) (h_disk h)) + unat (h_disk h) =
      unat (outstanding (disk c))"
    using assms by (simp add: covered_def unat_release_atomic_outstanding)
  show ?thesis
  proof (cases "h_group h")
    case None
    then show ?thesis using m d
      by (simp add: transfer_def drop_held_def release_disk_def release_memory_def release_group_def
          release_global_def release_encoder_def release_writer_def release_permit_def
          holds_nothing_def disk_release_def byte_release_all_def group_permits_def)
  next
    case (Some n)
    then obtain sem where "resource_groups c n = Some sem" using assms by (auto simp: covered_def)
    then show ?thesis using m d Some
      by (auto simp: transfer_def drop_held_def release_disk_def release_memory_def release_group_def
          release_global_def release_encoder_def release_writer_def release_permit_def
          holds_nothing_def disk_release_def byte_release_all_def group_permits_def)
  qed
qed

text \<open>What a holder has at each stage of its life.\<close>

definition stage_ok :: "Holder \<Rightarrow> bool" where
  "stage_ok t =
     (let h = t_held t; r = t_request t in
      case t_stage t of
        WantGlobal \<Rightarrow> h = holds_nothing
      | WantGroup \<Rightarrow> h = holds_nothing\<lparr>h_global := True\<rparr>
      | WantMemory \<Rightarrow> h = holds_nothing\<lparr>h_global := True, h_group := req_resource_group r\<rparr>
      | WantDisk \<Rightarrow> h = holds_nothing\<lparr>h_global := True, h_group := req_resource_group r,
                      h_memory := req_maximum_frame_bytes r\<rparr>
      | AcquisitionLease \<Rightarrow> h = holds_nothing\<lparr>h_global := True, h_group := req_resource_group r,
                      h_memory := req_maximum_frame_bytes r, h_disk := req_maximum_frame_bytes r\<rparr>
      | ProcessingLease \<Rightarrow> \<not> h_global h \<and> h_group h = None \<and> \<not> h_encoder h \<and> \<not> h_writer h \<and>
                      h_memory h \<le> req_maximum_frame_bytes r \<and> h_disk h \<le> req_maximum_frame_bytes r
      | StagePermit \<Rightarrow> \<not> h_global h \<and> h_group h = None \<and> h_disk h = 0
      | RejectedWith _ \<Rightarrow> h = holds_nothing
      | Dropped \<Rightarrow> h = holds_nothing)"

text \<open>A step of one holder is sound if it transfers capacity and respects the stages.\<close>

definition step_ok :: "AdmissionController \<Rightarrow> Holder \<Rightarrow> AdmissionController \<times> Holder \<Rightarrow> bool" where
  "step_ok c t r \<longleftrightarrow> stage_ok (snd r) \<and> transfer c (t_held t) (fst r) (t_held (snd r))"

definition sound_step ::
    "(Holder \<Rightarrow> bool) \<Rightarrow> (Holder \<Rightarrow> AdmissionController \<Rightarrow> AdmissionController \<times> Holder) \<Rightarrow> bool" where
  "sound_step ok f \<longleftrightarrow>
     (\<forall>t c. stage_ok t \<longrightarrow> ok t \<longrightarrow> covered c (t_held t) \<longrightarrow> step_ok c t (f t c))"

lemma step_ok_pair: "step_ok c t (c', t') \<longleftrightarrow> stage_ok t' \<and> transfer c (t_held t) c' (t_held t')"
  by (simp add: step_ok_def)

lemma fail_holder_sound: "covered c (t_held t) \<Longrightarrow> step_ok c t (fail_holder e t c)"
  by (simp add: step_ok_def fail_holder_def stage_ok_def transfer_drop)

lemma drop_holder_sound: "sound_step ok drop_holder"
  by (simp add: sound_step_def step_ok_def drop_holder_def stage_ok_def transfer_drop)

lemma step_ok_wait: "stage_ok t \<Longrightarrow> step_ok c t (c, t\<lparr>t_first := b\<rparr>)"
  by (simp add: step_ok_def transfer_refl stage_ok_def)

lemma step_ok_stay: "stage_ok t \<Longrightarrow> step_ok c t (c, t)"
  by (simp add: step_ok_def transfer_refl)

lemma acquire_semaphore_cases:
  "acquire_semaphore first now dl cancelled label sem = (sem, Pending) \<or>
   (\<exists>e. acquire_semaphore first now dl cancelled label sem = (sem, Ready (Inl e))) \<or>
   (acquire_semaphore first now dl cancelled label sem =
      (sem\<lparr>permits := permits sem - 1\<rparr>, Ready (Inr ())) \<and> 0 < permits sem)"
  by (simp add: acquire_semaphore_def)

lemma byte_reserve_cases:
  "byte_reserve n now dl cancelled b = (b, Pending) \<or>
   (\<exists>e. byte_reserve n now dl cancelled b = (b, Ready (Inl e))) \<or>
   (byte_reserve n now dl cancelled b = (b\<lparr>available := available b - n\<rparr>, Ready (Inr n)) \<and>
      n \<le> available b \<and> n \<le> capacity b)"
  by (simp add: byte_reserve_def not_less)

lemma disk_commit_ok:
  assumes "disk_commit n space b = (b', Inr m)"
  shows "m = n" "floor_bytes b' = floor_bytes b" "floor_percent b' = floor_percent b"
    and "unat (outstanding b') = unat (outstanding b) + unat n"
    and "\<exists>p. percentage_floor (total_bytes space) (floor_percent b) = Inr p \<and>
           unat (outstanding b') + max (unat (floor_bytes b)) (unat p) \<le> unat (available_bytes space)"
    and "available_bytes space \<le> total_bytes space"
  using assms
  by (auto simp: disk_commit_def Let_def checked_add_Some_iff word_le_nat_alt not_less max_def
      split: if_splits sum.splits option.splits)

lemma disk_commit_err: "disk_commit n space b = (b', Inl e) \<Longrightarrow> b' = b"
  by (auto simp: disk_commit_def Let_def split: if_splits sum.splits option.splits)

lemma disk_reserve_cases:
  "disk_reserve first n now dl cancelled probe b = (b, Pending) \<or>
   (\<exists>e. disk_reserve first n now dl cancelled probe b = (b, Ready (Inl e))) \<or>
   (\<exists>space b'. disk_reserve first n now dl cancelled probe b = (b', Ready (Inr n)) \<and>
      probe = Ready (Inr space) \<and> disk_commit n space b = (b', Inr n))"
proof (cases "\<exists>space. probe = Ready (Inr space)")
  case True
  then obtain space where p: "probe = Ready (Inr space)" by blast
  obtain b' r where dc: "disk_commit n space b = (b', r)" by fastforce
  show ?thesis
  proof (cases r)
    case (Inl e)
    then show ?thesis using disk_commit_err [OF dc [unfolded Inl]] dc p
      by (simp add: disk_reserve_def)
  next
    case (Inr m)
    then show ?thesis using disk_commit_ok(1) [OF dc [unfolded Inr]] dc p
      by (simp add: disk_reserve_def)
  qed
next
  case False
  then show ?thesis by (cases probe) (auto simp: disk_reserve_def split: sum.splits)
qed

lemma want_global_sound:
  assumes "stage_ok t" "t_stage t = WantGlobal" "covered c (t_held t)"
  shows "step_ok c t (want_global now cancelled t c)"
proof -
  let ?acquire = "acquire_semaphore (t_first t) now (req_deadline (t_request t)) cancelled
        ''global acquisition permit'' (global_acquisitions c)"
  have h: "t_held t = holds_nothing" using assms by (simp add: stage_ok_def Let_def)
  consider (wait) "?acquire = (global_acquisitions c, Pending)"
    | (fail) e where "?acquire = (global_acquisitions c, Ready (Inl e))"
    | (take) "?acquire = ((global_acquisitions c)\<lparr>permits := permits (global_acquisitions c) - 1\<rparr>,
        Ready (Inr ()))" "0 < permits (global_acquisitions c)"
    using acquire_semaphore_cases by metis
  then show ?thesis
  proof cases
    case take
    then show ?thesis using fail_holder_sound [OF assms(3)] assms(1,2)
      by (simp add: want_global_def step_ok_pair stage_ok_def h transfer_def holds_nothing_def
          group_permits_def)
  qed (use assms fail_holder_sound [OF assms(3)] in \<open>simp_all add: want_global_def step_ok_wait\<close>)
qed

lemma want_group_sound:
  assumes "stage_ok t" "t_stage t = WantGroup" "covered c (t_held t)"
  shows "step_ok c t (want_group now cancelled t c)"
proof -
  have h: "t_held t = holds_nothing\<lparr>h_global := True\<rparr>" using assms by (simp add: stage_ok_def Let_def)
  show ?thesis
  proof (cases "req_resource_group (t_request t)")
    case None
    then show ?thesis
      by (simp add: want_group_def step_ok_pair stage_ok_def h transfer_refl holds_nothing_def)
  next
    case (Some n)
    show ?thesis
    proof (cases "resource_groups c n")
      case None
      then show ?thesis using Some fail_holder_sound [OF assms(3)] by (simp add: want_group_def)
    next
      case g: (Some sem)
      let ?acquire = "acquire_semaphore (t_first t) now (req_deadline (t_request t)) cancelled
            ''resource-group acquisition permit'' sem"
      consider (wait) "?acquire = (sem, Pending)"
        | (fail) e where "?acquire = (sem, Ready (Inl e))"
        | (take) "?acquire = (sem\<lparr>permits := permits sem - 1\<rparr>, Ready (Inr ()))" "0 < permits sem"
        using acquire_semaphore_cases by metis
      then show ?thesis
      proof cases
        case take
        then show ?thesis using g
          by (auto simp: want_group_def Some step_ok_pair stage_ok_def h transfer_def holds_nothing_def
              group_permits_def)
      qed (use assms g fail_holder_sound [OF assms(3)] in
           \<open>simp_all add: want_group_def Some step_ok_wait\<close>)
    qed
  qed
qed

lemma want_memory_sound:
  assumes "stage_ok t" "t_stage t = WantMemory" "covered c (t_held t)"
  shows "step_ok c t (want_memory now cancelled t c)"
proof -
  let ?n = "req_maximum_frame_bytes (t_request t)"
  let ?reserve = "byte_reserve ?n now (req_deadline (t_request t)) cancelled (memory c)"
  have h: "t_held t = holds_nothing\<lparr>h_global := True, h_group := req_resource_group (t_request t)\<rparr>"
    using assms by (simp add: stage_ok_def Let_def)
  consider (wait) "?reserve = (memory c, Pending)"
    | (fail) e where "?reserve = (memory c, Ready (Inl e))"
    | (take) "?reserve = ((memory c)\<lparr>available := available (memory c) - ?n\<rparr>, Ready (Inr ?n))"
        "?n \<le> available (memory c)"
    using byte_reserve_cases by blast
  then show ?thesis
  proof cases
    case take
    then show ?thesis
      by (simp add: want_memory_def step_ok_pair stage_ok_def h transfer_def holds_nothing_def
          group_permits_def unat_minus_u64 word_le_nat_alt)
  qed (use assms fail_holder_sound [OF assms(3)] in \<open>simp_all add: want_memory_def step_ok_wait\<close>)
qed

lemma want_disk_sound:
  assumes "stage_ok t" "t_stage t = WantDisk" "covered c (t_held t)"
  shows "step_ok c t (want_disk now cancelled probe t c)"
proof -
  let ?n = "req_maximum_frame_bytes (t_request t)"
  let ?reserve = "disk_reserve (t_first t) ?n now (req_deadline (t_request t)) cancelled probe (disk c)"
  have h: "t_held t = holds_nothing\<lparr>h_global := True, h_group := req_resource_group (t_request t),
      h_memory := ?n\<rparr>" using assms by (simp add: stage_ok_def Let_def)
  consider (wait) "?reserve = (disk c, Pending)"
    | (fail) e where "?reserve = (disk c, Ready (Inl e))"
    | (take) space b where "?reserve = (b, Ready (Inr ?n))" "disk_commit ?n space (disk c) = (b, Inr ?n)"
    using disk_reserve_cases by blast
  then show ?thesis
  proof cases
    case take
    then show ?thesis using disk_commit_ok(4) [OF take(2)]
      by (simp add: want_disk_def step_ok_pair stage_ok_def h transfer_def holds_nothing_def
          group_permits_def)
  qed (use assms fail_holder_sound [OF assms(3)] in \<open>simp_all add: want_disk_def step_ok_wait\<close>)
qed

lemma acquire_capture_sound: "sound_step (\<lambda>_. True) (acquire_capture now cancelled probe)"
  unfolding sound_step_def acquire_capture_def
  by (auto split: HolderStage.splits intro: step_ok_stay want_global_sound want_group_sound
      want_memory_sound want_disk_sound)

lemma unat_byte_shrink:
  assumes "n \<le> r" and "unat a + unat r < 2 ^ 64"
  shows "unat (release_atomic_budget a (r - n)) + unat n = unat a + unat r"
proof -
  have "unat (r - n) = unat r - unat n" using assms(1) by (rule unat_minus_u64)
  moreover have "unat n \<le> unat r" using assms(1) by (simp add: word_le_nat_alt)
  ultimately show ?thesis using assms(2) by (simp add: unat_release_atomic_budget)
qed

lemma finish_acquisition_sound: "sound_step (\<lambda>t. t_stage t = AcquisitionLease) (finish_acquisition n)"
  unfolding sound_step_def
proof (intro allI impI)
  fix t c assume a: "stage_ok t" "t_stage t = AcquisitionLease" "covered c (t_held t)"
  let ?m = "req_maximum_frame_bytes (t_request t)"
  have h: "t_held t = holds_nothing\<lparr>h_global := True, h_group := req_resource_group (t_request t),
      h_memory := ?m, h_disk := ?m\<rparr>" using a by (simp add: stage_ok_def Let_def)
  have cov: "unat (available (memory c)) + unat ?m < 2 ^ 64"
    using a by (simp add: covered_def h holds_nothing_def)
  show "step_ok c t (finish_acquisition n t c)"
  proof (cases "?m < n")
    case True
    then show ?thesis using fail_holder_sound [OF a(3)]
      by (simp add: finish_acquisition_def byte_shrink_def h holds_nothing_def)
  next
    case False
    then have le: "n \<le> ?m" by simp
    have groups: "h_group (t_held t) = Some g \<Longrightarrow> \<exists>sem. resource_groups c g = Some sem" for g
      using a(3) by (auto simp: covered_def)
    show ?thesis
      using unat_byte_shrink [OF le cov] le groups
      by (cases "req_resource_group (t_request t)")
         (auto simp: finish_acquisition_def byte_shrink_def step_ok_pair stage_ok_def transfer_def h
           holds_nothing_def release_global_def release_group_def release_permit_def group_permits_def)
  qed
qed

lemma shrink_memory_sound: "sound_step (\<lambda>t. t_stage t = ProcessingLease) (shrink_memory n)"
  unfolding sound_step_def
proof (intro allI impI)
  fix t c assume a: "stage_ok t" "t_stage t = ProcessingLease" "covered c (t_held t)"
  let ?m = "h_memory (t_held t)"
  show "step_ok c t (shrink_memory n t c)"
  proof (cases "?m < n")
    case True
    then show ?thesis using step_ok_stay [OF a(1)] by (simp add: shrink_memory_def byte_shrink_def)
  next
    case False
    then have le: "n \<le> ?m" by simp
    then show ?thesis using unat_byte_shrink [OF le, of "available (memory c)"] a
      by (auto simp: shrink_memory_def byte_shrink_def step_ok_pair transfer_def covered_def
          group_permits_def stage_ok_def Let_def)
  qed
qed

lemma release_lease_memory_sound: "sound_step (\<lambda>t. t_stage t = ProcessingLease) release_lease_memory"
  by (auto simp: sound_step_def release_lease_memory_def step_ok_pair release_memory_def
      byte_release_all_def transfer_def covered_def stage_ok_def Let_def unat_release_atomic_budget
      group_permits_def)

lemma shrink_disk_sound: "sound_step (\<lambda>t. t_stage t = ProcessingLease) (shrink_disk n)"
  unfolding sound_step_def
proof (intro allI impI)
  fix t c assume a: "stage_ok t" "t_stage t = ProcessingLease" "covered c (t_held t)"
  let ?m = "h_disk (t_held t)"
  show "step_ok c t (shrink_disk n t c)"
  proof (cases "?m < n")
    case True
    then show ?thesis using step_ok_stay [OF a(1)] by (simp add: shrink_disk_def disk_shrink_def)
  next
    case False
    then have le: "n \<le> ?m" by simp
    then have "unat (?m - n) = unat ?m - unat n" by (rule unat_minus_u64)
    moreover have "unat n \<le> unat ?m" using le by (simp add: word_le_nat_alt)
    moreover have "unat ?m \<le> unat (outstanding (disk c))" using a(3) by (simp add: covered_def)
    ultimately have "unat (release_atomic_outstanding (outstanding (disk c)) (?m - n)) + unat ?m =
        unat (outstanding (disk c)) + unat n"
      by (subst unat_release_atomic_outstanding) simp_all
    then show ?thesis using a le
      by (auto simp: shrink_disk_def disk_shrink_def step_ok_pair transfer_def group_permits_def
          stage_ok_def Let_def)
  qed
qed

section \<open>The invariant of the whole system\<close>

definition total_of :: "(Held \<Rightarrow> nat) \<Rightarrow> Holder list \<Rightarrow> nat" where
  "total_of f ts = sum_list (map (\<lambda>t. f (t_held t)) ts)"

text \<open>Relative to the freshly built controller \<open>c\<^sub>0\<close>: what is free plus what all holders have is
  what the controller was built with.\<close>

definition conserved :: "AdmissionController \<Rightarrow> AdmissionController \<Rightarrow> Holder list \<Rightarrow> bool" where
  "conserved c\<^sub>0 c ts \<longleftrightarrow>
     permits (global_acquisitions c) + total_of (\<lambda>h. of_bool (h_global h)) ts =
       permits (global_acquisitions c\<^sub>0) \<and>
     (\<forall>n. group_permits c n + total_of (\<lambda>h. of_bool (h_group h = Some n)) ts = group_permits c\<^sub>0 n) \<and>
     unat (available (memory c)) + total_of (\<lambda>h. unat (h_memory h)) ts = unat (capacity (memory c\<^sub>0)) \<and>
     unat (outstanding (disk c)) = total_of (\<lambda>h. unat (h_disk h)) ts \<and>
     permits (encoders c) + total_of (\<lambda>h. of_bool (h_encoder h)) ts = permits (encoders c\<^sub>0) \<and>
     permits (writers c) + total_of (\<lambda>h. of_bool (h_writer h)) ts = permits (writers c\<^sub>0)"

definition admission_inv :: "AdmissionController \<Rightarrow> AdmissionSystem \<Rightarrow> bool" where
  "admission_inv c\<^sub>0 s \<longleftrightarrow>
     (\<forall>t \<in> set (holders s). stage_ok t \<and>
        (\<forall>n. h_group (t_held t) = Some n \<longrightarrow> n \<in> dom (resource_groups (controller s)))) \<and>
     dom (resource_groups (controller s)) = dom (resource_groups c\<^sub>0) \<and>
     capacity (memory (controller s)) = capacity (memory c\<^sub>0) \<and>
     conserved c\<^sub>0 (controller s) (holders s)"

lemma total_of_Nil [simp]: "total_of f [] = 0"
  by (simp add: total_of_def)

lemma total_of_snoc [simp]: "total_of f (ts @ [t]) = total_of f ts + f (t_held t)"
  by (simp add: total_of_def)

lemma total_of_ge: "i < length ts \<Longrightarrow> f (t_held (ts ! i)) \<le> total_of f ts"
  unfolding total_of_def by (metis elem_le_sum_list length_map nth_map)

lemma total_of_update:
  "i < length ts \<Longrightarrow> total_of f (ts[i := t]) + f (t_held (ts ! i)) = total_of f ts + f (t_held t)"
  unfolding total_of_def using total_of_ge [unfolded total_of_def, of i ts f]
  by (simp add: map_update sum_list_update)

lemma admission_covered:
  assumes "admission_inv c\<^sub>0 s" "i < length (holders s)"
  shows "covered (controller s) (t_held (holders s ! i))"
proof -
  note ge = total_of_ge [OF assms(2)]
  have "unat (h_memory (t_held (holders s ! i))) \<le> total_of (\<lambda>h. unat (h_memory h)) (holders s)"
    "unat (h_disk (t_held (holders s ! i))) \<le> total_of (\<lambda>h. unat (h_disk h)) (holders s)"
    using ge [of "\<lambda>h. unat (h_memory h)"] ge [of "\<lambda>h. unat (h_disk h)"] by simp_all
  then show ?thesis
    using assms unat_u64_less [of "capacity (memory c\<^sub>0)"]
    by (fastforce simp: covered_def admission_inv_def conserved_def)
qed

lemma conserved_update:
  assumes con: "conserved c\<^sub>0 c ts" and i: "i < length ts"
    and tr: "transfer c (t_held (ts ! i)) c' (t_held t)"
  shows "conserved c\<^sub>0 c' (ts[i := t])"
proof -
  note upd = total_of_update [OF i, where t = t]
  show ?thesis
    unfolding conserved_def
  proof (intro conjI allI)
    show "permits (global_acquisitions c') + total_of (\<lambda>h. of_bool (h_global h)) (ts[i := t]) =
        permits (global_acquisitions c\<^sub>0)"
      using con tr upd [of "\<lambda>h. of_bool (h_global h)"] by (simp add: conserved_def transfer_def)
    show "group_permits c' n + total_of (\<lambda>h. of_bool (h_group h = Some n)) (ts[i := t]) =
        group_permits c\<^sub>0 n" for n
    proof -
      have "group_permits c n + total_of (\<lambda>h. of_bool (h_group h = Some n)) ts = group_permits c\<^sub>0 n"
        using con by (simp add: conserved_def)
      moreover have "group_permits c' n + of_bool (h_group (t_held t) = Some n) =
          group_permits c n + of_bool (h_group (t_held (ts ! i)) = Some n)"
        using tr by (simp add: transfer_def)
      ultimately show ?thesis using upd [of "\<lambda>h. of_bool (h_group h = Some n)"] by linarith
    qed
    show "unat (available (memory c')) + total_of (\<lambda>h. unat (h_memory h)) (ts[i := t]) =
        unat (capacity (memory c\<^sub>0))"
      using con tr upd [of "\<lambda>h. unat (h_memory h)"] by (simp add: conserved_def transfer_def)
    show "unat (outstanding (disk c')) = total_of (\<lambda>h. unat (h_disk h)) (ts[i := t])"
      using con tr upd [of "\<lambda>h. unat (h_disk h)"] by (simp add: conserved_def transfer_def)
    show "permits (encoders c') + total_of (\<lambda>h. of_bool (h_encoder h)) (ts[i := t]) = permits (encoders c\<^sub>0)"
      using con tr upd [of "\<lambda>h. of_bool (h_encoder h)"] by (simp add: conserved_def transfer_def)
    show "permits (writers c') + total_of (\<lambda>h. of_bool (h_writer h)) (ts[i := t]) = permits (writers c\<^sub>0)"
      using con tr upd [of "\<lambda>h. of_bool (h_writer h)"] by (simp add: conserved_def transfer_def)
  qed
qed

lemma conserved_snoc:
  assumes "conserved c\<^sub>0 c ts" and "transfer c holds_nothing c' (t_held t)"
  shows "conserved c\<^sub>0 c' (ts @ [t])"
  using assms by (simp add: conserved_def transfer_def holds_nothing_def add.commute [of _ "total_of _ _"]
      add.left_commute [of _ "total_of _ _"])

lemma on_holder_inv:
  assumes inv: "admission_inv c\<^sub>0 s" and sound: "sound_step ok f"
  shows "admission_inv c\<^sub>0 (on_holder i ok f s)"
proof (cases "i < length (holders s) \<and> ok (holders s ! i)")
  case True
  let ?t = "holders s ! i"
  obtain c' t' where f: "f ?t (controller s) = (c', t')" by fastforce
  have "stage_ok ?t" using inv True by (simp add: admission_inv_def)
  then have ok: "stage_ok t'" and tr: "transfer (controller s) (t_held ?t) c' (t_held t')"
    using sound admission_covered [OF inv] True f unfolding sound_step_def by (metis step_ok_pair)+
  have con: "conserved c\<^sub>0 c' ((holders s)[i := t'])"
    using inv True tr by (auto simp: admission_inv_def intro: conserved_update)
  have mem: "?t \<in> set (holders s)" using True by simp
  have grp: "n \<in> dom (resource_groups (controller s))" if "h_group (t_held t') = Some n" for n
  proof -
    have "h_group (t_held t') = h_group (t_held ?t) \<or> h_group (t_held t') = None \<or>
        h_group (t_held t') \<in> Some ` dom (resource_groups (controller s))"
      using tr by (simp add: transfer_def)
    moreover have "h_group (t_held ?t) = Some n \<Longrightarrow> n \<in> dom (resource_groups (controller s))"
      using inv mem unfolding admission_inv_def by blast
    ultimately show ?thesis using that by auto
  qed
  have doms: "dom (resource_groups c') = dom (resource_groups (controller s))"
    "capacity (memory c') = capacity (memory (controller s))"
    using tr by (simp_all add: transfer_def)
  show ?thesis
    using inv con ok grp doms True
    by (auto simp: on_holder_def f admission_inv_def dest!: set_update_subset_insert [THEN subsetD])
qed (use inv in \<open>auto simp: on_holder_def\<close>)

text \<open>A future that grants a new holder changes the controller only by what it grants.\<close>

definition grants :: "AdmissionController \<Rightarrow> AdmissionController \<times> Holder result poll \<Rightarrow> bool" where
  "grants c r =
     (case r of
        (c', Ready (Inr t)) \<Rightarrow>
          stage_ok t \<and> h_group (t_held t) = None \<and> transfer c holds_nothing c' (t_held t)
      | (c', _) \<Rightarrow> c' = c)"

lemma add_holder_inv:
  assumes inv: "admission_inv c\<^sub>0 s" and r: "grants (controller s) r"
  shows "admission_inv c\<^sub>0 (add_holder r s)"
proof (cases "\<exists>c t. r = (c, Ready (Inr t))")
  case True
  then obtain c t where rt: "r = (c, Ready (Inr t))" by blast
  then have g: "stage_ok t" "h_group (t_held t) = None"
    and tr: "transfer (controller s) holds_nothing c (t_held t)"
    using r by (simp_all add: grants_def)
  have "conserved c\<^sub>0 c (holders s @ [t])"
    using inv tr unfolding admission_inv_def by (blast intro: conserved_snoc)
  then show ?thesis using inv g tr by (auto simp: rt add_holder_def admission_inv_def transfer_def)
next
  case False
  then have "add_holder r s = s"
    using r by (auto simp: add_holder_def grants_def split: prod.splits poll.splits sum.splits)
  then show ?thesis using inv by simp
qed

lemma stage_permit_ok [simp]:
  "\<not> h_global h \<Longrightarrow> h_group h = None \<Longrightarrow> h_disk h = 0 \<Longrightarrow> stage_ok (stage_permit dl h)"
  "t_held (stage_permit dl h) = h"
  by (simp_all add: stage_ok_def stage_permit_def)

lemma acquire_encoder_grants: "grants c (acquire_encoder first now dl cancelled c)"
  using acquire_semaphore_cases [of first now dl cancelled "''encoder permit''" "encoders c"]
  by (auto simp: acquire_encoder_def grants_def transfer_def holds_nothing_def group_permits_def)

lemma acquire_writer_grants: "grants c (acquire_writer first now dl cancelled c)"
  using acquire_semaphore_cases [of first now dl cancelled "''writer permit''" "writers c"]
  by (auto simp: acquire_writer_def grants_def transfer_def holds_nothing_def group_permits_def)

lemma reserve_memory_grants: "grants c (reserve_memory n now dl cancelled c)"
  using byte_reserve_cases [of n now dl cancelled "memory c"]
  by (auto simp: reserve_memory_def grants_def transfer_def holds_nothing_def group_permits_def
      unat_minus_u64 word_le_nat_alt)

lemma submit_inv:
  assumes "admission_inv c\<^sub>0 s" shows "admission_inv c\<^sub>0 (exec_admission s (OpSubmit req))"
proof -
  have "conserved c\<^sub>0 (controller s) (holders s @ [\<lparr>t_request = req, t_first = True,
      t_stage = WantGlobal, t_held = holds_nothing\<rparr>])"
    using assms unfolding admission_inv_def
    by (intro conserved_snoc [of _ "controller s"]) (simp_all add: transfer_refl)
  then show ?thesis using assms
    by (auto simp: admission_inv_def stage_ok_def holds_nothing_def)
qed

interpretation admission: operation_system exec_admission "admission_inv c\<^sub>0" for c\<^sub>0
proof
  fix s op assume inv: "admission_inv c\<^sub>0 s"
  show "admission_inv c\<^sub>0 (exec_admission s op)"
  proof (cases op)
    case (OpSubmit req)
    then show ?thesis using submit_inv [OF inv] by simp
  qed (use inv in \<open>auto intro: on_holder_inv acquire_capture_sound finish_acquisition_sound
      shrink_memory_sound release_lease_memory_sound shrink_disk_sound drop_holder_sound
      add_holder_inv acquire_encoder_grants acquire_writer_grants reserve_memory_grants\<close>)
qed

lemma admission_controller_new_ok:
  assumes "admission_controller_new lims out = Inr c"
  shows "permits (global_acquisitions c) = max_concurrent_captures lims"
    and "permits (encoders c) = max_concurrent_encodes lims"
    and "permits (writers c) = max_concurrent_writes lims"
    and "capacity (memory c) = max_in_flight_bytes lims" "available (memory c) = max_in_flight_bytes lims"
    and "outstanding (disk c) = 0" "floor_bytes (disk c) = minimum_free_bytes out"
    and "floor_percent (disk c) = minimum_free_percent out" "floor_percent (disk c) \<le> 100"
    and "\<not> closed (global_acquisitions c)"
  using assms
  by (auto simp: admission_controller_new_def and_then_Inr_iff byte_budget_new_def disk_budget_new_def
      semaphore_new_def split: if_splits)

lemma admission_controller_new_groups:
  assumes "admission_controller_new lims out = Inr c"
  shows "group_permits c n = (case map_of (lim_resource_groups lims) n of None \<Rightarrow> 0
           | Some g \<Rightarrow> rg_max_concurrent_captures g)"
proof -
  have "resource_groups c = map_of (map (\<lambda>(name, grp).
      (name, semaphore_new (rg_max_concurrent_captures grp))) (lim_resource_groups lims))"
    using assms by (auto simp: admission_controller_new_def and_then_Inr_iff split: if_splits)
  then show ?thesis
    by (simp add: group_permits_def map_of_map semaphore_new_def split: option.splits)
qed

lemma fresh_admission_inv:
  assumes "admission_controller_new lims out = Inr c"
  shows "admission_inv c \<lparr>controller = c, holders = []\<rparr>"
  using admission_controller_new_ok [OF assms] by (simp add: admission_inv_def conserved_def)

section \<open>Properties\<close>

text \<open>C2: Capacity is conserved. From a freshly built controller, after any interleaving of
  submissions, polls of pending acquisitions (with any clock, cancellation and filesystem answers),
  lease operations, stage permits and drops: for global permits, each resource group, frame memory,
  encoder and writer permits, what is free plus what live holders have is exactly the configured
  capacity; the outstanding disk bytes are exactly the sum of the live reservations; and an
  acquisition that was rejected or dropped holds nothing, whatever stage it had reached.\<close>

theorem capacity_conserved:
  assumes "admission_controller_new lims out = Inr c\<^sub>0"
    and "s = foldl exec_admission \<lparr>controller = c\<^sub>0, holders = []\<rparr> ops"
  shows "permits (global_acquisitions (controller s)) + total_of (\<lambda>h. of_bool (h_global h)) (holders s) =
      max_concurrent_captures lims \<and>
    (\<forall>name grp. map_of (lim_resource_groups lims) name = Some grp \<longrightarrow>
      group_permits (controller s) name + total_of (\<lambda>h. of_bool (h_group h = Some name)) (holders s) =
      rg_max_concurrent_captures grp) \<and>
    unat (available (memory (controller s))) + total_of (\<lambda>h. unat (h_memory h)) (holders s) =
      unat (max_in_flight_bytes lims) \<and>
    unat (outstanding (disk (controller s))) = total_of (\<lambda>h. unat (h_disk h)) (holders s) \<and>
    permits (encoders (controller s)) + total_of (\<lambda>h. of_bool (h_encoder h)) (holders s) =
      max_concurrent_encodes lims \<and>
    permits (writers (controller s)) + total_of (\<lambda>h. of_bool (h_writer h)) (holders s) =
      max_concurrent_writes lims \<and>
    (\<forall>t e. t \<in> set (holders s) \<and> (t_stage t = RejectedWith e \<or> t_stage t = Dropped) \<longrightarrow>
       t_held t = holds_nothing)"
proof -
  note new = admission_controller_new_ok [OF assms(1)]
  have inv: "admission_inv c\<^sub>0 s"
    unfolding assms(2) by (rule admission.run_inv [OF fresh_admission_inv [OF assms(1)]])
  then have con: "conserved c\<^sub>0 (controller s) (holders s)" by (simp add: admission_inv_def)
  have glob: "permits (global_acquisitions (controller s)) + total_of (\<lambda>h. of_bool (h_global h)) (holders s) =
      max_concurrent_captures lims" using con new by (simp add: conserved_def)
  have groups: "\<forall>name grp. map_of (lim_resource_groups lims) name = Some grp \<longrightarrow>
      group_permits (controller s) name + total_of (\<lambda>h. of_bool (h_group h = Some name)) (holders s) =
      rg_max_concurrent_captures grp"
    using con admission_controller_new_groups [OF assms(1)] by (simp add: conserved_def)
  have mem: "unat (available (memory (controller s))) + total_of (\<lambda>h. unat (h_memory h)) (holders s) =
      unat (max_in_flight_bytes lims)" using con new by (simp add: conserved_def)
  have dsk: "unat (outstanding (disk (controller s))) = total_of (\<lambda>h. unat (h_disk h)) (holders s)"
    using con by (simp add: conserved_def)
  have enc: "permits (encoders (controller s)) + total_of (\<lambda>h. of_bool (h_encoder h)) (holders s) =
      max_concurrent_encodes lims" using con new by (simp add: conserved_def)
  have wrt: "permits (writers (controller s)) + total_of (\<lambda>h. of_bool (h_writer h)) (holders s) =
      max_concurrent_writes lims" using con new by (simp add: conserved_def)
  have ok: "stage_ok t" if "t \<in> set (holders s)" for t
    using inv that unfolding admission_inv_def by blast
  have "t_held t = holds_nothing"
    if "t \<in> set (holders s)" and "t_stage t = RejectedWith e \<or> t_stage t = Dropped" for t e
    using ok [OF that(1)] that(2) by (auto simp: stage_ok_def Let_def)
  then have idle: "\<forall>t e. t \<in> set (holders s) \<and> (t_stage t = RejectedWith e \<or> t_stage t = Dropped) \<longrightarrow>
      t_held t = holds_nothing" by blast
  show ?thesis using glob groups mem dsk enc wrt idle by (intro conjI)
qed

definition demo_output :: OutputConfig where
  "demo_output = \<lparr>root_directory = ''/data'', camera_directory_template = ''{cameraId}'',
     file_name_template = ''{captureId}'', write_metadata_sidecar = False, minimum_free_bytes = 10,
     minimum_free_percent = 5, directory_mode = ''0750'', file_mode = ''0640''\<rparr>"

definition demo_limits :: LimitsConfig where
  "demo_limits = (LimitsConfig_default 1)\<lparr>max_in_flight_bytes := 100,
     lim_resource_groups := [(''nic0'', \<lparr>rg_max_concurrent_captures = 1\<rparr>)]\<rparr>"

definition demo_controller :: AdmissionController where
  "demo_controller = (case admission_controller_new demo_limits demo_output of Inr c \<Rightarrow> c
     | Inl _ \<Rightarrow> undefined)"

lemma demo_controller_new: "admission_controller_new demo_limits demo_output = Inr demo_controller"
  by (simp add: demo_controller_def admission_controller_new_def demo_limits_def demo_output_def
      LimitsConfig_default_def byte_budget_new_def disk_budget_new_def)

definition demo_request :: CaptureResourceRequest where
  "demo_request = \<lparr>req_resource_group = Some ''nic0'', req_maximum_frame_bytes = 40, req_deadline = 9\<rparr>"

theorem capacity_conserved_witness:
  "permits (global_acquisitions (controller (foldl exec_admission
      \<lparr>controller = demo_controller, holders = []\<rparr> [OpSubmit demo_request, OpPoll 0 1 False Pending])))
   + 1 = 32"
  using capacity_conserved [OF demo_controller_new refl,
      of "[OpSubmit demo_request, OpPoll 0 1 False Pending]"]
  by (simp add: demo_limits_def LimitsConfig_default_def total_of_def on_holder_def
      acquire_capture_def want_global_def acquire_semaphore_def demo_request_def demo_controller_def
      admission_controller_new_def demo_output_def byte_budget_new_def disk_budget_new_def
      semaphore_new_def holds_nothing_def)

section \<open>The free-space floor\<close>

lemma percentage_floor_exact:
  assumes "p \<le> 100"
  shows "\<exists>f. percentage_floor tot p = Inr f \<and> unat f = (unat tot * p + 99) div 100"
proof -
  have t: "unat tot \<le> u64_max" by simp
  have "unat tot * p \<le> u64_max * 100" using t assms by (rule mult_le_mono)
  then have small: "unat tot * p + 99 \<le> u128_max" by (simp add: u64_max_def u128_max_def)
  have "unat tot * p \<le> unat tot * 100" using assms by (rule mult_le_mono2)
  then have "(unat tot * p + 99) div 100 \<le> unat tot" by linarith
  then have le: "(unat tot * p + 99) div 100 \<le> u64_max" using t by linarith
  then have "unat (of_nat ((unat tot * p + 99) div 100) :: u64) = (unat tot * p + 99) div 100"
    by (simp add: unat_of_nat u64_max_def)
  then show ?thesis
    using small le by (simp add: percentage_floor_def checked_mul_u128_def checked_add_u128_def Let_def)
qed

text \<open>C27: A granted disk reservation respects the free-space policy: with every outstanding byte
  written, the filesystem that was probed still keeps the configured minimum of free bytes and the
  configured percentage of its size, and no arithmetic has wrapped.\<close>

theorem disk_floor_respected:
  assumes "disk_reserve first n now deadline cancelled probe b = (b', Ready (Inr m))"
    and "floor_percent b \<le> 100"
  shows "\<exists>space. probe = Ready (Inr space) \<and> m = n \<and>
      unat (outstanding b') = unat (outstanding b) + unat n \<and>
      unat (outstanding b') + unat (floor_bytes b) \<le> unat (available_bytes space) \<and>
      unat (total_bytes space) * floor_percent b \<le>
        (unat (available_bytes space) - unat (outstanding b')) * 100"
proof -
  obtain space where p: "probe = Ready (Inr space)" and c: "disk_commit n space b = (b', Inr n)"
    and m: "m = n"
    using disk_reserve_cases [of first n now deadline cancelled probe b] assms(1) by auto
  note ok = disk_commit_ok [OF c]
  obtain f where f: "percentage_floor (total_bytes space) (floor_percent b) = Inr f"
    and uf: "unat f = (unat (total_bytes space) * floor_percent b + 99) div 100"
    using percentage_floor_exact [OF assms(2)] by blast
  have le: "unat (outstanding b') + max (unat (floor_bytes b)) (unat f) \<le> unat (available_bytes space)"
    using ok(5) f by auto
  have "unat (total_bytes space) * floor_percent b \<le> unat f * 100"
    unfolding uf by linarith
  also have "\<dots> \<le> (unat (available_bytes space) - unat (outstanding b')) * 100"
    using le by simp
  finally show ?thesis using p m ok(4) le by auto
qed

theorem disk_floor_respected_witness:
  "\<exists>b'. disk_reserve True 40 1 9 False (Ready (Inr \<lparr>available_bytes = 60, total_bytes = 100\<rparr>))
      (disk demo_controller) = (b', Ready (Inr 40)) \<and> unat (outstanding b') + 10 \<le> 60"
proof -
  let ?b = "disk demo_controller"
  have r: "disk_reserve True 40 1 9 False (Ready (Inr \<lparr>available_bytes = 60, total_bytes = 100\<rparr>)) ?b =
      (?b\<lparr>outstanding := 40\<rparr>, Ready (Inr 40))"
    by (simp add: disk_reserve_def disk_commit_def percentage_floor_def checked_mul_u128_def
        checked_add_u128_def u128_max_def u64_max_def demo_controller_def admission_controller_new_def
        demo_limits_def demo_output_def LimitsConfig_default_def byte_budget_new_def
        disk_budget_new_def checked_add_def Let_def)
  have "floor_percent ?b \<le> 100" "floor_bytes ?b = 10"
    using admission_controller_new_ok [OF demo_controller_new] by (simp_all add: demo_output_def)
  then show ?thesis using disk_floor_respected [OF r] r by auto
qed

section \<open>Admission when capacity is there\<close>

definition fresh_holder :: "CaptureResourceRequest \<Rightarrow> Holder" where
  "fresh_holder req = \<lparr>t_request = req, t_first = True, t_stage = WantGlobal, t_held = holds_nothing\<rparr>"

text \<open>Polling one acquisition a number of times with nothing else running.\<close>

fun poll_times ::
    "nat \<Rightarrow> nat \<Rightarrow> DiskSpace result poll \<Rightarrow> Holder \<Rightarrow> AdmissionController \<Rightarrow> AdmissionController \<times> Holder" where
  "poll_times 0 now probe t c = (c, t)"
| "poll_times (Suc n) now probe t c =
     (case acquire_capture now False probe t c of (c', t') \<Rightarrow> poll_times n now probe t' c')"

lemma disk_commit_admits:
  assumes "available_bytes space \<le> total_bytes space" and "floor_percent b \<le> 100"
    and "unat (outstanding b) + unat n + max (unat (floor_bytes b))
           ((unat (total_bytes space) * floor_percent b + 99) div 100) \<le> unat (available_bytes space)"
  shows "disk_commit n space b = (b\<lparr>outstanding := outstanding b + n\<rparr>, Inr n)"
proof -
  obtain f where f: "percentage_floor (total_bytes space) (floor_percent b) = Inr f"
    and uf: "unat f = (unat (total_bytes space) * floor_percent b + 99) div 100"
    using percentage_floor_exact [OF assms(2)] by blast
  let ?fl = "max (floor_bytes b) f"
  have mx: "unat ?fl = max (unat (floor_bytes b)) (unat f)" by (simp add: max_def word_le_nat_alt)
  have bound: "unat (outstanding b) + unat n + unat ?fl \<le> unat (available_bytes space)"
    using assms(3) mx uf by simp
  then have s1: "unat (outstanding b) + unat n < 2 ^ 64"
    using unat_u64_less [of "available_bytes space"] by linarith
  then have a1: "unat (outstanding b + n) = unat (outstanding b) + unat n" by (rule unat_plus_u64)
  have s2: "unat (outstanding b + n) + unat ?fl < 2 ^ 64"
    using a1 bound unat_u64_less [of "available_bytes space"] by linarith
  then have "unat (outstanding b + n + ?fl) \<le> unat (available_bytes space)"
    using bound a1 unat_plus_u64 [OF s2] by simp
  then show ?thesis
    using assms(1) f s1 s2 by (simp add: disk_commit_def Let_def checked_add_def word_le_nat_alt not_less)
qed

text \<open>Admission is not refused while capacity is there: if the request is positive and within
  the free memory, the global semaphore (and the request's resource group) has a permit, the deadline
  lies ahead, and the filesystem has room above the floor, then polling the acquisition through its
  four stages yields the lease, holding exactly what was asked for.\<close>

theorem capture_admitted:
  assumes "now < req_deadline req" and "0 < req_maximum_frame_bytes req"
    and "req_maximum_frame_bytes req \<le> capacity (memory c)"
    and "req_maximum_frame_bytes req \<le> available (memory c)"
    and "\<not> closed (global_acquisitions c)" and "0 < permits (global_acquisitions c)"
    and "\<forall>name. req_resource_group req = Some name \<longrightarrow>
           (\<exists>sem. resource_groups c name = Some sem \<and> \<not> closed sem \<and> 0 < permits sem)"
    and "available_bytes space \<le> total_bytes space" and "floor_percent (disk c) \<le> 100"
    and "unat (outstanding (disk c)) + unat (req_maximum_frame_bytes req) +
           max (unat (floor_bytes (disk c)))
             ((unat (total_bytes space) * floor_percent (disk c) + 99) div 100)
         \<le> unat (available_bytes space)"
  shows "t_stage (snd (poll_times 4 now (Ready (Inr space)) (fresh_holder req) c)) = AcquisitionLease \<and>
    t_held (snd (poll_times 4 now (Ready (Inr space)) (fresh_holder req) c)) =
      holds_nothing\<lparr>h_global := True, h_group := req_resource_group req,
        h_memory := req_maximum_frame_bytes req, h_disk := req_maximum_frame_bytes req\<rparr>"
proof -
  let ?n = "req_maximum_frame_bytes req"
  have d: "disk_commit ?n space (disk c) = ((disk c)\<lparr>outstanding := outstanding (disk c) + ?n\<rparr>, Inr ?n)"
    by (rule disk_commit_admits [OF assms(8-10)])
  have n: "?n \<noteq> 0" "\<not> capacity (memory c) < ?n" using assms(2,3) by auto
  show ?thesis
  proof (cases "req_resource_group req")
    case None
    then show ?thesis using assms(1,4-6) d n
      by (simp add: numeral_eq_Suc fresh_holder_def acquire_capture_def want_global_def want_group_def
          want_memory_def want_disk_def acquire_semaphore_def byte_reserve_def disk_reserve_def
          holds_nothing_def)
  next
    case (Some g)
    then obtain sem where "resource_groups c g = Some sem" "\<not> closed sem" "0 < permits sem"
      using assms(7) by blast
    then show ?thesis using assms(1,4-6) d n Some
      by (simp add: numeral_eq_Suc fresh_holder_def acquire_capture_def want_global_def want_group_def
          want_memory_def want_disk_def acquire_semaphore_def byte_reserve_def disk_reserve_def
          holds_nothing_def)
  qed
qed

theorem capture_admitted_witness:
  "t_stage (snd (poll_times 4 1 (Ready (Inr \<lparr>available_bytes = 60, total_bytes = 100\<rparr>))
     (fresh_holder demo_request) demo_controller)) = AcquisitionLease"
  using capture_admitted [of 1 demo_request demo_controller
      "\<lparr>available_bytes = 60, total_bytes = 100\<rparr>"]
    admission_controller_new_ok [OF demo_controller_new]
  by (simp add: demo_request_def demo_output_def demo_limits_def LimitsConfig_default_def
      demo_controller_def admission_controller_new_def byte_budget_new_def disk_budget_new_def
      semaphore_new_def)

end
