(* ===== verification/Supervisor.thy ===== *)
theory Supervisor
  imports Config_Data
begin

text \<open>
  The per-camera lifecycle of \<open>src/supervisor.rs\<close>: the lifecycle machine with its monotonic session
  generation, and the deterministic reconnect backoff. A \<open>Duration\<close> is its number of nanoseconds, at
  most \<open>duration_max\<close>. SHA-256 is a parameter; only the first two bytes of its output are used.

  Shown: legal runs of the lifecycle, that a session generation is never reused, and the exact bounds
  of every reconnect delay.
\<close>

section \<open>The lifecycle machine\<close>

datatype CameraLifecycleState =
    LDisabled | LConnecting | LOnline | LDegraded | LBackoff | LDraining | LStopped

fun lifecycle_can_transition_to :: "CameraLifecycleState \<Rightarrow> CameraLifecycleState \<Rightarrow> bool" where
  "lifecycle_can_transition_to LDisabled next = (next \<in> {LConnecting, LStopped})"
| "lifecycle_can_transition_to LConnecting next = (next \<in> {LOnline, LBackoff, LDraining})"
| "lifecycle_can_transition_to LOnline next = (next \<in> {LDegraded, LBackoff, LDraining})"
| "lifecycle_can_transition_to LDegraded next = (next \<in> {LOnline, LBackoff, LDraining})"
| "lifecycle_can_transition_to LBackoff next = (next \<in> {LConnecting, LDraining})"
| "lifecycle_can_transition_to LDraining next = (next \<in> {LDisabled, LStopped})"
| "lifecycle_can_transition_to LStopped next = False"

fun lifecycle_debug :: "CameraLifecycleState \<Rightarrow> string" where
  "lifecycle_debug LDisabled = ''Disabled''"
| "lifecycle_debug LConnecting = ''Connecting''"
| "lifecycle_debug LOnline = ''Online''"
| "lifecycle_debug LDegraded = ''Degraded''"
| "lifecycle_debug LBackoff = ''Backoff''"
| "lifecycle_debug LDraining = ''Draining''"
| "lifecycle_debug LStopped = ''Stopped''"

record LifecycleMachine =
  lm_state :: CameraLifecycleState
  lm_session_generation :: u64

definition lifecycle_new :: "bool \<Rightarrow> LifecycleMachine" where
  "lifecycle_new enabled =
     \<lparr>lm_state = (if enabled then LConnecting else LDisabled), lm_session_generation = 0\<rparr>"

definition transition ::
    "CameraLifecycleState \<Rightarrow> LifecycleMachine \<Rightarrow> LifecycleMachine \<times> u64 result" where
  "transition next m =
     (if \<not> lifecycle_can_transition_to (lm_state m) next
      then (m, Inl (CatalogError (''invalid camera lifecycle transition '' @
              lifecycle_debug (lm_state m) @ '' -> '' @ lifecycle_debug next)))
      else if lm_state m = LConnecting \<and> next = LOnline
      then (case checked_add (lm_session_generation m) 1 of
              None \<Rightarrow> (m, Inl (CatalogError ''camera session generation exhausted''))
            | Some g \<Rightarrow> (m\<lparr>lm_state := next, lm_session_generation := g\<rparr>, Inr g))
      else (m\<lparr>lm_state := next\<rparr>, Inr (lm_session_generation m)))"

section \<open>Reconnect backoff\<close>

definition nanos_per_second :: nat where "nanos_per_second = 1000000000"

definition duration_max :: nat where
  "duration_max = u64_max * nanos_per_second + 999999999"

definition duration_from_nanos :: "nat \<Rightarrow> nat" where
  "duration_from_nanos nanos =
     (let seconds = min (nanos div nanos_per_second) u64_max;
          subsecond = (if seconds = u64_max then 999999999 else nanos mod nanos_per_second)
      in seconds * nanos_per_second + subsecond)"

definition saturating_double :: "nat \<Rightarrow> nat \<Rightarrow> nat" where
  "saturating_double value attempt =
     duration_from_nanos (saturating_mul_u128 value (2 ^ min attempt 127))"

definition saturating_multiply :: "nat \<Rightarrow> nat \<Rightarrow> nat" where
  "saturating_multiply value multiplier =
     duration_from_nanos (saturating_mul_u128 value multiplier)"

datatype RetryClass = Transient | Permanent

record BackoffPolicy =
  bp_minimum :: nat
  bp_maximum :: nat

definition backoff_policy_new :: "nat \<Rightarrow> nat \<Rightarrow> BackoffPolicy result" where
  "backoff_policy_new minimum maximum =
     (if minimum = 0 \<or> maximum < minimum
      then Inl (ConfigError ''component.global.timeouts.reconnectBackoff''
              ''minimum must be positive and no greater than maximum'')
      else Inr \<lparr>bp_minimum = minimum, bp_maximum = maximum\<rparr>)"

text \<open>\<open>to_be_bytes\<close> of an unsigned integer of the given number of bytes.\<close>

definition be_bytes :: "nat \<Rightarrow> nat \<Rightarrow> 8 word list" where
  "be_bytes width n = map (\<lambda>i. of_nat (n div 256 ^ (width - 1 - i))) [0 ..< width]"

definition jitter_input :: "string \<Rightarrow> u64 \<Rightarrow> RetryClass \<Rightarrow> 32 word \<Rightarrow> 8 word list" where
  "jitter_input camera config_generation cls attempt =
     map (\<lambda>c. of_nat (of_char c)) camera @ [0] @ be_bytes 8 (unat config_generation) @
     [case cls of Transient \<Rightarrow> 0 | Permanent \<Rightarrow> 1] @ be_bytes 4 (unat attempt)"

definition backoff_base :: "BackoffPolicy \<Rightarrow> RetryClass \<Rightarrow> nat \<Rightarrow> nat" where
  "backoff_base p cls attempt =
     (let transient_base = min (saturating_double (bp_minimum p) attempt) (bp_maximum p)
      in case cls of
           Transient \<Rightarrow> transient_base
         | Permanent \<Rightarrow>
             (let permanent_floor =
                    min (max (saturating_multiply (bp_minimum p) 8) (10 * nanos_per_second))
                      (bp_maximum p)
              in max transient_base permanent_floor))"

definition backoff_delay ::
    "(8 word list \<Rightarrow> 8 word list) \<Rightarrow> BackoffPolicy \<Rightarrow> string \<Rightarrow> u64 \<Rightarrow> RetryClass \<Rightarrow> 32 word \<Rightarrow> nat" where
  "backoff_delay sha256 p camera config_generation cls attempt =
     (let base_nanos = backoff_base p cls (unat attempt);
          bytes = sha256 (jitter_input camera config_generation cls attempt);
          sample = unat (bytes ! 0) * 256 + unat (bytes ! 1);
          jitter_basis_points = sample mod 2001;
          jitter_nanos = saturating_mul_u128 base_nanos jitter_basis_points div 10000
      in duration_from_nanos (saturating_add_u128 base_nanos jitter_nanos))"

section \<open>Lifecycle properties\<close>

fun run_lifecycle :: "LifecycleMachine \<Rightarrow> CameraLifecycleState list \<Rightarrow> LifecycleMachine" where
  "run_lifecycle m [] = m"
| "run_lifecycle m (s # ss) = run_lifecycle (fst (transition s m)) ss"

definition is_live :: "CameraLifecycleState \<Rightarrow> bool" where
  "is_live s = (s = LOnline \<or> s = LDegraded)"

lemma transition_generation_mono:
  "lm_session_generation m \<le> lm_session_generation (fst (transition s m))"
proof -
  have "lm_session_generation m \<le> g" if "checked_add (lm_session_generation m) 1 = Some g" for g
    using that by (simp add: checked_add_Some_iff word_le_nat_alt)
  then show ?thesis by (auto simp: transition_def split: option.splits)
qed

lemma transition_to_live:
  assumes "\<not> is_live (lm_state m)" "is_live (lm_state (fst (transition s m)))"
  shows "lm_session_generation m < lm_session_generation (fst (transition s m))"
proof -
  have "lm_session_generation m < g" if "checked_add (lm_session_generation m) 1 = Some g" for g
    using that by (simp add: checked_add_Some_iff word_less_nat_alt)
  then show ?thesis using assms
    by (cases "lm_state m"; cases s) (auto simp: transition_def is_live_def split: option.splits)
qed

interpretation lifecycle: operation_system "\<lambda>m s. fst (transition s m)" "\<lambda>m. g \<le> lm_session_generation m"
  for g :: u64
  by unfold_locales (rule order_trans [OF _ transition_generation_mono])

lemma run_lifecycle_foldl: "run_lifecycle m ss = foldl (\<lambda>m s. fst (transition s m)) m ss"
  by (induction ss arbitrary: m) simp_all

lemma run_lifecycle_mono: "lm_session_generation m \<le> lm_session_generation (run_lifecycle m ss)"
  unfolding run_lifecycle_foldl by (rule lifecycle.run_inv) simp

lemma run_lifecycle_new_session:
  "\<not> is_live (lm_state m) \<Longrightarrow> is_live (lm_state (run_lifecycle m ss)) \<Longrightarrow>
     lm_session_generation m < lm_session_generation (run_lifecycle m ss)"
proof (induction ss arbitrary: m)
  case (Cons s ss)
  let ?m = "fst (transition s m)"
  show ?case
  proof (cases "is_live (lm_state ?m)")
    case True
    then have "lm_session_generation m < lm_session_generation ?m"
      using Cons.prems(1) by (intro transition_to_live)
    also have "\<dots> \<le> lm_session_generation (run_lifecycle ?m ss)" by (rule run_lifecycle_mono)
    finally show ?thesis by simp
  next
    case False
    have "lm_session_generation m \<le> lm_session_generation ?m" by (rule transition_generation_mono)
    also have "\<dots> < lm_session_generation (run_lifecycle ?m ss)"
      using Cons.IH [OF False] Cons.prems(2) by simp
    finally show ?thesis by simp
  qed
qed simp

lemma run_lifecycle_stopped: "lm_state m = LStopped \<Longrightarrow> run_lifecycle m ss = m"
  by (induction ss) (simp_all add: transition_def)

text \<open>A session generation is never reused: along any sequence of requested transitions, legal or
  not, the generation never decreases, it has strictly increased whenever a camera that had no usable
  session has one again, and a stopped machine never changes.\<close>

theorem session_generation_fresh:
  "lm_session_generation m \<le> lm_session_generation (run_lifecycle m ss) \<and>
   (\<not> is_live (lm_state m) \<and> is_live (lm_state (run_lifecycle m ss)) \<longrightarrow>
      lm_session_generation m < lm_session_generation (run_lifecycle m ss)) \<and>
   (lm_state m = LStopped \<longrightarrow> run_lifecycle m ss = m)"
  using run_lifecycle_mono run_lifecycle_new_session run_lifecycle_stopped by blast

theorem session_generation_fresh_witness:
  "is_live (lm_state (run_lifecycle (lifecycle_new True) [LOnline, LBackoff, LConnecting, LOnline])) \<and>
   0 < lm_session_generation (run_lifecycle (lifecycle_new True) [LOnline, LBackoff, LConnecting, LOnline])"
proof -
  have "is_live (lm_state (run_lifecycle (lifecycle_new True) [LOnline, LBackoff, LConnecting, LOnline]))"
    "\<not> is_live (lm_state (lifecycle_new True))" "lm_session_generation (lifecycle_new True) = 0"
    by (simp_all add: lifecycle_new_def transition_def is_live_def checked_add_def)
  then show ?thesis
    using session_generation_fresh [of "lifecycle_new True" "[LOnline, LBackoff, LConnecting, LOnline]"]
    by simp
qed

section \<open>Backoff bounds\<close>

lemma duration_from_nanos_eq:
  "duration_from_nanos n = (if n < u64_max * nanos_per_second then n else duration_max)"
proof (cases "n < u64_max * nanos_per_second")
  case True
  then have "n div nanos_per_second < u64_max"
    by (simp add: nanos_per_second_def div_less_iff_less_mult)
  then show ?thesis using True by (simp add: duration_from_nanos_def Let_def min_def)
next
  case False
  then have "u64_max \<le> n div nanos_per_second"
    by (simp add: nanos_per_second_def less_eq_div_iff_mult_less_eq)
  then show ?thesis using False by (simp add: duration_from_nanos_def Let_def duration_max_def min_def)
qed

lemma duration_max_less_u128: "u64_max * nanos_per_second < u128_max" "duration_max < u128_max"
  by (simp_all add: duration_max_def u64_max_def nanos_per_second_def u128_max_def)

text \<open>Below the bound that every practical maximum satisfies, clamping to the maximum hides all
  saturation.\<close>

lemma min_duration_from_nanos:
  assumes "m < u64_max * nanos_per_second"
  shows "min (duration_from_nanos (saturating_mul_u128 v k)) m = min (v * k) m"
  using assms duration_max_less_u128
  by (auto simp: duration_from_nanos_eq saturating_mul_u128_def min_def duration_max_def)

lemma two_power_127_large: "m < u64_max * nanos_per_second \<Longrightarrow> 0 < v \<Longrightarrow> m \<le> v * 2 ^ 127"
proof -
  assume m: "m < u64_max * nanos_per_second" and v: "0 < v"
  have "u64_max * nanos_per_second \<le> (2 :: nat) ^ 127" by (simp add: u64_max_def nanos_per_second_def)
  then have "m \<le> 1 * 2 ^ 127" using m by simp
  also have "\<dots> \<le> v * 2 ^ 127" using v by (intro mult_le_mono1) simp
  finally show ?thesis .
qed

lemma transient_base:
  assumes "m < u64_max * nanos_per_second" and "0 < v"
  shows "min (saturating_double v a) m = min (v * 2 ^ a) m"
proof (cases "a \<le> 127")
  case True
  then show ?thesis using min_duration_from_nanos [OF assms(1)]
    by (simp add: saturating_double_def min_absorb1)
next
  case False
  then have "(2 :: nat) ^ 127 \<le> 2 ^ a" by (intro power_increasing) simp_all
  then have "v * 2 ^ 127 \<le> v * 2 ^ a" by (rule mult_le_mono2)
  then have "m \<le> v * 2 ^ a" using two_power_127_large [OF assms] by linarith
  then show ?thesis using False two_power_127_large [OF assms] min_duration_from_nanos [OF assms(1)]
    by (simp add: saturating_double_def min_absorb2)
qed

lemma backoff_base_eq:
  assumes "bp_maximum p < u64_max * nanos_per_second" and "0 < bp_minimum p"
  shows "backoff_base p Transient a = min (bp_minimum p * 2 ^ a) (bp_maximum p)"
    and "backoff_base p Permanent a =
      min (max (bp_minimum p * 2 ^ a) (max (bp_minimum p * 8) (10 * nanos_per_second))) (bp_maximum p)"
proof -
  note tb = transient_base [OF assms]
  show "backoff_base p Transient a = min (bp_minimum p * 2 ^ a) (bp_maximum p)"
    by (simp add: backoff_base_def tb)
  have "min (saturating_multiply (bp_minimum p) 8) (bp_maximum p) = min (bp_minimum p * 8) (bp_maximum p)"
    unfolding saturating_multiply_def by (rule min_duration_from_nanos [OF assms(1)])
  then show "backoff_base p Permanent a =
      min (max (bp_minimum p * 2 ^ a) (max (bp_minimum p * 8) (10 * nanos_per_second))) (bp_maximum p)"
    unfolding backoff_base_def Let_def by (simp add: tb)
qed

lemma jitter_bound:
  assumes "b < u64_max * nanos_per_second" and "j \<le> 2000"
  shows "saturating_mul_u128 b j = b * j"
proof -
  have "b * j \<le> (u64_max * nanos_per_second) * 2000" using assms by (intro mult_le_mono) simp_all
  also have "\<dots> \<le> u128_max" by (simp add: u64_max_def nanos_per_second_def u128_max_def)
  finally show ?thesis by (simp add: saturating_mul_u128_def)
qed

text \<open>Reconnect delays are exponential, capped and jittered only upwards. For any hash function
  and any policy whose maximum stays below half the range of a duration, before jitter a transient
  failure waits exactly the minimum doubled per attempt up to the maximum, and a permanent one at
  least eight minima and ten seconds, up to the maximum; the jitter adds between zero and a fifth.
  No attempt number overflows.\<close>

theorem backoff_delay_bounds:
  assumes "backoff_policy_new minimum maximum = Inr p"
    and "2 * maximum \<le> u64_max * nanos_per_second"
    and "base = (case cls of
        Transient \<Rightarrow> min (minimum * 2 ^ unat attempt) maximum
      | Permanent \<Rightarrow> min (max (minimum * 2 ^ unat attempt)
                             (max (minimum * 8) (10 * nanos_per_second))) maximum)"
  shows "base \<le> backoff_delay sha256 p camera generation cls attempt \<and>
         backoff_delay sha256 p camera generation cls attempt \<le> base + base div 5 \<and>
         0 < backoff_delay sha256 p camera generation cls attempt"
proof -
  have p: "p = \<lparr>bp_minimum = minimum, bp_maximum = maximum\<rparr>" "0 < minimum" "minimum \<le> maximum"
    using assms(1) by (auto simp: backoff_policy_new_def split: if_splits)
  have big: "maximum < u64_max * nanos_per_second"
    using assms(2) p(2,3) by linarith
  have b: "backoff_base p cls (unat attempt) = base"
    using backoff_base_eq [of p "unat attempt"] big p assms(3) by (cases cls) simp_all
  have ble: "base \<le> maximum" using assms(3) by (cases cls) simp_all
  have "1 \<le> minimum * 2 ^ unat attempt" using p(2) by (simp add: Suc_leI)
  then have bpos: "0 < base" using assms(3) p(2,3) by (cases cls) (simp_all add: min_def max_def)
  define bytes where "bytes = sha256 (jitter_input camera generation cls attempt)"
  define j where "j = (unat (bytes ! 0) * 256 + unat (bytes ! 1)) mod 2001"
  have j: "j \<le> 2000" unfolding j_def using mod_less_divisor [of 2001] by (simp add: less_Suc_eq_le)
  have jit: "base * j div 10000 \<le> base div 5"
  proof -
    have "base * j div 10000 \<le> base * 2000 div 10000" using j by (intro div_le_mono mult_le_mono2)
    then show ?thesis by simp
  qed
  have total: "base + base * j div 10000 < u64_max * nanos_per_second"
    using jit ble assms(2) bpos by linarith
  have "backoff_delay sha256 p camera generation cls attempt =
      duration_from_nanos (saturating_add_u128 base (saturating_mul_u128 base j div 10000))"
    by (simp only: backoff_delay_def Let_def b bytes_def j_def)
  also have "\<dots> = base + base * j div 10000"
    using jitter_bound [of base j] j ble big total duration_max_less_u128
    by (simp add: saturating_add_u128_def duration_from_nanos_eq)
  finally have "backoff_delay sha256 p camera generation cls attempt = base + base * j div 10000" .
  then show ?thesis using jit bpos by simp
qed

theorem backoff_delay_bounds_witness:
  "backoff_delay (\<lambda>_. [255, 255]) \<lparr>bp_minimum = 1000, bp_maximum = 60000\<rparr> ''cam'' 1 Transient 3
     \<le> 8000 + 8000 div 5"
  using backoff_delay_bounds [where minimum = 1000 and maximum = 60000 and attempt = 3 and
      p = "\<lparr>bp_minimum = 1000, bp_maximum = 60000\<rparr>" and base = 8000 and cls = Transient]
  by (simp add: backoff_policy_new_def u64_max_def nanos_per_second_def)

end
