(* ===== verification/Registry.thy ===== *)
theory Registry
  imports Config_Data
begin

text \<open>
  The camera roster of \<open>src/registry.rs\<close>: one entry per configured camera with its configuration and
  its latest status snapshot, ordered by camera identifier. The capability record of a backend is a
  type parameter, and its digest (JSON encoding and SHA-256) a function argument that may fail. The
  lock is poisoned by a panicking writer; every operation then fails. Clock readings are arguments.

  An observation (\<open>update\<close>) runs under the shared lock: it reads the prior snapshot, decides, and
  replaces the snapshot. Both halves are definitions, because observations of several supervisors
  can interleave between them.

  Shown: what one observation may change, that a whole-roster replacement is exact, the addressing
  rules, and the interleaving that lets a stale generation overwrite a newer one.
\<close>

section \<open>State\<close>

datatype CameraConnectionState =
  CDisabled | COffline | CConnecting | COnline | CDegraded | CBackoff | CStopping

record CameraStatusError =
  se_code :: string
  se_message :: string
  se_observed_at :: int

record 'c CameraSnapshot =
  cs_instance :: string
  cs_enabled :: bool
  cs_backend :: BackendKind
  cs_generation :: u64
  cs_state :: CameraConnectionState
  cs_capabilities :: "'c option"
  cs_capabilities_digest :: "string option"
  cs_connected_at :: "int option"
  cs_last_error :: "CameraStatusError option"
  cs_updated_at :: int

record 'c RegistryEntry =
  re_config :: CameraConfig
  re_snapshot :: "'c CameraSnapshot"

record 'c CameraRegistry =
  reg_entries :: "(string \<times> 'c RegistryEntry) list"
  reg_poisoned :: bool

record RegistryDiff =
  diff_added :: "string list"
  diff_removed :: "string list"
  diff_lifecycle_changed :: "string list"
  diff_updated :: "string list"

section \<open>Operations\<close>

definition initial_snapshot :: "int \<Rightarrow> CameraConfig \<Rightarrow> 'c CameraSnapshot" where
  "initial_snapshot now camera =
     \<lparr>cs_instance = cam_id camera, cs_enabled = cam_enabled camera,
      cs_backend = backend_config_kind (cam_backend camera), cs_generation = 0,
      cs_state = (if cam_enabled camera then COffline else CDisabled), cs_capabilities = None,
      cs_capabilities_digest = None, cs_connected_at = None, cs_last_error = None,
      cs_updated_at = now\<rparr>"

definition duplicate_ids :: camera_error where
  "duplicate_ids = ConfigError ''component.instances'' ''camera IDs must be unique''"

fun registry_new_loop ::
    "int \<Rightarrow> (string \<times> 'c RegistryEntry) list \<Rightarrow> CameraConfig list \<Rightarrow>
     (string \<times> 'c RegistryEntry) list result" where
  "registry_new_loop now entries [] = Inr entries"
| "registry_new_loop now entries (camera # cameras) =
     (let entries' = bt_insert (cam_id camera)
            \<lparr>re_config = camera, re_snapshot = initial_snapshot now camera\<rparr> entries
      in if map_of entries (cam_id camera) \<noteq> None then Inl duplicate_ids
         else registry_new_loop now entries' cameras)"

definition registry_new :: "int \<Rightarrow> AdapterConfig \<Rightarrow> 'c CameraRegistry result" where
  "registry_new now cfg =
     and_then (registry_new_loop now [] (ad_instances cfg))
       (\<lambda>entries. Inr \<lparr>reg_entries = entries, reg_poisoned = False\<rparr>)"

definition read_entries :: "'c CameraRegistry \<Rightarrow> (string \<times> 'c RegistryEntry) list result" where
  "read_entries r = (if reg_poisoned r
     then Inl (CatalogError ''camera registry read lock poisoned'') else Inr (reg_entries r))"

definition write_entries :: "'c CameraRegistry \<Rightarrow> (string \<times> 'c RegistryEntry) list result" where
  "write_entries r = (if reg_poisoned r
     then Inl (CatalogError ''camera registry write lock poisoned'') else Inr (reg_entries r))"

definition registry_ids :: "'c CameraRegistry \<Rightarrow> string list result" where
  "registry_ids r = and_then (read_entries r) (\<lambda>entries. Inr (map fst entries))"

definition snapshots :: "nat \<Rightarrow> 'c CameraRegistry \<Rightarrow> 'c CameraSnapshot list result" where
  "snapshots maximum r =
     (if maximum = 0 then Inr []
      else and_then (read_entries r) (\<lambda>entries. Inr (map (re_snapshot \<circ> snd) (take maximum entries))))"

definition no_such_instance :: "string \<Rightarrow> camera_error" where
  "no_such_instance camera =
     Rejected NoSuchInstance (''camera instance '' @ [CHR 0x27] @ camera @ [CHR 0x27] @ '' is not configured'')"

definition registry_snapshot :: "string \<Rightarrow> 'c CameraRegistry \<Rightarrow> 'c CameraSnapshot result" where
  "registry_snapshot camera r =
     and_then (read_entries r) (\<lambda>entries.
       ok_or (map_option re_snapshot (map_of entries camera)) (no_such_instance camera))"

definition camera_config :: "string \<Rightarrow> 'c CameraRegistry \<Rightarrow> CameraConfig result" where
  "camera_config camera r =
     and_then (read_entries r) (\<lambda>entries.
       ok_or (map_option re_config (map_of entries camera)) (no_such_instance camera))"

text \<open>The single-camera omission rule.\<close>

definition requested_instance :: "string option \<Rightarrow> (string \<times> 'c RegistryEntry) list \<Rightarrow> string result" where
  "requested_instance requested entries =
     (case requested of
        Some camera \<Rightarrow> Inr camera
      | None \<Rightarrow>
          (if length entries = 1
           then ok_or (case entries of [] \<Rightarrow> None | (k, _) # _ \<Rightarrow> Some k)
                  (CatalogError ''registry changed during lookup'')
           else Inl (Rejected BadArgs
                  ''instance is required when more than one camera is configured'')))"

definition resolve_instance :: "string option \<Rightarrow> 'c CameraRegistry \<Rightarrow> string result" where
  "resolve_instance requested r =
     and_then (read_entries r) (\<lambda>entries.
       and_then (requested_instance requested entries) (\<lambda>camera.
         if map_of entries camera = None then Inl (no_such_instance camera) else Inr camera))"

definition resolve_actuation_instance :: "string option \<Rightarrow> 'c CameraRegistry \<Rightarrow> string result" where
  "resolve_actuation_instance requested r =
     and_then (read_entries r) (\<lambda>entries.
       and_then (requested_instance requested entries) (\<lambda>camera.
         and_then (ok_or (map_of entries camera) (no_such_instance camera)) (\<lambda>entry.
           if \<not> cam_enabled (re_config entry)
           then Inl (Rejected CameraDisabled
                  (''camera instance '' @ [CHR 0x27] @ camera @ [CHR 0x27] @ '' is disabled''))
           else Inr camera)))"

text \<open>One supervisor observation.\<close>

record 'c Observation =
  ob_instance :: string
  ob_generation :: u64
  ob_state :: CameraConnectionState
  ob_capabilities :: "'c option"
  ob_last_error :: "CameraStatusError option"
  ob_observed_at :: int

definition observed_connected_at :: "'c Observation \<Rightarrow> 'c CameraSnapshot \<Rightarrow> int option" where
  "observed_connected_at ob prior =
     (if ob_state ob = COnline
      then if cs_state prior = COnline \<and> cs_generation prior = ob_generation ob
           then cs_connected_at prior else Some (ob_observed_at ob)
      else cs_connected_at prior)"

text \<open>The first half: the snapshot to publish, or \<open>None\<close> when the observation is dropped.\<close>

definition update_prepare ::
    "('c \<Rightarrow> string result) \<Rightarrow> 'c Observation \<Rightarrow> 'c CameraRegistry \<Rightarrow> 'c CameraSnapshot option result" where
  "update_prepare digest ob r =
     and_then (read_entries r) (\<lambda>entries.
       case map_of entries (ob_instance ob) of
         None \<Rightarrow> Inr None
       | Some entry \<Rightarrow>
           (let prior = re_snapshot entry in
            if ob_generation ob < cs_generation prior then Inr None
            else if \<not> cam_enabled (re_config entry) \<and> ob_state ob \<noteq> CDisabled then Inr None
            else and_then (case ob_capabilities ob of None \<Rightarrow> Inr None
                           | Some caps \<Rightarrow> and_then (digest caps) (\<lambda>d. Inr (Some d))) (\<lambda>d.
              Inr (Some \<lparr>cs_instance = ob_instance ob, cs_enabled = cam_enabled (re_config entry),
                cs_backend = backend_config_kind (cam_backend (re_config entry)),
                cs_generation = ob_generation ob, cs_state = ob_state ob,
                cs_capabilities = ob_capabilities ob, cs_capabilities_digest = d,
                cs_connected_at = observed_connected_at ob prior, cs_last_error = ob_last_error ob,
                cs_updated_at = ob_observed_at ob\<rparr>))))"

text \<open>The second half, \<open>send_replace\<close> on the entry's channel.\<close>

definition set_snapshot ::
    "string \<Rightarrow> 'c CameraSnapshot \<Rightarrow> (string \<times> 'c RegistryEntry) list \<Rightarrow> (string \<times> 'c RegistryEntry) list" where
  "set_snapshot camera snap entries =
     map (\<lambda>(k, e). if k = camera then (k, e\<lparr>re_snapshot := snap\<rparr>) else (k, e)) entries"

definition update_publish :: "string \<Rightarrow> 'c CameraSnapshot \<Rightarrow> 'c CameraRegistry \<Rightarrow> 'c CameraRegistry" where
  "update_publish camera snap r = r\<lparr>reg_entries := set_snapshot camera snap (reg_entries r)\<rparr>"

definition registry_update ::
    "('c \<Rightarrow> string result) \<Rightarrow> 'c Observation \<Rightarrow> 'c CameraRegistry \<Rightarrow> 'c CameraRegistry \<times> bool result" where
  "registry_update digest ob r =
     (case update_prepare digest ob r of
        Inl e \<Rightarrow> (r, Inl e)
      | Inr None \<Rightarrow> (r, Inr False)
      | Inr (Some snap) \<Rightarrow> (update_publish (ob_instance ob) snap r, Inr True))"

text \<open>The replacement of the roster: one incoming camera, the loop over all of them, the removals.\<close>

definition replaced_snapshot :: "int \<Rightarrow> CameraConfig \<Rightarrow> 'c CameraSnapshot \<Rightarrow> 'c CameraSnapshot" where
  "replaced_snapshot now camera prior =
     \<lparr>cs_instance = cam_id camera, cs_enabled = cam_enabled camera,
      cs_backend = backend_config_kind (cam_backend camera),
      cs_generation = saturating_add_u64 (cs_generation prior) 1,
      cs_state = (if cam_enabled camera then CStopping else CDisabled), cs_capabilities = None,
      cs_capabilities_digest = None, cs_connected_at = cs_connected_at prior, cs_last_error = None,
      cs_updated_at = now\<rparr>"

definition lifecycle_differs :: "CameraConfig \<Rightarrow> CameraConfig \<Rightarrow> bool" where
  "lifecycle_differs old new =
     (cam_enabled old \<noteq> cam_enabled new \<or> cam_backend old \<noteq> cam_backend new)"

definition apply_camera ::
    "int \<Rightarrow> CameraConfig \<Rightarrow> (string \<times> 'c RegistryEntry) list \<times> RegistryDiff \<Rightarrow>
     (string \<times> 'c RegistryEntry) list \<times> RegistryDiff" where
  "apply_camera now camera acc =
     (case acc of (entries, diff) \<Rightarrow>
        case map_of entries (cam_id camera) of
          None \<Rightarrow>
            (bt_insert (cam_id camera)
               \<lparr>re_config = camera, re_snapshot = initial_snapshot now camera\<rparr> entries,
             diff\<lparr>diff_added := diff_added diff @ [cam_id camera]\<rparr>)
        | Some entry \<Rightarrow>
            if lifecycle_differs (re_config entry) camera
            then (bt_insert (cam_id camera)
                    \<lparr>re_config = camera, re_snapshot = replaced_snapshot now camera (re_snapshot entry)\<rparr>
                    entries,
                  diff\<lparr>diff_lifecycle_changed := diff_lifecycle_changed diff @ [cam_id camera]\<rparr>)
            else (bt_insert (cam_id camera)
                    \<lparr>re_config = camera, re_snapshot = re_snapshot entry\<rparr> entries,
                  diff\<lparr>diff_updated := diff_updated diff @ [cam_id camera]\<rparr>))"

definition apply_validated_config ::
    "int \<Rightarrow> AdapterConfig \<Rightarrow> 'c CameraRegistry \<Rightarrow> 'c CameraRegistry \<times> RegistryDiff result" where
  "apply_validated_config now cfg r =
     (case write_entries r of
        Inl e \<Rightarrow> (r, Inl e)
      | Inr entries \<Rightarrow>
          if \<not> distinct (map cam_id (ad_instances cfg)) then (r, Inl duplicate_ids)
          else let removed = filter (\<lambda>k. k \<notin> set (map cam_id (ad_instances cfg))) (map fst entries);
                   (entries', diff) = fold (apply_camera now) (ad_instances cfg)
                     (entries, \<lparr>diff_added = [], diff_removed = removed,
                                diff_lifecycle_changed = [], diff_updated = []\<rparr>)
               in (r\<lparr>reg_entries := fold bt_remove (diff_removed diff) entries'\<rparr>, Inr diff))"

section \<open>Invariant\<close>

text \<open>Keys are ascending, every entry is filed under its own identifier, its snapshot tells the
  configured enabled flag, and a disabled camera is never shown in any other state.\<close>

definition entry_ok :: "string \<Rightarrow> 'c RegistryEntry \<Rightarrow> bool" where
  "entry_ok k e \<longleftrightarrow> cam_id (re_config e) = k \<and> cs_instance (re_snapshot e) = k \<and>
     cs_enabled (re_snapshot e) = cam_enabled (re_config e) \<and>
     (\<not> cam_enabled (re_config e) \<longrightarrow> cs_state (re_snapshot e) = CDisabled)"

definition registry_inv :: "'c CameraRegistry \<Rightarrow> bool" where
  "registry_inv r \<longleftrightarrow> bt_sorted (reg_entries r) \<and>
     (\<forall>k e. map_of (reg_entries r) k = Some e \<longrightarrow> entry_ok k e)"

lemma set_snapshot_keys [simp]: "map fst (set_snapshot camera snap entries) = map fst entries"
  by (induction entries) (auto simp: set_snapshot_def)

lemma map_of_set_snapshot:
  "map_of (set_snapshot camera snap entries) k =
     (if k = camera then map_option (\<lambda>e. e\<lparr>re_snapshot := snap\<rparr>) (map_of entries k)
      else map_of entries k)"
  by (induction entries) (auto simp: set_snapshot_def)

text \<open>What a prepared snapshot says about the entry it was computed from.\<close>

lemma update_prepare_Some:
  assumes "update_prepare digest ob r = Inr (Some snap)"
  shows "\<exists>e. map_of (reg_entries r) (ob_instance ob) = Some e \<and>
    cs_generation (re_snapshot e) \<le> ob_generation ob \<and>
    (cam_enabled (re_config e) \<or> ob_state ob = CDisabled) \<and>
    cs_instance snap = ob_instance ob \<and> cs_enabled snap = cam_enabled (re_config e) \<and>
    cs_generation snap = ob_generation ob \<and> cs_state snap = ob_state ob \<and>
    cs_capabilities snap = ob_capabilities ob \<and>
    cs_connected_at snap = observed_connected_at ob (re_snapshot e)"
  using assms
  by (auto simp: update_prepare_def read_entries_def and_then_Inr_iff Let_def
      split: option.splits if_splits)

lemma registry_update_inv [inv_intros]:
  assumes "registry_inv r" shows "registry_inv (fst (registry_update digest ob r))"
proof (cases "\<exists>snap. update_prepare digest ob r = Inr (Some snap)")
  case True
  then obtain snap where snap: "update_prepare digest ob r = Inr (Some snap)" by blast
  from update_prepare_Some [OF this] obtain e where e: "map_of (reg_entries r) (ob_instance ob) = Some e"
    "cam_enabled (re_config e) \<or> ob_state ob = CDisabled" "cs_instance snap = ob_instance ob"
    "cs_enabled snap = cam_enabled (re_config e)" "cs_state snap = ob_state ob" by blast
  have "entry_ok (ob_instance ob) e" using assms e(1) by (simp add: registry_inv_def)
  then show ?thesis
    using assms e snap
    by (auto simp: registry_inv_def registry_update_def update_publish_def map_of_set_snapshot
        bt_sorted_def entry_ok_def)
next
  case False
  then show ?thesis using assms by (auto simp: registry_update_def split: sum.splits option.splits)
qed

section \<open>Replacing the roster\<close>

definition apply_result :: "int \<Rightarrow> CameraConfig \<Rightarrow> 'c RegistryEntry option \<Rightarrow> 'c RegistryEntry" where
  "apply_result now camera old =
     (case old of
        None \<Rightarrow> \<lparr>re_config = camera, re_snapshot = initial_snapshot now camera\<rparr>
      | Some e \<Rightarrow>
          if lifecycle_differs (re_config e) camera
          then \<lparr>re_config = camera, re_snapshot = replaced_snapshot now camera (re_snapshot e)\<rparr>
          else \<lparr>re_config = camera, re_snapshot = re_snapshot e\<rparr>)"

lemma apply_camera_entries:
  "map_of (fst (apply_camera now c (entries, diff))) =
     (map_of entries)(cam_id c \<mapsto> apply_result now c (map_of entries (cam_id c)))"
  by (auto simp: apply_camera_def apply_result_def split: option.splits)

lemma apply_camera_sorted: "bt_sorted entries \<Longrightarrow> bt_sorted (fst (apply_camera now c (entries, diff)))"
  by (auto simp: apply_camera_def split: option.splits)

lemma apply_result_ok:
  "old = None \<or> (\<exists>e. old = Some e \<and> entry_ok (cam_id c) e) \<Longrightarrow> entry_ok (cam_id c) (apply_result now c old)"
  by (auto simp: apply_result_def entry_ok_def initial_snapshot_def replaced_snapshot_def
      lifecycle_differs_def split: if_splits)

definition survivors :: "(CameraConfig \<Rightarrow> CameraConfig \<Rightarrow> bool) \<Rightarrow> (string \<times> 'c RegistryEntry) list \<Rightarrow>
    CameraConfig list \<Rightarrow> string list" where
  "survivors p entries cams =
     map cam_id (filter (\<lambda>c. case map_of entries (cam_id c) of None \<Rightarrow> False
                           | Some e \<Rightarrow> p (re_config e) c) cams)"

definition newcomers :: "(string \<times> 'c RegistryEntry) list \<Rightarrow> CameraConfig list \<Rightarrow> string list" where
  "newcomers entries cams = map cam_id (filter (\<lambda>c. map_of entries (cam_id c) = None) cams)"

lemma fold_apply_spec:
  assumes "distinct (map cam_id cams)"
  shows "map_of (fst (fold (apply_camera now) cams (entries, diff))) k =
      (case find (\<lambda>c. cam_id c = k) cams of None \<Rightarrow> map_of entries k
       | Some c \<Rightarrow> Some (apply_result now c (map_of entries k))) \<and>
    (bt_sorted entries \<longrightarrow> bt_sorted (fst (fold (apply_camera now) cams (entries, diff)))) \<and>
    snd (fold (apply_camera now) cams (entries, diff)) =
      \<lparr>diff_added = diff_added diff @ newcomers entries cams, diff_removed = diff_removed diff,
       diff_lifecycle_changed = diff_lifecycle_changed diff @ survivors lifecycle_differs entries cams,
       diff_updated = diff_updated diff @ survivors (\<lambda>a b. \<not> lifecycle_differs a b) entries cams\<rparr>"
  using assms
proof (induction cams arbitrary: entries diff)
  case (Cons c cams)
  let ?acc = "apply_camera now c (entries, diff)"
  obtain es d where acc: "?acc = (es, d)" by fastforce
  have es: "map_of es = (map_of entries)(cam_id c \<mapsto> apply_result now c (map_of entries (cam_id c)))"
    using apply_camera_entries [of now c entries diff] acc by simp
  have srt: "bt_sorted entries \<longrightarrow> bt_sorted es"
    using apply_camera_sorted [of entries now c diff] acc by simp
  have other: "map_of es (cam_id c') = map_of entries (cam_id c')" if "c' \<in> set cams" for c'
  proof -
    have "cam_id c' \<noteq> cam_id c" using that Cons.prems by (metis distinct.simps(2) image_eqI list.set_map list.simps(9))
    then show ?thesis by (simp add: es)
  qed
  have same: "newcomers es cams = newcomers entries cams"
    "survivors p es cams = survivors p entries cams" for p
    using other by (auto simp: newcomers_def survivors_def cong: filter_cong)
  have d: "d = \<lparr>diff_added = diff_added diff @ newcomers entries [c], diff_removed = diff_removed diff,
       diff_lifecycle_changed = diff_lifecycle_changed diff @ survivors lifecycle_differs entries [c],
       diff_updated = diff_updated diff @ survivors (\<lambda>a b. \<not> lifecycle_differs a b) entries [c]\<rparr>"
    using acc by (auto simp: apply_camera_def newcomers_def survivors_def split: option.splits if_splits)
  have snoc: "newcomers entries (c # cams) = newcomers entries [c] @ newcomers entries cams"
    "survivors p entries (c # cams) = survivors p entries [c] @ survivors p entries cams" for p
    by (simp_all add: newcomers_def survivors_def)
  have nf: "find (\<lambda>x. cam_id x = cam_id c) cams = None"
    using Cons.prems by (simp add: find_None_iff image_iff) metis
  have dist: "distinct (map cam_id cams)" using Cons.prems by simp
  show ?case
    using Cons.IH [OF dist, of es d] srt es nf
    by (auto simp: acc same snoc d split: option.splits)
qed (simp add: newcomers_def survivors_def)

lemma map_of_fold_remove:
  "map_of (fold bt_remove ks m) k = (if k \<in> set ks then None else map_of m k)"
  by (induction ks arbitrary: m) auto

lemma bt_sorted_fold_remove: "bt_sorted m \<Longrightarrow> bt_sorted (fold bt_remove ks m)"
  by (induction ks arbitrary: m) auto

lemma find_distinct_id:
  "distinct (map cam_id cams) \<Longrightarrow> c \<in> set cams \<Longrightarrow> find (\<lambda>x. cam_id x = cam_id c) cams = Some c"
  by (induction cams) auto

lemma find_no_id: "k \<notin> set (map cam_id cams) \<Longrightarrow> find (\<lambda>x. cam_id x = k) cams = None"
  by (auto simp: find_None_iff)

text \<open>Replacing the roster is exact. Afterwards exactly the incoming cameras are configured, each
  under its new configuration; a camera whose enabled flag or backend settings changed starts over
  with the next generation and no capabilities, any other surviving camera keeps its snapshot; and the
  four lists of the returned difference are precisely the new, the vanished, the restarted and the
  merely updated cameras. The registry invariant is kept.\<close>

theorem roster_replacement_exact:
  assumes inv: "registry_inv r" and ok: "apply_validated_config now cfg r = (r', Inr diff)"
  shows "registry_inv r' \<and> set (map fst (reg_entries r')) = set (map cam_id (ad_instances cfg)) \<and>
    (\<forall>c \<in> set (ad_instances cfg). map_of (reg_entries r') (cam_id c) =
       Some (apply_result now c (map_of (reg_entries r) (cam_id c)))) \<and>
    diff = \<lparr>diff_added = newcomers (reg_entries r) (ad_instances cfg),
      diff_removed = filter (\<lambda>k. k \<notin> set (map cam_id (ad_instances cfg))) (map fst (reg_entries r)),
      diff_lifecycle_changed = survivors lifecycle_differs (reg_entries r) (ad_instances cfg),
      diff_updated = survivors (\<lambda>a b. \<not> lifecycle_differs a b) (reg_entries r) (ad_instances cfg)\<rparr>"
proof -
  let ?cams = "ad_instances cfg"
  let ?removed = "filter (\<lambda>k. k \<notin> set (map cam_id ?cams)) (map fst (reg_entries r))"
  let ?d0 = "\<lparr>diff_added = [], diff_removed = ?removed, diff_lifecycle_changed = [], diff_updated = []\<rparr>"
  let ?f = "fold (apply_camera now) ?cams (reg_entries r, ?d0)"
  have dist: "distinct (map cam_id ?cams)"
    using ok by (auto simp: apply_validated_config_def split: sum.splits if_splits)
  note spec = fold_apply_spec [OF dist, of now "reg_entries r" ?d0]
  have diff: "diff = snd ?f" and r': "reg_entries r' = fold bt_remove (diff_removed diff) (fst ?f)"
    using ok dist by (auto simp: apply_validated_config_def write_entries_def Let_def split_beta
        split: sum.splits if_splits)
  have d: "diff = \<lparr>diff_added = newcomers (reg_entries r) ?cams, diff_removed = ?removed,
      diff_lifecycle_changed = survivors lifecycle_differs (reg_entries r) ?cams,
      diff_updated = survivors (\<lambda>a b. \<not> lifecycle_differs a b) (reg_entries r) ?cams\<rparr>"
    using spec by (simp add: diff)
  have entry: "map_of (reg_entries r') k =
      (if k \<in> set ?removed then None
       else case find (\<lambda>c. cam_id c = k) ?cams of None \<Rightarrow> map_of (reg_entries r) k
            | Some c \<Rightarrow> Some (apply_result now c (map_of (reg_entries r) k)))" for k
    using spec [of k] d by (simp add: r' map_of_fold_remove)
  have new: "map_of (reg_entries r') (cam_id c) =
      Some (apply_result now c (map_of (reg_entries r) (cam_id c)))" if "c \<in> set ?cams" for c
    using that by (simp add: entry find_distinct_id [OF dist that])
  have gone: "map_of (reg_entries r') k = None" if "k \<notin> set (map cam_id ?cams)" for k
    using that by (auto simp: entry find_no_id map_of_eq_None_iff image_iff)
  have "entry_ok k e" if e: "map_of (reg_entries r') k = Some e" for k e
  proof -
    obtain c where c: "c \<in> set ?cams" "k = cam_id c" using gone [of k] e by force
    have "e = apply_result now c (map_of (reg_entries r) k)" using new [OF c(1)] c(2) e by simp
    then show ?thesis
      using inv c(2) apply_result_ok [of "map_of (reg_entries r) k" c now]
      by (cases "map_of (reg_entries r) k") (auto simp: registry_inv_def)
  qed
  moreover have "bt_sorted (reg_entries r')"
    using inv spec by (simp add: r' bt_sorted_fold_remove registry_inv_def)
  moreover have "k \<in> set (map fst (reg_entries r')) \<longleftrightarrow> k \<in> set (map cam_id ?cams)" for k
  proof -
    have "map_of (reg_entries r') k \<noteq> None \<longleftrightarrow> k \<in> set (map cam_id ?cams)"
      using new gone by force
    then show ?thesis by (simp add: map_of_eq_None_iff)
  qed
  ultimately have "registry_inv r' \<and> set (map fst (reg_entries r')) = set (map cam_id ?cams)"
    unfolding registry_inv_def by blast
  then show ?thesis using new d by blast
qed

section \<open>Observations\<close>

text \<open>What one observation, run without interference, can do: it leaves every other camera
  alone, never lowers the camera's generation, never shows a disabled camera in another state than
  disabled, keeps the registry invariant, and when it reports success the snapshot has exactly the
  observed generation and state, with the connection time kept while the same session stays online.\<close>

theorem observation_generation_safe:
  assumes "registry_inv r" and "map_of (reg_entries r) k = Some e"
  shows "\<exists>e'. map_of (reg_entries (fst (registry_update digest ob r))) k = Some e' \<and>
      registry_inv (fst (registry_update digest ob r)) \<and> re_config e' = re_config e \<and>
      (k \<noteq> ob_instance ob \<longrightarrow> e' = e) \<and>
      cs_generation (re_snapshot e) \<le> cs_generation (re_snapshot e') \<and>
      (\<not> cam_enabled (re_config e) \<longrightarrow> cs_state (re_snapshot e') = CDisabled) \<and>
      (k = ob_instance ob \<and> snd (registry_update digest ob r) = Inr True \<longrightarrow>
         cs_generation (re_snapshot e') = ob_generation ob \<and> cs_state (re_snapshot e') = ob_state ob \<and>
         cs_connected_at (re_snapshot e') = observed_connected_at ob (re_snapshot e))"
proof -
  have dis: "\<not> cam_enabled (re_config e) \<longrightarrow> cs_state (re_snapshot e) = CDisabled"
    using assms unfolding registry_inv_def entry_ok_def by blast
  note inv = registry_update_inv [OF assms(1), of digest ob]
  show ?thesis
  proof (cases "\<exists>snap. update_prepare digest ob r = Inr (Some snap)")
    case True
    then obtain snap where snap: "update_prepare digest ob r = Inr (Some snap)" by blast
    then have upd: "registry_update digest ob r = (update_publish (ob_instance ob) snap r, Inr True)"
      by (simp add: registry_update_def)
    show ?thesis
    proof (cases "k = ob_instance ob")
      case True
      then show ?thesis using update_prepare_Some [OF snap] assms inv
        by (auto simp: upd update_publish_def map_of_set_snapshot)
    next
      case False
      then show ?thesis using assms(2) inv dis by (simp add: upd update_publish_def map_of_set_snapshot)
    qed
  next
    case False
    then have "registry_update digest ob r = (r, Inr False) \<or> (\<exists>x. registry_update digest ob r = (r, Inl x))"
      by (auto simp: registry_update_def split: sum.splits option.splits)
    then have "fst (registry_update digest ob r) = r" "snd (registry_update digest ob r) \<noteq> Inr True"
      by auto
    then show ?thesis using assms dis by simp
  qed
qed

definition demo_reg_camera :: CameraConfig where
  "demo_reg_camera = \<lparr>cam_id = ''a'', cam_enabled = True, cam_resource_group = None,
     cam_backend = RtspCfg \<lparr>rtsp_url = ''rtsps://h/s'', rtsp_credentials = None,
       rtsp_tls = \<lparr>tls_ca = None, verify_hostname = True\<rparr>, rtsp_allow_insecure = False,
       rtsp_allowed_uri_hosts = [], rtsp_session_policy = OnDemand, rtsp_capture_mode = RtspFrame,
       rtsp_max_frame_bytes = 1048576, rtsp_authentication_mode = Auth_Auto\<rparr>,
     default_capture_profile = ''p'', capture_profiles = [], cam_schedules = [],
     cam_ptz = PtzConfig_default\<rparr>"

definition demo_registry :: "unit CameraRegistry" where
  "demo_registry = \<lparr>reg_entries = [(''a'', \<lparr>re_config = demo_reg_camera,
     re_snapshot = initial_snapshot 0 demo_reg_camera\<rparr>)], reg_poisoned = False\<rparr>"

definition demo_observation :: "u64 \<Rightarrow> unit Observation" where
  "demo_observation g = \<lparr>ob_instance = ''a'', ob_generation = g, ob_state = COnline,
     ob_capabilities = None, ob_last_error = None, ob_observed_at = 5\<rparr>"

lemma demo_registry_inv: "registry_inv demo_registry"
  by (simp add: registry_inv_def demo_registry_def bt_sorted_def entry_ok_def initial_snapshot_def
      demo_reg_camera_def)

theorem observation_generation_safe_witness:
  "\<exists>e'. map_of (reg_entries (fst (registry_update (\<lambda>_. Inr []) (demo_observation 1) demo_registry))) ''a''
      = Some e' \<and> cs_generation (re_snapshot e') = 1 \<and> cs_state (re_snapshot e') = COnline"
proof -
  have e: "map_of (reg_entries demo_registry) ''a'' =
      Some \<lparr>re_config = demo_reg_camera, re_snapshot = initial_snapshot 0 demo_reg_camera\<rparr>"
    by (simp add: demo_registry_def)
  have "snd (registry_update (\<lambda>_. Inr []) (demo_observation 1) demo_registry) = Inr True"
    by (simp add: registry_update_def update_prepare_def read_entries_def demo_registry_def
        demo_observation_def initial_snapshot_def demo_reg_camera_def Let_def)
  then show ?thesis
    using observation_generation_safe [OF demo_registry_inv e, of "\<lambda>_. Inr []" "demo_observation 1"]
    by (auto simp: demo_observation_def)
qed

theorem roster_replacement_exact_witness:
  "set (map fst (reg_entries (fst (apply_validated_config 7
      \<lparr>ad_global = undefined, ad_instances = [demo_reg_camera\<lparr>cam_id := ''b''\<rparr>]\<rparr> demo_registry)))) = {''b''}"
proof -
  let ?cfg = "\<lparr>ad_global = undefined, ad_instances = [demo_reg_camera\<lparr>cam_id := ''b''\<rparr>]\<rparr>"
  obtain diff where "apply_validated_config 7 ?cfg demo_registry =
      (fst (apply_validated_config 7 ?cfg demo_registry), Inr diff)"
    by (simp add: apply_validated_config_def write_entries_def demo_registry_def Let_def split_beta)
  from roster_replacement_exact [OF demo_registry_inv this] show ?thesis
    by (simp add: demo_reg_camera_def)
qed

section \<open>Interleaved observations\<close>

text \<open>Observations exclude each other's stale results only when they do not interleave. Both
  halves run under a lock that readers share, so a supervisor of generation one can read the prior
  snapshot, a supervisor of generation two can then complete its whole observation, and the first
  one's publication still replaces the newer snapshot. This happens for any two generations that are
  both acceptable to the registry beforehand.\<close>

theorem stale_observation_can_win:
  assumes "update_prepare digest old r = Inr (Some s_old)"
    and "update_prepare digest new r = Inr (Some s_new)"
    and "ob_instance old = ob_instance new" and "ob_generation old < ob_generation new"
  shows "\<exists>e. map_of (reg_entries (update_publish (ob_instance old) s_old
      (fst (registry_update digest new r)))) (ob_instance new) = Some e \<and>
    snd (registry_update digest new r) = Inr True \<and> cs_generation (re_snapshot e) < ob_generation new"
proof -
  obtain e where "map_of (reg_entries r) (ob_instance new) = Some e"
    using update_prepare_Some [OF assms(2)] by blast
  moreover have "cs_generation s_old = ob_generation old" using update_prepare_Some [OF assms(1)] by blast
  ultimately show ?thesis using assms
    by (simp add: registry_update_def update_publish_def map_of_set_snapshot)
qed

theorem stale_observation_can_win_witness:
  "\<exists>s e. update_prepare (\<lambda>_. Inr []) (demo_observation 1) demo_registry = Inr (Some s) \<and>
     map_of (reg_entries (update_publish ''a'' s
       (fst (registry_update (\<lambda>_. Inr []) (demo_observation 2) demo_registry)))) ''a'' = Some e \<and>
     cs_generation (re_snapshot e) < 2"
proof -
  have "\<exists>s. update_prepare (\<lambda>_. Inr []) (demo_observation g) demo_registry = Inr (Some s)" for g
    by (simp add: update_prepare_def read_entries_def demo_registry_def demo_observation_def
        initial_snapshot_def demo_reg_camera_def Let_def)
  then obtain s1 s2 where
    "update_prepare (\<lambda>_. Inr []) (demo_observation 1) demo_registry = Inr (Some s1)"
    "update_prepare (\<lambda>_. Inr []) (demo_observation 2) demo_registry = Inr (Some s2)" by metis
  with stale_observation_can_win [OF this] show ?thesis by (auto simp: demo_observation_def)
qed

end
