(* ===== verification/Dispatch.thy ===== *)
theory Dispatch
  imports Admission_Queue Config_Data
begin

text \<open>
  The fleet-wide capture scheduler of \<open>src/dispatch.rs\<close>: fleet slots reserved before a capture is
  durably accepted, the shared capture queue that carries them, the execution slots held from
  dispatch to the end of a capture, and the set of cameras that are online. What the scheduler sees
  of a camera actor (\<open>src/actor.rs\<close>, \<open>CameraActorHandle\<close>) is its instance, whether it accepts work,
  and its mailbox slots.

  Values that live outside the shared state are explicit: reservations not yet committed, and the
  execution slots the consumer loop of \<open>src/runtime/supervision.rs\<close> carries between taking one and
  handing it to a capture. Dropping a descriptor or a reservation releases its fleet slot; the two
  halves of that release are one step here, and between them the counters only read higher than the
  truth. The descriptor of a popped capture is taken out of its envelope at once, which releases the
  fleet slot, so the pop does both.

  Shown: exact slot accounting under every interleaving, that a reservation can never be refused
  for capacity when it is committed, and conservation of execution slots.
\<close>

section \<open>Fleet slots\<close>

record FleetSlots =
  used :: nat
  slots_maximum :: nat
  slots_per_camera :: "string \<rightharpoonup> nat"
  slots_maximum_per_camera :: nat

definition held :: "FleetSlots \<Rightarrow> string \<Rightarrow> nat" where
  "held sl camera = (case slots_per_camera sl camera of None \<Rightarrow> 0 | Some n \<Rightarrow> n)"

text \<open>The camera's counter exists from its first reservation attempt, refused or not.\<close>

definition fleet_reserve :: "string \<Rightarrow> FleetSlots \<Rightarrow> FleetSlots \<times> unit result" where
  "fleet_reserve camera sl =
     (let n = held sl camera; sl' = sl\<lparr>slots_per_camera := (slots_per_camera sl)(camera \<mapsto> n)\<rparr>
      in if slots_maximum_per_camera sl \<le> n
         then (sl', Inl (Rejected QueueFull ''camera capture queue is full''))
         else if \<not> used sl < slots_maximum sl
         then (sl', Inl (Rejected QueueFull ''the component's capture queue is full''))
         else (sl'\<lparr>used := used sl + 1, slots_per_camera := (slots_per_camera sl)(camera \<mapsto> n + 1)\<rparr>,
               Inr ()))"

definition fleet_release :: "string \<Rightarrow> FleetSlots \<Rightarrow> FleetSlots" where
  "fleet_release camera sl =
     sl\<lparr>used := used sl - 1,
        slots_per_camera :=
          (case slots_per_camera sl camera of
             None \<Rightarrow> slots_per_camera sl
           | Some n \<Rightarrow> if n - 1 = 0 then (slots_per_camera sl)(camera := None)
                       else (slots_per_camera sl)(camera \<mapsto> n - 1))\<rparr>"

section \<open>The scheduler\<close>

record CaptureDescriptor =
  cd_capture_id :: string
  cd_instance :: string
  cd_priority :: CapturePriority
  cd_queue_expiry :: "nat option"
  cd_cancellation :: nat

text \<open>A pending capture: its descriptor and the camera whose fleet slot it holds.\<close>

type_synonym PendingCapture = "CaptureDescriptor \<times> string"

record ActorHandle =
  ah_instance :: string
  ah_accepting :: bool
  ah_used :: nat
  ah_maximum :: nat

definition can_accept_capture :: "ActorHandle \<Rightarrow> bool" where
  "can_accept_capture h = (ah_accepting h \<and> ah_used h < ah_maximum h)"

definition actor_reserve :: "string \<Rightarrow> ActorHandle \<Rightarrow> unit result" where
  "actor_reserve camera h =
     (if camera \<noteq> ah_instance h
      then Inl (Rejected NoSuchInstance ''capture was dispatched to the wrong camera actor'')
      else if \<not> ah_accepting h
      then Inl (Rejected ComponentStopping ''camera actor is not accepting captures'')
      else if \<not> ah_used h < ah_maximum h
      then Inl (Rejected QueueFull ''camera capture queue is full'')
      else Inr ())"

record CaptureScheduler =
  sch_queue :: "PendingCapture QueueInner"
  sch_slots :: FleetSlots
  sch_online :: "string \<rightharpoonup> ActorHandle"
  sch_default_wait :: nat
  sch_execution :: nat
  sch_in_flight :: "string list"
  sch_reservations :: "string list"
  sch_carried :: nat

definition aging_interval_nanos :: nat where "aging_interval_nanos = 1000000000"

definition scheduler_new :: "LimitsConfig \<Rightarrow> CaptureScheduler result" where
  "scheduler_new lims =
     and_then (queue_new (max_pending_captures lims) (max_queued_captures_per_camera lims)
                 aging_interval_nanos) (\<lambda>q.
       Inr \<lparr>sch_queue = q,
            sch_slots = \<lparr>used = 0, slots_maximum = max_pending_captures lims,
              slots_per_camera = Map.empty,
              slots_maximum_per_camera = max_queued_captures_per_camera lims\<rparr>,
            sch_online = Map.empty, sch_default_wait = unat (max_queue_wait_ms lims) * 1000000,
            sch_execution = max_concurrent_captures lims, sch_in_flight = [],
            sch_reservations = [], sch_carried = 0\<rparr>)"

definition camera_online :: "string \<Rightarrow> ActorHandle \<Rightarrow> CaptureScheduler \<Rightarrow> CaptureScheduler" where
  "camera_online camera h s = s\<lparr>sch_online := (sch_online s)(camera \<mapsto> h)\<rparr>"

definition camera_offline :: "string \<Rightarrow> CaptureScheduler \<Rightarrow> CaptureScheduler" where
  "camera_offline camera s = s\<lparr>sch_online := (sch_online s)(camera := None)\<rparr>"

definition admissible :: "CaptureScheduler \<Rightarrow> string \<Rightarrow> bool" where
  "admissible s camera =
     (case sch_online s camera of None \<Rightarrow> False | Some h \<Rightarrow> can_accept_capture h)"

definition scheduler_reserve :: "string \<Rightarrow> CaptureScheduler \<Rightarrow> CaptureScheduler \<times> unit result" where
  "scheduler_reserve camera s =
     (case fleet_reserve camera (sch_slots s) of
        (sl, Inl e) \<Rightarrow> (s\<lparr>sch_slots := sl\<rparr>, Inl e)
      | (sl, Inr _) \<Rightarrow> (s\<lparr>sch_slots := sl, sch_reservations := camera # sch_reservations s\<rparr>, Inr ()))"

text \<open>A reservation dropped without a commit.\<close>

definition drop_reservation :: "string \<Rightarrow> CaptureScheduler \<Rightarrow> CaptureScheduler" where
  "drop_reservation camera s =
     (if camera \<in> set (sch_reservations s)
      then s\<lparr>sch_slots := fleet_release camera (sch_slots s),
             sch_reservations := remove1 camera (sch_reservations s)\<rparr>
      else s)"

text \<open>Committing the reservation a caller made for the descriptor's camera. A descriptor the queue
  refuses is dropped, and its slot with it.\<close>

definition scheduler_commit ::
    "bool \<Rightarrow> (nat \<Rightarrow> bool) \<Rightarrow> nat \<Rightarrow> nat \<Rightarrow> CaptureDescriptor \<Rightarrow> CaptureScheduler \<Rightarrow>
     CaptureScheduler \<times> nat result" where
  "scheduler_commit in_runtime cancelled now now' d s =
     (let camera = cd_instance d;
          wait_deadline = (case cd_queue_expiry d of Some t \<Rightarrow> t | None \<Rightarrow> now + sch_default_wait s);
          s1 = s\<lparr>sch_reservations := remove1 camera (sch_reservations s)\<rparr>
      in case try_enqueue in_runtime cancelled now now' camera (cd_priority d) wait_deadline
                (cd_cancellation d) (d, camera) (sch_queue s) of
           (q, Inl e) \<Rightarrow>
             (s1\<lparr>sch_queue := q, sch_slots := fleet_release camera (sch_slots s)\<rparr>, Inl e)
         | (q, Inr _) \<Rightarrow> (s1\<lparr>sch_queue := q\<rparr>, Inr (used (sch_slots s))))"

definition release_entries :: "PendingCapture QueueEntry list \<Rightarrow> FleetSlots \<Rightarrow> FleetSlots" where
  "release_entries es sl = fold (\<lambda>e. fleet_release (snd (qe_payload e))) es sl"

text \<open>The consumer takes an execution slot first.\<close>

definition take_execution_slot :: "bool \<Rightarrow> CaptureScheduler \<Rightarrow> CaptureScheduler" where
  "take_execution_slot cancelled s =
     (if \<not> cancelled \<and> 0 < sch_execution s
      then s\<lparr>sch_execution := sch_execution s - 1, sch_carried := sch_carried s + 1\<rparr> else s)"

text \<open>Dropping the slot it carries: on shutdown, and on every path of the loop that gives a popped
  capture up.\<close>

definition drop_execution_slot :: "CaptureScheduler \<Rightarrow> CaptureScheduler" where
  "drop_execution_slot s =
     (if 0 < sch_carried s
      then s\<lparr>sch_execution := sch_execution s + 1, sch_carried := sch_carried s - 1\<rparr> else s)"

text \<open>With the slot in hand, one look at the queue. \<open>None\<close> means shutdown.\<close>

definition scheduler_next ::
    "(nat \<Rightarrow> bool) \<Rightarrow> nat \<Rightarrow> bool \<Rightarrow> CaptureScheduler \<Rightarrow>
     CaptureScheduler \<times> CaptureDescriptor option poll" where
  "scheduler_next cancelled now consumer_cancelled s =
     (case next_admissible cancelled now consumer_cancelled (admissible s) (sch_queue s) of
        (q, Ready (Some e), dropped) \<Rightarrow>
          (s\<lparr>sch_queue := q, sch_slots := release_entries (dropped @ [e]) (sch_slots s)\<rparr>,
           Ready (Some (fst (qe_payload e))))
      | (q, Ready None, dropped) \<Rightarrow>
          (drop_execution_slot
             (s\<lparr>sch_queue := q, sch_slots := release_entries dropped (sch_slots s)\<rparr>), Ready None)
      | (q, Pending, dropped) \<Rightarrow>
          (s\<lparr>sch_queue := q, sch_slots := release_entries dropped (sch_slots s)\<rparr>, Pending))"

text \<open>The watcher of a queued descriptor evicts it.\<close>

definition scheduler_expire ::
    "(nat \<Rightarrow> bool) \<Rightarrow> nat \<Rightarrow> u64 \<Rightarrow> CaptureScheduler \<Rightarrow> CaptureScheduler" where
  "scheduler_expire cancelled now ticket s =
     (case watcher_fire cancelled now ticket (sch_queue s) of
        (q, None) \<Rightarrow> s\<lparr>sch_queue := q\<rparr>
      | (q, Some e) \<Rightarrow>
          s\<lparr>sch_queue := q, sch_slots := release_entries [e] (sch_slots s)\<rparr>)"

text \<open>A permit already stored under the same capture is replaced, hence dropped.\<close>

definition hold_execution_slot :: "string \<Rightarrow> CaptureScheduler \<Rightarrow> CaptureScheduler" where
  "hold_execution_slot capture_id s =
     (if 0 < sch_carried s
      then if capture_id \<in> set (sch_in_flight s)
           then s\<lparr>sch_carried := sch_carried s - 1, sch_execution := sch_execution s + 1\<rparr>
           else s\<lparr>sch_carried := sch_carried s - 1, sch_in_flight := capture_id # sch_in_flight s\<rparr>
      else s)"

definition capture_finished :: "string \<Rightarrow> CaptureScheduler \<Rightarrow> CaptureScheduler" where
  "capture_finished capture_id s =
     (if capture_id \<in> set (sch_in_flight s)
      then s\<lparr>sch_in_flight := remove1 capture_id (sch_in_flight s),
             sch_execution := sch_execution s + 1\<rparr>
      else s)"

text \<open>The hand-off: without a live actor that has room the descriptor comes back; otherwise it is the
  actor's, whose own commit (\<open>commit_ok\<close>) refuses only a capture that is already dead.\<close>

definition dispatch ::
    "bool \<Rightarrow> string \<Rightarrow> CaptureDescriptor \<Rightarrow> CaptureScheduler \<Rightarrow>
     CaptureScheduler \<times> (CaptureDescriptor + unit)" where
  "dispatch commit_ok camera d s =
     (case sch_online s camera of
        None \<Rightarrow> (s, Inl d)
      | Some h \<Rightarrow>
          (case actor_reserve camera h of
             Inl _ \<Rightarrow> (s, Inl d)
           | Inr _ \<Rightarrow>
               ((if commit_ok
                 then s\<lparr>sch_online := (sch_online s)(camera \<mapsto> h\<lparr>ah_used := ah_used h + 1\<rparr>)\<rparr> else s),
                Inr ())))"

definition scheduler_pending :: "CaptureScheduler \<Rightarrow> nat" where
  "scheduler_pending s = used (sch_slots s)"

definition scheduler_pending_for :: "CaptureScheduler \<Rightarrow> string \<Rightarrow> nat" where
  "scheduler_pending_for s camera = held (sch_slots s) camera"

section \<open>Operations\<close>

datatype dispatch_op =
    DReserve string
  | DDropReservation string
  | DCommit bool "nat \<Rightarrow> bool" nat nat CaptureDescriptor
  | DTakeSlot bool
  | DNext "nat \<Rightarrow> bool" nat bool
  | DDropSlot
  | DExpire "nat \<Rightarrow> bool" nat u64
  | DHold string
  | DFinished string
  | DDispatch bool string CaptureDescriptor
  | DOnline string ActorHandle
  | DOffline string

text \<open>A commit needs a live reservation for the descriptor's camera, and a look at the queue needs a
  slot in hand: that is how the callers are written.\<close>

fun exec_dispatch :: "CaptureScheduler \<Rightarrow> dispatch_op \<Rightarrow> CaptureScheduler" where
  "exec_dispatch s (DReserve camera) = fst (scheduler_reserve camera s)"
| "exec_dispatch s (DDropReservation camera) = drop_reservation camera s"
| "exec_dispatch s (DCommit rt cancelled now now' d) =
     (if cd_instance d \<in> set (sch_reservations s)
      then fst (scheduler_commit rt cancelled now now' d s) else s)"
| "exec_dispatch s (DTakeSlot cancelled) = take_execution_slot cancelled s"
| "exec_dispatch s (DNext cancelled now stop) =
     (if 0 < sch_carried s then fst (scheduler_next cancelled now stop s) else s)"
| "exec_dispatch s DDropSlot = drop_execution_slot s"
| "exec_dispatch s (DExpire cancelled now ticket) = scheduler_expire cancelled now ticket s"
| "exec_dispatch s (DHold capture_id) = hold_execution_slot capture_id s"
| "exec_dispatch s (DFinished capture_id) = capture_finished capture_id s"
| "exec_dispatch s (DDispatch ok camera d) = fst (dispatch ok camera d s)"
| "exec_dispatch s (DOnline camera h) = camera_online camera h s"
| "exec_dispatch s (DOffline camera) = camera_offline camera s"

section \<open>Slot accounting\<close>

text \<open>The slots agree with a multiset of cameras: the fleet counter is its size, each camera's counter
  its multiplicity.\<close>

definition slots_ok :: "FleetSlots \<Rightarrow> string multiset \<Rightarrow> bool" where
  "slots_ok sl m \<longleftrightarrow> used sl = size m \<and> (\<forall>c. held sl c = count m c) \<and>
     size m \<le> slots_maximum sl \<and> (\<forall>c. count m c \<le> slots_maximum_per_camera sl)"

lemma fleet_reserve_ok:
  assumes "slots_ok sl m"
  shows "slots_ok (fst (fleet_reserve c sl))
    (case snd (fleet_reserve c sl) of Inl _ \<Rightarrow> m | Inr _ \<Rightarrow> add_mset c m)"
  using assms by (auto simp: slots_ok_def fleet_reserve_def Let_def held_def)

lemma fleet_release_ok:
  assumes "slots_ok sl m" and "c \<in># m" shows "slots_ok (fleet_release c sl) (m - {#c#})"
proof -
  have h: "held sl x = count m x" for x using assms(1) by (simp add: slots_ok_def)
  have "slots_per_camera sl c \<noteq> None"
  proof
    assume "slots_per_camera sl c = None"
    then have "count m c = 0" using h [of c] by (simp add: held_def)
    then show False using assms(2) by (metis not_in_iff)
  qed
  then obtain n where n: "slots_per_camera sl c = Some n" "n = count m c"
    using h [of c] by (auto simp: held_def)
  have "held (fleet_release c sl) x = count (m - {#c#}) x" for x
    using h [of x] n by (auto simp: held_def fleet_release_def)
  moreover have "used (fleet_release c sl) = size (m - {#c#})"
    using assms by (simp add: fleet_release_def slots_ok_def size_Diff_singleton)
  moreover have "size (m - {#c#}) \<le> size m" by (simp add: size_Diff1_le)
  moreover have "count (m - {#c#}) x \<le> count m x" for x by simp
  ultimately show ?thesis
    using assms(1) unfolding slots_ok_def
    by (metis (no_types, lifting) FleetSlots.select_convs(2,4) FleetSlots.surjective
        FleetSlots.update_convs(1,3) fleet_release_def order_trans)
qed

lemma release_entries_ok:
  assumes "slots_ok sl m" and "image_mset (\<lambda>e. snd (qe_payload e)) (mset es) \<subseteq># m"
  shows "slots_ok (release_entries es sl) (m - image_mset (\<lambda>e. snd (qe_payload e)) (mset es))"
  using assms
proof (induction es arbitrary: sl m)
  case (Cons e es)
  let ?c = "snd (qe_payload e)"
  have c: "?c \<in># m" using Cons.prems(2) by (simp add: insert_subset_eq_iff)
  have "slots_ok (fleet_release ?c sl) (m - {#?c#})" by (rule fleet_release_ok [OF Cons.prems(1) c])
  then show ?case
    using Cons.IH [of "fleet_release ?c sl" "m - {#?c#}"] Cons.prems(2)
    by (simp add: release_entries_def insert_subset_eq_iff)
qed (simp add: release_entries_def)

definition entry_slots :: "CaptureScheduler \<Rightarrow> string multiset" where
  "entry_slots s = image_mset (\<lambda>e. snd (qe_payload e)) (mset (entries (sch_queue s)))"

definition slot_mset :: "CaptureScheduler \<Rightarrow> string multiset" where
  "slot_mset s = entry_slots s + mset (sch_reservations s)"

definition dispatch_inv :: "nat \<Rightarrow> CaptureScheduler \<Rightarrow> bool" where
  "dispatch_inv n s \<longleftrightarrow>
     queue_inv (sch_queue s) \<and>
     max_global_pending (sch_queue s) = slots_maximum (sch_slots s) \<and>
     max_per_camera (sch_queue s) = slots_maximum_per_camera (sch_slots s) \<and>
     (\<forall>e \<in> set (entries (sch_queue s)). snd (qe_payload e) = qe_camera_id e) \<and>
     slots_ok (sch_slots s) (slot_mset s) \<and>
     sch_execution s + sch_carried s + length (sch_in_flight s) = n \<and> distinct (sch_in_flight s)"

lemma fleet_limits [simp]:
  "slots_maximum (fleet_release c sl) = slots_maximum sl"
  "slots_maximum_per_camera (fleet_release c sl) = slots_maximum_per_camera sl"
  "slots_maximum (fst (fleet_reserve c sl)) = slots_maximum sl"
  "slots_maximum_per_camera (fst (fleet_reserve c sl)) = slots_maximum_per_camera sl"
  by (simp_all add: fleet_release_def fleet_reserve_def Let_def)

lemma release_entries_limits [simp]:
  "slots_maximum (release_entries es sl) = slots_maximum sl"
  "slots_maximum_per_camera (release_entries es sl) = slots_maximum_per_camera sl"
  by (induction es arbitrary: sl) (simp_all add: release_entries_def)

text \<open>Entries leave the queue and their slots are released: the invariant survives.\<close>

lemma dispatch_inv_evict:
  assumes inv: "dispatch_inv n s" and q: "queue_inv q" "queue_limits q = queue_limits (sch_queue s)"
    and ms: "mset (entries (sch_queue s)) = mset (entries q) + mset ds"
  shows "dispatch_inv n (s\<lparr>sch_queue := q, sch_slots := release_entries ds (sch_slots s)\<rparr>)"
proof -
  let ?s = "s\<lparr>sch_queue := q, sch_slots := release_entries ds (sch_slots s)\<rparr>"
  let ?ds = "image_mset (\<lambda>e. snd (qe_payload e)) (mset ds)"
  have split: "slot_mset s = slot_mset ?s + ?ds"
    using ms by (simp add: slot_mset_def entry_slots_def)
  have "slots_ok (release_entries ds (sch_slots s)) (slot_mset s - ?ds)"
    using inv split by (intro release_entries_ok) (simp_all add: dispatch_inv_def)
  then have "slots_ok (sch_slots ?s) (slot_mset ?s)" by (simp add: split)
  moreover have "set (entries q) \<subseteq> set (entries (sch_queue s))"
    using arg_cong [OF ms, of set_mset] by auto
  ultimately show ?thesis
    using inv q by (auto simp: dispatch_inv_def queue_limits_def)
qed

lemma drop_execution_slot_inv: "dispatch_inv n s \<Longrightarrow> dispatch_inv n (drop_execution_slot s)"
  by (auto simp: dispatch_inv_def drop_execution_slot_def slot_mset_def entry_slots_def)

lemma take_execution_slot_inv: "dispatch_inv n s \<Longrightarrow> dispatch_inv n (take_execution_slot c s)"
  by (auto simp: dispatch_inv_def take_execution_slot_def slot_mset_def entry_slots_def)

lemma hold_execution_slot_inv: "dispatch_inv n s \<Longrightarrow> dispatch_inv n (hold_execution_slot c s)"
  by (auto simp: dispatch_inv_def hold_execution_slot_def slot_mset_def entry_slots_def)

lemma capture_finished_inv:
  assumes "dispatch_inv n s" shows "dispatch_inv n (capture_finished c s)"
proof (cases "c \<in> set (sch_in_flight s)")
  case True
  then have "0 < length (sch_in_flight s)" by (cases "sch_in_flight s") auto
  then show ?thesis using assms True
    by (auto simp: dispatch_inv_def capture_finished_def slot_mset_def entry_slots_def length_remove1)
qed (use assms in \<open>simp add: capture_finished_def\<close>)

lemma dispatch_inv_step: "dispatch_inv n s \<Longrightarrow> dispatch_inv n (fst (dispatch ok camera d s))"
  by (auto simp: dispatch_inv_def dispatch_def slot_mset_def entry_slots_def split: option.splits sum.splits)

lemma online_inv:
  "dispatch_inv n s \<Longrightarrow> dispatch_inv n (camera_online camera h s)"
  "dispatch_inv n s \<Longrightarrow> dispatch_inv n (camera_offline camera s)"
  by (simp_all add: dispatch_inv_def camera_online_def camera_offline_def slot_mset_def entry_slots_def)

lemma scheduler_reserve_inv:
  assumes "dispatch_inv n s" shows "dispatch_inv n (fst (scheduler_reserve camera s))"
proof -
  have sl: "slots_ok (sch_slots s) (slot_mset s)" using assms by (simp add: dispatch_inv_def)
  obtain sl' r where fr: "fleet_reserve camera (sch_slots s) = (sl', r)" by fastforce
  have ok: "slots_ok sl' (case r of Inl _ \<Rightarrow> slot_mset s | Inr _ \<Rightarrow> add_mset camera (slot_mset s))"
    using fleet_reserve_ok [OF sl, of camera] fr by simp
  have lims: "slots_maximum sl' = slots_maximum (sch_slots s)"
    "slots_maximum_per_camera sl' = slots_maximum_per_camera (sch_slots s)"
    using fleet_limits(3,4) [of camera "sch_slots s"] fr by simp_all
  show ?thesis
    using assms ok lims
    by (cases r) (simp_all add: scheduler_reserve_def fr dispatch_inv_def slot_mset_def entry_slots_def)
qed

lemma drop_reservation_inv:
  assumes "dispatch_inv n s" shows "dispatch_inv n (drop_reservation camera s)"
proof (cases "camera \<in> set (sch_reservations s)")
  case True
  then have c: "camera \<in># slot_mset s" by (simp add: slot_mset_def)
  have "slots_ok (fleet_release camera (sch_slots s)) (slot_mset s - {#camera#})"
    using assms c by (intro fleet_release_ok) (simp_all add: dispatch_inv_def)
  moreover have "slot_mset s - {#camera#} = entry_slots s + mset (remove1 camera (sch_reservations s))"
    using True by (simp add: slot_mset_def)
  ultimately show ?thesis
    using assms True by (simp add: drop_reservation_def dispatch_inv_def slot_mset_def entry_slots_def)
qed (use assms in \<open>simp add: drop_reservation_def\<close>)

text \<open>Enqueueing appends exactly one entry or leaves the entries alone.\<close>

lemma try_enqueue_entries:
  assumes "try_enqueue rt cancelled now now' c p dl tok pay q = (q', r)"
  shows "(case r of Inl _ \<Rightarrow> entries q' = entries q
    | Inr _ \<Rightarrow> \<exists>e. entries q' = entries q @ [e] \<and> qe_payload e = pay \<and> qe_camera_id e = c)"
    and "queue_limits q' = queue_limits q"
  using assms by (auto simp: try_enqueue_def Let_def queue_limits_def split: if_splits option.splits)

lemma scheduler_commit_inv:
  assumes inv: "dispatch_inv n s" and res: "cd_instance d \<in> set (sch_reservations s)"
  shows "dispatch_inv n (fst (scheduler_commit rt cancelled now now' d s))"
proof -
  let ?c = "cd_instance d"
  let ?dl = "case cd_queue_expiry d of Some t \<Rightarrow> t | None \<Rightarrow> now + sch_default_wait s"
  obtain q r where en: "try_enqueue rt cancelled now now' ?c (cd_priority d) ?dl (cd_cancellation d)
      (d, ?c) (sch_queue s) = (q, r)" by fastforce
  note ent = try_enqueue_entries [OF en]
  have qi: "queue_inv q"
    using try_enqueue_inv [of "sch_queue s" rt cancelled now now' ?c "cd_priority d" ?dl
        "cd_cancellation d" "(d, ?c)"] inv en by (simp add: dispatch_inv_def)
  have c: "?c \<in># slot_mset s" using res by (simp add: slot_mset_def)
  have sl: "slots_ok (sch_slots s) (slot_mset s)" using inv by (simp add: dispatch_inv_def)
  show ?thesis
  proof (cases r)
    case (Inl e)
    have "slots_ok (fleet_release ?c (sch_slots s)) (slot_mset s - {#?c#})"
      by (rule fleet_release_ok [OF sl c])
    moreover have "slot_mset s - {#?c#} = entry_slots s + mset (remove1 ?c (sch_reservations s))"
      using res by (simp add: slot_mset_def)
    ultimately show ?thesis
      using inv ent qi Inl
      by (simp add: scheduler_commit_def Let_def en dispatch_inv_def slot_mset_def entry_slots_def
          queue_limits_def)
  next
    case (Inr t)
    then obtain x where x: "entries q = entries (sch_queue s) @ [x]" "qe_payload x = (d, ?c)"
      "qe_camera_id x = ?c" using ent(1) by auto
    let ?s = "s\<lparr>sch_reservations := remove1 ?c (sch_reservations s), sch_queue := q\<rparr>"
    have "add_mset ?c (mset (remove1 ?c (sch_reservations s))) = mset (sch_reservations s)"
      using res by simp
    then have "slot_mset ?s = slot_mset s"
      using x by (simp add: slot_mset_def entry_slots_def)
    then show ?thesis
      using inv ent(2) qi Inr x
      by (simp add: scheduler_commit_def Let_def en dispatch_inv_def queue_limits_def)
  qed
qed

lemma scheduler_next_inv:
  assumes inv: "dispatch_inv n s"
  shows "dispatch_inv n (fst (scheduler_next cancelled now stop s))"
proof -
  let ?q = "sch_queue s"
  obtain q sel ds where p: "pop_best_admissible cancelled now (admissible s) ?q = (q, sel, ds)"
    by (metis prod_cases3)
  note spec = pop_best_admissible_spec [OF p]
  have qi: "queue_inv q"
    using pop_best_admissible_inv [of ?q cancelled now "admissible s"] inv p by (simp add: dispatch_inv_def)
  have ql: "queue_limits q = queue_limits ?q"
    using queue_limits_pop [of cancelled now "admissible s" ?q] p by simp
  note evict = dispatch_inv_evict [OF inv qi ql]
  show ?thesis
  proof (cases sel)
    case None
    then have "mset (entries ?q) = mset (entries q) + mset ds"
      using spec(2) by (simp add: dropped_by_pop_def)
    from evict [OF this] show ?thesis using None
      by (simp add: scheduler_next_def next_admissible_def p drop_execution_slot_inv)
  next
    case (Some e)
    then have "mset (entries ?q) = mset (entries q) + mset (ds @ [e])"
      using spec(2) by (simp add: dropped_by_pop_def)
    from evict [OF this] show ?thesis using Some
      by (simp add: scheduler_next_def next_admissible_def p)
  qed
qed

lemma remove_ticket_entries:
  assumes "remove_ticket t q = (q', r)"
  shows "mset (entries q) = mset (entries q') + mset (case r of None \<Rightarrow> [] | Some e \<Rightarrow> [e])"
proof (cases "position (\<lambda>e. qe_ticket e = t) (entries q)")
  case None
  then show ?thesis using assms by (auto simp: remove_ticket_def)
next
  case (Some i)
  note ms = mset_swap_remove [OF position_Some [OF Some, THEN conjunct1]]
  then show ?thesis using assms Some by (auto simp: remove_ticket_def Let_def)
qed

lemma watcher_fire_entries:
  assumes "watcher_fire cancelled now t q = (q', r)"
  shows "mset (entries q) = mset (entries q') + mset (case r of None \<Rightarrow> [] | Some e \<Rightarrow> [e])"
proof -
  obtain q1 r1 where rt: "remove_ticket t q = (q1, r1)" by fastforce
  then show ?thesis using assms remove_ticket_entries [OF rt]
    by (auto simp: watcher_fire_def rt split: option.splits if_splits)
qed

lemma scheduler_expire_inv:
  assumes inv: "dispatch_inv n s" shows "dispatch_inv n (scheduler_expire cancelled now t s)"
proof -
  let ?q = "sch_queue s"
  obtain q r where w: "watcher_fire cancelled now t ?q = (q, r)" by fastforce
  have qi: "queue_inv q"
    using watcher_fire_inv [of ?q cancelled now t] inv w by (simp add: dispatch_inv_def)
  have ql: "queue_limits q = queue_limits ?q"
    using queue_limits_exec [of ?q "OpWatcher cancelled now t"] w by simp
  note evict = dispatch_inv_evict [OF inv qi ql watcher_fire_entries [OF w]]
  show ?thesis
  proof (cases r)
    case None
    then show ?thesis using evict by (simp add: scheduler_expire_def w release_entries_def)
  next
    case (Some e)
    then show ?thesis using evict by (simp add: scheduler_expire_def w)
  qed
qed

interpretation scheduler: operation_system exec_dispatch "dispatch_inv n" for n
proof
  fix s op assume "dispatch_inv n s"
  then show "dispatch_inv n (exec_dispatch s op)"
    by (cases op) (simp_all add: scheduler_reserve_inv drop_reservation_inv scheduler_commit_inv
        take_execution_slot_inv scheduler_next_inv drop_execution_slot_inv scheduler_expire_inv
        hold_execution_slot_inv capture_finished_inv dispatch_inv_step online_inv)
qed

lemma count_camera_ids: "count (image_mset qe_camera_id (mset es)) c = camera_count c es"
  by (induction es) (simp_all add: camera_count_def)

lemma dispatch_counts:
  assumes "dispatch_inv n s"
  shows "used (sch_slots s) = length (entries (sch_queue s)) + length (sch_reservations s)"
    and "length (entries (sch_queue s)) + length (sch_reservations s) \<le> slots_maximum (sch_slots s)"
    and "held (sch_slots s) c = camera_count c (entries (sch_queue s)) + count_list (sch_reservations s) c"
    and "camera_count c (entries (sch_queue s)) + count_list (sch_reservations s) c
      \<le> slots_maximum_per_camera (sch_slots s)"
    and "pending_for (sch_queue s) c = camera_count c (entries (sch_queue s))"
proof -
  have pay: "\<forall>e \<in> set (entries (sch_queue s)). snd (qe_payload e) = qe_camera_id e"
    using assms by (simp add: dispatch_inv_def)
  have "entry_slots s = image_mset qe_camera_id (mset (entries (sch_queue s)))"
    unfolding entry_slots_def using pay by (intro image_mset_cong) simp
  then have m: "count (slot_mset s) x = camera_count x (entries (sch_queue s)) + count_list (sch_reservations s) x"
    "size (slot_mset s) = length (entries (sch_queue s)) + length (sch_reservations s)" for x
    by (simp_all add: slot_mset_def count_camera_ids count_mset)
  have sl: "slots_ok (sch_slots s) (slot_mset s)" using assms by (simp add: dispatch_inv_def)
  show "used (sch_slots s) = length (entries (sch_queue s)) + length (sch_reservations s)"
    "length (entries (sch_queue s)) + length (sch_reservations s) \<le> slots_maximum (sch_slots s)"
    using sl by (simp_all add: slots_ok_def m(2))
  show "held (sch_slots s) c = camera_count c (entries (sch_queue s)) + count_list (sch_reservations s) c"
    "camera_count c (entries (sch_queue s)) + count_list (sch_reservations s) c
      \<le> slots_maximum_per_camera (sch_slots s)"
    using sl unfolding slots_ok_def m(1) by blast+
  show "pending_for (sch_queue s) c = camera_count c (entries (sch_queue s))"
    using assms by (intro counts_ok_pending) (simp add: dispatch_inv_def queue_inv_def)
qed

lemma scheduler_new_inv:
  assumes "scheduler_new lims = Inr s"
  shows "dispatch_inv (max_concurrent_captures lims) s"
    and "slots_maximum (sch_slots s) = max_pending_captures lims"
    and "slots_maximum_per_camera (sch_slots s) = max_queued_captures_per_camera lims"
proof -
  obtain q :: "PendingCapture QueueInner" where q: "queue_new (max_pending_captures lims) (max_queued_captures_per_camera lims)
      aging_interval_nanos = Inr q" using assms by (auto simp: scheduler_new_def and_then_Inr_iff)
  note new = queue_new_inv [OF q]
  have "entries q = []" using q by (auto simp: queue_new_def split: if_splits)
  then show "dispatch_inv (max_concurrent_captures lims) s"
    "slots_maximum (sch_slots s) = max_pending_captures lims"
    "slots_maximum_per_camera (sch_slots s) = max_queued_captures_per_camera lims"
    using assms new by (auto simp: scheduler_new_def q dispatch_inv_def queue_limits_def slots_ok_def
        slot_mset_def entry_slots_def held_def)
qed

lemma dispatch_limits_step:
  "slots_maximum (sch_slots (exec_dispatch s op)) = slots_maximum (sch_slots s) \<and>
   slots_maximum_per_camera (sch_slots (exec_dispatch s op)) = slots_maximum_per_camera (sch_slots s)"
proof (cases op)
  case (DReserve c)
  show ?thesis
    using fleet_limits(3,4) [of c "sch_slots s"]
    by (cases "fleet_reserve c (sch_slots s)"; cases "snd (fleet_reserve c (sch_slots s))")
       (simp_all add: DReserve scheduler_reserve_def)
qed (auto simp: drop_reservation_def scheduler_commit_def Let_def take_execution_slot_def
    scheduler_next_def drop_execution_slot_def scheduler_expire_def hold_execution_slot_def
    capture_finished_def dispatch_def camera_online_def camera_offline_def
    split: prod.splits sum.splits option.splits poll.splits)

lemma dispatch_limits_run:
  "slots_maximum (sch_slots (foldl exec_dispatch s ops)) = slots_maximum (sch_slots s) \<and>
   slots_maximum_per_camera (sch_slots (foldl exec_dispatch s ops)) = slots_maximum_per_camera (sch_slots s)"
  by (induction ops arbitrary: s) (simp_all add: dispatch_limits_step)

section \<open>Properties\<close>

text \<open>C3: Fleet slots never leak. After any interleaving of reservations, commits, pops, evictions,
  drops, hand-offs and terminations, the fleet counter is exactly the number of queued captures plus
  the outstanding reservations, each camera's counter is exactly its share, both stay within the
  configured bounds, and the execution slots that are free, carried by the consumer or recorded for
  a capture in flight always add up to the configured concurrency.\<close>

theorem fleet_slots_exact:
  assumes "scheduler_new lims = Inr s\<^sub>0" and "s = foldl exec_dispatch s\<^sub>0 ops"
  shows "scheduler_pending s = pending (sch_queue s) + length (sch_reservations s) \<and>
    scheduler_pending s \<le> max_pending_captures lims \<and>
    scheduler_pending_for s camera =
      pending_for (sch_queue s) camera + count_list (sch_reservations s) camera \<and>
    scheduler_pending_for s camera \<le> max_queued_captures_per_camera lims \<and>
    sch_execution s + sch_carried s + length (sch_in_flight s) = max_concurrent_captures lims"
proof -
  have inv: "dispatch_inv (max_concurrent_captures lims) s"
    unfolding assms(2) using scheduler_new_inv(1) [OF assms(1)] by (rule scheduler.run_inv)
  note counts = dispatch_counts [OF inv]
  have lims: "slots_maximum (sch_slots s) = max_pending_captures lims"
    "slots_maximum_per_camera (sch_slots s) = max_queued_captures_per_camera lims"
    using scheduler_new_inv(2,3) [OF assms(1)] dispatch_limits_run [of s\<^sub>0 ops] by (simp_all add: assms(2))
  have "sch_execution s + sch_carried s + length (sch_in_flight s) = max_concurrent_captures lims"
    using inv by (simp add: dispatch_inv_def)
  then show ?thesis
    using counts(2) counts(4) [of camera]
    by (simp add: scheduler_pending_def scheduler_pending_for_def pending_def counts(1) counts(3)
        counts(5) lims)
qed

definition demo_lims :: LimitsConfig where
  "demo_lims = (LimitsConfig_default 1)\<lparr>max_concurrent_captures := 1\<rparr>"

definition demo_scheduler :: CaptureScheduler where
  "demo_scheduler = (case scheduler_new demo_lims of Inr s \<Rightarrow> s | Inl _ \<Rightarrow> undefined)"

lemma demo_scheduler_new: "scheduler_new demo_lims = Inr demo_scheduler"
  by (simp add: demo_scheduler_def scheduler_new_def demo_lims_def LimitsConfig_default_def
      queue_new_def aging_interval_nanos_def)

theorem fleet_slots_exact_witness:
  "scheduler_pending (foldl exec_dispatch demo_scheduler [DReserve ''a'', DReserve ''b'']) =
     pending (sch_queue (foldl exec_dispatch demo_scheduler [DReserve ''a'', DReserve ''b''])) + 2"
  using fleet_slots_exact [OF demo_scheduler_new refl, of "[DReserve ''a'', DReserve ''b'']" "''a''"]
  by (simp add: demo_scheduler_def scheduler_new_def demo_lims_def LimitsConfig_default_def queue_new_def
      aging_interval_nanos_def scheduler_reserve_def fleet_reserve_def held_def)

text \<open>Capacity is promised before the capture is accepted. In every reachable state, committing a
  live reservation is never refused with QUEUE_FULL: as long as the capture has not been cancelled,
  its wait deadline lies ahead, the runtime is there and ticket numbers remain, the capture is
  queued.\<close>

theorem reservation_is_honoured:
  assumes "scheduler_new lims = Inr s\<^sub>0" and "s = foldl exec_dispatch s\<^sub>0 ops"
    and "cd_instance d \<in> set (sch_reservations s)" and "cd_instance d \<noteq> []"
    and "\<not> cancelled (cd_cancellation d)"
    and "now < (case cd_queue_expiry d of Some t \<Rightarrow> t | None \<Rightarrow> now + sch_default_wait s)"
    and "unat (next_ticket (sch_queue s)) + 1 < 2 ^ 64"
  shows "is_ok (snd (scheduler_commit True cancelled now now' d s))"
proof -
  let ?q = "sch_queue s" and ?c = "cd_instance d"
  have inv: "dispatch_inv (max_concurrent_captures lims) s"
    unfolding assms(2) using scheduler_new_inv(1) [OF assms(1)] by (rule scheduler.run_inv)
  note counts = dispatch_counts [OF inv]
  have lims: "max_global_pending ?q = slots_maximum (sch_slots s)"
    "max_per_camera ?q = slots_maximum_per_camera (sch_slots s)"
    using inv by (simp_all add: dispatch_inv_def)
  have "0 < length (sch_reservations s)" using assms(3) by (cases "sch_reservations s") auto
  then have room: "length (entries ?q) < max_global_pending ?q" using counts(2) lims(1) by linarith
  have "count_list (sch_reservations s) ?c \<noteq> 0" using assms(3) by (simp add: count_list_0_iff)
  then have "pending_for ?q ?c < max_per_camera ?q"
    using counts(4,5) [of ?c] lims(2) by linarith
  then have cam: "(case per_camera ?q ?c of None \<Rightarrow> 0 | Some n \<Rightarrow> n) < max_per_camera ?q"
    by (simp add: pending_for_def)
  obtain t where "checked_add (next_ticket ?q) 1 = Some t"
    using assms(7) by (simp add: checked_add_def)
  then show ?thesis
    using assms(4-6) room cam
    by (auto simp: scheduler_commit_def Let_def try_enqueue_def is_ok_def not_le split: option.splits)
qed

definition demo_descriptor :: CaptureDescriptor where
  "demo_descriptor = \<lparr>cd_capture_id = ''c1'', cd_instance = ''a'', cd_priority = Direct,
     cd_queue_expiry = Some 50, cd_cancellation = 0\<rparr>"

theorem reservation_is_honoured_witness:
  "is_ok (snd (scheduler_commit True (\<lambda>_. False) 1 1 demo_descriptor
      (foldl exec_dispatch demo_scheduler [DReserve ''a''])))"
proof -
  let ?s = "foldl exec_dispatch demo_scheduler [DReserve ''a'']"
  have "cd_instance demo_descriptor \<in> set (sch_reservations ?s)"
    "cd_instance demo_descriptor \<noteq> []" "next_ticket (sch_queue ?s) = 1"
    by (simp_all add: demo_scheduler_def scheduler_new_def demo_lims_def LimitsConfig_default_def
        queue_new_def aging_interval_nanos_def scheduler_reserve_def fleet_reserve_def held_def
        demo_descriptor_def)
  then show ?thesis
    using reservation_is_honoured [OF demo_scheduler_new refl, of demo_descriptor "[DReserve ''a'']"
        "\<lambda>_. False" 1 1] by (simp add: demo_descriptor_def)
qed

end
