(* ===== verification/Scheduler.thy ===== *)
theory Scheduler
  imports Config
begin

text \<open>
  Cron scheduling (\<open>src/scheduler.rs\<close>) and the loop that drives it for one camera schedule
  (\<open>run_schedule\<close> in \<open>src/runtime/schedule.rs\<close>). Instants are integer nanoseconds. The cron library,
  the timezone database, the timestamp formatter and SHA-256 are parameters of a plan's environment.

  The search for the next occurrence repeats until the cron library proposes an acceptable instant,
  so it is a partial function: \<open>None\<close> is a search that never returns. The evaluation scans at most
  ten thousand occurrences.

  Shown: soundness and completeness of a decision, that no occurrence is admitted twice, that asking
  about overlap only when it can matter is exact, and that a backlog of ten thousand due occurrences
  stops a schedule for good.
\<close>

section \<open>Plans\<close>

datatype ScheduleScope = ScopeCamera string | ScopeGroup string

fun scope_token :: "ScheduleScope \<Rightarrow> string" where
  "scope_token (ScopeCamera camera) = camera"
| "scope_token (ScopeGroup schedule_id) = ''group:'' @ schedule_id"

fun scope_camera :: "ScheduleScope \<Rightarrow> string option" where
  "scope_camera (ScopeCamera camera) = Some camera"
| "scope_camera (ScopeGroup _) = None"

record ScheduleOccurrence =
  oc_scope :: ScheduleScope
  oc_schedule_id :: string
  oc_intended_fire_time :: int
  oc_admit_at :: int
  oc_jitter :: nat

datatype ScheduleDecision =
    NotDue
  | Admit ScheduleOccurrence nat
  | SkippedMisfire ScheduleOccurrence nat
  | SkippedOverlap ScheduleOccurrence nat

fun consumed_through :: "ScheduleDecision \<Rightarrow> int option" where
  "consumed_through NotDue = None"
| "consumed_through (Admit occ _) = Some (oc_intended_fire_time occ)"
| "consumed_through (SkippedOverlap occ _) = Some (oc_intended_fire_time occ)"
| "consumed_through (SkippedMisfire latest _) = Some (oc_intended_fire_time latest)"

datatype local_result = LocalSingle int | LocalAmbiguous int int | LocalNone

text \<open>What the libraries answer for compiled cron expressions and timezones.\<close>

record ('cron, 'tz) ScheduleEnv =
  cron_from_str :: "string \<Rightarrow> string + 'cron"
  tz_parse :: "string \<Rightarrow> string + 'tz"
  find_next :: "'cron \<Rightarrow> 'tz \<Rightarrow> int \<Rightarrow> string + int"
  time_matching :: "'cron \<Rightarrow> 'tz \<Rightarrow> int \<Rightarrow> string + bool"
  naive_local :: "'tz \<Rightarrow> int \<Rightarrow> int"
  from_local :: "'tz \<Rightarrow> int \<Rightarrow> local_result"
  rfc3339 :: "int \<Rightarrow> string"
  sha256 :: "8 word list \<Rightarrow> 8 word list"

record ('cron, 'tz) SchedulePlan =
  pl_scope :: ScheduleScope
  pl_schedule_id :: string
  pl_cron :: 'cron
  pl_timezone :: 'tz
  pl_jitter_seconds :: nat
  pl_misfire_policy :: MisfirePolicy
  pl_overlap_policy :: OverlapPolicy

definition schedule_error :: "string \<Rightarrow> 'a result" where
  "schedule_error message = Inl (ConfigError ''schedule'' message)"

definition plan_build ::
    "('cron, 'tz) ScheduleEnv \<Rightarrow> ScheduleScope \<Rightarrow> string \<Rightarrow> string \<Rightarrow> string \<Rightarrow> nat \<Rightarrow>
     MisfirePolicy \<Rightarrow> OverlapPolicy \<Rightarrow> ('cron, 'tz) SchedulePlan result" where
  "plan_build env scope schedule_id cron_expression timezone jitter misfire overlap =
     (if split_whitespace_count cron_expression \<noteq> 6
      then schedule_error ''cron must contain exactly six fields including seconds''
      else case cron_from_str env cron_expression of
        Inl e \<Rightarrow> Inl (ConfigError ''schedule.cron'' (''invalid six-field cron: '' @ e))
      | Inr cron \<Rightarrow>
          (case tz_parse env timezone of
             Inl e \<Rightarrow> Inl (ConfigError ''schedule.timezone'' (''invalid IANA timezone: '' @ e))
           | Inr tz \<Rightarrow>
               if 3600 < jitter then schedule_error ''jitterSeconds must be in range 0..=3600''
               else Inr \<lparr>pl_scope = scope, pl_schedule_id = schedule_id, pl_cron = cron,
                         pl_timezone = tz, pl_jitter_seconds = jitter, pl_misfire_policy = misfire,
                         pl_overlap_policy = overlap\<rparr>))"

definition plan_compile ::
    "('cron, 'tz) ScheduleEnv \<Rightarrow> string \<Rightarrow> ScheduleConfig \<Rightarrow> ('cron, 'tz) SchedulePlan result" where
  "plan_compile env camera cfg =
     plan_build env (ScopeCamera camera) (sc_id cfg) (sc_cron cfg) (sc_timezone cfg)
       (sc_jitter_seconds cfg) (sc_misfire_policy cfg) (sc_overlap_policy cfg)"

definition plan_compile_group ::
    "('cron, 'tz) ScheduleEnv \<Rightarrow> CaptureGroupScheduleConfig \<Rightarrow> ('cron, 'tz) SchedulePlan result" where
  "plan_compile_group env cfg =
     plan_build env (ScopeGroup (gs_id cfg)) (gs_id cfg) (gs_cron cfg) (gs_timezone cfg)
       (gs_jitter_seconds cfg) (gs_misfire_policy cfg) (gs_overlap_policy cfg)"

definition key_parts :: "('cron, 'tz) SchedulePlan \<Rightarrow> string \<times> string" where
  "key_parts plan = (scope_token (pl_scope plan), pl_schedule_id plan)"

definition skips_on_overlap :: "('cron, 'tz) SchedulePlan \<Rightarrow> bool" where
  "skips_on_overlap plan = (pl_overlap_policy plan = Overlap_Skip)"

section \<open>Occurrences\<close>

definition string_bytes :: "string \<Rightarrow> 8 word list" where
  "string_bytes s = map (\<lambda>c. of_nat (of_char c)) s"

definition be_u64 :: "8 word list \<Rightarrow> nat" where
  "be_u64 bytes = foldl (\<lambda>acc b. acc * 256 + unat b) 0 (take 8 bytes)"

definition stable_jitter_seconds ::
    "('cron, 'tz) ScheduleEnv \<Rightarrow> string \<Rightarrow> string \<Rightarrow> int \<Rightarrow> nat \<Rightarrow> nat" where
  "stable_jitter_seconds env token schedule_id intended jitter =
     (let bytes = sha256 env (string_bytes token @ [0] @ string_bytes schedule_id @ [0] @
                              string_bytes (rfc3339 env intended))
      in be_u64 bytes mod (jitter + 1))"

definition occurrence ::
    "('cron, 'tz) ScheduleEnv \<Rightarrow> ('cron, 'tz) SchedulePlan \<Rightarrow> int \<Rightarrow> ScheduleOccurrence" where
  "occurrence env plan intended =
     (let j = stable_jitter_seconds env (scope_token (pl_scope plan)) (pl_schedule_id plan) intended
                (pl_jitter_seconds plan)
      in \<lparr>oc_scope = pl_scope plan, oc_schedule_id = pl_schedule_id plan,
          oc_intended_fire_time = intended, oc_admit_at = intended + int j * 1000000000,
          oc_jitter = j\<rparr>)"

definition is_earlier_or_unambiguous :: "('cron, 'tz) ScheduleEnv \<Rightarrow> 'tz \<Rightarrow> int \<Rightarrow> bool" where
  "is_earlier_or_unambiguous env tz candidate =
     (case from_local env tz (naive_local env tz candidate) of
        LocalSingle _ \<Rightarrow> True
      | LocalAmbiguous earlier _ \<Rightarrow> candidate = earlier
      | LocalNone \<Rightarrow> False)"

partial_function (option) next_after ::
    "('cron, 'tz) ScheduleEnv \<Rightarrow> ('cron, 'tz) SchedulePlan \<Rightarrow> int \<Rightarrow> ScheduleOccurrence result option" where
  "next_after env plan cursor =
     (case find_next env (pl_cron plan) (pl_timezone plan) cursor of
        Inl e \<Rightarrow> Some (Inl (CatalogError (''cron search failed: '' @ e)))
      | Inr candidate \<Rightarrow>
          (case time_matching env (pl_cron plan) (pl_timezone plan) candidate of
             Inl e \<Rightarrow> Some (Inl (CatalogError (''cron match verification failed: '' @ e)))
           | Inr m \<Rightarrow>
               if m \<and> is_earlier_or_unambiguous env (pl_timezone plan) candidate
               then Some (Inr (occurrence env plan candidate))
               else next_after env plan candidate))"

section \<open>Evaluation\<close>

definition MAX_OCCURRENCES_PER_EVALUATION :: nat where
  "MAX_OCCURRENCES_PER_EVALUATION = 10000"

definition scan_exceeded :: camera_error where
  "scan_exceeded = CatalogError ''scheduler evaluation exceeded its bounded occurrence scan''"

text \<open>The scan, with the number of occurrences that may still be consumed. The latest due occurrence
  and the number consumed are returned.\<close>

primrec evaluate_scan ::
    "nat \<Rightarrow> ('cron, 'tz) ScheduleEnv \<Rightarrow> ('cron, 'tz) SchedulePlan \<Rightarrow> int \<Rightarrow> int \<Rightarrow>
     ScheduleOccurrence option \<Rightarrow> nat \<Rightarrow> (ScheduleOccurrence option \<times> nat) result option" where
  "evaluate_scan 0 env plan now cursor latest consumed = Some (Inl scan_exceeded)"
| "evaluate_scan (Suc n) env plan now cursor latest consumed =
     (case next_after env plan cursor of
        None \<Rightarrow> None
      | Some (Inl e) \<Rightarrow> Some (Inl e)
      | Some (Inr occ) \<Rightarrow>
          if now < oc_admit_at occ then Some (Inr (latest, consumed))
          else evaluate_scan n env plan now (oc_intended_fire_time occ) (Some occ) (consumed + 1))"

definition chrono_duration_max :: nat where
  "chrono_duration_max = (2 ^ 63 - 1) * 1000000"

definition decide ::
    "('cron, 'tz) SchedulePlan \<Rightarrow> int \<Rightarrow> nat \<Rightarrow> bool \<Rightarrow> ScheduleOccurrence option \<times> nat \<Rightarrow> ScheduleDecision" where
  "decide plan now grace overlap scan =
     (case scan of
        (None, _) \<Rightarrow> NotDue
      | (Some latest, consumed) \<Rightarrow>
          if oc_admit_at latest + int grace < now \<and> pl_misfire_policy plan = Misfire_Skip
          then SkippedMisfire latest consumed
          else if overlap \<and> pl_overlap_policy plan = Overlap_Skip
          then SkippedOverlap latest consumed
          else Admit latest consumed)"

definition evaluate ::
    "('cron, 'tz) ScheduleEnv \<Rightarrow> ('cron, 'tz) SchedulePlan \<Rightarrow> int \<Rightarrow> int \<Rightarrow> nat \<Rightarrow> bool \<Rightarrow>
     ScheduleDecision result option" where
  "evaluate env plan last_consumed now misfire_grace overlap =
     (if chrono_duration_max < misfire_grace
      then Some (Inl (CatalogError ''misfire grace is too large''))
      else case evaluate_scan MAX_OCCURRENCES_PER_EVALUATION env plan now last_consumed None 0 of
        None \<Rightarrow> None
      | Some (Inl e) \<Rightarrow> Some (Inl e)
      | Some (Inr scan) \<Rightarrow> Some (Inr (decide plan now misfire_grace overlap scan)))"

section \<open>The driving loop\<close>

text \<open>One turn of \<open>run_schedule\<close>: decide without the overlap observation, ask for it only when an
  occurrence would be admitted and the policy cares, and advance the cursor over whatever was
  consumed. A failed evaluation is logged and leaves the cursor alone.\<close>

definition observe_overlap ::
    "('cron, 'tz) SchedulePlan \<Rightarrow> bool \<Rightarrow> ScheduleDecision \<Rightarrow> ScheduleDecision" where
  "observe_overlap plan overlap decision =
     (case decision of
        Admit occ consumed \<Rightarrow>
          if skips_on_overlap plan \<and> overlap then SkippedOverlap occ consumed else decision
      | _ \<Rightarrow> decision)"

definition schedule_turn ::
    "('cron, 'tz) ScheduleEnv \<Rightarrow> ('cron, 'tz) SchedulePlan \<Rightarrow> nat \<Rightarrow> int \<Rightarrow> bool \<Rightarrow> int \<Rightarrow>
     (int \<times> ScheduleOccurrence option) option" where
  "schedule_turn env plan grace now overlap last_consumed =
     (case evaluate env plan last_consumed now grace False of
        None \<Rightarrow> None
      | Some (Inl _) \<Rightarrow> Some (last_consumed, None)
      | Some (Inr decision0) \<Rightarrow>
          (case observe_overlap plan overlap decision0 of
             NotDue \<Rightarrow> Some (last_consumed, None)
           | SkippedMisfire latest _ \<Rightarrow> Some (oc_intended_fire_time latest, None)
           | SkippedOverlap occ _ \<Rightarrow> Some (oc_intended_fire_time occ, None)
           | Admit occ _ \<Rightarrow> Some (oc_intended_fire_time occ, Some occ)))"

text \<open>A run over a sequence of polls, each with its clock reading and overlap observation; the
  admitted occurrences in order.\<close>

fun run_schedule ::
    "('cron, 'tz) ScheduleEnv \<Rightarrow> ('cron, 'tz) SchedulePlan \<Rightarrow> nat \<Rightarrow> int \<Rightarrow> (int \<times> bool) list \<Rightarrow>
     (int \<times> ScheduleOccurrence list) option" where
  "run_schedule env plan grace last_consumed [] = Some (last_consumed, [])"
| "run_schedule env plan grace last_consumed ((now, overlap) # polls) =
     (case schedule_turn env plan grace now overlap last_consumed of
        None \<Rightarrow> None
      | Some (cursor, admitted) \<Rightarrow>
          (case run_schedule env plan grace cursor polls of
             None \<Rightarrow> None
           | Some (cursor', rest) \<Rightarrow>
               Some (cursor', (case admitted of None \<Rightarrow> [] | Some occ \<Rightarrow> [occ]) @ rest)))"

text \<open>The loop of a group schedule keeps the identity of the last group it admitted as well, and records
  every consumed occurrence in the durable cursor (\<open>record_group_schedule_occurrence\<close>, an upsert that
  keeps the previous group when none is given). A poll supplies the clock, the answer of the catalog
  about the last group (whether it is terminal, if the row exists), the outcome of the submission, and
  whether the cursor write succeeds.\<close>

record GroupScheduleCursor =
  gc_intended_fire_time_ms :: int
  gc_last_group_id :: "string option"

type_synonym group_cursors = "string \<rightharpoonup> GroupScheduleCursor"

record group_poll =
  gp_now :: int
  gp_group :: "string \<Rightarrow> camera_error + bool option"
  gp_submitted :: "camera_error + string"
  gp_recorded :: bool

record group_loop =
  gl_last_consumed :: int
  gl_last_group_id :: "string option"
  gl_cursors :: group_cursors

definition timestamp_millis :: "int \<Rightarrow> int" where
  "timestamp_millis t = t div 1000000"

definition from_timestamp_millis :: "int \<Rightarrow> int" where
  "from_timestamp_millis ms = ms * 1000000"

definition record_group_schedule_occurrence ::
    "group_cursors \<Rightarrow> string \<Rightarrow> int \<Rightarrow> string option \<Rightarrow> group_cursors" where
  "record_group_schedule_occurrence cursors schedule_id ms group_id =
     (case cursors schedule_id of
        None \<Rightarrow> cursors(schedule_id \<mapsto> \<lparr>gc_intended_fire_time_ms = ms, gc_last_group_id = group_id\<rparr>)
      | Some row \<Rightarrow> cursors(schedule_id \<mapsto> \<lparr>gc_intended_fire_time_ms = ms,
          gc_last_group_id = (case group_id of None \<Rightarrow> gc_last_group_id row | Some g \<Rightarrow> Some g)\<rparr>))"

definition record_group_occurrence ::
    "bool \<Rightarrow> group_cursors \<Rightarrow> string \<Rightarrow> int \<Rightarrow> string option \<Rightarrow> group_cursors" where
  "record_group_occurrence written cursors schedule_id intended group_id =
     (if written
      then record_group_schedule_occurrence cursors schedule_id (timestamp_millis intended) group_id
      else cursors)"

definition group_schedule_overlaps ::
    "(string \<Rightarrow> camera_error + bool option) \<Rightarrow> string option \<Rightarrow> bool" where
  "group_schedule_overlaps lookup last_group_id =
     (case last_group_id of
        None \<Rightarrow> False
      | Some group_id \<Rightarrow>
          (case lookup group_id of
             Inr (Some terminal) \<Rightarrow> \<not> terminal
           | Inr None \<Rightarrow> False
           | Inl _ \<Rightarrow> True))"

definition group_loop_start :: "group_cursors \<Rightarrow> string \<Rightarrow> int \<Rightarrow> group_loop" where
  "group_loop_start cursors schedule_id now =
     \<lparr>gl_last_consumed = (case cursors schedule_id of
         None \<Rightarrow> now - 1000000000
       | Some row \<Rightarrow> from_timestamp_millis (gc_intended_fire_time_ms row)),
      gl_last_group_id = Option.bind (cursors schedule_id) gc_last_group_id,
      gl_cursors = cursors\<rparr>"

definition group_turn ::
    "('cron, 'tz) ScheduleEnv \<Rightarrow> ('cron, 'tz) SchedulePlan \<Rightarrow> nat \<Rightarrow> group_poll \<Rightarrow> group_loop \<Rightarrow>
     group_loop option" where
  "group_turn env plan grace poll gl =
     (let schedule_id = pl_schedule_id plan;
          put = (\<lambda>intended group_id.
            record_group_occurrence (gp_recorded poll) (gl_cursors gl) schedule_id intended group_id)
      in case evaluate env plan (gl_last_consumed gl) (gp_now poll) grace False of
           None \<Rightarrow> None
         | Some (Inl _) \<Rightarrow> Some gl
         | Some (Inr decision) \<Rightarrow>
             (case observe_overlap plan (group_schedule_overlaps (gp_group poll) (gl_last_group_id gl))
                     decision of
                NotDue \<Rightarrow> Some gl
              | SkippedMisfire latest _ \<Rightarrow>
                  Some (gl\<lparr>gl_last_consumed := oc_intended_fire_time latest,
                           gl_cursors := put (oc_intended_fire_time latest) None\<rparr>)
              | SkippedOverlap occ _ \<Rightarrow>
                  Some (gl\<lparr>gl_last_consumed := oc_intended_fire_time occ,
                           gl_cursors := put (oc_intended_fire_time occ) None\<rparr>)
              | Admit occ _ \<Rightarrow>
                  (case gp_submitted poll of
                     Inr group_id \<Rightarrow>
                       Some (gl\<lparr>gl_last_consumed := oc_intended_fire_time occ,
                                gl_last_group_id := Some group_id,
                                gl_cursors := put (oc_intended_fire_time occ) (Some group_id)\<rparr>)
                   | Inl _ \<Rightarrow>
                       Some (gl\<lparr>gl_last_consumed := oc_intended_fire_time occ,
                                gl_cursors := put (oc_intended_fire_time occ) None\<rparr>))))"

fun run_group_schedule ::
    "('cron, 'tz) ScheduleEnv \<Rightarrow> ('cron, 'tz) SchedulePlan \<Rightarrow> nat \<Rightarrow> group_loop \<Rightarrow> group_poll list \<Rightarrow>
     group_loop option" where
  "run_group_schedule env plan grace gl [] = Some gl"
| "run_group_schedule env plan grace gl (poll # polls) =
     (case group_turn env plan grace poll gl of
        None \<Rightarrow> None
      | Some gl' \<Rightarrow> run_group_schedule env plan grace gl' polls)"

section \<open>Occurrences move forward\<close>

text \<open>The documented behaviour of the cron search: the next occurrence lies strictly after the
  instant searched from.\<close>

definition cron_progresses :: "('cron, 'tz) ScheduleEnv \<Rightarrow> bool" where
  "cron_progresses env \<longleftrightarrow> (\<forall>c z t n. find_next env c z t = Inr n \<longrightarrow> t < n)"

lemma occurrence_fields [simp]:
  "oc_intended_fire_time (occurrence env plan t) = t"
  "oc_schedule_id (occurrence env plan t) = pl_schedule_id plan"
  "t \<le> oc_admit_at (occurrence env plan t)"
  by (simp_all add: occurrence_def Let_def)

lemma occurrence_jitter_bound: "oc_jitter (occurrence env plan t) \<le> pl_jitter_seconds plan"
  using mod_less_divisor [of "pl_jitter_seconds plan + 1"]
  by (simp add: occurrence_def Let_def stable_jitter_seconds_def less_Suc_eq_le)

definition next_after_ok ::
    "('cron, 'tz) ScheduleEnv \<Rightarrow> ('cron, 'tz) SchedulePlan \<Rightarrow> int \<Rightarrow> ScheduleOccurrence result \<Rightarrow> bool" where
  "next_after_ok env plan cursor r \<longleftrightarrow> (\<forall>occ. r = Inr occ \<longrightarrow>
     (\<exists>t. find_next env (pl_cron plan) (pl_timezone plan) t = Inr (oc_intended_fire_time occ)) \<and>
     occ = occurrence env plan (oc_intended_fire_time occ) \<and>
     (cron_progresses env \<longrightarrow> cursor < oc_intended_fire_time occ))"

lemma next_after_occurrence:
  assumes "next_after env plan cursor = Some r"
  shows "next_after_ok env plan cursor r"
proof (rule next_after.raw_induct [of next_after_ok, OF _ assms], unfold next_after_ok_def, intro allI impI)
  fix rec and env :: "('a, 'b) ScheduleEnv" and plan cursor r occ
  assume IH: "\<And>env plan cursor r. rec env plan cursor = Some r \<Longrightarrow> \<forall>occ. r = Inr occ \<longrightarrow>
      (\<exists>t. find_next env (pl_cron plan) (pl_timezone plan) t = Inr (oc_intended_fire_time occ)) \<and>
      occ = occurrence env plan (oc_intended_fire_time occ) \<and>
      (cron_progresses env \<longrightarrow> cursor < oc_intended_fire_time occ)"
    and step: "(case find_next env (pl_cron plan) (pl_timezone plan) cursor of
        Inl e \<Rightarrow> Some (Inl (CatalogError (''cron search failed: '' @ e)))
      | Inr candidate \<Rightarrow>
          (case time_matching env (pl_cron plan) (pl_timezone plan) candidate of
             Inl e \<Rightarrow> Some (Inl (CatalogError (''cron match verification failed: '' @ e)))
           | Inr m \<Rightarrow>
               if m \<and> is_earlier_or_unambiguous env (pl_timezone plan) candidate
               then Some (Inr (occurrence env plan candidate))
               else rec env plan candidate)) = Some r"
    and r: "r = Inr occ"
  obtain n where n: "find_next env (pl_cron plan) (pl_timezone plan) cursor = Inr n"
    "cron_progresses env \<longrightarrow> cursor < n"
    using step r by (auto simp: cron_progresses_def split: sum.splits)
  have "r = Inr (occurrence env plan n) \<or> rec env plan n = Some r"
    using step n(1) r by (auto split: sum.splits if_splits)
  then show "(\<exists>t. find_next env (pl_cron plan) (pl_timezone plan) t = Inr (oc_intended_fire_time occ)) \<and>
      occ = occurrence env plan (oc_intended_fire_time occ) \<and>
      (cron_progresses env \<longrightarrow> cursor < oc_intended_fire_time occ)"
  proof
    assume "r = Inr (occurrence env plan n)"
    then show ?thesis using n r by auto
  next
    assume "rec env plan n = Some r"
    then show ?thesis using IH [of env plan n r] r n(2) by force
  qed
qed

lemma next_after_Some:
  assumes "next_after env plan cursor = Some (Inr occ)" and "cron_progresses env"
  shows "cursor < oc_intended_fire_time occ \<and> occ = occurrence env plan (oc_intended_fire_time occ)"
  using next_after_occurrence [OF assms(1)] assms(2) unfolding next_after_ok_def by blast

section \<open>What a decision means\<close>

lemma evaluate_scan_spec:
  assumes "evaluate_scan k env plan now cursor latest consumed = Some (Inr (latest', consumed'))"
    and "cron_progresses env"
    and "\<forall>occ. latest = Some occ \<longrightarrow> cursor = oc_intended_fire_time occ \<and> oc_admit_at occ \<le> now \<and>
           occ = occurrence env plan cursor"
  shows "(latest' = latest \<and> consumed' = consumed \<or>
      (\<exists>occ. latest' = Some occ \<and> cursor < oc_intended_fire_time occ \<and> oc_admit_at occ \<le> now \<and>
         occ = occurrence env plan (oc_intended_fire_time occ) \<and> consumed < consumed')) \<and>
    (\<exists>occ. next_after env plan (case latest' of None \<Rightarrow> cursor | Some l \<Rightarrow> oc_intended_fire_time l) =
       Some (Inr occ) \<and> now < oc_admit_at occ)"
  using assms
proof (induction k arbitrary: cursor latest consumed)
  case (Suc k)
  obtain occ where occ: "next_after env plan cursor = Some (Inr occ)"
    using Suc.prems(1) by (auto split: option.splits sum.splits)
  note nx = next_after_Some [OF occ Suc.prems(2)]
  show ?case
  proof (cases "now < oc_admit_at occ")
    case True
    then show ?thesis using Suc.prems(1,3) occ by (auto split: option.splits)
  next
    case False
    have rec: "evaluate_scan k env plan now (oc_intended_fire_time occ) (Some occ) (consumed + 1) =
        Some (Inr (latest', consumed'))" using Suc.prems(1) occ False by simp
    have "\<forall>l. Some occ = Some l \<longrightarrow> oc_intended_fire_time occ = oc_intended_fire_time l \<and>
        oc_admit_at l \<le> now \<and> l = occurrence env plan (oc_intended_fire_time occ)"
      using False nx by auto
    from Suc.IH [OF rec Suc.prems(2) this] show ?thesis using nx False by fastforce
  qed
qed simp

text \<open>A scheduling decision is sound and leaves nothing due behind. Whenever an evaluation
  decides to consume occurrences, the latest consumed one lies strictly after the cursor and is due,
  with a jitter inside the configured bound; the following occurrence is not yet due; an occurrence
  is admitted only within the misfire grace unless the policy coalesces, and while a predecessor is
  unfinished only if the policy queues; and if nothing is due, the next occurrence indeed lies
  ahead.\<close>

theorem decision_sound:
  assumes "evaluate env plan since now grace overlap = Some (Inr decision)" and "cron_progresses env"
  shows "(\<exists>nxt. next_after env plan (case consumed_through decision of None \<Rightarrow> since | Some t \<Rightarrow> t) =
        Some (Inr nxt) \<and> now < oc_admit_at nxt) \<and>
    (\<forall>occ n. decision \<in> {Admit occ n, SkippedMisfire occ n, SkippedOverlap occ n} \<longrightarrow>
        since < oc_intended_fire_time occ \<and> oc_admit_at occ \<le> now \<and> 0 < n \<and>
        oc_jitter occ \<le> pl_jitter_seconds plan \<and>
        oc_admit_at occ = oc_intended_fire_time occ + int (oc_jitter occ) * 1000000000) \<and>
    (\<forall>occ n. decision = Admit occ n \<longrightarrow>
        (now \<le> oc_admit_at occ + int grace \<or> pl_misfire_policy plan = Coalesce) \<and>
        (overlap \<longrightarrow> pl_overlap_policy plan = Overlap_Queue))"
proof -
  obtain latest consumed where scan: "evaluate_scan MAX_OCCURRENCES_PER_EVALUATION env plan now since None 0
      = Some (Inr (latest, consumed))" and d: "decision = decide plan now grace overlap (latest, consumed)"
    using assms(1) by (auto simp: evaluate_def split: if_splits option.splits sum.splits)
  note spec = evaluate_scan_spec [OF scan assms(2)]
  have through: "(case consumed_through decision of None \<Rightarrow> since | Some t \<Rightarrow> t) =
      (case latest of None \<Rightarrow> since | Some l \<Rightarrow> oc_intended_fire_time l)"
    by (auto simp: d decide_def split: option.splits)
  have ahead: "\<exists>nxt. next_after env plan (case consumed_through decision of None \<Rightarrow> since | Some t \<Rightarrow> t) =
      Some (Inr nxt) \<and> now < oc_admit_at nxt"
    unfolding through using spec by blast
  have due: "since < oc_intended_fire_time occ \<and> oc_admit_at occ \<le> now \<and> 0 < n \<and>
      oc_jitter occ \<le> pl_jitter_seconds plan \<and>
      oc_admit_at occ = oc_intended_fire_time occ + int (oc_jitter occ) * 1000000000"
    if "decision \<in> {Admit occ n, SkippedMisfire occ n, SkippedOverlap occ n}" for occ n
  proof -
    have l: "latest = Some occ" "n = consumed"
      using that by (auto simp: d decide_def split: option.splits if_splits)
    then have *: "since < oc_intended_fire_time occ" "oc_admit_at occ \<le> now" "0 < n"
      "occ = occurrence env plan (oc_intended_fire_time occ)" using spec by auto
    have "oc_jitter occ \<le> pl_jitter_seconds plan"
      by (subst *(4)) (rule occurrence_jitter_bound)
    moreover have "oc_admit_at occ = oc_intended_fire_time occ + int (oc_jitter occ) * 1000000000"
      by (subst *(4), subst (2) *(4)) (simp add: occurrence_def Let_def)
    ultimately show ?thesis using * by blast
  qed
  have admit: "\<forall>occ n. decision = Admit occ n \<longrightarrow>
      (now \<le> oc_admit_at occ + int grace \<or> pl_misfire_policy plan = Coalesce) \<and>
      (overlap \<longrightarrow> pl_overlap_policy plan = Overlap_Queue)"
    by (cases "pl_misfire_policy plan"; cases "pl_overlap_policy plan")
       (auto simp: d decide_def split: option.splits if_splits)
  show ?thesis using ahead due admit by blast
qed

definition every_minute :: "(unit, unit) ScheduleEnv" where
  "every_minute = \<lparr>cron_from_str = (\<lambda>_. Inr ()), tz_parse = (\<lambda>_. Inr ()),
     find_next = (\<lambda>_ _ t. Inr ((t div 60000000000 + 1) * 60000000000)), time_matching = (\<lambda>_ _ _. Inr True),
     naive_local = (\<lambda>_ t. t), from_local = (\<lambda>_ t. LocalSingle t), rfc3339 = (\<lambda>_. []), sha256 = (\<lambda>_. [])\<rparr>"

definition minute_plan :: "(unit, unit) SchedulePlan" where
  "minute_plan = \<lparr>pl_scope = ScopeCamera ''cam-1'', pl_schedule_id = ''minute'', pl_cron = (),
     pl_timezone = (), pl_jitter_seconds = 0, pl_misfire_policy = Misfire_Skip,
     pl_overlap_policy = Overlap_Skip\<rparr>"

lemma every_minute_progresses: "cron_progresses every_minute"
  by (auto simp: cron_progresses_def every_minute_def)

lemma every_minute_next:
  "next_after every_minute minute_plan t =
     Some (Inr (occurrence every_minute minute_plan ((t div 60000000000 + 1) * 60000000000)))"
  by (subst next_after.simps) (simp add: every_minute_def is_earlier_or_unambiguous_def)

lemma minute_occurrence:
  "occurrence every_minute minute_plan t = \<lparr>oc_scope = ScopeCamera ''cam-1'', oc_schedule_id = ''minute'',
     oc_intended_fire_time = t, oc_admit_at = t, oc_jitter = 0\<rparr>"
  by (simp add: occurrence_def stable_jitter_seconds_def minute_plan_def)

lemma minute_evaluate:
  "evaluate every_minute minute_plan 0 90000000000 60000000000 False =
     Some (Inr (Admit \<lparr>oc_scope = ScopeCamera ''cam-1'', oc_schedule_id = ''minute'',
       oc_intended_fire_time = 60000000000, oc_admit_at = 60000000000, oc_jitter = 0\<rparr> 1))"
proof -
  obtain k where M: "MAX_OCCURRENCES_PER_EVALUATION = Suc (Suc k)"
    by (rule that [of 9998]) (simp add: MAX_OCCURRENCES_PER_EVALUATION_def)
  show ?thesis
    by (simp add: evaluate_def M every_minute_next minute_occurrence decide_def chrono_duration_max_def)
qed

theorem decision_sound_witness:
  "\<exists>nxt. next_after every_minute minute_plan 60000000000 = Some (Inr nxt) \<and>
     (90000000000 :: int) < oc_admit_at nxt"
  using decision_sound [OF minute_evaluate every_minute_progresses] by simp


section \<open>The loops\<close>

lemma consumed_through_ahead:
  assumes "evaluate env plan since now grace overlap = Some (Inr decision)" and "cron_progresses env"
  shows "\<forall>t. consumed_through decision = Some t \<longrightarrow> since < t"
proof -
  obtain latest consumed where scan: "evaluate_scan MAX_OCCURRENCES_PER_EVALUATION env plan now since None 0
      = Some (Inr (latest, consumed))" and d: "decision = decide plan now grace overlap (latest, consumed)"
    using assms(1) by (auto simp: evaluate_def split: if_splits option.splits sum.splits)
  have "\<forall>l. latest = Some l \<longrightarrow> since < oc_intended_fire_time l"
    using evaluate_scan_spec [OF scan assms(2)] by auto
  then show ?thesis by (auto simp: d decide_def split: option.splits if_splits)
qed

lemma consumed_through_observe:
  "consumed_through (observe_overlap plan overlap decision) = consumed_through decision"
  by (cases decision) (simp_all add: observe_overlap_def)

lemma schedule_turn_forward:
  assumes "schedule_turn env plan grace now overlap since = Some (cursor, admitted)" and "cron_progresses env"
  shows "since \<le> cursor \<and> (\<forall>occ. admitted = Some occ \<longrightarrow> since < oc_intended_fire_time occ \<and>
    oc_intended_fire_time occ = cursor)"
proof (cases "evaluate env plan since now grace False")
  case None
  then show ?thesis using assms(1) by (simp add: schedule_turn_def)
next
  case (Some r)
  show ?thesis
  proof (cases r)
    case (Inl e)
    then show ?thesis using assms(1) Some by (auto simp: schedule_turn_def)
  next
    case (Inr decision)
    let ?d = "observe_overlap plan overlap decision"
    have c: "cursor = (case consumed_through decision of None \<Rightarrow> since | Some t \<Rightarrow> t)"
      and a: "admitted = (case ?d of Admit occ _ \<Rightarrow> Some occ | _ \<Rightarrow> None)"
      unfolding consumed_through_observe [of plan overlap decision, symmetric]
      using assms(1) Some Inr by (auto simp: schedule_turn_def split: ScheduleDecision.splits)
    have ahead: "\<forall>t. consumed_through decision = Some t \<longrightarrow> since < t"
      using consumed_through_ahead [OF _ assms(2)] Some Inr by blast
    have "consumed_through decision = Some (oc_intended_fire_time occ)" if "admitted = Some occ" for occ
      using that a consumed_through_observe [of plan overlap decision]
      by (cases ?d) auto
    then show ?thesis using c ahead by (cases "consumed_through decision") auto
  qed
qed

lemma run_schedule_forward:
  assumes "run_schedule env plan grace since polls = Some (cursor, admitted)" and "cron_progresses env"
  shows "since \<le> cursor \<and> sorted_wrt (<) (map oc_intended_fire_time admitted) \<and>
    (\<forall>occ \<in> set admitted. since < oc_intended_fire_time occ \<and> oc_intended_fire_time occ \<le> cursor)"
  using assms(1)
proof (induction polls arbitrary: since admitted)
  case (Cons poll polls)
  obtain now overlap where poll: "poll = (now, overlap)" by (cases poll)
  obtain c1 a1 where turn: "schedule_turn env plan grace now overlap since = Some (c1, a1)"
    using Cons.prems poll by (auto split: option.splits)
  obtain rest where rest: "run_schedule env plan grace c1 polls = Some (cursor, rest)"
    and adm: "admitted = (case a1 of None \<Rightarrow> [] | Some occ \<Rightarrow> [occ]) @ rest"
    using Cons.prems poll turn by (auto split: option.splits)
  show ?case
    using Cons.IH [OF rest] schedule_turn_forward [OF turn assms(2)] adm
    by (cases a1) force+
qed simp

text \<open>C19: No occurrence is admitted twice. Over any sequence of polls, with clocks that may stand
  still or run backwards, failing evaluations and any overlap observations, the admitted occurrences
  of a schedule have strictly increasing intended times, all of them after the recovery cursor the
  run started from and none after the cursor it leaves.\<close>

theorem occurrences_admitted_once:
  assumes "run_schedule env plan grace since polls = Some (cursor, admitted)" and "cron_progresses env"
  shows "since \<le> cursor \<and> sorted_wrt (<) (map oc_intended_fire_time admitted) \<and>
    (\<forall>occ \<in> set admitted. since < oc_intended_fire_time occ \<and> oc_intended_fire_time occ \<le> cursor)"
  using run_schedule_forward [OF assms] .

lemma minute_turn:
  "schedule_turn every_minute minute_plan 60000000000 90000000000 False 0 =
     Some (60000000000, Some \<lparr>oc_scope = ScopeCamera ''cam-1'', oc_schedule_id = ''minute'',
       oc_intended_fire_time = 60000000000, oc_admit_at = 60000000000, oc_jitter = 0\<rparr>)"
  by (simp add: schedule_turn_def minute_evaluate observe_overlap_def)

lemma minute_turn_again:
  "schedule_turn every_minute minute_plan 60000000000 90000000000 False 60000000000 = Some (60000000000, None)"
proof -
  obtain k where M: "MAX_OCCURRENCES_PER_EVALUATION = Suc k"
    by (rule that [of 9999]) (simp add: MAX_OCCURRENCES_PER_EVALUATION_def)
  show ?thesis
    by (simp add: schedule_turn_def evaluate_def M every_minute_next minute_occurrence decide_def
        chrono_duration_max_def observe_overlap_def)
qed

theorem occurrences_admitted_once_witness:
  "\<exists>admitted. run_schedule every_minute minute_plan 60000000000 0
       [(90000000000, False), (90000000000, False)] = Some (60000000000, admitted) \<and>
     map oc_intended_fire_time admitted = [60000000000] \<and>
     sorted_wrt (<) (map oc_intended_fire_time admitted)"
proof -
  have "run_schedule every_minute minute_plan 60000000000 0
      [(90000000000, False), (90000000000, False)] = Some (60000000000,
      [\<lparr>oc_scope = ScopeCamera ''cam-1'', oc_schedule_id = ''minute'',
       oc_intended_fire_time = 60000000000, oc_admit_at = 60000000000, oc_jitter = 0\<rparr>])"
    by (simp add: minute_turn minute_turn_again)
  from occurrences_admitted_once [OF this every_minute_progresses] this show ?thesis by simp
qed

text \<open>Asking about overlap late is exact. Evaluating as if nothing overlapped and then looking at
  the overlap only when an occurrence would be admitted under the skipping policy gives the decision
  that evaluating with the observation gives, in every case, errors included.\<close>

theorem late_overlap_exact:
  "evaluate env plan since now grace overlap =
     map_option (map_sum id (observe_overlap plan overlap)) (evaluate env plan since now grace False)"
  by (auto simp: evaluate_def decide_def observe_overlap_def skips_on_overlap_def
      split: option.splits sum.splits ScheduleDecision.splits)


section \<open>The search returns\<close>

text \<open>What the search relies on, up to an instant \<open>stop\<close> that the expression matches and whose local
  time is unambiguous: looking for the next occurrence from any earlier instant succeeds, moves
  forward and does not jump past \<open>stop\<close>, and the match test does not fail.\<close>

definition cron_reaches ::
    "('cron, 'tz) ScheduleEnv \<Rightarrow> ('cron, 'tz) SchedulePlan \<Rightarrow> int \<Rightarrow> int \<Rightarrow> bool" where
  "cron_reaches env plan since stop \<longleftrightarrow>
     (\<forall>t. since \<le> t \<and> t < stop \<longrightarrow> (\<exists>n m. find_next env (pl_cron plan) (pl_timezone plan) t = Inr n \<and>
        t < n \<and> n \<le> stop \<and> time_matching env (pl_cron plan) (pl_timezone plan) n = Inr m)) \<and>
     time_matching env (pl_cron plan) (pl_timezone plan) stop = Inr True \<and>
     is_earlier_or_unambiguous env (pl_timezone plan) stop"

lemma next_after_reaches:
  assumes "cron_reaches env plan since stop" and "since \<le> cursor" and "cursor < stop"
  shows "\<exists>occ. next_after env plan cursor = Some (Inr occ) \<and> oc_intended_fire_time occ \<le> stop"
  using assms(2,3)
proof (induction "nat (stop - cursor)" arbitrary: cursor rule: less_induct)
  case less
  obtain n m where n: "find_next env (pl_cron plan) (pl_timezone plan) cursor = Inr n" "cursor < n" "n \<le> stop"
    "time_matching env (pl_cron plan) (pl_timezone plan) n = Inr m"
    using assms(1) less.prems unfolding cron_reaches_def by blast
  show ?case
  proof (cases "m \<and> is_earlier_or_unambiguous env (pl_timezone plan) n")
    case True
    then show ?thesis using n by (subst next_after.simps) simp
  next
    case False
    then have "n \<noteq> stop" using n(4) assms(1) unfolding cron_reaches_def by auto
    then have "n < stop" using n(3) by simp
    then have "\<exists>occ. next_after env plan n = Some (Inr occ) \<and> oc_intended_fire_time occ \<le> stop"
      using less.hyps [of n] less.prems n(2) by simp
    then show ?thesis using n False by (subst next_after.simps) auto
  qed
qed

text \<open>C28: The search for the next occurrence returns. If some later instant is matched by the cron
  expression and is an unambiguous local time, and the cron library does not skip past it, the search
  stops with an occurrence strictly after the instant searched from and not after that instant, with
  a jitter inside the configured bound, however many ambiguous or mismatching candidates lie in
  between.\<close>

theorem next_after_returns:
  assumes "cron_reaches env plan since stop" and "since < stop" and "cron_progresses env"
  shows "\<exists>occ. next_after env plan since = Some (Inr occ) \<and> since < oc_intended_fire_time occ \<and>
    oc_intended_fire_time occ \<le> stop \<and> oc_jitter occ \<le> pl_jitter_seconds plan"
proof -
  obtain occ where occ: "next_after env plan since = Some (Inr occ)" "oc_intended_fire_time occ \<le> stop"
    using next_after_reaches [OF assms(1) order_refl assms(2)] by blast
  note fwd = next_after_Some [OF occ(1) assms(3)]
  have "oc_jitter occ \<le> pl_jitter_seconds plan"
    by (subst conjunct2 [OF fwd]) (rule occurrence_jitter_bound)
  with occ fwd show ?thesis by blast
qed

text \<open>A timezone that repeats the second minute: the search has to step over the repeated instant.\<close>

definition repeated_minute :: "(unit, unit) ScheduleEnv" where
  "repeated_minute = every_minute\<lparr>from_local := (\<lambda>_ t.
     if t = 120000000000 then LocalAmbiguous 60000000000 t else LocalSingle t)\<rparr>"

lemma repeated_minute_reaches: "cron_reaches repeated_minute minute_plan 60000000000 180000000000"
proof -
  have "t < (t div 60000000000 + 1) * 60000000000 \<and> (t div 60000000000 + 1) * 60000000000 \<le> 180000000000"
    if "t < 180000000000" for t :: int
  proof -
    define q r where "q = t div 60000000000" and "r = t mod 60000000000"
    have "q < 3" unfolding q_def using that by (simp add: div_less_iff_less_mult)
    moreover have "r < 60000000000" "t = q * 60000000000 + r" by (simp_all add: q_def r_def)
    ultimately show ?thesis unfolding q_def [symmetric] by simp
  qed
  then show ?thesis
    by (auto simp: cron_reaches_def repeated_minute_def every_minute_def is_earlier_or_unambiguous_def)
qed

theorem next_after_returns_witness:
  "\<exists>occ. next_after repeated_minute minute_plan 60000000000 = Some (Inr occ) \<and>
     60000000000 < oc_intended_fire_time occ \<and> oc_intended_fire_time occ \<le> 180000000000"
proof -
  have "cron_progresses repeated_minute"
    using every_minute_progresses by (simp add: cron_progresses_def repeated_minute_def)
  from next_after_returns [OF repeated_minute_reaches _ this] show ?thesis by auto
qed

section \<open>A backlog that is too long\<close>

lemma evaluate_scan_backlog:
  assumes "\<forall>i < k. \<exists>occ. next_after env plan (f i) = Some (Inr occ) \<and>
      oc_intended_fire_time occ = f (Suc i) \<and> oc_admit_at occ \<le> now"
  shows "evaluate_scan k env plan now (f 0) latest consumed = Some (Inl scan_exceeded)"
  using assms
proof (induction k arbitrary: f latest consumed)
  case (Suc k)
  obtain occ where occ: "next_after env plan (f 0) = Some (Inr occ)" "oc_intended_fire_time occ = f (Suc 0)"
    "oc_admit_at occ \<le> now" using Suc.prems by blast
  have "evaluate_scan k env plan now (f (Suc 0)) (Some occ) (consumed + 1) = Some (Inl scan_exceeded)"
    using Suc.prems by (intro Suc.IH [of "\<lambda>i. f (Suc i)"]) auto
  then show ?case using occ by simp
qed simp

text \<open>C38: A backlog of ten thousand due occurrences stops a camera schedule for good. If that many
  successive occurrences after the recovery cursor are due at some instant, then from that instant on
  no sequence of polls, of any length, admits anything or moves the cursor, whatever the policies say:
  the evaluation fails every time and its failure leaves the cursor where it was.\<close>

theorem backlog_stops_schedule:
  assumes "\<forall>i < MAX_OCCURRENCES_PER_EVALUATION. \<exists>occ. next_after env plan (f i) = Some (Inr occ) \<and>
      oc_intended_fire_time occ = f (Suc i) \<and> oc_admit_at occ \<le> now"
    and "\<forall>poll \<in> set polls. now \<le> fst poll"
  shows "run_schedule env plan grace (f 0) polls = Some (f 0, [])"
  using assms(2)
proof (induction polls)
  case (Cons poll polls)
  obtain now' overlap where poll: "poll = (now', overlap)" by (cases poll)
  then have "now \<le> now'" using Cons.prems by simp
  then have "\<forall>i < MAX_OCCURRENCES_PER_EVALUATION. \<exists>occ. next_after env plan (f i) = Some (Inr occ) \<and>
      oc_intended_fire_time occ = f (Suc i) \<and> oc_admit_at occ \<le> now'"
    using assms(1) order_trans by blast
  from evaluate_scan_backlog [OF this] have "schedule_turn env plan grace now' overlap (f 0) = Some (f 0, None)"
    by (simp add: schedule_turn_def evaluate_def)
  then show ?case using Cons poll by simp
qed simp

theorem backlog_stops_schedule_witness:
  "run_schedule every_minute minute_plan 5000000000 0
     [(600000000000000, False), (700000000000000, False), (800000000000000, False)] = Some (0, [])"
proof -
  have "\<forall>i < MAX_OCCURRENCES_PER_EVALUATION. \<exists>occ.
      next_after every_minute minute_plan (int i * 60000000000) = Some (Inr occ) \<and>
      oc_intended_fire_time occ = int (Suc i) * 60000000000 \<and> oc_admit_at occ \<le> 600000000000000"
    by (auto simp: every_minute_next minute_occurrence MAX_OCCURRENCES_PER_EVALUATION_def)
  from backlog_stops_schedule [OF this, where grace = 5000000000 and
      polls = "[(600000000000000, False), (700000000000000, False), (800000000000000, False)]"]
  show ?thesis by simp
qed


section \<open>Restarting a group schedule\<close>

text \<open>The documented granularity of the cron library: occurrences fall on whole seconds.\<close>

definition cron_whole_seconds :: "('cron, 'tz) ScheduleEnv \<Rightarrow> bool" where
  "cron_whole_seconds env \<longleftrightarrow> (\<forall>c z t n. find_next env c z t = Inr n \<longrightarrow> n mod 1000000000 = 0)"

lemma whole_seconds_roundtrip:
  "t mod 1000000000 = 0 \<Longrightarrow> from_timestamp_millis (timestamp_millis t) = t"
  by (auto simp: from_timestamp_millis_def timestamp_millis_def)

lemma evaluate_scan_whole:
  assumes "evaluate_scan k env plan now cursor latest consumed = Some (Inr (latest', consumed'))"
    and "cron_whole_seconds env" and "\<forall>occ. latest = Some occ \<longrightarrow> oc_intended_fire_time occ mod 1000000000 = 0"
  shows "\<forall>occ. latest' = Some occ \<longrightarrow> oc_intended_fire_time occ mod 1000000000 = 0"
  using assms
proof (induction k arbitrary: cursor latest consumed)
  case (Suc k)
  obtain occ where occ: "next_after env plan cursor = Some (Inr occ)"
    using Suc.prems(1) by (auto split: option.splits sum.splits)
  then have whole: "oc_intended_fire_time occ mod 1000000000 = 0"
    using next_after_occurrence [OF occ] Suc.prems(2) unfolding next_after_ok_def cron_whole_seconds_def by blast
  show ?case
  proof (cases "now < oc_admit_at occ")
    case True
    then show ?thesis using Suc.prems(1,3) occ by auto
  next
    case False
    then have "evaluate_scan k env plan now (oc_intended_fire_time occ) (Some occ) (consumed + 1) =
        Some (Inr (latest', consumed'))" using Suc.prems(1) occ by simp
    from Suc.IH [OF this Suc.prems(2)] show ?thesis using whole by simp
  qed
qed simp

lemma evaluate_whole:
  assumes "evaluate env plan since now grace overlap = Some (Inr decision)" and "cron_whole_seconds env"
  shows "\<forall>t. consumed_through decision = Some t \<longrightarrow> t mod 1000000000 = 0"
proof -
  obtain latest consumed where scan: "evaluate_scan MAX_OCCURRENCES_PER_EVALUATION env plan now since None 0
      = Some (Inr (latest, consumed))" and d: "decision = decide plan now grace overlap (latest, consumed)"
    using assms(1) by (auto simp: evaluate_def split: if_splits option.splits sum.splits)
  show ?thesis using evaluate_scan_whole [OF scan assms(2)]
    by (auto simp: d decide_def split: option.splits if_splits)
qed

text \<open>The loop's state agrees with its durable row, if there is one.\<close>

definition cursor_matches :: "string \<Rightarrow> group_loop \<Rightarrow> bool" where
  "cursor_matches schedule_id gl \<longleftrightarrow>
     (case gl_cursors gl schedule_id of
        None \<Rightarrow> gl_last_group_id gl = None
      | Some row \<Rightarrow> from_timestamp_millis (gc_intended_fire_time_ms row) = gl_last_consumed gl \<and>
          gc_last_group_id row = gl_last_group_id gl)"

lemma cursor_matches_start: "cursor_matches schedule_id (group_loop_start cursors schedule_id now)"
  by (auto simp: cursor_matches_def group_loop_start_def split: option.splits)

lemma cursor_matches_consume:
  assumes "cursor_matches schedule_id gl" and "t mod 1000000000 = 0"
  shows "cursor_matches schedule_id (gl\<lparr>gl_last_consumed := t,
      gl_cursors := record_group_occurrence True (gl_cursors gl) schedule_id t None\<rparr>)"
    and "cursor_matches schedule_id (gl\<lparr>gl_last_consumed := t, gl_last_group_id := Some g,
      gl_cursors := record_group_occurrence True (gl_cursors gl) schedule_id t (Some g)\<rparr>)"
  using assms by (auto simp: cursor_matches_def record_group_occurrence_def whole_seconds_roundtrip
      record_group_schedule_occurrence_def split: option.splits)

lemma group_turn_matches:
  assumes "group_turn env plan grace poll gl = Some gl'" and "gp_recorded poll"
    and "cron_whole_seconds env" and "cursor_matches (pl_schedule_id plan) gl"
  shows "cursor_matches (pl_schedule_id plan) gl'"
proof (cases "evaluate env plan (gl_last_consumed gl) (gp_now poll) grace False")
  case (Some r)
  show ?thesis
  proof (cases r)
    case (Inr decision)
    let ?d = "observe_overlap plan (group_schedule_overlaps (gp_group poll) (gl_last_group_id gl)) decision"
    have whole: "\<forall>t. consumed_through ?d = Some t \<longrightarrow> t mod 1000000000 = 0"
      using evaluate_whole [OF _ assms(3)] Some Inr by (simp add: consumed_through_observe)
    note consume = cursor_matches_consume [OF assms(4)]
    show ?thesis
      using assms(1,2,4) Some Inr whole consume
      by (cases ?d) (auto simp: group_turn_def Let_def split: sum.splits)
  qed (use assms Some in \<open>simp add: group_turn_def\<close>)
qed (use assms in \<open>simp add: group_turn_def\<close>)

lemma run_group_matches:
  assumes "run_group_schedule env plan grace gl polls = Some gl'" and "\<forall>poll \<in> set polls. gp_recorded poll"
    and "cron_whole_seconds env" and "cursor_matches (pl_schedule_id plan) gl"
  shows "cursor_matches (pl_schedule_id plan) gl'"
  using assms(1,2,4)
proof (induction polls arbitrary: gl)
  case (Cons poll polls)
  then show ?case using group_turn_matches [OF _ _ assms(3)] by (fastforce split: option.splits)
qed simp

text \<open>Restarting a group schedule is transparent. If the cursor writes of a run succeeded and some
  occurrence has ever been recorded, then a loop started afresh from the durable row, at any later
  time, has exactly the state the previous loop had: the same consumed instant and the same previous
  group to test for overlap, also when the last occurrences were skipped or failed to be submitted.\<close>

theorem group_restart_transparent:
  assumes "run_group_schedule env plan grace (group_loop_start cursors (pl_schedule_id plan) start) polls = Some gl"
    and "\<forall>poll \<in> set polls. gp_recorded poll" and "cron_whole_seconds env"
    and "gl_cursors gl (pl_schedule_id plan) \<noteq> None"
  shows "group_loop_start (gl_cursors gl) (pl_schedule_id plan) later = gl"
proof -
  have "cursor_matches (pl_schedule_id plan) gl"
    using run_group_matches [OF assms(1-3) cursor_matches_start] .
  then show ?thesis using assms(4) by (auto simp: cursor_matches_def group_loop_start_def)
qed

lemma minute_group_turn:
  "group_turn every_minute minute_plan 60000000000
     \<lparr>gp_now = 90000000000, gp_group = (\<lambda>_. Inr None), gp_submitted = Inr ''g1'', gp_recorded = True\<rparr>
     \<lparr>gl_last_consumed = 0, gl_last_group_id = None, gl_cursors = Map.empty\<rparr> =
   Some \<lparr>gl_last_consumed = 60000000000, gl_last_group_id = Some ''g1'',
     gl_cursors = [''minute'' \<mapsto> \<lparr>gc_intended_fire_time_ms = 60000, gc_last_group_id = Some ''g1''\<rparr>]\<rparr>"
  by (simp add: group_turn_def minute_evaluate observe_overlap_def group_schedule_overlaps_def
      record_group_occurrence_def record_group_schedule_occurrence_def timestamp_millis_def
      minute_plan_def [THEN arg_cong [where f = pl_schedule_id]])

theorem group_restart_transparent_witness:
  "group_loop_start [''minute'' \<mapsto> \<lparr>gc_intended_fire_time_ms = 60000, gc_last_group_id = Some ''g1''\<rparr>]
     ''minute'' 95000000000 = \<lparr>gl_last_consumed = 60000000000, gl_last_group_id = Some ''g1'',
     gl_cursors = [''minute'' \<mapsto> \<lparr>gc_intended_fire_time_ms = 60000, gc_last_group_id = Some ''g1''\<rparr>]\<rparr>"
proof -
  let ?poll = "\<lparr>gp_now = 90000000000, gp_group = (\<lambda>_. Inr None), gp_submitted = Inr ''g1'', gp_recorded = True\<rparr>"
  have id: "pl_schedule_id minute_plan = ''minute''" by (simp add: minute_plan_def)
  have start: "group_loop_start Map.empty ''minute'' 1000000000 =
      \<lparr>gl_last_consumed = 0, gl_last_group_id = None, gl_cursors = Map.empty\<rparr>"
    by (simp add: group_loop_start_def)
  have run: "run_group_schedule every_minute minute_plan 60000000000
      (group_loop_start Map.empty (pl_schedule_id minute_plan) 1000000000) [?poll] =
      Some \<lparr>gl_last_consumed = 60000000000, gl_last_group_id = Some ''g1'',
        gl_cursors = [''minute'' \<mapsto> \<lparr>gc_intended_fire_time_ms = 60000, gc_last_group_id = Some ''g1''\<rparr>]\<rparr>"
    by (simp add: id start minute_group_turn)
  have "cron_whole_seconds every_minute" by (auto simp: cron_whole_seconds_def every_minute_def)
  from group_restart_transparent [OF run _ this, of 95000000000] show ?thesis by (simp add: id)
qed

section \<open>Durable identities\<close>

text \<open>A camera schedule and a group schedule never share a durable key: the scope tokens of two
  plans whose camera identifiers are valid tokens agree only if the scopes do.\<close>

theorem scope_token_injective:
  assumes "\<forall>camera. a = ScopeCamera camera \<longrightarrow> check_token camera path = Inr ()"
    and "\<forall>camera. b = ScopeCamera camera \<longrightarrow> check_token camera path = Inr ()"
  shows "scope_token a = scope_token b \<longleftrightarrow> a = b"
proof -
  have "camera \<noteq> ''group:'' @ schedule_id" if "check_token camera path = Inr ()" for camera schedule_id
    using that by (auto simp: check_token_def config_error_def is_token_byte_def is_ascii_alphabetic_def
        is_ascii_digit_def split: if_splits)
  then show ?thesis using assms by (cases a; cases b) fastforce+
qed

theorem scope_token_injective_witness:
  "scope_token (ScopeCamera ''cam-1'') \<noteq> scope_token (ScopeGroup ''cam-1'')"
  using scope_token_injective [of "ScopeCamera ''cam-1''" _ "ScopeGroup ''cam-1''"]
  by (simp add: check_token_def is_token_byte_def is_ascii_alphabetic_def is_ascii_digit_def)

end
