(* ===== verification/Storage_Pressure.thy ===== *)
theory Storage_Pressure
  imports Resource_Budgets
begin

text \<open>
  Filesystem pressure (\<open>src/storage_pressure.rs\<close>): how the two configured roots are assessed, when new
  captures are turned away, and which root represents the alarm. The filesystem probe is a parameter.

  Shown: the assessment and the floor of the disk budget agree on what counts as pressure, and the
  alarm names the worst root exactly when captures are rejected.
\<close>

record RootPressure =
  rp_root :: string
  free_bytes :: "u64 option"
  free_percent :: "nat option"
  pressured :: bool
  readable :: bool

definition unavailable :: "RootPressure \<Rightarrow> bool" where
  "unavailable r = (\<not> readable r \<or> pressured r)"

record StoragePressureSnapshot =
  sp_output :: RootPressure
  sp_state :: RootPressure

definition rejects_new_captures :: "StoragePressureSnapshot \<Rightarrow> bool" where
  "rejects_new_captures s = (unavailable (sp_output s) \<or> unavailable (sp_state s))"

definition state_available :: "StoragePressureSnapshot \<Rightarrow> bool" where
  "state_available s = (\<not> unavailable (sp_state s))"

fun pressure_rank :: "RootPressure \<Rightarrow> nat \<times> nat \<times> u64" where
  "pressure_rank r =
     (case (readable r, free_percent r, free_bytes r) of
        (False, _, _) \<Rightarrow> (0, 0, 0)
      | (True, Some percent, Some bytes) \<Rightarrow> (1, percent, bytes)
      | (True, _, _) \<Rightarrow> (0, 0, 0))"

text \<open>The derived order of a tuple of integers.\<close>

fun rank_le :: "nat \<times> nat \<times> u64 \<Rightarrow> nat \<times> nat \<times> u64 \<Rightarrow> bool" where
  "rank_le (a, b, c) (a', b', c') = (a < a' \<or> a = a' \<and> (b < b' \<or> b = b' \<and> c \<le> c'))"

definition alarm_root :: "StoragePressureSnapshot \<Rightarrow> RootPressure option" where
  "alarm_root s =
     (case (unavailable (sp_output s), unavailable (sp_state s)) of
        (False, False) \<Rightarrow> None
      | (True, False) \<Rightarrow> Some (sp_output s)
      | (False, True) \<Rightarrow> Some (sp_state s)
      | (True, True) \<Rightarrow>
          if rank_le (pressure_rank (sp_state s)) (pressure_rank (sp_output s)) then Some (sp_state s)
          else Some (sp_output s))"

record StoragePressureMonitor =
  output_root :: string
  state_root :: string
  mon_minimum_free_bytes :: u64
  mon_minimum_free_percent :: nat

definition monitor_new :: "string \<Rightarrow> string \<Rightarrow> OutputConfig \<Rightarrow> StoragePressureMonitor" where
  "monitor_new out_root st_root cfg =
     \<lparr>output_root = out_root, state_root = st_root, mon_minimum_free_bytes = minimum_free_bytes cfg,
      mon_minimum_free_percent = minimum_free_percent cfg\<rparr>"

text \<open>The product of the free bytes and a hundred is taken in 128 bits and cannot overflow.\<close>

definition assess_space :: "string \<Rightarrow> DiskSpace \<Rightarrow> u64 \<Rightarrow> nat \<Rightarrow> RootPressure" where
  "assess_space path space min_bytes min_percent =
     (let percent =
        (if total_bytes space = 0 then 0
         else let q = unat (available_bytes space) * 100 div unat (total_bytes space)
              in if q < 256 then q else 100)
      in \<lparr>rp_root = path, free_bytes = Some (available_bytes space), free_percent = Some percent,
          pressured = (available_bytes space < min_bytes \<or> percent < min_percent), readable = True\<rparr>)"

definition assess_root ::
    "(string \<Rightarrow> DiskSpace result) \<Rightarrow> StoragePressureMonitor \<Rightarrow> string \<Rightarrow> RootPressure" where
  "assess_root space m path =
     (case space path of
        Inr sp \<Rightarrow> assess_space path sp (mon_minimum_free_bytes m) (mon_minimum_free_percent m)
      | Inl _ \<Rightarrow> \<lparr>rp_root = path, free_bytes = None, free_percent = None, pressured = False,
                 readable = False\<rparr>)"

text \<open>Two probes happen one after the other, so each has its own answer; equal roots share one.\<close>

definition assess ::
    "(string \<Rightarrow> DiskSpace result) \<Rightarrow> (string \<Rightarrow> DiskSpace result) \<Rightarrow> StoragePressureMonitor \<Rightarrow>
     StoragePressureSnapshot" where
  "assess space1 space2 m =
     (let out = assess_root space1 m (output_root m)
      in \<lparr>sp_output = out,
          sp_state = (if output_root m = state_root m then out\<lparr>rp_root := state_root m\<rparr>
                      else assess_root space2 m (state_root m))\<rparr>)"

section \<open>Agreement with the disk budget\<close>

lemma div_less_iff_mult: "0 < (t :: nat) \<Longrightarrow> a div t < n \<longleftrightarrow> a < n * t"
  by (simp add: div_less_iff_less_mult)

lemma ceil_div_le_iff: "(t * p + 99) div 100 \<le> (a :: nat) \<longleftrightarrow> t * p \<le> a * 100"
  by linarith

text \<open>Pressure and reservations agree. On a filesystem of positive size whose free space does not
  exceed it, a root is reported as pressured exactly when the disk budget, with nothing outstanding,
  refuses even an empty reservation under the same configured floors: rounding the free percentage
  down and rounding the percentage floor up come to the same threshold.\<close>

theorem pressure_matches_reservation_floor:
  assumes "0 < total_bytes space" and "available_bytes space \<le> total_bytes space" and "p \<le> 100"
  shows "pressured (assess_space path space fl p) \<longleftrightarrow>
    \<not> is_ok (snd (disk_commit 0 space \<lparr>floor_bytes = fl, floor_percent = p, outstanding = 0\<rparr>))"
proof -
  let ?a = "unat (available_bytes space)" and ?t = "unat (total_bytes space)"
  have t: "0 < ?t" "?a \<le> ?t" using assms(1,2) by (simp_all add: word_less_nat_alt word_le_nat_alt)
  have "?a * 100 div ?t \<le> ?t * 100 div ?t" using t(2) by (intro div_le_mono mult_le_mono1)
  then have "?a * 100 div ?t \<le> 100" using t(1) by simp
  then have percent: "pressured (assess_space path space fl p) \<longleftrightarrow>
      ?a < unat fl \<or> ?a * 100 div ?t < p"
    using assms(1) by (auto simp: assess_space_def Let_def word_less_nat_alt)
  obtain f where f: "percentage_floor (total_bytes space) p = Inr f" "unat f = (?t * p + 99) div 100"
    using percentage_floor_exact [OF assms(3)] by blast
  have low: "?a * 100 div ?t < p \<longleftrightarrow> ?a < unat f"
  proof -
    have "?a * 100 div ?t < p \<longleftrightarrow> ?a * 100 < p * ?t" by (rule div_less_iff_mult [OF t(1)])
    also have "\<dots> \<longleftrightarrow> \<not> ?t * p \<le> ?a * 100" by (simp only: not_le mult.commute)
    also have "\<dots> \<longleftrightarrow> \<not> unat f \<le> ?a" unfolding f(2) by (simp only: ceil_div_le_iff)
    finally show ?thesis by (simp only: not_le)
  qed
  have "is_ok (snd (disk_commit 0 space \<lparr>floor_bytes = fl, floor_percent = p, outstanding = 0\<rparr>)) \<longleftrightarrow>
      \<not> available_bytes space < max fl f"
  proof -
    have "\<not> total_bytes space < available_bytes space" using assms(2) by (simp add: not_less)
    moreover have "checked_add (0 :: u64) 0 = Some 0" "checked_add 0 (max fl f) = Some (max fl f)"
      using unat_u64_less [of "max fl f"] by (simp_all add: checked_add_def)
    ultimately show ?thesis using f(1) by (simp add: disk_commit_def Let_def)
  qed
  then show ?thesis unfolding percent low
    by (auto simp: word_le_nat_alt word_less_nat_alt not_le max_def split: if_splits)
qed

theorem pressure_matches_reservation_floor_witness:
  "pressured (assess_space ''/data'' \<lparr>available_bytes = 9, total_bytes = 200\<rparr> 0 5) \<longleftrightarrow>
    \<not> is_ok (snd (disk_commit 0 \<lparr>available_bytes = 9, total_bytes = 200\<rparr>
      \<lparr>floor_bytes = 0, floor_percent = 5, outstanding = 0\<rparr>))"
  by (rule pressure_matches_reservation_floor) simp_all

section \<open>The alarm\<close>

lemma rank_le_total: "rank_le a b \<or> rank_le b a"
  by (cases a; cases b) (auto simp: not_less linorder_not_le)

lemma rank_le_refl: "rank_le a a"
  by (cases a) simp

text \<open>The alarm is raised exactly when captures are turned away, always for a root that is
  unavailable, and for the worse of the two when both are; the state root being available is exactly
  what keeps the durable catalog ready.\<close>

theorem alarm_names_worst_root:
  "(alarm_root s = None \<longleftrightarrow> \<not> rejects_new_captures s) \<and>
   (\<forall>r. alarm_root s = Some r \<longrightarrow> unavailable r \<and>
      (\<forall>q \<in> {sp_output s, sp_state s}. unavailable q \<longrightarrow> rank_le (pressure_rank r) (pressure_rank q))) \<and>
   (\<not> state_available s \<longrightarrow> rejects_new_captures s)"
  using rank_le_total [of "pressure_rank (sp_state s)" "pressure_rank (sp_output s)"]
  by (auto simp: alarm_root_def rejects_new_captures_def state_available_def rank_le_refl
      split: bool.splits)

theorem alarm_names_worst_root_witness:
  "unavailable (the (alarm_root (assess (\<lambda>_. Inr \<lparr>available_bytes = 1, total_bytes = 100\<rparr>)
     (\<lambda>_. Inl (StorageError ''unreadable''))
     \<lparr>output_root = ''/data'', state_root = ''/state'', mon_minimum_free_bytes = 0,
      mon_minimum_free_percent = 5\<rparr>)))"
proof -
  let ?s = "assess (\<lambda>_. Inr \<lparr>available_bytes = 1, total_bytes = 100\<rparr>) (\<lambda>_. Inl (StorageError ''unreadable''))
     \<lparr>output_root = ''/data'', state_root = ''/state'', mon_minimum_free_bytes = 0,
      mon_minimum_free_percent = 5\<rparr>"
  have "rejects_new_captures ?s"
    by (simp add: assess_def assess_root_def assess_space_def rejects_new_captures_def unavailable_def)
  then show ?thesis using alarm_names_worst_root [of ?s] by (cases "alarm_root ?s") auto
qed

end
