(* ===== verification/Idempotency.thy ===== *)
theory Idempotency
  imports Camera_Error Json
begin

text \<open>
  Request identity (\<open>src/idempotency.rs\<close>): the contract of a caller's \<open>requestId\<close>, and the canonical
  byte form of a command whose SHA-256 is the fingerprint stored in the command ledger. How the JSON
  library prints a string and a number, the Unicode category of a character and the digest are
  parameters.

  Shown: two commands have the same canonical bytes exactly when they are the same command, up to
  their request identifier, the order of object keys and (where asked for) the order of the camera
  list.
\<close>

type_synonym RequestHash = "8 word list"

datatype general_category = Cc | Cf | OtherCategory

record json_lexis =
  lx_string :: "string \<Rightarrow> string"
  lx_number :: "json_number \<Rightarrow> string"

definition bad_args :: "string \<Rightarrow> 'a result" where
  "bad_args message = Inl (Rejected BadArgs message)"

definition validate_request_id :: "(string \<Rightarrow> general_category) \<Rightarrow> string \<Rightarrow> unit result" where
  "validate_request_id category request_id =
     (if request_id = [] \<or> 256 < length request_id
      then bad_args ''requestId must contain 1 to 256 UTF-8 bytes''
      else if list_ex (\<lambda>c. category c = Cc \<or> category c = Cf) (utf8_chars request_id)
      then bad_args ''requestId must not contain control or format characters''
      else Inr ())"

section \<open>The canonical form\<close>

fun comma_separated :: "string list \<Rightarrow> string" where
  "comma_separated [] = []"
| "comma_separated [x] = x"
| "comma_separated (x # y # xs) = x @ '','' @ comma_separated (y # xs)"

definition entry_bytes :: "json_lexis \<Rightarrow> string \<times> string \<Rightarrow> string" where
  "entry_bytes lx = (\<lambda>(key, child). lx_string lx key @ '':'' @ child)"

lemma size_snd_entry [termination_simp]:
  "(k, v) \<in> set kvs \<Longrightarrow> size v < Suc (size_list (size_prod (\<lambda>_. 0) size) kvs)"
  by (induction kvs) auto

lemma size_array_element [termination_simp]: "v \<in> set vs \<Longrightarrow> size v < Suc (size_list size vs)"
  by (induction vs) auto

text \<open>\<open>encode_value\<close> below the root, where nothing is excluded or reordered but object keys. The
  children of an object are emitted in the order of their keys.\<close>

fun encode_nested :: "json_lexis \<Rightarrow> json \<Rightarrow> string" where
  "encode_nested lx JNull = ''null''"
| "encode_nested lx (JBool b) = (if b then ''true'' else ''false'')"
| "encode_nested lx (JNumber n) = lx_number lx n"
| "encode_nested lx (JString s) = lx_string lx s"
| "encode_nested lx (JArray vs) = ''['' @ comma_separated (map (encode_nested lx) vs) @ '']''"
| "encode_nested lx (JObject kvs) =
     ''{'' @ comma_separated (map (entry_bytes lx)
       (sort_key fst (map (\<lambda>(key, child). (key, encode_nested lx child)) kvs))) @ ''}''"

fun instance_names :: "json list \<Rightarrow> string list result" where
  "instance_names [] = Inr []"
| "instance_names (v # vs) =
     (case json_as_str v of
        None \<Rightarrow> bad_args ''instances entries must be strings''
      | Some s \<Rightarrow> and_then (instance_names vs) (\<lambda>ss. Inr (s # ss)))"

definition encode_sorted_instances :: "json_lexis \<Rightarrow> json \<Rightarrow> string result" where
  "encode_sorted_instances lx value =
     (case value of
        JArray values \<Rightarrow>
          and_then (instance_names values) (\<lambda>names.
            if \<not> distinct names then bad_args ''instances must not contain duplicates''
            else Inr (''['' @ comma_separated (map (lx_string lx) (sort names)) @ '']''))
      | _ \<Rightarrow> bad_args ''instances must be an array'')"

text \<open>The root object: its keys in order, without \<open>requestId\<close>.\<close>

fun encode_entries ::
    "json_lexis \<Rightarrow> bool \<Rightarrow> (string \<times> json) list \<Rightarrow> (string \<times> string) list result" where
  "encode_entries lx sort_instances [] = Inr []"
| "encode_entries lx sort_instances ((key, child) # rest) =
     and_then (if key = ''instances'' \<and> sort_instances then encode_sorted_instances lx child
               else Inr (encode_nested lx child)) (\<lambda>bytes.
     and_then (encode_entries lx sort_instances rest) (\<lambda>es. Inr ((key, bytes) # es)))"

definition root_entries :: "(string \<times> json) list \<Rightarrow> (string \<times> json) list" where
  "root_entries kvs = filter (\<lambda>(key, _). key \<noteq> ''requestId'') (sort_key fst kvs)"

definition canonical_request_bytes :: "json_lexis \<Rightarrow> json \<Rightarrow> bool \<Rightarrow> string result" where
  "canonical_request_bytes lx request sort_instances =
     (case request of
        JObject kvs \<Rightarrow>
          and_then (encode_entries lx sort_instances (root_entries kvs)) (\<lambda>es.
            Inr (''{'' @ comma_separated (map (entry_bytes lx) es) @ ''}''))
      | _ \<Rightarrow> bad_args ''command arguments must be a JSON object'')"

definition canonical_request_hash ::
    "json_lexis \<Rightarrow> (string \<Rightarrow> RequestHash) \<Rightarrow> json \<Rightarrow> bool \<Rightarrow> RequestHash result" where
  "canonical_request_hash lx sha256 request sort_instances =
     and_then (canonical_request_bytes lx request sort_instances) (\<lambda>bytes. Inr (sha256 bytes))"

section \<open>What the canonical form identifies\<close>

text \<open>The same object with its keys in order, at every level.\<close>

fun canon :: "json \<Rightarrow> json" where
  "canon (JArray vs) = JArray (map canon vs)"
| "canon (JObject kvs) = JObject (sort_key fst (map (\<lambda>(key, child). (key, canon child)) kvs))"
| "canon v = v"

definition canon_instances :: "json \<Rightarrow> json" where
  "canon_instances v = (case v of
     JArray vs \<Rightarrow> (case instance_names vs of Inr names \<Rightarrow> JArray (map JString (sort names)) | Inl _ \<Rightarrow> v)
   | _ \<Rightarrow> v)"

definition canon_request :: "bool \<Rightarrow> json \<Rightarrow> json" where
  "canon_request sort_instances request = (case request of
     JObject kvs \<Rightarrow> JObject (map (\<lambda>(key, child).
       (key, if key = ''instances'' \<and> sort_instances then canon_instances child else canon child))
       (root_entries kvs))
   | v \<Rightarrow> v)"

text \<open>The lexical structure of JSON: a printed string is delimited by itself, starting with a quote;
  a printed number is a non-empty word over its own alphabet that never contains a structural
  character, a letter that starts a literal, or a quote, and determines the number.\<close>

definition delimiters :: "char set" where
  "delimiters = {CHR '','', CHR '':'', CHR ''['', CHR '']'', CHR ''{'', CHR ''}'', CHR ''t'', CHR ''f'',
                 CHR ''n'', CHR 0x22}"

definition lexis_ok :: "json_lexis \<Rightarrow> bool" where
  "lexis_ok lx \<longleftrightarrow>
     (\<forall>s. \<exists>r. lx_string lx s = CHR 0x22 # r) \<and>
     (\<forall>s t u v. lx_string lx s @ u = lx_string lx t @ v \<longrightarrow> s = t \<and> u = v) \<and>
     (\<forall>n. lx_number lx n \<noteq> [] \<and> set (lx_number lx n) \<inter> delimiters = {}) \<and>
     inj (lx_number lx)"


text \<open>Printing a value whose keys are in order already.\<close>

fun plain :: "json_lexis \<Rightarrow> json \<Rightarrow> string" where
  "plain lx JNull = ''null''"
| "plain lx (JBool b) = (if b then ''true'' else ''false'')"
| "plain lx (JNumber n) = lx_number lx n"
| "plain lx (JString s) = lx_string lx s"
| "plain lx (JArray vs) = ''['' @ comma_separated (map (plain lx) vs) @ '']''"
| "plain lx (JObject kvs) =
     ''{'' @ comma_separated (map (\<lambda>(key, child). lx_string lx key @ '':'' @ plain lx child) kvs) @ ''}''"

lemma sort_key_map_snd:
  "sort_key fst (map (\<lambda>(k, v). (k, f v)) kvs) = map (\<lambda>(k, v). (k, f v)) (sort_key fst kvs)"
proof -
  have ins: "insort_key fst (k, f v) (map (\<lambda>(k, v). (k, f v)) xs) =
      map (\<lambda>(k, v). (k, f v)) (insort_key fst (k, v) xs)" for k v xs
    by (induction xs) auto
  show ?thesis by (induction kvs) (auto simp: ins)
qed

lemma encode_nested_plain: "encode_nested lx v = plain lx (canon v)"
proof (induction lx v rule: encode_nested.induct)
  case (5 lx vs)
  then have "map (encode_nested lx) vs = map (plain lx) (map canon vs)" by simp
  then show ?case by (simp only: encode_nested.simps canon.simps plain.simps)
next
  case (6 lx kvs)
  then have "map (\<lambda>(k, c). (k, encode_nested lx c)) kvs = map (\<lambda>(k, c). (k, plain lx (canon c))) kvs"
    by auto
  then have sorted: "sort_key fst (map (\<lambda>(k, c). (k, encode_nested lx c)) kvs) =
      map (\<lambda>(k, c). (k, plain lx (canon c))) (sort_key fst kvs)"
    by (simp only: sort_key_map_snd)
  have "map (entry_bytes lx) (map (\<lambda>(k, c). (k, plain lx (canon c))) (sort_key fst kvs)) =
      map (\<lambda>(key, child). lx_string lx key @ '':'' @ plain lx child)
        (map (\<lambda>(k, c). (k, canon c)) (sort_key fst kvs))"
    by (simp add: entry_bytes_def case_prod_unfold)
  then show ?case by (simp only: encode_nested.simps canon.simps plain.simps sorted sort_key_map_snd [of canon])
qed simp_all

section \<open>The printed form determines the value\<close>

definition stops :: "string \<Rightarrow> bool" where
  "stops x \<longleftrightarrow> x = [] \<or> hd x \<in> {CHR '','', CHR '']'', CHR ''}''}"

definition opens :: "string \<Rightarrow> bool" where
  "opens x \<longleftrightarrow> x \<noteq> [] \<and> hd x \<notin> {CHR '','', CHR '']'', CHR ''}''}"

lemma comma_separated_Cons:
  "comma_separated (x # xs) = x @ (if xs = [] then [] else '','' @ comma_separated xs)"
  by (cases xs) simp_all

lemma comma_separated_inj:
  assumes "\<forall>a \<in> set as. opens (p a)" and "\<forall>b \<in> set bs. opens (p b)"
    and "\<forall>a \<in> set as. \<forall>b x y. p a @ x = p b @ y \<and> stops x \<and> stops y \<longrightarrow> a = b \<and> x = y"
    and "c \<in> {CHR '']'', CHR ''}''}"
    and "comma_separated (map p as) @ c # x = comma_separated (map p bs) @ c # y"
  shows "as = bs \<and> x = y"
  using assms
proof (induction as arbitrary: bs)
  case Nil
  have "bs = []"
  proof (rule ccontr)
    assume "bs \<noteq> []"
    then obtain b bs' where bs: "bs = b # bs'" by (cases bs) auto
    then have "hd (p b) = c" "p b \<noteq> []" using Nil.prems(2,5)
      by (auto simp: comma_separated_Cons opens_def hd_append dest: arg_cong [where f = hd] split: if_splits)
    then show False using Nil.prems(2,4) bs by (auto simp: opens_def)
  qed
  then show ?case using Nil.prems(5) by simp
next
  case (Cons a as)
  have ne: "bs \<noteq> []"
  proof
    assume "bs = []"
    then have "hd (p a) = c" using Cons.prems(1,5)
      by (auto simp: comma_separated_Cons opens_def hd_append dest: arg_cong [where f = hd] split: if_splits)
    then show False using Cons.prems(1,4) by (auto simp: opens_def)
  qed
  then obtain b bs' where bs: "bs = b # bs'" by (cases bs) auto
  let ?r = "(if as = [] then [] else '','' @ comma_separated (map p as)) @ c # x"
  let ?t = "(if bs' = [] then [] else '','' @ comma_separated (map p bs')) @ c # y"
  have "p a @ ?r = p b @ ?t" using Cons.prems(5) bs by (simp add: comma_separated_Cons)
  moreover have st: "stops ?r" "stops ?t" using Cons.prems(4) by (auto simp: stops_def)
  moreover have "p a @ u = p b @ z \<and> stops u \<and> stops z \<longrightarrow> a = b \<and> u = z" for u z
    using Cons.prems(3) by simp
  ultimately have ab: "a = b" "?r = ?t" by blast+
  have "c \<noteq> CHR '',''" using Cons.prems(4) by auto
  then have "as = [] \<longleftrightarrow> bs' = []" and "as \<noteq> [] \<Longrightarrow>
      comma_separated (map p as) @ c # x = comma_separated (map p bs') @ c # y" and "as = [] \<Longrightarrow> x = y"
    using ab(2) by (auto split: if_splits)
  moreover have "as \<noteq> [] \<Longrightarrow> as = bs' \<and> x = y"
  proof (rule Cons.IH)
    show "\<forall>a \<in> set as. opens (p a)" "\<forall>b \<in> set bs'. opens (p b)" using Cons.prems(1,2) bs by simp_all
    show "\<forall>a \<in> set as. \<forall>b x y. p a @ x = p b @ y \<and> stops x \<and> stops y \<longrightarrow> a = b \<and> x = y"
      using Cons.prems(3) by (meson list.set_intros(2))
  qed (use Cons.prems(4) calculation in blast)+
  ultimately show ?case using ab(1) bs by blast
qed

lemma lexis_string: "lexis_ok lx \<Longrightarrow> lx_string lx s @ u = lx_string lx t @ v \<Longrightarrow> s = t \<and> u = v"
  unfolding lexis_ok_def by blast

lemma lexis_string_hd: "lexis_ok lx \<Longrightarrow> lx_string lx s \<noteq> [] \<and> hd (lx_string lx s) = CHR 0x22"
  unfolding lexis_ok_def by (metis list.distinct(1) list.sel(1))

lemma lexis_number_hd: "lexis_ok lx \<Longrightarrow> lx_number lx n \<noteq> [] \<and> hd (lx_number lx n) \<notin> delimiters"
  unfolding lexis_ok_def by (metis IntI empty_iff hd_in_set)

lemma lexis_number:
  assumes "lexis_ok lx" and "lx_number lx n @ x = lx_number lx m @ y" and "stops x" and "stops y"
  shows "n = m \<and> x = y"
proof -
  have word: "takeWhile (\<lambda>c. c \<notin> delimiters) (lx_number lx k @ z) = lx_number lx k" if "stops z" for k z
  proof -
    have "\<forall>c \<in> set (lx_number lx k). c \<notin> delimiters" using assms(1) unfolding lexis_ok_def by blast
    moreover have "takeWhile (\<lambda>c. c \<notin> delimiters) z = []"
      using that by (cases z) (auto simp: stops_def delimiters_def)
    ultimately show ?thesis by simp
  qed
  have "lx_number lx n = lx_number lx m"
    using word [OF assms(3), of n] word [OF assms(4), of m] assms(2) by simp
  moreover from this have "n = m" using assms(1) unfolding lexis_ok_def inj_def by blast
  ultimately show ?thesis using assms(2) by simp
qed

lemma plain_opens: "lexis_ok lx \<Longrightarrow> opens (plain lx v)"
  using lexis_string_hd [of lx] lexis_number_hd [of lx]
  by (cases v) (auto simp: opens_def delimiters_def)

lemma plain_hd:
  "lexis_ok lx \<Longrightarrow> hd (plain lx v @ x) =
     (case v of JNull \<Rightarrow> CHR ''n'' | JBool b \<Rightarrow> if b then CHR ''t'' else CHR ''f''
      | JNumber n \<Rightarrow> hd (lx_number lx n) | JString s \<Rightarrow> CHR 0x22 | JArray vs \<Rightarrow> CHR ''[''
      | JObject kvs \<Rightarrow> CHR ''{'')"
  using lexis_string_hd [of lx] lexis_number_hd [of lx] by (cases v) auto

lemma same_printed_kind:
  assumes "lexis_ok lx" and "plain lx v @ x = plain lx w @ y"
  shows "(v = JNull \<longleftrightarrow> w = JNull) \<and> (\<forall>b. v = JBool b \<longleftrightarrow> w = JBool b) \<and>
    (is_JNumber v \<longleftrightarrow> is_JNumber w) \<and> (is_JString v \<longleftrightarrow> is_JString w) \<and>
    (is_JArray v \<longleftrightarrow> is_JArray w) \<and> (is_JObject v \<longleftrightarrow> is_JObject w)"
proof -
  have "hd (plain lx v @ x) = hd (plain lx w @ y)" using assms(2) by simp
  then show ?thesis
    unfolding plain_hd [OF assms(1)] using lexis_number_hd [OF assms(1)]
    by (cases v; cases w) (force simp: delimiters_def split: if_splits)+
qed

lemma plain_inj:
  assumes "lexis_ok lx"
  shows "plain lx v @ x = plain lx w @ y \<Longrightarrow> stops x \<Longrightarrow> stops y \<Longrightarrow> v = w \<and> x = y"
proof (induction v arbitrary: w x y)
  case (JNumber n)
  then obtain m where "w = JNumber m" using same_printed_kind [OF assms JNumber(1)] by (cases w) auto
  moreover from this JNumber(1) have "lx_number lx n @ x = lx_number lx m @ y" by simp
  ultimately show ?case using lexis_number [OF assms _ JNumber(2,3)] by blast
next
  case (JString s)
  then obtain t where "w = JString t" using same_printed_kind [OF assms JString(1)] by (cases w) auto
  moreover from this JString(1) have "lx_string lx s @ x = lx_string lx t @ y" by simp
  ultimately show ?case using lexis_string [OF assms] by blast
next
  case (JArray vs)
  obtain ws where w: "w = JArray ws" using same_printed_kind [OF assms JArray(2)] by (cases w) auto
  have "comma_separated (map (plain lx) vs) @ CHR '']'' # x = comma_separated (map (plain lx) ws) @ CHR '']'' # y"
    using JArray(2) w by simp
  then have "vs = ws \<and> x = y"
    by (rule comma_separated_inj [rotated 4]) (use JArray(1) plain_opens [OF assms] in blast)+
  then show ?case using w by simp
next
  case (JObject kvs)
  obtain ws where w: "w = JObject ws" using same_printed_kind [OF assms JObject(2)] by (cases w) auto
  let ?p = "\<lambda>(key, child). lx_string lx key @ '':'' @ plain lx child"
  have eq: "comma_separated (map ?p kvs) @ CHR ''}'' # x = comma_separated (map ?p ws) @ CHR ''}'' # y"
    using JObject(2) w by simp
  have op: "opens (?p kv)" for kv
    using lexis_string_hd [OF assms, of "fst kv"] by (cases kv) (simp add: opens_def)
  have inj: "kv = kw \<and> u = z" if "kv \<in> set kvs" "?p kv @ u = ?p kw @ z \<and> stops u \<and> stops z" for kv kw u z
  proof -
    have "lx_string lx (fst kv) @ CHR '':'' # plain lx (snd kv) @ u =
        lx_string lx (fst kw) @ CHR '':'' # plain lx (snd kw) @ z"
      using that(2) by (simp add: case_prod_unfold)
    then have "fst kv = fst kw" "plain lx (snd kv) @ u = plain lx (snd kw) @ z"
      using lexis_string [OF assms] by blast+
    moreover have "snd kv \<in> Basic_BNFs.snds kv" by (cases kv) (simp add: prod_set_defs)
    ultimately have "snd kv = snd kw \<and> u = z" using JObject(1) [OF that(1)] that(2) by blast
    then show ?thesis using \<open>fst kv = fst kw\<close> by (simp add: prod_eq_iff)
  qed
  have "kvs = ws \<and> x = y"
    using op inj by (intro comma_separated_inj [OF _ _ _ _ eq]) blast+
  then show ?case using w by simp
next
  case JNull
  have "w = JNull" using same_printed_kind [OF assms JNull(1)] by blast
  then show ?case using JNull(1) by simp
next
  case (JBool b)
  have "w = JBool b" using same_printed_kind [OF assms JBool(1)] by blast
  then show ?case using JBool(1) by simp
qed

section \<open>Requests and their fingerprints\<close>

lemma instance_names_strings: "instance_names vs = Inr names \<Longrightarrow> vs = map JString names"
proof (induction vs arbitrary: names)
  case (Cons v vs)
  then show ?case by (cases v) (auto simp: bad_args_def and_then_Inr_iff)
qed simp

lemma encode_sorted_instances_plain:
  assumes "encode_sorted_instances lx v = Inr bytes"
  shows "bytes = plain lx (canon_instances v)"
proof (cases v)
  case (JArray vs)
  then obtain names where "instance_names vs = Inr names"
    "bytes = ''['' @ comma_separated (map (lx_string lx) (sort names)) @ '']''"
    using assms by (auto simp: encode_sorted_instances_def and_then_Inr_iff bad_args_def split: if_splits)
  then show ?thesis using JArray by (simp add: canon_instances_def comp_def)
qed (use assms in \<open>simp_all add: encode_sorted_instances_def bad_args_def\<close>)

lemma encode_entries_plain:
  "encode_entries lx s kvs = Inr es \<Longrightarrow> es = map (\<lambda>(key, child).
     (key, plain lx (if key = ''instances'' \<and> s then canon_instances child else canon child))) kvs"
proof (induction lx s kvs arbitrary: es rule: encode_entries.induct)
  case (2 lx s key child rest)
  then show ?case
    by (auto simp: and_then_Inr_iff encode_nested_plain encode_sorted_instances_plain)
qed simp

lemma canonical_request_plain:
  assumes "canonical_request_bytes lx request s = Inr bytes"
  shows "bytes = plain lx (canon_request s request)"
proof (cases request)
  case (JObject kvs)
  then obtain es where es: "encode_entries lx s (root_entries kvs) = Inr es"
    "bytes = ''{'' @ comma_separated (map (entry_bytes lx) es) @ ''}''"
    using assms by (auto simp: canonical_request_bytes_def and_then_Inr_iff)
  show ?thesis unfolding es(2) encode_entries_plain [OF es(1)] JObject
    by (simp add: canon_request_def entry_bytes_def case_prod_unfold comp_def)
qed (use assms in \<open>simp_all add: canonical_request_bytes_def bad_args_def\<close>)

text \<open>C22: The fingerprint's preimage identifies the command. Two requests that have canonical bytes
  have the same ones exactly when they agree once the request identifier is left out, object keys are
  put in order at every level, and the camera list is sorted where that is asked for. In particular a
  retry with another request identifier or another key order has the same fingerprint, and nothing
  else has the same preimage.\<close>

theorem canonical_bytes_identify:
  assumes "lexis_ok lx" and "canonical_request_bytes lx a s = Inr x"
    and "canonical_request_bytes lx b s = Inr y"
  shows "x = y \<longleftrightarrow> canon_request s a = canon_request s b"
  using plain_inj [OF assms(1), of "canon_request s a" "[]" "canon_request s b" "[]"]
    canonical_request_plain [OF assms(2)] canonical_request_plain [OF assms(3)]
  by (auto simp: stops_def)

lemma filter_same_key:
  "distinct (map fst kvs) \<Longrightarrow> kv \<in> set kvs \<Longrightarrow> filter (\<lambda>x. fst kv = fst x) kvs = [kv]"
proof (induction kvs)
  case (Cons x kvs)
  show ?case
  proof (cases "kv = x")
    case True
    then have "filter (\<lambda>y. fst kv = fst y) kvs = []" using Cons.prems(1) by (force simp: filter_empty_conv)
    then show ?thesis using True by simp
  next
    case False
    then have "kv \<in> set kvs" using Cons.prems(2) by simp
    moreover from this have "fst kv \<noteq> fst x" using Cons.prems(1) by (metis distinct.simps(2) image_eqI list.map(2) list.set_map)
    ultimately have "kv \<in> set kvs" "fst kv \<noteq> fst x" by blast+
    then show ?thesis using Cons by simp
  qed
qed simp

text \<open>The order in which a request lists its keys makes no difference.\<close>

lemma canon_request_key_order:
  assumes "mset kvs = mset kws" and "distinct (map fst kvs)"
  shows "canon_request s (JObject kvs) = canon_request s (JObject kws)"
proof -
  have dist: "distinct (map fst kws)"
    using assms by (metis mset_eq_imp_distinct_iff mset_map)
  have "sort_key fst kvs = sort_key fst kws"
  proof (rule properties_for_sort_key)
    show "mset (sort_key fst kws) = mset kvs" using assms(1) by simp
    show "sorted (map fst (sort_key fst kws))" by simp
    fix k assume k: "k \<in> set (sort_key fst kws)"
    have sorted_dist: "distinct (map fst (sort_key fst kws))"
      using dist by (metis mset_eq_imp_distinct_iff mset_map mset_sort)
    have "k \<in> set kvs" using k assms(1) by (metis set_mset_mset set_sort)
    then show "filter (\<lambda>x. fst k = fst x) (sort_key fst kws) = filter (\<lambda>x. fst k = fst x) kvs"
      using filter_same_key [OF sorted_dist k] filter_same_key [OF assms(2)] by simp
  qed
  then show ?thesis by (simp add: canon_request_def root_entries_def)
qed

section \<open>A concrete lexical structure\<close>

text \<open>Strings with quotes and backslashes escaped, numbers as words over an alphabet of their own.\<close>

definition escape :: "char \<Rightarrow> string" where
  "escape c = (if c = CHR 0x22 \<or> c = CHR 0x5C then [CHR 0x5C, c] else [c])"

definition quoted :: "string \<Rightarrow> string" where
  "quoted s = CHR 0x22 # concat (map escape s) @ [CHR 0x22]"

definition unary :: "int \<Rightarrow> string" where
  "unary i = (if 0 \<le> i then CHR ''+'' else CHR ''-'') # replicate (nat \<bar>i\<bar>) (CHR ''1'')"

fun number_word :: "json_number \<Rightarrow> string" where
  "number_word (PosInt n) = ''u'' @ unary (uint n)"
| "number_word (NegInt i) = ''i'' @ unary i"
| "number_word (Float NaN) = ''x''"
| "number_word (Float PosInf) = ''y''"
| "number_word (Float NegInf) = ''z''"
| "number_word (Float (Finite q)) =
     ''q'' @ unary (fst (quotient_of q)) @ ''/'' @ unary (snd (quotient_of q))"

definition demo_lexis :: json_lexis where
  "demo_lexis = \<lparr>lx_string = quoted, lx_number = number_word\<rparr>"

lemma escaped_inj:
  "concat (map escape s) @ CHR 0x22 # u = concat (map escape t) @ CHR 0x22 # v \<Longrightarrow> s = t \<and> u = v"
proof (induction s arbitrary: t)
  case Nil
  then show ?case by (cases t) (auto simp: escape_def split: if_splits)
next
  case (Cons c s)
  then obtain d t' where t: "t = d # t'" by (cases t) (auto simp: escape_def split: if_splits)
  have "c = d" "concat (map escape s) @ CHR 0x22 # u = concat (map escape t') @ CHR 0x22 # v"
    using Cons.prems unfolding t by (auto simp: escape_def [of c] escape_def [of d] split: if_splits)
  then show ?case using Cons.IH t by blast
qed

lemma unary_inj: "unary a = unary b \<longleftrightarrow> a = b"
  by (auto simp: unary_def split: if_splits)

lemma unary_slash: "unary a @ CHR ''/'' # x = unary b @ CHR ''/'' # y \<longleftrightarrow> a = b \<and> x = y"
proof
  assume eq: "unary a @ CHR ''/'' # x = unary b @ CHR ''/'' # y"
  have "takeWhile (\<lambda>c. c \<noteq> CHR ''/'') (unary i @ CHR ''/'' # z) = unary i" for i z
    by (auto simp: unary_def takeWhile_append)
  then have "unary a = unary b" using eq by metis
  then show "a = b \<and> x = y" using eq unary_inj by simp
qed auto

lemma number_word_inj: "number_word m = number_word n \<Longrightarrow> m = n"
  by (cases m rule: number_word.cases; cases n rule: number_word.cases)
     (auto simp: unary_inj unary_slash quotient_of_inject_eq prod_eq_iff [symmetric],
      metis word_of_int_uint)

lemma number_word_alphabet: "number_word n \<noteq> [] \<and> set (number_word n) \<inter> delimiters = {}"
  by (cases n rule: number_word.cases) (auto simp: unary_def delimiters_def)

lemma demo_lexis_ok: "lexis_ok demo_lexis"
proof -
  have "s = t \<and> u = v" if "quoted s @ u = quoted t @ v" for s t u v
    using that escaped_inj [of s u t v] by (simp add: quoted_def)
  moreover have "\<exists>r. quoted s = CHR 0x22 # r" for s by (simp add: quoted_def)
  moreover have "inj number_word" using number_word_inj by (rule injI)
  ultimately show ?thesis
    using number_word_alphabet unfolding lexis_ok_def demo_lexis_def json_lexis.select_convs by blast
qed

definition demo_request_a :: json where
  "demo_request_a = JObject [(''requestId'', JString ''r1''), (''b'', JNumber (PosInt 2)), (''a'', JBool True)]"

definition demo_request_b :: json where
  "demo_request_b = JObject [(''a'', JBool True), (''b'', JNumber (PosInt 2)), (''requestId'', JString ''r2'')]"

theorem canonical_bytes_identify_witness:
  "\<exists>x. canonical_request_bytes demo_lexis demo_request_a True = Inr x \<and>
     canonical_request_bytes demo_lexis demo_request_b True = Inr x"
proof -
  have order: "''a'' < (''b'' :: string)" "''b'' < (''requestId'' :: string)" "''a'' < (''requestId'' :: string)"
    by (simp_all add: less_char_def)
  have canon: "canon_request True demo_request_a = canon_request True demo_request_b"
    using order by (simp add: canon_request_def demo_request_a_def demo_request_b_def root_entries_def not_less
        less_imp_le)
  obtain x y where xy: "canonical_request_bytes demo_lexis demo_request_a True = Inr x"
    "canonical_request_bytes demo_lexis demo_request_b True = Inr y"
    using order by (simp add: canonical_request_bytes_def demo_request_a_def demo_request_b_def
        root_entries_def not_less less_imp_le)
  from canonical_bytes_identify [OF demo_lexis_ok xy] canon show ?thesis using xy by simp
qed

end
