(* ===== verification/Sql_Table.thy ===== *)
theory Sql_Table
  imports Camera_Error "HOL-Library.Product_Lexorder" "HOL-Library.Option_ord"
begin

text \<open>
  The few SQL statements the durable catalog uses, on tables represented as the list of their rows:
  selection by key, conditional update with its row count, conditional deletion, and the order and
  limit of a selection. A transaction either commits its final tables or, on any error, leaves the
  tables as they were.
\<close>

definition select_row :: "('r \<Rightarrow> 'k) \<Rightarrow> 'k \<Rightarrow> 'r list \<Rightarrow> 'r option" where
  "select_row key k t = find (\<lambda>r. key r = k) t"

definition update_where :: "('r \<Rightarrow> bool) \<Rightarrow> ('r \<Rightarrow> 'r) \<Rightarrow> 'r list \<Rightarrow> 'r list" where
  "update_where p f t = map (\<lambda>r. if p r then f r else r) t"

definition count_where :: "('r \<Rightarrow> bool) \<Rightarrow> 'r list \<Rightarrow> nat" where
  "count_where p t = length (filter p t)"

definition delete_where :: "('r \<Rightarrow> bool) \<Rightarrow> 'r list \<Rightarrow> 'r list" where
  "delete_where p t = filter (\<lambda>r. \<not> p r) t"

definition select_limit :: "('r \<Rightarrow> 'o::linorder) \<Rightarrow> nat \<Rightarrow> ('r \<Rightarrow> bool) \<Rightarrow> 'r list \<Rightarrow> 'r list" where
  "select_limit order n p t = take n (sort_key order (filter p t))"

definition constraint_failed :: camera_error where
  "constraint_failed = Sqlite False ''constraint failed''"

text \<open>The outcome of a transaction body on the database: an error rolls everything back.\<close>

definition commit :: "('db \<Rightarrow> ('db \<times> 'a) result) \<Rightarrow> 'db \<Rightarrow> 'db \<times> 'a result" where
  "commit body db = (case body db of Inl e \<Rightarrow> (db, Inl e) | Inr (db', x) \<Rightarrow> (db', Inr x))"

section \<open>Rows under the statements\<close>

lemma select_row_Nil [simp]: "select_row key k [] = None"
  by (simp add: select_row_def)

lemma select_row_Cons: "select_row key k (r # t) = (if key r = k then Some r else select_row key k t)"
  by (simp add: select_row_def)

lemma select_row_Some: "select_row key k t = Some r \<Longrightarrow> key r = k \<and> r \<in> set t"
  by (induction t) (auto simp: select_row_Cons split: if_splits)

lemma select_row_None: "select_row key k t = None \<longleftrightarrow> k \<notin> key ` set t"
  by (induction t) (auto simp: select_row_Cons)

lemma select_row_unique:
  "distinct (map key t) \<Longrightarrow> r \<in> set t \<Longrightarrow> select_row key (key r) t = Some r"
  by (induction t) (auto simp: select_row_Cons)

lemma select_row_append:
  "select_row key k (t @ [r]) =
     (case select_row key k t of None \<Rightarrow> if key r = k then Some r else None | Some x \<Rightarrow> Some x)"
  by (induction t) (auto simp: select_row_Cons)

lemma select_row_update:
  assumes "\<And>r. p r \<Longrightarrow> key (f r) = key r"
  shows "select_row key k (update_where p f t) =
    map_option (\<lambda>r. if p r then f r else r) (select_row key k t)"
  using assms by (induction t) (auto simp: select_row_Cons update_where_def)

lemma keys_update:
  assumes "\<And>r. p r \<Longrightarrow> key (f r) = key r"
  shows "map key (update_where p f t) = map key t"
  using assms by (simp add: update_where_def)

lemma keys_delete: "distinct (map key t) \<Longrightarrow> distinct (map key (delete_where p t))"
  by (simp add: delete_where_def distinct_map_filter)

lemma select_row_delete:
  "distinct (map key t) \<Longrightarrow> select_row key k (delete_where p t) =
     (case select_row key k t of None \<Rightarrow> None | Some r \<Rightarrow> if p r then None else Some r)"
proof (induction t)
  case (Cons r t)
  then have "key r \<notin> key ` set (delete_where p t)" by (auto simp: delete_where_def)
  then have "select_row key (key r) (delete_where p t) = None" by (simp add: select_row_None)
  then show ?case using Cons by (auto simp: delete_where_def select_row_Cons)
qed (simp add: delete_where_def)

lemma count_where_unique:
  "distinct (map key t) \<Longrightarrow> count_where (\<lambda>r. key r = k \<and> q r) t =
     (case select_row key k t of Some r \<Rightarrow> of_bool (q r) | None \<Rightarrow> 0)"
proof (induction t)
  case (Cons r t)
  then have "key r \<notin> key ` set t" by auto
  then have "filter (\<lambda>x. key x = key r \<and> q x) t = []"
    unfolding filter_empty_conv by (metis image_eqI)
  then show ?case using Cons by (auto simp: count_where_def select_row_Cons split: option.splits)
qed (simp add: count_where_def)

lemma set_update: "set (update_where p f t) = {r. \<exists>x \<in> set t. r = (if p x then f x else x)}"
  by (auto simp: update_where_def image_iff)

lemma set_select_limit: "set (select_limit order n p t) \<subseteq> {r \<in> set t. p r}"
  unfolding select_limit_def using set_take_subset by fastforce

lemma length_select_limit: "length (select_limit order n p t) \<le> n"
  by (simp add: select_limit_def)

lemma commit_Inl: "body db = Inl e \<Longrightarrow> commit body db = (db, Inl e)"
  by (simp add: commit_def)

lemma commit_Inr: "body db = Inr (db', x) \<Longrightarrow> commit body db = (db', Inr x)"
  by (simp add: commit_def)

lemma commit_cases:
  obtains (rolled_back) e where "commit body db = (db, Inl e)" "body db = Inl e"
  | (committed) db' x where "commit body db = (db', Inr x)" "body db = Inr (db', x)"
  by (cases "body db") (auto simp: commit_def)

end
