(* ===== verification/Catalog_Data.thy ===== *)
theory Catalog_Data
  imports Sql_Table Idempotency
begin

text \<open>
  The tables and values of the durable catalog (\<open>src/catalog.rs\<close>): the rows of its schema, the values
  callers pass in, the checks made before a transaction starts, and the loading of complete records.
  JSON columns hold the value itself; writing it as text and reading it back is the identity of the
  JSON library.
\<close>

section \<open>Values\<close>

record LedgerKey =
  lk_instance :: string
  lk_verb :: string
  lk_request_id :: string

record JobDeadlines =
  dl_terminal_at_ms :: int
  dl_queue_at_ms :: "int option"
  dl_capture_at_ms :: int
  dl_encode_at_ms :: int
  dl_persist_at_ms :: int

record NewJob =
  nj_capture_id :: string
  nj_instance :: string
  nj_ledger_key :: "LedgerKey option"
  nj_canonical_request :: json
  nj_request_hash :: RequestHash
  nj_effective_profile :: json
  nj_deadlines :: JobDeadlines
  nj_trigger :: json
  nj_origin_correlation_id :: "string option"
  nj_intended_output :: json
  nj_accepted_at_ms :: int
  nj_group_id :: "string option"

record NewGroup =
  ng_group_id :: string
  ng_ledger_key :: LedgerKey
  ng_canonical_request :: json
  ng_request_hash :: RequestHash
  ng_origin_correlation_id :: "string option"
  ng_accepted_at_ms :: int
  ng_members :: "NewJob list"

record TerminalWrite =
  tw_state :: JobState
  tw_result :: json
  tw_error_code :: "string option"
  tw_error_message :: "string option"
  tw_terminal_at_ms :: int

record PendingInstall =
  pi_partial_path :: string
  pi_final_path :: string
  pi_expected_sha256 :: string
  pi_expected_bytes :: u64
  pi_success :: TerminalWrite
  pi_changed_at_ms :: int

datatype LedgerState = InProgress | LedgerSucceeded | LedgerFailed | OutcomeUnknown

record WaiterRecord =
  wr_waiter_id :: string
  wr_capture_id :: string
  wr_correlation_id :: string
  wr_request_uuid :: "string option"
  wr_expires_at_ms :: int
  wr_created_at_ms :: int

section \<open>Rows\<close>

record JobRow =
  capture_id :: string
  instance_of :: string
  ledger_key :: "LedgerKey option"
  state :: JobState
  canonical_request :: json
  request_hash :: RequestHash
  effective_profile :: json
  deadlines :: JobDeadlines
  trigger :: json
  origin_correlation_id :: "string option"
  intended_output :: json
  partial_path :: "string option"
  final_path :: "string option"
  expected_sha256 :: "string option"
  expected_bytes :: "u64 option"
  installed_sha256 :: "string option"
  installed_bytes :: "u64 option"
  accepted_at_ms :: int
  updated_at_ms :: int
  queued_at_ms :: "int option"
  terminal_at_ms :: "int option"
  job_group_id :: "string option"
  install_started :: bool
  terminal_result :: "json option"
  job_error_code :: "string option"
  job_error_message :: "string option"

text \<open>A loaded job joins its staged success, if there is one.\<close>

type_synonym JobRecord = "JobRow \<times> TerminalWrite option"

record CommandLedgerRecord =
  le_key :: LedgerKey
  le_request_hash :: RequestHash
  le_canonical_request :: json
  le_state :: LedgerState
  le_created_at_ms :: int
  le_updated_at_ms :: int
  le_capture_id :: "string option"
  le_group_id :: "string option"
  le_reply :: "json option"
  le_error_code :: "string option"
  le_error_message :: "string option"

record GroupRow =
  gr_group_id :: string
  gr_ledger_key :: LedgerKey
  gr_state :: JobState
  gr_canonical_request :: json
  gr_request_hash :: RequestHash
  gr_origin_correlation_id :: "string option"
  gr_accepted_at_ms :: int
  gr_queued_at_ms :: "int option"
  gr_terminal_at_ms :: "int option"
  gr_terminal_result :: "json option"
  gr_error_code :: "string option"
  gr_error_message :: "string option"

type_synonym GroupRecord = "GroupRow \<times> JobRecord list"

record pending_row =
  pr_capture_id :: string
  pr_terminal_result :: json
  pr_terminal_at_ms :: int

record member_row =
  gm_group_id :: string
  gm_capture_id :: string
  gm_result_index :: nat

record occurrence_row =
  so_instance :: string
  so_schedule_id :: string
  so_intended_fire_time_ms :: int
  so_capture_id :: string

record catalog =
  jobs :: "JobRow list"
  command_ledger :: "CommandLedgerRecord list"
  capture_groups :: "GroupRow list"
  pending_success :: "pending_row list"
  group_members :: "member_row list"
  schedule_occurrences :: "occurrence_row list"
  deferred_waiters :: "WaiterRecord list"

definition empty_catalog :: catalog where
  "empty_catalog = \<lparr>jobs = [], command_ledger = [], capture_groups = [], pending_success = [],
     group_members = [], schedule_occurrences = [], deferred_waiters = []\<rparr>"

section \<open>Loading\<close>

text \<open>A staged row is read back as the success it was staged for.\<close>

definition staged_write :: "pending_row \<Rightarrow> TerminalWrite" where
  "staged_write p = \<lparr>tw_state = Succeeded, tw_result = pr_terminal_result p, tw_error_code = None,
     tw_error_message = None, tw_terminal_at_ms = pr_terminal_at_ms p\<rparr>"

definition staged :: "catalog \<Rightarrow> string \<Rightarrow> TerminalWrite option" where
  "staged db c = map_option staged_write (select_row pr_capture_id c (pending_success db))"

definition load_job :: "catalog \<Rightarrow> string \<Rightarrow> JobRecord option" where
  "load_job db c = map_option (\<lambda>r. (r, staged db c)) (select_row capture_id c (jobs db))"

definition load_job_required :: "catalog \<Rightarrow> string \<Rightarrow> JobRecord result" where
  "load_job_required db c =
     ok_or (load_job db c) (CatalogError (''capture '' @ c @ '' does not exist''))"

definition load_ledger :: "catalog \<Rightarrow> LedgerKey \<Rightarrow> CommandLedgerRecord option" where
  "load_ledger db k = select_row le_key k (command_ledger db)"

definition member_captures :: "catalog \<Rightarrow> string \<Rightarrow> string list" where
  "member_captures db g =
     map gm_capture_id (sort_key gm_result_index (filter (\<lambda>m. gm_group_id m = g) (group_members db)))"

definition load_group :: "catalog \<Rightarrow> string \<Rightarrow> GroupRecord option" where
  "load_group db g = map_option (\<lambda>row. (row, List.map_filter (load_job db) (member_captures db g)))
     (select_row gr_group_id g (capture_groups db))"

definition load_group_required :: "catalog \<Rightarrow> string \<Rightarrow> GroupRecord result" where
  "load_group_required db g =
     ok_or (load_group db g) (CatalogError (''capture group '' @ g @ '' does not exist''))"

section \<open>Tokens\<close>

fun job_state_token :: "JobState \<Rightarrow> string" where
  "job_state_token Accepted = ''ACCEPTED''"
| "job_state_token Queued = ''QUEUED''"
| "job_state_token Acquiring = ''ACQUIRING''"
| "job_state_token Encoding = ''ENCODING''"
| "job_state_token Persisting = ''PERSISTING''"
| "job_state_token Succeeded = ''SUCCEEDED''"
| "job_state_token Failed = ''FAILED''"
| "job_state_token Cancelled = ''CANCELLED''"
| "job_state_token Interrupted = ''INTERRUPTED''"

definition parse_job_state :: "string \<Rightarrow> JobState result" where
  "parse_job_state value =
     (if value = ''ACCEPTED'' then Inr Accepted
      else if value = ''QUEUED'' then Inr Queued
      else if value = ''ACQUIRING'' then Inr Acquiring
      else if value = ''ENCODING'' then Inr Encoding
      else if value = ''PERSISTING'' then Inr Persisting
      else if value = ''SUCCEEDED'' then Inr Succeeded
      else if value = ''FAILED'' then Inr Failed
      else if value = ''CANCELLED'' then Inr Cancelled
      else if value = ''INTERRUPTED'' then Inr Interrupted
      else Inl (CatalogError (''unknown stored job state '' @ value)))"

fun ledger_state_token :: "LedgerState \<Rightarrow> string" where
  "ledger_state_token InProgress = ''IN_PROGRESS''"
| "ledger_state_token LedgerSucceeded = ''SUCCEEDED''"
| "ledger_state_token LedgerFailed = ''FAILED''"
| "ledger_state_token OutcomeUnknown = ''OUTCOME_UNKNOWN''"

definition parse_ledger_state :: "string \<Rightarrow> LedgerState result" where
  "parse_ledger_state value =
     (if value = ''IN_PROGRESS'' then Inr InProgress
      else if value = ''SUCCEEDED'' then Inr LedgerSucceeded
      else if value = ''FAILED'' then Inr LedgerFailed
      else if value = ''OUTCOME_UNKNOWN'' then Inr OutcomeUnknown
      else Inl (CatalogError (''unknown stored ledger state '' @ value)))"

lemma job_state_roundtrip: "parse_job_state (job_state_token s) = Inr s"
  by (cases s) (simp_all add: parse_job_state_def)

lemma ledger_state_roundtrip: "parse_ledger_state (ledger_state_token s) = Inr s"
  by (cases s) (simp_all add: parse_ledger_state_def)

section \<open>Checks before a transaction\<close>

definition require_nonempty :: "string \<Rightarrow> string \<Rightarrow> unit result" where
  "require_nonempty field value =
     (if value = [] then Inl (CatalogError (field @ '' must not be empty'')) else Inr ())"

definition require_object :: "string \<Rightarrow> json \<Rightarrow> unit result" where
  "require_object field value =
     (if is_JObject value then Inr () else Inl (CatalogError (field @ '' must be a JSON object'')))"

fun bounded_end :: "string \<Rightarrow> nat \<Rightarrow> nat" where
  "bounded_end value 0 = 0"
| "bounded_end value (Suc n) = (if is_char_boundary value (Suc n) then Suc n else bounded_end value n)"

definition bounded_error :: "string \<Rightarrow> string" where
  "bounded_error value = (if length value \<le> 1024 then value else take (bounded_end value 1024) value)"

definition validate_ledger_key :: "(string \<Rightarrow> general_category) \<Rightarrow> LedgerKey \<Rightarrow> unit result" where
  "validate_ledger_key cat key = checks
     [require_nonempty ''ledger instance'' (lk_instance key), require_nonempty ''ledger verb'' (lk_verb key),
      validate_request_id cat (lk_request_id key)]"

definition deadlines_ok :: "JobDeadlines \<Rightarrow> bool" where
  "deadlines_ok d \<longleftrightarrow> dl_capture_at_ms d \<le> dl_terminal_at_ms d \<and> dl_encode_at_ms d \<le> dl_terminal_at_ms d \<and>
     dl_persist_at_ms d \<le> dl_terminal_at_ms d \<and>
     (case dl_queue_at_ms d of None \<Rightarrow> True | Some q \<Rightarrow> q \<le> dl_terminal_at_ms d)"

definition check_deadlines :: "JobDeadlines \<Rightarrow> unit result" where
  "check_deadlines d = ensure (deadlines_ok d)
     (CatalogError ''stage deadlines must not exceed the terminal deadline'')"

definition validate_new_job :: "(string \<Rightarrow> general_category) \<Rightarrow> NewJob \<Rightarrow> bool \<Rightarrow> unit result" where
  "validate_new_job cat job group_member = checks
     [require_nonempty ''capture_id'' (nj_capture_id job),
      require_nonempty ''instance'' (nj_instance job),
      require_object ''canonical_request'' (nj_canonical_request job),
      require_object ''effective_profile'' (nj_effective_profile job),
      require_object ''trigger'' (nj_trigger job),
      require_object ''intended_output'' (nj_intended_output job),
      check_deadlines (nj_deadlines job),
      (case nj_ledger_key job of
         None \<Rightarrow> Inr ()
       | Some key \<Rightarrow> checks [validate_ledger_key cat key,
           ensure (lk_instance key = nj_instance job) (CatalogError ''job and ledger instances must match'')]),
      (if group_member
       then checks [ensure (nj_group_id job \<noteq> None) (CatalogError ''group member must name its group''),
              ensure (nj_ledger_key job = None) (CatalogError ''group members are owned by the group ledger'')]
       else ensure (nj_group_id job = None)
              (CatalogError ''standalone acceptance cannot attach an existing group''))]"

fun validate_members ::
    "(string \<Rightarrow> general_category) \<Rightarrow> string \<Rightarrow> string list \<Rightarrow> string list \<Rightarrow> NewJob list \<Rightarrow> unit result" where
  "validate_members cat g captures instances [] = Inr ()"
| "validate_members cat g captures instances (member # rest) = checks
     [validate_new_job cat member True,
      ensure (nj_group_id member = Some g)
        (CatalogError ''member group_id does not match the owning group''),
      ensure (nj_capture_id member \<notin> set captures \<and> nj_instance member \<notin> set instances)
        (CatalogError ''group capture identifiers and camera instances must be unique''),
      validate_members cat g (nj_capture_id member # captures) (nj_instance member # instances) rest]"

definition validate_new_group :: "(string \<Rightarrow> general_category) \<Rightarrow> NewGroup \<Rightarrow> unit result" where
  "validate_new_group cat grp = checks
     [require_nonempty ''group_id'' (ng_group_id grp),
      validate_ledger_key cat (ng_ledger_key grp),
      require_object ''canonical_request'' (ng_canonical_request grp),
      ensure (2 \<le> length (ng_members grp))
        (CatalogError ''capture group must contain at least two members''),
      validate_members cat (ng_group_id grp) [] [] (ng_members grp)]"

definition validate_waiter :: "WaiterRecord \<Rightarrow> unit result" where
  "validate_waiter w = checks
     [require_nonempty ''waiter_id'' (wr_waiter_id w), require_nonempty ''capture_id'' (wr_capture_id w),
      require_nonempty ''correlation_id'' (wr_correlation_id w),
      ensure (wr_created_at_ms w < wr_expires_at_ms w) (CatalogError ''waiter expiry must follow creation'')]"

definition validate_sha256 :: "string \<Rightarrow> string \<Rightarrow> unit result" where
  "validate_sha256 label value =
     ensure (length value = 64 \<and> list_all (\<lambda>b. (CHR ''0'' \<le> b \<and> b \<le> CHR ''9'') \<or> (CHR ''a'' \<le> b \<and> b \<le> CHR ''f'')) value)
       (CatalogError (label @ '' must be 64 lower-case hexadecimal characters''))"

definition object_get :: "json \<Rightarrow> string \<Rightarrow> json option" where
  "object_get v field = (case v of JObject kvs \<Rightarrow> map_of kvs field | _ \<Rightarrow> None)"

definition body_str :: "TerminalWrite \<Rightarrow> string \<Rightarrow> string option" where
  "body_str write field = Option.bind (object_get (tw_result write) field) json_as_str"

definition terminal_body :: "TerminalWrite \<Rightarrow> unit result" where
  "terminal_body write = ensure (is_JObject (tw_result write))
     (CatalogError ''terminal result must be a JSON object'')"

definition terminal_error_ok :: "TerminalWrite \<Rightarrow> unit result" where
  "terminal_error_ok write =
     (case tw_state write of
        Succeeded \<Rightarrow> ensure (tw_error_code write = None \<and> tw_error_message write = None)
          (CatalogError ''SUCCEEDED terminal writes must not retain an error'')
      | Failed \<Rightarrow> ensure (tw_error_code write \<noteq> None)
          (CatalogError ''failed/interrupted terminal writes require a stable error code'')
      | Interrupted \<Rightarrow> ensure (tw_error_code write \<noteq> None)
          (CatalogError ''failed/interrupted terminal writes require a stable error code'')
      | _ \<Rightarrow> Inr ())"

definition validate_terminal_write :: "TerminalWrite \<Rightarrow> unit result" where
  "validate_terminal_write write = checks
     [ensure (is_terminal (tw_state write)) (CatalogError ''terminal write requires a terminal job state''),
      require_object ''terminal result'' (tw_result write),
      terminal_error_ok write,
      terminal_body write,
      ensure (Option.bind (object_get (tw_result write) ''schemaVersion'') json_as_u64 = Some 1)
        (CatalogError ''terminal result schemaVersion must be 1''),
      for_each (\<lambda>field. case body_str write field of
          Some value \<Rightarrow> ensure (value \<noteq> [])
            (CatalogError (''terminal result '' @ field @ '' must be a non-empty string''))
        | None \<Rightarrow> Inl (CatalogError (''terminal result '' @ field @ '' must be a non-empty string'')))
        [''eventId'', ''captureId'', ''cameraId'', ''correlationId'']]"

definition validate_terminal_for_job :: "TerminalWrite \<Rightarrow> JobRow \<Rightarrow> unit result" where
  "validate_terminal_for_job write job = checks
     [terminal_body write,
      ensure (body_str write ''captureId'' = Some (capture_id job) \<and>
              body_str write ''cameraId'' = Some (instance_of job))
        (CatalogError ''terminal result captureId/cameraId does not match the durable job''),
      (case origin_correlation_id job of
         None \<Rightarrow> Inr ()
       | Some origin \<Rightarrow> ensure (body_str write ''correlationId'' = Some origin)
           (CatalogError ''terminal command result correlation does not match the creating request'')),
      ensure (job_group_id job = body_str write ''captureGroupId'')
        (CatalogError ''terminal result group identity does not match the durable job'')]"

lemma bounded_end_le: "bounded_end value n \<le> n"
  by (induction n) simp_all

lemma bounded_end_boundary: "is_char_boundary value (bounded_end value n)"
  by (induction n) (simp_all add: is_char_boundary_def)

lemma bounded_error_prefix:
  "length (bounded_error value) \<le> 1024 \<and> (\<exists>rest. value = bounded_error value @ rest) \<and>
   is_char_boundary value (length (bounded_error value))"
proof (cases "length value \<le> 1024")
  case False
  have "bounded_end value 1024 \<le> 1024" by (rule bounded_end_le)
  moreover have "\<exists>rest. value = take (bounded_end value 1024) value @ rest" by (metis append_take_drop_id)
  ultimately show ?thesis
    using False bounded_end_boundary [of "value" 1024] by (simp add: bounded_error_def min_def)
qed (simp add: bounded_error_def is_char_boundary_def)

end
