(* ===== verification/Catalog_Jobs.thy ===== *)
theory Catalog_Jobs
  imports Catalog_Data
begin

text \<open>
  The transactions of the durable catalog (\<open>src/catalog.rs\<close>) on capture jobs: idempotent acceptance of
  commanded and scheduled jobs, the stage compare-and-set, staging of the success before installation,
  the installation and cancellation race, and the single terminal write.
\<close>

datatype AcceptJobOutcome = JobInserted JobRecord | JobExisting JobRecord | JobConflict

datatype StateCasOutcome = StateChanged JobRecord | NotChanged JobRecord

datatype TerminalOutcome = Won JobRecord | AlreadyTerminal JobRecord | InstallationWon JobRecord

datatype InstallOutcome = Started JobRecord | AlreadyStarted JobRecord | WrongState JobRecord

section \<open>Insertion\<close>

definition insert_ledger ::
    "LedgerKey \<Rightarrow> RequestHash \<Rightarrow> json \<Rightarrow> int \<Rightarrow> string option \<Rightarrow> string option \<Rightarrow> catalog \<Rightarrow> catalog result" where
  "insert_ledger key hash request created_at capture group_ref db =
     (if load_ledger db key \<noteq> None then Inl constraint_failed
      else Inr (db\<lparr>command_ledger := command_ledger db @
        [\<lparr>le_key = key, le_request_hash = hash, le_canonical_request = request, le_state = InProgress,
          le_created_at_ms = created_at, le_updated_at_ms = created_at, le_capture_id = capture,
          le_group_id = group_ref, le_reply = None, le_error_code = None, le_error_message = None\<rparr>]\<rparr>))"

definition new_row :: "NewJob \<Rightarrow> JobRow" where
  "new_row job =
     \<lparr>capture_id = nj_capture_id job, instance_of = nj_instance job, ledger_key = nj_ledger_key job,
      state = Accepted, canonical_request = nj_canonical_request job, request_hash = nj_request_hash job,
      effective_profile = nj_effective_profile job, deadlines = nj_deadlines job, trigger = nj_trigger job,
      origin_correlation_id = nj_origin_correlation_id job, intended_output = nj_intended_output job,
      partial_path = None, final_path = None, expected_sha256 = None, expected_bytes = None,
      installed_sha256 = None, installed_bytes = None, accepted_at_ms = nj_accepted_at_ms job,
      updated_at_ms = nj_accepted_at_ms job, queued_at_ms = None, terminal_at_ms = None,
      job_group_id = nj_group_id job, install_started = False, terminal_result = None,
      job_error_code = None, job_error_message = None\<rparr>"

definition has_request :: "string \<Rightarrow> string \<Rightarrow> JobRow \<Rightarrow> bool" where
  "has_request inst request_id r =
     (instance_of r = inst \<and> map_option lk_request_id (ledger_key r) = Some request_id)"

text \<open>The primary key, the uniqueness of a request per camera, and the foreign key to the group.\<close>

definition insert_job :: "NewJob \<Rightarrow> catalog \<Rightarrow> catalog result" where
  "insert_job job db =
     (if select_row capture_id (nj_capture_id job) (jobs db) \<noteq> None then Inl constraint_failed
      else if (case nj_ledger_key job of None \<Rightarrow> False
               | Some key \<Rightarrow> list_ex (has_request (nj_instance job) (lk_request_id key)) (jobs db))
      then Inl constraint_failed
      else if (case nj_group_id job of None \<Rightarrow> False
               | Some g \<Rightarrow> select_row gr_group_id g (capture_groups db) = None)
      then Inl constraint_failed
      else Inr (db\<lparr>jobs := jobs db @ [new_row job]\<rparr>))"

definition insert_and_load :: "NewJob \<Rightarrow> catalog \<Rightarrow> (catalog \<times> AcceptJobOutcome) result" where
  "insert_and_load job db =
     and_then (insert_job job db) (\<lambda>db'.
     and_then (load_job_required db' (nj_capture_id job)) (\<lambda>record. Inr (db', JobInserted record)))"

section \<open>Acceptance\<close>

definition accept_job_blocking :: "NewJob \<Rightarrow> catalog \<Rightarrow> (catalog \<times> AcceptJobOutcome) result" where
  "accept_job_blocking job db =
     (case nj_ledger_key job of
        Some key \<Rightarrow>
          (case load_ledger db key of
             Some existing \<Rightarrow>
               if le_request_hash existing = nj_request_hash job
               then and_then (ok_or (le_capture_id existing)
                      (CatalogError ''capture ledger exists without its capture_id'')) (\<lambda>c.
                    and_then (load_job_required db c) (\<lambda>record. Inr (db, JobExisting record)))
               else Inr (db, JobConflict)
           | None \<Rightarrow>
               (case find (has_request (nj_instance job) (lk_request_id key)) (jobs db) of
                  Some row \<Rightarrow>
                    and_then (load_job_required db (capture_id row)) (\<lambda>existing.
                      if request_hash (fst existing) \<noteq> nj_request_hash job then Inr (db, JobConflict)
                      else and_then (insert_ledger key (nj_request_hash job) (nj_canonical_request job)
                             (nj_accepted_at_ms job) (Some (capture_id row)) None db) (\<lambda>db'.
                           Inr (db', JobExisting existing)))
                | None \<Rightarrow>
                    and_then (insert_ledger key (nj_request_hash job) (nj_canonical_request job)
                      (nj_accepted_at_ms job) (Some (nj_capture_id job)) None db) (insert_and_load job)))
      | None \<Rightarrow>
          (case load_job db (nj_capture_id job) of
             Some existing \<Rightarrow>
               if request_hash (fst existing) = nj_request_hash job then Inr (db, JobExisting existing)
               else Inr (db, JobConflict)
           | None \<Rightarrow> insert_and_load job db))"

definition accept_job ::
    "(string \<Rightarrow> general_category) \<Rightarrow> NewJob \<Rightarrow> catalog \<Rightarrow> catalog \<times> AcceptJobOutcome result" where
  "accept_job cat job db =
     (case validate_new_job cat job False of
        Inl e \<Rightarrow> (db, Inl e)
      | Inr _ \<Rightarrow>
          if nj_ledger_key job = None
          then (db, Inl (CatalogError
                 ''command jobs require a ledger key; use accept_scheduled_job for schedules''))
          else commit (accept_job_blocking job) db)"

definition occurrence_key :: "occurrence_row \<Rightarrow> string \<times> string \<times> int" where
  "occurrence_key row = (so_instance row, so_schedule_id row, so_intended_fire_time_ms row)"

definition accept_scheduled_job_blocking ::
    "NewJob \<Rightarrow> string \<Rightarrow> int \<Rightarrow> catalog \<Rightarrow> (catalog \<times> AcceptJobOutcome) result" where
  "accept_scheduled_job_blocking job schedule_id intended db =
     (case select_row occurrence_key (nj_instance job, schedule_id, intended) (schedule_occurrences db) of
        Some occ \<Rightarrow> and_then (load_job_required db (so_capture_id occ)) (\<lambda>r. Inr (db, JobExisting r))
      | None \<Rightarrow>
          if load_job db (nj_capture_id job) \<noteq> None then Inr (db, JobConflict)
          else and_then (insert_job job db) (\<lambda>db1.
               let db2 = db1\<lparr>schedule_occurrences := schedule_occurrences db1 @
                     [\<lparr>so_instance = nj_instance job, so_schedule_id = schedule_id,
                       so_intended_fire_time_ms = intended, so_capture_id = nj_capture_id job\<rparr>]\<rparr>
               in and_then (load_job_required db2 (nj_capture_id job)) (\<lambda>r. Inr (db2, JobInserted r))))"

definition accept_scheduled_job ::
    "(string \<Rightarrow> general_category) \<Rightarrow> NewJob \<Rightarrow> string \<Rightarrow> int \<Rightarrow> catalog \<Rightarrow> catalog \<times> AcceptJobOutcome result" where
  "accept_scheduled_job cat job schedule_id intended db =
     (case checks [validate_new_job cat job False,
         ensure (nj_ledger_key job = None)
           (CatalogError ''scheduled jobs must use the schedule occurrence key, not a command ledger''),
         require_nonempty ''schedule_id'' schedule_id] of
        Inl e \<Rightarrow> (db, Inl e)
      | Inr _ \<Rightarrow> commit (accept_scheduled_job_blocking job schedule_id intended) db)"

definition latest_schedule_occurrence :: "catalog \<Rightarrow> string \<Rightarrow> string \<Rightarrow> int option" where
  "latest_schedule_occurrence db inst schedule_id =
     (case filter (\<lambda>row. so_instance row = inst \<and> so_schedule_id row = schedule_id) (schedule_occurrences db) of
        [] \<Rightarrow> None
      | rows \<Rightarrow> Some (Max (set (map so_intended_fire_time_ms rows))))"

section \<open>Stages\<close>

definition at_job :: "string \<Rightarrow> (JobRow \<Rightarrow> bool) \<Rightarrow> JobRow \<Rightarrow> bool" where
  "at_job c q r = (capture_id r = c \<and> q r)"

definition update_jobs :: "(JobRow \<Rightarrow> bool) \<Rightarrow> (JobRow \<Rightarrow> JobRow) \<Rightarrow> catalog \<Rightarrow> catalog" where
  "update_jobs p f db = db\<lparr>jobs := update_where p f (jobs db)\<rparr>"

definition cas_state_blocking ::
    "string \<Rightarrow> JobState \<Rightarrow> JobState \<Rightarrow> int \<Rightarrow> catalog \<Rightarrow> (catalog \<times> StateCasOutcome) result" where
  "cas_state_blocking c expected nxt changed_at db =
     (let p = at_job c (\<lambda>r. state r = expected);
          db' = update_jobs p (\<lambda>r. r\<lparr>state := nxt, updated_at_ms := changed_at,
                  queued_at_ms := (if nxt = Queued then Some changed_at else queued_at_ms r)\<rparr>) db
      in and_then (load_job_required db' c) (\<lambda>record.
           Inr (db', if count_where p (jobs db) = 1 then StateChanged record else NotChanged record)))"

definition queue_job :: "string \<Rightarrow> int \<Rightarrow> catalog \<Rightarrow> catalog \<times> StateCasOutcome result" where
  "queue_job c queued_at db =
     (case require_nonempty ''capture_id'' c of
        Inl e \<Rightarrow> (db, Inl e)
      | Inr _ \<Rightarrow> commit (cas_state_blocking c Accepted Queued queued_at) db)"

definition invalid_transition :: camera_error where
  "invalid_transition = CatalogError ''invalid ordinary transition; PERSISTING requires begin_persisting''"

definition compare_and_set_state ::
    "string \<Rightarrow> JobState \<Rightarrow> JobState \<Rightarrow> int \<Rightarrow> catalog \<Rightarrow> catalog \<times> StateCasOutcome result" where
  "compare_and_set_state c expected nxt changed_at db =
     (if is_terminal expected \<or> is_terminal nxt \<or> \<not> can_transition_to expected nxt \<or> nxt = Persisting
      then (db, Inl invalid_transition)
      else commit (cas_state_blocking c expected nxt changed_at) db)"

definition reschedule_blocking ::
    "string \<Rightarrow> JobDeadlines \<Rightarrow> int \<Rightarrow> catalog \<Rightarrow> (catalog \<times> JobRecord) result" where
  "reschedule_blocking c d rebased_at db =
     (case select_row capture_id c (jobs db) of
        None \<Rightarrow> Inl (Rejected CaptureNotFound ''capture was not found'')
      | Some row \<Rightarrow>
          if state row \<noteq> Queued
          then Inl (CatalogError (''only a QUEUED capture may be rebased onto its admission; found '' @
                 job_state_token (state row)))
          else let db' = update_jobs (at_job c (\<lambda>_. True))
                     (\<lambda>r. r\<lparr>deadlines := d, updated_at_ms := rebased_at\<rparr>) db
               in and_then (ok_or (load_job db' c)
                    (CatalogError ''capture disappeared while being rebased'')) (\<lambda>r. Inr (db', r)))"

definition reschedule_deadlines ::
    "string \<Rightarrow> JobDeadlines \<Rightarrow> int \<Rightarrow> catalog \<Rightarrow> catalog \<times> JobRecord result" where
  "reschedule_deadlines c d rebased_at db =
     (case checks [require_nonempty ''capture_id'' c, check_deadlines d] of
        Inl e \<Rightarrow> (db, Inl e)
      | Inr _ \<Rightarrow> commit (reschedule_blocking c d rebased_at) db)"

section \<open>Persistence\<close>

text \<open>\<open>pending_success\<close> has one row per capture.\<close>

definition insert_pending_success :: "string \<Rightarrow> TerminalWrite \<Rightarrow> catalog \<Rightarrow> catalog result" where
  "insert_pending_success c write db =
     (if select_row pr_capture_id c (pending_success db) \<noteq> None then Inl constraint_failed
      else Inr (db\<lparr>pending_success := pending_success db @
        [\<lparr>pr_capture_id = c, pr_terminal_result = tw_result write,
          pr_terminal_at_ms = tw_terminal_at_ms write\<rparr>]\<rparr>))"

definition begin_persisting_blocking ::
    "string \<Rightarrow> PendingInstall \<Rightarrow> catalog \<Rightarrow> (catalog \<times> StateCasOutcome) result" where
  "begin_persisting_blocking c pend db =
     and_then (load_job_required db c) (\<lambda>before.
     and_then (validate_terminal_for_job (pi_success pend) (fst before)) (\<lambda>_.
       let p = at_job c (\<lambda>r. state r = Acquiring \<or> state r = Encoding);
           changed = count_where p (jobs db) = 1;
           db1 = update_jobs p (\<lambda>r. r\<lparr>state := Persisting, updated_at_ms := pi_changed_at_ms pend,
             partial_path := Some (pi_partial_path pend), final_path := Some (pi_final_path pend),
             expected_sha256 := Some (pi_expected_sha256 pend),
             expected_bytes := Some (pi_expected_bytes pend)\<rparr>) db
       in and_then (if changed then insert_pending_success c (pi_success pend) db1 else Inr db1) (\<lambda>db2.
          and_then (load_job_required db2 c) (\<lambda>record.
            Inr (db2, if changed then StateChanged record else NotChanged record)))))"

definition fits_sqlite_integer :: "u64 \<Rightarrow> bool" where
  "fits_sqlite_integer n = (unat n < 2 ^ 63)"

definition begin_persisting ::
    "string \<Rightarrow> PendingInstall \<Rightarrow> catalog \<Rightarrow> catalog \<times> StateCasOutcome result" where
  "begin_persisting c pend db =
     (case checks [require_nonempty ''partial_path'' (pi_partial_path pend),
         require_nonempty ''final_path'' (pi_final_path pend),
         ensure (pi_partial_path pend \<noteq> pi_final_path pend)
           (CatalogError ''partial and final persistence paths must differ''),
         validate_sha256 ''expected sha256'' (pi_expected_sha256 pend),
         ensure (fits_sqlite_integer (pi_expected_bytes pend))
           (CatalogError ''expected byte count exceeds SQLite INTEGER''),
         ensure (tw_state (pi_success pend) = Succeeded)
           (CatalogError ''pending persistence terminal write must be SUCCEEDED''),
         validate_terminal_write (pi_success pend)] of
        Inl e \<Rightarrow> (db, Inl e)
      | Inr _ \<Rightarrow> commit (begin_persisting_blocking c pend) db)"

definition begin_install_blocking :: "string \<Rightarrow> int \<Rightarrow> catalog \<Rightarrow> (catalog \<times> InstallOutcome) result" where
  "begin_install_blocking c changed_at db =
     (let p = at_job c (\<lambda>r. state r = Persisting \<and> \<not> install_started r);
          db' = update_jobs p (\<lambda>r. r\<lparr>install_started := True, updated_at_ms := changed_at\<rparr>) db
      in and_then (load_job_required db' c) (\<lambda>record.
           Inr (db', if count_where p (jobs db) = 1 then Started record
                     else if state (fst record) = Persisting \<and> install_started (fst record)
                     then AlreadyStarted record else WrongState record)))"

definition try_begin_install :: "string \<Rightarrow> int \<Rightarrow> catalog \<Rightarrow> catalog \<times> InstallOutcome result" where
  "try_begin_install c changed_at = commit (begin_install_blocking c changed_at)"

definition record_installed_blocking ::
    "string \<Rightarrow> string \<Rightarrow> u64 \<Rightarrow> int \<Rightarrow> catalog \<Rightarrow> (catalog \<times> JobRecord) result" where
  "record_installed_blocking c sha bytes changed_at db =
     and_then (load_job_required db c) (\<lambda>before.
       if expected_sha256 (fst before) \<noteq> Some sha \<or> expected_bytes (fst before) \<noteq> Some bytes \<or>
          snd before = None
       then Inl (CatalogError ''installed artifact does not match the durably prepared recovery facts'')
       else let p = at_job c (\<lambda>r. state r = Persisting \<and> install_started r);
                db' = update_jobs p (\<lambda>r. r\<lparr>installed_sha256 := Some sha, installed_bytes := Some bytes,
                        updated_at_ms := changed_at\<rparr>) db
            in and_then (load_job_required db' c) (\<lambda>record.
                 if count_where p (jobs db) \<noteq> 1
                 then Inl (CatalogError
                        ''installed artifact can be recorded only after installation wins in PERSISTING'')
                 else Inr (db', record)))"

definition record_installed_artifact ::
    "string \<Rightarrow> string \<Rightarrow> u64 \<Rightarrow> int \<Rightarrow> catalog \<Rightarrow> catalog \<times> JobRecord result" where
  "record_installed_artifact c sha bytes changed_at db =
     (case checks [validate_sha256 ''installed sha256'' sha,
         ensure (fits_sqlite_integer bytes) (CatalogError ''installed byte count exceeds SQLite INTEGER'')] of
        Inl e \<Rightarrow> (db, Inl e)
      | Inr _ \<Rightarrow> commit (record_installed_blocking c sha bytes changed_at) db)"

section \<open>The terminal write\<close>

definition unfinished :: "JobRow \<Rightarrow> bool" where
  "unfinished r = (\<not> is_terminal (state r))"

definition install_facts :: "JobRow \<Rightarrow> bool" where
  "install_facts r = (state r = Persisting \<and> install_started r \<and> partial_path r \<noteq> None \<and>
     final_path r \<noteq> None \<and> expected_sha256 r \<noteq> None \<and> expected_bytes r \<noteq> None \<and>
     installed_sha256 r \<noteq> None \<and> installed_bytes r \<noteq> None)"

definition finished_row :: "TerminalWrite \<Rightarrow> JobRow \<Rightarrow> JobRow" where
  "finished_row write r = r\<lparr>state := tw_state write, updated_at_ms := tw_terminal_at_ms write,
     terminal_at_ms := Some (tw_terminal_at_ms write), terminal_result := Some (tw_result write),
     job_error_code := tw_error_code write,
     job_error_message := map_option bounded_error (tw_error_message write)\<rparr>"

definition settle_ledger ::
    "(CommandLedgerRecord \<Rightarrow> bool) \<Rightarrow> JobState \<Rightarrow> int \<Rightarrow> json \<Rightarrow> string option \<Rightarrow> string option \<Rightarrow>
     CommandLedgerRecord list \<Rightarrow> CommandLedgerRecord list" where
  "settle_ledger p st settled_at result code message = update_where (\<lambda>l. p l \<and> le_state l = InProgress)
     (\<lambda>l. l\<lparr>le_state := (if st = Succeeded then LedgerSucceeded else LedgerFailed),
            le_updated_at_ms := settled_at, le_reply := Some result, le_error_code := code,
            le_error_message := message\<rparr>)"

definition terminal_blocking ::
    "string \<Rightarrow> TerminalWrite \<Rightarrow> bool \<Rightarrow> JobState list option \<Rightarrow> catalog \<Rightarrow> (catalog \<times> TerminalOutcome) result" where
  "terminal_blocking c write cancellation expected_states db =
     and_then (load_job_required db c) (\<lambda>before.
       let row = fst before in
       if is_terminal (state row) then Inr (db, AlreadyTerminal before)
       else if (case expected_states of None \<Rightarrow> False | Some states \<Rightarrow> state row \<notin> set states)
       then Inl (CatalogError ''recovery CAS expected another state'')
       else and_then (validate_terminal_for_job write row) (\<lambda>_.
         if cancellation \<and> install_started row then Inr (db, InstallationWon before)
         else if \<not> can_transition_to (state row) (tw_state write)
         then Inl (CatalogError ''invalid terminal transition'')
         else if tw_state write = Succeeded \<and> snd before \<noteq> Some write
         then Inl (CatalogError ''success terminal write does not exactly match the durably staged write'')
         else if tw_state write = Succeeded \<and> \<not> install_facts row
         then Inl (CatalogError
                ''SUCCEEDED requires verified installed-artifact facts after the installation CAS'')
         else
           let p = at_job c (\<lambda>r. unfinished r \<and> (\<not> cancellation \<or> \<not> install_started r));
               db1 = update_jobs p (finished_row write) db
           in if count_where p (jobs db) \<noteq> 1
              then and_then (load_job_required db1 c) (\<lambda>current.
                     Inr (db1, if cancellation \<and> install_started (fst current) \<and>
                                  \<not> is_terminal (state (fst current))
                               then InstallationWon current else AlreadyTerminal current))
              else
                let db2 = db1\<lparr>pending_success := delete_where (\<lambda>p. pr_capture_id p = c) (pending_success db1)\<rparr>;
                    db3 = (if tw_state write \<noteq> Succeeded
                           then update_jobs (at_job c (\<lambda>_. True))
                                  (\<lambda>r. r\<lparr>expected_sha256 := None, expected_bytes := None\<rparr>) db2
                           else db2);
                    db4 = db3\<lparr>command_ledger := settle_ledger (\<lambda>l. le_capture_id l = Some c) (tw_state write)
                             (tw_terminal_at_ms write) (tw_result write) (tw_error_code write)
                             (map_option bounded_error (tw_error_message write)) (command_ledger db3)\<rparr>
                in and_then (load_job_required db4 c) (\<lambda>record. Inr (db4, Won record))))"

definition commit_terminal :: "string \<Rightarrow> TerminalWrite \<Rightarrow> catalog \<Rightarrow> catalog \<times> TerminalOutcome result" where
  "commit_terminal c write db =
     (case checks [ensure (tw_state write \<noteq> Cancelled)
           (CatalogError ''use cancel_job for cancellation arbitration''), validate_terminal_write write] of
        Inl e \<Rightarrow> (db, Inl e)
      | Inr _ \<Rightarrow> commit (terminal_blocking c write False None) db)"

definition cancel_job :: "string \<Rightarrow> TerminalWrite \<Rightarrow> catalog \<Rightarrow> catalog \<times> TerminalOutcome result" where
  "cancel_job c write db =
     (case checks [ensure (tw_state write = Cancelled)
           (CatalogError ''cancel_job requires the CANCELLED terminal state''), validate_terminal_write write] of
        Inl e \<Rightarrow> (db, Inl e)
      | Inr _ \<Rightarrow> commit (terminal_blocking c write True None) db)"

definition interrupt_recovered ::
    "string \<Rightarrow> JobState list \<Rightarrow> TerminalWrite \<Rightarrow> catalog \<Rightarrow> catalog \<times> TerminalOutcome result" where
  "interrupt_recovered c states write db =
     (case checks [ensure (tw_state write = Interrupted \<and> states \<noteq> [] \<and> \<not> list_ex is_terminal states)
           (CatalogError ''recovery interruption requires INTERRUPTED and non-terminal expected states''),
         validate_terminal_write write] of
        Inl e \<Rightarrow> (db, Inl e)
      | Inr _ \<Rightarrow> commit (terminal_blocking c write False (Some states)) db)"

text \<open>The rows startup has to reconcile, oldest first.\<close>

definition recovery_jobs :: "catalog \<Rightarrow> JobRecord list" where
  "recovery_jobs db = map (\<lambda>r. (r, staged db (capture_id r)))
     (sort_key (\<lambda>r. (accepted_at_ms r, capture_id r)) (filter unfinished (jobs db)))"

end
