(* ===== verification/Catalog_Groups.thy ===== *)
theory Catalog_Groups
  imports Catalog_Jobs
begin

text \<open>
  The remaining transactions of the durable catalog (\<open>src/catalog.rs\<close>): capture groups, the ledger of
  standalone commands, deferred waiters, and retention.
\<close>

datatype AcceptGroupOutcome = GroupInserted GroupRecord | GroupExisting GroupRecord | GroupConflict

datatype BeginCommandOutcome =
    CommandStarted CommandLedgerRecord | CommandExisting CommandLedgerRecord | CommandConflict

section \<open>Groups\<close>

definition insert_group :: "NewGroup \<Rightarrow> catalog \<Rightarrow> catalog result" where
  "insert_group g db =
     (if select_row gr_group_id (ng_group_id g) (capture_groups db) \<noteq> None \<or>
         select_row gr_ledger_key (ng_ledger_key g) (capture_groups db) \<noteq> None
      then Inl constraint_failed
      else Inr (db\<lparr>capture_groups := capture_groups db @
        [\<lparr>gr_group_id = ng_group_id g, gr_ledger_key = ng_ledger_key g, gr_state = Accepted,
          gr_canonical_request = ng_canonical_request g, gr_request_hash = ng_request_hash g,
          gr_origin_correlation_id = ng_origin_correlation_id g, gr_accepted_at_ms = ng_accepted_at_ms g,
          gr_queued_at_ms = None, gr_terminal_at_ms = None, gr_terminal_result = None,
          gr_error_code = None, gr_error_message = None\<rparr>]\<rparr>))"

definition insert_member :: "string \<Rightarrow> string \<Rightarrow> nat \<Rightarrow> catalog \<Rightarrow> catalog result" where
  "insert_member g c index db =
     (if list_ex (\<lambda>m. gm_capture_id m = c \<or> gm_group_id m = g \<and> gm_result_index m = index) (group_members db)
      then Inl constraint_failed
      else Inr (db\<lparr>group_members := group_members db @
             [\<lparr>gm_group_id = g, gm_capture_id = c, gm_result_index = index\<rparr>]\<rparr>))"

fun insert_members :: "string \<Rightarrow> nat \<Rightarrow> NewJob list \<Rightarrow> catalog \<Rightarrow> catalog result" where
  "insert_members g index [] db = Inr db"
| "insert_members g index (member # rest) db =
     and_then (insert_job member db) (\<lambda>db1.
     and_then (insert_member g (nj_capture_id member) index db1) (insert_members g (Suc index) rest))"

definition accept_group_blocking :: "NewGroup \<Rightarrow> catalog \<Rightarrow> (catalog \<times> AcceptGroupOutcome) result" where
  "accept_group_blocking g db =
     (case load_ledger db (ng_ledger_key g) of
        Some existing \<Rightarrow>
          if le_request_hash existing = ng_request_hash g
          then and_then (ok_or (le_group_id existing)
                 (CatalogError ''group ledger exists without its group_id'')) (\<lambda>gid.
               and_then (load_group_required db gid) (\<lambda>record. Inr (db, GroupExisting record)))
          else Inr (db, GroupConflict)
      | None \<Rightarrow>
          and_then (insert_ledger (ng_ledger_key g) (ng_request_hash g) (ng_canonical_request g)
            (ng_accepted_at_ms g) None (Some (ng_group_id g)) db) (\<lambda>db1.
          and_then (insert_group g db1) (\<lambda>db2.
          and_then (insert_members (ng_group_id g) 0 (ng_members g) db2) (\<lambda>db3.
          and_then (load_group_required db3 (ng_group_id g)) (\<lambda>record. Inr (db3, GroupInserted record))))))"

definition accept_group ::
    "(string \<Rightarrow> general_category) \<Rightarrow> NewGroup \<Rightarrow> catalog \<Rightarrow> catalog \<times> AcceptGroupOutcome result" where
  "accept_group cat g db =
     (case validate_new_group cat g of
        Inl e \<Rightarrow> (db, Inl e)
      | Inr _ \<Rightarrow> commit (accept_group_blocking g) db)"

definition queue_group_blocking :: "string \<Rightarrow> int \<Rightarrow> catalog \<Rightarrow> (catalog \<times> GroupRecord) result" where
  "queue_group_blocking g queued_at db =
     and_then (load_group_required db g) (\<lambda>record.
       if gr_state (fst record) = Queued then Inr (db, record)
       else if gr_state (fst record) \<noteq> Accepted then Inl (CatalogError ''group cannot queue'')
       else if list_ex (\<lambda>m. state (fst m) \<noteq> Accepted) (snd record)
       then Inl (CatalogError ''group members are not uniformly ACCEPTED'')
       else
         let p = (\<lambda>r. capture_id r \<in> gm_capture_id ` set (filter (\<lambda>m. gm_group_id m = g) (group_members db))
                      \<and> state r = Accepted);
             q = (\<lambda>row. gr_group_id row = g \<and> gr_state row = Accepted);
             db1 = update_jobs p (\<lambda>r. r\<lparr>state := Queued, queued_at_ms := Some queued_at,
                     updated_at_ms := queued_at\<rparr>) db;
             db2 = db1\<lparr>capture_groups := update_where q (\<lambda>row. row\<lparr>gr_state := Queued,
                     gr_queued_at_ms := Some queued_at\<rparr>) (capture_groups db1)\<rparr>
         in if count_where p (jobs db) \<noteq> length (snd record)
            then Inl (CatalogError ''group queue CAS changed an unexpected number of members'')
            else if count_where q (capture_groups db1) \<noteq> 1
            then Inl (CatalogError ''group queue CAS lost after member update'')
            else and_then (load_group_required db2 g) (\<lambda>queued. Inr (db2, queued)))"

definition queue_group :: "string \<Rightarrow> int \<Rightarrow> catalog \<Rightarrow> catalog \<times> GroupRecord result" where
  "queue_group g queued_at db =
     (case require_nonempty ''group_id'' g of
        Inl e \<Rightarrow> (db, Inl e)
      | Inr _ \<Rightarrow> commit (queue_group_blocking g queued_at) db)"

definition complete_group_blocking ::
    "string \<Rightarrow> JobState \<Rightarrow> json \<Rightarrow> string option \<Rightarrow> string option \<Rightarrow> int \<Rightarrow> catalog \<Rightarrow>
     (catalog \<times> GroupRecord) result" where
  "complete_group_blocking g st result code message terminal_at db =
     and_then (load_group_required db g) (\<lambda>before.
       if is_terminal (gr_state (fst before)) then Inr (db, before)
       else if list_ex (\<lambda>m. \<not> is_terminal (state (fst m))) (snd before)
       then Inl (CatalogError ''group cannot complete while a member is non-terminal'')
       else
         let bounded = map_option bounded_error message;
             q = (\<lambda>row. gr_group_id row = g \<and> (gr_state row = Accepted \<or> gr_state row = Queued));
             db1 = db\<lparr>capture_groups := update_where q (\<lambda>row. row\<lparr>gr_state := st,
                     gr_terminal_at_ms := Some terminal_at, gr_terminal_result := Some result,
                     gr_error_code := code, gr_error_message := bounded\<rparr>) (capture_groups db)\<rparr>;
             db2 = db1\<lparr>command_ledger := settle_ledger (\<lambda>l. le_group_id l = Some g) st terminal_at result
                     code bounded (command_ledger db1)\<rparr>
         in if count_where q (capture_groups db) \<noteq> 1
            then Inl (CatalogError ''group terminal CAS failed unexpectedly'')
            else and_then (load_group_required db2 g) (\<lambda>record. Inr (db2, record)))"

definition complete_group ::
    "string \<Rightarrow> JobState \<Rightarrow> json \<Rightarrow> string option \<Rightarrow> string option \<Rightarrow> int \<Rightarrow> catalog \<Rightarrow>
     catalog \<times> GroupRecord result" where
  "complete_group g st result code message terminal_at db =
     (if \<not> is_terminal st
      then (db, Inl (CatalogError ''group completion requires a terminal state''))
      else commit (complete_group_blocking g st result code message terminal_at) db)"

section \<open>Standalone commands\<close>

definition begin_command_blocking ::
    "LedgerKey \<Rightarrow> RequestHash \<Rightarrow> json \<Rightarrow> int \<Rightarrow> catalog \<Rightarrow> (catalog \<times> BeginCommandOutcome) result" where
  "begin_command_blocking key hash request created_at db =
     (case load_ledger db key of
        Some existing \<Rightarrow>
          Inr (db, if le_request_hash existing = hash then CommandExisting existing else CommandConflict)
      | None \<Rightarrow>
          and_then (insert_ledger key hash request created_at None None db) (\<lambda>db'.
          and_then (ok_or (load_ledger db' key) (CatalogError ''inserted ledger disappeared'')) (\<lambda>record.
            Inr (db', CommandStarted record))))"

definition begin_command ::
    "(string \<Rightarrow> general_category) \<Rightarrow> LedgerKey \<Rightarrow> RequestHash \<Rightarrow> json \<Rightarrow> int \<Rightarrow> catalog \<Rightarrow>
     catalog \<times> BeginCommandOutcome result" where
  "begin_command cat key hash request created_at db =
     (case checks [validate_ledger_key cat key, require_object ''canonical_request'' request] of
        Inl e \<Rightarrow> (db, Inl e)
      | Inr _ \<Rightarrow> commit (begin_command_blocking key hash request created_at) db)"

definition update_command ::
    "LedgerKey \<Rightarrow> (CommandLedgerRecord \<Rightarrow> CommandLedgerRecord) \<Rightarrow> string \<Rightarrow> catalog \<Rightarrow>
     (catalog \<times> CommandLedgerRecord) result" where
  "update_command key f failure db =
     (let p = (\<lambda>l. le_key l = key \<and> le_state l = InProgress);
          db' = db\<lparr>command_ledger := update_where p f (command_ledger db)\<rparr>
      in and_then (ok_or (load_ledger db' key) (CatalogError ''command ledger does not exist'')) (\<lambda>record.
           if count_where p (command_ledger db) = 0 \<and> le_state record = InProgress
           then Inl (CatalogError failure) else Inr (db', record)))"

definition complete_command ::
    "(string \<Rightarrow> general_category) \<Rightarrow> LedgerKey \<Rightarrow> LedgerState \<Rightarrow> json \<Rightarrow> string option \<Rightarrow> string option \<Rightarrow>
     int \<Rightarrow> catalog \<Rightarrow> catalog \<times> CommandLedgerRecord result" where
  "complete_command cat key st reply code message updated_at db =
     (case checks [ensure (st = LedgerSucceeded \<or> st = LedgerFailed)
           (CatalogError ''command completion must be SUCCEEDED or FAILED''), validate_ledger_key cat key] of
        Inl e \<Rightarrow> (db, Inl e)
      | Inr _ \<Rightarrow> commit (update_command key (\<lambda>l. l\<lparr>le_state := st, le_reply := Some reply,
          le_error_code := code, le_error_message := map_option bounded_error message,
          le_updated_at_ms := updated_at\<rparr>) ''command completion CAS failed unexpectedly'') db)"

definition record_command_acceptance ::
    "(string \<Rightarrow> general_category) \<Rightarrow> LedgerKey \<Rightarrow> json \<Rightarrow> int \<Rightarrow> catalog \<Rightarrow>
     catalog \<times> CommandLedgerRecord result" where
  "record_command_acceptance cat key reply updated_at db =
     (case validate_ledger_key cat key of
        Inl e \<Rightarrow> (db, Inl e)
      | Inr _ \<Rightarrow> commit (update_command key (\<lambda>l. l\<lparr>le_reply := Some reply, le_updated_at_ms := updated_at\<rparr>)
          ''command acceptance reply CAS failed unexpectedly'') db)"

definition RECONNECT_VERB :: string where "RECONNECT_VERB = ''sb/reconnect''"

definition standalone :: "CommandLedgerRecord \<Rightarrow> bool" where
  "standalone l = (le_capture_id l = None \<and> le_group_id l = None)"

definition settle_interrupted_reconnects :: "int \<Rightarrow> catalog \<Rightarrow> catalog" where
  "settle_interrupted_reconnects updated_at db = db\<lparr>command_ledger := update_where
     (\<lambda>l. lk_verb (le_key l) = RECONNECT_VERB \<and> standalone l \<and>
          (le_state l = InProgress \<or> le_state l = OutcomeUnknown))
     (\<lambda>l. l\<lparr>le_state := LedgerSucceeded, le_updated_at_ms := updated_at\<rparr>) (command_ledger db)\<rparr>"

definition mark_hazardous_commands_outcome_unknown :: "int \<Rightarrow> catalog \<Rightarrow> catalog" where
  "mark_hazardous_commands_outcome_unknown updated_at db = db\<lparr>command_ledger := update_where
     (\<lambda>l. le_state l = InProgress \<and> standalone l)
     (\<lambda>l. l\<lparr>le_state := OutcomeUnknown, le_updated_at_ms := updated_at\<rparr>) (command_ledger db)\<rparr>"

section \<open>Waiters\<close>

text \<open>A repeated waiter is ignored; a waiter for an unknown capture violates the foreign key.\<close>

definition add_waiter :: "WaiterRecord \<Rightarrow> catalog \<Rightarrow> catalog \<times> bool result" where
  "add_waiter w db =
     (case validate_waiter w of
        Inl e \<Rightarrow> (db, Inl e)
      | Inr _ \<Rightarrow>
          if select_row wr_waiter_id (wr_waiter_id w) (deferred_waiters db) \<noteq> None then (db, Inr False)
          else if select_row capture_id (wr_capture_id w) (jobs db) = None then (db, Inl constraint_failed)
          else (db\<lparr>deferred_waiters := deferred_waiters db @ [w]\<rparr>, Inr True))"

definition live_waiters :: "string \<Rightarrow> int \<Rightarrow> catalog \<Rightarrow> WaiterRecord list" where
  "live_waiters c now db = sort_key (\<lambda>w. (wr_created_at_ms w, wr_waiter_id w))
     (filter (\<lambda>w. wr_capture_id w = c \<and> now < wr_expires_at_ms w) (deferred_waiters db))"

definition remove_waiter :: "string \<Rightarrow> catalog \<Rightarrow> catalog \<times> bool" where
  "remove_waiter wid db =
     (db\<lparr>deferred_waiters := delete_where (\<lambda>w. wr_waiter_id w = wid) (deferred_waiters db)\<rparr>,
      count_where (\<lambda>w. wr_waiter_id w = wid) (deferred_waiters db) = 1)"

section \<open>Retention\<close>

text \<open>Deleting a job is refused while a group or a schedule refers to it, and takes its staged success
  and its waiters along.\<close>

definition delete_job :: "string \<Rightarrow> catalog \<Rightarrow> catalog result" where
  "delete_job c db =
     (if list_ex (\<lambda>m. gm_capture_id m = c) (group_members db) \<or>
         list_ex (\<lambda>s. so_capture_id s = c) (schedule_occurrences db)
      then (if select_row capture_id c (jobs db) = None then Inr db else Inl constraint_failed)
      else Inr (db\<lparr>jobs := delete_where (\<lambda>r. capture_id r = c) (jobs db),
                   pending_success := delete_where (\<lambda>p. pr_capture_id p = c) (pending_success db),
                   deferred_waiters := delete_where (\<lambda>w. wr_capture_id w = c) (deferred_waiters db)\<rparr>))"

definition drop_occurrences :: "string \<Rightarrow> catalog \<Rightarrow> catalog" where
  "drop_occurrences c db =
     db\<lparr>schedule_occurrences := delete_where (\<lambda>s. so_capture_id s = c) (schedule_occurrences db)\<rparr>"

fun delete_terminal_jobs :: "string list \<Rightarrow> catalog \<Rightarrow> catalog result" where
  "delete_terminal_jobs [] db = Inr db"
| "delete_terminal_jobs (c # cs) db =
     and_then (delete_job c (drop_occurrences c db)) (\<lambda>db1.
       delete_terminal_jobs cs (db1\<lparr>command_ledger := delete_where
         (\<lambda>l. le_capture_id l = Some c \<and> le_state l \<noteq> OutcomeUnknown) (command_ledger db1)\<rparr>))"

definition ledger_unknown :: "(CommandLedgerRecord \<Rightarrow> string option) \<Rightarrow> string \<Rightarrow> catalog \<Rightarrow> bool" where
  "ledger_unknown ref c db = list_ex (\<lambda>l. ref l = Some c \<and> le_state l = OutcomeUnknown) (command_ledger db)"

definition prunable :: "catalog \<Rightarrow> JobRow \<Rightarrow> bool" where
  "prunable db r = (job_group_id r = None \<and> is_terminal (state r) \<and>
     \<not> ledger_unknown le_capture_id (capture_id r) db)"

definition prune_limit_error :: "'a result" where
  "prune_limit_error = Inl (CatalogError ''prune limit must be between 1 and 10000'')"

definition prune_terminal_jobs_blocking :: "int \<Rightarrow> nat \<Rightarrow> catalog \<Rightarrow> (catalog \<times> nat) result" where
  "prune_terminal_jobs_blocking before limit db =
     (let victims = map capture_id (select_limit (\<lambda>r. (terminal_at_ms r, capture_id r)) limit
          (\<lambda>r. prunable db r \<and> (case terminal_at_ms r of None \<Rightarrow> False | Some t \<Rightarrow> t < before)) (jobs db))
      in and_then (delete_terminal_jobs victims db) (\<lambda>db'. Inr (db', length victims)))"


definition prune_terminal_jobs :: "int \<Rightarrow> nat \<Rightarrow> catalog \<Rightarrow> catalog \<times> nat result" where
  "prune_terminal_jobs before limit db =
     (if \<not> (1 \<le> limit \<and> limit \<le> 10000) then (db, prune_limit_error)
      else commit (prune_terminal_jobs_blocking before limit) db)"

definition group_prunable :: "int \<Rightarrow> catalog \<Rightarrow> GroupRow \<Rightarrow> bool" where
  "group_prunable before db g =
     ((case gr_terminal_at_ms g of None \<Rightarrow> False | Some t \<Rightarrow> t < before) \<and> is_terminal (gr_state g) \<and>
      \<not> list_ex (\<lambda>m. gm_group_id m = gr_group_id g \<and>
           list_ex (\<lambda>r. capture_id r = gm_capture_id m \<and> unfinished r) (jobs db)) (group_members db) \<and>
      \<not> ledger_unknown le_group_id (gr_group_id g) db)"

fun delete_member_jobs :: "string list \<Rightarrow> catalog \<Rightarrow> catalog result" where
  "delete_member_jobs [] db = Inr db"
| "delete_member_jobs (c # cs) db =
     and_then (delete_job c (drop_occurrences c db)) (delete_member_jobs cs)"

text \<open>Deleting the group row is refused while a job or a membership refers to it.\<close>

definition delete_group_row :: "string \<Rightarrow> catalog \<Rightarrow> catalog result" where
  "delete_group_row g db =
     (if list_ex (\<lambda>r. job_group_id r = Some g) (jobs db) \<or> list_ex (\<lambda>m. gm_group_id m = g) (group_members db)
      then Inl constraint_failed
      else Inr (db\<lparr>capture_groups := delete_where (\<lambda>row. gr_group_id row = g) (capture_groups db)\<rparr>))"

definition delete_group :: "string \<Rightarrow> catalog \<Rightarrow> catalog result" where
  "delete_group g db =
     (let captures = member_captures db g;
          db1 = db\<lparr>group_members := delete_where (\<lambda>m. gm_group_id m = g) (group_members db)\<rparr>
      in and_then (delete_member_jobs captures db1) (\<lambda>db2.
         and_then (delete_group_row g db2) (\<lambda>db3.
           Inr (db3\<lparr>command_ledger := delete_where
             (\<lambda>l. le_group_id l = Some g \<and> le_state l \<noteq> OutcomeUnknown) (command_ledger db3)\<rparr>))))"

fun delete_groups :: "string list \<Rightarrow> catalog \<Rightarrow> catalog result" where
  "delete_groups [] db = Inr db"
| "delete_groups (g # gs) db = and_then (delete_group g db) (delete_groups gs)"

definition prune_terminal_groups_blocking :: "int \<Rightarrow> nat \<Rightarrow> catalog \<Rightarrow> (catalog \<times> nat) result" where
  "prune_terminal_groups_blocking before limit db =
     (let victims = map gr_group_id (select_limit (\<lambda>g. (gr_terminal_at_ms g, gr_group_id g)) limit
          (group_prunable before db) (capture_groups db))
      in and_then (delete_groups victims db) (\<lambda>db'. Inr (db', length victims)))"

definition prune_terminal_groups :: "int \<Rightarrow> nat \<Rightarrow> catalog \<Rightarrow> catalog \<times> nat result" where
  "prune_terminal_groups before limit db =
     (if \<not> (1 \<le> limit \<and> limit \<le> 10000) then (db, prune_limit_error)
      else commit (prune_terminal_groups_blocking before limit) db)"

definition settled :: "CommandLedgerRecord \<Rightarrow> bool" where
  "settled l = (le_state l = LedgerSucceeded \<or> le_state l = LedgerFailed)"

definition prune_completed_command_ledgers :: "int \<Rightarrow> nat \<Rightarrow> catalog \<Rightarrow> catalog \<times> nat result" where
  "prune_completed_command_ledgers before limit db =
     (if \<not> (1 \<le> limit \<and> limit \<le> 10000) then (db, prune_limit_error)
      else
        let keys = map le_key (select_limit
              (\<lambda>l. (le_updated_at_ms l, lk_instance (le_key l), lk_verb (le_key l), lk_request_id (le_key l)))
              limit (\<lambda>l. standalone l \<and> settled l \<and> le_updated_at_ms l < before) (command_ledger db))
        in (db\<lparr>command_ledger := delete_where (\<lambda>l. le_key l \<in> set keys \<and> settled l) (command_ledger db)\<rparr>,
            Inr (length keys)))"

text \<open>Only as many records as exceed the configured maximum are selected, and none below it.\<close>

definition enforce_result_record_limit_blocking :: "nat \<Rightarrow> nat \<Rightarrow> catalog \<Rightarrow> (catalog \<times> nat) result" where
  "enforce_result_record_limit_blocking maximum limit db =
     (let terminal_count = count_where (\<lambda>r. is_terminal (state r)) (jobs db)
      in if terminal_count \<le> maximum then Inr (db, 0)
         else
           let victims = map capture_id (select_limit (\<lambda>r. (terminal_at_ms r, capture_id r))
                 (min (terminal_count - maximum) limit) (prunable db) (jobs db))
           in and_then (delete_terminal_jobs victims db) (\<lambda>db'. Inr (db', length victims)))"

definition enforce_result_record_limit :: "u64 \<Rightarrow> nat \<Rightarrow> catalog \<Rightarrow> catalog \<times> nat result" where
  "enforce_result_record_limit maximum limit db =
     (if \<not> (1 \<le> limit \<and> limit \<le> 10000) then (db, prune_limit_error)
      else if \<not> fits_sqlite_integer maximum
      then (db, Inl (CatalogError ''max_result_records exceeds SQLite INTEGER''))
      else commit (enforce_result_record_limit_blocking (unat maximum) limit) db)"

end
