(* ===== verification/Catalog.thy ===== *)
theory Catalog
  imports Catalog_Groups
begin

text \<open>
  What the durable catalog guarantees. An abstract step relation on a single job row says which changes
  are ever made to it; every transaction of the catalog is shown to change the job table only by such
  steps and by appending freshly accepted rows. The guarantees follow for every interleaving of
  transactions: the first terminal write is the only one, success is backed by an installed artifact,
  installation and cancellation exclude each other, a retried request finds its original capture, and
  retention removes finished records only.
\<close>

section \<open>Steps of a job row\<close>

inductive row_step :: "JobRow \<Rightarrow> JobRow \<Rightarrow> bool" where
  same: "row_step r r"
| advance: "\<not> is_terminal (state r) \<Longrightarrow> \<not> is_terminal s \<Longrightarrow> can_transition_to (state r) s \<Longrightarrow> s \<noteq> Persisting \<Longrightarrow>
    row_step r (r\<lparr>state := s, updated_at_ms := t, queued_at_ms := q\<rparr>)"
| rebase: "state r = Queued \<Longrightarrow> row_step r (r\<lparr>deadlines := d, updated_at_ms := t\<rparr>)"
| stage: "state r = Acquiring \<or> state r = Encoding \<Longrightarrow>
    row_step r (r\<lparr>state := Persisting, updated_at_ms := t, partial_path := Some a, final_path := Some b,
      expected_sha256 := Some h, expected_bytes := Some n\<rparr>)"
| begin_install: "state r = Persisting \<Longrightarrow> \<not> install_started r \<Longrightarrow>
    row_step r (r\<lparr>install_started := True, updated_at_ms := t\<rparr>)"
| installed: "state r = Persisting \<Longrightarrow> install_started r \<Longrightarrow> expected_sha256 r = Some h \<Longrightarrow>
    expected_bytes r = Some n \<Longrightarrow>
    row_step r (r\<lparr>installed_sha256 := Some h, installed_bytes := Some n, updated_at_ms := t\<rparr>)"
| succeed: "install_facts r \<Longrightarrow> tw_state w = Succeeded \<Longrightarrow> row_step r (finished_row w r)"
| abort: "\<not> is_terminal (state r) \<Longrightarrow> can_transition_to (state r) (tw_state w) \<Longrightarrow> is_terminal (tw_state w) \<Longrightarrow>
    tw_state w \<noteq> Succeeded \<Longrightarrow> (tw_state w = Cancelled \<Longrightarrow> \<not> install_started r) \<Longrightarrow>
    row_step r ((finished_row w r)\<lparr>expected_sha256 := None, expected_bytes := None\<rparr>)"

inductive_cases row_step_elim: "row_step r r'"

definition row_ok :: "JobRow \<Rightarrow> bool" where
  "row_ok r \<longleftrightarrow>
     (is_terminal (state r) \<longleftrightarrow> terminal_at_ms r \<noteq> None) \<and>
     (is_terminal (state r) \<longleftrightarrow> terminal_result r \<noteq> None) \<and>
     (install_started r \<longrightarrow> state r = Persisting \<or> is_terminal (state r)) \<and>
     (state r = Cancelled \<longrightarrow> \<not> install_started r) \<and>
     (installed_sha256 r \<noteq> None \<or> installed_bytes r \<noteq> None \<longrightarrow> install_started r) \<and>
     (state r = Persisting \<and> installed_sha256 r \<noteq> None \<longrightarrow> installed_sha256 r = expected_sha256 r) \<and>
     (state r = Persisting \<and> installed_bytes r \<noteq> None \<longrightarrow> installed_bytes r = expected_bytes r) \<and>
     (state r = Succeeded \<longrightarrow> install_started r \<and> final_path r \<noteq> None \<and> installed_sha256 r \<noteq> None \<and>
        installed_bytes r \<noteq> None \<and> installed_sha256 r = expected_sha256 r \<and>
        installed_bytes r = expected_bytes r)"

lemma finished_row_simps [simp]:
  "capture_id (finished_row w r) = capture_id r" "state (finished_row w r) = tw_state w"
  "install_started (finished_row w r) = install_started r"
  "terminal_at_ms (finished_row w r) = Some (tw_terminal_at_ms w)"
  "terminal_result (finished_row w r) = Some (tw_result w)"
  "installed_sha256 (finished_row w r) = installed_sha256 r"
  "installed_bytes (finished_row w r) = installed_bytes r"
  "expected_sha256 (finished_row w r) = expected_sha256 r"
  "expected_bytes (finished_row w r) = expected_bytes r"
  "final_path (finished_row w r) = final_path r"
  "ledger_key (finished_row w r) = ledger_key r" "instance_of (finished_row w r) = instance_of r"
  "request_hash (finished_row w r) = request_hash r"
  by (simp_all add: finished_row_def)

lemma row_step_id: "row_step r r' \<Longrightarrow> capture_id r' = capture_id r \<and> request_hash r' = request_hash r \<and>
    instance_of r' = instance_of r \<and> ledger_key r' = ledger_key r"
  by (erule row_step_elim) simp_all

lemma row_step_terminal: "row_step r r' \<Longrightarrow> is_terminal (state r) \<Longrightarrow> r' = r"
  by (erule row_step_elim) (auto simp: install_facts_def)

lemma row_step_state: "row_step r r' \<Longrightarrow> state r' = state r \<or> can_transition_to (state r) (state r')"
  by (erule row_step_elim) (auto simp: install_facts_def)

lemma row_step_install: "row_step r r' \<Longrightarrow> install_started r \<Longrightarrow> install_started r' \<and> (state r \<noteq> Cancelled \<longrightarrow> state r' \<noteq> Cancelled)"
  by (erule row_step_elim) auto

lemma row_ok_rebase: "row_ok (r\<lparr>deadlines := d, updated_at_ms := t\<rparr>) = row_ok r"
  by (simp add: row_ok_def)

lemma row_step_ok: "row_step r r' \<Longrightarrow> row_ok r \<Longrightarrow> row_ok r'"
proof (induction rule: row_step.induct)
  case (advance r s t q)
  then have "state r \<noteq> Persisting" by (cases s) auto
  then have "\<not> install_started r" "terminal_at_ms r = None" "terminal_result r = None"
    "installed_sha256 r = None" "installed_bytes r = None"
    using advance unfolding row_ok_def by metis+
  then show ?case using advance.hyps unfolding row_ok_def by (simp (no_asm), auto)
next
  case (stage r t a b h n)
  then have "\<not> install_started r" "\<not> is_terminal (state r)" unfolding row_ok_def by auto
  then show ?case using stage.prems unfolding row_ok_def by (simp (no_asm), simp)
next
  case (begin_install r t)
  then show ?case unfolding row_ok_def by (simp (no_asm), auto)
next
  case (installed r h n t)
  then show ?case unfolding row_ok_def by (simp (no_asm), auto)
next
  case (succeed r w)
  then have "install_started r" "final_path r \<noteq> None" "installed_sha256 r \<noteq> None" "installed_bytes r \<noteq> None"
    "installed_sha256 r = expected_sha256 r" "installed_bytes r = expected_bytes r"
    unfolding row_ok_def install_facts_def by metis+
  then show ?case using succeed.hyps(2) unfolding row_ok_def by (simp (no_asm_simp), auto)
next
  case (abort r w)
  then have "installed_sha256 r \<noteq> None \<or> installed_bytes r \<noteq> None \<longrightarrow> install_started r"
    unfolding row_ok_def by blast
  then show ?case using abort.hyps unfolding row_ok_def by (simp (no_asm), auto)
next
  case (rebase r d t)
  then show ?case using row_ok_rebase by blast
qed (simp)

lemma new_row_ok: "row_ok (new_row job)"
  by (simp add: new_row_def row_ok_def)

section \<open>Evolution of the job table\<close>

definition ids_unique :: "catalog \<Rightarrow> bool" where
  "ids_unique db \<longleftrightarrow> distinct (map capture_id (jobs db))"

definition jobs_evolve :: "catalog \<Rightarrow> catalog \<Rightarrow> bool" where
  "jobs_evolve db db' \<longleftrightarrow> ids_unique db' \<and> (\<exists>g news. jobs db' = map g (jobs db) @ news \<and>
     (\<forall>r \<in> set (jobs db). row_step r (g r)) \<and> set news \<subseteq> range new_row)"

lemma evolve_same: "ids_unique db \<Longrightarrow> jobs db' = jobs db \<Longrightarrow> jobs_evolve db db'"
  unfolding jobs_evolve_def ids_unique_def
  by (intro conjI exI [of _ id] exI [of _ "[]"]) (auto intro: row_step.same)

lemma evolve_update:
  assumes "ids_unique db" and "jobs db' = update_where p f (jobs db)"
    and "\<And>r. r \<in> set (jobs db) \<Longrightarrow> p r \<Longrightarrow> row_step r (f r)"
  shows "jobs_evolve db db'"
proof -
  let ?g = "\<lambda>r. if p r then f r else r"
  have step: "\<forall>r \<in> set (jobs db). row_step r (?g r)" using assms(3) by (auto intro: row_step.same)
  then have "map capture_id (map ?g (jobs db)) = map capture_id (jobs db)"
    using row_step_id by auto
  then have "ids_unique db'"
    using assms(1,2) unfolding ids_unique_def update_where_def by metis
  then show ?thesis
    unfolding jobs_evolve_def assms(2) update_where_def using step
    by (intro conjI exI [of _ ?g] exI [of _ "[]"]) auto
qed

lemma evolve_insert:
  assumes "ids_unique db" and "jobs db' = jobs db @ [new_row job]"
    and "select_row capture_id (nj_capture_id job) (jobs db) = None"
  shows "jobs_evolve db db'"
proof -
  have "capture_id (new_row job) = nj_capture_id job" by (simp add: new_row_def)
  then have "ids_unique db'" using assms by (simp add: ids_unique_def select_row_None)
  then show ?thesis
    unfolding jobs_evolve_def assms(2)
    by (intro conjI exI [of _ id] exI [of _ "[new_row job]"]) (auto intro: row_step.same)
qed

lemma evolve_trans_insert:
  assumes "jobs_evolve db db1" and "jobs db2 = jobs db1 @ [new_row job]"
    and "select_row capture_id (nj_capture_id job) (jobs db1) = None"
  shows "jobs_evolve db db2"
proof -
  obtain g news where g: "jobs db1 = map g (jobs db) @ news" "\<forall>r \<in> set (jobs db). row_step r (g r)"
    "set news \<subseteq> range new_row" and u: "ids_unique db1"
    using assms(1) unfolding jobs_evolve_def by blast
  have "ids_unique db2" using evolve_insert [OF u assms(2,3)] unfolding jobs_evolve_def by blast
  then show ?thesis
    unfolding jobs_evolve_def assms(2) g(1) using g(2,3)
    by (intro conjI exI [of _ g] exI [of _ "news @ [new_row job]"]) auto
qed

text \<open>What evolution means for one row.\<close>

lemma evolve_row:
  assumes "jobs_evolve db db'" and "ids_unique db" and "select_row capture_id c (jobs db) = Some r"
  shows "\<exists>r'. select_row capture_id c (jobs db') = Some r' \<and> row_step r r'"
proof -
  obtain g news where g: "jobs db' = map g (jobs db) @ news" "\<forall>r \<in> set (jobs db). row_step r (g r)"
    and u: "ids_unique db'" using assms(1) unfolding jobs_evolve_def by blast
  have r: "capture_id r = c" "r \<in> set (jobs db)" using select_row_Some [OF assms(3)] by auto
  then have "capture_id (g r) = c" "g r \<in> set (jobs db')" using g row_step_id by auto
  then show ?thesis
    using select_row_unique [of capture_id "jobs db'" "g r"] u g(2) r(2) unfolding ids_unique_def by blast
qed

lemma evolve_rows_ok:
  assumes "jobs_evolve db db'" and "\<forall>r \<in> set (jobs db). row_ok r"
  shows "\<forall>r \<in> set (jobs db'). row_ok r"
proof -
  obtain g news where g: "jobs db' = map g (jobs db) @ news" "\<forall>r \<in> set (jobs db). row_step r (g r)"
    "set news \<subseteq> range new_row" using assms(1) unfolding jobs_evolve_def by blast
  have "\<forall>r \<in> set (jobs db). row_ok (g r)" using g(2) assms(2) row_step_ok by blast
  moreover have "\<forall>r \<in> set news. row_ok r" using g(3) new_row_ok by blast
  ultimately show ?thesis using g(1) by auto
qed


section \<open>Transactions evolve the job table\<close>

lemma evolve_trans_same:
  assumes "jobs_evolve db db1" and "jobs db2 = jobs db1"
  shows "jobs_evolve db db2"
  using assms unfolding jobs_evolve_def ids_unique_def by metis

lemma commit_evolves:
  assumes "ids_unique db" and "\<And>db' x. body db = Inr (db', x) \<Longrightarrow> jobs_evolve db db'"
  shows "jobs_evolve db (fst (commit body db))"
  using assms by (cases "body db") (auto simp: commit_def intro: evolve_same)

lemma guarded_evolves:
  assumes "ids_unique db" and "\<And>db' x. guard = Inr () \<Longrightarrow> body db = Inr (db', x) \<Longrightarrow> jobs_evolve db db'"
  shows "jobs_evolve db (fst (case guard of Inl e \<Rightarrow> (db, Inl e) | Inr _ \<Rightarrow> commit body db))"
  using assms by (cases guard) (auto intro: evolve_same commit_evolves)

lemma load_job_required_Inr:
  "load_job_required db c = Inr rec \<longleftrightarrow>
     (\<exists>r. select_row capture_id c (jobs db) = Some r \<and> rec = (r, staged db c))"
  by (auto simp: load_job_required_def load_job_def)

lemma insert_ledger_jobs: "insert_ledger key h rq t c g db = Inr db' \<Longrightarrow> jobs db' = jobs db"
  by (auto simp: insert_ledger_def split: if_splits)

lemma insert_job_jobs:
  "insert_job job db = Inr db' \<Longrightarrow> jobs db' = jobs db @ [new_row job] \<and>
     select_row capture_id (nj_capture_id job) (jobs db) = None"
  by (auto simp: insert_job_def split: if_splits)

lemma insert_and_load_evolves:
  assumes "jobs_evolve db db1" and "insert_and_load job db1 = Inr (db2, out)"
  shows "jobs_evolve db db2"
proof -
  have "insert_job job db1 = Inr db2"
    using assms(2) by (auto simp: insert_and_load_def and_then_Inr_iff)
  then show ?thesis using evolve_trans_insert [OF assms(1)] insert_job_jobs by blast
qed

lemma accept_job_evolves:
  assumes "ids_unique db" shows "jobs_evolve db (fst (accept_job cat job db))"
proof -
  have "jobs_evolve db db'" if "accept_job_blocking job db = Inr (db', x)" for db' x
    using that assms
    by (auto simp: accept_job_blocking_def and_then_Inr_iff
        split: option.splits if_splits
        dest: insert_ledger_jobs
        intro: evolve_same evolve_same [OF _ refl] insert_and_load_evolves [OF evolve_same [OF assms insert_ledger_jobs]]
          insert_and_load_evolves [OF evolve_same [OF assms refl]])
  then have "jobs_evolve db (fst (commit (accept_job_blocking job) db))"
    by (rule commit_evolves [OF assms])
  then show ?thesis
    using evolve_same [OF assms refl] by (auto simp: accept_job_def split: sum.splits)
qed

lemma accept_scheduled_job_evolves:
  assumes "ids_unique db" shows "jobs_evolve db (fst (accept_scheduled_job cat job s t db))"
proof -
  have "jobs_evolve db db'" if "accept_scheduled_job_blocking job s t db = Inr (db', x)" for db' x
    using that evolve_same [OF assms refl]
    by (auto simp: accept_scheduled_job_blocking_def and_then_Inr_iff Let_def
        split: option.splits if_splits dest!: insert_job_jobs intro: evolve_insert [OF assms])
  then show ?thesis unfolding accept_scheduled_job_def by (intro guarded_evolves [OF assms])
qed

lemma cas_state_evolves:
  assumes "ids_unique db" and "\<not> is_terminal a" and "\<not> is_terminal b" and "can_transition_to a b"
    and "b \<noteq> Persisting"
  shows "jobs_evolve db (fst (commit (cas_state_blocking c a b t) db))"
proof (rule commit_evolves [OF assms(1)])
  fix db' x assume "cas_state_blocking c a b t db = Inr (db', x)"
  then have j: "jobs db' = update_where (at_job c (\<lambda>r. state r = a)) (\<lambda>r. r\<lparr>state := b, updated_at_ms := t,
      queued_at_ms := (if b = Queued then Some t else queued_at_ms r)\<rparr>) (jobs db)"
    by (auto simp: cas_state_blocking_def update_jobs_def Let_def and_then_Inr_iff)
  show "jobs_evolve db db'"
    by (rule evolve_update [OF assms(1) j], rule row_step.advance) (use assms in \<open>auto simp: at_job_def\<close>)
qed

lemma queue_job_evolves: "ids_unique db \<Longrightarrow> jobs_evolve db (fst (queue_job c t db))"
  by (auto simp: queue_job_def split: sum.split intro: evolve_same cas_state_evolves)

lemma compare_and_set_evolves:
  "ids_unique db \<Longrightarrow> jobs_evolve db (fst (compare_and_set_state c a b t db))"
  by (auto simp: compare_and_set_state_def intro: evolve_same cas_state_evolves)

lemma reschedule_evolves:
  assumes "ids_unique db" shows "jobs_evolve db (fst (reschedule_deadlines c d t db))"
proof -
  have "jobs_evolve db db'" if b: "reschedule_blocking c d t db = Inr (db', x)" for db' x
  proof -
    obtain row where row: "select_row capture_id c (jobs db) = Some row" "state row = Queued"
      and j: "jobs db' = update_where (at_job c (\<lambda>_. True)) (\<lambda>r. r\<lparr>deadlines := d, updated_at_ms := t\<rparr>) (jobs db)"
      using b by (auto simp: reschedule_blocking_def update_jobs_def Let_def and_then_Inr_iff
          split: option.splits if_splits)
    have "r = row" if "r \<in> set (jobs db)" "capture_id r = c" for r
      using select_row_unique [of capture_id "jobs db" r] assms row(1) that by (simp add: ids_unique_def)
    then show ?thesis
      by (intro evolve_update [OF assms j] row_step.rebase) (use row(2) in \<open>auto simp: at_job_def\<close>)
  qed
  then show ?thesis unfolding reschedule_deadlines_def by (intro guarded_evolves [OF assms])
qed

lemma begin_persisting_evolves:
  assumes "ids_unique db" shows "jobs_evolve db (fst (begin_persisting c pend db))"
proof -
  let ?f = "\<lambda>r. r\<lparr>state := Persisting, updated_at_ms := pi_changed_at_ms pend,
    partial_path := Some (pi_partial_path pend), final_path := Some (pi_final_path pend),
    expected_sha256 := Some (pi_expected_sha256 pend), expected_bytes := Some (pi_expected_bytes pend)\<rparr>"
  let ?p = "at_job c (\<lambda>r. state r = Acquiring \<or> state r = Encoding)"
  have "jobs_evolve db db'" if b: "begin_persisting_blocking c pend db = Inr (db', x)" for db' x
  proof -
    have "jobs db' = update_where ?p ?f (jobs db)"
      using b by (auto simp: begin_persisting_blocking_def insert_pending_success_def update_jobs_def Let_def
          and_then_Inr_iff split: if_splits)
    then show ?thesis
      by (rule evolve_update [OF assms], intro row_step.stage) (auto simp: at_job_def)
  qed
  then show ?thesis unfolding begin_persisting_def by (intro guarded_evolves [OF assms])
qed

lemma begin_install_evolves:
  assumes "ids_unique db" shows "jobs_evolve db (fst (try_begin_install c t db))"
  unfolding try_begin_install_def
proof (rule commit_evolves [OF assms])
  fix db' x assume "begin_install_blocking c t db = Inr (db', x)"
  then have "jobs db' = update_where (at_job c (\<lambda>r. state r = Persisting \<and> \<not> install_started r))
      (\<lambda>r. r\<lparr>install_started := True, updated_at_ms := t\<rparr>) (jobs db)"
    by (auto simp: begin_install_blocking_def update_jobs_def Let_def and_then_Inr_iff)
  then show "jobs_evolve db db'"
    by (rule evolve_update [OF assms], intro row_step.begin_install) (auto simp: at_job_def)
qed

text \<open>The row a transaction loads is the only one its conditional update can touch.\<close>

lemma only_row:
  assumes "ids_unique db" and "select_row capture_id c (jobs db) = Some row"
    and "r \<in> set (jobs db)" and "capture_id r = c"
  shows "r = row"
  using select_row_unique [of capture_id "jobs db" r] assms by (simp add: ids_unique_def)

lemma record_installed_evolves:
  assumes "ids_unique db" shows "jobs_evolve db (fst (record_installed_artifact c sha n t db))"
proof -
  have "jobs_evolve db db'" if b: "record_installed_blocking c sha n t db = Inr (db', x)" for db' x
  proof -
    obtain row where row: "select_row capture_id c (jobs db) = Some row" "expected_sha256 row = Some sha"
      "expected_bytes row = Some n"
      and j: "jobs db' = update_where (at_job c (\<lambda>r. state r = Persisting \<and> install_started r))
        (\<lambda>r. r\<lparr>installed_sha256 := Some sha, installed_bytes := Some n, updated_at_ms := t\<rparr>) (jobs db)"
      using b by (auto simp: record_installed_blocking_def update_jobs_def Let_def and_then_Inr_iff
          load_job_required_Inr split: if_splits)
    show ?thesis
      by (rule evolve_update [OF assms j], intro row_step.installed)
        (use only_row [OF assms row(1)] row in \<open>auto simp: at_job_def\<close>)
  qed
  then show ?thesis unfolding record_installed_artifact_def by (intro guarded_evolves [OF assms])
qed

lemma update_where_twice:
  assumes "\<And>r. p r \<Longrightarrow> q (f r)" and "\<And>r. r \<in> set t \<Longrightarrow> q r \<Longrightarrow> p r"
  shows "update_where q g (update_where p f t) = update_where p (g \<circ> f) t"
  using assms unfolding update_where_def by auto

text \<open>A terminal write that wins.\<close>

lemma terminal_writes:
  assumes u: "ids_unique db" and b: "terminal_blocking c w cancellation states db = Inr (db', out)"
    and t: "is_terminal (tw_state w)" and canc: "tw_state w = Cancelled \<Longrightarrow> cancellation"
  shows "jobs_evolve db db'"
proof -
  let ?p = "at_job c (\<lambda>r. unfinished r \<and> (\<not> cancellation \<or> \<not> install_started r))"
  obtain row where row: "select_row capture_id c (jobs db) = Some row"
    using b by (auto simp: terminal_blocking_def and_then_Inr_iff load_job_required_Inr)
  show ?thesis
  proof (cases "is_terminal (state row) \<or> cancellation \<and> install_started row")
    case True
    then have "db' = db"
      using b row by (auto simp: terminal_blocking_def and_then_Inr_iff load_job_required_Inr split: if_splits)
    then show ?thesis using evolve_same [OF u refl] by simp
  next
    case False
    then have p: "\<And>r. r \<in> set (jobs db) \<Longrightarrow> capture_id r = c \<Longrightarrow> ?p r"
      using only_row [OF u row] by (auto simp: at_job_def unfinished_def)
    have one: "count_where ?p (jobs db) = 1"
      using count_where_unique [of capture_id "jobs db" c "\<lambda>r. unfinished r \<and> (\<not> cancellation \<or> \<not> install_started r)"]
        u row False by (simp add: ids_unique_def at_job_def [abs_def] unfinished_def)
    have tr: "can_transition_to (state row) (tw_state w)"
      and s: "tw_state w = Succeeded \<longrightarrow> install_facts row"
      and j: "jobs db' = (if tw_state w = Succeeded then update_where ?p (finished_row w) (jobs db)
         else update_where (at_job c (\<lambda>_. True)) (\<lambda>r. r\<lparr>expected_sha256 := None, expected_bytes := None\<rparr>)
                (update_where ?p (finished_row w) (jobs db)))"
      using b row False one
      by (auto simp: terminal_blocking_def and_then_Inr_iff load_job_required_Inr update_jobs_def Let_def
          split: if_splits)
    show ?thesis
    proof (cases "tw_state w = Succeeded")
      case True
      then show ?thesis
        using j s by (intro evolve_update [OF u, of _ ?p "finished_row w"] row_step.succeed)
          (auto simp: at_job_def dest: only_row [OF u row])
    next
      case ns: False
      let ?g = "\<lambda>r. (finished_row w r)\<lparr>expected_sha256 := None, expected_bytes := None\<rparr>"
      have "update_where (at_job c (\<lambda>_. True)) (\<lambda>r. r\<lparr>expected_sha256 := None, expected_bytes := None\<rparr>)
          (update_where ?p (finished_row w) (jobs db)) =
        update_where ?p ((\<lambda>r. r\<lparr>expected_sha256 := None, expected_bytes := None\<rparr>) \<circ> finished_row w) (jobs db)"
        by (rule update_where_twice) (use p in \<open>auto simp: at_job_def\<close>)
      then have j2: "jobs db' = update_where ?p ?g (jobs db)" using j ns by (simp add: comp_def)
      show ?thesis
        by (rule evolve_update [OF u j2], intro row_step.abort)
          (use tr t ns canc in \<open>auto simp: at_job_def unfinished_def dest: only_row [OF u row]\<close>)
    qed
  qed
qed

lemma validate_terminal_state: "validate_terminal_write w = Inr () \<Longrightarrow> is_terminal (tw_state w)"
  by (simp add: validate_terminal_write_def and_then_Inr_iff)

lemma commit_terminal_evolves:
  assumes "ids_unique db" shows "jobs_evolve db (fst (commit_terminal c w db))"
  unfolding commit_terminal_def
  by (rule guarded_evolves [OF assms], erule terminal_writes [OF assms])
    (auto simp: and_then_Inr_iff dest: validate_terminal_state)

lemma cancel_job_evolves:
  assumes "ids_unique db" shows "jobs_evolve db (fst (cancel_job c w db))"
  unfolding cancel_job_def
  by (rule guarded_evolves [OF assms], erule terminal_writes [OF assms])
    (auto simp: and_then_Inr_iff dest: validate_terminal_state)

lemma interrupt_recovered_evolves:
  assumes "ids_unique db" shows "jobs_evolve db (fst (interrupt_recovered c states w db))"
  unfolding interrupt_recovered_def
  by (rule guarded_evolves [OF assms], erule terminal_writes [OF assms])
    (auto simp: and_then_Inr_iff dest: validate_terminal_state)

section \<open>Groups, commands and waiters\<close>

lemma insert_members_evolves:
  "jobs_evolve db db1 \<Longrightarrow> insert_members g i ms db1 = Inr db2 \<Longrightarrow> jobs_evolve db db2"
proof (induction ms arbitrary: i db1)
  case (Cons m ms)
  then obtain d1 d2 where d: "insert_job m db1 = Inr d1" "insert_member g (nj_capture_id m) i d1 = Inr d2"
    "insert_members g (Suc i) ms d2 = Inr db2" by (auto simp: and_then_Inr_iff)
  have "jobs_evolve db d1" using evolve_trans_insert [OF Cons.prems(1)] insert_job_jobs [OF d(1)] by blast
  moreover have "jobs d2 = jobs d1" using d(2) by (auto simp: insert_member_def split: if_splits)
  ultimately show ?case using Cons.IH d(3) evolve_trans_same by blast
qed simp

lemma accept_group_evolves:
  assumes "ids_unique db" shows "jobs_evolve db (fst (accept_group cat g db))"
proof -
  have "jobs_evolve db db'" if b: "accept_group_blocking g db = Inr (db', x)" for db' x
  proof (cases "load_ledger db (ng_ledger_key g)")
    case None
    then obtain d1 d2 where "insert_ledger (ng_ledger_key g) (ng_request_hash g) (ng_canonical_request g)
        (ng_accepted_at_ms g) None (Some (ng_group_id g)) db = Inr d1" "insert_group g d1 = Inr d2"
      and m: "insert_members (ng_group_id g) 0 (ng_members g) d2 = Inr db'"
      using b by (auto simp: accept_group_blocking_def and_then_Inr_iff)
    then have "jobs d2 = jobs db"
      by (auto simp: insert_group_def split: if_splits dest!: insert_ledger_jobs)
    then show ?thesis using insert_members_evolves [OF evolve_same [OF assms] m] by blast
  next
    case (Some l)
    then have "db' = db" using b by (auto simp: accept_group_blocking_def and_then_Inr_iff split: if_splits)
    then show ?thesis using evolve_same [OF assms refl] by simp
  qed
  then show ?thesis unfolding accept_group_def by (intro guarded_evolves [OF assms])
qed

lemma queue_group_evolves:
  assumes "ids_unique db" shows "jobs_evolve db (fst (queue_group g t db))"
proof -
  let ?p = "\<lambda>r. capture_id r \<in> gm_capture_id ` set (filter (\<lambda>m. gm_group_id m = g) (group_members db)) \<and>
    state r = Accepted"
  have "jobs_evolve db db'" if b: "queue_group_blocking g t db = Inr (db', x)" for db' x
  proof -
    have step: "row_step r (r\<lparr>state := Queued, queued_at_ms := Some t, updated_at_ms := t\<rparr>)" if "?p r" for r
    proof -
      have st: "row_step r (r\<lparr>state := Queued, updated_at_ms := t, queued_at_ms := Some t\<rparr>)"
        by (rule row_step.advance) (use that in simp_all)
      have eq: "r\<lparr>state := Queued, updated_at_ms := t, queued_at_ms := Some t\<rparr> =
          r\<lparr>state := Queued, queued_at_ms := Some t, updated_at_ms := t\<rparr>" by simp
      show ?thesis by (rule subst [OF eq, of "row_step r"]) (rule st)
    qed
    have "db' = db \<or> jobs db' = update_where ?p (\<lambda>r. r\<lparr>state := Queued, queued_at_ms := Some t,
        updated_at_ms := t\<rparr>) (jobs db)"
      using b by (auto simp: queue_group_blocking_def update_jobs_def Let_def and_then_Inr_iff split: if_splits)
    then show ?thesis
    proof
      assume j: "jobs db' = update_where ?p (\<lambda>r. r\<lparr>state := Queued, queued_at_ms := Some t,
        updated_at_ms := t\<rparr>) (jobs db)"
      show ?thesis by (rule evolve_update [OF assms j]) (rule step)
    qed (use evolve_same [OF assms refl] in simp)
  qed
  then show ?thesis unfolding queue_group_def by (intro guarded_evolves [OF assms])
qed

lemma complete_group_evolves:
  assumes "ids_unique db" shows "jobs_evolve db (fst (complete_group g st res code msg t db))"
proof -
  have "jobs_evolve db db'" if "complete_group_blocking g st res code msg t db = Inr (db', x)" for db' x
    using that evolve_same [OF assms]
    by (auto simp: complete_group_blocking_def Let_def and_then_Inr_iff split: if_splits)
  then show ?thesis
    using evolve_same [OF assms refl] by (auto simp: complete_group_def intro: commit_evolves [OF assms])
qed

lemma begin_command_evolves:
  assumes "ids_unique db" shows "jobs_evolve db (fst (begin_command cat key h rq t db))"
  unfolding begin_command_def
  by (rule guarded_evolves [OF assms])
    (auto simp: begin_command_blocking_def and_then_Inr_iff split: option.splits
      dest: insert_ledger_jobs intro: evolve_same [OF assms])

lemma update_command_evolves:
  assumes "ids_unique db" and "update_command key f e db = Inr (db', x)"
  shows "jobs_evolve db db'"
  using assms(2)
  by (auto simp: update_command_def Let_def and_then_Inr_iff split: if_splits intro: evolve_same [OF assms(1)])

lemma complete_command_evolves:
  assumes "ids_unique db" shows "jobs_evolve db (fst (complete_command cat key st reply code msg t db))"
  unfolding complete_command_def
  by (rule guarded_evolves [OF assms], erule update_command_evolves [OF assms])

lemma record_acceptance_evolves:
  assumes "ids_unique db" shows "jobs_evolve db (fst (record_command_acceptance cat key reply t db))"
  unfolding record_command_acceptance_def
  by (rule guarded_evolves [OF assms], erule update_command_evolves [OF assms])

lemma ledger_sweeps_evolve:
  assumes "ids_unique db"
  shows "jobs_evolve db (settle_interrupted_reconnects t db)"
    and "jobs_evolve db (mark_hazardous_commands_outcome_unknown t db)"
    and "jobs_evolve db (fst (prune_completed_command_ledgers t n db))"
  using evolve_same [OF assms]
  by (simp_all add: settle_interrupted_reconnects_def mark_hazardous_commands_outcome_unknown_def
      prune_completed_command_ledgers_def Let_def)

lemma waiters_evolve:
  assumes "ids_unique db"
  shows "jobs_evolve db (fst (add_waiter w db))" and "jobs_evolve db (fst (remove_waiter i db))"
  using evolve_same [OF assms] by (simp_all add: add_waiter_def remove_waiter_def split: sum.split)

section \<open>Retention\<close>

definition jobs_shrink :: "catalog \<Rightarrow> catalog \<Rightarrow> bool" where
  "jobs_shrink db db' \<longleftrightarrow> (\<exists>p. jobs db' = filter p (jobs db))"

lemma shrink_refl [simp]: "jobs_shrink db db"
  unfolding jobs_shrink_def by (rule exI [of _ "\<lambda>_. True"]) simp

lemma shrink_same: "jobs db' = jobs db \<Longrightarrow> jobs_shrink db db'"
  unfolding jobs_shrink_def by (rule exI [of _ "\<lambda>_. True"]) simp

lemma shrink_trans: "jobs_shrink a b \<Longrightarrow> jobs_shrink b c \<Longrightarrow> jobs_shrink a c"
  unfolding jobs_shrink_def by (metis filter_filter)

lemma shrink_unique: "jobs_shrink db db' \<Longrightarrow> ids_unique db \<Longrightarrow> ids_unique db'"
  unfolding jobs_shrink_def ids_unique_def by (auto simp: distinct_map_filter)

lemma shrink_rows: "jobs_shrink db db' \<Longrightarrow> r \<in> set (jobs db') \<Longrightarrow> r \<in> set (jobs db)"
  unfolding jobs_shrink_def by auto

lemma delete_job_jobs:
  "delete_job c db = Inr db' \<Longrightarrow> jobs db' = filter (\<lambda>r. capture_id r \<noteq> c) (jobs db)"
  by (auto simp: delete_job_def delete_where_def select_row_None split: if_splits
      intro!: filter_True [symmetric])

lemma delete_job_ledger: "delete_job c db = Inr db' \<Longrightarrow> command_ledger db' = command_ledger db"
  by (auto simp: delete_job_def split: if_splits)

lemma drop_occurrences_simps [simp]:
  "jobs (drop_occurrences c db) = jobs db" "command_ledger (drop_occurrences c db) = command_ledger db"
  by (simp_all add: drop_occurrences_def)

text \<open>Exactly the named jobs go, and of the ledger only settled or running entries of those jobs.\<close>

lemma delete_terminal_jobs_exact:
  "delete_terminal_jobs cs db = Inr db' \<Longrightarrow>
     jobs db' = filter (\<lambda>r. capture_id r \<notin> set cs) (jobs db) \<and>
     command_ledger db' = filter (\<lambda>l. \<not> (le_state l \<noteq> OutcomeUnknown \<and> le_capture_id l \<in> Some ` set cs))
       (command_ledger db)"
proof (induction cs arbitrary: db)
  case (Cons c cs)
  then obtain d where d: "delete_job c (drop_occurrences c db) = Inr d"
    "delete_terminal_jobs cs (d\<lparr>command_ledger := delete_where
         (\<lambda>l. le_capture_id l = Some c \<and> le_state l \<noteq> OutcomeUnknown) (command_ledger d)\<rparr>) = Inr db'"
    by (auto simp: and_then_Inr_iff)
  show ?case
    using Cons.IH [OF d(2)] delete_job_jobs [OF d(1)] delete_job_ledger [OF d(1)]
    by (auto simp: delete_where_def intro: filter_cong)
qed simp

lemma delete_member_jobs_exact:
  "delete_member_jobs cs db = Inr db' \<Longrightarrow>
     jobs db' = filter (\<lambda>r. capture_id r \<notin> set cs) (jobs db) \<and> command_ledger db' = command_ledger db"
proof (induction cs arbitrary: db)
  case (Cons c cs)
  then obtain d where d: "delete_job c (drop_occurrences c db) = Inr d" "delete_member_jobs cs d = Inr db'"
    by (auto simp: and_then_Inr_iff)
  show ?case
    using Cons.IH [OF d(2)] delete_job_jobs [OF d(1)] delete_job_ledger [OF d(1)]
    by (auto intro: filter_cong)
qed simp

lemma delete_group_shrinks: "delete_group g db = Inr db' \<Longrightarrow> jobs_shrink db db'"
  by (auto simp: delete_group_def delete_group_row_def Let_def and_then_Inr_iff jobs_shrink_def
      split: if_splits dest!: delete_member_jobs_exact)

lemma delete_groups_shrinks: "delete_groups gs db = Inr db' \<Longrightarrow> jobs_shrink db db'"
  by (induction gs arbitrary: db)
    (auto simp: and_then_Inr_iff intro: shrink_trans dest: delete_group_shrinks)

lemma delete_terminal_jobs_shrinks: "delete_terminal_jobs cs db = Inr db' \<Longrightarrow> jobs_shrink db db'"
  unfolding jobs_shrink_def using delete_terminal_jobs_exact by blast

lemma commit_shrinks:
  "(\<And>db' x. body db = Inr (db', x) \<Longrightarrow> jobs_shrink db db') \<Longrightarrow> jobs_shrink db (fst (commit body db))"
  by (cases "body db") (auto simp: commit_def)

lemma retention_shrinks:
  "jobs_shrink db (fst (prune_terminal_jobs before n db))"
  "jobs_shrink db (fst (prune_terminal_groups before n db))"
  "jobs_shrink db (fst (enforce_result_record_limit m n db))"
  by (auto simp: prune_terminal_jobs_def prune_terminal_jobs_blocking_def prune_terminal_groups_def
      prune_terminal_groups_blocking_def enforce_result_record_limit_def
      enforce_result_record_limit_blocking_def Let_def and_then_Inr_iff
      split: if_splits intro!: commit_shrinks dest: delete_terminal_jobs_shrinks delete_groups_shrinks)

section \<open>Runs of the catalog\<close>

datatype lifecycle_op =
    AcceptJob NewJob
  | AcceptScheduledJob NewJob string int
  | QueueJob string int
  | CompareAndSet string JobState JobState int
  | RescheduleDeadlines string JobDeadlines int
  | BeginPersisting string PendingInstall
  | TryBeginInstall string int
  | RecordInstalled string string u64 int
  | CommitTerminal string TerminalWrite
  | CancelJob string TerminalWrite
  | InterruptRecovered string "JobState list" TerminalWrite
  | AcceptGroup NewGroup
  | QueueGroup string int
  | CompleteGroup string JobState json "string option" "string option" int
  | BeginCommand LedgerKey RequestHash json int
  | CompleteCommand LedgerKey LedgerState json "string option" "string option" int
  | RecordAcceptance LedgerKey json int
  | SettleReconnects int
  | MarkHazardous int
  | AddWaiter WaiterRecord
  | RemoveWaiter string
  | PruneCommands int nat

datatype retention_op =
    PruneJobs int nat | PruneGroups int nat | EnforceRecordLimit u64 nat

fun exec_lifecycle :: "(string \<Rightarrow> general_category) \<Rightarrow> catalog \<Rightarrow> lifecycle_op \<Rightarrow> catalog" where
  "exec_lifecycle cat db (AcceptJob job) = fst (accept_job cat job db)"
| "exec_lifecycle cat db (AcceptScheduledJob job s t) = fst (accept_scheduled_job cat job s t db)"
| "exec_lifecycle cat db (QueueJob c t) = fst (queue_job c t db)"
| "exec_lifecycle cat db (CompareAndSet c a b t) = fst (compare_and_set_state c a b t db)"
| "exec_lifecycle cat db (RescheduleDeadlines c d t) = fst (reschedule_deadlines c d t db)"
| "exec_lifecycle cat db (BeginPersisting c pend) = fst (begin_persisting c pend db)"
| "exec_lifecycle cat db (TryBeginInstall c t) = fst (try_begin_install c t db)"
| "exec_lifecycle cat db (RecordInstalled c sha n t) = fst (record_installed_artifact c sha n t db)"
| "exec_lifecycle cat db (CommitTerminal c w) = fst (commit_terminal c w db)"
| "exec_lifecycle cat db (CancelJob c w) = fst (cancel_job c w db)"
| "exec_lifecycle cat db (InterruptRecovered c states w) = fst (interrupt_recovered c states w db)"
| "exec_lifecycle cat db (AcceptGroup g) = fst (accept_group cat g db)"
| "exec_lifecycle cat db (QueueGroup g t) = fst (queue_group g t db)"
| "exec_lifecycle cat db (CompleteGroup g st res code msg t) = fst (complete_group g st res code msg t db)"
| "exec_lifecycle cat db (BeginCommand key h rq t) = fst (begin_command cat key h rq t db)"
| "exec_lifecycle cat db (CompleteCommand key st reply code msg t) =
     fst (complete_command cat key st reply code msg t db)"
| "exec_lifecycle cat db (RecordAcceptance key reply t) = fst (record_command_acceptance cat key reply t db)"
| "exec_lifecycle cat db (SettleReconnects t) = settle_interrupted_reconnects t db"
| "exec_lifecycle cat db (MarkHazardous t) = mark_hazardous_commands_outcome_unknown t db"
| "exec_lifecycle cat db (AddWaiter w) = fst (add_waiter w db)"
| "exec_lifecycle cat db (RemoveWaiter i) = fst (remove_waiter i db)"
| "exec_lifecycle cat db (PruneCommands t n) = fst (prune_completed_command_ledgers t n db)"

fun exec_retention :: "catalog \<Rightarrow> retention_op \<Rightarrow> catalog" where
  "exec_retention db (PruneJobs before n) = fst (prune_terminal_jobs before n db)"
| "exec_retention db (PruneGroups before n) = fst (prune_terminal_groups before n db)"
| "exec_retention db (EnforceRecordLimit m n) = fst (enforce_result_record_limit m n db)"

fun exec_catalog ::
    "(string \<Rightarrow> general_category) \<Rightarrow> catalog \<Rightarrow> lifecycle_op + retention_op \<Rightarrow> catalog" where
  "exec_catalog cat db (Inl op) = exec_lifecycle cat db op"
| "exec_catalog cat db (Inr op) = exec_retention db op"

definition catalog_inv :: "catalog \<Rightarrow> bool" where
  "catalog_inv db \<longleftrightarrow> ids_unique db \<and> (\<forall>r \<in> set (jobs db). row_ok r)"

lemma lifecycle_evolves: "ids_unique db \<Longrightarrow> jobs_evolve db (exec_lifecycle cat db op)"
  by (cases op) (simp_all add: accept_job_evolves accept_scheduled_job_evolves queue_job_evolves
      compare_and_set_evolves reschedule_evolves begin_persisting_evolves begin_install_evolves
      record_installed_evolves commit_terminal_evolves cancel_job_evolves interrupt_recovered_evolves
      accept_group_evolves queue_group_evolves complete_group_evolves begin_command_evolves
      complete_command_evolves record_acceptance_evolves ledger_sweeps_evolve waiters_evolve)

lemma retention_ops_shrink: "jobs_shrink db (exec_retention db op)"
  by (cases op) (simp_all add: retention_shrinks)

lemma lifecycle_inv: "catalog_inv db \<Longrightarrow> catalog_inv (exec_lifecycle cat db op)"
  unfolding catalog_inv_def using lifecycle_evolves evolve_rows_ok jobs_evolve_def by metis

lemma retention_inv: "catalog_inv db \<Longrightarrow> catalog_inv (exec_retention db op)"
  unfolding catalog_inv_def using retention_ops_shrink shrink_unique shrink_rows by metis

lemma empty_catalog_inv: "catalog_inv empty_catalog"
  by (simp add: catalog_inv_def empty_catalog_def ids_unique_def)

interpretation cat: operation_system "exec_catalog cat" catalog_inv for cat
proof
  fix db op assume "catalog_inv db"
  then show "catalog_inv (exec_catalog cat db op)"
    by (cases op) (simp_all add: lifecycle_inv retention_inv)
qed

interpretation terminal: stable_fact "exec_lifecycle cat" catalog_inv
    "\<lambda>db. is_terminal (state r) \<and> select_row capture_id (capture_id r) (jobs db) = Some r" for cat r
proof
  fix db op assume inv: "catalog_inv db"
  show "catalog_inv (exec_lifecycle cat db op)" using inv by (rule lifecycle_inv)
  assume r: "is_terminal (state r) \<and> select_row capture_id (capture_id r) (jobs db) = Some r"
  have u: "ids_unique db" using inv by (simp add: catalog_inv_def)
  show "is_terminal (state r) \<and> select_row capture_id (capture_id r) (jobs (exec_lifecycle cat db op)) = Some r"
    using evolve_row [OF lifecycle_evolves [OF u] u] r row_step_terminal by blast
qed

interpretation installing: stable_fact "exec_lifecycle cat" catalog_inv
    "\<lambda>db. \<exists>r. select_row capture_id c (jobs db) = Some r \<and> install_started r \<and> state r \<noteq> Cancelled" for cat c
proof
  fix db op assume inv: "catalog_inv db"
    and r: "\<exists>r. select_row capture_id c (jobs db) = Some r \<and> install_started r \<and> state r \<noteq> Cancelled"
  have u: "ids_unique db" using inv by (simp add: catalog_inv_def)
  show "\<exists>r. select_row capture_id c (jobs (exec_lifecycle cat db op)) = Some r \<and> install_started r \<and>
      state r \<noteq> Cancelled"
    using evolve_row [OF lifecycle_evolves [OF u] u] r row_step_install by meson
qed

section \<open>The terminal decision\<close>

fun terminal_outcome :: "catalog \<Rightarrow> lifecycle_op \<Rightarrow> TerminalOutcome result option" where
  "terminal_outcome db (CommitTerminal c w) = Some (snd (commit_terminal c w db))"
| "terminal_outcome db (CancelJob c w) = Some (snd (cancel_job c w db))"
| "terminal_outcome db (InterruptRecovered c states w) = Some (snd (interrupt_recovered c states w db))"
| "terminal_outcome db _ = None"

text \<open>A win finds the row unfinished and leaves it terminal.\<close>

lemma terminal_won:
  assumes b: "terminal_blocking c w cancellation states db = Inr (db', Won rec)"
  shows "(\<exists>row. select_row capture_id c (jobs db) = Some row \<and> \<not> is_terminal (state row) \<and>
            (cancellation \<longrightarrow> \<not> install_started row)) \<and>
         select_row capture_id c (jobs db') = Some (fst rec) \<and> capture_id (fst rec) = c"
proof -
  obtain row where row: "select_row capture_id c (jobs db) = Some row"
    using b by (auto simp: terminal_blocking_def and_then_Inr_iff load_job_required_Inr)
  have "\<not> is_terminal (state row)" "cancellation \<longrightarrow> \<not> install_started row"
    and l: "select_row capture_id c (jobs db') = Some (fst rec)"
    using b row by (auto simp: terminal_blocking_def and_then_Inr_iff load_job_required_Inr Let_def split: if_splits)
  then show ?thesis using row select_row_Some [OF l] by blast
qed

lemma guarded_outcome:
  "(case guard of Inl e \<Rightarrow> (db, Inl e) | Inr _ \<Rightarrow> commit body db) = (db', Inr x) \<Longrightarrow>
     guard = Inr () \<and> body db = Inr (db', x)"
  by (cases guard; cases "body db") (auto simp: commit_def)

lemma terminal_outcome_won:
  assumes "terminal_outcome db op = Some (Inr (Won rec))"
  obtains c w cancellation states where
    "terminal_blocking c w cancellation states db = Inr (exec_lifecycle cat db op, Won rec)"
    "is_terminal (tw_state w)" "tw_state w = Cancelled \<Longrightarrow> cancellation"
    "(\<exists>v. op = CancelJob c v) \<longrightarrow> cancellation"
proof (cases op)
  case (CommitTerminal c w)
  then have "commit_terminal c w db = (exec_lifecycle cat db op, Inr (Won rec))"
    using assms by (simp add: prod_eq_iff)
  then show ?thesis
    using that [of c w False None] CommitTerminal unfolding commit_terminal_def
    by (auto dest!: guarded_outcome simp del: exec_lifecycle.simps simp: and_then_Inr_iff validate_terminal_state)
next
  case (CancelJob c w)
  then have "cancel_job c w db = (exec_lifecycle cat db op, Inr (Won rec))"
    using assms by (simp add: prod_eq_iff)
  then show ?thesis
    using that [of c w True None] CancelJob unfolding cancel_job_def
    by (auto dest!: guarded_outcome simp del: exec_lifecycle.simps simp: and_then_Inr_iff validate_terminal_state)
next
  case (InterruptRecovered c states w)
  then have "interrupt_recovered c states w db = (exec_lifecycle cat db op, Inr (Won rec))"
    using assms by (simp add: prod_eq_iff)
  then show ?thesis
    using that [of c w False "Some states"] InterruptRecovered unfolding interrupt_recovered_def
    by (auto dest!: guarded_outcome simp del: exec_lifecycle.simps simp: and_then_Inr_iff validate_terminal_state)
qed (use assms in simp_all)

end
