(* ===== verification/Catalog_Ledger.thy ===== *)
theory Catalog_Ledger
  imports Catalog
begin

text \<open>
  The command ledger under catalog transactions: an entry that names a capture is never lost, rebound or
  rehashed by any transaction outside retention, so a retried request always finds the capture its first
  attempt created.
\<close>

definition keys_unique :: "catalog \<Rightarrow> bool" where
  "keys_unique db \<longleftrightarrow> distinct (map le_key (command_ledger db))"

definition same_entry :: "CommandLedgerRecord \<Rightarrow> CommandLedgerRecord \<Rightarrow> bool" where
  "same_entry l l' \<longleftrightarrow> le_request_hash l' = le_request_hash l \<and> le_capture_id l' = le_capture_id l"

definition ledger_keeps :: "catalog \<Rightarrow> catalog \<Rightarrow> bool" where
  "ledger_keeps db db' \<longleftrightarrow> keys_unique db' \<and>
     (\<forall>k l. load_ledger db k = Some l \<and> le_capture_id l \<noteq> None \<longrightarrow>
        (\<exists>l'. load_ledger db' k = Some l' \<and> same_entry l l'))"

lemma keeps_same: "keys_unique db \<Longrightarrow> command_ledger db' = command_ledger db \<Longrightarrow> ledger_keeps db db'"
  unfolding ledger_keeps_def keys_unique_def load_ledger_def same_entry_def by simp

lemma keeps_then_same:
  "ledger_keeps db db1 \<Longrightarrow> command_ledger db2 = command_ledger db1 \<Longrightarrow> ledger_keeps db db2"
  unfolding ledger_keeps_def keys_unique_def load_ledger_def by simp

lemma keeps_insert:
  assumes "keys_unique db" and "insert_ledger key h rq t c g db = Inr db'"
  shows "ledger_keeps db db'"
proof -
  obtain l where l: "command_ledger db' = command_ledger db @ [l]" "le_key l = key" and n: "load_ledger db key = None"
    using assms(2) by (auto simp: insert_ledger_def split: if_splits)
  have "keys_unique db'" using assms(1) l n by (simp add: keys_unique_def load_ledger_def select_row_None)
  then show ?thesis
    unfolding ledger_keeps_def load_ledger_def l(1) select_row_append same_entry_def by auto
qed

lemma keeps_update:
  assumes "keys_unique db" and "command_ledger db' = update_where p f (command_ledger db)"
    and "\<And>l. le_key (f l) = le_key l" and "\<And>l. same_entry l (f l)"
  shows "ledger_keeps db db'"
proof -
  have "keys_unique db'" unfolding keys_unique_def assms(2) using assms(1,3) by (simp add: keys_update keys_unique_def)
  then show ?thesis
    unfolding ledger_keeps_def load_ledger_def assms(2)
    using assms(3,4) by (auto simp: select_row_update same_entry_def)
qed

lemma keeps_delete:
  assumes "keys_unique db" and "command_ledger db' = delete_where p (command_ledger db)"
    and "\<And>l. l \<in> set (command_ledger db) \<Longrightarrow> p l \<Longrightarrow> le_capture_id l = None"
  shows "ledger_keeps db db'"
proof -
  have "keys_unique db'" unfolding keys_unique_def assms(2) using assms(1) by (simp add: keys_delete keys_unique_def)
  moreover have "select_row le_key k (delete_where p (command_ledger db)) = Some l"
    if "select_row le_key k (command_ledger db) = Some l" "le_capture_id l \<noteq> None" for k l
    using that assms(1,3) select_row_Some [OF that(1)]
    by (auto simp: select_row_delete keys_unique_def split: if_splits)
  ultimately show ?thesis unfolding ledger_keeps_def load_ledger_def assms(2) same_entry_def by blast
qed

lemma guarded_keeps:
  assumes "keys_unique db" and "\<And>db' x. guard = Inr () \<Longrightarrow> body db = Inr (db', x) \<Longrightarrow> ledger_keeps db db'"
  shows "ledger_keeps db (fst (case guard of Inl e \<Rightarrow> (db, Inl e) | Inr _ \<Rightarrow> commit body db))"
  using assms by (cases guard; cases "body db") (auto simp: commit_def intro: keeps_same)

lemma commit_keeps:
  assumes "keys_unique db" and "\<And>db' x. body db = Inr (db', x) \<Longrightarrow> ledger_keeps db db'"
  shows "ledger_keeps db (fst (commit body db))"
  using assms by (cases "body db") (auto simp: commit_def intro: keeps_same)

section \<open>Transactions that leave the ledger alone\<close>

lemma insert_job_ledger: "insert_job job db = Inr db' \<Longrightarrow> command_ledger db' = command_ledger db"
  by (auto simp: insert_job_def split: if_splits)

lemma update_jobs_ledger [simp]: "command_ledger (update_jobs p f db) = command_ledger db"
  by (simp add: update_jobs_def)

lemma accept_scheduled_keeps:
  assumes "keys_unique db" shows "ledger_keeps db (fst (accept_scheduled_job cat job s t db))"
proof -
  have "command_ledger db' = command_ledger db" if "accept_scheduled_job_blocking job s t db = Inr (db', x)" for db' x
    using that by (auto simp: accept_scheduled_job_blocking_def Let_def and_then_Inr_iff
        split: option.splits if_splits dest: insert_job_ledger)
  then show ?thesis
    unfolding accept_scheduled_job_def by (intro guarded_keeps [OF assms] keeps_same [OF assms])
qed

lemma cas_state_keeps:
  assumes "keys_unique db" shows "ledger_keeps db (fst (commit (cas_state_blocking c a b t) db))"
  by (intro commit_keeps keeps_same assms)
    (auto simp: cas_state_blocking_def Let_def and_then_Inr_iff)

lemma queue_job_keeps: "keys_unique db \<Longrightarrow> ledger_keeps db (fst (queue_job c t db))"
  by (auto simp: queue_job_def split: sum.split intro: keeps_same cas_state_keeps)

lemma compare_and_set_keeps: "keys_unique db \<Longrightarrow> ledger_keeps db (fst (compare_and_set_state c a b t db))"
  by (auto simp: compare_and_set_state_def intro: keeps_same cas_state_keeps)

lemma reschedule_keeps:
  assumes "keys_unique db" shows "ledger_keeps db (fst (reschedule_deadlines c d t db))"
  unfolding reschedule_deadlines_def
  by (intro guarded_keeps [OF assms] keeps_same [OF assms])
    (auto simp: reschedule_blocking_def Let_def and_then_Inr_iff split: option.splits if_splits)

lemma begin_persisting_keeps:
  assumes "keys_unique db" shows "ledger_keeps db (fst (begin_persisting c pend db))"
  unfolding begin_persisting_def
  by (intro guarded_keeps [OF assms] keeps_same [OF assms])
    (auto simp: begin_persisting_blocking_def insert_pending_success_def Let_def and_then_Inr_iff split: if_splits)

lemma begin_install_keeps:
  assumes "keys_unique db" shows "ledger_keeps db (fst (try_begin_install c t db))"
  unfolding try_begin_install_def
  by (intro commit_keeps keeps_same assms)
    (auto simp: begin_install_blocking_def Let_def and_then_Inr_iff)

lemma record_installed_keeps:
  assumes "keys_unique db" shows "ledger_keeps db (fst (record_installed_artifact c sha n t db))"
  unfolding record_installed_artifact_def
  by (intro guarded_keeps [OF assms] keeps_same [OF assms])
    (auto simp: record_installed_blocking_def Let_def and_then_Inr_iff split: if_splits)

lemma queue_group_keeps:
  assumes "keys_unique db" shows "ledger_keeps db (fst (queue_group g t db))"
  unfolding queue_group_def
  by (intro guarded_keeps [OF assms] keeps_same [OF assms])
    (auto simp: queue_group_blocking_def Let_def and_then_Inr_iff split: if_splits)

section \<open>Transactions that write the ledger\<close>

lemma insert_and_load_ledger:
  "insert_and_load job db = Inr (db', x) \<Longrightarrow> command_ledger db' = command_ledger db"
  by (auto simp: insert_and_load_def and_then_Inr_iff dest: insert_job_ledger)

lemma accept_job_keeps:
  assumes "keys_unique db" shows "ledger_keeps db (fst (accept_job cat job db))"
proof -
  have "db' = db \<or> command_ledger db' = command_ledger db \<or>
      (\<exists>d key c. insert_ledger key (nj_request_hash job) (nj_canonical_request job) (nj_accepted_at_ms job) c None db = Inr d \<and>
         command_ledger db' = command_ledger d)"
    if "accept_job_blocking job db = Inr (db', x)" for db' x
    using that unfolding accept_job_blocking_def
    by (auto simp: and_then_Inr_iff split: option.splits if_splits dest: insert_and_load_ledger)
  then have "ledger_keeps db db'" if "accept_job_blocking job db = Inr (db', x)" for db' x
    using that keeps_same [OF assms] keeps_insert [OF assms] keeps_then_same by metis
  then show ?thesis
    using keeps_same [OF assms refl] by (auto simp: accept_job_def split: sum.split intro: commit_keeps [OF assms])
qed

definition settlements :: "CommandLedgerRecord list \<Rightarrow> CommandLedgerRecord list set" where
  "settlements ls = {settle_ledger p st t res code msg ls | p st t res code msg. True}"

lemma settle_in_settlements [simp]: "settle_ledger p st t res code msg ls \<in> settlements ls"
  unfolding settlements_def by blast

lemma settle_ledger_keeps:
  assumes "keys_unique db" and "command_ledger db' \<in> settlements (command_ledger db)"
  shows "ledger_keeps db db'"
proof -
  obtain p st t res code msg where "command_ledger db' = settle_ledger p st t res code msg (command_ledger db)"
    using assms(2) unfolding settlements_def by blast
  then show ?thesis unfolding settle_ledger_def
    by (rule keeps_update [OF assms(1)]) (simp_all add: same_entry_def)
qed

lemma terminal_keeps:
  assumes "keys_unique db" and "terminal_blocking c w ca states db = Inr (db', x)"
  shows "ledger_keeps db db'"
proof -
  have "command_ledger db' = command_ledger db \<or>
      command_ledger db' \<in> settlements (command_ledger db)"
    using assms(2) unfolding terminal_blocking_def Let_def
    by (auto simp: and_then_Inr_iff split: if_splits)
  then show ?thesis using keeps_same [OF assms(1)] settle_ledger_keeps [OF assms(1)] by blast
qed

lemma terminal_ops_keep:
  assumes "keys_unique db"
  shows "ledger_keeps db (fst (commit_terminal c w db))"
    and "ledger_keeps db (fst (cancel_job c w db))"
    and "ledger_keeps db (fst (interrupt_recovered c states w db))"
  unfolding commit_terminal_def cancel_job_def interrupt_recovered_def
  by (rule guarded_keeps [OF assms], erule terminal_keeps [OF assms])+

lemma insert_members_ledger: "insert_members g i ms db = Inr db' \<Longrightarrow> command_ledger db' = command_ledger db"
proof (induction ms arbitrary: i db)
  case (Cons m ms)
  then show ?case
    by (fastforce simp: and_then_Inr_iff insert_member_def split: if_splits dest: insert_job_ledger)
qed simp

lemma accept_group_keeps:
  assumes "keys_unique db" shows "ledger_keeps db (fst (accept_group cat g db))"
proof -
  have "command_ledger db' = command_ledger db \<or> (\<exists>d. insert_ledger (ng_ledger_key g) (ng_request_hash g)
      (ng_canonical_request g) (ng_accepted_at_ms g) None (Some (ng_group_id g)) db = Inr d \<and>
      command_ledger db' = command_ledger d)"
    if "accept_group_blocking g db = Inr (db', x)" for db' x
    using that unfolding accept_group_blocking_def
    by (auto simp: and_then_Inr_iff insert_group_def split: option.splits if_splits dest!: insert_members_ledger)
  then have "ledger_keeps db db'" if "accept_group_blocking g db = Inr (db', x)" for db' x
    using that keeps_same [OF assms] keeps_insert [OF assms] keeps_then_same by metis
  then show ?thesis unfolding accept_group_def by (intro guarded_keeps [OF assms])
qed

lemma complete_group_keeps:
  assumes "keys_unique db" shows "ledger_keeps db (fst (complete_group g st res code msg t db))"
proof -
  have "command_ledger db' = command_ledger db \<or>
      command_ledger db' \<in> settlements (command_ledger db)"
    if "complete_group_blocking g st res code msg t db = Inr (db', x)" for db' x
    using that unfolding complete_group_blocking_def Let_def
    by (auto simp: and_then_Inr_iff split: if_splits)
  then have "ledger_keeps db db'" if "complete_group_blocking g st res code msg t db = Inr (db', x)" for db' x
    using that keeps_same [OF assms] settle_ledger_keeps [OF assms] by blast
  then show ?thesis
    using keeps_same [OF assms refl] by (auto simp: complete_group_def intro: commit_keeps [OF assms])
qed

lemma begin_command_keeps:
  assumes "keys_unique db" shows "ledger_keeps db (fst (begin_command cat key h rq t db))"
  unfolding begin_command_def
  by (rule guarded_keeps [OF assms])
    (auto simp: begin_command_blocking_def and_then_Inr_iff split: option.splits
      intro: keeps_insert [OF assms] keeps_same [OF assms])

lemma update_command_keeps:
  assumes "keys_unique db" and "update_command key f e db = Inr (db', x)"
    and "\<And>l. le_key (f l) = le_key l" and "\<And>l. same_entry l (f l)"
  shows "ledger_keeps db db'"
proof -
  have "command_ledger db' = update_where (\<lambda>l. le_key l = key \<and> le_state l = InProgress) f (command_ledger db)"
    using assms(2) by (auto simp: update_command_def Let_def and_then_Inr_iff split: if_splits)
  then show ?thesis by (rule keeps_update [OF assms(1)]) (rule assms)+
qed

lemma command_updates_keep:
  assumes "keys_unique db"
  shows "ledger_keeps db (fst (complete_command cat key st reply code msg t db))"
    and "ledger_keeps db (fst (record_command_acceptance cat key reply t db))"
  unfolding complete_command_def record_command_acceptance_def
  by (rule guarded_keeps [OF assms], erule update_command_keeps [OF assms]; simp add: same_entry_def)+

lemma sweeps_keep:
  assumes "keys_unique db"
  shows "ledger_keeps db (settle_interrupted_reconnects t db)"
    and "ledger_keeps db (mark_hazardous_commands_outcome_unknown t db)"
  by (rule keeps_update [OF assms], simp add: settle_interrupted_reconnects_def, simp_all add: same_entry_def)
    (rule keeps_update [OF assms], simp add: mark_hazardous_commands_outcome_unknown_def,
      simp_all add: same_entry_def)

lemma prune_commands_keeps:
  assumes "keys_unique db" shows "ledger_keeps db (fst (prune_completed_command_ledgers before n db))"
proof (cases "1 \<le> n \<and> n \<le> 10000")
  case True
  let ?q = "\<lambda>l. standalone l \<and> settled l \<and> le_updated_at_ms l < before"
  let ?sel = "select_limit (\<lambda>l. (le_updated_at_ms l, lk_instance (le_key l), lk_verb (le_key l), lk_request_id (le_key l)))
      n ?q (command_ledger db)"
  show ?thesis
  proof (rule keeps_delete [OF assms])
    show "command_ledger (fst (prune_completed_command_ledgers before n db)) =
        delete_where (\<lambda>l. le_key l \<in> set (map le_key ?sel) \<and> settled l) (command_ledger db)"
      using True by (simp add: prune_completed_command_ledgers_def Let_def)
    fix l assume l: "l \<in> set (command_ledger db)" "le_key l \<in> set (map le_key ?sel) \<and> settled l"
    then obtain l' where "l' \<in> set (command_ledger db)" "?q l'" "le_key l' = le_key l"
      using set_select_limit [of _ n ?q "command_ledger db"] by fastforce
    then have "l' = l" using l(1) assms by (auto simp: keys_unique_def distinct_map inj_on_def)
    then show "le_capture_id l = None" using \<open>?q l'\<close> by (simp add: standalone_def)
  qed
qed (use keeps_same [OF assms refl] in \<open>auto simp: prune_completed_command_ledgers_def\<close>)

lemma waiters_keep:
  assumes "keys_unique db"
  shows "ledger_keeps db (fst (add_waiter w db))" and "ledger_keeps db (fst (remove_waiter i db))"
  using keeps_same [OF assms] by (simp_all add: add_waiter_def remove_waiter_def split: sum.split)

lemma lifecycle_keeps: "keys_unique db \<Longrightarrow> ledger_keeps db (exec_lifecycle cat db op)"
  by (cases op) (simp_all add: accept_job_keeps accept_scheduled_keeps queue_job_keeps compare_and_set_keeps
      reschedule_keeps begin_persisting_keeps begin_install_keeps record_installed_keeps terminal_ops_keep
      accept_group_keeps queue_group_keeps complete_group_keeps begin_command_keeps command_updates_keep
      sweeps_keep waiters_keep prune_commands_keeps)

section \<open>The original of a request\<close>

definition request_bound :: "LedgerKey \<Rightarrow> RequestHash \<Rightarrow> string \<Rightarrow> catalog \<Rightarrow> bool" where
  "request_bound key h c db \<longleftrightarrow>
     (\<exists>l. load_ledger db key = Some l \<and> le_request_hash l = h \<and> le_capture_id l = Some c) \<and>
     select_row capture_id c (jobs db) \<noteq> None"

definition ledger_inv :: "catalog \<Rightarrow> bool" where
  "ledger_inv db \<longleftrightarrow> keys_unique db \<and> ids_unique db"

lemma lifecycle_ledger_inv: "ledger_inv db \<Longrightarrow> ledger_inv (exec_lifecycle cat db op)"
  using lifecycle_keeps lifecycle_evolves unfolding ledger_inv_def ledger_keeps_def jobs_evolve_def by metis

interpretation bound: stable_fact "exec_lifecycle cat" ledger_inv "request_bound key h c" for cat key h c
proof
  fix db op assume inv: "ledger_inv db"
  show "ledger_inv (exec_lifecycle cat db op)" using inv by (rule lifecycle_ledger_inv)
  assume b: "request_bound key h c db"
  have "ledger_keeps db (exec_lifecycle cat db op)" "jobs_evolve db (exec_lifecycle cat db op)"
    and u: "ids_unique db"
    using inv lifecycle_keeps lifecycle_evolves by (auto simp: ledger_inv_def)
  then show "request_bound key h c (exec_lifecycle cat db op)"
    using b evolve_row [OF _ u] unfolding request_bound_def ledger_keeps_def same_entry_def
    by (metis (no_types, lifting) option.distinct(1) option.exhaust)
qed

end
