(* ===== verification/Catalog_Guarantees.thy ===== *)
theory Catalog_Guarantees
  imports Catalog_Ledger
begin

text \<open>
  The guarantees of the durable catalog over whole runs of its transactions: the first terminal write is
  the only one, success is backed by an installed artifact, installation and cancellation exclude each
  other, a retried request finds its original capture, and retention removes finished records only.
\<close>

section \<open>Refinement of a book of jobs\<close>

text \<open>
  The abstract catalog is a finite map from capture identifiers to job rows. Recording moves every known row by
  one step of its life and may open new rows; forgetting removes rows and changes none.
\<close>

definition job_book :: "catalog \<Rightarrow> string \<Rightarrow> JobRow option" where
  "job_book db c = select_row capture_id c (jobs db)"

inductive book_step :: "(string \<Rightarrow> JobRow option) \<Rightarrow> (string \<Rightarrow> JobRow option) \<Rightarrow> bool" where
  recording: "(\<And>c r. m c = Some r \<Longrightarrow> \<exists>r'. m' c = Some r' \<and> row_step r r') \<Longrightarrow>
    (\<And>c r'. m c = None \<Longrightarrow> m' c = Some r' \<Longrightarrow> r' \<in> range new_row \<and> capture_id r' = c) \<Longrightarrow> book_step m m'"
| forgetting: "(\<And>c. m' c = m c \<or> m' c = None) \<Longrightarrow> book_step m m'"

lemma evolve_new_row:
  assumes "jobs_evolve db db'" and "select_row capture_id c (jobs db) = None" and "select_row capture_id c (jobs db') = Some r"
  shows "r \<in> range new_row \<and> capture_id r = c"
proof -
  obtain g news where g: "jobs db' = map g (jobs db) @ news" "\<forall>r \<in> set (jobs db). row_step r (g r)" "set news \<subseteq> range new_row"
    using assms(1) unfolding jobs_evolve_def by blast
  have r: "r \<in> set (jobs db')" "capture_id r = c" using select_row_Some [OF assms(3)] by auto
  have "capture_id q \<noteq> c" if "q \<in> set (jobs db)" for q using assms(2) that by (auto simp: select_row_None)
  then have "r \<notin> g ` set (jobs db)" using g(2) r(2) row_step_id by (metis imageE)
  then show ?thesis using r g by auto
qed

lemma shrink_book: "jobs_shrink db db' \<Longrightarrow> ids_unique db \<Longrightarrow> job_book db' c = job_book db c \<or> job_book db' c = None"
proof -
  assume s: "jobs_shrink db db'" and u: "ids_unique db"
  show ?thesis
  proof (cases "job_book db' c")
    case (Some r)
    then have "r \<in> set (jobs db)" "capture_id r = c"
      using select_row_Some [of capture_id c "jobs db'" r] shrink_rows [OF s] by (auto simp: job_book_def)
    then have "job_book db c = Some r"
      using select_row_unique [of capture_id "jobs db" r] u by (simp add: job_book_def ids_unique_def)
    then show ?thesis using Some by simp
  qed simp
qed

interpretation book: simulation "exec_catalog cat" catalog_inv job_book book_step for cat
proof
  fix db op
  assume "catalog_inv db"
  then have u: "ids_unique db" by (simp add: catalog_inv_def)
  show "book_step (job_book db) (job_book (exec_catalog cat db op))"
  proof (cases op)
    case (Inl l)
    have "jobs_evolve db (exec_catalog cat db op)" using lifecycle_evolves [OF u] Inl by simp
    then show ?thesis
      by (intro book_step.recording) (auto simp: job_book_def dest: evolve_row [OF _ u] evolve_new_row)
  next
    case (Inr q)
    have "jobs_shrink db (exec_catalog cat db op)" using retention_ops_shrink Inr by simp
    then show ?thesis by (intro book_step.forgetting shrink_book u)
  qed
qed

text \<open>C8: The catalog refines a book of jobs. From an empty catalog, whatever transactions and retention sweeps have
  run, the next one either moves every recorded capture by one step of its life and opens new ones, or only
  forgets; so a whole run of the tables is a run of the book.\<close>

theorem catalog_refines_book:
  "job_book empty_catalog = Map.empty \<and>
   book_step (job_book (foldl (exec_catalog cat) empty_catalog ops))
     (job_book (exec_catalog cat (foldl (exec_catalog cat) empty_catalog ops) op)) \<and>
   book_step\<^sup>*\<^sup>* Map.empty (job_book (foldl (exec_catalog cat) empty_catalog ops))"
proof -
  have empty: "job_book empty_catalog = Map.empty" by (auto simp: job_book_def empty_catalog_def select_row_def)
  show ?thesis
    using book.run_sim [OF empty_catalog_inv, of cat ops] book.exec_sim [OF cat.run_inv [OF empty_catalog_inv]] empty
    by simp
qed

section \<open>Outcomes\<close>

lemma won_row:
  assumes b: "terminal_blocking c w cancellation states db = Inr (db', Won rec)"
  shows "state (fst rec) = tw_state w \<and> terminal_result (fst rec) = Some (tw_result w)"
proof -
  let ?p = "at_job c (\<lambda>r. unfinished r \<and> (\<not> cancellation \<or> \<not> install_started r))"
  obtain row where row: "select_row capture_id c (jobs db) = Some row" "\<not> is_terminal (state row)"
    "cancellation \<longrightarrow> \<not> install_started row"
    and l: "select_row capture_id c (jobs db') = Some (fst rec)"
    using terminal_won [OF b] by blast
  have j: "jobs db' = (if tw_state w = Succeeded then update_where ?p (finished_row w) (jobs db)
         else update_where (at_job c (\<lambda>_. True)) (\<lambda>r. r\<lparr>expected_sha256 := None, expected_bytes := None\<rparr>)
                (update_where ?p (finished_row w) (jobs db)))"
    using b by (auto simp: terminal_blocking_def and_then_Inr_iff update_jobs_def Let_def split: if_splits)
  have "?p row" using row select_row_Some [OF row(1)] by (simp add: at_job_def unfinished_def)
  then have f: "select_row capture_id c (update_where ?p (finished_row w) (jobs db)) = Some (finished_row w row)"
    using row(1) by (simp add: select_row_update)
  show ?thesis
  proof (cases "tw_state w = Succeeded")
    case True
    then have "fst rec = finished_row w row" using f j l by simp
    then show ?thesis by simp
  next
    case False
    let ?g = "\<lambda>r. r\<lparr>expected_sha256 := None, expected_bytes := None\<rparr> :: JobRow"
    have j2: "jobs db' = update_where (at_job c (\<lambda>_. True)) ?g (update_where ?p (finished_row w) (jobs db))"
      using j False by (simp only: if_False)
    have "select_row capture_id c (jobs db') = map_option (\<lambda>r. if at_job c (\<lambda>_. True) r then ?g r else r)
        (select_row capture_id c (update_where ?p (finished_row w) (jobs db)))"
      unfolding j2 by (rule select_row_update) simp
    then have "fst rec = finished_row w row \<or> fst rec = ?g (finished_row w row)"
      unfolding f using l by (simp split: if_splits)
    then show ?thesis by auto
  qed
qed

lemma won_terminal:
  "terminal_blocking c w cancellation states db = Inr (db', Won rec) \<Longrightarrow> state (fst rec) = tw_state w"
  by (simp add: won_row)

lemma inv_unique: "catalog_inv db \<Longrightarrow> ids_unique db"
  by (simp add: catalog_inv_def)

text \<open>C4: in any run of catalog transactions, once a terminal write, a cancellation or a recovery
  interruption has won a capture, the row it wrote stays exactly as written and no later terminal
  write of any kind wins that capture again.
\<close>

theorem terminal_decided_once:
  assumes "catalog_inv db" and "terminal_outcome db op = Some (Inr (Won rec))"
    and "db' = foldl (exec_lifecycle cat) (exec_lifecycle cat db op) ops"
  shows "is_terminal (state (fst rec)) \<and>
    select_row capture_id (capture_id (fst rec)) (jobs db') = Some (fst rec) \<and>
    (\<forall>op' rec'. terminal_outcome db' op' = Some (Inr (Won rec')) \<longrightarrow>
       capture_id (fst rec') \<noteq> capture_id (fst rec))"
proof -
  obtain c w ca st where b: "terminal_blocking c w ca st db = Inr (exec_lifecycle cat db op, Won rec)"
    and t: "is_terminal (tw_state w)" using terminal_outcome_won [OF assms(2)] by metis
  have r: "is_terminal (state (fst rec))" using won_terminal [OF b] t by simp
  have "select_row capture_id (capture_id (fst rec)) (jobs (exec_lifecycle cat db op)) = Some (fst rec)"
    using terminal_won [OF b] by auto
  then have row: "select_row capture_id (capture_id (fst rec)) (jobs db') = Some (fst rec)"
    using terminal.run_fact [OF lifecycle_inv [OF assms(1)]] r unfolding assms(3) by blast
  have "capture_id (fst rec') \<noteq> capture_id (fst rec)"
    if later: "terminal_outcome db' op' = Some (Inr (Won rec'))" for op' rec'
  proof -
    obtain c' w' ca' st' where "terminal_blocking c' w' ca' st' db' = Inr (exec_lifecycle cat db' op', Won rec')"
      using terminal_outcome_won [OF later] by metis
    from terminal_won [OF this] show ?thesis using row r by auto
  qed
  then show ?thesis using r row by blast
qed

lemma row_ok_succeeded:
  assumes "row_ok r" and "state r = Succeeded"
  shows "install_started r \<and> (\<exists>path sha n. final_path r = Some path \<and>
    expected_sha256 r = Some sha \<and> installed_sha256 r = Some sha \<and>
    expected_bytes r = Some n \<and> installed_bytes r = Some n)"
proof -
  have "install_started r" "final_path r \<noteq> None" "installed_sha256 r \<noteq> None" "installed_bytes r \<noteq> None"
    "expected_sha256 r = installed_sha256 r" "expected_bytes r = installed_bytes r"
    using assms unfolding row_ok_def by metis+
  then show ?thesis by auto
qed

text \<open>C5: whatever sequence of transactions and retention sweeps runs from an empty catalog, a capture
  recorded as succeeded went through the installation compare-and-set and carries the installed
  artifact's digest and size, equal to the digest and size prepared before installation, at its final
  path.
\<close>

theorem success_is_backed:
  "\<forall>r \<in> set (jobs (foldl (exec_catalog cat) empty_catalog ops)). state r = Succeeded \<longrightarrow>
     install_started r \<and> (\<exists>path sha n. final_path r = Some path \<and>
       expected_sha256 r = Some sha \<and> installed_sha256 r = Some sha \<and>
       expected_bytes r = Some n \<and> installed_bytes r = Some n)"
proof -
  have "catalog_inv (foldl (exec_catalog cat) empty_catalog ops)"
    by (rule cat.run_inv [OF empty_catalog_inv])
  then have "\<forall>r \<in> set (jobs (foldl (exec_catalog cat) empty_catalog ops)). row_ok r"
    by (simp add: catalog_inv_def)
  then show ?thesis using row_ok_succeeded by blast
qed

lemma install_started_before:
  assumes "ids_unique db" and "snd (try_begin_install c t db) = Inr (Started rec)"
  obtains r where "select_row capture_id c (jobs db) = Some r" "state r = Persisting" "\<not> install_started r"
proof -
  have body: "begin_install_blocking c t db = Inr (fst (try_begin_install c t db), Started rec)"
    using assms(2) unfolding try_begin_install_def
    by (cases "begin_install_blocking c t db") (auto simp: commit_def)
  then have "count_where (at_job c (\<lambda>r. state r = Persisting \<and> \<not> install_started r)) (jobs db) = 1"
    unfolding begin_install_blocking_def Let_def by (auto simp: and_then_Inr_iff split: if_splits)
  then have "count_where (\<lambda>r. capture_id r = c \<and> state r = Persisting \<and> \<not> install_started r) (jobs db) = 1"
    unfolding at_job_def [abs_def] .
  then show ?thesis
    using that count_where_unique [of capture_id "jobs db" c "\<lambda>r. state r = Persisting \<and> \<not> install_started r"]
      assms(1) by (cases "select_row capture_id c (jobs db)") (simp_all add: ids_unique_def of_bool_def split: if_splits)
qed

lemma install_started_row:
  assumes "ids_unique db" and s: "snd (try_begin_install c t db) = Inr (Started rec)"
  shows "\<exists>r. select_row capture_id c (jobs (fst (try_begin_install c t db))) = Some r \<and> install_started r \<and>
    state r \<noteq> Cancelled"
proof -
  let ?p = "at_job c (\<lambda>r. state r = Persisting \<and> \<not> install_started r)"
  obtain r where r: "select_row capture_id c (jobs db) = Some r" "state r = Persisting" "\<not> install_started r"
    using install_started_before [OF assms] .
  have body: "begin_install_blocking c t db = Inr (fst (try_begin_install c t db), Started rec)"
    using s unfolding try_begin_install_def
    by (cases "begin_install_blocking c t db") (auto simp: commit_def)
  then have "update_jobs ?p (\<lambda>r. r\<lparr>install_started := True, updated_at_ms := t\<rparr>) db =
      fst (try_begin_install c t db)"
    unfolding begin_install_blocking_def Let_def and_then_Inr_iff by blast
  then have "jobs (fst (try_begin_install c t db)) =
      update_where ?p (\<lambda>r. r\<lparr>install_started := True, updated_at_ms := t\<rparr>) (jobs db)"
    unfolding update_jobs_def by (metis catalog.select_convs(1) catalog.surjective catalog.update_convs(1))
  then show ?thesis using r select_row_Some [OF r(1)] by (simp add: select_row_update at_job_def)
qed

lemma cancel_won_body:
  assumes "snd (cancel_job c w db) = Inr (Won rec)"
  shows "terminal_blocking c w True None db = Inr (fst (cancel_job c w db), Won rec) \<and> tw_state w = Cancelled"
proof -
  have "cancel_job c w db = (fst (cancel_job c w db), Inr (Won rec))" using assms by (simp add: prod_eq_iff)
  then show ?thesis
    unfolding cancel_job_def by (auto dest!: guarded_outcome simp: and_then_Inr_iff)
qed

lemma cancel_won_row:
  assumes "snd (cancel_job c w db) = Inr (Won rec)"
  shows "\<exists>r. select_row capture_id c (jobs db) = Some r \<and> \<not> install_started r"
  using terminal_won [of c w True None db _ rec] cancel_won_body [OF assms] by blast

lemma cancel_won_terminal:
  assumes "snd (cancel_job c w db) = Inr (Won rec)"
  shows "is_terminal (state (fst rec)) \<and>
    select_row capture_id (capture_id (fst rec)) (jobs (fst (cancel_job c w db))) = Some (fst rec) \<and>
    capture_id (fst rec) = c"
proof -
  have b: "terminal_blocking c w True None db = Inr (fst (cancel_job c w db), Won rec)" "tw_state w = Cancelled"
    using cancel_won_body [OF assms] by blast+
  show ?thesis using terminal_won [OF b(1)] won_terminal [OF b(1)] b(2) by auto
qed

text \<open>C6: installation and cancellation exclude each other: after the installation compare-and-set has
  started for a capture no cancellation of it wins, and after a cancellation has won no installation of
  it starts, whatever transactions run in between.
\<close>

theorem cancel_xor_install:
  assumes "catalog_inv db"
  shows "(\<forall>c t rec w rec' ops.
      snd (try_begin_install c t db) = Inr (Started rec) \<longrightarrow>
      snd (cancel_job c w (foldl (exec_lifecycle cat) (fst (try_begin_install c t db)) ops)) \<noteq> Inr (Won rec')) \<and>
    (\<forall>c t rec w rec' ops.
      snd (cancel_job c w db) = Inr (Won rec) \<longrightarrow>
      snd (try_begin_install c t (foldl (exec_lifecycle cat) (fst (cancel_job c w db)) ops)) \<noteq> Inr (Started rec'))"
proof (intro conjI allI impI notI)
  fix c t rec w rec' ops
  let ?d = "fst (try_begin_install c t db)" and ?d' = "foldl (exec_lifecycle cat) (fst (try_begin_install c t db)) ops"
  assume s: "snd (try_begin_install c t db) = Inr (Started rec)"
    and w: "snd (cancel_job c w ?d') = Inr (Won rec')"
  have "catalog_inv ?d" using lifecycle_inv [OF assms, of cat "TryBeginInstall c t"] by simp
  moreover have "\<exists>r. select_row capture_id c (jobs ?d) = Some r \<and> install_started r \<and> state r \<noteq> Cancelled"
    by (rule install_started_row [OF inv_unique [OF assms] s])
  ultimately obtain r where r: "select_row capture_id c (jobs ?d') = Some r" "install_started r"
    using installing.run_fact by blast
  have "terminal_outcome ?d' (CancelJob c w) = Some (Inr (Won rec'))" using w by simp
  then show False using cancel_won_row [OF w] r by auto
next
  fix c t rec w rec' ops
  let ?d = "fst (cancel_job c w db)" and ?d' = "foldl (exec_lifecycle cat) (fst (cancel_job c w db)) ops"
  assume w: "snd (cancel_job c w db) = Inr (Won rec)"
    and s: "snd (try_begin_install c t ?d') = Inr (Started rec')"
  have inv: "catalog_inv ?d" using lifecycle_inv [OF assms, of cat "CancelJob c w"] by simp
  have "is_terminal (state (fst rec)) \<and> select_row capture_id (capture_id (fst rec)) (jobs ?d) = Some (fst rec) \<and>
      capture_id (fst rec) = c" using cancel_won_terminal [OF w] by blast
  then have "select_row capture_id c (jobs ?d') = Some (fst rec)" "is_terminal (state (fst rec))"
    using terminal.run_fact [OF inv] by metis+
  then show False using install_started_before [OF _ s] terminal.run_inv [OF inv] inv_unique by fastforce
qed

section \<open>Retried requests\<close>

lemma accept_job_body:
  assumes "snd (accept_job cat job db) = Inr out"
  shows "validate_new_job cat job False = Inr () \<and>
    accept_job_blocking job db = Inr (fst (accept_job cat job db), out)"
  using assms unfolding accept_job_def
  by (cases "accept_job_blocking job db") (auto simp: commit_def split: sum.splits if_splits)

lemma load_inserted:
  "insert_ledger key h rq t c g db = Inr db' \<Longrightarrow>
     \<exists>l. load_ledger db' key = Some l \<and> le_request_hash l = h \<and> le_capture_id l = c"
  by (auto simp: insert_ledger_def load_ledger_def select_row_append split: if_splits)

lemma bound_by_load:
  assumes "load_job_required db c = Inr rec" and "jobs db' = jobs db"
    and "\<exists>l. load_ledger db' key = Some l \<and> le_request_hash l = h \<and> le_capture_id l = Some c"
  shows "request_bound key h (capture_id (fst rec)) db'"
proof -
  obtain r where r: "select_row capture_id c (jobs db) = Some r" "fst rec = r"
    using assms(1) by (auto simp: load_job_required_Inr)
  then show ?thesis using assms(2,3) select_row_Some [OF r(1)] by (simp add: request_bound_def)
qed

lemma accept_binds:
  assumes "accept_job_blocking job db = Inr (db', out)" and "out = JobInserted rec \<or> out = JobExisting rec"
    and "nj_ledger_key job = Some key"
  shows "request_bound key (nj_request_hash job) (capture_id (fst rec)) db'"
proof (cases "load_ledger db key")
  case (Some l)
  then obtain c where "db' = db" "le_request_hash l = nj_request_hash job" "le_capture_id l = Some c"
    "load_job_required db c = Inr rec"
    using assms by (auto simp: accept_job_blocking_def and_then_Inr_iff split: if_splits)
  then show ?thesis using Some bound_by_load by blast
next
  case None
  show ?thesis
  proof (cases "find (has_request (nj_instance job) (lk_request_id key)) (jobs db)")
    case (Some row)
    then have d: "insert_ledger key (nj_request_hash job) (nj_canonical_request job) (nj_accepted_at_ms job)
        (Some (capture_id row)) None db = Inr db'" "load_job_required db (capture_id row) = Inr rec"
      using assms None by (auto simp: accept_job_blocking_def and_then_Inr_iff split: if_splits)
    show ?thesis by (rule bound_by_load [OF d(2) insert_ledger_jobs [OF d(1)] load_inserted [OF d(1)]])
  next
    case fresh: None
    then obtain d where d: "insert_ledger key (nj_request_hash job) (nj_canonical_request job) (nj_accepted_at_ms job)
        (Some (nj_capture_id job)) None db = Inr d" "insert_and_load job d = Inr (db', JobInserted rec)"
      using assms None by (auto simp: accept_job_blocking_def and_then_Inr_iff insert_and_load_def)
    then have "load_job_required db' (nj_capture_id job) = Inr rec"
      by (auto simp: insert_and_load_def and_then_Inr_iff)
    moreover have "load_ledger db' key = load_ledger d key"
      using insert_and_load_ledger [OF d(2)] by (simp add: load_ledger_def)
    ultimately show ?thesis using load_inserted [OF d(1)] bound_by_load by metis
  qed
qed

lemma retry_bound:
  assumes "request_bound key h c db" and "validate_new_job cat job False = Inr ()"
    and "nj_ledger_key job = Some key"
  shows "if nj_request_hash job = h
    then \<exists>rec. accept_job cat job db = (db, Inr (JobExisting rec)) \<and> capture_id (fst rec) = c
    else accept_job cat job db = (db, Inr JobConflict)"
proof -
  obtain l r where l: "load_ledger db key = Some l" "le_request_hash l = h" "le_capture_id l = Some c"
    and r: "select_row capture_id c (jobs db) = Some r"
    using assms(1) unfolding request_bound_def by blast
  have "load_job_required db c = Inr (r, staged db c)" using r by (simp add: load_job_required_Inr)
  then show ?thesis
    using l assms(2,3) select_row_Some [OF r]
    by (auto simp: accept_job_def accept_job_blocking_def commit_def ok_or_def)
qed

text \<open>C7: after a command was accepted, a retry under the same ledger key, however many catalog
  transactions later, changes nothing: with the same request hash it returns the capture the first
  attempt was given, with any other hash it is reported as a conflict.
\<close>

theorem retry_returns_original:
  assumes "ledger_inv db" and "snd (accept_job cat job db) = Inr out"
    and "out = JobInserted rec \<or> out = JobExisting rec" and "nj_ledger_key job = Some key"
    and "db' = foldl (exec_lifecycle cat) (fst (accept_job cat job db)) ops"
    and "validate_new_job cat job' False = Inr ()" and "nj_ledger_key job' = Some key"
  shows "if nj_request_hash job' = nj_request_hash job
    then \<exists>rec'. accept_job cat job' db' = (db', Inr (JobExisting rec')) \<and> capture_id (fst rec') = capture_id (fst rec)
    else accept_job cat job' db' = (db', Inr JobConflict)"
proof -
  have "accept_job_blocking job db = Inr (fst (accept_job cat job db), out)"
    using accept_job_body [OF assms(2)] by blast
  then have "request_bound key (nj_request_hash job) (capture_id (fst rec)) (fst (accept_job cat job db))"
    using accept_binds assms(3,4) by blast
  moreover have "ledger_inv (fst (accept_job cat job db))"
    using lifecycle_ledger_inv [OF assms(1), of cat "AcceptJob job"] by simp
  ultimately have "request_bound key (nj_request_hash job) (capture_id (fst rec)) db'"
    unfolding assms(5) by (intro bound.run_fact)
  then show ?thesis using retry_bound assms(6,7) by blast
qed

section \<open>Retention\<close>

lemma take_sorted_le:
  assumes "a \<in> set (take n xs)" and "b \<in> set (drop n xs)" and "sorted (map f xs)"
  shows "f a \<le> f b"
proof -
  have "sorted (map f (take n xs) @ map f (drop n xs))"
    using assms(3) by (metis append_take_drop_id map_append)
  then show ?thesis using assms(1,2) by (auto simp: sorted_append)
qed

lemma select_limit_least:
  assumes "a \<in> set (select_limit f n p t)" and "b \<in> set t" and "p b" and "b \<notin> set (select_limit f n p t)"
  shows "f a \<le> f b"
proof -
  have "b \<in> set (sort_key f (filter p t))" using assms(2,3) by simp
  then have "b \<in> set (drop n (sort_key f (filter p t)))"
    using assms(4) unfolding select_limit_def by (metis Un_iff append_take_drop_id set_append)
  then show ?thesis using assms(1) take_sorted_le unfolding select_limit_def by (metis sorted_sort_key)
qed

lemma select_limit_distinct: "distinct t \<Longrightarrow> distinct (select_limit f n p t)"
  by (simp add: select_limit_def)

lemma unique_rows: "ids_unique db \<Longrightarrow> r \<in> set (jobs db) \<Longrightarrow> V \<subseteq> set (jobs db) \<Longrightarrow>
    capture_id r \<in> capture_id ` V \<longleftrightarrow> r \<in> V"
  unfolding ids_unique_def distinct_map inj_on_def by blast

lemma filter_minus_count:
  assumes "distinct t" and "distinct v" and "set v \<subseteq> {r \<in> set t. q r}"
  shows "length (filter q (filter (\<lambda>r. r \<notin> set v) t)) = length (filter q t) - length v"
proof -
  have len: "length (filter p t) = card {r \<in> set t. p r}" for p
    using distinct_card [OF distinct_filter [OF assms(1)], of p] by simp
  have "length (filter q (filter (\<lambda>r. r \<notin> set v) t)) = card ({r \<in> set t. q r} - set v)"
    unfolding filter_filter len by (rule arg_cong [where f = card]) auto
  also have "\<dots> = card {r \<in> set t. q r} - card (set v)" using assms(3) by (intro card_Diff_subset) auto
  finally show ?thesis using distinct_card [OF assms(2)] len by simp
qed

text \<open>C21: enforcing the limit on result records deletes terminal, ungrouped records only, oldest first,
  never more than the limit of one sweep, and never leaves fewer terminal records than the configured
  maximum unless there were fewer; unfinished captures and commands whose outcome is unknown stay.
\<close>

theorem retention_exact:
  assumes "ids_unique db" and "enforce_result_record_limit maximum limit db = (db', Inr k)"
  shows "k \<le> limit \<and>
    (\<forall>r \<in> set (jobs db). r \<notin> set (jobs db') \<longrightarrow> prunable db r \<and>
       (\<forall>r' \<in> set (jobs db'). prunable db r' \<longrightarrow>
          (terminal_at_ms r, capture_id r) \<le> (terminal_at_ms r', capture_id r'))) \<and>
    set (jobs db') \<subseteq> set (jobs db) \<and>
    count_where (\<lambda>r. is_terminal (state r)) (jobs db') = count_where (\<lambda>r. is_terminal (state r)) (jobs db) - k \<and>
    min (count_where (\<lambda>r. is_terminal (state r)) (jobs db)) (unat maximum) \<le>
      count_where (\<lambda>r. is_terminal (state r)) (jobs db') \<and>
    (\<forall>l \<in> set (command_ledger db). le_state l = OutcomeUnknown \<longrightarrow> l \<in> set (command_ledger db'))"
proof -
  let ?T = "count_where (\<lambda>r. is_terminal (state r)) (jobs db)"
  let ?V = "select_limit (\<lambda>r. (terminal_at_ms r, capture_id r)) (min (?T - unat maximum) limit) (prunable db) (jobs db)"
  have body: "enforce_result_record_limit_blocking (unat maximum) limit db = Inr (db', k)"
    using assms(2) unfolding enforce_result_record_limit_def prune_limit_error_def
    by (cases "enforce_result_record_limit_blocking (unat maximum) limit db") (auto simp: commit_def split: if_splits)
  show ?thesis
  proof (cases "?T \<le> unat maximum")
    case True
    then have "db' = db" "k = 0" using body by (auto simp: enforce_result_record_limit_blocking_def)
    then show ?thesis by simp
  next
    case False
    have d: "delete_terminal_jobs (map capture_id ?V) db = Inr db'" and k: "k = length ?V"
      using body False by (auto simp: enforce_result_record_limit_blocking_def Let_def and_then_Inr_iff)
    have V: "set ?V \<subseteq> {r \<in> set (jobs db). prunable db r}" by (rule set_select_limit)
    have "jobs db' = filter (\<lambda>r. capture_id r \<notin> set (map capture_id ?V)) (jobs db)"
      using delete_terminal_jobs_exact [OF d] by blast
    also have "\<dots> = filter (\<lambda>r. r \<notin> set ?V) (jobs db)"
      by (rule filter_cong [OF refl]) (use unique_rows [OF assms(1)] V in auto)
    finally have j: "jobs db' = filter (\<lambda>r. r \<notin> set ?V) (jobs db)" .
    have dist: "distinct (jobs db)" using assms(1) by (auto simp: ids_unique_def distinct_map)
    have cnt: "count_where (\<lambda>r. is_terminal (state r)) (jobs db') = ?T - k"
      unfolding j k
      by (rule filter_minus_count [OF dist select_limit_distinct [OF dist], folded count_where_def])
        (use V in \<open>auto simp: prunable_def\<close>)
    have "length ?V \<le> min (?T - unat maximum) limit" by (rule length_select_limit)
    then have bnd: "k \<le> ?T - unat maximum" "k \<le> limit" unfolding k by linarith+
    have led: "\<forall>l \<in> set (command_ledger db). le_state l = OutcomeUnknown \<longrightarrow> l \<in> set (command_ledger db')"
      using delete_terminal_jobs_exact [OF d] by simp
    have old: "prunable db r \<and> (\<forall>r' \<in> set (jobs db'). prunable db r' \<longrightarrow>
          (terminal_at_ms r, capture_id r) \<le> (terminal_at_ms r', capture_id r'))"
      if "r \<in> set (jobs db)" "r \<notin> set (jobs db')" for r
    proof -
      have r: "r \<in> set ?V" using that unfolding j by simp
      have "(terminal_at_ms r, capture_id r) \<le> (terminal_at_ms r', capture_id r')"
        if "r' \<in> set (jobs db')" "prunable db r'" for r'
        using select_limit_least [OF r _ that(2)] that(1) unfolding j by simp
      then show ?thesis using r V by blast
    qed
    show ?thesis using bnd led old cnt False unfolding j by (auto simp: min_def)
  qed
qed

section \<open>Concrete instances\<close>

definition demo_object :: json where "demo_object = JObject [(''k'', JBool True)]"

definition demo_key :: LedgerKey where
  "demo_key = \<lparr>lk_instance = ''cam1'', lk_verb = ''sb/capture'', lk_request_id = ''r1''\<rparr>"

definition demo_job :: "RequestHash \<Rightarrow> NewJob" where
  "demo_job h = \<lparr>nj_capture_id = ''c1'', nj_instance = ''cam1'', nj_ledger_key = Some demo_key,
     nj_canonical_request = demo_object, nj_request_hash = h, nj_effective_profile = demo_object,
     nj_deadlines = \<lparr>dl_terminal_at_ms = 90, dl_queue_at_ms = None, dl_capture_at_ms = 30,
       dl_encode_at_ms = 40, dl_persist_at_ms = 50\<rparr>,
     nj_trigger = demo_object, nj_origin_correlation_id = None, nj_intended_output = demo_object,
     nj_accepted_at_ms = 10, nj_group_id = None\<rparr>"

definition demo_cancel :: TerminalWrite where
  "demo_cancel = \<lparr>tw_state = Cancelled, tw_result = JObject [(''schemaVersion'', JNumber (PosInt 1)),
       (''eventId'', JString ''e''), (''captureId'', JString ''c1''), (''cameraId'', JString ''cam1''),
       (''correlationId'', JString ''x'')],
     tw_error_code = None, tw_error_message = None, tw_terminal_at_ms = 60\<rparr>"

definition demo_row :: JobRow where
  "demo_row = (new_row (demo_job [1]))\<lparr>state := Persisting, partial_path := Some ''p'', final_path := Some ''f'',
     expected_sha256 := Some ''aa'', expected_bytes := Some 7\<rparr>"

definition demo_db :: catalog where
  "demo_db = empty_catalog\<lparr>jobs := [demo_row]\<rparr>"

lemma demo_db_inv: "catalog_inv demo_db"
  by (simp add: demo_db_def demo_row_def catalog_inv_def ids_unique_def row_ok_def empty_catalog_def new_row_def)

lemma demo_cancel_valid: "validate_terminal_write demo_cancel = Inr ()"
  by (simp add: validate_terminal_write_def demo_cancel_def require_object_def terminal_error_ok_def
      terminal_body_def object_get_def body_str_def)

lemma demo_cancel_fits: "validate_terminal_for_job demo_cancel demo_row = Inr ()"
  by (simp add: validate_terminal_for_job_def demo_cancel_def terminal_body_def object_get_def body_str_def
      demo_row_def new_row_def demo_job_def)

lemma demo_row_simps: "capture_id demo_row = ''c1''" "state demo_row = Persisting" "\<not> install_started demo_row"
  by (simp_all add: demo_row_def new_row_def demo_job_def)

lemma demo_cancel_wins: "\<exists>rec. snd (cancel_job ''c1'' demo_cancel demo_db) = Inr (Won rec)"
proof -
  have "tw_state demo_cancel = Cancelled" by (simp add: demo_cancel_def)
  then show ?thesis
    using demo_cancel_valid demo_cancel_fits
    by (simp add: cancel_job_def terminal_blocking_def commit_def load_job_required_def load_job_def demo_db_def
        select_row_Cons demo_row_simps ok_or_def empty_catalog_def Let_def count_where_def at_job_def unfinished_def
        update_jobs_def update_where_def)
qed

theorem terminal_decided_once_witness:
  "\<exists>rec. terminal_outcome demo_db (CancelJob ''c1'' demo_cancel) = Some (Inr (Won rec)) \<and>
     is_terminal (state (fst rec))"
proof -
  obtain rec where "terminal_outcome demo_db (CancelJob ''c1'' demo_cancel) = Some (Inr (Won rec))"
    using demo_cancel_wins by auto
  then show ?thesis using terminal_decided_once [OF demo_db_inv _ refl] by blast
qed

theorem cancel_xor_install_witness:
  "\<exists>rec. snd (cancel_job ''c1'' demo_cancel demo_db) = Inr (Won rec) \<and>
     (\<forall>rec'. snd (try_begin_install ''c1'' 70 (fst (cancel_job ''c1'' demo_cancel demo_db))) \<noteq> Inr (Started rec'))"
proof -
  obtain rec where w: "snd (cancel_job ''c1'' demo_cancel demo_db) = Inr (Won rec)" using demo_cancel_wins by auto
  have "snd (try_begin_install ''c1'' 70 (foldl (exec_lifecycle (\<lambda>_. OtherCategory))
      (fst (cancel_job ''c1'' demo_cancel demo_db)) [])) \<noteq> Inr (Started rec')" for rec'
    using cancel_xor_install [OF demo_db_inv] w by blast
  then show ?thesis using w by auto
qed

lemma demo_job_valid: "validate_new_job (\<lambda>_. OtherCategory) (demo_job h) False = Inr ()"
  by (simp add: validate_new_job_def demo_job_def demo_key_def demo_object_def require_nonempty_def
      require_object_def check_deadlines_def deadlines_ok_def validate_ledger_key_def validate_request_id_def
      is_continuation_def ensure_def)

lemma demo_accepts: "\<exists>rec. snd (accept_job (\<lambda>_. OtherCategory) (demo_job [1]) empty_catalog) = Inr (JobInserted rec)"
proof -
  have "nj_ledger_key (demo_job [1]) = Some demo_key" "nj_group_id (demo_job [1]) = None"
    "capture_id (new_row (demo_job [1])) = nj_capture_id (demo_job [1])"
    by (simp_all add: demo_job_def new_row_def)
  then show ?thesis
    using demo_job_valid [of "[1]"]
    by (simp add: accept_job_def accept_job_blocking_def commit_def insert_ledger_def insert_and_load_def
        insert_job_def load_ledger_def load_job_required_def load_job_def empty_catalog_def select_row_Cons ok_or_def)
qed

theorem retry_returns_original_witness:
  "\<exists>db'. accept_job (\<lambda>_. OtherCategory) (demo_job [2]) db' = (db', Inr JobConflict)"
proof -
  obtain rec where a: "snd (accept_job (\<lambda>_. OtherCategory) (demo_job [1]) empty_catalog) = Inr (JobInserted rec)"
    using demo_accepts by blast
  have i: "ledger_inv empty_catalog"
    by (simp add: ledger_inv_def keys_unique_def ids_unique_def empty_catalog_def)
  have k: "nj_ledger_key (demo_job h) = Some demo_key" "nj_request_hash (demo_job h) = h" for h
    by (simp_all add: demo_job_def)
  show ?thesis
    using retry_returns_original [OF i a disjI1 [OF refl] k(1) refl demo_job_valid [of "[2]"] k(1),
        of "[QueueJob ''c1'' 11]"]
    by (auto simp: k(2))
qed

definition demo_finished :: catalog where
  "demo_finished = empty_catalog\<lparr>jobs := [demo_row\<lparr>state := Failed, terminal_at_ms := Some 60\<rparr>]\<rparr>"

theorem retention_exact_witness:
  "\<exists>db' k. enforce_result_record_limit 0 5 demo_finished = (db', Inr k) \<and> k \<le> 5"
proof -
  have "\<exists>db' k. enforce_result_record_limit 0 5 demo_finished = (db', Inr k)"
    by (simp add: enforce_result_record_limit_def enforce_result_record_limit_blocking_def commit_def Let_def
        demo_finished_def count_where_def fits_sqlite_integer_def select_limit_def prunable_def ledger_unknown_def
        demo_row_def new_row_def demo_job_def empty_catalog_def delete_job_def drop_occurrences_def delete_where_def)
  then obtain db' k where e: "enforce_result_record_limit 0 5 demo_finished = (db', Inr k)" by blast
  have "ids_unique demo_finished" by (simp add: ids_unique_def demo_finished_def)
  from retention_exact [OF this e] e show ?thesis by blast
qed

section \<open>A successful capture\<close>

definition demo_success :: TerminalWrite where
  "demo_success = demo_cancel\<lparr>tw_state := Succeeded\<rparr>"

definition demo_sha :: string where "demo_sha = replicate 64 (CHR ''a'')"

definition demo_pending :: PendingInstall where
  "demo_pending = \<lparr>pi_partial_path = ''p'', pi_final_path = ''f'', pi_expected_sha256 = demo_sha,
     pi_expected_bytes = 7, pi_success = demo_success, pi_changed_at_ms = 20\<rparr>"

lemma demo_success_ok:
  "validate_terminal_write demo_success = Inr ()" "validate_sha256 l demo_sha = Inr ()"
  by (simp_all add: validate_terminal_write_def demo_success_def demo_cancel_def require_object_def
      terminal_error_ok_def terminal_body_def object_get_def body_str_def validate_sha256_def demo_sha_def
      list_all_iff less_eq_char_def)

lemma demo_success_parts: "tw_state demo_success = Succeeded"
  "\<lparr>tw_state = Succeeded, tw_result = tw_result demo_success, tw_error_code = None, tw_error_message = None,
    tw_terminal_at_ms = tw_terminal_at_ms demo_success\<rparr> = demo_success"
  by (simp_all add: demo_success_def demo_cancel_def)

text \<open>The catalog with one job, its ledger entry and possibly its staged success.\<close>

definition one_job :: "JobRow \<Rightarrow> CommandLedgerRecord list \<Rightarrow> pending_row list \<Rightarrow> catalog" where
  "one_job r ls ps = empty_catalog\<lparr>jobs := [r], command_ledger := ls, pending_success := ps\<rparr>"

lemma one_job_simps [simp]:
  "jobs (one_job r ls ps) = [r]" "command_ledger (one_job r ls ps) = ls" "pending_success (one_job r ls ps) = ps"
  "(one_job r ls ps)\<lparr>jobs := [r']\<rparr> = one_job r' ls ps"
  "(one_job r ls ps)\<lparr>pending_success := ps'\<rparr> = one_job r ls ps'"
  "(one_job r ls ps)\<lparr>command_ledger := ls'\<rparr> = one_job r ls' ps"
  by (simp_all add: one_job_def empty_catalog_def)

lemma one_job_load: "capture_id r = c \<Longrightarrow> load_job_required (one_job r ls ps) c = Inr (r, staged (one_job r ls ps) c)"
  by (simp add: load_job_required_Inr select_row_Cons)

lemma one_job_accept:
  "\<exists>ls. exec_lifecycle (\<lambda>_. OtherCategory) empty_catalog (AcceptJob (demo_job [1])) = one_job (new_row (demo_job [1])) ls []"
proof -
  have "nj_ledger_key (demo_job [1]) = Some demo_key" "nj_group_id (demo_job [1]) = None"
    "capture_id (new_row (demo_job [1])) = nj_capture_id (demo_job [1])"
    by (simp_all add: demo_job_def new_row_def)
  then show ?thesis
    using demo_job_valid [of "[1]"]
    by (simp add: accept_job_def accept_job_blocking_def commit_def insert_ledger_def insert_and_load_def
        insert_job_def load_ledger_def load_job_required_def load_job_def empty_catalog_def select_row_Cons ok_or_def
        one_job_def)
qed

lemma one_job_cas:
  assumes "capture_id r = c" and "state r = a" and "\<not> is_terminal a" and "\<not> is_terminal b"
    and "can_transition_to a b" and "b \<noteq> Persisting"
  shows "exec_lifecycle cat (one_job r ls ps) (CompareAndSet c a b t) =
    one_job (r\<lparr>state := b, updated_at_ms := t, queued_at_ms := (if b = Queued then Some t else queued_at_ms r)\<rparr>) ls ps"
  using assms by (simp add: compare_and_set_state_def cas_state_blocking_def commit_def Let_def update_jobs_def
      update_where_def at_job_def one_job_load)

lemma one_job_stage:
  assumes "capture_id r = ''c1''" and "instance_of r = ''cam1''" and "origin_correlation_id r = None"
    and "job_group_id r = None" and "state r = Acquiring"
  shows "\<exists>ps. exec_lifecycle cat (one_job r ls []) (BeginPersisting ''c1'' demo_pending) =
      one_job (r\<lparr>state := Persisting, updated_at_ms := 20, partial_path := Some ''p'', final_path := Some ''f'',
        expected_sha256 := Some demo_sha, expected_bytes := Some 7\<rparr>) ls ps \<and>
      staged (one_job r' ls' ps) ''c1'' = Some demo_success"
proof -
  have v: "validate_terminal_for_job demo_success r = Inr ()"
    using assms by (simp add: validate_terminal_for_job_def demo_success_def demo_cancel_def terminal_body_def
        object_get_def body_str_def)
  show ?thesis
    by (rule exI [of _ "[\<lparr>pr_capture_id = ''c1'', pr_terminal_result = tw_result demo_success,
          pr_terminal_at_ms = tw_terminal_at_ms demo_success\<rparr>]"])
      (use assms v demo_success_ok in \<open>simp add: begin_persisting_def begin_persisting_blocking_def commit_def Let_def update_jobs_def
        update_where_def at_job_def one_job_load demo_pending_def require_nonempty_def fits_sqlite_integer_def
        count_where_def insert_pending_success_def staged_def select_row_Cons staged_write_def
        demo_success_parts\<close>)
qed

lemma one_job_install:
  assumes "capture_id r = c" and "state r = Persisting" and "\<not> install_started r"
  shows "exec_lifecycle cat (one_job r ls ps) (TryBeginInstall c t) =
    one_job (r\<lparr>install_started := True, updated_at_ms := t\<rparr>) ls ps"
  using assms by (simp add: try_begin_install_def begin_install_blocking_def commit_def Let_def update_jobs_def
      update_where_def at_job_def one_job_load)

lemma one_job_installed:
  assumes "capture_id r = c" and "state r = Persisting" and "install_started r" and "expected_sha256 r = Some demo_sha"
    and "expected_bytes r = Some 7" and "staged (one_job r ls ps) c = Some w"
  shows "exec_lifecycle cat (one_job r ls ps) (RecordInstalled c demo_sha 7 t) =
    one_job (r\<lparr>installed_sha256 := Some demo_sha, installed_bytes := Some 7, updated_at_ms := t\<rparr>) ls ps"
  using assms demo_success_ok
  by (simp add: record_installed_artifact_def record_installed_blocking_def commit_def Let_def update_jobs_def
      update_where_def at_job_def one_job_load fits_sqlite_integer_def count_where_def)

lemma one_job_succeed:
  assumes "capture_id r = ''c1''" and "instance_of r = ''cam1''" and "origin_correlation_id r = None"
    and "job_group_id r = None" and "install_facts r" and "staged (one_job r ls ps) ''c1'' = Some demo_success"
  shows "\<exists>ls' ps'. exec_lifecycle cat (one_job r ls ps) (CommitTerminal ''c1'' demo_success) =
    one_job (finished_row demo_success r) ls' ps'"
proof -
  have v: "validate_terminal_for_job demo_success r = Inr ()"
    using assms by (simp add: validate_terminal_for_job_def demo_success_def demo_cancel_def terminal_body_def
        object_get_def body_str_def)
  have "state r = Persisting" "tw_state demo_success = Succeeded"
    using assms(5) by (simp_all add: install_facts_def demo_success_def)
  then show ?thesis
    using assms v demo_success_ok
    by (simp add: commit_terminal_def terminal_blocking_def commit_def Let_def update_jobs_def
        update_where_def at_job_def one_job_load count_where_def unfinished_def, blast)
qed

definition demo_run :: "(lifecycle_op + retention_op) list" where
  "demo_run = [Inl (AcceptJob (demo_job [1])), Inl (CompareAndSet ''c1'' Accepted Queued 11),
     Inl (CompareAndSet ''c1'' Queued Acquiring 12), Inl (BeginPersisting ''c1'' demo_pending),
     Inl (TryBeginInstall ''c1'' 30), Inl (RecordInstalled ''c1'' demo_sha 7 40),
     Inl (CommitTerminal ''c1'' demo_success)]"

theorem success_is_backed_witness:
  "\<exists>r \<in> set (jobs (foldl (exec_catalog (\<lambda>_. OtherCategory)) empty_catalog demo_run)).
     state r = Succeeded \<and> install_started r \<and> installed_sha256 r = Some demo_sha"
proof -
  let ?c = "\<lambda>_ :: string. OtherCategory"
  have c: "capture_id (new_row (demo_job [1])) = ''c1''" "state (new_row (demo_job [1])) = Accepted"
    "instance_of (new_row (demo_job [1])) = ''cam1''" "origin_correlation_id (new_row (demo_job [1])) = None"
    "job_group_id (new_row (demo_job [1])) = None" "\<not> install_started (new_row (demo_job [1]))"
    by (simp_all add: new_row_def demo_job_def)
  obtain ls where acc: "exec_lifecycle ?c empty_catalog (AcceptJob (demo_job [1])) = one_job (new_row (demo_job [1])) ls []"
    using one_job_accept by blast
  let ?r1 = "(new_row (demo_job [1]))\<lparr>state := Queued, updated_at_ms := 11, queued_at_ms := Some 11\<rparr>"
  let ?r2 = "?r1\<lparr>state := Acquiring, updated_at_ms := 12, queued_at_ms := Some 11\<rparr>"
  let ?r3 = "?r2\<lparr>state := Persisting, updated_at_ms := 20, partial_path := Some ''p'', final_path := Some ''f'',
        expected_sha256 := Some demo_sha, expected_bytes := Some 7\<rparr>"
  let ?r4 = "?r3\<lparr>install_started := True, updated_at_ms := 30\<rparr>"
  let ?r5 = "?r4\<lparr>installed_sha256 := Some demo_sha, installed_bytes := Some 7, updated_at_ms := 40\<rparr>"
  have q: "exec_lifecycle ?c (one_job (new_row (demo_job [1])) ls []) (CompareAndSet ''c1'' Accepted Queued 11) = one_job ?r1 ls []"
    by (subst one_job_cas) (simp_all add: c)
  have a: "exec_lifecycle ?c (one_job ?r1 ls []) (CompareAndSet ''c1'' Queued Acquiring 12) = one_job ?r2 ls []"
    by (subst one_job_cas) (simp_all add: c)
  obtain ps where st: "exec_lifecycle ?c (one_job ?r2 ls []) (BeginPersisting ''c1'' demo_pending) = one_job ?r3 ls ps"
    and pend: "staged (one_job ?r5 ls ps) ''c1'' = Some demo_success"
    using one_job_stage [of ?r2 ?c ls ?r5 ls] c by auto
  have staged_any: "staged (one_job r ls ps) ''c1'' = Some demo_success" for r
    using pend by (simp add: staged_def)
  have i: "exec_lifecycle ?c (one_job ?r3 ls ps) (TryBeginInstall ''c1'' 30) = one_job ?r4 ls ps"
    by (rule one_job_install) (simp_all add: c)
  have d: "exec_lifecycle ?c (one_job ?r4 ls ps) (RecordInstalled ''c1'' demo_sha 7 40) = one_job ?r5 ls ps"
    by (rule one_job_installed) (simp_all add: c staged_any)
  obtain ls' ps' where t: "exec_lifecycle ?c (one_job ?r5 ls ps) (CommitTerminal ''c1'' demo_success) =
      one_job (finished_row demo_success ?r5) ls' ps'"
    using one_job_succeed [of ?r5 ls ps ?c] c staged_any by (auto simp: install_facts_def)
  have run: "foldl (exec_catalog ?c) empty_catalog demo_run = one_job (finished_row demo_success ?r5) ls' ps'"
    unfolding demo_run_def by (simp only: foldl_Nil foldl_Cons exec_catalog.simps acc q a st i d t)
  let ?r = "finished_row demo_success ?r5"
  have r: "?r \<in> set (jobs (foldl (exec_catalog ?c) empty_catalog demo_run))" "state ?r = Succeeded"
    unfolding run by (simp_all add: demo_success_def)
  have "install_started ?r" using success_is_backed r by blast
  moreover have "installed_sha256 ?r = Some demo_sha" by simp
  ultimately show ?thesis using r by blast
qed

end
