(* ===== verification/Encoding.thy ===== *)
theory Encoding
  imports Model Camera_Error
begin

text \<open>
  Bounded streaming encoding (\<open>src/encoding.rs\<close>): a seekable file behind a writer that enforces the
  reserved byte ceiling and observes cancellation, the copy and row loops that feed it, and the
  top-level encoder. The JPEG, PNG and TIFF codecs are parameters that act on the file only through
  that writer. Every observation of the cancellation token and every write to the file happens at a
  tick of a counter kept in the writer; the environment says what is observed at each tick.

  \<open>Write::write_all\<close> of the standard library retries a write that reports
  \<open>ErrorKind::Interrupted\<close>, so it need not return: its result is an option.
\<close>

section \<open>Files and writers\<close>

type_synonym byte = "8 word"

datatype io_error = IoInterrupted | FileTooLarge | WriteZero | OtherIo string

definition io_error_text :: "io_error \<Rightarrow> string" where
  "io_error_text e = (case e of IoInterrupted \<Rightarrow> ''encoding cancelled''
     | FileTooLarge \<Rightarrow> ''encoded image exceeded reserved bytes''
     | WriteZero \<Rightarrow> ''failed to write whole buffer'' | OtherIo m \<Rightarrow> m)"

record io_env =
  token :: "nat \<Rightarrow> bool"
  accepts :: "nat \<Rightarrow> io_error + nat"
  flushes :: "nat \<Rightarrow> bool"

record sink =
  sk_bytes :: "byte list"
  sk_pos :: nat

definition overwrite :: "nat \<Rightarrow> byte list \<Rightarrow> byte list \<Rightarrow> byte list" where
  "overwrite pos xs file = take pos (file @ replicate (pos - length file) 0) @ xs @ drop (pos + length xs) file"

definition sink_write :: "io_env \<Rightarrow> nat \<Rightarrow> byte list \<Rightarrow> sink \<Rightarrow> sink \<times> (io_error + nat)" where
  "sink_write env t buffer f =
     (case accepts env t of
        Inl e \<Rightarrow> (f, Inl e)
      | Inr n \<Rightarrow>
          let k = min n (length buffer) in
          if k = 0 then (f, Inr 0)
          else (\<lparr>sk_bytes = overwrite (sk_pos f) (take k buffer) (sk_bytes f), sk_pos = sk_pos f + k\<rparr>, Inr k))"

datatype SeekFrom = SeekStart nat | SeekEnd int | SeekCurrent int

definition seek_target :: "sink \<Rightarrow> SeekFrom \<Rightarrow> int" where
  "seek_target f p = (case p of SeekStart n \<Rightarrow> int n | SeekEnd d \<Rightarrow> int (length (sk_bytes f)) + d
     | SeekCurrent d \<Rightarrow> int (sk_pos f) + d)"

definition sink_seek :: "SeekFrom \<Rightarrow> sink \<Rightarrow> sink \<times> (io_error + nat)" where
  "sink_seek p f =
     (if seek_target f p < 0 then (f, Inl (OtherIo ''invalid seek''))
      else (f\<lparr>sk_pos := nat (seek_target f p)\<rparr>, Inr (nat (seek_target f p))))"

datatype WriteViolation = ViolationCancelled | ViolationLimit

definition violation_error :: "WriteViolation \<Rightarrow> camera_error" where
  "violation_error v = (case v of
     ViolationCancelled \<Rightarrow> Rejected CaptureCancelled ''capture cancelled during encoding''
   | ViolationLimit \<Rightarrow> Rejected ResourceLimit ''encoded image exceeded its reserved byte ceiling'')"

record BoundedWriter =
  bw_inner :: sink
  bw_maximum :: nat
  bw_position :: nat
  bw_high_water :: nat
  bw_violation :: "WriteViolation option"
  bw_ticks :: nat

definition bounded_new :: "sink \<Rightarrow> nat \<Rightarrow> nat \<Rightarrow> BoundedWriter" where
  "bounded_new f maximum ticks = \<lparr>bw_inner = f, bw_maximum = maximum, bw_position = 0, bw_high_water = 0,
     bw_violation = None, bw_ticks = ticks\<rparr>"

text \<open>The token as the writer sees it at its current tick.\<close>

definition observes_cancel :: "io_env \<Rightarrow> BoundedWriter \<Rightarrow> bool" where
  "observes_cancel env w = token env (bw_ticks w)"

definition tick :: "BoundedWriter \<Rightarrow> BoundedWriter" where
  "tick w = w\<lparr>bw_ticks := Suc (bw_ticks w)\<rparr>"

text \<open>\<open>position\<close> and \<open>high_water\<close> are \<open>u64\<close>; the checked addition fails beyond it.\<close>

definition bounded_write :: "io_env \<Rightarrow> byte list \<Rightarrow> BoundedWriter \<Rightarrow> BoundedWriter \<times> (io_error + nat)" where
  "bounded_write env buffer w =
     (let w1 = tick w in
      if observes_cancel env w then (w1\<lparr>bw_violation := Some ViolationCancelled\<rparr>, Inl IoInterrupted)
      else if u64_max < bw_position w + length buffer \<or> bw_maximum w < bw_position w + length buffer
      then (w1\<lparr>bw_violation := Some ViolationLimit\<rparr>, Inl FileTooLarge)
      else
        (case sink_write env (bw_ticks w) buffer (bw_inner w) of
           (f, Inl e) \<Rightarrow> (w1\<lparr>bw_inner := f\<rparr>, Inl e)
         | (f, Inr written) \<Rightarrow>
             (w1\<lparr>bw_inner := f, bw_position := bw_position w + written,
                 bw_high_water := max (bw_high_water w) (bw_position w + written)\<rparr>, Inr written)))"

definition bounded_seek :: "io_env \<Rightarrow> SeekFrom \<Rightarrow> BoundedWriter \<Rightarrow> BoundedWriter \<times> (io_error + nat)" where
  "bounded_seek env p w =
     (let w1 = tick w in
      if observes_cancel env w then (w1\<lparr>bw_violation := Some ViolationCancelled\<rparr>, Inl IoInterrupted)
      else
        (case sink_seek p (bw_inner w) of
           (f, Inl e) \<Rightarrow> (w1\<lparr>bw_inner := f\<rparr>, Inl e)
         | (f, Inr pos) \<Rightarrow>
             if bw_maximum w < pos
             then (w1\<lparr>bw_inner := f, bw_violation := Some ViolationLimit\<rparr>, Inl FileTooLarge)
             else (w1\<lparr>bw_inner := f, bw_position := pos\<rparr>, Inr pos)))"

definition bounded_flush :: "io_env \<Rightarrow> BoundedWriter \<Rightarrow> io_error + unit" where
  "bounded_flush env w = (if flushes env (bw_ticks w) then Inr () else Inl (OtherIo ''flush failed''))"

text \<open>\<open>Write::write_all\<close> over any \<open>write\<close>.\<close>

partial_function (option) write_all ::
    "(byte list \<Rightarrow> 'w \<Rightarrow> 'w \<times> (io_error + nat)) \<Rightarrow> byte list \<Rightarrow> 'w \<Rightarrow> ('w \<times> (io_error + unit)) option" where
  "write_all wr buffer w =
     (if buffer = [] then Some (w, Inr ())
      else
        (case wr buffer w of
           (w', Inr n) \<Rightarrow> if n = 0 then Some (w', Inl WriteZero) else write_all wr (drop n buffer) w'
         | (w', Inl e) \<Rightarrow> if e = IoInterrupted then write_all wr buffer w' else Some (w', Inl e)))"

section \<open>Copy and row loops\<close>

definition STREAM_CHUNK_BYTES :: nat where "STREAM_CHUNK_BYTES = 64 * 1024"

function chunks :: "nat \<Rightarrow> 'a list \<Rightarrow> 'a list list" where
  "chunks n xs = (if n = 0 \<or> xs = [] then [] else take n xs # chunks n (drop n xs))"
  by pat_completeness auto
termination by (relation "measure (\<lambda>(n, xs). length xs)") auto

declare chunks.simps [simp del]

definition chunks_exact :: "nat \<Rightarrow> 'a list \<Rightarrow> 'a list list" where
  "chunks_exact n xs = filter (\<lambda>c. length c = n) (chunks n xs)"

text \<open>The loops run over any writer \<open>'w\<close> that counts observations of the token through \<open>obs\<close>.\<close>

fun stream_chunks ::
    "('w \<Rightarrow> 'w \<times> bool) \<Rightarrow> (byte list \<Rightarrow> 'w \<Rightarrow> ('w \<times> (io_error + unit)) option) \<Rightarrow> byte list list \<Rightarrow> 'w \<Rightarrow>
     ('w \<times> (io_error + unit)) option" where
  "stream_chunks obs put [] w = Some (w, Inr ())"
| "stream_chunks obs put (c # cs) w =
     (case obs w of
        (w1, True) \<Rightarrow> Some (w1, Inl IoInterrupted)
      | (w1, False) \<Rightarrow>
          (case put c w1 of
             None \<Rightarrow> None
           | Some (w2, Inl e) \<Rightarrow> Some (w2, Inl e)
           | Some (w2, Inr _) \<Rightarrow> stream_chunks obs put cs w2))"

definition bounded_observe :: "io_env \<Rightarrow> BoundedWriter \<Rightarrow> BoundedWriter \<times> bool" where
  "bounded_observe env w = (tick w, observes_cancel env w)"

definition stream_copy :: "io_env \<Rightarrow> byte list \<Rightarrow> BoundedWriter \<Rightarrow> (BoundedWriter \<times> (io_error + unit)) option" where
  "stream_copy env bytes w =
     stream_chunks (bounded_observe env) (write_all (bounded_write env)) (chunks STREAM_CHUNK_BYTES bytes) w"

fun swap_pixel :: "byte list \<Rightarrow> byte list" where
  "swap_pixel [b, g, r] = [r, g, b]"
| "swap_pixel p = p"

definition bgr_to_rgb :: "byte list \<Rightarrow> byte list" where
  "bgr_to_rgb source = concat (map swap_pixel (chunks_exact 3 source))"

definition bgr_rows :: "CaptureFrame \<Rightarrow> byte list list" where
  "bgr_rows frame = map bgr_to_rgb (chunks_exact (unat (cf_width frame) * 3) (cf_bytes frame))"

text \<open>\<open>BgrView::get_pixel\<close>: the JPEG encoder reads pixels, not rows.\<close>

definition bgr_pixel :: "byte list \<Rightarrow> nat \<Rightarrow> nat \<Rightarrow> nat \<Rightarrow> byte list" where
  "bgr_pixel bytes width x y =
     (let offset = (y * width + x) * 3 in [bytes ! (offset + 2), bytes ! (offset + 1), bytes ! offset])"

section \<open>Codecs\<close>

text \<open>A codec owns the writer while it runs; its own buffers are of type \<open>'c\<close>.\<close>

datatype color = Grayscale | Rgb24

type_synonym 'c coded = "('c \<times> BoundedWriter \<times> (string + unit)) option"

record 'c stream_codec =
  sc_open :: "io_env \<Rightarrow> color \<Rightarrow> 32 word \<Rightarrow> 32 word \<Rightarrow> BoundedWriter \<Rightarrow> 'c coded"
  sc_row :: "io_env \<Rightarrow> byte list \<Rightarrow> 'c \<Rightarrow> BoundedWriter \<Rightarrow> 'c coded"
  sc_close :: "io_env \<Rightarrow> 'c \<Rightarrow> BoundedWriter \<Rightarrow> 'c coded"

record ('p, 't) codecs =
  jpeg_decoder :: "byte list \<Rightarrow> string + 32 word \<times> 32 word"
  jpeg_pixels :: "io_env \<Rightarrow> color \<Rightarrow> byte list \<Rightarrow> 32 word \<Rightarrow> 32 word \<Rightarrow> 8 word \<Rightarrow> BoundedWriter \<Rightarrow> unit coded"
  jpeg_view :: "io_env \<Rightarrow> (nat \<Rightarrow> nat \<Rightarrow> byte list) \<Rightarrow> 32 word \<Rightarrow> 32 word \<Rightarrow> 8 word \<Rightarrow> BoundedWriter \<Rightarrow> unit coded"
  png_codec :: "'p stream_codec"
  tiff_codec :: "'t stream_codec"

definition coded_then :: "'c coded \<Rightarrow> ('c \<Rightarrow> BoundedWriter \<Rightarrow> 'c coded) \<Rightarrow> 'c coded" where
  "coded_then r k = (case r of None \<Rightarrow> None | Some (c, w, Inl e) \<Rightarrow> Some (c, w, Inl e) | Some (c, w, Inr _) \<Rightarrow> k c w)"

fun feed_rows :: "'c stream_codec \<Rightarrow> io_env \<Rightarrow> byte list list \<Rightarrow> 'c \<Rightarrow> BoundedWriter \<Rightarrow> 'c coded" where
  "feed_rows sc env [] c w = Some (c, w, Inr ())"
| "feed_rows sc env (row # rows) c w =
     (if observes_cancel env w then Some (c, tick w, Inl ''encoding cancelled'')
      else coded_then (sc_row sc env row c (tick w)) (feed_rows sc env rows))"

definition run_codec ::
    "'c stream_codec \<Rightarrow> io_env \<Rightarrow> color \<Rightarrow> CaptureFrame \<Rightarrow> byte list list \<Rightarrow> BoundedWriter \<Rightarrow> 'c coded" where
  "run_codec sc env col frame rows w =
     coded_then (sc_open sc env col (cf_width frame) (cf_height frame) w) (\<lambda>c w1.
     coded_then (feed_rows sc env rows c w1) (sc_close sc env))"

definition written :: "'c coded \<Rightarrow> (BoundedWriter \<times> (string + unit)) option" where
  "written r = map_option (\<lambda>(_, w, x). (w, x)) r"

definition encode_jpeg ::
    "('p, 't) codecs \<Rightarrow> io_env \<Rightarrow> CaptureFrame \<Rightarrow> 8 word \<Rightarrow> BoundedWriter \<Rightarrow> (BoundedWriter \<times> (string + unit)) option" where
  "encode_jpeg cs env frame quality w = written
     (case cf_pixel_format frame of
        Mono8 \<Rightarrow> jpeg_pixels cs env Grayscale (cf_bytes frame) (cf_width frame) (cf_height frame) quality w
      | Rgb8 \<Rightarrow> jpeg_pixels cs env Rgb24 (cf_bytes frame) (cf_width frame) (cf_height frame) quality w
      | Bgr8 \<Rightarrow> jpeg_view cs env (bgr_pixel (cf_bytes frame) (unat (cf_width frame)))
                  (cf_width frame) (cf_height frame) quality w
      | Px_Jpeg \<Rightarrow> None)"

definition encode_png ::
    "('p, 't) codecs \<Rightarrow> io_env \<Rightarrow> CaptureFrame \<Rightarrow> BoundedWriter \<Rightarrow> (BoundedWriter \<times> (string + unit)) option" where
  "encode_png cs env frame w = written
     (case cf_pixel_format frame of
        Mono8 \<Rightarrow> run_codec (png_codec cs) env Grayscale frame (chunks STREAM_CHUNK_BYTES (cf_bytes frame)) w
      | Rgb8 \<Rightarrow> run_codec (png_codec cs) env Rgb24 frame (chunks STREAM_CHUNK_BYTES (cf_bytes frame)) w
      | Bgr8 \<Rightarrow> run_codec (png_codec cs) env Rgb24 frame (bgr_rows frame) w
      | Px_Jpeg \<Rightarrow> None)"

definition encode_tiff ::
    "('p, 't) codecs \<Rightarrow> io_env \<Rightarrow> CaptureFrame \<Rightarrow> BoundedWriter \<Rightarrow> (BoundedWriter \<times> (string + unit)) option" where
  "encode_tiff cs env frame w = written
     (case cf_pixel_format frame of
        Mono8 \<Rightarrow> run_codec (tiff_codec cs) env Grayscale frame (chunks_exact (unat (cf_width frame)) (cf_bytes frame)) w
      | Rgb8 \<Rightarrow> run_codec (tiff_codec cs) env Rgb24 frame (chunks_exact (unat (cf_width frame) * 3) (cf_bytes frame)) w
      | Bgr8 \<Rightarrow> run_codec (tiff_codec cs) env Rgb24 frame (bgr_rows frame) w
      | Px_Jpeg \<Rightarrow> None)"

section \<open>Encoding a frame\<close>

record EncodingRequest =
  er_encoding :: OutputEncoding
  er_jpeg_quality :: "8 word"
  er_maximum_output_bytes :: u64

record EncodedImage =
  ei_encoding :: OutputEncoding
  ei_extension :: string
  ei_content_type :: string
  ei_bytes :: nat

definition unsupported :: "string \<Rightarrow> 'a result" where
  "unsupported message = Inl (Rejected UnsupportedPixelFormat message)"

fun pixel_name :: "PixelFormat \<Rightarrow> string" where
  "pixel_name Mono8 = ''Mono8''"
| "pixel_name Rgb8 = ''RGB8''"
| "pixel_name Bgr8 = ''BGR8''"
| "pixel_name Px_Jpeg = ''JPEG''"

definition show_dimensions :: "32 word \<times> 32 word \<Rightarrow> string" where
  "show_dimensions dims = show_nat (unat (fst dims)) @ ''x'' @ show_nat (unat (snd dims))"

definition validate_jpeg :: "('p, 't) codecs \<Rightarrow> CaptureFrame \<Rightarrow> unit result" where
  "validate_jpeg cs frame =
     (case jpeg_decoder cs (cf_bytes frame) of
        Inl e \<Rightarrow> unsupported (''declared JPEG is not decodable: '' @ e)
      | Inr dims \<Rightarrow> if dims \<noteq> (cf_width frame, cf_height frame)
                   then unsupported (''declared JPEG dimensions are '' @ show_dimensions dims @ '', not '' @
                          show_dimensions (cf_width frame, cf_height frame))
                   else Inr ())"

definition validate_frame :: "('p, 't) codecs \<Rightarrow> CaptureFrame \<Rightarrow> unit result" where
  "validate_frame cs frame =
     (if cf_width frame = 0 \<or> cf_height frame = 0 \<or> cf_bytes frame = []
      then unsupported ''frame dimensions and bytes must be non-empty''
      else if cf_pixel_format frame \<noteq> Px_Jpeg
      then (case uncompressed_len (cf_pixel_format frame) (cf_width frame) (cf_height frame) of
              None \<Rightarrow> unsupported ''uncompressed frame dimensions overflow the byte-count domain''
            | Some expected \<Rightarrow>
                if unat expected \<noteq> length (cf_bytes frame)
                then unsupported (pixel_name (cf_pixel_format frame) @ '' frame length is '' @
                       show_nat (length (cf_bytes frame)) @ '', expected '' @ show_nat (unat expected) @
                       '' for '' @ show_dimensions (cf_width frame, cf_height frame))
                else Inr ())
      else validate_jpeg cs frame)"

definition output_identity :: "PixelFormat \<Rightarrow> OutputEncoding \<Rightarrow> (string \<times> string) result" where
  "output_identity source out =
     (case out of
        Passthrough \<Rightarrow> if source = Px_Jpeg then Inr (''jpg'', ''image/jpeg'')
          else unsupported ''passthrough requires a declared complete JPEG source''
      | Out_Jpeg \<Rightarrow> if source \<noteq> Px_Jpeg then Inr (''jpg'', ''image/jpeg'')
          else unsupported ''JPEG source bytes require passthrough; JPEG quality is never silently ignored''
      | Png \<Rightarrow> if source \<noteq> Px_Jpeg then Inr (''png'', ''image/png'')
          else unsupported ''PNG output requires Mono8, RGB8, or BGR8 source pixels''
      | Tiff \<Rightarrow> if source \<noteq> Px_Jpeg then Inr (''tiff'', ''image/tiff'')
          else unsupported ''TIFF output requires Mono8, RGB8, or BGR8 source pixels''
      | Raw \<Rightarrow> Inr (''raw'', ''application/octet-stream''))"

definition encode_body ::
    "('p, 't) codecs \<Rightarrow> io_env \<Rightarrow> CaptureFrame \<Rightarrow> EncodingRequest \<Rightarrow> BoundedWriter \<Rightarrow>
     (BoundedWriter \<times> (string + unit)) option" where
  "encode_body cs env frame request w =
     (case er_encoding request of
        Out_Jpeg \<Rightarrow> encode_jpeg cs env frame (er_jpeg_quality request) w
      | Png \<Rightarrow> encode_png cs env frame w
      | Tiff \<Rightarrow> encode_tiff cs env frame w
      | _ \<Rightarrow> map_option (\<lambda>(w', r). (w', case r of Inl e \<Rightarrow> Inl (io_error_text e) | Inr u \<Rightarrow> Inr u))
             (stream_copy env (cf_bytes frame) w))"

definition encode_finish ::
    "io_env \<Rightarrow> EncodingRequest \<Rightarrow> string \<times> string \<Rightarrow> BoundedWriter \<Rightarrow> string + unit \<Rightarrow> EncodedImage result" where
  "encode_finish env request identity w encoded =
     (case bw_violation w of
        Some v \<Rightarrow> Inl (violation_error v)
      | None \<Rightarrow>
          if observes_cancel env w then Inl (Rejected CaptureCancelled ''capture cancelled during encoding'')
          else (case encoded of
             Inl e \<Rightarrow> Inl (StorageError (''image encoding failed: '' @ e))
           | Inr _ \<Rightarrow>
               (case bounded_flush env w of
                  Inl e \<Rightarrow> Inl (StorageError (''partial-file flush failed: '' @ io_error_text e))
                | Inr _ \<Rightarrow> Inr \<lparr>ei_encoding = er_encoding request, ei_extension = fst identity,
                     ei_content_type = snd identity, ei_bytes = bw_high_water w\<rparr>)))"

definition encode_to ::
    "('p, 't) codecs \<Rightarrow> io_env \<Rightarrow> CaptureFrame \<Rightarrow> EncodingRequest \<Rightarrow> sink \<Rightarrow> nat \<Rightarrow>
     (sink \<times> EncodedImage result) option" where
  "encode_to cs env frame request f ticks =
     (case and_then (validate_frame cs frame) (\<lambda>_.
           and_then (ensure (er_maximum_output_bytes request \<noteq> 0)
             (Rejected ResourceLimit ''maximum output bytes must be positive'')) (\<lambda>_.
           and_then (ensure (1 \<le> er_jpeg_quality request \<and> er_jpeg_quality request \<le> 100)
             (Rejected BadArgs ''JPEG quality must be between 1 and 100'')) (\<lambda>_.
           and_then (ensure (\<not> token env ticks)
             (Rejected CaptureCancelled ''capture cancelled before encoding completed'')) (\<lambda>_.
             output_identity (cf_pixel_format frame) (er_encoding request))))) of
        Inl e \<Rightarrow> Some (f, Inl e)
      | Inr identity \<Rightarrow>
          map_option (\<lambda>(w, r). (bw_inner w, encode_finish env request identity w r))
            (encode_body cs env frame request
               (bounded_new f (unat (er_maximum_output_bytes request)) (Suc ticks))))"

section \<open>What a codec can do to the file\<close>

inductive writer_steps :: "io_env \<Rightarrow> BoundedWriter \<Rightarrow> BoundedWriter \<Rightarrow> bool" for env where
  idle: "writer_steps env w w"
| observe: "writer_steps env (tick w) w' \<Longrightarrow> writer_steps env w w'"
| put: "writer_steps env (fst (bounded_write env buffer w)) w' \<Longrightarrow> writer_steps env w w'"
| seek: "writer_steps env (fst (bounded_seek env p w)) w' \<Longrightarrow> writer_steps env w w'"

lemma writer_steps_trans: "writer_steps env a b \<Longrightarrow> writer_steps env b c \<Longrightarrow> writer_steps env a c"
  by (induction rule: writer_steps.induct) (auto intro: writer_steps.intros)

definition stage_honest :: "io_env \<Rightarrow> (BoundedWriter \<Rightarrow> 'c coded) \<Rightarrow> bool" where
  "stage_honest env f \<longleftrightarrow> (\<forall>w c w' r. f w = Some (c, w', r) \<longrightarrow> writer_steps env w w')"

text \<open>A codec that is given the writer as \<open>W: Write + Seek\<close> can do nothing to it but write and seek.\<close>

definition codec_honest :: "'c stream_codec \<Rightarrow> bool" where
  "codec_honest sc \<longleftrightarrow> (\<forall>env. (\<forall>col x y. stage_honest env (sc_open sc env col x y)) \<and>
     (\<forall>row c. stage_honest env (sc_row sc env row c)) \<and> (\<forall>c. stage_honest env (sc_close sc env c)))"

definition codecs_honest :: "('p, 't) codecs \<Rightarrow> bool" where
  "codecs_honest cs \<longleftrightarrow> codec_honest (png_codec cs) \<and> codec_honest (tiff_codec cs) \<and>
     (\<forall>env col bytes x y q. stage_honest env (jpeg_pixels cs env col bytes x y q)) \<and>
     (\<forall>env view x y q. stage_honest env (jpeg_view cs env view x y q))"

lemma write_all_rule:
  fixes wr :: "byte list \<Rightarrow> 'w \<Rightarrow> 'w \<times> (io_error + nat)"
  assumes returns: "write_all wr buffer w = Some (w', r)"
    and finished: "\<And>w. P [] w w (Inr ())"
    and retried: "\<And>buffer w w1 w' r. buffer \<noteq> [] \<Longrightarrow> wr buffer w = (w1, Inl IoInterrupted) \<Longrightarrow>
      P buffer w1 w' r \<Longrightarrow> P buffer w w' r"
    and failed: "\<And>buffer w w1 e. buffer \<noteq> [] \<Longrightarrow> wr buffer w = (w1, Inl e) \<Longrightarrow> e \<noteq> IoInterrupted \<Longrightarrow>
      P buffer w w1 (Inl e)"
    and stuck: "\<And>buffer w w1. buffer \<noteq> [] \<Longrightarrow> wr buffer w = (w1, Inr 0) \<Longrightarrow> P buffer w w1 (Inl WriteZero)"
    and advanced: "\<And>buffer w w1 n w' r. buffer \<noteq> [] \<Longrightarrow> wr buffer w = (w1, Inr n) \<Longrightarrow> n \<noteq> 0 \<Longrightarrow>
      P (drop n buffer) w1 w' r \<Longrightarrow> P buffer w w' r"
  shows "P buffer w w' r"
proof -
  let ?P = "\<lambda>v b w res. v = wr \<longrightarrow> P b w (fst res) (snd res)"
  have "?P wr buffer w (w', r)"
  proof (rule write_all.raw_induct [OF _ returns, where P = ?P])
    fix f :: "(byte list \<Rightarrow> 'w \<Rightarrow> 'w \<times> (io_error + nat)) \<Rightarrow> byte list \<Rightarrow> 'w \<Rightarrow> ('w \<times> (io_error + unit)) option"
      and v b w res
    assume IH: "\<And>v b w res. f v b w = Some res \<Longrightarrow> ?P v b w res"
      and eq: "(if b = [] then Some (w, Inr ()) else case v b w of
          (w', Inl e) \<Rightarrow> if e = IoInterrupted then f v b w' else Some (w', Inl e)
        | (w', Inr n) \<Rightarrow> if n = 0 then Some (w', Inl WriteZero) else f v (drop n b) w') = Some res"
    show "?P v b w res"
    proof
      assume v: "v = wr"
      show "P b w (fst res) (snd res)"
      proof (cases "b = []")
        case True
        then show ?thesis using eq finished by auto
      next
        case False
        obtain w1 x where wx: "wr b w = (w1, x)" by fastforce
        show ?thesis
        proof (cases x)
          case (Inl e)
          then show ?thesis using eq False wx v IH [of v b w1 res] retried failed by (auto split: if_splits)
        next
          case (Inr n)
          then show ?thesis using eq False wx v IH [of v "drop n b" w1 res] stuck advanced by (auto split: if_splits)
        qed
      qed
    qed
  qed
  then show ?thesis by simp
qed

text \<open>What a write and a look at the token keep, copying keeps.\<close>

lemma write_all_keeps:
  assumes "\<And>w. R w w" and "\<And>a b c. R a b \<Longrightarrow> R b c \<Longrightarrow> R a c" and "\<And>buffer w. R w (fst (bounded_write env buffer w))"
  shows "write_all (bounded_write env) buffer w = Some (w', r) \<Longrightarrow> R w w'"
proof (erule write_all_rule [where P = "\<lambda>b w w' r. R w w'"])
  show "R w w" for w by (rule assms(1))
qed (metis fst_conv assms(2,3))+

lemma stream_chunks_keeps:
  assumes "\<And>w. R w w" and "\<And>a b c. R a b \<Longrightarrow> R b c \<Longrightarrow> R a c" and "\<And>buffer w. R w (fst (bounded_write env buffer w))"
    and "\<And>w. R w (tick w)"
  shows "stream_chunks (bounded_observe env) (write_all (bounded_write env)) cs w = Some (w', r) \<Longrightarrow> R w w'"
proof (induction cs arbitrary: w)
  case (Cons c cs)
  show ?case
  proof (cases "observes_cancel env w")
    case True
    then show ?thesis using Cons.prems assms(4) by (auto simp: bounded_observe_def)
  next
    case False
    then obtain w1 r1 where p: "write_all (bounded_write env) c (tick w) = Some (w1, r1)"
      using Cons.prems by (auto simp: bounded_observe_def split: option.splits)
    have step: "R w w1" using assms(2) [OF assms(4) write_all_keeps [of R, OF assms(1-3) p]] .
    show ?thesis
    proof (cases r1)
      case (Inl e)
      then show ?thesis using step p False Cons.prems by (simp add: bounded_observe_def)
    next
      case (Inr u)
      then have "stream_chunks (bounded_observe env) (write_all (bounded_write env)) cs w1 = Some (w', r)"
        using p False Cons.prems by (simp add: bounded_observe_def [abs_def])
      then show ?thesis using Cons.IH assms(2) [OF step] by blast
    qed
  qed
qed (use assms(1) in auto)

lemma stream_chunks_steps:
  "stream_chunks (bounded_observe env) (write_all (bounded_write env)) cs w = Some (w', r) \<Longrightarrow> writer_steps env w w'"
  by (rule stream_chunks_keeps [of "writer_steps env"])
    (blast intro: writer_steps.intros writer_steps_trans)+

lemma coded_then_steps:
  assumes "coded_then (f w) k = Some (c', w', r)" and "stage_honest env f" and "\<And>c. stage_honest env (k c)"
  shows "writer_steps env w w'"
proof (cases "f w")
  case (Some x)
  obtain c1 w1 r1 where x: "x = (c1, w1, r1)" by (cases x)
  have step: "writer_steps env w w1" using assms(2) Some x unfolding stage_honest_def by blast
  show ?thesis
  proof (cases r1)
    case (Inr u)
    then have "k c1 w1 = Some (c', w', r)" using assms(1) Some x by (simp add: coded_then_def)
    then show ?thesis using assms(3) step writer_steps_trans unfolding stage_honest_def by blast
  qed (use assms(1) Some x step in \<open>simp add: coded_then_def\<close>)
qed (use assms(1) in \<open>simp add: coded_then_def\<close>)

lemma feed_rows_honest:
  assumes "codec_honest sc" shows "stage_honest env (feed_rows sc env rows c)"
proof (induction rows arbitrary: c)
  case Nil
  show ?case by (auto simp: stage_honest_def intro: writer_steps.idle)
next
  case (Cons row rows)
  have row: "stage_honest env (sc_row sc env row c)" using assms by (simp add: codec_honest_def)
  have "writer_steps env w w'" if r: "feed_rows sc env (row # rows) c w = Some (c', w', r)" for w c' w' r
  proof (cases "observes_cancel env w")
    case True
    then show ?thesis using r by (auto intro: writer_steps.intros)
  next
    case False
    then have "coded_then (sc_row sc env row c (tick w)) (feed_rows sc env rows) = Some (c', w', r)" using r by simp
    from coded_then_steps [OF this row Cons.IH] show ?thesis by (rule writer_steps.observe)
  qed
  then show ?case unfolding stage_honest_def by blast
qed

lemma run_codec_steps:
  assumes "codec_honest sc" and "run_codec sc env col frame rows w = Some (c, w', r)"
  shows "writer_steps env w w'"
proof -
  have o: "stage_honest env (sc_open sc env col (cf_width frame) (cf_height frame))"
    and cl: "stage_honest env (sc_close sc env d)" for d
    using assms(1) by (simp_all add: codec_honest_def)
  have "stage_honest env (\<lambda>w1. coded_then (feed_rows sc env rows d w1) (sc_close sc env))" for d
    unfolding stage_honest_def
    using coded_then_steps [where k = "sc_close sc env", OF _ feed_rows_honest [OF assms(1)] cl] by blast
  from coded_then_steps [OF assms(2) [unfolded run_codec_def] o this] show ?thesis .
qed

lemma written_Some: "written r = Some (w, x) \<Longrightarrow> \<exists>c. r = Some (c, w, x)"
  by (auto simp: written_def)

lemma encode_body_steps:
  assumes "codecs_honest cs" and "encode_body cs env frame request w = Some (w', r)"
  shows "writer_steps env w w'"
proof -
  have png: "codec_honest (png_codec cs)" and tiff: "codec_honest (tiff_codec cs)"
    and px: "stage_honest env (jpeg_pixels cs env col bytes x y q)"
    and vw: "stage_honest env (jpeg_view cs env view x y q)" for col bytes view x y q
    using assms(1) by (simp_all add: codecs_honest_def)
  show ?thesis
  proof (cases "er_encoding request")
    case Out_Jpeg
    then show ?thesis using assms(2) px vw
      unfolding encode_body_def encode_jpeg_def stage_honest_def
      by (cases "cf_pixel_format frame") (simp_all add: written_def, blast+)
  next
    case Png
    then show ?thesis using assms(2)
      by (auto simp: encode_body_def encode_png_def split: PixelFormat.splits dest!: written_Some
          intro: run_codec_steps [OF png])
  next
    case Tiff
    then show ?thesis using assms(2)
      by (auto simp: encode_body_def encode_tiff_def split: PixelFormat.splits dest!: written_Some
          intro: run_codec_steps [OF tiff])
  qed (use assms(2) in \<open>auto simp: encode_body_def stream_copy_def dest: stream_chunks_steps\<close>)
qed

section \<open>The byte ceiling\<close>

definition bw_ok :: "BoundedWriter \<Rightarrow> bool" where
  "bw_ok w \<longleftrightarrow> (bw_violation w = None \<longrightarrow> sk_pos (bw_inner w) = bw_position w \<and>
     bw_position w \<le> bw_maximum w \<and> length (sk_bytes (bw_inner w)) \<le> bw_high_water w \<and>
     bw_high_water w \<le> bw_maximum w)"

lemma length_overwrite [simp]: "length (overwrite pos xs file) = max (length file) (pos + length xs)"
  by (auto simp: overwrite_def)

lemma tick_simps [simp]:
  "bw_inner (tick w) = bw_inner w" "bw_maximum (tick w) = bw_maximum w" "bw_position (tick w) = bw_position w"
  "bw_high_water (tick w) = bw_high_water w" "bw_violation (tick w) = bw_violation w"
  "bw_ticks (tick w) = Suc (bw_ticks w)"
  by (simp_all add: tick_def)

lemma sink_write_ok:
  assumes "sink_write env t buffer f = (f', Inr n)"
  shows "n \<le> length buffer \<and> sk_pos f' = sk_pos f + n \<and>
    length (sk_bytes f') = (if n = 0 then length (sk_bytes f) else max (length (sk_bytes f)) (sk_pos f + n))"
  using assms by (auto simp: sink_write_def Let_def min_def split: sum.splits if_splits)

lemma sink_write_error: "sink_write env t buffer f = (f', Inl e) \<Longrightarrow> f' = f"
  by (auto simp: sink_write_def Let_def split: sum.splits if_splits)

lemma bounded_write_ok:
  assumes "bw_ok w" shows "bw_ok (fst (bounded_write env buffer w))"
proof -
  obtain f x where s: "sink_write env (bw_ticks w) buffer (bw_inner w) = (f, x)" by fastforce
  show ?thesis
  proof (cases x)
    case (Inl e)
    then show ?thesis using assms s sink_write_error [of env "bw_ticks w" buffer "bw_inner w" f e]
      by (simp add: bounded_write_def bw_ok_def Let_def)
  next
    case (Inr n)
    then show ?thesis using assms s sink_write_ok [of env "bw_ticks w" buffer "bw_inner w" f n]
      by (auto simp: bounded_write_def bw_ok_def Let_def split: if_splits)
  qed
qed

lemma bounded_seek_ok: "bw_ok w \<Longrightarrow> bw_ok (fst (bounded_seek env p w))"
  by (auto simp: bounded_seek_def sink_seek_def bw_ok_def Let_def)

lemma bounded_maximum [simp]:
  "bw_maximum (fst (bounded_write env buffer w)) = bw_maximum w"
  "bw_maximum (fst (bounded_seek env p w)) = bw_maximum w"
  by (auto simp: bounded_write_def bounded_seek_def Let_def split: prod.splits sum.splits)

lemma writer_steps_ok: "writer_steps env w w' \<Longrightarrow> bw_ok w \<Longrightarrow> bw_ok w' \<and> bw_maximum w' = bw_maximum w"
proof (induction rule: writer_steps.induct)
  case (observe w w')
  have "bw_ok (tick w)" using observe.prems by (simp add: bw_ok_def)
  then show ?case using observe.IH by simp
qed (simp_all add: bounded_write_ok bounded_seek_ok)

text \<open>A writer that was never asked to seek stays within its ceiling whatever goes wrong.\<close>

definition bw_within :: "BoundedWriter \<Rightarrow> bool" where
  "bw_within w \<longleftrightarrow> sk_pos (bw_inner w) = bw_position w \<and> bw_position w \<le> bw_maximum w \<and>
     length (sk_bytes (bw_inner w)) \<le> bw_maximum w"

lemma bounded_write_within:
  assumes "bw_within w" shows "bw_within (fst (bounded_write env buffer w))"
proof -
  obtain f x where s: "sink_write env (bw_ticks w) buffer (bw_inner w) = (f, x)" by fastforce
  show ?thesis
    using assms s sink_write_error [of env "bw_ticks w" buffer "bw_inner w" f] sink_write_ok [of env "bw_ticks w" buffer "bw_inner w" f]
    by (cases x) (fastforce simp: bounded_write_def bw_within_def Let_def split: if_splits)+
qed

lemma stream_within:
  assumes "stream_copy env bytes w = Some (w', r)" and "bw_within w"
  shows "bw_within w' \<and> bw_maximum w' = bw_maximum w"
proof -
  have "bw_within w \<longrightarrow> bw_within w' \<and> bw_maximum w' = bw_maximum w"
    using assms(1) unfolding stream_copy_def
    by (rule stream_chunks_keeps [where R = "\<lambda>w w'. bw_within w \<longrightarrow> bw_within w' \<and> bw_maximum w' = bw_maximum w", rotated 4])
      (auto simp: bounded_write_within, simp add: bw_within_def)
  then show ?thesis using assms(2) by blast
qed

lemma encode_to_cases:
  assumes "encode_to cs env frame request f\<^sub>0 t = Some (f, outcome)"
  shows "(f = f\<^sub>0 \<and> isl outcome) \<or>
    (\<exists>identity w r. encode_body cs env frame request (bounded_new f\<^sub>0 (unat (er_maximum_output_bytes request)) (Suc t)) = Some (w, r) \<and>
      f = bw_inner w \<and> outcome = encode_finish env request identity w r)"
  using assms unfolding encode_to_def by (fastforce split: sum.splits)

text \<open>A writer at the end of its file.\<close>

definition at_end :: "BoundedWriter \<Rightarrow> bool" where
  "at_end w \<longleftrightarrow> sk_pos (bw_inner w) = length (sk_bytes (bw_inner w)) \<and>
     bw_position w = length (sk_bytes (bw_inner w)) \<and> bw_high_water w = length (sk_bytes (bw_inner w))"

lemma overwrite_end [simp]: "overwrite (length file) xs file = file @ xs"
  by (simp add: overwrite_def)

text \<open>Copying appends: a write at the end of the file appends what it accepts, and one that fails changes nothing.\<close>

lemma at_end_appends:
  assumes "at_end w" and "bounded_write env buffer w = (w', r)"
  shows "at_end w' \<and> sk_bytes (bw_inner w') = sk_bytes (bw_inner w) @ (case r of Inl _ \<Rightarrow> [] | Inr n \<Rightarrow> take n buffer) \<and>
    (\<forall>n. r = Inr n \<longrightarrow> n \<le> length buffer)"
  using assms by (auto simp: at_end_def bounded_write_def sink_write_def Let_def min_def split: prod.splits sum.splits if_splits)

lemma write_all_appended:
  assumes "write_all (bounded_write env) buffer w = Some (w', r)"
  shows "at_end w \<longrightarrow> r = Inr () \<longrightarrow> at_end w' \<and> sk_bytes (bw_inner w') = sk_bytes (bw_inner w) @ buffer"
  using assms
proof (rule write_all_rule [where P = "\<lambda>b w w' r. at_end w \<longrightarrow> r = Inr () \<longrightarrow> at_end w' \<and> sk_bytes (bw_inner w') = sk_bytes (bw_inner w) @ b"])
  fix b w w1 n w' r
  assume "bounded_write env b w = (w1, Inr n)"
    and IH: "at_end w1 \<longrightarrow> r = Inr () \<longrightarrow> at_end w' \<and> sk_bytes (bw_inner w') = sk_bytes (bw_inner w1) @ drop n b"
  then show "at_end w \<longrightarrow> r = Inr () \<longrightarrow> at_end w' \<and> sk_bytes (bw_inner w') = sk_bytes (bw_inner w) @ b"
    using at_end_appends [of w env b w1 "Inr n"] by auto
qed (use at_end_appends in fastforce)+

lemma stream_chunks_appended:
  assumes "stream_chunks (bounded_observe env) (write_all (bounded_write env)) cs w = Some (w', Inr ())" and "at_end w"
  shows "at_end w' \<and> sk_bytes (bw_inner w') = sk_bytes (bw_inner w) @ concat cs"
  using assms
proof (induction cs arbitrary: w)
  case (Cons c cs)
  from Cons.prems(1) obtain w1 where w1: "write_all (bounded_write env) c (tick w) = Some (w1, Inr ())"
    "stream_chunks (bounded_observe env) (write_all (bounded_write env)) cs w1 = Some (w', Inr ())"
    by (auto simp: bounded_observe_def [abs_def] split: bool.splits option.splits sum.splits)
  have "at_end (tick w)" using Cons.prems(2) by (simp add: at_end_def)
  then have "at_end w1" "sk_bytes (bw_inner w1) = sk_bytes (bw_inner w) @ c" using write_all_appended [OF w1(1)] by auto
  then show ?case using Cons.IH [OF w1(2)] by simp
qed simp

lemma concat_chunks: "0 < n \<Longrightarrow> concat (chunks n xs) = xs"
proof (induction n xs rule: chunks.induct)
  case (1 n xs)
  then show ?case by (cases "xs = []") (simp_all add: chunks.simps [of n "[]"] chunks.simps [of n xs])
qed

text \<open>C24: The ceiling of an encoding. With codecs that reach the file only by writing and seeking through the writer they are given,
  an encoding that is reported as finished reports at most the maximum of the request, and the file holds no more bytes than it
  reports. A frame that is copied rather than encoded leaves no more bytes than the maximum in the file however the copying
  ends, also when it fails, and when it is reported as finished the file is the frame and the report its exact length. (An
  encoder that fails may leave more than the maximum when it goes on writing after a seek was refused.)\<close>

theorem encoding_within_ceiling:
  assumes "codecs_honest cs" and "encode_to cs env frame request \<lparr>sk_bytes = [], sk_pos = 0\<rparr> t = Some (f, outcome)"
  shows "(\<forall>img. outcome = Inr img \<longrightarrow>
      ei_bytes img \<le> unat (er_maximum_output_bytes request) \<and> length (sk_bytes f) \<le> ei_bytes img) \<and>
    (er_encoding request \<in> {Raw, Passthrough} \<longrightarrow> length (sk_bytes f) \<le> unat (er_maximum_output_bytes request) \<and>
      (\<forall>img. outcome = Inr img \<longrightarrow> sk_bytes f = cf_bytes frame \<and> ei_bytes img = length (cf_bytes frame)))"
  using encode_to_cases [OF assms(2)]
proof (elim disjE exE conjE)
  assume "f = \<lparr>sk_bytes = [], sk_pos = 0\<rparr>" "isl outcome"
  then show ?thesis by auto
next
  let ?w = "bounded_new \<lparr>sk_bytes = [], sk_pos = 0\<rparr> (unat (er_maximum_output_bytes request)) (Suc t)"
  fix identity w r
  assume b: "encode_body cs env frame request ?w = Some (w, r)" "f = bw_inner w"
    and e: "outcome = encode_finish env request identity w r"
  have start: "bw_ok ?w" "bw_within ?w" "at_end ?w" by (simp_all add: bw_ok_def bw_within_def at_end_def bounded_new_def)
  then have w: "bw_ok w" "bw_maximum w = unat (er_maximum_output_bytes request)"
    using writer_steps_ok [OF encode_body_steps [OF assms(1) b(1)]] by (simp_all add: bounded_new_def)
  have fin: "bw_violation w = None \<and> ei_bytes img = bw_high_water w \<and> r = Inr ()" if "outcome = Inr img" for img
    using e that by (auto simp: encode_finish_def split: option.splits if_splits sum.splits)
  have "length (sk_bytes f) \<le> unat (er_maximum_output_bytes request) \<and>
      (\<forall>img. outcome = Inr img \<longrightarrow> sk_bytes f = cf_bytes frame \<and> ei_bytes img = length (cf_bytes frame))"
    if copied: "er_encoding request \<in> {Raw, Passthrough}"
  proof -
    obtain r' where r': "stream_copy env (cf_bytes frame) ?w = Some (w, r')"
      "r = (case r' of Inl e \<Rightarrow> Inl (io_error_text e) | Inr u \<Rightarrow> Inr u)"
      using b(1) copied by (auto simp: encode_body_def)
    have "sk_bytes f = cf_bytes frame \<and> ei_bytes img = length (cf_bytes frame)" if "outcome = Inr img" for img
      using stream_chunks_appended [OF _ start(3)] r' fin [OF that] b(2)
      by (cases r') (auto simp: stream_copy_def concat_chunks STREAM_CHUNK_BYTES_def at_end_def bounded_new_def)
    then show ?thesis using stream_within [OF r'(1) start(2)] b(2) w(2) by (simp add: bw_within_def)
  qed
  then show ?thesis using fin w b(2) by (auto simp: bw_ok_def)
qed

section \<open>Copying\<close>

definition quiet :: "io_env \<Rightarrow> nat \<Rightarrow> bool" where
  "quiet env t \<longleftrightarrow> (\<forall>n \<ge> t. \<not> token env n \<and> flushes env n \<and> (\<exists>k. accepts env n = Inr (Suc k)))"

lemma at_end_write:
  assumes "at_end w" and "quiet env (bw_ticks w)" and "buffer \<noteq> []" and "bw_maximum w \<le> u64_max"
    and "length (sk_bytes (bw_inner w)) + length buffer \<le> bw_maximum w" and "bw_violation w = None"
  obtains n w' where "bounded_write env buffer w = (w', Inr n)" "0 < n" "n \<le> length buffer" "at_end w'"
    "sk_bytes (bw_inner w') = sk_bytes (bw_inner w) @ take n buffer" "bw_maximum w' = bw_maximum w"
    "bw_violation w' = None" "bw_ticks w' = Suc (bw_ticks w)"
proof -
  obtain k where k: "accepts env (bw_ticks w) = Inr (Suc k)" "\<not> token env (bw_ticks w)"
    using assms(2) unfolding quiet_def by blast
  let ?n = "min (Suc k) (length buffer)"
  have n: "0 < ?n" using assms(3) by simp
  have "bounded_write env buffer w =
      ((tick w)\<lparr>bw_inner := \<lparr>sk_bytes = sk_bytes (bw_inner w) @ take ?n buffer,
          sk_pos = length (sk_bytes (bw_inner w)) + ?n\<rparr>,
         bw_position := length (sk_bytes (bw_inner w)) + ?n,
         bw_high_water := length (sk_bytes (bw_inner w)) + ?n\<rparr>, Inr ?n)"
    using assms k n by (simp add: bounded_write_def sink_write_def observes_cancel_def at_end_def Let_def)
  then show ?thesis by (rule that) (use n assms in \<open>simp_all add: at_end_def\<close>)
qed

lemma quiet_later: "quiet env t \<Longrightarrow> t \<le> t' \<Longrightarrow> quiet env t'"
  by (simp add: quiet_def)

lemma write_all_appends:
  assumes "at_end w" and "quiet env (bw_ticks w)" and "bw_maximum w \<le> u64_max"
    and "length (sk_bytes (bw_inner w)) + length buffer \<le> bw_maximum w" and "bw_violation w = None"
  shows "\<exists>w'. write_all (bounded_write env) buffer w = Some (w', Inr ()) \<and> at_end w' \<and>
    sk_bytes (bw_inner w') = sk_bytes (bw_inner w) @ buffer \<and> bw_maximum w' = bw_maximum w \<and>
    bw_violation w' = None \<and> bw_ticks w \<le> bw_ticks w'"
  using assms
proof (induction "length buffer" arbitrary: buffer w rule: less_induct)
  case less
  show ?case
  proof (cases "buffer = []")
    case True
    then show ?thesis using less.prems by (subst write_all.simps) simp
  next
    case False
    obtain n w1 where w1: "bounded_write env buffer w = (w1, Inr n)" "0 < n" "n \<le> length buffer" "at_end w1"
      "sk_bytes (bw_inner w1) = sk_bytes (bw_inner w) @ take n buffer" "bw_maximum w1 = bw_maximum w"
      "bw_violation w1 = None" "bw_ticks w1 = Suc (bw_ticks w)"
      using at_end_write [OF less.prems(1,2) False less.prems(3,4,5)] by blast
    have "length (drop n buffer) < length buffer" using w1(2) False by simp
    moreover have "quiet env (bw_ticks w1)" using quiet_later [OF less.prems(2)] w1(8) by simp
    ultimately obtain w2 where "write_all (bounded_write env) (drop n buffer) w1 = Some (w2, Inr ())" "at_end w2"
      "sk_bytes (bw_inner w2) = sk_bytes (bw_inner w1) @ drop n buffer" "bw_maximum w2 = bw_maximum w1"
      "bw_violation w2 = None" "bw_ticks w1 \<le> bw_ticks w2"
      using less.hyps [of "drop n buffer" w1] less.prems(3,4) w1 by auto
    then show ?thesis using w1 False by (subst write_all.simps) simp
  qed
qed

lemma stream_chunks_appends:
  assumes "at_end w" and "quiet env (bw_ticks w)" and "bw_maximum w \<le> u64_max"
    and "length (sk_bytes (bw_inner w)) + length (concat cs) \<le> bw_maximum w" and "bw_violation w = None"
  shows "\<exists>w'. stream_chunks (bounded_observe env) (write_all (bounded_write env)) cs w = Some (w', Inr ()) \<and>
    at_end w' \<and> sk_bytes (bw_inner w') = sk_bytes (bw_inner w) @ concat cs \<and> bw_violation w' = None \<and>
    bw_ticks w \<le> bw_ticks w'"
  using assms
proof (induction cs arbitrary: w)
  case (Cons c cs)
  have "at_end (tick w)" "quiet env (bw_ticks (tick w))"
    using Cons.prems(1,2) by (simp_all add: at_end_def quiet_def)
  then obtain w1 where w1: "write_all (bounded_write env) c (tick w) = Some (w1, Inr ())" "at_end w1"
    "sk_bytes (bw_inner w1) = sk_bytes (bw_inner w) @ c" "bw_maximum w1 = bw_maximum w" "bw_violation w1 = None"
    "Suc (bw_ticks w) \<le> bw_ticks w1"
    using write_all_appends [of "tick w" env c] Cons.prems by auto
  have "quiet env (bw_ticks w1)" using quiet_later [OF Cons.prems(2)] w1(6) by simp
  then obtain w2 where "stream_chunks (bounded_observe env) (write_all (bounded_write env)) cs w1 = Some (w2, Inr ())"
    "at_end w2" "sk_bytes (bw_inner w2) = sk_bytes (bw_inner w1) @ concat cs" "bw_violation w2 = None"
    "bw_ticks w1 \<le> bw_ticks w2"
    using Cons.IH [of w1] Cons.prems w1 by auto
  moreover have "\<not> observes_cancel env w" using Cons.prems(2) by (simp add: quiet_def observes_cancel_def)
  ultimately show ?case using w1 by (simp add: bounded_observe_def [abs_def])
qed simp

lemma raw_body:
  "er_encoding request = Raw \<or> er_encoding request = Passthrough \<Longrightarrow>
     encode_body cs env frame request w =
       map_option (\<lambda>(w', r). (w', case r of Inl e \<Rightarrow> Inl (io_error_text e) | Inr u \<Rightarrow> Inr u))
         (stream_copy env (cf_bytes frame) w)"
  by (auto simp: encode_body_def)

text \<open>The checks made before anything is written.\<close>

definition encodable :: "('p, 't) codecs \<Rightarrow> CaptureFrame \<Rightarrow> EncodingRequest \<Rightarrow> bool" where
  "encodable cs frame request \<longleftrightarrow> validate_frame cs frame = Inr () \<and> er_maximum_output_bytes request \<noteq> 0 \<and>
     1 \<le> er_jpeg_quality request \<and> er_jpeg_quality request \<le> 100 \<and>
     is_ok (output_identity (cf_pixel_format frame) (er_encoding request))"

lemma encode_to_body:
  assumes "encodable cs frame request" and "\<not> token env t"
  shows "\<exists>identity. encode_to cs env frame request f t =
    map_option (\<lambda>(w, r). (bw_inner w, encode_finish env request identity w r))
      (encode_body cs env frame request (bounded_new f (unat (er_maximum_output_bytes request)) (Suc t)))"
proof -
  obtain identity where "output_identity (cf_pixel_format frame) (er_encoding request) = Inr identity"
    using assms(1) by (cases "output_identity (cf_pixel_format frame) (er_encoding request)") (auto simp: encodable_def)
  then show ?thesis using assms by (intro exI [of _ identity]) (simp add: encode_to_def encodable_def ensure_def)
qed

lemma raw_copy_returns:
  assumes "length bytes \<le> n" and "n \<le> u64_max" and "quiet env t"
  obtains w where "stream_copy env bytes (bounded_new \<lparr>sk_bytes = [], sk_pos = 0\<rparr> n (Suc t)) = Some (w, Inr ())"
    "bw_inner w = \<lparr>sk_bytes = bytes, sk_pos = length bytes\<rparr>" "bw_violation w = None"
    "bw_high_water w = length bytes" "\<not> observes_cancel env w" "bounded_flush env w = Inr ()"
proof -
  let ?w = "bounded_new \<lparr>sk_bytes = [], sk_pos = 0\<rparr> n (Suc t)"
  have "at_end ?w" "bw_violation ?w = None" "bw_ticks ?w = Suc t" "bw_maximum ?w \<le> u64_max"
    using assms(2) by (simp_all add: bounded_new_def at_end_def)
  moreover have "length (sk_bytes (bw_inner ?w)) + length (concat (chunks STREAM_CHUNK_BYTES bytes)) \<le> bw_maximum ?w"
    using assms(1) by (simp add: bounded_new_def concat_chunks STREAM_CHUNK_BYTES_def)
  ultimately obtain w where w: "stream_copy env bytes ?w = Some (w, Inr ())" "at_end w"
    "sk_bytes (bw_inner w) = bytes" "bw_violation w = None" "Suc t \<le> bw_ticks w"
    using stream_chunks_appends [of ?w env "chunks STREAM_CHUNK_BYTES bytes"] quiet_later [OF assms(3)]
    by (auto simp: stream_copy_def concat_chunks STREAM_CHUNK_BYTES_def bounded_new_def)
  have "\<not> observes_cancel env w" "bounded_flush env w = Inr ()"
    using quiet_later [OF assms(3), of "bw_ticks w"] w(5)
    by (simp_all add: quiet_def observes_cancel_def bounded_flush_def)
  then show ?thesis using that [OF w(1)] w by (simp add: at_end_def)
qed

lemma raw_encoding_returns:
  assumes "encodable cs frame request" and "er_encoding request = Raw \<or> er_encoding request = Passthrough"
    and "length (cf_bytes frame) \<le> unat (er_maximum_output_bytes request)" and "quiet env t"
  obtains identity where "encode_to cs env frame request \<lparr>sk_bytes = [], sk_pos = 0\<rparr> t =
    Some (\<lparr>sk_bytes = cf_bytes frame, sk_pos = length (cf_bytes frame)\<rparr>,
      Inr \<lparr>ei_encoding = er_encoding request, ei_extension = fst identity, ei_content_type = snd identity,
        ei_bytes = length (cf_bytes frame)\<rparr>)"
proof -
  obtain w where w: "stream_copy env (cf_bytes frame)
      (bounded_new \<lparr>sk_bytes = [], sk_pos = 0\<rparr> (unat (er_maximum_output_bytes request)) (Suc t)) = Some (w, Inr ())"
    "bw_inner w = \<lparr>sk_bytes = cf_bytes frame, sk_pos = length (cf_bytes frame)\<rparr>" "bw_violation w = None"
    "bw_high_water w = length (cf_bytes frame)" "\<not> observes_cancel env w" "bounded_flush env w = Inr ()"
    using raw_copy_returns [OF assms(3) unat_u64_le_max assms(4)] .
  have nt: "\<not> token env t" using assms(4) by (simp add: quiet_def)
  obtain identity where e: "encode_to cs env frame request \<lparr>sk_bytes = [], sk_pos = 0\<rparr> t =
      map_option (\<lambda>(w, r). (bw_inner w, encode_finish env request identity w r)) (encode_body cs env frame request
        (bounded_new \<lparr>sk_bytes = [], sk_pos = 0\<rparr> (unat (er_maximum_output_bytes request)) (Suc t)))"
    using encode_to_body [OF assms(1) nt] by blast
  show ?thesis by (rule that [of identity]) (simp add: e raw_body [OF assms(2)] w encode_finish_def)
qed

text \<open>When the frame fits its ceiling, nothing is cancelled and the file accepts at least one byte of
  every write, a raw or passthrough encoding returns, reports the length of the frame and leaves
  exactly the bytes of the frame in the file, however the file splits the writes.\<close>

theorem raw_encoding_exact:
  assumes "encodable cs frame request" and "er_encoding request = Raw \<or> er_encoding request = Passthrough"
    and "length (cf_bytes frame) \<le> unat (er_maximum_output_bytes request)" and "quiet env t"
  shows "\<exists>img. encode_to cs env frame request \<lparr>sk_bytes = [], sk_pos = 0\<rparr> t =
      Some (\<lparr>sk_bytes = cf_bytes frame, sk_pos = length (cf_bytes frame)\<rparr>, Inr img) \<and>
    ei_bytes img = length (cf_bytes frame)"
  by (rule raw_encoding_returns [OF assms]) simp

section \<open>Cancellation while writing\<close>

lemma bounded_write_ticks: "bw_ticks (fst (bounded_write env buffer w)) = Suc (bw_ticks w)"
  by (auto simp: bounded_write_def Let_def split: sum.splits prod.splits)

lemma write_all_cancelled:
  assumes "\<forall>n \<ge> bw_ticks w. token env n" and "buffer \<noteq> []"
  shows "write_all (bounded_write env) buffer w = None"
proof (rule ccontr)
  assume "write_all (bounded_write env) buffer w \<noteq> None"
  then obtain w' r where "write_all (bounded_write env) buffer w = Some (w', r)" by auto
  then have "(\<forall>n \<ge> bw_ticks w. token env n) \<longrightarrow> buffer = []"
  proof (rule write_all_rule [where P = "\<lambda>b w w' r. (\<forall>n \<ge> bw_ticks w. token env n) \<longrightarrow> b = []"])
    fix buffer w w1
    assume "bounded_write env buffer w = (w1, Inl IoInterrupted)" "(\<forall>n \<ge> bw_ticks w1. token env n) \<longrightarrow> buffer = []"
    then show "(\<forall>n \<ge> bw_ticks w. token env n) \<longrightarrow> buffer = []"
      by (metis (mono_tags, lifting) Suc_leD bounded_write_ticks fst_conv)
  qed (auto simp: bounded_write_def observes_cancel_def Let_def split: if_splits)
  then show False using assms by blast
qed

text \<open>C39: A cancellation that arrives while a chunk is being written is never noticed: the writer reports it
  as an interrupted write, which the standard library retries. If the token is set from the first write of a raw
  encoding on, the encoding never returns.\<close>

theorem cancelled_encoding_never_returns:
  assumes "encodable cs frame request" and "er_encoding request = Raw \<or> er_encoding request = Passthrough"
    and "\<not> token env t" and "\<not> token env (Suc t)" and "\<forall>n > Suc t. token env n"
  shows "encode_to cs env frame request f t = None"
proof -
  let ?w = "bounded_new f (unat (er_maximum_output_bytes request)) (Suc t)"
  have "cf_bytes frame \<noteq> []" using assms(1) by (auto simp: encodable_def validate_frame_def unsupported_def)
  then obtain c cs' where cs: "chunks STREAM_CHUNK_BYTES (cf_bytes frame) = c # cs'" and c: "c \<noteq> []"
    by (subst (asm) chunks.simps) (auto simp: STREAM_CHUNK_BYTES_def chunks.simps)
  have "write_all (bounded_write env) c (tick ?w) = None"
    by (rule write_all_cancelled) (use assms(5) c in \<open>simp_all add: bounded_new_def\<close>)
  then have "stream_copy env (cf_bytes frame) ?w = None"
    unfolding stream_copy_def cs using assms(4) by (simp add: bounded_observe_def observes_cancel_def bounded_new_def)
  moreover obtain identity where "encode_to cs env frame request f t =
      map_option (\<lambda>(w, r). (bw_inner w, encode_finish env request identity w r)) (encode_body cs env frame request ?w)"
    using encode_to_body [OF assms(1,3)] by blast
  ultimately show ?thesis unfolding raw_body [OF assms(2)] by simp
qed

section \<open>Channel order\<close>

lemma chunks_nth:
  "0 < n \<Longrightarrow> i * n < length xs \<Longrightarrow> i < length (chunks n xs) \<and> chunks n xs ! i = take n (drop (i * n) xs)"
proof (induction n xs arbitrary: i rule: chunks.induct)
  case (1 n xs)
  then have ne: "\<not> (n = 0 \<or> xs = [])" by auto
  show ?case
  proof (cases i)
    case 0
    then show ?thesis using ne by (subst (1 2) chunks.simps) simp
  next
    case (Suc j)
    then have "j * n < length (drop n xs)" using 1(3) by auto
    then have "j < length (chunks n (drop n xs)) \<and> chunks n (drop n xs) ! j = take n (drop (j * n) (drop n xs))"
      using 1(1) [OF ne 1(2)] by blast
    then show ?thesis using ne Suc by (subst (1 2) chunks.simps) (simp add: add.commute)
  qed
qed

lemma chunks_full:
  "0 < n \<Longrightarrow> n dvd length xs \<Longrightarrow> c \<in> set (chunks n xs) \<Longrightarrow> length c = n"
proof (induction n xs rule: chunks.induct)
  case (1 n xs)
  show ?case
  proof (cases "xs = []")
    case True
    then show ?thesis using 1(4) by (simp add: chunks.simps)
  next
    case False
    then have "n \<le> length xs" using 1(3) by (simp add: dvd_imp_le)
    moreover have "n dvd length (drop n xs)" using 1(3) by (simp add: dvd_diff_nat)
    moreover have "c = take n xs \<or> c \<in> set (chunks n (drop n xs))"
      using 1(4) False 1(2) by (subst (asm) chunks.simps) auto
    ultimately show ?thesis using 1(1,2) False by auto
  qed
qed

lemma chunks_exact_full: "0 < n \<Longrightarrow> n dvd length xs \<Longrightarrow> chunks_exact n xs = chunks n xs"
  unfolding chunks_exact_def using chunks_full [of n xs] by (intro filter_True) blast

lemma chunks_step: "0 < n \<Longrightarrow> length c = n \<Longrightarrow> chunks n (c @ xs) = c # chunks n xs"
  by (subst chunks.simps) auto

lemma length_3_cases: "length xs = 3 * Suc m \<Longrightarrow> \<exists>b g r ys. xs = b # g # r # ys \<and> length ys = 3 * m"
  by (cases xs; cases "tl xs"; cases "tl (tl xs)") auto

lemma bgr_to_rgb_step: "length ys = 3 * m \<Longrightarrow> bgr_to_rgb (b # g # r # ys) = r # g # b # bgr_to_rgb ys"
  using chunks_step [of 3 "[b, g, r]" ys] by (simp add: bgr_to_rgb_def chunks_exact_def)

lemma bgr_to_rgb_nth:
  "length row = 3 * m \<Longrightarrow> x < m \<Longrightarrow> k < 3 \<Longrightarrow> bgr_to_rgb row ! (3 * x + k) = row ! (3 * x + 2 - k)"
proof (induction m arbitrary: row x)
  case (Suc m)
  obtain b g r ys where row: "row = b # g # r # ys" "length ys = 3 * m" using length_3_cases Suc.prems(1) by blast
  have k: "k = 0 \<or> k = 1 \<or> k = 2" using Suc.prems(3) by auto
  show ?case
  proof (cases x)
    case 0
    then show ?thesis using k by (auto simp: row(1) bgr_to_rgb_step [OF row(2)])
  next
    case (Suc z)
    then have "bgr_to_rgb ys ! (3 * z + k) = ys ! (3 * z + 2 - k)" using Suc.IH row(2) Suc.prems by simp
    moreover have "3 * x + k = Suc (Suc (Suc (3 * z + k)))" "3 * x + 2 - k = Suc (Suc (Suc (3 * z + 2 - k)))"
      using Suc k by auto
    ultimately show ?thesis by (simp add: row(1) bgr_to_rgb_step [OF row(2)])
  qed
qed simp

text \<open>The two conversions of a BGR frame agree: the row handed to the PNG and TIFF encoders holds, pixel by
  pixel, what the view handed to the JPEG encoder reports.\<close>

lemma bgr_rows_agree:
  assumes "length (cf_bytes frame) = unat (cf_width frame) * h * 3" and "x < unat (cf_width frame)"
    and "y < h" and "k < 3"
  shows "bgr_rows frame ! y ! (3 * x + k) = bgr_pixel (cf_bytes frame) (unat (cf_width frame)) x y ! k"
proof -
  let ?w = "unat (cf_width frame)" and ?b = "cf_bytes frame"
  have n: "0 < ?w * 3" using assms(2) by simp
  have d: "?w * 3 dvd length ?b" unfolding assms(1) by (metis dvd_triv_left mult.assoc mult.commute)
  have fits: "(y + 1) * (?w * 3) \<le> length ?b"
    unfolding assms(1) using mult_le_mono1 [of "y + 1" h "?w * 3"] assms(3) by (simp add: mult.commute mult.left_commute)
  then have "y * (?w * 3) < length ?b" using n by simp
  then have row: "y < length (chunks (?w * 3) ?b)" "chunks (?w * 3) ?b ! y = take (?w * 3) (drop (y * (?w * 3)) ?b)"
    using chunks_nth [OF n] by blast+
  have len: "length (take (?w * 3) (drop (y * (?w * 3)) ?b)) = 3 * ?w" using fits by simp
  have "bgr_rows frame ! y = bgr_to_rgb (take (?w * 3) (drop (y * (?w * 3)) ?b))"
    using row by (simp add: bgr_rows_def chunks_exact_full [OF n d])
  then have "bgr_rows frame ! y ! (3 * x + k) = take (?w * 3) (drop (y * (?w * 3)) ?b) ! (3 * x + 2 - k)"
    using bgr_to_rgb_nth [OF len assms(2,4)] by simp
  also have "\<dots> = ?b ! (y * (?w * 3) + (3 * x + 2 - k))"
  proof -
    have "3 * x + 2 - k < ?w * 3" using assms(2) by linarith
    then show ?thesis using fits by simp
  qed
  also have "\<dots> = bgr_pixel ?b ?w x y ! k"
  proof -
    have "k = 0 \<or> k = 1 \<or> k = 2" using assms(4) by auto
    then show ?thesis by (auto simp: bgr_pixel_def Let_def algebra_simps)
  qed
  finally show ?thesis .
qed

section \<open>Concrete instances\<close>

definition demo_stage :: "'x \<Rightarrow> BoundedWriter \<Rightarrow> unit coded" where
  "demo_stage x w = Some ((), w, Inr ())"

definition demo_stream :: "unit stream_codec" where
  "demo_stream = \<lparr>sc_open = \<lambda>env col x y w. demo_stage x w, sc_row = \<lambda>env row c w. demo_stage row w,
     sc_close = \<lambda>env c w. demo_stage c w\<rparr>"

definition demo_codecs :: "(unit, unit) codecs" where
  "demo_codecs = \<lparr>jpeg_decoder = \<lambda>b. Inl ''no decoder'', jpeg_pixels = \<lambda>env col b x y q w. demo_stage b w,
     jpeg_view = \<lambda>env v x y q w. demo_stage v w, png_codec = demo_stream, tiff_codec = demo_stream\<rparr>"

definition demo_frame :: CaptureFrame where
  "demo_frame = \<lparr>cf_bytes = [7, 8], cf_width = 2, cf_height = 1, cf_pixel_format = Mono8, cf_capture_mode = Simulated,
     cf_source_timestamp = None, cf_timestamp_quality = TsUnknown\<rparr>"

definition demo_encoding :: EncodingRequest where
  "demo_encoding = \<lparr>er_encoding = Raw, er_jpeg_quality = 80, er_maximum_output_bytes = 10\<rparr>"

definition demo_io_env :: "nat \<Rightarrow> io_env" where
  "demo_io_env stop = \<lparr>token = \<lambda>n. stop \<le> n, accepts = \<lambda>n. Inr 1, flushes = \<lambda>n. True\<rparr>"

definition quiet_env :: io_env where
  "quiet_env = \<lparr>token = \<lambda>n. False, accepts = \<lambda>n. Inr 1, flushes = \<lambda>n. True\<rparr>"

lemma demo_codecs_honest: "codecs_honest demo_codecs"
  by (auto simp: codecs_honest_def codec_honest_def stage_honest_def demo_codecs_def demo_stream_def demo_stage_def
      intro: writer_steps.idle)

lemma demo_encodable: "encodable demo_codecs demo_frame demo_encoding"
  by (simp add: encodable_def validate_frame_def demo_frame_def demo_encoding_def uncompressed_len_def
      checked_mul_def output_identity_def)

lemma quiet_env_quiet: "quiet quiet_env t"
  by (simp add: quiet_def quiet_env_def)

theorem raw_encoding_exact_witness:
  "\<exists>img. encode_to demo_codecs quiet_env demo_frame demo_encoding \<lparr>sk_bytes = [], sk_pos = 0\<rparr> 0 =
     Some (\<lparr>sk_bytes = cf_bytes demo_frame, sk_pos = length (cf_bytes demo_frame)\<rparr>, Inr img) \<and>
     ei_bytes img = length (cf_bytes demo_frame)"
  by (rule raw_encoding_exact [OF demo_encodable _ _ quiet_env_quiet])
    (simp_all add: demo_encoding_def demo_frame_def)

theorem encoding_within_ceiling_witness:
  "\<exists>f img. encode_to demo_codecs quiet_env demo_frame demo_encoding \<lparr>sk_bytes = [], sk_pos = 0\<rparr> 0 = Some (f, Inr img) \<and>
     ei_bytes img \<le> 10 \<and> length (sk_bytes f) \<le> 10"
proof -
  obtain f img where e: "encode_to demo_codecs quiet_env demo_frame demo_encoding \<lparr>sk_bytes = [], sk_pos = 0\<rparr> 0 =
      Some (f, Inr img)"
    by (rule raw_encoding_returns [OF demo_encodable _ _ quiet_env_quiet [of 0]])
      (simp_all add: demo_encoding_def demo_frame_def)
  from encoding_within_ceiling [OF demo_codecs_honest e] have "ei_bytes img \<le> 10" "length (sk_bytes f) \<le> 10"
    by (simp_all add: demo_encoding_def)
  then show ?thesis using e by blast
qed

theorem cancelled_encoding_never_returns_witness:
  "encode_to demo_codecs (demo_io_env 2) demo_frame demo_encoding \<lparr>sk_bytes = [], sk_pos = 0\<rparr> 0 = None"
  by (rule cancelled_encoding_never_returns [OF demo_encodable]) (auto simp: demo_encoding_def demo_io_env_def)

end
