(* ===== verification/Output_Path.thy ===== *)
theory Output_Path
  imports Config_Data Camera_Error
begin

text \<open>
  Output paths (\<open>src/storage.rs\<close>): rendering of the configured directory and file-name templates,
  sanitising of the identifiers that enter them, the validation of every component, and the re-reading
  of a path stored in the durable catalog. Paths are those of a Unix host: \<open>Path::components\<close> splits at
  slashes, skips empty components and all \<open>.\<close> components but a leading one.
\<close>

section \<open>Definitions\<close>

definition MAX_COMPONENT_BYTES :: nat where "MAX_COMPONENT_BYTES = 240"
definition MAX_VARIABLE_BYTES :: nat where "MAX_VARIABLE_BYTES = 96"

definition storage_error :: "string \<Rightarrow> 'a result" where
  "storage_error message = Inl (StorageError message)"

definition quoted_text :: "string \<Rightarrow> string" where
  "quoted_text s = [CHR 0x27] @ s @ [CHR 0x27]"

definition slash :: char where "slash = CHR ''/''"
definition backslash :: char where "backslash = CHR 0x5C"

datatype path_component = RootDir | CurDir | ParentDir | Normal string

definition is_absolute :: "string \<Rightarrow> bool" where
  "is_absolute p = (case p of [] \<Rightarrow> False | c # _ \<Rightarrow> c = slash)"

definition component_of :: "string \<Rightarrow> path_component" where
  "component_of s = (if s = ''..'' then ParentDir else Normal s)"

definition path_components :: "string \<Rightarrow> path_component list" where
  "path_components p =
     (let parts = split_on (\<lambda>c. c = slash) p;
          kept = map component_of (filter (\<lambda>s. s \<noteq> [] \<and> s \<noteq> ''.'') parts)
      in if is_absolute p then RootDir # kept
         else if parts \<noteq> [] \<and> hd parts = ''.'' then CurDir # kept
         else kept)"

text \<open>\<open>Path::extension\<close> of a file name: the text after its last dot, unless the name starts with its only
  dot.\<close>

fun split_last_dot :: "string \<Rightarrow> (string \<times> string) option" where
  "split_last_dot [] = None"
| "split_last_dot (c # cs) =
     (case split_last_dot cs of
        Some (u, v) \<Rightarrow> Some (c # u, v)
      | None \<Rightarrow> if c = CHR ''.'' then Some ([], cs) else None)"

definition file_extension :: "string \<Rightarrow> string option" where
  "file_extension name =
     (if name = ''..'' then None
      else case split_last_dot name of None \<Rightarrow> None | Some (stem, ext) \<Rightarrow> if stem = [] then None else Some ext)"

definition ascii_upper :: "char \<Rightarrow> char" where
  "ascii_upper c = (if CHR ''a'' \<le> c \<and> c \<le> CHR ''z'' then char_of (of_char c - 32 :: nat) else c)"

definition eq_ignore_ascii_case :: "string \<Rightarrow> string \<Rightarrow> bool" where
  "eq_ignore_ascii_case a b = (map ascii_upper a = map ascii_upper b)"

definition is_ascii_alphanumeric :: "char \<Rightarrow> bool" where
  "is_ascii_alphanumeric c = ((CHR ''0'' \<le> c \<and> c \<le> CHR ''9'') \<or> (CHR ''A'' \<le> c \<and> c \<le> CHR ''Z'') \<or>
     (CHR ''a'' \<le> c \<and> c \<le> CHR ''z''))"

record RelativeOutputPath =
  rp_components :: "string list"
  rp_wire :: string

definition forbidden_char :: "string \<Rightarrow> bool" where
  "forbidden_char ch = (is_control ch \<or> ch \<in> {[slash], [backslash], '':'', [CHR 0x00]})"

definition reserved_stem :: "string \<Rightarrow> bool" where
  "reserved_stem stem = (stem \<in> {''CON'', ''PRN'', ''AUX'', ''NUL''} \<or>
     (length stem = 4 \<and> (take 3 stem = ''COM'' \<or> take 3 stem = ''LPT'') \<and>
      CHR ''1'' \<le> stem ! 3 \<and> stem ! 3 \<le> CHR ''9''))"

definition validate_component :: "string \<Rightarrow> unit result" where
  "validate_component value =
     (if value = [] \<or> value = ''.'' \<or> value = ''..'' \<or> MAX_COMPONENT_BYTES < length value \<or>
         last value \<in> {CHR ''.'', CHR '' ''} \<or> list_ex forbidden_char (utf8_chars value)
      then storage_error (''unsafe output path component '' @ quoted_text value)
      else if reserved_stem (map ascii_upper (hd (split_on (\<lambda>c. c = CHR ''.'') value)))
      then storage_error (''reserved output path component '' @ quoted_text value)
      else Inr ())"

fun collect_components :: "path_component list \<Rightarrow> string list result" where
  "collect_components [] = Inr []"
| "collect_components (Normal value # rest) =
     and_then (validate_component value) (\<lambda>_.
     and_then (collect_components rest) (\<lambda>values. Inr (value # values)))"
| "collect_components (_ # rest) =
     storage_error ''rendered output path contains traversal or a root/prefix''"

fun join_path :: "string list \<Rightarrow> string" where
  "join_path [] = []"
| "join_path [c] = c"
| "join_path (c # cs) = c @ slash # join_path cs"

definition validate_relative_path :: "string \<Rightarrow> string \<Rightarrow> RelativeOutputPath result" where
  "validate_relative_path path extension =
     (if path = [] \<or> is_absolute path
      then storage_error ''rendered output path must be non-empty and relative''
      else
        let normalized = map (\<lambda>c. if c = backslash then slash else c) path in
        and_then (collect_components (path_components normalized)) (\<lambda>components.
          if components = [] then storage_error ''rendered output path is empty''
          else
            let actual = (case file_extension (last components) of None \<Rightarrow> [] | Some e \<Rightarrow> e) in
            if \<not> eq_ignore_ascii_case actual extension
            then storage_error (''rendered filename extension '' @ quoted_text actual @ '' does not match '' @ quoted_text extension)
            else Inr \<lparr>rp_components = components, rp_wire = join_path components\<rparr>))"

text \<open>The file name of a path is its last component, when that is a normal one.\<close>

definition path_extension :: "string \<Rightarrow> string option" where
  "path_extension p =
     (case rev (path_components p) of Normal name # _ \<Rightarrow> file_extension name | _ \<Rightarrow> None)"

definition from_stored :: "string \<Rightarrow> RelativeOutputPath result" where
  "from_stored wire =
     (case path_extension wire of
        Some ext \<Rightarrow> if ext = [] then storage_error ''stored output path lacks an extension''
                   else validate_relative_path wire ext
      | None \<Rightarrow> storage_error ''stored output path lacks an extension'')"

definition safe_char :: "string \<Rightarrow> char" where
  "safe_char ch =
     (case ch of [c] \<Rightarrow> if is_ascii_alphanumeric c \<or> c = CHR ''-'' \<or> c = CHR ''_'' then c else CHR ''_''
      | _ \<Rightarrow> CHR ''_'')"

fun sanitize_loop :: "string list \<Rightarrow> string \<Rightarrow> string" where
  "sanitize_loop [] out = out"
| "sanitize_loop (ch # chs) out =
     (if MAX_VARIABLE_BYTES < length out + 1 then out else sanitize_loop chs (out @ [safe_char ch]))"

definition sanitize_variable :: "string \<Rightarrow> string \<Rightarrow> string result" where
  "sanitize_variable value field =
     (if value = [] then storage_error (field @ '' must be non-empty'')
      else
        let out = sanitize_loop (utf8_chars value) [] in
        if out = [] \<or> out = ''.'' \<or> out = ''..''
        then storage_error (field @ '' did not contain a safe filename character'')
        else Inr out)"

fun extension_for :: "OutputEncoding \<Rightarrow> string" where
  "extension_for Passthrough = ''jpg''"
| "extension_for Out_Jpeg = ''jpg''"
| "extension_for Png = ''png''"
| "extension_for Tiff = ''tiff''"
| "extension_for Raw = ''raw''"

text \<open>\<open>str::replace\<close> with a non-empty needle: every leftmost, non-overlapping occurrence.\<close>

fun replace_fuel :: "nat \<Rightarrow> string \<Rightarrow> string \<Rightarrow> string \<Rightarrow> string" where
  "replace_fuel 0 needle value s = s"
| "replace_fuel (Suc n) needle value [] = []"
| "replace_fuel (Suc n) needle value (c # cs) =
     (if needle \<noteq> [] \<and> starts_with needle (c # cs)
      then value @ replace_fuel n needle value (drop (length needle) (c # cs))
      else c # replace_fuel n needle value cs)"

definition replace_all :: "string \<Rightarrow> string \<Rightarrow> string \<Rightarrow> string" where
  "replace_all needle value s = replace_fuel (length s) needle value s"

definition pad_left :: "nat \<Rightarrow> string \<Rightarrow> string" where
  "pad_left width s = replicate (width - length s) (CHR ''0'') @ s"

definition show_year :: "int \<Rightarrow> string" where
  "show_year y = (if 0 \<le> y then pad_left 4 (show_nat (nat y)) else CHR ''-'' # pad_left 3 (show_nat (nat (- y))))"

record timestamp =
  ts_year :: int
  ts_month :: nat
  ts_day :: nat
  ts_hour :: nat
  ts_minute :: nat
  ts_second :: nat
  ts_millis :: nat

definition show_timestamp :: "timestamp \<Rightarrow> string" where
  "show_timestamp t = show_year (ts_year t) @ pad_left 2 (show_nat (ts_month t)) @
     pad_left 2 (show_nat (ts_day t)) @ ''T'' @ pad_left 2 (show_nat (ts_hour t)) @
     pad_left 2 (show_nat (ts_minute t)) @ pad_left 2 (show_nat (ts_second t)) @ ''.'' @
     pad_left 3 (show_nat (ts_millis t)) @ ''Z''"

record OutputPathVariables =
  ov_camera_id :: string
  ov_capture_id :: string
  ov_timestamp :: timestamp

definition replacements :: "string \<Rightarrow> string \<Rightarrow> string \<Rightarrow> timestamp \<Rightarrow> (string \<times> string) list" where
  "replacements camera capture extension t =
     [(''{cameraId}'', camera), (''{captureId}'', capture), (''{extension}'', extension),
      (''{yyyy}'', show_year (ts_year t)), (''{MM}'', pad_left 2 (show_nat (ts_month t))),
      (''{dd}'', pad_left 2 (show_nat (ts_day t))), (''{timestamp}'', show_timestamp t)]"

definition render_template :: "(string \<times> string) list \<Rightarrow> string \<Rightarrow> string" where
  "render_template rs template = fold (\<lambda>(needle, value) s. replace_all needle value s) rs template"

definition has_brace :: "string \<Rightarrow> bool" where
  "has_brace s = list_ex (\<lambda>c. c = CHR 0x7B \<or> c = CHR 0x7D) s"

definition render_output_path ::
    "OutputConfig \<Rightarrow> OutputPathVariables \<Rightarrow> OutputEncoding \<Rightarrow> RelativeOutputPath result" where
  "render_output_path out vars encoding =
     and_then (sanitize_variable (ov_camera_id vars) ''cameraId'') (\<lambda>camera.
     and_then (sanitize_variable (ov_capture_id vars) ''captureId'') (\<lambda>capture.
       let extension = extension_for encoding;
           rs = replacements camera capture extension (ov_timestamp vars);
           directory = render_template rs (camera_directory_template out);
           filename = render_template rs (file_name_template out)
       in if has_brace directory \<or> has_brace filename
          then storage_error ''output template contains an unresolved variable''
          else if list_ex (\<lambda>c. c = slash \<or> c = backslash) filename
          then storage_error ''fileNameTemplate must render exactly one filename component''
          else validate_relative_path (if directory = [] then filename else directory @ slash # filename) extension))"

text \<open>Octal modes, with the permission ceiling of the design.\<close>

fun octal_value :: "nat \<Rightarrow> string \<Rightarrow> nat option" where
  "octal_value acc [] = Some acc"
| "octal_value acc (c # cs) =
     (if CHR ''0'' \<le> c \<and> c \<le> CHR ''7'' then octal_value (acc * 8 + (of_char c - 48)) cs else None)"

definition parse_mode :: "string \<Rightarrow> bool \<Rightarrow> 32 word result" where
  "parse_mode value file =
     (if length value \<noteq> 4 \<or> hd value \<noteq> CHR ''0''
      then storage_error ''output mode must be four-digit octal''
      else case octal_value 0 value of
        None \<Rightarrow> storage_error (''invalid octal mode '' @ quoted_text value)
      | Some mode \<Rightarrow>
          let m = of_nat mode :: 32 word; maximum = (if file then 416 else 488 :: 32 word) in
          if 511 < m \<or> and m (not maximum) \<noteq> 0
          then storage_error (''output mode is more permissive than the design'' @ [CHR 0x27] @ ''s 0640/0750 ceiling'')
          else Inr m)"

section \<open>Components\<close>

lemma split_on_free: "list_all (\<lambda>c. \<not> p c) s \<Longrightarrow> split_on p s = [s]"
  by (induction s) auto

lemma split_on_ne [simp]: "split_on p s \<noteq> []"
  by (induction s) (auto split: list.splits)

lemma split_on_append: "list_all (\<lambda>c. \<not> p c) u \<Longrightarrow> p x \<Longrightarrow> split_on p (u @ x # v) = u # split_on p v"
proof (induction u)
  case Nil
  then show ?case by (cases "split_on p v") auto
qed auto

lemma split_on_parts: "w \<in> set (split_on p s) \<Longrightarrow> list_all (\<lambda>c. \<not> p c) w"
proof (induction s arbitrary: w)
  case (Cons c cs)
  then show ?case by (cases "split_on p cs") (auto split: if_splits)
qed simp

text \<open>What every stored component satisfies.\<close>

definition plain_component :: "string \<Rightarrow> bool" where
  "plain_component c \<longleftrightarrow> c \<noteq> [] \<and> c \<noteq> ''.'' \<and> c \<noteq> ''..'' \<and> slash \<notin> set c \<and> backslash \<notin> set c"

lemma split_on_join:
  assumes "cs \<noteq> []" and "\<forall>c \<in> set cs. slash \<notin> set c"
  shows "split_on (\<lambda>c. c = slash) (join_path cs) = cs"
  using assms
proof (induction cs rule: join_path.induct)
  case (2 c)
  then show ?case using split_on_free [of "\<lambda>c. c = slash" c] by (auto simp: list_all_iff)
next
  case (3 c v va)
  have "list_all (\<lambda>x. \<not> x = slash) c" using 3(3) by (auto simp: list_all_iff)
  moreover have "split_on (\<lambda>c. c = slash) (join_path (v # va)) = v # va" using 3 by simp
  ultimately show ?case by (simp add: split_on_append)
qed simp

lemma join_path_relative:
  assumes "cs \<noteq> []" and "\<forall>c \<in> set cs. plain_component c"
  shows "join_path cs \<noteq> [] \<and> \<not> is_absolute (join_path cs)"
proof (cases cs rule: join_path.cases)
  case (2 c)
  then show ?thesis using assms by (cases c) (auto simp: plain_component_def is_absolute_def)
next
  case (3 c v va)
  then show ?thesis using assms by (cases c) (auto simp: plain_component_def is_absolute_def)
qed (use assms in simp)

lemma path_components_join:
  assumes "cs \<noteq> []" and "\<forall>c \<in> set cs. plain_component c"
  shows "path_components (join_path cs) = map Normal cs"
proof -
  have s: "split_on (\<lambda>c. c = slash) (join_path cs) = cs"
    using split_on_join assms by (simp add: plain_component_def)
  have "filter (\<lambda>s. s \<noteq> [] \<and> s \<noteq> ''.'') cs = cs" using assms(2) by (simp add: plain_component_def)
  moreover have "map component_of cs = map Normal cs" using assms(2) by (simp add: component_of_def plain_component_def)
  moreover have "hd cs \<noteq> ''.''" using assms by (cases cs) (auto simp: plain_component_def)
  ultimately show ?thesis using s join_path_relative [OF assms] by (simp add: path_components_def Let_def)
qed

lemma backslash_free: "backslash \<notin> set c \<Longrightarrow> map (\<lambda>c. if c = backslash then slash else c) c = c"
  by (induction c) auto

lemma join_path_chars: "set (join_path cs) \<subseteq> insert slash (\<Union> (set ` set cs))"
  by (induction cs rule: join_path.induct) auto

lemma backslash_free_join:
  assumes "\<forall>c \<in> set cs. plain_component c"
  shows "map (\<lambda>c. if c = backslash then slash else c) (join_path cs) = join_path cs"
proof (rule backslash_free)
  have "backslash \<noteq> slash" by (simp add: slash_def backslash_def)
  then show "backslash \<notin> set (join_path cs)"
    using join_path_chars [of cs] assms by (auto simp: plain_component_def)
qed

lemma collected_valid: "collect_components ps = Inr cs \<Longrightarrow> ps = map Normal cs \<and> (\<forall>c \<in> set cs. validate_component c = Inr ())"
proof (induction ps arbitrary: cs rule: collect_components.induct)
  case (2 v rest)
  then show ?case by (auto simp: and_then_Inr_iff)
qed (auto simp: storage_error_def)

lemma valid_collected: "\<forall>c \<in> set cs. validate_component c = Inr () \<Longrightarrow> collect_components (map Normal cs) = Inr cs"
  by (induction cs) auto

lemma normal_component:
  assumes "Normal s \<in> set (path_components p)" and "backslash \<notin> set p" shows "plain_component s"
proof -
  have s: "s \<in> set (filter (\<lambda>s. s \<noteq> [] \<and> s \<noteq> ''.'') (split_on (\<lambda>c. c = slash) p))" "s \<noteq> ''..''"
    using assms(1) by (auto simp: path_components_def component_of_def Let_def split: if_splits)
  then have "slash \<notin> set s" using split_on_parts [of s "\<lambda>c. c = slash" p] by (auto simp: list_all_iff)
  moreover have "backslash \<notin> set s"
  proof -
    have "set w \<subseteq> set p" if "w \<in> set (split_on q p)" for w and q :: "char \<Rightarrow> bool"
      using that
    proof (induction p arbitrary: w)
      case (Cons c cs)
      then show ?case by (cases "split_on q cs") (fastforce split: if_splits)+
    qed simp
    then show ?thesis using s(1) assms(2) by auto
  qed
  ultimately show ?thesis using s by (simp add: plain_component_def)
qed

text \<open>A validated path and what it consists of.\<close>

lemma validated_path:
  assumes "validate_relative_path path ext = Inr p"
  shows "rp_components p \<noteq> [] \<and> rp_wire p = join_path (rp_components p) \<and>
    (\<forall>c \<in> set (rp_components p). plain_component c \<and> validate_component c = Inr ()) \<and>
    eq_ignore_ascii_case (case file_extension (last (rp_components p)) of None \<Rightarrow> [] | Some e \<Rightarrow> e) ext"
proof -
  let ?n = "map (\<lambda>c. if c = backslash then slash else c) path"
  obtain cs where cs: "collect_components (path_components ?n) = Inr cs" "cs \<noteq> []"
    "p = \<lparr>rp_components = cs, rp_wire = join_path cs\<rparr>"
    "eq_ignore_ascii_case (case file_extension (last cs) of None \<Rightarrow> [] | Some e \<Rightarrow> e) ext"
    using assms by (auto simp: validate_relative_path_def Let_def and_then_Inr_iff storage_error_def split: if_splits)
  have b: "backslash \<notin> set ?n" by (auto simp: slash_def backslash_def)
  have "path_components ?n = map Normal cs" "\<forall>c \<in> set cs. validate_component c = Inr ()"
    using collected_valid [OF cs(1)] by blast+
  then have "\<forall>c \<in> set cs. plain_component c" using normal_component [OF _ b] by simp
  then show ?thesis using cs \<open>\<forall>c \<in> set cs. validate_component c = Inr ()\<close> by simp
qed

lemma revalidated_path:
  assumes "cs \<noteq> []" and "\<forall>c \<in> set cs. plain_component c \<and> validate_component c = Inr ()"
    and "file_extension (last cs) = Some ext"
  shows "validate_relative_path (join_path cs) ext = Inr \<lparr>rp_components = cs, rp_wire = join_path cs\<rparr>"
  using assms join_path_relative [of cs] backslash_free_join [of cs] path_components_join [of cs] valid_collected [of cs]
  by (simp add: validate_relative_path_def eq_ignore_ascii_case_def)

lemma rev_normal: "cs \<noteq> [] \<Longrightarrow> \<exists>ps. rev (map Normal cs) = Normal (last cs) # ps"
  by (cases cs rule: rev_cases) simp_all

lemma stored_path:
  assumes "validate_relative_path path ext = Inr p" and "ext \<noteq> []"
  shows "from_stored (rp_wire p) = Inr p"
proof -
  have v: "rp_components p \<noteq> []" "rp_wire p = join_path (rp_components p)"
    "\<forall>c \<in> set (rp_components p). plain_component c \<and> validate_component c = Inr ()"
    "eq_ignore_ascii_case (case file_extension (last (rp_components p)) of None \<Rightarrow> [] | Some e \<Rightarrow> e) ext"
    using validated_path [OF assms(1)] by blast+
  then obtain e where e: "file_extension (last (rp_components p)) = Some e" "e \<noteq> []"
    using assms(2) unfolding eq_ignore_ascii_case_def
    by (cases "file_extension (last (rp_components p))") (simp_all, metis map_is_Nil_conv)
  have "path_components (rp_wire p) = map Normal (rp_components p)"
    using path_components_join v by simp
  then have "path_extension (rp_wire p) = Some e" using e(1) rev_normal [OF v(1)] by (auto simp: path_extension_def)
  then show ?thesis using e revalidated_path [OF v(1,3) e(1)] v(2) by (cases p) (simp add: from_stored_def)
qed

section \<open>Confinement\<close>

text \<open>Lexical resolution of a path against the components of a directory.\<close>

fun resolve :: "string list \<Rightarrow> path_component list \<Rightarrow> string list" where
  "resolve base [] = base"
| "resolve base (Normal c # ps) = resolve (base @ [c]) ps"
| "resolve base (ParentDir # ps) = resolve (butlast base) ps"
| "resolve base (CurDir # ps) = resolve base ps"
| "resolve base (RootDir # ps) = resolve [] ps"

lemma resolve_normal: "resolve base (map Normal cs) = base @ cs"
  by (induction cs arbitrary: base) auto

lemma extension_for_ne [simp]: "extension_for e \<noteq> []"
  by (cases e) auto

text \<open>C26: However hostile the camera and capture identifiers and the templates are, a rendered path
  stays strictly below the output root: resolving its wire form against any root descends through its
  components and never leaves it. Every component passes the component check, the file name carries the
  extension of the encoding, and the wire form stored in the catalog reads back as the same path.\<close>

theorem output_path_confined:
  assumes "render_output_path out vars encoding = Inr p"
  shows "resolve base (path_components (rp_wire p)) = base @ rp_components p \<and> rp_components p \<noteq> [] \<and>
    (\<forall>c \<in> set (rp_components p). plain_component c \<and> validate_component c = Inr ()) \<and>
    (\<exists>e. file_extension (last (rp_components p)) = Some e \<and> eq_ignore_ascii_case e (extension_for encoding)) \<and>
    from_stored (rp_wire p) = Inr p"
proof -
  obtain path where path: "validate_relative_path path (extension_for encoding) = Inr p"
    using assms by (auto simp: render_output_path_def and_then_Inr_iff Let_def storage_error_def split: if_splits)
  have v: "rp_components p \<noteq> []" "rp_wire p = join_path (rp_components p)"
    "\<forall>c \<in> set (rp_components p). plain_component c \<and> validate_component c = Inr ()"
    "eq_ignore_ascii_case (case file_extension (last (rp_components p)) of None \<Rightarrow> [] | Some e \<Rightarrow> e)
       (extension_for encoding)"
    using validated_path [OF path] by blast+
  have "path_components (rp_wire p) = map Normal (rp_components p)"
    using path_components_join v by simp
  moreover have "\<exists>e. file_extension (last (rp_components p)) = Some e \<and> eq_ignore_ascii_case e (extension_for encoding)"
    using v(4) by (cases "file_extension (last (rp_components p))") (auto simp: eq_ignore_ascii_case_def)
  ultimately show ?thesis using v stored_path [OF path] by (simp add: resolve_normal)
qed

definition demo_output :: OutputConfig where
  "demo_output = \<lparr>root_directory = ''/data'', camera_directory_template = ''{cameraId}'',
     file_name_template = ''{captureId}.{extension}'', write_metadata_sidecar = True, minimum_free_bytes = 0,
     minimum_free_percent = 0, directory_mode = ''0750'', file_mode = ''0640''\<rparr>"

definition demo_variables :: OutputPathVariables where
  "demo_variables = \<lparr>ov_camera_id = ''../x'', ov_capture_id = ''c/1'',
     ov_timestamp = \<lparr>ts_year = 2024, ts_month = 2, ts_day = 3, ts_hour = 4, ts_minute = 5, ts_second = 6,
       ts_millis = 7\<rparr>\<rparr>"

theorem output_path_confined_witness:
  "\<exists>p. render_output_path demo_output demo_variables Png = Inr p \<and>
     resolve [''data''] (path_components (rp_wire p)) = [''data'', ''___x'', ''c_1.png'']"
proof -
  have "render_output_path demo_output demo_variables Png =
      Inr \<lparr>rp_components = [''___x'', ''c_1.png''], rp_wire = ''___x/c_1.png''\<rparr>"
    by code_simp
  from this and output_path_confined [OF this, of "[''data'']"] show ?thesis by simp
qed

end
