(* ===== verification/Storage.thy ===== *)
theory Storage
  imports Output_Path Encoding Json
begin

text \<open>
  Capability-scoped persistence of images on Linux (\<open>src/storage.rs\<close>): preparing a partial file,
  installing the metadata sidecar and the image without overwriting anything, cleaning up what was not
  installed, and reconciling an installation that a crash interrupted.

  Files are a map from a directory, named by its components below the output root, and a name in it to
  a node. Every system call happens at a tick of a counter, and the environment decides at each tick
  whether the call fails, whether the capture is cancelled and whether the directory was moved away.
  Every change of the directory and the durable start of an installation is recorded in a history, whose
  entries are the states a crash can leave behind. A directory that was opened is the same directory
  object for the rest of an operation.
\<close>

section \<open>Programs\<close>

type_synonym ('s, 'a) prog = "'s \<Rightarrow> ('s \<times> 'a result) option"

definition give :: "'a \<Rightarrow> ('s, 'a) prog" where
  "give x s = Some (s, Inr x)"

definition fail :: "camera_error \<Rightarrow> ('s, 'a) prog" where
  "fail e s = Some (s, Inl e)"

definition lift :: "'a result \<Rightarrow> ('s, 'a) prog" where
  "lift r s = Some (s, r)"

definition bind :: "('s, 'a) prog \<Rightarrow> ('a \<Rightarrow> ('s, 'b) prog) \<Rightarrow> ('s, 'b) prog" where
  "bind m k s = (case m s of None \<Rightarrow> None | Some (s', Inl e) \<Rightarrow> Some (s', Inl e) | Some (s', Inr x) \<Rightarrow> k x s')"

definition catch :: "('s, 'a) prog \<Rightarrow> (camera_error \<Rightarrow> ('s, 'a) prog) \<Rightarrow> ('s, 'a) prog" where
  "catch m h s = (case m s of None \<Rightarrow> None | Some (s', Inl e) \<Rightarrow> h e s' | Some (s', Inr x) \<Rightarrow> Some (s', Inr x))"

text \<open>The outcome, success or not, is handed on.\<close>

definition attempt :: "('s, 'a) prog \<Rightarrow> ('a result \<Rightarrow> ('s, 'b) prog) \<Rightarrow> ('s, 'b) prog" where
  "attempt m k s = (case m s of None \<Rightarrow> None | Some (s', r) \<Rightarrow> k r s')"

text \<open>\<open>let _ = m\<close>: the outcome is ignored.\<close>

definition ignore :: "('s, 'a) prog \<Rightarrow> ('s, unit) prog" where
  "ignore m s = (case m s of None \<Rightarrow> None | Some (s', _) \<Rightarrow> Some (s', Inr ()))"

definition seq :: "('s, 'a) prog \<Rightarrow> ('s, 'b) prog \<Rightarrow> ('s, 'b) prog" where
  "seq m n = bind m (\<lambda>_. n)"

section \<open>The file system\<close>

datatype node = Regular "byte list" | Directory | Symlink

record dirstat =
  ds_device :: nat
  ds_mode :: "32 word"

type_synonym names = "string list \<times> string \<Rightarrow> node option"

record store =
  st_names :: names
  st_dirs :: "string list \<Rightarrow> dirstat option"
  st_started :: bool
  st_ticks :: nat
  st_history :: "(names \<times> bool) list"

record store_env =
  sv_fails :: "nat \<Rightarrow> string option"
  sv_cancelled :: "nat \<Rightarrow> bool"
  sv_moved :: "nat \<Rightarrow> bool"
  sv_accepts :: "nat \<Rightarrow> io_error + nat"

definition advance_tick :: "store \<Rightarrow> store" where
  "advance_tick s = s\<lparr>st_ticks := Suc (st_ticks s)\<rparr>"

definition remember :: "store \<Rightarrow> store" where
  "remember s = s\<lparr>st_history := (st_names s, st_started s) # st_history s\<rparr>"

definition set_name :: "string list \<times> string \<Rightarrow> node option \<Rightarrow> store \<Rightarrow> store" where
  "set_name k v s = remember (s\<lparr>st_names := (st_names s)(k := v)\<rparr>)"

definition syscall :: "store_env \<Rightarrow> (string \<Rightarrow> camera_error) \<Rightarrow> (store, 'a) prog \<Rightarrow> (store, 'a) prog" where
  "syscall env label act s =
     (case sv_fails env (st_ticks s) of
        Some m \<Rightarrow> Some (advance_tick s, Inl (label m))
      | None \<Rightarrow> act (advance_tick s))"

definition storage_label :: "string \<Rightarrow> string \<Rightarrow> camera_error" where
  "storage_label text m = StorageError (text @ m)"

definition check_cancelled :: "store_env \<Rightarrow> string \<Rightarrow> (store, unit) prog" where
  "check_cancelled env stage s =
     (if sv_cancelled env (st_ticks s)
      then Some (advance_tick s, Inl (Rejected CaptureCancelled (''capture cancelled '' @ stage)))
      else Some (advance_tick s, Inr ()))"

section \<open>The root capability\<close>

record RootCapability =
  rc_canonical :: "string list"
  rc_device :: nat
  rc_directory_mode :: "32 word"
  rc_file_mode :: "32 word"

text \<open>Opening the root: the three calls on it, and the directory must be closed to other writers.\<close>

definition capability_open ::
    "store_env \<Rightarrow> string list \<Rightarrow> 32 word \<Rightarrow> 32 word \<Rightarrow> (store, RootCapability) prog" where
  "capability_open env canonical dmode fmode =
     seq (syscall env (storage_label ''cannot open output root: '') (give ())) (
     seq (syscall env (storage_label ''output filesystem lacks required openat2 containment: '') (give ())) (
     syscall env (storage_label ''cannot stat output root: '') (\<lambda>s.
       case st_dirs s [] of
         None \<Rightarrow> fail (StorageError ''cannot stat output root: removed'') s
       | Some stat \<Rightarrow>
           if and (ds_mode stat) 18 \<noteq> 0
           then fail (StorageError ''output root must not be writable by group or other principals'') s
           else give \<lparr>rc_canonical = canonical, rc_device = ds_device stat, rc_directory_mode = dmode,
                      rc_file_mode = fmode\<rparr> s)))"

definition revalidate_parent_at :: "store_env \<Rightarrow> (store, unit) prog" where
  "revalidate_parent_at env = syscall env (storage_label ''cannot revalidate final parent capability: '') (\<lambda>s.
     if sv_moved env (st_ticks s)
     then fail (StorageError ''final parent capability no longer names its exact output-root-relative path'') s
     else give () s)"

definition open_directory :: "store_env \<Rightarrow> string list \<Rightarrow> (string \<Rightarrow> camera_error) \<Rightarrow> (store, bool) prog" where
  "open_directory env dir label = syscall env label (\<lambda>s. give (st_dirs s dir \<noteq> None) s)"

definition make_directory :: "store_env \<Rightarrow> RootCapability \<Rightarrow> string list \<Rightarrow> string \<Rightarrow> (store, unit) prog" where
  "make_directory env cap dir c =
     syscall env (storage_label (''cannot create output directory '' @ quoted_text c @ '': '')) (\<lambda>s.
       give () (s\<lparr>st_dirs := (st_dirs s)(dir \<mapsto> \<lparr>ds_device = rc_device cap, ds_mode = rc_directory_mode cap\<rparr>)\<rparr>))"

definition open_component :: "store_env \<Rightarrow> RootCapability \<Rightarrow> bool \<Rightarrow> string list \<Rightarrow> string \<Rightarrow> (store, unit) prog" where
  "open_component env cap create dir c =
     (let unsafe = storage_label (''cannot open output directory '' @ quoted_text c @ '' without following links: '') in
      bind (open_directory env dir unsafe) (\<lambda>present.
        if present then give ()
        else if create
        then seq (make_directory env cap dir c)
               (bind (open_directory env dir
                  (storage_label (''created output directory '' @ quoted_text c @ '' is unsafe: ''))) (\<lambda>_. give ()))
        else fail (unsafe ''no such directory'')))"

definition inspect_directory :: "store_env \<Rightarrow> RootCapability \<Rightarrow> string list \<Rightarrow> (store, unit) prog" where
  "inspect_directory env cap dir = syscall env (storage_label ''cannot inspect output directory: '') (\<lambda>s.
     case st_dirs s dir of
       None \<Rightarrow> fail (StorageError ''cannot inspect output directory: removed'') s
     | Some d \<Rightarrow>
         if ds_device d \<noteq> rc_device cap
         then fail (StorageError ''output path crossed a mount/filesystem boundary'') s
         else if and (ds_mode d) 18 \<noteq> 0
         then fail (StorageError ''output directory must not be writable by group or other principals'') s
         else give () s)"

fun open_walk :: "store_env \<Rightarrow> RootCapability \<Rightarrow> bool \<Rightarrow> string list \<Rightarrow> string list \<Rightarrow> (store, unit) prog" where
  "open_walk env cap create dir [] = give ()"
| "open_walk env cap create dir (c # cs) =
     seq (open_component env cap create (dir @ [c]) c)
       (seq (inspect_directory env cap (dir @ [c])) (open_walk env cap create (dir @ [c]) cs))"

definition open_parent :: "store_env \<Rightarrow> RootCapability \<Rightarrow> string list \<Rightarrow> bool \<Rightarrow> (store, unit) prog" where
  "open_parent env cap components create =
     seq (syscall env (storage_label ''cannot duplicate root handle: '') (give ()))
       (seq (open_walk env cap create [] components) (revalidate_parent_at env))"

definition ensure_absent :: "store_env \<Rightarrow> string list \<times> string \<Rightarrow> string \<Rightarrow> (store, unit) prog" where
  "ensure_absent env k label =
     syscall env (storage_label (''cannot inspect '' @ label @ '' '' @ quoted_text (snd k) @ '': '')) (\<lambda>s.
       if st_names s k = None then give () s
       else fail (StorageError (label @ '' '' @ quoted_text (snd k) @ '' already exists; overwrite refused'')) s)"

definition create_partial_path :: "store_env \<Rightarrow> string list \<times> string \<Rightarrow> (store, unit) prog" where
  "create_partial_path env k =
     (let label = storage_label (''cannot exclusively create partial '' @ quoted_text (snd k) @ '': '') in
      syscall env label (\<lambda>s.
        if st_names s k \<noteq> None then fail (label ''file exists'') s
        else give () (set_name k (Some (Regular [])) s)))"

definition unlink :: "store_env \<Rightarrow> string list \<times> string \<Rightarrow> (string \<Rightarrow> camera_error) \<Rightarrow> (store, unit) prog" where
  "unlink env k label = syscall env label (\<lambda>s.
     case st_names s k of
       None \<Rightarrow> fail (label ''no such file'') s
     | Some Directory \<Rightarrow> fail (label ''is a directory'') s
     | Some _ \<Rightarrow> give () (set_name k None s))"

definition remove_file :: "store_env \<Rightarrow> string list \<times> string \<Rightarrow> (store, unit) prog" where
  "remove_file env k =
     (let label = storage_label (''cannot remove '' @ quoted_text (snd k) @ '': '') in
      syscall env label (\<lambda>s.
        case st_names s k of
          None \<Rightarrow> give () s
        | Some Directory \<Rightarrow> fail (label ''is a directory'') s
        | Some _ \<Rightarrow> give () (set_name k None s)))"

definition link_name :: "store_env \<Rightarrow> string list \<times> string \<Rightarrow> string list \<times> string \<Rightarrow> (store, unit) prog" where
  "link_name env source target =
     (let label = storage_label (''no-clobber install '' @ quoted_text (snd target) @ '' failed: '') in
      syscall env label (\<lambda>s.
        case st_names s source of
          None \<Rightarrow> fail (label ''no such file'') s
        | Some Directory \<Rightarrow> fail (label ''is a directory'') s
        | Some n \<Rightarrow> if st_names s target \<noteq> None then fail (label ''file exists'') s
                   else give () (set_name target (Some n) s)))"

definition fsync_parent :: "store_env \<Rightarrow> (store, unit) prog" where
  "fsync_parent env = syscall env (storage_label ''failed to sync output directory: '') (give ())"

definition install_no_clobber ::
    "store_env \<Rightarrow> string list \<Rightarrow> string \<Rightarrow> string \<Rightarrow> (store, unit) prog" where
  "install_no_clobber env dir partial final_name =
     seq (revalidate_parent_at env)
       (seq (link_name env (dir, partial) (dir, final_name))
         (seq
           (catch (revalidate_parent_at env) (\<lambda>e.
              attempt (unlink env (dir, final_name) (\<lambda>m. StorageError
                (''output parent moved during no-clobber install and final-link rollback failed: '' @
                 camera_error_display e @ ''; rollback: '' @ m))) (\<lambda>rollback.
              seq (ignore (fsync_parent env)) (fail (case rollback of
                Inl e' \<Rightarrow> e'
              | Inr _ \<Rightarrow> StorageError (''output parent moved during no-clobber install; final link rolled back: '' @
                  camera_error_display e))))))
           (unlink env (dir, partial) (storage_label
              (''installed '' @ quoted_text final_name @ '' but could not remove its partial: '')))))"

definition sync_parent :: "store_env \<Rightarrow> (store, unit) prog" where
  "sync_parent env = seq (revalidate_parent_at env) (fsync_parent env)"

definition open_existing :: "store_env \<Rightarrow> string list \<times> string \<Rightarrow> (store, node option) prog" where
  "open_existing env k =
     (let label = storage_label (''cannot safely open '' @ quoted_text (snd k) @ '': '') in
      syscall env label (\<lambda>s.
        if st_names s k = Some Symlink then fail (label ''symbolic link'') s else give (st_names s k) s))"

section \<open>Checksums\<close>

definition CHECKSUM_BUFFER_BYTES :: nat where "CHECKSUM_BUFFER_BYTES = 64 * 1024"

fun checksum_reads :: "store_env \<Rightarrow> nat \<Rightarrow> (store, unit) prog" where
  "checksum_reads env 0 = give ()"
| "checksum_reads env (Suc n) =
     seq (check_cancelled env ''while checksumming the partial'')
       (seq (syscall env Io (give ())) (checksum_reads env n))"

definition stream_checksum ::
    "store_env \<Rightarrow> (byte list \<Rightarrow> string) \<Rightarrow> byte list \<Rightarrow> (store, nat \<times> string) prog" where
  "stream_checksum env sha bytes =
     seq (syscall env Io (give ()))
       (seq (checksum_reads env (Suc (length (chunks CHECKSUM_BUFFER_BYTES bytes)))) (give (length bytes, sha bytes)))"

definition verify_file ::
    "store_env \<Rightarrow> (byte list \<Rightarrow> string) \<Rightarrow> node \<Rightarrow> nat \<Rightarrow> string \<Rightarrow> (store, unit) prog" where
  "verify_file env sha n expected_bytes expected_sha256 =
     seq (syscall env Io (give ()))
       (case n of
          Regular bytes \<Rightarrow>
            if length bytes \<noteq> expected_bytes
            then fail (StorageError ''persisted image size/type does not match the catalog record'')
            else bind (stream_checksum env sha bytes) (\<lambda>(m, digest).
                   if m \<noteq> expected_bytes \<or> \<not> eq_ignore_ascii_case digest expected_sha256
                   then fail (StorageError ''persisted image checksum does not match the catalog record'')
                   else give ())
        | _ \<Rightarrow> fail (StorageError ''persisted image size/type does not match the catalog record''))"

section \<open>Sidecars\<close>

definition MAX_SIDECAR_BYTES :: nat where "MAX_SIDECAR_BYTES = 1024 * 1024"

text \<open>The JSON library: the pieces in which it writes a value, and the reading of a text.\<close>

record json_library =
  jl_pieces :: "json \<Rightarrow> byte list list"
  jl_parse :: "byte list \<Rightarrow> string + json"

definition sidecar_bytes :: "json_library \<Rightarrow> json \<Rightarrow> byte list" where
  "sidecar_bytes jl body = concat (jl_pieces jl body) @ [10]"

record SidecarWriter =
  sw_file :: "byte list"
  sw_written :: nat
  sw_ticks :: nat

definition sidecar_write :: "store_env \<Rightarrow> byte list \<Rightarrow> SidecarWriter \<Rightarrow> SidecarWriter \<times> (io_error + nat)" where
  "sidecar_write env buffer w =
     (let w1 = w\<lparr>sw_ticks := Suc (sw_ticks w)\<rparr>; next_total = sw_written w + length buffer in
      if sv_cancelled env (sw_ticks w) then (w1, Inl IoInterrupted)
      else if MAX_SIDECAR_BYTES < next_total then (w1, Inl FileTooLarge)
      else
        (case sv_accepts env (sw_ticks w) of
           Inl e \<Rightarrow> (w1, Inl e)
         | Inr n \<Rightarrow>
             let k = min n (length buffer) in
             (w1\<lparr>sw_file := sw_file w @ take k buffer, sw_written := next_total - (length buffer - k)\<rparr>, Inr k)))"

fun write_pieces ::
    "store_env \<Rightarrow> byte list list \<Rightarrow> SidecarWriter \<Rightarrow> (SidecarWriter \<times> (io_error + unit)) option" where
  "write_pieces env [] w = Some (w, Inr ())"
| "write_pieces env (p # ps) w =
     (case write_all (sidecar_write env) p w of
        None \<Rightarrow> None
      | Some (w1, Inl e) \<Rightarrow> Some (w1, Inl e)
      | Some (w1, Inr _) \<Rightarrow> write_pieces env ps w1)"

definition serialize_sidecar ::
    "store_env \<Rightarrow> json_library \<Rightarrow> json \<Rightarrow> SidecarWriter \<Rightarrow> (SidecarWriter \<times> unit result) option" where
  "serialize_sidecar env jl body w =
     (case write_pieces env (jl_pieces jl body) w of
        None \<Rightarrow> None
      | Some (w1, Inl e) \<Rightarrow> Some (w1, Inl (JsonError (io_error_text e)))
      | Some (w1, Inr _) \<Rightarrow>
          (case write_all (sidecar_write env) [10] w1 of
             None \<Rightarrow> None
           | Some (w2, Inl e) \<Rightarrow> Some (w2, Inl (Io (io_error_text e)))
           | Some (w2, Inr _) \<Rightarrow> Some (w2, Inr ())))"

definition fill_sidecar :: "store_env \<Rightarrow> json_library \<Rightarrow> string list \<times> string \<Rightarrow> json \<Rightarrow> (store, unit) prog" where
  "fill_sidecar env jl k body s =
     (case serialize_sidecar env jl body \<lparr>sw_file = [], sw_written = 0, sw_ticks = st_ticks s\<rparr> of
        None \<Rightarrow> None
      | Some (w, r) \<Rightarrow> Some (set_name k (Some (Regular (sw_file w))) (s\<lparr>st_ticks := sw_ticks w\<rparr>), r))"

definition write_sidecar ::
    "store_env \<Rightarrow> json_library \<Rightarrow> string list \<Rightarrow> string \<Rightarrow> string \<Rightarrow> json \<Rightarrow> (store, unit) prog" where
  "write_sidecar env jl dir partial final_name body =
     seq (create_partial_path env (dir, partial))
       (seq (catch (fill_sidecar env jl (dir, partial) body)
               (\<lambda>e. seq (ignore (remove_file env (dir, partial))) (fail e)))
         (seq (syscall env (storage_label ''failed to durably flush sidecar partial: '') (give ()))
           (seq (check_cancelled env ''before sidecar installation'')
             (install_no_clobber env dir partial final_name))))"

definition compare_sidecar ::
    "store_env \<Rightarrow> json_library \<Rightarrow> string list \<times> string \<Rightarrow> json \<Rightarrow> node \<Rightarrow> (store, bool) prog" where
  "compare_sidecar env jl k expected_body n =
     (let label = ''metadata sidecar '' @ quoted_text (snd k) in
      seq (syscall env (storage_label (''cannot inspect '' @ label @ '': '')) (give ()))
        (case n of
           Regular actual \<Rightarrow>
             if MAX_SIDECAR_BYTES < length actual
             then fail (StorageError (label @ '' is not a bounded regular file''))
             else if MAX_SIDECAR_BYTES < length (sidecar_bytes jl expected_body)
             then fail (StorageError ''expected metadata sidecar exceeds one MiB'')
             else seq (syscall env (storage_label (''cannot read '' @ label @ '': '')) (give ()))
               (case jl_parse jl actual of
                  Inl m \<Rightarrow> fail (StorageError (label @ '' is invalid JSON: '' @ m))
                | Inr v \<Rightarrow>
                    if \<not> is_JObject v then fail (StorageError (label @ '' must contain a JSON object''))
                    else if actual \<noteq> sidecar_bytes jl expected_body
                    then fail (StorageError (label @ '' does not match the exact durable terminal body''))
                    else give True)
         | _ \<Rightarrow> fail (StorageError (label @ '' is not a bounded regular file''))))"

definition exact_sidecar ::
    "store_env \<Rightarrow> json_library \<Rightarrow> string list \<times> string \<Rightarrow> json \<Rightarrow> (store, bool) prog" where
  "exact_sidecar env jl k expected_body =
     (if \<not> is_JObject expected_body
      then fail (StorageError ''expected metadata sidecar body must be a JSON object'')
      else bind (open_existing env k) (\<lambda>found.
        case found of
          None \<Rightarrow> give False
        | Some n \<Rightarrow> compare_sidecar env jl k expected_body n))"

section \<open>Preparing a capture\<close>

record StoragePolicy =
  sp_canonical_root :: "string list"
  sp_write_sidecar :: bool
  sp_minimum_free_bytes :: u64
  sp_minimum_free_percent :: nat

text \<open>Opening an output root; resolving its path and asking whether it is a directory are calls of the system.\<close>

definition open_with_observer ::
    "store_env \<Rightarrow> (string \<Rightarrow> string + string list) \<Rightarrow> (string list \<Rightarrow> bool) \<Rightarrow> OutputConfig \<Rightarrow>
     (store, StoragePolicy \<times> RootCapability) prog" where
  "open_with_observer env canonicalize is_dir out =
     (let configured = root_directory out in
      if \<not> is_absolute configured then fail (StorageError ''output rootDirectory must be absolute'')
      else (case canonicalize configured of
          Inl m \<Rightarrow> fail (StorageError (''output root '' @ quoted_text configured @
            '' must already exist and be canonicalizable: '' @ m))
        | Inr canonical_root \<Rightarrow>
            if \<not> is_dir canonical_root then fail (StorageError ''output rootDirectory is not a directory'')
            else
              bind (lift (parse_mode (directory_mode out) False)) (\<lambda>dmode.
              bind (lift (parse_mode (file_mode out) True)) (\<lambda>fmode.
              bind (capability_open env canonical_root dmode fmode) (\<lambda>cap.
                give (\<lparr>sp_canonical_root = canonical_root, sp_write_sidecar = write_metadata_sidecar out,
                  sp_minimum_free_bytes = minimum_free_bytes out,
                  sp_minimum_free_percent = minimum_free_percent out\<rparr>, cap))))))"

record StorageReservation =
  sr_current_bytes :: u64
  sr_other_bytes :: u64

text \<open>The free and total bytes of the output filesystem, as probed. Both probes can fail.\<close>

definition check_storage_pressure ::
    "StoragePolicy \<Rightarrow> u64 result \<Rightarrow> u64 result \<Rightarrow> StorageReservation \<Rightarrow> unit result" where
  "check_storage_pressure pol available_space total_space reservation =
     and_then available_space (\<lambda>available.
     and_then total_space (\<lambda>total_bytes.
     and_then (ok_or (checked_add (sr_current_bytes reservation) (sr_other_bytes reservation))
       (Rejected ResourceLimit ''disk reservation overflow'')) (\<lambda>reserved.
       let remaining = (if reserved \<le> available then available - reserved else 0);
           remaining_percent = (if total_bytes = 0 then 0 else (unat remaining * 100 div unat total_bytes) mod 256)
       in ensure (sp_minimum_free_bytes pol \<le> remaining \<and> sp_minimum_free_percent pol \<le> remaining_percent)
            (Rejected StoragePressure ''output filesystem would cross its configured free-space floor''))))"

record PrepareCapture =
  pc_capture_id :: string
  pc_relative_path :: RelativeOutputPath
  pc_frame :: CaptureFrame
  pc_encoding :: EncodingRequest
  pc_reservation :: StorageReservation

record ImageArtifact =
  ia_absolute_path :: string
  ia_relative_path :: string
  ia_file_uri :: string
  ia_content_type :: string
  ia_encoding :: OutputEncoding
  ia_bytes :: nat
  ia_sha256 :: string
  ia_metadata_sidecar_relative_path :: "string option"

record PreparedInstall =
  pp_parent :: "string list"
  pp_capture_id :: string
  pp_final_name :: string
  pp_partial_name :: string
  pp_sidecar_final_name :: string
  pp_sidecar_partial_name :: string
  pp_partial_path :: string
  pp_artifact :: ImageArtifact
  pp_installation_started :: bool
  pp_sidecar_installed :: bool
  pp_completed :: bool

definition PARTIAL_PREFIX :: string where "PARTIAL_PREFIX = ''.camera-adapter-''"

definition partial_name :: "string \<Rightarrow> string" where
  "partial_name capture_token = PARTIAL_PREFIX @ capture_token @ ''.image.partial''"

definition sidecar_partial_name :: "string \<Rightarrow> string" where
  "sidecar_partial_name capture_token = PARTIAL_PREFIX @ capture_token @ ''.sidecar.partial''"

definition sidecar_final_name :: "string \<Rightarrow> string" where
  "sidecar_final_name final_name = final_name @ ''.json''"

definition absolute_text :: "string list \<Rightarrow> string" where
  "absolute_text cs = slash # join_path cs"

text \<open>What the operations take from outside: the codecs and the behaviour of the file while encoding,
  SHA-256 as lower-case hexadecimal, the JSON library, and the building of a file URI.\<close>

record ('p, 't) storage_libs =
  sl_codecs :: "('p, 't) codecs"
  sl_encode_env :: io_env
  sl_sha :: "byte list \<Rightarrow> string"
  sl_json :: json_library
  sl_file_uri :: "string \<Rightarrow> string option"

definition fill_partial ::
    "('p, 't) storage_libs \<Rightarrow> string list \<times> string \<Rightarrow> PrepareCapture \<Rightarrow> (store, EncodedImage) prog" where
  "fill_partial libs k request s =
     (case encode_to (sl_codecs libs) (sl_encode_env libs) (pc_frame request) (pc_encoding request)
             \<lparr>sk_bytes = [], sk_pos = 0\<rparr> (st_ticks s) of
        None \<Rightarrow> None
      | Some (f, r) \<Rightarrow> Some (set_name k (Some (Regular (sk_bytes f))) s, r))"

definition checked_partial ::
    "store_env \<Rightarrow> ('p, 't) storage_libs \<Rightarrow> string list \<times> string \<Rightarrow> EncodedImage \<Rightarrow> (store, string) prog" where
  "checked_partial env libs k encoded s =
     (case st_names s k of
        Some (Regular content) \<Rightarrow>
          bind (stream_checksum env (sl_sha libs) content) (\<lambda>(bytes, sha256).
            if bytes \<noteq> ei_bytes encoded
            then seq (ignore (remove_file env k)) (fail (StorageError ''encoded byte count changed before durable flush''))
            else give sha256) s
      | _ \<Rightarrow> fail (StorageError ''encoded byte count changed before durable flush'') s)"

definition make_artifact ::
    "StoragePolicy \<Rightarrow> PrepareCapture \<Rightarrow> EncodedImage \<Rightarrow> string \<Rightarrow> string \<Rightarrow> ImageArtifact" where
  "make_artifact pol request encoded sha256 uri =
     (let comps = rp_components (pc_relative_path request); parents = butlast comps in
      \<lparr>ia_absolute_path = absolute_text (sp_canonical_root pol @ comps),
       ia_relative_path = rp_wire (pc_relative_path request), ia_file_uri = uri,
       ia_content_type = ei_content_type encoded, ia_encoding = ei_encoding encoded, ia_bytes = ei_bytes encoded,
       ia_sha256 = sha256,
       ia_metadata_sidecar_relative_path = (if sp_write_sidecar pol
         then Some (join_path (parents @ [sidecar_final_name (last comps)])) else None)\<rparr>)"

definition prepare_linux ::
    "store_env \<Rightarrow> ('p, 't) storage_libs \<Rightarrow> StoragePolicy \<Rightarrow> RootCapability \<Rightarrow> PrepareCapture \<Rightarrow>
     (store, PreparedInstall) prog" where
  "prepare_linux env libs pol cap request =
     (let comps = rp_components (pc_relative_path request) in
      if comps = [] then fail (StorageError ''output path has no filename'')
      else
        let dir = butlast comps; final_name = last comps in
        seq (open_parent env cap dir True) (
        seq (revalidate_parent_at env) (
        bind (lift (sanitize_variable (pc_capture_id request) ''captureId'')) (\<lambda>capture_token.
          let partial = (dir, partial_name capture_token); uri_path = absolute_text (sp_canonical_root pol @ comps) in
          seq (ensure_absent env (dir, final_name) ''final image'') (
          seq (ensure_absent env (dir, sidecar_final_name final_name) ''metadata sidecar'') (
          seq (create_partial_path env partial) (
          bind (catch (fill_partial libs partial request)
                  (\<lambda>e. seq (ignore (remove_file env partial)) (fail e))) (\<lambda>encoded.
          seq (syscall env (storage_label ''failed to durably flush image partial: '') (give ())) (
          bind (checked_partial env libs partial encoded) (\<lambda>sha256.
          bind (lift (ok_or (sl_file_uri libs uri_path) (StorageError ''failed to build final file URI''))) (\<lambda>uri.
            give \<lparr>pp_parent = dir, pp_capture_id = pc_capture_id request, pp_final_name = final_name,
                  pp_partial_name = partial_name capture_token,
                  pp_sidecar_final_name = sidecar_final_name final_name,
                  pp_sidecar_partial_name = sidecar_partial_name capture_token,
                  pp_partial_path = absolute_text (sp_canonical_root pol @ dir @ [partial_name capture_token]),
                  pp_artifact = make_artifact pol request encoded sha256 uri,
                  pp_installation_started = False, pp_sidecar_installed = False, pp_completed = False\<rparr>)))))))))))"

definition prepare_capture ::
    "store_env \<Rightarrow> ('p, 't) storage_libs \<Rightarrow> StoragePolicy \<Rightarrow> RootCapability \<Rightarrow> u64 result \<Rightarrow> u64 result \<Rightarrow>
     PrepareCapture \<Rightarrow> (store, PreparedInstall) prog" where
  "prepare_capture env libs pol cap available_space total_space request =
     seq (lift (check_storage_pressure pol available_space total_space (pc_reservation request))) (
     seq (lift (ensure (er_maximum_output_bytes (pc_encoding request) \<le> sr_current_bytes (pc_reservation request))
            (Rejected ResourceLimit ''encoding ceiling exceeds the accepted disk reservation''))) (
     seq (lift (ensure (length (cf_bytes (pc_frame request)) \<le> unat (sr_current_bytes (pc_reservation request)))
            (Rejected ResourceLimit ''source frame exceeds the accepted disk reservation''))) (
     seq (check_cancelled env ''before persistence'') (prepare_linux env libs pol cap request))))"

section \<open>Installation\<close>

datatype InstallDecision = DecisionStarted | DecisionAlreadyStarted | DecisionRejected

text \<open>An installation works on the files and on its own flags.\<close>

type_synonym install_state = "store \<times> PreparedInstall"

definition on_store :: "(store, 'a) prog \<Rightarrow> (install_state, 'a) prog" where
  "on_store m sp = (case m (fst sp) of None \<Rightarrow> None | Some (s', r) \<Rightarrow> Some ((s', snd sp), r))"

definition set_flag :: "(PreparedInstall \<Rightarrow> PreparedInstall) \<Rightarrow> (install_state, unit) prog" where
  "set_flag f sp = Some ((fst sp, f (snd sp)), Inr ())"

definition install_sidecar ::
    "store_env \<Rightarrow> json_library \<Rightarrow> StoragePolicy \<Rightarrow> json option \<Rightarrow> (install_state, unit) prog" where
  "install_sidecar env jl pol sidecar_body sp =
     (case (sp_write_sidecar pol, sidecar_body) of
        (True, Some body) \<Rightarrow>
          if \<not> is_JObject body then fail (StorageError ''metadata sidecar body must be a JSON object'') sp
          else seq (on_store (write_sidecar env jl (pp_parent (snd sp)) (pp_sidecar_partial_name (snd sp))
                 (pp_sidecar_final_name (snd sp)) body))
               (seq (set_flag (\<lambda>p. p\<lparr>pp_sidecar_installed := True\<rparr>)) (on_store (sync_parent env))) sp
      | (True, None) \<Rightarrow> fail (StorageError ''required metadata sidecar body is missing'') sp
      | (False, Some _) \<Rightarrow> fail (StorageError ''sidecar body supplied while writeMetadataSidecar is false'') sp
      | (False, None) \<Rightarrow> give () sp)"

text \<open>The answer of the catalog gate; when it is an error the durable flag may have been set all the same.\<close>

record gate_answer =
  ga_decision :: "InstallDecision result"
  ga_committed :: bool

definition gate_commits :: "gate_answer \<Rightarrow> bool" where
  "gate_commits g = (case ga_decision g of Inr DecisionStarted \<Rightarrow> True | Inr _ \<Rightarrow> False | Inl _ \<Rightarrow> ga_committed g)"

definition ask_gate :: "gate_answer \<Rightarrow> (install_state, unit) prog" where
  "ask_gate g sp =
     (let s = (if gate_commits g then remember ((fst sp)\<lparr>st_started := True\<rparr>) else fst sp);
          started = (snd sp)\<lparr>pp_installation_started := True\<rparr>
      in case ga_decision g of
           Inl e \<Rightarrow> fail e (s, started)
         | Inr DecisionStarted \<Rightarrow> give () (s, started)
         | Inr DecisionAlreadyStarted \<Rightarrow>
             fail (StorageError ''install_started was already true; startup reconciliation owns this job'') (s, started)
         | Inr DecisionRejected \<Rightarrow>
             fail (Rejected CaptureCancelled ''cancellation or another terminal state won before installation'')
               (s, snd sp))"

definition expose_image ::
    "store_env \<Rightarrow> (byte list \<Rightarrow> string) \<Rightarrow> PreparedInstall \<Rightarrow> (store, ImageArtifact) prog" where
  "expose_image env sha p =
     seq (install_no_clobber env (pp_parent p) (pp_partial_name p) (pp_final_name p)) (
     seq (sync_parent env) (
     bind (open_existing env (pp_parent p, pp_final_name p)) (\<lambda>found.
       case found of
         None \<Rightarrow> fail (StorageError ''installed image disappeared'')
       | Some n \<Rightarrow>
           seq (verify_file (env\<lparr>sv_cancelled := \<lambda>_. False\<rparr>) sha n (ia_bytes (pp_artifact p)) (ia_sha256 (pp_artifact p)))
             (give (pp_artifact p)))))"

definition install_body ::
    "store_env \<Rightarrow> ('p, 't) storage_libs \<Rightarrow> StoragePolicy \<Rightarrow> RootCapability \<Rightarrow> gate_answer \<Rightarrow> json option \<Rightarrow>
     (install_state, ImageArtifact) prog" where
  "install_body env libs pol cap g sidecar_body sp =
     seq (on_store (open_parent env cap (pp_parent (snd sp)) False)) (
     seq (on_store (revalidate_parent_at env)) (
     seq (on_store (check_cancelled env ''before atomic installation'')) (
     seq (install_sidecar env (sl_json libs) pol sidecar_body) (
     seq (ask_gate g) (
     bind (on_store (expose_image env (sl_sha libs) (snd sp))) (\<lambda>artifact.
     seq (set_flag (\<lambda>p. p\<lparr>pp_completed := True\<rparr>)) (give artifact))))))) sp"

text \<open>\<open>Drop\<close>: whatever was not handed over to installation is removed, every failure ignored.\<close>

definition drop_prepared :: "store_env \<Rightarrow> RootCapability \<Rightarrow> PreparedInstall \<Rightarrow> (store, unit) prog" where
  "drop_prepared env cap p =
     (if pp_completed p \<or> pp_installation_started p then give ()
      else ignore (seq (open_parent env cap (pp_parent p) False) (
        seq (ignore (remove_file env (pp_parent p, pp_partial_name p))) (
        seq (ignore (remove_file env (pp_parent p, pp_sidecar_partial_name p))) (
        seq (if pp_sidecar_installed p then ignore (remove_file env (pp_parent p, pp_sidecar_final_name p)) else give ())
          (ignore (sync_parent env)))))))"

definition install ::
    "store_env \<Rightarrow> ('p, 't) storage_libs \<Rightarrow> StoragePolicy \<Rightarrow> RootCapability \<Rightarrow> gate_answer \<Rightarrow> json option \<Rightarrow>
     PreparedInstall \<Rightarrow> (store, ImageArtifact) prog" where
  "install env libs pol cap g sidecar_body p s =
     (case install_body env libs pol cap g sidecar_body (s, p) of
        None \<Rightarrow> None
      | Some ((s', p'), r) \<Rightarrow> seq (drop_prepared env cap p') (lift r) s')"

section \<open>Reconciliation\<close>

record RecoveryRequest =
  rr_capture_id :: string
  rr_relative_path :: RelativeOutputPath
  rr_expected_bytes :: nat
  rr_expected_sha256 :: string
  rr_sidecar_body :: "json option"

datatype RecoveryOutcome = AlreadyInstalled | InstalledFromPartial | MissingArtifactsCleaned

definition reconcile_final ::
    "store_env \<Rightarrow> ('p, 't) storage_libs \<Rightarrow> RecoveryRequest \<Rightarrow> string list \<times> string \<Rightarrow> node \<Rightarrow> (store, RecoveryOutcome) prog" where
  "reconcile_final env libs request sidecar n =
     seq (verify_file env (sl_sha libs) n (rr_expected_bytes request) (rr_expected_sha256 request)) (
     seq (case rr_sidecar_body request of
            Some expected \<Rightarrow> bind (exact_sidecar env (sl_json libs) sidecar expected) (\<lambda>exact.
              if exact then give () else fail (StorageError ''final image exists without its exact metadata sidecar''))
          | None \<Rightarrow> ensure_absent env sidecar ''unexpected metadata sidecar during recovery'')
       (give AlreadyInstalled))"

definition sidecar_present ::
    "store_env \<Rightarrow> ('p, 't) storage_libs \<Rightarrow> RecoveryRequest \<Rightarrow> string list \<times> string \<Rightarrow> string list \<times> string \<Rightarrow> (store, bool) prog" where
  "sidecar_present env libs request partial sidecar =
     (case rr_sidecar_body request of
        Some expected \<Rightarrow> catch (exact_sidecar env (sl_json libs) sidecar expected) (\<lambda>e.
          seq (ignore (remove_file env partial)) (seq (ignore (remove_file env sidecar))
            (seq (ignore (sync_parent env)) (fail e))))
      | None \<Rightarrow> seq (ensure_absent env sidecar ''unexpected metadata sidecar during recovery'') (give False))"

definition reconcile_partial ::
    "store_env \<Rightarrow> ('p, 't) storage_libs \<Rightarrow> RecoveryRequest \<Rightarrow> string list \<Rightarrow> string \<Rightarrow> string \<Rightarrow> string \<Rightarrow> bool \<Rightarrow>
     node option \<Rightarrow> (store, RecoveryOutcome) prog" where
  "reconcile_partial env libs request dir partial final_name sidecar present found =
     (case found of
        None \<Rightarrow>
          seq (if present then seq (remove_file env (dir, sidecar)) (sync_parent env) else give ())
            (give MissingArtifactsCleaned)
      | Some n \<Rightarrow>
          if rr_sidecar_body request \<noteq> None \<and> \<not> present
          then seq (remove_file env (dir, partial)) (seq (sync_parent env) (give MissingArtifactsCleaned))
          else
            seq (catch (verify_file env (sl_sha libs) n (rr_expected_bytes request) (rr_expected_sha256 request))
                   (\<lambda>e. seq (ignore (remove_file env (dir, partial)))
                         (seq (if present then ignore (remove_file env (dir, sidecar)) else give ())
                           (seq (ignore (sync_parent env)) (fail e))))) (
            seq (install_no_clobber env dir partial final_name) (
            seq (sync_parent env) (give InstalledFromPartial))))"

definition reconcile_names ::
    "store_env \<Rightarrow> ('p, 't) storage_libs \<Rightarrow> RecoveryRequest \<Rightarrow> string list \<Rightarrow> string \<Rightarrow> string \<Rightarrow> string \<Rightarrow>
     (store, RecoveryOutcome) prog" where
  "reconcile_names env libs request dir partial final_name sidecar =
     bind (open_existing env (dir, final_name)) (\<lambda>found.
       case found of
         Some n \<Rightarrow> reconcile_final env libs request (dir, sidecar) n
       | None \<Rightarrow>
           bind (sidecar_present env libs request (dir, partial) (dir, sidecar)) (\<lambda>present.
           bind (open_existing env (dir, partial))
             (reconcile_partial env libs request dir partial final_name sidecar present)))"

definition reconcile_linux ::
    "store_env \<Rightarrow> ('p, 't) storage_libs \<Rightarrow> RootCapability \<Rightarrow> RecoveryRequest \<Rightarrow> (store, RecoveryOutcome) prog" where
  "reconcile_linux env libs cap request =
     (let comps = rp_components (rr_relative_path request) in
      if comps = [] then fail (StorageError ''recovery path has no filename'')
      else
        let dir = butlast comps; final_name = last comps; sidecar = sidecar_final_name final_name in
        seq (open_parent env cap dir False) (
        seq (revalidate_parent_at env) (
        bind (lift (sanitize_variable (rr_capture_id request) ''captureId'')) (\<lambda>capture_token.
          reconcile_names env libs request dir (partial_name capture_token) final_name sidecar))))"

end
