(* ===== verification/Storage_Install.thy ===== *)
theory Storage_Install
  imports Storage
begin

text \<open>
  What installation and reconciliation guarantee (\<open>src/storage.rs\<close>). The first part is a small logic
  of pre- and postconditions for programs over the files, in which the contents of the directory are
  tracked exactly and every recorded state belongs to a given set. The later parts apply it: in every
  state an installation passes through the final name shows nothing but the complete image, and only
  after the durable start and beside its exact sidecar; whatever state a crash leaves after the durable
  start is completed by reconciliation; and reconciliation reports success only for verified files.
\<close>

section \<open>Pre- and postconditions\<close>

definition triple ::
    "('s \<Rightarrow> bool) \<Rightarrow> ('s, 'a) prog \<Rightarrow> ('a \<Rightarrow> 's \<Rightarrow> bool) \<Rightarrow> ('s \<Rightarrow> bool) \<Rightarrow> bool" where
  "triple P m Q E \<longleftrightarrow> (\<forall>s s' r. P s \<longrightarrow> m s = Some (s', r) \<longrightarrow> (case r of Inl _ \<Rightarrow> E s' | Inr x \<Rightarrow> Q x s'))"

lemma tripleI:
  "(\<And>s s' x. P s \<Longrightarrow> m s = Some (s', Inr x) \<Longrightarrow> Q x s') \<Longrightarrow>
   (\<And>s s' e. P s \<Longrightarrow> m s = Some (s', Inl e) \<Longrightarrow> E s') \<Longrightarrow> triple P m Q E"
  by (auto simp: triple_def split: sum.splits)

lemma tripleD:
  "triple P m Q E \<Longrightarrow> P s \<Longrightarrow> m s = Some (s', r) \<Longrightarrow> (case r of Inl _ \<Rightarrow> E s' | Inr x \<Rightarrow> Q x s')"
  by (simp add: triple_def)

lemma triple_weaken:
  assumes "triple P m Q E" "\<And>s. P' s \<Longrightarrow> P s" "\<And>x s. Q x s \<Longrightarrow> Q' x s" "\<And>s. E s \<Longrightarrow> E' s"
  shows "triple P' m Q' E'"
proof (rule tripleI)
  fix s s' x
  assume "P' s" "m s = Some (s', Inr x)"
  then show "Q' x s'" using tripleD [OF assms(1), of s s' "Inr x"] assms(2,3) by simp
next
  fix s s' e
  assume "P' s" "m s = Some (s', Inl e)"
  then show "E' s'" using tripleD [OF assms(1), of s s' "Inl e"] assms(2,4) by simp
qed

lemma bind_cases:
  assumes "bind m k s = Some (s', r)"
  obtains (failed) e where "m s = Some (s', Inl e)" "r = Inl e"
    | (passed) s1 x where "m s = Some (s1, Inr x)" "k x s1 = Some (s', r)"
  using assms by (auto simp: bind_def split: option.splits sum.splits)

lemma catch_cases:
  assumes "catch m h s = Some (s', r)"
  obtains (passed) x where "m s = Some (s', Inr x)" "r = Inr x"
    | (handled) s1 e where "m s = Some (s1, Inl e)" "h e s1 = Some (s', r)"
  using assms by (auto simp: catch_def split: option.splits sum.splits)

lemma attempt_cases:
  assumes "attempt m k s = Some (s', r)"
  obtains s1 r1 where "m s = Some (s1, r1)" "k r1 s1 = Some (s', r)"
  using assms by (auto simp: attempt_def split: option.splits)

lemma ignore_cases:
  assumes "ignore m s = Some (s', r)"
  obtains r1 where "m s = Some (s', r1)" "r = Inr ()"
  using assms by (auto simp: ignore_def split: option.splits)

lemma triple_give: "(\<And>s. P s \<Longrightarrow> Q x s) \<Longrightarrow> triple P (give x) Q E"
  by (auto simp: triple_def give_def)

lemma triple_fail: "(\<And>s. P s \<Longrightarrow> E s) \<Longrightarrow> triple P (fail e) Q E"
  by (auto simp: triple_def fail_def)

lemma triple_lift: "(\<And>x s. P s \<Longrightarrow> r = Inr x \<Longrightarrow> Q x s) \<Longrightarrow> (\<And>s. P s \<Longrightarrow> E s) \<Longrightarrow> triple P (lift r) Q E"
  by (auto simp: triple_def lift_def split: sum.splits)

lemma triple_bind:
  assumes m: "triple P m R E" and k: "\<And>x. triple (R x) (k x) Q E"
  shows "triple P (bind m k) Q E"
  unfolding triple_def
proof (intro allI impI)
  fix s s' r
  assume P: "P s" and "bind m k s = Some (s', r)"
  then show "case r of Inl _ \<Rightarrow> E s' | Inr x \<Rightarrow> Q x s'"
    by (cases rule: bind_cases [OF \<open>bind m k s = Some (s', r)\<close>])
      (use tripleD [OF m P] tripleD [OF k] in fastforce)+
qed

lemma triple_seq: "triple P m (\<lambda>_. R) E \<Longrightarrow> triple R n Q E \<Longrightarrow> triple P (seq m n) Q E"
  unfolding seq_def by (rule triple_bind)

lemma triple_catch:
  assumes m: "triple P m Q F" and h: "\<And>e. triple F (h e) Q E"
  shows "triple P (catch m h) Q E"
  unfolding triple_def
proof (intro allI impI)
  fix s s' r
  assume P: "P s" and "catch m h s = Some (s', r)"
  then show "case r of Inl _ \<Rightarrow> E s' | Inr x \<Rightarrow> Q x s'"
    by (cases rule: catch_cases [OF \<open>catch m h s = Some (s', r)\<close>])
      (use tripleD [OF m P] tripleD [OF h] in fastforce)+
qed

lemma triple_attempt:
  assumes m: "triple P m R F" and k: "\<And>x. triple (R x) (k (Inr x)) Q E" "\<And>e. triple F (k (Inl e)) Q E"
  shows "triple P (attempt m k) Q E"
  unfolding triple_def
proof (intro allI impI)
  fix s s' r
  assume P: "P s" and "attempt m k s = Some (s', r)"
  then obtain s1 r1 where r1: "m s = Some (s1, r1)" "k r1 s1 = Some (s', r)" by (elim attempt_cases)
  then show "case r of Inl _ \<Rightarrow> E s' | Inr x \<Rightarrow> Q x s'"
    using tripleD [OF m P r1(1)] tripleD [OF k(1)] tripleD [OF k(2)] by (cases r1) auto
qed

lemma triple_ignore: "triple P m (\<lambda>_. R) R \<Longrightarrow> triple P (ignore m) (\<lambda>_. R) E"
  unfolding triple_def by (auto elim!: ignore_cases split: sum.splits)

section \<open>The directory and its recorded states\<close>

type_synonym disk = "names \<times> bool"

definition disk :: "store \<Rightarrow> disk" where
  "disk s = (st_names s, st_started s)"

text \<open>The directory is in one of the states \<open>A\<close> and every state so far was one of \<open>G\<close>.\<close>

definition inside :: "disk set \<Rightarrow> disk set \<Rightarrow> store \<Rightarrow> bool" where
  "inside G A s \<longleftrightarrow> disk s \<in> A \<and> set (st_history s) \<subseteq> G"

lemma inside_mono: "inside G A s \<Longrightarrow> A \<subseteq> B \<Longrightarrow> inside G B s"
  by (auto simp: inside_def)

lemma inside_tick [simp]: "inside G A (advance_tick s) = inside G A s"
  by (simp add: inside_def advance_tick_def disk_def)

lemma inside_set_name: "disk s = (n, b) \<Longrightarrow> set (st_history s) \<subseteq> G \<Longrightarrow> (n(k := v), b) \<in> G \<Longrightarrow> (n(k := v), b) \<in> B \<Longrightarrow>
    inside G B (set_name k v s)"
  by (auto simp: inside_def set_name_def remember_def disk_def)

text \<open>A program that leaves the directory alone.\<close>

definition still :: "(store, 'a) prog \<Rightarrow> bool" where
  "still m \<longleftrightarrow> (\<forall>s s' r. m s = Some (s', r) \<longrightarrow> disk s' = disk s \<and> st_history s' = st_history s)"

named_theorems still_intros

lemma stillD: "still m \<Longrightarrow> m s = Some (s', r) \<Longrightarrow> disk s' = disk s \<and> st_history s' = st_history s"
  unfolding still_def by blast

lemma still_triple: "still m \<Longrightarrow> triple (inside G A) m (\<lambda>_. inside G A) (inside G A)"
  by (rule tripleI) (auto simp: inside_def dest!: stillD)

lemma still_give [still_intros]: "still (give x)" by (simp add: still_def give_def)
lemma still_fail [still_intros]: "still (fail e)" by (simp add: still_def fail_def)
lemma still_lift [still_intros]: "still (lift r)" by (simp add: still_def lift_def)

lemma still_bind [still_intros]:
  assumes m: "still m" and k: "\<And>x. still (k x)"
  shows "still (bind m k)"
  unfolding still_def
proof (intro allI impI)
  fix s s' r
  assume "bind m k s = Some (s', r)"
  then show "disk s' = disk s \<and> st_history s' = st_history s"
    using m k unfolding still_def by (elim bind_cases) metis+
qed

lemma still_seq [still_intros]: "still m \<Longrightarrow> still n \<Longrightarrow> still (seq m n)"
  unfolding seq_def by (rule still_bind)

lemma still_ignore [still_intros]: "still m \<Longrightarrow> still (ignore m)"
  unfolding still_def by (auto elim!: ignore_cases)

lemma still_syscall:
  "(\<And>s. case act s of None \<Rightarrow> True | Some (s', r) \<Rightarrow> disk s' = disk s \<and> st_history s' = st_history s) \<Longrightarrow>
   still (syscall env label act)"
proof -
  assume act: "\<And>s. case act s of None \<Rightarrow> True | Some (s', r) \<Rightarrow> disk s' = disk s \<and> st_history s' = st_history s"
  show "still (syscall env label act)" unfolding still_def
  proof (intro allI impI)
    fix s s' r
    assume "syscall env label act s = Some (s', r)"
    then show "disk s' = disk s \<and> st_history s' = st_history s"
      using act [of "advance_tick s"]
      by (auto simp: syscall_def advance_tick_def disk_def split: option.splits)
  qed
qed

lemma still_primitives [still_intros]:
  "still (syscall env label (give ()))"
  "still (check_cancelled env stage)"
  "still (revalidate_parent_at env)"
  "still (open_directory env d label)"
  "still (make_directory env cap d c)"
  "still (inspect_directory env cap d)"
  "still (ensure_absent env key text)"
  "still (fsync_parent env)"
  "still (open_existing env key)"
  unfolding revalidate_parent_at_def open_directory_def make_directory_def inspect_directory_def ensure_absent_def
    fsync_parent_def open_existing_def Let_def
  by (auto intro!: still_syscall simp: give_def fail_def disk_def split: option.splits)
    (auto simp: still_def check_cancelled_def advance_tick_def disk_def split: if_splits)

lemma still_io [still_intros]: "still (syscall env label (give x))"
  by (auto intro!: still_syscall simp: give_def)

lemma still_checksum_reads [still_intros]: "still (checksum_reads env n)"
  by (induction n) (auto intro!: still_intros)

lemma still_stream_checksum [still_intros]: "still (stream_checksum env sha bytes)"
  unfolding stream_checksum_def by (intro still_intros)

lemma still_verify_file [still_intros]: "still (verify_file env sha n len digest)"
  unfolding verify_file_def by (cases n) (auto intro!: still_intros)

lemma still_open_component [still_intros]: "still (open_component env cap create d c)"
  unfolding open_component_def Let_def by (auto intro!: still_intros)

lemma still_open_walk [still_intros]: "still (open_walk env cap create d cs)"
  by (induction cs arbitrary: d) (auto intro!: still_intros)

lemma still_open_parent [still_intros]: "still (open_parent env cap cs create)"
  unfolding open_parent_def by (intro still_intros)

lemma still_sync_parent [still_intros]: "still (sync_parent env)"
  unfolding sync_parent_def by (intro still_intros)

lemma still_exact_sidecar [still_intros]: "still (exact_sidecar env jl key body)"
  unfolding exact_sidecar_def compare_sidecar_def Let_def
  by (auto intro!: still_intros split: option.split node.split sum.split)

lemma triple_still:
  "still m \<Longrightarrow> A \<subseteq> C \<Longrightarrow> triple (inside G A) m (\<lambda>_. inside G A) (inside G C)"
  by (rule triple_weaken [OF still_triple [where A = A]]) (auto intro: inside_mono)

lemma triple_still_seq:
  "still m \<Longrightarrow> A \<subseteq> C \<Longrightarrow> triple (inside G A) n Q (inside G C) \<Longrightarrow> triple (inside G A) (seq m n) Q (inside G C)"
  by (rule triple_seq [OF triple_still])

lemma triple_still_bind:
  "still m \<Longrightarrow> A \<subseteq> C \<Longrightarrow> (\<And>x. triple (inside G A) (k x) Q (inside G C)) \<Longrightarrow>
   triple (inside G A) (bind m k) Q (inside G C)"
  by (rule triple_bind [OF triple_still])

section \<open>The operations that change the directory\<close>

lemma triple_syscall:
  assumes act: "triple (inside G A) act Q (inside G C)" and "A \<subseteq> C"
  shows "triple (inside G A) (syscall env label act) Q (inside G C)"
  unfolding triple_def
proof (intro allI impI)
  fix s s' r
  assume s: "inside G A s" and "syscall env label act s = Some (s', r)"
  then consider (failed) e where "s' = advance_tick s" "r = Inl e" | (passed) "act (advance_tick s) = Some (s', r)"
    by (auto simp: syscall_def split: option.splits)
  then show "case r of Inl _ \<Rightarrow> inside G C s' | Inr x \<Rightarrow> Q x s'"
  proof cases
    case failed
    then show ?thesis using inside_mono [OF s assms(2)] by simp
  next
    case passed
    then show ?thesis using tripleD [OF act, of "advance_tick s"] s by simp
  qed
qed

lemma triple_create_partial:
  assumes "\<And>x b. (x, b) \<in> A \<Longrightarrow> x k = None \<Longrightarrow> (x(k \<mapsto> Regular []), b) \<in> G \<inter> B" "A \<subseteq> C"
  shows "triple (inside G A) (create_partial_path env k) (\<lambda>_. inside G B) (inside G C)"
  unfolding create_partial_path_def Let_def
  by (rule triple_syscall)
    (use assms in \<open>auto simp: triple_def fail_def give_def inside_def set_name_def remember_def disk_def split: if_splits\<close>)

lemma triple_unlink:
  assumes "\<And>x b. (x, b) \<in> A \<Longrightarrow> x k \<noteq> None \<Longrightarrow> (x(k := None), b) \<in> G \<inter> B" "A \<subseteq> C"
  shows "triple (inside G A) (unlink env k label) (\<lambda>_. inside G B) (inside G C)"
  unfolding unlink_def
  by (rule triple_syscall)
    (use assms in \<open>auto simp: triple_def fail_def give_def inside_def set_name_def remember_def disk_def
      split: option.splits node.splits\<close>)

lemma triple_remove_file:
  assumes "\<And>x b. (x, b) \<in> A \<Longrightarrow> x k \<noteq> None \<Longrightarrow> (x(k := None), b) \<in> G"
    and "\<And>x b. (x, b) \<in> A \<Longrightarrow> (x(k := None), b) \<in> B" "A \<subseteq> C"
  shows "triple (inside G A) (remove_file env k) (\<lambda>_. inside G B) (inside G C)"
proof -
  have "(x, b) \<in> B" if "(x, b) \<in> A" "x k = None" for x b using assms(2) [OF that(1)] that(2) by (simp add: fun_upd_idem)
  then show ?thesis
    unfolding remove_file_def Let_def
    by (intro triple_syscall)
      (use assms in \<open>auto simp: triple_def fail_def give_def inside_def set_name_def remember_def disk_def
        split: option.splits node.splits\<close>)
qed

lemma triple_link_name:
  assumes "\<And>x b n. (x, b) \<in> A \<Longrightarrow> x p = Some n \<Longrightarrow> x f = None \<Longrightarrow> (x(f \<mapsto> n), b) \<in> G \<inter> B" "A \<subseteq> C"
  shows "triple (inside G A) (link_name env p f) (\<lambda>_. inside G B) (inside G C)"
  unfolding link_name_def Let_def
  by (rule triple_syscall)
    (use assms in \<open>auto simp: triple_def fail_def give_def inside_def set_name_def remember_def disk_def
      split: option.splits node.splits if_splits\<close>)

text \<open>The states between linking and unlinking, and after both.\<close>

definition linked :: "names \<Rightarrow> string list \<times> string \<Rightarrow> string list \<times> string \<Rightarrow> names set" where
  "linked x p f = {x(f \<mapsto> n) |n. x p = Some n \<and> x f = None}"

definition renamed :: "names \<Rightarrow> string list \<times> string \<Rightarrow> string list \<times> string \<Rightarrow> names set" where
  "renamed x p f = {x(f \<mapsto> n, p := None) |n. x p = Some n \<and> x f = None}"

lemma triple_install_no_clobber:
  assumes "insert x (linked x (d, p) (d, f) \<union> renamed x (d, p) (d, f)) \<times> {b} \<subseteq> G"
  shows "triple (inside G {(x, b)}) (install_no_clobber env d p f)
    (\<lambda>_. inside G (renamed x (d, p) (d, f) \<times> {b})) (inside G (insert x (linked x (d, p) (d, f)) \<times> {b}))"
proof -
  let ?l = "linked x (d, p) (d, f) \<times> {b}" and ?e = "insert x (linked x (d, p) (d, f)) \<times> {b}"
  have undo: "triple (inside G ?l) (unlink env (d, f) label) (\<lambda>_. inside G {(x, b)}) (inside G ?l)" for label
    by (rule triple_unlink) (use assms in \<open>auto simp: linked_def fun_upd_idem\<close>)
  have rollback: "triple (inside G ?l) (attempt (unlink env (d, f) label) (\<lambda>r. seq (ignore (fsync_parent env)) (fail (g r))))
      (\<lambda>_::unit. inside G ?l) (inside G ?e)" for label g
    by (rule triple_attempt [OF undo])
      (intro triple_still_seq still_intros triple_fail; auto intro: inside_mono)+
  have link: "triple (inside G {(x, b)}) (link_name env (d, p) (d, f)) (\<lambda>_. inside G ?l) (inside G ?e)"
    by (rule triple_link_name) (use assms in \<open>auto simp: linked_def\<close>)
  have finish: "triple (inside G ?l) (unlink env (d, p) label)
      (\<lambda>_. inside G (renamed x (d, p) (d, f) \<times> {b})) (inside G ?e)" for label
    by (rule triple_unlink) (use assms in \<open>auto simp: linked_def renamed_def\<close>)
  show ?thesis
    unfolding install_no_clobber_def
    by (intro triple_still_seq triple_seq [OF link] triple_seq [OF _ finish] triple_catch [OF still_triple rollback]
      still_intros) auto
qed

section \<open>Writing the sidecar\<close>

definition sw_ok :: "SidecarWriter \<Rightarrow> bool" where
  "sw_ok w \<longleftrightarrow> sw_written w = length (sw_file w) \<and> sw_written w \<le> MAX_SIDECAR_BYTES"

lemma sidecar_write_ok:
  "sidecar_write env buffer w = (w1, r) \<Longrightarrow> sw_ok w \<Longrightarrow>
   sw_ok w1 \<and> (case r of Inl _ \<Rightarrow> sw_file w1 = sw_file w | Inr n \<Rightarrow> n \<le> length buffer \<and> sw_file w1 = sw_file w @ take n buffer)"
  by (auto simp: sidecar_write_def sw_ok_def Let_def split: if_splits sum.splits)

lemma write_all_sidecar:
  "write_all (sidecar_write env) buffer w = Some (w', r) \<Longrightarrow>
   sw_ok w \<longrightarrow> sw_ok w' \<and> (r = Inr () \<longrightarrow> sw_file w' = sw_file w @ buffer)"
proof (erule write_all_rule [where P = "\<lambda>buffer w w' r. sw_ok w \<longrightarrow> sw_ok w' \<and> (r = Inr () \<longrightarrow> sw_file w' = sw_file w @ buffer)"])
  fix buffer w w1 n w' and r :: "io_error + unit"
  assume "sidecar_write env buffer w = (w1, Inr n)"
    and "sw_ok w1 \<longrightarrow> sw_ok w' \<and> (r = Inr () \<longrightarrow> sw_file w' = sw_file w1 @ drop n buffer)"
  then show "sw_ok w \<longrightarrow> sw_ok w' \<and> (r = Inr () \<longrightarrow> sw_file w' = sw_file w @ buffer)"
    using sidecar_write_ok [of env buffer w w1 "Inr n"] by auto
qed (auto dest!: sidecar_write_ok)

lemma write_pieces_sidecar:
  "write_pieces env ps w = Some (w', r) \<Longrightarrow> sw_ok w \<Longrightarrow> sw_ok w' \<and> (r = Inr () \<longrightarrow> sw_file w' = sw_file w @ concat ps)"
  by (induction ps arbitrary: w)
    (auto split: option.splits sum.splits dest!: write_all_sidecar [THEN mp])

lemma serialized:
  assumes "serialize_sidecar env jl body \<lparr>sw_file = [], sw_written = 0, sw_ticks = t\<rparr> = Some (w, Inr ())"
  shows "sw_file w = sidecar_bytes jl body" "length (sidecar_bytes jl body) \<le> MAX_SIDECAR_BYTES"
proof -
  have "sw_ok \<lparr>sw_file = [], sw_written = 0, sw_ticks = t\<rparr>" by (simp add: sw_ok_def)
  then have "sw_ok w \<and> sw_file w = sidecar_bytes jl body"
    using assms write_pieces_sidecar [of env "jl_pieces jl body" "\<lparr>sw_file = [], sw_written = 0, sw_ticks = t\<rparr>"]
      write_all_sidecar [of env "[10]"]
    by (fastforce simp: serialize_sidecar_def sidecar_bytes_def split: option.splits sum.splits)
  then show "sw_file w = sidecar_bytes jl body" "length (sidecar_bytes jl body) \<le> MAX_SIDECAR_BYTES"
    by (auto simp: sw_ok_def)
qed

text \<open>The states a sidecar being written passes through: only the two names change, and the final one shows
  nothing or the exact body.\<close>

definition sidecar_states ::
    "json_library \<Rightarrow> string list \<times> string \<Rightarrow> string list \<times> string \<Rightarrow> json \<Rightarrow> names \<Rightarrow> names set" where
  "sidecar_states jl t f body x = {y. (\<forall>k. k \<noteq> t \<longrightarrow> k \<noteq> f \<longrightarrow> y k = x k) \<and>
     (y f = x f \<or> x f = None \<and> y f = Some (Regular (sidecar_bytes jl body)))}"

definition sidecar_written :: "json_library \<Rightarrow> string list \<times> string \<Rightarrow> json \<Rightarrow> names \<Rightarrow> names set" where
  "sidecar_written jl f body x = {y. x f = None \<and> length (sidecar_bytes jl body) \<le> MAX_SIDECAR_BYTES \<and>
     y = x(f \<mapsto> Regular (sidecar_bytes jl body))}"

lemma triple_fill_sidecar:
  assumes "sidecar_states jl k f body x \<times> {b} \<subseteq> G" "k \<noteq> f"
  shows "triple (inside G {(x(k \<mapsto> Regular []), b)}) (fill_sidecar env jl k body)
    (\<lambda>_. inside G {(y, b) |y. length (sidecar_bytes jl body) \<le> MAX_SIDECAR_BYTES \<and> y = x(k \<mapsto> Regular (sidecar_bytes jl body))})
    (inside G (sidecar_states jl k f body x \<times> {b}))"
proof (rule tripleI)
  fix s s' u
  assume s: "inside G {(x(k \<mapsto> Regular []), b)} s" and "fill_sidecar env jl k body s = Some (s', Inr u)"
  then obtain w where w: "serialize_sidecar env jl body \<lparr>sw_file = [], sw_written = 0, sw_ticks = st_ticks s\<rparr> = Some (w, Inr ())"
    and s': "s' = set_name k (Some (Regular (sw_file w))) (s\<lparr>st_ticks := sw_ticks w\<rparr>)"
    by (auto simp: fill_sidecar_def split: option.splits)
  then show "inside G {(y, b) |y. length (sidecar_bytes jl body) \<le> MAX_SIDECAR_BYTES \<and>
      y = x(k \<mapsto> Regular (sidecar_bytes jl body))} s'"
    using s assms serialized [OF w]
    by (auto simp: inside_def disk_def set_name_def remember_def sidecar_states_def subset_iff)
next
  fix s s' e
  assume s: "inside G {(x(k \<mapsto> Regular []), b)} s" and "fill_sidecar env jl k body s = Some (s', Inl e)"
  then obtain bytes t where "s' = set_name k (Some (Regular bytes)) (s\<lparr>st_ticks := t\<rparr>)"
    by (auto simp: fill_sidecar_def split: option.splits)
  then show "inside G (sidecar_states jl k f body x \<times> {b}) s'"
    using s assms by (auto simp: inside_def disk_def set_name_def remember_def sidecar_states_def subset_iff)
qed

lemma triple_write_sidecar:
  assumes G: "sidecar_states jl (d, t) (d, f) body x \<times> {b} \<subseteq> G" and ne: "t \<noteq> f"
  shows "triple (inside G {(x, b)}) (write_sidecar env jl d t f body)
    (\<lambda>_. inside G (sidecar_written jl (d, f) body x \<times> {b})) (inside G (sidecar_states jl (d, t) (d, f) body x \<times> {b}))"
proof (cases "x (d, t) = None")
  case True
  let ?e = "sidecar_states jl (d, t) (d, f) body x \<times> {b}"
  let ?bytes = "sidecar_bytes jl body"
  let ?x = "x((d, t) \<mapsto> Regular ?bytes)"
  have create: "triple (inside G {(x, b)}) (create_partial_path env (d, t))
      (\<lambda>_. inside G {(x((d, t) \<mapsto> Regular []), b)}) (inside G ?e)"
    by (rule triple_create_partial) (use G ne in \<open>auto simp: sidecar_states_def subset_iff\<close>)
  have clean: "triple (inside G ?e) (seq (ignore (remove_file env (d, t))) (fail e)) Q (inside G ?e)" for e and Q :: "unit \<Rightarrow> store \<Rightarrow> bool"
    by (rule triple_seq [OF triple_ignore [OF triple_remove_file] triple_fail])
      (use G ne in \<open>auto simp: sidecar_states_def subset_iff\<close>)
  have fill: "triple (inside G {(x((d, t) \<mapsto> Regular []), b)}) (fill_sidecar env jl (d, t) body)
      (\<lambda>_. inside G {(y, b) |y. length ?bytes \<le> MAX_SIDECAR_BYTES \<and> y = ?x}) (inside G ?e)"
    by (rule triple_fill_sidecar) (use G ne in auto)
  have install: "triple (inside G {(y, b) |y. length ?bytes \<le> MAX_SIDECAR_BYTES \<and> y = ?x}) (install_no_clobber env d t f)
      (\<lambda>_. inside G (sidecar_written jl (d, f) body x \<times> {b})) (inside G ?e)"
  proof (cases "length ?bytes \<le> MAX_SIDECAR_BYTES")
    case len: True
    have "insert ?x (linked ?x (d, t) (d, f) \<union> renamed ?x (d, t) (d, f)) \<times> {b} \<subseteq> G"
      using G ne True by (auto simp: linked_def renamed_def sidecar_states_def subset_iff)
    from triple_install_no_clobber [OF this] show ?thesis
      by (rule triple_weaken)
        (use len ne True in \<open>auto elim!: inside_mono simp: linked_def renamed_def sidecar_states_def sidecar_written_def fun_upd_twist\<close>)
  next
    case False
    then show ?thesis by (auto simp: triple_def inside_def)
  qed
  show ?thesis
    unfolding write_sidecar_def
    by (intro triple_seq [OF create] triple_seq [OF triple_catch [OF fill clean]] triple_still_seq still_intros install)
      (use ne in \<open>auto simp: sidecar_states_def\<close>)
next
  case False
  have "triple (inside G {(x, b)}) (create_partial_path env (d, t)) (\<lambda>_. inside G {})
      (inside G (sidecar_states jl (d, t) (d, f) body x \<times> {b}))"
    by (rule triple_create_partial) (use False in \<open>auto simp: sidecar_states_def\<close>)
  then show ?thesis
    unfolding write_sidecar_def by (rule triple_seq) (auto simp: triple_def inside_def)
qed

section \<open>The states of an installation\<close>

definition image_key :: "PreparedInstall \<Rightarrow> string list \<times> string" where
  "image_key p = (pp_parent p, pp_final_name p)"

definition partial_key :: "PreparedInstall \<Rightarrow> string list \<times> string" where
  "partial_key p = (pp_parent p, pp_partial_name p)"

definition sidecar_key :: "PreparedInstall \<Rightarrow> string list \<times> string" where
  "sidecar_key p = (pp_parent p, pp_sidecar_final_name p)"

definition sidecar_partial_key :: "PreparedInstall \<Rightarrow> string list \<times> string" where
  "sidecar_partial_key p = (pp_parent p, pp_sidecar_partial_name p)"

definition own_names :: "PreparedInstall \<Rightarrow> string list" where
  "own_names p = [pp_final_name p, pp_partial_name p, pp_sidecar_final_name p, pp_sidecar_partial_name p]"

definition fresh_install :: "PreparedInstall \<Rightarrow> bool" where
  "fresh_install p \<longleftrightarrow> distinct (own_names p) \<and>
     \<not> pp_installation_started p \<and> \<not> pp_sidecar_installed p \<and> \<not> pp_completed p"

lemmas key_defs = image_key_def partial_key_def sidecar_key_def sidecar_partial_key_def

lemma keys_distinct:
  assumes "fresh_install p"
  shows "image_key p \<noteq> partial_key p" "image_key p \<noteq> sidecar_key p" "image_key p \<noteq> sidecar_partial_key p"
    "partial_key p \<noteq> sidecar_key p" "partial_key p \<noteq> sidecar_partial_key p" "sidecar_key p \<noteq> sidecar_partial_key p"
    "partial_key p \<noteq> image_key p" "sidecar_key p \<noteq> image_key p" "sidecar_partial_key p \<noteq> image_key p"
    "sidecar_key p \<noteq> partial_key p" "sidecar_partial_key p \<noteq> partial_key p" "sidecar_partial_key p \<noteq> sidecar_key p"
  using assms by (auto simp: fresh_install_def own_names_def key_defs)

text \<open>The sidecar as it must be beside a visible image, when the directory was \<open>x\<close> before.\<close>

definition sidecar_right :: "json_library \<Rightarrow> PreparedInstall \<Rightarrow> json option \<Rightarrow> names \<Rightarrow> names \<Rightarrow> bool" where
  "sidecar_right jl p body x y = (case body of
     None \<Rightarrow> y (sidecar_key p) = x (sidecar_key p)
   | Some b \<Rightarrow> is_JObject b \<and> length (sidecar_bytes jl b) \<le> MAX_SIDECAR_BYTES \<and>
       x (sidecar_key p) = None \<and> y (sidecar_key p) = Some (Regular (sidecar_bytes jl b)))"

definition untouched :: "PreparedInstall \<Rightarrow> names \<Rightarrow> names \<Rightarrow> bool" where
  "untouched p x y \<longleftrightarrow> (\<forall>k. k \<notin> {image_key p, partial_key p, sidecar_key p, sidecar_partial_key p} \<longrightarrow> y k = x k) \<and>
     (\<forall>k \<in> {image_key p, sidecar_key p}. x k \<noteq> None \<longrightarrow> y k = x k)"

definition before_start :: "PreparedInstall \<Rightarrow> names \<Rightarrow> names set" where
  "before_start p x = {y. untouched p x y \<and> y (image_key p) = x (image_key p)}"

definition after_start :: "json_library \<Rightarrow> PreparedInstall \<Rightarrow> json option \<Rightarrow> names \<Rightarrow> names set" where
  "after_start jl p body x = {y. untouched p x y \<and> sidecar_right jl p body x y \<and>
     (y (image_key p) = x (image_key p) \<and> y (partial_key p) = x (partial_key p) \<or>
      x (image_key p) = None \<and> y (image_key p) = x (partial_key p))}"

definition install_states :: "json_library \<Rightarrow> PreparedInstall \<Rightarrow> json option \<Rightarrow> names \<Rightarrow> disk set" where
  "install_states jl p body x = before_start p x \<times> {False} \<union> after_start jl p body x \<times> {True}"

definition pairs :: "disk set \<Rightarrow> disk set \<Rightarrow> PreparedInstall \<Rightarrow> install_state \<Rightarrow> bool" where
  "pairs G A q sp \<longleftrightarrow> inside G A (fst sp) \<and> snd sp = q"

lemma triple_on_store:
  assumes "triple (inside G A) m (\<lambda>x. inside G (B x)) (inside G C)"
  shows "triple (pairs G A q) (on_store m) (\<lambda>x. pairs G (B x) q) (pairs G C q)"
  unfolding triple_def
proof (intro allI impI)
  fix sp sp' r
  assume "pairs G A q sp" and "on_store m sp = Some (sp', r)"
  then obtain s' where "m (fst sp) = Some (s', r)" "sp' = (s', q)" and "inside G A (fst sp)"
    by (auto simp: on_store_def pairs_def split: option.splits)
  then show "case r of Inl _ \<Rightarrow> pairs G C q sp' | Inr x \<Rightarrow> pairs G (B x) q sp'"
    using tripleD [OF assms, of "fst sp" s' r] by (auto simp: pairs_def split: sum.splits)
qed

lemma triple_set_flag: "triple (pairs G A q) (set_flag f) (\<lambda>_. pairs G A (f q)) E"
  by (auto simp: triple_def set_flag_def pairs_def)

lemma triple_states:
  "(\<And>y. y \<in> Y \<Longrightarrow> triple (pairs G {(y, b)} q) m Q E) \<Longrightarrow> triple (pairs G (Y \<times> {b}) q) m Q E"
  by (simp add: triple_def pairs_def inside_def) blast

text \<open>An installation that failed before its start: what its cleaning up finds.\<close>

definition unfinished :: "disk set \<Rightarrow> PreparedInstall \<Rightarrow> names \<Rightarrow> install_state \<Rightarrow> bool" where
  "unfinished G p x sp \<longleftrightarrow> inside G (before_start p x \<times> {False}) (fst sp) \<and>
     (snd sp = p \<or> x (sidecar_key p) = None \<and> snd sp = p\<lparr>pp_sidecar_installed := True\<rparr>)"

definition sidecar_done :: "json_library \<Rightarrow> PreparedInstall \<Rightarrow> json option \<Rightarrow> names \<Rightarrow> names set" where
  "sidecar_done jl p body x = (case body of None \<Rightarrow> {x}
     | Some b \<Rightarrow> if is_JObject b then sidecar_written jl (sidecar_key p) b x else {})"

definition sidecar_flagged :: "PreparedInstall \<Rightarrow> json option \<Rightarrow> PreparedInstall" where
  "sidecar_flagged p body = (if body = None then p else p\<lparr>pp_sidecar_installed := True\<rparr>)"

lemma triple_install_sidecar:
  assumes p: "fresh_install p" and G: "before_start p x \<times> {False} \<subseteq> G"
  shows "triple (pairs G {(x, False)} p) (install_sidecar env jl pol body)
    (\<lambda>_. pairs G (sidecar_done jl p body x \<times> {False}) (sidecar_flagged p body)) (unfinished G p x)"
proof -
  have still: "pairs G {(x, False)} p sp \<Longrightarrow> unfinished G p x sp" for sp
    by (auto simp: pairs_def unfinished_def before_start_def untouched_def inside_def)
  show ?thesis
  proof (cases "sp_write_sidecar pol \<and> (\<exists>b. body = Some b \<and> is_JObject b)")
    case False
    have "install_sidecar env jl pol body = (if \<not> sp_write_sidecar pol \<and> body = None then give () else
        fail (case (sp_write_sidecar pol, body) of
          (True, Some b) \<Rightarrow> StorageError ''metadata sidecar body must be a JSON object''
        | (True, None) \<Rightarrow> StorageError ''required metadata sidecar body is missing''
        | (False, _) \<Rightarrow> StorageError ''sidecar body supplied while writeMetadataSidecar is false''))"
      using False by (auto simp: install_sidecar_def fun_eq_iff split: option.splits bool.splits)
    then show ?thesis
      by (auto intro!: triple_give triple_fail still simp: sidecar_done_def sidecar_flagged_def pairs_def)
  next
    case True
    then obtain b where b: "sp_write_sidecar pol" "body = Some b" "is_JObject b" by auto
    let ?W = "sidecar_states jl (sidecar_partial_key p) (sidecar_key p) b x"
    have states: "?W \<subseteq> before_start p x"
      using keys_distinct [OF p] by (auto simp: sidecar_states_def before_start_def untouched_def simp del: split_paired_All)
    have "triple (inside G {(x, False)}) (write_sidecar env jl (pp_parent p) (pp_sidecar_partial_name p)
        (pp_sidecar_final_name p) b) (\<lambda>_. inside G (sidecar_written jl (sidecar_key p) b x \<times> {False}))
        (inside G (?W \<times> {False}))"
      unfolding key_defs
      by (rule triple_write_sidecar) (use G states p in \<open>auto simp: key_defs fresh_install_def own_names_def\<close>)
    then have written: "triple (pairs G {(x, False)} p) (on_store (write_sidecar env jl (pp_parent p) (pp_sidecar_partial_name p)
        (pp_sidecar_final_name p) b)) (\<lambda>_. pairs G (sidecar_written jl (sidecar_key p) b x \<times> {False}) p) (unfinished G p x)"
      by (rule triple_weaken [OF triple_on_store]) (use states in \<open>auto simp: pairs_def unfinished_def elim!: inside_mono\<close>)
    have step: "triple (pairs G {(x, False)} p) (seq (on_store (write_sidecar env jl (pp_parent p) (pp_sidecar_partial_name p)
        (pp_sidecar_final_name p) b)) (seq (set_flag (\<lambda>p. p\<lparr>pp_sidecar_installed := True\<rparr>)) (on_store (sync_parent env))))
      (\<lambda>_. pairs G (sidecar_done jl p body x \<times> {False}) (sidecar_flagged p body)) (unfinished G p x)"
    proof (rule triple_seq [OF written])
      show "triple (pairs G (sidecar_written jl (sidecar_key p) b x \<times> {False}) p)
        (seq (set_flag (\<lambda>p. p\<lparr>pp_sidecar_installed := True\<rparr>)) (on_store (sync_parent env)))
        (\<lambda>_. pairs G (sidecar_done jl p body x \<times> {False}) (sidecar_flagged p body)) (unfinished G p x)"
        by (rule triple_seq [OF triple_set_flag triple_weaken [OF triple_on_store [OF still_triple]]])
          (use b keys_distinct [OF p] in \<open>auto intro: still_intros simp: sidecar_done_def sidecar_flagged_def pairs_def
            unfinished_def inside_def sidecar_written_def before_start_def untouched_def\<close>)
    qed
    show ?thesis
      unfolding triple_def
    proof (intro allI impI)
      fix sp sp' r
      assume sp: "pairs G {(x, False)} p sp" and run: "install_sidecar env jl pol body sp = Some (sp', r)"
      then show "case r of Inl _ \<Rightarrow> unfinished G p x sp'
          | Inr _ \<Rightarrow> pairs G (sidecar_done jl p body x \<times> {False}) (sidecar_flagged p body) sp'"
        using tripleD [OF step sp] b by (simp add: install_sidecar_def pairs_def)
    qed
  qed
qed

lemma sidecar_done_started:
  assumes p: "fresh_install p" and y: "y \<in> sidecar_done jl p body x"
  shows "insert y (linked y (partial_key p) (image_key p) \<union> renamed y (partial_key p) (image_key p)) \<subseteq> after_start jl p body x"
    and "y \<in> before_start p x" and "y (image_key p) = x (image_key p)" and "y (partial_key p) = x (partial_key p)"
  using y keys_distinct [OF p]
  by (auto simp: sidecar_done_def sidecar_written_def linked_def renamed_def after_start_def before_start_def
      untouched_def sidecar_right_def split: option.splits if_splits)

lemma triple_expose_image:
  assumes p: "fresh_install p" and y: "y \<in> sidecar_done jl p body x" and G: "after_start jl p body x \<times> {True} \<subseteq> G"
  shows "triple (inside G {(y, True)}) (expose_image env sha p)
    (\<lambda>a s. a = pp_artifact p \<and> inside G (renamed y (partial_key p) (image_key p) \<times> {True}) s)
    (inside G (after_start jl p body x \<times> {True}))"
proof -
  note states = sidecar_done_started(1) [OF p y]
  let ?r = "renamed y (partial_key p) (image_key p) \<times> {True}"
  have link: "triple (inside G {(y, True)}) (install_no_clobber env (pp_parent p) (pp_partial_name p) (pp_final_name p))
      (\<lambda>_. inside G ?r) (inside G (after_start jl p body x \<times> {True}))"
    by (rule triple_weaken [OF triple_install_no_clobber])
      (use states G in \<open>auto simp: key_defs elim!: inside_mono\<close>)
  have "triple (inside G ?r) (bind (open_existing env (pp_parent p, pp_final_name p)) (\<lambda>found. case found of
        None \<Rightarrow> fail (StorageError ''installed image disappeared'')
      | Some n \<Rightarrow> seq (verify_file env' sha n bytes digest) (give (pp_artifact p))))
      (\<lambda>a s. a = pp_artifact p \<and> inside G ?r s) (inside G (after_start jl p body x \<times> {True}))" for env' bytes digest
  proof (rule triple_still_bind)
    fix found :: "node option"
    show "triple (inside G ?r) (case found of
        None \<Rightarrow> fail (StorageError ''installed image disappeared'')
      | Some n \<Rightarrow> seq (verify_file env' sha n bytes digest) (give (pp_artifact p)))
      (\<lambda>a s. a = pp_artifact p \<and> inside G ?r s) (inside G (after_start jl p body x \<times> {True}))"
      by (cases found)
        (use states in \<open>auto intro!: triple_fail triple_still_seq still_intros triple_give elim!: inside_mono\<close>)
  qed (use states in \<open>auto intro: still_intros\<close>)
  then show ?thesis
    unfolding expose_image_def
    by (intro triple_seq [OF link] triple_still_seq still_intros) (use states in auto)
qed

lemma triple_ask_gate:
  assumes "(y, True) \<in> G"
  shows "triple (pairs G {(y, False)} q) (ask_gate g) (\<lambda>_. pairs G {(y, True)} (q\<lparr>pp_installation_started := True\<rparr>))
    (\<lambda>sp. pairs G {(y, False)} q sp \<or> pairs G ({y} \<times> UNIV) (q\<lparr>pp_installation_started := True\<rparr>) sp)"
  using assms
  by (auto simp: triple_def ask_gate_def pairs_def gate_commits_def give_def fail_def Let_def inside_def disk_def remember_def
      split: sum.splits InstallDecision.splits if_splits)

text \<open>How the body ends: the image is installed, the job has been handed to reconciliation, or nothing has started.\<close>

definition handed_over :: "disk set \<Rightarrow> install_state \<Rightarrow> bool" where
  "handed_over G sp \<longleftrightarrow> inside G G (fst sp) \<and> pp_installation_started (snd sp)"

definition installed :: "disk set \<Rightarrow> json_library \<Rightarrow> PreparedInstall \<Rightarrow> json option \<Rightarrow> names \<Rightarrow> store \<Rightarrow> bool" where
  "installed G jl p body x s \<longleftrightarrow>
     (\<exists>y \<in> sidecar_done jl p body x. inside G (renamed y (partial_key p) (image_key p) \<times> {True}) s)"

lemma triple_install_body:
  assumes p: "fresh_install p" and G: "G = install_states jl p body x" and jl: "sl_json libs = jl"
  shows "triple (pairs G {(x, False)} p) (install_body env libs pol cap g body)
    (\<lambda>a sp. a = pp_artifact p \<and> installed G jl p body x (fst sp) \<and> pp_completed (snd sp))
    (\<lambda>sp. handed_over G sp \<or> unfinished G p x sp)"
proof -
  let ?E = "\<lambda>sp. handed_over G sp \<or> unfinished G p x sp"
  let ?Q = "\<lambda>a sp. a = pp_artifact p \<and> installed G jl p body x (fst sp) \<and> pp_completed (snd sp)"
  let ?q = "sidecar_flagged p body"
  have start: "triple (pairs G {(x, False)} p) (on_store m) (\<lambda>_. pairs G {(x, False)} p) ?E" if "still m" for m :: "(store, unit) prog"
    by (rule triple_weaken [OF triple_on_store [OF still_triple [OF that, of G "{(x, False)}"], of p]])
      (auto simp: unfinished_def pairs_def inside_def before_start_def untouched_def)
  have late: "triple (pairs G {(y, True)} (?q\<lparr>pp_installation_started := True\<rparr>))
      (bind (on_store (expose_image env (sl_sha libs) p)) (\<lambda>a. seq (set_flag (\<lambda>p. p\<lparr>pp_completed := True\<rparr>)) (give a))) ?Q ?E"
    if y: "y \<in> sidecar_done jl p body x" for y
  proof -
    have "triple (inside G {(y, True)}) (expose_image env (sl_sha libs) p)
        (\<lambda>a. inside G (if a = pp_artifact p then renamed y (partial_key p) (image_key p) \<times> {True} else {}))
        (inside G (after_start jl p body x \<times> {True}))"
      by (rule triple_weaken [OF triple_expose_image [OF p y]]) (auto simp: G install_states_def)
    then have expose: "triple (pairs G {(y, True)} (?q\<lparr>pp_installation_started := True\<rparr>)) (on_store (expose_image env (sl_sha libs) p))
        (\<lambda>a. pairs G (if a = pp_artifact p then renamed y (partial_key p) (image_key p) \<times> {True} else {})
          (?q\<lparr>pp_installation_started := True\<rparr>)) ?E"
      by (rule triple_weaken [OF triple_on_store])
        (auto simp: handed_over_def pairs_def G install_states_def elim!: inside_mono)
    have completed: "triple (pairs G (if a = pp_artifact p then renamed y (partial_key p) (image_key p) \<times> {True} else {})
          (?q\<lparr>pp_installation_started := True\<rparr>)) (seq (set_flag (\<lambda>p. p\<lparr>pp_completed := True\<rparr>)) (give a)) ?Q ?E" for a
      by (rule triple_seq [OF triple_set_flag triple_give])
        (use y in \<open>auto simp: pairs_def installed_def inside_def split: if_splits\<close>)
    show ?thesis by (rule triple_bind [OF expose completed])
  qed
  have gate: "triple (pairs G (sidecar_done jl p body x \<times> {False}) ?q) (seq (ask_gate g)
      (bind (on_store (expose_image env (sl_sha libs) p)) (\<lambda>a. seq (set_flag (\<lambda>p. p\<lparr>pp_completed := True\<rparr>)) (give a)))) ?Q ?E"
  proof (rule triple_states)
    fix y
    assume y: "y \<in> sidecar_done jl p body x"
    show "triple (pairs G {(y, False)} ?q) (seq (ask_gate g)
        (bind (on_store (expose_image env (sl_sha libs) p)) (\<lambda>a. seq (set_flag (\<lambda>p. p\<lparr>pp_completed := True\<rparr>)) (give a)))) ?Q ?E"
      by (rule triple_seq [OF triple_weaken [OF triple_ask_gate [of y G ?q g]] late [OF y]])
        (use y sidecar_done_started(1,2) [OF p y] in \<open>auto simp: G install_states_def handed_over_def pairs_def inside_def
          unfinished_def sidecar_flagged_def sidecar_done_def sidecar_written_def split: option.splits if_splits\<close>)
  qed
  have "triple (pairs G {(x, False)} p) (\<lambda>sp.
      seq (on_store (open_parent env cap (pp_parent p) False)) (
      seq (on_store (revalidate_parent_at env)) (
      seq (on_store (check_cancelled env ''before atomic installation'')) (
      seq (install_sidecar env (sl_json libs) pol body) (
      seq (ask_gate g) (
      bind (on_store (expose_image env (sl_sha libs) p)) (\<lambda>artifact.
      seq (set_flag (\<lambda>p. p\<lparr>pp_completed := True\<rparr>)) (give artifact))))))) sp) ?Q ?E"
    by (intro triple_seq [OF start] triple_seq [OF triple_weaken [OF triple_install_sidecar [OF p]] gate] still_intros)
      (auto simp: jl G install_states_def)
  then show ?thesis
    unfolding triple_def by (auto simp: install_body_def pairs_def)
qed

lemma triple_drop_prepared:
  assumes p: "fresh_install p" and q: "q = p \<or> x (sidecar_key p) = None \<and> q = p\<lparr>pp_sidecar_installed := True\<rparr>"
    and G: "before_start p x \<times> {False} \<subseteq> G"
  shows "triple (inside G (before_start p x \<times> {False})) (drop_prepared env cap q)
    (\<lambda>_. inside G (before_start p x \<times> {False})) (inside G (before_start p x \<times> {False}))"
proof -
  let ?B = "inside G (before_start p x \<times> {False})"
  have remove: "triple ?B (ignore (remove_file env k)) (\<lambda>_. ?B) ?B"
    if "k \<in> {partial_key p, sidecar_partial_key p} \<or> k = sidecar_key p \<and> x (sidecar_key p) = None" for k
  proof (rule triple_ignore [OF triple_remove_file])
    have closed: "y(k := None) \<in> before_start p x" if y: "y \<in> before_start p x" for y
      using y \<open>k \<in> _ \<or> _\<close> keys_distinct [OF p]
      by (auto simp: before_start_def untouched_def simp del: split_paired_All)
    show "(y(k := None), b) \<in> G" "(y(k := None), b) \<in> before_start p x \<times> {False}"
      if "(y, b) \<in> before_start p x \<times> {False}" for y b
      using that closed G by auto
  qed auto
  have names: "pp_parent q = pp_parent p" "pp_partial_name q = pp_partial_name p" "pp_completed q = pp_completed p"
    "pp_sidecar_partial_name q = pp_sidecar_partial_name p" "pp_sidecar_final_name q = pp_sidecar_final_name p"
    "pp_installation_started q = pp_installation_started p" "pp_sidecar_installed q \<Longrightarrow> x (sidecar_key p) = None"
    using q p by (auto simp: fresh_install_def)
  have sidecar: "triple ?B (if pp_sidecar_installed q then ignore (remove_file env (sidecar_key p)) else give ()) (\<lambda>_. ?B) ?B"
    using names(7) by (simp add: remove triple_give)
  have "triple ?B (seq (open_parent env cap (pp_parent p) False) (
      seq (ignore (remove_file env (partial_key p))) (
      seq (ignore (remove_file env (sidecar_partial_key p))) (
      seq (if pp_sidecar_installed q then ignore (remove_file env (sidecar_key p)) else give ())
        (ignore (sync_parent env)))))) (\<lambda>_. ?B) ?B"
    by (rule triple_seq [OF still_triple triple_seq [OF remove triple_seq [OF remove triple_seq [OF sidecar still_triple]]]])
      (auto intro: still_intros)
  then have clean: "triple ?B (ignore (seq (open_parent env cap (pp_parent p) False) (
      seq (ignore (remove_file env (partial_key p))) (
      seq (ignore (remove_file env (sidecar_partial_key p))) (
      seq (if pp_sidecar_installed q then ignore (remove_file env (sidecar_key p)) else give ())
        (ignore (sync_parent env))))))) (\<lambda>_. ?B) ?B"
    by (rule triple_ignore)
  have "\<not> (pp_completed p \<or> pp_installation_started p)" using p by (simp add: fresh_install_def)
  then show ?thesis using clean
    by (cases "pp_sidecar_installed q") (simp_all add: drop_prepared_def names(1-6) key_defs)
qed

lemma install_runs:
  assumes p: "fresh_install p" and run: "install env libs pol cap g body p s = Some (s', r)"
    and s: "\<not> st_started s" "st_history s = []"
  defines "G \<equiv> install_states (sl_json libs) p body (st_names s)"
  shows "inside G G s'" and "r = Inr a \<Longrightarrow> a = pp_artifact p \<and> installed G (sl_json libs) p body (st_names s) s'"
proof -
  let ?jl = "sl_json libs" and ?x = "st_names s"
  obtain s1 q r1 where body: "install_body env libs pol cap g body (s, p) = Some ((s1, q), r1)"
    and rest: "seq (drop_prepared env cap q) (lift r1) s1 = Some (s', r)"
    using run by (auto simp: install_def split: option.splits)
  have "pairs G {(?x, False)} p (s, p)" using s by (simp add: pairs_def inside_def disk_def)
  from tripleD [OF triple_install_body [OF p G_def [THEN meta_eq_to_obj_eq] refl] this body]
  consider (installed) a where "r1 = Inr a" "a = pp_artifact p" "installed G ?jl p body ?x s1" "pp_completed q"
    | (handed) e where "r1 = Inl e" "handed_over G (s1, q)"
    | (unfinished) e where "r1 = Inl e" "unfinished G p ?x (s1, q)"
    by (cases r1) auto
  then have "inside G G s' \<and> (r = Inr a \<longrightarrow> a = pp_artifact p \<and> installed G ?jl p body ?x s')"
  proof cases
    case (installed a1)
    then have "s' = s1 \<and> r = Inr a1" using rest by (simp add: drop_prepared_def seq_def bind_def give_def lift_def)
    moreover from installed(3) obtain y where y: "y \<in> sidecar_done ?jl p body ?x"
      and s1: "inside G (renamed y (partial_key p) (image_key p) \<times> {True}) s1"
      unfolding installed_def by blast
    have "inside G G s1"
      by (rule inside_mono [OF s1]) (use sidecar_done_started(1) [OF p y] in \<open>auto simp: G_def install_states_def\<close>)
    ultimately show ?thesis using installed by simp
  next
    case (handed e)
    then show ?thesis using rest by (auto simp: handed_over_def drop_prepared_def seq_def bind_def give_def lift_def)
  next
    case (unfinished e)
    have G: "before_start p ?x \<times> {False} \<subseteq> G" by (auto simp: G_def install_states_def)
    have "triple (inside G (before_start p ?x \<times> {False})) (seq (drop_prepared env cap q) (lift r1))
        (\<lambda>_ _. False) (inside G (before_start p ?x \<times> {False}))"
      by (rule triple_seq [OF triple_drop_prepared [OF p _ G] triple_lift])
        (use unfinished in \<open>auto simp: unfinished_def\<close>)
    from tripleD [OF this _ rest] unfinished(2)
    have "(\<exists>e. r = Inl e) \<and> inside G (before_start p ?x \<times> {False}) s'"
      by (cases r) (simp_all add: unfinished_def)
    then show ?thesis using G by (auto elim!: inside_mono)
  qed
  then show "inside G G s'" "r = Inr a \<Longrightarrow> a = pp_artifact p \<and> installed G ?jl p body ?x s'" by auto
qed

text \<open>C16: In every state an installation passes through, a file that existed under the final name or the sidecar's
  name is unchanged, every other name is unchanged, and the final name shows something new only after the
  durable start, and then it is the complete partial beside the exact sidecar. When it returns, the image
  is there and the start is durable.\<close>

theorem install_visibility:
  assumes "fresh_install p" and "install env libs pol cap g body p s = Some (s', r)"
    and "\<not> st_started s" and "st_history s = []"
  shows "(\<forall>(y, started) \<in> set (st_history s'). untouched p (st_names s) y \<and>
      (y (image_key p) \<noteq> st_names s (image_key p) \<longrightarrow>
         started \<and> y (image_key p) = st_names s (partial_key p) \<and> sidecar_right (sl_json libs) p body (st_names s) y)) \<and>
    (\<forall>a. r = Inr a \<longrightarrow> a = pp_artifact p \<and> st_started s' \<and> st_names s' (image_key p) \<noteq> None \<and>
      st_names s' (image_key p) = st_names s (partial_key p) \<and> sidecar_right (sl_json libs) p body (st_names s) (st_names s'))"
proof -
  let ?G = "install_states (sl_json libs) p body (st_names s)"
  note run = install_runs [OF assms]
  have hist: "set (st_history s') \<subseteq> ?G" using run(1) by (simp add: inside_def)
  have ends: "a = pp_artifact p \<and> st_started s' \<and> st_names s' (image_key p) \<noteq> None \<and>
      st_names s' (image_key p) = st_names s (partial_key p) \<and> sidecar_right (sl_json libs) p body (st_names s) (st_names s')"
    if r: "r = Inr a" for a
  proof -
    from run(2) [OF r] obtain y where a: "a = pp_artifact p" and y: "y \<in> sidecar_done (sl_json libs) p body (st_names s)"
      and s': "inside ?G (renamed y (partial_key p) (image_key p) \<times> {True}) s'"
      by (auto simp: installed_def)
    have "st_names s' \<in> after_start (sl_json libs) p body (st_names s)"
      using s' sidecar_done_started(1) [OF assms(1) y] by (auto simp: inside_def disk_def)
    then show ?thesis
      using a s' sidecar_done_started(4) [OF assms(1) y] keys_distinct [OF assms(1)]
      by (auto simp: inside_def disk_def renamed_def after_start_def)
  qed
  have state: "untouched p (st_names s) y \<and> (y (image_key p) \<noteq> st_names s (image_key p) \<longrightarrow>
      started \<and> y (image_key p) = st_names s (partial_key p) \<and> sidecar_right (sl_json libs) p body (st_names s) y)"
    if "(y, started) \<in> set (st_history s')" for y started
    using subsetD [OF hist that] by (auto simp: install_states_def before_start_def after_start_def)
  show ?thesis using state ends by blast
qed

end
