(* ===== verification/Storage_Recovery.thy ===== *)
theory Storage_Recovery
  imports Storage_Install "HOL-Library.Sublist"
begin

text \<open>
  Startup reconciliation of an interrupted installation (\<open>src/storage.rs\<close>, \<open>reconcile_linux\<close>). Whatever
  the file system does, an outcome is reported only when it is true of the files. And where the file
  system works, every state in which an installation can have been interrupted after its durable start
  is completed to the installed image.
\<close>

section \<open>The files of a recovery request\<close>

definition recovery_token :: "RecoveryRequest \<Rightarrow> string" where
  "recovery_token request = (case sanitize_variable (rr_capture_id request) ''captureId'' of Inr t \<Rightarrow> t | Inl _ \<Rightarrow> [])"

definition recovery_dir :: "RecoveryRequest \<Rightarrow> string list" where
  "recovery_dir request = butlast (rp_components (rr_relative_path request))"

definition recovery_image :: "RecoveryRequest \<Rightarrow> string list \<times> string" where
  "recovery_image request = (recovery_dir request, last (rp_components (rr_relative_path request)))"

definition recovery_sidecar :: "RecoveryRequest \<Rightarrow> string list \<times> string" where
  "recovery_sidecar request = (recovery_dir request, sidecar_final_name (last (rp_components (rr_relative_path request))))"

definition recovery_partial :: "RecoveryRequest \<Rightarrow> string list \<times> string" where
  "recovery_partial request = (recovery_dir request, partial_name (recovery_token request))"

lemmas recovery_defs = recovery_image_def recovery_sidecar_def recovery_partial_def

text \<open>A node whose size and digest are the recorded ones.\<close>

definition verified :: "(byte list \<Rightarrow> string) \<Rightarrow> RecoveryRequest \<Rightarrow> node option \<Rightarrow> bool" where
  "verified sha request n \<longleftrightarrow> (\<exists>c. n = Some (Regular c) \<and> length c = rr_expected_bytes request \<and>
     eq_ignore_ascii_case (sha c) (rr_expected_sha256 request))"

definition sidecar_exact :: "json_library \<Rightarrow> RecoveryRequest \<Rightarrow> node option \<Rightarrow> bool" where
  "sidecar_exact jl request n = (case rr_sidecar_body request of
     None \<Rightarrow> n = None | Some body \<Rightarrow> n = Some (Regular (sidecar_bytes jl body)))"

lemma sidecar_final_ne [simp]: "sidecar_final_name f \<noteq> f" "f \<noteq> sidecar_final_name f"
  by (auto simp: sidecar_final_name_def)

section \<open>What the checks return\<close>

lemma still_value:
  assumes "still m" and "\<And>s s' v. disk s = (x, b) \<Longrightarrow> m s = Some (s', Inr v) \<Longrightarrow> R v"
  shows "triple (inside G {(x, b)}) m (\<lambda>v s. R v \<and> inside G {(x, b)} s) (inside G {(x, b)})"
proof (rule tripleI)
  fix s s' v
  assume "inside G {(x, b)} s" "m s = Some (s', Inr v)"
  then show "R v \<and> inside G {(x, b)} s'" using stillD [OF assms(1), of s s'] assms(2) [of s s' v] by (auto simp: inside_def)
next
  fix s s' e
  assume "inside G {(x, b)} s" "m s = Some (s', Inl e)"
  then show "inside G {(x, b)} s'" using stillD [OF assms(1), of s s'] by (auto simp: inside_def)
qed

lemma syscall_passed: "syscall env label act s = Some (s', Inr v) \<Longrightarrow> act (advance_tick s) = Some (s', Inr v)"
  by (auto simp: syscall_def split: option.splits)

lemma passed_simps [simp]:
  "give x s = Some (s', r) \<longleftrightarrow> s' = s \<and> r = Inr x"
  "fail e s = Some (s', r) \<longleftrightarrow> s' = s \<and> r = Inl e"
  "lift r1 s = Some (s', r) \<longleftrightarrow> s' = s \<and> r1 = r"
  by (auto simp: give_def fail_def lift_def)

lemma bind_passed: "bind m k s = Some (s', Inr v) \<longleftrightarrow> (\<exists>s1 x. m s = Some (s1, Inr x) \<and> k x s1 = Some (s', Inr v))"
  by (auto simp: bind_def split: option.splits sum.splits)

lemma seq_passed: "seq m n s = Some (s', Inr v) \<longleftrightarrow> (\<exists>s1 x. m s = Some (s1, Inr x) \<and> n s1 = Some (s', Inr v))"
  by (simp add: seq_def bind_passed)

lemma open_existing_value: "open_existing env k s = Some (s', Inr v) \<Longrightarrow> v = st_names s k"
  by (auto simp: open_existing_def Let_def advance_tick_def dest!: syscall_passed split: if_splits)

lemma ensure_absent_value: "ensure_absent env k text s = Some (s', Inr v) \<Longrightarrow> st_names s k = None"
  by (auto simp: ensure_absent_def advance_tick_def dest!: syscall_passed split: if_splits)

lemma verify_file_value:
  assumes "verify_file env sha n len digest s = Some (s', Inr v)"
  shows "\<exists>c. n = Regular c \<and> length c = len \<and> eq_ignore_ascii_case (sha c) digest"
  using assms
  by (auto simp: verify_file_def seq_passed bind_passed stream_checksum_def split: node.splits if_splits)

lemma compare_sidecar_value:
  "compare_sidecar env jl k body n s = Some (s', Inr v) \<Longrightarrow> v \<and> n = Regular (sidecar_bytes jl body)"
  by (auto simp: compare_sidecar_def Let_def seq_passed split: if_splits node.splits sum.splits)

lemma exact_sidecar_value:
  assumes "exact_sidecar env jl k body s = Some (s', Inr v)"
  shows "if v then st_names s k = Some (Regular (sidecar_bytes jl body)) else st_names s k = None"
proof -
  from assms obtain s1 found where s1: "open_existing env k s = Some (s1, Inr found)"
    and rest: "(case found of None \<Rightarrow> give False | Some n \<Rightarrow> compare_sidecar env jl k body n) s1 = Some (s', Inr v)"
    by (auto simp: exact_sidecar_def bind_passed split: if_splits)
  then show ?thesis
    using open_existing_value [OF s1] by (auto split: option.splits dest!: compare_sidecar_value)
qed

section \<open>Soundness\<close>

lemma triple_pure: "(R \<Longrightarrow> triple P m Q E) \<Longrightarrow> triple (\<lambda>s. R \<and> P s) m Q E"
  by (auto simp: triple_def)

lemma triple_value_bind:
  assumes "still m" and "\<And>s s' v. disk s = (x, b) \<Longrightarrow> m s = Some (s', Inr v) \<Longrightarrow> R v"
    and "\<And>v. R v \<Longrightarrow> triple (inside G {(x, b)}) (k v) Q (inside G C)" and "(x, b) \<in> C"
  shows "triple (inside G {(x, b)}) (bind m k) Q (inside G C)"
proof (rule triple_bind)
  show "triple (inside G {(x, b)}) m (\<lambda>v s. R v \<and> inside G {(x, b)} s) (inside G C)"
    by (rule triple_weaken [OF still_value [of m x b R, OF assms(1,2)]]) (use assms(4) in \<open>auto elim!: inside_mono\<close>)
  show "triple (\<lambda>s. R v \<and> inside G {(x, b)} s) (k v) Q (inside G C)" for v
    by (rule triple_pure) (rule assms(3))
qed

lemma triple_value_seq:
  assumes "still m" and "\<And>s s' v. disk s = (x, b) \<Longrightarrow> m s = Some (s', Inr v) \<Longrightarrow> R"
    and "R \<Longrightarrow> triple (inside G {(x, b)}) n Q (inside G C)" and "(x, b) \<in> C"
  shows "triple (inside G {(x, b)}) (seq m n) Q (inside G C)"
  unfolding seq_def by (rule triple_value_bind [where R = "\<lambda>_. R"]) (use assms in auto)

text \<open>What an outcome says of the directory before and after.\<close>

definition reconciled ::
    "(byte list \<Rightarrow> string) \<Rightarrow> json_library \<Rightarrow> RecoveryRequest \<Rightarrow> names \<Rightarrow> RecoveryOutcome \<Rightarrow> names \<Rightarrow> bool" where
  "reconciled sha jl request x outcome y = (case outcome of
     AlreadyInstalled \<Rightarrow> y = x \<and> verified sha request (x (recovery_image request)) \<and>
       sidecar_exact jl request (x (recovery_sidecar request))
   | InstalledFromPartial \<Rightarrow> x (recovery_image request) = None \<and> verified sha request (x (recovery_partial request)) \<and>
       sidecar_exact jl request (x (recovery_sidecar request)) \<and>
       y = x(recovery_image request := x (recovery_partial request), recovery_partial request := None)
   | MissingArtifactsCleaned \<Rightarrow> x (recovery_image request) = None \<and>
       (x (recovery_partial request) = None \<or> rr_sidecar_body request \<noteq> None \<and> x (recovery_sidecar request) = None) \<and>
       y = x(recovery_partial request := None, recovery_sidecar request := None))"

text \<open>The directory in between: only the files of the request change, and an image that appears is the verified
  partial beside its exact sidecar.\<close>

definition unharmed :: "(byte list \<Rightarrow> string) \<Rightarrow> json_library \<Rightarrow> RecoveryRequest \<Rightarrow> names \<Rightarrow> names set" where
  "unharmed sha jl request x = {y.
     (\<forall>k. k \<notin> {recovery_image request, recovery_partial request, recovery_sidecar request} \<longrightarrow> y k = x k) \<and>
     (y (recovery_image request) = x (recovery_image request) \<or>
      x (recovery_image request) = None \<and> y (recovery_image request) = x (recovery_partial request) \<and>
      verified sha request (x (recovery_partial request)) \<and> sidecar_exact jl request (x (recovery_sidecar request)))}"

lemma recovery_keys [simp]:
  "recovery_image request \<noteq> recovery_sidecar request" "recovery_sidecar request \<noteq> recovery_image request"
  by (simp_all add: recovery_defs)

lemma unharmed_refl [simp]: "x \<in> unharmed sha jl request x"
  by (simp add: unharmed_def)

lemma unharmed_remove:
  assumes "y \<in> unharmed sha jl request x" and "k \<in> {recovery_partial request, recovery_sidecar request}"
    and "x (recovery_image request) = None" and "y (recovery_image request) = None"
  shows "y(k := None) \<in> unharmed sha jl request x"
  using assms by (auto simp: unharmed_def simp del: split_paired_All)

lemma triple_reconcile_final:
  assumes "x (recovery_image request) = Some n" and "(x, b) \<in> C"
  shows "triple (inside G {(x, b)}) (reconcile_final env libs request (recovery_sidecar request) n)
    (\<lambda>outcome s. inside G {(x, b)} s \<and> reconciled (sl_sha libs) (sl_json libs) request x outcome x) (inside G C)"
  unfolding reconcile_final_def
proof (rule triple_value_seq [where R = "verified (sl_sha libs) request (Some n)"])
  show "verified (sl_sha libs) request (Some n)" if
    "verify_file env (sl_sha libs) n (rr_expected_bytes request) (rr_expected_sha256 request) s = Some (s', Inr v)" for s s' v
    using verify_file_value [OF that] by (auto simp: verified_def)
next
  assume ok: "verified (sl_sha libs) request (Some n)"
  let ?S = "recovery_sidecar request"
  let ?check = "case rr_sidecar_body request of
      Some expected \<Rightarrow> bind (exact_sidecar env (sl_json libs) ?S expected) (\<lambda>exact.
        if exact then give () else fail (StorageError ''final image exists without its exact metadata sidecar''))
    | None \<Rightarrow> ensure_absent env ?S ''unexpected metadata sidecar during recovery''"
  show "triple (inside G {(x, b)}) (seq ?check (give AlreadyInstalled))
    (\<lambda>outcome s. inside G {(x, b)} s \<and> reconciled (sl_sha libs) (sl_json libs) request x outcome x) (inside G C)"
  proof (rule triple_value_seq [where R = "sidecar_exact (sl_json libs) request (x ?S)"])
    show "still ?check" by (auto intro!: still_intros split: option.split)
    show "sidecar_exact (sl_json libs) request (x ?S)" if "disk s = (x, b)" "?check s = Some (s', Inr v)" for s s' v
      using that by (auto simp: sidecar_exact_def disk_def bind_passed split: option.splits if_splits
        dest!: ensure_absent_value exact_sidecar_value)
    show "sidecar_exact (sl_json libs) request (x ?S) \<Longrightarrow> triple (inside G {(x, b)}) (give AlreadyInstalled)
      (\<lambda>outcome s. inside G {(x, b)} s \<and> reconciled (sl_sha libs) (sl_json libs) request x outcome x) (inside G C)"
      by (rule triple_give) (use ok assms in \<open>auto simp: reconciled_def\<close>)
  qed (use assms in auto)
qed (use assms in \<open>auto intro: still_intros\<close>)

text \<open>States in which the image is not visible.\<close>

definition hidden :: "(byte list \<Rightarrow> string) \<Rightarrow> json_library \<Rightarrow> RecoveryRequest \<Rightarrow> names \<Rightarrow> names set" where
  "hidden sha jl request x = {y \<in> unharmed sha jl request x. y (recovery_image request) = None}"

lemma hidden_remove:
  "y \<in> hidden sha jl request x \<Longrightarrow> k \<in> {recovery_partial request, recovery_sidecar request} \<Longrightarrow>
   x (recovery_image request) = None \<Longrightarrow> y(k := None) \<in> hidden sha jl request x"
  using unharmed_remove [of y sha jl request x k] by (auto simp: hidden_def)

lemma triple_clean:
  assumes "x (recovery_image request) = None" and "k \<in> {recovery_partial request, recovery_sidecar request}"
    and G: "unharmed sha jl request x \<times> {b} \<subseteq> G"
  shows "triple (inside G (hidden sha jl request x \<times> {b})) (remove_file env k)
    (\<lambda>_. inside G (hidden sha jl request x \<times> {b})) (inside G (hidden sha jl request x \<times> {b}))"
proof (rule triple_remove_file)
  fix y c
  assume "(y, c) \<in> hidden sha jl request x \<times> {b}"
  then show "(y(k := None), c) \<in> G" "(y(k := None), c) \<in> hidden sha jl request x \<times> {b}"
    using hidden_remove [of y sha jl request x k] assms by (auto simp: hidden_def)
qed simp

lemma triple_remove_exact:
  assumes "(y(k := None), b) \<in> G" and "(y, b) \<in> C"
  shows "triple (inside G {(y, b)}) (remove_file env k) (\<lambda>_. inside G {(y(k := None), b)}) (inside G C)"
  by (rule triple_remove_file) (use assms in auto)

definition present_right :: "json_library \<Rightarrow> RecoveryRequest \<Rightarrow> names \<Rightarrow> bool \<Rightarrow> bool" where
  "present_right jl request x present = (if present
     then rr_sidecar_body request \<noteq> None \<and> sidecar_exact jl request (x (recovery_sidecar request))
     else x (recovery_sidecar request) = None)"

lemma triple_sidecar_present:
  assumes x: "x (recovery_image request) = None" and G: "unharmed (sl_sha libs) (sl_json libs) request x \<times> {b} \<subseteq> G"
  shows "triple (inside G {(x, b)}) (sidecar_present env libs request (recovery_partial request) (recovery_sidecar request))
    (\<lambda>present s. present_right (sl_json libs) request x present \<and> inside G {(x, b)} s)
    (inside G (unharmed (sl_sha libs) (sl_json libs) request x \<times> {b}))"
proof (cases "rr_sidecar_body request")
  case None
  show ?thesis
    unfolding sidecar_present_def None option.case
    by (rule triple_value_seq [where R = "x (recovery_sidecar request) = None"])
      (auto intro: still_intros triple_give dest!: ensure_absent_value simp: disk_def present_right_def)
next
  case (Some body)
  let ?H = "hidden (sl_sha libs) (sl_json libs) request x \<times> {b}"
  have handler: "triple (inside G ?H) (seq (ignore (remove_file env (recovery_partial request)))
      (seq (ignore (remove_file env (recovery_sidecar request))) (seq (ignore (sync_parent env)) (fail e)))) Q
      (inside G (unharmed (sl_sha libs) (sl_json libs) request x \<times> {b}))" for e and Q :: "bool \<Rightarrow> store \<Rightarrow> bool"
    by (intro triple_seq [OF triple_ignore [OF triple_clean [OF x _ G]]] triple_still_seq still_intros triple_fail)
      (auto simp: hidden_def elim!: inside_mono)
  have "triple (inside G {(x, b)}) (exact_sidecar env (sl_json libs) (recovery_sidecar request) body)
      (\<lambda>present s. present_right (sl_json libs) request x present \<and> inside G {(x, b)} s) (inside G {(x, b)})"
    by (rule still_value)
      (auto intro: still_intros simp: Some sidecar_exact_def present_right_def disk_def dest!: exact_sidecar_value split: if_splits)
  then have "triple (inside G {(x, b)}) (exact_sidecar env (sl_json libs) (recovery_sidecar request) body)
      (\<lambda>present s. present_right (sl_json libs) request x present \<and> inside G {(x, b)} s) (inside G ?H)"
    by (rule triple_weaken) (use x in \<open>auto simp: hidden_def elim!: inside_mono\<close>)
  then show ?thesis
    unfolding sidecar_present_def Some option.case by (rule triple_catch) (rule handler)
qed

definition reconciled_to ::
    "disk set \<Rightarrow> bool \<Rightarrow> ('p, 't) storage_libs \<Rightarrow> RecoveryRequest \<Rightarrow> names \<Rightarrow> RecoveryOutcome \<Rightarrow> store \<Rightarrow> bool" where
  "reconciled_to G b libs request x outcome s \<longleftrightarrow>
     (\<exists>y. reconciled (sl_sha libs) (sl_json libs) request x outcome y \<and> inside G {(y, b)} s)"

text \<open>The branches of \<open>reconcile_partial\<close>.\<close>

lemma triple_missing:
  assumes x: "x (recovery_image request) = None" and G: "unharmed (sl_sha libs) (sl_json libs) request x \<times> {b} \<subseteq> G"
    and present: "present_right (sl_json libs) request x present" and none: "x (recovery_partial request) = None"
  shows "triple (inside G {(x, b)}) (seq (if present then seq (remove_file env (recovery_sidecar request)) (sync_parent env)
      else give ()) (give MissingArtifactsCleaned))
    (reconciled_to G b libs request x) (inside G (unharmed (sl_sha libs) (sl_json libs) request x \<times> {b}))"
proof (cases present)
  case True
  let ?y = "x(recovery_sidecar request := None)"
  have "?y = x(recovery_partial request := None, recovery_sidecar request := None)" using none by (simp add: fun_upd_idem)
  then have post: "reconciled (sl_sha libs) (sl_json libs) request x MissingArtifactsCleaned ?y"
    using x none by (simp add: reconciled_def)
  have y: "?y \<in> unharmed (sl_sha libs) (sl_json libs) request x" using x by (simp add: unharmed_remove)
  have "triple (inside G {(x, b)}) (seq (remove_file env (recovery_sidecar request)) (sync_parent env))
      (\<lambda>_. inside G {(?y, b)}) (inside G (unharmed (sl_sha libs) (sl_json libs) request x \<times> {b}))"
    by (rule triple_seq [OF triple_remove_exact triple_still]) (use y G in \<open>auto intro: still_intros\<close>)
  then have "triple (inside G {(x, b)}) (seq (seq (remove_file env (recovery_sidecar request)) (sync_parent env))
      (give MissingArtifactsCleaned)) (reconciled_to G b libs request x)
      (inside G (unharmed (sl_sha libs) (sl_json libs) request x \<times> {b}))"
    by (rule triple_seq) (rule triple_give, use post in \<open>auto simp: reconciled_to_def\<close>)
  then show ?thesis using True by simp
next
  case False
  then have "reconciled (sl_sha libs) (sl_json libs) request x MissingArtifactsCleaned x"
    using x none present by (simp add: reconciled_def present_right_def fun_upd_idem)
  then show ?thesis
    using False by (auto intro!: triple_still_seq still_intros triple_give simp: reconciled_to_def)
qed

lemma triple_lone:
  assumes x: "x (recovery_image request) = None" "x (recovery_sidecar request) = None" "rr_sidecar_body request \<noteq> None"
    and G: "unharmed (sl_sha libs) (sl_json libs) request x \<times> {b} \<subseteq> G"
  shows "triple (inside G {(x, b)}) (seq (remove_file env (recovery_partial request)) (seq (sync_parent env)
      (give MissingArtifactsCleaned)))
    (reconciled_to G b libs request x) (inside G (unharmed (sl_sha libs) (sl_json libs) request x \<times> {b}))"
proof -
  let ?y = "x(recovery_partial request := None)"
  have "?y = x(recovery_partial request := None, recovery_sidecar request := None)" using x(2) by (auto simp: fun_eq_iff)
  then have "reconciled (sl_sha libs) (sl_json libs) request x MissingArtifactsCleaned ?y"
    using x by (simp add: reconciled_def)
  moreover have "?y \<in> unharmed (sl_sha libs) (sl_json libs) request x" using x by (simp add: unharmed_remove)
  ultimately show ?thesis
    by (intro triple_seq [OF triple_remove_exact] triple_still_seq still_intros triple_give)
      (use G in \<open>auto simp: reconciled_to_def\<close>)
qed

lemma triple_discard:
  assumes x: "x (recovery_image request) = None" and G: "unharmed (sl_sha libs) (sl_json libs) request x \<times> {b} \<subseteq> G"
  shows "triple (inside G (hidden (sl_sha libs) (sl_json libs) request x \<times> {b}))
    (seq (ignore (remove_file env (recovery_partial request)))
      (seq (if present then ignore (remove_file env (recovery_sidecar request)) else give ())
        (seq (ignore (sync_parent env)) (fail e)))) Q
    (inside G (unharmed (sl_sha libs) (sl_json libs) request x \<times> {b}))"
proof -
  let ?H = "inside G (hidden (sl_sha libs) (sl_json libs) request x \<times> {b})"
    and ?U = "inside G (unharmed (sl_sha libs) (sl_json libs) request x \<times> {b})"
  have one: "triple ?H (ignore (remove_file env k)) (\<lambda>_. ?H) ?U"
    if "k \<in> {recovery_partial request, recovery_sidecar request}" for k
    by (rule triple_ignore [OF triple_clean [OF x that G]])
  have two: "triple ?H (if present then ignore (remove_file env (recovery_sidecar request)) else give ()) (\<lambda>_. ?H) ?U"
    by (simp add: one triple_give)
  have "triple ?H (seq (ignore (sync_parent env)) (fail e)) Q ?U"
    by (intro triple_still_seq still_intros triple_fail) (auto simp: hidden_def elim!: inside_mono)
  then show ?thesis by (intro triple_seq [OF one triple_seq [OF two]]) auto
qed

lemma triple_install_partial:
  assumes x: "x (recovery_image request) = None" and G: "unharmed (sl_sha libs) (sl_json libs) request x \<times> {b} \<subseteq> G"
    and ok: "verified (sl_sha libs) request (x (recovery_partial request))"
      "sidecar_exact (sl_json libs) request (x (recovery_sidecar request))"
  shows "triple (inside G {(x, b)}) (seq (install_no_clobber env (recovery_dir request)
      (partial_name (recovery_token request)) (last (rp_components (rr_relative_path request))))
      (seq (sync_parent env) (give InstalledFromPartial)))
    (reconciled_to G b libs request x) (inside G (unharmed (sl_sha libs) (sl_json libs) request x \<times> {b}))"
proof -
  let ?P = "recovery_partial request" and ?I = "recovery_image request"
  have states: "insert x (linked x ?P ?I \<union> renamed x ?P ?I) \<subseteq> unharmed (sl_sha libs) (sl_json libs) request x"
    using ok x by (cases "?P = ?I") (auto simp: linked_def renamed_def unharmed_def)
  have out: "renamed x ?P ?I \<subseteq> {y. reconciled (sl_sha libs) (sl_json libs) request x InstalledFromPartial y}"
    using ok x by (auto simp: renamed_def reconciled_def)
  have "triple (inside G {(x, b)}) (install_no_clobber env (recovery_dir request)
      (partial_name (recovery_token request)) (last (rp_components (rr_relative_path request))))
      (\<lambda>_. inside G (renamed x ?P ?I \<times> {b})) (inside G (unharmed (sl_sha libs) (sl_json libs) request x \<times> {b}))"
    by (rule triple_weaken [OF triple_install_no_clobber [where x = x and b = b]])
      (use states G in \<open>auto simp: recovery_defs elim!: inside_mono\<close>)
  then show ?thesis
    by (rule triple_seq)
      (intro triple_still_seq still_intros triple_give, use states out in \<open>auto simp: reconciled_to_def inside_def\<close>)
qed

lemma triple_reconcile_partial:
  assumes x: "x (recovery_image request) = None" and G: "unharmed (sl_sha libs) (sl_json libs) request x \<times> {b} \<subseteq> G"
    and present: "present_right (sl_json libs) request x present"
  shows "triple (inside G {(x, b)}) (reconcile_partial env libs request (recovery_dir request)
      (partial_name (recovery_token request)) (last (rp_components (rr_relative_path request)))
      (sidecar_final_name (last (rp_components (rr_relative_path request)))) present (x (recovery_partial request)))
    (reconciled_to G b libs request x) (inside G (unharmed (sl_sha libs) (sl_json libs) request x \<times> {b}))"
proof (cases "x (recovery_partial request)")
  case None
  then show ?thesis
    using triple_missing [OF x G present None]
    by (simp only: reconcile_partial_def recovery_sidecar_def option.case)
next
  case (Some n)
  show ?thesis
  proof (cases "rr_sidecar_body request \<noteq> None \<and> \<not> present")
    case True
    then have "x (recovery_sidecar request) = None" using present by (simp add: present_right_def)
    with True show ?thesis
      using triple_lone [OF x _ _ G] Some by (simp add: reconcile_partial_def recovery_partial_def)
  next
    case False
    then have exact: "sidecar_exact (sl_json libs) request (x (recovery_sidecar request))"
      using present by (auto simp: present_right_def sidecar_exact_def split: if_splits)
    have "triple (inside G {(x, b)}) (catch (verify_file env (sl_sha libs) n (rr_expected_bytes request)
        (rr_expected_sha256 request)) (\<lambda>e. seq (ignore (remove_file env (recovery_partial request)))
          (seq (if present then ignore (remove_file env (recovery_sidecar request)) else give ())
            (seq (ignore (sync_parent env)) (fail e)))))
        (\<lambda>_ s. verified (sl_sha libs) request (x (recovery_partial request)) \<and> inside G {(x, b)} s)
        (inside G (unharmed (sl_sha libs) (sl_json libs) request x \<times> {b}))"
      by (rule triple_catch [OF triple_weaken [OF still_value] triple_discard [OF x G]])
        (use x Some in \<open>auto intro: still_intros simp: hidden_def verified_def dest!: verify_file_value elim!: inside_mono\<close>)
    note both = triple_seq [OF this triple_pure [OF triple_install_partial [OF x G _ exact, where env = env]]]
    from False Some show ?thesis
      unfolding reconcile_partial_def
      by (simp only: option.case if_False) (rule both [unfolded recovery_partial_def recovery_sidecar_def])
  qed
qed

lemma triple_reconcile_names:
  assumes G: "unharmed (sl_sha libs) (sl_json libs) request x \<times> {b} \<subseteq> G"
  shows "triple (inside G {(x, b)}) (reconcile_names env libs request (recovery_dir request)
      (partial_name (recovery_token request)) (last (rp_components (rr_relative_path request)))
      (sidecar_final_name (last (rp_components (rr_relative_path request)))))
    (reconciled_to G b libs request x) (inside G (unharmed (sl_sha libs) (sl_json libs) request x \<times> {b}))"
  unfolding reconcile_names_def recovery_sidecar_def [symmetric] recovery_image_def [symmetric] recovery_partial_def [symmetric]
proof (rule triple_value_bind [where R = "\<lambda>v. v = x (recovery_image request)"])
  fix found
  assume found: "found = x (recovery_image request)"
  let ?U = "unharmed (sl_sha libs) (sl_json libs) request x \<times> {b}"
  have absent: "triple (inside G {(x, b)}) (bind (sidecar_present env libs request (recovery_partial request) (recovery_sidecar request))
      (\<lambda>present. bind (open_existing env (recovery_partial request)) (reconcile_partial env libs request (recovery_dir request)
        (partial_name (recovery_token request)) (last (rp_components (rr_relative_path request)))
        (sidecar_final_name (last (rp_components (rr_relative_path request)))) present)))
      (reconciled_to G b libs request x) (inside G ?U)" if x: "x (recovery_image request) = None"
    by (intro triple_bind [OF triple_sidecar_present [OF x G]] triple_pure
        triple_value_bind [where R = "\<lambda>v. v = x (recovery_partial request)"])
      (auto intro: still_intros triple_reconcile_partial [OF x G] simp: disk_def dest!: open_existing_value)
  have final: "triple (inside G {(x, b)}) (reconcile_final env libs request (recovery_sidecar request) n)
      (reconciled_to G b libs request x) (inside G ?U)" if "x (recovery_image request) = Some n" for n
    by (rule triple_weaken [OF triple_reconcile_final [where x = x and request = request, OF that]])
      (auto simp: reconciled_to_def)
  show "triple (inside G {(x, b)}) (case found of
        None \<Rightarrow> bind (sidecar_present env libs request (recovery_partial request) (recovery_sidecar request))
          (\<lambda>present. bind (open_existing env (recovery_partial request)) (reconcile_partial env libs request (recovery_dir request)
            (partial_name (recovery_token request)) (last (rp_components (rr_relative_path request)))
            (sidecar_final_name (last (rp_components (rr_relative_path request)))) present))
      | Some n \<Rightarrow> reconcile_final env libs request (recovery_sidecar request) n)
      (reconciled_to G b libs request x) (inside G ?U)"
    by (simp add: found absent final split: option.split)
qed (auto intro: still_intros simp: disk_def dest!: open_existing_value)

lemma triple_reconcile_linux:
  assumes G: "unharmed (sl_sha libs) (sl_json libs) request x \<times> {b} \<subseteq> G"
  shows "triple (inside G {(x, b)}) (reconcile_linux env libs cap request) (reconciled_to G b libs request x)
    (inside G (unharmed (sl_sha libs) (sl_json libs) request x \<times> {b}))"
proof -
  have token: "triple (inside G {(x, b)}) (lift (sanitize_variable (rr_capture_id request) ''captureId''))
      (\<lambda>t s. t = recovery_token request \<and> inside G {(x, b)} s) (inside G (unharmed (sl_sha libs) (sl_json libs) request x \<times> {b}))"
    by (rule triple_lift) (auto simp: recovery_token_def elim!: inside_mono)
  show ?thesis
    unfolding reconcile_linux_def Let_def recovery_dir_def [symmetric]
    by (auto intro!: triple_fail triple_still_seq still_intros triple_bind [OF token] triple_pure triple_reconcile_names [OF G]
      elim!: inside_mono)
qed


text \<open>C18: Whatever the file system does during a reconciliation, an outcome is reported only when it is true:
  the installed image has the recorded size and digest beside its exact sidecar, or nothing of the capture
  is left. In every state on the way only the files of this capture change, an existing image is never
  replaced, and an image that appears is the verified partial.\<close>

theorem reconcile_sound:
  assumes "reconcile_linux env libs cap request s = Some (s', r)" and "st_history s = []"
  shows "(\<forall>(y, started) \<in> set (st_history s').
      (\<forall>k. k \<notin> {recovery_image request, recovery_partial request, recovery_sidecar request} \<longrightarrow> y k = st_names s k) \<and>
      (y (recovery_image request) \<noteq> st_names s (recovery_image request) \<longrightarrow> st_names s (recovery_image request) = None \<and>
        y (recovery_image request) = st_names s (recovery_partial request) \<and>
        verified (sl_sha libs) request (y (recovery_image request)))) \<and>
    (\<forall>outcome. r = Inr outcome \<longrightarrow>
      (if outcome = MissingArtifactsCleaned
       then st_names s' (recovery_image request) = None \<and> st_names s' (recovery_partial request) = None \<and>
         st_names s' (recovery_sidecar request) = None
       else verified (sl_sha libs) request (st_names s' (recovery_image request)) \<and>
         sidecar_exact (sl_json libs) request (st_names s' (recovery_sidecar request))))"
proof -
  let ?U = "unharmed (sl_sha libs) (sl_json libs) request (st_names s)"
  let ?G = "?U \<times> {st_started s}"
  have start: "inside ?G {(st_names s, st_started s)} s" using assms(2) by (simp add: inside_def disk_def)
  note run = tripleD [OF triple_reconcile_linux [OF subset_refl] start assms(1)]
  then have hist: "set (st_history s') \<subseteq> ?G" by (cases r) (auto simp: reconciled_to_def inside_def)
  have state: "(\<forall>k. k \<notin> {recovery_image request, recovery_partial request, recovery_sidecar request} \<longrightarrow> y k = st_names s k) \<and>
      (y (recovery_image request) \<noteq> st_names s (recovery_image request) \<longrightarrow> st_names s (recovery_image request) = None \<and>
        y (recovery_image request) = st_names s (recovery_partial request) \<and>
        verified (sl_sha libs) request (y (recovery_image request)))" if "(y, b) \<in> set (st_history s')" for y b
    using subsetD [OF hist that] by (auto simp: unharmed_def simp del: split_paired_All)
  have outcome: "if outcome = MissingArtifactsCleaned
       then st_names s' (recovery_image request) = None \<and> st_names s' (recovery_partial request) = None \<and>
         st_names s' (recovery_sidecar request) = None
       else verified (sl_sha libs) request (st_names s' (recovery_image request)) \<and>
         sidecar_exact (sl_json libs) request (st_names s' (recovery_sidecar request))" if "r = Inr outcome" for outcome
    using run that
    by (cases outcome)
      (auto simp: reconciled_to_def inside_def disk_def reconciled_def verified_def recovery_defs sidecar_final_name_def
        partial_name_def)
  show ?thesis using state outcome by blast
qed


section \<open>Completeness\<close>

text \<open>An environment in which no call fails, nothing is cancelled and no directory is moved.\<close>

definition calm :: "store_env \<Rightarrow> bool" where
  "calm env \<longleftrightarrow> (\<forall>n. sv_fails env n = None \<and> \<not> sv_cancelled env n \<and> \<not> sv_moved env n)"

definition works :: "('s \<Rightarrow> bool) \<Rightarrow> ('s, 'a) prog \<Rightarrow> ('a \<Rightarrow> 's \<Rightarrow> bool) \<Rightarrow> bool" where
  "works P m Q \<longleftrightarrow> (\<forall>s. P s \<longrightarrow> (\<exists>s' v. m s = Some (s', Inr v) \<and> Q v s'))"

definition here :: "names \<Rightarrow> bool \<Rightarrow> (string list \<Rightarrow> dirstat option) \<Rightarrow> store \<Rightarrow> bool" where
  "here x b D s \<longleftrightarrow> st_names s = x \<and> st_started s = b \<and> st_dirs s = D"

lemma here_tick [simp]: "here x b D (advance_tick s) = here x b D s"
  by (simp add: here_def advance_tick_def)

lemma worksD: "works P m Q \<Longrightarrow> P s \<Longrightarrow> \<exists>s' v. m s = Some (s', Inr v) \<and> Q v s'"
  by (simp add: works_def)

lemma works_give: "(\<And>s. P s \<Longrightarrow> Q v s) \<Longrightarrow> works P (give v) Q"
  by (auto simp: works_def)

lemma works_lift: "r = Inr v \<Longrightarrow> (\<And>s. P s \<Longrightarrow> Q v s) \<Longrightarrow> works P (lift r) Q"
  by (auto simp: works_def)

lemma works_bind: "works P m R \<Longrightarrow> (\<And>v. works (R v) (k v) Q) \<Longrightarrow> works P (bind m k) Q"
  unfolding works_def bind_passed by meson

lemma works_seq: "works P m (\<lambda>_. R) \<Longrightarrow> works R n Q \<Longrightarrow> works P (seq m n) Q"
  unfolding seq_def by (rule works_bind)

lemma works_catch: "works P m Q \<Longrightarrow> works P (catch m h) Q"
  unfolding works_def catch_def by fastforce

lemma works_weaken: "works P m Q \<Longrightarrow> (\<And>v s. Q v s \<Longrightarrow> Q' v s) \<Longrightarrow> works P m Q'"
  unfolding works_def by meson

lemma works_pure: "(R \<Longrightarrow> works P m Q) \<Longrightarrow> works (\<lambda>s. R \<and> P s) m Q"
  by (auto simp: works_def)

lemma works_syscall: "calm env \<Longrightarrow> works (here x b D) act Q \<Longrightarrow> works (here x b D) (syscall env label act) Q"
  by (simp add: works_def syscall_def calm_def)

lemma works_primitives:
  assumes "calm env"
  shows "works (here x b D) (syscall env label (give ())) (\<lambda>_. here x b D)"
    and "works (here x b D) (check_cancelled env stage) (\<lambda>_. here x b D)"
    and "works (here x b D) (revalidate_parent_at env) (\<lambda>_. here x b D)"
    and "works (here x b D) (fsync_parent env) (\<lambda>_. here x b D)"
    and "works (here x b D) (sync_parent env) (\<lambda>_. here x b D)"
    and "x k \<noteq> Some Symlink \<Longrightarrow> works (here x b D) (open_existing env k) (\<lambda>v s. v = x k \<and> here x b D s)"
    and "x k = None \<Longrightarrow> works (here x b D) (ensure_absent env k text) (\<lambda>_. here x b D)"
proof -
  show call: "works (here x b D) (syscall env label (give ())) (\<lambda>_. here x b D)" for label
    by (rule works_syscall [OF assms works_give])
  show check: "works (here x b D) (check_cancelled env stage) (\<lambda>_. here x b D)"
    using assms by (auto simp: works_def check_cancelled_def calm_def)
  show re: "works (here x b D) (revalidate_parent_at env) (\<lambda>_. here x b D)"
    unfolding revalidate_parent_at_def
    by (rule works_syscall [OF assms]) (use assms in \<open>auto simp: works_def calm_def\<close>)
  show fsync: "works (here x b D) (fsync_parent env) (\<lambda>_. here x b D)"
    unfolding fsync_parent_def by (rule call)
  show "works (here x b D) (sync_parent env) (\<lambda>_. here x b D)"
    unfolding sync_parent_def by (rule works_seq [OF re fsync])
  show "works (here x b D) (open_existing env k) (\<lambda>v s. v = x k \<and> here x b D s)" if "x k \<noteq> Some Symlink"
    unfolding open_existing_def Let_def
    by (rule works_syscall [OF assms]) (use that in \<open>auto simp: works_def here_def\<close>)
  show "works (here x b D) (ensure_absent env k text) (\<lambda>_. here x b D)" if "x k = None"
    unfolding ensure_absent_def
    by (rule works_syscall [OF assms]) (use that in \<open>auto simp: works_def here_def\<close>)
qed

text \<open>Every directory on the way is there, on the root's device and closed to other writers.\<close>

fun walkable :: "RootCapability \<Rightarrow> (string list \<Rightarrow> dirstat option) \<Rightarrow> string list \<Rightarrow> string list \<Rightarrow> bool" where
  "walkable cap D dir [] \<longleftrightarrow> True"
| "walkable cap D dir (c # cs) \<longleftrightarrow>
     (case D (dir @ [c]) of None \<Rightarrow> False
      | Some d \<Rightarrow> ds_device d = rc_device cap \<and> and (ds_mode d) 18 = 0) \<and> walkable cap D (dir @ [c]) cs"

lemma works_open_walk:
  assumes "calm env"
  shows "walkable cap D dir cs \<Longrightarrow> works (here x b D) (open_walk env cap create dir cs) (\<lambda>_. here x b D)"
proof (induction cs arbitrary: dir)
  case Nil
  then show ?case by (simp add: works_give)
next
  case (Cons c cs)
  then obtain d where d: "D (dir @ [c]) = Some d" "ds_device d = rc_device cap" "and (ds_mode d) 18 = 0"
    by (auto split: option.splits)
  have opened: "works (here x b D) (open_directory env (dir @ [c]) label) (\<lambda>v s. v \<and> here x b D s)" for label
    unfolding open_directory_def by (rule works_syscall [OF assms]) (use d in \<open>auto simp: works_def here_def\<close>)
  have "works (here x b D) (open_component env cap create (dir @ [c]) c) (\<lambda>_. here x b D)"
    unfolding open_component_def Let_def by (rule works_bind [OF opened works_pure]) (auto intro: works_give)
  moreover have "works (here x b D) (inspect_directory env cap (dir @ [c])) (\<lambda>_. here x b D)"
    unfolding inspect_directory_def by (rule works_syscall [OF assms]) (use d in \<open>auto simp: works_def here_def\<close>)
  ultimately show ?case using Cons by (auto intro!: works_seq)
qed

lemma works_open_parent:
  "calm env \<Longrightarrow> walkable cap D [] cs \<Longrightarrow> works (here x b D) (open_parent env cap cs create) (\<lambda>_. here x b D)"
  unfolding open_parent_def
  by (rule works_seq [OF works_primitives(1) works_seq [OF works_open_walk works_primitives(3)]])

lemma works_checksum_reads: "calm env \<Longrightarrow> works (here x b D) (checksum_reads env n) (\<lambda>_. here x b D)"
  by (induction n) (auto intro: works_give works_seq works_primitives)

lemma works_verify_file:
  assumes "calm env" and "length c = len" and "eq_ignore_ascii_case (sha c) digest"
  shows "works (here x b D) (verify_file env sha (Regular c) len digest) (\<lambda>_. here x b D)"
proof -
  have "works (here x b D) (stream_checksum env sha c) (\<lambda>v s. v = (length c, sha c) \<and> here x b D s)"
    unfolding stream_checksum_def
    by (rule works_seq [OF works_primitives(1) works_seq [OF works_checksum_reads works_give]]) (use assms in auto)
  then show ?thesis
    using assms by (auto simp: verify_file_def intro!: works_seq works_primitives works_bind works_pure works_give)
qed

lemma works_exact_sidecar:
  assumes "calm env" and "is_JObject body" "length (sidecar_bytes jl body) \<le> MAX_SIDECAR_BYTES"
    and "jl_parse jl (sidecar_bytes jl body) = Inr v" "is_JObject v" and "x k = Some (Regular (sidecar_bytes jl body))"
  shows "works (here x b D) (exact_sidecar env jl k body) (\<lambda>v s. v \<and> here x b D s)"
proof -
  have "works (here x b D) (compare_sidecar env jl k body (Regular (sidecar_bytes jl body))) (\<lambda>v s. v \<and> here x b D s)"
    unfolding compare_sidecar_def Let_def
    using assms by (auto intro!: works_seq works_primitives works_give)
  then have "works (\<lambda>s. found = x k \<and> here x b D s) (case found of None \<Rightarrow> give False
      | Some n \<Rightarrow> compare_sidecar env jl k body n) (\<lambda>v s. v \<and> here x b D s)" for found
    using assms(6) by (auto intro: works_pure)
  then show ?thesis
    unfolding exact_sidecar_def using assms by (auto intro!: works_bind [OF works_primitives(6)])
qed

lemma works_install_no_clobber:
  assumes "calm env" and "x (d, p) = Some (Regular c)" and "x (d, f) = None"
  shows "works (here x b D) (install_no_clobber env d p f) (\<lambda>_. here (x((d, f) \<mapsto> Regular c, (d, p) := None)) b D)"
proof -
  let ?l = "x((d, f) \<mapsto> Regular c)"
  have "works (here x b D) (link_name env (d, p) (d, f)) (\<lambda>_. here ?l b D)"
    unfolding link_name_def Let_def
    by (rule works_syscall [OF assms(1)]) (use assms in \<open>auto simp: works_def here_def set_name_def remember_def\<close>)
  moreover have "works (here ?l b D) (unlink env (d, p) label) (\<lambda>_. here (?l((d, p) := None)) b D)" for label
    unfolding unlink_def
    by (rule works_syscall [OF assms(1)]) (use assms in \<open>auto simp: works_def here_def set_name_def remember_def\<close>)
  ultimately show ?thesis
    unfolding install_no_clobber_def
    by (rule works_seq [OF works_primitives(3) [OF assms(1)] works_seq [OF _ works_seq [OF works_catch
      [OF works_primitives(3) [OF assms(1)]]]]])
qed


text \<open>The sidecar of a request that reconciliation accepts.\<close>

definition sidecar_acceptable :: "json_library \<Rightarrow> RecoveryRequest \<Rightarrow> node option \<Rightarrow> bool" where
  "sidecar_acceptable jl request n = (sidecar_exact jl request n \<and>
     (case rr_sidecar_body request of None \<Rightarrow> True | Some body \<Rightarrow> is_JObject body \<and>
        length (sidecar_bytes jl body) \<le> MAX_SIDECAR_BYTES \<and>
        (\<exists>v. jl_parse jl (sidecar_bytes jl body) = Inr v \<and> is_JObject v)))"

lemma works_reconcile_final:
  assumes "calm env" and "verified (sl_sha libs) request (Some n)"
    and "sidecar_acceptable (sl_json libs) request (x (recovery_sidecar request))"
  shows "works (here x b D) (reconcile_final env libs request (recovery_sidecar request) n)
    (\<lambda>outcome s. outcome = AlreadyInstalled \<and> here x b D s)"
proof -
  let ?check = "case rr_sidecar_body request of
      Some expected \<Rightarrow> bind (exact_sidecar env (sl_json libs) (recovery_sidecar request) expected) (\<lambda>exact.
        if exact then give () else fail (StorageError ''final image exists without its exact metadata sidecar''))
    | None \<Rightarrow> ensure_absent env (recovery_sidecar request) ''unexpected metadata sidecar during recovery''"
  have "works (here x b D) ?check (\<lambda>_. here x b D)"
  proof (cases "rr_sidecar_body request")
    case None
    then show ?thesis using assms by (simp add: works_primitives sidecar_acceptable_def sidecar_exact_def)
  next
    case (Some body)
    then obtain v where v: "is_JObject body" "length (sidecar_bytes (sl_json libs) body) \<le> MAX_SIDECAR_BYTES"
      "jl_parse (sl_json libs) (sidecar_bytes (sl_json libs) body) = Inr v" "is_JObject v"
      "x (recovery_sidecar request) = Some (Regular (sidecar_bytes (sl_json libs) body))"
      using assms by (auto simp: sidecar_acceptable_def sidecar_exact_def)
    then show ?thesis
      unfolding Some option.case
      by (intro works_bind [OF works_exact_sidecar [where x = x and k = "recovery_sidecar request", OF assms(1) v]] works_pure) (auto intro: works_give)
  qed
  moreover obtain c where "n = Regular c" "length c = rr_expected_bytes request"
      "eq_ignore_ascii_case (sl_sha libs c) (rr_expected_sha256 request)"
    using assms(2) by (auto simp: verified_def)
  ultimately show ?thesis
    unfolding reconcile_final_def using works_verify_file [OF assms(1)]
    by (auto intro!: works_seq works_give)
qed

lemma works_sidecar_present:
  assumes "calm env" and "sidecar_acceptable (sl_json libs) request (x (recovery_sidecar request))"
  shows "works (here x b D) (sidecar_present env libs request p (recovery_sidecar request))
    (\<lambda>v s. v = (rr_sidecar_body request \<noteq> None) \<and> here x b D s)"
proof (cases "rr_sidecar_body request")
  case None
  then show ?thesis
    unfolding sidecar_present_def None option.case
    by (intro works_seq [OF works_primitives(7) works_give]) (use assms None in \<open>auto simp: sidecar_acceptable_def sidecar_exact_def\<close>)
next
  case (Some body)
  then obtain v where v: "is_JObject body" "length (sidecar_bytes (sl_json libs) body) \<le> MAX_SIDECAR_BYTES"
    "jl_parse (sl_json libs) (sidecar_bytes (sl_json libs) body) = Inr v" "is_JObject v"
    "x (recovery_sidecar request) = Some (Regular (sidecar_bytes (sl_json libs) body))"
    using assms by (auto simp: sidecar_acceptable_def sidecar_exact_def)
  show ?thesis
    using works_catch [OF works_exact_sidecar [where x = x and k = "recovery_sidecar request", OF assms(1) v]] by (simp add: sidecar_present_def Some)
qed

lemma works_reconcile_names:
  assumes calm: "calm env" and side: "sidecar_acceptable (sl_json libs) request (x (recovery_sidecar request))"
    and image: "if x (recovery_image request) = None then verified (sl_sha libs) request (x (recovery_partial request))
      else verified (sl_sha libs) request (x (recovery_image request))"
  shows "works (here x b D) (reconcile_names env libs request (recovery_dir request)
      (partial_name (recovery_token request)) (last (rp_components (rr_relative_path request)))
      (sidecar_final_name (last (rp_components (rr_relative_path request)))))
    (\<lambda>outcome s. outcome \<noteq> MissingArtifactsCleaned)"
  unfolding reconcile_names_def recovery_sidecar_def [symmetric] recovery_image_def [symmetric] recovery_partial_def [symmetric]
proof (intro works_bind [OF works_primitives(6) [OF calm]] works_pure)
  show "x (recovery_image request) \<noteq> Some Symlink" using image by (auto simp: verified_def)
  fix found
  assume found: "found = x (recovery_image request)"
  let ?rest = "bind (sidecar_present env libs request (recovery_partial request) (recovery_sidecar request))
      (\<lambda>present. bind (open_existing env (recovery_partial request)) (reconcile_partial env libs request (recovery_dir request)
        (partial_name (recovery_token request)) (last (rp_components (rr_relative_path request)))
        (sidecar_final_name (last (rp_components (rr_relative_path request)))) present))"
  have partial: "works (here x b D) ?rest (\<lambda>outcome s. outcome \<noteq> MissingArtifactsCleaned)"
    if x: "x (recovery_image request) = None"
  proof -
    obtain c where c: "x (recovery_partial request) = Some (Regular c)" "length c = rr_expected_bytes request"
      "eq_ignore_ascii_case (sl_sha libs c) (rr_expected_sha256 request)" using image x by (auto simp: verified_def)
    have "works (here x b D) (reconcile_partial env libs request (recovery_dir request)
        (partial_name (recovery_token request)) (last (rp_components (rr_relative_path request)))
        (sidecar_final_name (last (rp_components (rr_relative_path request)))) (rr_sidecar_body request \<noteq> None)
        (x (recovery_partial request))) (\<lambda>outcome s. outcome \<noteq> MissingArtifactsCleaned)"
      unfolding reconcile_partial_def c(1) option.case
      by (subst if_not_P, blast, rule works_seq [OF works_catch [OF works_verify_file [where sha = "sl_sha libs" and c = c, OF calm c(2,3)]]],
          rule works_seq [OF works_install_no_clobber [OF calm] works_seq [OF works_primitives(5) [OF calm] works_give]])
        (use c x in \<open>simp_all add: recovery_defs\<close>)
    then show ?thesis
      by (intro works_bind [OF works_sidecar_present [where x = x, OF calm side]] works_pure works_bind [OF works_primitives(6) [OF calm]])
        (simp_all add: c)
  qed
  have final: "works (here x b D) (reconcile_final env libs request (recovery_sidecar request) n)
      (\<lambda>outcome s. outcome \<noteq> MissingArtifactsCleaned)" if "x (recovery_image request) = Some n" for n
    by (rule works_weaken [OF works_reconcile_final [OF calm]]) (use side image that in auto)
  show "works (here x b D) (case found of None \<Rightarrow> ?rest
      | Some n \<Rightarrow> reconcile_final env libs request (recovery_sidecar request) n)
      (\<lambda>outcome s. outcome \<noteq> MissingArtifactsCleaned)"
    by (simp add: found partial final split: option.split)
qed

lemma reconcile_completes:
  assumes "calm env" and "walkable cap (st_dirs s) [] (recovery_dir request)"
    and "rp_components (rr_relative_path request) \<noteq> []"
    and "sanitize_variable (rr_capture_id request) ''captureId'' = Inr t"
    and "sidecar_acceptable (sl_json libs) request (st_names s (recovery_sidecar request))"
    and "if st_names s (recovery_image request) = None then verified (sl_sha libs) request (st_names s (recovery_partial request))
      else verified (sl_sha libs) request (st_names s (recovery_image request))"
  shows "\<exists>s' outcome. reconcile_linux env libs cap request s = Some (s', Inr outcome) \<and> outcome \<noteq> MissingArtifactsCleaned"
proof -
  have t: "t = recovery_token request" using assms(4) by (simp add: recovery_token_def)
  let ?here = "here (st_names s) (st_started s) (st_dirs s)"
  have "works ?here (bind (lift (Inr t)) (\<lambda>t. reconcile_names env libs request (recovery_dir request) (partial_name t)
      (last (rp_components (rr_relative_path request))) (sidecar_final_name (last (rp_components (rr_relative_path request))))))
      (\<lambda>outcome s. outcome \<noteq> MissingArtifactsCleaned)"
    using works_reconcile_names [OF assms(1,5,6)] by (simp add: t works_def bind_def lift_def)
  then have "works ?here (reconcile_linux env libs cap request) (\<lambda>outcome s. outcome \<noteq> MissingArtifactsCleaned)"
    unfolding reconcile_linux_def Let_def recovery_dir_def [symmetric] assms(4)
    using assms(3) works_seq [OF works_open_parent [OF assms(1,2)] works_seq [OF works_primitives(3) [OF assms(1)]]] by simp
  then show ?thesis by (auto simp: works_def here_def)
qed


section \<open>From preparation to recovery\<close>

text \<open>A prepared image: its partial is complete, nothing is under the final names, and the record matches.\<close>

definition prepared ::
    "(byte list \<Rightarrow> string) \<Rightarrow> RelativeOutputPath \<Rightarrow> PreparedInstall \<Rightarrow> byte list \<Rightarrow> names \<Rightarrow> bool" where
  "prepared sha path p c x \<longleftrightarrow>
     rp_components path = pp_parent p @ [pp_final_name p] \<and>
     (\<exists>t. sanitize_variable (pp_capture_id p) ''captureId'' = Inr t \<and> pp_partial_name p = partial_name t \<and>
        pp_sidecar_partial_name p = sidecar_partial_name t) \<and>
     pp_sidecar_final_name p = sidecar_final_name (pp_final_name p) \<and>
     x (image_key p) = None \<and> x (sidecar_key p) = None \<and> x (partial_key p) = Some (Regular c) \<and>
     length c = ia_bytes (pp_artifact p) \<and> sha c = ia_sha256 (pp_artifact p) \<and>
     \<not> pp_installation_started p \<and> \<not> pp_sidecar_installed p \<and> \<not> pp_completed p"

definition request_for :: "PreparedInstall \<Rightarrow> RelativeOutputPath \<Rightarrow> json option \<Rightarrow> RecoveryRequest" where
  "request_for p path body = \<lparr>rr_capture_id = pp_capture_id p, rr_relative_path = path,
     rr_expected_bytes = ia_bytes (pp_artifact p), rr_expected_sha256 = ia_sha256 (pp_artifact p), rr_sidecar_body = body\<rparr>"

lemma suffix_partial:
  "suffix ''.partial'' (partial_name t)" "suffix ''.partial'' (sidecar_partial_name t)"
  by (simp_all add: partial_name_def sidecar_partial_name_def suffix_def)

lemma sidecar_not_partial: "\<not> suffix ''.partial'' (sidecar_final_name f)"
  by (auto simp: sidecar_final_name_def suffix_def append_eq_append_conv2 append_eq_Cons_conv)

lemma partials_differ [simp]:
  "partial_name t \<noteq> sidecar_partial_name t" "sidecar_partial_name t \<noteq> partial_name t"
  "partial_name t \<noteq> sidecar_final_name f" "sidecar_final_name f \<noteq> partial_name t"
  "sidecar_partial_name t \<noteq> sidecar_final_name f" "sidecar_final_name f \<noteq> sidecar_partial_name t"
  using suffix_partial [of t] sidecar_not_partial [of f]
  by (auto simp: partial_name_def sidecar_partial_name_def)

lemma prepared_fresh:
  assumes "prepared sha path p c x" and "\<not> suffix ''.partial'' (pp_final_name p)"
  shows "fresh_install p"
  using assms suffix_partial by (auto simp: prepared_def fresh_install_def own_names_def)

lemma prepared_keys:
  assumes "prepared sha path p c x"
  shows "recovery_image (request_for p path body) = image_key p"
    and "recovery_partial (request_for p path body) = partial_key p"
    and "recovery_sidecar (request_for p path body) = sidecar_key p"
    and "recovery_dir (request_for p path body) = pp_parent p"
  using assms by (auto simp: prepared_def request_for_def recovery_defs recovery_dir_def recovery_token_def key_defs)

lemma stillN: "still m \<Longrightarrow> m s = Some (s', r) \<Longrightarrow> st_names s' = st_names s"
  using stillD [of m s s' r] by (auto simp: disk_def)

lemma create_partial_passed:
  "create_partial_path env k s = Some (s', Inr v) \<Longrightarrow> st_names s k = None \<and> st_names s' = (st_names s)(k \<mapsto> Regular [])"
  by (auto simp: create_partial_path_def Let_def set_name_def remember_def advance_tick_def dest!: syscall_passed split: if_splits)

lemma fill_partial_passed:
  assumes "catch (fill_partial libs k request) (\<lambda>e. seq (ignore (remove_file env k)) (fail e)) s = Some (s', Inr v)"
  shows "\<exists>c. st_names s' = (st_names s)(k \<mapsto> Regular c)"
  using assms
  by (elim catch_cases) (auto simp: fill_partial_def set_name_def remember_def seq_passed split: option.splits)

lemma checked_partial_passed:
  assumes "checked_partial env libs k encoded s = Some (s', Inr v)"
  shows "st_names s' = st_names s \<and> (\<exists>c. st_names s k = Some (Regular c) \<and> length c = ei_bytes encoded \<and> v = sl_sha libs c)"
proof -
  from assms obtain c where c: "st_names s k = Some (Regular c)"
    and run: "bind (stream_checksum env (sl_sha libs) c) (\<lambda>(bytes, sha256).
      if bytes \<noteq> ei_bytes encoded
      then seq (ignore (remove_file env k)) (fail (StorageError ''encoded byte count changed before durable flush''))
      else give sha256) s = Some (s', Inr v)"
    by (auto simp: checked_partial_def split: option.splits node.splits)
  then obtain s1 r where r: "stream_checksum env (sl_sha libs) c s = Some (s1, Inr r)"
    and "(case r of (bytes, sha256) \<Rightarrow> if bytes \<noteq> ei_bytes encoded
      then seq (ignore (remove_file env k)) (fail (StorageError ''encoded byte count changed before durable flush''))
      else give sha256) s1 = Some (s', Inr v)" by (auto simp: bind_passed)
  then have "s' = s1 \<and> fst r = ei_bytes encoded \<and> v = snd r" by (auto simp: seq_passed split: prod.splits if_splits)
  moreover have "r = (length c, sl_sha libs c)" using r by (auto simp: stream_checksum_def seq_passed)
  ultimately show ?thesis using c stillN [OF still_stream_checksum r] by simp
qed

lemma prepare_linux_prepared:
  assumes run: "prepare_linux env libs pol cap request s = Some (s', Inr p)"
    and name: "\<not> suffix ''.partial'' (last (rp_components (pc_relative_path request)))"
  shows "\<exists>c. prepared (sl_sha libs) (pc_relative_path request) p c (st_names s')"
proof -
  let ?comps = "rp_components (pc_relative_path request)"
  let ?dir = "butlast ?comps" and ?f = "last ?comps"
  have ne: "?comps \<noteq> []" using run by (auto simp: prepare_linux_def)
  from run ne obtain s1 s2 t s3 s4 s5 s6 encoded s7 sha uri where
      steps: "open_parent env cap ?dir True s = Some (s1, Inr ())" "revalidate_parent_at env s1 = Some (s2, Inr ())"
      "sanitize_variable (pc_capture_id request) ''captureId'' = Inr t"
      "ensure_absent env (?dir, ?f) ''final image'' s2 = Some (s3, Inr ())"
      "ensure_absent env (?dir, sidecar_final_name ?f) ''metadata sidecar'' s3 = Some (s4, Inr ())"
      "create_partial_path env (?dir, partial_name t) s4 = Some (s5, Inr ())"
      "catch (fill_partial libs (?dir, partial_name t) request)
        (\<lambda>e. seq (ignore (remove_file env (?dir, partial_name t))) (fail e)) s5 = Some (s6, Inr encoded)"
      "syscall env (storage_label ''failed to durably flush image partial: '') (give ()) s6 = Some (s7, Inr ())"
      "checked_partial env libs (?dir, partial_name t) encoded s7 = Some (s', Inr sha)"
    and p: "pp_parent p = ?dir" "pp_capture_id p = pc_capture_id request" "pp_final_name p = ?f"
      "pp_partial_name p = partial_name t" "pp_sidecar_final_name p = sidecar_final_name ?f"
      "pp_sidecar_partial_name p = sidecar_partial_name t" "pp_artifact p = make_artifact pol request encoded sha uri"
      "\<not> pp_installation_started p" "\<not> pp_sidecar_installed p" "\<not> pp_completed p"
    by - (simp add: prepare_linux_def Let_def seq_passed bind_passed, elim exE conjE, rule that, assumption+, simp_all)
  let ?x = "st_names s"
  have x: "st_names s1 = ?x" "st_names s2 = ?x" "st_names s3 = ?x" "st_names s4 = ?x"
    using stillN [OF still_open_parent steps(1)] stillN [OF still_primitives(3) steps(2)]
      stillN [OF still_primitives(7) steps(4)] stillN [OF still_primitives(7) steps(5)] by simp_all
  have none: "?x (?dir, ?f) = None" "?x (?dir, sidecar_final_name ?f) = None"
    using ensure_absent_value [OF steps(4)] ensure_absent_value [OF steps(5)] x by simp_all
  obtain c where c: "st_names s6 = ?x((?dir, partial_name t) \<mapsto> Regular c)"
    using fill_partial_passed [OF steps(7)] create_partial_passed [OF steps(6)] x by auto
  moreover have "st_names s7 = st_names s6" by (rule stillN [OF still_primitives(1) steps(8)])
  ultimately have s': "st_names s' = ?x((?dir, partial_name t) \<mapsto> Regular c)" "length c = ei_bytes encoded" "sha = sl_sha libs c"
    using checked_partial_passed [OF steps(9)] by auto
  have "partial_name t \<noteq> ?f" "partial_name t \<noteq> sidecar_final_name ?f"
    using name suffix_partial(1) [of t] sidecar_not_partial [of ?f] by metis+
  then show ?thesis
    using ne none s' p steps(3) by (auto simp: prepared_def key_defs make_artifact_def Let_def)
qed

section \<open>An installation that is not disturbed\<close>

text \<open>Every write makes some progress.\<close>

definition accepting :: "store_env \<Rightarrow> bool" where
  "accepting env \<longleftrightarrow> (\<forall>n. \<exists>k > 0. sv_accepts env n = Inr k)"

lemma sidecar_write_progress:
  assumes "calm env" "accepting env" "buffer \<noteq> []" "sw_written w + length buffer \<le> MAX_SIDECAR_BYTES"
  obtains n w1 where "sidecar_write env buffer w = (w1, Inr n)" "0 < n" "n \<le> length buffer"
    "sw_file w1 = sw_file w @ take n buffer" "sw_written w1 = sw_written w + n"
proof -
  obtain k where k: "sv_accepts env (sw_ticks w) = Inr k" "0 < k" using assms(2) by (auto simp: accepting_def)
  let ?n = "min k (length buffer)"
  show ?thesis
    using that [of "w\<lparr>sw_ticks := Suc (sw_ticks w), sw_file := sw_file w @ take ?n buffer,
        sw_written := sw_written w + ?n\<rparr>" ?n] k assms
    by (auto simp: sidecar_write_def Let_def calm_def min_def)
qed

lemma write_all_progress:
  assumes "calm env" "accepting env"
  shows "sw_written w + length buffer \<le> MAX_SIDECAR_BYTES \<Longrightarrow>
    \<exists>w'. write_all (sidecar_write env) buffer w = Some (w', Inr ()) \<and> sw_written w' = sw_written w + length buffer"
proof (induction "length buffer" arbitrary: buffer w rule: less_induct)
  case less
  show ?case
  proof (cases "buffer = []")
    case True
    then show ?thesis by (subst write_all.simps) simp
  next
    case False
    from sidecar_write_progress [OF assms False less.prems] obtain n w1 where
      w1: "sidecar_write env buffer w = (w1, Inr n)" "0 < n" "n \<le> length buffer" "sw_written w1 = sw_written w + n" .
    then obtain w' where "write_all (sidecar_write env) (drop n buffer) w1 = Some (w', Inr ())"
      "sw_written w' = sw_written w + length buffer"
      using less.hyps [of "drop n buffer" w1] less.prems False by auto
    then show ?thesis using w1 False by (subst write_all.simps) simp
  qed
qed

lemma write_pieces_progress:
  assumes "calm env" "accepting env"
  shows "sw_written w + length (concat ps) \<le> MAX_SIDECAR_BYTES \<Longrightarrow>
    \<exists>w'. write_pieces env ps w = Some (w', Inr ()) \<and> sw_written w' = sw_written w + length (concat ps)"
proof (induction ps arbitrary: w)
  case (Cons p ps)
  then obtain w1 where w1: "write_all (sidecar_write env) p w = Some (w1, Inr ())" "sw_written w1 = sw_written w + length p"
    using write_all_progress [OF assms, of w p] by auto
  then show ?case using Cons.IH [of w1] Cons.prems by auto
qed simp

lemma works_write_sidecar:
  assumes env: "calm env" "accepting env" and len: "length (sidecar_bytes jl body) \<le> MAX_SIDECAR_BYTES"
    and x: "x (d, t) = None" "x (d, f) = None" and ne: "t \<noteq> f"
  shows "works (here x b D) (write_sidecar env jl d t f body)
    (\<lambda>_. here (x((d, f) \<mapsto> Regular (sidecar_bytes jl body))) b D)"
proof -
  let ?x = "x((d, t) \<mapsto> Regular (sidecar_bytes jl body))"
  have create: "works (here x b D) (create_partial_path env (d, t)) (\<lambda>_. here (x((d, t) \<mapsto> Regular [])) b D)"
    unfolding create_partial_path_def Let_def
    by (rule works_syscall [OF env(1)]) (use x in \<open>auto simp: works_def here_def set_name_def remember_def\<close>)
  have writes: "\<exists>w. serialize_sidecar env jl body \<lparr>sw_file = [], sw_written = 0, sw_ticks = n\<rparr> = Some (w, Inr ())" for n
  proof -
    obtain w1 where w1: "write_pieces env (jl_pieces jl body) \<lparr>sw_file = [], sw_written = 0, sw_ticks = n\<rparr> = Some (w1, Inr ())"
        "sw_written w1 = length (concat (jl_pieces jl body))"
      using write_pieces_progress [OF env, of "\<lparr>sw_file = [], sw_written = 0, sw_ticks = n\<rparr>" "jl_pieces jl body"] len
      by (auto simp: sidecar_bytes_def)
    then obtain w2 where "write_all (sidecar_write env) [10] w1 = Some (w2, Inr ())"
      using write_all_progress [OF env, of w1 "[10]"] len by (auto simp: sidecar_bytes_def)
    then show ?thesis using w1 by (simp add: serialize_sidecar_def)
  qed
  have fill: "works (here (x((d, t) \<mapsto> Regular [])) b D) (fill_sidecar env jl (d, t) body) (\<lambda>_. here ?x b D)"
    unfolding works_def
  proof (intro allI impI)
    fix s
    assume s: "here (x((d, t) \<mapsto> Regular [])) b D s"
    obtain w where w: "serialize_sidecar env jl body \<lparr>sw_file = [], sw_written = 0, sw_ticks = st_ticks s\<rparr> = Some (w, Inr ())"
      using writes by blast
    show "\<exists>s' v. fill_sidecar env jl (d, t) body s = Some (s', Inr v) \<and> here ?x b D s'"
      using w s serialized(1) [OF w] by (auto simp: fill_sidecar_def here_def set_name_def remember_def)
  qed
  have "?x((d, f) \<mapsto> Regular (sidecar_bytes jl body), (d, t) := None) = x((d, f) \<mapsto> Regular (sidecar_bytes jl body))"
    using x ne by (auto simp: fun_eq_iff)
  then have install: "works (here ?x b D) (install_no_clobber env d t f)
      (\<lambda>_. here (x((d, f) \<mapsto> Regular (sidecar_bytes jl body))) b D)"
    using works_install_no_clobber [OF env(1), of ?x d t "sidecar_bytes jl body" f b D] x ne by simp
  show ?thesis
    unfolding write_sidecar_def
    by (rule works_seq [OF create works_seq [OF works_catch [OF fill] works_seq [OF works_primitives(1) [OF env(1)]
      works_seq [OF works_primitives(2) [OF env(1)] install]]]])
qed

definition seated ::
    "names \<Rightarrow> bool \<Rightarrow> (string list \<Rightarrow> dirstat option) \<Rightarrow> PreparedInstall \<Rightarrow> install_state \<Rightarrow> bool" where
  "seated x b D q sp \<longleftrightarrow> here x b D (fst sp) \<and> snd sp = q"

lemma works_on_store:
  "works (here x b D) m (\<lambda>v s. R v \<and> here y c D' s) \<Longrightarrow> works (seated x b D q) (on_store m) (\<lambda>v sp. R v \<and> seated y c D' q sp)"
  by (fastforce simp: works_def on_store_def seated_def)

lemma works_on_store_unit:
  "works (here x b D) m (\<lambda>_. here y c D') \<Longrightarrow> works (seated x b D q) (on_store m) (\<lambda>_. seated y c D' q)"
  using works_on_store [of x b D m "\<lambda>_. True"] by simp

lemma works_set_flag: "works (seated x b D q) (set_flag f) (\<lambda>_. seated x b D (f q))"
  by (simp add: works_def set_flag_def seated_def)

text \<open>A body that the policy asks for and that fits.\<close>

definition body_fits :: "json_library \<Rightarrow> StoragePolicy \<Rightarrow> json option \<Rightarrow> bool" where
  "body_fits jl pol body = (case body of None \<Rightarrow> \<not> sp_write_sidecar pol
     | Some b \<Rightarrow> sp_write_sidecar pol \<and> is_JObject b \<and> length (sidecar_bytes jl b) \<le> MAX_SIDECAR_BYTES)"

definition with_sidecar :: "json_library \<Rightarrow> PreparedInstall \<Rightarrow> json option \<Rightarrow> names \<Rightarrow> names" where
  "with_sidecar jl p body x = (case body of None \<Rightarrow> x | Some b \<Rightarrow> x(sidecar_key p \<mapsto> Regular (sidecar_bytes jl b)))"

lemma works_install_sidecar:
  assumes env: "calm env" "accepting env" and fits: "body_fits jl pol body" and fresh: "fresh_install p"
    and x: "x (sidecar_key p) = None" "x (sidecar_partial_key p) = None"
  shows "works (seated x b D p) (install_sidecar env jl pol body)
    (\<lambda>_. seated (with_sidecar jl p body x) b D (sidecar_flagged p body))"
proof (cases body)
  case None
  then show ?thesis
    using fits by (auto simp: works_def body_fits_def install_sidecar_def with_sidecar_def sidecar_flagged_def)
next
  case (Some j)
  have side: "works (here x b D) (write_sidecar env jl (pp_parent p) (pp_sidecar_partial_name p) (pp_sidecar_final_name p) j)
      (\<lambda>_. here (with_sidecar jl p body x) b D)"
    using works_write_sidecar [OF env, of jl j x "pp_parent p" "pp_sidecar_partial_name p" "pp_sidecar_final_name p" b D]
      Some fits x fresh by (auto simp: with_sidecar_def body_fits_def key_defs fresh_install_def own_names_def)
  have step: "works (seated x b D p) (seq (on_store (write_sidecar env jl (pp_parent p) (pp_sidecar_partial_name p)
      (pp_sidecar_final_name p) j)) (seq (set_flag (\<lambda>p. p\<lparr>pp_sidecar_installed := True\<rparr>)) (on_store (sync_parent env))))
      (\<lambda>_. seated (with_sidecar jl p body x) b D (p\<lparr>pp_sidecar_installed := True\<rparr>))"
    by (rule works_seq [OF works_on_store_unit [OF side] works_seq [OF works_set_flag works_on_store_unit
      [OF works_primitives(5) [OF env(1)]]]])
  show ?thesis
    unfolding works_def
  proof (intro allI impI)
    fix sp
    assume sp: "seated x b D p sp"
    then have "install_sidecar env jl pol body sp = seq (on_store (write_sidecar env jl (pp_parent p) (pp_sidecar_partial_name p)
      (pp_sidecar_final_name p) j)) (seq (set_flag (\<lambda>p. p\<lparr>pp_sidecar_installed := True\<rparr>)) (on_store (sync_parent env))) sp"
      using fits Some by (simp add: install_sidecar_def body_fits_def seated_def)
    then show "\<exists>sp' v. install_sidecar env jl pol body sp = Some (sp', Inr v) \<and>
        seated (with_sidecar jl p body x) b D (sidecar_flagged p body) sp'"
      using worksD [OF step sp] Some by (simp add: sidecar_flagged_def)
  qed
qed

lemma works_expose_image:
  assumes env: "calm env" and x: "x (partial_key p) = Some (Regular c)" "x (image_key p) = None" "image_key p \<noteq> partial_key p"
    and c: "length c = ia_bytes (pp_artifact p)" "sha c = ia_sha256 (pp_artifact p)"
  shows "works (here x b D) (expose_image env sha p)
    (\<lambda>a s. a = pp_artifact p \<and> here (x(image_key p \<mapsto> Regular c, partial_key p := None)) b D s)"
proof -
  let ?y = "x(image_key p \<mapsto> Regular c, partial_key p := None)"
  have calm: "calm (env\<lparr>sv_cancelled := \<lambda>_. False\<rparr>)" using env by (simp add: calm_def)
  have link: "works (here x b D) (install_no_clobber env (pp_parent p) (pp_partial_name p) (pp_final_name p)) (\<lambda>_. here ?y b D)"
    using works_install_no_clobber [OF env, of x "pp_parent p"] x by (simp add: key_defs)
  have ok: "works (here ?y b D) (verify_file (env\<lparr>sv_cancelled := \<lambda>_. False\<rparr>) sha (Regular c)
      (ia_bytes (pp_artifact p)) (ia_sha256 (pp_artifact p))) (\<lambda>_. here ?y b D)"
    by (rule works_verify_file [OF calm c(1)]) (simp add: c(2) eq_ignore_ascii_case_def)
  have "works (\<lambda>s. found = ?y (image_key p) \<and> here ?y b D s) (case found of
      None \<Rightarrow> fail (StorageError ''installed image disappeared'')
    | Some n \<Rightarrow> seq (verify_file (env\<lparr>sv_cancelled := \<lambda>_. False\<rparr>) sha n (ia_bytes (pp_artifact p)) (ia_sha256 (pp_artifact p)))
        (give (pp_artifact p))) (\<lambda>a s. a = pp_artifact p \<and> here ?y b D s)" for found
    by (rule works_pure) (use x(3) in \<open>auto intro!: works_seq [OF ok] works_give\<close>)
  note shown = this
  have "?y (image_key p) \<noteq> Some Symlink" using x(3) by simp
  note opened = works_primitives(6) [where x = ?y and k = "image_key p", OF env this]
  show ?thesis
    unfolding expose_image_def image_key_def [symmetric]
    by (rule works_seq [OF link works_seq [OF works_primitives(5) [OF env] works_bind [OF opened shown]]])
qed

lemma works_ask_gate:
  "ga_decision g = Inr DecisionStarted \<Longrightarrow>
   works (seated x b D q) (ask_gate g) (\<lambda>_. seated x True D (q\<lparr>pp_installation_started := True\<rparr>))"
  by (auto simp: works_def ask_gate_def gate_commits_def seated_def here_def remember_def)

lemma install_completes_aux:
  assumes prep: "prepared (sl_sha libs) path p c (st_names s)" "\<not> suffix ''.partial'' (pp_final_name p)"
    and free: "st_names s (sidecar_partial_key p) = None"
    and env: "calm env" "accepting env" and dirs: "walkable cap (st_dirs s) [] (pp_parent p)"
    and gate: "ga_decision g = Inr DecisionStarted" and fits: "body_fits (sl_json libs) pol body"
  shows "\<exists>s'. install env libs pol cap g body p s = Some (s', Inr (pp_artifact p))"
proof -
  let ?x = "st_names s" and ?b = "st_started s" and ?D = "st_dirs s"
  let ?y = "with_sidecar (sl_json libs) p body ?x" and ?q = "sidecar_flagged p body"
  note fresh = prepared_fresh [OF prep] and keys = keys_distinct [OF prepared_fresh [OF prep]]
  have y: "?y (partial_key p) = Some (Regular c)" "?y (image_key p) = None"
    using prep(1) keys by (auto simp: with_sidecar_def prepared_def split: option.splits)
  have side: "works (seated ?x ?b ?D p) (install_sidecar env (sl_json libs) pol body) (\<lambda>_. seated ?y ?b ?D ?q)"
    by (rule works_install_sidecar [OF env fits fresh]) (use prep(1) free in \<open>auto simp: prepared_def\<close>)
  have expose: "works (seated ?y True ?D (?q\<lparr>pp_installation_started := True\<rparr>)) (on_store (expose_image env (sl_sha libs) p))
      (\<lambda>a sp. a = pp_artifact p \<and> seated (?y(image_key p \<mapsto> Regular c, partial_key p := None)) True ?D
        (?q\<lparr>pp_installation_started := True\<rparr>) sp)"
    by (rule works_on_store [OF works_expose_image [OF env(1) y keys(1)]]) (use prep(1) in \<open>auto simp: prepared_def\<close>)
  have finish: "works (\<lambda>sp. a = pp_artifact p \<and> seated z True ?D q sp) (seq (set_flag (\<lambda>p. p\<lparr>pp_completed := True\<rparr>)) (give a))
      (\<lambda>a sp. a = pp_artifact p \<and> pp_completed (snd sp))" for a z q
    by (rule works_pure, rule works_seq [OF works_set_flag works_give]) (auto simp: seated_def)
  have still: "works (seated ?x ?b ?D p) (on_store m) (\<lambda>_. seated ?x ?b ?D p)"
    if "works (here ?x ?b ?D) m (\<lambda>_. here ?x ?b ?D)" for m :: "(store, unit) prog" by (rule works_on_store_unit [OF that])
  have body: "works (seated ?x ?b ?D p) (
      seq (on_store (open_parent env cap (pp_parent p) False)) (
      seq (on_store (revalidate_parent_at env)) (
      seq (on_store (check_cancelled env ''before atomic installation'')) (
      seq (install_sidecar env (sl_json libs) pol body) (
      seq (ask_gate g) (
      bind (on_store (expose_image env (sl_sha libs) p)) (\<lambda>artifact.
      seq (set_flag (\<lambda>p. p\<lparr>pp_completed := True\<rparr>)) (give artifact)))))))) (\<lambda>a sp. a = pp_artifact p \<and> pp_completed (snd sp))"
    by (rule works_seq [OF still [OF works_open_parent [OF env(1) dirs]] works_seq [OF still [OF works_primitives(3) [OF env(1)]]
      works_seq [OF still [OF works_primitives(2) [OF env(1)]] works_seq [OF side works_seq [OF works_ask_gate [OF gate]
      works_bind [OF expose finish]]]]]])
  have "seated ?x ?b ?D p (s, p)" by (simp add: seated_def here_def)
  from worksD [OF body this] obtain sp' where "install_body env libs pol cap g body (s, p) = Some (sp', Inr (pp_artifact p))"
    "pp_completed (snd sp')" by (auto simp: install_body_def)
  then show ?thesis
    by (cases sp') (simp add: install_def drop_prepared_def seq_def bind_def give_def lift_def)
qed

text \<open>On a working file system, once the catalog lets it start, the installation of a prepared image returns the
  image's record.\<close>

theorem install_completes:
  assumes "prepared (sl_sha libs) path p c (st_names s)" and "\<not> suffix ''.partial'' (pp_final_name p)"
    and "st_names s (sidecar_partial_key p) = None"
    and "calm env" and "accepting env" and "walkable cap (st_dirs s) [] (pp_parent p)"
    and "ga_decision g = Inr DecisionStarted" and "body_fits (sl_json libs) pol body"
  shows "\<exists>s'. install env libs pol cap g body p s = Some (s', Inr (pp_artifact p))"
  by (rule install_completes_aux [OF assms])

text \<open>C17: Whatever state a crash leaves after the durable start of an installation, reconciling it on a working file
  system completes: the image is there with the prepared content beside its exact sidecar.\<close>

theorem crash_recoverable:
  assumes prep: "prepared (sl_sha libs) path p c (st_names s)" and name: "\<not> suffix ''.partial'' (pp_final_name p)"
    and run: "install env libs pol cap g body p s = Some (s', r)" "\<not> st_started s" "st_history s = []"
    and crash: "(st_names s1, True) \<in> set (st_history s')"
    and json: "\<And>b. body = Some b \<Longrightarrow> jl_parse (sl_json libs) (sidecar_bytes (sl_json libs) b) = Inr b"
    and calm: "calm env'" and dirs: "walkable cap (st_dirs s1) [] (pp_parent p)"
  shows "\<exists>s2 outcome. reconcile_linux env' libs cap (request_for p path body) s1 = Some (s2, Inr outcome) \<and>
    st_names s2 (image_key p) = Some (Regular c) \<and>
    st_names s2 (sidecar_key p) = map_option (\<lambda>b. Regular (sidecar_bytes (sl_json libs) b)) body"
proof -
  let ?x = "st_names s" and ?y = "st_names s1" and ?request = "request_for p path body"
  note fresh = prepared_fresh [OF prep name] and keys = prepared_keys [OF prep, where body = body]
  have "(?y, True) \<in> install_states (sl_json libs) p body ?x"
    using install_runs(1) [OF fresh run] crash by (auto simp: inside_def)
  then have y: "?y \<in> after_start (sl_json libs) p body ?x" by (auto simp: install_states_def)
  have side: "sidecar_acceptable (sl_json libs) ?request (?y (sidecar_key p))"
    using y prep json
    by (cases body) (auto simp: after_start_def sidecar_right_def sidecar_acceptable_def sidecar_exact_def request_for_def prepared_def)
  have good: "verified (sl_sha libs) ?request (Some (Regular c))"
    using prep by (auto simp: verified_def request_for_def prepared_def eq_ignore_ascii_case_def)
  have image: "?y (image_key p) = Some (Regular c) \<or> ?y (image_key p) = None \<and> ?y (partial_key p) = Some (Regular c)"
    using y prep by (auto simp: after_start_def prepared_def)
  obtain t where t: "sanitize_variable (rr_capture_id ?request) ''captureId'' = Inr t"
    using prep by (auto simp: prepared_def request_for_def)
  have "rp_components (rr_relative_path ?request) \<noteq> []" using prep by (simp add: prepared_def request_for_def)
  from reconcile_completes [where libs = libs and s = s1 and cap = cap, OF calm _ this t] obtain s2 outcome where
    finished: "reconcile_linux env' libs cap ?request s1 = Some (s2, Inr outcome)" "outcome \<noteq> MissingArtifactsCleaned"
    using dirs side good image by (auto simp: keys)
  have "inside UNIV {(?y, st_started s1)} s1" by (simp add: inside_def disk_def)
  from tripleD [OF triple_reconcile_linux this finished(1)] have "reconciled (sl_sha libs) (sl_json libs) ?request ?y outcome (st_names s2)"
    by (auto simp: reconciled_to_def inside_def disk_def)
  then have "st_names s2 (image_key p) = Some (Regular c) \<and> st_names s2 (sidecar_key p) = ?y (sidecar_key p)"
    using finished(2) image keys_distinct [OF fresh] by (cases outcome) (auto simp: reconciled_def keys verified_def)
  then show ?thesis
    using finished(1) side by (cases body) (auto simp: sidecar_acceptable_def sidecar_exact_def request_for_def)
qed


section \<open>Example\<close>

definition demo_store_env :: store_env where
  "demo_store_env = \<lparr>sv_fails = \<lambda>_. None, sv_cancelled = \<lambda>_. False, sv_moved = \<lambda>_. False, sv_accepts = \<lambda>_. Inr 4096\<rparr>"

definition demo_json :: json_library where
  "demo_json = \<lparr>jl_pieces = \<lambda>_. [[123], [125]], jl_parse = \<lambda>_. Inr (JObject [])\<rparr>"

definition demo_libs :: "(unit, unit) storage_libs" where
  "demo_libs = \<lparr>sl_codecs = demo_codecs, sl_encode_env = quiet_env, sl_sha = \<lambda>_. ''ab'', sl_json = demo_json,
     sl_file_uri = \<lambda>p. Some (''file://'' @ p)\<rparr>"

definition demo_artifact :: ImageArtifact where
  "demo_artifact = \<lparr>ia_absolute_path = ''/out/cam/x.raw'', ia_relative_path = ''cam/x.raw'',
     ia_file_uri = ''file:///out/cam/x.raw'', ia_content_type = ''application/octet-stream'', ia_encoding = Raw,
     ia_bytes = 2, ia_sha256 = ''ab'', ia_metadata_sidecar_relative_path = Some ''cam/x.raw.json''\<rparr>"

definition demo_prepared :: PreparedInstall where
  "demo_prepared = \<lparr>pp_parent = [''cam''], pp_capture_id = ''c1'', pp_final_name = ''x.raw'',
     pp_partial_name = partial_name ''c1'', pp_sidecar_final_name = sidecar_final_name ''x.raw'',
     pp_sidecar_partial_name = sidecar_partial_name ''c1'', pp_partial_path = ''/out/cam/c1'', pp_artifact = demo_artifact,
     pp_installation_started = False, pp_sidecar_installed = False, pp_completed = False\<rparr>"

definition demo_path :: RelativeOutputPath where
  "demo_path = \<lparr>rp_components = [''cam'', ''x.raw''], rp_wire = ''cam/x.raw''\<rparr>"

definition demo_capability :: RootCapability where
  "demo_capability = \<lparr>rc_canonical = [''out''], rc_device = 1, rc_directory_mode = 488, rc_file_mode = 416\<rparr>"

definition demo_policy :: "bool \<Rightarrow> StoragePolicy" where
  "demo_policy sidecar = \<lparr>sp_canonical_root = [''out''], sp_write_sidecar = sidecar, sp_minimum_free_bytes = 0,
     sp_minimum_free_percent = 0\<rparr>"

definition demo_gate :: gate_answer where
  "demo_gate = \<lparr>ga_decision = Inr DecisionStarted, ga_committed = True\<rparr>"

text \<open>The catalog commits the start, but its answer is lost.\<close>

definition demo_gate_lost :: gate_answer where
  "demo_gate_lost = \<lparr>ga_decision = Inl (CatalogError ''closed''), ga_committed = True\<rparr>"

definition demo_files :: store where
  "demo_files = \<lparr>st_names = Map.empty(([''cam''], partial_name ''c1'') \<mapsto> Regular [1, 2]),
     st_dirs = Map.empty([''cam''] \<mapsto> \<lparr>ds_device = 1, ds_mode = 488\<rparr>), st_started = False, st_ticks = 0, st_history = []\<rparr>"

lemma demo_calm: "calm demo_store_env" "accepting demo_store_env"
  by (auto simp: calm_def accepting_def demo_store_env_def)

lemma demo_token: "sanitize_variable ''c1'' ''captureId'' = Inr ''c1''"
  by code_simp

lemma demo_name: "\<not> suffix ''.partial'' (pp_final_name demo_prepared)"
  by (simp add: demo_prepared_def suffix_def append_eq_Cons_conv Cons_eq_append_conv)

lemma demo_differs: "''x.raw'' \<noteq> partial_name ''c1''"
  by (simp add: partial_name_def PARTIAL_PREFIX_def)

lemma demo_is_prepared: "prepared (sl_sha demo_libs) demo_path demo_prepared [1, 2] (st_names demo_files)"
  by (simp add: prepared_def demo_path_def demo_prepared_def demo_token demo_files_def key_defs demo_artifact_def demo_libs_def
      demo_differs)

lemma demo_walkable: "walkable demo_capability (st_dirs demo_files) [] (pp_parent demo_prepared)"
  by (simp add: demo_capability_def demo_files_def demo_prepared_def)

lemma demo_fits: "body_fits (sl_json demo_libs) (demo_policy True) (Some (JObject []))"
  by (simp add: body_fits_def demo_policy_def demo_libs_def demo_json_def sidecar_bytes_def MAX_SIDECAR_BYTES_def)

lemma demo_spare: "st_names demo_files (sidecar_partial_key demo_prepared) = None"
  by (simp add: demo_files_def key_defs demo_prepared_def)

lemmas demo_completes = install_completes_aux [OF demo_is_prepared demo_name demo_spare demo_calm demo_walkable, where g = demo_gate,
  OF _ demo_fits]

theorem install_completes_witness:
  "\<exists>s'. install demo_store_env demo_libs (demo_policy True) demo_capability demo_gate (Some (JObject [])) demo_prepared demo_files =
    Some (s', Inr demo_artifact)"
  using install_completes [OF demo_is_prepared demo_name demo_spare demo_calm demo_walkable, where g = demo_gate, OF _ demo_fits]
  by (simp add: demo_gate_def demo_prepared_def)

theorem install_visibility_witness:
  "\<exists>s'. install demo_store_env demo_libs (demo_policy True) demo_capability demo_gate (Some (JObject [])) demo_prepared demo_files =
      Some (s', Inr demo_artifact) \<and>
    st_started s' \<and> st_names s' ([''cam''], ''x.raw'') = Some (Regular [1, 2]) \<and>
    st_names s' ([''cam''], sidecar_final_name ''x.raw'') = Some (Regular [123, 125, 10])"
proof -
  obtain s' where s': "install demo_store_env demo_libs (demo_policy True) demo_capability demo_gate (Some (JObject []))
      demo_prepared demo_files = Some (s', Inr demo_artifact)"
    using demo_completes by (auto simp: demo_gate_def demo_prepared_def)
  have "\<not> st_started demo_files" "st_history demo_files = []" by (simp_all add: demo_files_def)
  from install_visibility [OF prepared_fresh [OF demo_is_prepared demo_name] s' this] show ?thesis
    using s' by (auto simp: key_defs demo_prepared_def demo_files_def sidecar_right_def demo_libs_def demo_json_def sidecar_bytes_def)
qed

lemma demo_lost:
  "\<exists>s'. install demo_store_env demo_libs (demo_policy False) demo_capability demo_gate_lost None demo_prepared demo_files =
    Some (s', Inl (CatalogError ''closed'')) \<and> st_history s' = [(st_names demo_files, True)]"
  by (simp add: install_def install_body_def seq_def bind_def on_store_def open_parent_def syscall_def demo_store_env_def
      open_component_def open_directory_def inspect_directory_def revalidate_parent_at_def check_cancelled_def give_def
      install_sidecar_def ask_gate_def gate_commits_def fail_def drop_prepared_def lift_def demo_files_def demo_prepared_def
      demo_policy_def demo_gate_lost_def demo_capability_def remember_def advance_tick_def Let_def)

theorem crash_recoverable_witness:
  "\<exists>s2 outcome. reconcile_linux demo_store_env demo_libs demo_capability (request_for demo_prepared demo_path None) demo_files =
      Some (s2, Inr outcome) \<and> st_names s2 ([''cam''], ''x.raw'') = Some (Regular [1, 2])"
proof -
  obtain s' where s': "install demo_store_env demo_libs (demo_policy False) demo_capability demo_gate_lost None demo_prepared
      demo_files = Some (s', Inl (CatalogError ''closed''))" "(st_names demo_files, True) \<in> set (st_history s')"
    using demo_lost by auto
  have "\<not> st_started demo_files" "st_history demo_files = []" by (simp_all add: demo_files_def)
  from crash_recoverable [OF demo_is_prepared demo_name s'(1) this s'(2) _ demo_calm(1) demo_walkable]
  show ?thesis by (auto simp: key_defs demo_prepared_def)
qed

theorem reconcile_sound_witness:
  "\<exists>s2 outcome. reconcile_linux demo_store_env demo_libs demo_capability (request_for demo_prepared demo_path None) demo_files =
      Some (s2, Inr outcome) \<and> outcome \<noteq> MissingArtifactsCleaned \<and>
    verified (sl_sha demo_libs) (request_for demo_prepared demo_path None) (st_names s2 ([''cam''], ''x.raw''))"
proof -
  let ?request = "request_for demo_prepared demo_path None"
  note keys = prepared_keys [OF demo_is_prepared, where body = None]
  have "\<exists>s2 outcome. reconcile_linux demo_store_env demo_libs demo_capability ?request demo_files = Some (s2, Inr outcome) \<and>
      outcome \<noteq> MissingArtifactsCleaned"
    by (rule reconcile_completes [OF demo_calm(1), where t = "''c1''"])
      (simp_all add: request_for_def demo_path_def demo_prepared_def demo_token recovery_defs recovery_dir_def recovery_token_def
        demo_files_def demo_capability_def demo_libs_def demo_artifact_def sidecar_acceptable_def sidecar_exact_def verified_def
        eq_ignore_ascii_case_def demo_differs)
  then obtain s2 outcome where run: "reconcile_linux demo_store_env demo_libs demo_capability ?request demo_files =
      Some (s2, Inr outcome)" "outcome \<noteq> MissingArtifactsCleaned" by blast
  have "st_history demo_files = []" by (simp add: demo_files_def)
  from reconcile_sound [OF run(1) this] run(2)
  have "verified (sl_sha demo_libs) ?request (st_names s2 (image_key demo_prepared))" by (simp add: keys)
  moreover have "image_key demo_prepared = ([''cam''], ''x.raw'')" by (simp add: key_defs demo_prepared_def)
  ultimately show ?thesis using run by auto
qed

end
