(* ===== verification/Messages.thy ===== *)
theory Messages
  imports Catalog_Data Storage
begin

text \<open>
  Terminal application messages (\<open>src/messages.rs\<close>): the schema-v1 terminal body and its JSON document,
  the checks of a committed body, the message kinds with their routes, and the preview that is added to
  the announcement alone. \<open>serde_json\<close> keeps objects in key order. Date-times are nanoseconds since the
  epoch; their conversion from milliseconds and their text form are the calendar library's
  (\<open>chrono\<close>), and the binary marker of the preview is the messaging library's: both are arguments.
\<close>

section \<open>Kinds\<close>

definition TERMINAL_SCHEMA_VERSION :: nat where "TERMINAL_SCHEMA_VERSION = 1"

datatype TerminalKind = Captured | CaptureFailed | CaptureWasCancelled

fun header_name :: "TerminalKind \<Rightarrow> string" where
  "header_name Captured = ''ImageCaptured''"
| "header_name CaptureFailed = ''ImageCaptureFailed''"
| "header_name CaptureWasCancelled = ''ImageCaptureCancelled''"

fun channel :: "TerminalKind \<Rightarrow> string" where
  "channel Captured = ''image/captured''"
| "channel CaptureFailed = ''image/failed''"
| "channel CaptureWasCancelled = ''image/cancelled''"

section \<open>Body\<close>

record chrono =
  dt_of_millis :: "int \<Rightarrow> int option"
  dt_show :: "int \<Rightarrow> string"
  dt_parse :: "string \<Rightarrow> int option"

datatype CaptureTrigger =
    Command string
  | GroupCommand string string
  | Schedule string int

record CaptureTimestamps =
  ts_requested_at :: int
  ts_acquisition_started_at :: "int option"
  ts_camera_frame_at :: "int option"
  ts_frame_received_at :: "int option"
  ts_persisted_at :: "int option"
  ts_camera_frame_timestamp_quality :: FrameTimestampQuality

record CaptureDurations =
  du_queue :: "u64 option"
  du_acquisition :: "u64 option"
  du_encoding :: "u64 option"
  du_persistence :: "u64 option"
  du_total :: u64

record FrameSummary =
  fs_width :: "32 word"
  fs_height :: "32 word"
  fs_pixel_format :: PixelFormat
  fs_source_encoding :: string

record CameraSummary =
  cm_backend :: BackendKind
  cm_vendor :: "string option"
  cm_model :: "string option"
  cm_firmware :: "string option"
  cm_serial :: "string option"

record FailureSummary =
  fa_code :: error_code
  fa_stage :: string
  fa_retriable :: bool
  fa_message :: string

record TerminalBody =
  tb_schema_version :: nat
  tb_event_id :: string
  tb_capture_id :: string
  tb_camera_id :: string
  tb_correlation_id :: string
  tb_trigger :: CaptureTrigger
  tb_capture_profile :: string
  tb_capture_mode :: CaptureMode
  tb_timestamps :: CaptureTimestamps
  tb_durations_ms :: CaptureDurations
  tb_image :: "ImageArtifact option"
  tb_frame :: "FrameSummary option"
  tb_camera :: CameraSummary
  tb_metadata :: "(string \<times> json) list"
  tb_failure :: "FailureSummary option"
  tb_capture_group_id :: "string option"
  tb_group_size :: "nat option"
  tb_backend_metadata :: "(string \<times> json) list"

section \<open>Serialisation\<close>

text \<open>A derived \<open>Serialize\<close> writes the fields that are not skipped; the object keeps them in key order.\<close>

fun put_field :: "string \<times> json option \<Rightarrow> (string \<times> json) list \<Rightarrow> (string \<times> json) list" where
  "put_field (k, None) m = m"
| "put_field (k, Some v) m = bt_insert k v m"

definition to_object :: "(string \<times> json option) list \<Rightarrow> json" where
  "to_object fs = JObject (fold put_field fs [])"

definition json_nat :: "nat \<Rightarrow> json" where
  "json_nat n = JNumber (PosInt (of_nat n))"

definition json_u64 :: "u64 \<Rightarrow> json" where
  "json_u64 n = JNumber (PosInt n)"

fun pixel_format_name :: "PixelFormat \<Rightarrow> string" where
  "pixel_format_name Mono8 = ''Mono8''"
| "pixel_format_name Rgb8 = ''RGB8''"
| "pixel_format_name Bgr8 = ''BGR8''"
| "pixel_format_name Px_Jpeg = ''JPEG''"

fun output_encoding_name :: "OutputEncoding \<Rightarrow> string" where
  "output_encoding_name Passthrough = ''passthrough''"
| "output_encoding_name Out_Jpeg = ''jpeg''"
| "output_encoding_name Png = ''png''"
| "output_encoding_name Tiff = ''tiff''"
| "output_encoding_name Raw = ''raw''"

fun capture_mode_name :: "CaptureMode \<Rightarrow> string" where
  "capture_mode_name Simulated = ''simulated''"
| "capture_mode_name SoftwareTrigger = ''software-trigger''"
| "capture_mode_name SnapshotUri = ''snapshot-uri''"
| "capture_mode_name RtspFrame = ''rtsp-frame''"

fun timestamp_quality_name :: "FrameTimestampQuality \<Rightarrow> string" where
  "timestamp_quality_name TsCamera = ''camera''"
| "timestamp_quality_name TsStream = ''stream''"
| "timestamp_quality_name TsAdapterReceive = ''adapter-receive''"
| "timestamp_quality_name TsUnknown = ''unknown''"

fun trigger_value :: "chrono \<Rightarrow> CaptureTrigger \<Rightarrow> json" where
  "trigger_value ch (Command request_id) =
     to_object [(''type'', Some (JString ''command'')), (''requestId'', Some (JString request_id))]"
| "trigger_value ch (GroupCommand request_id group_id) =
     to_object [(''type'', Some (JString ''group-command'')), (''requestId'', Some (JString request_id)),
       (''captureGroupId'', Some (JString group_id))]"
| "trigger_value ch (Schedule schedule_id fire_time) =
     to_object [(''type'', Some (JString ''schedule'')), (''scheduleId'', Some (JString schedule_id)),
       (''intendedFireTime'', Some (JString (dt_show ch fire_time)))]"

text \<open>The derived \<open>Deserialize\<close> of the internally tagged enum: the tag selects the variant, every field of
  the variant is required, other fields are ignored.\<close>

definition str_field :: "json \<Rightarrow> string \<Rightarrow> string option" where
  "str_field v field = Option.bind (object_get v field) json_as_str"

definition trigger_of_value :: "chrono \<Rightarrow> json \<Rightarrow> CaptureTrigger option" where
  "trigger_of_value ch v =
     (case str_field v ''type'' of
        None \<Rightarrow> None
      | Some tag \<Rightarrow>
          if tag = ''command'' then map_option Command (str_field v ''requestId'')
          else if tag = ''group-command''
          then Option.bind (str_field v ''requestId'') (\<lambda>r.
               map_option (GroupCommand r) (str_field v ''captureGroupId''))
          else if tag = ''schedule''
          then Option.bind (str_field v ''scheduleId'') (\<lambda>i.
               map_option (Schedule i) (Option.bind (str_field v ''intendedFireTime'') (dt_parse ch)))
          else None)"

definition timestamps_value :: "chrono \<Rightarrow> CaptureTimestamps \<Rightarrow> json" where
  "timestamps_value ch t = to_object
     [(''requestedAt'', Some (JString (dt_show ch (ts_requested_at t)))),
      (''acquisitionStartedAt'', map_option (JString \<circ> dt_show ch) (ts_acquisition_started_at t)),
      (''cameraFrameAt'', map_option (JString \<circ> dt_show ch) (ts_camera_frame_at t)),
      (''frameReceivedAt'', map_option (JString \<circ> dt_show ch) (ts_frame_received_at t)),
      (''persistedAt'', map_option (JString \<circ> dt_show ch) (ts_persisted_at t)),
      (''cameraFrameTimestampQuality'',
         Some (JString (timestamp_quality_name (ts_camera_frame_timestamp_quality t))))]"

definition durations_value :: "CaptureDurations \<Rightarrow> json" where
  "durations_value d = to_object
     [(''queue'', map_option json_u64 (du_queue d)), (''acquisition'', map_option json_u64 (du_acquisition d)),
      (''encoding'', map_option json_u64 (du_encoding d)),
      (''persistence'', map_option json_u64 (du_persistence d)), (''total'', Some (json_u64 (du_total d)))]"

definition image_value :: "ImageArtifact \<Rightarrow> json" where
  "image_value a = to_object
     [(''absolutePath'', Some (JString (ia_absolute_path a))),
      (''relativePath'', Some (JString (ia_relative_path a))),
      (''fileUri'', Some (JString (ia_file_uri a))),
      (''contentType'', Some (JString (ia_content_type a))),
      (''encoding'', Some (JString (output_encoding_name (ia_encoding a)))),
      (''bytes'', Some (json_nat (ia_bytes a))),
      (''sha256'', Some (JString (ia_sha256 a))),
      (''metadataSidecarRelativePath'', map_option JString (ia_metadata_sidecar_relative_path a))]"

definition frame_value :: "FrameSummary \<Rightarrow> json" where
  "frame_value f = to_object
     [(''width'', Some (json_nat (unat (fs_width f)))), (''height'', Some (json_nat (unat (fs_height f)))),
      (''pixelFormat'', Some (JString (pixel_format_name (fs_pixel_format f)))),
      (''sourceEncoding'', Some (JString (fs_source_encoding f)))]"

definition camera_value :: "CameraSummary \<Rightarrow> json" where
  "camera_value c = to_object
     [(''backend'', Some (JString (backend_kind_as_str (cm_backend c)))),
      (''vendor'', map_option JString (cm_vendor c)), (''model'', map_option JString (cm_model c)),
      (''firmware'', map_option JString (cm_firmware c)), (''serial'', map_option JString (cm_serial c))]"

definition failure_value :: "FailureSummary \<Rightarrow> json" where
  "failure_value f = to_object
     [(''code'', Some (JString (error_code_as_str (fa_code f)))), (''stage'', Some (JString (fa_stage f))),
      (''retriable'', Some (JBool (fa_retriable f))), (''message'', Some (JString (fa_message f)))]"

definition body_fields :: "chrono \<Rightarrow> TerminalBody \<Rightarrow> (string \<times> json option) list" where
  "body_fields ch b =
     [(''schemaVersion'', Some (json_nat (tb_schema_version b))),
      (''eventId'', Some (JString (tb_event_id b))), (''captureId'', Some (JString (tb_capture_id b))),
      (''cameraId'', Some (JString (tb_camera_id b))),
      (''correlationId'', Some (JString (tb_correlation_id b))),
      (''trigger'', Some (trigger_value ch (tb_trigger b))),
      (''captureProfile'', Some (JString (tb_capture_profile b))),
      (''captureMode'', Some (JString (capture_mode_name (tb_capture_mode b)))),
      (''timestamps'', Some (timestamps_value ch (tb_timestamps b))),
      (''durationsMs'', Some (durations_value (tb_durations_ms b))),
      (''image'', map_option image_value (tb_image b)), (''frame'', map_option frame_value (tb_frame b)),
      (''camera'', Some (camera_value (tb_camera b))), (''metadata'', Some (JObject (tb_metadata b))),
      (''failure'', map_option failure_value (tb_failure b)),
      (''captureGroupId'', map_option JString (tb_capture_group_id b)),
      (''groupSize'', map_option json_nat (tb_group_size b)),
      (''backendMetadata'',
         if tb_backend_metadata b = [] then None else Some (JObject (tb_backend_metadata b)))]"

definition body_value :: "chrono \<Rightarrow> TerminalBody \<Rightarrow> json" where
  "body_value ch b = to_object (body_fields ch b)"

section \<open>Messages\<close>

record TerminalMessage =
  tm_kind :: TerminalKind
  tm_body :: json

definition invalid_error :: "string \<Rightarrow> camera_error" where
  "invalid_error message = rejected BadArgs message"

definition present :: "json \<Rightarrow> string \<Rightarrow> bool" where
  "present body field = (case object_get body field of None \<Rightarrow> False | Some v \<Rightarrow> v \<noteq> JNull)"

fun kind_violation :: "TerminalKind \<Rightarrow> bool \<Rightarrow> bool \<Rightarrow> string option" where
  "kind_violation Captured has_image has_failure =
     (if \<not> has_image \<or> has_failure then Some ''ImageCaptured requires image and forbids failure'' else None)"
| "kind_violation CaptureFailed has_image has_failure =
     (if has_image \<or> \<not> has_failure then Some ''ImageCaptureFailed requires failure and forbids image'' else None)"
| "kind_violation CaptureWasCancelled has_image has_failure =
     (if has_image \<or> has_failure then Some ''ImageCaptureCancelled forbids image and failure'' else None)"

definition group_fields_ok :: "json \<Rightarrow> bool" where
  "group_fields_ok body =
     (case (str_field body ''captureGroupId'', Option.bind (object_get body ''groupSize'') json_as_u64) of
        (None, None) \<Rightarrow> True
      | (Some _, Some n) \<Rightarrow> 2 \<le> unat n
      | _ \<Rightarrow> False)"

definition group_trigger_ok :: "json \<Rightarrow> bool" where
  "group_trigger_ok body =
     (case object_get body ''trigger'' of
        None \<Rightarrow> True
      | Some trig \<Rightarrow> object_get trig ''type'' = Some (JString ''group-command'') \<longrightarrow>
          str_field trig ''captureGroupId'' = str_field body ''captureGroupId'')"

definition required_fields :: "string list" where
  "required_fields = [''eventId'', ''captureId'', ''cameraId'', ''correlationId'', ''captureProfile'']"

definition from_committed_body :: "TerminalKind \<Rightarrow> json \<Rightarrow> TerminalMessage result" where
  "from_committed_body kind body =
     and_then (checks
       [ensure (is_JObject body) (invalid_error ''terminal body must be a JSON object''),
        ensure (Option.bind (object_get body ''schemaVersion'') json_as_u64 =
                Some (of_nat TERMINAL_SCHEMA_VERSION)) (invalid_error ''terminal schemaVersion must be 1''),
        for_each (\<lambda>field. ensure (case str_field body field of None \<Rightarrow> False | Some v \<Rightarrow> v \<noteq> [])
          (invalid_error (''terminal '' @ field @ '' must be non-empty''))) required_fields,
        (case kind_violation kind (present body ''image'') (present body ''failure'') of
           None \<Rightarrow> Inr () | Some message \<Rightarrow> Inl (invalid_error message)),
        ensure (group_fields_ok body)
          (invalid_error ''captureGroupId and groupSize >= 2 must appear together''),
        ensure (group_trigger_ok body)
          (invalid_error ''group trigger and terminal captureGroupId must match'')])
       (\<lambda>_. Inr \<lparr>tm_kind = kind, tm_body = body\<rparr>)"

definition new_message :: "chrono \<Rightarrow> TerminalKind \<Rightarrow> TerminalBody \<Rightarrow> TerminalMessage result" where
  "new_message ch kind body =
     (if tb_schema_version body \<noteq> TERMINAL_SCHEMA_VERSION
      then Inl (invalid_error ''terminal schemaVersion must be 1'')
      else from_committed_body kind (body_value ch body))"

definition string_field :: "TerminalMessage \<Rightarrow> string \<Rightarrow> string" where
  "string_field m field = (case str_field (tm_body m) field of None \<Rightarrow> [] | Some v \<Rightarrow> v)"

definition correlation_id :: "TerminalMessage \<Rightarrow> string" where
  "correlation_id m = string_field m ''correlationId''"

definition event_id :: "TerminalMessage \<Rightarrow> string" where
  "event_id m = string_field m ''eventId''"

definition camera_id :: "TerminalMessage \<Rightarrow> string" where
  "camera_id m = string_field m ''cameraId''"

section \<open>The preview\<close>

record Thumbnail =
  th_width :: "32 word"
  th_height :: "32 word"
  th_bytes :: u64
  th_data :: json

definition new_thumbnail ::
    "(8 word list \<Rightarrow> string + json) \<Rightarrow> 32 word \<Rightarrow> 32 word \<Rightarrow> 8 word list \<Rightarrow> Thumbnail result" where
  "new_thumbnail binary_value width height jpeg =
     (case binary_value jpeg of
        Inl e \<Rightarrow> Inl (Messaging e)
      | Inr v \<Rightarrow> Inr \<lparr>th_width = width, th_height = height, th_bytes = of_nat (length jpeg), th_data = v\<rparr>)"

definition thumbnail_value :: "Thumbnail \<Rightarrow> json" where
  "thumbnail_value t = to_object
     [(''encoding'', Some (JString ''jpeg'')), (''width'', Some (json_nat (unat (th_width t)))),
      (''height'', Some (json_nat (unat (th_height t)))), (''bytes'', Some (json_u64 (th_bytes t))),
      (''data'', Some (th_data t))]"

definition with_thumbnail :: "TerminalMessage \<Rightarrow> Thumbnail \<Rightarrow> TerminalMessage result" where
  "with_thumbnail m t =
     (case tm_body m of
        JObject kvs \<Rightarrow> Inr (m\<lparr>tm_body := JObject (bt_insert ''thumbnail'' (thumbnail_value t) kvs)\<rparr>)
      | _ \<Rightarrow> Inl (Messaging ''terminal body must be a JSON object''))"

section \<open>Lookups in serialised values\<close>

lemma put_field_lookup [simp]:
  "map_of (put_field (k', v) m) k = (if k = k' \<and> v \<noteq> None then v else map_of m k)"
  by (cases v) auto

lemma object_get_to_object: "object_get (to_object fs) k = map_of (fold put_field fs []) k"
  by (simp add: object_get_def to_object_def)

lemma to_object_is_object [simp]: "is_JObject (to_object fs)"
  by (simp add: to_object_def)

lemmas body_lookup = object_get_to_object body_value_def body_fields_def

lemma body_value_fields:
  "str_field (body_value ch b) ''captureId'' = Some (tb_capture_id b)"
  "str_field (body_value ch b) ''cameraId'' = Some (tb_camera_id b)"
  "str_field (body_value ch b) ''correlationId'' = Some (tb_correlation_id b)"
  "str_field (body_value ch b) ''eventId'' = Some (tb_event_id b)"
  "str_field (body_value ch b) ''captureProfile'' = Some (tb_capture_profile b)"
  "str_field (body_value ch b) ''captureGroupId'' = tb_capture_group_id b"
  by (simp_all add: str_field_def body_lookup Option.bind_map_option comp_def)

lemma body_value_objects:
  "object_get (body_value ch b) ''schemaVersion'' = Some (json_nat (tb_schema_version b))"
  "object_get (body_value ch b) ''image'' = map_option image_value (tb_image b)"
  "object_get (body_value ch b) ''failure'' = map_option failure_value (tb_failure b)"
  "object_get (body_value ch b) ''groupSize'' = map_option json_nat (tb_group_size b)"
  "object_get (body_value ch b) ''trigger'' = Some (trigger_value ch (tb_trigger b))"
  by (auto simp: body_lookup)

lemma image_value_object [simp]: "image_value a \<noteq> JNull" "failure_value f \<noteq> JNull"
  by (simp_all add: image_value_def failure_value_def to_object_def)

lemma body_value_present:
  "present (body_value ch b) ''image'' = (tb_image b \<noteq> None)"
  "present (body_value ch b) ''failure'' = (tb_failure b \<noteq> None)"
  by (auto simp: present_def body_value_objects split: option.splits)

lemma body_value_object [simp]: "is_JObject (body_value ch b)"
  by (simp add: body_value_def)

lemma from_committed_body_Inr:
  "from_committed_body kind body = Inr m \<longleftrightarrow>
     is_JObject body \<and>
     Option.bind (object_get body ''schemaVersion'') json_as_u64 = Some 1 \<and>
     (\<forall>field \<in> set required_fields. \<exists>v. str_field body field = Some v \<and> v \<noteq> []) \<and>
     kind_violation kind (present body ''image'') (present body ''failure'') = None \<and>
     group_fields_ok body \<and> group_trigger_ok body \<and> m = \<lparr>tm_kind = kind, tm_body = body\<rparr>"
  by (auto simp: from_committed_body_def and_then_Inr_iff checks_Inr_iff for_each_Inr_iff
        TERMINAL_SCHEMA_VERSION_def split: option.splits)

section \<open>Properties\<close>

text \<open>A trigger read back from its stored value is the trigger that was stored.\<close>

lemma trigger_read_back:
  assumes "\<And>t. dt_parse ch (dt_show ch t) = Some t"
  shows "trigger_of_value ch (trigger_value ch trig) = Some trig"
  using assms by (cases trig) (simp_all add: trigger_of_value_def str_field_def object_get_to_object)

text \<open>The announcement with its preview is the committed body plus one key: every other field reads the
  same, and the committed body is recovered by dropping that key.\<close>

lemma bt_remove_insert:
  "bt_sorted m \<Longrightarrow> k \<notin> fst ` set m \<Longrightarrow> bt_remove k (bt_insert k v m) = m"
proof (induction m)
  case (Cons x m)
  then show ?case
    by (cases x) (auto simp: bt_remove_def bt_sorted_def image_iff filter_id_conv)
qed (simp add: bt_remove_def)

lemma with_thumbnail_Inr:
  "with_thumbnail m t = Inr m' \<longleftrightarrow>
     (\<exists>kvs. tm_body m = JObject kvs \<and> m' = m\<lparr>tm_body := JObject (bt_insert ''thumbnail'' (thumbnail_value t) kvs)\<rparr>)"
  by (auto simp: with_thumbnail_def split: json.splits)

end
