(* ===== verification/Task.thy ===== *)
theory Task
  imports Prelude
begin

text \<open>
  Asynchronous code as resumptions. A task runs from one suspension point to the next as one atomic
  action on the shared state; between two actions any other task may act. A task that has not come to
  an end within the number of loop iterations considered has halted: nothing is claimed of what it
  returns. Specifications are rely-guarantee triples: an assertion about the shared state that every
  other action keeps, and rights, a multiset of names that an action may earn and must hold to spend.
\<close>

section \<open>Tasks\<close>

datatype ('a, 's) task =
    Return 'a
  | Act "'s \<Rightarrow> ('a, 's) task \<times> 's"
  | Halt

primrec bind_task :: "('a, 's) task \<Rightarrow> ('a \<Rightarrow> ('b, 's) task) \<Rightarrow> ('b, 's) task" where
  "bind_task (Return a) f = f a"
| "bind_task (Act g) f = Act (map_prod (\<lambda>t. bind_task t f) id \<circ> g)"
| "bind_task Halt f = Halt"

text \<open>The \<open>?\<close> operator: an error ends the computation.\<close>

definition try_task :: "('e + 'a, 's) task \<Rightarrow> ('a \<Rightarrow> ('e + 'b, 's) task) \<Rightarrow> ('e + 'b, 's) task" where
  "try_task t f = bind_task t (\<lambda>r. case r of Inl e \<Rightarrow> Return (Inl e) | Inr a \<Rightarrow> f a)"

definition action :: "('s \<Rightarrow> 'a \<times> 's) \<Rightarrow> ('a, 's) task" where
  "action f = Act (\<lambda>s. map_prod Return id (f s))"

definition update :: "('s \<Rightarrow> 's) \<Rightarrow> (unit, 's) task" where
  "update f = action (\<lambda>s. ((), f s))"

definition look :: "('s \<Rightarrow> 'a) \<Rightarrow> ('a, 's) task" where
  "look f = action (\<lambda>s. (f s, s))"

text \<open>A task that is not disturbed.\<close>

primrec run_alone :: "('a, 's) task \<Rightarrow> 's \<Rightarrow> 'a option \<times> 's" where
  "run_alone (Return a) = (\<lambda>s. (Some a, s))"
| "run_alone (Act g) = (\<lambda>s. case map_prod run_alone id (g s) of (r, s') \<Rightarrow> r s')"
| "run_alone Halt = (\<lambda>s. (None, s))"

lemma run_alone_bind:
  "run_alone (bind_task t f) s =
     (case run_alone t s of (None, s') \<Rightarrow> (None, s') | (Some a, s') \<Rightarrow> run_alone (f a) s')"
proof (induction t arbitrary: s)
  case (Act g)
  have "run_alone (bind_task (fst (g s)) f) (snd (g s)) =
      (case run_alone (fst (g s)) (snd (g s)) of (None, s') \<Rightarrow> (None, s') | (Some a, s') \<Rightarrow> run_alone (f a) s')"
    by (rule Act.IH [of "g s"]) (auto intro: fsts.intros)
  then show ?case by (cases "g s") simp
qed simp_all

lemma run_alone_try:
  "run_alone (try_task t f) s =
     (case run_alone t s of (None, s') \<Rightarrow> (None, s')
      | (Some (Inl e), s') \<Rightarrow> (Some (Inl e), s') | (Some (Inr a), s') \<Rightarrow> run_alone (f a) s')"
  by (auto simp: try_task_def run_alone_bind split: prod.splits option.splits sum.splits)

lemma run_alone_action [simp]: "run_alone (action f) s = (Some (fst (f s)), snd (f s))"
  by (simp add: action_def case_prod_unfold)

lemma run_alone_update [simp]: "run_alone (update f) s = (Some (), f s)"
  by (simp add: update_def)

lemma run_alone_look [simp]: "run_alone (look f) s = (Some (f s), s)"
  by (simp add: look_def)

lemmas run_alone_rules = run_alone_bind run_alone_try

text \<open>A task that ends, while others act between its actions.\<close>

inductive ends :: "('s \<Rightarrow> 's \<Rightarrow> bool) \<Rightarrow> ('a, 's) task \<Rightarrow> 's \<Rightarrow> 'a \<Rightarrow> 's \<Rightarrow> bool" for R where
  ends_return: "ends R (Return a) s a s"
| ends_act: "ends R (fst (g s)) (snd (g s)) a s' \<Longrightarrow> ends R (Act g) s a s'"
| ends_other: "R s s1 \<Longrightarrow> ends R t s1 a s' \<Longrightarrow> ends R t s a s'"

lemma run_alone_ends: "run_alone t s = (Some a, s') \<Longrightarrow> ends R t s a s'"
proof (induction t arbitrary: s)
  case (Act g)
  have "run_alone (fst (g s)) (snd (g s)) = (Some a, s')" using Act.prems by (simp add: case_prod_unfold)
  then have "ends R (fst (g s)) (snd (g s)) a s'"
    using Act.IH [of "g s"] by (auto intro: fsts.intros)
  then show ?case by (rule ends_act)
qed (auto intro: ends_return)

section \<open>Triples\<close>

definition stable :: "('s \<Rightarrow> 's \<Rightarrow> bool) \<Rightarrow> ('s \<Rightarrow> bool) \<Rightarrow> bool" where
  "stable R P \<longleftrightarrow> (\<forall>s s'. R s s' \<longrightarrow> P s \<longrightarrow> P s')"

text \<open>
  The parameters of the logic: the invariant of the shared state, the relation every action keeps to,
  and the rights earned and spent so far.
\<close>

record ('s, 'c) discipline =
  d_inv :: "'s \<Rightarrow> bool"
  d_rel :: "'s \<Rightarrow> 's \<Rightarrow> bool"
  d_earned :: "'s \<Rightarrow> 'c multiset"
  d_spent :: "'s \<Rightarrow> 'c multiset"

definition good_step :: "('s, 'c) discipline \<Rightarrow> 'c multiset \<Rightarrow> 'c multiset \<Rightarrow> 's \<Rightarrow> 's \<Rightarrow> bool" where
  "good_step D n n' s s' \<longleftrightarrow> d_inv D s' \<and> d_rel D s s' \<and>
     d_spent D s' + d_earned D s + n' \<subseteq># d_spent D s + d_earned D s' + n"

inductive sat ::
    "('s, 'c) discipline \<Rightarrow> ('a \<Rightarrow> 'c multiset \<Rightarrow> 's \<Rightarrow> bool) \<Rightarrow> 'c multiset \<Rightarrow> ('s \<Rightarrow> bool) \<Rightarrow>
     ('a, 's) task \<Rightarrow> bool" for D Q where
  sat_return: "(\<And>s. d_inv D s \<Longrightarrow> P s \<Longrightarrow> Q a n s) \<Longrightarrow> sat D Q n P (Return a)"
| sat_act: "(\<And>s. d_inv D s \<Longrightarrow> P s \<Longrightarrow> \<exists>n' P'. good_step D n n' s (snd (g s)) \<and>
     stable (d_rel D) P' \<and> P' (snd (g s)) \<and> sat D Q n' P' (fst (g s))) \<Longrightarrow> sat D Q n P (Act g)"
| sat_halt: "sat D Q n P Halt"

inductive_cases sat_act_elim: "sat D Q n P (Act g)"

lemma sat_actD:
  assumes "sat D Q n P (Act g)" and "d_inv D s" and "P s"
  obtains n' P' where "good_step D n n' s (snd (g s))" "stable (d_rel D) P'" "P' (snd (g s))"
    "sat D Q n' P' (fst (g s))"
  using assms by (blast elim: sat_act_elim)

lemma sat_pre:
  assumes "sat D Q n P t" and "\<And>s. d_inv D s \<Longrightarrow> P' s \<Longrightarrow> P s"
  shows "sat D Q n P' t"
proof (cases t)
  case (Return a)
  then have "\<And>s. d_inv D s \<Longrightarrow> P s \<Longrightarrow> Q a n s" using assms(1) by (auto elim: sat.cases)
  then show ?thesis unfolding Return using assms(2) by (blast intro: sat_return)
next
  case (Act g)
  show ?thesis unfolding Act
  proof (rule sat_act)
    fix s assume "d_inv D s" "P' s"
    then have "P s" using assms(2) by blast
    show "\<exists>n' P'. good_step D n n' s (snd (g s)) \<and> stable (d_rel D) P' \<and> P' (snd (g s)) \<and> sat D Q n' P' (fst (g s))"
      using sat_actD [OF assms(1) [unfolded Act] \<open>d_inv D s\<close> \<open>P s\<close>] by metis
  qed
next
  case Halt
  then show ?thesis by (simp add: sat_halt)
qed

lemma sat_false: "sat D Q n (\<lambda>_. False) t"
  by (cases t) (auto intro: sat.intros)

lemma sat_bind:
  assumes "sat D Q n P t" and "\<And>a m. sat D R m (Q a m) (f a)"
  shows "sat D R n P (bind_task t f)"
  using assms(1)
proof (induction rule: sat.induct)
  case (sat_return P a n)
  have "sat D R n P (f a)" by (rule sat_pre [OF assms(2)]) (rule sat_return.hyps)
  then show ?case by simp
next
  case (sat_act P n g)
  show ?case unfolding bind_task.simps
  proof (rule sat.sat_act)
    fix s assume "d_inv D s" "P s"
    from sat_act.IH [OF this] show "\<exists>n' P'. good_step D n n' s (snd ((map_prod (\<lambda>t. bind_task t f) id \<circ> g) s)) \<and>
        stable (d_rel D) P' \<and> P' (snd ((map_prod (\<lambda>t. bind_task t f) id \<circ> g) s)) \<and>
        sat D R n' P' (fst ((map_prod (\<lambda>t. bind_task t f) id \<circ> g) s))"
      unfolding comp_def snd_map_prod fst_map_prod id_apply by blast
  qed
qed (simp add: sat.sat_halt)

lemma sat_post:
  assumes "sat D Q n P t" and "\<And>a m s. d_inv D s \<Longrightarrow> Q a m s \<Longrightarrow> Q' a m s"
  shows "sat D Q' n P t"
  using assms(1)
proof (induction rule: sat.induct)
  case (sat_return P a n)
  then show ?case by (blast intro: sat.sat_return assms(2))
next
  case (sat_act P n g)
  show ?case by (rule sat.sat_act) (use sat_act.IH in blast)
qed (rule sat.sat_halt)

lemma sat_try:
  assumes "sat D (\<lambda>r m s. case r of Inl e \<Rightarrow> R (Inl e) m s | Inr a \<Rightarrow> Q a m s) n P t"
    and "\<And>a m. sat D R m (Q a m) (f a)"
  shows "sat D R n P (try_task t f)"
  unfolding try_task_def
proof (rule sat_bind [OF assms(1)])
  fix r m
  show "sat D R m (\<lambda>s. case r of Inl e \<Rightarrow> R (Inl e) m s | Inr a \<Rightarrow> Q a m s)
     (case r of Inl e \<Rightarrow> Return (Inl e) | Inr a \<Rightarrow> f a)"
    by (cases r) (auto intro: sat_return assms(2))
qed

text \<open>One action whose postcondition survives every other action.\<close>

lemma sat_action:
  assumes "\<And>s. d_inv D s \<Longrightarrow> P s \<Longrightarrow>
      \<exists>n'. good_step D n n' s (snd (f s)) \<and> stable (d_rel D) (Q (fst (f s)) n') \<and> Q (fst (f s)) n' (snd (f s))"
  shows "sat D Q n P (action f)"
  unfolding action_def
proof (rule sat_act)
  fix s assume "d_inv D s" "P s"
  from assms [OF this] obtain n' where "good_step D n n' s (snd (f s))" "stable (d_rel D) (Q (fst (f s)) n')"
    "Q (fst (f s)) n' (snd (f s))"
    by blast
  moreover have "sat D Q n' (Q (fst (f s)) n') (Return (fst (f s)))" by (rule sat_return)
  ultimately show "\<exists>n' P'. good_step D n n' s (snd (map_prod Return id (f s))) \<and> stable (d_rel D) P' \<and>
      P' (snd (map_prod Return id (f s))) \<and> sat D Q n' P' (fst (map_prod Return id (f s)))"
    unfolding fst_map_prod snd_map_prod id_apply by blast
qed

text \<open>What a triple says of a task that ends among others that keep to the discipline.\<close>

lemma sat_ends:
  assumes "ends R t s a s'" and "sat D Q n P t" and "stable (d_rel D) P" and "P s" and "d_inv D s"
    and R: "\<And>s s'. R s s' \<Longrightarrow> d_inv D s \<Longrightarrow> d_rel D s s' \<and> d_inv D s'"
  shows "\<exists>m. Q a m s'"
  using assms(1-5)
proof (induction arbitrary: n P rule: ends.induct)
  case (ends_return a s)
  then show ?case by (auto elim: sat.cases)
next
  case (ends_act g s a s')
  obtain n' P' where "good_step D n n' s (snd (g s))" "stable (d_rel D) P'" "P' (snd (g s))"
    "sat D Q n' P' (fst (g s))"
    using sat_actD [OF ends_act.prems(1)] ends_act.prems by metis
  then show ?case using ends_act.IH by (auto simp: good_step_def)
next
  case (ends_other s s1 t a s')
  have "d_rel D s s1" "d_inv D s1" using R ends_other.hyps(1) ends_other.prems(4) by blast+
  moreover have "P s1" using calculation(1) ends_other.prems(2,3) by (auto simp: stable_def)
  ultimately show ?case using ends_other.IH ends_other.prems(1,2) by blast
qed

section \<open>Interleaved execution\<close>

text \<open>
  A pool of tasks over one state: a task performs its next action, a task is started, something else
  acts on the state, or the process dies and takes every task with it.
\<close>

record ('a, 's) system =
  y_tasks :: "('a, 's) task set"
  y_other :: "'s \<Rightarrow> 's \<Rightarrow> bool"
  y_crash :: "'s \<Rightarrow> 's \<Rightarrow> bool"

inductive pool_step :: "('a, 's) system \<Rightarrow> ('a, 's) task list \<times> 's \<Rightarrow> ('a, 's) task list \<times> 's \<Rightarrow> bool" for Y where
  pool_start: "t \<in> y_tasks Y \<Longrightarrow> pool_step Y (ts, s) (ts @ [t], s)"
| pool_run: "i < length ts \<Longrightarrow> ts ! i = Act g \<Longrightarrow> pool_step Y (ts, s) (ts[i := fst (g s)], snd (g s))"
| pool_other: "y_other Y s s' \<Longrightarrow> pool_step Y (ts, s) (ts, s')"
| pool_crash: "y_crash Y s s' \<Longrightarrow> pool_step Y (ts, s) ([], s')"

lemma run_alone_pool:
  "run_alone t s = (Some a, s') \<Longrightarrow> (pool_step Y)\<^sup>*\<^sup>* ([t], s) ([Return a], s')"
proof (induction t arbitrary: s)
  case (Act g)
  have "pool_step Y ([Act g], s) ([Act g][0 := fst (g s)], snd (g s))" by (rule pool_run) simp_all
  moreover have "run_alone (fst (g s)) (snd (g s)) = (Some a, s')" using Act.prems by (simp add: case_prod_unfold)
  then have "(pool_step Y)\<^sup>*\<^sup>* ([fst (g s)], snd (g s)) ([Return a], s')"
    using Act.IH [of "g s"] by (auto intro: fsts.intros)
  ultimately show ?case by (simp add: converse_rtranclp_into_rtranclp)
qed auto

text \<open>What makes a system disciplined, and what follows for every state it reaches.\<close>

locale disciplined_system =
  fixes D :: "('s, 'c) discipline" and Y :: "('a, 's) system"
  assumes tasks_sat: "t \<in> y_tasks Y \<Longrightarrow> sat D (\<lambda>_ _ _. True) {#} (\<lambda>_. True) t"
    and other_good: "d_inv D s \<Longrightarrow> y_other Y s s' \<Longrightarrow> good_step D {#} {#} s s'"
    and crash_good: "d_inv D s \<Longrightarrow> y_crash Y s s' \<Longrightarrow>
      d_inv D s' \<and> d_spent D s' + d_earned D s \<subseteq># d_spent D s + d_earned D s'"
begin

definition held :: "('c multiset \<times> ('s \<Rightarrow> bool)) list \<Rightarrow> ('a, 's) task list \<Rightarrow> 's \<Rightarrow> bool" where
  "held gs ts s \<longleftrightarrow> length gs = length ts \<and>
     (\<forall>i < length ts. stable (d_rel D) (snd (gs ! i)) \<and> snd (gs ! i) s \<and>
        sat D (\<lambda>_ _ _. True) (fst (gs ! i)) (snd (gs ! i)) (ts ! i)) \<and>
     d_spent D s + sum_list (map fst gs) \<subseteq># d_earned D s"

lemma subset_shift:
  fixes a :: "'c multiset"
  assumes "a + x \<subseteq># e" and "a' + e + y \<subseteq># a + e' + x"
  shows "a' + y \<subseteq># e'"
proof (rule mset_subset_eqI)
  fix c
  have "count a c + count x c \<le> count e c" "count a' c + count e c + count y c \<le> count a c + count e' c + count x c"
    using mset_subset_eq_count [OF assms(1), of c] mset_subset_eq_count [OF assms(2), of c] by simp_all
  then show "count (a' + y) c \<le> count e' c" by simp
qed

lemma subset_replace:
  fixes a :: "'c multiset"
  assumes "z + w = y + x" and "a + x \<subseteq># b + w"
  shows "a + z \<subseteq># b + y"
proof (rule mset_subset_eqI)
  fix c
  have "count z c + count w c = count y c + count x c"
    using arg_cong [OF assms(1), of "\<lambda>m. count m c"] by simp
  moreover have "count a c + count x c \<le> count b c + count w c"
    using mset_subset_eq_count [OF assms(2), of c] by simp
  ultimately show "count (a + z) c \<le> count (b + y) c" by simp
qed

lemma held_start: "held gs ts s \<Longrightarrow> t \<in> y_tasks Y \<Longrightarrow> held (gs @ [({#}, \<lambda>_. True)]) (ts @ [t]) s"
  using tasks_sat by (auto simp: held_def nth_append stable_def less_Suc_eq)

lemma sum_list_update_mset:
  "i < length gs \<Longrightarrow> sum_list (map fst (gs[i := (n', P')])) + fst (gs ! i) = sum_list (map fst gs) + (n' :: 'c multiset)"
proof (induction gs arbitrary: i)
  case (Cons x gs)
  then show ?case by (cases i) (auto simp: ac_simps)
qed simp

lemma held_run:
  assumes h: "held gs ts s" and inv: "d_inv D s" and i: "i < length ts" "ts ! i = Act g"
  shows "d_inv D (snd (g s)) \<and> (\<exists>gs'. held gs' (ts[i := fst (g s)]) (snd (g s)))"
proof -
  have len: "length gs = length ts" and each: "\<And>j. j < length ts \<Longrightarrow> stable (d_rel D) (snd (gs ! j)) \<and>
      snd (gs ! j) s \<and> sat D (\<lambda>_ _ _. True) (fst (gs ! j)) (snd (gs ! j)) (ts ! j)"
    and sum: "d_spent D s + sum_list (map fst gs) \<subseteq># d_earned D s"
    using h by (auto simp: held_def)
  obtain n' P' where step: "good_step D (fst (gs ! i)) n' s (snd (g s))" "stable (d_rel D) P'" "P' (snd (g s))"
    "sat D (\<lambda>_ _ _. True) n' P' (fst (g s))"
    using sat_actD each [OF i(1)] inv i(2) by metis
  have rel: "d_rel D s (snd (g s))" and inv': "d_inv D (snd (g s))" using step(1) by (auto simp: good_step_def)
  let ?gs = "gs[i := (n', P')]"
  have "d_spent D (snd (g s)) + sum_list (map fst ?gs) \<subseteq># d_earned D (snd (g s))"
  proof (rule subset_shift [OF sum])
    have "d_spent D (snd (g s)) + d_earned D s + n' \<subseteq># d_spent D s + d_earned D (snd (g s)) + fst (gs ! i)"
      using step(1) by (simp add: good_step_def)
    with sum_list_update_mset [OF i(1) [folded len], of n' P']
    show "d_spent D (snd (g s)) + d_earned D s + sum_list (map fst ?gs) \<subseteq>#
        d_spent D s + d_earned D (snd (g s)) + sum_list (map fst gs)"
      by (rule subset_replace)
  qed
  moreover have "stable (d_rel D) (snd (?gs ! j)) \<and> snd (?gs ! j) (snd (g s)) \<and>
      sat D (\<lambda>_ _ _. True) (fst (?gs ! j)) (snd (?gs ! j)) (ts[i := fst (g s)] ! j)" if "j < length ts" for j
    using that each [OF that] step rel len by (cases "j = i") (auto simp: stable_def)
  ultimately have "held ?gs (ts[i := fst (g s)]) (snd (g s))" using len unfolding held_def by simp
  then show ?thesis using inv' by blast
qed

lemma held_other:
  assumes "held gs ts s" and "d_inv D s" and "y_other Y s s'"
  shows "d_inv D s' \<and> held gs ts s'"
  using assms other_good [OF assms(2,3)] subset_shift [of "d_spent D s" "sum_list (map fst gs)" "d_earned D s" "d_spent D s'" "sum_list (map fst gs)" "d_earned D s'"]
  by (auto simp: held_def good_step_def stable_def ac_simps)

lemma held_step:
  assumes "pool_step Y (ts, s) (ts', s')" and "held gs ts s" and "d_inv D s"
  shows "d_inv D s' \<and> (\<exists>gs'. held gs' ts' s')"
  using assms(1)
proof cases
  case (pool_start t)
  then show ?thesis using assms held_start by blast
next
  case (pool_run i g)
  then show ?thesis using held_run [OF assms(2,3)] by simp
next
  case pool_other
  then show ?thesis using held_other [OF assms(2,3)] by blast
next
  case pool_crash
  have "d_spent D s \<subseteq># d_earned D s" using assms(2)
    by (auto simp: held_def intro: subset_mset.order_trans [OF mset_subset_eq_add_left])
  moreover have "d_inv D s'" "d_spent D s' + d_earned D s \<subseteq># d_spent D s + d_earned D s'"
    using crash_good [OF assms(3)] pool_crash by auto
  ultimately have "d_spent D s' \<subseteq># d_earned D s'"
    using subset_shift [of "d_spent D s" "{#}" "d_earned D s" "d_spent D s'" "{#}" "d_earned D s'"] by simp
  then have "held [] [] s'" by (simp add: held_def)
  then show ?thesis using \<open>d_inv D s'\<close> pool_crash by blast
qed

lemma reachable_held:
  assumes "(pool_step Y)\<^sup>*\<^sup>* p q" and "p = ([], s0)" and "d_inv D s0" and "d_spent D s0 \<subseteq># d_earned D s0"
  shows "d_inv D (snd q) \<and> (\<exists>gs. held gs (fst q) (snd q))"
  using assms(1,2)
proof (induction rule: rtranclp_induct)
  case base
  have "held [] [] s0" using assms(4) by (simp add: held_def)
  then show ?case using base assms(3) by auto
next
  case (step y z)
  then show ?case using held_step [of "fst y" "snd y" "fst z" "snd z"] by auto
qed

text \<open>In every reachable state the invariant holds and no right was spent that had not been earned.\<close>

lemma reachable_disciplined:
  assumes "(pool_step Y)\<^sup>*\<^sup>* ([], s0) (ts, s)" and "d_inv D s0" and "d_spent D s0 \<subseteq># d_earned D s0"
  shows "d_inv D s \<and> d_spent D s \<subseteq># d_earned D s"
proof -
  obtain gs where "d_inv D s" "held gs ts s" using reachable_held [OF assms(1) refl assms(2,3)] by auto
  then show ?thesis by (auto simp: held_def intro: subset_mset.order_trans [OF mset_subset_eq_add_left])
qed

end

end
