(* ===== verification/Jobs.thy ===== *)
theory Jobs
  imports Messages Task Catalog_Guarantees Admission_Queue
begin

text \<open>
  The capture job engine (\<open>src/jobs.rs\<close>): acceptance and queueing, execution on a camera, cancellation,
  the terminal deadline, crash recovery and the announcement of terminal results. The engine is a set of
  asynchronous operations over the durable catalog, the runtimes of the captures it holds and the
  announcements sent so far; every await is a point where another operation may run. What the
  engine asks of its surroundings (the clock, fresh identifiers, the camera session, the admission
  controller, the storage root, the announcer and the dispatcher) is answered by an environment, one
  answer per question; every theorem holds for all answers.
\<close>

section \<open>Data\<close>

datatype PtzRequest =
    Continuous PtzVector nat
  | Absolute PtzVector "PtzVector option"
  | Relative PtzVector "PtzVector option"
  | Stop bool bool bool
  | Home
  | PtzStatusRequest
  | ListPresets
  | GotoPreset string
  | SetPreset string
  | RemovePreset string

record PtzStatus =
  ps_position :: "PtzVector option"
  ps_moving :: "bool option"
  ps_observed_at :: int

record PtzPreset =
  pt_token :: string
  pt_name :: "string option"

datatype PtzResult =
    Commanded
  | PtzStatusResult PtzStatus
  | Presets "PtzPreset list"
  | PresetToken string
  | Removed

record CameraCapabilities =
  cap_capture_modes :: "CaptureMode list"
  cap_pixel_formats :: "PixelFormat list"
  cap_software_trigger :: bool
  cap_snapshot_uri :: bool
  cap_rtsp :: bool
  cap_ptz :: bool
  cap_ptz_status :: bool
  cap_presets :: bool
  cap_preset_mutation :: bool
  cap_vendor :: "string option"
  cap_model :: "string option"
  cap_firmware :: "string option"
  cap_serial :: "string option"
  cap_warnings :: "string list"

record SourceFrame = CaptureFrame +
  cf_backend_metadata :: "(string \<times> json) list"

record JobProfileSnapshot =
  jp_name :: string
  jp_capture :: CaptureProfile
  jp_offline_policy :: OfflinePolicy
  jp_maximum_frame_bytes :: u64
  jp_capture_mode :: CaptureMode
  jp_capture_interlock :: CaptureInterlock
  jp_settle_ms :: u64

record CaptureJobSpec =
  sp_capture_id :: string
  sp_instance :: string
  sp_profile :: JobProfileSnapshot
  sp_resource_group :: "string option"
  sp_relative_path :: RelativeOutputPath
  sp_deadlines :: JobDeadlines
  sp_accepted_at_ms :: int
  sp_trigger :: CaptureTrigger
  sp_correlation_id :: string
  sp_metadata :: "(string \<times> json) list"
  sp_camera :: CameraSummary
  sp_group_size :: "nat option"

record JobSubmission =
  sub_job :: NewJob
  sub_spec :: CaptureJobSpec
  sub_priority :: CapturePriority

record CancelResult =
  cr_cancelled :: bool
  cr_state :: JobState
  cr_cancellation_in_progress :: bool

datatype JobStage = StageQueued | StageAcquiring | StageEncoding | StagePersisting

fun stage_token :: "JobStage \<Rightarrow> string" where
  "stage_token StageQueued = ''QUEUED''"
| "stage_token StageAcquiring = ''ACQUIRING''"
| "stage_token StageEncoding = ''ENCODING''"
| "stage_token StagePersisting = ''PERSISTING''"

record FrameFacts =
  ff_summary :: FrameSummary
  ff_capture_mode :: CaptureMode
  ff_source_timestamp :: "int option"
  ff_timestamp_quality :: FrameTimestampQuality
  ff_backend_metadata :: "(string \<times> json) list"

record ExecutionTrace =
  et_stage :: JobStage
  et_acquisition_started_at_ms :: "int option"
  et_frame_received_at_ms :: "int option"
  et_persisting_at_ms :: "int option"
  et_persisted_at_ms :: "int option"
  et_frame :: "FrameFacts option"
  et_camera :: CameraSummary

text \<open>The two cancellation tokens are flags that are only ever raised; \<open>Notify::notify_waiters\<close> is counted.\<close>

record JobRuntime =
  rt_spec :: CaptureJobSpec
  rt_deadlines :: JobDeadlines
  rt_rebased :: nat
  rt_cancellation :: bool
  rt_done :: bool
  rt_trace :: ExecutionTrace

datatype ThumbnailOutcome = Rendered Thumbnail | ThumbnailDropped nat | ThumbnailFailed string

section \<open>Surroundings\<close>

text \<open>What other parts of the component can see of the engine, in order.\<close>

datatype event =
    TerminalWon string
  | Delivered string TerminalMessage
  | Undelivered string TerminalMessage camera_error
  | CaptureQueued string nat
  | CaptureStarted string
  | WaitersSettled string json
  | Replied string string json
  | GroupMemberTerminal string json
  | TerminalAnnounced string
  | AnnouncementFailed string camera_error
  | ThumbnailFailedHook
  | ThumbnailDroppedHook
  | RetriedWithoutPreview
  | TimerSpawned nat
  | WorkerSpawned string

text \<open>A caller whose reply is deferred until the capture or group it waits for is decided.\<close>

record PendingWaiter =
  pw_waiter_id :: string
  pw_correlation_id :: string
  pw_request_uuid :: string

record world =
  w_catalog :: catalog
  w_runtimes :: "JobRuntime list"
  w_active :: "(string \<times> nat) list"
  w_pending :: "((string \<times> string) \<times> PendingWaiter) list"
  w_tokens :: "(string \<times> string list) list"
  w_group_tokens :: "(string \<times> string list) list"
  w_tick :: nat
  w_log :: "event list"

text \<open>A refused durable write may have taken effect all the same.\<close>

record engine_env =
  ee_now :: "nat \<Rightarrow> int"
  ee_event_id :: "nat \<Rightarrow> string"
  ee_store_fault :: "nat \<Rightarrow> (camera_error \<times> bool) option"
  ee_announce :: "nat \<Rightarrow> TerminalMessage \<Rightarrow> unit result"
  ee_reserve :: "nat \<Rightarrow> string \<Rightarrow> unit result"
  ee_dispatch :: "nat \<Rightarrow> nat result"
  ee_waiter_limit :: "nat \<Rightarrow> nat"
  ee_reply :: "nat \<Rightarrow> string \<Rightarrow> bool"
  ee_available :: "nat \<Rightarrow> unit result"
  ee_capabilities :: "nat \<Rightarrow> CameraCapabilities"
  ee_ptz :: "nat \<Rightarrow> PtzRequest \<Rightarrow> PtzResult result"
  ee_capture :: "nat \<Rightarrow> SourceFrame result"
  ee_acquire_capture :: "nat \<Rightarrow> unit result"
  ee_finish_acquisition :: "nat \<Rightarrow> unit result"
  ee_acquire_encoder :: "nat \<Rightarrow> unit result"
  ee_acquire_writer :: "nat \<Rightarrow> unit result"
  ee_reserve_memory :: "nat \<Rightarrow> u64 \<Rightarrow> unit result"
  ee_declared_decode_bytes :: "SourceFrame \<Rightarrow> u64 option"
  ee_prepare :: "nat \<Rightarrow> PreparedInstall result"
  ee_render :: "nat \<Rightarrow> ThumbnailOutcome"
  ee_install_before :: "nat \<Rightarrow> unit result"
  ee_install_after :: "nat \<Rightarrow> ImageArtifact result"
  ee_reconcile :: "nat \<Rightarrow> RecoveryRequest \<Rightarrow> RecoveryOutcome result"
  ee_chrono :: chrono
  ee_profile_value :: "JobProfileSnapshot \<Rightarrow> json"
  ee_profile_of_value :: "json \<Rightarrow> JobProfileSnapshot option"
  ee_category :: "string \<Rightarrow> general_category"

type_synonym 'a job_task = "('a, world) task"

definition next_tick :: "world \<Rightarrow> world" where
  "next_tick w = w\<lparr>w_tick := Suc (w_tick w)\<rparr>"

definition answer :: "(nat \<Rightarrow> 'a) \<Rightarrow> 'a job_task" where
  "answer f = action (\<lambda>w. (f (w_tick w), next_tick w))"

definition now_ms :: "engine_env \<Rightarrow> int job_task" where
  "now_ms E = answer (ee_now E)"

definition logged :: "event list \<Rightarrow> world \<Rightarrow> world" where
  "logged es w = w\<lparr>w_log := w_log w @ es\<rparr>"

definition note_event :: "event \<Rightarrow> unit job_task" where
  "note_event e = update (logged [e])"

text \<open>One transaction of the catalog.\<close>

definition transact ::
    "engine_env \<Rightarrow> ('a \<Rightarrow> event list) \<Rightarrow> (catalog \<Rightarrow> catalog \<times> 'a result) \<Rightarrow> 'a result job_task" where
  "transact E events f = action (\<lambda>w.
     case ee_store_fault E (w_tick w) of
       None \<Rightarrow>
         (snd (f (w_catalog w)),
          logged (case snd (f (w_catalog w)) of Inl _ \<Rightarrow> [] | Inr a \<Rightarrow> events a)
            (next_tick (w\<lparr>w_catalog := fst (f (w_catalog w))\<rparr>)))
     | Some (e, applied) \<Rightarrow>
         (Inl e, next_tick (if applied then w\<lparr>w_catalog := fst (f (w_catalog w))\<rparr> else w)))"

definition store_call :: "engine_env \<Rightarrow> (catalog \<Rightarrow> catalog \<times> 'a result) \<Rightarrow> 'a result job_task" where
  "store_call E = transact E (\<lambda>_. [])"

definition terminal_call ::
    "engine_env \<Rightarrow> string \<Rightarrow> (catalog \<Rightarrow> catalog \<times> TerminalOutcome result) \<Rightarrow> TerminalOutcome result job_task" where
  "terminal_call E c = transact E (\<lambda>outcome. case outcome of Won _ \<Rightarrow> [TerminalWon c] | _ \<Rightarrow> [])"

definition stored_job :: "engine_env \<Rightarrow> string \<Rightarrow> JobRecord option result job_task" where
  "stored_job E c = store_call E (\<lambda>db. (db, Inr (load_job db c)))"

definition runtime_of :: "nat \<Rightarrow> world \<Rightarrow> JobRuntime" where
  "runtime_of r w = w_runtimes w ! r"

definition on_runtime :: "nat \<Rightarrow> (JobRuntime \<Rightarrow> JobRuntime) \<Rightarrow> world \<Rightarrow> world" where
  "on_runtime r f w = w\<lparr>w_runtimes := (w_runtimes w)[r := f (w_runtimes w ! r)]\<rparr>"

definition on_trace :: "nat \<Rightarrow> (ExecutionTrace \<Rightarrow> ExecutionTrace) \<Rightarrow> world \<Rightarrow> world" where
  "on_trace r f = on_runtime r (\<lambda>rt. rt\<lparr>rt_trace := f (rt_trace rt)\<rparr>)"

definition cancel_token :: "nat \<Rightarrow> unit job_task" where
  "cancel_token r = update (on_runtime r (\<lambda>rt. rt\<lparr>rt_cancellation := True\<rparr>))"

definition capture_of :: "nat \<Rightarrow> world \<Rightarrow> string" where
  "capture_of r w = sp_capture_id (rt_spec (runtime_of r w))"

section \<open>Arithmetic on deadlines\<close>

definition i64_max :: int where "i64_max = 2 ^ 63 - 1"
definition i64_min :: int where "i64_min = - (2 ^ 63)"

definition saturate_i64 :: "int \<Rightarrow> int" where
  "saturate_i64 x = max i64_min (min i64_max x)"

definition i64_of_u64 :: "u64 \<Rightarrow> int" where
  "i64_of_u64 n = (if unat n < 2 ^ 63 then int (unat n) else i64_max)"

definition elapsed_ms :: "int \<Rightarrow> int \<Rightarrow> u64" where
  "elapsed_ms start finish =
     (if saturate_i64 (finish - start) < 0 then 0 else of_int (saturate_i64 (finish - start)))"

definition durations :: "CaptureJobSpec \<Rightarrow> ExecutionTrace \<Rightarrow> int \<Rightarrow> CaptureDurations" where
  "durations spec tr terminal_at = \<lparr>
     du_queue = map_option (elapsed_ms (sp_accepted_at_ms spec)) (et_acquisition_started_at_ms tr),
     du_acquisition = (case (et_acquisition_started_at_ms tr, et_frame_received_at_ms tr) of
        (Some start, Some finish) \<Rightarrow> Some (elapsed_ms start finish) | _ \<Rightarrow> None),
     du_encoding = (case (et_frame_received_at_ms tr, et_persisting_at_ms tr) of
        (Some start, Some finish) \<Rightarrow> Some (elapsed_ms start finish) | _ \<Rightarrow> None),
     du_persistence = map_option (\<lambda>start. elapsed_ms start terminal_at) (et_persisting_at_ms tr),
     du_total = elapsed_ms (sp_accepted_at_ms spec) terminal_at\<rparr>"

definition datetime :: "chrono \<Rightarrow> int \<Rightarrow> int result" where
  "datetime ch ms = ok_or (dt_of_millis ch ms) (CatalogError ''timestamp is outside chrono's domain'')"

definition optional_datetime :: "chrono \<Rightarrow> int option \<Rightarrow> int option result" where
  "optional_datetime ch ms =
     (case ms of None \<Rightarrow> Inr None | Some t \<Rightarrow> and_then (datetime ch t) (\<lambda>d. Inr (Some d)))"

definition job_timeout_error :: "string \<Rightarrow> camera_error" where
  "job_timeout_error stage = rejected CaptureTimeout (''capture timed out during '' @ stage)"

definition job_cancelled_error :: "string \<Rightarrow> camera_error" where
  "job_cancelled_error stage = rejected CaptureCancelled (''capture cancelled '' @ stage)"

definition is_retriable :: "error_code \<Rightarrow> bool" where
  "is_retriable code = (code \<in> {DeviceUnavailable, QueueFull, ResourceLimit, CaptureTimeout,
     StoragePressure, PersistenceFailed, BackendError})"

definition MAX_TERMINAL_DETAIL_BYTES :: nat where "MAX_TERMINAL_DETAIL_BYTES = 1024"

fun bounded_detail_loop :: "string list \<Rightarrow> string \<Rightarrow> string" where
  "bounded_detail_loop [] output = output"
| "bounded_detail_loop (ch # rest) output =
     (let character = (if is_control ch then '' '' else ch) in
      if MAX_TERMINAL_DETAIL_BYTES < length output + length character then output
      else bounded_detail_loop rest (output @ character))"

definition bounded_detail :: "string \<Rightarrow> string" where
  "bounded_detail s = bounded_detail_loop (utf8_chars s) []"

fun terminal_kind :: "JobState \<Rightarrow> TerminalKind result" where
  "terminal_kind Succeeded = Inr Captured"
| "terminal_kind Cancelled = Inr CaptureWasCancelled"
| "terminal_kind Failed = Inr CaptureFailed"
| "terminal_kind Interrupted = Inr CaptureFailed"
| "terminal_kind _ = Inl (CatalogError ''terminal message requested for nonterminal state'')"

definition frame_facts :: "SourceFrame \<Rightarrow> FrameFacts" where
  "frame_facts f = \<lparr>
     ff_summary = \<lparr>fs_width = cf_width f, fs_height = cf_height f, fs_pixel_format = cf_pixel_format f,
       fs_source_encoding = (if cf_pixel_format f = Px_Jpeg then ''jpeg'' else ''raw'')\<rparr>,
     ff_capture_mode = cf_capture_mode f, ff_source_timestamp = cf_source_timestamp f,
     ff_timestamp_quality = cf_timestamp_quality f, ff_backend_metadata = cf_backend_metadata f\<rparr>"

section \<open>Checks and reconstruction\<close>

definition group_material_ok :: "CaptureTrigger \<Rightarrow> string option \<Rightarrow> nat option \<Rightarrow> unit result" where
  "group_material_ok trig group_id group_size =
     (case trig of
        GroupCommand _ g \<Rightarrow> ensure (group_id = Some g \<and> (case group_size of None \<Rightarrow> False | Some n \<Rightarrow> 2 \<le> n))
          (CatalogError ''group runtime snapshot is inconsistent'')
      | _ \<Rightarrow> ensure (group_id = None \<and> group_size = None)
          (CatalogError ''non-group runtime snapshot carries group material''))"

definition validate_submission :: "engine_env \<Rightarrow> JobSubmission \<Rightarrow> unit result" where
  "validate_submission E sub =
     (let job = sub_job sub; spec = sub_spec sub in checks
       [ensure (nj_capture_id job = sp_capture_id spec \<and> nj_instance job = sp_instance spec \<and>
          nj_deadlines job = sp_deadlines spec \<and> nj_accepted_at_ms job = sp_accepted_at_ms spec)
          (CatalogError ''runtime job identity/deadlines differ from durable acceptance material''),
        ensure (sp_capture_id spec \<noteq> [] \<and> sp_instance spec \<noteq> [] \<and> jp_name (sp_profile spec) \<noteq> [] \<and>
          sp_correlation_id spec \<noteq> [] \<and> jp_maximum_frame_bytes (sp_profile spec) \<noteq> 0)
          (rejected BadArgs ''immutable capture snapshot contains an empty/zero required field''),
        ensure (ee_profile_value E (sp_profile spec) = nj_effective_profile job \<and>
          trigger_value (ee_chrono E) (sp_trigger spec) = nj_trigger job)
          (CatalogError ''runtime profile/trigger differs from the immutable catalog snapshot''),
        ensure (case nj_origin_correlation_id job of None \<Rightarrow> True | Some c \<Rightarrow> c = sp_correlation_id spec)
          (CatalogError ''runtime creator correlation differs from the durable job''),
        ensure (str_field (nj_intended_output job) ''relativePath'' = Some (rp_wire (sp_relative_path spec)))
          (CatalogError ''runtime output path differs from the durable intended output''),
        group_material_ok (sp_trigger spec) (nj_group_id job) (sp_group_size spec)])"

definition backend_of_name :: "string \<Rightarrow> BackendKind option" where
  "backend_of_name s = find (\<lambda>b. backend_kind_as_str b = s) [Sim, GenicamAravis, OnvifRtsp, Rtsp]"

definition stored_metadata :: "json \<Rightarrow> (string \<times> json) list result" where
  "stored_metadata request =
     (case object_get request ''metadata'' of
        None \<Rightarrow> Inr []
      | Some (JObject kvs) \<Rightarrow> Inr kvs
      | Some _ \<Rightarrow> Inl (CatalogError ''recovery record has invalid capture metadata''))"

definition bare_camera :: "BackendKind \<Rightarrow> CameraSummary" where
  "bare_camera b = \<lparr>cm_backend = b, cm_vendor = None, cm_model = None, cm_firmware = None, cm_serial = None\<rparr>"

definition spec_from_record ::
    "engine_env \<Rightarrow> JobRow \<Rightarrow> string option \<Rightarrow> nat option \<Rightarrow> CaptureJobSpec result" where
  "spec_from_record E row resource_group group_size =
     and_then (ok_or (ee_profile_of_value E (effective_profile row))
       (CatalogError ''recovery record has an invalid effective profile'')) (\<lambda>profile.
     and_then (ok_or (trigger_of_value (ee_chrono E) (trigger row))
       (CatalogError ''recovery record has an invalid capture trigger'')) (\<lambda>trig.
     and_then (stored_metadata (canonical_request row)) (\<lambda>metadata.
     and_then (ok_or (Option.bind (str_field (intended_output row) ''backend'') backend_of_name)
       (CatalogError ''recovery record lacks a valid backend kind'')) (\<lambda>backend.
     and_then (ok_or (str_field (intended_output row) ''relativePath'')
       (CatalogError ''recovery record lacks relativePath'')) (\<lambda>wire.
     and_then (from_stored wire) (\<lambda>path. Inr \<lparr>
       sp_capture_id = capture_id row, sp_instance = instance_of row, sp_profile = profile,
       sp_resource_group = resource_group, sp_relative_path = path, sp_deadlines = deadlines row,
       sp_accepted_at_ms = accepted_at_ms row, sp_trigger = trig,
       sp_correlation_id = (case origin_correlation_id row of None \<Rightarrow> capture_id row | Some c \<Rightarrow> c),
       sp_metadata = metadata, sp_camera = bare_camera backend, sp_group_size = group_size\<rparr>))))))"

definition fresh_trace :: "CameraSummary \<Rightarrow> ExecutionTrace" where
  "fresh_trace cam = \<lparr>et_stage = StageQueued, et_acquisition_started_at_ms = None,
     et_frame_received_at_ms = None, et_persisting_at_ms = None, et_persisted_at_ms = None,
     et_frame = None, et_camera = cam\<rparr>"

definition fresh_runtime :: "CaptureJobSpec \<Rightarrow> CameraSummary \<Rightarrow> JobRuntime" where
  "fresh_runtime spec cam = \<lparr>rt_spec = spec, rt_deadlines = sp_deadlines spec, rt_rebased = 0,
     rt_cancellation = False, rt_done = False, rt_trace = fresh_trace cam\<rparr>"

text \<open>A found value that meets a condition.\<close>

definition filter_option :: "('a \<Rightarrow> bool) \<Rightarrow> 'a option \<Rightarrow> 'a option" where
  "filter_option p x = (case x of Some a \<Rightarrow> if p a then Some a else None | None \<Rightarrow> None)"

section \<open>Terminal writes\<close>

definition failure_of :: "ExecutionTrace \<Rightarrow> JobState \<Rightarrow> (error_code \<times> string) option \<Rightarrow> FailureSummary option result" where
  "failure_of tr st err =
     (if st = Failed \<or> st = Interrupted
      then (case err of
              None \<Rightarrow> Inl (CatalogError ''failed terminal result lacks an error'')
            | Some (code, message) \<Rightarrow> Inr (Some \<lparr>fa_code = code, fa_stage = stage_token (et_stage tr),
                fa_retriable = is_retriable code, fa_message = message\<rparr>))
      else Inr None)"

definition group_of :: "CaptureJobSpec \<Rightarrow> string option \<times> nat option" where
  "group_of spec = (case sp_trigger spec of GroupCommand _ g \<Rightarrow> (Some g, sp_group_size spec) | _ \<Rightarrow> (None, None))"

definition trace_timestamps ::
    "chrono \<Rightarrow> CaptureJobSpec \<Rightarrow> ExecutionTrace \<Rightarrow> int option \<Rightarrow> CaptureTimestamps result" where
  "trace_timestamps ch spec tr persisted_override =
     and_then (datetime ch (sp_accepted_at_ms spec)) (\<lambda>requested.
     and_then (optional_datetime ch (et_acquisition_started_at_ms tr)) (\<lambda>started.
     and_then (optional_datetime ch (et_frame_received_at_ms tr)) (\<lambda>received.
     and_then (optional_datetime ch
       (case persisted_override of None \<Rightarrow> et_persisted_at_ms tr | Some t \<Rightarrow> Some t)) (\<lambda>persisted. Inr \<lparr>
       ts_requested_at = requested, ts_acquisition_started_at = started,
       ts_camera_frame_at = Option.bind (et_frame tr) ff_source_timestamp,
       ts_frame_received_at = received, ts_persisted_at = persisted,
       ts_camera_frame_timestamp_quality =
         (case et_frame tr of None \<Rightarrow> TsUnknown | Some f \<Rightarrow> ff_timestamp_quality f)\<rparr>))))"

definition terminal_body_of ::
    "string \<Rightarrow> CaptureJobSpec \<Rightarrow> ExecutionTrace \<Rightarrow> ImageArtifact option \<Rightarrow> FailureSummary option \<Rightarrow>
     CaptureTimestamps \<Rightarrow> int \<Rightarrow> TerminalBody" where
  "terminal_body_of event spec tr success failure stamps terminal_at = \<lparr>
     tb_schema_version = TERMINAL_SCHEMA_VERSION, tb_event_id = event,
     tb_capture_id = sp_capture_id spec, tb_camera_id = sp_instance spec,
     tb_correlation_id = sp_correlation_id spec, tb_trigger = sp_trigger spec,
     tb_capture_profile = jp_name (sp_profile spec),
     tb_capture_mode = (case et_frame tr of None \<Rightarrow> jp_capture_mode (sp_profile spec) | Some f \<Rightarrow> ff_capture_mode f),
     tb_timestamps = stamps, tb_durations_ms = durations spec tr terminal_at,
     tb_image = success, tb_frame = map_option ff_summary (et_frame tr), tb_camera = et_camera tr,
     tb_metadata = sp_metadata spec, tb_failure = failure, tb_capture_group_id = fst (group_of spec),
     tb_group_size = snd (group_of spec),
     tb_backend_metadata = (case et_frame tr of None \<Rightarrow> [] | Some f \<Rightarrow> ff_backend_metadata f)\<rparr>"

definition make_terminal_write ::
    "chrono \<Rightarrow> string \<Rightarrow> JobRuntime \<Rightarrow> JobState \<Rightarrow> ImageArtifact option \<Rightarrow> (error_code \<times> string) option \<Rightarrow>
     int \<Rightarrow> int option \<Rightarrow> (TerminalWrite \<times> json) result" where
  "make_terminal_write ch event rt st success err terminal_at persisted_override =
     and_then (failure_of (rt_trace rt) st err) (\<lambda>failure.
     and_then (trace_timestamps ch (rt_spec rt) (rt_trace rt) persisted_override) (\<lambda>stamps.
     and_then (terminal_kind st) (\<lambda>kind.
     and_then (new_message ch kind
       (terminal_body_of event (rt_spec rt) (rt_trace rt) success failure stamps terminal_at)) (\<lambda>message.
       Inr (\<lparr>tw_state = st, tw_result = tm_body message,
              tw_error_code = map_option (error_code_as_str \<circ> fst) err,
              tw_error_message = map_option snd err, tw_terminal_at_ms = terminal_at\<rparr>,
            tm_body message)))))"

definition terminal_write ::
    "engine_env \<Rightarrow> nat \<Rightarrow> JobState \<Rightarrow> ImageArtifact option \<Rightarrow> (error_code \<times> string) option \<Rightarrow>
     int \<Rightarrow> int option \<Rightarrow> (TerminalWrite \<times> json) result job_task" where
  "terminal_write E r st success err terminal_at persisted_override = action (\<lambda>w.
     (make_terminal_write (ee_chrono E) (ee_event_id E (w_tick w)) (runtime_of r w) st success err
        terminal_at persisted_override, next_tick w))"

section \<open>After a terminal commit\<close>

definition complete_runtime :: "nat \<Rightarrow> unit job_task" where
  "complete_runtime r = update (\<lambda>w.
     (on_runtime r (\<lambda>rt. rt\<lparr>rt_done := True\<rparr>) w)\<lparr>w_active := bt_remove (capture_of r w) (w_active w)\<rparr>)"

definition announce :: "engine_env \<Rightarrow> string \<Rightarrow> TerminalMessage \<Rightarrow> unit result job_task" where
  "announce E c message = action (\<lambda>w.
     (ee_announce E (w_tick w) message,
      logged [case ee_announce E (w_tick w) message of
                Inr _ \<Rightarrow> Delivered c message | Inl e \<Rightarrow> Undelivered c message e] (next_tick w)))"

definition announce_with_preview ::
    "engine_env \<Rightarrow> string \<Rightarrow> TerminalMessage \<Rightarrow> Thumbnail option \<Rightarrow> unit result job_task" where
  "announce_with_preview E c base thumbnail =
     (case thumbnail of
        None \<Rightarrow> announce E c base
      | Some t \<Rightarrow>
          (case with_thumbnail base t of
             Inr previewed \<Rightarrow> bind_task (announce E c previewed) (\<lambda>first.
               case first of
                 Inr _ \<Rightarrow> Return (Inr ())
               | Inl _ \<Rightarrow> bind_task (note_event RetriedWithoutPreview) (\<lambda>_. announce E c base))
           | Inl _ \<Rightarrow> bind_task (note_event ThumbnailDroppedHook) (\<lambda>_. announce E c base)))"

definition announce_terminal ::
    "engine_env \<Rightarrow> JobRow \<Rightarrow> json \<Rightarrow> Thumbnail option \<Rightarrow> unit job_task" where
  "announce_terminal E row body thumbnail =
     (case and_then (terminal_kind (state row)) (\<lambda>kind. from_committed_body kind body) of
        Inl e \<Rightarrow> note_event (AnnouncementFailed (capture_id row) e)
      | Inr base \<Rightarrow> bind_task (announce_with_preview E (capture_id row) base thumbnail) (\<lambda>sent.
          case sent of
            Inr _ \<Rightarrow> note_event (TerminalAnnounced (capture_id row))
          | Inl e \<Rightarrow> note_event (AnnouncementFailed (capture_id row) e)))"

text \<open>The hooks of the runtime: replies to callers that wait, and completion of groups.\<close>

definition take_tokens :: "string \<Rightarrow> string list job_task" where
  "take_tokens c = action (\<lambda>w.
     (case map_of (w_tokens w) c of None \<Rightarrow> [] | Some ids \<Rightarrow> ids, w\<lparr>w_tokens := bt_remove c (w_tokens w)\<rparr>))"

definition take_group_tokens :: "string \<Rightarrow> string list job_task" where
  "take_group_tokens g = action (\<lambda>w.
     (case map_of (w_group_tokens w) g of None \<Rightarrow> [] | Some ids \<Rightarrow> ids,
      w\<lparr>w_group_tokens := bt_remove g (w_group_tokens w)\<rparr>))"

definition reply :: "engine_env \<Rightarrow> string \<Rightarrow> string \<Rightarrow> json \<Rightarrow> bool job_task" where
  "reply E subject waiter body = action (\<lambda>w.
     (ee_reply E (w_tick w) waiter,
      logged (if ee_reply E (w_tick w) waiter then [Replied subject waiter body] else []) (next_tick w)))"

definition drop_waiter :: "engine_env \<Rightarrow> string \<Rightarrow> bool result job_task" where
  "drop_waiter E waiter = store_call E (\<lambda>db. (fst (remove_waiter waiter db), Inr (snd (remove_waiter waiter db))))"

fun reply_all :: "engine_env \<Rightarrow> string \<Rightarrow> json \<Rightarrow> string list \<Rightarrow> unit job_task" where
  "reply_all E c body [] = Return ()"
| "reply_all E c body (waiter # rest) =
     bind_task (reply E c waiter body) (\<lambda>reached.
       if reached then bind_task (drop_waiter E waiter) (\<lambda>_. reply_all E c body rest)
       else reply_all E c body rest)"

fun reply_group :: "engine_env \<Rightarrow> string \<Rightarrow> json \<Rightarrow> string list \<Rightarrow> unit job_task" where
  "reply_group E g body [] = Return ()"
| "reply_group E g body (waiter # rest) = bind_task (reply E g waiter body) (\<lambda>_. reply_group E g body rest)"

definition settle_waiters :: "engine_env \<Rightarrow> JobRow \<Rightarrow> json \<Rightarrow> unit job_task" where
  "settle_waiters E row body = bind_task (note_event (WaitersSettled (capture_id row) body)) (\<lambda>_.
     bind_task (take_tokens (capture_id row)) (reply_all E (capture_id row) body))"

definition json_i64 :: "int \<Rightarrow> json" where
  "json_i64 n = JNumber (if 0 \<le> n then PosInt (of_int n) else NegInt n)"

definition json_opt :: "('a \<Rightarrow> json) \<Rightarrow> 'a option \<Rightarrow> json option" where
  "json_opt f x = Some (case x of None \<Rightarrow> JNull | Some a \<Rightarrow> f a)"

definition job_status_json :: "JobRecord \<Rightarrow> json" where
  "job_status_json record = (let row = fst record in to_object
     [(''captureId'', Some (JString (capture_id row))), (''instance'', Some (JString (instance_of row))),
      (''state'', Some (JString (job_state_token (state row)))),
      (''acceptedAtMs'', Some (json_i64 (accepted_at_ms row))),
      (''terminalAtMs'', json_opt json_i64 (terminal_at_ms row)),
      (''captureGroupId'', json_opt JString (job_group_id row)),
      (''errorCode'', json_opt JString (job_error_code row)),
      (''errorMessage'', json_opt JString (job_error_message row)),
      (''result'', json_opt id (terminal_result row))])"

definition count_succeeded :: "GroupRecord \<Rightarrow> nat" where
  "count_succeeded record = length (filter (\<lambda>m. state (fst m) = Succeeded) (snd record))"

definition group_terminal_json :: "GroupRecord \<Rightarrow> json" where
  "group_terminal_json record =
     (let n = count_succeeded record in to_object
       [(''captureGroupId'', Some (JString (gr_group_id (fst record)))),
        (''requestId'', Some (JString (lk_request_id (gr_ledger_key (fst record))))),
        (''state'', Some (JString (if n = length (snd record) then ''COMPLETED'' else if n = 0 then ''FAILED'' else ''PARTIAL''))),
        (''members'', Some (JArray (map (\<lambda>m.
           case terminal_result (fst m) of None \<Rightarrow> job_status_json m | Some body \<Rightarrow> body) (snd record))))])"

definition settle_group_waiters :: "engine_env \<Rightarrow> GroupRecord \<Rightarrow> unit job_task" where
  "settle_group_waiters E record = bind_task (take_group_tokens (gr_group_id (fst record)))
     (reply_group E (gr_group_id (fst record)) (group_terminal_json record))"

definition complete_group_if_terminal :: "engine_env \<Rightarrow> string \<Rightarrow> unit job_task" where
  "complete_group_if_terminal E g =
     bind_task (store_call E (\<lambda>db. (db, Inr (load_group db g)))) (\<lambda>found.
       case found of
         Inr (Some record) \<Rightarrow>
           if is_terminal (gr_state (fst record)) \<or> list_ex (\<lambda>m. \<not> is_terminal (state (fst m))) (snd record)
           then Return ()
           else bind_task (now_ms E) (\<lambda>now.
             bind_task (store_call E (complete_group g
                 (if count_succeeded record = length (snd record) then Succeeded else Failed)
                 (group_terminal_json record) None None now)) (\<lambda>completed.
               case completed of Inr final \<Rightarrow> settle_group_waiters E final | Inl _ \<Rightarrow> Return ()))
       | _ \<Rightarrow> Return ())"

definition settle :: "engine_env \<Rightarrow> JobRow \<Rightarrow> json \<Rightarrow> unit job_task" where
  "settle E row body = bind_task (settle_waiters E row body) (\<lambda>_.
     case job_group_id row of
       None \<Rightarrow> Return ()
     | Some g \<Rightarrow> bind_task (note_event (GroupMemberTerminal (capture_id row) body)) (\<lambda>_.
         complete_group_if_terminal E g))"

definition after_terminal ::
    "engine_env \<Rightarrow> nat \<Rightarrow> JobRow \<Rightarrow> json \<Rightarrow> Thumbnail option \<Rightarrow> unit job_task" where
  "after_terminal E r row body thumbnail =
     bind_task (complete_runtime r) (\<lambda>_.
     bind_task (announce_terminal E row body thumbnail) (\<lambda>_. settle E row body))"

definition finish_terminal_outcome ::
    "engine_env \<Rightarrow> nat \<Rightarrow> TerminalOutcome \<Rightarrow> json \<Rightarrow> Thumbnail option \<Rightarrow> JobRecord result job_task" where
  "finish_terminal_outcome E r outcome body thumbnail =
     (case outcome of
        Won record \<Rightarrow> bind_task (after_terminal E r (fst record) body thumbnail) (\<lambda>_. Return (Inr record))
      | AlreadyTerminal record \<Rightarrow> bind_task (complete_runtime r) (\<lambda>_. Return (Inr record))
      | InstallationWon record \<Rightarrow> bind_task (complete_runtime r) (\<lambda>_. Return (Inr record)))"

definition finish_failure :: "engine_env \<Rightarrow> nat \<Rightarrow> error_code \<Rightarrow> string \<Rightarrow> JobRecord result job_task" where
  "finish_failure E r code message =
     bind_task (look (capture_of r)) (\<lambda>c.
     try_task (stored_job E c) (\<lambda>found.
       case filter_option (\<lambda>record. state (fst record) = Persisting \<and> install_started (fst record)) found of
         Some record \<Rightarrow> bind_task (complete_runtime r) (\<lambda>_. Return (Inr record))
       | None \<Rightarrow>
           bind_task (now_ms E) (\<lambda>now.
           try_task (terminal_write E r Failed None (Some (code, bounded_detail message)) now None) (\<lambda>(write, body).
           try_task (terminal_call E c (commit_terminal c write)) (\<lambda>outcome.
           try_task (finish_terminal_outcome E r outcome body None) (\<lambda>record.
           bind_task (cancel_token r) (\<lambda>_. Return (Inr record))))))))"

definition cancel_runtime :: "engine_env \<Rightarrow> nat \<Rightarrow> string \<Rightarrow> JobRecord result job_task" where
  "cancel_runtime E r reason =
     bind_task (look (capture_of r)) (\<lambda>c.
     bind_task (now_ms E) (\<lambda>now.
     try_task (terminal_write E r Cancelled None (Some (CaptureCancelled, reason)) now None) (\<lambda>(write, body).
     try_task (terminal_call E c (cancel_job c write)) (\<lambda>outcome.
       case outcome of
         Won record \<Rightarrow> bind_task (cancel_token r) (\<lambda>_.
           bind_task (after_terminal E r (fst record) body None) (\<lambda>_. Return (Inr record)))
       | AlreadyTerminal record \<Rightarrow> bind_task (complete_runtime r) (\<lambda>_. Return (Inr record))
       | InstallationWon record \<Rightarrow> bind_task (complete_runtime r) (\<lambda>_. Return (Inr record))))))"

definition finish_error :: "engine_env \<Rightarrow> nat \<Rightarrow> camera_error \<Rightarrow> JobRecord result job_task" where
  "finish_error E r e =
     (if error_code_of e = CaptureCancelled then cancel_runtime E r (bounded_detail (operator_detail e))
      else finish_failure E r (error_code_of e) (bounded_detail (operator_detail e)))"

definition fail_panic :: "engine_env \<Rightarrow> nat \<Rightarrow> JobRecord result job_task" where
  "fail_panic E r = finish_failure E r BackendError ''camera actor isolated a backend panic''"

definition fail_durable_store :: "engine_env \<Rightarrow> nat \<Rightarrow> camera_error \<Rightarrow> JobRecord result job_task" where
  "fail_durable_store E r e =
     bind_task (finish_failure E r (error_code_of e) (bounded_detail (operator_detail e))) (\<lambda>outcome.
       case outcome of
         Inr record \<Rightarrow> Return (Inr record)
       | Inl e' \<Rightarrow> bind_task (complete_runtime r) (\<lambda>_. Return (Inl e')))"

section \<open>Execution\<close>

text \<open>A biased wait: when it ends, a raised cancellation wins over a passed deadline, and both over the
  result.\<close>

definition await_with_deadline ::
    "engine_env \<Rightarrow> nat \<Rightarrow> (JobDeadlines \<Rightarrow> int) \<Rightarrow> (nat \<Rightarrow> 'a result) \<Rightarrow> string \<Rightarrow> 'a result job_task" where
  "await_with_deadline E r which future stage =
     bind_task (look (\<lambda>w. which (rt_deadlines (runtime_of r w)))) (\<lambda>deadline. action (\<lambda>w.
       (if rt_cancellation (runtime_of r w) then Inl (job_cancelled_error stage)
        else if deadline \<le> ee_now E (w_tick w) then Inl (job_timeout_error stage)
        else future (w_tick w), next_tick w)))"

definition update_camera_from_session :: "engine_env \<Rightarrow> nat \<Rightarrow> unit job_task" where
  "update_camera_from_session E r = update (\<lambda>w.
     next_tick (on_trace r (\<lambda>tr. tr\<lparr>et_camera := (et_camera tr)\<lparr>
       cm_vendor := cap_vendor (ee_capabilities E (w_tick w)), cm_model := cap_model (ee_capabilities E (w_tick w)),
       cm_firmware := cap_firmware (ee_capabilities E (w_tick w)),
       cm_serial := cap_serial (ee_capabilities E (w_tick w))\<rparr>\<rparr>) w))"

definition capture_interlock_ptz :: "engine_env \<Rightarrow> PtzRequest \<Rightarrow> PtzResult result job_task" where
  "capture_interlock_ptz E request = bind_task (answer (\<lambda>k. ee_ptz E k request)) (\<lambda>result.
     Return (case result of
       Inl e \<Rightarrow> if error_code_of e = PtzTimeout
         then Inl (rejected CameraMoving ''PTZ operation did not complete before the capture deadline'')
         else Inl e
     | Inr v \<Rightarrow> Inr v))"

text \<open>Polling until the camera reports that it is idle; \<open>n\<close> bounds the number of polls considered.\<close>

fun wait_until_idle :: "engine_env \<Rightarrow> nat \<Rightarrow> nat \<Rightarrow> unit result job_task" where
  "wait_until_idle E 0 r = Halt"
| "wait_until_idle E (Suc n) r =
     bind_task (now_ms E) (\<lambda>now.
     bind_task (look (\<lambda>w. dl_capture_at_ms (rt_deadlines (runtime_of r w)))) (\<lambda>deadline.
       if deadline \<le> now
       then Return (Inl (rejected CameraMoving ''camera did not become idle before capture deadline''))
       else try_task (capture_interlock_ptz E PtzStatusRequest) (\<lambda>result.
         case result of
           PtzStatusResult status \<Rightarrow>
             if ps_moving status \<noteq> Some True then Return (Inr ())
             else try_task (await_with_deadline E r dl_capture_at_ms (\<lambda>_. Inr ()) ''PTZ interlock'') (\<lambda>_.
                    wait_until_idle E n r)
         | _ \<Rightarrow> Return (Inl (rejected CameraMoving ''PTZ status response was invalid'')))))"

definition stop_and_settle :: "engine_env \<Rightarrow> nat \<Rightarrow> nat \<Rightarrow> bool \<Rightarrow> unit result job_task" where
  "stop_and_settle E polls r status_available =
     try_task (capture_interlock_ptz E (Stop True True True)) (\<lambda>result.
       if result \<noteq> Commanded
       then Return (Inl (rejected CameraMoving ''camera did not acknowledge PTZ stop''))
       else try_task (if status_available then wait_until_idle E polls r else Return (Inr ())) (\<lambda>_.
         await_with_deadline E r dl_capture_at_ms (\<lambda>_. Inr ()) ''PTZ settle''))"

datatype motion = MotionKnown bool | MotionUnknown

definition observe_motion :: "engine_env \<Rightarrow> motion result job_task" where
  "observe_motion E = bind_task (capture_interlock_ptz E PtzStatusRequest) (\<lambda>result.
     Return (case result of
       Inr (PtzStatusResult status) \<Rightarrow> Inr (MotionKnown (ps_moving status = Some True))
     | Inr _ \<Rightarrow> Inl (rejected CameraMoving ''PTZ status response was invalid'')
     | Inl e \<Rightarrow> if error_code_of e = UnsupportedCapability then Inr MotionUnknown else Inl e))"

definition enforce_capture_interlock :: "engine_env \<Rightarrow> nat \<Rightarrow> nat \<Rightarrow> unit result job_task" where
  "enforce_capture_interlock E polls r =
     bind_task (look (\<lambda>w. jp_capture_interlock (sp_profile (rt_spec (runtime_of r w))))) (\<lambda>policy.
       if policy = Allow then Return (Inr ())
       else try_task (observe_motion E) (\<lambda>observed.
         let moving = (observed = MotionKnown True); status_available = (observed \<noteq> MotionUnknown) in
         if policy = Reject
         then Return (if moving then Inl (rejected CameraMoving ''camera is moving'') else Inr ())
         else if \<not> moving \<and> status_available then Return (Inr ())
         else stop_and_settle E polls r status_available))"

definition reserve_decode ::
    "engine_env \<Rightarrow> SourceFrame \<Rightarrow> ThumbnailSize option \<Rightarrow> ThumbnailSize option job_task" where
  "reserve_decode E frame thumbnail =
     (case (thumbnail, ee_declared_decode_bytes E frame) of
        (Some t, Some bytes) \<Rightarrow> bind_task (answer (\<lambda>k. ee_reserve_memory E k bytes)) (\<lambda>lent.
          case lent of
            Inr _ \<Rightarrow> Return thumbnail
          | Inl _ \<Rightarrow> bind_task (note_event ThumbnailFailedHook) (\<lambda>_. Return None))
      | _ \<Rightarrow> Return thumbnail)"

text \<open>The worker that renders the preview and stages the file is spawned before anything waits for it. The select that follows
  asks for a cancellation first, then for the deadline, and takes the worker's result only after both; a result that comes
  too late is dropped with the worker.\<close>

definition prepare_blocking ::
    "engine_env \<Rightarrow> nat \<Rightarrow> SourceFrame \<Rightarrow> int \<Rightarrow> (PreparedInstall \<times> ThumbnailOutcome option) result job_task" where
  "prepare_blocking E r frame deadline =
     bind_task (look (\<lambda>w. prof_thumbnail (jp_capture (sp_profile (rt_spec (runtime_of r w)))))) (\<lambda>requested.
     bind_task (reserve_decode E frame requested) (\<lambda>thumbnail.
     bind_task (look (capture_of r)) (\<lambda>c.
     bind_task (note_event (WorkerSpawned c)) (\<lambda>_.
     action (\<lambda>w.
       if rt_cancellation (runtime_of r w)
       then (Inl (job_cancelled_error ''during encoding/persistence''), next_tick w)
       else if deadline \<le> ee_now E (w_tick w)
       then (Inl (job_timeout_error ''encoding/persistence''),
             next_tick (on_runtime r (\<lambda>rt. rt\<lparr>rt_cancellation := True\<rparr>) w))
       else (and_then (ee_prepare E (w_tick w)) (\<lambda>prepared.
               Inr (prepared, map_option (\<lambda>_. ee_render E (w_tick w)) thumbnail)), next_tick w))))))"

definition settle_thumbnail :: "ThumbnailOutcome option \<Rightarrow> Thumbnail option job_task" where
  "settle_thumbnail outcome =
     (case outcome of
        None \<Rightarrow> Return None
      | Some (Rendered t) \<Rightarrow> Return (Some t)
      | Some (ThumbnailDropped _) \<Rightarrow> bind_task (note_event ThumbnailDroppedHook) (\<lambda>_. Return None)
      | Some (ThumbnailFailed _) \<Rightarrow> bind_task (note_event ThumbnailFailedHook) (\<lambda>_. Return None))"

text \<open>Installation asks the catalog between the work on the files before and after it.\<close>

definition install_prepared :: "engine_env \<Rightarrow> string \<Rightarrow> int \<Rightarrow> ImageArtifact result job_task" where
  "install_prepared E c changed_at =
     try_task (answer (ee_install_before E)) (\<lambda>_.
     try_task (store_call E (try_begin_install c changed_at)) (\<lambda>decision.
       case decision of
         Started _ \<Rightarrow> answer (ee_install_after E)
       | AlreadyStarted _ \<Rightarrow> Return (Inl (StorageError
           ''install_started was already true; startup reconciliation owns this job''))
       | WrongState _ \<Rightarrow> Return (Inl (rejected CaptureCancelled
           ''cancellation or another terminal state won before installation''))))"

definition requires_encoding :: "CaptureJobSpec \<Rightarrow> bool" where
  "requires_encoding spec = (prof_encoding (jp_capture (sp_profile spec)) \<notin> {Raw, Passthrough})"

text \<open>One stage change; a capture that was meanwhile decided ends here.\<close>

definition enter_stage ::
    "engine_env \<Rightarrow> nat \<Rightarrow> string \<Rightarrow> StateCasOutcome result job_task \<Rightarrow> JobRecord result job_task \<Rightarrow>
     JobRecord result job_task" where
  "enter_stage E r message cas proceed =
     try_task cas (\<lambda>outcome.
       case outcome of
         StateChanged _ \<Rightarrow> proceed
       | NotChanged record \<Rightarrow>
           if is_terminal (state (fst record)) then bind_task (complete_runtime r) (\<lambda>_. Return (Inr record))
           else Return (Inl (CatalogError (message @ job_state_token (state (fst record))))))"

definition or_finish :: "engine_env \<Rightarrow> nat \<Rightarrow> 'a result job_task \<Rightarrow> ('a \<Rightarrow> JobRecord result job_task) \<Rightarrow>
    JobRecord result job_task" where
  "or_finish E r t f = bind_task t (\<lambda>res. case res of Inl e \<Rightarrow> finish_error E r e | Inr a \<Rightarrow> f a)"

definition commit_success ::
    "engine_env \<Rightarrow> nat \<Rightarrow> string \<Rightarrow> ImageArtifact \<Rightarrow> int \<Rightarrow> Thumbnail option \<Rightarrow> JobRecord result job_task" where
  "commit_success E r c installed terminal_at thumbnail =
     bind_task (now_ms E) (\<lambda>now.
     try_task (store_call E (record_installed_artifact c (ia_sha256 installed) (of_nat (ia_bytes installed)) now))
       (\<lambda>recorded.
     bind_task (update (on_trace r (\<lambda>tr. tr\<lparr>et_persisted_at_ms := Some terminal_at\<rparr>))) (\<lambda>_.
       case snd recorded of
         None \<Rightarrow> Return (Inl (CatalogError ''installed artifact lost its durably staged success write''))
       | Some pend \<Rightarrow>
           try_task (terminal_call E c (commit_terminal c pend)) (\<lambda>outcome.
             finish_terminal_outcome E r outcome (tw_result pend) thumbnail))))"

definition persist ::
    "engine_env \<Rightarrow> nat \<Rightarrow> string \<Rightarrow> PreparedInstall \<Rightarrow> Thumbnail option \<Rightarrow> JobRecord result job_task" where
  "persist E r c prepared thumbnail =
     bind_task (now_ms E) (\<lambda>persisting_at.
     bind_task (update (on_trace r (\<lambda>tr. tr\<lparr>et_stage := StagePersisting, et_persisting_at_ms := Some persisting_at\<rparr>))) (\<lambda>_.
     bind_task (now_ms E) (\<lambda>terminal_at.
     try_task (terminal_write E r Succeeded (Some (pp_artifact prepared)) None terminal_at (Some terminal_at))
       (\<lambda>(write, body).
     bind_task (now_ms E) (\<lambda>changed_at.
     enter_stage E r ''capture actor could not enter PERSISTING from ''
       (store_call E (begin_persisting c
          \<lparr>pi_partial_path = pp_partial_path prepared, pi_final_path = ia_absolute_path (pp_artifact prepared),
            pi_expected_sha256 = ia_sha256 (pp_artifact prepared),
            pi_expected_bytes = of_nat (ia_bytes (pp_artifact prepared)), pi_success = write,
            pi_changed_at_ms = changed_at\<rparr>))
       (or_finish E r (install_prepared E c terminal_at) (\<lambda>installed.
          commit_success E r c installed terminal_at thumbnail)))))))"

definition encode_and_persist ::
    "engine_env \<Rightarrow> nat \<Rightarrow> string \<Rightarrow> SourceFrame \<Rightarrow> JobRecord result job_task" where
  "encode_and_persist E r c frame =
     or_finish E r (answer (ee_acquire_writer E)) (\<lambda>_.
     bind_task (look (\<lambda>w. let rt = runtime_of r w in
       if requires_encoding (rt_spec rt)
       then min (dl_encode_at_ms (sp_deadlines (rt_spec rt))) (dl_persist_at_ms (rt_deadlines rt))
       else dl_persist_at_ms (rt_deadlines rt))) (\<lambda>work_deadline.
     or_finish E r (prepare_blocking E r frame work_deadline) (\<lambda>(prepared, outcome).
     bind_task (settle_thumbnail outcome) (\<lambda>thumbnail. persist E r c prepared thumbnail))))"

definition process_frame :: "engine_env \<Rightarrow> nat \<Rightarrow> string \<Rightarrow> SourceFrame \<Rightarrow> JobRecord result job_task" where
  "process_frame E r c frame =
     bind_task (now_ms E) (\<lambda>received_at.
     bind_task (update (on_trace r (\<lambda>tr. tr\<lparr>et_frame_received_at_ms := Some received_at,
       et_frame := Some (frame_facts frame)\<rparr>))) (\<lambda>_.
     or_finish E r (answer (ee_finish_acquisition E)) (\<lambda>_.
     bind_task (look (\<lambda>w. requires_encoding (rt_spec (runtime_of r w)))) (\<lambda>encoding.
       if encoding
       then bind_task (now_ms E) (\<lambda>now.
         enter_stage E r ''capture actor expected ACQUIRING, found ''
           (store_call E (compare_and_set_state c Acquiring Encoding now))
           (bind_task (update (on_trace r (\<lambda>tr. tr\<lparr>et_stage := StageEncoding\<rparr>))) (\<lambda>_.
            or_finish E r (answer (ee_acquire_encoder E)) (\<lambda>_. encode_and_persist E r c frame))))
       else encode_and_persist E r c frame))))"

definition acquire_frame :: "engine_env \<Rightarrow> nat \<Rightarrow> string \<Rightarrow> JobRecord result job_task" where
  "acquire_frame E r c =
     bind_task (now_ms E) (\<lambda>now.
     enter_stage E r ''capture actor expected QUEUED, found ''
       (store_call E (compare_and_set_state c Queued Acquiring now))
       (bind_task (now_ms E) (\<lambda>started_at.
        bind_task (update (on_trace r (\<lambda>tr. tr\<lparr>et_stage := StageAcquiring,
          et_acquisition_started_at_ms := Some started_at\<rparr>))) (\<lambda>_.
        bind_task (note_event (CaptureStarted c)) (\<lambda>_.
        or_finish E r (await_with_deadline E r dl_capture_at_ms (ee_capture E) ''backend acquisition'')
          (process_frame E r c))))))"

definition execute :: "engine_env \<Rightarrow> nat \<Rightarrow> nat \<Rightarrow> JobRecord result job_task" where
  "execute E polls r =
     bind_task (update_camera_from_session E r) (\<lambda>_.
     bind_task (look (capture_of r)) (\<lambda>c.
     or_finish E r (await_with_deadline E r dl_terminal_at_ms (ee_available E) ''camera availability'') (\<lambda>_.
     or_finish E r (enforce_capture_interlock E polls r) (\<lambda>_.
     or_finish E r (answer (ee_acquire_capture E)) (\<lambda>_. acquire_frame E r c)))))"

section \<open>Queueing, cancellation and deadlines\<close>

text \<open>A second registration of a capture replaces the first and is refused.\<close>

definition register :: "string \<Rightarrow> CaptureJobSpec \<Rightarrow> nat option job_task" where
  "register c spec = action (\<lambda>w.
     (if map_of (w_active w) c = None then Some (length (w_runtimes w)) else None,
      w\<lparr>w_runtimes := w_runtimes w @ [fresh_runtime spec (sp_camera spec)],
        w_active := (c, length (w_runtimes w)) # bt_remove c (w_active w)\<rparr>))"

definition enter_actor ::
    "engine_env \<Rightarrow> string \<Rightarrow> string \<Rightarrow> CaptureJobSpec \<Rightarrow> JobRecord \<Rightarrow> JobRecord result job_task" where
  "enter_actor E twice refused spec queued =
     bind_task (register (capture_id (fst queued)) spec) (\<lambda>registered.
       case registered of
         None \<Rightarrow> Return (Inl (CatalogError twice))
       | Some r \<Rightarrow> bind_task (answer (ee_dispatch E)) (\<lambda>position.
           case position of
             Inl e \<Rightarrow> bind_task (finish_failure E r QueueFull refused) (\<lambda>_. Return (Inl e))
           | Inr p \<Rightarrow> bind_task (note_event (TimerSpawned r)) (\<lambda>_.
               bind_task (note_event (CaptureQueued (capture_id (fst queued)) p)) (\<lambda>_. Return (Inr queued)))))"

text \<open>The acceptance hook attaches the caller that waits for this capture.\<close>

definition take_pending :: "string \<times> string \<Rightarrow> PendingWaiter option job_task" where
  "take_pending key = action (\<lambda>w. (map_of (w_pending w) key, w\<lparr>w_pending := bt_remove key (w_pending w)\<rparr>))"

definition register_waiter :: "engine_env \<Rightarrow> string \<Rightarrow> string \<Rightarrow> unit result job_task" where
  "register_waiter E c waiter = action (\<lambda>w.
     let limit = max 1 (ee_waiter_limit E (w_tick w));
         waiters = (case map_of (w_tokens w) c of None \<Rightarrow> [] | Some ids \<Rightarrow> ids);
         put = (\<lambda>ids. (next_tick w)\<lparr>w_tokens := (c, ids) # bt_remove c (w_tokens w)\<rparr>)
     in if limit \<le> length waiters
        then (Inl (rejected ResourceLimit ''this capture already has the maximum number of callers waiting on it''),
              put waiters)
        else (Inr (), put (waiters @ [waiter])))"

definition CAPTURE_VERB :: string where "CAPTURE_VERB = ''sb/capture''"

definition accepted_before_queue :: "engine_env \<Rightarrow> JobRecord \<Rightarrow> unit result job_task" where
  "accepted_before_queue E record =
     (let row = fst record in
      case ledger_key row of
        None \<Rightarrow> Return (Inr ())
      | Some key \<Rightarrow>
          if lk_verb key \<noteq> CAPTURE_VERB then Return (Inr ())
          else bind_task (take_pending (instance_of row, lk_request_id key)) (\<lambda>pending_waiter.
            case pending_waiter of
              None \<Rightarrow> Return (Inr ())
            | Some p \<Rightarrow>
                try_task (register_waiter E (capture_id row) (pw_waiter_id p)) (\<lambda>_.
                bind_task (now_ms E) (\<lambda>now.
                try_task (store_call E (add_waiter
                  \<lparr>wr_waiter_id = pw_waiter_id p, wr_capture_id = capture_id row,
                    wr_correlation_id = pw_correlation_id p, wr_request_uuid = Some (pw_request_uuid p),
                    wr_expires_at_ms = dl_terminal_at_ms (deadlines row), wr_created_at_ms = now\<rparr>))
                  (\<lambda>_. Return (Inr ()))))))"

definition accept_and_queue :: "engine_env \<Rightarrow> JobSubmission \<Rightarrow> AcceptJobOutcome result job_task" where
  "accept_and_queue E sub =
     (let c = nj_capture_id (sub_job sub) in
      case validate_submission E sub of
        Inl e \<Rightarrow> Return (Inl e)
      | Inr _ \<Rightarrow>
          try_task (answer (\<lambda>k. ee_reserve E k (sp_instance (sub_spec sub)))) (\<lambda>_.
          try_task (store_call E (accept_job (ee_category E) (sub_job sub))) (\<lambda>outcome.
            if (case outcome of JobInserted _ \<Rightarrow> False | _ \<Rightarrow> True) then Return (Inr outcome)
            else
            try_task (stored_job E c) (\<lambda>found.
              case found of
                None \<Rightarrow> Return (Inl (CatalogError ''accepted capture disappeared before queueing''))
              | Some accepted \<Rightarrow>
              try_task (accepted_before_queue E accepted) (\<lambda>_.
              bind_task (now_ms E) (\<lambda>now.
              try_task (store_call E (queue_job c now)) (\<lambda>changed.
                case changed of
                  NotChanged record \<Rightarrow> Return (Inr (JobExisting record))
                | StateChanged queued \<Rightarrow>
                    try_task (enter_actor E ''capture runtime was registered more than once''
                      ''durably queued job could not enter its reserved actor slot'' (sub_spec sub) queued)
                      (\<lambda>record. Return (Inr (JobInserted record)))))))))) "

definition queue_preaccepted :: "engine_env \<Rightarrow> JobSubmission \<Rightarrow> JobRecord result job_task" where
  "queue_preaccepted E sub =
     (let c = nj_capture_id (sub_job sub);
          enter = enter_actor E ''group capture runtime was registered more than once''
            ''durably queued group job could not enter its reserved actor slot'' (sub_spec sub) in
      case validate_submission E sub of
        Inl e \<Rightarrow> Return (Inl e)
      | Inr _ \<Rightarrow>
          try_task (answer (\<lambda>k. ee_reserve E k (sp_instance (sub_spec sub)))) (\<lambda>_.
          try_task (stored_job E c) (\<lambda>found.
            case found of
              None \<Rightarrow> Return (Inl (CatalogError ''accepted group capture disappeared before queueing''))
            | Some accepted \<Rightarrow>
                if state (fst accepted) = Queued then enter accepted
                else if state (fst accepted) \<noteq> Accepted
                then Return (Inl (CatalogError ''group member must be ACCEPTED or QUEUED before its queue phase''))
                else bind_task (now_ms E) (\<lambda>now.
                  try_task (store_call E (queue_job c now)) (\<lambda>changed.
                    case changed of
                      NotChanged record \<Rightarrow> Return (Inr record)
                    | StateChanged queued \<Rightarrow> enter queued)))))"

definition cancel_outcome :: "bool \<Rightarrow> JobRecord \<Rightarrow> bool \<Rightarrow> CancelResult result job_task" where
  "cancel_outcome won record in_progress = Return (Inr \<lparr>cr_cancelled = won, cr_state = state (fst record),
     cr_cancellation_in_progress = in_progress\<rparr>)"

definition cancel_active :: "engine_env \<Rightarrow> string \<Rightarrow> string \<Rightarrow> CancelResult result job_task" where
  "cancel_active E c reason =
     bind_task (look (\<lambda>w. map_of (w_active w) c)) (\<lambda>runtime.
       case runtime of
         None \<Rightarrow>
           try_task (stored_job E c) (\<lambda>found.
             case found of
               None \<Rightarrow> Return (Inl (rejected CaptureNotFound ''capture does not exist''))
             | Some record \<Rightarrow>
                 if is_terminal (state (fst record)) then cancel_outcome False record False
                 else Return (Inl (rejected DeviceUnavailable
                   ''capture is owned by recovery or an unavailable actor'')))
       | Some r \<Rightarrow>
           bind_task (look (\<lambda>w. et_stage (rt_trace (runtime_of r w)))) (\<lambda>stage.
           bind_task (now_ms E) (\<lambda>now.
           try_task (terminal_write E r Cancelled None (Some (CaptureCancelled, bounded_detail reason)) now None)
             (\<lambda>(write, body).
           try_task (terminal_call E c (cancel_job c write)) (\<lambda>outcome.
             case outcome of
               Won record \<Rightarrow> bind_task (cancel_token r) (\<lambda>_.
                 bind_task (after_terminal E r (fst record) body None) (\<lambda>_.
                   cancel_outcome True record (stage = StageAcquiring)))
             | AlreadyTerminal record \<Rightarrow> bind_task (complete_runtime r) (\<lambda>_. cancel_outcome False record False)
             | InstallationWon record \<Rightarrow> cancel_outcome False record False)))))"

definition rebased_deadlines :: "CaptureJobSpec \<Rightarrow> TimeoutsConfig \<Rightarrow> int \<Rightarrow> JobDeadlines" where
  "rebased_deadlines spec timeouts now =
     (let budget = max 0 (saturate_i64 (dl_terminal_at_ms (sp_deadlines spec) - sp_accepted_at_ms spec))
      in \<lparr>dl_terminal_at_ms = saturate_i64 (now + budget),
          dl_queue_at_ms = dl_queue_at_ms (sp_deadlines spec),
          dl_capture_at_ms = saturate_i64 (now + i64_of_u64 (capture_ms timeouts)),
          dl_encode_at_ms = saturate_i64 (now + i64_of_u64 (encode_ms timeouts)),
          dl_persist_at_ms = saturate_i64 (now + i64_of_u64 (persist_ms timeouts))\<rparr>)"

definition rebase_onto_admission :: "engine_env \<Rightarrow> nat \<Rightarrow> TimeoutsConfig \<Rightarrow> unit result job_task" where
  "rebase_onto_admission E r timeouts =
     bind_task (now_ms E) (\<lambda>now.
     bind_task (look (\<lambda>w. rt_spec (runtime_of r w))) (\<lambda>spec.
     try_task (store_call E (reschedule_deadlines (sp_capture_id spec) (rebased_deadlines spec timeouts now) now))
       (\<lambda>_.
     bind_task (update (on_runtime r (\<lambda>rt. rt\<lparr>rt_deadlines := rebased_deadlines spec timeouts now\<rparr>))) (\<lambda>_.
     bind_task (update (on_runtime r (\<lambda>rt. rt\<lparr>rt_rebased := Suc (rt_rebased rt)\<rparr>))) (\<lambda>_. Return (Inr ()))))))"

text \<open>The reaper of one capture. Every wait that ends and every retry takes one of the steps considered.\<close>

fun reap_retire :: "engine_env \<Rightarrow> nat \<Rightarrow> nat \<Rightarrow> unit job_task" where
  "reap_retire E 0 r = Halt"
| "reap_retire E (Suc n) r =
     bind_task (finish_failure E r CaptureTimeout ''capture exceeded its terminal deadline'') (\<lambda>result.
       case result of
         Inr _ \<Rightarrow> Return ()
       | Inl e \<Rightarrow>
           if is_durable_store_failure e
           then bind_task (look (\<lambda>w. rt_done (runtime_of r w))) (\<lambda>d.
                  if d then Return () else reap_retire E n r)
           else complete_runtime r)"

datatype wakeup = WokenDone | WokenRebased | WokenElapsed | StillWaiting

definition timer_wakeup :: "engine_env \<Rightarrow> nat \<Rightarrow> int \<Rightarrow> nat \<Rightarrow> wakeup job_task" where
  "timer_wakeup E r terminal_at rebased = action (\<lambda>w.
     (if rt_done (runtime_of r w) then WokenDone
      else if rt_rebased (runtime_of r w) \<noteq> rebased then WokenRebased
      else if terminal_at \<le> ee_now E (w_tick w) then WokenElapsed else StillWaiting, next_tick w))"

fun terminal_deadline :: "engine_env \<Rightarrow> nat \<Rightarrow> nat \<Rightarrow> unit job_task"
  and terminal_wait :: "engine_env \<Rightarrow> nat \<Rightarrow> nat \<Rightarrow> int \<Rightarrow> nat \<Rightarrow> unit job_task" where
  "terminal_deadline E 0 r = Halt"
| "terminal_deadline E (Suc n) r =
     bind_task (look (\<lambda>w. dl_terminal_at_ms (rt_deadlines (runtime_of r w)))) (\<lambda>terminal_at.
     bind_task (look (\<lambda>w. rt_rebased (runtime_of r w))) (\<lambda>rebased. terminal_wait E n r terminal_at rebased))"
| "terminal_wait E 0 r terminal_at rebased = Halt"
| "terminal_wait E (Suc n) r terminal_at rebased =
     bind_task (timer_wakeup E r terminal_at rebased) (\<lambda>woken.
       case woken of
         WokenDone \<Rightarrow> Return ()
       | WokenRebased \<Rightarrow> terminal_deadline E n r
       | StillWaiting \<Rightarrow> terminal_wait E n r terminal_at rebased
       | WokenElapsed \<Rightarrow>
           bind_task (look (\<lambda>w. terminal_at < dl_terminal_at_ms (rt_deadlines (runtime_of r w)))) (\<lambda>moved.
             if moved then terminal_deadline E n r else reap_retire E n r))"

section \<open>Recovery\<close>

definition unregistered_runtime :: "CaptureJobSpec \<Rightarrow> nat job_task" where
  "unregistered_runtime spec = action (\<lambda>w. (length (w_runtimes w),
     w\<lparr>w_runtimes := w_runtimes w @ [fresh_runtime spec (bare_camera (cm_backend (sp_camera spec)))]\<rparr>))"

definition interrupt_nonterminal :: "engine_env \<Rightarrow> JobRecord \<Rightarrow> string \<Rightarrow> JobRecord result job_task" where
  "interrupt_nonterminal E record message =
     (let row = fst record in
      if is_terminal (state row) \<or> install_started row
      then Return (Inl (CatalogError ''interruption recovery requires a non-terminal, non-install-owned job''))
      else case spec_from_record E row None (map_option (\<lambda>_. 1) (job_group_id row)) of
        Inl e \<Rightarrow> Return (Inl e)
      | Inr spec \<Rightarrow>
          bind_task (unregistered_runtime spec) (\<lambda>r.
          bind_task (now_ms E) (\<lambda>now.
          try_task (terminal_write E r Interrupted None (Some (ProcessInterrupted, message)) now None) (\<lambda>(write, body).
          try_task (terminal_call E (capture_id row)
              (Catalog_Jobs.interrupt_recovered (capture_id row) [state row] write)) (\<lambda>outcome.
            case outcome of
              Won done_record \<Rightarrow> bind_task (announce_terminal E (fst done_record) body None) (\<lambda>_.
                bind_task (settle E (fst done_record) body) (\<lambda>_. Return (Inr done_record)))
            | AlreadyTerminal done_record \<Rightarrow>
                bind_task (settle E (fst done_record) body) (\<lambda>_. Return (Inr done_record))
            | InstallationWon _ \<Rightarrow>
                Return (Inl (CatalogError ''interruption recovery lost to installation arbitration'')))))))"

definition engine_interrupt_recovered :: "engine_env \<Rightarrow> JobRecord \<Rightarrow> JobRecord result job_task" where
  "engine_interrupt_recovered E record =
     interrupt_nonterminal E record ''capture was interrupted by process restart''"

definition interrupt_for_reload :: "engine_env \<Rightarrow> JobRecord \<Rightarrow> JobRecord result job_task" where
  "interrupt_for_reload E record =
     interrupt_nonterminal E record ''capture was interrupted by configuration reload''"

definition requeue_recovered ::
    "engine_env \<Rightarrow> JobRecord \<Rightarrow> string option \<Rightarrow> nat option \<Rightarrow> CapturePriority \<Rightarrow> JobRecord result job_task" where
  "requeue_recovered E record resource_group group_size priority =
     (let row = fst record in
      if state row \<noteq> Queued \<or> install_started row
      then Return (Inl (CatalogError ''only a QUEUED capture may be requeued after a restart''))
      else case spec_from_record E row resource_group group_size of
        Inl e \<Rightarrow> Return (Inl e)
      | Inr spec \<Rightarrow> queue_preaccepted E \<lparr>
          sub_job = \<lparr>nj_capture_id = capture_id row, nj_instance = instance_of row, nj_ledger_key = None,
            nj_canonical_request = canonical_request row, nj_request_hash = request_hash row,
            nj_effective_profile = effective_profile row, nj_deadlines = deadlines row,
            nj_trigger = trigger row, nj_origin_correlation_id = origin_correlation_id row,
            nj_intended_output = intended_output row, nj_accepted_at_ms = accepted_at_ms row,
            nj_group_id = job_group_id row\<rparr>,
          sub_spec = spec, sub_priority = priority\<rparr>)"

definition recovery_request :: "JobRecord \<Rightarrow> (RecoveryRequest \<times> string \<times> u64 \<times> TerminalWrite) result" where
  "recovery_request record =
     (let row = fst record in
      and_then (ok_or (expected_sha256 row) (CatalogError ''recovery record lacks expected sha256'')) (\<lambda>sha.
      and_then (ok_or (expected_bytes row) (CatalogError ''recovery record lacks expected byte count'')) (\<lambda>bytes.
      and_then (ok_or (snd record) (CatalogError ''recovery record lacks its exact pending success write'')) (\<lambda>pend.
      and_then (ok_or (str_field (intended_output row) ''relativePath'')
        (CatalogError ''recovery record lacks relativePath'')) (\<lambda>wire.
      and_then (from_stored wire) (\<lambda>path. Inr (\<lparr>
        rr_capture_id = capture_id row, rr_relative_path = path, rr_expected_bytes = unat bytes,
        rr_expected_sha256 = sha,
        rr_sidecar_body =
          (case Option.bind (object_get (tw_result pend) ''image'') (\<lambda>img. object_get img ''metadataSidecarRelativePath'') of
             None \<Rightarrow> None
           | Some v \<Rightarrow> if v = JNull then None else Some (tw_result pend))\<rparr>, sha, bytes, pend)))))))"

definition finish_recovery :: "engine_env \<Rightarrow> string \<Rightarrow> TerminalWrite \<Rightarrow> JobRecord \<Rightarrow> JobRecord result job_task" where
  "finish_recovery E c pend recorded =
     (if snd recorded = None then Return (Inl (CatalogError ''recovery lost its staged terminal write''))
      else if snd recorded \<noteq> Some pend
      then Return (Inl (CatalogError ''reloaded staged terminal write changed during recovery''))
      else try_task (terminal_call E c (commit_terminal c pend)) (\<lambda>outcome.
        case outcome of
          Won terminal \<Rightarrow> bind_task (announce_terminal E (fst terminal) (tw_result pend) None) (\<lambda>_.
            bind_task (settle E (fst terminal) (tw_result pend)) (\<lambda>_. Return (Inr terminal)))
        | AlreadyTerminal terminal \<Rightarrow>
            bind_task (settle E (fst terminal) (tw_result pend)) (\<lambda>_. Return (Inr terminal))
        | InstallationWon _ \<Rightarrow> Return (Inl (CatalogError
            ''success recovery unexpectedly observed cancellation arbitration''))))"

definition recover_install_started :: "engine_env \<Rightarrow> JobRecord \<Rightarrow> JobRecord result job_task" where
  "recover_install_started E record =
     (let row = fst record; c = capture_id (fst record) in
      if state row \<noteq> Persisting \<or> \<not> install_started row
      then Return (Inl (CatalogError ''install recovery requires PERSISTING with install_started=true''))
      else case recovery_request record of
        Inl e \<Rightarrow> Return (Inl e)
      | Inr (request, sha, bytes, pend) \<Rightarrow>
          try_task (answer (ee_acquire_writer E)) (\<lambda>_.
          try_task (answer (\<lambda>k. ee_reconcile E k request)) (\<lambda>recovery.
            if recovery = MissingArtifactsCleaned
            then Return (Inl (StorageError
                   ''no verified artifact remained; recovery must commit a failure envelope''))
            else bind_task (now_ms E) (\<lambda>now.
              try_task (store_call E (record_installed_artifact c sha bytes now)) (finish_recovery E c pend)))))"

end
