(* ===== verification/Jobs_Announce.thy ===== *)
theory Jobs_Announce
  imports Jobs
begin

text \<open>
  What holds of the job engine however its operations interleave: every announcement follows the durable
  terminal result it announces, no capture is announced twice, and an operation that ends a capture
  releases its runtime. Winning the terminal transaction of a capture earns the right to
  announce it once; a delivered announcement spends that right.
\<close>

declare split_paired_All [simp del] split_paired_Ex [simp del]

section \<open>The discipline\<close>

definition wins :: "event list \<Rightarrow> string multiset" where
  "wins es = mset (List.map_filter (\<lambda>e. case e of TerminalWon c \<Rightarrow> Some c | _ \<Rightarrow> None) es)"

definition deliveries :: "event list \<Rightarrow> string multiset" where
  "deliveries es = mset (List.map_filter (\<lambda>e. case e of Delivered c _ \<Rightarrow> Some c | _ \<Rightarrow> None) es)"

lemma wins_append [simp]: "wins (es @ es') = wins es + wins es'"
  by (simp add: wins_def map_filter_def)

lemma deliveries_append [simp]: "deliveries (es @ es') = deliveries es + deliveries es'"
  by (simp add: deliveries_def map_filter_def)

text \<open>The row of a decided capture, and the messages that announce it: the committed body, with or
  without a preview.\<close>

definition decided :: "string \<Rightarrow> world \<Rightarrow> JobRow option" where
  "decided c w = filter_option (\<lambda>row. is_terminal (state row)) (select_row capture_id c (jobs (w_catalog w)))"

definition announces :: "JobRow \<Rightarrow> TerminalMessage \<Rightarrow> bool" where
  "announces row m \<longleftrightarrow> (\<exists>kind body base. terminal_kind (state row) = Inr kind \<and> terminal_result row = Some body \<and>
     from_committed_body kind body = Inr base \<and> (m = base \<or> (\<exists>t. with_thumbnail base t = Inr m)))"

definition log_sound :: "world \<Rightarrow> bool" where
  "log_sound w \<longleftrightarrow>
     (\<forall>c m. Delivered c m \<in> set (w_log w) \<longrightarrow> (\<exists>row. decided c w = Some row \<and> announces row m)) \<and>
     (\<forall>c. c \<in># wins (w_log w) \<longrightarrow> decided c w \<noteq> None) \<and> (\<forall>c. count (wins (w_log w)) c \<le> 1)"

definition world_inv :: "world \<Rightarrow> bool" where
  "world_inv w \<longleftrightarrow> catalog_inv (w_catalog w) \<and> log_sound w"

definition runtime_grows :: "JobRuntime \<Rightarrow> JobRuntime \<Rightarrow> bool" where
  "runtime_grows rt rt' \<longleftrightarrow> rt_spec rt' = rt_spec rt \<and> (rt_done rt \<longrightarrow> rt_done rt') \<and>
     (rt_cancellation rt \<longrightarrow> rt_cancellation rt')"

definition runtimes_grow :: "world \<Rightarrow> world \<Rightarrow> bool" where
  "runtimes_grow w w' \<longleftrightarrow> length (w_runtimes w) \<le> length (w_runtimes w') \<and>
     (\<forall>r < length (w_runtimes w). runtime_grows (w_runtimes w ! r) (w_runtimes w' ! r))"

definition world_rel :: "world \<Rightarrow> world \<Rightarrow> bool" where
  "world_rel w w' \<longleftrightarrow> (\<forall>c row. decided c w = Some row \<longrightarrow> decided c w' = Some row) \<and> runtimes_grow w w' \<and>
     (\<exists>es. w_log w' = w_log w @ es)"

definition engine_discipline :: "(world, string) discipline" where
  "engine_discipline = \<lparr>d_inv = world_inv, d_rel = world_rel, d_earned = (\<lambda>w. wins (w_log w)),
     d_spent = (\<lambda>w. deliveries (w_log w))\<rparr>"

lemma engine_discipline_simps [simp]:
  "d_inv engine_discipline = world_inv" "d_rel engine_discipline = world_rel"
  "d_earned engine_discipline w = wins (w_log w)" "d_spent engine_discipline w = deliveries (w_log w)"
  by (simp_all add: engine_discipline_def)

abbreviation lasting :: "(world \<Rightarrow> bool) \<Rightarrow> bool" where
  "lasting \<equiv> stable world_rel"

definition finished :: "nat \<Rightarrow> world \<Rightarrow> bool" where
  "finished r w \<longleftrightarrow> r < length (w_runtimes w) \<and> rt_done (w_runtimes w ! r)"

definition known :: "nat \<Rightarrow> world \<Rightarrow> bool" where
  "known r w \<longleftrightarrow> r < length (w_runtimes w)"

definition won_by :: "JobRecord \<Rightarrow> string \<Rightarrow> json \<Rightarrow> world \<Rightarrow> bool" where
  "won_by rec c body w \<longleftrightarrow> decided c w = Some (fst rec) \<and> capture_id (fst rec) = c \<and>
     terminal_result (fst rec) = Some body"

lemma lasting_finished: "lasting (finished r)"
  by (auto simp: stable_def finished_def world_rel_def runtimes_grow_def runtime_grows_def)

lemma lasting_known: "lasting (known r)"
  by (auto simp: stable_def known_def world_rel_def runtimes_grow_def)

lemma lasting_won: "lasting (won_by rec c body)"
  by (auto simp: stable_def won_by_def world_rel_def)

lemma lasting_conj: "lasting P \<Longrightarrow> lasting Q \<Longrightarrow> lasting (\<lambda>w. P w \<and> Q w)"
  by (auto simp: stable_def)

lemma lasting_imp: "lasting P \<Longrightarrow> lasting (\<lambda>w. a \<longrightarrow> P w)"
  by (auto simp: stable_def)

lemma runtimes_grow_same: "w_runtimes w' = w_runtimes w \<Longrightarrow> runtimes_grow w w'"
  by (simp add: runtimes_grow_def runtime_grows_def)

section \<open>Kinds of tasks\<close>

text \<open>
  A silent task keeps its rights and every lasting fact. An entitled task may rely on one more fact and
  one more right; the results it names come with the release of the runtime.
\<close>

definition silent :: "'a job_task \<Rightarrow> bool" where
  "silent t \<longleftrightarrow> (\<forall>n P. lasting P \<longrightarrow> sat engine_discipline (\<lambda>_ m s. m = n \<and> P s) n P t)"

definition entitled ::
    "nat \<Rightarrow> (world \<Rightarrow> bool) \<Rightarrow> string multiset \<Rightarrow> ('a \<Rightarrow> bool) \<Rightarrow> 'a job_task \<Rightarrow> bool" where
  "entitled r A u F t \<longleftrightarrow> (\<forall>n P. lasting P \<longrightarrow> u \<subseteq># n \<longrightarrow>
     sat engine_discipline (\<lambda>a _ s. P s \<and> ((\<forall>s. P s \<longrightarrow> known r s) \<longrightarrow> F a \<longrightarrow> finished r s)) n
       (\<lambda>s. P s \<and> A s) t)"

abbreviation neutral :: "nat \<Rightarrow> 'a job_task \<Rightarrow> bool" where
  "neutral r \<equiv> entitled r (\<lambda>_. True) {#} (\<lambda>_. False)"

abbreviation finishing :: "nat \<Rightarrow> 'a result job_task \<Rightarrow> bool" where
  "finishing r \<equiv> entitled r (\<lambda>_. True) {#} (\<lambda>res. \<not> isl res)"

lemma entitledI:
  "(\<And>n P. lasting P \<Longrightarrow> u \<subseteq># n \<Longrightarrow>
     sat engine_discipline (\<lambda>a _ s. P s \<and> ((\<forall>s. P s \<longrightarrow> known r s) \<longrightarrow> F a \<longrightarrow> finished r s)) n
       (\<lambda>s. P s \<and> A s) t) \<Longrightarrow> entitled r A u F t"
  by (simp add: entitled_def)

lemma entitledD:
  "entitled r A u F t \<Longrightarrow> lasting P \<Longrightarrow> u \<subseteq># n \<Longrightarrow>
     sat engine_discipline (\<lambda>a _ s. P s \<and> ((\<forall>s. P s \<longrightarrow> known r s) \<longrightarrow> F a \<longrightarrow> finished r s)) n
       (\<lambda>s. P s \<and> A s) t"
  by (simp add: entitled_def)

lemma entitled_weaken:
  assumes "entitled r A u F t" and "\<And>s. A' s \<Longrightarrow> A s" and "u \<subseteq># u'" and "\<And>a. F' a \<Longrightarrow> F a"
  shows "entitled r A' u' F' t"
proof (rule entitledI)
  fix n P assume P: "lasting P" "u' \<subseteq># n"
  have "u \<subseteq># n" using assms(3) P(2) by (rule subset_mset.order_trans)
  note t = entitledD [OF assms(1) P(1) this]
  show "sat engine_discipline (\<lambda>a _ s. P s \<and> ((\<forall>s. P s \<longrightarrow> known r s) \<longrightarrow> F' a \<longrightarrow> finished r s)) n
       (\<lambda>s. P s \<and> A' s) t"
    by (rule sat_post [OF sat_pre [OF t]]) (use assms(2,4) in blast)+
qed

lemma silent_then:
  assumes "silent t" and "\<And>a. entitled r A u F (f a)" and "lasting A"
  shows "entitled r A u F (bind_task t f)"
proof (rule entitledI)
  fix n P assume P: "lasting P" "u \<subseteq># n"
  have "sat engine_discipline (\<lambda>_ m s. m = n \<and> P s \<and> A s) n (\<lambda>s. P s \<and> A s) t"
    using assms(1) lasting_conj [OF P(1) assms(3)] by (simp add: silent_def)
  then show "sat engine_discipline (\<lambda>a _ s. P s \<and> ((\<forall>s. P s \<longrightarrow> known r s) \<longrightarrow> F a \<longrightarrow> finished r s)) n
       (\<lambda>s. P s \<and> A s) (bind_task t f)"
  proof (rule sat_bind)
    fix a m
    show "sat engine_discipline (\<lambda>a _ s. P s \<and> ((\<forall>s. P s \<longrightarrow> known r s) \<longrightarrow> F a \<longrightarrow> finished r s)) m
       (\<lambda>s. m = n \<and> P s \<and> A s) (f a)"
      using entitledD [OF assms(2) P] by (cases "m = n") (auto intro: sat_pre sat_false)
  qed
qed

lemma neutral_then:
  assumes "neutral r t" and "\<And>a. entitled r (\<lambda>_. True) {#} F (f a)"
  shows "entitled r (\<lambda>_. True) {#} F (bind_task t f)"
proof (rule entitledI)
  fix n :: "string multiset" and P assume P: "lasting P" "{#} \<subseteq># n"
  show "sat engine_discipline (\<lambda>a _ s. P s \<and> ((\<forall>s. P s \<longrightarrow> known r s) \<longrightarrow> F a \<longrightarrow> finished r s)) n
       (\<lambda>s. P s \<and> True) (bind_task t f)"
    by (rule sat_bind [OF entitledD [OF assms(1) P]])
      (use entitledD [OF assms(2) P(1)] in simp)
qed

text \<open>Once the runtime is released it stays so.\<close>

lemma released_then:
  assumes "entitled r A u (\<lambda>_. True) t" and "\<And>a. neutral r (f a)"
  shows "entitled r A u F (bind_task t f)"
proof (rule entitledI)
  fix n P assume P: "lasting P" "u \<subseteq># n"
  let ?P = "\<lambda>s. P s \<and> ((\<forall>s. P s \<longrightarrow> known r s) \<longrightarrow> finished r s)"
  have "lasting ?P" by (intro lasting_conj lasting_imp P(1) lasting_finished)
  have t: "sat engine_discipline (\<lambda>_ _. ?P) n (\<lambda>s. P s \<and> A s) t"
    using entitledD [OF assms(1) P] by simp
  show "sat engine_discipline (\<lambda>a _ s. P s \<and> ((\<forall>s. P s \<longrightarrow> known r s) \<longrightarrow> F a \<longrightarrow> finished r s)) n
       (\<lambda>s. P s \<and> A s) (bind_task t f)"
  proof (rule sat_bind [OF t])
    fix a m
    show "sat engine_discipline (\<lambda>a _ s. P s \<and> ((\<forall>s. P s \<longrightarrow> known r s) \<longrightarrow> F a \<longrightarrow> finished r s)) m ?P (f a)"
      by (rule sat_post [OF sat_pre [OF entitledD [OF assms(2) \<open>lasting ?P\<close>]]]) auto
  qed
qed

lemma entitled_return: "(\<And>s. A s \<Longrightarrow> F a \<Longrightarrow> False) \<Longrightarrow> entitled r A u F (Return a)"
  by (rule entitledI) (auto intro!: sat_return)

lemma entitled_halt: "entitled r A u F Halt"
  by (rule entitledI) (rule sat_halt)

lemma silent_neutral: "silent t \<Longrightarrow> neutral r t"
  by (rule entitledI) (auto simp: silent_def intro: sat_post)

section \<open>Actions\<close>

definition quiet_event :: "event \<Rightarrow> bool" where
  "quiet_event e \<longleftrightarrow> (case e of TerminalWon _ \<Rightarrow> False | Delivered _ _ \<Rightarrow> False | _ \<Rightarrow> True)"

lemma quiet_events:
  "list_all quiet_event es \<Longrightarrow> wins es = {#}" "list_all quiet_event es \<Longrightarrow> deliveries es = {#}"
  "list_all quiet_event es \<Longrightarrow> Delivered c m \<notin> set es"
  by (induction es) (auto simp: wins_def deliveries_def map_filter_def quiet_event_def split: event.splits)

definition quiet_step :: "world \<Rightarrow> world \<Rightarrow> bool" where
  "quiet_step w w' \<longleftrightarrow> catalog_inv (w_catalog w') \<and> (\<forall>c row. decided c w = Some row \<longrightarrow> decided c w' = Some row) \<and>
     runtimes_grow w w' \<and> (\<exists>es. list_all quiet_event es \<and> w_log w' = w_log w @ es)"

lemma quiet_step_good:
  assumes "world_inv w" and "quiet_step w w'"
  shows "good_step engine_discipline n n w w'"
proof -
  obtain es where es: "list_all quiet_event es" "w_log w' = w_log w @ es" and kept: "\<And>c row. decided c w = Some row \<Longrightarrow> decided c w' = Some row"
    and grow: "runtimes_grow w w'" and inv: "catalog_inv (w_catalog w')"
    using assms(2) unfolding quiet_step_def by blast
  have same: "wins (w_log w') = wins (w_log w)" "deliveries (w_log w') = deliveries (w_log w)"
    using es by (simp_all add: quiet_events)
  have "Delivered c m \<in> set (w_log w') \<Longrightarrow> Delivered c m \<in> set (w_log w)" for c m
    using es quiet_events(3) by auto
  then have "log_sound w'"
    using assms(1) kept unfolding world_inv_def log_sound_def same by (metis option.distinct(1) option.exhaust)
  then show ?thesis using inv kept grow es(2) same by (auto simp: good_step_def world_rel_def world_inv_def)
qed

lemma silent_action:
  assumes "\<And>w. world_inv w \<Longrightarrow> quiet_step w (snd (f w))"
  shows "silent (action f)"
  unfolding silent_def
proof (intro allI impI sat_action)
  fix n P s assume P: "lasting P" and s: "d_inv engine_discipline s" "P s"
  have "good_step engine_discipline n n s (snd (f s))" using assms s(1) by (intro quiet_step_good) auto
  moreover have "P (snd (f s))" using P s(2) calculation by (auto simp: good_step_def stable_def)
  moreover have "lasting (\<lambda>s. n = n \<and> P s)" using P by simp
  ultimately show "\<exists>n'. good_step engine_discipline n n' s (snd (f s)) \<and>
      stable (d_rel engine_discipline) (\<lambda>s. n' = n \<and> P s) \<and> n' = n \<and> P (snd (f s))"
    by auto
qed

lemma decided_cong: "w_catalog w' = w_catalog w \<Longrightarrow> decided c w' = decided c w"
  by (simp add: decided_def)

lemma quiet_local:
  assumes "world_inv w" and "w_catalog w' = w_catalog w" and "runtimes_grow w w'" and "w_log w' = w_log w"
  shows "quiet_step w w'"
  using assms unfolding quiet_step_def by (auto simp: world_inv_def decided_cong [OF assms(2)] intro!: exI [of _ "[]"])

lemma next_tick_simps [simp]:
  "w_catalog (next_tick w) = w_catalog w" "w_runtimes (next_tick w) = w_runtimes w"
  "w_log (next_tick w) = w_log w" "w_active (next_tick w) = w_active w"
  by (simp_all add: next_tick_def)

lemma logged_simps [simp]:
  "w_catalog (logged es w) = w_catalog w" "w_runtimes (logged es w) = w_runtimes w"
  "w_log (logged es w) = w_log w @ es"
  by (simp_all add: logged_def)

lemma on_runtime_simps [simp]:
  "w_catalog (on_runtime r f w) = w_catalog w" "w_log (on_runtime r f w) = w_log w"
  "w_catalog (on_trace r g w) = w_catalog w" "w_log (on_trace r g w) = w_log w"
  by (simp_all add: on_runtime_def on_trace_def)

lemma on_runtime_grows:
  assumes "\<And>rt. runtime_grows rt (f rt)"
  shows "runtimes_grow w (on_runtime r f w)"
proof -
  have "runtime_grows (w_runtimes w ! i) ((w_runtimes w)[r := f (w_runtimes w ! r)] ! i)"
    if "i < length (w_runtimes w)" for i
    using that assms by (cases "i = r") (auto simp: runtime_grows_def)
  then show ?thesis by (simp add: runtimes_grow_def on_runtime_def)
qed

lemma on_trace_grows: "runtimes_grow w (on_trace r g w)"
  unfolding on_trace_def by (rule on_runtime_grows) (simp add: runtime_grows_def)

named_theorems silent_rules

lemma silent_answer [silent_rules]: "silent (answer f)"
  unfolding answer_def by (rule silent_action) (auto intro!: quiet_local runtimes_grow_same)

lemma silent_now [silent_rules]: "silent (now_ms E)"
  unfolding now_ms_def by (rule silent_answer)

lemma silent_look [silent_rules]: "silent (look f)"
  unfolding look_def by (rule silent_action) (auto intro!: quiet_local runtimes_grow_same)

lemma silent_note [silent_rules]: "quiet_event e \<Longrightarrow> silent (note_event e)"
  unfolding note_event_def update_def
  by (rule silent_action)
    (auto simp: quiet_step_def world_inv_def decided_def intro: runtimes_grow_same intro!: exI [of _ "[e]"])

lemma silent_cancel_token [silent_rules]: "silent (cancel_token r)"
  unfolding cancel_token_def update_def
  by (rule silent_action) (auto intro!: quiet_local on_runtime_grows simp: runtime_grows_def)

lemma silent_on_trace [silent_rules]: "silent (update (on_trace r g))"
  unfolding update_def by (rule silent_action) (auto intro!: quiet_local on_trace_grows)

lemma silent_on_runtime [silent_rules]: "(\<And>rt. runtime_grows rt (f rt)) \<Longrightarrow> silent (update (on_runtime r f))"
  unfolding update_def by (rule silent_action) (auto intro!: quiet_local on_runtime_grows)

lemma silent_terminal_write [silent_rules]: "silent (terminal_write E r st success err t p)"
  unfolding terminal_write_def by (rule silent_action) (auto intro!: quiet_local runtimes_grow_same)

section \<open>Transactions\<close>

text \<open>A transaction is lawful when it is one of the catalog's, or reads only.\<close>

definition lawful :: "engine_env \<Rightarrow> (catalog \<Rightarrow> catalog \<times> 'a result) \<Rightarrow> bool" where
  "lawful E f \<longleftrightarrow> (\<forall>db. fst (f db) = db \<or> (\<exists>op. fst (f db) = exec_lifecycle (ee_category E) db op))"

lemma decided_kept:
  assumes "catalog_inv db" and "w_catalog w = db" and "w_catalog w' = exec_lifecycle cat db op" and "decided c w = Some row"
  shows "decided c w' = Some row"
proof -
  have row: "select_row capture_id c (jobs db) = Some row" "is_terminal (state row)"
    using assms(2,4) by (auto simp: decided_def filter_option_def split: option.splits if_splits)
  then have "capture_id row = c" using select_row_Some by metis
  then have "select_row capture_id c (jobs (exec_lifecycle cat db op)) = Some row"
    using terminal.exec_fact [OF assms(1), of row] row by blast
  then show ?thesis using row(2) assms(3) by (simp add: decided_def filter_option_def)
qed

lemma lawful_step:
  assumes "lawful E f" and "world_inv w" and "w_catalog w' = fst (f (w_catalog w))"
  shows "catalog_inv (w_catalog w') \<and> (\<forall>c row. decided c w = Some row \<longrightarrow> decided c w' = Some row)"
proof -
  have inv: "catalog_inv (w_catalog w)" using assms(2) by (simp add: world_inv_def)
  consider "w_catalog w' = w_catalog w" | op where "w_catalog w' = exec_lifecycle (ee_category E) (w_catalog w) op"
    using assms(1,3) unfolding lawful_def by metis
  then show ?thesis
  proof cases
    case 1
    then show ?thesis using inv decided_cong by metis
  next
    case 2
    then show ?thesis using inv lifecycle_inv decided_kept by metis
  qed
qed

lemma lawful_quiet:
  assumes "lawful E f" and "world_inv w" and "w_catalog w' = fst (f (w_catalog w)) \<or> w_catalog w' = w_catalog w"
    and "runtimes_grow w w'" and "w_log w' = w_log w"
  shows "quiet_step w w'"
proof -
  have "catalog_inv (w_catalog w') \<and> (\<forall>c row. decided c w = Some row \<longrightarrow> decided c w' = Some row)"
    using assms(3) lawful_step [OF assms(1,2)] assms(2) decided_cong unfolding world_inv_def by metis
  then show ?thesis using assms(4,5) by (auto simp: quiet_step_def intro!: exI [of _ "[]"])
qed

lemma silent_store_call [silent_rules]: "lawful E f \<Longrightarrow> silent (store_call E f)"
  unfolding store_call_def transact_def
  by (rule silent_action)
    (auto split: option.splits sum.splits intro!: lawful_quiet runtimes_grow_same)

lemma lawful_read: "lawful E (\<lambda>db. (db, x db))"
  by (simp add: lawful_def)

lemma lawful_ops:
  "lawful E (accept_job (ee_category E) job)" "lawful E (queue_job c t)"
  "lawful E (compare_and_set_state c a b t)" "lawful E (reschedule_deadlines c d t)"
  "lawful E (begin_persisting c pend)" "lawful E (try_begin_install c t)"
  "lawful E (record_installed_artifact c sha n t)" "lawful E (commit_terminal c write)"
  "lawful E (cancel_job c write)" "lawful E (Catalog_Jobs.interrupt_recovered c states write)"
  "lawful E (complete_group g st body code message t)" "lawful E (add_waiter waiter)"
  "lawful E (\<lambda>db. (fst (remove_waiter wid db), found db))"
  unfolding lawful_def by (metis exec_lifecycle.simps fst_conv)+

lemma silent_stored_job [silent_rules]: "silent (stored_job E c)"
  unfolding stored_job_def by (rule silent_store_call) (rule lawful_read)

lemmas silent_ops [silent_rules] = lawful_ops [THEN silent_store_call]

section \<open>Winning and announcing\<close>

definition decides :: "engine_env \<Rightarrow> string \<Rightarrow> json \<Rightarrow> (catalog \<Rightarrow> catalog \<times> TerminalOutcome result) \<Rightarrow> bool" where
  "decides E c body f \<longleftrightarrow> lawful E f \<and> (\<forall>db rec. snd (f db) = Inr (Won rec) \<longrightarrow>
     (\<exists>row. select_row capture_id c (jobs db) = Some row \<and> \<not> is_terminal (state row)) \<and>
     select_row capture_id c (jobs (fst (f db))) = Some (fst rec) \<and> capture_id (fst rec) = c \<and>
     is_terminal (state (fst rec)) \<and> terminal_result (fst rec) = Some body)"

lemma decidesD:
  assumes "decides E c body f" and "snd (f db) = Inr (Won rec)"
  shows "\<exists>row. select_row capture_id c (jobs db) = Some row \<and> \<not> is_terminal (state row)"
    and "select_row capture_id c (jobs (fst (f db))) = Some (fst rec)" and "capture_id (fst rec) = c"
    and "is_terminal (state (fst rec))" and "terminal_result (fst rec) = Some body"
  using assms unfolding decides_def by blast+

lemma blocking_decides:
  assumes "terminal_blocking c w cancellation states db = Inr (db', Won rec)" and "is_terminal (tw_state w)"
  shows "(\<exists>row. select_row capture_id c (jobs db) = Some row \<and> \<not> is_terminal (state row)) \<and>
     select_row capture_id c (jobs db') = Some (fst rec) \<and> capture_id (fst rec) = c \<and>
     is_terminal (state (fst rec)) \<and> terminal_result (fst rec) = Some (tw_result w)"
  using terminal_won [OF assms(1)] won_row [OF assms(1)] assms(2) by auto

lemma guarded_decides:
  assumes "\<And>db. f db = (case guard of Inl e \<Rightarrow> (db, Inl e) | Inr _ \<Rightarrow> commit (terminal_blocking c w x y) db)"
    and "guard = Inr () \<Longrightarrow> is_terminal (tw_state w)" and "lawful E f"
  shows "decides E c (tw_result w) f"
  unfolding decides_def
proof (intro conjI allI impI assms(3))
  fix db rec assume "snd (f db) = Inr (Won rec)"
  then have "(case guard of Inl e \<Rightarrow> (db, Inl e) | Inr _ \<Rightarrow> commit (terminal_blocking c w x y) db) =
      (fst (f db), Inr (Won rec))" using assms(1) by (metis prod.collapse)
  from guarded_outcome [OF this] have g: "guard = Inr ()"
    and b: "terminal_blocking c w x y db = Inr (fst (f db), Won rec)" by auto
  show "\<exists>row. select_row capture_id c (jobs db) = Some row \<and> \<not> is_terminal (state row)"
    and "select_row capture_id c (jobs (fst (f db))) = Some (fst rec)" and "capture_id (fst rec) = c"
    and "is_terminal (state (fst rec))" and "terminal_result (fst rec) = Some (tw_result w)"
    using blocking_decides [OF b assms(2) [OF g]] by auto
qed

lemma decides_ops:
  "decides E c (tw_result w) (commit_terminal c w)" "decides E c (tw_result w) (cancel_job c w)"
  "decides E c (tw_result w) (Catalog_Jobs.interrupt_recovered c states w)"
  by (rule guarded_decides, simp only: commit_terminal_def cancel_job_def Catalog_Jobs.interrupt_recovered_def,
      auto simp: and_then_Inr_iff lawful_ops intro: validate_terminal_state)+

lemma terminal_step:
  assumes "decides E c body f" and "world_inv w" and "ee_store_fault E (w_tick w) = None"
    and "snd (f (w_catalog w)) = Inr (Won rec)"
    and w': "w' = logged [TerminalWon c] (next_tick (w\<lparr>w_catalog := fst (f (w_catalog w))\<rparr>))"
  shows "good_step engine_discipline n (add_mset c n) w w' \<and> won_by rec c body w'"
proof -
  have law: "lawful E f" and before: "decided c w = None"
    and after: "decided c w' = Some (fst rec)" "capture_id (fst rec) = c" "terminal_result (fst rec) = Some body"
    using decidesD [OF assms(1,4)] assms(1) unfolding w'
    by (auto simp: decides_def decided_def filter_option_def)
  have keep: "catalog_inv (w_catalog w')" "\<And>d row. decided d w = Some row \<Longrightarrow> decided d w' = Some row"
    using lawful_step [OF law assms(2), of w'] w' by auto
  have log: "w_log w' = w_log w @ [TerminalWon c]" by (simp add: w')
  have new: "wins (w_log w') = add_mset c (wins (w_log w))" "deliveries (w_log w') = deliveries (w_log w)"
    unfolding log by (simp_all add: wins_def deliveries_def map_filter_def)
  have old: "log_sound w" using assms(2) by (simp add: world_inv_def)
  then have "c \<notin># wins (w_log w)" using before by (auto simp: log_sound_def)
  then have "count (wins (w_log w')) d \<le> 1" for d
    using old by (cases "d = c") (auto simp: new log_sound_def not_in_iff)
  moreover have "decided d w' \<noteq> None" if "d \<in># wins (w_log w')" for d
    using that after(1) old keep(2) unfolding new log_sound_def by (cases "d = c") auto
  moreover have "\<exists>row. decided d w' = Some row \<and> announces row m" if "Delivered d m \<in> set (w_log w')" for d m
  proof -
    have "Delivered d m \<in> set (w_log w)" using that by (simp add: log)
    then show ?thesis using old keep(2) unfolding log_sound_def by metis
  qed
  ultimately have "world_inv w'" using keep(1) by (auto simp: world_inv_def log_sound_def)
  moreover have "runtimes_grow w w'" by (simp add: w' runtimes_grow_same)
  ultimately have "good_step engine_discipline n (add_mset c n) w w'"
    using keep(2) log new by (auto simp: good_step_def world_rel_def)
  then show ?thesis using after by (simp add: won_by_def)
qed

lemma sat_terminal_call:
  assumes "decides E c body f" and P: "lasting P"
  shows "sat engine_discipline
    (\<lambda>res m s. P s \<and> (\<forall>rec. res = Inr (Won rec) \<longrightarrow> c \<in># m \<and> won_by rec c body s)) n P (terminal_call E c f)"
  unfolding terminal_call_def transact_def
proof (rule sat_action)
  fix w assume w: "d_inv engine_discipline w" "P w"
  let ?ev = "\<lambda>outcome. case outcome of Won _ \<Rightarrow> [TerminalWon c] | _ \<Rightarrow> []"
  let ?step = "\<lambda>w. case ee_store_fault E (w_tick w) of
       None \<Rightarrow> (snd (f (w_catalog w)), logged (case snd (f (w_catalog w)) of Inl _ \<Rightarrow> [] | Inr a \<Rightarrow> ?ev a)
            (next_tick (w\<lparr>w_catalog := fst (f (w_catalog w))\<rparr>)))
     | Some (e, applied) \<Rightarrow> (Inl e, next_tick (if applied then w\<lparr>w_catalog := fst (f (w_catalog w))\<rparr> else w))"
  let ?Q = "\<lambda>res m s. P s \<and> (\<forall>rec. res = Inr (Won rec) \<longrightarrow> c \<in># m \<and> won_by rec c body s)"
  show "\<exists>n'. good_step engine_discipline n n' w (snd (?step w)) \<and>
      stable (d_rel engine_discipline) (?Q (fst (?step w)) n') \<and> ?Q (fst (?step w)) n' (snd (?step w))"
  proof (cases "\<exists>rec. fst (?step w) = Inr (Won rec)")
    case True
    then obtain rec where rec: "ee_store_fault E (w_tick w) = None" "snd (f (w_catalog w)) = Inr (Won rec)"
      by (auto split: option.splits)
    have g: "good_step engine_discipline n (add_mset c n) w (snd (?step w)) \<and> won_by rec c body (snd (?step w))"
      using terminal_step [OF assms(1) _ rec refl] w(1) rec by simp
    then have "P (snd (?step w))" using P w(2) by (auto simp: good_step_def stable_def)
    then show ?thesis using g lasting_conj [OF P lasting_won] rec by (intro exI [of _ "add_mset c n"]) auto
  next
    case False
    have "quiet_step w (snd (?step w))"
      using False w(1) assms(1)
      by (intro lawful_quiet [of E f]) (auto simp: decides_def split: option.splits sum.splits TerminalOutcome.splits
            intro: runtimes_grow_same)
    then have g: "good_step engine_discipline n n w (snd (?step w))" using w(1) by (intro quiet_step_good) auto
    then have "P (snd (?step w))" using P w(2) by (auto simp: good_step_def stable_def)
    then show ?thesis using g P False by (intro exI [of _ n]) auto
  qed
qed

lemma decide_then:
  assumes "decides E c body f"
    and "\<And>res. (\<And>rec. res \<noteq> Inr (Won rec)) \<Longrightarrow> entitled r (\<lambda>_. True) {#} F (g res)"
    and "\<And>rec. entitled r (won_by rec c body) {#c#} F (g (Inr (Won rec)))"
  shows "entitled r (\<lambda>_. True) {#} F (bind_task (terminal_call E c f) g)"
proof (rule entitledI)
  fix n :: "string multiset" and P assume P: "lasting P" "{#} \<subseteq># n"
  let ?Q = "\<lambda>a _ s. P s \<and> ((\<forall>s. P s \<longrightarrow> known r s) \<longrightarrow> F a \<longrightarrow> finished r s)"
  have t: "sat engine_discipline
      (\<lambda>res m s. P s \<and> (\<forall>rec. res = Inr (Won rec) \<longrightarrow> c \<in># m \<and> won_by rec c body s)) n (\<lambda>s. P s \<and> True)
      (terminal_call E c f)"
    using sat_terminal_call [OF assms(1) P(1)] by simp
  show "sat engine_discipline ?Q n (\<lambda>s. P s \<and> True) (bind_task (terminal_call E c f) g)"
  proof (rule sat_bind [OF t])
    fix res m
    show "sat engine_discipline ?Q m (\<lambda>s. P s \<and> (\<forall>rec. res = Inr (Won rec) \<longrightarrow> c \<in># m \<and> won_by rec c body s)) (g res)"
    proof (cases "\<exists>rec. res = Inr (Won rec)")
      case True
      then obtain rec where res: "res = Inr (Won rec)" by blast
      show ?thesis
      proof (cases "c \<in># m")
        case True
        show ?thesis unfolding res
          by (rule sat_pre [OF entitledD [OF assms(3) P(1)]]) (use True in auto)
      next
        case False
        show ?thesis by (rule sat_pre [OF sat_false]) (use res False in auto)
      qed
    next
      case False
      then show ?thesis using sat_pre [OF entitledD [OF assms(2) P(1), of res m]] by auto
    qed
  qed
qed

text \<open>A delivered announcement spends the right; a refused one leaves it.\<close>

lemma sat_announce:
  assumes "announces row m" and P: "lasting P" and "\<And>w. P w \<Longrightarrow> decided c w = Some row" and "c \<in># n"
  shows "sat engine_discipline (\<lambda>res k s. P s \<and> (\<forall>e. res = Inl e \<longrightarrow> k = n)) n P (announce E c m)"
  unfolding announce_def
proof (rule sat_action, goal_cases)
  case (1 w)
  let ?res = "ee_announce E (w_tick w) m"
  let ?w = "logged [case ?res of Inr _ \<Rightarrow> Delivered c m | Inl e \<Rightarrow> Undelivered c m e] (next_tick w)"
  have row: "decided c w = Some row" using assms(3) 1(2) .
  have log: "w_log ?w = w_log w @ [case ?res of Inr _ \<Rightarrow> Delivered c m | Inl e \<Rightarrow> Undelivered c m e]" by simp
  have same: "decided d ?w = decided d w" for d by (simp add: decided_def)
  have counts: "wins (w_log ?w) = wins (w_log w)"
    "deliveries (w_log ?w) = (case ?res of Inr _ \<Rightarrow> add_mset c (deliveries (w_log w)) | Inl _ \<Rightarrow> deliveries (w_log w))"
    unfolding log by (simp_all add: wins_def deliveries_def map_filter_def split: sum.splits)
  have old: "world_inv w" using 1(1) by simp
  have "\<exists>row. decided d ?w = Some row \<and> announces row m'" if "Delivered d m' \<in> set (w_log ?w)" for d m'
    using that old row assms(1) unfolding log same world_inv_def log_sound_def by (auto split: sum.splits)
  then have inv: "world_inv ?w" using old unfolding world_inv_def log_sound_def same counts(1) by simp
  have rel: "world_rel w ?w" by (auto simp: world_rel_def same intro: runtimes_grow_same)
  then have P': "P ?w" using P 1(2) by (auto simp: stable_def)
  show ?case
  proof (cases ?res)
    case (Inl e)
    then show ?thesis using inv rel P' P counts by (intro exI [of _ n]) (auto simp: good_step_def)
  next
    case (Inr u)
    then show ?thesis using inv rel P' P counts assms(4) by (intro exI [of _ "n - {#c#}"]) (auto simp: good_step_def)
  qed
qed

lemma sat_announce_with_preview:
  assumes row: "terminal_kind (state row) = Inr kind" "terminal_result row = Some body"
    "from_committed_body kind body = Inr base"
    and P: "lasting P" and at: "\<And>w. P w \<Longrightarrow> decided c w = Some row" and n: "c \<in># n"
  shows "sat engine_discipline (\<lambda>_ _. P) n P (announce_with_preview E c base thumbnail)"
proof -
  have plain: "announces row base" using row by (auto simp: announces_def)
  have base: "sat engine_discipline (\<lambda>_ _. P) n P (announce E c base)"
    by (rule sat_post [OF sat_announce [OF plain P at n]]) simp_all
  have noted: "sat engine_discipline (\<lambda>_ _. P) n P (bind_task (note_event e) (\<lambda>_. announce E c base))"
    if "quiet_event e" for e
  proof (rule sat_bind)
    show "sat engine_discipline (\<lambda>_ m s. m = n \<and> P s) n P (note_event e)"
      using silent_note [OF that] P by (simp add: silent_def)
    fix m show "sat engine_discipline (\<lambda>_ _. P) m (\<lambda>s. m = n \<and> P s) (announce E c base)"
      using base by (cases "m = n") (auto intro: sat_false)
  qed
  show ?thesis
  proof (cases thumbnail)
    case None
    then show ?thesis using base by (simp add: announce_with_preview_def)
  next
    case (Some t)
    show ?thesis
    proof (cases "with_thumbnail base t")
      case (Inl e)
      then show ?thesis using Some noted by (simp add: announce_with_preview_def quiet_event_def)
    next
      case (Inr previewed)
      then have "announces row previewed" using row by (auto simp: announces_def)
      note first = sat_announce [OF this P at n]
      have "sat engine_discipline (\<lambda>_ _. P) n P (bind_task (announce E c previewed) (\<lambda>first.
          case first of Inr _ \<Rightarrow> Return (Inr ())
          | Inl _ \<Rightarrow> bind_task (note_event RetriedWithoutPreview) (\<lambda>_. announce E c base)))"
      proof (rule sat_bind [OF first])
        fix res m
        show "sat engine_discipline (\<lambda>_ _. P) m (\<lambda>s. P s \<and> (\<forall>e. res = Inl e \<longrightarrow> m = n))
            (case res of Inr _ \<Rightarrow> Return (Inr ())
             | Inl _ \<Rightarrow> bind_task (note_event RetriedWithoutPreview) (\<lambda>_. announce E c base))"
        proof (cases res)
          case (Inl e)
          have "sat engine_discipline (\<lambda>_ _. P) n P (bind_task (note_event RetriedWithoutPreview) (\<lambda>_. announce E c base))"
            by (rule noted) (simp add: quiet_event_def)
          then show ?thesis using Inl by (cases "m = n") (auto intro: sat_false)
        qed (auto intro: sat_return)
      qed
      then show ?thesis using Some Inr by (simp add: announce_with_preview_def)
    qed
  qed
qed

text \<open>Combining silent tasks.\<close>

lemma silent_return [silent_rules]: "silent (Return a)"
  by (simp add: silent_def sat_return)

lemma silent_bind [silent_rules]:
  assumes "silent t" and "\<And>a. silent (f a)"
  shows "silent (bind_task t f)"
  unfolding silent_def
proof (intro allI impI)
  fix n P assume P: "lasting P"
  show "sat engine_discipline (\<lambda>_ m s. m = n \<and> P s) n P (bind_task t f)"
  proof (rule sat_bind)
    show "sat engine_discipline (\<lambda>_ m s. m = n \<and> P s) n P t" using assms(1) P by (simp add: silent_def)
    fix a m show "sat engine_discipline (\<lambda>_ m s. m = n \<and> P s) m (\<lambda>s. m = n \<and> P s) (f a)"
      using assms(2) P by (cases "m = n") (auto simp: silent_def intro: sat_false)
  qed
qed

lemma silent_try [silent_rules]: "silent t \<Longrightarrow> (\<And>a. silent (f a)) \<Longrightarrow> silent (try_task t f)"
  unfolding try_task_def by (rule silent_bind) (auto split: sum.splits intro: silent_return)

lemma silent_halt [silent_rules]: "silent Halt"
  by (simp add: silent_def sat_halt)

lemma silent_waiters [silent_rules]:
  "silent (take_tokens c)" "silent (take_group_tokens g)" "silent (take_pending key)" "silent (register_waiter E c waiter)"
  unfolding take_tokens_def take_group_tokens_def take_pending_def register_waiter_def Let_def
  by (rule silent_action; auto intro!: quiet_local runtimes_grow_same)+

lemma silent_reply [silent_rules]: "silent (reply E subject waiter body)"
  unfolding reply_def
  by (rule silent_action)
    (auto simp: quiet_step_def world_inv_def decided_def quiet_event_def intro: runtimes_grow_same
      intro!: exI [of _ "if ee_reply E k waiter then [Replied subject waiter body] else []" for k])

lemma silent_replies [silent_rules]: "silent (reply_all E c body ids)" "silent (reply_group E g body ids)"
  by (induction ids) (auto intro!: silent_rules simp: drop_waiter_def)

lemma silent_complete_group [silent_rules]: "silent (complete_group_if_terminal E g)"
  unfolding complete_group_if_terminal_def settle_group_waiters_def
  by (auto intro!: silent_rules lawful_read split: sum.splits option.splits)

lemma silent_settle [silent_rules]: "silent (settle E row body)"
  unfolding settle_def settle_waiters_def
  by (auto intro!: silent_rules simp: quiet_event_def split: option.splits)

lemma silent_accepted_hook [silent_rules]: "silent (accepted_before_queue E record)"
  unfolding accepted_before_queue_def Let_def by (auto intro!: silent_rules split: option.splits)

lemma entitled_announce_terminal:
  "entitled r (won_by rec c body) {#c#} (\<lambda>_. False) (announce_terminal E (fst rec) body thumbnail)"
proof (rule entitledI)
  fix n P assume P: "lasting P" and n: "{#c#} \<subseteq># n"
  let ?row = "fst rec"
  let ?P = "\<lambda>s. P s \<and> won_by rec c body s"
  let ?Q = "\<lambda>a (m :: string multiset) s. P s \<and> ((\<forall>s. P s \<longrightarrow> known r s) \<longrightarrow> False \<longrightarrow> finished r s)"
  have lasts: "lasting ?P" by (rule lasting_conj [OF P lasting_won])
  have noted: "sat engine_discipline ?Q m ?P (note_event e)" if "quiet_event e" for e m
    using silent_note [OF that] lasts by (auto simp: silent_def intro: sat_post)
  show "sat engine_discipline ?Q n ?P (announce_terminal E ?row body thumbnail)"
  proof (cases "capture_id ?row = c \<and> terminal_result ?row = Some body")
    case False
    show ?thesis by (rule sat_pre [OF sat_false]) (use False in \<open>auto simp: won_by_def\<close>)
  next
    case True
    show ?thesis
    proof (cases "and_then (terminal_kind (state ?row)) (\<lambda>kind. from_committed_body kind body)")
      case (Inl e)
      then show ?thesis using noted by (simp add: announce_terminal_def quiet_event_def)
    next
      case (Inr base)
      then obtain kind where k: "terminal_kind (state ?row) = Inr kind" "from_committed_body kind body = Inr base"
        by (auto simp: and_then_Inr_iff)
      have said: "sat engine_discipline (\<lambda>_ _. ?P) n ?P (announce_with_preview E c base thumbnail)"
        using sat_announce_with_preview [OF k(1) _ k(2) lasts] True n by (auto simp: won_by_def)
      show ?thesis unfolding announce_terminal_def Inr sum.case
        by (rule sat_bind) (use said True noted in \<open>auto split: sum.splits simp: quiet_event_def\<close>)
    qed
  qed
qed

lemma silent_complete [silent_rules]: "silent (complete_runtime r)"
  unfolding complete_runtime_def update_def
proof (rule silent_action, rule quiet_local, assumption)
  fix w
  have "runtimes_grow w (on_runtime r (\<lambda>rt. rt\<lparr>rt_done := True\<rparr>) w)"
    by (rule on_runtime_grows) (simp add: runtime_grows_def)
  then show "runtimes_grow w (snd ((), (on_runtime r (\<lambda>rt. rt\<lparr>rt_done := True\<rparr>) w)
      \<lparr>w_active := bt_remove (capture_of r w) (w_active w)\<rparr>))"
    by (simp add: runtimes_grow_def)
qed simp_all

text \<open>Releasing a runtime keeps the rights and leaves it finished.\<close>

lemma sat_complete:
  assumes P: "lasting P"
  shows "sat engine_discipline (\<lambda>_ m s. m = n \<and> P s \<and> ((\<forall>s. P s \<longrightarrow> known r s) \<longrightarrow> finished r s)) n P (complete_runtime r)"
  unfolding complete_runtime_def update_def
proof (rule sat_action, goal_cases)
  case (1 w)
  let ?w = "(on_runtime r (\<lambda>rt. rt\<lparr>rt_done := True\<rparr>) w)\<lparr>w_active := bt_remove (capture_of r w) (w_active w)\<rparr>"
  have "runtimes_grow w (on_runtime r (\<lambda>rt. rt\<lparr>rt_done := True\<rparr>) w)"
    by (rule on_runtime_grows) (simp add: runtime_grows_def)
  then have "quiet_step w ?w" using 1(1) by (intro quiet_local) (simp_all add: runtimes_grow_def)
  then have g: "good_step engine_discipline n n w ?w" using 1(1) by (intro quiet_step_good) simp_all
  then have "P ?w" using P 1(2) by (auto simp: good_step_def stable_def)
  moreover have "known r w \<Longrightarrow> finished r ?w" by (simp add: known_def finished_def on_runtime_def)
  moreover have "lasting (\<lambda>s. n = n \<and> P s \<and> ((\<forall>s. P s \<longrightarrow> known r s) \<longrightarrow> finished r s))"
    using lasting_conj [OF P lasting_imp [OF lasting_finished]] by simp
  ultimately show ?case using g 1(2) by (intro exI [of _ n]) auto
qed

lemma complete_then:
  assumes "\<And>a. entitled r A u F' (f a)" and "lasting A"
  shows "entitled r A u F (bind_task (complete_runtime r) f)"
proof (rule entitledI)
  fix n P assume P: "lasting P" "u \<subseteq># n"
  let ?P = "\<lambda>s. P s \<and> A s"
  let ?F = "\<lambda>s. (\<forall>s. ?P s \<longrightarrow> known r s) \<longrightarrow> finished r s"
  let ?P2 = "\<lambda>s. P s \<and> ((\<forall>s. P s \<longrightarrow> known r s) \<longrightarrow> finished r s)"
  have l2: "lasting ?P2" by (intro lasting_conj lasting_imp P(1) lasting_finished)
  show "sat engine_discipline (\<lambda>a _ s. P s \<and> ((\<forall>s. P s \<longrightarrow> known r s) \<longrightarrow> F a \<longrightarrow> finished r s)) n ?P
      (bind_task (complete_runtime r) f)"
  proof (rule sat_bind [OF sat_complete [OF lasting_conj [OF P(1) assms(2)]]])
    fix a m
    show "sat engine_discipline (\<lambda>a _ s. P s \<and> ((\<forall>s. P s \<longrightarrow> known r s) \<longrightarrow> F a \<longrightarrow> finished r s)) m
       (\<lambda>s. m = n \<and> ?P s \<and> ?F s) (f a)"
    proof (cases "m = n")
      case True
      show ?thesis unfolding True
        by (rule sat_post [OF sat_pre [OF entitledD [OF assms(1) l2 P(2)]]]) auto
    qed (auto intro: sat_false)
  qed
qed

lemma entitled_then:
  assumes "entitled r A u F' t" and "\<And>a. neutral r (f a)"
  shows "entitled r A u (\<lambda>_. False) (bind_task t f)"
proof (rule entitledI)
  fix n P assume P: "lasting P" "u \<subseteq># n"
  have t: "sat engine_discipline (\<lambda>_ _. P) n (\<lambda>s. P s \<and> A s) t"
    by (rule sat_post [OF entitledD [OF assms(1) P]]) simp
  show "sat engine_discipline (\<lambda>a _ s. P s \<and> ((\<forall>s. P s \<longrightarrow> known r s) \<longrightarrow> False \<longrightarrow> finished r s)) n
       (\<lambda>s. P s \<and> A s) (bind_task t f)"
    by (rule sat_bind [OF t]) (use entitledD [OF assms(2) P(1)] in simp)
qed

lemma finishing_neutral: "entitled r (\<lambda>_. True) {#} F t \<Longrightarrow> neutral r t"
  by (rule entitled_weaken) auto

lemma lasting_true: "lasting (\<lambda>_. True)"
  by (simp add: stable_def)

lemma silent_next: "silent t \<Longrightarrow> (\<And>a. entitled r (\<lambda>_. True) {#} F (f a)) \<Longrightarrow> entitled r (\<lambda>_. True) {#} F (bind_task t f)"
  by (rule silent_then) (auto intro: lasting_true)

lemma silent_try_next:
  "silent t \<Longrightarrow> (\<And>a. entitled r (\<lambda>_. True) {#} F (f a)) \<Longrightarrow> (\<And>e. \<not> F (Inl e)) \<Longrightarrow>
   entitled r (\<lambda>_. True) {#} F (try_task t f)"
  unfolding try_task_def by (rule silent_next) (auto split: sum.splits intro: entitled_return)

lemma neutral_try:
  "neutral r t \<Longrightarrow> (\<And>a. entitled r (\<lambda>_. True) {#} F (f a)) \<Longrightarrow> (\<And>e. \<not> F (Inl e)) \<Longrightarrow>
   entitled r (\<lambda>_. True) {#} F (try_task t f)"
  unfolding try_task_def by (rule neutral_then) (auto split: sum.splits intro: entitled_return)

lemma decide_try:
  assumes "decides E c body f" and "\<And>outcome. (\<And>rec. outcome \<noteq> Won rec) \<Longrightarrow> entitled r (\<lambda>_. True) {#} F (g outcome)"
    and "\<And>rec. entitled r (won_by rec c body) {#c#} F (g (Won rec))" and "\<And>e. \<not> F (Inl e)"
  shows "entitled r (\<lambda>_. True) {#} F (try_task (terminal_call E c f) g)"
  unfolding try_task_def
  by (rule decide_then [OF assms(1)]) (use assms(2-4) in \<open>auto split: sum.splits intro: entitled_return\<close>)

text \<open>The write and the body a terminal write returns agree.\<close>

lemma make_terminal_write_body:
  "make_terminal_write ch ev rt st success err t p = Inr (write, body) \<Longrightarrow> body = tw_result write"
  by (auto simp: make_terminal_write_def and_then_Inr_iff)

lemma terminal_write_then:
  assumes "\<And>write. entitled r (\<lambda>_. True) {#} F (f (write, tw_result write))" and "\<And>e. \<not> F (Inl e)"
  shows "entitled r (\<lambda>_. True) {#} F (try_task (terminal_write E r' st success err t p) f)"
proof (rule entitledI)
  fix n :: "string multiset" and P assume P: "lasting P" "{#} \<subseteq># n"
  let ?t = "terminal_write E r' st success err t p"
  let ?V = "\<lambda>res. \<forall>write body. res = Inr (write, body) \<longrightarrow> body = tw_result write"
  let ?Q = "\<lambda>a (m :: string multiset) s. P s \<and> ((\<forall>s. P s \<longrightarrow> known r s) \<longrightarrow> F a \<longrightarrow> finished r s)"
  have "sat engine_discipline (\<lambda>a _ s. ?V a \<and> P s) n P ?t"
    unfolding terminal_write_def
  proof (rule sat_action, goal_cases)
    case (1 w)
    have "quiet_step w (next_tick w)" using 1(1) by (intro quiet_local runtimes_grow_same) simp_all
    then have g: "good_step engine_discipline n n w (next_tick w)" using 1(1) by (intro quiet_step_good) simp_all
    then have "P (next_tick w)" using P(1) 1(2) by (auto simp: good_step_def stable_def)
    moreover have "?V (make_terminal_write (ee_chrono E) (ee_event_id E (w_tick w)) (runtime_of r' w) st success err t p)"
      using make_terminal_write_body by blast
    ultimately show ?case using g P(1) by (intro exI [of _ n]) (auto simp: stable_def)
  qed
  then have t: "sat engine_discipline (\<lambda>a _ s. ?V a \<and> P s) n (\<lambda>s. P s \<and> True) ?t" by simp
  show "sat engine_discipline ?Q n (\<lambda>s. P s \<and> True) (try_task ?t f)"
    unfolding try_task_def
  proof (rule sat_bind [OF t])
    fix a m
    show "sat engine_discipline ?Q m (\<lambda>s. ?V a \<and> P s) (case a of Inl e \<Rightarrow> Return (Inl e) | Inr x \<Rightarrow> f x)"
    proof (cases a)
      case (Inl e)
      then show ?thesis using assms(2) by (auto intro: sat_return)
    next
      case (Inr x)
      obtain wr body where x: "x = (wr, body)" by fastforce
      show ?thesis
      proof (cases "body = tw_result wr")
        case True
        have "sat engine_discipline ?Q m (\<lambda>s. P s \<and> True) (f (wr, tw_result wr))"
          by (rule entitledD [OF assms(1) P(1)]) simp
        then have "sat engine_discipline ?Q m (\<lambda>s. ?V a \<and> P s) (f (wr, tw_result wr))"
          by (rule sat_pre) simp
        then show ?thesis using Inr x True by simp
      next
        case False
        show ?thesis by (rule sat_pre [OF sat_false]) (use Inr x False in auto)
      qed
    qed
  qed
qed

section \<open>The operations\<close>

lemma entitled_after_terminal:
  "entitled r (won_by rec c body) {#c#} F (after_terminal E r (fst rec) body thumbnail)"
  unfolding after_terminal_def
  by (rule complete_then [where F' = "\<lambda>_. False"])
    (intro entitled_then [OF entitled_announce_terminal] silent_neutral silent_settle lasting_won)+

lemma entitled_after_then:
  "(\<And>a. neutral r (f a)) \<Longrightarrow>
   entitled r (won_by rec c body) {#c#} F (bind_task (after_terminal E r (fst rec) body thumbnail) f)"
  by (rule released_then [OF entitled_after_terminal])

lemma complete_return: "entitled r (\<lambda>_. True) {#} F (bind_task (complete_runtime r) (\<lambda>_. Return a))"
  by (rule complete_then [where F' = "\<lambda>_. False"]) (auto intro: entitled_return lasting_true)

lemma cancelled_after_then:
  "(\<And>a. neutral r (f a)) \<Longrightarrow> entitled r (won_by rec c body) {#c#} F
     (bind_task (cancel_token r) (\<lambda>_. bind_task (after_terminal E r (fst rec) body thumbnail) f))"
  by (intro silent_then [OF silent_cancel_token _ lasting_won] entitled_after_then)

lemmas won_rules = entitled_after_then cancelled_after_then
  entitled_after_then [where rec = "(row, pend)" for row pend, simplified]
  cancelled_after_then [where rec = "(row, pend)" for row pend, simplified]

lemma neutral_return: "neutral r (Return a)"
  by (rule entitled_return) simp

lemma finish_outcome_finishes:
  "(\<And>rec. outcome \<noteq> Won rec) \<Longrightarrow> entitled r (\<lambda>_. True) {#} F (finish_terminal_outcome E r outcome body thumbnail)"
  by (cases outcome) (auto simp: finish_terminal_outcome_def intro: complete_return)

lemma finish_outcome_won:
  "entitled r (won_by rec c body) {#c#} F (finish_terminal_outcome E r (Won rec) body thumbnail)"
  unfolding finish_terminal_outcome_def by (auto intro!: won_rules neutral_return)

lemma finish_failure_finishes: "finishing r (finish_failure E r code message)"
  unfolding finish_failure_def
proof (intro silent_next silent_try_next silent_rules)
  fix c and found :: "JobRecord option"
  let ?skip = "filter_option (\<lambda>record. state (fst record) = Persisting \<and> install_started (fst record)) found"
  let ?go = "bind_task (now_ms E) (\<lambda>now.
           try_task (terminal_write E r Failed None (Some (code, bounded_detail message)) now None) (\<lambda>(write, body).
           try_task (terminal_call E c (commit_terminal c write)) (\<lambda>outcome.
           try_task (finish_terminal_outcome E r outcome body None) (\<lambda>record.
           bind_task (cancel_token r) (\<lambda>_. Return (Inr record))))))"
  have last: "entitled r A u (\<lambda>res. \<not> isl res) (try_task (finish_terminal_outcome E r outcome body None)
      (\<lambda>record. bind_task (cancel_token r) (\<lambda>_. Return (Inr record))))"
    if "entitled r A u (\<lambda>_. True) (finish_terminal_outcome E r outcome body None)" for A u outcome body
    unfolding try_task_def
    by (rule released_then [OF that]) (auto split: sum.splits intro!: silent_neutral silent_rules)
  have "finishing r ?go"
    by (intro silent_next silent_rules terminal_write_then) (auto intro!: decide_try decides_ops last
        finish_outcome_finishes finish_outcome_won)
  then show "finishing r (case ?skip of Some record \<Rightarrow> bind_task (complete_runtime r) (\<lambda>_. Return (Inr record)) | None \<Rightarrow> ?go)"
    by (auto split: option.splits intro: complete_return)
qed simp

lemma cancel_runtime_finishes: "finishing r (cancel_runtime E r reason)"
  unfolding cancel_runtime_def
  by (intro silent_next silent_rules terminal_write_then)
    (auto intro!: decide_try decides_ops won_rules neutral_return complete_return split: TerminalOutcome.splits)

lemma finish_error_finishes: "finishing r (finish_error E r e)"
  unfolding finish_error_def by (simp add: finish_failure_finishes cancel_runtime_finishes)

lemma fail_panic_finishes: "finishing r (fail_panic E r)"
  unfolding fail_panic_def by (rule finish_failure_finishes)

lemma fail_store_finishes: "entitled r (\<lambda>_. True) {#} (\<lambda>_. True) (fail_durable_store E r e)"
  unfolding fail_durable_store_def
proof (rule entitledI)
  fix n :: "string multiset" and P assume P: "lasting P" "{#} \<subseteq># n"
  let ?first = "finish_failure E r (error_code_of e) (bounded_detail (operator_detail e))"
  let ?Q = "\<lambda>a (m :: string multiset) s. P s \<and> ((\<forall>s. P s \<longrightarrow> known r s) \<longrightarrow> True \<longrightarrow> finished r s)"
  show "sat engine_discipline ?Q n (\<lambda>s. P s \<and> True) (bind_task ?first (\<lambda>outcome.
       case outcome of Inr record \<Rightarrow> Return (Inr record)
       | Inl e' \<Rightarrow> bind_task (complete_runtime r) (\<lambda>_. Return (Inl e'))))"
  proof (rule sat_bind [OF entitledD [OF finish_failure_finishes P]])
    fix outcome m
    let ?P = "\<lambda>s. P s \<and> ((\<forall>s. P s \<longrightarrow> known r s) \<longrightarrow> \<not> isl outcome \<longrightarrow> finished r s)"
    show "sat engine_discipline ?Q m ?P (case outcome of Inr record \<Rightarrow> Return (Inr record)
       | Inl e' \<Rightarrow> bind_task (complete_runtime r) (\<lambda>_. Return (Inl e')))"
    proof (cases outcome)
      case (Inl e')
      have "sat engine_discipline ?Q m (\<lambda>s. P s \<and> True) (bind_task (complete_runtime r) (\<lambda>_. Return (Inl e')))"
        by (rule entitledD [OF complete_return P(1)]) simp
      then show ?thesis using Inl by (auto intro: sat_pre)
    qed (auto intro: sat_return)
  qed
qed

section \<open>Execution\<close>

lemma or_finish_finishes:
  "silent t \<Longrightarrow> (\<And>a. finishing r (f a)) \<Longrightarrow> finishing r (or_finish E r t f)"
  unfolding or_finish_def by (rule silent_next) (auto split: sum.splits intro: finish_error_finishes)

lemma enter_stage_finishes:
  "silent cas \<Longrightarrow> finishing r go \<Longrightarrow> finishing r (enter_stage E r message cas go)"
  unfolding enter_stage_def
  by (rule silent_try_next) (auto split: StateCasOutcome.splits intro: complete_return entitled_return)

lemma silent_await [silent_rules]: "silent (await_with_deadline E r d future stage)"
  unfolding await_with_deadline_def
  by (intro silent_rules silent_action quiet_local runtimes_grow_same) simp_all

lemma silent_update_camera [silent_rules]: "silent (update_camera_from_session E r)"
  unfolding update_camera_from_session_def update_def
proof (rule silent_action, rule quiet_local, assumption)
  fix w
  show "runtimes_grow w (snd ((), next_tick (on_trace r (\<lambda>tr. tr\<lparr>et_camera := (et_camera tr)\<lparr>
       cm_vendor := cap_vendor (ee_capabilities E (w_tick w)), cm_model := cap_model (ee_capabilities E (w_tick w)),
       cm_firmware := cap_firmware (ee_capabilities E (w_tick w)),
       cm_serial := cap_serial (ee_capabilities E (w_tick w))\<rparr>\<rparr>) w)))"
    using on_trace_grows by (simp add: runtimes_grow_def)
qed simp_all

lemma silent_ptz [silent_rules]: "silent (capture_interlock_ptz E request)"
  unfolding capture_interlock_ptz_def by (intro silent_rules)

lemma silent_wait_until_idle [silent_rules]: "silent (wait_until_idle E n r)"
proof (induction n)
  case (Suc n)
  then show ?case by (auto intro!: silent_rules split: PtzResult.splits)
qed (simp add: silent_halt)

lemma silent_observe_motion [silent_rules]: "silent (observe_motion E)"
  unfolding observe_motion_def by (intro silent_rules)

lemma silent_stop_and_settle [silent_rules]: "silent (stop_and_settle E polls r available)"
  unfolding stop_and_settle_def by (auto intro!: silent_rules)

lemma silent_interlock [silent_rules]: "silent (enforce_capture_interlock E polls r)"
  unfolding enforce_capture_interlock_def by (auto intro!: silent_rules simp: Let_def)

lemma silent_reserve_decode [silent_rules]: "silent (reserve_decode E frame thumbnail)"
  unfolding reserve_decode_def
  by (auto intro!: silent_rules simp: quiet_event_def split: option.splits sum.splits)

lemma silent_prepare [silent_rules]: "silent (prepare_blocking E r frame deadline)"
  unfolding prepare_blocking_def
proof (intro silent_rules silent_action)
  show "quiet_event (WorkerSpawned c)" for c by (simp add: quiet_event_def)
next
  fix w thumbnail
  have "runtimes_grow w (on_runtime r (\<lambda>rt. rt\<lparr>rt_cancellation := True\<rparr>) w)"
    by (rule on_runtime_grows) (simp add: runtime_grows_def)
  then have "runtimes_grow w (next_tick (on_runtime r (\<lambda>rt. rt\<lparr>rt_cancellation := True\<rparr>) w))"
    by (simp add: runtimes_grow_def)
  moreover assume "world_inv w"
  ultimately show "quiet_step w (snd (if rt_cancellation (runtime_of r w)
       then (Inl (job_cancelled_error ''during encoding/persistence''), next_tick w)
       else if deadline \<le> ee_now E (w_tick w)
       then (Inl (job_timeout_error ''encoding/persistence''),
             next_tick (on_runtime r (\<lambda>rt. rt\<lparr>rt_cancellation := True\<rparr>) w))
       else (and_then (ee_prepare E (w_tick w)) (\<lambda>prepared.
               Inr (prepared, map_option (\<lambda>_. ee_render E (w_tick w)) thumbnail)), next_tick w)))"
    by (auto intro!: quiet_local runtimes_grow_same)
qed

lemma silent_settle_thumbnail [silent_rules]: "silent (settle_thumbnail outcome)"
  unfolding settle_thumbnail_def
  by (auto intro!: silent_rules simp: quiet_event_def split: option.splits ThumbnailOutcome.splits)

lemma silent_install [silent_rules]: "silent (install_prepared E c t)"
  unfolding install_prepared_def by (auto intro!: silent_rules split: InstallOutcome.splits)

lemma commit_success_finishes: "finishing r (commit_success E r c installed t thumbnail)"
  unfolding commit_success_def
  by (intro silent_next silent_try_next silent_rules)
    (auto split: option.splits intro!: entitled_return decide_try decides_ops finish_outcome_finishes finish_outcome_won)

lemma persist_finishes: "finishing r (persist E r c prepared thumbnail)"
  unfolding persist_def
  by (intro silent_next silent_rules terminal_write_then)
    (auto intro!: silent_next silent_rules enter_stage_finishes or_finish_finishes commit_success_finishes)

lemma encode_and_persist_finishes: "finishing r (encode_and_persist E r c frame)"
  unfolding encode_and_persist_def
  by (intro or_finish_finishes silent_next silent_rules)
    (auto intro!: silent_next silent_rules persist_finishes)

lemma process_frame_finishes: "finishing r (process_frame E r c frame)"
  unfolding process_frame_def
  by (intro or_finish_finishes silent_next silent_rules)
    (auto intro!: silent_next silent_rules enter_stage_finishes or_finish_finishes encode_and_persist_finishes)

lemma acquire_frame_finishes: "finishing r (acquire_frame E r c)"
  unfolding acquire_frame_def
  by (intro enter_stage_finishes or_finish_finishes silent_next silent_rules process_frame_finishes)
    (simp add: quiet_event_def)

lemma execute_finishes: "finishing r (execute E polls r)"
  unfolding execute_def by (intro or_finish_finishes silent_next silent_rules acquire_frame_finishes)

section \<open>Queueing, cancellation and recovery\<close>

lemma runtimes_grow_snoc: "w_runtimes w' = w_runtimes w @ rts \<Longrightarrow> runtimes_grow w w'"
  by (simp add: runtimes_grow_def runtime_grows_def nth_append)

lemma silent_register [silent_rules]: "silent (register c spec)"
  unfolding register_def by (rule silent_action) (auto intro!: quiet_local runtimes_grow_snoc)

lemma silent_unregistered [silent_rules]: "silent (unregistered_runtime spec)"
  unfolding unregistered_runtime_def by (rule silent_action) (auto intro!: quiet_local runtimes_grow_snoc)

text \<open>Operations that hold no runtime of their own are neutral whichever runtime is looked at.\<close>

lemma neutral_any: "neutral r t \<Longrightarrow> neutral r' t"
  by (simp add: entitled_def)

lemma neutral_finish_failure: "neutral r' (finish_failure E r code message)"
  by (rule neutral_any [OF finishing_neutral [OF finish_failure_finishes]])

lemmas neutral_leaves = silent_answer silent_now silent_look silent_note silent_cancel_token silent_register
  silent_unregistered silent_stored_job silent_ops silent_complete silent_settle silent_accepted_hook

lemmas neutral_rules = neutral_return neutral_then neutral_try neutral_leaves [THEN silent_neutral]

lemma neutral_enter_actor: "neutral r (enter_actor E twice refused spec queued)"
  unfolding enter_actor_def
  by (auto intro!: neutral_rules neutral_finish_failure simp: quiet_event_def split: option.splits sum.splits)

lemma neutral_accept: "neutral r (accept_and_queue E sub)"
  unfolding accept_and_queue_def Let_def
  by (auto intro!: neutral_rules neutral_enter_actor split: sum.splits option.splits AcceptJobOutcome.splits StateCasOutcome.splits)

lemma neutral_queue_preaccepted: "neutral r (queue_preaccepted E sub)"
  unfolding queue_preaccepted_def Let_def
  by (auto intro!: neutral_rules neutral_enter_actor split: sum.splits option.splits StateCasOutcome.splits)

lemma neutral_requeue: "neutral r (requeue_recovered E record rg n priority)"
  unfolding requeue_recovered_def Let_def
  by (auto intro!: neutral_return neutral_queue_preaccepted split: sum.splits)

lemma neutral_cancel_outcome: "neutral r (cancel_outcome won record in_progress)"
  unfolding cancel_outcome_def by (rule neutral_return)

lemma complete_cancel: "neutral r (bind_task (complete_runtime r) (\<lambda>_. cancel_outcome won record in_progress))"
  by (intro neutral_rules neutral_cancel_outcome)

lemma cancel_known_neutral:
  "neutral r (try_task (terminal_write E r Cancelled None err t None) (\<lambda>(write, body).
     try_task (terminal_call E c (cancel_job c write)) (\<lambda>outcome.
       case outcome of
         Won record \<Rightarrow> bind_task (cancel_token r) (\<lambda>_.
           bind_task (after_terminal E r (fst record) body None) (\<lambda>_. cancel_outcome True record busy))
       | AlreadyTerminal record \<Rightarrow> bind_task (complete_runtime r) (\<lambda>_. cancel_outcome False record False)
       | InstallationWon record \<Rightarrow> cancel_outcome False record False)))"
  by (intro terminal_write_then)
    (auto intro!: decide_try decides_ops won_rules complete_cancel neutral_cancel_outcome split: TerminalOutcome.splits)

lemma neutral_cancel_active: "neutral r' (cancel_active E c reason)"
proof -
  have lost: "neutral r' (try_task (stored_job E c) (\<lambda>found. case found of
      None \<Rightarrow> Return (Inl missing)
    | Some record \<Rightarrow> if is_terminal (state (fst record)) then cancel_outcome False record False
        else Return (Inl owned)))" for missing owned
    by (auto intro!: neutral_rules neutral_cancel_outcome split: option.splits)
  show ?thesis
    unfolding cancel_active_def
    by (intro silent_next silent_look, split option.split, intro conjI allI impI lost)
      (intro silent_next silent_look silent_now neutral_any [OF cancel_known_neutral])
qed

lemma silent_rebase: "silent (rebase_onto_admission E r timeouts)"
  unfolding rebase_onto_admission_def
  by (intro silent_rules) (simp_all add: runtime_grows_def)

lemma neutral_reap_retire: "neutral r (reap_retire E n r)"
proof (induction n)
  case (Suc n)
  then show ?case
    by (auto intro!: neutral_rules neutral_finish_failure split: sum.splits)
qed (simp add: entitled_halt)

lemma silent_wakeup [silent_rules]: "silent (timer_wakeup E r t k)"
  unfolding timer_wakeup_def by (rule silent_action) (auto intro!: quiet_local runtimes_grow_same)

lemma neutral_timer: "neutral r (terminal_deadline E n r) \<and> (\<forall>t k. neutral r (terminal_wait E n r t k))"
proof (induction n)
  case (Suc n)
  have "neutral r (bind_task (look f) (\<lambda>moved. if moved then terminal_deadline E n r else reap_retire E n r))" for f
    using Suc by (intro silent_next silent_look) (simp add: neutral_reap_retire)
  then have "neutral r (terminal_wait E (Suc n) r t k)" for t k
    unfolding terminal_wait.simps
    using Suc by (intro silent_next silent_wakeup) (auto split: wakeup.split intro: neutral_return)
  moreover have "neutral r (terminal_deadline E (Suc n) r)"
    unfolding terminal_deadline.simps using Suc by (intro silent_next silent_look) blast
  ultimately show ?case by blast
qed (simp add: entitled_halt)

lemmas announce_won = entitled_then [OF entitled_announce_terminal]
  entitled_then [OF entitled_announce_terminal [where rec = "(row, pend)" for row pend, simplified]]

lemma settle_return: "neutral r (bind_task (settle E row body) (\<lambda>_. Return a))"
  by (intro neutral_rules)

lemma neutral_interrupt: "neutral r' (interrupt_nonterminal E record message)"
proof -
  have "neutral r (try_task (terminal_write E r Interrupted None err t None) (\<lambda>(write, body).
      try_task (terminal_call E c (Catalog_Jobs.interrupt_recovered c states write)) (\<lambda>outcome.
        case outcome of
          Won rec \<Rightarrow> bind_task (announce_terminal E (fst rec) body None) (\<lambda>_.
            bind_task (settle E (fst rec) body) (\<lambda>_. Return (Inr rec)))
        | AlreadyTerminal rec \<Rightarrow> bind_task (settle E (fst rec) body) (\<lambda>_. Return (Inr rec))
        | InstallationWon _ \<Rightarrow> Return (Inl lost))))" for r err t c states lost
    by (intro terminal_write_then)
      (auto intro!: decide_try decides_ops announce_won settle_return neutral_return split: TerminalOutcome.splits)
  note decision = neutral_any [OF this]
  have "neutral r' (bind_task (unregistered_runtime spec) (\<lambda>r. bind_task (now_ms E) (g r)))"
    if "\<And>r now. neutral r' (g r now)" for spec and g :: "nat \<Rightarrow> int \<Rightarrow> JobRecord result job_task"
    by (intro neutral_rules that)
  then show ?thesis
    unfolding interrupt_nonterminal_def Let_def using decision by (auto intro!: neutral_return split: sum.splits)
qed

lemma neutral_finish_recovery: "neutral r (finish_recovery E c pend recorded)"
  unfolding finish_recovery_def
  by (auto intro!: decide_try decides_ops announce_won settle_return neutral_return split: TerminalOutcome.splits)

lemma neutral_recover: "neutral r (recover_install_started E record)"
  unfolding recover_install_started_def Let_def
  by (auto intro!: neutral_rules neutral_finish_recovery split: sum.splits)

section \<open>The engine under interleaving\<close>

datatype engine_op =
    AcceptAndQueue JobSubmission
  | QueuePreaccepted JobSubmission
  | CancelActive string string
  | Execute nat nat
  | RebaseOntoAdmission nat TimeoutsConfig
  | FailPanic nat
  | FailDurableStore nat camera_error
  | TerminalDeadline nat nat
  | InterruptRecovery JobRecord
  | InterruptForReload JobRecord
  | RequeueRecovered JobRecord "string option" "nat option" CapturePriority
  | RecoverInstallStarted JobRecord

definition forget :: "'a job_task \<Rightarrow> unit job_task" where
  "forget t = bind_task t (\<lambda>_. Return ())"

fun engine_task :: "engine_env \<Rightarrow> engine_op \<Rightarrow> unit job_task" where
  "engine_task E (AcceptAndQueue sub) = forget (accept_and_queue E sub)"
| "engine_task E (QueuePreaccepted sub) = forget (queue_preaccepted E sub)"
| "engine_task E (CancelActive c reason) = forget (cancel_active E c reason)"
| "engine_task E (Execute polls r) = forget (execute E polls r)"
| "engine_task E (RebaseOntoAdmission r timeouts) = forget (rebase_onto_admission E r timeouts)"
| "engine_task E (FailPanic r) = forget (fail_panic E r)"
| "engine_task E (FailDurableStore r e) = forget (fail_durable_store E r e)"
| "engine_task E (TerminalDeadline n r) = forget (terminal_deadline E n r)"
| "engine_task E (InterruptRecovery record) = forget (engine_interrupt_recovered E record)"
| "engine_task E (InterruptForReload record) = forget (interrupt_for_reload E record)"
| "engine_task E (RequeueRecovered record g n p) = forget (requeue_recovered E record g n p)"
| "engine_task E (RecoverInstallStarted record) = forget (recover_install_started E record)"

text \<open>
  The rest of the component uses the catalog at any time; a crash loses every task and every runtime, and
  keeps the catalog and what was sent.
\<close>

definition engine_system :: "engine_env \<Rightarrow> (unit, world) system" where
  "engine_system E = \<lparr>y_tasks = range (engine_task E),
     y_other = (\<lambda>w w'. \<exists>op. w' = w\<lparr>w_catalog := exec_lifecycle (ee_category E) (w_catalog w) op\<rparr>),
     y_crash = (\<lambda>w w'. w' = w\<lparr>w_runtimes := [], w_active := []\<rparr>)\<rparr>"

lemma neutral_forget: "neutral r t \<Longrightarrow> neutral r (forget t)"
  unfolding forget_def by (intro neutral_then neutral_return)

lemma neutral_engine_task: "\<exists>r. neutral r (engine_task E op)"
  by (cases op) (auto intro!: exI neutral_forget neutral_accept neutral_queue_preaccepted neutral_cancel_active
      finishing_neutral [OF execute_finishes] silent_neutral [OF silent_rebase]
      finishing_neutral [OF fail_panic_finishes] finishing_neutral [OF fail_store_finishes]
      conjunct1 [OF neutral_timer] neutral_requeue neutral_recover neutral_interrupt
      simp: engine_interrupt_recovered_def interrupt_for_reload_def)

lemma engine_task_sat: "sat engine_discipline (\<lambda>_ _ _. True) {#} (\<lambda>_. True) (engine_task E op)"
proof -
  obtain r where "neutral r (engine_task E op)" using neutral_engine_task by blast
  from entitledD [OF this lasting_true, of "{#}"] show ?thesis by (auto intro: sat_post)
qed

interpretation engine: disciplined_system engine_discipline "engine_system E" for E
proof
  fix t assume "t \<in> y_tasks (engine_system E)"
  then show "sat engine_discipline (\<lambda>_ _ _. True) {#} (\<lambda>_. True) t"
    using engine_task_sat by (auto simp: engine_system_def)
next
  fix w w' assume inv: "d_inv engine_discipline w" and step: "y_other (engine_system E) w w'"
  then obtain op where w': "w' = w\<lparr>w_catalog := exec_lifecycle (ee_category E) (w_catalog w) op\<rparr>"
    by (auto simp: engine_system_def)
  have "lawful E (\<lambda>db. (exec_lifecycle (ee_category E) db op, Inr ()))" by (auto simp: lawful_def)
  then have "quiet_step w w'" using inv w' by (intro lawful_quiet [of E]) (auto intro: runtimes_grow_same)
  then show "good_step engine_discipline {#} {#} w w'" using inv by (intro quiet_step_good) simp_all
next
  fix w w' assume "d_inv engine_discipline w" and "y_crash (engine_system E) w w'"
  then show "d_inv engine_discipline w' \<and>
      d_spent engine_discipline w' + d_earned engine_discipline w \<subseteq>#
      d_spent engine_discipline w + d_earned engine_discipline w'"
    by (auto simp: engine_system_def world_inv_def log_sound_def decided_def)
qed

end
