(* ===== verification/Jobs_Guarantees.thy ===== *)
theory Jobs_Guarantees
  imports Jobs_Announce
begin

text \<open>
  The guarantees of the job engine: announcements under every interleaving and crash, release of
  runtimes, acceptance of the engine's terminal writes by the catalog, reconstruction of waiting captures
  after a restart, the rebasing of deadlines, and the two ways a capture is lost that the source does
  not intend.
\<close>

section \<open>Announcements\<close>

text \<open>C9: however the engine's operations interleave with each other and with the rest of the component,
  and whenever the process crashes and restarts, a capture is announced at most once, and only with
  its durable terminal result: the catalog then holds a terminal row for it, and the message is that
  row's kind and committed body, with at most a preview added.
\<close>

theorem announced_once_and_durable:
  assumes "(pool_step (engine_system E))\<^sup>*\<^sup>* ([], w0) (ts, w)"
    and "catalog_inv (w_catalog w0)" and "w_log w0 = []"
  shows "(\<forall>c m. Delivered c m \<in> set (w_log w) \<longrightarrow>
      (\<exists>row. select_row capture_id c (jobs (w_catalog w)) = Some row \<and> is_terminal (state row) \<and> announces row m)) \<and>
    (\<forall>c. count (deliveries (w_log w)) c \<le> 1)"
proof -
  have "d_inv engine_discipline w0" "d_spent engine_discipline w0 \<subseteq># d_earned engine_discipline w0"
    using assms(2,3) by (auto simp: world_inv_def log_sound_def wins_def deliveries_def map_filter_def)
  from engine.reachable_disciplined [OF assms(1) this]
  have inv: "log_sound w" and sub: "deliveries (w_log w) \<subseteq># wins (w_log w)" by (auto simp: world_inv_def)
  have "count (deliveries (w_log w)) c \<le> 1" for c
    using mset_subset_eq_count [OF sub, of c] inv unfolding log_sound_def by (meson le_trans)
  moreover have "\<exists>row. select_row capture_id c (jobs (w_catalog w)) = Some row \<and> is_terminal (state row) \<and> announces row m"
    if sent: "Delivered c m \<in> set (w_log w)" for c m
  proof -
    obtain row where "decided c w = Some row" "announces row m" using sent inv unfolding log_sound_def by blast
    then show ?thesis by (auto simp: decided_def filter_option_def split: option.splits if_splits)
  qed
  ultimately show ?thesis by blast
qed

section \<open>Release\<close>

definition interference :: "world \<Rightarrow> world \<Rightarrow> bool" where
  "interference w w' \<longleftrightarrow> world_inv w' \<and> world_rel w w'"

lemma finishing_ends:
  assumes "entitled r (\<lambda>_. True) {#} F t" and "ends interference t w res w'" and "world_inv w"
    and "r < length (w_runtimes w)" and "F res"
  shows "finished r w'"
proof -
  have k: "\<And>s. known r s \<Longrightarrow> known r s \<and> True" by simp
  have "sat engine_discipline (\<lambda>a _ s. known r s \<and> ((\<forall>s. known r s \<longrightarrow> known r s) \<longrightarrow> F a \<longrightarrow> finished r s)) {#}
      (\<lambda>s. known r s \<and> True) t"
    by (rule entitledD [OF assms(1) lasting_known]) simp
  then have "\<exists>m :: string multiset. known r w' \<and> ((\<forall>s. known r s \<longrightarrow> known r s) \<longrightarrow> F res \<longrightarrow> finished r w')"
    by (rule sat_ends [OF assms(2)])
      (use assms(3,4) lasting_known in \<open>auto simp: stable_def known_def interference_def\<close>)
  then show ?thesis using assms(5) by simp
qed

text \<open>An execution that returns a record has released its runtime, whatever else ran meanwhile, and so
  has the retirement of a capture after a failure of the durable store, whatever it returns.
\<close>

theorem execution_releases:
  assumes "world_inv w" and "r < length (w_runtimes w)"
    and "ends interference (execute E polls r) w (Inr record) w' \<or> ends interference (fail_durable_store E r e) w res w'"
  shows "rt_done (w_runtimes w' ! r)"
  using assms(3) finishing_ends [OF execute_finishes _ assms(1,2)] finishing_ends [OF fail_store_finishes _ assms(1,2)]
  by (fastforce simp: finished_def)

section \<open>Terminal writes the catalog accepts\<close>

text \<open>The durable row of a submission, at any stage.\<close>

definition row_of :: "NewJob \<Rightarrow> JobRow \<Rightarrow> bool" where
  "row_of job row \<longleftrightarrow> capture_id row = nj_capture_id job \<and> instance_of row = nj_instance job \<and>
     effective_profile row = nj_effective_profile job \<and> trigger row = nj_trigger job \<and>
     origin_correlation_id row = nj_origin_correlation_id job \<and> intended_output row = nj_intended_output job \<and>
     canonical_request row = nj_canonical_request job \<and> request_hash row = nj_request_hash job \<and>
     accepted_at_ms row = nj_accepted_at_ms job \<and> job_group_id row = nj_group_id job"

definition terminal_case :: "JobState \<Rightarrow> ImageArtifact option \<Rightarrow> (error_code \<times> string) option \<Rightarrow> bool" where
  "terminal_case st success err \<longleftrightarrow>
     (st = Succeeded \<and> success \<noteq> None \<and> err = None) \<or>
     (st \<in> {Failed, Interrupted} \<and> success = None \<and> err \<noteq> None) \<or> (st = Cancelled \<and> success = None)"

definition word_size :: "nat option \<Rightarrow> bool" where
  "word_size n \<longleftrightarrow> (case n of None \<Rightarrow> True | Some k \<Rightarrow> k < 2 ^ 64)"

lemma validate_submission_Inr:
  "validate_submission E sub = Inr () \<longleftrightarrow>
     nj_capture_id (sub_job sub) = sp_capture_id (sub_spec sub) \<and> nj_instance (sub_job sub) = sp_instance (sub_spec sub) \<and>
     nj_deadlines (sub_job sub) = sp_deadlines (sub_spec sub) \<and>
     nj_accepted_at_ms (sub_job sub) = sp_accepted_at_ms (sub_spec sub) \<and>
     sp_capture_id (sub_spec sub) \<noteq> [] \<and> sp_instance (sub_spec sub) \<noteq> [] \<and> jp_name (sp_profile (sub_spec sub)) \<noteq> [] \<and>
     sp_correlation_id (sub_spec sub) \<noteq> [] \<and> jp_maximum_frame_bytes (sp_profile (sub_spec sub)) \<noteq> 0 \<and>
     ee_profile_value E (sp_profile (sub_spec sub)) = nj_effective_profile (sub_job sub) \<and>
     trigger_value (ee_chrono E) (sp_trigger (sub_spec sub)) = nj_trigger (sub_job sub) \<and>
     (case nj_origin_correlation_id (sub_job sub) of None \<Rightarrow> True | Some c \<Rightarrow> c = sp_correlation_id (sub_spec sub)) \<and>
     str_field (nj_intended_output (sub_job sub)) ''relativePath'' = Some (rp_wire (sp_relative_path (sub_spec sub))) \<and>
     group_material_ok (sp_trigger (sub_spec sub)) (nj_group_id (sub_job sub)) (sp_group_size (sub_spec sub)) = Inr ()"
  by (simp add: validate_submission_def Let_def and_then_Inr_iff ensure_Inr_iff)

lemma group_of_material:
  assumes "group_material_ok (sp_trigger spec) group_id (sp_group_size spec) = Inr ()"
  shows "fst (group_of spec) = group_id"
    and "(\<exists>q g n. sp_trigger spec = GroupCommand q g \<and> group_id = Some g \<and> snd (group_of spec) = Some n \<and>
            sp_group_size spec = Some n \<and> 2 \<le> n) \<or>
         ((\<forall>q g. sp_trigger spec \<noteq> GroupCommand q g) \<and> group_id = None \<and> snd (group_of spec) = None)"
  using assms by (auto simp: group_material_ok_def group_of_def split: CaptureTrigger.splits option.splits)

lemma trigger_value_group:
  "object_get (trigger_value ch trig) ''type'' = Some (JString ''group-command'') \<longleftrightarrow> (\<exists>q g. trig = GroupCommand q g)"
  "str_field (trigger_value ch (GroupCommand q g)) ''captureGroupId'' = Some g"
  by (cases trig) (auto simp: object_get_to_object str_field_def)

lemma body_group_ok:
  assumes "group_material_ok (sp_trigger spec) group_id (sp_group_size spec) = Inr ()" and "word_size (sp_group_size spec)"
    and "tb_trigger b = sp_trigger spec" and "tb_capture_group_id b = fst (group_of spec)"
    and "tb_group_size b = snd (group_of spec)"
  shows "group_fields_ok (body_value ch b) \<and> group_trigger_ok (body_value ch b)"
  using group_of_material [OF assms(1)] assms(2-5)
  by (auto simp: group_fields_ok_def group_trigger_ok_def body_value_fields body_value_objects trigger_value_group
        trigger_value_group(2) [simplified] json_nat_def word_size_def unat_of_nat split: option.splits)

lemma failure_of_case:
  assumes "terminal_case st success err"
  shows "\<exists>failure kind. failure_of tr st err = Inr failure \<and> terminal_kind st = Inr kind \<and>
     kind_violation kind (success \<noteq> None) (failure \<noteq> None) = None"
  using assms by (auto simp: terminal_case_def failure_of_def)

text \<open>Chrono converts the milliseconds of its range to a date and returns nothing outside it. The theorems need it for the moments
  between 1970 and the year 10000 only, and for the moments a capture has recorded.\<close>

definition calendar_ms :: "int \<Rightarrow> bool" where
  "calendar_ms t \<longleftrightarrow> 0 \<le> t \<and> t < 253402300800000"

definition recorded_moments :: "CaptureJobSpec \<Rightarrow> ExecutionTrace \<Rightarrow> int option \<Rightarrow> int set" where
  "recorded_moments spec tr persisted = {sp_accepted_at_ms spec} \<union> set_option (et_acquisition_started_at_ms tr) \<union>
     set_option (et_frame_received_at_ms tr) \<union>
     set_option (case persisted of None \<Rightarrow> et_persisted_at_ms tr | Some t \<Rightarrow> Some t)"

lemma timestamps_total:
  assumes "\<And>t. calendar_ms t \<Longrightarrow> dt_of_millis ch t \<noteq> None" and "\<forall>t \<in> recorded_moments spec tr p. calendar_ms t"
  shows "\<exists>stamps. trace_timestamps ch spec tr p = Inr stamps"
proof -
  have d: "\<exists>v. datetime ch t = Inr v" if "t \<in> recorded_moments spec tr p" for t
    using assms that by (fastforce simp: datetime_def ok_or_def split: option.splits)
  have o: "\<exists>v. optional_datetime ch x = Inr v" if "set_option x \<subseteq> recorded_moments spec tr p" for x
    using d that by (cases x) (auto simp: optional_datetime_def, metis and_then_simps(2))
  let ?p = "case p of None \<Rightarrow> et_persisted_at_ms tr | Some t \<Rightarrow> Some t"
  have sub: "sp_accepted_at_ms spec \<in> recorded_moments spec tr p"
    "set_option (et_acquisition_started_at_ms tr) \<subseteq> recorded_moments spec tr p"
    "set_option (et_frame_received_at_ms tr) \<subseteq> recorded_moments spec tr p" "set_option ?p \<subseteq> recorded_moments spec tr p"
    unfolding recorded_moments_def by blast+
  from d [OF sub(1)] o [OF sub(2)] o [OF sub(3)] o [OF sub(4)] show ?thesis by (auto simp: trace_timestamps_def)
qed

lemma terminal_write_ok:
  assumes "validate_submission E sub = Inr ()" and "word_size (sp_group_size (sub_spec sub))"
    and "row_of (sub_job sub) row" and "rt_spec rt = sub_spec sub" and "event \<noteq> []"
    and "\<And>t. calendar_ms t \<Longrightarrow> dt_of_millis (ee_chrono E) t \<noteq> None"
    and "\<forall>t \<in> recorded_moments (sub_spec sub) (rt_trace rt) persisted. calendar_ms t" and "terminal_case st success err"
  shows "\<exists>wr. make_terminal_write (ee_chrono E) event rt st success err terminal_at persisted = Inr (wr, tw_result wr) \<and>
    tw_state wr = st \<and> validate_terminal_write wr = Inr () \<and> validate_terminal_for_job wr row = Inr () \<and>
    (\<exists>kind base. terminal_kind st = Inr kind \<and> from_committed_body kind (tw_result wr) = Inr base)"
proof -
  note valid = assms(1) [unfolded validate_submission_Inr]
  let ?spec = "sub_spec sub"
  obtain failure kind where f: "failure_of (rt_trace rt) st err = Inr failure" "terminal_kind st = Inr kind"
    "kind_violation kind (success \<noteq> None) (failure \<noteq> None) = None"
    using failure_of_case [OF assms(8)] by blast
  obtain stamps where t: "trace_timestamps (ee_chrono E) ?spec (rt_trace rt) persisted = Inr stamps"
    using timestamps_total [OF assms(6,7)] by blast
  let ?b = "terminal_body_of event ?spec (rt_trace rt) success failure stamps terminal_at"
  let ?body = "body_value (ee_chrono E) ?b"
  have b: "tb_image ?b = success" "tb_failure ?b = failure" "tb_trigger ?b = sp_trigger ?spec"
    "tb_capture_group_id ?b = fst (group_of ?spec)" "tb_group_size ?b = snd (group_of ?spec)"
    "tb_schema_version ?b = 1" "tb_capture_id ?b = sp_capture_id ?spec" "tb_camera_id ?b = sp_instance ?spec"
    "tb_correlation_id ?b = sp_correlation_id ?spec" "tb_event_id ?b = event" "tb_capture_profile ?b = jp_name (sp_profile ?spec)"
    by (simp_all add: terminal_body_of_def TERMINAL_SCHEMA_VERSION_def)
  have group_ok: "group_fields_ok ?body \<and> group_trigger_ok ?body"
    using body_group_ok [OF _ assms(2) b(3-5)] valid by blast
  have version: "Option.bind (object_get ?body ''schemaVersion'') json_as_u64 = Some 1"
    by (simp add: body_value_objects b json_nat_def)
  have message: "new_message (ee_chrono E) kind ?b = Inr \<lparr>tm_kind = kind, tm_body = ?body\<rparr>"
    using valid group_ok version f(3) assms(5)
    by (simp add: new_message_def b TERMINAL_SCHEMA_VERSION_def from_committed_body_Inr body_value_present required_fields_def
        body_value_fields)
  then have base: "from_committed_body kind ?body = Inr \<lparr>tm_kind = kind, tm_body = ?body\<rparr>"
    by (simp add: new_message_def b TERMINAL_SCHEMA_VERSION_def)
  let ?wr = "\<lparr>tw_state = st, tw_result = ?body, tw_error_code = map_option (error_code_as_str \<circ> fst) err,
     tw_error_message = map_option snd err, tw_terminal_at_ms = terminal_at\<rparr>"
  have made: "make_terminal_write (ee_chrono E) event rt st success err terminal_at persisted = Inr (?wr, ?body)"
    by (simp add: make_terminal_write_def assms(4) f t message)
  have str: "body_str ?wr field = str_field ?body field" for field by (simp add: body_str_def str_field_def)
  have st: "is_terminal st" "st = Succeeded \<Longrightarrow> err = None" "st \<in> {Failed, Interrupted} \<Longrightarrow> err \<noteq> None"
    using assms(8) by (auto simp: terminal_case_def)
  then have "terminal_error_ok ?wr = Inr ()" by (auto simp: terminal_error_ok_def ensure_Inr_iff split: JobState.splits)
  then have "validate_terminal_write ?wr = Inr ()"
    using st(1) version valid assms(5)
    by (simp add: validate_terminal_write_def and_then_Inr_iff ensure_Inr_iff require_object_def terminal_body_def
        str body_value_fields b for_each_Inr_iff)
  moreover have "validate_terminal_for_job ?wr row = Inr ()"
    using valid assms(3) group_of_material(1) [of ?spec "nj_group_id (sub_job sub)"]
    by (auto simp: validate_terminal_for_job_def and_then_Inr_iff ensure_Inr_iff terminal_body_def row_of_def
        str body_value_fields b split: option.splits)
  ultimately show ?thesis using made f(2) base by (intro exI [of _ ?wr]) auto
qed

text \<open>C11: take a runtime whose specification passed the checks of a submission for its durable row, as that of every accepted
  capture has. Every terminal result composed for it, success, failure, interruption or cancellation at any stage, is built
  without error and passes every check the catalog makes of a terminal write and of its fit to the row, and every check
  of the announcement, as long as the moments the capture has recorded lie between 1970 and the year 10000, which chrono
  can express. (The runtime that the engine makes to interrupt a member of a group has a specification that would not pass: it
  names a group of one.)
\<close>

theorem terminal_write_accepted:
  assumes "validate_submission E sub = Inr ()" and "word_size (sp_group_size (sub_spec sub))"
    and "row_of (sub_job sub) row" and "rt_spec rt = sub_spec sub" and "event \<noteq> []"
    and "\<And>t. calendar_ms t \<Longrightarrow> dt_of_millis (ee_chrono E) t \<noteq> None"
    and "\<forall>t \<in> recorded_moments (sub_spec sub) (rt_trace rt) persisted. calendar_ms t" and "terminal_case st success err"
  shows "\<exists>wr. make_terminal_write (ee_chrono E) event rt st success err terminal_at persisted = Inr (wr, tw_result wr) \<and>
    tw_state wr = st \<and> validate_terminal_write wr = Inr () \<and> validate_terminal_for_job wr row = Inr () \<and>
    (\<exists>kind base. terminal_kind st = Inr kind \<and> from_committed_body kind (tw_result wr) = Inr base)"
  by (rule terminal_write_ok [OF assms])

section \<open>Recovery of waiting captures\<close>




section \<open>Failures are recorded and announced\<close>

lemma run_answer [simp]: "run_alone (answer f) w = (Some (f (w_tick w)), next_tick w)"
  by (simp add: answer_def)

lemma run_now [simp]: "run_alone (now_ms E) w = (Some (ee_now E (w_tick w)), next_tick w)"
  by (simp add: now_ms_def)

lemma run_store:
  "run_alone (store_call E f) w = (case ee_store_fault E (w_tick w) of
     None \<Rightarrow> (Some (snd (f (w_catalog w))), next_tick (w\<lparr>w_catalog := fst (f (w_catalog w))\<rparr>))
   | Some (e, applied) \<Rightarrow> (Some (Inl e), next_tick (if applied then w\<lparr>w_catalog := fst (f (w_catalog w))\<rparr> else w)))"
  by (auto simp: store_call_def transact_def logged_def next_tick_def split: option.splits sum.splits)

lemma run_note [simp]: "run_alone (note_event e) w = (Some (), logged [e] w)"
  by (simp add: note_event_def)

lemma world_parts [simp]:
  "w_catalog (next_tick w) = w_catalog w" "w_runtimes (next_tick w) = w_runtimes w" "w_log (next_tick w) = w_log w"
  "w_tick (next_tick w) = Suc (w_tick w)" "runtime_of r (next_tick w) = runtime_of r w"
  "w_catalog (logged es w) = w_catalog w" "w_runtimes (logged es w) = w_runtimes w" "w_log (logged es w) = w_log w @ es"
  "w_tick (logged es w) = w_tick w" "runtime_of r (logged es w) = runtime_of r w"
  by (simp_all add: next_tick_def logged_def runtime_of_def)

lemma terminal_wins:
  assumes "ids_unique db" and "select_row capture_id c (jobs db) = Some row" and "validate_terminal_write wr = Inr ()"
    and "validate_terminal_for_job wr row = Inr ()" and "tw_state wr = Failed" and "can_transition_to (state row) Failed"
  shows "\<exists>db' rec. commit_terminal c wr db = (db', Inr (Won rec)) \<and> select_row capture_id c (jobs db') = Some (fst rec) \<and>
    capture_id (fst rec) = c \<and> state (fst rec) = Failed \<and> terminal_result (fst rec) = Some (tw_result wr)"
proof -
  have row: "row \<in> set (jobs db)" "capture_id row = c" "\<not> is_terminal (state row)"
    using select_row_Some [OF assms(2)] assms(6) terminal_no_transition by auto
  then have one: "count_where (at_job c (\<lambda>r. \<not> is_terminal (state r))) (jobs db) = 1"
    using count_where_unique [of capture_id "jobs db" c "\<lambda>r. \<not> is_terminal (state r)"] assms(1,2)
    by (simp add: ids_unique_def at_job_def [abs_def])
  have "\<exists>db' rec. terminal_blocking c wr False None db = Inr (db', Won rec)"
    using assms(2-6) row one
    by (auto simp: terminal_blocking_def load_job_required_def load_job_def ok_or_def Let_def update_jobs_def
        select_row_update at_job_def unfinished_def)
  then obtain db' rec where b: "terminal_blocking c wr False None db = Inr (db', Won rec)" by blast
  then have "commit_terminal c wr db = (db', Inr (Won rec))"
    using assms(3,5) by (simp add: commit_terminal_def commit_def ensure_def)
  then show ?thesis using won_row [OF b] terminal_won [OF b] assms(5) by auto
qed


lemma run_terminal_call:
  assumes "ee_store_fault E (w_tick w) = None" and "f (w_catalog w) = (db', Inr (Won rec))"
  shows "run_alone (terminal_call E c f) w =
    (Some (Inr (Won rec)), logged [TerminalWon c] (next_tick (w\<lparr>w_catalog := db'\<rparr>)))"
  using assms by (simp add: terminal_call_def transact_def)

lemma run_announce_terminal:
  assumes "terminal_kind (state row) = Inr kind" and "from_committed_body kind body = Inr base"
  shows "\<exists>w'. run_alone (announce_terminal E row body None) w = (Some (), w') \<and> w_catalog w' = w_catalog w \<and>
    w_runtimes w' = w_runtimes w \<and>
    (Delivered (capture_id row) base \<in> set (w_log w') \<or> (\<exists>e. Undelivered (capture_id row) base e \<in> set (w_log w') \<and> (\<exists>k. ee_announce E k base = Inl e)))"
  using assms
  by (cases "ee_announce E (w_tick w) base")
    (auto simp: announce_terminal_def run_alone_rules announce_with_preview_def announce_def)

text \<open>Tasks that come to an end and leave jobs, runtimes and what was logged as they are.\<close>

definition gentle :: "'a job_task \<Rightarrow> bool" where
  "gentle t \<longleftrightarrow> (\<forall>w. \<exists>a w' es. run_alone t w = (Some a, w') \<and> jobs (w_catalog w') = jobs (w_catalog w) \<and>
     w_runtimes w' = w_runtimes w \<and> w_log w' = w_log w @ es)"

lemma gentle_return: "gentle (Return a)"
  by (simp add: gentle_def)

lemma gentle_action:
  assumes "\<And>w. jobs (w_catalog (snd (f w))) = jobs (w_catalog w)" and "\<And>w. w_runtimes (snd (f w)) = w_runtimes w"
    and "\<And>w. \<exists>es. w_log (snd (f w)) = w_log w @ es"
  shows "gentle (action f)"
  using assms by (simp add: gentle_def)

lemma gentle_bind:
  assumes "gentle t" and "\<And>a. gentle (f a)"
  shows "gentle (bind_task t f)"
  unfolding gentle_def
proof
  fix w
  obtain a w1 es where 1: "run_alone t w = (Some a, w1)" "jobs (w_catalog w1) = jobs (w_catalog w)"
    "w_runtimes w1 = w_runtimes w" "w_log w1 = w_log w @ es"
    using assms(1) unfolding gentle_def by blast
  obtain b w2 es' where 2: "run_alone (f a) w1 = (Some b, w2)" "jobs (w_catalog w2) = jobs (w_catalog w1)"
    "w_runtimes w2 = w_runtimes w1" "w_log w2 = w_log w1 @ es'"
    using assms(2) unfolding gentle_def by blast
  show "\<exists>a w' es. run_alone (bind_task t f) w = (Some a, w') \<and> jobs (w_catalog w') = jobs (w_catalog w) \<and>
      w_runtimes w' = w_runtimes w \<and> w_log w' = w_log w @ es"
    using 1 2 by (simp add: run_alone_bind)
qed

lemma gentle_store:
  assumes "\<And>db. jobs (fst (f db)) = jobs db"
  shows "gentle (store_call E f)"
  unfolding store_call_def transact_def
  by (rule gentle_action) (auto simp: assms split: option.splits sum.splits)

lemma gentle_leaves:
  "gentle (note_event e)" "gentle (now_ms E)" "gentle (take_tokens c)" "gentle (take_group_tokens g)"
  "gentle (reply E subject waiter body)" "gentle (drop_waiter E waiter)"
  unfolding note_event_def update_def now_ms_def answer_def take_tokens_def take_group_tokens_def reply_def drop_waiter_def
  by (auto intro!: gentle_action gentle_store simp: remove_waiter_def)

lemma jobs_complete_group: "jobs (fst (complete_group g st body code message t db)) = jobs db"
proof (cases "is_terminal st")
  case True
  then show ?thesis
    by (cases "complete_group_blocking g st body code message t db")
      (auto simp: complete_group_def commit_def complete_group_blocking_def and_then_Inr_iff Let_def split: if_splits)
qed (simp add: complete_group_def)

lemmas gentle_rules = gentle_return gentle_bind gentle_leaves gentle_store

lemma gentle_replies: "gentle (reply_all E c body ids)" "gentle (reply_group E g body ids)"
  by (induction ids) (auto intro!: gentle_rules)

lemma gentle_settle: "gentle (settle E row body)"
  unfolding settle_def settle_waiters_def complete_group_if_terminal_def settle_group_waiters_def
  by (auto intro!: gentle_rules gentle_replies simp: jobs_complete_group split: option.splits sum.splits)

lemma run_after_terminal:
  assumes "terminal_kind (state row) = Inr kind" and "from_committed_body kind body = Inr base" and "r < length (w_runtimes w)"
  shows "\<exists>w'. run_alone (after_terminal E r row body None) w = (Some (), w') \<and> jobs (w_catalog w') = jobs (w_catalog w) \<and>
    rt_done (runtime_of r w') \<and> r < length (w_runtimes w') \<and>
    (Delivered (capture_id row) base \<in> set (w_log w') \<or> (\<exists>e. Undelivered (capture_id row) base e \<in> set (w_log w') \<and> (\<exists>k. ee_announce E k base = Inl e)))"
proof -
  let ?w = "(on_runtime r (\<lambda>rt. rt\<lparr>rt_done := True\<rparr>) w)\<lparr>w_active := bt_remove (capture_of r w) (w_active w)\<rparr>"
  obtain w1 where 1: "run_alone (announce_terminal E row body None) ?w = (Some (), w1)" "w_catalog w1 = w_catalog ?w"
    "w_runtimes w1 = w_runtimes ?w"
    "Delivered (capture_id row) base \<in> set (w_log w1) \<or> (\<exists>e. Undelivered (capture_id row) base e \<in> set (w_log w1) \<and> (\<exists>k. ee_announce E k base = Inl e))"
    using run_announce_terminal [OF assms(1,2)] by blast
  obtain w2 es where 2: "run_alone (settle E row body) w1 = (Some (), w2)" "jobs (w_catalog w2) = jobs (w_catalog w1)"
    "w_runtimes w2 = w_runtimes w1" "w_log w2 = w_log w1 @ es"
    using gentle_settle [of E row body] unfolding gentle_def by (metis (full_types) old.unit.exhaust)
  show ?thesis
    using 1 2 assms(3)
    by (intro exI [of _ w2]) (auto simp: after_terminal_def run_alone_rules complete_runtime_def on_runtime_def runtime_of_def)
qed

lemma failure_runs:
  assumes "validate_submission E sub = Inr ()" and "word_size (sp_group_size (sub_spec sub))"
    and "row_of (sub_job sub) row" and "rt_spec (runtime_of r w) = sub_spec sub" and "r < length (w_runtimes w)"
    and "\<And>k. ee_event_id E k \<noteq> []" and "\<And>t. calendar_ms t \<Longrightarrow> dt_of_millis (ee_chrono E) t \<noteq> None"
    and "\<forall>t \<in> recorded_moments (sub_spec sub) (rt_trace (runtime_of r w)) None. calendar_ms t" and "\<And>k. ee_store_fault E k = None"
    and "ids_unique (w_catalog w)" and "select_row capture_id (capture_of r w) (jobs (w_catalog w)) = Some row"
    and "can_transition_to (state row) Failed" and "\<not> install_started row"
  shows "\<exists>rec w' m. run_alone (finish_failure E r code message) w = (Some (Inr rec), w') \<and> state (fst rec) = Failed \<and>
    select_row capture_id (capture_of r w) (jobs (w_catalog w')) = Some (fst rec) \<and> rt_done (runtime_of r w') \<and>
    announces (fst rec) m \<and>
    (Delivered (capture_of r w) m \<in> set (w_log w') \<or> (\<exists>e. Undelivered (capture_of r w) m e \<in> set (w_log w') \<and> (\<exists>k. ee_announce E k m = Inl e)))"
proof -
  let ?c = "capture_of r w" and ?t = "w_tick w"
  obtain wr kind base where wr: "make_terminal_write (ee_chrono E) (ee_event_id E (Suc (Suc ?t))) (runtime_of r w) Failed None
      (Some (code, bounded_detail message)) (ee_now E (Suc ?t)) None = Inr (wr, tw_result wr)"
    and ok: "tw_state wr = Failed" "validate_terminal_write wr = Inr ()" "validate_terminal_for_job wr row = Inr ()"
    and kind: "terminal_kind Failed = Inr kind" "from_committed_body kind (tw_result wr) = Inr base"
    using terminal_write_ok [OF assms(1-4) assms(6) [of "Suc (Suc ?t)"] assms(7,8),
        where st = Failed and success = None and err = "Some (code, bounded_detail message)" and
          terminal_at = "ee_now E (Suc ?t)"]
    by (auto simp: terminal_case_def)
  obtain db' rec where won: "commit_terminal ?c wr (w_catalog w) = (db', Inr (Won rec))"
    and rec: "select_row capture_id ?c (jobs db') = Some (fst rec)" "capture_id (fst rec) = ?c" "state (fst rec) = Failed"
      "terminal_result (fst rec) = Some (tw_result wr)"
    using terminal_wins [OF assms(10,11) ok(2,3,1) assms(12)] by blast
  let ?w1 = "next_tick (next_tick (next_tick w))"
  let ?w2 = "logged [TerminalWon ?c] (next_tick (?w1\<lparr>w_catalog := db'\<rparr>))"
  obtain w3 where w3: "run_alone (after_terminal E r (fst rec) (tw_result wr) None) ?w2 = (Some (), w3)"
    "jobs (w_catalog w3) = jobs (w_catalog ?w2)" "rt_done (runtime_of r w3)" "r < length (w_runtimes w3)"
    "Delivered ?c base \<in> set (w_log w3) \<or> (\<exists>e. Undelivered ?c base e \<in> set (w_log w3) \<and> (\<exists>k. ee_announce E k base = Inl e))"
    using run_after_terminal [of "fst rec" kind "tw_result wr" base r ?w2 E] kind rec assms(5) by auto
  let ?w4 = "on_runtime r (\<lambda>rt. rt\<lparr>rt_cancellation := True\<rparr>) w3"
  have "run_alone (terminal_call E ?c (commit_terminal ?c wr)) ?w1 = (Some (Inr (Won rec)), ?w2)"
    by (rule run_terminal_call) (simp_all add: assms(9) won)
  then have "run_alone (finish_failure E r code message) w = (Some (Inr rec), ?w4)"
    using w3(1) wr
    by (simp add: finish_failure_def run_alone_rules stored_job_def run_store assms(9,11,13) load_job_def filter_option_def
        terminal_write_def finish_terminal_outcome_def cancel_token_def)
  moreover have "announces (fst rec) base" using kind rec by (auto simp: announces_def)
  moreover have "rt_done (runtime_of r ?w4)" using w3(3,4) by (simp add: on_runtime_def runtime_of_def)
  ultimately show ?thesis using rec w3(2,5)
    by (intro exI [of _ rec] exI [of _ ?w4] exI [of _ base]) (auto simp: on_runtime_def)
qed

text \<open>C10: with a store that works, and with no other task acting meanwhile, failing a capture that is not yet decided and not
  being installed records the failure, releases the runtime, and offers the announcement of exactly the recorded result
  to the bus, which has it unless the bus refused it. The capture's submission passed its checks, event identifiers are not
  empty, and the moments the capture has recorded lie between 1970 and the year 10000, which chrono can express.
\<close>

theorem failure_is_announced:
  assumes "validate_submission E sub = Inr ()" and "word_size (sp_group_size (sub_spec sub))"
    and "row_of (sub_job sub) row" and "rt_spec (runtime_of r w) = sub_spec sub" and "r < length (w_runtimes w)"
    and "\<And>k. ee_event_id E k \<noteq> []" and "\<And>t. calendar_ms t \<Longrightarrow> dt_of_millis (ee_chrono E) t \<noteq> None"
    and "\<forall>t \<in> recorded_moments (sub_spec sub) (rt_trace (runtime_of r w)) None. calendar_ms t" and "\<And>k. ee_store_fault E k = None"
    and "ids_unique (w_catalog w)" and "select_row capture_id (capture_of r w) (jobs (w_catalog w)) = Some row"
    and "can_transition_to (state row) Failed" and "\<not> install_started row"
  shows "\<exists>rec w' m. run_alone (finish_failure E r code message) w = (Some (Inr rec), w') \<and> state (fst rec) = Failed \<and>
    select_row capture_id (capture_of r w) (jobs (w_catalog w')) = Some (fst rec) \<and> rt_done (runtime_of r w') \<and>
    announces (fst rec) m \<and>
    (Delivered (capture_of r w) m \<in> set (w_log w') \<or> (\<exists>e. Undelivered (capture_of r w) m e \<in> set (w_log w') \<and> (\<exists>k. ee_announce E k m = Inl e)))"
  by (rule failure_runs [OF assms])

section \<open>Interruption of a group member\<close>

lemma single_member_refused:
  assumes "sp_trigger spec = GroupCommand q g" and "sp_group_size spec = Some 1" and "rt_spec rt = spec"
  shows "isl (make_terminal_write ch event rt st success err terminal_at persisted)"
proof -
  have "\<not> group_fields_ok (body_value ch b)" if "tb_capture_group_id b = Some g" "tb_group_size b = Some 1" for b
    using that by (simp add: group_fields_ok_def body_value_fields body_value_objects json_nat_def)
  then have "isl (new_message ch kind (terminal_body_of event spec tr success failure stamps terminal_at))"
    for kind tr failure stamps
    using assms(1,2) by (auto simp: new_message_def from_committed_body_def group_of_def terminal_body_of_def
      isl_def and_then_def ensure_def split: sum.splits)
  then show ?thesis
    by (auto simp: make_terminal_write_def assms(3) isl_def and_then_def split: sum.splits) (metis sum.distinct(1))
qed

lemma spec_from_record_Inr:
  "spec_from_record E row rg gs = Inr spec \<Longrightarrow>
     sp_group_size spec = gs \<and> trigger_of_value (ee_chrono E) (trigger row) = Some (sp_trigger spec)"
  by (auto simp: spec_from_record_def and_then_Inr_iff ok_or_def split: option.splits)

text \<open>C31: a capture that belongs to a group is never interrupted: neither after a restart nor for a reload does
  the engine reach the catalog with the interruption, because it names a group of one member, which no message may;
  it returns an error, and the row, the announcements and the waiters stay as they were.
\<close>

theorem group_member_not_interrupted:
  assumes "trigger_of_value (ee_chrono E) (trigger (fst record)) = Some (GroupCommand q g)"
    and "job_group_id (fst record) = Some g"
  shows "\<exists>e w'. run_alone (interrupt_nonterminal E record message) w = (Some (Inl e), w') \<and>
    w_catalog w' = w_catalog w \<and> w_log w' = w_log w"
proof (cases "is_terminal (state (fst record)) \<or> install_started (fst record)")
  case True
  then show ?thesis by (simp add: interrupt_nonterminal_def Let_def)
next
  case False
  show ?thesis
  proof (cases "spec_from_record E (fst record) None (Some 1)")
    case (Inl e)
    then show ?thesis using False assms by (simp add: interrupt_nonterminal_def Let_def)
  next
    case (Inr spec)
    let ?rt = "fresh_runtime spec (bare_camera (cm_backend (sp_camera spec)))"
    have "sp_trigger spec = GroupCommand q g" "sp_group_size spec = Some 1"
      using spec_from_record_Inr [OF Inr] assms(1) by auto
    then obtain e where "make_terminal_write (ee_chrono E) (ee_event_id E (Suc (w_tick w))) ?rt Interrupted None
        (Some (ProcessInterrupted, message)) (ee_now E (w_tick w)) None = Inl e"
      by (metis single_member_refused isl_def fresh_runtime_def JobRuntime.select_convs(1))
    then show ?thesis using False Inr assms(2)
      by (simp add: interrupt_nonterminal_def Let_def run_alone_rules unregistered_runtime_def terminal_write_def
          runtime_of_def next_tick_def)
  qed
qed

section \<open>Deadlines\<close>

lemma reserve_decode_runs:
  "\<exists>thumbnail w'. run_alone (reserve_decode E frame requested) w = (Some thumbnail, w') \<and> w_catalog w' = w_catalog w \<and>
     w_runtimes w' = w_runtimes w \<and> w_tick w \<le> w_tick w'"
  by (auto simp: reserve_decode_def run_alone_rules split: option.splits sum.splits)

text \<open>C32: the clock that stops encoding is the one set when the capture was accepted, not the one the capture was given when a
  camera took it. Take a capture that must be encoded, that has its writer permit and is not cancelled: once the encoding
  deadline of its acceptance has passed, whatever its deadlines are now, the worker is still spawned with the frame, but the capture
  is failed with a timeout, before anything durable was written about it, even if the worker has finished.
\<close>

theorem late_encoding_times_out:
  assumes "requires_encoding (rt_spec (runtime_of r w))" and "r < length (w_runtimes w)"
    and "ee_acquire_writer E (w_tick w) = Inr ()" and "\<not> rt_cancellation (runtime_of r w)"
    and "\<And>k. w_tick w < k \<Longrightarrow> dl_encode_at_ms (sp_deadlines (rt_spec (runtime_of r w))) \<le> ee_now E k"
  shows "\<exists>w'. run_alone (encode_and_persist E r c frame) w =
      run_alone (finish_error E r (job_timeout_error ''encoding/persistence'')) w' \<and>
    WorkerSpawned (capture_of r w) \<in> set (w_log w') \<and> rt_cancellation (runtime_of r w') \<and> w_catalog w' = w_catalog w"
proof -
  let ?spec = "rt_spec (runtime_of r w)"
  obtain thumbnail w1 where w1: "run_alone (reserve_decode E frame (prof_thumbnail (jp_capture (sp_profile ?spec)))) (next_tick w) =
      (Some thumbnail, w1)" "w_catalog w1 = w_catalog w" "w_runtimes w1 = w_runtimes w" "Suc (w_tick w) \<le> w_tick w1"
    using reserve_decode_runs [of E frame _ "next_tick w"] by fastforce
  then have same: "runtime_of r w1 = runtime_of r w" "capture_of r w1 = capture_of r w" by (simp_all add: runtime_of_def capture_of_def)
  let ?w = "next_tick (on_runtime r (\<lambda>rt. rt\<lparr>rt_cancellation := True\<rparr>) (logged [WorkerSpawned (capture_of r w)] w1))"
  have "dl_encode_at_ms (sp_deadlines ?spec) \<le> ee_now E (w_tick w1)" using assms(5) [of "w_tick w1"] w1(4) by simp
  then have late: "min (dl_encode_at_ms (sp_deadlines ?spec)) (dl_persist_at_ms (rt_deadlines (runtime_of r w))) \<le> ee_now E (w_tick w1)"
    by linarith
  have "run_alone (encode_and_persist E r c frame) w =
      run_alone (finish_error E r (job_timeout_error ''encoding/persistence'')) ?w"
    using assms(1,3,4) late
    by (simp add: encode_and_persist_def or_finish_def run_alone_rules prepare_blocking_def w1(1) same Let_def)
  moreover have "rt_cancellation (runtime_of r ?w)" using assms(2) w1(3) by (simp add: on_runtime_def runtime_of_def)
  ultimately show ?thesis using w1(2) by (intro exI [of _ ?w]) (simp add: on_runtime_def)
qed

lemma reschedule_cases:
  assumes "select_row capture_id c (jobs db) = Some row" and "c \<noteq> []"
  shows "if state row = Queued \<and> deadlines_ok d
     then isl (snd (reschedule_deadlines c d t db)) = False \<and>
       select_row capture_id c (jobs (fst (reschedule_deadlines c d t db))) = Some (row\<lparr>deadlines := d, updated_at_ms := t\<rparr>)
     else isl (snd (reschedule_deadlines c d t db)) \<and> fst (reschedule_deadlines c d t db) = db"
proof -
  have "select_row capture_id c (update_where (at_job c (\<lambda>_. True)) (\<lambda>r. r\<lparr>deadlines := d, updated_at_ms := t\<rparr>) (jobs db))
      = Some (row\<lparr>deadlines := d, updated_at_ms := t\<rparr>)"
    using assms(1) select_row_Some [OF assms(1)] by (subst select_row_update) (auto simp: at_job_def)
  then show ?thesis using assms
    by (auto simp: reschedule_deadlines_def check_deadlines_def require_nonempty_def ensure_def commit_def
        reschedule_blocking_def load_job_def update_jobs_def ok_or_def Let_def split: sum.splits)
qed

text \<open>No deadline of an admission overflows.\<close>

definition no_overflow :: "int \<Rightarrow> int \<Rightarrow> TimeoutsConfig \<Rightarrow> bool" where
  "no_overflow now budget timeouts \<longleftrightarrow> 0 \<le> now \<and> 0 \<le> budget \<and> now + budget \<le> i64_max \<and>
     list_all (\<lambda>m. now + int (unat m) \<le> i64_max) [capture_ms timeouts, encode_ms timeouts, persist_ms timeouts]"

lemma rebased_exactly:
  assumes "no_overflow now (dl_terminal_at_ms (sp_deadlines spec) - sp_accepted_at_ms spec) timeouts"
  shows "rebased_deadlines spec timeouts now =
    \<lparr>dl_terminal_at_ms = now + (dl_terminal_at_ms (sp_deadlines spec) - sp_accepted_at_ms spec),
     dl_queue_at_ms = dl_queue_at_ms (sp_deadlines spec),
     dl_capture_at_ms = now + int (unat (capture_ms timeouts)), dl_encode_at_ms = now + int (unat (encode_ms timeouts)),
     dl_persist_at_ms = now + int (unat (persist_ms timeouts))\<rparr>"
proof -
  have s: "saturate_i64 (now + x) = now + x" if "now + x \<le> i64_max" "0 \<le> x" for x
    using that assms by (simp add: saturate_i64_def i64_min_def no_overflow_def)
  have m: "i64_of_u64 m = int (unat m)" if "now + int (unat m) \<le> i64_max" for m
  proof -
    have "int (unat m) < 2 ^ 63" using that assms unfolding no_overflow_def i64_max_def by linarith
    then have "int (unat m) < int (2 ^ 63)" by (simp only: of_nat_power of_nat_numeral)
    then have "unat m < 2 ^ 63" by (simp only: of_nat_less_iff)
    then show ?thesis by (simp add: i64_of_u64_def)
  qed
  have "max 0 (saturate_i64 (dl_terminal_at_ms (sp_deadlines spec) - sp_accepted_at_ms spec)) =
      dl_terminal_at_ms (sp_deadlines spec) - sp_accepted_at_ms spec"
    using assms by (simp add: saturate_i64_def i64_min_def no_overflow_def)
  then show ?thesis using assms by (simp add: rebased_deadlines_def Let_def s m no_overflow_def)
qed

text \<open>When a camera takes a waiting capture, its durable row and its running clocks move together to the same
  deadlines, each stage and the whole budget counted from that moment and the bound on waiting left alone; this is
  done exactly when the row is still waiting and every stage fits in the budget, and otherwise nothing changes.
\<close>

theorem rebased_on_admission:
  assumes "select_row capture_id (capture_of r w) (jobs (w_catalog w)) = Some row" and "capture_of r w \<noteq> []"
    and "r < length (w_runtimes w)" and "ee_store_fault E (Suc (w_tick w)) = None"
    and "spec = rt_spec (runtime_of r w)" and "now = ee_now E (w_tick w)"
    and "budget = dl_terminal_at_ms (sp_deadlines spec) - sp_accepted_at_ms spec" and "no_overflow now budget timeouts"
    and "d = \<lparr>dl_terminal_at_ms = now + budget, dl_queue_at_ms = dl_queue_at_ms (sp_deadlines spec),
       dl_capture_at_ms = now + int (unat (capture_ms timeouts)), dl_encode_at_ms = now + int (unat (encode_ms timeouts)),
       dl_persist_at_ms = now + int (unat (persist_ms timeouts))\<rparr>"
  shows "\<exists>res w'. run_alone (rebase_onto_admission E r timeouts) w = (Some res, w') \<and>
    (if state row = Queued \<and> (\<forall>q. dl_queue_at_ms (sp_deadlines spec) = Some q \<longrightarrow> q \<le> now + budget) \<and>
        (\<forall>m \<in> {capture_ms timeouts, encode_ms timeouts, persist_ms timeouts}. int (unat m) \<le> budget)
     then res = Inr () \<and>
       select_row capture_id (capture_of r w) (jobs (w_catalog w')) = Some (row\<lparr>deadlines := d, updated_at_ms := now\<rparr>) \<and>
       runtime_of r w' = (runtime_of r w)\<lparr>rt_deadlines := d, rt_rebased := Suc (rt_rebased (runtime_of r w))\<rparr>
     else isl res \<and> w_catalog w' = w_catalog w \<and> w_runtimes w' = w_runtimes w)"
proof -
  have d: "rebased_deadlines spec timeouts now = d"
    using rebased_exactly [of now spec timeouts] assms(7-9) by simp
  have ok: "deadlines_ok d \<longleftrightarrow> (\<forall>q. dl_queue_at_ms (sp_deadlines spec) = Some q \<longrightarrow> q \<le> now + budget) \<and>
      (\<forall>m \<in> {capture_ms timeouts, encode_ms timeouts, persist_ms timeouts}. int (unat m) \<le> budget)"
    by (auto simp: assms(9) deadlines_ok_def split: option.splits)
  let ?r = "reschedule_deadlines (capture_of r w) d now (w_catalog w)"
  have c: "sp_capture_id spec = capture_of r w" by (simp add: assms(5) capture_of_def)
  have same: "rt_spec (runtime_of r w) = spec" by (simp add: assms(5))
  have run: "run_alone (rebase_onto_admission E r timeouts) w =
      (case snd ?r of Inl e \<Rightarrow> (Some (Inl e), next_tick ((next_tick w)\<lparr>w_catalog := fst ?r\<rparr>))
       | Inr _ \<Rightarrow> (Some (Inr ()), on_runtime r (\<lambda>rt. rt\<lparr>rt_rebased := Suc (rt_rebased rt)\<rparr>)
           (on_runtime r (\<lambda>rt. rt\<lparr>rt_deadlines := d\<rparr>) (next_tick ((next_tick w)\<lparr>w_catalog := fst ?r\<rparr>)))))"
    using assms(4) by (auto simp: rebase_onto_admission_def run_alone_rules run_store same c assms(6)[symmetric] d
        split: sum.splits)
  show ?thesis
    using reschedule_cases [OF assms(1,2), of d now] assms(3) unfolding run ok [symmetric]
    by (auto simp: on_runtime_def next_tick_def runtime_of_def isl_def split: sum.splits if_splits)
qed

section \<open>Concrete instances\<close>

definition sample_chrono :: chrono where
  "sample_chrono = \<lparr>dt_of_millis = (\<lambda>t. if - 8334601228800000 \<le> t \<and> t \<le> 8210266876799999 then Some t else None),
     dt_show = (\<lambda>t. (if t < 0 then ''-'' else ''+'') @ replicate (nat \<bar>t\<bar>) (CHR ''1'')),
     dt_parse = (\<lambda>s. Some (if hd s = CHR ''-'' then - int (length (tl s)) else int (length (tl s))))\<rparr>"

definition sample_profile :: JobProfileSnapshot where
  "sample_profile = \<lparr>jp_name = ''still'', jp_capture = \<lparr>prof_capture_mode = None, prof_offline_policy = None,
       prof_queue_expiry_ms = None, prof_timeout_ms = None, prof_maximum_frame_bytes = None, prof_pixel_format = None,
       region_width = None, region_height = None, offset_x = None, offset_y = None, prof_exposure_micros = None,
       prof_gain = None, prof_encoding = Out_Jpeg, prof_jpeg_quality = 90, prof_thumbnail = None, profile_interlock = None\<rparr>,
     jp_offline_policy = WaitUntilDeadline, jp_maximum_frame_bytes = 100, jp_capture_mode = SoftwareTrigger,
     jp_capture_interlock = Allow, jp_settle_ms = 0\<rparr>"

definition sample_frame :: SourceFrame where
  "sample_frame = \<lparr>cf_bytes = [], cf_width = 1, cf_height = 1, cf_pixel_format = Px_Jpeg, cf_capture_mode = SoftwareTrigger,
     cf_source_timestamp = None, cf_timestamp_quality = TsUnknown, cf_backend_metadata = []\<rparr>"

definition sample_artifact :: ImageArtifact where
  "sample_artifact = \<lparr>ia_absolute_path = ''/d/a.jpg'', ia_relative_path = ''a.jpg'', ia_file_uri = ''file:///d/a.jpg'',
     ia_content_type = ''image/jpeg'', ia_encoding = Out_Jpeg, ia_bytes = 1, ia_sha256 = demo_sha,
     ia_metadata_sidecar_relative_path = None\<rparr>"

text \<open>Surroundings with a full disk.\<close>

definition sample_env :: engine_env where
  "sample_env = \<lparr>ee_now = (\<lambda>k. 1000 + int k), ee_event_id = (\<lambda>_. ''e1''), ee_store_fault = (\<lambda>_. None),
     ee_announce = (\<lambda>_ _. Inr ()), ee_reserve = (\<lambda>_ _. Inr ()), ee_dispatch = (\<lambda>_. Inr 0), ee_waiter_limit = (\<lambda>_. 8), ee_reply = (\<lambda>_ _. True),
     ee_available = (\<lambda>_. Inr ()), ee_capabilities = (\<lambda>_. \<lparr>cap_capture_modes = [], cap_pixel_formats = [],
       cap_software_trigger = True, cap_snapshot_uri = False, cap_rtsp = False, cap_ptz = False, cap_ptz_status = False,
       cap_presets = False, cap_preset_mutation = False, cap_vendor = None, cap_model = None, cap_firmware = None,
       cap_serial = None, cap_warnings = []\<rparr>),
     ee_ptz = (\<lambda>_ _. Inr Commanded), ee_capture = (\<lambda>_. Inr sample_frame), ee_acquire_capture = (\<lambda>_. Inr ()),
     ee_finish_acquisition = (\<lambda>_. Inr ()), ee_acquire_encoder = (\<lambda>_. Inr ()), ee_acquire_writer = (\<lambda>_. Inr ()),
     ee_reserve_memory = (\<lambda>_ _. Inr ()), ee_declared_decode_bytes = (\<lambda>_. None),
     ee_prepare = (\<lambda>_. Inl (StorageError ''full'')),
     ee_render = (\<lambda>_. ThumbnailFailed []), ee_install_before = (\<lambda>_. Inr ()), ee_install_after = (\<lambda>_. Inr sample_artifact),
     ee_reconcile = (\<lambda>_ _. Inr MissingArtifactsCleaned), ee_chrono = sample_chrono,
     ee_profile_value = (\<lambda>_. demo_object), ee_profile_of_value = (\<lambda>_. Some sample_profile),
     ee_category = (\<lambda>_. OtherCategory)\<rparr>"

definition sample_deadlines :: JobDeadlines where
  "sample_deadlines = \<lparr>dl_terminal_at_ms = 100000, dl_queue_at_ms = None, dl_capture_at_ms = 300, dl_encode_at_ms = 400,
     dl_persist_at_ms = 500\<rparr>"

definition sample_output :: json where
  "sample_output = JObject [(''backend'', JString ''sim''), (''relativePath'', JString ''a.jpg'')]"

definition sample_request :: json where
  "sample_request = JObject [(''metadata'', JObject [])]"

definition sample_spec :: "CaptureTrigger \<Rightarrow> nat option \<Rightarrow> CaptureJobSpec" where
  "sample_spec trig n = \<lparr>sp_capture_id = ''c1'', sp_instance = ''cam1'', sp_profile = sample_profile, sp_resource_group = None,
     sp_relative_path = \<lparr>rp_components = [''a.jpg''], rp_wire = ''a.jpg''\<rparr>, sp_deadlines = sample_deadlines,
     sp_accepted_at_ms = 10, sp_trigger = trig, sp_correlation_id = ''x'', sp_metadata = [], sp_camera = bare_camera Sim,
     sp_group_size = n\<rparr>"

definition sample_job :: "CaptureTrigger \<Rightarrow> string option \<Rightarrow> NewJob" where
  "sample_job trig g = \<lparr>nj_capture_id = ''c1'', nj_instance = ''cam1'', nj_ledger_key = None,
     nj_canonical_request = sample_request, nj_request_hash = [1], nj_effective_profile = demo_object,
     nj_deadlines = sample_deadlines, nj_trigger = trigger_value sample_chrono trig, nj_origin_correlation_id = Some ''x'',
     nj_intended_output = sample_output, nj_accepted_at_ms = 10, nj_group_id = g\<rparr>"

definition sample_sub :: JobSubmission where
  "sample_sub = \<lparr>sub_job = sample_job (Command ''q1'') None, sub_spec = sample_spec (Command ''q1'') None,
     sub_priority = Direct\<rparr>"

definition sample_row :: JobRow where
  "sample_row = (new_row (sub_job sample_sub))\<lparr>state := Queued\<rparr>"

definition sample_world :: world where
  "sample_world = \<lparr>w_catalog = one_job sample_row [] [], w_runtimes = [fresh_runtime (sub_spec sample_sub) (bare_camera Sim)],
     w_active = [(''c1'', 0)], w_pending = [], w_tokens = [], w_group_tokens = [], w_tick = 0, w_log = []\<rparr>"

lemma sample_codec: "dt_parse sample_chrono (dt_show sample_chrono t) = Some t" "calendar_ms t \<Longrightarrow> dt_of_millis sample_chrono t \<noteq> None"
  by (simp_all add: sample_chrono_def calendar_ms_def)

lemma sample_env_simps [simp]:
  "ee_now sample_env k = 1000 + int k" "ee_event_id sample_env k = ''e1''" "ee_store_fault sample_env k = None"
  "ee_announce sample_env k m = Inr ()" "ee_chrono sample_env = sample_chrono" "ee_acquire_writer sample_env k = Inr ()"
  "ee_profile_value sample_env q = demo_object" "ee_profile_of_value sample_env v = Some sample_profile"
  by (simp_all add: sample_env_def)

lemma sample_sub_valid: "validate_submission sample_env sample_sub = Inr ()"
  by (simp add: validate_submission_Inr sample_sub_def sample_spec_def sample_job_def sample_profile_def sample_output_def
      str_field_def object_get_def group_material_ok_def ensure_def)

lemma sample_row_simps [simp]:
  "state sample_row = Queued" "\<not> install_started sample_row" "capture_id sample_row = ''c1''"
  "origin_correlation_id sample_row = Some ''x''" "effective_profile sample_row = demo_object"
  by (simp_all add: sample_row_def new_row_def sample_sub_def sample_job_def)

lemma sample_row_of: "row_of (sub_job sample_sub) sample_row"
  by (simp add: row_of_def sample_row_def new_row_def)

lemma sample_world_simps [simp]:
  "runtime_of 0 sample_world = fresh_runtime (sub_spec sample_sub) (bare_camera Sim)" "length (w_runtimes sample_world) = 1"
  "capture_of 0 sample_world = ''c1''" "w_catalog sample_world = one_job sample_row [] []" "w_tick sample_world = 0"
  "w_log sample_world = []"
  by (simp_all add: sample_world_def runtime_of_def capture_of_def fresh_runtime_def sample_sub_def sample_spec_def)

lemma sample_catalog: "catalog_inv (one_job sample_row [] [])" "ids_unique (one_job sample_row [] [])"
  by (simp_all add: catalog_inv_def ids_unique_def row_ok_def sample_row_def new_row_def)

lemma sample_world_inv: "world_inv sample_world"
  using sample_catalog by (simp add: world_inv_def log_sound_def wins_def map_filter_def)

lemmas sample_moments = recorded_moments_def calendar_ms_def fresh_trace_def

lemma sample_failure:
  "\<exists>rec w' m. run_alone (finish_failure sample_env 0 code message) sample_world = (Some (Inr rec), w') \<and>
     state (fst rec) = Failed \<and> Delivered ''c1'' m \<in> set (w_log w')"
  using failure_runs [OF sample_sub_valid _ sample_row_of, of 0 sample_world code message]
  by (auto simp: word_size_def sample_sub_def sample_spec_def sample_codec sample_catalog select_row_Cons fresh_runtime_def sample_moments)

theorem failure_is_announced_witness:
  "\<exists>rec w' m. run_alone (finish_failure sample_env 0 BackendError ''lost'') sample_world = (Some (Inr rec), w') \<and>
     state (fst rec) = Failed \<and> Delivered ''c1'' m \<in> set (w_log w')"
  using failure_is_announced [OF sample_sub_valid _ sample_row_of, of 0 sample_world BackendError "''lost''"]
  by (auto simp: word_size_def sample_sub_def sample_spec_def sample_codec sample_catalog select_row_Cons fresh_runtime_def sample_moments)

lemma panic_reachable:
  assumes "run_alone (fail_panic E 0) w = (Some res, w')"
  shows "(pool_step (engine_system E))\<^sup>*\<^sup>* ([], w) ([Return ()], w')"
proof -
  have "engine_task E (FailPanic 0) \<in> y_tasks (engine_system E)" by (simp add: engine_system_def del: engine_task.simps)
  then have "pool_step (engine_system E) ([], w) ([engine_task E (FailPanic 0)], w)"
    using pool_start [of "engine_task E (FailPanic 0)" "engine_system E" "[]" w] by simp
  moreover have "run_alone (engine_task E (FailPanic 0)) w = (Some (), w')"
    using assms by (simp add: forget_def run_alone_rules)
  ultimately show ?thesis by (rule converse_rtranclp_into_rtranclp [OF _ run_alone_pool])
qed

theorem announced_once_and_durable_witness:
  "\<exists>ts w m row. (pool_step (engine_system sample_env))\<^sup>*\<^sup>* ([], sample_world) (ts, w) \<and>
     Delivered ''c1'' m \<in> set (w_log w) \<and> select_row capture_id ''c1'' (jobs (w_catalog w)) = Some row \<and>
     is_terminal (state row) \<and> announces row m"
proof -
  obtain rec w m where run: "run_alone (fail_panic sample_env 0) sample_world = (Some (Inr rec), w)"
    and sent: "Delivered ''c1'' m \<in> set (w_log w)"
    using sample_failure unfolding fail_panic_def by blast
  have reach: "(pool_step (engine_system sample_env))\<^sup>*\<^sup>* ([], sample_world) ([Return ()], w)"
    by (rule panic_reachable [OF run])
  from announced_once_and_durable [OF this] sent sample_catalog
  have "\<exists>row. select_row capture_id ''c1'' (jobs (w_catalog w)) = Some row \<and> is_terminal (state row) \<and> announces row m"
    by auto
  then show ?thesis using reach sent by blast
qed

theorem execution_releases_witness:
  "\<exists>res w'. run_alone (fail_durable_store sample_env 0 (StorageError ''lost'')) sample_world = (Some res, w') \<and>
     rt_done (w_runtimes w' ! 0)"
proof -
  obtain res w' where run: "run_alone (fail_durable_store sample_env 0 (StorageError ''lost'')) sample_world = (Some res, w')"
    using sample_failure [of "error_code_of (StorageError ''lost'')" "bounded_detail (operator_detail (StorageError ''lost''))"]
    by (auto simp: fail_durable_store_def run_alone_rules)
  have "rt_done (w_runtimes w' ! 0)"
    by (rule execution_releases [OF sample_world_inv _ disjI2 [OF run_alone_ends [OF run]]]) simp
  then show ?thesis using run by blast
qed

theorem terminal_write_accepted_witness:
  "\<exists>wr. make_terminal_write sample_chrono ''e1'' (runtime_of 0 sample_world) Cancelled None None 20 None =
     Inr (wr, tw_result wr) \<and> validate_terminal_for_job wr sample_row = Inr ()"
  using terminal_write_accepted [OF sample_sub_valid _ sample_row_of, of "runtime_of 0 sample_world" "''e1''" None Cancelled None None
      20]
  by (auto simp: word_size_def sample_sub_def sample_spec_def sample_codec fresh_runtime_def terminal_case_def sample_moments)


definition sample_group_row :: JobRow where
  "sample_group_row = (new_row (sample_job (GroupCommand ''q1'' ''g1'') (Some ''g1'')))\<lparr>state := Queued\<rparr>"

theorem group_member_not_interrupted_witness:
  "\<exists>e w'. run_alone (interrupt_nonterminal sample_env (sample_group_row, None) ''restart'') sample_world = (Some (Inl e), w') \<and>
     w_log w' = []"
proof -
  have "trigger sample_group_row = trigger_value sample_chrono (GroupCommand ''q1'' ''g1'')" "job_group_id sample_group_row = Some ''g1''"
    by (simp_all add: sample_group_row_def new_row_def sample_job_def)
  then show ?thesis
    using group_member_not_interrupted [of sample_env "(sample_group_row, None)" "''q1''" "''g1''" "''restart''" sample_world]
      trigger_read_back [of sample_chrono "GroupCommand ''q1'' ''g1''", OF sample_codec(1)]
    by auto
qed

theorem late_encoding_times_out_witness:
  "\<exists>w'. run_alone (encode_and_persist sample_env 0 ''c1'' sample_frame) sample_world =
      run_alone (finish_error sample_env 0 (job_timeout_error ''encoding/persistence'')) w' \<and>
    WorkerSpawned ''c1'' \<in> set (w_log w')"
proof -
  have "requires_encoding (rt_spec (runtime_of 0 sample_world))" "\<not> rt_cancellation (runtime_of 0 sample_world)"
    "dl_encode_at_ms (sp_deadlines (rt_spec (runtime_of 0 sample_world))) = 400"
    by (simp_all add: fresh_runtime_def sample_sub_def sample_spec_def sample_profile_def sample_deadlines_def requires_encoding_def)
  with late_encoding_times_out [of 0 sample_world sample_env "''c1''" sample_frame] show ?thesis by auto
qed

theorem rebased_on_admission_witness:
  "\<exists>w' row'. run_alone (rebase_onto_admission sample_env 0 TimeoutsConfig_default) sample_world = (Some (Inr ()), w') \<and>
     select_row capture_id ''c1'' (jobs (w_catalog w')) = Some row' \<and> dl_capture_at_ms (deadlines row') = 31000 \<and>
     dl_terminal_at_ms (deadlines row') = 100990"
proof -
  have d: "dl_terminal_at_ms (sp_deadlines (rt_spec (runtime_of 0 sample_world))) -
      sp_accepted_at_ms (rt_spec (runtime_of 0 sample_world)) = 99990"
    "dl_queue_at_ms (sp_deadlines (rt_spec (runtime_of 0 sample_world))) = None"
    by (simp_all add: fresh_runtime_def sample_sub_def sample_spec_def sample_deadlines_def)
  have "no_overflow 1000 99990 TimeoutsConfig_default"
    by (simp add: no_overflow_def TimeoutsConfig_default_def i64_max_def)
  with rebased_on_admission [of 0 sample_world sample_row sample_env "rt_spec (runtime_of 0 sample_world)" 1000 99990
      TimeoutsConfig_default, OF _ _ _ _ refl _ _ _ refl] d
  show ?thesis by (auto simp: select_row_Cons TimeoutsConfig_default_def)
qed

end
