(* ===== verification/Commands.thy ===== *)
theory Commands
  imports Idempotency Output_Path
begin

text \<open>
  The request schemas of \<open>src/commands.rs\<close> and the checks that need nothing but the request. Reading a
  body into its schema is the work of the deserialisation library and a parameter.
\<close>

section \<open>Text\<close>

definition DEFAULT_PAGE_LIMIT :: nat where "DEFAULT_PAGE_LIMIT = 100"
definition MAX_PAGE_LIMIT :: nat where "MAX_PAGE_LIMIT = 1000"
definition MAX_CURSOR_BYTES :: nat where "MAX_CURSOR_BYTES = 4096"

definition parse_closed :: "(json \<Rightarrow> string + 'a) \<Rightarrow> json \<Rightarrow> 'a result" where
  "parse_closed from_value body =
     (case from_value body of
        Inl e \<Rightarrow> bad_args (''request body does not match the closed schema: '' @ e)
      | Inr request \<Rightarrow> Inr request)"

definition ptz_range :: "string \<Rightarrow> 'a result" where
  "ptz_range message = Inl (Rejected PtzRangeError message)"

definition apostrophes :: "string \<Rightarrow> string" where
  "apostrophes s = CHR 0x27 # s @ [CHR 0x27]"

definition validate_token :: "string \<Rightarrow> string \<Rightarrow> unit result" where
  "validate_token value field =
     (if value = [] \<or> 128 < length value \<or>
         list_ex (\<lambda>c. \<not> (is_ascii_alphanumeric c \<or> c \<in> {CHR ''-'', CHR ''_'', CHR ''.''})) value
      then bad_args (field @ '' must be a non-empty UNS token using ASCII letters, digits, '' @ apostrophes ''.'' @ '', '' @
             apostrophes ''_'' @ '', or '' @ apostrophes ''-'')
      else Inr ())"

definition validate_optional_token :: "string option \<Rightarrow> string \<Rightarrow> unit result" where
  "validate_optional_token value field = (case value of None \<Rightarrow> Inr () | Some v \<Rightarrow> validate_token v field)"

definition validate_opaque_text ::
    "(string \<Rightarrow> general_category) \<Rightarrow> string \<Rightarrow> string \<Rightarrow> nat \<Rightarrow> nat \<Rightarrow> unit result" where
  "validate_opaque_text category value field minimum maximum =
     (if length value < minimum \<or> maximum < length value
      then bad_args (field @ '' must contain '' @ show_nat minimum @ '' to '' @ show_nat maximum @ '' UTF-8 bytes'')
      else if list_ex (\<lambda>c. category c = Cc \<or> category c = Cf) (utf8_chars value)
      then bad_args (field @ '' must not contain control or format characters'')
      else Inr ())"

definition validate_opaque_id :: "(string \<Rightarrow> general_category) \<Rightarrow> string option \<Rightarrow> string \<Rightarrow> unit result" where
  "validate_opaque_id category value field =
     (case value of None \<Rightarrow> Inr () | Some v \<Rightarrow> validate_opaque_text category v field 1 256)"

definition validate_reason :: "(string \<Rightarrow> general_category) \<Rightarrow> string option \<Rightarrow> unit result" where
  "validate_reason category reason =
     (case reason of None \<Rightarrow> Inr () | Some v \<Rightarrow> validate_opaque_text category v ''reason'' 0 1024)"

definition validate_page :: "nat \<Rightarrow> string option \<Rightarrow> unit result" where
  "validate_page limit cursor =
     (if limit < 1 \<or> MAX_PAGE_LIMIT < limit then bad_args ''limit must be in range 1..=1000''
      else if (case cursor of None \<Rightarrow> False | Some v \<Rightarrow> v = [] \<or> MAX_CURSOR_BYTES < length v)
      then bad_args ''cursor must contain 1 to 4096 UTF-8 bytes'' else Inr ())"

definition validate_capture_timeout :: "u64 option \<Rightarrow> unit result" where
  "validate_capture_timeout timeout =
     (case timeout of
        None \<Rightarrow> Inr ()
      | Some ms \<Rightarrow> if 1000 \<le> ms \<and> ms \<le> 1800000 then Inr ()
                   else bad_args ''timeoutMs must be in range 1000..=1800000'')"

text \<open>\<open>to_vec\<close> is the JSON printer; its error, when it has one, is passed on.\<close>

definition validate_metadata ::
    "((string \<times> json) list \<Rightarrow> 8 word list result) \<Rightarrow> (string \<times> json) list \<Rightarrow> nat \<Rightarrow> unit result" where
  "validate_metadata to_vec metadata maximum = and_then (to_vec metadata) (\<lambda>encoded.
     if maximum < length encoded then bad_args ''metadata exceeds limits.maxMetadataBytes'' else Inr ())"

section \<open>Requests\<close>

record ListRequest =
  lr_include_capabilities :: bool
  lr_include_unconfigured :: bool
  lr_limit :: nat
  lr_cursor :: "string option"

definition list_validate :: "ListRequest \<Rightarrow> unit result" where
  "list_validate r = validate_page (lr_limit r) (lr_cursor r)"

record DiscoverRequest =
  dr_backends :: "BackendKind list"
  dr_timeout_ms :: u64
  dr_limit :: nat
  dr_cursor :: "string option"

fun distinct_backends :: "BackendKind list \<Rightarrow> BackendKind list \<Rightarrow> unit result" where
  "distinct_backends seen [] = Inr ()"
| "distinct_backends seen (b # rest) =
     (if b = Sim then bad_args ''discovery backends must not include sim''
      else if b \<in> set seen then bad_args ''discovery backends must be distinct''
      else distinct_backends (b # seen) rest)"

definition discover_validate :: "DiscoverRequest \<Rightarrow> unit result" where
  "discover_validate r = checks
     [validate_page (dr_limit r) (dr_cursor r),
      (if 100 \<le> dr_timeout_ms r \<and> dr_timeout_ms r \<le> 300000 then Inr ()
       else bad_args ''timeoutMs must be in range 100..=300000''),
      distinct_backends [] (dr_backends r)]"

record StatusRequest =
  sr_instance :: "string option"

definition status_validate :: "StatusRequest \<Rightarrow> unit result" where
  "status_validate r = validate_optional_token (sr_instance r) ''instance''"

record CaptureRequest =
  rq_instance :: "string option"
  rq_request_id :: string
  rq_capture_profile :: "string option"
  rq_timeout_ms :: "u64 option"
  rq_metadata :: "(string \<times> json) list"

record request_env =
  re_category :: "string \<Rightarrow> general_category"
  re_to_vec :: "(string \<times> json) list \<Rightarrow> 8 word list result"

definition capture_validate :: "request_env \<Rightarrow> CaptureRequest \<Rightarrow> nat \<Rightarrow> unit result" where
  "capture_validate V r metadata_limit = checks
     [validate_optional_token (rq_instance r) ''instance'',
      validate_request_id (re_category V) (rq_request_id r),
      validate_optional_token (rq_capture_profile r) ''captureProfile'',
      validate_capture_timeout (rq_timeout_ms r),
      validate_metadata (re_to_vec V) (rq_metadata r) metadata_limit]"

record GroupCaptureRequest =
  gq_request_id :: string
  gq_instances :: "string list"
  gq_capture_profile :: "string option"
  gq_profile_overrides :: "(string \<times> string) list"
  gq_timeout_ms :: "u64 option"
  gq_metadata :: "(string \<times> json) list"

fun distinct_instances :: "string list \<Rightarrow> string list \<Rightarrow> unit result" where
  "distinct_instances seen [] = Inr ()"
| "distinct_instances seen (i # rest) = and_then (validate_token i ''instances'') (\<lambda>_.
     if i \<in> set seen then bad_args ''instances must not contain duplicates''
     else distinct_instances (i # seen) rest)"

definition group_validate :: "request_env \<Rightarrow> GroupCaptureRequest \<Rightarrow> nat \<Rightarrow> nat \<Rightarrow> unit result" where
  "group_validate V r max_group metadata_limit = checks
     [validate_request_id (re_category V) (gq_request_id r),
      (if length (gq_instances r) < 2 then bad_args ''instances must contain at least two cameras'' else Inr ()),
      (if max_group < length (gq_instances r)
       then Inl (Rejected GroupTooLarge ''instances exceeds limits.maxCamerasPerGroup'') else Inr ()),
      distinct_instances [] (gq_instances r),
      validate_optional_token (gq_capture_profile r) ''captureProfile'',
      for_each (\<lambda>(i, profile). if i \<notin> set (gq_instances r)
         then bad_args ''profileOverrides keys must be a subset of instances''
         else validate_token profile ''profileOverrides'') (gq_profile_overrides r),
      validate_capture_timeout (gq_timeout_ms r),
      validate_metadata (re_to_vec V) (gq_metadata r) metadata_limit]"

record CaptureStatusRequest =
  cq_capture_id :: "string option"
  cq_capture_group_id :: "string option"
  cq_instance :: "string option"
  cq_request_id :: "string option"
  cq_states :: "JobState list"
  cq_limit :: nat
  cq_cursor :: "string option"

datatype CaptureStatusMode = ModeCapture | ModeGroup | ModeCameraRequest | ModeGroupRequest | ModeList

definition status_mode :: "CaptureStatusRequest \<Rightarrow> CaptureStatusMode result" where
  "status_mode r =
     (let no_page_override = (cq_limit r = DEFAULT_PAGE_LIMIT \<and> cq_cursor r = None);
          none = bad_args ''capture-status requires exactly one documented lookup mode'' in
      case (cq_capture_id r \<noteq> None, cq_capture_group_id r \<noteq> None, cq_instance r \<noteq> None,
            cq_request_id r \<noteq> None, cq_states r = []) of
        (True, False, False, False, True) \<Rightarrow> if no_page_override then Inr ModeCapture else none
      | (False, True, False, False, True) \<Rightarrow> Inr ModeGroup
      | (False, False, True, True, True) \<Rightarrow> if no_page_override then Inr ModeCameraRequest else none
      | (False, False, False, True, True) \<Rightarrow> if no_page_override then Inr ModeGroupRequest else none
      | (False, False, _, False, False) \<Rightarrow> Inr ModeList
      | _ \<Rightarrow> none)"

definition capture_status_validate ::
    "(string \<Rightarrow> general_category) \<Rightarrow> CaptureStatusRequest \<Rightarrow> CaptureStatusMode result" where
  "capture_status_validate category r =
     and_then (checks
       [validate_page (cq_limit r) (cq_cursor r),
        validate_optional_token (cq_instance r) ''instance'',
        (case cq_request_id r of None \<Rightarrow> Inr () | Some q \<Rightarrow> validate_request_id category q),
        validate_opaque_id category (cq_capture_id r) ''captureId'',
        validate_opaque_id category (cq_capture_group_id r) ''captureGroupId'',
        (if distinct (cq_states r) then Inr () else bad_args ''states must contain distinct values'')])
     (\<lambda>_. status_mode r)"

record CancelRequest =
  xq_request_id :: string
  xq_capture_id :: "string option"
  xq_capture_group_id :: "string option"
  xq_reason :: "string option"

definition cancel_validate :: "(string \<Rightarrow> general_category) \<Rightarrow> CancelRequest \<Rightarrow> unit result" where
  "cancel_validate category r = checks
     [validate_request_id category (xq_request_id r),
      (case (xq_capture_id r, xq_capture_group_id r) of
         (Some c, None) \<Rightarrow> validate_opaque_id category (Some c) ''captureId''
       | (None, Some g) \<Rightarrow> validate_opaque_id category (Some g) ''captureGroupId''
       | _ \<Rightarrow> bad_args ''exactly one of captureId or captureGroupId is required''),
      validate_reason category (xq_reason r)]"

record QueueStatusRequest =
  qs_instance :: "string option"

definition queue_status_validate :: "QueueStatusRequest \<Rightarrow> unit result" where
  "queue_status_validate r = validate_optional_token (qs_instance r) ''instance''"

record QueueClearRequest =
  qc_request_id :: string
  qc_instance :: "string option"
  qc_all_cameras :: bool
  qc_include_in_flight :: bool
  qc_reason :: "string option"

definition queue_clear_validate :: "(string \<Rightarrow> general_category) \<Rightarrow> QueueClearRequest \<Rightarrow> unit result" where
  "queue_clear_validate category r = checks
     [validate_request_id category (qc_request_id r),
      validate_optional_token (qc_instance r) ''instance'',
      (if qc_instance r = None \<and> \<not> qc_all_cameras r
       then bad_args (''clearing every camera'' @ [CHR 0x27] @ ''s queue requires allCameras=true; name an instance to clear one camera'')
       else Inr ()),
      (if qc_instance r \<noteq> None \<and> qc_all_cameras r
       then bad_args ''allCameras must not be set when an instance is named'' else Inr ()),
      validate_reason category (qc_reason r)]"

record ReconnectRequest =
  nq_instance :: "string option"
  nq_request_id :: string
  nq_reason :: "string option"

definition reconnect_validate :: "(string \<Rightarrow> general_category) \<Rightarrow> ReconnectRequest \<Rightarrow> unit result" where
  "reconnect_validate category r = checks
     [validate_optional_token (nq_instance r) ''instance'', validate_request_id category (nq_request_id r),
      validate_reason category (nq_reason r)]"

record PauseResumeRequest =
  pr_instance :: "string option"

definition pause_resume_validate :: "PauseResumeRequest \<Rightarrow> unit result" where
  "pause_resume_validate r = validate_optional_token (pr_instance r) ''instance''"

record PtzSpeed =
  sp_pan :: f64
  sp_tilt :: f64
  sp_zoom :: f64

definition speed_validate :: "PtzSpeed \<Rightarrow> unit result" where
  "speed_validate s = (if list_all (f64_in 0 1) [sp_pan s, sp_tilt s, sp_zoom s] then Inr ()
     else ptz_range ''PTZ speed values must be finite and in range 0..=1'')"

definition optional_speed :: "PtzSpeed option \<Rightarrow> unit result" where
  "optional_speed s = (case s of None \<Rightarrow> Inr () | Some v \<Rightarrow> speed_validate v)"

datatype PtzAxis = AxisPan | AxisTilt | AxisZoom

datatype PtzCommandRequest =
    PtzContinuous "string option" string PtzVector u64
  | PtzAbsolute "string option" string PtzVector "PtzSpeed option"
  | PtzRelative "string option" string PtzVector "PtzSpeed option"
  | PtzStop "string option" string "PtzAxis list"
  | PtzHome "string option" string
  | PtzStatusOf "string option"

definition ptz_target :: "(string \<Rightarrow> general_category) \<Rightarrow> string option \<Rightarrow> string option \<Rightarrow> unit result" where
  "ptz_target category inst request_id = checks
     [validate_optional_token inst ''instance'',
      (case request_id of None \<Rightarrow> Inr () | Some q \<Rightarrow> validate_request_id category q)]"

fun ptz_validate :: "(string \<Rightarrow> general_category) \<Rightarrow> PtzCommandRequest \<Rightarrow> u64 \<Rightarrow> unit result" where
  "ptz_validate category (PtzContinuous inst q velocity timeout) max_ms =
     (if \<not> validate_signed velocity then ptz_range ''continuous velocity must be finite and in range -1..=1''
      else if timeout = 0 \<or> max_ms < timeout
      then ptz_range ''continuous timeoutMs exceeds the configured safety bound''
      else ptz_target category inst (Some q))"
| "ptz_validate category (PtzAbsolute inst q target speed) max_ms =
     (if \<not> validate_absolute target then ptz_range ''absolute pan/tilt must be in -1..=1 and zoom in 0..=1''
      else and_then (optional_speed speed) (\<lambda>_. ptz_target category inst (Some q)))"
| "ptz_validate category (PtzRelative inst q translation speed) max_ms =
     (if \<not> validate_signed translation then ptz_range ''relative translation must be finite and in range -1..=1''
      else and_then (optional_speed speed) (\<lambda>_. ptz_target category inst (Some q)))"
| "ptz_validate category (PtzStop inst q axes) max_ms =
     (if axes = [] \<or> 3 < length axes then bad_args ''stop axes must contain one to three values''
      else if \<not> distinct axes then bad_args ''stop axes must be distinct''
      else ptz_target category inst (Some q))"
| "ptz_validate category (PtzHome inst q) max_ms = ptz_target category inst (Some q)"
| "ptz_validate category (PtzStatusOf inst) max_ms = ptz_target category inst None"

datatype PtzPresetsRequest =
    PresetsList "string option" nat "string option"
  | PresetsGoto "string option" string string
  | PresetsSet "string option" string string
  | PresetsRemove "string option" string string

fun presets_validate :: "(string \<Rightarrow> general_category) \<Rightarrow> PtzPresetsRequest \<Rightarrow> unit result" where
  "presets_validate category (PresetsList inst limit cursor) = checks
     [validate_optional_token inst ''instance'', validate_page limit cursor]"
| "presets_validate category (PresetsGoto inst q preset) = checks
     [ptz_target category inst (Some q), validate_opaque_text category preset ''token'' 1 1024]"
| "presets_validate category (PresetsRemove inst q preset) = checks
     [ptz_target category inst (Some q), validate_opaque_text category preset ''token'' 1 1024]"
| "presets_validate category (PresetsSet inst q name) = checks
     [ptz_target category inst (Some q), validate_opaque_text category name ''name'' 1 256]"

section \<open>What an accepted request is\<close>

lemma distinct_instances_Inr:
  "distinct_instances seen is = Inr () \<longleftrightarrow>
     distinct is \<and> set is \<inter> set seen = {} \<and> (\<forall>i \<in> set is. validate_token i ''instances'' = Inr ())"
  by (induction seen "is" rule: distinct_instances.induct) (auto simp: and_then_Inr_iff bad_args_def)

lemma validate_token_nonempty: "validate_token v field = Inr () \<Longrightarrow> v \<noteq> []"
  by (auto simp: validate_token_def bad_args_def)

lemma group_validate_Inr:
  "group_validate V r max_group metadata_limit = Inr () \<Longrightarrow>
     2 \<le> length (gq_instances r) \<and> length (gq_instances r) \<le> max_group \<and> distinct (gq_instances r) \<and>
     [] \<notin> set (gq_instances r) \<and> validate_request_id (re_category V) (gq_request_id r) = Inr () \<and>
     fst ` set (gq_profile_overrides r) \<subseteq> set (gq_instances r) \<and> validate_capture_timeout (gq_timeout_ms r) = Inr ()"
  by (auto simp: group_validate_def and_then_Inr_iff distinct_instances_Inr for_each_Inr_iff bad_args_def
      dest: validate_token_nonempty split: if_splits)

end
