(* ===== verification/Intake.thy ===== *)
theory Intake
  imports Jobs_Guarantees Registry Commands Catalog_Groups Scheduler
begin

text \<open>
  How a capture enters the engine: resolution against the live configuration, the submission of
  commands and groups with their idempotency records, and deferred replies
  (\<open>src/runtime/command.rs\<close>), and the submission of schedule occurrences (\<open>src/runtime/schedule.rs\<close>).
  Configuration, registry, pauses, storage pressure and the slot map are functions of the running
  counter: they may change between any two reads.
\<close>

record intake_env =
  ie_config :: "nat \<Rightarrow> AdapterConfig result"
  ie_registry :: "nat \<Rightarrow> CameraCapabilities CameraRegistry"
  ie_paused :: "nat \<Rightarrow> string \<Rightarrow> bool"
  ie_storage :: "nat \<Rightarrow> unit result"
  ie_engine :: "nat \<Rightarrow> string \<Rightarrow> unit result"
  ie_moving :: "nat \<Rightarrow> string \<Rightarrow> bool"
  ie_uuid :: "nat \<Rightarrow> string"
  ie_clock :: "nat \<Rightarrow> timestamp"
  ie_lexis :: json_lexis
  ie_sha256 :: "string \<Rightarrow> RequestHash"
  ie_rfc3339_millis :: "int \<Rightarrow> string"
  ie_to_vec :: "(string \<times> json) list \<Rightarrow> 8 word list result"

section \<open>Resolution\<close>

record ResolvedCapture =
  rc_camera :: CameraConfig
  rc_snapshot :: "CameraCapabilities CameraSnapshot"
  rc_profile_name :: string
  rc_profile :: JobProfileSnapshot
  rc_camera_summary :: CameraSummary
  rc_capture_id :: string
  rc_accepted_at_ms :: int
  rc_terminal_ms :: u64
  rc_deadlines :: JobDeadlines
  rc_relative_path :: RelativeOutputPath

definition default_capture_mode :: "BackendConfig \<Rightarrow> CaptureMode" where
  "default_capture_mode backend =
     (case backend of SimCfg _ \<Rightarrow> Simulated | GenicamCfg _ \<Rightarrow> SoftwareTrigger
      | OnvifCfg cfg \<Rightarrow> onvif_capture_mode cfg | RtspCfg _ \<Rightarrow> RtspFrame)"

definition camera_summary_of :: "CameraCapabilities CameraSnapshot \<Rightarrow> CameraSummary" where
  "camera_summary_of snapshot = \<lparr>cm_backend = cs_backend snapshot,
     cm_vendor = Option.bind (cs_capabilities snapshot) cap_vendor,
     cm_model = Option.bind (cs_capabilities snapshot) cap_model,
     cm_firmware = Option.bind (cs_capabilities snapshot) cap_firmware,
     cm_serial = Option.bind (cs_capabilities snapshot) cap_serial\<rparr>"

definition deadlines_from :: "TimeoutsConfig \<Rightarrow> CaptureProfile \<Rightarrow> u64 \<Rightarrow> int \<Rightarrow> JobDeadlines" where
  "deadlines_from timeouts profile terminal_ms accepted_at = \<lparr>
     dl_terminal_at_ms = saturate_i64 (accepted_at + i64_of_u64 terminal_ms),
     dl_queue_at_ms = map_option (\<lambda>d. saturate_i64 (accepted_at + i64_of_u64 d)) (prof_queue_expiry_ms profile),
     dl_capture_at_ms = saturate_i64 (accepted_at + i64_of_u64 (capture_ms timeouts)),
     dl_encode_at_ms = saturate_i64 (accepted_at + i64_of_u64 (encode_ms timeouts)),
     dl_persist_at_ms = saturate_i64 (accepted_at + i64_of_u64 (persist_ms timeouts))\<rparr>"

definition option_or :: "'a option \<Rightarrow> 'a \<Rightarrow> 'a" where
  "option_or x d = (case x of None \<Rightarrow> d | Some a \<Rightarrow> a)"

definition profile_snapshot_of ::
    "GlobalConfig \<Rightarrow> CameraConfig \<Rightarrow> string \<Rightarrow> CaptureProfile \<Rightarrow> OfflinePolicy \<Rightarrow> JobProfileSnapshot" where
  "profile_snapshot_of global camera name profile offline = \<lparr>jp_name = name, jp_capture = profile,
     jp_offline_policy = option_or (prof_offline_policy profile) offline,
     jp_maximum_frame_bytes = option_or (prof_maximum_frame_bytes profile) (max_frame_bytes_per_camera (g_limits global)),
     jp_capture_mode = option_or (prof_capture_mode profile) (default_capture_mode (cam_backend camera)),
     jp_capture_interlock = option_or (profile_interlock profile) (capture_interlock (cam_ptz camera)),
     jp_settle_ms = settle_ms (cam_ptz camera)\<rparr>"

definition resolve_capture ::
    "engine_env \<Rightarrow> intake_env \<Rightarrow> nat \<Rightarrow> string \<Rightarrow> string option \<Rightarrow> u64 option \<Rightarrow> ResolvedCapture result" where
  "resolve_capture E I k inst requested_profile timeout =
     and_then (ie_config I k) (\<lambda>config.
     and_then (camera_config inst (ie_registry I k)) (\<lambda>camera.
       let name = option_or requested_profile (default_capture_profile camera) in
     and_then (ok_or (map_of (capture_profiles camera) name)
       (rejected UnknownCaptureProfile ''capture profile is not configured'')) (\<lambda>profile.
       let accepted_at = ee_now E k;
           terminal_ms = option_or (case timeout of None \<Rightarrow> prof_timeout_ms profile | Some t \<Rightarrow> Some t)
             (job_terminal_ms (g_timeouts (ad_global config))) in
     and_then (registry_snapshot inst (ie_registry I k)) (\<lambda>snapshot.
       let capture = ''cap_'' @ ie_uuid I k in
     and_then (render_output_path (g_output (ad_global config))
         \<lparr>ov_camera_id = inst, ov_capture_id = capture, ov_timestamp = ie_clock I k\<rparr> (prof_encoding profile)) (\<lambda>path.
       Inr \<lparr>rc_camera = camera, rc_snapshot = snapshot, rc_profile_name = name,
         rc_profile = profile_snapshot_of (ad_global config) camera name profile WaitUntilDeadline,
         rc_camera_summary = camera_summary_of snapshot, rc_capture_id = capture, rc_accepted_at_ms = accepted_at,
         rc_terminal_ms = terminal_ms,
         rc_deadlines = deadlines_from (g_timeouts (ad_global config)) profile terminal_ms accepted_at,
         rc_relative_path = path\<rparr>)))))"

section \<open>Single captures\<close>

definition ledger_key_new :: "(string \<Rightarrow> general_category) \<Rightarrow> string \<Rightarrow> string \<Rightarrow> string \<Rightarrow> LedgerKey result" where
  "ledger_key_new cat inst verb q =
     (let key = \<lparr>lk_instance = inst, lk_verb = verb, lk_request_id = q\<rparr> in
      and_then (validate_ledger_key cat key) (\<lambda>_. Inr key))"

definition job_by_ledger :: "LedgerKey \<Rightarrow> catalog \<Rightarrow> JobRecord option" where
  "job_by_ledger key db = Option.bind (load_ledger db key) (\<lambda>l. Option.bind (le_capture_id l) (load_job db))"

definition group_by_ledger :: "LedgerKey \<Rightarrow> catalog \<Rightarrow> GroupRecord option" where
  "group_by_ledger key db = Option.bind (load_ledger db key) (\<lambda>l. Option.bind (le_group_id l) (load_group db))"

definition read_catalog :: "engine_env \<Rightarrow> (catalog \<Rightarrow> 'a) \<Rightarrow> 'a result job_task" where
  "read_catalog E f = store_call E (\<lambda>db. (db, Inr (f db)))"

definition ensure_not_paused :: "intake_env \<Rightarrow> nat \<Rightarrow> string \<Rightarrow> unit result" where
  "ensure_not_paused I k inst = (if ie_paused I k inst
     then Inl (rejected InstancePaused ''camera is paused; resume it before submitting new capture work'') else Inr ())"

definition capture_arguments ::
    "string \<Rightarrow> string \<Rightarrow> string option \<Rightarrow> u64 option \<Rightarrow> (string \<times> json) list \<Rightarrow> json" where
  "capture_arguments inst q profile timeout metadata = to_object
     [(''instance'', Some (JString inst)), (''requestId'', Some (JString q)),
      (''captureProfile'', map_option JString profile), (''timeoutMs'', map_option json_u64 timeout),
      (''metadata'', Some (JObject metadata))]"

definition intended_output_of :: "RelativeOutputPath \<Rightarrow> BackendKind \<Rightarrow> json" where
  "intended_output_of path backend = to_object
     [(''relativePath'', Some (JString (rp_wire path))), (''backend'', Some (JString (backend_kind_as_str backend)))]"

definition spec_of ::
    "ResolvedCapture \<Rightarrow> string \<Rightarrow> CaptureTrigger \<Rightarrow> string \<Rightarrow> (string \<times> json) list \<Rightarrow> nat option \<Rightarrow> CaptureJobSpec" where
  "spec_of rc inst trig correlation metadata group_size = \<lparr>sp_capture_id = rc_capture_id rc, sp_instance = inst,
     sp_profile = rc_profile rc, sp_resource_group = cam_resource_group (rc_camera rc),
     sp_relative_path = rc_relative_path rc, sp_deadlines = rc_deadlines rc, sp_accepted_at_ms = rc_accepted_at_ms rc,
     sp_trigger = trig, sp_correlation_id = correlation, sp_metadata = metadata, sp_camera = rc_camera_summary rc,
     sp_group_size = group_size\<rparr>"

definition capture_submission ::
    "engine_env \<Rightarrow> ResolvedCapture \<Rightarrow> string \<Rightarrow> LedgerKey \<Rightarrow> json \<Rightarrow> RequestHash \<Rightarrow> string \<Rightarrow> (string \<times> json) list \<Rightarrow>
     CapturePriority \<Rightarrow> JobSubmission" where
  "capture_submission E rc inst key canonical hash correlation metadata priority =
     (let trig = Command (lk_request_id key) in \<lparr>
       sub_job = \<lparr>nj_capture_id = rc_capture_id rc, nj_instance = inst, nj_ledger_key = Some key,
         nj_canonical_request = canonical, nj_request_hash = hash,
         nj_effective_profile = ee_profile_value E (rc_profile rc), nj_deadlines = rc_deadlines rc,
         nj_trigger = trigger_value (ee_chrono E) trig, nj_origin_correlation_id = Some correlation,
         nj_intended_output = intended_output_of (rc_relative_path rc) (cs_backend (rc_snapshot rc)),
         nj_accepted_at_ms = rc_accepted_at_ms rc, nj_group_id = None\<rparr>,
       sub_spec = spec_of rc inst trig correlation metadata None, sub_priority = priority\<rparr>)"

definition replayed :: "RequestHash \<Rightarrow> JobRecord \<Rightarrow> AcceptJobOutcome" where
  "replayed hash record = (if request_hash (fst record) = hash then JobExisting record else JobConflict)"

text \<open>The queue and the engine of a configured camera.\<close>

definition reach_engine :: "intake_env \<Rightarrow> nat \<Rightarrow> string \<Rightarrow> unit result" where
  "reach_engine I k inst = and_then (registry_snapshot inst (ie_registry I k)) (\<lambda>_. ie_engine I k inst)"

definition submit_capture ::
    "engine_env \<Rightarrow> intake_env \<Rightarrow> string \<Rightarrow> string \<Rightarrow> string option \<Rightarrow> u64 option \<Rightarrow> (string \<times> json) list \<Rightarrow> string \<Rightarrow>
     string \<Rightarrow> CapturePriority \<Rightarrow> AcceptJobOutcome result job_task" where
  "submit_capture E I inst q profile timeout metadata correlation verb priority =
     (let canonical = capture_arguments inst q profile timeout metadata in
      case canonical_request_hash (ie_lexis I) (ie_sha256 I) canonical False of
        Inl e \<Rightarrow> Return (Inl e)
      | Inr hash \<Rightarrow>
      case ledger_key_new (ee_category E) inst verb q of
        Inl e \<Rightarrow> Return (Inl e)
      | Inr key \<Rightarrow>
      try_task (read_catalog E (job_by_ledger key)) (\<lambda>existing.
        case existing of
          Some record \<Rightarrow> Return (Inr (replayed hash record))
        | None \<Rightarrow>
        try_task (answer (\<lambda>k. ensure_not_paused I k inst)) (\<lambda>_.
        try_task (answer (\<lambda>k. resolve_capture E I k inst profile timeout)) (\<lambda>rc.
        bind_task (answer (ie_storage I)) (\<lambda>capacity.
          case capacity of
            Inl e \<Rightarrow>
              if error_code_of e = StoragePressure
              then try_task (read_catalog E (job_by_ledger key)) (\<lambda>again.
                     case again of Some record \<Rightarrow> Return (Inr (replayed hash record)) | None \<Rightarrow> Return (Inl e))
              else Return (Inl e)
          | Inr _ \<Rightarrow>
              try_task (answer (\<lambda>k. reach_engine I k inst)) (\<lambda>_.
                accept_and_queue E (capture_submission E rc inst key canonical hash correlation metadata priority)))))))"

section \<open>Deferred captures\<close>

definition prepare_waiter :: "string \<times> string \<Rightarrow> PendingWaiter \<Rightarrow> unit result job_task" where
  "prepare_waiter key p = action (\<lambda>w.
     (if map_of (w_pending w) key = None then Inr ()
      else Inl (rejected IdempotencyConflict ''a deferred request is already being accepted''),
      w\<lparr>w_pending := (key, p) # bt_remove key (w_pending w)\<rparr>))"

definition settle_token :: "engine_env \<Rightarrow> string \<Rightarrow> string \<Rightarrow> json \<Rightarrow> unit result job_task" where
  "settle_token E subject waiter body = bind_task (reply E subject waiter body) (\<lambda>reached.
     Return (if reached then Inr () else Inl (rejected BackendError ''deferred reply could not be settled'')))"

definition attach_deferred ::
    "engine_env \<Rightarrow> AdapterConfig \<Rightarrow> PendingWaiter \<Rightarrow> JobRecord \<Rightarrow> unit result job_task" where
  "attach_deferred E config p record =
     (let c = capture_id (fst record) in
      case terminal_result (fst record) of
        Some body \<Rightarrow> settle_token E c (pw_waiter_id p) body
      | None \<Rightarrow>
          bind_task (now_ms E) (\<lambda>now.
          try_task (store_call E (add_waiter \<lparr>wr_waiter_id = pw_waiter_id p, wr_capture_id = c,
            wr_correlation_id = pw_correlation_id p, wr_request_uuid = Some (pw_request_uuid p),
            wr_expires_at_ms = saturate_i64 (now + i64_of_u64 (max_deferred_reply_lifetime_ms (g_timeouts (ad_global config)))),
            wr_created_at_ms = now\<rparr>)) (\<lambda>_.
          try_task (register_waiter E c (pw_waiter_id p)) (\<lambda>_.
          try_task (stored_job E c) (\<lambda>found.
            case Option.bind found (\<lambda>job. terminal_result (fst job)) of
              Some body \<Rightarrow> settle_token E c (pw_waiter_id p) body
            | None \<Rightarrow> Return (Inr ()))))))"

definition accept_deferred_capture ::
    "engine_env \<Rightarrow> intake_env \<Rightarrow> CaptureRequest \<Rightarrow> string \<Rightarrow> string \<Rightarrow> unit result job_task" where
  "accept_deferred_capture E I body correlation uuid =
     try_task (answer (ie_config I)) (\<lambda>config.
     try_task (answer (\<lambda>k. resolve_actuation_instance (rq_instance body) (ie_registry I k))) (\<lambda>inst.
     bind_task (answer (\<lambda>k. \<lparr>pw_waiter_id = ''wait_'' @ ie_uuid I k, pw_correlation_id = correlation,
       pw_request_uuid = uuid\<rparr>)) (\<lambda>p.
     try_task (prepare_waiter (inst, rq_request_id body) p) (\<lambda>_.
     try_task (submit_capture E I inst (rq_request_id body) (rq_capture_profile body) (rq_timeout_ms body)
       (rq_metadata body) correlation CAPTURE_VERB Direct) (\<lambda>accepted.
       case accepted of
         JobInserted _ \<Rightarrow> Return (Inr ())
       | JobConflict \<Rightarrow> bind_task (take_pending (inst, rq_request_id body)) (\<lambda>_.
           Return (Inl (rejected IdempotencyConflict
             ''requestId was already used with different immutable capture arguments'')))
       | JobExisting record \<Rightarrow>
           bind_task (take_pending (instance_of (fst record),
             (case ledger_key (fst record) of None \<Rightarrow> [] | Some key \<Rightarrow> lk_request_id key))) (\<lambda>_.
             attach_deferred E config p record))))))"

section \<open>Groups\<close>

definition deadlines_json :: "JobDeadlines \<Rightarrow> json" where
  "deadlines_json d = to_object
     [(''terminalAtMs'', Some (json_i64 (dl_terminal_at_ms d))), (''queueAtMs'', json_opt json_i64 (dl_queue_at_ms d)),
      (''captureAtMs'', Some (json_i64 (dl_capture_at_ms d))), (''encodeAtMs'', Some (json_i64 (dl_encode_at_ms d))),
      (''persistAtMs'', Some (json_i64 (dl_persist_at_ms d)))]"

definition member_arguments ::
    "engine_env \<Rightarrow> ResolvedCapture \<Rightarrow> string \<Rightarrow> string \<Rightarrow> string \<Rightarrow> (string \<times> json) list \<Rightarrow> json" where
  "member_arguments E rc inst q g metadata = to_object
     [(''requestId'', Some (JString q)), (''captureGroupId'', Some (JString g)), (''instance'', Some (JString inst)),
      (''captureProfile'', Some (JString (rc_profile_name rc))), (''timeoutMs'', Some (json_u64 (rc_terminal_ms rc))),
      (''metadata'', Some (JObject metadata)), (''effectiveProfile'', Some (ee_profile_value E (rc_profile rc))),
      (''deadlines'', Some (deadlines_json (rc_deadlines rc))),
      (''intendedOutput'', Some (intended_output_of (rc_relative_path rc) (cs_backend (rc_snapshot rc))))]"

definition build_group_submission ::
    "engine_env \<Rightarrow> intake_env \<Rightarrow> nat \<Rightarrow> string \<Rightarrow> nat \<Rightarrow> string \<Rightarrow> string \<Rightarrow> string option \<Rightarrow> u64 option \<Rightarrow>
     (string \<times> json) list \<Rightarrow> string \<Rightarrow> JobSubmission result" where
  "build_group_submission E I k inst group_size q g profile timeout metadata correlation =
     and_then (camera_config inst (ie_registry I k)) (\<lambda>camera.
     if \<not> cam_enabled camera then Inl (rejected CameraDisabled ''camera is disabled'')
     else
     and_then (resolve_capture E I k inst profile timeout) (\<lambda>rc.
       let trig = GroupCommand q g; canonical = member_arguments E rc inst q g metadata in
     and_then (canonical_request_hash (ie_lexis I) (ie_sha256 I) canonical False) (\<lambda>hash.
       Inr \<lparr>sub_job = \<lparr>nj_capture_id = rc_capture_id rc, nj_instance = inst, nj_ledger_key = None,
           nj_canonical_request = canonical, nj_request_hash = hash,
           nj_effective_profile = ee_profile_value E (rc_profile rc), nj_deadlines = rc_deadlines rc,
           nj_trigger = trigger_value (ee_chrono E) trig, nj_origin_correlation_id = Some correlation,
           nj_intended_output = intended_output_of (rc_relative_path rc) (cs_backend (rc_snapshot rc)),
           nj_accepted_at_ms = rc_accepted_at_ms rc, nj_group_id = Some g\<rparr>,
         sub_spec = spec_of rc inst trig correlation metadata (Some group_size), sub_priority = Direct\<rparr>)))"

definition group_arguments :: "GroupCaptureRequest \<Rightarrow> json" where
  "group_arguments body = to_object
     [(''requestId'', Some (JString (gq_request_id body))),
      (''instances'', Some (JArray (map JString (gq_instances body)))),
      (''captureProfile'', map_option JString (gq_capture_profile body)),
      (''profileOverrides'', Some (JObject (map (map_prod id JString) (gq_profile_overrides body)))),
      (''timeoutMs'', map_option json_u64 (gq_timeout_ms body)),
      (''metadata'', Some (JObject (gq_metadata body)))]"

definition register_group :: "string \<Rightarrow> string \<Rightarrow> unit result job_task" where
  "register_group g waiter = action (\<lambda>w.
     (Inr (), w\<lparr>w_group_tokens := (g, (case map_of (w_group_tokens w) g of None \<Rightarrow> [] | Some ids \<Rightarrow> ids) @ [waiter]) #
        bt_remove g (w_group_tokens w)\<rparr>))"

definition offer_group :: "engine_env \<Rightarrow> string option \<Rightarrow> GroupRecord \<Rightarrow> unit result job_task" where
  "offer_group E waiter record =
     (case waiter of
        None \<Rightarrow> Return (Inr ())
      | Some t \<Rightarrow>
          if is_terminal (gr_state (fst record))
          then bind_task (reply E (gr_group_id (fst record)) t (group_terminal_json record)) (\<lambda>reached.
            Return (if reached then Inr ()
              else Inl (rejected BackendError ''deferred group reply could not be settled'')))
          else register_group (gr_group_id (fst record)) t)"

definition group_conflict :: camera_error where
  "group_conflict = rejected IdempotencyConflict ''requestId was already used with different immutable group arguments''"

definition replay_group ::
    "engine_env \<Rightarrow> string option \<Rightarrow> RequestHash \<Rightarrow> GroupRecord \<Rightarrow> GroupRecord result job_task" where
  "replay_group E waiter hash record =
     (if gr_request_hash (fst record) \<noteq> hash then Return (Inl group_conflict)
      else try_task (offer_group E waiter record) (\<lambda>_. Return (Inr record)))"

fun build_members ::
    "engine_env \<Rightarrow> intake_env \<Rightarrow> GroupCaptureRequest \<Rightarrow> string \<Rightarrow> string \<Rightarrow> CapturePriority \<Rightarrow> string list \<Rightarrow>
     JobSubmission list result job_task" where
  "build_members E I body g correlation priority [] = Return (Inr [])"
| "build_members E I body g correlation priority (inst # rest) =
     try_task (answer (\<lambda>k. build_group_submission E I k inst (length (gq_instances body)) (gq_request_id body) g
       (case map_of (gq_profile_overrides body) inst of None \<Rightarrow> gq_capture_profile body | Some p \<Rightarrow> Some p)
       (gq_timeout_ms body) (gq_metadata body) correlation)) (\<lambda>sub.
     try_task (build_members E I body g correlation priority rest) (\<lambda>subs.
       Return (Inr (sub\<lparr>sub_priority := priority\<rparr> # subs))))"

fun queue_members :: "engine_env \<Rightarrow> intake_env \<Rightarrow> JobSubmission list \<Rightarrow> unit result job_task" where
  "queue_members E I [] = Return (Inr ())"
| "queue_members E I (sub # rest) =
     try_task (answer (\<lambda>k. reach_engine I k (sp_instance (sub_spec sub)))) (\<lambda>_.
     try_task (queue_preaccepted E sub) (\<lambda>_. queue_members E I rest))"

definition start_group ::
    "engine_env \<Rightarrow> intake_env \<Rightarrow> string option \<Rightarrow> JobSubmission list \<Rightarrow> string \<Rightarrow> GroupRecord result job_task" where
  "start_group E I waiter submissions g =
     try_task (case waiter of None \<Rightarrow> Return (Inr ()) | Some t \<Rightarrow> register_group g t) (\<lambda>_.
     bind_task (now_ms E) (\<lambda>now.
     try_task (store_call E (queue_group g now)) (\<lambda>_.
     try_task (queue_members E I submissions) (\<lambda>_.
     bind_task (complete_group_if_terminal E g) (\<lambda>_.
     try_task (read_catalog E (\<lambda>db. load_group db g)) (\<lambda>found.
       Return (ok_or found (CatalogError ''accepted capture group disappeared''))))))))"

definition GROUP_VERB :: string where "GROUP_VERB = ''sb/capture-group''"

definition members_available :: "intake_env \<Rightarrow> nat \<Rightarrow> string list \<Rightarrow> unit result" where
  "members_available I k is = for_each (\<lambda>i. and_then (resolve_actuation_instance (Some i) (ie_registry I k))
     (ensure_not_paused I k)) is"

definition commit_group ::
    "engine_env \<Rightarrow> intake_env \<Rightarrow> string option \<Rightarrow> NewGroup \<Rightarrow> JobSubmission list \<Rightarrow> GroupRecord result job_task" where
  "commit_group E I waiter grp submissions =
     bind_task (answer (ie_storage I)) (\<lambda>capacity.
       case capacity of
         Inl e \<Rightarrow>
           if error_code_of e = StoragePressure
           then try_task (read_catalog E (group_by_ledger (ng_ledger_key grp))) (\<lambda>again.
                  case again of Some record \<Rightarrow> replay_group E waiter (ng_request_hash grp) record
                  | None \<Rightarrow> Return (Inl e))
           else Return (Inl e)
       | Inr _ \<Rightarrow>
           try_task (store_call E (accept_group (ee_category E) grp)) (\<lambda>accepted.
             case accepted of
               GroupInserted record \<Rightarrow> start_group E I waiter submissions (gr_group_id (fst record))
             | GroupExisting record \<Rightarrow> try_task (offer_group E waiter record) (\<lambda>_. Return (Inr record))
             | GroupConflict \<Rightarrow> Return (Inl group_conflict)))"

definition submit_group ::
    "engine_env \<Rightarrow> intake_env \<Rightarrow> GroupCaptureRequest \<Rightarrow> string \<Rightarrow> CapturePriority \<Rightarrow> string option \<Rightarrow>
     GroupRecord result job_task" where
  "submit_group E I body correlation priority waiter =
     (let canonical = group_arguments body in
      case canonical_request_hash (ie_lexis I) (ie_sha256 I) canonical True of
        Inl e \<Rightarrow> Return (Inl e)
      | Inr hash \<Rightarrow>
      case ledger_key_new (ee_category E) ''main'' GROUP_VERB (gq_request_id body) of
        Inl e \<Rightarrow> Return (Inl e)
      | Inr key \<Rightarrow>
      try_task (read_catalog E (group_by_ledger key)) (\<lambda>existing.
        case existing of
          Some record \<Rightarrow> replay_group E waiter hash record
        | None \<Rightarrow>
        try_task (answer (ie_config I)) (\<lambda>config.
        case group_validate \<lparr>re_category = ee_category E, re_to_vec = ie_to_vec I\<rparr> body
            (max_cameras_per_group (g_limits (ad_global config))) (max_metadata_bytes (g_limits (ad_global config))) of
          Inl e \<Rightarrow> Return (Inl e)
        | Inr _ \<Rightarrow>
        try_task (answer (\<lambda>k. members_available I k (gq_instances body))) (\<lambda>_.
        bind_task (answer (\<lambda>k. ''grp_'' @ ie_uuid I k)) (\<lambda>g.
        try_task (build_members E I body g correlation priority (gq_instances body)) (\<lambda>submissions.
        bind_task (now_ms E) (\<lambda>now.
          commit_group E I waiter \<lparr>ng_group_id = g, ng_ledger_key = key, ng_canonical_request = canonical,
            ng_request_hash = hash, ng_origin_correlation_id = Some correlation, ng_accepted_at_ms = now,
            ng_members = map sub_job submissions\<rparr> submissions)))))))"

section \<open>Schedule occurrences\<close>

text \<open>
  What became of an occurrence. A suspended occurrence and one skipped for a moving camera leave no row;
  the latter also raises an event.
\<close>

datatype ScheduledSubmission = SuspendedByPause | SkippedMoving | OccurrenceStored AcceptJobOutcome

definition scheduled_work ::
    "intake_env \<Rightarrow> nat \<Rightarrow> string \<Rightarrow> string \<Rightarrow> (AdapterConfig \<times> CameraConfig \<times> (string \<times> CaptureProfile) option) result" where
  "scheduled_work I k inst schedule_id =
     and_then (ie_config I k) (\<lambda>config.
     and_then (camera_config inst (ie_registry I k)) (\<lambda>camera.
     if \<not> cam_enabled camera
     then Inl (rejected CameraDisabled ''camera was disabled before scheduled admission'')
     else if ie_paused I k inst then Inr (config, camera, None)
     else
     and_then (ok_or (find (\<lambda>sc. sc_id sc = schedule_id \<and> sc_enabled sc) (cam_schedules camera))
       (rejected BadArgs ''schedule is no longer enabled for this camera'')) (\<lambda>schedule.
     and_then (ok_or (map_of (capture_profiles camera) (sc_capture_profile schedule))
       (rejected UnknownCaptureProfile ''scheduled capture profile is not configured'')) (\<lambda>profile.
       Inr (config, camera, Some (sc_capture_profile schedule, profile))))))"

definition resolve_scheduled ::
    "engine_env \<Rightarrow> intake_env \<Rightarrow> nat \<Rightarrow> string \<Rightarrow> AdapterConfig \<Rightarrow> CameraConfig \<Rightarrow> string \<Rightarrow> CaptureProfile \<Rightarrow>
     ResolvedCapture result" where
  "resolve_scheduled E I k inst config camera name profile =
     (let accepted_at = ee_now E k; capture = ''cap_'' @ ie_uuid I k;
          terminal_ms = option_or (prof_timeout_ms profile) (job_terminal_ms (g_timeouts (ad_global config))) in
     and_then (render_output_path (g_output (ad_global config))
         \<lparr>ov_camera_id = inst, ov_capture_id = capture, ov_timestamp = ie_clock I k\<rparr> (prof_encoding profile)) (\<lambda>path.
     and_then (registry_snapshot inst (ie_registry I k)) (\<lambda>snapshot.
       Inr \<lparr>rc_camera = camera, rc_snapshot = snapshot, rc_profile_name = name,
         rc_profile = profile_snapshot_of (ad_global config) camera name profile FailFast,
         rc_camera_summary = camera_summary_of snapshot, rc_capture_id = capture, rc_accepted_at_ms = accepted_at,
         rc_terminal_ms = terminal_ms,
         rc_deadlines = deadlines_from (g_timeouts (ad_global config)) profile terminal_ms accepted_at,
         rc_relative_path = path\<rparr>)))"

definition occurrence_arguments :: "engine_env \<Rightarrow> ResolvedCapture \<Rightarrow> ScheduleOccurrence \<Rightarrow> json" where
  "occurrence_arguments E rc occ = to_object
     [(''scheduleId'', Some (JString (oc_schedule_id occ))),
      (''intendedFireTime'', Some (JString (dt_show (ee_chrono E) (oc_intended_fire_time occ)))),
      (''captureProfile'', Some (JString (rc_profile_name rc))),
      (''effectiveProfile'', Some (ee_profile_value E (rc_profile rc))),
      (''deadlines'', Some (deadlines_json (rc_deadlines rc))),
      (''intendedOutput'', Some (intended_output_of (rc_relative_path rc) (cs_backend (rc_snapshot rc))))]"

definition scheduled_submission ::
    "engine_env \<Rightarrow> ResolvedCapture \<Rightarrow> string \<Rightarrow> ScheduleOccurrence \<Rightarrow> string \<Rightarrow> RequestHash \<Rightarrow> JobSubmission" where
  "scheduled_submission E rc inst occ correlation hash =
     (let trig = Schedule (oc_schedule_id occ) (oc_intended_fire_time occ) in \<lparr>
       sub_job = \<lparr>nj_capture_id = rc_capture_id rc, nj_instance = inst, nj_ledger_key = None,
         nj_canonical_request = occurrence_arguments E rc occ, nj_request_hash = hash,
         nj_effective_profile = ee_profile_value E (rc_profile rc), nj_deadlines = rc_deadlines rc,
         nj_trigger = trigger_value (ee_chrono E) trig, nj_origin_correlation_id = None,
         nj_intended_output = intended_output_of (rc_relative_path rc) (cs_backend (rc_snapshot rc)),
         nj_accepted_at_ms = rc_accepted_at_ms rc, nj_group_id = None\<rparr>,
       sub_spec = spec_of rc inst trig correlation [] None, sub_priority = Scheduled\<rparr>)"

definition build_scheduled ::
    "engine_env \<Rightarrow> intake_env \<Rightarrow> nat \<Rightarrow> string \<Rightarrow> AdapterConfig \<Rightarrow> CameraConfig \<Rightarrow> string \<Rightarrow> CaptureProfile \<Rightarrow>
     ScheduleOccurrence \<Rightarrow> JobSubmission result" where
  "build_scheduled E I k inst config camera name profile occ =
     and_then (resolve_scheduled E I k inst config camera name profile) (\<lambda>rc.
     and_then (canonical_request_hash (ie_lexis I) (ie_sha256 I) (occurrence_arguments E rc occ) False) (\<lambda>hash.
       Inr (scheduled_submission E rc inst occ (ie_uuid I k) hash)))"

definition submit_scheduled ::
    "engine_env \<Rightarrow> intake_env \<Rightarrow> ScheduleOccurrence \<Rightarrow> ScheduledSubmission result job_task" where
  "submit_scheduled E I occ =
     (case scope_camera (oc_scope occ) of
        None \<Rightarrow> Return (Inl (CatalogError ''a group-schedule occurrence cannot be submitted as a single camera capture''))
      | Some inst \<Rightarrow>
      try_task (answer (\<lambda>k. scheduled_work I k inst (oc_schedule_id occ))) (\<lambda>(config, camera, work).
        case work of
          None \<Rightarrow> Return (Inr SuspendedByPause)
        | Some (name, profile) \<Rightarrow>
        bind_task (if option_or (profile_interlock profile) (capture_interlock (cam_ptz camera)) = Reject
                   then answer (\<lambda>k. ie_moving I k inst) else Return False) (\<lambda>moving.
        if moving then Return (Inr SkippedMoving)
        else
        try_task (answer (\<lambda>k. build_scheduled E I k inst config camera name profile occ)) (\<lambda>sub.
        try_task (answer (ie_storage I)) (\<lambda>_.
        try_task (store_call E (accept_scheduled_job (ee_category E) (sub_job sub) (oc_schedule_id occ)
          (timestamp_millis (oc_intended_fire_time occ)))) (\<lambda>outcome.
          if (case outcome of JobInserted _ \<Rightarrow> False | _ \<Rightarrow> True) then Return (Inr (OccurrenceStored outcome))
          else try_task (answer (\<lambda>k. reach_engine I k inst)) (\<lambda>_.
               try_task (queue_preaccepted E sub) (\<lambda>_. Return (Inr (OccurrenceStored outcome))))))))))"

section \<open>Group schedules\<close>

definition show_i64 :: "int \<Rightarrow> string" where
  "show_i64 n = (if n < 0 then ''-'' @ show_nat (nat (- n)) else show_nat (nat n))"

text \<open>The request of an occurrence names the schedule and the instant, so a repeat finds the first group.\<close>

definition schedule_request_id :: "string \<Rightarrow> int \<Rightarrow> string" where
  "schedule_request_id schedule_id fire_time = ''schedule:'' @ schedule_id @ '':'' @ show_i64 (timestamp_millis fire_time)"

definition scheduled_group_request :: "intake_env \<Rightarrow> CaptureGroupScheduleConfig \<Rightarrow> int \<Rightarrow> GroupCaptureRequest" where
  "scheduled_group_request I schedule fire_time = \<lparr>
     gq_request_id = schedule_request_id (gs_id schedule) fire_time, gq_instances = gs_instances schedule,
     gq_capture_profile = gs_capture_profile schedule, gq_profile_overrides = gs_profile_overrides schedule,
     gq_timeout_ms = gs_timeout_ms schedule,
     gq_metadata = [(''intendedFireTime'', JString (ie_rfc3339_millis I fire_time)), (''scheduleId'', JString (gs_id schedule))]\<rparr>"

definition submit_scheduled_group :: "engine_env \<Rightarrow> intake_env \<Rightarrow> ScheduleOccurrence \<Rightarrow> string result job_task" where
  "submit_scheduled_group E I occ =
     try_task (answer (ie_config I)) (\<lambda>config.
       case find (\<lambda>s. gs_id s = oc_schedule_id occ \<and> gs_enabled s) (g_capture_group_schedules (ad_global config)) of
         None \<Rightarrow> Return (Inl (rejected BadArgs ''group schedule is no longer enabled''))
       | Some schedule \<Rightarrow>
           bind_task (answer (\<lambda>k. ''sched_'' @ ie_uuid I k)) (\<lambda>correlation.
           try_task (submit_group E I (scheduled_group_request I schedule (oc_intended_fire_time occ)) correlation Scheduled None)
             (\<lambda>record. Return (Inr (gr_group_id (fst record))))))"

end
