(* ===== verification/Intake_Guarantees.thy ===== *)
theory Intake_Guarantees
  imports Intake
begin

text \<open>What callers can rely on when a capture is handed in, and where they cannot.\<close>

section \<open>Tasks that refuse\<close>

text \<open>A task that, left alone, returns an error and leaves the catalog and the runtimes as they were.\<close>

definition refuses :: "'a result job_task \<Rightarrow> world \<Rightarrow> bool" where
  "refuses t w \<longleftrightarrow> (\<exists>e w'. run_alone t w = (Some (Inl e), w') \<and> w_catalog w' = w_catalog w \<and> w_runtimes w' = w_runtimes w \<and>
     w_active w' = w_active w)"

lemma next_tick_fields [simp]:
  "w_catalog (next_tick w) = w_catalog w" "w_runtimes (next_tick w) = w_runtimes w" "w_active (next_tick w) = w_active w"
  "w_pending (next_tick w) = w_pending w" "w_tick (next_tick w) = Suc (w_tick w)" "w_log (next_tick w) = w_log w"
  by (simp_all add: next_tick_def)

lemma logged_nothing [simp]: "logged [] w = w"
  by (simp add: logged_def)

lemma refuses_error: "refuses (Return (Inl e)) w"
  by (simp add: refuses_def)

lemma refuses_try_answer:
  "(\<And>a. f (w_tick w) = Inr a \<Longrightarrow> refuses (g a) (next_tick w)) \<Longrightarrow> refuses (try_task (answer f) g) w"
  by (cases "f (w_tick w)") (auto simp: refuses_def run_alone_rules answer_def)

lemma refuses_answer: "refuses (g (f (w_tick w))) (next_tick w) \<Longrightarrow> refuses (bind_task (answer f) g) w"
  by (simp add: refuses_def run_alone_rules answer_def)

lemma refuses_read: "refuses (g (f (w_catalog w))) (next_tick w) \<Longrightarrow> refuses (try_task (read_catalog E f) g) w"
  by (auto simp: refuses_def run_alone_rules read_catalog_def store_call_def transact_def split: option.splits)

lemma refuses_store:
  assumes "fst (f (w_catalog w)) = w_catalog w" and "isl (snd (f (w_catalog w)))"
  shows "refuses (try_task (store_call E f) g) w"
  using assms by (cases "snd (f (w_catalog w))")
    (auto simp: refuses_def run_alone_rules store_call_def transact_def split: option.splits)

lemmas refuses_rules = refuses_error refuses_try_answer refuses_answer refuses_read

section \<open>Deadlines of a resolved capture\<close>

definition stage_exceeds :: "TimeoutsConfig \<Rightarrow> u64 \<Rightarrow> bool" where
  "stage_exceeds timeouts t \<longleftrightarrow> t < capture_ms timeouts \<or> t < encode_ms timeouts \<or> t < persist_ms timeouts"

lemma saturate_later:
  assumes "0 \<le> now" and "now < i64_max - int (unat t)" and "t < s"
  shows "saturate_i64 (now + i64_of_u64 t) < saturate_i64 (now + i64_of_u64 s)"
  using assms by (auto simp: saturate_i64_def i64_of_u64_def i64_max_def i64_min_def word_less_nat_alt min_def max_def
      simp del: of_nat_unat)

lemma deadlines_exceeded:
  assumes "0 \<le> now" and "now < i64_max - int (unat t)" and "stage_exceeds timeouts t"
  shows "\<not> deadlines_ok (deadlines_from timeouts profile t now)"
  using assms saturate_later [of now t]
  by (fastforce simp: stage_exceeds_def deadlines_ok_def deadlines_from_def not_le)

lemma resolve_captureD:
  assumes "resolve_capture E I k inst requested timeout = Inr rc"
  obtains config camera profile where "ie_config I k = Inr config" "camera_config inst (ie_registry I k) = Inr camera"
    "map_of (capture_profiles camera) (rc_profile_name rc) = Some profile"
    "rc_profile_name rc = option_or requested (default_capture_profile camera)"
    "rc_terminal_ms rc = option_or (case timeout of None \<Rightarrow> prof_timeout_ms profile | Some t \<Rightarrow> Some t)
       (job_terminal_ms (g_timeouts (ad_global config)))"
    "rc_deadlines rc = deadlines_from (g_timeouts (ad_global config)) profile (rc_terminal_ms rc) (ee_now E k)"
    "rc_profile rc = profile_snapshot_of (ad_global config) camera (rc_profile_name rc) profile WaitUntilDeadline"
    "rc_accepted_at_ms rc = ee_now E k" "rc_capture_id rc = ''cap_'' @ ie_uuid I k"
  using assms unfolding resolve_capture_def Let_def and_then_Inr_iff ok_or_Inr_iff by fastforce

lemma short_deadlines_not_accepted:
  assumes "\<not> deadlines_ok (nj_deadlines job)"
  shows "fst (accept_job cat job db) = db" "isl (snd (accept_job cat job db))"
proof -
  have "validate_new_job cat job False \<noteq> Inr ()"
    using assms by (simp add: validate_new_job_def and_then_Inr_iff check_deadlines_def ensure_Inr_iff)
  then obtain e where "validate_new_job cat job False = Inl e" by (cases "validate_new_job cat job False") auto
  then show "fst (accept_job cat job db) = db" "isl (snd (accept_job cat job db))" by (simp_all add: accept_job_def)
qed

lemma refuses_accept:
  assumes "\<not> deadlines_ok (nj_deadlines (sub_job sub))"
  shows "refuses (accept_and_queue E sub) w"
  unfolding accept_and_queue_def Let_def
  using short_deadlines_not_accepted [OF assms]
  by (cases "validate_submission E sub") (simp_all add: refuses_error refuses_try_answer refuses_store)

lemma nj_deadlines_capture_submission [simp]:
  "nj_deadlines (sub_job (capture_submission E rc inst key canonical hash correlation metadata priority)) = rc_deadlines rc"
  by (simp add: capture_submission_def Let_def)

text \<open>C33: A timeout shorter than a configured stage budget is within the documented range of timeoutMs,
  yet a capture that asks for it is never accepted: the stage deadlines are not cut to the timeout, and the
  catalog refuses a stage deadline after the terminal one.
\<close>

theorem short_timeout_refused:
  assumes "\<And>k config. ie_config I k = Inr config \<Longrightarrow> stage_exceeds (g_timeouts (ad_global config)) t"
    and "\<And>k. 0 \<le> ee_now E k \<and> ee_now E k < i64_max - int (unat t)"
    and "job_by_ledger \<lparr>lk_instance = inst, lk_verb = verb, lk_request_id = q\<rparr> (w_catalog w) = None"
  shows "\<exists>e w'. run_alone (submit_capture E I inst q profile (Some t) metadata correlation verb priority) w = (Some (Inl e), w') \<and>
    w_catalog w' = w_catalog w \<and> w_runtimes w' = w_runtimes w \<and> w_active w' = w_active w"
proof -
  have refused: "\<not> deadlines_ok (rc_deadlines rc)" if "resolve_capture E I k inst profile (Some t) = Inr rc" for k rc
    using that assms(1,2) by (elim resolve_captureD) (simp add: option_or_def deadlines_exceeded)
  have "refuses (submit_capture E I inst q profile (Some t) metadata correlation verb priority) w"
    unfolding submit_capture_def Let_def ledger_key_new_def and_then_def
    using assms(3) by (auto intro!: refuses_rules refuses_accept simp: refused split: sum.splits)
  then show ?thesis by (simp add: refuses_def)
qed

section \<open>Acceptance in a working environment\<close>

lemma run_read: "ee_store_fault E (w_tick w) = None \<Longrightarrow> run_alone (read_catalog E f) w = (Some (Inr (f (w_catalog w))), next_tick w)"
  by (simp add: read_catalog_def run_store)

lemma run_stored_job:
  "ee_store_fault E (w_tick w) = None \<Longrightarrow> run_alone (stored_job E c) w = (Some (Inr (load_job (w_catalog w) c)), next_tick w)"
  by (simp add: stored_job_def run_store)

text \<open>The row, the ledger entry and the state a new commanded capture gets.\<close>

definition fresh_job :: "NewJob \<Rightarrow> LedgerKey \<Rightarrow> catalog \<Rightarrow> bool" where
  "fresh_job job key db \<longleftrightarrow> nj_ledger_key job = Some key \<and> load_ledger db key = None \<and>
     select_row capture_id (nj_capture_id job) (jobs db) = None \<and>
     (\<forall>r \<in> set (jobs db). \<not> has_request (nj_instance job) (lk_request_id key) r)"

definition inserted_catalog :: "NewJob \<Rightarrow> LedgerKey \<Rightarrow> catalog \<Rightarrow> catalog" where
  "inserted_catalog job key db = db\<lparr>jobs := jobs db @ [new_row job], command_ledger := command_ledger db @
     [\<lparr>le_key = key, le_request_hash = nj_request_hash job, le_canonical_request = nj_canonical_request job,
       le_state = InProgress, le_created_at_ms = nj_accepted_at_ms job, le_updated_at_ms = nj_accepted_at_ms job,
       le_capture_id = Some (nj_capture_id job), le_group_id = None, le_reply = None, le_error_code = None,
       le_error_message = None\<rparr>]\<rparr>"

definition queued_row :: "NewJob \<Rightarrow> int \<Rightarrow> JobRow" where
  "queued_row job now = (new_row job)\<lparr>state := Queued, updated_at_ms := now, queued_at_ms := Some now\<rparr>"

definition queued_catalog :: "NewJob \<Rightarrow> LedgerKey \<Rightarrow> int \<Rightarrow> catalog \<Rightarrow> catalog" where
  "queued_catalog job key now db = (inserted_catalog job key db)\<lparr>jobs := jobs db @ [queued_row job now]\<rparr>"

lemma new_row_parts [simp]:
  "capture_id (new_row job) = nj_capture_id job" "state (new_row job) = Accepted" "instance_of (new_row job) = nj_instance job"
  "ledger_key (new_row job) = nj_ledger_key job" "request_hash (new_row job) = nj_request_hash job"
  by (simp_all add: new_row_def)

lemma fresh_requests:
  "fresh_job job key db \<Longrightarrow> find (has_request (nj_instance job) (lk_request_id key)) (jobs db) = None"
  "fresh_job job key db \<Longrightarrow> \<not> list_ex (has_request (nj_instance job) (lk_request_id key)) (jobs db)"
  by (auto simp: fresh_job_def find_None_iff list_ex_iff)

lemma accept_job_fresh:
  assumes "fresh_job job key db" and "validate_new_job cat job False = Inr ()"
  shows "accept_job cat job db = (inserted_catalog job key db,
    Inr (JobInserted (new_row job, staged (inserted_catalog job key db) (nj_capture_id job))))"
proof -
  have group: "nj_group_id job = None"
    using assms(2) by (auto simp: validate_new_job_def and_then_Inr_iff ensure_Inr_iff)
  have "insert_job job db' = Inr (db'\<lparr>jobs := jobs db @ [new_row job]\<rparr>)" if "jobs db' = jobs db" for db'
    using assms(1) fresh_requests [OF assms(1)] group that by (simp add: insert_job_def fresh_job_def)
  then show ?thesis
    using assms fresh_requests [OF assms(1)]
    by (simp add: accept_job_def accept_job_blocking_def fresh_job_def insert_ledger_def insert_and_load_def commit_def
        load_job_required_def load_job_def inserted_catalog_def select_row_append and_then_def ok_or_def staged_def)
qed

lemma load_inserted_job:
  assumes "fresh_job job key db"
  shows "load_job (inserted_catalog job key db) (nj_capture_id job) =
    Some (new_row job, staged (inserted_catalog job key db) (nj_capture_id job))"
  using assms by (simp add: load_job_def inserted_catalog_def fresh_job_def select_row_append)

lemma update_where_none: "(\<And>r. r \<in> set t \<Longrightarrow> \<not> p r) \<Longrightarrow> update_where p f t = t"
  by (induction t) (simp_all add: update_where_def)

lemma queue_inserted:
  assumes "fresh_job job key db" and "nj_capture_id job \<noteq> []"
  shows "queue_job (nj_capture_id job) now (inserted_catalog job key db) = (queued_catalog job key now db,
    Inr (StateChanged (queued_row job now, staged (queued_catalog job key now db) (nj_capture_id job))))"
proof -
  let ?p = "at_job (nj_capture_id job) (\<lambda>r. state r = Accepted)"
  have others: "\<not> ?p r" if "r \<in> set (jobs db)" for r
    using that assms(1) by (auto simp: fresh_job_def select_row_None at_job_def image_iff)
  have "count_where ?p (jobs (inserted_catalog job key db)) = 1"
    using others by (simp add: count_where_def inserted_catalog_def at_job_def)
  moreover have "update_where ?p f (jobs (inserted_catalog job key db)) = jobs db @ [f (new_row job)]" for f
    using update_where_none [of "jobs db" ?p f] others
    by (simp add: inserted_catalog_def update_where_def at_job_def)
  ultimately show ?thesis
    using assms by (simp add: queue_job_def require_nonempty_def ensure_def commit_def cas_state_blocking_def Let_def update_jobs_def
        and_then_def load_job_required_def load_job_def queued_catalog_def queued_row_def select_row_append
        fresh_job_def inserted_catalog_def ok_or_def staged_def)
qed

text \<open>A capture that is queued: its row, the ledger entry that leads to it, its runtime and its timer.\<close>

definition taken :: "JobSubmission \<Rightarrow> LedgerKey \<Rightarrow> JobRecord \<Rightarrow> world \<Rightarrow> bool" where
  "taken sub key record w \<longleftrightarrow> state (fst record) = Queued \<and> load_job (w_catalog w) (nj_capture_id (sub_job sub)) = Some record \<and>
     job_by_ledger key (w_catalog w) = Some record \<and>
     (\<exists>r. map_of (w_active w) (nj_capture_id (sub_job sub)) = Some r \<and> r < length (w_runtimes w) \<and>
        rt_spec (runtime_of r w) = sub_spec sub \<and> TimerSpawned r \<in> set (w_log w))"

lemma hook_without_waiter:
  assumes "map_of (w_pending w) (instance_of (fst record), lk_request_id key) = None" and "ledger_key (fst record) = Some key"
  shows "\<exists>w'. run_alone (accepted_before_queue E record) w = (Some (Inr ()), w') \<and> w_catalog w' = w_catalog w \<and>
    w_runtimes w' = w_runtimes w \<and> w_active w' = w_active w \<and> w_log w' = w_log w"
  using assms by (auto simp: accepted_before_queue_def Let_def run_alone_rules take_pending_def)

lemma fresh_runtime_spec [simp]: "rt_spec (fresh_runtime spec camera) = spec"
  by (simp add: fresh_runtime_def)

lemma accept_and_queue_taken:
  assumes "fresh_job (sub_job sub) key (w_catalog w)" and "validate_submission E sub = Inr ()"
    and "validate_new_job (ee_category E) (sub_job sub) False = Inr ()"
    and "\<And>k. ee_store_fault E k = None" "\<And>k. ee_reserve E k (sp_instance (sub_spec sub)) = Inr ()" "\<And>k. isl (ee_dispatch E k) = False"
    and "map_of (w_pending w) (nj_instance (sub_job sub), lk_request_id key) = None"
    and "map_of (w_active w) (nj_capture_id (sub_job sub)) = None"
  shows "\<exists>record w'. run_alone (accept_and_queue E sub) w = (Some (Inr (JobInserted record)), w') \<and> taken sub key record w'"
proof -
  let ?c = "nj_capture_id (sub_job sub)" and ?db = "w_catalog w"
  let ?row = "(new_row (sub_job sub), staged (inserted_catalog (sub_job sub) key ?db) ?c)"
  define w1 where "w1 = next_tick (next_tick ((next_tick w)\<lparr>w_catalog := inserted_catalog (sub_job sub) key ?db\<rparr>))"
  have nonempty: "?c \<noteq> []" using assms(2) by (simp add: validate_submission_Inr)
  have w1: "w_catalog w1 = inserted_catalog (sub_job sub) key ?db" "w_pending w1 = w_pending w" "w_active w1 = w_active w"
    by (simp_all add: w1_def next_tick_def)
  obtain w2 where hook: "run_alone (accepted_before_queue E ?row) w1 = (Some (Inr ()), w2)" and w2: "w_catalog w2 = w_catalog w1"
      "w_active w2 = w_active w1"
    using hook_without_waiter [of w1 ?row key E] assms(1,7) w1 by (auto simp: fresh_job_def)
  define now where "now = ee_now E (w_tick w2)"
  define w3 where "w3 = next_tick ((next_tick w2)\<lparr>w_catalog := queued_catalog (sub_job sub) key now ?db\<rparr>)"
  define job where "job = (queued_row (sub_job sub) now, staged (queued_catalog (sub_job sub) key now ?db) ?c)"
  have w3: "w_catalog w3 = queued_catalog (sub_job sub) key now ?db" "w_active w3 = w_active w"
    by (simp_all add: w3_def w2 w1 next_tick_def)
  define w4 where "w4 = w3\<lparr>w_runtimes := w_runtimes w3 @ [fresh_runtime (sub_spec sub) (sp_camera (sub_spec sub))],
    w_active := (?c, length (w_runtimes w3)) # bt_remove ?c (w_active w3)\<rparr>"
  obtain p where p: "ee_dispatch E (w_tick w4) = Inr p" using assms(6) [of "w_tick w4"] by (cases "ee_dispatch E (w_tick w4)") auto
  let ?w5 = "logged [CaptureQueued ?c p] (logged [TimerSpawned (length (w_runtimes w3))] (next_tick w4))"
  have enter: "run_alone (enter_actor E a b (sub_spec sub) job) w3 = (Some (Inr job), ?w5)" for a b
    using assms(8) p by (simp add: enter_actor_def run_alone_rules register_def job_def queued_row_def w3 w4_def Let_def)
  have "run_alone (accept_and_queue E sub) w = (Some (Inr (JobInserted job)), ?w5)"
    using assms(2,4,5) hook enter
    by (simp add: accept_and_queue_def Let_def run_alone_rules run_store accept_job_fresh [OF assms(1,3)] run_stored_job
        load_inserted_job [OF assms(1)] w1_def [symmetric] w2 w1 queue_inserted [OF assms(1) nonempty] now_def [symmetric]
        w3_def [symmetric] job_def [symmetric])
  moreover have "load_job (w_catalog ?w5) ?c = Some job"
    using assms(1) by (simp add: w4_def w3 job_def load_job_def queued_catalog_def queued_row_def select_row_append fresh_job_def)
  moreover have "load_ledger (w_catalog ?w5) key \<noteq> None \<and> le_capture_id (the (load_ledger (w_catalog ?w5) key)) = Some ?c"
    using assms(1) by (simp add: w4_def w3 queued_catalog_def inserted_catalog_def fresh_job_def load_ledger_def select_row_append)
  ultimately show ?thesis
    by (intro exI conjI) (auto simp: taken_def job_by_ledger_def job_def queued_row_def runtime_of_def w4_def nth_append logged_def
        next_tick_def)
qed

lemma intended_output_path: "str_field (intended_output_of path backend) ''relativePath'' = Some (rp_wire path)"
  by (simp add: intended_output_of_def str_field_def object_get_to_object)

lemma spec_of_parts [simp]:
  "sp_capture_id (spec_of rc inst trig correlation metadata n) = rc_capture_id rc"
  "sp_instance (spec_of rc inst trig correlation metadata n) = inst"
  "sp_profile (spec_of rc inst trig correlation metadata n) = rc_profile rc"
  "sp_relative_path (spec_of rc inst trig correlation metadata n) = rc_relative_path rc"
  "sp_deadlines (spec_of rc inst trig correlation metadata n) = rc_deadlines rc"
  "sp_accepted_at_ms (spec_of rc inst trig correlation metadata n) = rc_accepted_at_ms rc"
  "sp_trigger (spec_of rc inst trig correlation metadata n) = trig"
  "sp_correlation_id (spec_of rc inst trig correlation metadata n) = correlation"
  "sp_group_size (spec_of rc inst trig correlation metadata n) = n"
  by (simp_all add: spec_of_def)

definition presentable :: "ResolvedCapture \<Rightarrow> bool" where
  "presentable rc \<longleftrightarrow> rc_capture_id rc \<noteq> [] \<and> jp_name (rc_profile rc) \<noteq> [] \<and> jp_maximum_frame_bytes (rc_profile rc) \<noteq> 0"

lemma capture_submission_valid:
  assumes "presentable rc" and "inst \<noteq> []" and "correlation \<noteq> []"
  shows "validate_submission E (capture_submission E rc inst key canonical hash correlation metadata priority) = Inr ()"
  using assms by (simp add: validate_submission_Inr capture_submission_def Let_def presentable_def intended_output_path
      group_material_ok_def ensure_def)

lemma trigger_object: "is_JObject (trigger_value ch trig)"
  by (cases trig) (simp_all add: to_object_def)

lemma capture_submission_accepted:
  assumes "presentable rc" and "inst \<noteq> []" and "ledger_key_new (ee_category E) inst verb q = Inr key"
    and "is_JObject (ee_profile_value E (rc_profile rc))" and "deadlines_ok (rc_deadlines rc)" and "is_JObject canonical"
  shows "validate_new_job (ee_category E)
    (sub_job (capture_submission E rc inst key canonical hash correlation metadata priority)) False = Inr ()"
proof -
  have "validate_ledger_key (ee_category E) key = Inr ()" "lk_instance key = inst"
    using assms(3) by (auto simp: ledger_key_new_def Let_def and_then_Inr_iff)
  then show ?thesis
    using assms by (simp add: validate_new_job_def capture_submission_def Let_def and_then_Inr_iff ensure_Inr_iff require_nonempty_def
        require_object_def check_deadlines_def presentable_def trigger_object intended_output_of_def to_object_def)
qed

text \<open>C13: In a working environment a new capture whose resolved deadlines are in order is accepted and
  queued. Its row, the ledger entry of the request, its runtime and its timer are in place on return, and the
  row found under the request is the one returned.
\<close>

theorem capture_is_taken:
  assumes "canonical_request_hash (ie_lexis I) (ie_sha256 I) (capture_arguments inst q profile timeout metadata) False = Inr hash"
    and "ledger_key_new (ee_category E) inst verb q = Inr key"
    and "resolve_capture E I (w_tick w + 2) inst profile timeout = Inr rc"
    and "presentable rc" "inst \<noteq> []" "correlation \<noteq> []" "deadlines_ok (rc_deadlines rc)"
    and "is_JObject (ee_profile_value E (rc_profile rc))"
    and "\<And>k. \<not> ie_paused I k inst" "\<And>k. ie_storage I k = Inr ()" "\<And>k. reach_engine I k inst = Inr ()"
    and "\<And>k. ee_store_fault E k = None" "\<And>k. ee_reserve E k inst = Inr ()" "\<And>k. \<not> isl (ee_dispatch E k)"
    and "load_ledger (w_catalog w) key = None" "select_row capture_id (rc_capture_id rc) (jobs (w_catalog w)) = None"
    and "list_all (\<lambda>r. \<not> has_request inst q r) (jobs (w_catalog w))"
    and "map_of (w_pending w) (inst, q) = None" "map_of (w_active w) (rc_capture_id rc) = None"
  shows "\<exists>record w'. run_alone (submit_capture E I inst q profile timeout metadata correlation verb priority) w =
      (Some (Inr (JobInserted record)), w') \<and>
    taken (capture_submission E rc inst key (capture_arguments inst q profile timeout metadata) hash correlation metadata priority)
      key record w'"
proof -
  let ?sub = "capture_submission E rc inst key (capture_arguments inst q profile timeout metadata) hash correlation metadata priority"
  let ?w = "next_tick (next_tick (next_tick (next_tick (next_tick w))))"
  have key: "lk_request_id key = q" using assms(2) by (auto simp: ledger_key_new_def Let_def and_then_Inr_iff)
  have parts: "nj_capture_id (sub_job ?sub) = rc_capture_id rc" "nj_instance (sub_job ?sub) = inst" "sp_instance (sub_spec ?sub) = inst"
      "nj_ledger_key (sub_job ?sub) = Some key"
    by (simp_all add: capture_submission_def Let_def)
  have "is_JObject (capture_arguments inst q profile timeout metadata)" by (simp add: capture_arguments_def to_object_def)
  note new = capture_submission_accepted [OF assms(4,5,2,8,7) this, of hash correlation metadata priority]
  note valid = capture_submission_valid [OF assms(4,5,6)]
  have "fresh_job (sub_job ?sub) key (w_catalog ?w)"
    using assms(15,16,17) by (simp add: fresh_job_def parts key list_all_iff)
  then have "\<exists>record w'. run_alone (accept_and_queue E ?sub) ?w = (Some (Inr (JobInserted record)), w') \<and> taken ?sub key record w'"
    using assms(12-14,18,19) by (intro accept_and_queue_taken new valid) (auto simp: parts key)
  moreover have "run_alone (submit_capture E I inst q profile timeout metadata correlation verb priority) w =
      run_alone (accept_and_queue E ?sub) ?w"
    using assms(1,2,3,9,10,11,12,15)
    by (simp add: submit_capture_def Let_def run_alone_rules run_read job_by_ledger_def ensure_not_paused_def)
  ultimately show ?thesis by simp
qed

section \<open>Deferred captures that were refused\<close>

text \<open>A task that returns an error and keeps an entry of the callers that wait to be accepted.\<close>

definition strands :: "string \<times> string \<Rightarrow> 'a result job_task \<Rightarrow> world \<Rightarrow> bool" where
  "strands key t w \<longleftrightarrow> (\<exists>e w'. run_alone t w = (Some (Inl e), w') \<and> map_of (w_pending w') key \<noteq> None)"

lemma bt_remove_get [simp]: "map_of (bt_remove k m) k = None"
  by (induction m) (auto simp: bt_remove_def)

lemma prepared_twice:
  assumes "map_of (w_pending w) (inst, rq_request_id body) \<noteq> None"
    and "\<And>k. \<exists>config. ie_config I k = Inr config"
    and "\<And>k. resolve_actuation_instance (rq_instance body) (ie_registry I k) = Inr inst"
  shows "\<exists>w'. run_alone (accept_deferred_capture E I body correlation uuid) w =
      (Some (Inl (rejected IdempotencyConflict ''a deferred request is already being accepted'')), w') \<and>
    map_of (w_pending w') (inst, rq_request_id body) \<noteq> None \<and> w_catalog w' = w_catalog w"
proof -
  obtain config where "ie_config I (w_tick w) = Inr config" using assms(2) by blast
  then show ?thesis
    using assms(1,3) by (auto simp: accept_deferred_capture_def run_alone_rules prepare_waiter_def)
qed

text \<open>Every reason to turn a new capture away between the look at the ledger and its acceptance: a paused camera, a profile or
  timeout that does not resolve, no room to store it, a camera without an engine.\<close>

definition turns_away :: "engine_env \<Rightarrow> intake_env \<Rightarrow> string \<Rightarrow> string option \<Rightarrow> u64 option \<Rightarrow> bool" where
  "turns_away E I inst profile timeout \<longleftrightarrow> (\<forall>k. ie_paused I k inst) \<or> (\<forall>k. isl (resolve_capture E I k inst profile timeout)) \<or>
     (\<forall>k. isl (ie_storage I k)) \<or> (\<forall>k. isl (reach_engine I k inst))"

lemma run_catalog_read:
  "\<exists>res. run_alone (read_catalog E f) w = (Some res, next_tick w) \<and> (isl res \<or> res = Inr (f (w_catalog w)))"
  by (auto simp: read_catalog_def run_store split: option.splits)

lemma refused_submission:
  assumes "job_by_ledger \<lparr>lk_instance = inst, lk_verb = verb, lk_request_id = q\<rparr> (w_catalog w) = None"
    and "turns_away E I inst profile timeout"
  shows "\<exists>e w'. run_alone (submit_capture E I inst q profile timeout metadata correlation verb priority) w = (Some (Inl e), w') \<and>
    w_pending w' = w_pending w"
proof -
  let ?t = "\<lambda>key w. run_alone (read_catalog E (job_by_ledger key)) w"
  have key: "key = \<lparr>lk_instance = inst, lk_verb = verb, lk_request_id = q\<rparr>" if "ledger_key_new (ee_category E) inst verb q = Inr key" for key
    using that by (auto simp: ledger_key_new_def Let_def and_then_Inr_iff)
  have none: "?t key v = (Some (Inr None), next_tick v) \<or> (\<exists>e. ?t key v = (Some (Inl e), next_tick v))"
    if "ledger_key_new (ee_category E) inst verb q = Inr key" "w_catalog v = w_catalog w" for key v
    using run_catalog_read [of E "job_by_ledger key" v] assms(1) that by (auto simp: key [OF that(1)] isl_def)
  have reason: "ie_paused I (Suc (w_tick w)) inst \<or> isl (resolve_capture E I (Suc (Suc (w_tick w))) inst profile timeout) \<or>
      isl (ie_storage I (Suc (Suc (Suc (w_tick w))))) \<or> isl (reach_engine I (Suc (Suc (Suc (Suc (w_tick w))))) inst)"
    using assms(2) unfolding turns_away_def by blast
  show ?thesis
  proof (cases "canonical_request_hash (ie_lexis I) (ie_sha256 I) (capture_arguments inst q profile timeout metadata) False")
    case (Inr hash)
    note hash = this
    show ?thesis
    proof (cases "ledger_key_new (ee_category E) inst verb q")
      case (Inr key)
      show ?thesis
        using none [OF Inr, of w] none [OF Inr, of "next_tick (next_tick (next_tick (next_tick w)))"] reason hash Inr
        by (auto simp: submit_capture_def Let_def run_alone_rules ensure_not_paused_def isl_def split: sum.splits)
    qed (simp add: submit_capture_def hash)
  qed (simp add: submit_capture_def)
qed

text \<open>Deferred captures, one after the other.\<close>

fun defer_all ::
    "engine_env \<Rightarrow> (intake_env \<times> CaptureRequest \<times> string \<times> string) list \<Rightarrow> world \<Rightarrow> unit result option list \<times> world" where
  "defer_all E [] w = ([], w)"
| "defer_all E ((I, body, correlation, uuid) # later) w =
     (let (r, w') = run_alone (accept_deferred_capture E I body correlation uuid) w; (rs, w'') = defer_all E later w' in (r # rs, w''))"

definition same_capture :: "string \<Rightarrow> string \<Rightarrow> intake_env \<times> CaptureRequest \<times> string \<times> string \<Rightarrow> bool" where
  "same_capture inst q retry \<longleftrightarrow> (case retry of (I, body, correlation, uuid) \<Rightarrow>
     (\<forall>k. \<exists>config. ie_config I k = Inr config) \<and>
     (\<forall>k. resolve_actuation_instance (rq_instance body) (ie_registry I k) = Inr inst) \<and> rq_request_id body = q)"

lemma all_refused:
  assumes "map_of (w_pending w) (inst, q) \<noteq> None" and "\<forall>retry \<in> set attempts. same_capture inst q retry"
  shows "\<exists>w'. defer_all E attempts w =
      (replicate (length attempts) (Some (Inl (rejected IdempotencyConflict ''a deferred request is already being accepted''))), w') \<and>
    w_catalog w' = w_catalog w"
  using assms
proof (induction attempts arbitrary: w)
  case (Cons retry attempts)
  obtain I body correlation uuid where a: "retry = (I, body, correlation, uuid)" by (cases retry)
  have ok: "\<And>k. \<exists>config. ie_config I k = Inr config" "\<And>k. resolve_actuation_instance (rq_instance body) (ie_registry I k) = Inr inst"
    "rq_request_id body = q"
    using Cons.prems(2) by (simp_all add: a same_capture_def)
  obtain w1 where w1: "run_alone (accept_deferred_capture E I body correlation uuid) w =
      (Some (Inl (rejected IdempotencyConflict ''a deferred request is already being accepted'')), w1)"
    "map_of (w_pending w1) (inst, q) \<noteq> None" "w_catalog w1 = w_catalog w"
    using prepared_twice [OF _ ok(1,2), of w E correlation uuid] Cons.prems(1) ok(3) by auto
  obtain w2 where "defer_all E attempts w1 =
      (replicate (length attempts) (Some (Inl (rejected IdempotencyConflict ''a deferred request is already being accepted''))), w2)"
    "w_catalog w2 = w_catalog w1"
    using Cons.IH [OF w1(2)] Cons.prems(2) by auto
  then show ?case using w1 by (simp add: a)
qed simp

text \<open>C34: A deferred capture that is turned away before its acceptance, because its camera is paused, its profile does not
  resolve, there is no room to store it or the camera has no engine, keeps its place among the callers waiting to be accepted.
  From then on any number of deferred captures of that camera under the same request, made one after the other in whatever
  circumstances, also with the camera resumed, are each refused as a conflict and change nothing in the catalog,
  although nothing is being accepted.
\<close>

theorem refused_deferral_blocks_retry:
  assumes "\<And>k. \<exists>config. ie_config I k = Inr config"
    and "\<And>k. resolve_actuation_instance (rq_instance body) (ie_registry I k) = Inr inst"
    and "turns_away E I inst (rq_capture_profile body) (rq_timeout_ms body)"
    and "job_by_ledger \<lparr>lk_instance = inst, lk_verb = CAPTURE_VERB, lk_request_id = rq_request_id body\<rparr> (w_catalog w) = None"
    and "\<forall>retry \<in> set attempts. same_capture inst (rq_request_id body) retry"
  shows "\<exists>e w' w''. run_alone (accept_deferred_capture E I body correlation uuid) w = (Some (Inl e), w') \<and>
    defer_all E attempts w' =
      (replicate (length attempts) (Some (Inl (rejected IdempotencyConflict ''a deferred request is already being accepted''))), w'') \<and>
    w_catalog w'' = w_catalog w'"
proof -
  have "strands (inst, rq_request_id body) (accept_deferred_capture E I body correlation uuid) w"
  proof (cases "map_of (w_pending w) (inst, rq_request_id body)")
    case None
    obtain config where config: "ie_config I (w_tick w) = Inr config" using assms(1) by blast
    let ?p = "\<lparr>pw_waiter_id = ''wait_'' @ ie_uuid I (w_tick w + 2), pw_correlation_id = correlation, pw_request_uuid = uuid\<rparr>"
    let ?w = "next_tick (next_tick (next_tick w))"
    let ?w1 = "?w\<lparr>w_pending := ((inst, rq_request_id body), ?p) # bt_remove (inst, rq_request_id body) (w_pending w)\<rparr>"
    obtain e w' where "run_alone (submit_capture E I inst (rq_request_id body) (rq_capture_profile body) (rq_timeout_ms body)
        (rq_metadata body) correlation CAPTURE_VERB Direct) ?w1 = (Some (Inl e), w')" "w_pending w' = w_pending ?w1"
      using refused_submission [of inst CAPTURE_VERB "rq_request_id body" ?w1] assms(3,4) by auto blast
    then show ?thesis
      using None assms(2) config by (simp add: strands_def accept_deferred_capture_def run_alone_rules prepare_waiter_def)
  next
    case (Some p)
    then show ?thesis unfolding strands_def using prepared_twice [OF _ assms(1,2), of w E correlation uuid] by auto
  qed
  then obtain e w' where "run_alone (accept_deferred_capture E I body correlation uuid) w = (Some (Inl e), w')"
      "map_of (w_pending w') (inst, rq_request_id body) \<noteq> None"
    by (auto simp: strands_def)
  then show ?thesis using all_refused [OF _ assms(5), of w' E] by blast
qed

section \<open>A concrete intake\<close>

definition sample_camera :: CameraConfig where
  "sample_camera = (demo_camera ''a'')\<lparr>capture_profiles := [(''p'', demo_profile\<lparr>prof_encoding := Png\<rparr>)]\<rparr>"

definition sample_config :: AdapterConfig where
  "sample_config = \<lparr>ad_global = demo_global\<lparr>g_output := demo_output\<rparr>, ad_instances = [sample_camera]\<rparr>"

definition sample_registry :: "CameraCapabilities CameraRegistry" where
  "sample_registry = \<lparr>reg_entries = [(''a'', \<lparr>re_config = sample_camera, re_snapshot = initial_snapshot 0 sample_camera\<rparr>)],
     reg_poisoned = False\<rparr>"

definition sample_intake :: "bool \<Rightarrow> intake_env" where
  "sample_intake paused = \<lparr>ie_config = (\<lambda>_. Inr sample_config), ie_registry = (\<lambda>_. sample_registry), ie_paused = (\<lambda>_ _. paused),
     ie_storage = (\<lambda>_. Inr ()), ie_engine = (\<lambda>_ _. Inr ()), ie_moving = (\<lambda>_ _. False), ie_uuid = (\<lambda>_. ''u''),
     ie_clock = (\<lambda>_. ov_timestamp demo_variables), ie_lexis = demo_lexis, ie_sha256 = (\<lambda>_. [1]), ie_rfc3339_millis = (\<lambda>_. ''t''), ie_to_vec = (\<lambda>_. Inr [])\<rparr>"

definition empty_world :: world where
  "empty_world = \<lparr>w_catalog = empty_catalog, w_runtimes = [], w_active = [], w_pending = [], w_tokens = [], w_group_tokens = [],
     w_tick = 0, w_log = []\<rparr>"

lemma empty_world_parts [simp]:
  "w_catalog empty_world = empty_catalog" "w_tick empty_world = 0" "w_pending empty_world = []" "w_active empty_world = []"
  by (simp_all add: empty_world_def)

lemma empty_catalog_parts [simp]: "job_by_ledger key empty_catalog = None" "load_ledger empty_catalog key = None" "jobs empty_catalog = []"
  by (simp_all add: job_by_ledger_def load_ledger_def empty_catalog_def)

lemma sample_intake_parts [simp]:
  "ie_config (sample_intake p) k = Inr sample_config" "ie_registry (sample_intake p) k = sample_registry"
  "ie_paused (sample_intake p) k inst = p" "ie_storage (sample_intake p) k = Inr ()" "ie_engine (sample_intake p) k inst = Inr ()"
  by (simp_all add: sample_intake_def)

definition steady_env :: engine_env where
  "steady_env = sample_env\<lparr>ee_now := (\<lambda>_. 1000)\<rparr>"

text \<open>The timeout of twenty seconds that the documentation gives as an example, under the default stage budgets.\<close>

theorem short_timeout_refused_witness:
  "validate_capture_timeout (Some 20000) = Inr () \<and>
   (\<exists>e w'. run_alone (submit_capture steady_env (sample_intake False) ''a'' ''q'' None (Some 20000) [] ''x'' CAPTURE_VERB Direct)
      empty_world = (Some (Inl e), w') \<and> w_catalog w' = empty_catalog)"
proof -
  have "stage_exceeds (g_timeouts (ad_global sample_config)) 20000"
    by (simp add: stage_exceeds_def sample_config_def demo_global_def TimeoutsConfig_default_def)
  then show ?thesis
    using short_timeout_refused [of "sample_intake False" 20000 steady_env "''a''" CAPTURE_VERB "''q''" empty_world None "[]" "''x''" Direct]
    by (auto simp: validate_capture_timeout_def i64_max_def steady_env_def)
qed

lemma sample_resolution:
  "resolve_actuation_instance (Some ''a'') sample_registry = Inr ''a''"
  by (simp add: resolve_actuation_instance_def sample_registry_def read_entries_def requested_instance_def sample_camera_def
      demo_camera_def and_then_def ok_or_def)

definition sample_capture :: CaptureRequest where
  "sample_capture = \<lparr>rq_instance = Some ''a'', rq_request_id = ''q'', rq_capture_profile = None, rq_timeout_ms = None, rq_metadata = []\<rparr>"

theorem refused_deferral_blocks_retry_witness:
  "\<exists>e w' w''. run_alone (accept_deferred_capture sample_env (sample_intake True) sample_capture ''x'' ''u1'') empty_world = (Some (Inl e), w') \<and>
     defer_all sample_env [(sample_intake True, sample_capture, ''y'', ''u2''), (sample_intake False, sample_capture, ''z'', ''u3'')] w' =
       (replicate 2 (Some (Inl (rejected IdempotencyConflict ''a deferred request is already being accepted''))), w'')"
proof -
  have "turns_away sample_env (sample_intake True) ''a'' (rq_capture_profile sample_capture) (rq_timeout_ms sample_capture)"
    by (simp add: turns_away_def)
  moreover have "\<forall>retry \<in> set [(sample_intake True, sample_capture, ''y'', ''u2''), (sample_intake False, sample_capture, ''z'', ''u3'')].
      same_capture ''a'' (rq_request_id sample_capture) retry"
    by (simp add: same_capture_def sample_capture_def sample_resolution)
  ultimately show ?thesis
    using refused_deferral_blocks_retry [of "sample_intake True" sample_capture "''a''" sample_env empty_world
        "[(sample_intake True, sample_capture, ''y'', ''u2''), (sample_intake False, sample_capture, ''z'', ''u3'')]" "''x''" "''u1''"]
    by (fastforce simp: sample_capture_def sample_resolution numeral_2_eq_2)
qed

lemma sample_path:
  "render_output_path demo_output \<lparr>ov_camera_id = ''a'', ov_capture_id = ''cap_u'', ov_timestamp = ov_timestamp demo_variables\<rparr> Png =
     Inr \<lparr>rp_components = [''a'', ''cap_u.png''], rp_wire = ''a/cap_u.png''\<rparr>"
  by code_simp

lemma sample_resolves:
  "\<exists>rc. resolve_capture steady_env (sample_intake False) k ''a'' None None = Inr rc \<and> presentable rc \<and> deadlines_ok (rc_deadlines rc) \<and>
     rc_capture_id rc = ''cap_u''"
  using sample_path
  by (simp add: resolve_capture_def Let_def sample_registry_def camera_config_def registry_snapshot_def read_entries_def and_then_def
      ok_or_def option_or_def sample_camera_def demo_camera_def demo_profile_def sample_config_def sample_intake_def presentable_def
      profile_snapshot_of_def deadlines_ok_def deadlines_from_def demo_global_def TimeoutsConfig_default_def saturate_i64_def
      i64_of_u64_def i64_max_def i64_min_def GIB_def MIB_def steady_env_def)

lemma unsorted_hash: "\<exists>hash. canonical_request_hash lx sha (capture_arguments inst q profile timeout metadata) False = Inr hash"
proof -
  have "\<exists>es. encode_entries lx False kvs = Inr es" for kvs
    by (induction lx False kvs rule: encode_entries.induct) (auto simp: and_then_def)
  then show ?thesis
    by (auto simp: canonical_request_hash_def canonical_request_bytes_def capture_arguments_def to_object_def and_then_Inr_iff)
qed

theorem capture_is_taken_witness:
  "\<exists>record w'. run_alone (submit_capture steady_env (sample_intake False) ''a'' ''q'' None None [] ''x'' CAPTURE_VERB Direct) empty_world =
     (Some (Inr (JobInserted record)), w') \<and> state (fst record) = Queued \<and> map_of (w_active w') ''cap_u'' \<noteq> None"
proof -
  let ?key = "\<lparr>lk_instance = ''a'', lk_verb = CAPTURE_VERB, lk_request_id = ''q''\<rparr>"
  obtain rc where rc: "resolve_capture steady_env (sample_intake False) 2 ''a'' None None = Inr rc" "presentable rc"
      "deadlines_ok (rc_deadlines rc)" "rc_capture_id rc = ''cap_u''"
    using sample_resolves by blast
  obtain hash where hash: "canonical_request_hash (ie_lexis (sample_intake False)) (ie_sha256 (sample_intake False))
      (capture_arguments ''a'' ''q'' None None []) False = Inr hash"
    using unsorted_hash by blast
  have key: "ledger_key_new (ee_category steady_env) ''a'' CAPTURE_VERB ''q'' = Inr ?key"
    by (simp add: ledger_key_new_def validate_ledger_key_def Let_def and_then_def require_nonempty_def ensure_def CAPTURE_VERB_def
        validate_request_id_def utf8_chars.simps steady_env_def sample_env_def)
  have engine: "reach_engine (sample_intake False) k ''a'' = Inr ()" for k
    by (simp add: reach_engine_def registry_snapshot_def sample_registry_def read_entries_def and_then_def ok_or_def)
  have env: "ee_store_fault steady_env k = None" "ee_reserve steady_env k i = Inr ()" "ee_dispatch steady_env k = Inr 0"
      "ee_profile_value steady_env prof = demo_object" for k i prof
    by (simp_all add: steady_env_def sample_env_def)
  have "\<exists>record w'. run_alone (submit_capture steady_env (sample_intake False) ''a'' ''q'' None None [] ''x'' CAPTURE_VERB Direct)
      empty_world = (Some (Inr (JobInserted record)), w') \<and>
    taken (capture_submission steady_env rc ''a'' ?key (capture_arguments ''a'' ''q'' None None []) hash ''x'' [] Direct) ?key record w'"
    by (rule capture_is_taken [where w = empty_world, OF hash key _ rc(2) _ _ rc(3)])
      (simp_all add: rc(1,4) engine env demo_object_def numeral_2_eq_2 [symmetric])
  then show ?thesis using rc(4) by (fastforce simp: taken_def capture_submission_def Let_def)
qed

end
