(* ===== verification/Paging.thy ===== *)
theory Paging
  imports Intake
begin

text \<open>
  Reading in pages: the page query of the catalog (\<open>src/catalog.rs\<close>), the retained cursors of the runtime
  (\<open>CursorStore\<close> of \<open>src/runtime.rs\<close>), the status queries built on them (\<open>src/runtime/command.rs\<close>) and the
  question whether a schedule overlaps with its own captures (\<open>src/runtime/schedule.rs\<close>).
\<close>

section \<open>The page query\<close>

definition job_key :: "JobRow \<Rightarrow> int \<times> string" where
  "job_key r = (accepted_at_ms r, capture_id r)"

definition page_query :: "string option \<Rightarrow> JobState list \<Rightarrow> (int \<times> string) option \<Rightarrow> JobRow \<Rightarrow> bool" where
  "page_query inst states before r \<longleftrightarrow>
     (case inst of None \<Rightarrow> True | Some i \<Rightarrow> instance_of r = i) \<and> (states = [] \<or> state r \<in> set states) \<and>
     (case before of None \<Rightarrow> True
      | Some (a, c) \<Rightarrow> accepted_at_ms r < a \<or> accepted_at_ms r = a \<and> capture_id r < c)"

definition descending :: "string option \<Rightarrow> JobState list \<Rightarrow> (int \<times> string) option \<Rightarrow> catalog \<Rightarrow> JobRow list" where
  "descending inst states before db = rev (sort_key job_key (filter (page_query inst states before) (jobs db)))"

definition with_staged :: "catalog \<Rightarrow> JobRow \<Rightarrow> JobRecord" where
  "with_staged db r = (r, staged db (capture_id r))"

definition jobs_page ::
    "string option \<Rightarrow> JobState list \<Rightarrow> (int \<times> string) option \<Rightarrow> nat \<Rightarrow> catalog \<Rightarrow> JobRecord list result" where
  "jobs_page inst states before limit db =
     (if \<not> (1 \<le> limit \<and> limit \<le> 1000) then Inl (CatalogError ''job page limit must be between 1 and 1000'')
      else Inr (map (with_staged db) (take limit (descending inst states before db))))"

definition count_jobs_by_state :: "string option \<Rightarrow> JobState list \<Rightarrow> catalog \<Rightarrow> (string \<times> nat) list" where
  "count_jobs_by_state inst states db =
     (let rows = filter (page_query inst states None) (jobs db) in
      map (\<lambda>tok. (tok, length (filter (\<lambda>r. job_state_token (state r) = tok) rows)))
        (sort (remdups (map (job_state_token \<circ> state) rows))))"

section \<open>Overlap of a schedule\<close>

definition NON_TERMINAL_JOB_STATES :: "JobState list" where
  "NON_TERMINAL_JOB_STATES = [Accepted, Queued, Acquiring, Encoding, Persisting]"

definition BACKLOG_JOB_STATES :: "JobState list" where
  "BACKLOG_JOB_STATES = [Accepted, Queued]"

definition of_schedule :: "string \<Rightarrow> JobRow \<Rightarrow> bool" where
  "of_schedule schedule_id r \<longleftrightarrow> object_get (trigger r) ''type'' = Some (JString ''schedule'') \<and>
     object_get (trigger r) ''scheduleId'' = Some (JString schedule_id)"

fun overlap_pages ::
    "engine_env \<Rightarrow> nat \<Rightarrow> string \<Rightarrow> string \<Rightarrow> (int \<times> string) option \<Rightarrow> bool result job_task" where
  "overlap_pages E 0 inst schedule_id before = Halt"
| "overlap_pages E (Suc n) inst schedule_id before =
     try_task (store_call E (\<lambda>db. (db, jobs_page (Some inst) NON_TERMINAL_JOB_STATES before 1000 db))) (\<lambda>page.
       if list_ex (\<lambda>record. of_schedule schedule_id (fst record)) page then Return (Inr True)
       else if page = [] then Return (Inr False)
       else if length page < 1000 then Return (Inr False)
       else overlap_pages E n inst schedule_id (Some (job_key (fst (last page)))))"

definition has_schedule_overlap :: "engine_env \<Rightarrow> nat \<Rightarrow> string \<Rightarrow> string \<Rightarrow> bool result job_task" where
  "has_schedule_overlap E n inst schedule_id = overlap_pages E n inst schedule_id None"

section \<open>Retained cursors\<close>

definition CURSOR_TTL :: int where "CURSOR_TTL = 300000"
definition MAX_RETAINED_CURSORS :: nat where "MAX_RETAINED_CURSORS = 256"
definition MAX_RETAINED_SNAPSHOT_VALUES :: nat where "MAX_RETAINED_SNAPSHOT_VALUES = 10000"

datatype CursorPayload =
    SnapshotCursor "json list" nat "json option"
  | JobsCursor "(int \<times> string) option"
  | ListCursor "json list" "json list" nat

record CursorEntry =
  ce_kind :: string
  ce_query_hash :: RequestHash
  ce_payload :: CursorPayload
  ce_expires_at :: int

record CursorStore =
  cs_entries :: "(string \<times> CursorEntry) list"
  cs_insertion_order :: "string list"

definition cursor_rejected :: camera_error where
  "cursor_rejected = rejected BadArgs ''cursor is unknown, expired, or does not match this query''"

definition prune :: "int \<Rightarrow> CursorStore \<Rightarrow> CursorStore" where
  "prune now s = (let es = filter (\<lambda>(_, e). now < ce_expires_at e) (cs_entries s) in
     s\<lparr>cs_entries := es, cs_insertion_order := filter (\<lambda>t. t \<in> fst ` set es) (cs_insertion_order s)\<rparr>)"

fun evict :: "(string \<times> CursorEntry) list \<Rightarrow> string list \<Rightarrow> (string \<times> CursorEntry) list \<times> string list" where
  "evict es [] = (es, [])"
| "evict es (oldest # rest) =
     (if MAX_RETAINED_CURSORS \<le> length es then evict (bt_remove oldest es) rest else (es, oldest # rest))"

definition insert_cursor ::
    "int \<Rightarrow> string \<Rightarrow> string \<Rightarrow> RequestHash \<Rightarrow> CursorPayload \<Rightarrow> CursorStore \<Rightarrow> CursorStore" where
  "insert_cursor now tok kind hash payload s =
     (let s1 = prune now s; (es, order) = evict (cs_entries s1) (cs_insertion_order s1) in
      \<lparr>cs_entries = (tok, \<lparr>ce_kind = kind, ce_query_hash = hash, ce_payload = payload, ce_expires_at = now + CURSOR_TTL\<rparr>) #
         bt_remove tok es, cs_insertion_order = order @ [tok]\<rparr>)"

text \<open>What a cursor leads to, if it is known and belongs to this query.\<close>

definition cursor_payload :: "string \<Rightarrow> RequestHash \<Rightarrow> string \<Rightarrow> CursorStore \<Rightarrow> CursorPayload result" where
  "cursor_payload kind hash cursor s =
     (case map_of (cs_entries s) cursor of
        None \<Rightarrow> Inl cursor_rejected
      | Some e \<Rightarrow> if ce_kind e \<noteq> kind \<or> ce_query_hash e \<noteq> hash then Inl cursor_rejected else Inr (ce_payload e))"

definition retained_too_large :: camera_error where
  "retained_too_large = rejected BadArgs ''result exceeds the retained snapshot bound''"

record page_env =
  pe_hash :: "json \<Rightarrow> RequestHash result"
  pe_now :: int
  pe_token :: string

definition snapshot_source ::
    "string \<Rightarrow> RequestHash \<Rightarrow> string option \<Rightarrow> json list option \<Rightarrow> json option \<Rightarrow> CursorStore \<Rightarrow>
     (json list \<times> nat \<times> json option) result" where
  "snapshot_source kind hash cursor initial completed_at s =
     (case cursor of
        Some t \<Rightarrow> and_then (cursor_payload kind hash t s) (\<lambda>payload.
          case payload of SnapshotCursor values offset completed \<Rightarrow> Inr (values, offset, completed) | _ \<Rightarrow> Inl cursor_rejected)
      | None \<Rightarrow> and_then (ok_or initial cursor_rejected) (\<lambda>values.
          if MAX_RETAINED_SNAPSHOT_VALUES < length values then Inl retained_too_large else Inr (values, 0, completed_at)))"

definition snapshot_page ::
    "page_env \<Rightarrow> string \<Rightarrow> json \<Rightarrow> string option \<Rightarrow> json list option \<Rightarrow> json option \<Rightarrow> nat \<Rightarrow> CursorStore \<Rightarrow>
     (json list \<times> string option \<times> json option) result \<times> CursorStore" where
  "snapshot_page V kind query cursor initial completed_at limit s =
     (case pe_hash V query of
        Inl e \<Rightarrow> (Inl e, s)
      | Inr hash \<Rightarrow>
          let s1 = prune (pe_now V) s in
          (case snapshot_source kind hash cursor initial completed_at s1 of
             Inl e \<Rightarrow> (Inl e, s1)
           | Inr (values, offset, completed) \<Rightarrow>
               let stop = min (offset + limit) (length values);
                   page = take (stop - offset) (drop offset values)
               in if stop < length values
                  then (Inr (page, Some (pe_token V), completed),
                        insert_cursor (pe_now V) (pe_token V) kind hash (SnapshotCursor values stop completed) s1)
                  else (Inr (page, None, completed), s1)))"

definition list_source ::
    "RequestHash \<Rightarrow> string option \<Rightarrow> (json list \<times> json list) option \<Rightarrow> CursorStore \<Rightarrow> (json list \<times> json list \<times> nat) result" where
  "list_source hash cursor initial s =
     (case cursor of
        Some t \<Rightarrow> and_then (cursor_payload ''list'' hash t s) (\<lambda>payload.
          case payload of ListCursor cameras unconfigured offset \<Rightarrow> Inr (cameras, unconfigured, offset) | _ \<Rightarrow> Inl cursor_rejected)
      | None \<Rightarrow> and_then (ok_or initial cursor_rejected) (\<lambda>(cameras, unconfigured).
          if MAX_RETAINED_SNAPSHOT_VALUES < length cameras + length unconfigured then Inl retained_too_large
          else Inr (cameras, unconfigured, 0)))"

definition slice :: "nat \<Rightarrow> nat \<Rightarrow> 'a list \<Rightarrow> 'a list" where
  "slice start stop xs = take (stop - start) (drop start xs)"

definition list_page ::
    "page_env \<Rightarrow> json \<Rightarrow> string option \<Rightarrow> (json list \<times> json list) option \<Rightarrow> nat \<Rightarrow> CursorStore \<Rightarrow>
     (json list \<times> json list \<times> string option) result \<times> CursorStore" where
  "list_page V query cursor initial limit s =
     (case pe_hash V query of
        Inl e \<Rightarrow> (Inl e, s)
      | Inr hash \<Rightarrow>
          let s1 = prune (pe_now V) s in
          (case list_source hash cursor initial s1 of
             Inl e \<Rightarrow> (Inl e, s1)
           | Inr (cameras, unconfigured, offset) \<Rightarrow>
               let n = length cameras; total = n + length unconfigured; stop = min (offset + limit) total;
                   page_cameras = slice (min offset n) (min stop n) cameras;
                   page_unconfigured = slice (min (offset - n) (length unconfigured)) (min (stop - n) (length unconfigured)) unconfigured
               in if stop < total
                  then (Inr (page_cameras, page_unconfigured, Some (pe_token V)),
                        insert_cursor (pe_now V) (pe_token V) ''list'' hash (ListCursor cameras unconfigured stop) s1)
                  else (Inr (page_cameras, page_unconfigured, None), s1)))"

definition JOBS_KIND :: string where "JOBS_KIND = ''capture-status-list''"

definition job_before :: "page_env \<Rightarrow> json \<Rightarrow> string option \<Rightarrow> CursorStore \<Rightarrow> (int \<times> string) option result \<times> CursorStore" where
  "job_before V query cursor s =
     (case pe_hash V query of
        Inl e \<Rightarrow> (Inl e, s)
      | Inr hash \<Rightarrow>
          (case cursor of
             None \<Rightarrow> (Inr None, s)
           | Some t \<Rightarrow>
               let s1 = prune (pe_now V) s in
               (and_then (cursor_payload JOBS_KIND hash t s1) (\<lambda>payload.
                  case payload of JobsCursor before \<Rightarrow> Inr before | _ \<Rightarrow> Inl cursor_rejected), s1)))"

definition next_job_cursor :: "page_env \<Rightarrow> json \<Rightarrow> int \<times> string \<Rightarrow> CursorStore \<Rightarrow> string result \<times> CursorStore" where
  "next_job_cursor V query before s =
     (case pe_hash V query of
        Inl e \<Rightarrow> (Inl e, s)
      | Inr hash \<Rightarrow> let s1 = prune (pe_now V) s in
          (Inr (pe_token V), insert_cursor (pe_now V) (pe_token V) JOBS_KIND hash (JobsCursor (Some before)) s1))"

section \<open>Status queries\<close>

definition jobs_query :: "CaptureStatusRequest \<Rightarrow> json" where
  "jobs_query body = to_object [(''instance'', json_opt JString (cq_instance body)),
     (''states'', Some (JArray (map (JString \<circ> job_state_token) (cq_states body))))]"

definition jobs_status_rows ::
    "page_env \<Rightarrow> page_env \<Rightarrow> catalog \<Rightarrow> CaptureStatusRequest \<Rightarrow> CursorStore \<Rightarrow>
     (JobRecord list \<times> string option) result \<times> CursorStore" where
  "jobs_status_rows V V' db body s =
     (case job_before V (jobs_query body) (cq_cursor body) s of
        (Inl e, s1) \<Rightarrow> (Inl e, s1)
      | (Inr before, s1) \<Rightarrow>
          (case jobs_page (cq_instance body) (cq_states body) before (cq_limit body + 1) db of
             Inl e \<Rightarrow> (Inl e, s1)
           | Inr rows \<Rightarrow>
               if \<not> cq_limit body < length rows then (Inr (rows, None), s1)
               else let page = take (cq_limit body) rows in
                 if page = []
                 then (Inl (CatalogError ''paged capture-status query reported a continuation without a row''), s1)
                 else (case next_job_cursor V' (jobs_query body) (job_key (fst (last page))) s1 of
                         (Inl e, s2) \<Rightarrow> (Inl e, s2) | (Inr t, s2) \<Rightarrow> (Inr (page, Some t), s2))))"

definition jobs_status_page ::
    "page_env \<Rightarrow> page_env \<Rightarrow> catalog \<Rightarrow> CaptureStatusRequest \<Rightarrow> CursorStore \<Rightarrow> json result \<times> CursorStore" where
  "jobs_status_page V V' db body s =
     apfst (\<lambda>res. and_then res (\<lambda>(rows, cursor). Inr (to_object
       [(''jobs'', Some (JArray (map job_status_json rows))), (''nextCursor'', json_opt JString cursor)])))
       (jobs_status_rows V V' db body s)"

definition group_json :: "GroupRow \<Rightarrow> json" where
  "group_json g = to_object
     [(''captureGroupId'', Some (JString (gr_group_id g))), (''requestId'', Some (JString (lk_request_id (gr_ledger_key g)))),
      (''state'', Some (JString (job_state_token (gr_state g)))), (''acceptedAtMs'', Some (json_i64 (gr_accepted_at_ms g))),
      (''terminalAtMs'', json_opt json_i64 (gr_terminal_at_ms g)), (''errorCode'', json_opt JString (gr_error_code g)),
      (''errorMessage'', json_opt JString (gr_error_message g)), (''result'', json_opt id (gr_terminal_result g))]"

definition group_status_page ::
    "page_env \<Rightarrow> GroupRecord \<Rightarrow> nat \<Rightarrow> string option \<Rightarrow> CursorStore \<Rightarrow> json result \<times> CursorStore" where
  "group_status_page V record limit cursor s =
     apfst (\<lambda>res. and_then res (\<lambda>(members, next_cursor, _). Inr (to_object
       [(''group'', Some (group_json (fst record))), (''members'', Some (JArray members)),
        (''nextCursor'', json_opt JString next_cursor)])))
       (snapshot_page V ''capture-status-group'' (to_object [(''captureGroupId'', Some (JString (gr_group_id (fst record))))])
          cursor (if cursor = None then Some (map job_status_json (snd record)) else None) None limit s)"

section \<open>Pages of jobs\<close>

lemma page_query_before:
  "page_query inst states before r \<longleftrightarrow> page_query inst states None r \<and> (case before of None \<Rightarrow> True | Some k \<Rightarrow> job_key r < k)"
  by (cases before) (auto simp: page_query_def job_key_def less_prod_def)

lemma set_descending: "set (descending inst states before db) = {r \<in> set (jobs db). page_query inst states before r}"
  by (auto simp: descending_def)

lemma descending_strict:
  assumes "ids_unique db"
  shows "sorted_wrt (\<lambda>r r'. job_key r' < job_key r) (descending inst states before db)"
proof -
  let ?rows = "filter (page_query inst states before) (jobs db)"
  have "distinct (map capture_id (jobs db))" using assms by (simp add: ids_unique_def)
  then have "distinct (map capture_id ?rows)" by (rule distinct_map_filter)
  then have "distinct (map job_key ?rows)"
    by (auto simp: distinct_map inj_on_def job_key_def)
  then have "distinct (map job_key (sort_key job_key ?rows))"
    by (metis distinct_map distinct_sort set_sort)
  moreover have "sorted (map job_key (sort_key job_key ?rows))" by (rule sorted_sort_key)
  ultimately have "sorted_wrt (<) (map job_key (sort_key job_key ?rows))" by (simp add: strict_sorted_iff)
  then show ?thesis by (simp add: descending_def sorted_wrt_rev sorted_wrt_map)
qed

lemma filter_below:
  assumes "sorted_wrt (\<lambda>r r'. key r' < key r) xs" and "0 < n" and "n \<le> length xs"
  shows "filter (\<lambda>r. key r < (key (last (take n xs)) :: 'k :: linorder)) xs = drop n xs"
proof -
  let ?a = "take n xs" and ?b = "drop n xs"
  have parts: "sorted_wrt (\<lambda>r r'. key r' < key r) (?a @ ?b)" using assms(1) by simp
  have "?a \<noteq> []" using assms by auto
  then have butlast: "?a = butlast ?a @ [last ?a]" by simp
  have "sorted_wrt (\<lambda>r r'. key r' < key r) (butlast ?a @ [last ?a])" using parts butlast by (simp add: sorted_wrt_append)
  then have above: "\<not> key r < key (last ?a)" if "r \<in> set ?a" for r
    using that by (subst (asm) (2) butlast) (auto simp: sorted_wrt_append)
  have below: "key r < key (last ?a)" if "r \<in> set ?b" for r
    using parts that last_in_set [OF \<open>?a \<noteq> []\<close>] unfolding sorted_wrt_append by blast
  have "filter (\<lambda>r. key r < key (last ?a)) ?a = []" "filter (\<lambda>r. key r < key (last ?a)) ?b = ?b"
    using above below by (simp_all only: filter_empty_conv filter_id_conv) blast+
  then show ?thesis by (metis append_Nil append_take_drop_id filter_append)
qed

lemma next_page:
  assumes "ids_unique db" and "0 < n" and "n \<le> length (descending inst states before db)"
  shows "descending inst states (Some (job_key (last (take n (descending inst states before db))))) db =
    drop n (descending inst states before db)"
proof -
  let ?D = "descending inst states before db"
  define l where "l = last (take n ?D)"
  have "take n ?D \<noteq> []" using assms(2,3) by auto
  then have "l \<in> set ?D" using last_in_set [of "take n ?D"] set_take_subset by (fastforce simp: l_def)
  then have "page_query inst states before l" by (simp add: set_descending)
  then have "page_query inst states (Some (job_key l)) = (\<lambda>r. job_key r < job_key l \<and> page_query inst states before r)"
    by (cases before) (auto simp: fun_eq_iff page_query_before [of inst states "Some _"])
  then have "descending inst states (Some (job_key l)) db =
      rev (sort_key job_key (filter (\<lambda>r. job_key r < job_key l) (filter (page_query inst states before) (jobs db))))"
    by (simp add: descending_def conj_commute)
  also have "\<dots> = filter (\<lambda>r. job_key r < job_key l) ?D"
    unfolding descending_def by (metis filter_sort rev_filter)
  also have "\<dots> = drop n ?D" unfolding l_def by (rule filter_below [OF descending_strict [OF assms(1)] assms(2,3)])
  finally show ?thesis unfolding l_def .
qed

lemma jobs_page_Inr:
  "1 \<le> limit \<Longrightarrow> limit \<le> 1000 \<Longrightarrow>
   jobs_page inst states before limit db = Inr (map (with_staged db) (take limit (descending inst states before db)))"
  by (simp add: jobs_page_def)

section \<open>Overlap is decided exactly\<close>

lemma run_page_call:
  assumes "ee_store_fault E (w_tick w) = None"
  shows "run_alone (store_call E (\<lambda>db. (db, jobs_page inst states before 1000 db))) w =
    (Some (Inr (map (with_staged (w_catalog w)) (take 1000 (descending inst states before (w_catalog w))))), next_tick w)"
  using assms by (simp add: run_store jobs_page_Inr)

lemma list_ex_records: "list_ex (\<lambda>record. p (fst record)) (map (with_staged db) rows) = list_ex p rows"
  by (induction rows) (simp_all add: with_staged_def)

lemma fst_last_records: "rows \<noteq> [] \<Longrightarrow> fst (last (map (with_staged db) rows)) = last rows"
  by (simp add: last_map with_staged_def)

lemma overlap_pages_exact:
  assumes "\<And>k. ee_store_fault E k = None" and "ids_unique (w_catalog w)"
    and "length (descending (Some inst) NON_TERMINAL_JOB_STATES before (w_catalog w)) < 1000 * n"
  shows "\<exists>w'. run_alone (overlap_pages E n inst schedule_id before) w =
    (Some (Inr (list_ex (of_schedule schedule_id) (descending (Some inst) NON_TERMINAL_JOB_STATES before (w_catalog w)))), w') \<and>
    w_catalog w' = w_catalog w"
  using assms(2,3)
proof (induction n arbitrary: before w)
  case (Suc n)
  let ?D = "descending (Some inst) NON_TERMINAL_JOB_STATES before (w_catalog w)"
  have split: "list_ex p ?D = (list_ex p (take 1000 ?D) \<or> list_ex p (drop 1000 ?D))" for p
    by (metis append_take_drop_id list_ex_append)
  show ?case
  proof (cases "list_ex (of_schedule schedule_id) (take 1000 ?D)")
    case True
    then show ?thesis
      using split assms(1) by (simp add: run_alone_rules run_page_call list_ex_records)
  next
    case False
    show ?thesis
    proof (cases "length ?D < 1000")
      case True
      then show ?thesis using False assms(1) by (simp add: run_alone_rules run_page_call list_ex_records)
    next
      case long: False
      then have nonempty: "take 1000 ?D \<noteq> []" by auto
      let ?k = "job_key (last (take 1000 ?D))"
      have rest: "descending (Some inst) NON_TERMINAL_JOB_STATES (Some ?k) (w_catalog w) = drop 1000 ?D"
        using next_page [OF Suc.prems(1), of 1000] long by simp
      have "length ?D - 1000 < 1000 * n" using Suc.prems(2) long unfolding mult_Suc_right by arith
      then obtain w' where "run_alone (overlap_pages E n inst schedule_id (Some ?k)) (next_tick w) =
          (Some (Inr (list_ex (of_schedule schedule_id) (drop 1000 ?D))), w')" "w_catalog w' = w_catalog w"
        using Suc.IH [of "next_tick w" "Some ?k"] Suc.prems rest by auto
      then show ?thesis
        using False long nonempty split assms(1)
        by (simp add: run_alone_rules run_page_call list_ex_records fst_last_records)
    qed
  qed
qed simp

text \<open>C23: Asking whether a schedule overlaps with its own captures, page by page, ends and answers exactly whether
  the camera has a capture of that schedule that is not decided, however many captures there are.\<close>

theorem overlap_exact:
  assumes "\<And>k. ee_store_fault E k = None" and "ids_unique (w_catalog w)" and "length (jobs (w_catalog w)) < 1000 * n"
  shows "\<exists>w'. run_alone (has_schedule_overlap E n inst schedule_id) w =
    (Some (Inr (list_ex (\<lambda>r. instance_of r = inst \<and> \<not> is_terminal (state r) \<and> of_schedule schedule_id r) (jobs (w_catalog w)))), w')"
proof -
  let ?D = "descending (Some inst) NON_TERMINAL_JOB_STATES None (w_catalog w)"
  have "length ?D \<le> length (jobs (w_catalog w))" by (simp add: descending_def)
  moreover have "state r \<in> set NON_TERMINAL_JOB_STATES \<longleftrightarrow> \<not> is_terminal (state r)" for r :: JobRow
    by (cases "state r") (simp_all add: NON_TERMINAL_JOB_STATES_def)
  then have "list_ex (of_schedule schedule_id) ?D =
      list_ex (\<lambda>r. instance_of r = inst \<and> \<not> is_terminal (state r) \<and> of_schedule schedule_id r) (jobs (w_catalog w))"
    by (auto simp: list_ex_iff set_descending page_query_def NON_TERMINAL_JOB_STATES_def)
  ultimately show ?thesis
    unfolding has_schedule_overlap_def
    using overlap_pages_exact [OF assms(1,2), of inst None n schedule_id] assms(3) by fastforce
qed

section \<open>Cursors\<close>

definition cursors_ok :: "CursorStore \<Rightarrow> bool" where
  "cursors_ok s \<longleftrightarrow> fst ` set (cs_entries s) \<subseteq> set (cs_insertion_order s) \<and> length (cs_entries s) \<le> MAX_RETAINED_CURSORS"

lemma keys_bt_remove: "fst ` set (bt_remove k es) = fst ` set es - {k}"
  by (auto simp: bt_remove_def image_iff)

lemma evict_room:
  assumes "fst ` set es \<subseteq> set order"
  shows "length (fst (evict es order)) < MAX_RETAINED_CURSORS \<and> fst ` set (fst (evict es order)) \<subseteq> set (snd (evict es order))"
  using assms
proof (induction es order rule: evict.induct)
  case (2 es oldest rest)
  then show ?case by (auto simp: keys_bt_remove)
qed (simp add: MAX_RETAINED_CURSORS_def)

lemma prune_ok: "cursors_ok s \<Longrightarrow> cursors_ok (prune now s)"
  by (auto simp: cursors_ok_def prune_def Let_def intro: le_trans [OF length_filter_le])

lemma insert_cursor_ok:
  assumes "cursors_ok s" shows "cursors_ok (insert_cursor now tok kind hash payload s)"
proof -
  let ?s = "prune now s"
  obtain es order where e: "evict (cs_entries ?s) (cs_insertion_order ?s) = (es, order)" by fastforce
  have "length es < MAX_RETAINED_CURSORS" "fst ` set es \<subseteq> set order"
    using evict_room [of "cs_entries ?s" "cs_insertion_order ?s"] prune_ok [OF assms, of now] e by (auto simp: cursors_ok_def)
  moreover have "length (bt_remove tok es) \<le> length es" by (simp add: bt_remove_def)
  ultimately show ?thesis
    using keys_bt_remove [of tok es] by (auto simp: cursors_ok_def insert_cursor_def e Let_def)
qed

text \<open>Retained cursors stay within their number, whatever pages are asked for.\<close>

lemma pages_keep_cursors:
  assumes "cursors_ok s"
  shows "cursors_ok (snd (snapshot_page V kind query cursor initial completed limit s))"
    and "cursors_ok (snd (list_page V query cursor both limit s))"
    and "cursors_ok (snd (job_before V query cursor s))"
    and "cursors_ok (snd (next_job_cursor V query before s))"
  using assms by (auto simp: snapshot_page_def list_page_def job_before_def next_job_cursor_def Let_def prune_ok insert_cursor_ok
      split: sum.splits prod.splits option.splits)

lemma map_of_filter_kept: "map_of es k = Some e \<Longrightarrow> p e \<Longrightarrow> map_of (filter (\<lambda>(_, e). p e) es) k = Some e"
  by (induction es) auto

lemma inserted_cursor:
  "map_of (cs_entries (insert_cursor now tok kind hash payload s)) tok =
     Some \<lparr>ce_kind = kind, ce_query_hash = hash, ce_payload = payload, ce_expires_at = now + CURSOR_TTL\<rparr>"
  by (simp add: insert_cursor_def Let_def case_prod_unfold)

text \<open>The rows a cursor continues after.\<close>

definition continues_after :: "page_env \<Rightarrow> CaptureStatusRequest \<Rightarrow> CursorStore \<Rightarrow> (int \<times> string) option \<Rightarrow> bool" where
  "continues_after V body s before \<longleftrightarrow>
     (case cq_cursor body of
        None \<Rightarrow> before = None
      | Some t \<Rightarrow> \<exists>e. map_of (cs_entries s) t = Some e \<and> pe_now V < ce_expires_at e \<and> ce_kind e = JOBS_KIND \<and>
          Inr (ce_query_hash e) = pe_hash V (jobs_query body) \<and> ce_payload e = JobsCursor before)"

lemma job_before_continues:
  assumes "pe_hash V (jobs_query body) = Inr hash" and "continues_after V body s before"
  shows "fst (job_before V (jobs_query body) (cq_cursor body) s) = Inr before"
proof (cases "cq_cursor body")
  case (Some t)
  then obtain e where e: "map_of (cs_entries s) t = Some e" "pe_now V < ce_expires_at e" "ce_kind e = JOBS_KIND"
      "ce_query_hash e = hash" "ce_payload e = JobsCursor before"
    using assms by (auto simp: continues_after_def)
  then have "map_of (cs_entries (prune (pe_now V) s)) t = Some e"
    using map_of_filter_kept [of "cs_entries s" t e "\<lambda>e. pe_now V < ce_expires_at e"] by (simp add: prune_def Let_def)
  then show ?thesis using Some e assms(1) by (simp add: job_before_def Let_def cursor_payload_def and_then_def)
qed (use assms in \<open>simp add: job_before_def continues_after_def\<close>)

text \<open>A caller that follows the cursors to the end.\<close>

fun walk_jobs :: "(nat \<Rightarrow> page_env) \<Rightarrow> catalog \<Rightarrow> CaptureStatusRequest \<Rightarrow> nat \<Rightarrow> nat \<Rightarrow> CursorStore \<Rightarrow> JobRecord list option" where
  "walk_jobs V db body 0 k s = None"
| "walk_jobs V db body (Suc n) k s =
     (case jobs_status_rows (V (2 * k)) (V (2 * k + 1)) db body s of
        (Inl e, _) \<Rightarrow> None
      | (Inr (rows, None), _) \<Rightarrow> Some rows
      | (Inr (rows, Some t), s') \<Rightarrow> map_option ((@) rows) (walk_jobs V db (body\<lparr>cq_cursor := Some t\<rparr>) n (Suc k) s'))"

lemma jobs_query_cursor [simp]: "jobs_query (body\<lparr>cq_cursor := c\<rparr>) = jobs_query body"
  by (simp add: jobs_query_def)

lemma walk_rows:
  assumes "ids_unique db" and "\<And>k. pe_hash (V k) (jobs_query body) = Inr hash"
    and "\<And>k. pe_now (V (2 * Suc k)) < pe_now (V (2 * k + 1)) + CURSOR_TTL" and "1 \<le> cq_limit body" and "cq_limit body < 1000"
    and "continues_after (V (2 * k)) body s before"
    and "length (descending (cq_instance body) (cq_states body) before db) < cq_limit body * n"
  shows "walk_jobs V db body n k s = Some (map (with_staged db) (descending (cq_instance body) (cq_states body) before db))"
  using assms(2,4-7)
proof (induction n arbitrary: body k s before)
  case (Suc n)
  let ?D = "descending (cq_instance body) (cq_states body) before db" and ?l = "cq_limit body"
  obtain s1 where before: "job_before (V (2 * k)) (jobs_query body) (cq_cursor body) s = (Inr before, s1)"
    using job_before_continues [OF Suc.prems(1,4)] by (metis eq_fst_iff)
  have page: "jobs_page (cq_instance body) (cq_states body) before (?l + 1) db = Inr (map (with_staged db) (take (?l + 1) ?D))"
    using Suc.prems(2,3) by (simp add: jobs_page_Inr)
  show ?case
  proof (cases "length ?D \<le> ?l")
    case True
    then have "take (?l + 1) ?D = ?D" by simp
    then show ?thesis using True before page by (simp add: jobs_status_rows_def)
  next
    case False
    let ?last = "job_key (last (take ?l ?D))" and ?V' = "V (2 * k + 1)"
    let ?s2 = "insert_cursor (pe_now ?V') (pe_token ?V') JOBS_KIND hash (JobsCursor (Some ?last)) (prune (pe_now ?V') s1)"
    let ?body = "body\<lparr>cq_cursor := Some (pe_token ?V')\<rparr>"
    have nonempty: "take ?l ?D \<noteq> []" using False Suc.prems(2) by auto
    have rows: "jobs_status_rows (V (2 * k)) ?V' db body s = (Inr (map (with_staged db) (take ?l ?D), Some (pe_token ?V')), ?s2)"
      using False before page nonempty Suc.prems(1) fst_last_records [OF nonempty, of db]
      by (simp add: jobs_status_rows_def next_job_cursor_def Let_def take_map [symmetric] min_def)
    have rest: "descending (cq_instance body) (cq_states body) (Some ?last) db = drop ?l ?D"
      using next_page [OF assms(1), of ?l] False Suc.prems(2) by simp
    have "continues_after (V (2 * Suc k)) ?body ?s2 (Some ?last)"
      using assms(3) [of k] Suc.prems(1) by (simp add: continues_after_def inserted_cursor)
    moreover have "length ?D - ?l < ?l * n" using Suc.prems(5) False unfolding mult_Suc_right by arith
    ultimately have "walk_jobs V db ?body n (Suc k) ?s2 = Some (map (with_staged db) (drop ?l ?D))"
      using Suc.IH [of ?body "Suc k" ?s2 "Some ?last"] Suc.prems(1-3) rest by simp
    then show ?thesis using rows by (simp add: map_append [symmetric] del: map_append)
  qed
qed simp

text \<open>Following the cursors of a status query from its first page returns every matching capture exactly once,
  latest first, for every page size below the maximum, as long as each cursor is used before it expires.\<close>

theorem status_pages_complete:
  assumes "ids_unique db" and "\<And>k. pe_hash (V k) (jobs_query body) = Inr hash"
    and "\<And>k. pe_now (V (2 * Suc k)) < pe_now (V (2 * k + 1)) + CURSOR_TTL" and "1 \<le> cq_limit body" and "cq_limit body < 1000"
    and "cq_cursor body = None" and "length (jobs db) < cq_limit body * n"
  shows "\<exists>rows. walk_jobs V db body n 0 s = Some (map (with_staged db) rows) \<and>
    set rows = {r \<in> set (jobs db). page_query (cq_instance body) (cq_states body) None r} \<and>
    sorted_wrt (\<lambda>r r'. job_key r' < job_key r) rows"
proof -
  let ?D = "descending (cq_instance body) (cq_states body) None db"
  have "length ?D \<le> length (jobs db)" by (simp add: descending_def)
  then have "walk_jobs V db body n 0 s = Some (map (with_staged db) ?D)"
    using assms by (intro walk_rows) (simp_all add: continues_after_def)
  then show ?thesis using set_descending descending_strict [OF assms(1)] by blast
qed

text \<open>The largest page size a status query may ask for is never answered: the query reads one row more than asked
  for, and the catalog refuses more than a thousand.\<close>

theorem largest_page_refused:
  assumes "cq_limit body = MAX_PAGE_LIMIT"
  shows "\<exists>e. fst (jobs_status_page V V' db body s) = Inl e"
  using assms by (auto simp: jobs_status_page_def jobs_status_rows_def jobs_page_def MAX_PAGE_LIMIT_def and_then_def
      split: prod.splits sum.splits)

section \<open>A concrete catalog\<close>

theorem overlap_exact_witness:
  "\<exists>w'. run_alone (has_schedule_overlap sample_env 1 ''cam1'' ''s1'') sample_world = (Some (Inr False), w')"
  using overlap_exact [of sample_env sample_world 1 "''cam1''" "''s1''"] sample_catalog
  by (simp add: sample_row_def sample_sub_def sample_job_def new_row_def of_schedule_def object_get_to_object)

definition sample_query :: "nat \<Rightarrow> CaptureStatusRequest" where
  "sample_query limit = \<lparr>cq_capture_id = None, cq_capture_group_id = None, cq_instance = Some ''cam1'', cq_request_id = None,
     cq_states = [Queued], cq_limit = limit, cq_cursor = None\<rparr>"

definition sample_pages :: "nat \<Rightarrow> page_env" where
  "sample_pages k = \<lparr>pe_hash = (\<lambda>_. Inr [1]), pe_now = 0, pe_token = ''t''\<rparr>"

theorem status_pages_complete_witness:
  "\<exists>rows. walk_jobs sample_pages (one_job sample_row [] []) (sample_query 1) 2 0 \<lparr>cs_entries = [], cs_insertion_order = []\<rparr> =
     Some (map (with_staged (one_job sample_row [] [])) rows) \<and> set rows = {sample_row}"
  using status_pages_complete [of "one_job sample_row [] []" sample_pages "sample_query 1" "[1]" 2] sample_catalog(2)
  by (fastforce simp: sample_query_def sample_pages_def CURSOR_TTL_def page_query_def sample_row_def sample_sub_def sample_job_def
      new_row_def)

theorem largest_page_refused_witness:
  "capture_status_validate (\<lambda>_. OtherCategory) (sample_query 1000) = Inr ModeList \<and>
   (\<exists>e. fst (jobs_status_page (sample_pages 0) (sample_pages 1) (one_job sample_row [] []) (sample_query 1000)
      \<lparr>cs_entries = [], cs_insertion_order = []\<rparr>) = Inl e)"
proof
  show "capture_status_validate (\<lambda>_. OtherCategory) (sample_query 1000) = Inr ModeList"
    by code_simp
qed (rule largest_page_refused, simp add: sample_query_def MAX_PAGE_LIMIT_def)

end
