(* ===== verification/Operator_Commands.thy ===== *)
theory Operator_Commands
  imports Paging Intake_Guarantees
begin

text \<open>
  The commands an operator sends about captures (\<open>src/runtime/command.rs\<close>): cancelling a capture or a group,
  draining the queue, and the ledger that makes a repeated command answer what the first one answered.
\<close>

section \<open>Commands under the ledger\<close>

definition command_error_message :: "engine_env \<Rightarrow> camera_error \<Rightarrow> string" where
  "command_error_message E e = concat (take 256 (filter (\<lambda>c. ee_category E c \<noteq> Cc) (utf8_chars (operator_detail e))))"

text \<open>What the ledger says about a command: its answer, or that it has to be carried out now.\<close>

datatype ledger_turn = Answered "json result" | CarryOut

definition begin_ledgered ::
    "engine_env \<Rightarrow> intake_env \<Rightarrow> LedgerKey \<Rightarrow> json \<Rightarrow> string \<Rightarrow> string \<Rightarrow> json \<Rightarrow> ledger_turn result job_task" where
  "begin_ledgered E I key canonical conflict unknown fallback =
     (case canonical_request_hash (ie_lexis I) (ie_sha256 I) canonical False of
        Inl e \<Rightarrow> Return (Inl e)
      | Inr hash \<Rightarrow>
          bind_task (now_ms E) (\<lambda>now.
          try_task (store_call E (begin_command (ee_category E) key hash canonical now)) (\<lambda>outcome.
            Return (Inr (case outcome of
                CommandConflict \<Rightarrow> Answered (Inl (rejected IdempotencyConflict conflict))
              | CommandExisting l \<Rightarrow>
                  if le_state l = OutcomeUnknown then Answered (Inl (rejected PreviousOutcomeUnknown unknown))
                  else Answered (Inr (option_or (le_reply l) fallback))
              | CommandStarted _ \<Rightarrow> CarryOut)))))"

definition failure_reply :: "engine_env \<Rightarrow> camera_error \<Rightarrow> json" where
  "failure_reply E e = to_object [(''errorCode'', Some (JString (error_code_as_str (error_code_of e)))),
     (''errorMessage'', Some (JString (command_error_message E e)))]"

definition finish_ledgered ::
    "engine_env \<Rightarrow> LedgerKey \<Rightarrow> json result \<Rightarrow> json result job_task" where
  "finish_ledgered E key result =
     bind_task (now_ms E) (\<lambda>now.
       case result of
         Inr response \<Rightarrow> try_task (store_call E (complete_command (ee_category E) key LedgerSucceeded response None None now))
           (\<lambda>_. Return (Inr response))
       | Inl e \<Rightarrow> bind_task (store_call E (complete_command (ee_category E) key LedgerFailed (failure_reply E e)
             (Some (error_code_as_str (error_code_of e))) (Some (command_error_message E e)) now))
           (\<lambda>_. Return (Inl e)))"

definition cancel_with_ledger ::
    "engine_env \<Rightarrow> intake_env \<Rightarrow> LedgerKey \<Rightarrow> json \<Rightarrow> json \<Rightarrow> json result job_task \<Rightarrow> json result job_task" where
  "cancel_with_ledger E I key canonical in_progress operation =
     try_task (begin_ledgered E I key canonical ''requestId was already used with different cancellation arguments''
       ''the prior cancellation outcome is unknown after restart'' in_progress) (\<lambda>turn.
       case turn of
         Answered res \<Rightarrow> Return res
       | CarryOut \<Rightarrow>
           bind_task (now_ms E) (\<lambda>now.
           try_task (store_call E (record_command_acceptance (ee_category E) key in_progress now)) (\<lambda>_.
           bind_task operation (finish_ledgered E key))))"

section \<open>Cancellation\<close>

definition CANCEL_VERB :: string where "CANCEL_VERB = ''sb/capture-cancel''"
definition QUEUE_CLEAR_VERB :: string where "QUEUE_CLEAR_VERB = ''sb/queue-clear''"

definition cancel_fields :: "CancelResult \<Rightarrow> (string \<times> json option) list" where
  "cancel_fields r = [(''cancelled'', Some (JBool (cr_cancelled r))), (''state'', Some (JString (job_state_token (cr_state r)))),
     (''cancellationInProgress'', Some (JBool (cr_cancellation_in_progress r)))]"

definition unchanged_result :: "JobState \<Rightarrow> CancelResult" where
  "unchanged_result st = \<lparr>cr_cancelled = False, cr_state = st, cr_cancellation_in_progress = False\<rparr>"

definition capture_cancel_json :: "string \<Rightarrow> CancelResult \<Rightarrow> json" where
  "capture_cancel_json c r = to_object ((''captureId'', Some (JString c)) # cancel_fields r)"

definition member_cancel_json :: "JobRow \<Rightarrow> CancelResult \<Rightarrow> json" where
  "member_cancel_json row r = to_object ((''captureId'', Some (JString (capture_id row))) #
     (''instance'', Some (JString (instance_of row))) # cancel_fields r)"

definition group_cancel_json :: "string \<Rightarrow> nat \<Rightarrow> nat \<Rightarrow> json list \<Rightarrow> json" where
  "group_cancel_json g cancelled unchanged members = to_object
     [(''captureGroupId'', Some (JString g)), (''cancelledMembers'', Some (json_nat cancelled)),
      (''unchangedMembers'', Some (json_nat unchanged)), (''members'', Some (JArray members))]"

definition cancel_arguments :: "string \<Rightarrow> string \<Rightarrow> string \<Rightarrow> string \<Rightarrow> string option \<Rightarrow> json" where
  "cancel_arguments q kind field target reason = to_object
     [(''requestId'', Some (JString q)),
      (''target'', Some (to_object [(''kind'', Some (JString kind)), (field, Some (JString target))])),
      (''reason'', json_opt JString reason)]"

definition cancel_one :: "engine_env \<Rightarrow> intake_env \<Rightarrow> string \<Rightarrow> string \<Rightarrow> string \<Rightarrow> CancelResult result job_task" where
  "cancel_one E I inst c reason = try_task (answer (\<lambda>k. ie_engine I k inst)) (\<lambda>_. cancel_active E c reason)"

fun cancel_members ::
    "engine_env \<Rightarrow> intake_env \<Rightarrow> string \<Rightarrow> JobRecord list \<Rightarrow> (nat \<times> nat \<times> json list) result job_task" where
  "cancel_members E I reason [] = Return (Inr (0, 0, []))"
| "cancel_members E I reason (member # rest) =
     try_task (if is_terminal (state (fst member)) then Return (Inr (unchanged_result (state (fst member))))
               else cancel_one E I (instance_of (fst member)) (capture_id (fst member)) reason) (\<lambda>outcome.
     try_task (cancel_members E I reason rest) (\<lambda>(cancelled, unchanged, members).
       Return (Inr (if cr_cancelled outcome then (Suc cancelled, unchanged, member_cancel_json (fst member) outcome # members)
         else (cancelled, Suc unchanged, member_cancel_json (fst member) outcome # members)))))"

definition cancel_capture :: "engine_env \<Rightarrow> intake_env \<Rightarrow> CancelRequest \<Rightarrow> json result job_task" where
  "cancel_capture E I body =
     (case cancel_validate (ee_category E) body of
        Inl e \<Rightarrow> Return (Inl e)
      | Inr _ \<Rightarrow>
          let reason = option_or (xq_reason body) ''operator cancellation'' in
          (case xq_capture_id body of
             Some c \<Rightarrow>
               try_task (stored_job E c) (\<lambda>found.
                 case found of
                   None \<Rightarrow> Return (Inl (rejected CaptureNotFound ''capture was not found''))
                 | Some job \<Rightarrow>
                     (case ledger_key_new (ee_category E) (instance_of (fst job)) CANCEL_VERB (xq_request_id body) of
                        Inl e \<Rightarrow> Return (Inl e)
                      | Inr key \<Rightarrow> cancel_with_ledger E I key
                          (cancel_arguments (xq_request_id body) ''capture'' ''captureId'' c (xq_reason body))
                          (capture_cancel_json c (unchanged_result (state (fst job))))
                          (try_task (cancel_one E I (instance_of (fst job)) c reason) (\<lambda>outcome.
                             Return (Inr (capture_cancel_json c outcome))))))
           | None \<Rightarrow>
               (case xq_capture_group_id body of
                  None \<Rightarrow> Return (Inl (rejected BadArgs ''captureGroupId is required''))
                | Some g \<Rightarrow>
                    try_task (read_catalog E (\<lambda>db. load_group db g)) (\<lambda>found.
                      case found of
                        None \<Rightarrow> Return (Inl (rejected CaptureNotFound ''capture group was not found''))
                      | Some record \<Rightarrow>
                          (case ledger_key_new (ee_category E) ''main'' CANCEL_VERB (xq_request_id body) of
                             Inl e \<Rightarrow> Return (Inl e)
                           | Inr key \<Rightarrow> cancel_with_ledger E I key
                               (cancel_arguments (xq_request_id body) ''capture-group'' ''captureGroupId'' g (xq_reason body))
                               (group_cancel_json g 0 (length (snd record))
                                  (map (\<lambda>m. member_cancel_json (fst m) (unchanged_result (state (fst m)))) (snd record)))
                               (try_task (cancel_members E I reason (snd record)) (\<lambda>(cancelled, unchanged, members).
                                  Return (Inr (group_cancel_json g cancelled unchanged members)))))))))"

section \<open>Draining the queue\<close>

record QueueClearOutcome =
  qo_cancelled :: nat
  qo_already_terminal :: nat
  qo_failed :: "(string \<times> string) list"

definition clear_result :: "string \<Rightarrow> CancelResult result \<Rightarrow> QueueClearOutcome \<Rightarrow> QueueClearOutcome" where
  "clear_result c res outcome =
     (case res of
        Inr r \<Rightarrow> if cr_cancelled r then outcome\<lparr>qo_cancelled := Suc (qo_cancelled outcome)\<rparr>
                 else outcome\<lparr>qo_already_terminal := Suc (qo_already_terminal outcome)\<rparr>
      | Inl e \<Rightarrow> outcome\<lparr>qo_failed := qo_failed outcome @ [(c, camera_error_display e)]\<rparr>)"

fun clear_page ::
    "engine_env \<Rightarrow> intake_env \<Rightarrow> string \<Rightarrow> JobRecord list \<Rightarrow> QueueClearOutcome \<Rightarrow> QueueClearOutcome job_task" where
  "clear_page E I reason [] outcome = Return outcome"
| "clear_page E I reason (job # rest) outcome =
     bind_task (cancel_one E I (instance_of (fst job)) (capture_id (fst job)) reason) (\<lambda>res.
       clear_page E I reason rest (clear_result (capture_id (fst job)) res outcome))"

fun clear_loop ::
    "engine_env \<Rightarrow> intake_env \<Rightarrow> nat \<Rightarrow> string option \<Rightarrow> JobState list \<Rightarrow> string \<Rightarrow> QueueClearOutcome \<Rightarrow>
     QueueClearOutcome result job_task" where
  "clear_loop E I 0 inst states reason outcome = Halt"
| "clear_loop E I (Suc n) inst states reason outcome =
     try_task (store_call E (\<lambda>db. (db, jobs_page inst states None 1000 db))) (\<lambda>page.
       if page = [] then Return (Inr outcome)
       else bind_task (clear_page E I reason page outcome) (\<lambda>after.
         if length page \<le> length (qo_failed after) \<and> qo_cancelled after = 0 then Return (Inr after)
         else clear_loop E I n inst states reason after))"

definition clear_queue ::
    "engine_env \<Rightarrow> intake_env \<Rightarrow> nat \<Rightarrow> string option \<Rightarrow> bool \<Rightarrow> string \<Rightarrow> QueueClearOutcome result job_task" where
  "clear_queue E I n inst in_flight reason =
     try_task (case inst of None \<Rightarrow> Return (Inr ())
               | Some i \<Rightarrow> answer (\<lambda>k. and_then (registry_snapshot i (ie_registry I k)) (\<lambda>_. Inr ()))) (\<lambda>_.
       clear_loop E I n inst (if in_flight then NON_TERMINAL_JOB_STATES else BACKLOG_JOB_STATES) reason
         \<lparr>qo_cancelled = 0, qo_already_terminal = 0, qo_failed = []\<rparr>)"

definition clear_json :: "QueueClearOutcome \<Rightarrow> json" where
  "clear_json out = to_object [(''cancelled'', Some (json_nat (qo_cancelled out))),
     (''alreadyTerminal'', Some (json_nat (qo_already_terminal out))),
     (''failed'', Some (JArray (map (\<lambda>(c, e). to_object [(''captureId'', Some (JString c)), (''error'', Some (JString e))])
        (qo_failed out))))]"

definition queue_clear_command :: "engine_env \<Rightarrow> intake_env \<Rightarrow> nat \<Rightarrow> QueueClearRequest \<Rightarrow> json result job_task" where
  "queue_clear_command E I n body =
     (case queue_clear_validate (ee_category E) body of
        Inl e \<Rightarrow> Return (Inl e)
      | Inr _ \<Rightarrow>
          (case ledger_key_new (ee_category E) (option_or (qc_instance body) ''main'') QUEUE_CLEAR_VERB (qc_request_id body) of
             Inl e \<Rightarrow> Return (Inl e)
           | Inr key \<Rightarrow> cancel_with_ledger E I key
               (to_object [(''requestId'', Some (JString (qc_request_id body))), (''instance'', json_opt JString (qc_instance body)),
                  (''includeInFlight'', Some (JBool (qc_include_in_flight body))), (''reason'', json_opt JString (qc_reason body))])
               (clear_json \<lparr>qo_cancelled = 0, qo_already_terminal = 0, qo_failed = []\<rparr>)
               (try_task (clear_queue E I n (qc_instance body) (qc_include_in_flight body)
                  (option_or (qc_reason body) ''operator queue drain'')) (\<lambda>out. Return (Inr (clear_json out))))))"

section \<open>Repeated commands\<close>

lemma run_begin_existing:
  assumes "ee_store_fault E (w_tick (next_tick w)) = None" and "validate_ledger_key (ee_category E) key = Inr ()"
    and "canonical_request_hash (ie_lexis I) (ie_sha256 I) canonical False = Inr hash" and "is_JObject canonical"
    and "load_ledger (w_catalog w) key = Some l"
  shows "run_alone (begin_ledgered E I key canonical conflict unknown fallback) w =
    (Some (Inr (Answered
       (if le_request_hash l \<noteq> hash then Inl (rejected IdempotencyConflict conflict)
        else if le_state l = OutcomeUnknown then Inl (rejected PreviousOutcomeUnknown unknown)
        else Inr (option_or (le_reply l) fallback)))), next_tick (next_tick w))"
  using assms by (simp add: begin_ledgered_def run_alone_rules run_store begin_command_def require_object_def commit_def
      begin_command_blocking_def and_then_def next_tick_def)

text \<open>A command that is already in the ledger is not carried out again: nothing is written, registered or announced,
  and the answer is the recorded one, or a conflict when the arguments differ, or that the outcome is unknown.\<close>

theorem repeated_command_answered:
  assumes "\<And>k. ee_store_fault E k = None" and "validate_ledger_key (ee_category E) key = Inr ()"
    and "canonical_request_hash (ie_lexis I) (ie_sha256 I) canonical False = Inr hash" and "is_JObject canonical"
    and "load_ledger (w_catalog w) key = Some l"
  shows "\<exists>res w'. run_alone (cancel_with_ledger E I key canonical in_progress operation) w = (Some res, w') \<and>
    w_catalog w' = w_catalog w \<and> w_runtimes w' = w_runtimes w \<and> w_active w' = w_active w \<and> w_log w' = w_log w \<and>
    (if le_request_hash l \<noteq> hash then error_code_of (projl res) = IdempotencyConflict \<and> isl res
     else if le_state l = OutcomeUnknown then error_code_of (projl res) = PreviousOutcomeUnknown \<and> isl res
     else res = Inr (option_or (le_reply l) in_progress))"
  using run_begin_existing [OF assms(1,2,3,4,5)]
  by (simp add: cancel_with_ledger_def run_alone_rules)

lemma update_command_found:
  assumes "load_ledger db key = Some l" and "le_state l = InProgress" and "\<And>r. le_key (f r) = le_key r"
  shows "\<exists>db'. update_command key f failure db = Inr (db', f l) \<and> load_ledger db' key = Some (f l)"
proof -
  let ?p = "\<lambda>r. le_key r = key \<and> le_state r = InProgress"
  have l: "le_key l = key" "l \<in> set (command_ledger db)" using select_row_Some [OF assms(1) [unfolded load_ledger_def]] by auto
  then have "count_where ?p (command_ledger db) \<noteq> 0" using assms(2) by (auto simp: count_where_def filter_empty_conv)
  moreover have "select_row le_key key (update_where ?p f (command_ledger db)) = Some (f l)"
    using assms l(1) select_row_update [of ?p le_key f key "command_ledger db"] by (simp add: load_ledger_def)
  ultimately show ?thesis by (simp add: update_command_def Let_def load_ledger_def and_then_def ok_or_def)
qed

lemma run_begin_fresh:
  assumes "ee_store_fault E (w_tick (next_tick w)) = None" and "validate_ledger_key (ee_category E) key = Inr ()"
    and "canonical_request_hash (ie_lexis I) (ie_sha256 I) canonical False = Inr hash" and "is_JObject canonical"
    and "load_ledger (w_catalog w) key = None"
  shows "\<exists>w' l. run_alone (begin_ledgered E I key canonical conflict unknown fallback) w = (Some (Inr CarryOut), w') \<and>
    load_ledger (w_catalog w') key = Some l \<and> le_state l = InProgress \<and> le_request_hash l = hash \<and> le_reply l = None"
  using assms by (auto simp: begin_ledgered_def run_alone_rules run_store begin_command_def require_object_def commit_def
      begin_command_blocking_def and_then_def insert_ledger_def load_ledger_def select_row_append ok_or_def)

lemma run_acceptance:
  assumes "ee_store_fault E (w_tick w) = None" and "validate_ledger_key (ee_category E) key = Inr ()"
    and "load_ledger (w_catalog w) key = Some l" and "le_state l = InProgress"
  shows "\<exists>w' l'. run_alone (store_call E (record_command_acceptance (ee_category E) key answer_body now)) w = (Some (Inr l'), w') \<and>
    load_ledger (w_catalog w') key = Some l' \<and> le_state l' = InProgress \<and> le_request_hash l' = le_request_hash l"
  using assms update_command_found [OF assms(3,4), of "\<lambda>l. l\<lparr>le_reply := Some answer_body, le_updated_at_ms := now\<rparr>"
      "''command acceptance reply CAS failed unexpectedly''"]
  by (auto simp: run_store record_command_acceptance_def commit_def)

lemma run_completion:
  assumes "ee_store_fault E (w_tick w) = None" and "validate_ledger_key (ee_category E) key = Inr ()"
    and "load_ledger (w_catalog w) key = Some l" and "le_state l = InProgress" and "st \<in> {LedgerSucceeded, LedgerFailed}"
  shows "\<exists>w' l'. run_alone (store_call E (complete_command (ee_category E) key st answer_body code message now)) w = (Some (Inr l'), w') \<and>
    load_ledger (w_catalog w') key = Some l' \<and> le_state l' = st \<and> le_reply l' = Some answer_body \<and>
    le_request_hash l' = le_request_hash l"
  using assms update_command_found [OF assms(3,4), of "\<lambda>l. l\<lparr>le_state := st, le_reply := Some answer_body,
      le_error_code := code, le_error_message := map_option bounded_error message, le_updated_at_ms := now\<rparr>"
      "''command completion CAS failed unexpectedly''"]
  by (auto simp: run_store complete_command_def commit_def ensure_def)

text \<open>An operation that leaves the ledger alone.\<close>

definition spares_ledger :: "json result job_task \<Rightarrow> json result \<Rightarrow> bool" where
  "spares_ledger t res \<longleftrightarrow> (\<forall>w. \<exists>w'. run_alone t w = (Some res, w') \<and> command_ledger (w_catalog w') = command_ledger (w_catalog w))"

lemma run_first_command:
  assumes "\<And>k. ee_store_fault E k = None" and "validate_ledger_key (ee_category E) key = Inr ()"
    and "canonical_request_hash (ie_lexis I) (ie_sha256 I) canonical False = Inr hash" and "is_JObject canonical"
    and "load_ledger (w_catalog w) key = None" and "spares_ledger operation res"
  shows "\<exists>w' l. run_alone (cancel_with_ledger E I key canonical in_progress operation) w = (Some res, w') \<and>
    load_ledger (w_catalog w') key = Some l \<and> le_request_hash l = hash \<and> le_state l \<noteq> OutcomeUnknown \<and>
    le_reply l = Some (case res of Inr answer_body \<Rightarrow> answer_body | Inl e \<Rightarrow> failure_reply E e)"
proof -
  obtain w1 l1 where 1: "run_alone (begin_ledgered E I key canonical ''requestId was already used with different cancellation arguments''
      ''the prior cancellation outcome is unknown after restart'' in_progress) w = (Some (Inr CarryOut), w1)"
      "load_ledger (w_catalog w1) key = Some l1" "le_state l1 = InProgress" "le_request_hash l1 = hash"
    using run_begin_fresh [OF assms(1-5)] by blast
  obtain w2 l2 where 2: "run_alone (store_call E (record_command_acceptance (ee_category E) key in_progress (ee_now E (w_tick w1))))
      (next_tick w1) = (Some (Inr l2), w2)" "load_ledger (w_catalog w2) key = Some l2" "le_state l2 = InProgress" "le_request_hash l2 = hash"
    using run_acceptance [OF assms(1,2), of "next_tick w1" l1] 1 by fastforce
  obtain w3 where 3: "run_alone operation w2 = (Some res, w3)" "command_ledger (w_catalog w3) = command_ledger (w_catalog w2)"
    using assms(6) by (auto simp: spares_ledger_def)
  then have "load_ledger (w_catalog (next_tick w3)) key = Some l2" using 2(2) by (simp add: load_ledger_def)
  note completed = run_completion [OF assms(1,2) this 2(3)]
  show ?thesis
  proof (cases res)
    case (Inl e)
    then show ?thesis
      using 1 2 3 completed [of LedgerFailed "failure_reply E e" "Some (error_code_as_str (error_code_of e))"
          "Some (command_error_message E e)" "ee_now E (w_tick w3)"]
      by (auto simp: cancel_with_ledger_def run_alone_rules finish_ledgered_def)
  next
    case (Inr answer_body)
    then show ?thesis
      using 1 2 3 completed [of LedgerSucceeded answer_body None None "ee_now E (w_tick w3)"]
      by (auto simp: cancel_with_ledger_def run_alone_rules finish_ledgered_def)
  qed
qed

text \<open>A command that failed answers its caller with the error, but repeating it is answered as a success whose body
  holds the error.\<close>

theorem failed_command_repeats_as_success:
  assumes "\<And>k. ee_store_fault E k = None" and "validate_ledger_key (ee_category E) key = Inr ()"
    and "canonical_request_hash (ie_lexis I) (ie_sha256 I) canonical False = Inr hash" and "is_JObject canonical"
    and "load_ledger (w_catalog w) key = None" and "spares_ledger operation (Inl e)"
  shows "\<exists>w' w''. run_alone (cancel_with_ledger E I key canonical in_progress operation) w = (Some (Inl e), w') \<and>
    run_alone (cancel_with_ledger E I key canonical in_progress operation) w' = (Some (Inr (failure_reply E e)), w'')"
proof -
  obtain w' l where 1: "run_alone (cancel_with_ledger E I key canonical in_progress operation) w = (Some (Inl e), w')"
      "load_ledger (w_catalog w') key = Some l" "le_request_hash l = hash" "le_state l \<noteq> OutcomeUnknown"
      "le_reply l = Some (failure_reply E e)"
    using run_first_command [OF assms, of in_progress] by auto
  then show ?thesis
    using run_begin_existing [OF assms(1-4) 1(2)]
    by (auto simp: cancel_with_ledger_def run_alone_rules option_or_def)
qed

section \<open>A drain that does not end\<close>

lemma ownerless_not_cancelled:
  assumes "\<And>k. ee_store_fault E k = None" and "map_of (w_active w) c = None" and "load_job (w_catalog w) c = Some record"
    and "\<not> is_terminal (state (fst record))"
  shows "\<exists>e w'. run_alone (cancel_one E I inst c reason) w = (Some (Inl e), w') \<and> w_catalog w' = w_catalog w \<and> w_active w' = w_active w"
proof -
  have "run_alone (stored_job E c) (next_tick w) = (Some (Inr (Some record)), next_tick (next_tick w))"
    using assms(1,3) by (simp add: run_stored_job)
  then show ?thesis
    using assms by (cases "ie_engine I (w_tick w) inst") (auto simp: cancel_one_def run_alone_rules cancel_active_def)
qed

definition ownerless :: "world \<Rightarrow> JobRow \<Rightarrow> bool" where
  "ownerless w r \<longleftrightarrow> map_of (w_active w) (capture_id r) = None \<and> \<not> is_terminal (state r)"

lemma clear_page_ownerless:
  assumes "\<And>k. ee_store_fault E k = None" and "ids_unique (w_catalog w)"
    and "\<forall>job \<in> set page. fst job \<in> set (jobs (w_catalog w)) \<and> ownerless w (fst job)"
  shows "\<exists>after w'. run_alone (clear_page E I reason page outcome) w = (Some after, w') \<and> qo_cancelled after = qo_cancelled outcome \<and>
    w_catalog w' = w_catalog w \<and> w_active w' = w_active w"
  using assms(2,3)
proof (induction page arbitrary: w outcome)
  case (Cons job page)
  have "select_row capture_id (capture_id (fst job)) (jobs (w_catalog w)) = Some (fst job)"
    using Cons.prems by (intro select_row_unique) (auto simp: ids_unique_def)
  then have "load_job (w_catalog w) (capture_id (fst job)) = Some (fst job, staged (w_catalog w) (capture_id (fst job)))"
    by (simp add: load_job_def)
  from ownerless_not_cancelled [OF assms(1) _ this, of I "instance_of (fst job)" reason] Cons.prems(2) obtain e w1 where
      1: "run_alone (cancel_one E I (instance_of (fst job)) (capture_id (fst job)) reason) w = (Some (Inl e), w1)"
      "w_catalog w1 = w_catalog w" "w_active w1 = w_active w"
    by (auto simp: ownerless_def)
  have "\<exists>after w'. run_alone (clear_page E I reason page (clear_result (capture_id (fst job)) (Inl e) outcome)) w1 = (Some after, w') \<and>
      qo_cancelled after = qo_cancelled (clear_result (capture_id (fst job)) (Inl e) outcome) \<and>
      w_catalog w' = w_catalog w1 \<and> w_active w' = w_active w1"
    using Cons.prems 1(2,3) by (intro Cons.IH) (auto simp: ownerless_def)
  then show ?case using 1 by (auto simp: run_alone_rules clear_result_def)
qed simp

text \<open>C37: Once a drain of the queue has cancelled something and what is left in the drained states are captures without a
  runtime, it asks for the same page for ever: no number of passes makes it return.\<close>

theorem drain_never_returns:
  assumes "\<And>k. ee_store_fault E k = None" and "ids_unique (w_catalog w)" and "0 < qo_cancelled outcome"
    and "r \<in> set (jobs (w_catalog w))" and "page_query inst states None r"
    and "\<And>r. r \<in> set (jobs (w_catalog w)) \<Longrightarrow> page_query inst states None r \<Longrightarrow> ownerless w r"
  shows "fst (run_alone (clear_loop E I n inst states reason outcome) w) = None"
  using assms(2-6)
proof (induction n arbitrary: w outcome)
  case (Suc n)
  let ?page = "map (with_staged (w_catalog w)) (take 1000 (descending inst states None (w_catalog w)))"
  have read: "run_alone (store_call E (\<lambda>db. (db, jobs_page inst states None 1000 db))) w = (Some (Inr ?page), next_tick w)"
    using assms(1) by (simp add: run_page_call)
  have "r \<in> set (descending inst states None (w_catalog w))" using Suc.prems(3,4) by (simp add: set_descending)
  then have nonempty: "?page \<noteq> []" by auto
  have "\<forall>job \<in> set ?page. fst job \<in> set (jobs (w_catalog w)) \<and> ownerless w (fst job)"
    using Suc.prems(5) set_take_subset by (fastforce simp: with_staged_def set_descending dest: in_set_takeD)
  then have "\<forall>job \<in> set ?page. fst job \<in> set (jobs (w_catalog (next_tick w))) \<and> ownerless (next_tick w) (fst job)"
    by (simp add: ownerless_def)
  then obtain after w' where after: "run_alone (clear_page E I reason ?page outcome) (next_tick w) = (Some after, w')"
      "qo_cancelled after = qo_cancelled outcome" "w_catalog w' = w_catalog w" "w_active w' = w_active w"
    using clear_page_ownerless [OF assms(1), of "next_tick w" ?page I reason outcome] Suc.prems(1) by auto
  have "fst (run_alone (clear_loop E I n inst states reason after) w') = None"
    using Suc.prems after by (intro Suc.IH) (auto simp: ownerless_def)
  then show ?case using read nonempty after Suc.prems(2) by (simp add: run_alone_rules)
qed simp

section \<open>Concrete commands\<close>

text \<open>The cancellation of a capture whose camera has no engine.\<close>

definition gone :: camera_error where
  "gone = rejected DeviceUnavailable ''camera engine is unavailable''"

definition engineless :: intake_env where
  "engineless = (sample_intake False)\<lparr>ie_engine := (\<lambda>_ _. Inl gone)\<rparr>"

definition sample_cancel :: json where
  "sample_cancel = cancel_arguments ''q1'' ''capture'' ''captureId'' ''c1'' None"

definition sample_cancel_key :: LedgerKey where
  "sample_cancel_key = \<lparr>lk_instance = ''a'', lk_verb = CANCEL_VERB, lk_request_id = ''q1''\<rparr>"

definition sample_cancel_operation :: "json result job_task" where
  "sample_cancel_operation = try_task (cancel_one steady_env engineless ''a'' ''c1'' ''r'') (\<lambda>outcome.
     Return (Inr (capture_cancel_json ''c1'' outcome)))"

lemma sample_cancel_facts:
  "ee_store_fault steady_env k = None" "validate_ledger_key (ee_category steady_env) sample_cancel_key = Inr ()"
  "is_JObject sample_cancel" "spares_ledger sample_cancel_operation (Inl gone)"
  "\<exists>hash. canonical_request_hash (ie_lexis engineless) (ie_sha256 engineless) sample_cancel False = Inr hash"
proof -
  show "ee_store_fault steady_env k = None" by (simp add: steady_env_def)
  show "validate_ledger_key (ee_category steady_env) sample_cancel_key = Inr ()"
    by (simp add: sample_cancel_key_def validate_ledger_key_def and_then_def require_nonempty_def ensure_def CANCEL_VERB_def
        validate_request_id_def utf8_chars.simps is_continuation_def steady_env_def sample_env_def)
  show "is_JObject sample_cancel" by (simp add: sample_cancel_def cancel_arguments_def)
  show "spares_ledger sample_cancel_operation (Inl gone)"
    by (simp add: spares_ledger_def sample_cancel_operation_def run_alone_rules cancel_one_def engineless_def)
  have "\<exists>es. encode_entries lx False kvs = Inr es" for lx kvs
    by (induction lx False kvs rule: encode_entries.induct) (auto simp: and_then_def)
  then show "\<exists>hash. canonical_request_hash (ie_lexis engineless) (ie_sha256 engineless) sample_cancel False = Inr hash"
    by (auto simp: canonical_request_hash_def canonical_request_bytes_def sample_cancel_def cancel_arguments_def to_object_def
        and_then_Inr_iff)
qed

theorem failed_command_repeats_as_success_witness:
  "\<exists>w' w''. run_alone (cancel_with_ledger steady_env engineless sample_cancel_key sample_cancel JNull sample_cancel_operation)
       empty_world = (Some (Inl gone), w') \<and>
     run_alone (cancel_with_ledger steady_env engineless sample_cancel_key sample_cancel JNull sample_cancel_operation) w' =
       (Some (Inr (failure_reply steady_env gone)), w'')"
proof -
  obtain hash where "canonical_request_hash (ie_lexis engineless) (ie_sha256 engineless) sample_cancel False = Inr hash"
    using sample_cancel_facts(5) by blast
  then show ?thesis
    using sample_cancel_facts by (intro failed_command_repeats_as_success) simp_all
qed

theorem repeated_command_answered_witness:
  "\<exists>w res w'. run_alone (cancel_with_ledger steady_env engineless sample_cancel_key sample_cancel JNull sample_cancel_operation) w =
     (Some res, w') \<and> w_catalog w' = w_catalog w \<and> w_catalog w \<noteq> empty_catalog \<and> \<not> isl res"
proof -
  obtain hash where hash: "canonical_request_hash (ie_lexis engineless) (ie_sha256 engineless) sample_cancel False = Inr hash"
    using sample_cancel_facts(5) by blast
  let ?l = "\<lparr>le_key = sample_cancel_key, le_request_hash = hash, le_canonical_request = sample_cancel, le_state = LedgerSucceeded,
    le_created_at_ms = 0, le_updated_at_ms = 0, le_capture_id = None, le_group_id = None, le_reply = Some JNull,
    le_error_code = None, le_error_message = None\<rparr>"
  let ?w = "empty_world\<lparr>w_catalog := empty_catalog\<lparr>command_ledger := [?l]\<rparr>\<rparr>"
  have "load_ledger (w_catalog ?w) sample_cancel_key = Some ?l" by (simp add: load_ledger_def select_row_Cons)
  from repeated_command_answered [OF sample_cancel_facts(1,2) hash sample_cancel_facts(3) this, of JNull sample_cancel_operation]
  show ?thesis by (intro exI [of _ ?w]) (auto simp: empty_catalog_def)
qed

theorem drain_never_returns_witness:
  "fst (run_alone (clear_loop sample_env engineless 5 None BACKLOG_JOB_STATES ''r''
     \<lparr>qo_cancelled = 1, qo_already_terminal = 0, qo_failed = []\<rparr>) (sample_world\<lparr>w_active := []\<rparr>)) = None"
  using sample_catalog
  by (intro drain_never_returns [where r = sample_row]) (auto simp: page_query_def BACKLOG_JOB_STATES_def ownerless_def)

end
