(* ===== verification/Queue_Status.thy ===== *)
theory Queue_Status
  imports Operator_Commands Dispatch Resource_Budgets
begin

text \<open>
  The answer to \<open>sb/queue-status\<close> (\<open>queue_status\<close> of \<open>src/runtime/command.rs\<close>), assembled from the admission budgets, the fleet
  scheduler and the durable rows of the catalog.
\<close>

section \<open>The answer\<close>

record AdmissionSnapshot =
  available_acquisitions :: nat
  available_resource_group_acquisitions :: "string \<rightharpoonup> nat"
  available_memory_bytes :: u64
  outstanding_disk_bytes :: u64
  available_encoders :: nat
  available_writers :: nat

definition admission_snapshot :: "AdmissionController \<Rightarrow> AdmissionSnapshot" where
  "admission_snapshot c = \<lparr>available_acquisitions = permits (global_acquisitions c),
     available_resource_group_acquisitions = map_option permits \<circ> resource_groups c,
     available_memory_bytes = available (memory c), outstanding_disk_bytes = outstanding (disk c),
     available_encoders = permits (encoders c), available_writers = permits (writers c)\<rparr>"

record CameraQueueDepth =
  qd_instance :: string
  qd_queued :: nat
  qd_capacity :: nat

record QueueLimits =
  ql_max_concurrent_captures :: nat
  ql_max_in_flight_bytes :: u64
  ql_max_queued_captures_per_camera :: nat
  ql_max_pending_captures :: nat

record QueueStatus =
  qs_admission :: AdmissionSnapshot
  qs_limits :: QueueLimits
  qs_cameras :: "CameraQueueDepth list"
  qs_dispatch_queued :: nat
  qs_durable :: "(string \<times> nat) list"
  qs_durable_backlog :: nat
  qs_durable_in_flight :: nat

definition camera_depths :: "AdapterConfig \<Rightarrow> string option \<Rightarrow> CaptureScheduler \<Rightarrow> CameraQueueDepth list" where
  "camera_depths config inst sched =
     map (\<lambda>c. \<lparr>qd_instance = cam_id c, qd_queued = scheduler_pending_for sched (cam_id c),
              qd_capacity = slots_maximum_per_camera (sch_slots sched)\<rparr>)
       (filter (\<lambda>c. case inst of None \<Rightarrow> True | Some target \<Rightarrow> target = cam_id c) (ad_instances config))"

definition total_for :: "(string \<times> nat) list \<Rightarrow> JobState list \<Rightarrow> nat" where
  "total_for durable states = sum_list (List.map_filter (\<lambda>st. map_of durable (job_state_token st)) states)"

definition queue_status ::
    "intake_env \<Rightarrow> nat \<Rightarrow> AdmissionController \<Rightarrow> CaptureScheduler \<Rightarrow> string option \<Rightarrow> catalog \<Rightarrow> QueueStatus result" where
  "queue_status I k ctl sched inst db =
     and_then (case inst of None \<Rightarrow> Inr () | Some i \<Rightarrow> and_then (registry_snapshot i (ie_registry I k)) (\<lambda>_. Inr ())) (\<lambda>_.
     and_then (ie_config I k) (\<lambda>config.
       let durable = count_jobs_by_state inst NON_TERMINAL_JOB_STATES db;
           backlog = total_for durable BACKLOG_JOB_STATES;
           lims = g_limits (ad_global config)
       in Inr \<lparr>qs_admission = admission_snapshot ctl,
            qs_limits = \<lparr>ql_max_concurrent_captures = max_concurrent_captures lims, ql_max_in_flight_bytes = max_in_flight_bytes lims,
              ql_max_queued_captures_per_camera = max_queued_captures_per_camera lims,
              ql_max_pending_captures = slots_maximum (sch_slots sched)\<rparr>,
            qs_cameras = camera_depths config inst sched, qs_dispatch_queued = scheduler_pending sched,
            qs_durable = durable, qs_durable_backlog = backlog,
            qs_durable_in_flight = total_for durable NON_TERMINAL_JOB_STATES - backlog\<rparr>))"

section \<open>What it counts\<close>

definition rows_in :: "string option \<Rightarrow> JobState list \<Rightarrow> catalog \<Rightarrow> nat" where
  "rows_in inst states db = length (filter (page_query inst states None) (jobs db))"

lemma job_state_token_inj: "job_state_token s = job_state_token t \<longleftrightarrow> s = t"
  by (cases s; cases t) simp_all

lemma counted_state:
  assumes "st \<in> set states"
  shows "(case map_of (count_jobs_by_state inst states db) (job_state_token st) of None \<Rightarrow> 0 | Some n \<Rightarrow> n) = rows_in inst [st] db"
proof -
  let ?rows = "filter (page_query inst states None) (jobs db)"
  let ?f = "\<lambda>tok. length (filter (\<lambda>r. job_state_token (state r) = tok) ?rows)"
  have table: "map_of (map (\<lambda>tok. (tok, ?f tok)) ts) tok = (if tok \<in> set ts then Some (?f tok) else None)" for ts tok
    by (induction ts) auto
  have "page_query inst states None r \<and> state r = st \<longleftrightarrow> page_query inst [st] None r" for r
    using assms by (cases inst) (auto simp: page_query_def)
  then have "?f (job_state_token st) = rows_in inst [st] db"
    by (simp add: rows_in_def job_state_token_inj conj_commute)
  moreover have "?f tok = 0" if "tok \<notin> set (sort (remdups (map (job_state_token \<circ> state) ?rows)))" for tok
    using that by (force simp: filter_empty_conv)
  ultimately show ?thesis
    unfolding count_jobs_by_state_def Let_def table
    by (cases "job_state_token st \<in> set (sort (remdups (map (job_state_token \<circ> state) ?rows)))")
      (simp_all only: if_True if_False option.case, metis)
qed

lemma total_for_counts:
  assumes "set sub \<subseteq> set states" and "distinct sub"
  shows "total_for (count_jobs_by_state inst states db) sub = (if sub = [] then 0 else rows_in inst sub db)"
  using assms
proof (induction sub)
  case (Cons st sub)
  have "rows_in inst (st # sub) db = rows_in inst [st] db + (if sub = [] then 0 else rows_in inst sub db)"
  proof -
    have "length (filter (page_query inst (st # sub) None) rs) =
        length (filter (page_query inst [st] None) rs) + (if sub = [] then 0 else length (filter (page_query inst sub None) rs))" for rs
      using Cons.prems(2) by (induction rs) (auto simp: page_query_def)
    then show ?thesis by (simp add: rows_in_def)
  qed
  then show ?case
    using Cons counted_state [of st states inst db]
    by (auto simp: total_for_def map_filter_simps split: option.splits if_splits)
qed (simp add: total_for_def map_filter_simps)

text \<open>
  The numbers of the catalog are exact: the backlog counts the captures promised and not started, the rest those under way, and
  the difference the code takes is never negative.
\<close>

theorem queue_status_exact:
  assumes "queue_status I k ctl sched inst db = Inr status"
  shows "qs_durable_backlog status = rows_in inst [Accepted, Queued] db"
    and "qs_durable_in_flight status = rows_in inst [Acquiring, Encoding, Persisting] db"
    and "qs_durable_backlog status + qs_durable_in_flight status = total_for (qs_durable status) NON_TERMINAL_JOB_STATES"
proof -
  let ?durable = "count_jobs_by_state inst NON_TERMINAL_JOB_STATES db"
  have status: "qs_durable status = ?durable" "qs_durable_backlog status = total_for ?durable BACKLOG_JOB_STATES"
      "qs_durable_in_flight status = total_for ?durable NON_TERMINAL_JOB_STATES - total_for ?durable BACKLOG_JOB_STATES"
    using assms by (auto simp: queue_status_def Let_def and_then_Inr_iff)
  have "total_for ?durable NON_TERMINAL_JOB_STATES = total_for ?durable BACKLOG_JOB_STATES + total_for ?durable [Acquiring, Encoding, Persisting]"
    by (simp add: total_for_def NON_TERMINAL_JOB_STATES_def BACKLOG_JOB_STATES_def map_filter_simps split: option.splits)
  moreover have "total_for ?durable BACKLOG_JOB_STATES = rows_in inst [Accepted, Queued] db"
      "total_for ?durable [Acquiring, Encoding, Persisting] = rows_in inst [Acquiring, Encoding, Persisting] db"
    using total_for_counts [of BACKLOG_JOB_STATES NON_TERMINAL_JOB_STATES]
      total_for_counts [of "[Acquiring, Encoding, Persisting]" NON_TERMINAL_JOB_STATES]
    by (simp_all add: NON_TERMINAL_JOB_STATES_def BACKLOG_JOB_STATES_def)
  ultimately show "qs_durable_backlog status = rows_in inst [Accepted, Queued] db"
      "qs_durable_in_flight status = rows_in inst [Acquiring, Encoding, Persisting] db"
      "qs_durable_backlog status + qs_durable_in_flight status = total_for (qs_durable status) NON_TERMINAL_JOB_STATES"
    using status by simp_all
qed

end
