(* ===== verification/Ptz_Commands.thy ===== *)
theory Ptz_Commands
  imports Operator_Commands Control_Lanes
begin

text \<open>
  Commands that move a camera (\<open>perform_ptz\<close>, \<open>perform_presets\<close> of \<open>src/runtime/command.rs\<close>), the stop every continuous
  move is armed with, and reconnection. The state of the devices is kept beside the world of the job engine: the slots
  of the cameras, the timers that were cancelled, and a log of what was sent to cameras.
\<close>

section \<open>State\<close>

record ArmedStop =
  as_token :: nat
  as_pan :: bool
  as_tilt :: bool
  as_zoom :: bool
  as_ptz_ms :: u64

record CameraSlot =
  slot_motion_stop :: "ArmedStop option"
  slot_session :: "nat option"

datatype device_event =
    PtzSent "LedgerKey option" nat PtzRequest
  | SafetyStopQueued nat SafetyStop
  | TimerArmed nat
  | TimerCancelled nat
  | SessionCancelled nat

record device_world =
  dw_world :: world
  dw_slots :: "(string \<times> CameraSlot) list"
  dw_next_token :: nat
  dw_cursors :: CursorStore
  dw_log :: "device_event list"

record device_env =
  de_ptz :: "nat \<Rightarrow> PtzRequest \<Rightarrow> PtzResult result"
  de_safety_stop :: "nat \<Rightarrow> unit result"
  de_instant :: "nat \<Rightarrow> nat"
  de_spawn :: "nat \<Rightarrow> bool"
  de_cancelled :: "nat \<Rightarrow> nat \<Rightarrow> bool"
  de_timestamp :: "int \<Rightarrow> json"
  de_vector :: "PtzVector \<Rightarrow> json"
  de_preset :: "PtzPreset \<Rightarrow> json"
  de_page :: "nat \<Rightarrow> page_env"

type_synonym 'a device_task = "('a, device_world) task"

text \<open>A task of the job engine, run beside the devices.\<close>

primrec lift_job :: "'a job_task \<Rightarrow> 'a device_task" where
  "lift_job (Return a) = Return a"
| "lift_job (Act g) = Act (\<lambda>d. apsnd (\<lambda>w. d\<lparr>dw_world := w\<rparr>) ((map_prod lift_job id \<circ> g) (dw_world d)))"
| "lift_job Halt = Halt"

definition dlogged :: "device_event list \<Rightarrow> device_world \<Rightarrow> device_world" where
  "dlogged es d = d\<lparr>dw_log := dw_log d @ es\<rparr>"

definition tick_of :: "device_world \<Rightarrow> nat" where
  "tick_of d = w_tick (dw_world d)"

definition device_tick :: "device_world \<Rightarrow> device_world" where
  "device_tick d = d\<lparr>dw_world := next_tick (dw_world d)\<rparr>"

definition on_slot :: "string \<Rightarrow> (CameraSlot \<Rightarrow> CameraSlot) \<Rightarrow> device_world \<Rightarrow> device_world" where
  "on_slot inst f d = d\<lparr>dw_slots := map (\<lambda>(i, s). if i = inst then (i, f s) else (i, s)) (dw_slots d)\<rparr>"

section \<open>Motion stops\<close>

definition arm_motion_stop ::
    "device_env \<Rightarrow> engine_env \<Rightarrow> intake_env \<Rightarrow> string \<Rightarrow> nat \<Rightarrow> bool \<times> bool \<times> bool \<Rightarrow> int option device_task" where
  "arm_motion_stop D E I inst timeout axes =
     (case axes of (p, t, z) \<Rightarrow>
        if \<not> p \<and> \<not> t \<and> \<not> z then Return None
        else action (\<lambda>d.
          let tok = dw_next_token d;
              ptz = (case ie_config I (tick_of d) of Inl _ \<Rightarrow> 10000 | Inr config \<Rightarrow> ptz_ms (g_timeouts (ad_global config)));
              d1 = (device_tick d)\<lparr>dw_next_token := Suc tok\<rparr>
          in case map_of (dw_slots d) inst of
               None \<Rightarrow> (None, d1)
             | Some slot \<Rightarrow>
                 (if de_spawn D (tick_of d) then Some (ee_now E (tick_of d) + int timeout) else None,
                  dlogged ((case slot_motion_stop slot of None \<Rightarrow> [] | Some old \<Rightarrow> [TimerCancelled (as_token old)]) @
                     (if de_spawn D (tick_of d) then [TimerArmed tok] else []))
                    (on_slot inst (\<lambda>s. s\<lparr>slot_motion_stop := Some \<lparr>as_token = tok, as_pan = p, as_tilt = t, as_zoom = z,
                       as_ptz_ms = ptz\<rparr>\<rparr>) d1))))"

definition disarm_motion_stop :: "string \<Rightarrow> unit device_task" where
  "disarm_motion_stop inst = update (\<lambda>d.
     case Option.bind (map_of (dw_slots d) inst) slot_motion_stop of
       None \<Rightarrow> d
     | Some armed \<Rightarrow> dlogged [TimerCancelled (as_token armed)] (on_slot inst (\<lambda>s. s\<lparr>slot_motion_stop := None\<rparr>) d))"

definition stop_of :: "ArmedStop \<Rightarrow> nat \<Rightarrow> SafetyStop" where
  "stop_of armed now = \<lparr>stop_pan = as_pan armed, stop_tilt = as_tilt armed, stop_zoom = as_zoom armed,
     stop_deadline = now + unat (as_ptz_ms armed)\<rparr>"

text \<open>Queueing the stop with the actor of the session the camera has now.\<close>

definition push_safety_stop_at :: "device_env \<Rightarrow> nat option \<Rightarrow> ArmedStop \<Rightarrow> device_world \<Rightarrow> bool \<times> device_world" where
  "push_safety_stop_at D actor armed d =
     (case actor of
        None \<Rightarrow> (False, d)
      | Some a \<Rightarrow>
          (case de_safety_stop D (tick_of d) of
             Inl _ \<Rightarrow> (False, device_tick d)
           | Inr _ \<Rightarrow> (True, dlogged [SafetyStopQueued a (stop_of armed (de_instant D (tick_of d)))] (device_tick d))))"

definition timer_fires :: "device_env \<Rightarrow> string \<Rightarrow> ArmedStop \<Rightarrow> bool device_task" where
  "timer_fires D inst armed = action (\<lambda>d.
     let actor = Option.bind (map_of (dw_slots d) inst) slot_session in
     (actor \<noteq> None, snd (push_safety_stop_at D actor armed d)))"

definition timer_clears :: "string \<Rightarrow> unit device_task" where
  "timer_clears inst = update (on_slot inst (\<lambda>s. s\<lparr>slot_motion_stop := None\<rparr>))"

text \<open>The timer of one armed stop, from the moment its deadline was reached, unless it was cancelled before.\<close>

definition motion_stop_timer :: "device_env \<Rightarrow> string \<Rightarrow> ArmedStop \<Rightarrow> unit device_task" where
  "motion_stop_timer D inst armed =
     bind_task (look (\<lambda>d. TimerCancelled (as_token armed) \<in> set (dw_log d) \<or> de_cancelled D (tick_of d) (as_token armed)))
       (\<lambda>cancelled. if cancelled then Return ()
        else bind_task (timer_fires D inst armed) (\<lambda>reached. if reached then timer_clears inst else Return ()))"

fun deliver_stops :: "device_env \<Rightarrow> (ArmedStop \<times> nat option) list \<Rightarrow> nat \<Rightarrow> nat device_task" where
  "deliver_stops D [] delivered = Return delivered"
| "deliver_stops D ((armed, actor) # rest) delivered =
     bind_task (action (\<lambda>d. push_safety_stop_at D actor armed (dlogged [TimerCancelled (as_token armed)] d))) (\<lambda>sent.
       deliver_stops D rest (if sent then Suc delivered else delivered))"

definition armed_slots :: "string list option \<Rightarrow> device_world \<Rightarrow> (ArmedStop \<times> nat option) list" where
  "armed_slots instances d = List.map_filter (\<lambda>(inst, slot).
     if (case instances of None \<Rightarrow> True | Some retiring \<Rightarrow> inst \<in> set retiring)
     then map_option (\<lambda>armed. (armed, slot_session slot)) (slot_motion_stop slot) else None) (dw_slots d)"

definition deliver_mandatory_stops :: "device_env \<Rightarrow> string list option \<Rightarrow> nat device_task" where
  "deliver_mandatory_stops D instances =
     bind_task (action (\<lambda>d. (armed_slots instances d,
       d\<lparr>dw_slots := map (\<lambda>(inst, slot).
          if (case instances of None \<Rightarrow> True | Some retiring \<Rightarrow> inst \<in> set retiring)
          then (inst, slot\<lparr>slot_motion_stop := None\<rparr>) else (inst, slot)) (dw_slots d)\<rparr>))) (\<lambda>armed.
       deliver_stops D armed 0)"

section \<open>Movement commands\<close>

text \<open>A request to the camera. The log remembers the ledger entry it was sent for.\<close>

definition send_ptz :: "device_env \<Rightarrow> LedgerKey option \<Rightarrow> nat \<Rightarrow> PtzRequest \<Rightarrow> PtzResult result device_task" where
  "send_ptz D key actor req = action (\<lambda>d. (de_ptz D (tick_of d) req, dlogged [PtzSent key actor req] (device_tick d)))"

definition find_actor :: "string \<Rightarrow> nat result device_task" where
  "find_actor inst = look (\<lambda>d. ok_or (Option.bind (map_of (dw_slots d) inst) slot_session)
     (rejected DeviceUnavailable (''camera instance '' @ [CHR 0x27] @ inst @ [CHR 0x27] @ '' is not connected'')))"

definition speed_vector :: "PtzSpeed \<Rightarrow> PtzVector" where
  "speed_vector s = \<lparr>pan = sp_pan s, tilt = sp_tilt s, zoom = sp_zoom s\<rparr>"

definition speed_json :: "device_env \<Rightarrow> PtzSpeed option \<Rightarrow> json option" where
  "speed_json D s = json_opt (de_vector D \<circ> speed_vector) s"

record ptz_plan =
  pp_requested :: "string option"
  pp_request_id :: "string option"
  pp_operation :: string
  pp_physical :: PtzRequest
  pp_arguments :: json

fun plan_of :: "device_env \<Rightarrow> PtzCommandRequest \<Rightarrow> ptz_plan" where
  "plan_of D (PtzContinuous inst q velocity timeout) = \<lparr>pp_requested = inst, pp_request_id = Some q, pp_operation = ''continuous'',
     pp_physical = Continuous velocity (unat timeout),
     pp_arguments = to_object [(''velocity'', Some (de_vector D velocity)), (''timeoutMs'', Some (json_u64 timeout))]\<rparr>"
| "plan_of D (PtzAbsolute inst q target speed) = \<lparr>pp_requested = inst, pp_request_id = Some q, pp_operation = ''absolute'',
     pp_physical = Absolute target (map_option speed_vector speed),
     pp_arguments = to_object [(''position'', Some (de_vector D target)), (''speed'', speed_json D speed)]\<rparr>"
| "plan_of D (PtzRelative inst q translation speed) = \<lparr>pp_requested = inst, pp_request_id = Some q, pp_operation = ''relative'',
     pp_physical = Relative translation (map_option speed_vector speed),
     pp_arguments = to_object [(''translation'', Some (de_vector D translation)), (''speed'', speed_json D speed)]\<rparr>"
| "plan_of D (PtzStop inst q axes) = \<lparr>pp_requested = inst, pp_request_id = Some q, pp_operation = ''stop'',
     pp_physical = Stop (AxisPan \<in> set axes) (AxisTilt \<in> set axes) (AxisZoom \<in> set axes),
     pp_arguments = to_object [(''pan'', Some (JBool (AxisPan \<in> set axes))), (''tilt'', Some (JBool (AxisTilt \<in> set axes))),
       (''zoom'', Some (JBool (AxisZoom \<in> set axes)))]\<rparr>"
| "plan_of D (PtzHome inst q) = \<lparr>pp_requested = inst, pp_request_id = Some q, pp_operation = ''home'', pp_physical = Home,
     pp_arguments = to_object []\<rparr>"
| "plan_of D (PtzStatusOf inst) = \<lparr>pp_requested = inst, pp_request_id = None, pp_operation = ''status'',
     pp_physical = PtzStatusRequest, pp_arguments = JNull\<rparr>"

definition ptz_camera :: "intake_env \<Rightarrow> nat \<Rightarrow> string option \<Rightarrow> (string \<times> CameraConfig) result" where
  "ptz_camera I k requested =
     and_then (resolve_actuation_instance requested (ie_registry I k)) (\<lambda>inst.
     and_then (camera_config inst (ie_registry I k)) (\<lambda>camera.
       if \<not> ptz_enabled (cam_ptz camera) then Inl (rejected PtzDisabled ''PTZ is disabled by configuration'')
       else Inr (inst, camera)))"

definition moving_axes :: "PtzVector \<Rightarrow> bool \<times> bool \<times> bool" where
  "moving_axes v = (pan v \<noteq> Finite 0, tilt v \<noteq> Finite 0, zoom v \<noteq> Finite 0)"

fun motion_of :: "PtzRequest \<Rightarrow> (nat \<times> bool \<times> bool \<times> bool) option" where
  "motion_of (Continuous v timeout) = Some (timeout, moving_axes v)"
| "motion_of _ = None"

definition ptz_checks :: "device_env \<Rightarrow> engine_env \<Rightarrow> intake_env \<Rightarrow> nat \<Rightarrow> PtzCommandRequest \<Rightarrow> (string \<times> ptz_plan) result" where
  "ptz_checks D E I k req =
     and_then (ie_config I k) (\<lambda>_.
     and_then (ptz_validate (ee_category E) req 60000) (\<lambda>_.
     and_then (ptz_camera I k (pp_requested (plan_of D req))) (\<lambda>(inst, camera).
       case motion_of (pp_physical (plan_of D req)) of
         Some (timeout, _) \<Rightarrow>
           if unat (maximum_continuous_move_ms (cam_ptz camera)) < timeout
           then Inl (rejected PtzRangeError ''continuous timeoutMs exceeds this camera's ptz.maximumContinuousMoveMs'')
           else Inr (inst, plan_of D req)
       | None \<Rightarrow> Inr (inst, plan_of D req))))"

definition ledger_arguments :: "string \<Rightarrow> string \<Rightarrow> string \<Rightarrow> json \<Rightarrow> json" where
  "ledger_arguments inst q operation arguments = to_object
     [(''instance'', Some (JString inst)), (''requestId'', Some (JString q)), (''operation'', Some (JString operation)),
      (''arguments'', Some arguments)]"

definition commanded_json :: "string \<Rightarrow> json" where
  "commanded_json operation = to_object [(''operation'', Some (JString operation)), (''state'', Some (JString ''COMMANDED''))]"

definition fail_command :: "engine_env \<Rightarrow> LedgerKey \<Rightarrow> string \<Rightarrow> camera_error \<Rightarrow> json result device_task" where
  "fail_command E key operation e = lift_job (bind_task (now_ms E) (\<lambda>now.
     bind_task (store_call E (complete_command (ee_category E) key LedgerFailed
         (to_object [(''operation'', Some (JString operation))]) (Some (error_code_as_str (error_code_of e)))
         (Some (command_error_message E e)) now)) (\<lambda>_. Return (Inl e))))"

definition succeed_command :: "engine_env \<Rightarrow> LedgerKey \<Rightarrow> json \<Rightarrow> json result device_task" where
  "succeed_command E key response = lift_job (bind_task (now_ms E) (\<lambda>now.
     try_task (store_call E (complete_command (ee_category E) key LedgerSucceeded response None None now)) (\<lambda>_.
       Return (Inr response))))"

definition motion_response :: "device_env \<Rightarrow> engine_env \<Rightarrow> string \<Rightarrow> int option \<Rightarrow> json device_task" where
  "motion_response D E operation armed_until = bind_task (lift_job (now_ms E)) (\<lambda>now.
     Return (to_object [(''operation'', Some (JString operation)), (''state'', Some (JString ''COMMANDED'')),
       (''acceptedAt'', Some (de_timestamp D now)),
       (''stopDeadline'', Some (case armed_until of Some deadline \<Rightarrow> de_timestamp D deadline | None \<Rightarrow> JNull))]))"

definition carry_out_ptz ::
    "device_env \<Rightarrow> engine_env \<Rightarrow> intake_env \<Rightarrow> string \<Rightarrow> nat \<Rightarrow> LedgerKey \<Rightarrow> ptz_plan \<Rightarrow> json result device_task" where
  "carry_out_ptz D E I inst actor key plan =
     bind_task (if motion_of (pp_physical plan) = None then disarm_motion_stop inst else Return ()) (\<lambda>_.
     bind_task (send_ptz D (Some key) actor (pp_physical plan)) (\<lambda>result.
       case result of
         Inr Commanded \<Rightarrow>
           bind_task (case motion_of (pp_physical plan) of
               Some (timeout, axes) \<Rightarrow> bind_task (arm_motion_stop D E I inst timeout axes) (motion_response D E (pp_operation plan))
             | None \<Rightarrow> motion_response D E (pp_operation plan) None) (succeed_command E key)
       | Inr (PresetToken t) \<Rightarrow> succeed_command E key (to_object
           [(''operation'', Some (JString (pp_operation plan))), (''token'', Some (JString t))])
       | Inr Removed \<Rightarrow> succeed_command E key (to_object
           [(''operation'', Some (JString (pp_operation plan))), (''removed'', Some (JBool True))])
       | Inr _ \<Rightarrow> Return (Inl (rejected UnsupportedCapability ''camera returned an unexpected PTZ response''))
       | Inl e \<Rightarrow> fail_command E key (pp_operation plan) e))"

definition ptz_status_json :: "device_env \<Rightarrow> PtzStatus \<Rightarrow> json" where
  "ptz_status_json D st = to_object [(''position'', json_opt (de_vector D) (ps_position st)),
     (''moving'', json_opt JBool (ps_moving st)), (''available'', Some (JBool True)),
     (''observedAt'', Some (de_timestamp D (ps_observed_at st)))]"

definition perform_ptz :: "device_env \<Rightarrow> engine_env \<Rightarrow> intake_env \<Rightarrow> PtzCommandRequest \<Rightarrow> json result device_task" where
  "perform_ptz D E I req =
     try_task (lift_job (answer (\<lambda>k. ptz_checks D E I k req))) (\<lambda>(inst, plan).
     try_task (find_actor inst) (\<lambda>actor.
       case pp_request_id plan of
         None \<Rightarrow>
           try_task (send_ptz D None actor (pp_physical plan)) (\<lambda>result.
             Return (case result of PtzStatusResult st \<Rightarrow> Inr (ptz_status_json D st)
               | _ \<Rightarrow> Inl (rejected UnsupportedCapability ''camera returned an unexpected PTZ status response'')))
       | Some q \<Rightarrow>
           (case ledger_key_new (ee_category E) inst (''sb/ptz/'' @ pp_operation plan) q of
              Inl e \<Rightarrow> Return (Inl e)
            | Inr key \<Rightarrow>
                try_task (lift_job (begin_ledgered E I key (ledger_arguments inst q (pp_operation plan) (pp_arguments plan))
                  ''requestId was already used with different PTZ arguments'' ''the prior PTZ outcome is unknown after restart''
                  (commanded_json (pp_operation plan)))) (\<lambda>turn.
                  case turn of Answered res \<Rightarrow> Return res | CarryOut \<Rightarrow> carry_out_ptz D E I inst actor key plan))))"

section \<open>Presets\<close>

definition preset_checks :: "intake_env \<Rightarrow> nat \<Rightarrow> string option \<Rightarrow> bool \<Rightarrow> string result" where
  "preset_checks I k requested mutation =
     and_then (ie_config I k) (\<lambda>_.
     and_then (ptz_camera I k requested) (\<lambda>(inst, camera).
       if mutation \<and> \<not> allow_preset_mutation (cam_ptz camera)
       then Inl (rejected UnsupportedCapability ''preset mutation is disabled by configuration'') else Inr inst))"

definition perform_preset_mutation ::
    "device_env \<Rightarrow> engine_env \<Rightarrow> intake_env \<Rightarrow> string option \<Rightarrow> string \<Rightarrow> string \<Rightarrow> PtzRequest \<Rightarrow> json \<Rightarrow> bool \<Rightarrow> json result device_task" where
  "perform_preset_mutation D E I requested q operation physical arguments mutation =
     try_task (lift_job (answer (\<lambda>k. preset_checks I k requested mutation))) (\<lambda>inst.
       case ledger_key_new (ee_category E) inst (''sb/ptz-presets/'' @ operation) q of
         Inl e \<Rightarrow> Return (Inl e)
       | Inr key \<Rightarrow>
           try_task (lift_job (begin_ledgered E I key (ledger_arguments inst q operation arguments)
             ''requestId was already used with different preset arguments'' ''the prior preset outcome is unknown after restart''
             (commanded_json operation))) (\<lambda>turn.
             case turn of
               Answered res \<Rightarrow> Return res
             | CarryOut \<Rightarrow>
                 try_task (find_actor inst) (\<lambda>actor.
                 bind_task (send_ptz D (Some key) actor physical) (\<lambda>result.
                   case result of
                     Inr Commanded \<Rightarrow> succeed_command E key (commanded_json operation)
                   | Inr (PresetToken t) \<Rightarrow> succeed_command E key
                       (to_object [(''operation'', Some (JString operation)), (''token'', Some (JString t))])
                   | Inr Removed \<Rightarrow> succeed_command E key
                       (to_object [(''operation'', Some (JString operation)), (''removed'', Some (JBool True))])
                   | Inr _ \<Rightarrow> Return (Inl (rejected UnsupportedCapability ''camera returned an unexpected preset response''))
                   | Inl e \<Rightarrow> fail_command E key operation e))))"

definition list_presets :: "device_env \<Rightarrow> intake_env \<Rightarrow> string option \<Rightarrow> bool \<Rightarrow> (string \<times> json list option) result device_task" where
  "list_presets D I requested fresh =
     try_task (lift_job (answer (\<lambda>k. and_then (ptz_camera I k requested) (\<lambda>(inst, _). Inr inst)))) (\<lambda>inst.
       if \<not> fresh then Return (Inr (inst, None))
       else try_task (find_actor inst) (\<lambda>actor.
         try_task (send_ptz D None actor ListPresets) (\<lambda>result.
           Return (case result of Presets ps \<Rightarrow> Inr (inst, Some (map (de_preset D) ps))
             | _ \<Rightarrow> Inl (rejected UnsupportedCapability ''camera returned an unexpected preset-list response'')))))"

definition preset_page ::
    "page_env \<Rightarrow> string \<Rightarrow> nat \<Rightarrow> string option \<Rightarrow> json list option \<Rightarrow> CursorStore \<Rightarrow> json result \<times> CursorStore" where
  "preset_page V inst limit cursor initial s =
     apfst (\<lambda>res. and_then res (\<lambda>(presets, next_cursor, _). Inr (to_object
       [(''presets'', Some (JArray presets)), (''nextCursor'', json_opt JString next_cursor)])))
       (snapshot_page V ''ptz-presets'' (to_object [(''instance'', Some (JString inst))]) cursor initial None limit s)"

definition show_presets :: "device_env \<Rightarrow> nat \<Rightarrow> string option \<Rightarrow> string \<times> json list option \<Rightarrow> json result device_task" where
  "show_presets D limit cursor found = action (\<lambda>d.
     case preset_page (de_page D (tick_of d)) (fst found) limit cursor (snd found) (dw_cursors d) of
       (res, s) \<Rightarrow> (res, (device_tick d)\<lparr>dw_cursors := s\<rparr>))"

definition perform_presets :: "device_env \<Rightarrow> engine_env \<Rightarrow> intake_env \<Rightarrow> PtzPresetsRequest \<Rightarrow> json result device_task" where
  "perform_presets D E I req =
     try_task (lift_job (answer (\<lambda>k. and_then (ie_config I k) (\<lambda>_. presets_validate (ee_category E) req)))) (\<lambda>_.
       case req of
         PresetsList inst limit cursor \<Rightarrow> try_task (list_presets D I inst (cursor = None)) (show_presets D limit cursor)
       | PresetsGoto inst q tok \<Rightarrow> perform_preset_mutation D E I inst q ''goto'' (GotoPreset tok)
           (to_object [(''token'', Some (JString tok))]) False
       | PresetsSet inst q name \<Rightarrow> perform_preset_mutation D E I inst q ''set'' (SetPreset name)
           (to_object [(''name'', Some (JString name))]) True
       | PresetsRemove inst q tok \<Rightarrow> perform_preset_mutation D E I inst q ''remove'' (RemovePreset tok)
           (to_object [(''token'', Some (JString tok))]) True)"

section \<open>Reconnection\<close>

definition operation_json :: "string \<Rightarrow> string \<Rightarrow> json" where
  "operation_json op inst = to_object [(''operationId'', Some (JString op)), (''instance'', Some (JString inst)),
     (''state'', Some (JString ''ACCEPTED''))]"

definition cancel_session :: "string \<Rightarrow> unit device_task" where
  "cancel_session inst = update (\<lambda>d.
     case Option.bind (map_of (dw_slots d) inst) slot_session of None \<Rightarrow> d | Some a \<Rightarrow> dlogged [SessionCancelled a] d)"

definition reconnect :: "engine_env \<Rightarrow> intake_env \<Rightarrow> ReconnectRequest \<Rightarrow> json result device_task" where
  "reconnect E I body =
     (case reconnect_validate (ee_category E) body of
        Inl e \<Rightarrow> Return (Inl e)
      | Inr _ \<Rightarrow>
          try_task (lift_job (answer (\<lambda>k. resolve_actuation_instance (nq_instance body) (ie_registry I k)))) (\<lambda>inst.
            case ledger_key_new (ee_category E) inst RECONNECT_VERB (nq_request_id body) of
              Inl e \<Rightarrow> Return (Inl e)
            | Inr key \<Rightarrow>
                try_task (lift_job (begin_ledgered E I key
                  (to_object [(''instance'', Some (JString inst)), (''requestId'', Some (JString (nq_request_id body))),
                     (''reason'', json_opt JString (nq_reason body))])
                  ''requestId was already used with different reconnect arguments''
                  ''the prior reconnect outcome is unknown after restart''
                  (operation_json (''op_'' @ nq_request_id body) inst))) (\<lambda>turn.
                  case turn of
                    Answered res \<Rightarrow> Return res
                  | CarryOut \<Rightarrow>
                      bind_task (lift_job (answer (\<lambda>k. operation_json (''op_'' @ ie_uuid I k) inst))) (\<lambda>operation.
                      try_task (lift_job (bind_task (now_ms E) (\<lambda>now.
                        store_call E (record_command_acceptance (ee_category E) key operation now)))) (\<lambda>_.
                      bind_task (cancel_session inst) (\<lambda>_. succeed_command E key operation))))))"

section \<open>One camera command per ledger entry\<close>

definition ledger_keys :: "device_world \<Rightarrow> LedgerKey multiset" where
  "ledger_keys d = mset (map le_key (command_ledger (w_catalog (dw_world d))))"

definition sends :: "device_event list \<Rightarrow> LedgerKey multiset" where
  "sends es = mset (List.map_filter (\<lambda>e. case e of PtzSent (Some key) _ _ \<Rightarrow> Some key | _ \<Rightarrow> None) es)"

definition device_inv :: "device_world \<Rightarrow> bool" where
  "device_inv d \<longleftrightarrow> keys_unique (w_catalog (dw_world d))"

text \<open>An entry of the ledger is a right to send one command to the camera.\<close>

definition device_discipline :: "(device_world, LedgerKey) discipline" where
  "device_discipline = \<lparr>d_inv = device_inv, d_rel = (\<lambda>_ _. True), d_earned = ledger_keys, d_spent = sends \<circ> dw_log\<rparr>"

lemma device_discipline_parts [simp]:
  "d_inv device_discipline = device_inv" "d_rel device_discipline = (\<lambda>_ _. True)"
  "d_earned device_discipline d = ledger_keys d" "d_spent device_discipline d = sends (dw_log d)"
  by (simp_all add: device_discipline_def)

lemma sends_append [simp]: "sends (es @ es') = sends es + sends es'"
  by (simp add: sends_def map_filter_def)

definition frugal :: "LedgerKey multiset \<Rightarrow> 'a device_task \<Rightarrow> bool" where
  "frugal n t \<longleftrightarrow> sat device_discipline (\<lambda>_ _ _. True) n (\<lambda>_. True) t"

definition costless :: "'a device_task \<Rightarrow> bool" where
  "costless t \<longleftrightarrow> (\<forall>n. sat device_discipline (\<lambda>_ m _. m = n) n (\<lambda>_. True) t)"

lemma stable_True [simp]: "stable (\<lambda>_ _. True) (\<lambda>_. c)"
  by (simp add: stable_def)

lemma sat_at: "sat D Q n (\<lambda>_. True) t \<Longrightarrow> sat D Q m (\<lambda>_. m = n) t"
  by (cases "m = n") (auto intro: sat_pre [OF sat_false])

lemma frugal_return: "frugal n (Return a)"
  by (simp add: frugal_def sat_return)

lemma frugal_then: "costless t \<Longrightarrow> (\<And>a. frugal n (f a)) \<Longrightarrow> frugal n (bind_task t f)"
  unfolding frugal_def costless_def by (rule sat_bind [where Q = "\<lambda>_ m _. m = n"]) (blast intro: sat_at)+

lemma frugal_try: "costless t \<Longrightarrow> (\<And>a. frugal n (f a)) \<Longrightarrow> frugal n (try_task t f)"
  unfolding try_task_def by (rule frugal_then) (auto intro: frugal_return split: sum.splits)

lemma costless_then: "costless t \<Longrightarrow> (\<And>a. costless (f a)) \<Longrightarrow> costless (bind_task t f)"
  unfolding costless_def
proof
  fix n
  assume "\<forall>n. sat device_discipline (\<lambda>_ m _. m = n) n (\<lambda>_. True) t"
    and "\<And>a. \<forall>n. sat device_discipline (\<lambda>_ m _. m = n) n (\<lambda>_. True) (f a)"
  then show "sat device_discipline (\<lambda>_ m _. m = n) n (\<lambda>_. True) (bind_task t f)"
    by (intro sat_bind [where Q = "\<lambda>_ m _. m = n"]) (blast intro: sat_at)+
qed

lemma costless_return: "costless (Return a)"
  by (simp add: costless_def sat_return)

lemma costless_try: "costless t \<Longrightarrow> (\<And>a. costless (f a)) \<Longrightarrow> costless (try_task t f)"
  unfolding try_task_def by (rule costless_then) (auto intro: costless_return split: sum.splits)

lemma costless_frugal: "costless t \<Longrightarrow> frugal n t"
  unfolding costless_def frugal_def by (blast intro: sat_post)

lemma costless_action:
  assumes "\<And>d. device_inv d \<Longrightarrow> device_inv (snd (f d)) \<and> ledger_keys d \<subseteq># ledger_keys (snd (f d)) \<and> sends (dw_log (snd (f d))) = sends (dw_log d)"
  shows "costless (action f)"
  unfolding costless_def
  by (intro allI sat_action) (use assms in \<open>auto simp: good_step_def stable_def subset_mset.add_mono ac_simps\<close>)

lemma frugal_send: "frugal (n + (case key of None \<Rightarrow> {#} | Some k \<Rightarrow> {#k#})) (bind_task (send_ptz D key actor req) f)"
  if "\<And>a. frugal n (f a)"
proof -
  have "sat device_discipline (\<lambda>_ m _. m = n) (n + (case key of None \<Rightarrow> {#} | Some k \<Rightarrow> {#k#})) (\<lambda>_. True) (send_ptz D key actor req)"
    unfolding send_ptz_def
    by (rule sat_action) (auto simp: good_step_def stable_def dlogged_def device_tick_def device_inv_def ledger_keys_def sends_def
        map_filter_def split: option.splits)
  then show ?thesis unfolding frugal_def by (rule sat_bind) (rule sat_at [OF that [unfolded frugal_def]])
qed

lemma lift_bind: "lift_job (bind_task t f) = bind_task (lift_job t) (\<lambda>a. lift_job (f a))"
proof (induction t)
  case (Act g)
  have "lift_job (bind_task (fst (g w)) f) = bind_task (lift_job (fst (g w))) (\<lambda>a. lift_job (f a))" for w
    by (rule Act.IH [of "g w"]) (auto intro: fsts.intros)
  then show ?case by (auto simp: fun_eq_iff apsnd_def map_prod_def split: prod.splits) (metis fst_conv)
qed simp_all

lemma lift_try: "lift_job (try_task t f) = try_task (lift_job t) (\<lambda>a. lift_job (f a))"
  by (auto simp: try_task_def lift_bind fun_eq_iff intro!: arg_cong [of _ _ "bind_task (lift_job t)"] split: sum.splits)

lemma lift_action: "lift_job (action f) = action (\<lambda>d. apsnd (\<lambda>w. d\<lparr>dw_world := w\<rparr>) (f (dw_world d)))"
  by (simp add: action_def fun_eq_iff apsnd_def map_prod_def case_prod_unfold)

lemma costless_answer: "costless (lift_job (answer f))" "costless (lift_job (now_ms E))"
  by (auto simp: now_ms_def answer_def lift_action device_inv_def ledger_keys_def intro!: costless_action)

text \<open>A transaction that keeps the keys of the ledger.\<close>

lemma costless_store:
  assumes "\<And>db. map le_key (command_ledger (fst (f db))) = map le_key (command_ledger db)"
  shows "costless (lift_job (store_call E f))"
proof -
  have "image_mset le_key (mset (command_ledger (fst (f db)))) = image_mset le_key (mset (command_ledger db))" for db
    using assms [of db] by (metis mset_map)
  then show ?thesis
    using assms
    by (auto simp: store_call_def transact_def lift_action device_inv_def ledger_keys_def keys_unique_def split: option.splits
        intro!: costless_action)
qed

lemma update_command_ledger_keys:
  assumes "\<And>l. le_key (f l) = le_key l"
  shows "map le_key (command_ledger (fst (commit (update_command key f e) db))) = map le_key (command_ledger db)"
  using assms keys_update [of "\<lambda>l. le_key l = key \<and> le_state l = InProgress" le_key f]
  by (auto simp: commit_def update_command_def Let_def and_then_def split: sum.splits if_splits)

lemma completion_keys: "map le_key (command_ledger (fst (complete_command cat key st body code message now db))) = map le_key (command_ledger db)"
  by (auto simp: complete_command_def update_command_ledger_keys split: sum.splits)

lemma acceptance_keys: "map le_key (command_ledger (fst (record_command_acceptance cat key body now db))) = map le_key (command_ledger db)"
  by (auto simp: record_command_acceptance_def update_command_ledger_keys split: sum.splits)

lemma begin_command_keys:
  "(\<exists>l. snd (begin_command cat key hash request now db) = Inr (CommandStarted l)) \<and>
     map le_key (command_ledger (fst (begin_command cat key hash request now db))) = map le_key (command_ledger db) @ [key] \<and>
     key \<notin> le_key ` set (command_ledger db) \<or>
   (\<forall>l. snd (begin_command cat key hash request now db) \<noteq> Inr (CommandStarted l)) \<and>
     map le_key (command_ledger (fst (begin_command cat key hash request now db))) = map le_key (command_ledger db)"
  by (auto simp: begin_command_def commit_def begin_command_blocking_def insert_ledger_def and_then_def load_ledger_def select_row_None
      select_row_append ok_or_def split: sum.splits option.splits)

lemma bind_task_assoc: "bind_task (bind_task t f) g = bind_task t (\<lambda>a. bind_task (f a) g)"
proof (induction t)
  case (Act h)
  have "bind_task (bind_task (fst (h s)) f) g = bind_task (fst (h s)) (\<lambda>a. bind_task (f a) g)" for s
    by (rule Act.IH [of "h s"]) (auto intro: fsts.intros)
  then show ?case by (auto simp: fun_eq_iff map_prod_def split: prod.splits) (metis fst_conv)
qed simp_all

lemma frugal_begin:
  assumes "\<And>res. frugal {#} (f (Answered res))" and "frugal {#key#} (f CarryOut)"
  shows "frugal {#} (try_task (lift_job (begin_ledgered E I key canonical conflict unknown fallback)) f)"
proof (cases "canonical_request_hash (ie_lexis I) (ie_sha256 I) canonical False")
  case (Inl e)
  then show ?thesis by (simp add: begin_ledgered_def try_task_def frugal_return)
next
  case (Inr hash)
  let ?right = "\<lambda>outcome. case outcome of Inr (CommandStarted _) \<Rightarrow> {#key#} | _ \<Rightarrow> {#}"
  have "sat device_discipline (\<lambda>outcome m _. m = ?right outcome) {#} (\<lambda>_. True)
      (lift_job (store_call E (begin_command (ee_category E) key hash canonical now)))" for now
    unfolding store_call_def transact_def lift_action
  proof (rule sat_action)
    fix d assume inv: "d_inv device_discipline d"
    let ?db = "w_catalog (dw_world d)" and ?r = "begin_command (ee_category E) key hash canonical now (w_catalog (dw_world d))"
    have cases: "(\<exists>l. snd ?r = Inr (CommandStarted l)) \<and> map le_key (command_ledger (fst ?r)) = map le_key (command_ledger ?db) @ [key] \<and>
        key \<notin> le_key ` set (command_ledger ?db) \<or>
      (\<forall>l. snd ?r \<noteq> Inr (CommandStarted l)) \<and> map le_key (command_ledger (fst ?r)) = map le_key (command_ledger ?db)"
      by (rule begin_command_keys)
    have keys: "keys_unique (fst ?r)" using cases inv by (auto simp: device_inv_def keys_unique_def)
    have right: "mset (map le_key (command_ledger ?db)) + ?right (snd ?r) \<subseteq># mset (map le_key (command_ledger (fst ?r)))"
      using cases by (auto simp del: mset_map split: sum.splits BeginCommandOutcome.splits)
    then have more: "mset (map le_key (command_ledger ?db)) \<subseteq># mset (map le_key (command_ledger (fst ?r)))"
      by (rule subset_mset.order_trans [OF mset_subset_eq_add_left])
    let ?f = "\<lambda>w. case ee_store_fault E (w_tick w) of None \<Rightarrow> (snd (begin_command (ee_category E) key hash canonical now (w_catalog w)),
        logged (case snd (begin_command (ee_category E) key hash canonical now (w_catalog w)) of Inl _ \<Rightarrow> [] | Inr a \<Rightarrow> [])
          (next_tick (w\<lparr>w_catalog := fst (begin_command (ee_category E) key hash canonical now (w_catalog w))\<rparr>)))
      | Some (e, applied) \<Rightarrow> (Inl e, next_tick (if applied
          then w\<lparr>w_catalog := fst (begin_command (ee_category E) key hash canonical now (w_catalog w))\<rparr> else w))"
    show "\<exists>n'. good_step device_discipline {#} n' d (snd (apsnd (\<lambda>w. d\<lparr>dw_world := w\<rparr>) (?f (dw_world d)))) \<and>
        stable (d_rel device_discipline) (\<lambda>_. n' = ?right (fst (apsnd (\<lambda>w. d\<lparr>dw_world := w\<rparr>) (?f (dw_world d))))) \<and>
        n' = ?right (fst (apsnd (\<lambda>w. d\<lparr>dw_world := w\<rparr>) (?f (dw_world d))))"
      using keys right more inv
      by (auto simp: good_step_def device_inv_def ledger_keys_def mset_map [symmetric] add.assoc simp del: mset_map split: option.splits)
  qed
  then have begun: "frugal {#} (bind_task (lift_job (store_call E (begin_command (ee_category E) key hash canonical now))) g)"
    if "\<And>outcome. frugal (?right outcome) (g outcome)" for now and g :: "(camera_error + BeginCommandOutcome) \<Rightarrow> (camera_error + 'b) device_task"
    unfolding frugal_def by (rule sat_bind) (rule sat_at, use that in \<open>simp add: frugal_def\<close>)
  show ?thesis
    unfolding begin_ledgered_def Inr sum.case lift_bind lift_try try_task_def bind_task_assoc
    by (intro frugal_then [OF costless_answer(2)] begun) (use assms in \<open>auto intro: frugal_return split: sum.splits BeginCommandOutcome.splits\<close>)
qed

lemma costless_ledger_end: "costless (fail_command E key operation e)" "costless (succeed_command E key response)"
  unfolding fail_command_def succeed_command_def lift_bind lift_try
  by (intro costless_then costless_try costless_answer costless_store completion_keys; simp add: costless_return)+

lemma costless_slot: "costless (disarm_motion_stop inst)" "costless (cancel_session inst)" "costless (find_actor inst)"
  unfolding disarm_motion_stop_def cancel_session_def find_actor_def update_def look_def
  by (rule costless_action; auto simp: device_inv_def ledger_keys_def dlogged_def on_slot_def sends_def map_filter_def split: option.splits)+

lemma costless_arm: "costless (arm_motion_stop D E I inst timeout axes)"
  unfolding arm_motion_stop_def
  by (auto simp: Let_def device_inv_def ledger_keys_def dlogged_def on_slot_def device_tick_def sends_def map_filter_def
      intro!: costless_return costless_action split: option.splits prod.splits)

lemma costless_response: "costless (motion_response D E operation until)"
  unfolding motion_response_def by (intro costless_then costless_answer costless_return)

lemmas costless_parts = costless_ledger_end costless_slot costless_arm costless_response costless_return costless_answer
lemmas frugal_parts = frugal_return costless_parts [THEN costless_frugal]

lemma frugal_sent: "(\<And>a. frugal {#} (f a)) \<Longrightarrow> frugal {#key#} (bind_task (send_ptz D (Some key) actor req) f)"
  using frugal_send [of "{#}" f "Some key"] by simp

lemma costless_ask: "costless (send_ptz D None actor req)"
  unfolding send_ptz_def
  by (rule costless_action) (auto simp: device_inv_def ledger_keys_def device_tick_def dlogged_def sends_def map_filter_def)

lemma frugal_carry_out: "frugal {#key#} (carry_out_ptz D E I inst actor key plan)"
  unfolding carry_out_ptz_def
  by (rule frugal_then, simp add: costless_parts, rule frugal_sent)
    (auto intro!: frugal_parts frugal_then costless_then costless_parts split: sum.splits PtzResult.splits option.splits)

lemma frugal_ptz: "frugal {#} (perform_ptz D E I req)"
  unfolding perform_ptz_def
  by (auto intro!: frugal_try costless_parts costless_ask frugal_begin frugal_carry_out frugal_parts
      split: option.splits sum.splits)

lemma frugal_preset: "frugal {#} (perform_preset_mutation D E I requested q operation physical arguments mutation)"
  unfolding perform_preset_mutation_def
  by (auto intro!: frugal_try costless_parts frugal_sent frugal_begin frugal_parts
      split: option.splits sum.splits PtzResult.splits)

lemma costless_show: "costless (show_presets D limit cursor found)"
  unfolding show_presets_def
  by (rule costless_action) (auto simp: device_inv_def ledger_keys_def device_tick_def split: prod.splits)

lemma costless_list: "costless (list_presets D I requested fresh)"
  unfolding list_presets_def by (auto intro!: costless_try costless_ask costless_parts)

lemma frugal_presets: "frugal {#} (perform_presets D E I req)"
  unfolding perform_presets_def
  by (auto intro!: frugal_try costless_parts costless_list frugal_preset costless_show [THEN costless_frugal]
      split: PtzPresetsRequest.splits)

lemma frugal_reconnect: "frugal {#} (reconnect E I body)"
  unfolding reconnect_def lift_bind
  by (auto intro!: frugal_try frugal_then costless_parts costless_then costless_store acceptance_keys frugal_begin frugal_parts
      intro: costless_frugal split: option.splits sum.splits)

text \<open>
  The commands of the operators, each under any environment, among whatever else goes on in the process: nothing else removes
  an entry of the ledger or sends a command for one. A restart keeps the ledger and loses the commands under way.
\<close>

definition bystander :: "device_world \<Rightarrow> device_world \<Rightarrow> bool" where
  "bystander d d' \<longleftrightarrow> (device_inv d \<longrightarrow> device_inv d') \<and> ledger_keys d \<subseteq># ledger_keys d' \<and> sends (dw_log d') = sends (dw_log d)"

inductive_set command_tasks :: "json result device_task set" where
  ptz_task: "perform_ptz D E I req \<in> command_tasks"
| preset_task: "perform_presets D E I presets \<in> command_tasks"
| reconnect_task: "reconnect E I body \<in> command_tasks"

definition device_system :: "(json result, device_world) system" where
  "device_system = \<lparr>y_tasks = command_tasks, y_other = bystander, y_crash = bystander\<rparr>"

interpretation commanded: disciplined_system device_discipline device_system
proof unfold_locales
  fix t assume "t \<in> y_tasks device_system"
  then have "frugal {#} t"
    by (auto simp: device_system_def elim!: command_tasks.cases intro: frugal_ptz frugal_presets frugal_reconnect)
  then show "sat device_discipline (\<lambda>_ _ _. True) {#} (\<lambda>_. True) t" by (simp add: frugal_def)
qed (auto simp: device_system_def bystander_def good_step_def)

text \<open>C14: However operator commands run beside each other, are retried, or are cut short by a restart of the process, a camera is sent
  at most one movement or preset command for one ledger key, as long as the ledger keeps its entries.\<close>

theorem ptz_sent_once:
  assumes "(pool_step device_system)\<^sup>*\<^sup>* ([], d0) (ts, d)"
    and "keys_unique (w_catalog (dw_world d0))" and "dw_log d0 = []"
  shows "length (filter (\<lambda>e. \<exists>actor req. e = PtzSent (Some key) actor req) (dw_log d)) \<le> 1"
proof -
  have "device_inv d \<and> sends (dw_log d) \<subseteq># ledger_keys d"
    using commanded.reachable_disciplined [OF assms(1)] assms(2,3) by (simp add: device_inv_def sends_def map_filter_def)
  then have "count (sends (dw_log d)) key \<le> 1"
    by (metis device_inv_def keys_unique_def ledger_keys_def distinct_count_atmost_1 mset_subset_eq_count le_trans le_refl linorder_linear not_one_le_zero)
  moreover have "count (sends es) key = length (filter (\<lambda>e. \<exists>actor req. e = PtzSent (Some key) actor req) es)" for es
    by (induction es) (auto simp: sends_def map_filter_def split: device_event.splits option.splits)
  ultimately show ?thesis by simp
qed

section \<open>A failed command leaves the camera moving\<close>

lemma run_alone_lift [simp]:
  "run_alone (lift_job t) d = (fst (run_alone t (dw_world d)), d\<lparr>dw_world := snd (run_alone t (dw_world d))\<rparr>)"
proof (induction t arbitrary: d)
  case (Act g)
  have "run_alone (lift_job (fst (g w))) d = (fst (run_alone (fst (g w)) (dw_world d)), d\<lparr>dw_world := snd (run_alone (fst (g w)) (dw_world d))\<rparr>)" for w d
    by (rule Act.IH [of "g w"]) (auto intro: fsts.intros)
  then show ?case by (simp add: case_prod_unfold apsnd_def)
qed simp_all

lemma ledger_arguments_object [simp]: "is_JObject (ledger_arguments inst q operation arguments)"
  by (simp add: ledger_arguments_def to_object_def)

lemma ledger_key_new_valid: "ledger_key_new cat inst verb q = Inr key \<Longrightarrow> validate_ledger_key cat key = Inr ()"
  by (auto simp: ledger_key_new_def Let_def and_then_Inr_iff)

lemma map_of_on_slot: "map_of (dw_slots (on_slot inst f d)) inst = map_option f (map_of (dw_slots d) inst)"
proof -
  have "map_of (map (\<lambda>(i, s). if i = inst then (i, f s) else (i, s)) slots) inst = map_option f (map_of slots inst)" for slots
    by (induction slots) auto
  then show ?thesis by (simp add: on_slot_def)
qed

lemma run_fail_command:
  "\<exists>w'. run_alone (fail_command E key operation e) d = (Some (Inl e), d\<lparr>dw_world := w'\<rparr>)"
  by (auto simp: fail_command_def run_alone_rules run_store split: option.splits prod.splits)

lemma run_failing_ptz:
  assumes "ee_store_fault E (tick_of d + 2) = None" and "\<And>k. ptz_checks D E I k req = Inr (inst, plan)"
    and "motion_of (pp_physical plan) = None" and "pp_request_id plan = Some q"
    and "ledger_key_new (ee_category E) inst (''sb/ptz/'' @ pp_operation plan) q = Inr key"
    and "canonical_request_hash (ie_lexis I) (ie_sha256 I) (ledger_arguments inst q (pp_operation plan) (pp_arguments plan)) False = Inr hash"
    and "load_ledger (w_catalog (dw_world d)) key = None"
    and "map_of (dw_slots d) inst = Some slot" and "slot_session slot = Some actor" and "slot_motion_stop slot = Some armed"
    and "\<And>k. de_ptz D k (pp_physical plan) = Inl e"
  shows "\<exists>w'. run_alone (perform_ptz D E I req) d = (Some (Inl e), dlogged [TimerCancelled (as_token armed),
      PtzSent (Some key) actor (pp_physical plan)] (on_slot inst (\<lambda>s. s\<lparr>slot_motion_stop := None\<rparr>) (d\<lparr>dw_world := w'\<rparr>)))"
proof -
  let ?canonical = "ledger_arguments inst q (pp_operation plan) (pp_arguments plan)"
  let ?w = "next_tick (dw_world d)"
  obtain w1 l where "run_alone (begin_ledgered E I key ?canonical ''requestId was already used with different PTZ arguments''
      ''the prior PTZ outcome is unknown after restart'' (commanded_json (pp_operation plan))) ?w = (Some (Inr CarryOut), w1)"
    using run_begin_fresh [of E ?w key I ?canonical hash] assms(1,6,7) ledger_key_new_valid [OF assms(5)]
    by (fastforce simp: tick_of_def)
  moreover let ?d = "dlogged [PtzSent (Some key) actor (pp_physical plan)] (device_tick
        (dlogged [TimerCancelled (as_token armed)] (on_slot inst (\<lambda>s. s\<lparr>slot_motion_stop := None\<rparr>) (d\<lparr>dw_world := w1\<rparr>))))"
  obtain w2 where "run_alone (fail_command E key (pp_operation plan) e) ?d = (Some (Inl e), ?d\<lparr>dw_world := w2\<rparr>)"
    using run_fail_command by blast
  ultimately have "run_alone (perform_ptz D E I req) d = (Some (Inl e), ?d\<lparr>dw_world := w2\<rparr>)"
    using assms(2-5,8-11)
    by (simp add: perform_ptz_def carry_out_ptz_def run_alone_rules answer_def find_actor_def ok_or_def send_ptz_def disarm_motion_stop_def)
  then show ?thesis by (intro exI [of _ w2]) (simp add: dlogged_def device_tick_def on_slot_def)
qed

text \<open>C35: A command other than a continuous move retires the stop of the move before it before it is sent. When the camera fails that
  command, the move goes on, nothing was queued to stop it, and the timer that was to stop it does nothing when its deadline comes.\<close>

theorem failed_command_disarms:
  assumes "ee_store_fault E (tick_of d + 2) = None" and "\<And>k. ptz_checks D E I k req = Inr (inst, plan)"
    and "motion_of (pp_physical plan) = None" and "pp_request_id plan = Some q"
    and "ledger_key_new (ee_category E) inst (''sb/ptz/'' @ pp_operation plan) q = Inr key"
    and "canonical_request_hash (ie_lexis I) (ie_sha256 I) (ledger_arguments inst q (pp_operation plan) (pp_arguments plan)) False = Inr hash"
    and "load_ledger (w_catalog (dw_world d)) key = None"
    and "map_of (dw_slots d) inst = Some slot" and "slot_session slot = Some actor" and "slot_motion_stop slot = Some armed"
    and "\<And>k. de_ptz D k (pp_physical plan) = Inl e"
  shows "\<exists>d'. run_alone (perform_ptz D E I req) d = (Some (Inl e), d') \<and>
    dw_log d' = dw_log d @ [TimerCancelled (as_token armed), PtzSent (Some key) actor (pp_physical plan)] \<and>
    map_option slot_motion_stop (map_of (dw_slots d') inst) = Some None \<and>
    run_alone (motion_stop_timer D inst armed) d' = (Some (), d')"
proof -
  obtain w' where "run_alone (perform_ptz D E I req) d = (Some (Inl e), dlogged [TimerCancelled (as_token armed),
      PtzSent (Some key) actor (pp_physical plan)] (on_slot inst (\<lambda>s. s\<lparr>slot_motion_stop := None\<rparr>) (d\<lparr>dw_world := w'\<rparr>)))"
    using run_failing_ptz [OF assms] by blast
  then show ?thesis
    using assms(8) map_of_on_slot [of inst "\<lambda>s. s\<lparr>slot_motion_stop := None\<rparr>" "d\<lparr>dw_world := w'\<rparr>"]
    by (auto simp: dlogged_def on_slot_def motion_stop_timer_def run_alone_rules option.map_comp)
qed

text \<open>A preset command that finds no session of the camera is refused, but its ledger entry stays in progress. The same request
  repeated is answered as commanded, whether or not the camera is back, and nothing is ever sent.\<close>

theorem uncommanded_reported:
  assumes "\<And>k. ee_store_fault E k = None" and "\<And>k. preset_checks I k requested mutation = Inr inst"
    and "ledger_key_new (ee_category E) inst (''sb/ptz-presets/'' @ operation) q = Inr key"
    and "canonical_request_hash (ie_lexis I) (ie_sha256 I) (ledger_arguments inst q operation arguments) False = Inr hash"
    and "load_ledger (w_catalog (dw_world d)) key = None" and "Option.bind (map_of (dw_slots d) inst) slot_session = None"
  shows "\<exists>e d'. run_alone (perform_preset_mutation D E I requested q operation physical arguments mutation) d = (Some (Inl e), d') \<and>
    error_code_of e = DeviceUnavailable \<and>
    (\<exists>d''. run_alone (perform_preset_mutation D E I requested q operation physical arguments mutation) (d'\<lparr>dw_slots := slots\<rparr>) =
       (Some (Inr (commanded_json operation)), d'') \<and> dw_log d'' = dw_log d)"
proof -
  let ?canonical = "ledger_arguments inst q operation arguments"
  let ?w = "next_tick (dw_world d)"
  obtain w1 l where begun: "run_alone (begin_ledgered E I key ?canonical ''requestId was already used with different preset arguments''
      ''the prior preset outcome is unknown after restart'' (commanded_json operation)) ?w = (Some (Inr CarryOut), w1)"
      "load_ledger (w_catalog w1) key = Some l" "le_state l = InProgress" "le_request_hash l = hash" "le_reply l = None"
    using run_begin_fresh [of E ?w key I ?canonical hash] assms(1,4,5) ledger_key_new_valid [OF assms(3)] by fastforce
  then have "run_alone (perform_preset_mutation D E I requested q operation physical arguments mutation) d =
      (Some (Inl (rejected DeviceUnavailable (''camera instance '' @ [CHR 0x27] @ inst @ [CHR 0x27] @ '' is not connected''))),
       d\<lparr>dw_world := w1\<rparr>)"
    using assms(2,3,6) by (simp add: perform_preset_mutation_def run_alone_rules answer_def find_actor_def ok_or_def)
  moreover have "run_alone (begin_ledgered E I key ?canonical ''requestId was already used with different preset arguments''
      ''the prior preset outcome is unknown after restart'' (commanded_json operation)) (next_tick w1) =
      (Some (Inr (Answered (Inr (commanded_json operation)))), next_tick (next_tick (next_tick w1)))"
    using run_begin_existing [of E "next_tick w1" key I ?canonical hash l] assms(1,4) ledger_key_new_valid [OF assms(3)] begun(2-5)
    by (simp add: option_or_def)
  then have "run_alone (perform_preset_mutation D E I requested q operation physical arguments mutation)
      ((d\<lparr>dw_world := w1\<rparr>)\<lparr>dw_slots := slots\<rparr>) = (Some (Inr (commanded_json operation)),
       d\<lparr>dw_world := next_tick (next_tick (next_tick w1)), dw_slots := slots\<rparr>)"
    using assms(2,3) by (simp add: perform_preset_mutation_def run_alone_rules answer_def)
  ultimately show ?thesis by fastforce
qed

section \<open>A concrete camera\<close>

definition ptz_intake :: intake_env where
  "ptz_intake = (sample_intake False)\<lparr>ie_registry := (\<lambda>_. \<lparr>reg_entries = [(''a'',
     let c = sample_camera\<lparr>cam_ptz := PtzConfig_default\<lparr>ptz_enabled := True, allow_preset_mutation := True\<rparr>\<rparr>
     in \<lparr>re_config = c, re_snapshot = initial_snapshot 0 c\<rparr>)], reg_poisoned = False\<rparr>)\<rparr>"

definition failing_device :: device_env where
  "failing_device = \<lparr>de_ptz = (\<lambda>_ _. Inl gone), de_safety_stop = (\<lambda>_. Inr ()), de_instant = id, de_spawn = (\<lambda>_. True),
     de_cancelled = (\<lambda>_ _. False), de_timestamp = (\<lambda>_. JNull), de_vector = (\<lambda>_. JNull), de_preset = (\<lambda>_. JNull),
     de_page = (\<lambda>_. \<lparr>pe_hash = (\<lambda>_. Inl gone), pe_now = 0, pe_token = ''cur''\<rparr>)\<rparr>"

definition sample_stop :: ArmedStop where
  "sample_stop = \<lparr>as_token = 3, as_pan = True, as_tilt = False, as_zoom = False, as_ptz_ms = 10000\<rparr>"

definition device_state :: "(string \<times> CameraSlot) list \<Rightarrow> device_world" where
  "device_state slots = \<lparr>dw_world = empty_world, dw_slots = slots, dw_next_token = 4, dw_cursors = \<lparr>cs_entries = [], cs_insertion_order = []\<rparr>, dw_log = []\<rparr>"

definition moving_slot :: CameraSlot where
  "moving_slot = \<lparr>slot_motion_stop = Some sample_stop, slot_session = Some 7\<rparr>"

definition home_key :: LedgerKey where
  "home_key = \<lparr>lk_instance = ''a'', lk_verb = ''sb/ptz/home'', lk_request_id = ''q''\<rparr>"

lemma ptz_resolution:
  "resolve_actuation_instance (Some ''a'') (ie_registry ptz_intake k) = Inr ''a''"
  "\<exists>camera. ptz_camera ptz_intake k (Some ''a'') = Inr (''a'', camera) \<and> allow_preset_mutation (cam_ptz camera)"
  by (simp_all add: ptz_camera_def resolve_actuation_instance_def camera_config_def ptz_intake_def read_entries_def requested_instance_def
      sample_camera_def demo_camera_def and_then_def ok_or_def Let_def)

lemma home_checks:
  "ptz_checks failing_device steady_env ptz_intake k (PtzHome (Some ''a'') ''q'') =
     Inr (''a'', plan_of failing_device (PtzHome (Some ''a'') ''q''))"
proof -
  have "validate_token ''a'' ''instance'' = Inr ()" by code_simp
  moreover have "ie_config ptz_intake k = Inr sample_config" by (simp add: ptz_intake_def)
  ultimately show ?thesis
    using ptz_resolution(2) [of k]
    by (auto simp: ptz_checks_def and_then_def steady_env_def sample_env_def ptz_target_def validate_optional_token_def
        validate_request_id_def utf8_chars.simps)
qed

lemma ledger_hash: "\<exists>hash. canonical_request_hash lx sha (ledger_arguments inst q operation arguments) False = Inr hash"
proof -
  have "\<exists>es. encode_entries lx False kvs = Inr es" for kvs
    by (induction lx False kvs rule: encode_entries.induct) (auto simp: and_then_def)
  then show ?thesis
    by (auto simp: canonical_request_hash_def canonical_request_bytes_def ledger_arguments_def to_object_def and_then_Inr_iff)
qed

lemma home_facts:
  "ledger_key_new (ee_category steady_env) ''a'' (''sb/ptz/'' @ ''home'') ''q'' = Inr home_key"
  "ee_store_fault steady_env k = None" "de_ptz failing_device k Home = Inl gone"
  "w_catalog (dw_world (device_state slots)) = empty_catalog" "dw_slots (device_state slots) = slots" "dw_log (device_state slots) = []"
  by (simp_all add: ledger_key_new_def validate_ledger_key_def Let_def and_then_def require_nonempty_def ensure_def home_key_def
      validate_request_id_def utf8_chars.simps steady_env_def sample_env_def failing_device_def device_state_def)

theorem failed_command_disarms_witness:
  "\<exists>d'. run_alone (perform_ptz failing_device steady_env ptz_intake (PtzHome (Some ''a'') ''q'')) (device_state [(''a'', moving_slot)]) =
       (Some (Inl gone), d') \<and>
     dw_log d' = [TimerCancelled 3, PtzSent (Some home_key) 7 Home] \<and>
     run_alone (motion_stop_timer failing_device ''a'' sample_stop) d' = (Some (), d')"
proof -
  obtain hash where "canonical_request_hash (ie_lexis ptz_intake) (ie_sha256 ptz_intake)
      (ledger_arguments ''a'' ''q'' ''home'' (to_object [])) False = Inr hash"
    using ledger_hash by blast
  then show ?thesis
    using failed_command_disarms [of steady_env "device_state [(''a'', moving_slot)]" failing_device ptz_intake
        "PtzHome (Some ''a'') ''q''" "''a''" "plan_of failing_device (PtzHome (Some ''a'') ''q'')" "''q''" home_key hash moving_slot 7
        sample_stop gone] home_checks home_facts
    by (auto simp: moving_slot_def sample_stop_def)
qed

theorem ptz_sent_once_witness:
  "\<exists>ts d. (pool_step device_system)\<^sup>*\<^sup>* ([], device_state [(''a'', moving_slot)]) (ts, d) \<and>
     length (filter (\<lambda>e. \<exists>actor req. e = PtzSent (Some home_key) actor req) (dw_log d)) \<le> 1 \<and>
     PtzSent (Some home_key) 7 Home \<in> set (dw_log d)"
proof -
  let ?d = "device_state [(''a'', moving_slot)]" and ?req = "PtzHome (Some ''a'') ''q''"
  let ?t = "perform_ptz failing_device steady_env ptz_intake ?req"
  obtain hash where "canonical_request_hash (ie_lexis ptz_intake) (ie_sha256 ptz_intake)
      (ledger_arguments ''a'' ''q'' ''home'' (to_object [])) False = Inr hash"
    using ledger_hash by blast
  then obtain d' where run: "run_alone ?t ?d = (Some (Inl gone), d')" "PtzSent (Some home_key) 7 Home \<in> set (dw_log d')"
    using run_failing_ptz [of steady_env ?d failing_device ptz_intake ?req "''a''" "plan_of failing_device ?req" "''q''" home_key hash
        moving_slot 7 sample_stop gone] home_checks home_facts
    by (auto simp: moving_slot_def dlogged_def)
  have "pool_step device_system ([], ?d) ([] @ [?t], ?d)"
    by (rule pool_start) (simp add: device_system_def command_tasks.ptz_task)
  moreover have "(pool_step device_system)\<^sup>*\<^sup>* ([?t], ?d) ([Return (Inl gone)], d')" by (rule run_alone_pool) (rule run(1))
  ultimately have reach: "(pool_step device_system)\<^sup>*\<^sup>* ([], ?d) ([Return (Inl gone)], d')"
    by (simp add: converse_rtranclp_into_rtranclp)
  have "length (filter (\<lambda>e. \<exists>actor req. e = PtzSent (Some home_key) actor req) (dw_log d')) \<le> 1"
    by (rule ptz_sent_once [OF reach]) (simp_all add: home_facts keys_unique_def empty_catalog_def)
  then show ?thesis using reach run(2) by blast
qed

theorem uncommanded_reported_witness:
  "\<exists>e d' d''. run_alone (perform_preset_mutation failing_device steady_env ptz_intake (Some ''a'') ''q'' ''goto'' (GotoPreset ''1'')
       JNull False) (device_state []) = (Some (Inl e), d') \<and>
     run_alone (perform_preset_mutation failing_device steady_env ptz_intake (Some ''a'') ''q'' ''goto'' (GotoPreset ''1'')
       JNull False) (d'\<lparr>dw_slots := [(''a'', moving_slot)]\<rparr>) = (Some (Inr (commanded_json ''goto'')), d'') \<and> dw_log d'' = []"
proof -
  let ?key = "\<lparr>lk_instance = ''a'', lk_verb = ''sb/ptz-presets/goto'', lk_request_id = ''q''\<rparr>"
  obtain hash where "canonical_request_hash (ie_lexis ptz_intake) (ie_sha256 ptz_intake)
      (ledger_arguments ''a'' ''q'' ''goto'' JNull) False = Inr hash"
    using ledger_hash by blast
  moreover have "ledger_key_new (ee_category steady_env) ''a'' (''sb/ptz-presets/'' @ ''goto'') ''q'' = Inr ?key"
    by (simp add: ledger_key_new_def validate_ledger_key_def Let_def and_then_def require_nonempty_def ensure_def
      validate_request_id_def utf8_chars.simps steady_env_def sample_env_def)
  moreover have "preset_checks ptz_intake k (Some ''a'') False = Inr ''a''" for k
    using ptz_resolution(2) [of k] by (auto simp: preset_checks_def and_then_def ptz_intake_def)
  ultimately show ?thesis
    using uncommanded_reported [of steady_env ptz_intake "Some ''a''" False "''a''" "''goto''" "''q''" ?key JNull hash "device_state []"
        failing_device "GotoPreset ''1''" "[(''a'', moving_slot)]"] home_facts
    by auto
qed

end
