(* ===== verification/Actor.thy ===== *)
theory Actor
  imports Dispatch Control_Lanes Jobs
begin

text \<open>
  The actor that owns a camera session (\<open>src/actor.rs\<close>). Its task is cut at its awaits: an operation of the model is what the
  actor or one of its handles does between two suspension points. What a session or the job engine answers is part of the
  operation. A push into a lane and the wake-up that follows it are two operations, and so are the actor's look at its wake-up and
  the taking of a capture that follows it in the same select, since the handles run on other threads. The log holds what the actor asked of its session and engine, and the replies it sent.

  Shown: mailbox slots are exact and a reserved slot can always be committed; a wake-up is never lost; an emergency stop is taken
  before any other control, is overtaken by at most the one capture the actor was about to take, and leaves its lane only to be
  sent; every ordinary control is answered at most once. Failing, however, the actor throws a waiting emergency stop away.
\<close>

section \<open>State\<close>

record OrdinaryControl =
  ctl_id :: nat
  ctl_request :: PtzRequest
  ctl_deadline :: nat
  ctl_cancellation :: nat

datatype actor_event =
    StopAccepted SafetyStop
  | StopSent SafetyStop
  | StopDropped SafetyStop
  | ControlAccepted nat
  | ControlTaken OrdinaryControl
  | ControlSent OrdinaryControl
  | Replied nat "PtzResult result"
  | Unanswered nat
  | CaptureTaken CaptureDescriptor
  | CancelAsked string string
  | DurableFailure string
  | PanicFailure string
  | SessionClosed

datatype actor_phase =
    TopOfLoop
  | Selecting
  | PollingCaptures
  | Controlling "OrdinaryControl ControlWork" bool
  | Capturing CaptureDescriptor bool
  | Rejecting camera_error string
  | Draining "camera_error option" string
  | DrainingControls
  | Closing "camera_error option"
  | Ended "unit result"

record CameraActor =
  ac_instance :: string
  ac_captures :: "CaptureDescriptor QueueInner"
  ac_controls :: "OrdinaryControl ControlLanes"
  ac_used :: nat
  ac_maximum :: nat
  ac_accepting :: bool
  ac_permit :: bool
  ac_phase :: actor_phase
  ac_next_id :: nat
  ac_reserved :: nat
  ac_notifying :: nat
  ac_log :: "actor_event list"

definition actor_new :: "string \<Rightarrow> nat \<Rightarrow> nat \<Rightarrow> CameraActor result" where
  "actor_new inst max_captures max_controls =
     (if inst = [] \<or> max_captures = 0
      then Inl (Rejected BadArgs ''actor instance and capture queue capacity must be non-empty'')
      else and_then (queue_new max_captures max_captures aging_interval_nanos) (\<lambda>q.
           and_then (control_new max_controls) (\<lambda>lanes.
             Inr \<lparr>ac_instance = inst, ac_captures = q, ac_controls = lanes, ac_used = 0, ac_maximum = max_captures,
               ac_accepting = True, ac_permit = False, ac_phase = TopOfLoop, ac_next_id = 0, ac_reserved = 0, ac_notifying = 0,
               ac_log = []\<rparr>)))"

definition log_events :: "actor_event list \<Rightarrow> CameraActor \<Rightarrow> CameraActor" where
  "log_events es a = a\<lparr>ac_log := ac_log a @ es\<rparr>"

definition enter :: "actor_phase \<Rightarrow> CameraActor \<Rightarrow> CameraActor" where
  "enter p a = a\<lparr>ac_phase := p\<rparr>"

section \<open>Handles\<close>

definition ptz_timeout :: camera_error where
  "ptz_timeout = Rejected PtzTimeout ''PTZ operation exceeded its deadline''"

text \<open>The queueing half of \<open>ptz\<close>. \<open>seen\<close> is what the handle read of the accepting flag, perhaps some time ago.\<close>

definition queue_ptz ::
    "bool \<Rightarrow> nat \<Rightarrow> bool \<Rightarrow> PtzRequest \<Rightarrow> nat \<Rightarrow> nat \<Rightarrow> CameraActor \<Rightarrow> CameraActor \<times> unit result" where
  "queue_ptz seen now cancelled request deadline tok a =
     (if \<not> seen then (a, Inl (Rejected ComponentStopping ''camera actor is not accepting control work''))
      else if deadline \<le> now then (a, Inl ptz_timeout)
      else if cancelled then (a, Inl (Rejected CaptureCancelled ''control operation was cancelled before queueing''))
      else case try_push_ordinary \<lparr>ctl_id = ac_next_id a, ctl_request = request, ctl_deadline = deadline, ctl_cancellation = tok\<rparr>
                  (ac_controls a) of
             (lanes, Inl e) \<Rightarrow> (a, Inl e)
           | (lanes, Inr _) \<Rightarrow>
               (log_events [ControlAccepted (ac_next_id a)]
                  (a\<lparr>ac_controls := lanes, ac_next_id := Suc (ac_next_id a), ac_notifying := Suc (ac_notifying a)\<rparr>), Inr ()))"

text \<open>The waiting half: one poll of its select, given whether the reply channel holds a reply or was dropped.\<close>

definition await_ptz :: "bool \<Rightarrow> bool \<Rightarrow> PtzResult result option poll \<Rightarrow> PtzResult result poll" where
  "await_ptz cancelled expired receiver =
     (if cancelled then Ready (Inl (Rejected CaptureCancelled ''control operation cancelled''))
      else if expired then Ready (Inl ptz_timeout)
      else case receiver of
        Pending \<Rightarrow> Pending
      | Ready (Some r) \<Rightarrow> Ready r
      | Ready None \<Rightarrow> Ready (Inl (Backend ''actor'' ''camera actor stopped before replying to control work'')))"

definition queue_safety_stop :: "SafetyStop \<Rightarrow> CameraActor \<Rightarrow> CameraActor \<times> unit result" where
  "queue_safety_stop stop a =
     (case push_safety_stop stop (ac_controls a) of
        (lanes, Inl e) \<Rightarrow> (a, Inl e)
      | (lanes, Inr _) \<Rightarrow>
          (log_events [StopAccepted stop] (a\<lparr>ac_controls := lanes, ac_notifying := Suc (ac_notifying a)\<rparr>), Inr ()))"

definition notify_one :: "CameraActor \<Rightarrow> CameraActor" where
  "notify_one a = (if 0 < ac_notifying a then a\<lparr>ac_permit := True, ac_notifying := ac_notifying a - 1\<rparr> else a)"

definition handle_of :: "bool \<Rightarrow> CameraActor \<Rightarrow> ActorHandle" where
  "handle_of seen a = \<lparr>ah_instance = ac_instance a, ah_accepting = seen, ah_used = ac_used a, ah_maximum = ac_maximum a\<rparr>"

definition reserve_slot :: "bool \<Rightarrow> string \<Rightarrow> CameraActor \<Rightarrow> CameraActor \<times> unit result" where
  "reserve_slot seen camera a =
     (case actor_reserve camera (handle_of seen a) of
        Inl e \<Rightarrow> (a, Inl e)
      | Inr _ \<Rightarrow> (a\<lparr>ac_used := Suc (ac_used a), ac_reserved := Suc (ac_reserved a)\<rparr>, Inr ()))"

definition drop_slot :: "CameraActor \<Rightarrow> CameraActor" where
  "drop_slot a = (if 0 < ac_reserved a then a\<lparr>ac_used := ac_used a - 1, ac_reserved := ac_reserved a - 1\<rparr> else a)"

text \<open>Committing a reservation. What the queue refuses is dropped with its slot.\<close>

definition commit_slot ::
    "bool \<Rightarrow> (nat \<Rightarrow> bool) \<Rightarrow> nat \<Rightarrow> nat \<Rightarrow> nat \<Rightarrow> CaptureDescriptor \<Rightarrow> CameraActor \<Rightarrow> CameraActor \<times> nat result" where
  "commit_slot in_runtime cancelled now now' deadline d a =
     (if cd_instance d \<noteq> ac_instance a
      then (drop_slot a, Inl (Rejected NoSuchInstance ''capture descriptor was dispatched to the wrong camera actor''))
      else case try_enqueue in_runtime cancelled now now' (cd_instance d) (cd_priority d) deadline (cd_cancellation d) d (ac_captures a) of
             (q, Inl e) \<Rightarrow> (drop_slot (a\<lparr>ac_captures := q\<rparr>), Inl e)
           | (q, Inr _) \<Rightarrow> (a\<lparr>ac_captures := q, ac_reserved := ac_reserved a - 1, ac_notifying := Suc (ac_notifying a)\<rparr>, Inr (ac_used a)))"

definition expire_entry :: "(nat \<Rightarrow> bool) \<Rightarrow> nat \<Rightarrow> u64 \<Rightarrow> CameraActor \<Rightarrow> CameraActor" where
  "expire_entry cancelled now ticket a =
     (case watcher_fire cancelled now ticket (ac_captures a) of
        (q, None) \<Rightarrow> a\<lparr>ac_captures := q\<rparr>
      | (q, Some _) \<Rightarrow> a\<lparr>ac_captures := q, ac_used := ac_used a - 1\<rparr>)"

section \<open>The task\<close>

text \<open>The top of the loop.\<close>

definition loop_top :: "bool \<Rightarrow> CameraActor \<Rightarrow> CameraActor" where
  "loop_top shutdown a =
     (if shutdown then enter DrainingControls (a\<lparr>ac_accepting := False\<rparr>)
      else case pop_next (ac_controls a) of
             (lanes, None) \<Rightarrow> enter Selecting a
           | (lanes, Some (SafetyWork stop)) \<Rightarrow>
               log_events [StopSent stop] (enter (Controlling (SafetyWork stop) True) (a\<lparr>ac_controls := lanes\<rparr>))
           | (lanes, Some (Ordinary c)) \<Rightarrow>
               log_events [ControlTaken c] (enter (Controlling (Ordinary c) False) (a\<lparr>ac_controls := lanes\<rparr>)))"

text \<open>One poll of the control under way. The request of an ordinary one reaches the session when its future is first polled.\<close>

definition control_answer :: "bool \<Rightarrow> bool \<Rightarrow> nat \<Rightarrow> nat \<Rightarrow> PtzResult result poll \<Rightarrow> PtzResult result poll" where
  "control_answer shutdown cancelled now deadline answered =
     (if shutdown then Ready (Inl (Rejected ComponentStopping ''camera actor is stopping''))
      else if cancelled then Ready (Inl (Rejected CaptureCancelled ''control operation cancelled''))
      else if deadline \<le> now then Ready (Inl ptz_timeout)
      else answered)"

definition execute_control ::
    "bool \<Rightarrow> (nat \<Rightarrow> bool) \<Rightarrow> nat \<Rightarrow> PtzResult result poll \<Rightarrow> CameraActor \<Rightarrow> CameraActor" where
  "execute_control shutdown cancelled now answered a =
     (case ac_phase a of
        Controlling (SafetyWork stop) _ \<Rightarrow> (case answered of Pending \<Rightarrow> a | Ready _ \<Rightarrow> enter TopOfLoop a)
      | Controlling (Ordinary c) started \<Rightarrow>
          (let polled = \<not> shutdown \<and> \<not> cancelled (ctl_cancellation c) \<and> now < ctl_deadline c;
               a1 = (if polled \<and> \<not> started then log_events [ControlSent c] (enter (Controlling (Ordinary c) True) a) else a)
           in case control_answer shutdown (cancelled (ctl_cancellation c)) now (ctl_deadline c) answered of
                Pending \<Rightarrow> a1
              | Ready r \<Rightarrow> log_events [Replied (ctl_id c) r] (enter TopOfLoop a1))
      | _ \<Rightarrow> a)"

definition control_panics :: "CameraActor \<Rightarrow> CameraActor" where
  "control_panics a =
     (case ac_phase a of
        Controlling work _ \<Rightarrow>
          log_events (case work of SafetyWork _ \<Rightarrow> [] | Ordinary c \<Rightarrow> [Unanswered (ctl_id c)])
            (enter (Rejecting (Backend ''actor'' ''camera session panicked during control work'') ''camera actor failed'')
               (a\<lparr>ac_accepting := False\<rparr>))
      | _ \<Rightarrow> a)"

text \<open>The select: shutdown, then the wake-up, then the captures. Between the two polls a handle may queue a control and wake the actor;
  when no capture is there either, the actor waits and the select is polled again.\<close>

definition select_wakeup :: "bool \<Rightarrow> CameraActor \<Rightarrow> CameraActor" where
  "select_wakeup shutdown a =
     (if shutdown then enter DrainingControls (a\<lparr>ac_accepting := False\<rparr>)
      else if ac_permit a then enter TopOfLoop (a\<lparr>ac_permit := False\<rparr>)
      else enter PollingCaptures a)"

definition select_capture :: "(nat \<Rightarrow> bool) \<Rightarrow> nat \<Rightarrow> CameraActor \<Rightarrow> CameraActor" where
  "select_capture cancelled now a =
     (case pop_best cancelled now (ac_captures a) of
        (q, None, dropped) \<Rightarrow> enter Selecting (a\<lparr>ac_captures := q, ac_used := ac_used a - length dropped\<rparr>)
      | (q, Some e, dropped) \<Rightarrow>
          log_events [CaptureTaken (qe_payload e)] (enter (Capturing (qe_payload e) False)
            (a\<lparr>ac_captures := q, ac_used := ac_used a - length dropped - 1\<rparr>)))"

text \<open>A stop arrives while a capture runs.\<close>

definition pre_empt :: "CameraActor \<Rightarrow> CameraActor" where
  "pre_empt a =
     (case ac_phase a of
        Capturing d False \<Rightarrow>
          (case safety_stop_arrived (ac_controls a) of
             Pending \<Rightarrow> a
           | Ready _ \<Rightarrow> log_events [CancelAsked (cd_capture_id d) ''capture was pre-empted by an emergency stop''] (enter (Capturing d True) a))
      | _ \<Rightarrow> a)"

text \<open>The engine returns, or panics.\<close>

definition capture_done :: "unit result option \<Rightarrow> CameraActor \<Rightarrow> CameraActor" where
  "capture_done finished a =
     (case ac_phase a of
        Capturing d _ \<Rightarrow>
          (case finished of
             Some (Inr _) \<Rightarrow> enter TopOfLoop a
           | Some (Inl e) \<Rightarrow>
               if is_durable_store_failure e then log_events [DurableFailure (cd_capture_id d)] (enter TopOfLoop a)
               else enter (Rejecting e ''camera actor stopped after a fatal job error'') (a\<lparr>ac_accepting := False\<rparr>)
           | None \<Rightarrow>
               log_events [PanicFailure (cd_capture_id d)]
                 (enter (Rejecting (Backend ''actor'' ''camera session panic was isolated to its owning actor'')
                    ''camera actor stopped after a backend panic'') (a\<lparr>ac_accepting := False\<rparr>)))
      | _ \<Rightarrow> a)"

definition stopped_before :: camera_error where
  "stopped_before = Rejected ComponentStopping ''camera actor stopped before executing control work''"

text \<open>One turn of \<open>reject_controls\<close>: an ordinary control is answered, a safety stop is not looked at.\<close>

definition reject_control :: "CameraActor \<Rightarrow> CameraActor" where
  "reject_control a =
     (case ac_phase a of
        Rejecting e reason \<Rightarrow>
          (case pop_next (ac_controls a) of
             (lanes, None) \<Rightarrow> enter (Draining (Some e) reason) a
           | (lanes, Some (Ordinary c)) \<Rightarrow> log_events [Replied (ctl_id c) (Inl stopped_before)] (a\<lparr>ac_controls := lanes\<rparr>)
           | (lanes, Some (SafetyWork stop)) \<Rightarrow> log_events [StopDropped stop] (a\<lparr>ac_controls := lanes\<rparr>))
      | _ \<Rightarrow> a)"

text \<open>One turn of \<open>drain_controls_for_shutdown\<close>.\<close>

definition drain_control :: "CameraActor \<Rightarrow> CameraActor" where
  "drain_control a =
     (case ac_phase a of
        DrainingControls \<Rightarrow>
          (case pop_next (ac_controls a) of
             (lanes, None) \<Rightarrow> enter (Draining None ''component stopping'') a
           | (lanes, Some (Ordinary c)) \<Rightarrow> log_events [Replied (ctl_id c) (Inl stopped_before)] (a\<lparr>ac_controls := lanes\<rparr>)
           | (lanes, Some (SafetyWork stop)) \<Rightarrow> log_events [StopSent stop] (a\<lparr>ac_controls := lanes\<rparr>))
      | _ \<Rightarrow> a)"

text \<open>One turn of \<open>drain_queued_captures\<close>.\<close>

definition drain_capture :: "(nat \<Rightarrow> bool) \<Rightarrow> nat \<Rightarrow> CameraActor \<Rightarrow> CameraActor" where
  "drain_capture cancelled now a =
     (case ac_phase a of
        Draining outcome reason \<Rightarrow>
          (case pop_best cancelled now (ac_captures a) of
             (q, None, dropped) \<Rightarrow> enter (Closing outcome) (a\<lparr>ac_captures := q, ac_used := ac_used a - length dropped\<rparr>)
           | (q, Some e, dropped) \<Rightarrow>
               log_events [CancelAsked (cd_capture_id (qe_payload e)) reason]
                 (a\<lparr>ac_captures := q, ac_used := ac_used a - length dropped - 1\<rparr>))
      | _ \<Rightarrow> a)"

definition close_session :: "unit result \<Rightarrow> CameraActor \<Rightarrow> CameraActor" where
  "close_session outcome_of_close a =
     (case ac_phase a of
        Closing outcome \<Rightarrow> log_events [SessionClosed] (enter (Ended (case outcome of None \<Rightarrow> outcome_of_close | Some e \<Rightarrow> Inl e)) a)
      | _ \<Rightarrow> a)"

section \<open>Interleavings\<close>

datatype actor_op =
    APtz bool nat bool PtzRequest nat nat
  | AStop SafetyStop
  | ANotify
  | AReserve bool string
  | ADropSlot
  | ACommit bool "nat \<Rightarrow> bool" nat nat nat CaptureDescriptor
  | AExpire "nat \<Rightarrow> bool" nat u64
  | ALoop bool
  | AControl bool "nat \<Rightarrow> bool" nat "PtzResult result poll"
  | AControlPanics
  | ASelect bool
  | ATake "nat \<Rightarrow> bool" nat
  | APreEmpt
  | ACaptureDone "unit result option"
  | AReject
  | ADrainControl
  | ADrainCapture "nat \<Rightarrow> bool" nat
  | AClose "unit result"

text \<open>A commit needs an outstanding reservation; the operations of the task need the phase they belong to.\<close>

fun exec_actor :: "CameraActor \<Rightarrow> actor_op \<Rightarrow> CameraActor" where
  "exec_actor a (APtz seen now cancelled request deadline tok) = fst (queue_ptz seen now cancelled request deadline tok a)"
| "exec_actor a (AStop stop) = fst (queue_safety_stop stop a)"
| "exec_actor a ANotify = notify_one a"
| "exec_actor a (AReserve seen camera) = fst (reserve_slot seen camera a)"
| "exec_actor a ADropSlot = drop_slot a"
| "exec_actor a (ACommit rt cancelled now now' deadline d) =
     (if 0 < ac_reserved a then fst (commit_slot rt cancelled now now' deadline d a) else a)"
| "exec_actor a (AExpire cancelled now ticket) = expire_entry cancelled now ticket a"
| "exec_actor a (ALoop shutdown) = (if ac_phase a = TopOfLoop then loop_top shutdown a else a)"
| "exec_actor a (AControl shutdown cancelled now answered) = execute_control shutdown cancelled now answered a"
| "exec_actor a AControlPanics = control_panics a"
| "exec_actor a (ASelect shutdown) = (if ac_phase a = Selecting then select_wakeup shutdown a else a)"
| "exec_actor a (ATake cancelled now) = (if ac_phase a = PollingCaptures then select_capture cancelled now a else a)"
| "exec_actor a APreEmpt = pre_empt a"
| "exec_actor a (ACaptureDone finished) = capture_done finished a"
| "exec_actor a AReject = reject_control a"
| "exec_actor a ADrainControl = drain_control a"
| "exec_actor a (ADrainCapture cancelled now) = drain_capture cancelled now a"
| "exec_actor a (AClose r) = close_session r a"

lemmas actor_op_defs = queue_ptz_def queue_safety_stop_def notify_one_def reserve_slot_def drop_slot_def commit_slot_def
  expire_entry_def loop_top_def execute_control_def control_panics_def select_wakeup_def select_capture_def pre_empt_def capture_done_def
  reject_control_def drain_control_def drain_capture_def close_session_def log_events_def enter_def

section \<open>Mailbox slots\<close>

definition slots_exact :: "CameraActor \<Rightarrow> bool" where
  "slots_exact a \<longleftrightarrow> queue_inv (ac_captures a) \<and>
     queue_limits (ac_captures a) = (ac_maximum a, ac_maximum a, aging_interval_nanos) \<and>
     ac_used a = length (entries (ac_captures a)) + ac_reserved a \<and> ac_used a \<le> ac_maximum a"

lemma slots_exact_pop:
  assumes "slots_exact a" and "pop_best cancelled now (ac_captures a) = (q, sel, dropped)"
  shows "slots_exact (a\<lparr>ac_captures := q, ac_used := ac_used a - length dropped - (case sel of None \<Rightarrow> 0 | Some _ \<Rightarrow> 1)\<rparr>)"
proof -
  have p: "pop_best_admissible cancelled now (\<lambda>_. True) (ac_captures a) = (q, sel, dropped)" using assms(2) by (simp add: pop_best_def)
  have "mset (entries (ac_captures a)) = mset (entries q) + mset dropped + mset (case sel of None \<Rightarrow> [] | Some e \<Rightarrow> [e])"
    using pop_best_admissible_spec(2) [OF p] by (cases sel) (simp_all add: dropped_by_pop_def)
  from arg_cong [OF this, of size] have "length (entries (ac_captures a)) = length (entries q) + length dropped + (case sel of None \<Rightarrow> 0 | Some _ \<Rightarrow> 1)"
    by (simp split: option.splits)
  then show ?thesis
    using assms(1) pop_best_admissible_inv [of "ac_captures a" cancelled now "\<lambda>_. True"] queue_limits_pop [of cancelled now "\<lambda>_. True" "ac_captures a"] p
    by (auto simp: slots_exact_def split: option.splits)
qed

lemma slots_exact_expire: "slots_exact a \<Longrightarrow> slots_exact (expire_entry cancelled now ticket a)"
proof -
  assume inv: "slots_exact a"
  obtain q r where w: "watcher_fire cancelled now ticket (ac_captures a) = (q, r)" by fastforce
  from arg_cong [OF watcher_fire_entries [OF w], of size]
  have "length (entries (ac_captures a)) = length (entries q) + (case r of None \<Rightarrow> 0 | Some _ \<Rightarrow> 1)" by (simp split: option.splits)
  then show ?thesis
    using inv watcher_fire_inv [of "ac_captures a" cancelled now ticket] queue_limits_exec [of "ac_captures a" "OpWatcher cancelled now ticket"] w
    by (auto simp: slots_exact_def expire_entry_def split: option.splits)
qed

lemma slots_exact_drop: "slots_exact a \<Longrightarrow> slots_exact (drop_slot a)"
  by (auto simp: slots_exact_def drop_slot_def)

lemma slots_exact_reserve: "slots_exact a \<Longrightarrow> slots_exact (fst (reserve_slot seen camera a))"
  by (auto simp: slots_exact_def reserve_slot_def actor_reserve_def handle_of_def)

lemma slots_exact_commit:
  assumes "slots_exact a" and "0 < ac_reserved a"
  shows "slots_exact (fst (commit_slot rt cancelled now now' deadline d a))"
proof (cases "cd_instance d = ac_instance a")
  case True
  obtain q r where e: "try_enqueue rt cancelled now now' (ac_instance a) (cd_priority d) deadline (cd_cancellation d) d (ac_captures a) = (q, r)"
    by fastforce
  have "queue_inv q" using try_enqueue_inv [of "ac_captures a" rt cancelled now now' "ac_instance a" "cd_priority d" deadline "cd_cancellation d" d]
      assms(1) e by (simp add: slots_exact_def)
  then show ?thesis
    using assms try_enqueue_entries [OF e] True by (auto simp: commit_slot_def e slots_exact_def drop_slot_def split: sum.splits)
qed (simp add: commit_slot_def slots_exact_drop assms(1))

lemma slots_exact_other:
  "slots_exact (log_events es a) = slots_exact a" "slots_exact (enter p a) = slots_exact a"
  "slots_exact (a\<lparr>ac_accepting := b\<rparr>) = slots_exact a" "slots_exact (a\<lparr>ac_controls := lanes\<rparr>) = slots_exact a"
  "slots_exact (a\<lparr>ac_permit := b\<rparr>) = slots_exact a" "slots_exact (a\<lparr>ac_notifying := n\<rparr>) = slots_exact a"
  "slots_exact (a\<lparr>ac_next_id := n\<rparr>) = slots_exact a"
  by (simp_all add: slots_exact_def log_events_def enter_def)

lemma slots_exact_step: "slots_exact a \<Longrightarrow> slots_exact (exec_actor a op)"
proof (cases op)
  case (ATake cancelled now)
  assume inv: "slots_exact a"
  show ?thesis
    using slots_exact_pop [OF inv, of cancelled now]
    by (auto simp: ATake select_capture_def slots_exact_other inv split: prod.splits option.splits)
next
  case (ADrainCapture cancelled now)
  assume inv: "slots_exact a"
  show ?thesis
    using slots_exact_pop [OF inv, of cancelled now]
    by (auto simp: ADrainCapture drain_capture_def slots_exact_other inv split: prod.splits option.splits actor_phase.splits)
qed (auto simp: slots_exact_expire slots_exact_commit slots_exact_reserve slots_exact_drop queue_ptz_def queue_safety_stop_def notify_one_def
    loop_top_def execute_control_def control_panics_def select_wakeup_def pre_empt_def capture_done_def reject_control_def
    drain_control_def close_session_def slots_exact_other Let_def
    split: prod.splits sum.splits option.splits actor_phase.splits ControlWork.splits poll.splits bool.splits)

interpretation mailbox: operation_system exec_actor slots_exact
  by unfold_locales (rule slots_exact_step)

lemma actor_new_slots: "actor_new inst m k = Inr a \<Longrightarrow> slots_exact a \<and> ac_maximum a = m"
  using queue_new_inv [of m m aging_interval_nanos] by (auto simp: actor_new_def slots_exact_def queue_new_def and_then_Inr_iff split: if_splits)

text \<open>The mailbox counter is exact after any interleaving, and a reserved slot is never refused for lack of room.\<close>

theorem mailbox_exact:
  assumes "actor_new inst m k = Inr a\<^sub>0" and "a = foldl exec_actor a\<^sub>0 ops" and "0 < ac_reserved a" and "cd_instance d = ac_instance a"
  shows "ac_used a = pending (ac_captures a) + ac_reserved a \<and> ac_used a \<le> ac_maximum a \<and>
    (\<forall>message. snd (commit_slot rt cancelled now now' deadline d a) \<noteq> Inl (queue_full message))"
proof -
  have inv: "slots_exact a" unfolding assms(2) by (rule mailbox.run_inv) (simp add: actor_new_slots [OF assms(1)])
  let ?q = "ac_captures a"
  have "camera_count c (entries ?q) \<le> length (entries ?q)" for c by (simp add: camera_count_def)
  then have "pending_for ?q c \<le> length (entries ?q)" for c
    using inv counts_ok_pending [of ?q c] by (simp add: slots_exact_def queue_inv_def)
  moreover have "length (entries ?q) < ac_maximum a" "max_global_pending ?q = ac_maximum a" "max_per_camera ?q = ac_maximum a"
    using inv assms(3) by (simp_all add: slots_exact_def queue_limits_def)
  ultimately have "(case per_camera ?q c of None \<Rightarrow> 0 | Some n \<Rightarrow> n) < max_per_camera ?q" "length (entries ?q) < max_global_pending ?q" for c
    by (auto simp: pending_for_def intro: le_less_trans)
  from this(1) [of "ac_instance a"] this(2) show ?thesis
    using inv assms(4)
    by (auto simp: slots_exact_def pending_def commit_slot_def try_enqueue_def Let_def queue_full_def cancelled_error_def timeout_error_def not_le
        leD split: option.splits)
qed

section \<open>Wake-ups and emergency stops\<close>

definition lanes_empty :: "'o ControlLanes \<Rightarrow> bool" where
  "lanes_empty lanes \<longleftrightarrow> safety_stop lanes = None \<and> ordinary lanes = []"

text \<open>An actor that waits while a control is queued has been woken, or is about to be by the handle that queued it.\<close>

definition wakes :: "CameraActor \<Rightarrow> bool" where
  "wakes a \<longleftrightarrow> (ac_phase a = Selecting \<or> ac_phase a = PollingCaptures \<longrightarrow> lanes_empty (ac_controls a) \<or> ac_permit a \<or> 0 < ac_notifying a)"

lemma pop_next_None: "pop_next lanes = (lanes', None) \<longleftrightarrow> lanes_empty lanes \<and> lanes' = lanes"
  by (auto simp: pop_next_def lanes_empty_def split: option.splits list.splits)

lemma wakes_step: "wakes a \<Longrightarrow> wakes (exec_actor a op)"
proof (cases op)
  case (ACommit rt cancelled now now' deadline d)
  assume "wakes a"
  then show ?thesis
    by (cases "try_enqueue rt cancelled now now' (ac_instance a) (cd_priority d) deadline (cd_cancellation d) d (ac_captures a)")
      (auto simp: ACommit wakes_def commit_slot_def drop_slot_def split: sum.splits)
qed (auto simp: wakes_def actor_op_defs Let_def pop_next_None
    split: prod.splits sum.splits option.splits actor_phase.splits ControlWork.splits poll.splits bool.splits if_splits)

text \<open>A stop serves another when it halts at least its axes no later.\<close>

definition serves :: "SafetyStop \<Rightarrow> SafetyStop \<Rightarrow> bool" where
  "serves s s' \<longleftrightarrow> (stop_pan s' \<longrightarrow> stop_pan s) \<and> (stop_tilt s' \<longrightarrow> stop_tilt s) \<and> (stop_zoom s' \<longrightarrow> stop_zoom s) \<and>
     stop_deadline s \<le> stop_deadline s'"

text \<open>The accepted stops that nothing sent since then serves.\<close>

definition owe :: "SafetyStop list \<Rightarrow> actor_event \<Rightarrow> SafetyStop list" where
  "owe owed e = (case e of StopAccepted s \<Rightarrow> owed @ [s] | StopSent s \<Rightarrow> filter (\<lambda>s'. \<not> serves s s') owed | _ \<Rightarrow> owed)"

definition owed_stops :: "actor_event list \<Rightarrow> SafetyStop list" where
  "owed_stops es = foldl owe [] es"

definition failed :: "CameraActor \<Rightarrow> bool" where
  "failed a \<longleftrightarrow> (case ac_phase a of Rejecting _ _ \<Rightarrow> True | Draining (Some _) _ \<Rightarrow> True | Closing (Some _) \<Rightarrow> True
     | Ended _ \<Rightarrow> True | _ \<Rightarrow> False)"

definition stops_kept :: "CameraActor \<Rightarrow> bool" where
  "stops_kept a \<longleftrightarrow> (\<forall>e \<in> set (ac_log a). \<forall>s. e \<noteq> StopDropped s) \<longrightarrow>
     (\<forall>s \<in> set (owed_stops (ac_log a)). \<exists>s'. safety_stop (ac_controls a) = Some s' \<and> serves s' s)"

lemma owed_append [simp]: "owed_stops (es @ es') = foldl owe (owed_stops es) es'"
  by (simp add: owed_stops_def)

lemma serves_refl [simp]: "serves s s"
  by (simp add: serves_def)

lemma serves_merge: "serves s s' \<Longrightarrow> serves (safety_merge s t) s'" "serves (safety_merge s t) t"
  by (auto simp: serves_def safety_merge_def)

lemma stops_kept_accept:
  assumes "stops_kept a"
  shows "stops_kept (fst (queue_safety_stop stop a))"
  using assms
  by (cases "safety_stop (ac_controls a)")
    (auto simp: stops_kept_def queue_safety_stop_def push_safety_stop_def log_events_def owe_def serves_merge ball_Un)

lemma stops_kept_step: "stops_kept a \<Longrightarrow> stops_kept (exec_actor a op)"
proof (cases op)
  case (AStop stop)
  assume "stops_kept a"
  then show ?thesis by (simp add: AStop stops_kept_accept)
next
  case (ACommit rt cancelled now now' deadline d)
  assume "stops_kept a"
  then show ?thesis
    by (cases "try_enqueue rt cancelled now now' (ac_instance a) (cd_priority d) deadline (cd_cancellation d) d (ac_captures a)")
      (auto simp: ACommit stops_kept_def commit_slot_def drop_slot_def split: sum.splits)
qed (auto simp: stops_kept_def actor_op_defs Let_def owe_def pop_next_def try_push_ordinary_def ball_Un
    split: prod.splits sum.splits option.splits list.splits actor_phase.splits ControlWork.splits poll.splits bool.splits if_splits)

text \<open>What an operation adds to the log.\<close>

definition news :: "CameraActor \<Rightarrow> actor_op \<Rightarrow> actor_event list" where
  "news a op = drop (length (ac_log a)) (ac_log (exec_actor a op))"

lemma stop_keeps_controls_waiting:
  assumes "safety_stop (ac_controls a) \<noteq> None" shows "ControlTaken c \<notin> set (news a op)"
proof (cases op)
  case (ACommit rt cancelled now now' deadline d)
  then show ?thesis
    by (cases "try_enqueue rt cancelled now now' (ac_instance a) (cd_priority d) deadline (cd_cancellation d) d (ac_captures a)")
      (auto simp: news_def commit_slot_def drop_slot_def split: sum.splits)
qed (use assms in \<open>auto simp: news_def actor_op_defs Let_def pop_next_def
    split: prod.splits sum.splits option.splits list.splits actor_phase.splits ControlWork.splits poll.splits bool.splits if_splits\<close>)

text \<open>An actor that will come to a waiting stop before it takes another capture: it is not between its two polls, and when it
  waits it has been woken.\<close>

definition stop_is_next :: "CameraActor \<Rightarrow> bool" where
  "stop_is_next a \<longleftrightarrow> safety_stop (ac_controls a) \<noteq> None \<and> ac_phase a \<noteq> PollingCaptures \<and> (ac_phase a = Selecting \<longrightarrow> ac_permit a)"

fun is_stop :: "actor_event \<Rightarrow> bool" where
  "is_stop (StopSent _) = True"
| "is_stop (StopDropped _) = True"
| "is_stop _ = False"

fun is_capture :: "actor_event \<Rightarrow> bool" where
  "is_capture (CaptureTaken _) = True"
| "is_capture _ = False"

text \<open>The captures taken before a stop is sent or dropped.\<close>

definition captures_before_stop :: "actor_event list \<Rightarrow> nat" where
  "captures_before_stop es = length (filter is_capture (takeWhile (\<lambda>e. \<not> is_stop e) es))"

lemma captures_before_stop_simps [simp]:
  "captures_before_stop [] = 0"
  "captures_before_stop (e # es) = (if is_stop e then 0 else (if is_capture e then 1 else 0) + captures_before_stop es)"
  by (simp_all add: captures_before_stop_def)

lemma captures_before_stop_append:
  "captures_before_stop (es @ es') = captures_before_stop es + (if list_ex is_stop es then 0 else captures_before_stop es')"
  by (induction es) auto

definition news_of :: "CameraActor \<Rightarrow> actor_op list \<Rightarrow> actor_event list" where
  "news_of a ops = drop (length (ac_log a)) (ac_log (foldl exec_actor a ops))"

lemma commit_quiet: "0 < ac_reserved a \<Longrightarrow> ac_log (fst (commit_slot rt cancelled now now' deadline d a)) = ac_log a"
  "ac_phase (fst (commit_slot rt cancelled now now' deadline d a)) = ac_phase a"
  "ac_permit (fst (commit_slot rt cancelled now now' deadline d a)) = ac_permit a"
  "ac_controls (fst (commit_slot rt cancelled now now' deadline d a)) = ac_controls a"
  by (auto simp: commit_slot_def drop_slot_def split: prod.splits sum.splits)

lemma log_grows: "ac_log (exec_actor a op) = ac_log a @ news a op"
proof (cases op)
  case (ACommit rt cancelled now now' deadline d)
  then show ?thesis by (simp add: news_def commit_quiet)
qed (auto simp: news_def actor_op_defs Let_def
    split: prod.splits sum.splits option.splits list.splits actor_phase.splits ControlWork.splits poll.splits bool.splits if_splits)

lemma news_of_Cons: "news_of a (op # ops) = news a op @ news_of (exec_actor a op) ops"
proof -
  have "\<exists>es. ac_log (foldl exec_actor b ops) = ac_log b @ es" for b
    by (induction ops arbitrary: b) (auto simp: log_grows, metis append_assoc log_grows)
  then obtain es where "ac_log (foldl exec_actor (exec_actor a op) ops) = ac_log (exec_actor a op) @ es" by blast
  then show ?thesis by (simp add: news_of_def log_grows)
qed

lemma stop_next_step:
  assumes "stop_is_next a"
  shows "captures_before_stop (news a op) = 0 \<and> (list_ex is_stop (news a op) \<or> stop_is_next (exec_actor a op))"
proof (cases op)
  case (ACommit rt cancelled now now' deadline d)
  then show ?thesis using assms by (simp add: news_def stop_is_next_def commit_quiet)
qed (use assms in \<open>auto simp: news_def stop_is_next_def actor_op_defs Let_def pop_next_def try_push_ordinary_def push_safety_stop_def
    split: prod.splits sum.splits option.splits list.splits actor_phase.splits ControlWork.splits poll.splits bool.splits if_splits\<close>)

lemma stop_next_run: "stop_is_next a \<Longrightarrow> captures_before_stop (news_of a ops) = 0"
proof (induction ops arbitrary: a)
  case Nil
  then show ?case by (simp add: news_of_def)
next
  case (Cons op ops)
  then show ?case using stop_next_step [OF Cons.prems, of op] by (auto simp: news_of_Cons captures_before_stop_append)
qed

text \<open>Between its two polls the actor may take one capture; then it comes to the stop.\<close>

definition stop_after_poll :: "CameraActor \<Rightarrow> bool" where
  "stop_after_poll a \<longleftrightarrow> safety_stop (ac_controls a) \<noteq> None \<and> ac_phase a = PollingCaptures \<and> ac_permit a"

lemma stop_poll_step:
  assumes "stop_after_poll a"
  shows "(stop_after_poll (exec_actor a op) \<and> captures_before_stop (news a op) = 0) \<or>
    (stop_is_next (exec_actor a op) \<and> captures_before_stop (news a op) \<le> 1)"
proof (cases op)
  case (ACommit rt cancelled now now' deadline d)
  then show ?thesis using assms by (simp add: news_def stop_after_poll_def commit_quiet)
qed (use assms in \<open>auto simp: news_def stop_after_poll_def stop_is_next_def actor_op_defs Let_def push_safety_stop_def try_push_ordinary_def
    split: prod.splits sum.splits option.splits actor_phase.splits if_splits\<close>)

lemma stop_poll_run: "stop_after_poll a \<Longrightarrow> captures_before_stop (news_of a ops) \<le> 1"
proof (induction ops arbitrary: a)
  case Nil
  then show ?case by (simp add: news_of_def)
next
  case (Cons op ops)
  then show ?case using stop_poll_step [OF Cons.prems, of op] stop_next_run [of "exec_actor a op" ops]
    by (fastforce simp: news_of_Cons captures_before_stop_append)
qed

lemma woken_stop:
  assumes "wakes a" and "safety_stop (ac_controls a) \<noteq> None" and "ac_notifying a = 0"
  shows "captures_before_stop (news_of a ops) \<le> (if ac_phase a = PollingCaptures then 1 else 0)"
proof (cases "ac_phase a = PollingCaptures")
  case True
  then have "stop_after_poll a" using assms by (auto simp: stop_after_poll_def wakes_def lanes_empty_def)
  then show ?thesis using True stop_poll_run by simp
next
  case False
  then have "stop_is_next a" using assms by (auto simp: stop_is_next_def wakes_def lanes_empty_def)
  then show ?thesis using stop_next_run by simp
qed

interpretation woken: operation_system exec_actor "\<lambda>a. wakes a \<and> stops_kept a"
  by unfold_locales (simp add: wakes_step stops_kept_step)

lemma actor_new_woken: "actor_new inst m k = Inr a \<Longrightarrow> wakes a \<and> stops_kept a"
  by (auto simp: actor_new_def wakes_def stops_kept_def owed_stops_def and_then_Inr_iff split: if_splits)

text \<open>C15: While an emergency stop waits, the actor takes no other control. Once the handle that queued the stop has woken
  it, then whatever handles and actor do from there, the actor takes no capture before it sends the stop (or fails and drops it),
  except for the one it may be about to take: when the wake-up came after the actor had looked for it and before it polled its
  captures in the same select. And whenever no stop waits, every stop that was accepted has since been sent to the session with at
  least its axes and no later deadline, unless the actor failed and dropped it.\<close>

theorem emergency_stop_first:
  assumes "actor_new inst m k = Inr a\<^sub>0" and "a = foldl exec_actor a\<^sub>0 ops"
  shows "(safety_stop (ac_controls a) \<noteq> None \<longrightarrow> ControlTaken c \<notin> set (news a op)) \<and>
    (safety_stop (ac_controls a) \<noteq> None \<and> ac_notifying a = 0 \<longrightarrow>
      captures_before_stop (news_of a later) \<le> (if ac_phase a = PollingCaptures then 1 else 0)) \<and>
    (safety_stop (ac_controls a) = None \<longrightarrow> owed_stops (ac_log a) = [] \<or> (\<exists>s. StopDropped s \<in> set (ac_log a)))"
proof -
  have "wakes a \<and> stops_kept a" unfolding assms(2) by (rule woken.run_inv) (rule actor_new_woken [OF assms(1)])
  then show ?thesis
    using stop_keeps_controls_waiting woken_stop by (fastforce simp: stops_kept_def)
qed

section \<open>Replies\<close>

definition ids_of :: "(actor_event \<Rightarrow> nat option) \<Rightarrow> CameraActor \<Rightarrow> nat multiset" where
  "ids_of f a = mset (List.map_filter f (ac_log a))"

fun accepted_id :: "actor_event \<Rightarrow> nat option" where
  "accepted_id (ControlAccepted i) = Some i"
| "accepted_id _ = None"

fun settled_id :: "actor_event \<Rightarrow> nat option" where
  "settled_id (Replied i _) = Some i"
| "settled_id (Unanswered i) = Some i"
| "settled_id _ = None"

definition current_id :: "CameraActor \<Rightarrow> nat multiset" where
  "current_id a = (case ac_phase a of Controlling (Ordinary c) _ \<Rightarrow> {#ctl_id c#} | _ \<Rightarrow> {#})"

definition controls_kept :: "CameraActor \<Rightarrow> bool" where
  "controls_kept a \<longleftrightarrow> ids_of accepted_id a = mset [0..<ac_next_id a] \<and>
     ids_of accepted_id a = ids_of settled_id a + mset (map ctl_id (ordinary (ac_controls a))) + current_id a"

lemma ids_of_append: "ac_log a' = ac_log a @ es \<Longrightarrow> ids_of f a' = ids_of f a + mset (List.map_filter f es)"
  by (simp add: ids_of_def map_filter_def)

lemma controls_kept_frame:
  assumes "controls_kept a" and "ac_next_id a' = ac_next_id a" and "ac_log a' = ac_log a @ es" and "List.map_filter accepted_id es = []"
    and "mset (List.map_filter settled_id es) + mset (map ctl_id (ordinary (ac_controls a'))) + current_id a' =
      mset (map ctl_id (ordinary (ac_controls a))) + current_id a"
  shows "controls_kept a'"
proof -
  have ids: "ids_of accepted_id a' = ids_of accepted_id a" "ids_of settled_id a' = ids_of settled_id a + mset (List.map_filter settled_id es)"
    using ids_of_append [OF assms(3)] assms(4) by simp_all
  have "ids_of settled_id a' + mset (map ctl_id (ordinary (ac_controls a'))) + current_id a' =
      ids_of settled_id a + mset (map ctl_id (ordinary (ac_controls a))) + current_id a"
    using arg_cong [OF assms(5), of "\<lambda>m. ids_of settled_id a + m"] unfolding ids by (simp only: add.assoc)
  then show ?thesis using assms(1) unfolding controls_kept_def ids(1) assms(2) by metis
qed

lemma controls_kept_accept:
  assumes "controls_kept a" shows "controls_kept (fst (queue_ptz seen now cancelled request deadline tok a))"
proof -
  let ?a = "fst (queue_ptz seen now cancelled request deadline tok a)"
  have "?a = a \<or> ac_log ?a = ac_log a @ [ControlAccepted (ac_next_id a)] \<and> ac_next_id ?a = Suc (ac_next_id a) \<and>
      map ctl_id (ordinary (ac_controls ?a)) = map ctl_id (ordinary (ac_controls a)) @ [ac_next_id a] \<and> current_id ?a = current_id a"
    by (auto simp: queue_ptz_def try_push_ordinary_def log_events_def current_id_def)
  then show ?thesis
  proof
    assume new: "ac_log ?a = ac_log a @ [ControlAccepted (ac_next_id a)] \<and> ac_next_id ?a = Suc (ac_next_id a) \<and>
      map ctl_id (ordinary (ac_controls ?a)) = map ctl_id (ordinary (ac_controls a)) @ [ac_next_id a] \<and> current_id ?a = current_id a"
    have "ids_of accepted_id ?a = ids_of accepted_id a + {#ac_next_id a#}" "ids_of settled_id ?a = ids_of settled_id a"
      using ids_of_append [of ?a a "[ControlAccepted (ac_next_id a)]"] new by (simp_all add: map_filter_simps)
    then show ?thesis using assms new by (simp add: controls_kept_def del: mset_map mset_upt) metis
  qed (simp add: assms)
qed

lemma commit_frame:
  "ac_log (fst (commit_slot rt cancelled now now' deadline d a)) = ac_log a"
  "ac_controls (fst (commit_slot rt cancelled now now' deadline d a)) = ac_controls a"
  "ac_phase (fst (commit_slot rt cancelled now now' deadline d a)) = ac_phase a"
  "ac_next_id (fst (commit_slot rt cancelled now now' deadline d a)) = ac_next_id a"
  by (auto simp: commit_slot_def drop_slot_def split: prod.splits sum.splits)

lemmas kept_simps = log_events_def enter_def current_id_def map_filter_simps
lemmas op_splits = prod.splits sum.splits option.splits list.splits actor_phase.splits ControlWork.splits poll.splits bool.splits

lemma controls_kept_step:
  assumes "controls_kept a" shows "controls_kept (exec_actor a op)"
proof (cases op)
  case (ACommit rt cancelled now now' deadline d)
  show ?thesis
    by (rule controls_kept_frame [OF assms, of _ "[]"]) (simp_all add: ACommit commit_frame current_id_def map_filter_simps)
next
  case (ALoop shutdown)
  show ?thesis
    by (rule controls_kept_frame [OF assms, of _ "news a op"])
      (auto simp: ALoop news_def loop_top_def pop_next_def kept_simps split: op_splits)
next
  case (AControl shutdown cancelled now answer)
  show ?thesis
  proof (cases "\<exists>c started. ac_phase a = Controlling (Ordinary c) started")
    case True
    then obtain c started where "ac_phase a = Controlling (Ordinary c) started" by blast
    then show ?thesis
      by (intro controls_kept_frame [OF assms, of _ "news a op"])
        (simp_all add: AControl news_def execute_control_def Let_def kept_simps split: poll.split)
  next
    case False
    then have "execute_control shutdown cancelled now answer a \<in> {a, enter TopOfLoop a}" "current_id a = {#}"
      by (auto simp: execute_control_def current_id_def split: actor_phase.split ControlWork.split poll.split)
    then show ?thesis
      by (intro controls_kept_frame [OF assms, of _ "[]"]) (auto simp: AControl kept_simps)
  qed
next
  case AReject
  show ?thesis
    by (rule controls_kept_frame [OF assms, of _ "news a op"])
      (auto simp: AReject news_def reject_control_def pop_next_def kept_simps split: op_splits)
next
  case ADrainControl
  show ?thesis
    by (rule controls_kept_frame [OF assms, of _ "news a op"])
      (auto simp: ADrainControl news_def drain_control_def pop_next_def kept_simps split: op_splits)
next
  case (AStop stop)
  show ?thesis
    by (rule controls_kept_frame [OF assms, of _ "news a op"])
      (auto simp: AStop news_def queue_safety_stop_def push_safety_stop_def kept_simps split: op_splits)
next
  case (APtz seen now cancelled request deadline tok)
  then show ?thesis using assms controls_kept_accept by simp
next
  case (ATake cancelled now)
  show ?thesis
    by (rule controls_kept_frame [OF assms, of _ "news a op"])
      (auto simp: ATake news_def select_capture_def kept_simps split: op_splits)
next
  case (ADrainCapture cancelled now)
  show ?thesis
    by (rule controls_kept_frame [OF assms, of _ "news a op"])
      (auto simp: ADrainCapture news_def drain_capture_def kept_simps split: op_splits)
qed (rule controls_kept_frame [OF assms, of _ "news a op"],
    auto simp: news_def notify_one_def reserve_slot_def drop_slot_def expire_entry_def control_panics_def select_wakeup_def pre_empt_def capture_done_def
      close_session_def kept_simps split: op_splits)+

interpretation answered: operation_system exec_actor controls_kept
  by unfold_locales (rule controls_kept_step)

lemma actor_new_kept: "actor_new inst m k = Inr a \<Longrightarrow> controls_kept a"
  by (auto simp: actor_new_def controls_kept_def ids_of_def current_id_def control_new_def map_filter_simps and_then_Inr_iff split: if_splits)

text \<open>Every ordinary control that was queued is settled at most once, by a reply or by the panic that ended the actor; one that is
  not settled is still queued or under way.\<close>

theorem control_settled_once:
  assumes "actor_new inst m k = Inr a\<^sub>0" and "a = foldl exec_actor a\<^sub>0 ops"
  shows "count (ids_of settled_id a) i \<le> 1 \<and>
    (i < ac_next_id a \<and> i \<notin># ids_of settled_id a \<longrightarrow>
       i \<in> ctl_id ` set (ordinary (ac_controls a)) \<or> (\<exists>c started. ac_phase a = Controlling (Ordinary c) started \<and> ctl_id c = i))"
proof -
  have kept: "controls_kept a" unfolding assms(2) by (rule answered.run_inv) (rule actor_new_kept [OF assms(1)])
  then have sum: "mset [0..<ac_next_id a] = ids_of settled_id a + mset (map ctl_id (ordinary (ac_controls a))) + current_id a"
    unfolding controls_kept_def by metis
  have "count (mset [0..<ac_next_id a]) i \<le> 1" by (simp add: distinct_count_atmost_1 [THEN iffD1, rule_format] del: mset_upt)
  then have "count (ids_of settled_id a) i \<le> 1" unfolding sum by simp
  moreover have "i \<in># ids_of settled_id a \<or> i \<in> ctl_id ` set (ordinary (ac_controls a)) \<or> i \<in># current_id a" if "i < ac_next_id a"
  proof -
    have "i \<in># mset [0..<ac_next_id a]" using that by simp
    then show ?thesis unfolding sum by auto
  qed
  ultimately show ?thesis
    by (auto simp: current_id_def split: actor_phase.splits ControlWork.splits)
qed

section \<open>A failing actor\<close>

definition sent_stops :: "actor_event list \<Rightarrow> actor_event list" where
  "sent_stops es = filter (\<lambda>e. \<exists>s. e = StopSent s) es"

lemma failed_step:
  assumes "failed a" shows "failed (exec_actor a op) \<and> sent_stops (ac_log (exec_actor a op)) = sent_stops (ac_log a)"
proof (cases op)
  case (ACommit rt cancelled now now' deadline d)
  then show ?thesis using assms by (simp add: failed_def commit_frame)
next
  case AReject
  then show ?thesis using assms
    by (cases "ac_phase a"; cases "safety_stop (ac_controls a)"; cases "ordinary (ac_controls a)")
      (simp_all add: failed_def reject_control_def pop_next_def sent_stops_def kept_simps split: option.splits)
next
  case (ADrainCapture cancelled now)
  then show ?thesis using assms
    by (cases "ac_phase a") (auto simp: failed_def drain_capture_def sent_stops_def kept_simps split: prod.splits option.splits)
next
  case (APtz seen now cancelled request deadline tok)
  then show ?thesis using assms by (auto simp: failed_def queue_ptz_def sent_stops_def kept_simps split: prod.splits sum.splits actor_phase.splits)
next
  case (AStop stop)
  then show ?thesis using assms by (auto simp: failed_def queue_safety_stop_def sent_stops_def kept_simps split: prod.splits sum.splits actor_phase.splits)
next
  case (AExpire cancelled now ticket)
  then show ?thesis using assms by (auto simp: failed_def expire_entry_def split: prod.splits option.splits)
next
  case (AClose r)
  then show ?thesis using assms by (auto simp: failed_def close_session_def sent_stops_def kept_simps split: actor_phase.splits option.splits)
qed (use assms in \<open>auto simp: failed_def notify_one_def reserve_slot_def drop_slot_def execute_control_def control_panics_def pre_empt_def
    capture_done_def drain_control_def split: actor_phase.splits option.splits sum.splits\<close>)

lemma failed_run: "failed a \<Longrightarrow> failed (foldl exec_actor a ops) \<and> sent_stops (ac_log (foldl exec_actor a ops)) = sent_stops (ac_log a)"
  by (induction ops arbitrary: a) (auto simp: failed_step)

text \<open>C36: When a capture ends the actor while an emergency stop waits, for instance the capture this very stop pre-empted, the
  actor takes the stop out of its lane and throws it away: whatever happens after, no stop is sent to the camera any more.\<close>

theorem failing_actor_drops_stop:
  assumes "ac_phase a = Capturing d pre_empted" and "safety_stop (ac_controls a) = Some stop" and "\<not> is_durable_store_failure e"
  shows "let a' = foldl exec_actor a (ACaptureDone (Some (Inl e)) # AReject # ops)
    in StopDropped stop \<in> set (ac_log (foldl exec_actor a [ACaptureDone (Some (Inl e)), AReject])) \<and>
       sent_stops (ac_log a') = sent_stops (ac_log a)"
proof -
  let ?a = "foldl exec_actor a [ACaptureDone (Some (Inl e)), AReject]"
  have "failed ?a" "sent_stops (ac_log ?a) = sent_stops (ac_log a)" "StopDropped stop \<in> set (ac_log ?a)"
    using assms by (simp_all add: capture_done_def reject_control_def pop_next_def failed_def sent_stops_def log_events_def enter_def)
  then show ?thesis using failed_run [of ?a ops] by simp
qed

section \<open>A concrete actor\<close>

definition sample_actor :: CameraActor where
  "sample_actor = (case actor_new ''a'' 2 4 of Inr a \<Rightarrow> a | Inl _ \<Rightarrow> undefined)"

lemma sample_actor_new: "actor_new ''a'' 2 4 = Inr sample_actor"
  by (simp add: sample_actor_def actor_new_def queue_new_def control_new_def aging_interval_nanos_def)

definition pan_stop :: SafetyStop where
  "pan_stop = \<lparr>stop_pan = True, stop_tilt = False, stop_zoom = False, stop_deadline = 90\<rparr>"

definition sample_run :: "actor_op list" where
  "sample_run = [AReserve True ''a'', ACommit True (\<lambda>_. False) 0 0 50 demo_descriptor, ANotify, ALoop False, ASelect False, ALoop False,
     ASelect False, ATake (\<lambda>_. False) 2, AStop pan_stop, ANotify, APreEmpt]"

lemmas actor_eval = sample_actor_def actor_new_def queue_new_def control_new_def aging_interval_nanos_def demo_descriptor_def actor_op_defs
  actor_reserve_def handle_of_def try_enqueue_def checked_add_def Let_def pop_best_def pop_best_admissible_def sweep.simps entry_dead_def
  best_index_def max_by_def pop_next_def push_safety_stop_def safety_stop_arrived_def has_safety_stop_def pan_stop_def

lemma sample_running:
  "ac_phase (foldl exec_actor sample_actor sample_run) = Capturing demo_descriptor True"
  "safety_stop (ac_controls (foldl exec_actor sample_actor sample_run)) = Some pan_stop"
  by (simp_all add: sample_run_def actor_eval)

text \<open>The one capture is real: a stop that is queued and announced between the two polls of a select is overtaken.\<close>

definition overtaken_run :: "actor_op list" where
  "overtaken_run = [AReserve True ''a'', ACommit True (\<lambda>_. False) 0 0 50 demo_descriptor, ANotify, ALoop False,
     ASelect False, ALoop False, ASelect False, AStop pan_stop, ANotify]"

lemma stop_announced:
  "safety_stop (ac_controls (foldl exec_actor sample_actor overtaken_run)) = Some pan_stop"
  "ac_notifying (foldl exec_actor sample_actor overtaken_run) = 0"
  by (simp_all add: overtaken_run_def actor_eval)

lemma stop_overtaken: "captures_before_stop (news (foldl exec_actor sample_actor overtaken_run) (ATake (\<lambda>_. False) 2)) = 1"
proof -
  let ?a = "foldl exec_actor sample_actor overtaken_run"
  have "ac_log ?a = [StopAccepted pan_stop]" by (simp add: overtaken_run_def actor_eval)
  moreover have "ac_log (exec_actor ?a (ATake (\<lambda>_. False) 2)) = [StopAccepted pan_stop, CaptureTaken demo_descriptor]"
    by (simp add: overtaken_run_def actor_eval)
  ultimately show ?thesis unfolding news_def by simp
qed

theorem failing_actor_drops_stop_witness:
  "StopDropped pan_stop \<in> set (ac_log (foldl exec_actor (foldl exec_actor sample_actor sample_run)
     [ACaptureDone (Some (Inl (CatalogError ''gone''))), AReject]))"
  using failing_actor_drops_stop [OF sample_running, of "CatalogError ''gone''" "[]"] by (simp add: is_durable_store_failure_def Let_def)

theorem emergency_stop_first_witness:
  "let a = foldl exec_actor sample_actor (sample_run @ [ACaptureDone (Some (Inr ())), ALoop False])
   in safety_stop (ac_controls a) = None \<and> owed_stops (ac_log a) = [] \<and> StopSent pan_stop \<in> set (ac_log a)"
proof -
  let ?a = "foldl exec_actor sample_actor (sample_run @ [ACaptureDone (Some (Inr ())), ALoop False])"
  have "safety_stop (ac_controls ?a) = None \<and> StopSent pan_stop \<in> set (ac_log ?a) \<and> (\<forall>s. StopDropped s \<notin> set (ac_log ?a))"
    by (simp add: sample_run_def actor_eval)
  then show ?thesis
    using emergency_stop_first [OF sample_actor_new refl, of "sample_run @ [ACaptureDone (Some (Inr ())), ALoop False]"]
    by (auto simp: Let_def)
qed

end
