(* ===== verification/Thumbnails.thy ===== *)
theory Thumbnails
  imports Jobs
begin

text \<open>
  The preview of a captured frame (\<open>src/thumbnail.rs\<close>): what the transport can carry, which profiles it clamps, the size of the
  preview, reading the pixels of an uncompressed frame, and the ladder of qualities. The JPEG codec and the resampling filter of
  the image library are parameters. A pixel is read as the code reads it, by index: \<open>None\<close> is an index out of range.

  Shown: a preview fits the transport and the configured edge, is never larger than the frame and keeps its aspect ratio to half a
  pixel; pixels are never read out of range and an unscaled preview is the frame byte for byte; a frame that declares more
  than its ceiling is refused before it is decoded.
\<close>

section \<open>Policy\<close>

datatype Transport = Ipc | Mqtt

definition IPC_BUDGET_BYTES :: nat where "IPC_BUDGET_BYTES = 6 * 1024"
definition MQTT_BUDGET_BYTES :: nat where "MQTT_BUDGET_BYTES = 60 * 1024"

record ThumbnailPolicy =
  tp_transport :: Transport
  tp_largest :: ThumbnailSize
  tp_budget :: nat

fun for_transport :: "Transport \<Rightarrow> ThumbnailPolicy" where
  "for_transport Ipc = \<lparr>tp_transport = Ipc, tp_largest = Small, tp_budget = IPC_BUDGET_BYTES\<rparr>"
| "for_transport Mqtt = \<lparr>tp_transport = Mqtt, tp_largest = Large, tp_budget = MQTT_BUDGET_BYTES\<rparr>"

definition effective_size :: "ThumbnailPolicy \<Rightarrow> ThumbnailSize \<Rightarrow> ThumbnailSize" where
  "effective_size p requested = (if longest_edge (tp_largest p) < longest_edge requested then tp_largest p else requested)"

definition clamps :: "ThumbnailPolicy \<Rightarrow> ThumbnailSize \<Rightarrow> bool" where
  "clamps p requested = (longest_edge (tp_largest p) < longest_edge requested)"

definition limit_reason :: "ThumbnailPolicy \<Rightarrow> string" where
  "limit_reason p =
     (case tp_transport p of
        Ipc \<Rightarrow> ''the Greengrass IPC client caps a whole message at 10,000 bytes (GG_IPC_MAX_MSG_LEN)''
      | Mqtt \<Rightarrow> ''the messaging library caps one binary value at 64 KiB'')"

record ClampNotice =
  cn_instance :: string
  cn_profiles :: "string list"
  cn_effective :: ThumbnailSize

definition clamped_profiles :: "ThumbnailPolicy \<Rightarrow> CameraConfig \<Rightarrow> string list" where
  "clamped_profiles p camera = map fst (filter (\<lambda>(_, prof). case prof_thumbnail prof of None \<Rightarrow> False | Some requested \<Rightarrow> clamps p requested)
     (capture_profiles camera))"

definition clamp_notices :: "AdapterConfig \<Rightarrow> ThumbnailPolicy \<Rightarrow> ClampNotice list" where
  "clamp_notices config p = List.map_filter (\<lambda>camera.
     if clamped_profiles p camera = [] then None
     else Some \<lparr>cn_instance = cam_id camera, cn_profiles = sort (clamped_profiles p camera), cn_effective = tp_largest p\<rparr>)
     (ad_instances config)"

definition QUALITY_LADDER :: "nat list" where "QUALITY_LADDER = [80, 65, 50]"

section \<open>Pixels\<close>

text \<open>An image: its size, and its bytes row by row.\<close>

record ImageBuffer =
  ib_width :: "32 word"
  ib_height :: "32 word"
  ib_raw :: "8 word list"

text \<open>A view of a frame: its size, and its pixels.\<close>

record view =
  vw_width :: "32 word"
  vw_height :: "32 word"
  vw_pixel :: "nat \<Rightarrow> nat \<Rightarrow> 8 word list option"

datatype Pixels = Gray ImageBuffer | Color ImageBuffer

fun buffer_of :: "Pixels \<Rightarrow> ImageBuffer" where
  "buffer_of (Gray b) = b"
| "buffer_of (Color b) = b"

record image_env =
  im_header :: "8 word list \<Rightarrow> string + u64"
  im_decode :: "8 word list \<Rightarrow> string + Pixels"
  im_resize :: "view \<Rightarrow> 32 word \<Rightarrow> 32 word \<Rightarrow> ImageBuffer"
  im_encode :: "Pixels \<Rightarrow> nat \<Rightarrow> string + 8 word list"
  im_binary :: "8 word list \<Rightarrow> string + json"

definition nth_opt :: "'a list \<Rightarrow> nat \<Rightarrow> 'a option" where
  "nth_opt xs i = (if i < length xs then Some (xs ! i) else None)"

definition read_channels :: "'a list \<Rightarrow> nat list \<Rightarrow> 'a list option" where
  "read_channels bytes is = those (map (nth_opt bytes) is)"

definition declared_len :: "CaptureFrame \<Rightarrow> u64 \<Rightarrow> string + unit" where
  "declared_len frame maximum =
     (case uncompressed_len (cf_pixel_format frame) (cf_width frame) (cf_height frame) of
        None \<Rightarrow> Inl ''frame dimensions overflow the byte-count domain''
      | Some expected \<Rightarrow>
          if unat expected \<noteq> length (cf_bytes frame)
          then Inl (''frame declares '' @ show_nat (unat (cf_width frame)) @ ''x'' @ show_nat (unat (cf_height frame)) @
                 '' but carries '' @ show_nat (length (cf_bytes frame)) @ '' bytes, not '' @ show_nat (unat expected))
          else if maximum < expected
          then Inl (''frame is '' @ show_nat (unat expected) @ '' bytes, over the capture's '' @ show_nat (unat maximum) @
                 ''-byte frame ceiling'')
          else Inr ())"

text \<open>The three views differ in the bytes of a pixel.\<close>

fun pixel_offsets :: "PixelFormat \<Rightarrow> nat \<Rightarrow> nat list" where
  "pixel_offsets Mono8 i = [i]"
| "pixel_offsets Rgb8 i = [i * 3, i * 3 + 1, i * 3 + 2]"
| "pixel_offsets Bgr8 i = [i * 3 + 2, i * 3 + 1, i * 3]"
| "pixel_offsets Px_Jpeg i = []"

definition frame_view :: "CaptureFrame \<Rightarrow> u64 \<Rightarrow> string + view" where
  "frame_view frame maximum =
     (case declared_len frame maximum of
        Inl e \<Rightarrow> Inl e
      | Inr _ \<Rightarrow> Inr \<lparr>vw_width = cf_width frame, vw_height = cf_height frame,
          vw_pixel = (\<lambda>x y. read_channels (cf_bytes frame) (pixel_offsets (cf_pixel_format frame) (y * unat (cf_width frame) + x)))\<rparr>)"

definition buffer_view :: "nat \<Rightarrow> ImageBuffer \<Rightarrow> view" where
  "buffer_view channels b = \<lparr>vw_width = ib_width b, vw_height = ib_height b,
     vw_pixel = (\<lambda>x y. let i = y * unat (ib_width b) + x in read_channels (ib_raw b) (map (\<lambda>k. i * channels + k) [0..<channels]))\<rparr>"

definition target :: "32 word \<Rightarrow> 32 word \<Rightarrow> 32 word \<Rightarrow> 32 word \<times> 32 word" where
  "target width height bound =
     (let longest = max width height;
          scaled = (\<lambda>value :: 32 word. let numerator = (ucast value :: u64) * ucast bound + ucast longest div 2;
                                          v = ucast (numerator div ucast longest) :: 32 word
                                      in max v 1)
      in if longest \<le> bound then (width, height)
         else if height \<le> width then (bound, scaled height) else (scaled width, bound))"

definition copy_pixels :: "view \<Rightarrow> 8 word list option" where
  "copy_pixels v = map_option concat (those (concat (map (\<lambda>y. map (\<lambda>x. vw_pixel v x y) [0..<unat (vw_width v)]) [0..<unat (vw_height v)])))"

definition scale :: "image_env \<Rightarrow> view \<Rightarrow> 32 word \<Rightarrow> 32 word \<Rightarrow> ImageBuffer option" where
  "scale M v width height =
     (if (vw_width v, vw_height v) = (width, height)
      then map_option (\<lambda>raw. \<lparr>ib_width = width, ib_height = height, ib_raw = raw\<rparr>) (copy_pixels v)
      else Some (im_resize M v width height))"

text \<open>\<open>None\<close> is a pixel read out of range.\<close>

definition decode :: "image_env \<Rightarrow> CaptureFrame \<Rightarrow> 32 word \<Rightarrow> u64 \<Rightarrow> (string + Pixels) option" where
  "decode M frame bound maximum =
     (if cf_width frame = 0 \<or> cf_height frame = 0 then Some (Inl ''frame has no dimensions'')
      else case target (cf_width frame) (cf_height frame) bound of (width, height) \<Rightarrow>
        (case cf_pixel_format frame of
           Px_Jpeg \<Rightarrow>
             (case im_header M (cf_bytes frame) of
                Inl e \<Rightarrow> Some (Inl (''declared JPEG is not decodable: '' @ e))
              | Inr decoded_bytes \<Rightarrow>
                  if maximum < decoded_bytes
                  then Some (Inl (''declared JPEG would decode to '' @ show_nat (unat decoded_bytes) @ '' bytes, over the capture's '' @
                         show_nat (unat maximum) @ ''-byte frame ceiling''))
                  else case im_decode M (cf_bytes frame) of
                         Inl e \<Rightarrow> Some (Inl (''declared JPEG could not be decoded: '' @ e))
                       | Inr (Gray b) \<Rightarrow> map_option (Inr \<circ> Gray) (scale M (buffer_view 1 b) width height)
                       | Inr (Color b) \<Rightarrow> map_option (Inr \<circ> Color) (scale M (buffer_view 3 b) width height))
         | fmt \<Rightarrow>
             (case frame_view frame maximum of
                Inl e \<Rightarrow> Some (Inl e)
              | Inr v \<Rightarrow> map_option (Inr \<circ> (if fmt = Mono8 then Gray else Color)) (scale M v width height))))"

definition declared_decode_bytes :: "image_env \<Rightarrow> CaptureFrame \<Rightarrow> u64 option" where
  "declared_decode_bytes M frame =
     (if cf_pixel_format frame \<noteq> Px_Jpeg then None
      else case im_header M (cf_bytes frame) of Inl _ \<Rightarrow> None | Inr n \<Rightarrow> Some n)"

definition encode_preview :: "image_env \<Rightarrow> Pixels \<Rightarrow> nat \<Rightarrow> string + 8 word list" where
  "encode_preview M pixels quality =
     (case im_encode M pixels quality of Inl e \<Rightarrow> Inl (''thumbnail JPEG encoding failed: '' @ e) | Inr encoded \<Rightarrow> Inr encoded)"

fun climb :: "image_env \<Rightarrow> Pixels \<Rightarrow> nat \<Rightarrow> nat \<Rightarrow> nat list \<Rightarrow> ThumbnailOutcome" where
  "climb M pixels budget smallest [] = ThumbnailDropped smallest"
| "climb M pixels budget smallest (quality # rest) =
     (case encode_preview M pixels quality of
        Inl reason \<Rightarrow> ThumbnailFailed reason
      | Inr encoded \<Rightarrow>
          if length encoded \<le> budget
          then (case new_thumbnail (im_binary M) (ib_width (buffer_of pixels)) (ib_height (buffer_of pixels)) encoded of
                  Inl e \<Rightarrow> ThumbnailFailed (camera_error_display e) | Inr th \<Rightarrow> Rendered th)
          else climb M pixels budget (min smallest (length encoded)) rest)"

definition usize_max :: nat where "usize_max = 2 ^ 64 - 1"

definition render :: "image_env \<Rightarrow> CaptureFrame \<Rightarrow> ThumbnailSize \<Rightarrow> ThumbnailPolicy \<Rightarrow> u64 \<Rightarrow> ThumbnailOutcome option" where
  "render M frame requested p maximum =
     map_option (\<lambda>res. case res of Inl reason \<Rightarrow> ThumbnailFailed reason
         | Inr pixels \<Rightarrow> climb M pixels (tp_budget p) usize_max QUALITY_LADDER)
       (decode M frame (of_nat (longest_edge (effective_size p requested))) maximum)"

section \<open>The size of a preview\<close>

lemma scaled_no_wrap:
  fixes edge bound longest :: "32 word"
  assumes "edge \<le> longest" and "bound < longest"
  shows "unat (ucast (((ucast edge :: u64) * ucast bound + ucast longest div 2) div ucast longest) :: 32 word) =
    (unat edge * unat bound + unat longest div 2) div unat longest"
proof -
  let ?n = "unat edge * unat bound + unat longest div 2"
  have pos: "0 < unat longest" using assms(2) by (metis gr_implies_not0 unat_gt_0 word_gt_0 gr0I unat_eq_zero word_less_nat_alt)
  have le: "unat edge \<le> unat longest" "unat bound < unat longest" using assms by (simp_all add: word_le_nat_alt word_less_nat_alt)
  have lt: "unat longest < 2 ^ 32" using unsigned_less [of longest] by simp
  have "?n \<le> unat longest * unat bound + unat longest div 2" using le(1) by simp
  also have "\<dots> \<le> unat longest * unat bound + unat longest" by simp
  also have "\<dots> = unat longest * Suc (unat bound)" by simp
  also have "\<dots> \<le> unat longest * unat longest" using le(2) by (intro mult_le_mono2) simp
  finally have n: "?n \<le> unat longest * unat longest" .
  have "unat longest * unat longest < 2 ^ 32 * 2 ^ 32" using lt by (intro mult_strict_mono) simp_all
  then have n64: "?n < 2 ^ 64" using n by simp
  have "unat ((ucast edge :: u64) * ucast bound + ucast longest div 2) = ?n"
    using n64 by (simp add: unat_word_ariths unat_div)
  moreover have "?n div unat longest \<le> unat longest" using n pos by (metis div_le_mono nonzero_mult_div_cancel_left not_gr_zero)
  then have "?n div unat longest < 2 ^ 32" using lt by linarith
  ultimately show ?thesis by (simp add: unsigned_ucast_eq unat_div take_bit_nat_eq_self)
qed

lemma div_nearest:
  fixes a b :: nat assumes "0 < b"
  shows "2 * (a div b) * b \<le> 2 * a" and "2 * ((a + b div 2) div b) * b \<le> 2 * a + b" and "2 * a \<le> 2 * ((a + b div 2) div b) * b + b"
proof -
  have "(a + b div 2) div b * b + (a + b div 2) mod b = a + b div 2" by simp
  moreover have "(a + b div 2) mod b < b" using assms by simp
  moreover have "2 * (b div 2) \<le> b" "b \<le> 2 * (b div 2) + 1" by simp_all
  ultimately show "2 * ((a + b div 2) div b) * b \<le> 2 * a + b" "2 * a \<le> 2 * ((a + b div 2) div b) * b + b" by linarith+
qed simp

text \<open>The scaled edge: between one pixel and the bound, no longer than the edge itself, and the exact ratio to half a pixel.\<close>

lemma scaled_edge:
  fixes edge bound longest :: "32 word"
  defines "v \<equiv> ucast (((ucast edge :: u64) * ucast bound + ucast longest div 2) div ucast longest) :: 32 word"
  assumes "edge \<le> longest" and "bound < longest" and "edge \<noteq> 0" and "bound \<noteq> 0"
  shows "1 \<le> unat (max v 1)" and "unat (max v 1) \<le> unat bound" and "unat (max v 1) \<le> unat edge"
    and "2 * (unat edge * unat bound) \<le> 2 * unat (max v 1) * unat longest + unat longest"
    and "v = 0 \<or> 2 * unat (max v 1) * unat longest \<le> 2 * (unat edge * unat bound) + unat longest"
proof -
  let ?e = "unat edge" and ?b = "unat bound" and ?l = "unat longest"
  have v: "unat v = (?e * ?b + ?l div 2) div ?l" unfolding v_def by (rule scaled_no_wrap [OF assms(2,3)])
  have le: "?e \<le> ?l" "?b < ?l" "0 < ?e" "0 < ?b"
    using assms(2-5) by (simp_all add: word_le_nat_alt word_less_nat_alt unat_gt_0)
  have m: "unat (max v 1) = max (unat v) 1" by (simp add: max_def word_le_nat_alt)
  have pos: "0 < ?l" using le by linarith
  have half: "?l div 2 < ?l" using pos by simp
  have "?e * ?b + ?l div 2 < ?l * ?b + ?l" using le(1) half by (intro add_le_less_mono mult_le_mono1)
  then have "?e * ?b + ?l div 2 < Suc ?b * ?l" by (simp add: algebra_simps)
  then have vb: "unat v \<le> ?b" unfolding v using pos by (simp add: less_mult_imp_div_less less_Suc_eq_le [symmetric])
  have "?e * ?b + ?l div 2 < ?e * ?l + ?l" using le(2) half by (intro add_le_less_mono mult_le_mono2) simp_all
  then have "?e * ?b + ?l div 2 < Suc ?e * ?l" by (simp add: algebra_simps)
  then have ve: "unat v \<le> ?e" unfolding v using pos by (simp add: less_mult_imp_div_less less_Suc_eq_le [symmetric])
  show "1 \<le> unat (max v 1)" "unat (max v 1) \<le> ?b" "unat (max v 1) \<le> ?e" using vb ve le by (simp_all add: m)
  note near = div_nearest(2,3) [OF pos, of "?e * ?b"]
  have "2 * unat v * ?l \<le> 2 * unat (max v 1) * ?l" by (simp add: m)
  then show "2 * (?e * ?b) \<le> 2 * unat (max v 1) * ?l + ?l" using near(2) unfolding v by linarith
  show "v = 0 \<or> 2 * unat (max v 1) * ?l \<le> 2 * (?e * ?b) + ?l"
  proof (cases "v = 0")
    case False
    then have "0 < unat v" by (simp add: unat_gt_0)
    then have "max (unat v) 1 = unat v" by simp
    then show ?thesis using near(1) unfolding m v by simp
  qed simp
qed

lemma preview_size_lemma:
  assumes "width \<noteq> 0" and "height \<noteq> 0" and "bound \<noteq> 0" and "target width height bound = (w, h)"
  shows "1 \<le> unat w \<and> 1 \<le> unat h \<and> unat w \<le> unat width \<and> unat h \<le> unat height \<and>
    (if max width height \<le> bound then w = width \<and> h = height
     else max w h = bound \<and>
       2 * (unat width * unat bound) \<le> 2 * unat w * unat (max width height) + unat (max width height) \<and>
       2 * (unat height * unat bound) \<le> 2 * unat h * unat (max width height) + unat (max width height) \<and>
       (unat w = 1 \<or> 2 * unat w * unat (max width height) \<le> 2 * (unat width * unat bound) + unat (max width height)) \<and>
       (unat h = 1 \<or> 2 * unat h * unat (max width height) \<le> 2 * (unat height * unat bound) + unat (max width height)))"
proof (cases "max width height \<le> bound")
  case True
  then show ?thesis using assms by (auto simp: target_def Let_def Suc_le_eq unat_gt_0)
next
  case False
  then have lt: "bound < max width height" by (rule not_le_imp_less)
  have edges: "width \<le> max width height" "height \<le> max width height" by simp_all
  note sw = scaled_edge [OF edges(1) lt assms(1,3)] and sh = scaled_edge [OF edges(2) lt assms(2,3)]
  show ?thesis
  proof (cases "height \<le> width")
    case True
    let ?v = "ucast (((ucast height :: u64) * ucast bound + ucast width div 2) div ucast width) :: 32 word"
    have "w = bound" "h = max ?v 1" "max width height = width"
      using assms(4) False True by (auto simp: target_def Let_def max_def split: if_splits)
    note v = this
    have "1 \<le> unat h" "unat h \<le> unat bound" "unat h \<le> unat height"
        "2 * (unat height * unat bound) \<le> 2 * unat h * unat width + unat width"
        "unat h = 1 \<or> 2 * unat h * unat width \<le> 2 * (unat height * unat bound) + unat width"
      using sh unfolding v(3) v(2) by auto
    moreover have "unat bound < unat width" "0 < unat bound" using lt assms(3) by (simp_all add: v(3) word_less_nat_alt unat_gt_0)
    moreover have "max bound h = bound" using \<open>unat h \<le> unat bound\<close> by (simp add: max.absorb1 word_le_nat_alt)
    ultimately show ?thesis using False unfolding v(1) v(3) by simp
  next
    case wide: False
    let ?v = "ucast (((ucast width :: u64) * ucast bound + ucast height div 2) div ucast height) :: 32 word"
    have "h = bound" "w = max ?v 1" "max width height = height"
      using assms(4) False wide by (auto simp: target_def Let_def max_def split: if_splits)
    note v = this
    have "1 \<le> unat w" "unat w \<le> unat bound" "unat w \<le> unat width"
        "2 * (unat width * unat bound) \<le> 2 * unat w * unat height + unat height"
        "unat w = 1 \<or> 2 * unat w * unat height \<le> 2 * (unat width * unat bound) + unat height"
      using sw unfolding v(3) v(2) by auto
    moreover have "unat bound < unat height" "0 < unat bound" using lt assms(3) by (simp_all add: v(3) word_less_nat_alt unat_gt_0)
    moreover have "max w bound = bound" using \<open>unat w \<le> unat bound\<close> by (simp add: max.absorb2 word_le_nat_alt)
    ultimately show ?thesis using False unfolding v(1) v(3) by simp
  qed
qed

lemma preview_within:
  assumes "width \<noteq> 0" and "height \<noteq> 0" and "bound \<noteq> 0" and "target width height bound = (w, h)"
  shows "1 \<le> unat w \<and> 1 \<le> unat h \<and> unat w \<le> unat width \<and> unat h \<le> unat height" and "max w h \<le> bound"
proof -
  note size = preview_size_lemma [OF assms]
  from size show "1 \<le> unat w \<and> 1 \<le> unat h \<and> unat w \<le> unat width \<and> unat h \<le> unat height" by blast
  from size show "max w h \<le> bound" by (cases "max width height \<le> bound") (metis order_refl)+
qed

section \<open>Reading pixels\<close>

lemma frame_view_length:
  assumes "frame_view frame maximum = Inr v"
  shows "length (cf_bytes frame) = unat (cf_width frame) * unat (cf_height frame) * channels_of (cf_pixel_format frame)"
    and "cf_pixel_format frame \<noteq> Px_Jpeg" and "length (cf_bytes frame) \<le> unat maximum"
proof -
  obtain n where "uncompressed_len (cf_pixel_format frame) (cf_width frame) (cf_height frame) = Some n"
      "unat n = length (cf_bytes frame)" "unat n \<le> unat maximum"
    using assms by (auto simp: frame_view_def declared_len_def word_less_nat_alt not_less split: sum.splits option.splits if_splits)
  then show "length (cf_bytes frame) = unat (cf_width frame) * unat (cf_height frame) * channels_of (cf_pixel_format frame)"
    "cf_pixel_format frame \<noteq> Px_Jpeg" "length (cf_bytes frame) \<le> unat maximum"
    using uncompressed_len_exact [of "cf_pixel_format frame" "cf_width frame" "cf_height frame" n] by auto
qed

lemma pixel_index:
  fixes x y w h :: nat assumes "x < w" and "y < h" shows "y * w + x < w * h"
proof -
  have "y * w + x < Suc y * w" using assms(1) by simp
  also have "\<dots> \<le> h * w" using assms(2) by (intro mult_le_mono1) simp
  finally show ?thesis by (simp add: mult.commute)
qed

lemma those_Some: "(\<And>x. x \<in> set xs \<Longrightarrow> f x = Some (g x)) \<Longrightarrow> those (map f xs) = Some (map g xs)"
  by (induction xs) auto

lemma those_all: "(\<And>x. x \<in> set xs \<Longrightarrow> x \<noteq> None) \<Longrightarrow> \<exists>ys. those xs = Some ys"
proof (induction xs)
  case (Cons x xs)
  obtain y where "x = Some y" using Cons.prems [of x] by auto
  moreover obtain ys where "those xs = Some ys" using Cons by auto
  ultimately show ?case by simp
qed simp

lemma read_channels_in_range: "(\<And>i. i \<in> set is \<Longrightarrow> i < length bytes) \<Longrightarrow> read_channels bytes is = Some (map ((!) bytes) is)"
  unfolding read_channels_def by (rule those_Some) (simp add: nth_opt_def)

lemma in_set_mapE: "i \<in> set (map f [0..<n]) \<Longrightarrow> (\<And>k. i = f k \<Longrightarrow> k < n \<Longrightarrow> P) \<Longrightarrow> P"
  by auto

lemma view_in_range:
  assumes "frame_view frame maximum = Inr v" and "x < unat (vw_width v)" and "y < unat (vw_height v)"
  shows "vw_pixel v x y = Some (map ((!) (cf_bytes frame)) (pixel_offsets (cf_pixel_format frame) (y * unat (cf_width frame) + x)))"
proof -
  have v: "vw_width v = cf_width frame" "vw_height v = cf_height frame"
      "vw_pixel v x y = read_channels (cf_bytes frame) (pixel_offsets (cf_pixel_format frame) (y * unat (cf_width frame) + x))"
    using assms(1) by (auto simp: frame_view_def split: sum.splits)
  have "y * unat (cf_width frame) + x < unat (cf_width frame) * unat (cf_height frame)"
    using assms(2,3) unfolding v by (rule pixel_index)
  then show ?thesis
    unfolding v(3) using frame_view_length [OF assms(1)]
    by (intro read_channels_in_range) (cases "cf_pixel_format frame"; auto simp: channels_of_def)
qed

lemma rows_enumerate: "concat (map (\<lambda>y. map (\<lambda>x. f (y * w + x)) [0..<w]) [0..<h]) = map f [0..<h * w]"
proof (induction h)
  case (Suc h)
  have "map (\<lambda>x. f (h * w + x)) [0..<w] = map f [h * w..<h * w + w]"
    by (simp add: map_add_upt [symmetric] comp_def add.commute del: map_add_upt)
  then show ?case using Suc upt_add_eq_append [of 0 "h * w" w] by (simp add: add.commute)
qed simp

lemma copy_frame:
  assumes "frame_view frame maximum = Inr v"
  shows "copy_pixels v = Some (concat (map (\<lambda>i. map ((!) (cf_bytes frame)) (pixel_offsets (cf_pixel_format frame) i))
    [0..<unat (cf_height frame) * unat (cf_width frame)]))"
proof -
  let ?f = "\<lambda>i. map ((!) (cf_bytes frame)) (pixel_offsets (cf_pixel_format frame) i)"
  have v: "vw_width v = cf_width frame" "vw_height v = cf_height frame" using assms by (auto simp: frame_view_def split: sum.splits)
  have "concat (map (\<lambda>y. map (\<lambda>x. vw_pixel v x y) [0..<unat (vw_width v)]) [0..<unat (vw_height v)]) =
      concat (map (\<lambda>y. map (\<lambda>x. Some (?f (y * unat (cf_width frame) + x))) [0..<unat (cf_width frame)]) [0..<unat (cf_height frame)])"
    unfolding v by (intro arg_cong [of _ _ concat] map_cong refl view_in_range [OF assms]) (simp_all add: v)
  also have "\<dots> = map (\<lambda>i. Some (?f i)) [0..<unat (cf_height frame) * unat (cf_width frame)]"
    by (rule rows_enumerate)
  finally show ?thesis by (simp add: copy_pixels_def those_Some [where g = ?f])
qed

lemma triples: "concat (map (\<lambda>i. [xs ! (i * 3), xs ! (i * 3 + 1), xs ! (i * 3 + 2)]) [0..<n]) = take (n * 3) xs" if "n * 3 \<le> length xs"
  using that
proof (induction n)
  case (Suc n)
  then have "take (Suc n * 3) xs = take (n * 3) xs @ [xs ! (n * 3), xs ! (n * 3 + 1), xs ! (n * 3 + 2)]"
    by (simp add: take_Suc_conv_app_nth numeral_3_eq_3)
  then show ?case using Suc by simp
qed simp

text \<open>An uncompressed frame is never read out of range, and a preview of a frame that need not be scaled down is the frame
  itself, byte for byte, with red and blue exchanged for a BGR frame.\<close>

theorem unscaled_preview_exact:
  assumes "decode M frame bound maximum = Some (Inr pixels)" and "cf_pixel_format frame \<in> {Mono8, Rgb8}"
    and "max (cf_width frame) (cf_height frame) \<le> bound"
  shows "ib_raw (buffer_of pixels) = cf_bytes frame \<and> ib_width (buffer_of pixels) = cf_width frame \<and>
    ib_height (buffer_of pixels) = cf_height frame"
proof -
  have "target (cf_width frame) (cf_height frame) bound = (cf_width frame, cf_height frame)" using assms(3) by (simp add: target_def)
  then obtain v b where v: "frame_view frame maximum = Inr v" and b: "scale M v (cf_width frame) (cf_height frame) = Some b"
      and p: "buffer_of pixels = b"
    using assms(1,2) by (auto simp: decode_def split: if_splits sum.splits)
  have size: "vw_width v = cf_width frame" "vw_height v = cf_height frame" using v by (auto simp: frame_view_def split: sum.splits)
  let ?n = "unat (cf_height frame) * unat (cf_width frame)"
  note len = frame_view_length [OF v]
  have "concat (map (\<lambda>i. map ((!) (cf_bytes frame)) (pixel_offsets (cf_pixel_format frame) i)) [0..<?n]) = cf_bytes frame"
  proof (cases "cf_pixel_format frame = Mono8")
    case True
    then have "length (cf_bytes frame) = ?n" using len(1) by (simp add: channels_of_def mult.commute)
    then show ?thesis using True map_nth [of "cf_bytes frame"] by simp
  next
    case False
    then have rgb: "cf_pixel_format frame = Rgb8" using assms(2) by simp
    then have "length (cf_bytes frame) = ?n * 3" using len(1) by (simp add: channels_of_def mult.commute)
    then show ?thesis using rgb triples [of ?n "cf_bytes frame"] by simp
  qed
  then show ?thesis using b copy_frame [OF v] by (auto simp: scale_def size p)
qed

text \<open>Reading never goes out of range: rendering always comes to an outcome.\<close>

theorem render_returns:
  assumes "\<And>bytes b. im_decode M bytes = Inr (Gray b) \<Longrightarrow> length (ib_raw b) = unat (ib_width b) * unat (ib_height b)"
    and "\<And>bytes b. im_decode M bytes = Inr (Color b) \<Longrightarrow> length (ib_raw b) = unat (ib_width b) * unat (ib_height b) * 3"
  shows "\<exists>outcome. render M frame requested p maximum = Some outcome"
proof -
  have view: "\<exists>b. scale M (buffer_view c b') w h = Some b" if "length (ib_raw b') = unat (ib_width b') * unat (ib_height b') * c" for b' c w h
  proof -
    have "vw_pixel (buffer_view c b') x y = Some (map ((!) (ib_raw b')) (map (\<lambda>k. (y * unat (ib_width b') + x) * c + k) [0..<c]))"
      if "x < unat (ib_width b')" "y < unat (ib_height b')" for x y
    proof -
      let ?i = "y * unat (ib_width b') + x"
      have "?i * c + k < length (ib_raw b')" if "k < c" for k
      proof -
        have "?i * c + k < Suc ?i * c" using that by simp
        also have "\<dots> \<le> unat (ib_width b') * unat (ib_height b') * c"
          using pixel_index [OF \<open>x < _\<close> \<open>y < _\<close>] by (intro mult_le_mono1) simp
        finally show ?thesis using \<open>length (ib_raw b') = _\<close> by simp
      qed
      then have "read_channels (ib_raw b') (map (\<lambda>k. ?i * c + k) [0..<c]) = Some (map ((!) (ib_raw b')) (map (\<lambda>k. ?i * c + k) [0..<c]))"
        by (intro read_channels_in_range) (elim in_set_mapE, simp)
      then show ?thesis by (simp only: buffer_view_def Let_def view.simps)
    qed
    then have "\<exists>raw. copy_pixels (buffer_view c b') = Some raw"
      using those_all [of "concat (map (\<lambda>y. map (\<lambda>x. vw_pixel (buffer_view c b') x y) [0..<unat (ib_width b')]) [0..<unat (ib_height b')])"]
      unfolding copy_pixels_def by (auto simp: buffer_view_def)
    then show ?thesis by (auto simp: scale_def)
  qed
  show ?thesis
    using view [of _ 1] view [of _ 3] assms copy_frame [of frame maximum]
    by (auto simp: render_def decode_def scale_def split: prod.splits sum.splits PixelFormat.splits Pixels.splits)
qed

section \<open>What is announced\<close>

lemma climb_rendered:
  assumes "climb M pixels budget smallest qs = Rendered th"
  shows "\<exists>i encoded. i < length qs \<and> encode_preview M pixels (qs ! i) = Inr encoded \<and> length encoded \<le> budget \<and>
    th_width th = ib_width (buffer_of pixels) \<and> th_height th = ib_height (buffer_of pixels) \<and>
    th_bytes th = of_nat (length encoded) \<and> im_binary M encoded = Inr (th_data th) \<and>
    (\<forall>j < i. \<exists>bigger. encode_preview M pixels (qs ! j) = Inr bigger \<and> budget < length bigger)"
  using assms
proof (induction qs arbitrary: smallest)
  case (Cons q qs)
  obtain encoded where enc: "encode_preview M pixels q = Inr encoded" using Cons.prems by (auto split: sum.splits)
  show ?case
  proof (cases "length encoded \<le> budget")
    case True
    then show ?thesis using Cons.prems enc
      by (intro exI [of _ 0] exI [of _ encoded]) (auto simp: new_thumbnail_def split: sum.splits)
  next
    case False
    then have "climb M pixels budget (min smallest (length encoded)) qs = Rendered th" using Cons.prems enc by simp
    from Cons.IH [OF this] obtain i e where i: "i < length qs" "encode_preview M pixels (qs ! i) = Inr e" "length e \<le> budget"
        "th_width th = ib_width (buffer_of pixels)" "th_height th = ib_height (buffer_of pixels)"
        "th_bytes th = of_nat (length e)" "im_binary M e = Inr (th_data th)"
        "\<forall>j < i. \<exists>bigger. encode_preview M pixels (qs ! j) = Inr bigger \<and> budget < length bigger" by blast
    have "\<exists>bigger. encode_preview M pixels ((q # qs) ! j) = Inr bigger \<and> budget < length bigger" if "j < Suc i" for j
      using that enc False i(8) by (cases j) auto
    then show ?thesis using i by (intro exI [of _ "Suc i"] exI [of _ e]) simp
  qed
qed simp

lemma scale_size:
  assumes "scale M v w h = Some b" and "\<And>v w h. ib_width (im_resize M v w h) = w \<and> ib_height (im_resize M v w h) = h"
  shows "ib_width b = w \<and> ib_height b = h"
  using assms by (auto simp: scale_def split: if_splits)

lemma decode_size:
  assumes "decode M frame bound maximum = Some (Inr pixels)"
    and "\<And>v w h. ib_width (im_resize M v w h) = w \<and> ib_height (im_resize M v w h) = h"
  shows "cf_width frame \<noteq> 0 \<and> cf_height frame \<noteq> 0 \<and>
    target (cf_width frame) (cf_height frame) bound = (ib_width (buffer_of pixels), ib_height (buffer_of pixels))"
proof -
  obtain w h where t: "target (cf_width frame) (cf_height frame) bound = (w, h)" by fastforce
  then have "cf_width frame \<noteq> 0 \<and> cf_height frame \<noteq> 0" "\<exists>v. scale M v w h = Some (buffer_of pixels)"
    using assms(1) by (auto simp: decode_def split: if_splits PixelFormat.splits sum.splits Pixels.splits)
  then show ?thesis using t scale_size [OF _ assms(2)] by auto
qed

lemma longest_edge_word: "(of_nat (longest_edge size_asked) :: 32 word) \<noteq> 0" "unat (of_nat (longest_edge size_asked) :: 32 word) = longest_edge size_asked"
  by (cases size_asked; simp)+

text \<open>C25: A rendered preview fits the transport: its bytes are within the budget, its edges within the size asked for and the largest
  the transport carries, and neither is empty or longer than that of the frame.\<close>

theorem preview_fits_transport:
  assumes "render M frame requested (for_transport transport) maximum = Some (Rendered th)"
    and "\<And>v w h. ib_width (im_resize M v w h) = w \<and> ib_height (im_resize M v w h) = h"
  shows "unat (th_bytes th) \<le> tp_budget (for_transport transport) \<and>
    unat (max (th_width th) (th_height th)) \<le> min (longest_edge requested) (longest_edge (tp_largest (for_transport transport))) \<and>
    1 \<le> unat (th_width th) \<and> unat (th_width th) \<le> unat (cf_width frame) \<and>
    1 \<le> unat (th_height th) \<and> unat (th_height th) \<le> unat (cf_height frame)"
proof -
  let ?p = "for_transport transport" and ?size = "effective_size (for_transport transport) requested"
  obtain pixels where d: "decode M frame (of_nat (longest_edge ?size)) maximum = Some (Inr pixels)"
      and c: "climb M pixels (tp_budget ?p) usize_max QUALITY_LADDER = Rendered th"
  proof -
    obtain res where "decode M frame (of_nat (longest_edge ?size)) maximum = Some res"
        "(case res of Inl reason \<Rightarrow> ThumbnailFailed reason | Inr pixels \<Rightarrow> climb M pixels (tp_budget ?p) usize_max QUALITY_LADDER) = Rendered th"
      using assms(1) by (auto simp: render_def)
    then show ?thesis using that by (cases res) auto
  qed
  obtain encoded :: "8 word list" where e: "length encoded \<le> tp_budget ?p" "th_bytes th = of_nat (length encoded)"
      "th_width th = ib_width (buffer_of pixels)" "th_height th = ib_height (buffer_of pixels)"
    using climb_rendered [OF c] by blast
  have "length encoded < 2 ^ 64" using e(1) by (cases transport) (simp_all add: IPC_BUDGET_BYTES_def MQTT_BUDGET_BYTES_def)
  then have bytes: "unat (th_bytes th) \<le> tp_budget ?p" using e(1,2) by (simp add: unat_of_nat)
  note size = decode_size [OF d assms(2)]
  have t: "target (cf_width frame) (cf_height frame) (of_nat (longest_edge ?size)) = (th_width th, th_height th)"
    using size by (simp add: e(3,4))
  have fits: "1 \<le> unat (th_width th) \<and> 1 \<le> unat (th_height th) \<and> unat (th_width th) \<le> unat (cf_width frame) \<and>
      unat (th_height th) \<le> unat (cf_height frame)"
      "max (th_width th) (th_height th) \<le> of_nat (longest_edge ?size)"
    using preview_within [OF _ _ _ t] size longest_edge_word(1) by blast+
  then have "unat (max (th_width th) (th_height th)) \<le> longest_edge ?size" by (simp only: word_le_nat_alt longest_edge_word)
  moreover have "longest_edge ?size = min (longest_edge requested) (longest_edge (tp_largest ?p))" by (simp add: effective_size_def min_def)
  ultimately show ?thesis using bytes fits(1) by simp
qed

text \<open>A frame whose header declares more than the ceiling is refused without being decoded, whatever the decoder would do.\<close>

theorem decode_bomb_refused:
  assumes "cf_pixel_format frame = Px_Jpeg" and "im_header M (cf_bytes frame) = Inr declared" and "maximum < declared"
  shows "\<exists>reason. render (M\<lparr>im_decode := any_decoder\<rparr>) frame requested p maximum = Some (ThumbnailFailed reason)"
  using assms by (auto simp: render_def decode_def split: prod.splits)

section \<open>A concrete frame\<close>

definition sample_image_env :: image_env where
  "sample_image_env = \<lparr>im_header = (\<lambda>_. Inr 0), im_decode = (\<lambda>_. Inl ''no''),
     im_resize = (\<lambda>_ w h. \<lparr>ib_width = w, ib_height = h, ib_raw = []\<rparr>), im_encode = (\<lambda>_ _. Inr [1, 2]), im_binary = (\<lambda>_. Inr JNull)\<rparr>"

definition sample_rgb :: CaptureFrame where
  "sample_rgb = \<lparr>cf_bytes = [1, 2, 3, 4, 5, 6], cf_width = 2, cf_height = 1, cf_pixel_format = Rgb8, cf_capture_mode = Simulated,
     cf_source_timestamp = None, cf_timestamp_quality = TsUnknown\<rparr>"

lemma sample_decodes:
  "decode sample_image_env sample_rgb 160 1000 = Some (Inr (Color \<lparr>ib_width = 2, ib_height = 1, ib_raw = [1, 2, 3, 4, 5, 6]\<rparr>))"
  by (simp add: decode_def sample_rgb_def target_def frame_view_def declared_len_def uncompressed_len_def checked_mul_def scale_def
      copy_pixels_def read_channels_def nth_opt_def upt_conv_Cons)

theorem unscaled_preview_exact_witness:
  "ib_raw (buffer_of (Color \<lparr>ib_width = 2, ib_height = 1, ib_raw = [1, 2, 3, 4, 5, 6]\<rparr>)) = cf_bytes sample_rgb"
  using unscaled_preview_exact [OF sample_decodes] by (simp add: sample_rgb_def)

theorem preview_fits_transport_witness:
  "render sample_image_env sample_rgb Large (for_transport Ipc) 1000 = Some (Rendered \<lparr>th_width = 2, th_height = 1, th_bytes = 2, th_data = JNull\<rparr>) \<and>
   unat (2 :: u64) \<le> tp_budget (for_transport Ipc)"
proof -
  let ?th = "\<lparr>th_width = 2, th_height = 1, th_bytes = 2, th_data = JNull\<rparr> :: Thumbnail"
  have r: "render sample_image_env sample_rgb Large (for_transport Ipc) 1000 = Some (Rendered ?th)"
    using sample_decodes
    by (simp add: render_def effective_size_def QUALITY_LADDER_def encode_preview_def sample_image_env_def new_thumbnail_def IPC_BUDGET_BYTES_def)
  moreover have "ib_width (im_resize sample_image_env v w h) = w \<and> ib_height (im_resize sample_image_env v w h) = h" for v w h
    by (simp add: sample_image_env_def)
  ultimately show ?thesis using preview_fits_transport [of sample_image_env sample_rgb Large Ipc 1000 ?th] by auto
qed

end
