(* ===== verification/Codec_Params.thy ===== *)
theory Codec_Params
  imports Camera_Error
begin

text \<open>
  Codec parameter sets of an RTSP stream (\<open>RbspBitReader\<close> and the SPS parsers of \<open>src/backend/rtsp.rs\<close>): the
  bytes of a sequence parameter set freed of emulation prevention, a reader of single bits, bit fields and Exp-Golomb numbers,
  and the picture size an H.264 or H.265 parameter set declares. A reader operation takes the reader and
  returns its value with the advanced reader, or the error that ends the parse.

  Shown, against encoders written from the syntax of the standards: what an encoder escapes and writes, the parser reads back,
  and the size it reports is the coded size less the cropping, for every parameter set whose
  size is in range. No number a stream can contain makes the arithmetic wrap, with one exception in the scaling lists.
\<close>

unbundle bit_operations_syntax

type_synonym byte = "8 word"

section \<open>Errors of the RTSP backend\<close>

definition RTSP_BACKEND :: string where "RTSP_BACKEND = ''onvif-rtsp''"

definition rtsp_backend_error :: "string \<Rightarrow> camera_error" where
  "rtsp_backend_error message = Backend RTSP_BACKEND message"

definition rtsp_security_error :: "string \<Rightarrow> camera_error" where
  "rtsp_security_error message = rtsp_backend_error (''security policy rejected RTSP data: '' @ message)"

section \<open>The bit reader\<close>

record RbspBitReader =
  rb_bytes :: "byte list"
  bit_offset :: nat

type_synonym 'a reader = "RbspBitReader \<Rightarrow> ('a \<times> RbspBitReader) result"

definition rd_then :: "'a reader \<Rightarrow> ('a \<Rightarrow> 'b reader) \<Rightarrow> 'b reader" where
  "rd_then p f = (\<lambda>r. and_then (p r) (\<lambda>(x, r'). f x r'))"

definition rd_ok :: "'a \<Rightarrow> 'a reader" where
  "rd_ok x = (\<lambda>r. Inr (x, r))"

definition rd_err :: "string \<Rightarrow> 'a reader" where
  "rd_err message = (\<lambda>_. Inl (rtsp_security_error message))"

definition rd_ok_or :: "'a option \<Rightarrow> string \<Rightarrow> 'a reader" where
  "rd_ok_or x message = (case x of None \<Rightarrow> rd_err message | Some y \<Rightarrow> rd_ok y)"

text \<open>Emulation prevention: a byte 3 after two zero bytes is dropped. The count of zero bytes is a saturating \<open>u8\<close>.\<close>

fun unescape_loop :: "nat \<Rightarrow> byte list \<Rightarrow> byte list" where
  "unescape_loop zeros [] = []"
| "unescape_loop zeros (b # bs) =
     (if 2 \<le> zeros \<and> b = 3 then unescape_loop 0 bs
      else b # unescape_loop (if b = 0 then min 255 (zeros + 1) else 0) bs)"

definition from_escaped :: "byte list \<Rightarrow> RbspBitReader result" where
  "from_escaped bytes =
     (let rbsp = unescape_loop 0 bytes in
      if rbsp = [] then Inl (rtsp_security_error ''codec parameter set is empty'')
      else Inr \<lparr>rb_bytes = rbsp, bit_offset = 0\<rparr>)"

definition read_bit :: "bool reader" where
  "read_bit r =
     (if bit_offset r div 8 < length (rb_bytes r)
      then Inr (rb_bytes r ! (bit_offset r div 8) AND push_bit (7 - bit_offset r mod 8) 1 \<noteq> 0,
        r\<lparr>bit_offset := bit_offset r + 1\<rparr>)
      else Inl (rtsp_security_error ''codec parameter set is truncated''))"

fun read_bits_loop :: "nat \<Rightarrow> u64 \<Rightarrow> u64 reader" where
  "read_bits_loop 0 v = rd_ok v"
| "read_bits_loop (Suc n) v = rd_then read_bit (\<lambda>b. read_bits_loop n (push_bit 1 v OR of_bool b))"

definition read_bits :: "nat \<Rightarrow> u64 reader" where
  "read_bits n = (if 64 < n then rd_err ''codec bit-field width is invalid'' else read_bits_loop n 0)"

function leading_zeroes :: "nat \<Rightarrow> nat reader" where
  "leading_zeroes z r =
     (case read_bit r of
        Inl e \<Rightarrow> Inl e
      | Inr (b, r') \<Rightarrow>
          if b then Inr (z, r')
          else if 31 < z + 1 then Inl (rtsp_security_error ''codec Exp-Golomb value is oversized'')
          else leading_zeroes (z + 1) r')"
  by pat_completeness auto
termination by (relation "measure (\<lambda>(z, _). 32 - z)") auto

declare leading_zeroes.simps [simp del]

definition unsigned_exp_golomb :: "(32 word) reader" where
  "unsigned_exp_golomb =
     rd_then (leading_zeroes 0) (\<lambda>z.
     rd_then (read_bits z) (\<lambda>suffix.
       let base = push_bit z 1 - 1; v = saturating_add_u64 base suffix in
       if unat v < 2 ^ 32 then rd_ok (ucast v) else rd_err ''codec Exp-Golomb value overflowed''))"

definition signed_exp_golomb :: "int reader" where
  "signed_exp_golomb =
     rd_then unsigned_exp_golomb (\<lambda>v.
       let magnitude = (unat v + 1) div 2 in
       if 2 ^ 31 - 1 < magnitude then rd_err ''signed codec value overflowed''
       else rd_ok (if even (unat v) then - int magnitude else int magnitude))"

definition skip_bits :: "nat \<Rightarrow> unit reader" where
  "skip_bits n r =
     (let end = bit_offset r + n in
      if length (rb_bytes r) * 8 < end then Inl (rtsp_security_error ''codec parameter set is truncated'')
      else Inr ((), r\<lparr>bit_offset := end\<rparr>))"

section \<open>H.264 sequence parameter sets\<close>

text \<open>The \<open>i32\<close> arithmetic of a scaling list wraps in a release build.\<close>

definition wrap_i32 :: "int \<Rightarrow> int" where
  "wrap_i32 x = signed_take_bit 31 x"

definition rem_i32 :: "int \<Rightarrow> int \<Rightarrow> int" where
  "rem_i32 x m = sgn x * (\<bar>x\<bar> mod m)"

fun skip_h264_scaling_list_loop :: "nat \<Rightarrow> int \<Rightarrow> int \<Rightarrow> unit reader" where
  "skip_h264_scaling_list_loop 0 last_scale next_scale = rd_ok ()"
| "skip_h264_scaling_list_loop (Suc n) last_scale next_scale =
     (if next_scale \<noteq> 0
      then rd_then signed_exp_golomb (\<lambda>delta.
        let following = rem_i32 (wrap_i32 (wrap_i32 (last_scale + delta) + 256)) 256 in
        skip_h264_scaling_list_loop n (if following \<noteq> 0 then following else last_scale) following)
      else skip_h264_scaling_list_loop n last_scale next_scale)"

definition skip_h264_scaling_list :: "nat \<Rightarrow> unit reader" where
  "skip_h264_scaling_list n = skip_h264_scaling_list_loop n 8 8"

fun h264_scaling_lists :: "nat list \<Rightarrow> unit reader" where
  "h264_scaling_lists [] = rd_ok ()"
| "h264_scaling_lists (i # is) =
     rd_then read_bit (\<lambda>present.
     rd_then (if present then skip_h264_scaling_list (if i < 6 then 16 else 64) else rd_ok ()) (\<lambda>_.
       h264_scaling_lists is))"

definition HIGH_PROFILES :: "byte list" where
  "HIGH_PROFILES = [100, 110, 122, 244, 44, 83, 86, 118, 128, 138, 139, 134, 135]"

definition h264_chroma_info :: "(32 word \<times> bool) reader" where
  "h264_chroma_info =
     rd_then unsigned_exp_golomb (\<lambda>chroma_format_idc.
     if 3 < chroma_format_idc then rd_err ''H.264 SPS chroma format is invalid''
     else rd_then (if chroma_format_idc = 3 then read_bit else rd_ok False) (\<lambda>separate.
     rd_then unsigned_exp_golomb (\<lambda>luma.
     if 6 < luma then rd_err ''H.264 SPS bit depth is unsupported''
     else rd_then unsigned_exp_golomb (\<lambda>chroma.
     if 6 < chroma then rd_err ''H.264 SPS bit depth is unsupported''
     else rd_then read_bit (\<lambda>_.
     rd_then read_bit (\<lambda>matrix.
     rd_then (if matrix then h264_scaling_lists [0..<if chroma_format_idc = 3 then 12 else 8] else rd_ok ()) (\<lambda>_.
       rd_ok (chroma_format_idc, separate))))))))"

fun skip_signed :: "nat \<Rightarrow> unit reader" where
  "skip_signed 0 = rd_ok ()"
| "skip_signed (Suc n) = rd_then signed_exp_golomb (\<lambda>_. skip_signed n)"

definition h264_pic_order :: "unit reader" where
  "h264_pic_order =
     rd_then unsigned_exp_golomb (\<lambda>pic_order_cnt_type.
     if pic_order_cnt_type = 0 then
       rd_then unsigned_exp_golomb (\<lambda>width.
         if 12 < width then rd_err ''H.264 SPS POC width is invalid'' else rd_ok ())
     else if pic_order_cnt_type = 1 then
       rd_then read_bit (\<lambda>_.
       rd_then signed_exp_golomb (\<lambda>_.
       rd_then signed_exp_golomb (\<lambda>_.
       rd_then unsigned_exp_golomb (\<lambda>cycle.
         if 256 < cycle then rd_err ''H.264 SPS POC cycle is oversized'' else skip_signed (unat cycle)))))
     else if pic_order_cnt_type = 2 then rd_ok ()
     else rd_err ''H.264 SPS POC type is invalid'')"

definition read_crop :: "(32 word \<times> 32 word \<times> 32 word \<times> 32 word) reader" where
  "read_crop =
     rd_then read_bit (\<lambda>cropped.
     if cropped then
       rd_then unsigned_exp_golomb (\<lambda>left.
       rd_then unsigned_exp_golomb (\<lambda>right.
       rd_then unsigned_exp_golomb (\<lambda>upper.
       rd_then unsigned_exp_golomb (\<lambda>lower. rd_ok (left, right, upper, lower)))))
     else rd_ok (0, 0, 0, 0))"

definition sub_sampling :: "bool \<Rightarrow> 32 word \<Rightarrow> (32 word \<times> 32 word) option" where
  "sub_sampling separate_colour_plane chroma_format_idc =
     (let chroma_array_type = (if separate_colour_plane then 0 else chroma_format_idc) in
      if chroma_array_type = 0 then Some (1, 1)
      else if chroma_array_type = 1 then Some (2, 2)
      else if chroma_array_type = 2 then Some (2, 1)
      else if chroma_array_type = 3 then Some (1, 1)
      else None)"

definition checked_sub :: "'a::len word \<Rightarrow> 'a word \<Rightarrow> 'a word option" where
  "checked_sub a b = (if b \<le> a then Some (a - b) else None)"

text \<open>A coded length less the cropping at its two ends, in checked \<open>u32\<close> arithmetic.\<close>

definition cropped :: "32 word \<Rightarrow> 32 word \<Rightarrow> 32 word \<Rightarrow> 32 word \<Rightarrow> (32 word) option" where
  "cropped coded first second unit_size =
     Option.bind (checked_add first second) (\<lambda>crop.
     Option.bind (checked_mul crop unit_size) (\<lambda>crop. checked_sub coded crop))"

definition validate_dimensions :: "32 word \<Rightarrow> 32 word \<Rightarrow> (32 word \<times> 32 word) result" where
  "validate_dimensions width height =
     (if width = 0 \<or> height = 0 \<or> 65535 < width \<or> 65535 < height
      then Inl (rtsp_security_error ''codec dimensions violate hard bounds'')
      else Inr (width, height))"

definition h264_size ::
  "bool \<Rightarrow> 32 word \<Rightarrow> 32 word \<Rightarrow> 32 word \<Rightarrow> bool \<Rightarrow> 32 word \<times> 32 word \<times> 32 word \<times> 32 word \<Rightarrow>
     (32 word \<times> 32 word) result" where
  "h264_size separate chroma_format_idc width_mbs height_map_units frame_mbs_only crops =
     (case crops of (left, right, upper, lower) \<Rightarrow>
      and_then (ok_or (sub_sampling separate chroma_format_idc)
        (rtsp_security_error ''H.264 SPS chroma array type is invalid'')) (\<lambda>(sub_width, sub_height).
      let frame_factor = (if frame_mbs_only then 1 else 2) in
      and_then (ok_or (checked_mul sub_height frame_factor)
        (rtsp_security_error ''H.264 SPS crop unit overflowed'')) (\<lambda>crop_unit_y.
      and_then (ok_or (Option.bind (checked_mul width_mbs 16) (\<lambda>coded. cropped coded left right sub_width))
        (rtsp_security_error ''H.264 SPS cropped width is invalid'')) (\<lambda>width.
      and_then (ok_or (Option.bind (checked_mul height_map_units 16) (\<lambda>v.
          Option.bind (checked_mul v frame_factor) (\<lambda>coded. cropped coded upper lower crop_unit_y)))
        (rtsp_security_error ''H.264 SPS cropped height is invalid'')) (\<lambda>height.
      validate_dimensions width height)))))"

definition rd_lift :: "'a result \<Rightarrow> 'a reader" where
  "rd_lift res = (\<lambda>r. and_then res (\<lambda>x. Inr (x, r)))"

definition h264_sps_body :: "(32 word \<times> 32 word) reader" where
  "h264_sps_body =
     rd_then (read_bits 8) (\<lambda>profile.
     rd_then (skip_bits 16) (\<lambda>_.
     rd_then unsigned_exp_golomb (\<lambda>_.
     rd_then (if ucast profile \<in> set HIGH_PROFILES then h264_chroma_info else rd_ok (1, False))
       (\<lambda>(chroma_format_idc, separate).
     rd_then unsigned_exp_golomb (\<lambda>frame_num.
     if 12 < frame_num then rd_err ''H.264 SPS frame-number width is invalid''
     else rd_then h264_pic_order (\<lambda>_.
     rd_then unsigned_exp_golomb (\<lambda>_.
     rd_then read_bit (\<lambda>_.
     rd_then unsigned_exp_golomb (\<lambda>w.
     rd_then (rd_ok_or (checked_add w 1) ''H.264 SPS width overflowed'') (\<lambda>width_mbs.
     rd_then unsigned_exp_golomb (\<lambda>h.
     rd_then (rd_ok_or (checked_add h 1) ''H.264 SPS height overflowed'') (\<lambda>height_map_units.
     rd_then read_bit (\<lambda>frame_mbs_only.
     rd_then (if frame_mbs_only then rd_ok False else read_bit) (\<lambda>_.
     rd_then read_bit (\<lambda>_.
     rd_then read_crop (\<lambda>crops.
       rd_lift (h264_size separate chroma_format_idc width_mbs height_map_units frame_mbs_only crops)))))))))))))))))"

definition parse_h264_sps_dimensions :: "byte list \<Rightarrow> (32 word \<times> 32 word) result" where
  "parse_h264_sps_dimensions nal =
     (if length nal < 4 \<or> nal ! 0 AND 0x1f \<noteq> 7 then Inl (rtsp_security_error ''H.264 SPS NAL is invalid'')
      else and_then (from_escaped (drop 1 nal)) (\<lambda>r. and_then (h264_sps_body r) (\<lambda>(d, _). Inr d)))"

section \<open>H.265 sequence parameter sets\<close>

fun sub_layer_flags :: "nat \<Rightarrow> (bool \<times> bool) list reader" where
  "sub_layer_flags 0 = rd_ok []"
| "sub_layer_flags (Suc n) =
     rd_then read_bit (\<lambda>profile. rd_then read_bit (\<lambda>level.
     rd_then (sub_layer_flags n) (\<lambda>flags. rd_ok ((profile, level) # flags))))"

fun skip_sub_layers :: "(bool \<times> bool) list \<Rightarrow> unit reader" where
  "skip_sub_layers [] = rd_ok ()"
| "skip_sub_layers ((profile, level) # flags) =
     rd_then (if profile then skip_bits 88 else rd_ok ()) (\<lambda>_.
     rd_then (if level then skip_bits 8 else rd_ok ()) (\<lambda>_. skip_sub_layers flags))"

definition skip_h265_profile_tier_level :: "nat \<Rightarrow> unit reader" where
  "skip_h265_profile_tier_level layers =
     rd_then (skip_bits 96) (\<lambda>_.
     rd_then (sub_layer_flags layers) (\<lambda>flags.
     rd_then (if 0 < layers then skip_bits ((8 - layers) * 2) else rd_ok ()) (\<lambda>_.
       skip_sub_layers flags)))"

definition h265_size ::
  "bool \<Rightarrow> 32 word \<Rightarrow> 32 word \<Rightarrow> 32 word \<Rightarrow> 32 word \<times> 32 word \<times> 32 word \<times> 32 word \<Rightarrow>
     (32 word \<times> 32 word) result" where
  "h265_size separate chroma_format_idc coded_width coded_height crops =
     (case crops of (left, right, upper, lower) \<Rightarrow>
      and_then (ok_or (sub_sampling separate chroma_format_idc)
        (rtsp_security_error ''H.265 SPS chroma array type is invalid'')) (\<lambda>(sub_width, sub_height).
      and_then (ok_or (cropped coded_width left right sub_width)
        (rtsp_security_error ''H.265 SPS cropped width is invalid'')) (\<lambda>width.
      and_then (ok_or (cropped coded_height upper lower sub_height)
        (rtsp_security_error ''H.265 SPS cropped height is invalid'')) (\<lambda>height.
      validate_dimensions width height))))"

definition h265_sps_body :: "(32 word \<times> 32 word) reader" where
  "h265_sps_body =
     rd_then (skip_bits 4) (\<lambda>_.
     rd_then (read_bits 3) (\<lambda>layers.
     if 6 < unat layers then rd_err ''H.265 SPS sub-layer count is invalid''
     else rd_then read_bit (\<lambda>_.
     rd_then (skip_h265_profile_tier_level (unat layers)) (\<lambda>_.
     rd_then unsigned_exp_golomb (\<lambda>_.
     rd_then unsigned_exp_golomb (\<lambda>chroma_format_idc.
     if 3 < chroma_format_idc then rd_err ''H.265 SPS chroma format is invalid''
     else rd_then (if chroma_format_idc = 3 then read_bit else rd_ok False) (\<lambda>separate.
     rd_then unsigned_exp_golomb (\<lambda>coded_width.
     rd_then unsigned_exp_golomb (\<lambda>coded_height.
     rd_then read_crop (\<lambda>crops.
       rd_lift (h265_size separate chroma_format_idc coded_width coded_height crops)))))))))))"

definition parse_h265_sps_dimensions :: "byte list \<Rightarrow> (32 word \<times> 32 word) result" where
  "parse_h265_sps_dimensions nal =
     (if length nal < 5 \<or> drop_bit 1 (nal ! 0) AND 0x3f \<noteq> 33 then Inl (rtsp_security_error ''H.265 SPS NAL is invalid'')
      else and_then (from_escaped (drop 2 nal)) (\<lambda>r. and_then (h265_sps_body r) (\<lambda>(d, _). Inr d)))"


section \<open>What a reader reads\<close>

text \<open>The bits ahead of a reader, and the contract of a reader operation: on any reader with these bits ahead it returns this
  value and leaves what follows ahead.\<close>

definition byte_bits :: "byte \<Rightarrow> bool list" where
  "byte_bits b = map (\<lambda>i. bit b (7 - i)) [0..<8]"

definition ahead :: "RbspBitReader \<Rightarrow> bool list" where
  "ahead r = drop (bit_offset r) (concat (map byte_bits (rb_bytes r)))"

definition reads :: "'a reader \<Rightarrow> bool list \<Rightarrow> 'a \<Rightarrow> bool" where
  "reads p bl x \<longleftrightarrow> (\<forall>r rest. ahead r = bl @ rest \<longrightarrow> (\<exists>r'. p r = Inr (x, r') \<and> ahead r' = rest))"

named_theorems reads_intros "what the operations of the bit reader read"

lemma length_byte_bits [simp]: "length (byte_bits b) = 8"
  by (simp add: byte_bits_def)

lemma length_all_bits [simp]: "length (concat (map byte_bits bs)) = 8 * length bs"
  by (induction bs) auto

lemma nth_all_bits: "i < 8 * length bs \<Longrightarrow> concat (map byte_bits bs) ! i = bit (bs ! (i div 8)) (7 - i mod 8)"
proof (induction bs arbitrary: i)
  case Nil
  then show ?case by simp
next
  case (Cons b bs)
  show ?case
  proof (cases "i < 8")
    case True
    then show ?thesis by (simp add: nth_append byte_bits_def)
  next
    case False
    then obtain j where j: "i = j + 8" by (metis add.commute le_add_diff_inverse not_less)
    then have "i div 8 = Suc (j div 8)" by simp
    with j show ?thesis using Cons by (simp add: nth_append)
  qed
qed

lemma reads_ok [reads_intros]: "reads (rd_ok x) [] x"
  by (simp add: reads_def rd_ok_def)

lemma reads_then:
  assumes "reads p bl x" and "reads (f x) bl' y"
  shows "reads (rd_then p f) (bl @ bl') y"
  unfolding reads_def
proof (intro allI impI)
  fix r rest assume "ahead r = (bl @ bl') @ rest"
  then obtain r' where r': "p r = Inr (x, r')" "ahead r' = bl' @ rest"
    using assms(1) unfolding reads_def by fastforce
  then obtain r'' where "f x r' = Inr (y, r'')" "ahead r'' = rest"
    using assms(2) unfolding reads_def by blast
  with r' show "\<exists>r'. rd_then p f r = Inr (y, r') \<and> ahead r' = rest" by (simp add: rd_then_def)
qed

lemma reads_thenI: "reads p bl x \<Longrightarrow> reads (f x) bl' y \<Longrightarrow> bl'' = bl @ bl' \<Longrightarrow> reads (rd_then p f) bl'' y"
  using reads_then by metis

lemma reads_guard: "\<not> c \<Longrightarrow> reads p bl x \<Longrightarrow> reads (if c then q else p) bl x"
  by simp

lemma reads_split: "reads (f a b) bl x \<Longrightarrow> reads (case (a, b) of (c, d) \<Rightarrow> f c d) bl x"
  by simp

lemma reads_lift: "res = Inr x \<Longrightarrow> reads (rd_lift res) [] x"
  by (simp add: reads_def rd_lift_def)

lemma reads_bit: "reads read_bit [b] b"
  unfolding reads_def
proof (intro allI impI)
  fix r rest assume ahead: "ahead r = [b] @ rest"
  let ?o = "bit_offset r" and ?bits = "concat (map byte_bits (rb_bytes r))"
  have "?o < length ?bits" using ahead unfolding ahead_def by (metis append_Cons drop_all leI list.distinct(1))
  then have o: "?o < 8 * length (rb_bytes r)" and split: "drop ?o ?bits = ?bits ! ?o # drop (Suc ?o) ?bits"
    by (simp, metis Cons_nth_drop_Suc)
  then have "b = ?bits ! ?o" and rest: "rest = drop (Suc ?o) ?bits" using ahead unfolding ahead_def by auto
  then have "b \<longleftrightarrow> bit (rb_bytes r ! (?o div 8)) (7 - ?o mod 8)" using nth_all_bits [OF o] by simp
  moreover have "?o div 8 < length (rb_bytes r)" using o by (simp add: less_mult_imp_div_less mult.commute)
  ultimately show "\<exists>r'. read_bit r = Inr (b, r') \<and> ahead r' = rest"
    using rest by (simp add: read_bit_def ahead_def push_bit_eq_mult and_exp_eq_0_iff_not_bit)
qed

lemma reads_skip:
  assumes "length bl = n" and "0 < n"
  shows "reads (skip_bits n) bl ()"
  unfolding reads_def
proof (intro allI impI)
  fix r rest assume ahead: "ahead r = bl @ rest"
  let ?o = "bit_offset r" and ?bits = "concat (map byte_bits (rb_bytes r))"
  have "length (drop ?o ?bits) = n + length rest" using ahead assms(1) unfolding ahead_def by simp
  then have "?o + n \<le> length (rb_bytes r) * 8" using assms(2) by (simp add: mult.commute)
  moreover have "drop (?o + n) ?bits = rest"
    using ahead assms(1) unfolding ahead_def by (metis append_eq_conv_conj add.commute drop_drop)
  ultimately show "\<exists>r'. skip_bits n r = Inr ((), r') \<and> ahead r' = rest"
    by (simp add: skip_bits_def ahead_def)
qed

section \<open>Numbers\<close>

fun number_bits :: "nat \<Rightarrow> nat \<Rightarrow> bool list" where
  "number_bits 0 m = []"
| "number_bits (Suc k) m = number_bits k (m div 2) @ [odd m]"

definition bits_value :: "nat \<Rightarrow> bool list \<Rightarrow> nat" where
  "bits_value = foldl (\<lambda>v b. 2 * v + of_bool b)"

lemma length_number_bits [simp]: "length (number_bits k m) = k"
  by (induction k arbitrary: m) auto

lemma bits_value_append [simp]:
  "bits_value v [] = v" "bits_value v (bl @ [b]) = 2 * bits_value v bl + of_bool b"
  by (simp_all add: bits_value_def)

lemma bits_value_number: "bits_value 0 (number_bits k m) = m mod 2 ^ k"
proof (induction k arbitrary: m)
  case (Suc k)
  have "m mod 2 ^ Suc k = 2 * (m div 2 mod 2 ^ k) + m mod 2"
    by (metis add.commute mod_mult2_eq power_Suc)
  then show ?case using Suc by (simp add: mod_2_eq_odd)
qed simp

lemma shift_in_bit: "push_bit 1 v OR of_bool b = 2 * v + (of_bool b :: u64)"
  by (cases b) (simp_all add: push_bit_eq_mult or_one_eq mult.commute)

lemma reads_bits_loop:
  "(unat v + 1) * 2 ^ length bl \<le> 2 ^ 64 \<Longrightarrow>
     \<exists>w. reads (read_bits_loop (length bl) v) bl w \<and> unat w = bits_value (unat v) bl"
proof (induction bl arbitrary: v)
  case Nil
  then show ?case by (auto intro: reads_ok)
next
  case (Cons b bl)
  let ?v = "push_bit 1 v OR of_bool b :: u64"
  have fits: "(2 * unat v + 2) * 2 ^ length bl \<le> 2 ^ 64" using Cons.prems by (simp add: algebra_simps)
  have "(2 * unat v + 2) * 1 \<le> (2 * unat v + 2) * 2 ^ length bl" by (intro mult_le_mono2) simp
  from order_trans [OF this fits] have small: "2 * unat v + 2 \<le> 2 ^ 64" by simp
  have two: "unat (2 * v :: u64) = 2 * unat v"
    using small unat_mult_lem [of 2 v] by simp
  have v: "unat ?v = 2 * unat v + of_bool b"
    unfolding shift_in_bit using small two
    by (cases b) (simp_all add: unat_add_lem [THEN iffD1])
  have "(unat ?v + 1) * 2 ^ length bl \<le> (2 * unat v + 2) * 2 ^ length bl"
    unfolding v by (intro mult_le_mono1) simp
  also note fits
  finally obtain w where "reads (read_bits_loop (length bl) ?v) bl w" "unat w = bits_value (unat ?v) bl"
    using Cons.IH by blast
  then show ?case using reads_then [OF reads_bit] v by (fastforce simp: bits_value_def)
qed

lemma reads_bits:
  assumes "k \<le> 64"
  shows "\<exists>w. reads (read_bits k) (number_bits k m) w \<and> unat w = m mod 2 ^ k"
proof -
  have "(unat (0 :: u64) + 1) * 2 ^ length (number_bits k m) \<le> (2 :: nat) ^ 64"
    using assms by (simp del: power_numeral) 
  from reads_bits_loop [OF this] show ?thesis using assms by (auto simp: read_bits_def bits_value_number)
qed

text \<open>The Exp-Golomb code of the standards: as many zeroes as the number plus one has bits after its first, then that number.\<close>

fun width_of :: "nat \<Rightarrow> nat" where
  "width_of m = (if m < 2 then 0 else Suc (width_of (m div 2)))"

declare width_of.simps [simp del]

definition ue :: "nat \<Rightarrow> bool list" where
  "ue n = (let k = width_of (n + 1) in replicate k False @ True # number_bits k (n + 1 - 2 ^ k))"

definition se :: "int \<Rightarrow> bool list" where
  "se i = ue (if 0 < i then nat (2 * i - 1) else nat (- 2 * i))"

lemma width_of_bounds: "0 < m \<Longrightarrow> 2 ^ width_of m \<le> m \<and> m < 2 ^ Suc (width_of m)"
proof (induction m rule: width_of.induct)
  case (1 m)
  then show ?case by (cases "m < 2") (auto simp: width_of.simps [of m])
qed

lemma reads_leading_zeroes: "z + k \<le> 31 \<Longrightarrow> reads (leading_zeroes z) (replicate k False @ [True]) (z + k)"
proof (induction k arbitrary: z)
  case 0
  show ?case unfolding reads_def
  proof (intro allI impI)
    fix r rest assume "ahead r = (replicate 0 False @ [True]) @ rest"
    then obtain r' where "read_bit r = Inr (True, r')" "ahead r' = rest"
      using reads_bit [of True] unfolding reads_def by fastforce
    then show "\<exists>r'. leading_zeroes z r = Inr (z + 0, r') \<and> ahead r' = rest"
      by (simp add: leading_zeroes.simps [of z r])
  qed
next
  case (Suc k)
  show ?case unfolding reads_def
  proof (intro allI impI)
    fix r rest assume "ahead r = (replicate (Suc k) False @ [True]) @ rest"
    then have "ahead r = [False] @ (replicate k False @ [True]) @ rest" by simp
    then obtain r' where "read_bit r = Inr (False, r')" "ahead r' = (replicate k False @ [True]) @ rest"
      using reads_bit [of False] unfolding reads_def by blast
    moreover have "reads (leading_zeroes (z + 1)) (replicate k False @ [True]) (z + 1 + k)"
      using Suc.IH [of "z + 1"] Suc.prems by simp
    ultimately show "\<exists>r'. leading_zeroes z r = Inr (z + Suc k, r') \<and> ahead r' = rest"
      using Suc.prems by (auto simp: reads_def leading_zeroes.simps [of z r])
  qed
qed

lemma exp_golomb_sum:
  assumes "unat suffix = n + 1 - 2 ^ k" and "2 ^ k \<le> n + 1" and "n < 2 ^ 32 - 1" and "k \<le> 31"
  shows "unat (saturating_add_u64 (push_bit k 1 - 1) suffix) = n"
proof -
  have "(2 :: nat) ^ k < 2 ^ 64" using assms(4) by (intro power_strict_increasing) simp_all
  then have "unat (2 ^ k :: u64) = 2 ^ k"
    using unat_of_nat [of "2 ^ k", where ?'a = 64] by (simp del: power_numeral)
  then have base: "unat (push_bit k 1 - 1 :: u64) = 2 ^ k - 1"
    using unat_minus_one [of "2 ^ k :: u64"] by (auto simp: push_bit_eq_mult unat_eq_0 [symmetric])
  have sum: "unat (push_bit k 1 - 1 :: u64) + unat suffix = n" using base assms(1,2) by simp
  then have "unat (push_bit k 1 - 1 :: u64) + unat suffix < 2 ^ LENGTH(64)" using assms(3) by simp
  with unat_add_lem [of "push_bit k 1 - 1 :: u64" suffix] sum show ?thesis by (simp add: saturating_add_u64_def)
qed

lemma reads_ue [reads_intros]:
  assumes "n < 2 ^ 32 - 1"
  shows "reads unsigned_exp_golomb (ue n) (of_nat n)"
proof -
  define k where "k = width_of (n + 1)"
  note bounds = width_of_bounds [of "n + 1", folded k_def]
  have "2 ^ k < (2 :: nat) ^ 32" using bounds assms by linarith
  then have k: "k \<le> 31" using power_less_imp_less_exp [of "2 :: nat" k 32] by simp
  obtain w where w: "reads (read_bits k) (number_bits k (n + 1 - 2 ^ k)) w" "unat w = (n + 1 - 2 ^ k) mod 2 ^ k"
    using reads_bits [of k] k by fastforce
  have "n + 1 - 2 ^ k < 2 ^ k" using bounds by (simp, linarith)
  with w have "unat w = n + 1 - 2 ^ k" by simp
  from exp_golomb_sum [OF this _ assms k]
  have sum: "unat (saturating_add_u64 (push_bit k 1 - 1) w) = n" using bounds by simp
  have "reads (let base = push_bit k 1 - 1; v = saturating_add_u64 base w in
      if unat v < 2 ^ 32 then rd_ok (ucast v) else rd_err ''codec Exp-Golomb value overflowed'') [] (of_nat n :: 32 word)"
    using assms sum of_nat_unat [where ?'a = "32 word", of "saturating_add_u64 (push_bit k 1 - 1) w"] by (simp add: Let_def reads_ok)
  from reads_then [where f = "\<lambda>suffix. let base = push_bit k 1 - 1; v = saturating_add_u64 base suffix in
      if unat v < 2 ^ 32 then rd_ok (ucast v) else rd_err ''codec Exp-Golomb value overflowed''", OF w(1) this]
  show ?thesis
    unfolding unsigned_exp_golomb_def
    by (intro reads_thenI [OF reads_leading_zeroes [of 0 k]])
      (use k in \<open>simp_all add: ue_def Let_def k_def\<close>)
qed

lemma reads_se:
  assumes "\<bar>i\<bar> < 2 ^ 31"
  shows "reads signed_exp_golomb (se i) i"
proof -
  define n where "n = (if 0 < i then nat (2 * i - 1) else nat (- 2 * i))"
  have n: "n < 2 ^ 32 - 1" using assms unfolding n_def by (auto simp: nat_less_iff)
  then have v: "unat (of_nat n :: 32 word) = n" by (simp add: unat_of_nat)
  have small: "\<not> 2 ^ 31 - 1 < (n + 1) div 2" using n by simp
  have value_eq: "(if even n then - int ((n + 1) div 2) else int ((n + 1) div 2)) = i"
  proof (cases "0 < i")
    case True
    then obtain m where "i = int m + 1" by (metis zero_less_imp_eq_int of_nat_Suc Suc_pred add.commute)
    then show ?thesis by (simp add: n_def nat_diff_distrib nat_mult_distrib nat_add_distrib)
  next
    case False
    then obtain m where "i = - int m" by (metis neg_0_le_iff_le nonneg_int_cases not_le minus_minus)
    then show ?thesis by (simp add: n_def nat_mult_distrib)
  qed
  have "reads (let magnitude = (unat (of_nat n :: 32 word) + 1) div 2 in
      if 2 ^ 31 - 1 < magnitude then rd_err ''signed codec value overflowed''
      else rd_ok (if even (unat (of_nat n :: 32 word)) then - int magnitude else int magnitude)) [] i"
    by (simp only: v Let_def small if_False value_eq reads_ok)
  from reads_then [where f = "\<lambda>v :: 32 word. let magnitude = (unat v + 1) div 2 in
      if 2 ^ 31 - 1 < magnitude then rd_err ''signed codec value overflowed''
      else rd_ok (if even (unat v) then - int magnitude else int magnitude)", OF reads_ue [OF n] this]
  show ?thesis by (simp add: signed_exp_golomb_def se_def n_def)
qed


section \<open>Encoders of the standards\<close>

text \<open>Emulation prevention as an encoder inserts it, and bits packed into bytes.\<close>

fun escape :: "nat \<Rightarrow> byte list \<Rightarrow> byte list" where
  "escape zeros [] = []"
| "escape zeros (b # bs) =
     (if zeros = 2 \<and> b \<le> 3 then 3 # b # escape (if b = 0 then 1 else 0) bs
      else b # escape (if b = 0 then zeros + 1 else 0) bs)"

fun pack :: "bool list \<Rightarrow> byte list" where
  "pack [] = []"
| "pack (b # bl) = horner_sum of_bool 2 (rev (take 8 (b # bl))) # pack (drop 7 bl)"

lemma unescape_escape: "zeros \<le> 2 \<Longrightarrow> unescape_loop zeros (escape zeros bs) = bs"
  by (induction bs arbitrary: zeros) auto

lemma length_escape: "length bs \<le> length (escape zeros bs)"
  by (induction bs arbitrary: zeros) (auto intro: le_SucI)

lemma byte_bits_horner:
  assumes "length bl = 8"
  shows "byte_bits (horner_sum of_bool 2 (rev bl)) = bl"
  using assms by (intro nth_equalityI) (auto simp: byte_bits_def bit_horner_sum_bit_word_iff rev_nth)

lemma pack_bits: "8 dvd length bl \<Longrightarrow> concat (map byte_bits (pack bl)) = bl"
proof (induction bl rule: pack.induct)
  case (2 b bl)
  then have "8 \<le> length (b # bl)" by (metis dvd_imp_le length_greater_0_conv list.distinct(1))
  moreover have "8 dvd length (drop 7 bl)" using 2 calculation by (simp add: dvd_diff_nat [of 8 "Suc (length bl)" 8, simplified])
  ultimately show ?case
    using 2 byte_bits_horner [of "take 8 (b # bl)"] append_take_drop_id [of 7 bl] by simp
qed simp

lemma length_pack: "8 dvd length bl \<Longrightarrow> 8 * length (pack bl) = length bl"
  using pack_bits length_all_bits by metis

text \<open>Parsing what an encoder has packed and escaped: a body that reads the bits returns their value.\<close>

lemma parse_escaped:
  assumes "reads p bl x" and "8 dvd length (bl @ rest)" and "bl @ rest \<noteq> []"
  shows "\<exists>r. from_escaped (escape 0 (pack (bl @ rest))) = Inr r \<and> (\<exists>r'. p r = Inr (x, r'))"
proof -
  let ?r = "\<lparr>rb_bytes = pack (bl @ rest), bit_offset = 0\<rparr>"
  have "pack (bl @ rest) \<noteq> []" using assms(3) by (metis list.distinct(1) neq_Nil_conv pack.simps(2))
  then have "from_escaped (escape 0 (pack (bl @ rest))) = Inr ?r"
    by (simp add: from_escaped_def unescape_escape)
  moreover have "ahead ?r = bl @ rest" using pack_bits [OF assms(2)] by (simp add: ahead_def)
  ultimately show ?thesis using assms(1) unfolding reads_def by blast
qed

subsection \<open>H.264\<close>

datatype pic_order = Poc_lsb nat | Poc_cycle bool int int "int list" | Poc_none

record H264Sps =
  sps_profile :: nat
  sps_constraints :: "bool list"
  sps_id :: nat
  sps_chroma :: nat
  sps_separate :: bool
  sps_luma_depth :: nat
  sps_chroma_depth :: nat
  sps_bypass :: bool
  sps_matrix :: "int list option list option"
  sps_frame_num :: nat
  sps_poc :: pic_order
  sps_references :: nat
  sps_gaps :: bool
  sps_width_mbs :: nat
  sps_height_units :: nat
  sps_frames_only :: bool
  sps_adaptive :: bool
  sps_direct :: bool
  sps_crop :: "(nat \<times> nat \<times> nat \<times> nat) option"

definition list_bits :: "int list option \<Rightarrow> bool list" where
  "list_bits l = (case l of None \<Rightarrow> [False] | Some deltas \<Rightarrow> True # concat (map se deltas))"

definition chroma_bits :: "H264Sps \<Rightarrow> bool list" where
  "chroma_bits s = ue (sps_chroma s) @ (if sps_chroma s = 3 then [sps_separate s] else []) @ ue (sps_luma_depth s) @
     ue (sps_chroma_depth s) @ [sps_bypass s] @
     (case sps_matrix s of None \<Rightarrow> [False] | Some ms \<Rightarrow> True # concat (map list_bits ms))"

fun poc_bits :: "pic_order \<Rightarrow> bool list" where
  "poc_bits (Poc_lsb n) = ue 0 @ ue n"
| "poc_bits (Poc_cycle z a b cs) = ue 1 @ [z] @ se a @ se b @ ue (length cs) @ concat (map se cs)"
| "poc_bits Poc_none = ue 2"

definition crop_bits :: "(nat \<times> nat \<times> nat \<times> nat) option \<Rightarrow> bool list" where
  "crop_bits c = (case c of None \<Rightarrow> [False] | Some (l, r, t, b) \<Rightarrow> True # ue l @ ue r @ ue t @ ue b)"

definition high_profile :: "H264Sps \<Rightarrow> bool" where
  "high_profile s \<longleftrightarrow> of_nat (sps_profile s) \<in> set HIGH_PROFILES"

definition h264_bits :: "H264Sps \<Rightarrow> bool list" where
  "h264_bits s = number_bits 8 (sps_profile s) @ sps_constraints s @ ue (sps_id s) @
     (if high_profile s then chroma_bits s else []) @ ue (sps_frame_num s) @ poc_bits (sps_poc s) @
     ue (sps_references s) @ [sps_gaps s] @ ue (sps_width_mbs s) @ ue (sps_height_units s) @ [sps_frames_only s] @
     (if sps_frames_only s then [] else [sps_adaptive s]) @ [sps_direct s] @ crop_bits (sps_crop s)"

text \<open>The picture: the coded size in macroblocks of sixteen, less the cropping in units of the chroma samples.\<close>

definition chroma_unit :: "bool \<Rightarrow> nat \<Rightarrow> nat \<times> nat" where
  "chroma_unit separate chroma = (if separate then (1, 1) else if chroma = 1 then (2, 2) else if chroma = 2 then (2, 1) else (1, 1))"

definition h264_unit :: "H264Sps \<Rightarrow> nat \<times> nat" where
  "h264_unit s = (if high_profile s then chroma_unit (sps_chroma s = 3 \<and> sps_separate s) (sps_chroma s) else (2, 2))"

definition crop_of :: "(nat \<times> nat \<times> nat \<times> nat) option \<Rightarrow> nat \<times> nat \<times> nat \<times> nat" where
  "crop_of c = (case c of None \<Rightarrow> (0, 0, 0, 0) | Some x \<Rightarrow> x)"

definition frame_factor :: "H264Sps \<Rightarrow> nat" where
  "frame_factor s = (if sps_frames_only s then 1 else 2)"

definition coded_size :: "H264Sps \<Rightarrow> nat \<times> nat" where
  "coded_size s = (16 * (sps_width_mbs s + 1), 16 * (sps_height_units s + 1) * frame_factor s)"

definition crop_size :: "H264Sps \<Rightarrow> nat \<times> nat" where
  "crop_size s = (case (crop_of (sps_crop s), h264_unit s) of ((l, r, t, b), (x, y)) \<Rightarrow>
     ((l + r) * x, (t + b) * (y * frame_factor s)))"

definition h264_picture :: "H264Sps \<Rightarrow> nat \<times> nat" where
  "h264_picture s = (fst (coded_size s) - fst (crop_size s), snd (coded_size s) - snd (crop_size s))"

text \<open>A scaling list of the standard: as many deltas as are read before the next scale becomes zero.\<close>

fun scaling_ok :: "nat \<Rightarrow> int \<Rightarrow> int \<Rightarrow> int list \<Rightarrow> bool" where
  "scaling_ok 0 last_scale next_scale deltas = (deltas = [])"
| "scaling_ok (Suc n) last_scale next_scale deltas =
     (if next_scale = 0 then scaling_ok n last_scale next_scale deltas
      else (case deltas of
          [] \<Rightarrow> False
        | d # ds \<Rightarrow> - 128 \<le> d \<and> d \<le> 127 \<and>
            (let following = (last_scale + d + 256) mod 256 in
             scaling_ok n (if following = 0 then last_scale else following) following ds)))"

definition entry_ok :: "nat \<Rightarrow> int list option \<Rightarrow> bool" where
  "entry_ok i m \<longleftrightarrow> (case m of None \<Rightarrow> True | Some ds \<Rightarrow> scaling_ok (if i < 6 then 16 else 64) 8 8 ds)"

definition matrix_ok :: "H264Sps \<Rightarrow> bool" where
  "matrix_ok s \<longleftrightarrow> (case sps_matrix s of
       None \<Rightarrow> True
     | Some ms \<Rightarrow> length ms = (if sps_chroma s = 3 then 12 else 8) \<and>
         (\<forall>i \<in> set [0..<length ms]. entry_ok i (ms ! i)))"

fun poc_ok :: "pic_order \<Rightarrow> bool" where
  "poc_ok (Poc_lsb n) = (n \<le> 12)"
| "poc_ok (Poc_cycle z a b cs) = (length cs \<le> 256 \<and> (\<forall>c \<in> set (a # b # cs). \<bar>c\<bar> < 2 ^ 31))"
| "poc_ok Poc_none = True"

definition crop_ok :: "(nat \<times> nat \<times> nat \<times> nat) option \<Rightarrow> bool" where
  "crop_ok c \<longleftrightarrow> (case crop_of c of (l, r, t, b) \<Rightarrow> max (max l r) (max t b) < 2 ^ 32 - 1)"

definition picture_ok :: "nat \<times> nat \<Rightarrow> bool" where
  "picture_ok p \<longleftrightarrow> 1 \<le> fst p \<and> fst p \<le> 65535 \<and> 1 \<le> snd p \<and> snd p \<le> 65535"

definition h264_ok :: "H264Sps \<Rightarrow> bool" where
  "h264_ok s \<longleftrightarrow> sps_profile s < 256 \<and> length (sps_constraints s) = 16 \<and> sps_id s < 2 ^ 32 - 1 \<and>
     (high_profile s \<longrightarrow> sps_chroma s \<le> 3 \<and> sps_luma_depth s \<le> 6 \<and> sps_chroma_depth s \<le> 6 \<and> matrix_ok s) \<and>
     sps_frame_num s \<le> 12 \<and> poc_ok (sps_poc s) \<and> sps_references s < 2 ^ 32 - 1 \<and> crop_ok (sps_crop s) \<and>
     fst (coded_size s) < 2 ^ 32 \<and> snd (coded_size s) < 2 ^ 32 \<and> picture_ok (h264_picture s)"


subsection \<open>Reading it back\<close>

lemmas reads_steps = reads_ok reads_bit reads_ue reads_se

lemma u32_not_less: "n \<le> m \<Longrightarrow> m < 2 ^ 32 \<Longrightarrow> \<not> of_nat m < (of_nat n :: 32 word)"
  by (simp add: word_less_nat_alt unat_of_nat)

lemma u32_eq: "n < 2 ^ 32 \<Longrightarrow> m < 2 ^ 32 \<Longrightarrow> (of_nat n :: 32 word) = of_nat m \<longleftrightarrow> n = m"
  by (simp add: word_unat_eq_iff unat_of_nat)

lemmas u32_bounds =
  u32_not_less [of _ 3, simplified] u32_not_less [of _ 6, simplified] u32_not_less [of _ 12, simplified]
  u32_not_less [of _ 256, simplified]

lemma scale_step:
  assumes "1 \<le> last_scale" and "last_scale \<le> 255" and "- 128 \<le> d" and "d \<le> 127"
  shows "rem_i32 (wrap_i32 (wrap_i32 (last_scale + d) + 256)) 256 = (last_scale + d + 256) mod 256"
proof -
  have "wrap_i32 (last_scale + d) = last_scale + d"
    unfolding wrap_i32_def using assms by (intro signed_take_bit_int_eq_self) simp_all
  moreover have "wrap_i32 (last_scale + d + 256) = last_scale + d + 256"
    unfolding wrap_i32_def using assms by (intro signed_take_bit_int_eq_self) simp_all
  ultimately show ?thesis using assms by (simp add: rem_i32_def)
qed

lemma reads_scaling_list:
  "scaling_ok n last_scale next_scale ds \<Longrightarrow> 1 \<le> last_scale \<Longrightarrow> last_scale \<le> 255 \<Longrightarrow>
     reads (skip_h264_scaling_list_loop n last_scale next_scale) (concat (map se ds)) ()"
proof (induction n arbitrary: last_scale next_scale ds)
  case 0
  then show ?case by (simp add: reads_ok)
next
  case (Suc n)
  show ?case
  proof (cases "next_scale = 0")
    case True
    then show ?thesis using Suc by simp
  next
    case False
    then obtain d ds' where ds: "ds = d # ds'" and d: "- 128 \<le> d" "d \<le> 127" using Suc.prems(1) by (auto split: list.splits)
    let ?f = "(last_scale + d + 256) mod 256"
    have f: "0 \<le> ?f" "?f < 256" by simp_all
    have "reads (skip_h264_scaling_list_loop n (if ?f \<noteq> 0 then ?f else last_scale) ?f) (concat (map se ds')) ()"
      using Suc.prems f False ds by (intro Suc.IH) (auto simp: Let_def split: if_splits)
    then have "reads (let following = rem_i32 (wrap_i32 (wrap_i32 (last_scale + d) + 256)) 256 in
        skip_h264_scaling_list_loop n (if following \<noteq> 0 then following else last_scale) following) (concat (map se ds')) ()"
      by (simp only: Let_def scale_step [OF Suc.prems(2,3) d])
    moreover have "reads signed_exp_golomb (se d) d" using d by (intro reads_se) simp
    ultimately show ?thesis using False ds by (auto intro: reads_then)
  qed
qed

lemma reads_scaling_lists:
  "(\<And>j. j < length ms \<Longrightarrow> entry_ok (i + j) (ms ! j)) \<Longrightarrow>
     reads (h264_scaling_lists [i..<i + length ms]) (concat (map list_bits ms)) ()"
proof (induction ms arbitrary: i)
  case Nil
  then show ?case by (simp add: reads_ok)
next
  case (Cons m ms)
  have rest: "reads (h264_scaling_lists [Suc i..<Suc i + length ms]) (concat (map list_bits ms)) ()"
  proof (rule Cons.IH)
    fix j assume "j < length ms"
    then show "entry_ok (Suc i + j) (ms ! j)"
      using Cons.prems [of "Suc j"] by simp
  qed
  have split: "[i..<i + length (m # ms)] = i # [Suc i..<Suc i + length ms]" by (simp add: upt_rec)
  show ?case
  proof (cases m)
    case None
    then have bits: "concat (map list_bits (m # ms)) = [False] @ [] @ concat (map list_bits ms)" by (simp add: list_bits_def)
    show ?thesis unfolding split bits h264_scaling_lists.simps
      by (rule reads_then [OF reads_bit], rule reads_then [where x = "()"]) (simp_all add: reads_ok rest [simplified])
  next
    case (Some ds)
    then have bits: "concat (map list_bits (m # ms)) = [True] @ concat (map se ds) @ concat (map list_bits ms)"
      by (simp add: list_bits_def)
    have "reads (skip_h264_scaling_list (if i < 6 then 16 else 64)) (concat (map se ds)) ()"
      using Some Cons.prems [of 0] by (simp add: entry_ok_def skip_h264_scaling_list_def reads_scaling_list)
    then show ?thesis unfolding split bits h264_scaling_lists.simps
      by (intro reads_then [OF reads_bit] reads_then [where x = "()"] rest) simp
  qed
qed

lemma reads_chroma:
  assumes "sps_chroma s \<le> 3" and "sps_luma_depth s \<le> 6" and "sps_chroma_depth s \<le> 6" and "matrix_ok s"
  shows "reads h264_chroma_info (chroma_bits s) (of_nat (sps_chroma s), sps_chroma s = 3 \<and> sps_separate s)"
proof -
  let ?ms = "case sps_matrix s of None \<Rightarrow> [False] | Some ms \<Rightarrow> True # concat (map list_bits ms)"
  have three: "(of_nat (sps_chroma s) :: 32 word) = 3 \<longleftrightarrow> sps_chroma s = 3" using u32_eq [of "sps_chroma s" 3] assms(1) by simp
  have separate: "reads (if (of_nat (sps_chroma s) :: 32 word) = 3 then read_bit else rd_ok False)
      (if sps_chroma s = 3 then [sps_separate s] else []) (sps_chroma s = 3 \<and> sps_separate s)"
    using reads_bit [of "sps_separate s"] by (simp add: three reads_ok)
  have matrix: "reads (rd_then read_bit (\<lambda>matrix.
      rd_then (if matrix then h264_scaling_lists [0..<if (of_nat (sps_chroma s) :: 32 word) = 3 then 12 else 8] else rd_ok ())
        (\<lambda>_. rd_ok y))) ?ms y" for y :: "32 word \<times> bool"
  proof (cases "sps_matrix s")
    case None
    then have bits: "?ms = [False] @ [] @ []" by simp
    show ?thesis unfolding bits
      by (rule reads_then [OF reads_bit], rule reads_then [where x = "()"]) (simp_all add: reads_ok)
  next
    case (Some ms)
    then have bits: "?ms = [True] @ concat (map list_bits ms) @ []" by simp
    have "reads (h264_scaling_lists [0..<0 + length ms]) (concat (map list_bits ms)) ()"
      using assms(4) Some by (intro reads_scaling_lists) (auto simp: matrix_ok_def)
    moreover have "length ms = (if sps_chroma s = 3 then 12 else 8)" using assms(4) Some by (simp add: matrix_ok_def)
    ultimately show ?thesis unfolding bits
      by (intro reads_then [OF reads_bit] reads_then [where x = "()"] reads_ok) (simp add: three)
  qed
  show ?thesis
    unfolding h264_chroma_info_def chroma_bits_def
    by (intro reads_then [OF reads_ue] reads_guard [OF u32_bounds(1)] reads_guard [OF u32_bounds(2)]
        reads_then [OF separate] matrix reads_then [OF reads_bit]) (use assms in simp_all)
qed

lemma reads_skip_signed: "(\<forall>c \<in> set cs. \<bar>c\<bar> < 2 ^ 31) \<Longrightarrow> reads (skip_signed (length cs)) (concat (map se cs)) ()"
  by (induction cs) (auto intro!: reads_ok reads_then [OF reads_se])

lemma reads_pic_order: "poc_ok p \<Longrightarrow> reads h264_pic_order (poc_bits p) ()"
proof (cases p)
  case (Poc_lsb n)
  assume "poc_ok p"
  then have "reads (rd_then unsigned_exp_golomb (\<lambda>width.
      if 12 < width then rd_err ''H.264 SPS POC width is invalid'' else rd_ok ())) (ue n) ()"
    using Poc_lsb by (intro reads_thenI [OF reads_ue, of n _ "[]"] reads_guard reads_ok) (simp_all add: u32_bounds)
  then show ?thesis unfolding h264_pic_order_def using Poc_lsb
    by (intro reads_thenI [OF reads_ue, of 0 _ "ue n"]) simp_all
next
  case (Poc_cycle z a b cs)
  assume ok: "poc_ok p"
  have len: "length cs \<le> 256" and all: "\<bar>a\<bar> < 2 ^ 31" "\<bar>b\<bar> < 2 ^ 31" "\<forall>c \<in> set cs. \<bar>c\<bar> < 2 ^ 31" using ok Poc_cycle by simp_all
  then have "reads (if 256 < (of_nat (length cs) :: 32 word) then rd_err ''H.264 SPS POC cycle is oversized''
      else skip_signed (unat (of_nat (length cs) :: 32 word))) (concat (map se cs)) ()"
    by (simp add: u32_bounds unat_of_nat reads_skip_signed)
  then have "reads (rd_then read_bit (\<lambda>_. rd_then signed_exp_golomb (\<lambda>_. rd_then signed_exp_golomb (\<lambda>_.
      rd_then unsigned_exp_golomb (\<lambda>cycle.
        if 256 < cycle then rd_err ''H.264 SPS POC cycle is oversized'' else skip_signed (unat cycle))))))
      ([z] @ se a @ se b @ ue (length cs) @ concat (map se cs)) ()"
    using len all by (intro reads_then [OF reads_bit] reads_then [OF reads_se] reads_then [OF reads_ue]) simp_all
  then show ?thesis unfolding h264_pic_order_def using Poc_cycle
    by (intro reads_thenI [OF reads_ue, of 1]) simp_all
next
  case Poc_none
  then show ?thesis unfolding h264_pic_order_def
    by (intro reads_thenI [OF reads_ue, of 2 _ "[]"]) (simp_all add: reads_ok)
qed

definition u32_crop :: "nat \<times> nat \<times> nat \<times> nat \<Rightarrow> 32 word \<times> 32 word \<times> 32 word \<times> 32 word" where
  "u32_crop c = (case c of (l, r, t, b) \<Rightarrow> (of_nat l, of_nat r, of_nat t, of_nat b))"

lemma reads_crop:
  assumes "crop_ok c"
  shows "reads read_crop (crop_bits c) (u32_crop (crop_of c))"
proof (cases c)
  case None
  then have bits: "crop_bits c = [False] @ []" by (simp add: crop_bits_def)
  show ?thesis unfolding bits read_crop_def using None
    by (intro reads_then [OF reads_bit]) (simp add: reads_ok u32_crop_def crop_of_def)
next
  case (Some q)
  obtain l r t b where q: "q = (l, r, t, b)" by (cases q)
  then have bits: "crop_bits c = [True] @ ue l @ ue r @ ue t @ ue b @ []" using Some by (simp add: crop_bits_def)
  have small: "l < 2 ^ 32 - 1" "r < 2 ^ 32 - 1" "t < 2 ^ 32 - 1" "b < 2 ^ 32 - 1"
    using assms Some q by (simp_all add: crop_ok_def crop_of_def)
  have value_eq: "u32_crop (crop_of c) = (of_nat l, of_nat r, of_nat t, of_nat b)"
    using Some q by (simp add: u32_crop_def crop_of_def)
  have "reads (rd_then unsigned_exp_golomb (\<lambda>left. rd_then unsigned_exp_golomb (\<lambda>right.
      rd_then unsigned_exp_golomb (\<lambda>upper. rd_then unsigned_exp_golomb (\<lambda>lower. rd_ok (left, right, upper, lower))))))
      (ue l @ ue r @ ue t @ ue b @ []) (u32_crop (crop_of c))"
    unfolding value_eq using small by (intro reads_then [OF reads_ue] reads_ok)
  then show ?thesis unfolding bits read_crop_def by (intro reads_then [OF reads_bit]) simp
qed

lemma u32_sum: "l + r < 2 ^ 32 \<Longrightarrow> checked_add (of_nat l :: 32 word) (of_nat r) = Some (of_nat (l + r))"
  by (simp add: checked_add_def unat_of_nat)

lemma u32_product: "m * n < 2 ^ 32 \<Longrightarrow> m < 2 ^ 32 \<Longrightarrow> n < 2 ^ 32 \<Longrightarrow>
    checked_mul (of_nat m :: 32 word) (of_nat n) = Some (of_nat (m * n))"
  by (simp add: checked_mul_def unat_of_nat)

lemma cropped_nat:
  assumes "coded < 2 ^ 32" and "(l + r) * u \<le> coded" and "0 < u" and "u < 2 ^ 32"
  shows "cropped (of_nat coded) (of_nat l) (of_nat r) (of_nat u) = Some (of_nat (coded - (l + r) * u))"
proof -
  have "(l + r) * 1 \<le> (l + r) * u" using assms(3) by (intro mult_le_mono2) simp
  then have "l + r \<le> coded" using assms(2) by (simp only: mult_1_right)
  then have sum: "l + r < 2 ^ 32" using assms(1) by (rule le_less_trans)
  have "(l + r) * u < 2 ^ 32" using assms(2,1) by (rule le_less_trans)
  then have "checked_mul (of_nat (l + r)) (of_nat u) = Some (of_nat ((l + r) * u) :: 32 word)"
    using u32_product sum assms(4) by blast
  moreover have "(of_nat ((l + r) * u) :: 32 word) \<le> of_nat coded"
    using assms(1,2) \<open>(l + r) * u < 2 ^ 32\<close> by (simp only: word_le_nat_alt unat_of_nat) simp
  then have "checked_sub (of_nat coded) (of_nat ((l + r) * u) :: 32 word) = Some (of_nat (coded - (l + r) * u))"
    using assms(2) unfolding checked_sub_def by (simp add: of_nat_diff)
  ultimately show ?thesis unfolding cropped_def u32_sum [OF sum] by simp
qed

lemma validate_dimensions_nat:
  assumes "picture_ok p"
  shows "validate_dimensions (of_nat (fst p)) (of_nat (snd p)) = Inr (of_nat (fst p), of_nat (snd p))"
proof -
  have "unat (of_nat (fst p) :: 32 word) = fst p" "unat (of_nat (snd p) :: 32 word) = snd p"
    using assms by (simp_all add: picture_ok_def unat_of_nat)
  then show ?thesis using assms by (auto simp: validate_dimensions_def picture_ok_def word_unat_eq_iff word_less_nat_alt)
qed

lemma sub_sampling_nat:
  assumes "chroma \<le> 3"
  shows "sub_sampling separate (of_nat chroma) =
    Some (of_nat (fst (chroma_unit separate chroma)), of_nat (snd (chroma_unit separate chroma)))"
proof -
  have "chroma \<in> {0, 1, 2, 3}" using assms by auto
  then show ?thesis by (auto simp: sub_sampling_def chroma_unit_def)
qed

lemma picture_crop:
  assumes "picture_ok (h264_picture s)"
  shows "fst (crop_size s) \<le> fst (coded_size s)" "snd (crop_size s) \<le> snd (coded_size s)"
  using assms by (auto simp: picture_ok_def h264_picture_def)

lemma h264_size_nat:
  assumes "fst (coded_size s) < 2 ^ 32" and "snd (coded_size s) < 2 ^ 32" and "picture_ok (h264_picture s)"
    and "h264_unit s = chroma_unit separate chroma" and "chroma \<le> 3"
  shows "h264_size separate (of_nat chroma) (of_nat (sps_width_mbs s + 1)) (of_nat (sps_height_units s + 1))
      (sps_frames_only s) (u32_crop (crop_of (sps_crop s))) =
    Inr (of_nat (fst (h264_picture s)), of_nat (snd (h264_picture s)))"
proof -
  obtain l r t b where crop: "crop_of (sps_crop s) = (l, r, t, b)" by (cases "crop_of (sps_crop s)")
  obtain x y where u: "chroma_unit separate chroma = (x, y)" by (cases "chroma_unit separate chroma")
  then have xy: "0 < x" "x \<le> 2" "0 < y" "y \<le> 2" by (auto simp: chroma_unit_def split: if_splits)
  let ?f = "frame_factor s" and ?w = "sps_width_mbs s + 1" and ?h = "sps_height_units s + 1"
  have f: "0 < ?f" "?f \<le> 2" "(if sps_frames_only s then 1 else 2) = (of_nat ?f :: 32 word)" by (simp_all add: frame_factor_def)
  have small: "?w * 16 < 2 ^ 32" "?h * 16 * ?f < 2 ^ 32" using assms(1,2) by (simp_all add: coded_size_def mult.commute)
  have h16: "?h * 16 < 2 ^ 32" using small(2) f(1) by (metis le_less_trans mult_le_mono2 nat_mult_1_right Suc_leI One_nat_def)
  have yf: "y * ?f \<le> 2 * 2" using xy f by (intro mult_le_mono) simp_all
  have unit_y: "checked_mul (of_nat y) (of_nat ?f) = Some (of_nat (y * ?f) :: 32 word)"
    using xy f yf by (intro u32_product) simp_all
  have "checked_mul (of_nat ?w) (of_nat 16) = Some (of_nat (?w * 16) :: 32 word)" using small by (intro u32_product) simp_all
  moreover have "cropped (of_nat (?w * 16)) (of_nat l) (of_nat r) (of_nat x) = Some (of_nat (?w * 16 - (l + r) * x))"
    using picture_crop(1) [OF assms(3)] crop u xy assms(4) small
    by (intro cropped_nat) (simp_all add: crop_size_def coded_size_def mult.commute)
  ultimately have width: "Option.bind (checked_mul (of_nat ?w) 16) (\<lambda>coded. cropped coded (of_nat l) (of_nat r) (of_nat x)) =
      Some (of_nat (fst (h264_picture s)))"
    using crop u assms(4) by (simp add: h264_picture_def crop_size_def coded_size_def mult.commute)
  have "checked_mul (of_nat ?h) (of_nat 16) = Some (of_nat (?h * 16) :: 32 word)" using h16 by (intro u32_product) simp_all
  moreover have "checked_mul (of_nat (?h * 16)) (of_nat ?f) = Some (of_nat (?h * 16 * ?f) :: 32 word)"
    using h16 small f by (intro u32_product) simp_all
  moreover have "cropped (of_nat (?h * 16 * ?f)) (of_nat t) (of_nat b) (of_nat (y * ?f)) =
      Some (of_nat (?h * 16 * ?f - (t + b) * (y * ?f)))"
    using picture_crop(2) [OF assms(3)] crop u xy f yf assms(4) small
    by (intro cropped_nat) (simp_all add: crop_size_def coded_size_def mult.commute)
  ultimately have height: "Option.bind (checked_mul (of_nat ?h) 16) (\<lambda>v. Option.bind (checked_mul v (of_nat ?f))
      (\<lambda>coded. cropped coded (of_nat t) (of_nat b) (of_nat (y * ?f)))) = Some (of_nat (snd (h264_picture s)))"
    using crop u assms(4) by (simp add: h264_picture_def crop_size_def coded_size_def mult.commute)
  show ?thesis
    unfolding h264_size_def crop u32_crop_def sub_sampling_nat [OF assms(5)] u f(3) Let_def prod.case
    by (simp only: ok_or_def option.case and_then_simps prod.case fst_conv snd_conv unit_y width height
        validate_dimensions_nat [OF assms(3)])
qed

lemma reads_h264:
  assumes "h264_ok s"
  shows "reads h264_sps_body (h264_bits s) (of_nat (fst (h264_picture s)), of_nat (snd (h264_picture s)))"
proof -
  note ok = assms [unfolded h264_ok_def]
  let ?separate = "high_profile s \<and> sps_chroma s = 3 \<and> sps_separate s" and ?chroma = "if high_profile s then sps_chroma s else 1"
  obtain w where w: "reads (read_bits 8) (number_bits 8 (sps_profile s)) w" "unat w = sps_profile s"
    using reads_bits [of 8 "sps_profile s"] ok by auto
  have profile: "(ucast w :: byte) \<in> set HIGH_PROFILES \<longleftrightarrow> high_profile s"
    using of_nat_unat [of w, where ?'a = byte] w(2) by (simp add: high_profile_def)
  have chroma: "reads (if ucast w \<in> set HIGH_PROFILES then h264_chroma_info else rd_ok (1, False))
      (if high_profile s then chroma_bits s else []) (of_nat ?chroma, ?separate)"
    using reads_chroma [of s] ok by (simp add: profile reads_ok)
  have width: "reads (rd_ok_or (checked_add (of_nat (sps_width_mbs s)) (1 :: 32 word)) e) [] (of_nat (sps_width_mbs s + 1))" for e
    using u32_sum [of "sps_width_mbs s" 1] ok by (simp add: coded_size_def rd_ok_or_def reads_ok)
  have "16 * (sps_height_units s + 1) * 1 \<le> snd (coded_size s)"
    unfolding coded_size_def snd_conv by (intro mult_le_mono2) (simp add: frame_factor_def)
  then have h: "sps_height_units s + 1 < 2 ^ 28" using ok by simp
  then have mbs: "sps_width_mbs s < 2 ^ 32 - 1" "sps_height_units s < 2 ^ 32 - 1" using ok by (simp_all add: coded_size_def)
  then have height: "reads (rd_ok_or (checked_add (of_nat (sps_height_units s)) (1 :: 32 word)) e) []
      (of_nat (sps_height_units s + 1))" for e
    using u32_sum [of "sps_height_units s" 1] by (simp add: rd_ok_or_def reads_ok)
  have adaptive: "reads (if sps_frames_only s then rd_ok False else read_bit)
      (if sps_frames_only s then [] else [sps_adaptive s]) (\<not> sps_frames_only s \<and> sps_adaptive s)"
    using reads_bit [of "sps_adaptive s"] by (simp add: reads_ok)
  have "h264_unit s = chroma_unit ?separate ?chroma" "?chroma \<le> 3" using ok by (auto simp: h264_unit_def chroma_unit_def)
  note size_eq = h264_size_nat [OF _ _ _ this]
  have bits: "h264_bits s = number_bits 8 (sps_profile s) @ sps_constraints s @ ue (sps_id s) @
     (if high_profile s then chroma_bits s else []) @ ue (sps_frame_num s) @ poc_bits (sps_poc s) @
     ue (sps_references s) @ [sps_gaps s] @ ue (sps_width_mbs s) @ [] @ ue (sps_height_units s) @ [] @ [sps_frames_only s] @
     (if sps_frames_only s then [] else [sps_adaptive s]) @ [sps_direct s] @ crop_bits (sps_crop s) @ []"
    by (simp add: h264_bits_def)
  show ?thesis
    unfolding h264_sps_body_def bits
    by (intro reads_then [OF w(1)] reads_then [OF reads_skip] reads_then [OF reads_ue] reads_then [OF chroma]
        reads_then [OF reads_bit] reads_then [OF width] reads_then [OF height] reads_then [OF adaptive]
        reads_then [OF reads_pic_order] reads_then [OF reads_crop] reads_guard [OF u32_bounds(3)] reads_split reads_lift size_eq)
      (use ok mbs in simp_all)
qed

text \<open>The NAL unit of a parameter set: its header, then the escaped bytes; what follows the cropping is not read.\<close>

definition h264_nal :: "byte \<Rightarrow> H264Sps \<Rightarrow> bool list \<Rightarrow> byte list" where
  "h264_nal header s rest = header # escape 0 (pack (h264_bits s @ rest))"

lemma pack_length:
  assumes "8 dvd length bl" and "8 * n \<le> length bl"
  shows "n \<le> length (escape 0 (pack bl))"
  using length_pack [OF assms(1)] assms(2) length_escape [of "pack bl" 0] by linarith

text \<open>The size read from an H.264 parameter set is the size the set declares. Whatever the header's reference bits, the
  profile, the scaling lists, the picture order fields, the cropping and the bits after it: when an encoder
  writes a parameter set by the syntax of the standard, inserting emulation prevention, the parser returns the coded size
  less the cropping, as long as the coded size fits 32 bits and the picture is between one and 65535 on each
  side.\<close>

theorem h264_size_recovered:
  assumes "h264_ok s" and "8 dvd length (h264_bits s @ rest)" and "header AND 0x1f = 7"
  shows "parse_h264_sps_dimensions (h264_nal header s rest) =
    Inr (of_nat (fst (h264_picture s)), of_nat (snd (h264_picture s)))"
proof -
  have "8 * 3 \<le> length (h264_bits s @ rest)" using assms(1) by (simp add: h264_bits_def h264_ok_def)
  from pack_length [OF assms(2) this] have "\<not> length (h264_nal header s rest) < 4" by (simp add: h264_nal_def)
  moreover have "h264_bits s @ rest \<noteq> []" by (simp add: h264_bits_def)
  ultimately show ?thesis
    using parse_escaped [OF reads_h264 [OF assms(1)] assms(2)] assms(3)
    by (auto simp: parse_h264_sps_dimensions_def h264_nal_def)
qed

definition demo_sps :: H264Sps where
  "demo_sps = \<lparr>sps_profile = 100, sps_constraints = replicate 16 False, sps_id = 0, sps_chroma = 1, sps_separate = False,
     sps_luma_depth = 0, sps_chroma_depth = 0, sps_bypass = False,
     sps_matrix = Some (Some [-8] # replicate 7 None), sps_frame_num = 4, sps_poc = Poc_cycle False 1 (-2) [3],
     sps_references = 4, sps_gaps = False, sps_width_mbs = 119, sps_height_units = 67, sps_frames_only = True,
     sps_adaptive = False, sps_direct = True, sps_crop = Some (0, 0, 0, 4)\<rparr>"

lemma demo_sps_ok: "h264_ok demo_sps"
proof -
  have "matrix_ok demo_sps" by code_simp
  then show ?thesis
    by (simp add: h264_ok_def h264_picture_def demo_sps_def coded_size_def crop_size_def crop_of_def h264_unit_def high_profile_def
        HIGH_PROFILES_def chroma_unit_def frame_factor_def crop_ok_def picture_ok_def)
qed

theorem h264_size_recovered_witness:
  "parse_h264_sps_dimensions (h264_nal 0x67 demo_sps (replicate 3 True)) = Inr (1920, 1080)"
proof -
  have "8 dvd length (h264_bits demo_sps @ replicate 3 True)" by code_simp
  from h264_size_recovered [where header = "0x67", OF demo_sps_ok this] show ?thesis
    by (simp add: h264_picture_def demo_sps_def coded_size_def crop_size_def crop_of_def h264_unit_def high_profile_def
        HIGH_PROFILES_def chroma_unit_def frame_factor_def)
qed

subsection \<open>H.265\<close>

record H265Sps =
  hps_vps :: "bool list"
  hps_nesting :: bool
  hps_profile :: "bool list"
  hps_layers :: "(bool list option \<times> bool list option) list"
  hps_reserved :: "bool list"
  hps_id :: nat
  hps_chroma :: nat
  hps_separate :: bool
  hps_width :: nat
  hps_height :: nat
  hps_crop :: "(nat \<times> nat \<times> nat \<times> nat) option"

definition given :: "bool list option \<Rightarrow> bool list" where
  "given x = (case x of None \<Rightarrow> [] | Some bl \<Rightarrow> bl)"

definition h265_bits :: "H265Sps \<Rightarrow> bool list" where
  "h265_bits s = hps_vps s @ number_bits 3 (length (hps_layers s)) @ [hps_nesting s] @ hps_profile s @
     concat (map (\<lambda>(p, l). [p \<noteq> None, l \<noteq> None]) (hps_layers s)) @ hps_reserved s @
     concat (map (\<lambda>(p, l). given p @ given l) (hps_layers s)) @ ue (hps_id s) @ ue (hps_chroma s) @
     (if hps_chroma s = 3 then [hps_separate s] else []) @ ue (hps_width s) @ ue (hps_height s) @ crop_bits (hps_crop s)"

definition h265_unit :: "H265Sps \<Rightarrow> nat \<times> nat" where
  "h265_unit s = chroma_unit (hps_chroma s = 3 \<and> hps_separate s) (hps_chroma s)"

definition h265_picture :: "H265Sps \<Rightarrow> nat \<times> nat" where
  "h265_picture s = (case (crop_of (hps_crop s), h265_unit s) of ((l, r, t, b), (x, y)) \<Rightarrow>
     (hps_width s - (l + r) * x, hps_height s - (t + b) * y))"

definition h265_ok :: "H265Sps \<Rightarrow> bool" where
  "h265_ok s \<longleftrightarrow> length (hps_vps s) = 4 \<and> length (hps_layers s) \<le> 6 \<and> length (hps_profile s) = 96 \<and>
     length (hps_reserved s) = (if hps_layers s = [] then 0 else (8 - length (hps_layers s)) * 2) \<and>
     (\<forall>(p, l) \<in> set (hps_layers s). length (given p) = (if p = None then 0 else 88) \<and>
        length (given l) = (if l = None then 0 else 8)) \<and>
     hps_id s < 2 ^ 32 - 1 \<and> hps_chroma s \<le> 3 \<and> hps_width s < 2 ^ 32 - 1 \<and> hps_height s < 2 ^ 32 - 1 \<and>
     crop_ok (hps_crop s) \<and> picture_ok (h265_picture s)"

lemma reads_layer_flags:
  "reads (sub_layer_flags (length ls)) (concat (map (\<lambda>(p, l). [p \<noteq> None, l \<noteq> None]) ls)) (map (\<lambda>(p, l). (p \<noteq> None, l \<noteq> None)) ls)"
proof (induction ls)
  case Nil
  show ?case by (simp add: reads_ok)
next
  case (Cons pl ls)
  obtain p l where pl: "pl = (p, l)" by (cases pl)
  have bits: "concat (map (\<lambda>(p, l). [p \<noteq> None, l \<noteq> None]) (pl # ls)) =
      [p \<noteq> None] @ [l \<noteq> None] @ concat (map (\<lambda>(p, l). [p \<noteq> None, l \<noteq> None]) ls) @ []" by (simp add: pl)
  show ?case unfolding bits
    by (simp only: list.size add_Suc_right sub_layer_flags.simps One_nat_def add_0_right list.map pl prod.case)
      (intro reads_then [OF reads_bit] reads_then [OF Cons.IH] reads_ok)
qed

lemma reads_skip_layers:
  "(\<forall>(p, l) \<in> set ls. length (given p) = (if p = None then 0 else 88) \<and> length (given l) = (if l = None then 0 else 8)) \<Longrightarrow>
     reads (skip_sub_layers (map (\<lambda>(p, l). (p \<noteq> None, l \<noteq> None)) ls)) (concat (map (\<lambda>(p, l). given p @ given l) ls)) ()"
proof (induction ls)
  case Nil
  show ?case by (simp add: reads_ok)
next
  case (Cons pl ls)
  obtain p l where pl: "pl = (p, l)" by (cases pl)
  have p: "reads (if p \<noteq> None then skip_bits 88 else rd_ok ()) (given p) ()"
    using Cons.prems pl by (cases p) (simp_all add: given_def reads_ok reads_skip)
  have l: "reads (if l \<noteq> None then skip_bits 8 else rd_ok ()) (given l) ()"
    using Cons.prems pl by (cases l) (simp_all add: given_def reads_ok reads_skip)
  have bits: "concat (map (\<lambda>(p, l). given p @ given l) (pl # ls)) =
      given p @ given l @ concat (map (\<lambda>(p, l). given p @ given l) ls)" by (simp add: pl)
  have "reads (skip_sub_layers (map (\<lambda>(p, l). (p \<noteq> None, l \<noteq> None)) ls)) (concat (map (\<lambda>(p, l). given p @ given l) ls)) ()"
    using Cons by simp
  then show ?case unfolding bits
    by (simp only: list.map pl prod.case skip_sub_layers.simps) (intro reads_then [OF p] reads_then [OF l])
qed

lemma reads_profile_tier_level:
  assumes "h265_ok s"
  shows "reads (skip_h265_profile_tier_level (length (hps_layers s)))
    (hps_profile s @ concat (map (\<lambda>(p, l). [p \<noteq> None, l \<noteq> None]) (hps_layers s)) @ hps_reserved s @
     concat (map (\<lambda>(p, l). given p @ given l) (hps_layers s))) ()"
proof -
  note ok = assms [unfolded h265_ok_def]
  have reserved: "reads (if 0 < length (hps_layers s) then skip_bits ((8 - length (hps_layers s)) * 2) else rd_ok ())
      (hps_reserved s) ()"
    using ok by (auto simp: reads_ok intro!: reads_skip)
  have layers: "reads (skip_sub_layers (map (\<lambda>(p, l). (p \<noteq> None, l \<noteq> None)) (hps_layers s)))
      (concat (map (\<lambda>(p, l). given p @ given l) (hps_layers s))) ()"
    using ok by (intro reads_skip_layers) simp
  show ?thesis unfolding skip_h265_profile_tier_level_def
    by (intro reads_then [OF reads_skip] reads_then [OF reads_layer_flags] reads_then [OF reserved] layers) (use ok in simp_all)
qed

lemma h265_size_nat:
  assumes "h265_ok s"
  shows "h265_size (hps_chroma s = 3 \<and> hps_separate s) (of_nat (hps_chroma s)) (of_nat (hps_width s)) (of_nat (hps_height s))
      (u32_crop (crop_of (hps_crop s))) = Inr (of_nat (fst (h265_picture s)), of_nat (snd (h265_picture s)))"
proof -
  note ok = assms [unfolded h265_ok_def]
  obtain l r t b where crop: "crop_of (hps_crop s) = (l, r, t, b)" by (cases "crop_of (hps_crop s)")
  obtain x y where u: "h265_unit s = (x, y)" by (cases "h265_unit s")
  then have xy: "0 < x" "x \<le> 2" "0 < y" "y \<le> 2" by (auto simp: h265_unit_def chroma_unit_def split: if_splits)
  have picture: "h265_picture s = (hps_width s - (l + r) * x, hps_height s - (t + b) * y)"
    by (simp add: h265_picture_def crop u)
  have small: "hps_width s < 2 ^ 32" "hps_height s < 2 ^ 32" "(l + r) * x \<le> hps_width s" "(t + b) * y \<le> hps_height s"
    "picture_ok (h265_picture s)" "hps_chroma s \<le> 3"
    using ok by (auto simp: picture picture_ok_def)
  have "cropped (of_nat (hps_width s)) (of_nat l) (of_nat r) (of_nat x) = Some (of_nat (fst (h265_picture s)))"
    "cropped (of_nat (hps_height s)) (of_nat t) (of_nat b) (of_nat y) = Some (of_nat (snd (h265_picture s)))"
    unfolding picture fst_conv snd_conv by (intro cropped_nat; use small xy in simp)+
  then show ?thesis
    unfolding h265_size_def crop u32_crop_def sub_sampling_nat [OF small(6)] u [unfolded h265_unit_def] prod.case
    by (simp only: ok_or_def option.case and_then_simps prod.case fst_conv snd_conv validate_dimensions_nat [OF small(5)])
qed

lemma reads_h265:
  assumes "h265_ok s"
  shows "reads h265_sps_body (h265_bits s) (of_nat (fst (h265_picture s)), of_nat (snd (h265_picture s)))"
proof -
  note ok = assms [unfolded h265_ok_def]
  let ?tier = "hps_profile s @ concat (map (\<lambda>(p, l). [p \<noteq> None, l \<noteq> None]) (hps_layers s)) @ hps_reserved s @
     concat (map (\<lambda>(p, l). given p @ given l) (hps_layers s))"
  obtain w where w: "reads (read_bits 3) (number_bits 3 (length (hps_layers s))) w" "unat w = length (hps_layers s)"
    using reads_bits [of 3 "length (hps_layers s)"] ok by auto
  have layers: "\<not> 6 < unat w" using ok w(2) by simp
  note tier = reads_profile_tier_level [OF assms, folded w(2)]
  have "(of_nat (hps_chroma s) :: 32 word) = 3 \<longleftrightarrow> hps_chroma s = 3" using u32_eq [of "hps_chroma s" 3] ok by simp
  then have separate: "reads (if (of_nat (hps_chroma s) :: 32 word) = 3 then read_bit else rd_ok False)
      (if hps_chroma s = 3 then [hps_separate s] else []) (hps_chroma s = 3 \<and> hps_separate s)"
    using reads_bit [of "hps_separate s"] by (simp add: reads_ok)
  have bits: "h265_bits s = hps_vps s @ number_bits 3 (length (hps_layers s)) @ [hps_nesting s] @ ?tier @
     ue (hps_id s) @ ue (hps_chroma s) @ (if hps_chroma s = 3 then [hps_separate s] else []) @ ue (hps_width s) @
     ue (hps_height s) @ crop_bits (hps_crop s) @ []"
    by (simp add: h265_bits_def)
  show ?thesis
    unfolding h265_sps_body_def bits
    by (intro reads_then [OF w(1)] reads_then [OF reads_skip] reads_guard [OF layers] reads_then [OF tier]
        reads_then [OF reads_ue] reads_then [OF separate] reads_then [OF reads_bit] reads_then [OF reads_crop]
        reads_guard [OF u32_bounds(1)] reads_lift h265_size_nat [OF assms])
      (use ok in simp_all)
qed

definition h265_nal :: "byte \<Rightarrow> byte \<Rightarrow> H265Sps \<Rightarrow> bool list \<Rightarrow> byte list" where
  "h265_nal h\<^sub>1 h\<^sub>2 s rest = h\<^sub>1 # h\<^sub>2 # escape 0 (pack (h265_bits s @ rest))"

text \<open>The size read from an H.265 parameter set is the size the set declares.\<close>

theorem h265_size_recovered:
  assumes "h265_ok s" and "8 dvd length (h265_bits s @ rest)" and "drop_bit 1 h\<^sub>1 AND 0x3f = 33"
  shows "parse_h265_sps_dimensions (h265_nal h\<^sub>1 h\<^sub>2 s rest) =
    Inr (of_nat (fst (h265_picture s)), of_nat (snd (h265_picture s)))"
proof -
  have "8 * 3 \<le> length (h265_bits s @ rest)" using assms(1) by (simp add: h265_bits_def h265_ok_def)
  from pack_length [OF assms(2) this] have "\<not> length (h265_nal h\<^sub>1 h\<^sub>2 s rest) < 5" by (simp add: h265_nal_def)
  moreover have "h265_bits s @ rest \<noteq> []" by (simp add: h265_bits_def)
  ultimately show ?thesis
    using parse_escaped [OF reads_h265 [OF assms(1)] assms(2)] assms(3)
    by (auto simp: parse_h265_sps_dimensions_def h265_nal_def)
qed

section \<open>What the parsers promise of any input\<close>

definition yields :: "'a reader \<Rightarrow> ('a \<Rightarrow> bool) \<Rightarrow> bool" where
  "yields p P \<longleftrightarrow> (\<forall>r x r'. p r = Inr (x, r') \<longrightarrow> P x)"

lemma yields_then: "(\<And>x. yields (f x) P) \<Longrightarrow> yields (rd_then p f) P"
  by (auto simp: yields_def rd_then_def and_then_Inr_iff)

lemma yields_err: "yields (rd_err e) P"
  by (simp add: yields_def rd_err_def)

lemma yields_if: "yields p P \<Longrightarrow> yields q P \<Longrightarrow> yields (if c then p else q) P"
  by simp

lemma yields_split: "(\<And>a b. yields (f a b) P) \<Longrightarrow> yields (case x of (a, b) \<Rightarrow> f a b) P"
  by (cases x) simp

lemma yields_lift: "(\<And>x. res = Inr x \<Longrightarrow> P x) \<Longrightarrow> yields (rd_lift res) P"
  by (auto simp: yields_def rd_lift_def and_then_Inr_iff)

definition in_bounds :: "32 word \<times> 32 word \<Rightarrow> bool" where
  "in_bounds d \<longleftrightarrow> picture_ok (unat (fst d), unat (snd d))"

lemma validate_dimensions_bounds: "validate_dimensions w h = Inr d \<Longrightarrow> in_bounds d"
  by (auto simp: in_bounds_def picture_ok_def validate_dimensions_def word_less_nat_alt unat_gt_0 Suc_le_eq not_less split: if_splits)

lemma h264_size_bounds: "h264_size separate c w h f crops = Inr d \<Longrightarrow> in_bounds d"
  by (auto simp: h264_size_def Let_def and_then_Inr_iff split: prod.splits dest: validate_dimensions_bounds)

lemma h265_size_bounds: "h265_size separate c w h crops = Inr d \<Longrightarrow> in_bounds d"
  by (auto simp: h265_size_def Let_def and_then_Inr_iff split: prod.splits dest: validate_dimensions_bounds)

lemmas yields_intros = yields_then yields_err yields_if yields_split yields_lift

text \<open>Whatever bytes a stream carries: a size the parsers accept lies between one and 65535 on both sides.\<close>

theorem accepted_size_in_bounds:
  "parse_h264_sps_dimensions nal = Inr d \<or> parse_h265_sps_dimensions nal = Inr d \<Longrightarrow> in_bounds d"
proof -
  have "yields h264_sps_body in_bounds"
    unfolding h264_sps_body_def by (intro yields_intros) (rule h264_size_bounds)
  moreover have "yields h265_sps_body in_bounds"
    unfolding h265_sps_body_def by (intro yields_intros) (rule h265_size_bounds)
  moreover assume "parse_h264_sps_dimensions nal = Inr d \<or> parse_h265_sps_dimensions nal = Inr d"
  ultimately show ?thesis
    unfolding yields_def by (fastforce simp: parse_h264_sps_dimensions_def parse_h265_sps_dimensions_def and_then_Inr_iff split: if_splits)
qed

text \<open>The exception to exact arithmetic: a scaling list may carry a delta far outside the range of the standard, which the
  reader accepts, and adding it to the last scale leaves the range of \<open>i32\<close>. A build with overflow checks stops there;
  a release build wraps.\<close>

theorem scaling_delta_overflows:
  "reads signed_exp_golomb (se (2 ^ 31 - 1)) (2 ^ 31 - 1) \<and> wrap_i32 (8 + (2 ^ 31 - 1)) \<noteq> 8 + (2 ^ 31 - 1)"
proof
  show "reads signed_exp_golomb (se (2 ^ 31 - 1)) (2 ^ 31 - 1)" by (rule reads_se) simp
  show "wrap_i32 (8 + (2 ^ 31 - 1)) \<noteq> 8 + (2 ^ 31 - 1)" by (simp add: wrap_i32_def signed_take_bit_eq_take_bit_minus)
qed

end
