(* ===== verification/Access_Units.thy ===== *)
theory Access_Units
  imports Codec_Params
begin

text \<open>
  From RTP packets to access units (\<open>parse_rtp_packet\<close> and \<open>AccessUnitAssembler\<close> of \<open>src/backend/rtsp.rs\<close>): the
  header of a packet, the three ways a NAL unit travels (whole, aggregated, in fragments), the parameter sets put
  in front of random-access points, the bound on the size of a unit and the recovery from losses. An operation of the
  assembler takes its state and returns the state it leaves with its result: an error keeps what was changed before it.

  Shown: a packet header is read back as written; a unit never exceeds the bound; whatever mix of packets
  carries the NAL units of a picture, the assembler delivers exactly these units, with the parameter sets in their
  place; and which losses it does not survive.
\<close>

unbundle bit_operations_syntax

section \<open>RTP packets\<close>

definition MAX_INTERLEAVED_PACKET_BYTES :: nat where "MAX_INTERLEAVED_PACKET_BYTES = 65535"

record RtpPacket =
  rtp_marker :: bool
  rtp_payload_type :: byte
  rtp_sequence :: "16 word"
  rtp_timestamp :: "32 word"
  rtp_payload :: "byte list"

fun from_be_bytes :: "byte list \<Rightarrow> nat" where
  "from_be_bytes [] = 0"
| "from_be_bytes (b # bs) = unat b * 256 ^ length bs + from_be_bytes bs"

definition skip_csrc :: "byte list \<Rightarrow> nat result" where
  "skip_csrc bytes =
     (let offset = 12 + unat (bytes ! 0 AND 0x0f) * 4 in
      if length bytes < offset then Inl (rtsp_security_error ''RTP CSRC list is truncated'') else Inr offset)"

definition skip_extension :: "byte list \<Rightarrow> nat \<Rightarrow> nat result" where
  "skip_extension bytes offset =
     (if bytes ! 0 AND 0x10 = 0 then Inr offset
      else if length bytes < offset + 4 then Inl (rtsp_security_error ''RTP extension header is truncated'')
      else let words = from_be_bytes [bytes ! (offset + 2), bytes ! (offset + 3)]; after = offset + 4 + words * 4 in
        if length bytes < after then Inl (rtsp_security_error ''RTP extension body is truncated'') else Inr after)"

definition strip_padding :: "byte list \<Rightarrow> nat \<Rightarrow> nat result" where
  "strip_padding bytes offset =
     (if bytes ! 0 AND 0x20 = 0 then Inr (length bytes)
      else let padded = unat (last bytes) in
        if padded = 0 \<or> length bytes - offset < padded then Inl (rtsp_security_error ''RTP padding length is invalid'')
        else Inr (length bytes - padded))"

definition parse_rtp_packet :: "byte list \<Rightarrow> RtpPacket result" where
  "parse_rtp_packet bytes =
     (if length bytes < 12 \<or> MAX_INTERLEAVED_PACKET_BYTES < length bytes
      then Inl (rtsp_security_error ''interleaved RTP packet violates byte bounds'')
      else if drop_bit 6 (bytes ! 0) \<noteq> 2 then Inl (rtsp_security_error ''interleaved RTP packet has an invalid version'')
      else
        and_then (skip_csrc bytes) (\<lambda>fixed.
        and_then (skip_extension bytes fixed) (\<lambda>offset.
        and_then (strip_padding bytes offset) (\<lambda>end.
        if end \<le> offset then Inl (rtsp_security_error ''RTP packet has no media payload'')
        else Inr \<lparr>rtp_marker = (bytes ! 1 AND 0x80 \<noteq> 0), rtp_payload_type = bytes ! 1 AND 0x7f,
          rtp_sequence = of_nat (from_be_bytes (take 2 (drop 2 bytes))),
          rtp_timestamp = of_nat (from_be_bytes (take 4 (drop 4 bytes))),
          rtp_payload = take (end - offset) (drop offset bytes)\<rparr>))))"

section \<open>The assembler\<close>

datatype RtspCodec = H264 | H265

record RtspTrack =
  control_uri :: string
  tr_codec :: RtspCodec
  tr_payload_type :: byte
  clock_rate :: "32 word"
  tr_bootstrap_nals :: "byte list list"

record EncodedAccessUnit =
  au_bytes :: "byte list"
  au_rtp_timestamp :: "32 word"
  compressed_bytes :: u64
  au_dimensions :: "(32 word \<times> 32 word) option"
  au_random_access :: bool

record FragmentState =
  fr_timestamp :: "32 word"
  fr_expected_sequence :: "16 word"
  nal_offset :: nat

record AccessUnitAssembler =
  as_codec :: RtspCodec
  as_payload_type :: byte
  as_maximum_bytes :: u64
  as_timestamp :: "(32 word) option"
  expected_sequence :: "(16 word) option"
  fragment :: "FragmentState option"
  as_bytes :: "byte list"
  has_vcl :: bool
  has_random_access :: bool
  bootstrap_nals :: "byte list list"
  bootstrap_pending :: bool
  bootstrap_injected_for_unit :: bool
  as_dimensions :: "(32 word \<times> 32 word) option"
  incomplete_units :: u64

definition assembler_new :: "RtspTrack \<Rightarrow> u64 \<Rightarrow> AccessUnitAssembler result" where
  "assembler_new track maximum_bytes =
     (if maximum_bytes = 0 then Inl (rejected ResourceLimit ''RTSP compressed-frame bound must be positive'')
      else Inr \<lparr>as_codec = tr_codec track, as_payload_type = tr_payload_type track, as_maximum_bytes = maximum_bytes,
        as_timestamp = None, expected_sequence = None, fragment = None, as_bytes = [], has_vcl = False,
        has_random_access = False, bootstrap_nals = tr_bootstrap_nals track,
        bootstrap_pending = (tr_bootstrap_nals track \<noteq> []), bootstrap_injected_for_unit = False, as_dimensions = None,
        incomplete_units = 0\<rparr>)"

type_synonym 'a assembling = "AccessUnitAssembler \<Rightarrow> AccessUnitAssembler \<times> 'a result"

definition as_then :: "'a assembling \<Rightarrow> ('a \<Rightarrow> 'b assembling) \<Rightarrow> 'b assembling" where
  "as_then p f = (\<lambda>a. case p a of (a', Inl e) \<Rightarrow> (a', Inl e) | (a', Inr x) \<Rightarrow> f x a')"

definition as_ok :: "'a \<Rightarrow> 'a assembling" where
  "as_ok x = (\<lambda>a. (a, Inr x))"

definition as_err :: "string \<Rightarrow> 'a assembling" where
  "as_err message = (\<lambda>a. (a, Inl (rtsp_security_error message)))"

definition discard_incomplete :: "AccessUnitAssembler \<Rightarrow> AccessUnitAssembler" where
  "discard_incomplete a = a\<lparr>has_random_access := False,
     incomplete_units := (if as_bytes a \<noteq> [] \<or> fragment a \<noteq> None then saturating_add_u64 (incomplete_units a) 1
       else incomplete_units a),
     as_timestamp := None, expected_sequence := None, fragment := None, as_bytes := [], has_vcl := False,
     bootstrap_injected_for_unit := False\<rparr>"

text \<open>A length in memory fits \<open>usize\<close> and \<open>u64\<close>, so the two conversions of the source always succeed.\<close>

definition append_bytes :: "byte list \<Rightarrow> unit assembling" where
  "append_bytes bytes a =
     (if unat (as_maximum_bytes a) < length (as_bytes a) + length bytes
      then (a, Inl (rejected ResourceLimit ''RTSP compressed access unit exceeds maximumFrameBytes''))
      else (a\<lparr>as_bytes := as_bytes a @ bytes\<rparr>, Inr ()))"

definition START_CODE :: "byte list" where "START_CODE = [0, 0, 0, 1]"

definition append_start_code :: "unit assembling" where
  "append_start_code = append_bytes START_CODE"

fun parameter_set_size :: "RtspCodec \<Rightarrow> byte list \<Rightarrow> (32 word \<times> 32 word) option result" where
  "parameter_set_size H264 nal =
     (if nal \<noteq> [] \<and> nal ! 0 AND 0x1f = 7 then and_then (parse_h264_sps_dimensions nal) (\<lambda>d. Inr (Some d)) else Inr None)"
| "parameter_set_size H265 nal =
     (if 2 \<le> length nal \<and> drop_bit 1 (nal ! 0) AND 0x3f = 33 then and_then (parse_h265_sps_dimensions nal) (\<lambda>d. Inr (Some d))
      else Inr None)"

definition observe_nal :: "byte list \<Rightarrow> unit assembling" where
  "observe_nal nal a =
     (case parameter_set_size (as_codec a) nal of
        Inl e \<Rightarrow> (a, Inl e)
      | Inr None \<Rightarrow> (a, Inr ())
      | Inr (Some d) \<Rightarrow> (a\<lparr>as_dimensions := Some d\<rparr>, Inr ()))"

fun inject_nals :: "byte list list \<Rightarrow> unit assembling" where
  "inject_nals [] = as_ok ()"
| "inject_nals (nal # nals) =
     as_then (observe_nal nal) (\<lambda>_. as_then append_start_code (\<lambda>_. as_then (append_bytes nal) (\<lambda>_. inject_nals nals)))"

definition inject_bootstrap_before_vcl :: "bool \<Rightarrow> unit assembling" where
  "inject_bootstrap_before_vcl vcl a =
     (if \<not> vcl \<or> \<not> bootstrap_pending a \<or> bootstrap_injected_for_unit a then (a, Inr ())
      else as_then (inject_nals (bootstrap_nals a)) (\<lambda>_ a. (a\<lparr>bootstrap_injected_for_unit := True\<rparr>, Inr ())) a)"

definition begin_vcl :: "bool \<Rightarrow> bool \<Rightarrow> unit assembling" where
  "begin_vcl vcl random_access a =
     inject_bootstrap_before_vcl vcl
       (if vcl \<and> random_access then a\<lparr>has_random_access := True, bootstrap_pending := (bootstrap_nals a \<noteq> [])\<rparr> else a)"

fun nal_is_random_access :: "RtspCodec \<Rightarrow> byte list \<Rightarrow> bool" where
  "nal_is_random_access H264 nal \<longleftrightarrow> nal \<noteq> [] \<and> nal ! 0 AND 0x1f = 5"
| "nal_is_random_access H265 nal \<longleftrightarrow> 2 \<le> length nal \<and> drop_bit 1 (nal ! 0) AND 0x3f \<in> {16..23}"

definition append_nal :: "byte list \<Rightarrow> bool \<Rightarrow> unit assembling" where
  "append_nal nal vcl a =
     as_then (begin_vcl vcl (nal_is_random_access (as_codec a) nal)) (\<lambda>_.
     as_then (observe_nal nal) (\<lambda>_.
     as_then append_start_code (\<lambda>_.
     as_then (append_bytes nal) (\<lambda>_ a. (a\<lparr>has_vcl := has_vcl a \<or> vcl\<rparr>, Inr ()))))) a"

section \<open>Payloads\<close>

definition h264_vcl :: "byte \<Rightarrow> bool" where
  "h264_vcl header \<longleftrightarrow> header AND 0x1f \<in> {1..5}"

definition h265_vcl :: "byte \<Rightarrow> bool" where
  "h265_vcl header \<longleftrightarrow> drop_bit 1 header AND 0x3f \<le> 31"

text \<open>Aggregated NAL units, each behind its length. The two codecs differ in the least length and in the messages.\<close>

function append_aggregated :: "string \<Rightarrow> nat \<Rightarrow> (byte \<Rightarrow> bool) \<Rightarrow> byte list \<Rightarrow> unit assembling" where
  "append_aggregated name least vcl remainder a =
     (if remainder = [] then (a, Inr ())
      else if length remainder < 2 then as_err (name @ '' length is truncated'') a
      else
        let size = from_be_bytes (take 2 remainder); following = drop 2 remainder in
        if size < least \<or> length following < size then as_err (name @ '' NAL length is invalid'') a
        else (case append_nal (take size following) (vcl (following ! 0)) a of
                (a', Inl e) \<Rightarrow> (a', Inl e)
              | (a', Inr _) \<Rightarrow> append_aggregated name least vcl (drop size following) a'))"
  by pat_completeness auto
termination by (relation "measure (\<lambda>(_, _, _, remainder, _). length remainder)") auto

declare append_aggregated.simps [simp del]

text \<open>One fragment of a NAL unit: the header is rebuilt by the caller, the rest is the same for both codecs.\<close>

definition begin_fragment :: "string \<Rightarrow> byte list \<Rightarrow> bool \<Rightarrow> bool \<Rightarrow> byte list \<Rightarrow> RtpPacket \<Rightarrow> unit assembling" where
  "begin_fragment name header vcl random_access content packet a =
     (if fragment a \<noteq> None then as_err (name @ '' fragments overlap'') a
      else
        as_then (begin_vcl vcl random_access) (\<lambda>_.
        as_then append_start_code (\<lambda>_ a.
        let start = length (as_bytes a) in
        as_then (append_bytes header) (\<lambda>_.
        as_then (append_bytes content) (\<lambda>_ a.
          (a\<lparr>has_vcl := has_vcl a \<or> vcl,
             fragment := Some \<lparr>fr_timestamp = rtp_timestamp packet, fr_expected_sequence = rtp_sequence packet + 1,
               nal_offset = start\<rparr>\<rparr>, Inr ()))) a)) a)"

definition continue_fragment :: "string \<Rightarrow> bool \<Rightarrow> byte list \<Rightarrow> RtpPacket \<Rightarrow> unit assembling" where
  "continue_fragment name end content packet a =
     (case fragment a of
        None \<Rightarrow> as_err (name @ '' continuation lacks start'') a
      | Some st \<Rightarrow>
          if fr_timestamp st \<noteq> rtp_timestamp packet \<or> fr_expected_sequence st \<noteq> rtp_sequence packet
          then as_err (name @ '' sequence is discontinuous'') a
          else as_then (append_bytes content) (\<lambda>_ a.
            if end then
              (case fragment a of
                 None \<Rightarrow> as_err (name @ '' end lacks active fragment state'') a
               | Some st \<Rightarrow> observe_nal (drop (nal_offset st) (as_bytes a)) (a\<lparr>fragment := None\<rparr>))
            else (a, Inr ())) (a\<lparr>fragment := Some (st\<lparr>fr_expected_sequence := rtp_sequence packet + 1\<rparr>)\<rparr>))"

definition push_fragment ::
  "string \<Rightarrow> bool \<Rightarrow> bool \<Rightarrow> byte list \<Rightarrow> bool \<Rightarrow> bool \<Rightarrow> byte list \<Rightarrow> RtpPacket \<Rightarrow> unit assembling" where
  "push_fragment name start end header vcl random_access content packet =
     (if start \<and> end then as_err (name @ '' cannot start and end together'')
      else if start then begin_fragment name header vcl random_access content packet
      else continue_fragment name end content packet)"

definition push_h264 :: "RtpPacket \<Rightarrow> unit assembling" where
  "push_h264 packet =
     (let payload = rtp_payload packet; nal_type = payload ! 0 AND 0x1f in
      if nal_type \<in> {1..23} then append_nal payload (h264_vcl nal_type)
      else if nal_type = 24 then append_aggregated ''H.264 STAP-A'' 1 h264_vcl (drop 1 payload)
      else if nal_type = 28 then
        if length payload < 3 then as_err ''H.264 FU-A payload is truncated''
        else let rebuilt = (payload ! 0 AND 0xe0) OR (payload ! 1 AND 0x1f) in
          push_fragment ''H.264 FU-A'' (payload ! 1 AND 0x80 \<noteq> 0) (payload ! 1 AND 0x40 \<noteq> 0) [rebuilt]
            (h264_vcl rebuilt) (rebuilt AND 0x1f = 5) (drop 2 payload) packet
      else (\<lambda>a. (a, Inl (rejected UnsupportedCapability ''RTSP stream uses an unsupported H.264 RTP packetization type''))))"

definition push_h265 :: "RtpPacket \<Rightarrow> unit assembling" where
  "push_h265 packet =
     (let payload = rtp_payload packet; nal_type = drop_bit 1 (payload ! 0) AND 0x3f in
      if length payload < 2 then as_err ''H.265 RTP payload is truncated''
      else if nal_type \<le> 47 then append_nal payload (nal_type \<le> 31)
      else if nal_type = 48 then append_aggregated ''H.265 AP'' 2 h265_vcl (drop 2 payload)
      else if nal_type = 49 then
        if length payload < 4 then as_err ''H.265 FU payload is truncated''
        else let rebuilt_type = payload ! 2 AND 0x3f; rebuilt = [(payload ! 0 AND 0x81) OR push_bit 1 rebuilt_type, payload ! 1] in
          push_fragment ''H.265 FU'' (payload ! 2 AND 0x80 \<noteq> 0) (payload ! 2 AND 0x40 \<noteq> 0) rebuilt
            (rebuilt_type \<le> 31) (rebuilt_type \<in> {16..23}) (drop 3 payload) packet
      else (\<lambda>a. (a, Inl (rejected UnsupportedCapability ''RTSP stream uses an unsupported H.265 RTP packetization type''))))"

definition discard_unless :: "bool \<Rightarrow> AccessUnitAssembler \<Rightarrow> AccessUnitAssembler" where
  "discard_unless fits a = (if fits then a else discard_incomplete a)"

definition finish_unit :: "EncodedAccessUnit option assembling" where
  "finish_unit a =
     (if fragment a \<noteq> None \<or> \<not> has_vcl a \<or> as_bytes a = [] then (discard_incomplete a, Inr None)
      else
        (case as_timestamp a of
           None \<Rightarrow> as_err ''complete RTP access unit has no timestamp'' a
         | Some timestamp \<Rightarrow>
             (a\<lparr>as_timestamp := None, expected_sequence := None, has_vcl := False, has_random_access := False,
                bootstrap_pending := bootstrap_pending a \<and> \<not> bootstrap_injected_for_unit a,
                bootstrap_injected_for_unit := False, as_bytes := []\<rparr>,
              Inr (Some \<lparr>au_bytes = as_bytes a, au_rtp_timestamp = timestamp,
                compressed_bytes = of_nat (length (as_bytes a)), au_dimensions = as_dimensions a,
                au_random_access = has_random_access a\<rparr>))))"

definition push_packet :: "RtpPacket \<Rightarrow> EncodedAccessUnit option assembling" where
  "push_packet packet a =
     (if rtp_payload_type packet \<noteq> as_payload_type a then (a, Inr None)
      else
        let a1 = discard_unless (expected_sequence a \<in> {None, Some (rtp_sequence packet)}) a;
            a2 = discard_unless (as_timestamp a1 \<in> {None, Some (rtp_timestamp packet)}) a1;
            a3 = a2\<lparr>as_timestamp := Some (rtp_timestamp packet), expected_sequence := Some (rtp_sequence packet + 1)\<rparr> in
        (case (case as_codec a of H264 \<Rightarrow> push_h264 packet | H265 \<Rightarrow> push_h265 packet) a3 of
           (a4, Inl e) \<Rightarrow> if error_code_of e = ResourceLimit then (discard_incomplete a4, Inr None) else (a4, Inl e)
         | (a4, Inr _) \<Rightarrow> if rtp_marker packet then finish_unit a4 else (a4, Inr None)))"

text \<open>The loop of the worker: packets are pushed until one of them fails, which ends the session.\<close>

fun push_all :: "RtpPacket list \<Rightarrow> EncodedAccessUnit list assembling" where
  "push_all [] = as_ok []"
| "push_all (p # ps) = as_then (push_packet p) (\<lambda>unit. as_then (push_all ps) (\<lambda>units. as_ok (case unit of None \<Rightarrow> units | Some u \<Rightarrow> u # units)))"

section \<open>What every operation keeps\<close>

definition keeps :: "(AccessUnitAssembler \<Rightarrow> bool) \<Rightarrow> 'a assembling \<Rightarrow> bool" where
  "keeps P p \<longleftrightarrow> (\<forall>a. P a \<longrightarrow> P (fst (p a)))"

lemma keepsD: "keeps P p \<Longrightarrow> P a \<Longrightarrow> P (fst (p a))"
  by (simp add: keeps_def)

lemma keeps_then: "keeps P p \<Longrightarrow> (\<And>x. keeps P (f x)) \<Longrightarrow> keeps P (as_then p f)"
  unfolding keeps_def as_then_def by (fastforce split: prod.splits sum.splits)

lemma keeps_pure: "keeps P (as_ok x)" "keeps P (as_err e)" "keeps P (\<lambda>a. (a, r))"
  by (simp_all add: keeps_def as_ok_def as_err_def)

text \<open>A statement about the assembler that no flag, no fragment state and no size decides, and that a checked append keeps, is
  kept by everything a packet's payload does.\<close>

locale assembler_invariant =
  fixes P :: "AccessUnitAssembler \<Rightarrow> bool"
  assumes P_fragment [simp]: "P (a\<lparr>fragment := f\<rparr>) = P a"
    and P_vcl [simp]: "P (a\<lparr>has_vcl := v\<rparr>) = P a"
    and P_injected [simp]: "P (a\<lparr>bootstrap_injected_for_unit := v\<rparr>) = P a"
    and P_dimensions [simp]: "P (a\<lparr>as_dimensions := d\<rparr>) = P a"
    and P_armed [simp]: "P (a\<lparr>has_random_access := v, bootstrap_pending := w\<rparr>) = P a"
    and P_append: "P a \<Longrightarrow> length (as_bytes a) + length bs \<le> unat (as_maximum_bytes a) \<Longrightarrow> P (a\<lparr>as_bytes := as_bytes a @ bs\<rparr>)"
begin

lemma keeps_append: "keeps P (append_bytes bs)" "keeps P append_start_code"
  by (simp_all add: keeps_def append_bytes_def append_start_code_def P_append)

lemma keeps_observe: "keeps P (observe_nal nal)"
  by (auto simp: keeps_def observe_nal_def split: sum.splits option.splits)

lemma keeps_marks:
  "keeps P (\<lambda>a. (a\<lparr>has_vcl := v a\<rparr>, r))" "keeps P (\<lambda>a. (a\<lparr>has_vcl := v a, fragment := f\<rparr>, r))"
  "keeps P (\<lambda>a. (a\<lparr>bootstrap_injected_for_unit := b\<rparr>, r))"
  by (simp_all add: keeps_def)

lemmas keeps_intros = keeps_then keeps_pure keeps_append keeps_observe keeps_marks

lemma keeps_inject: "keeps P (inject_nals nals)"
  by (induction nals) (auto intro!: keeps_intros)

lemma keeps_begin: "keeps P (begin_vcl vcl ra)"
proof -
  have "keeps P (as_then (inject_nals nals) (\<lambda>_ a. (a\<lparr>bootstrap_injected_for_unit := True\<rparr>, Inr ())))" for nals
    by (intro keeps_intros keeps_inject)
  then show ?thesis unfolding keeps_def begin_vcl_def inject_bootstrap_before_vcl_def by simp
qed

lemma keeps_append_nal: "keeps P (append_nal nal vcl)"
proof -
  have "keeps P (as_then (begin_vcl vcl ra) (\<lambda>_. as_then (observe_nal nal) (\<lambda>_. as_then append_start_code (\<lambda>_.
      as_then (append_bytes nal) (\<lambda>_ a. (a\<lparr>has_vcl := has_vcl a \<or> vcl\<rparr>, Inr ()))))))" for ra
    by (intro keeps_intros keeps_begin)
  then show ?thesis by (simp add: keeps_def append_nal_def)
qed

lemma keeps_aggregated: "P a \<Longrightarrow> P (fst (append_aggregated name least vcl remainder a))"
proof (induction name least vcl remainder a rule: append_aggregated.induct)
  case (1 name least vcl remainder a)
  let ?size = "from_be_bytes (take 2 remainder)"
  have "P (fst (append_nal (take ?size (drop 2 remainder)) (vcl (drop 2 remainder ! 0)) a))"
    by (rule keepsD [OF keeps_append_nal 1(2)])
  then show ?case using 1
    by (subst append_aggregated.simps) (auto simp: as_err_def Let_def split: prod.splits sum.splits)
qed

lemma keeps_begin_fragment: "keeps P (begin_fragment name header vcl ra content packet)"
proof -
  let ?mark = "\<lambda>start (_ :: unit) a. (a\<lparr>has_vcl := has_vcl a \<or> vcl, fragment := Some \<lparr>fr_timestamp = rtp_timestamp packet,
    fr_expected_sequence = rtp_sequence packet + 1, nal_offset = start\<rparr>\<rparr>, Inr ())"
  have "keeps P (as_then (append_bytes header) (\<lambda>_. as_then (append_bytes content) (?mark start)))" for start
    by (intro keeps_intros)
  then have "keeps P (\<lambda>a. let start = length (as_bytes a) in as_then (append_bytes header) (\<lambda>_. as_then (append_bytes content) (?mark start)) a)"
    by (simp add: keeps_def Let_def)
  then have "keeps P (as_then (begin_vcl vcl ra) (\<lambda>_. as_then append_start_code (\<lambda>_ a.
        let start = length (as_bytes a) in as_then (append_bytes header) (\<lambda>_. as_then (append_bytes content) (?mark start)) a)))"
    by (intro keeps_then keeps_begin keeps_append)
  then show ?thesis by (simp add: keeps_def begin_fragment_def as_err_def)
qed

lemma keeps_fragment: "keeps P (push_fragment name start end header vcl ra content packet)"
proof -
  have c: "keeps P (\<lambda>a. if end then (case fragment a of None \<Rightarrow> as_err m a
      | Some st \<Rightarrow> observe_nal (drop (nal_offset st) (as_bytes a)) (a\<lparr>fragment := None\<rparr>)) else (a, Inr ()))" for m
    using keepsD [OF keeps_observe] by (simp add: keeps_def as_err_def split: option.splits)
  have "keeps P (continue_fragment name end content packet)"
    using keepsD [OF keeps_then [OF keeps_append(1) c]]
    by (simp add: keeps_def continue_fragment_def as_err_def split: option.splits)
  then show ?thesis by (simp add: push_fragment_def keeps_pure keeps_begin_fragment)
qed

lemma keeps_payload: "keeps P (push_h264 packet)" "keeps P (push_h265 packet)"
  using keeps_aggregated
  by (auto simp: push_h264_def push_h265_def Let_def keeps_fragment keeps_append_nal keeps_pure) (simp_all add: keeps_def)

end

definition within_bound :: "u64 \<Rightarrow> AccessUnitAssembler \<Rightarrow> bool" where
  "within_bound m a \<longleftrightarrow> as_maximum_bytes a = m \<and> length (as_bytes a) \<le> unat m"

definition placed :: "RtspCodec \<Rightarrow> byte \<Rightarrow> (32 word) option \<Rightarrow> (16 word) option \<Rightarrow> AccessUnitAssembler \<Rightarrow> bool" where
  "placed c pt ts q a \<longleftrightarrow> as_codec a = c \<and> as_payload_type a = pt \<and> as_timestamp a = ts \<and> expected_sequence a = q"

interpretation bound: assembler_invariant "within_bound m" for m
  by unfold_locales (simp_all add: within_bound_def)

interpretation place: assembler_invariant "placed c pt ts q" for c pt ts q
  by unfold_locales (simp_all add: placed_def)

lemma keeps_discard: "within_bound m a \<Longrightarrow> within_bound m (discard_incomplete a)" "within_bound m a \<Longrightarrow> within_bound m (discard_unless b a)"
  by (simp_all add: within_bound_def discard_incomplete_def discard_unless_def)

lemma keeps_finish: "keeps (within_bound m) finish_unit"
  by (auto simp: keeps_def finish_unit_def as_err_def within_bound_def discard_incomplete_def split: option.splits)

lemma finish_within:
  "within_bound m a \<Longrightarrow> snd (finish_unit a) = Inr (Some u) \<Longrightarrow>
     au_bytes u \<noteq> [] \<and> length (au_bytes u) \<le> unat m \<and> compressed_bytes u = of_nat (length (au_bytes u))"
  by (auto simp: finish_unit_def as_err_def within_bound_def split: if_splits option.splits)

text \<open>What a packet does after the checks of its sequence number and its timestamp.\<close>

definition push_payload :: "RtpPacket \<Rightarrow> unit assembling" where
  "push_payload packet a = (case as_codec a of H264 \<Rightarrow> push_h264 packet a | H265 \<Rightarrow> push_h265 packet a)"

definition admit_packet :: "RtpPacket \<Rightarrow> AccessUnitAssembler \<Rightarrow> AccessUnitAssembler" where
  "admit_packet packet a =
     (let a1 = discard_unless (expected_sequence a \<in> {None, Some (rtp_sequence packet)}) a;
          a2 = discard_unless (as_timestamp a1 \<in> {None, Some (rtp_timestamp packet)}) a1
      in a2\<lparr>as_timestamp := Some (rtp_timestamp packet), expected_sequence := Some (rtp_sequence packet + 1)\<rparr>)"

lemma admit_simps [simp]:
  "as_codec (admit_packet packet a) = as_codec a" "as_payload_type (admit_packet packet a) = as_payload_type a"
  "as_maximum_bytes (admit_packet packet a) = as_maximum_bytes a"
  by (simp_all add: admit_packet_def Let_def discard_unless_def discard_incomplete_def)

lemma push_packet_unfold:
  "push_packet packet a =
     (if rtp_payload_type packet \<noteq> as_payload_type a then (a, Inr None)
      else case push_payload packet (admit_packet packet a) of
        (a', Inl e) \<Rightarrow> if error_code_of e = ResourceLimit then (discard_incomplete a', Inr None) else (a', Inl e)
      | (a', Inr _) \<Rightarrow> if rtp_marker packet then finish_unit a' else (a', Inr None))"
  by (simp add: push_packet_def push_payload_def Let_def admit_packet_def discard_unless_def discard_incomplete_def
      split: RtspCodec.splits)

lemma admit_within: "within_bound m a \<Longrightarrow> within_bound m (admit_packet packet a)"
  by (simp add: admit_packet_def Let_def within_bound_def discard_unless_def discard_incomplete_def)

lemma push_within:
  assumes "within_bound m a"
  shows "within_bound m (fst (push_packet packet a))"
    and "snd (push_packet packet a) = Inr (Some u) \<Longrightarrow>
      au_bytes u \<noteq> [] \<and> length (au_bytes u) \<le> unat m \<and> compressed_bytes u = of_nat (length (au_bytes u))"
proof -
  have w: "within_bound m (fst (push_payload packet (admit_packet packet a)))"
    using admit_within [OF assms] bound.keeps_payload by (auto simp: push_payload_def keeps_def split: RtspCodec.splits)
  then show "within_bound m (fst (push_packet packet a))"
    using assms keeps_discard(1) keepsD [OF keeps_finish]
    by (auto simp: push_packet_unfold split: prod.splits sum.splits)
  show "snd (push_packet packet a) = Inr (Some u) \<Longrightarrow>
      au_bytes u \<noteq> [] \<and> length (au_bytes u) \<le> unat m \<and> compressed_bytes u = of_nat (length (au_bytes u))"
    using w finish_within [of m]
    by (auto simp: push_packet_unfold split: prod.splits sum.splits if_splits)
qed

lemma units_within:
  "within_bound m a \<Longrightarrow> push_all packets a = (a', Inr units) \<Longrightarrow> u \<in> set units \<Longrightarrow>
     au_bytes u \<noteq> [] \<and> length (au_bytes u) \<le> unat m \<and> compressed_bytes u = of_nat (length (au_bytes u))"
proof (induction packets arbitrary: a units)
  case (Cons p ps)
  from Cons.prems(2) obtain a1 r units' where p: "push_packet p a = (a1, Inr r)" "push_all ps a1 = (a', Inr units')"
    "units = (case r of None \<Rightarrow> units' | Some v \<Rightarrow> v # units')"
    by (auto simp: as_then_def as_ok_def split: prod.splits sum.splits)
  then show ?case using push_within [OF Cons.prems(1), of p] Cons.IH [of a1 units'] Cons.prems(3) by (auto split: option.splits)
qed (simp add: as_ok_def)

section \<open>What a NAL unit adds\<close>

definition annex_b :: "byte list list \<Rightarrow> byte list" where
  "annex_b nals = concat (map (\<lambda>nal. START_CODE @ nal) nals)"

lemma annex_b_simps [simp]:
  "annex_b [] = []" "annex_b (nal # nals) = START_CODE @ nal @ annex_b nals" "annex_b (ns @ ms) = annex_b ns @ annex_b ms"
  by (simp_all add: annex_b_def)

fun is_vcl :: "RtspCodec \<Rightarrow> byte list \<Rightarrow> bool" where
  "is_vcl H264 nal \<longleftrightarrow> h264_vcl (nal ! 0)"
| "is_vcl H265 nal \<longleftrightarrow> h265_vcl (nal ! 0)"

definition readable :: "RtspCodec \<Rightarrow> byte list \<Rightarrow> bool" where
  "readable c nal \<longleftrightarrow> \<not> isl (parameter_set_size c nal)"

definition dims_after :: "RtspCodec \<Rightarrow> (32 word \<times> 32 word) option \<Rightarrow> byte list \<Rightarrow> (32 word \<times> 32 word) option" where
  "dims_after c d nal = (case parameter_set_size c nal of Inr (Some d') \<Rightarrow> Some d' | _ \<Rightarrow> d)"

definition put_raw :: "byte list list \<Rightarrow> AccessUnitAssembler \<Rightarrow> AccessUnitAssembler" where
  "put_raw nals a = a\<lparr>as_dimensions := foldl (dims_after (as_codec a)) (as_dimensions a) nals, as_bytes := as_bytes a @ annex_b nals\<rparr>"

definition random_point :: "RtspCodec \<Rightarrow> byte list \<Rightarrow> bool" where
  "random_point c nal \<longleftrightarrow> is_vcl c nal \<and> nal_is_random_access c nal"

definition armed :: "byte list \<Rightarrow> AccessUnitAssembler \<Rightarrow> AccessUnitAssembler" where
  "armed nal a = (if random_point (as_codec a) nal
     then a\<lparr>has_random_access := True, bootstrap_pending := (bootstrap_nals a \<noteq> [])\<rparr> else a)"

definition opened :: "byte list \<Rightarrow> AccessUnitAssembler \<Rightarrow> AccessUnitAssembler" where
  "opened nal a =
     (if is_vcl (as_codec a) nal \<and> bootstrap_pending (armed nal a) \<and> \<not> bootstrap_injected_for_unit a
      then (put_raw (bootstrap_nals a) (armed nal a))\<lparr>bootstrap_injected_for_unit := True\<rparr> else armed nal a)"

definition put_nal :: "AccessUnitAssembler \<Rightarrow> byte list \<Rightarrow> AccessUnitAssembler" where
  "put_nal a nal = (put_raw [nal] (opened nal a))\<lparr>has_vcl := has_vcl a \<or> is_vcl (as_codec a) nal\<rparr>"

lemma frame_simps [simp]:
  "as_codec (put_raw nals a) = as_codec a" "as_codec (armed nal a) = as_codec a" "as_codec (opened nal a) = as_codec a"
  "as_codec (put_nal a nal) = as_codec a"
  "as_maximum_bytes (put_raw nals a) = as_maximum_bytes a" "as_maximum_bytes (armed nal a) = as_maximum_bytes a"
  "as_maximum_bytes (opened nal a) = as_maximum_bytes a" "as_maximum_bytes (put_nal a nal) = as_maximum_bytes a"
  "as_payload_type (put_nal a nal) = as_payload_type a" "as_payload_type (opened nal a) = as_payload_type a"
  "bootstrap_nals (put_nal a nal) = bootstrap_nals a" "bootstrap_nals (armed nal a) = bootstrap_nals a"
  "fragment (put_raw nals a) = fragment a" "fragment (armed nal a) = fragment a"
  "fragment (opened nal a) = fragment a" "fragment (put_nal a nal) = fragment a"
  "has_vcl (opened nal a) = has_vcl a" "as_bytes (armed nal a) = as_bytes a"
  "bootstrap_injected_for_unit (armed nal a) = bootstrap_injected_for_unit a"
  by (simp_all add: put_raw_def armed_def opened_def put_nal_def)

lemma fold_frame_simps [simp]:
  "as_codec (foldl put_nal a nals) = as_codec a" "as_maximum_bytes (foldl put_nal a nals) = as_maximum_bytes a"
  "as_payload_type (foldl put_nal a nals) = as_payload_type a" "bootstrap_nals (foldl put_nal a nals) = bootstrap_nals a"
  "fragment (foldl put_nal a nals) = fragment a"
  by (induction nals arbitrary: a) simp_all

lemma length_opened: "length (as_bytes a) \<le> length (as_bytes (opened nal a))"
  by (simp add: opened_def put_raw_def)

lemma length_put: "length (as_bytes (put_nal a nal)) = length (as_bytes (opened nal a)) + 4 + length nal"
  by (simp add: put_nal_def put_raw_def START_CODE_def)

lemma length_fold: "length (as_bytes a) \<le> length (as_bytes (foldl put_nal a nals))"
proof (induction nals arbitrary: a)
  case (Cons nal nals)
  then show ?case using Cons.IH [of "put_nal a nal"] length_put [of a nal] length_opened [of a nal] by simp
qed simp

definition fits :: "AccessUnitAssembler \<Rightarrow> bool" where
  "fits a \<longleftrightarrow> length (as_bytes a) \<le> unat (as_maximum_bytes a)"

lemma fits_prefix: "fits (foldl put_nal a nals) \<Longrightarrow> fits a"
  using length_fold [of a nals] by (simp add: fits_def)

lemma append_bytes_fits: "fits (a\<lparr>as_bytes := as_bytes a @ bs\<rparr>) \<Longrightarrow> append_bytes bs a = (a\<lparr>as_bytes := as_bytes a @ bs\<rparr>, Inr ())"
  by (simp add: append_bytes_def fits_def)

lemma observe_readable: "readable (as_codec a) nal \<Longrightarrow> observe_nal nal a = (a\<lparr>as_dimensions := dims_after (as_codec a) (as_dimensions a) nal\<rparr>, Inr ())"
  by (auto simp: observe_nal_def readable_def dims_after_def split: sum.splits option.splits)

lemma inject_nals_fits:
  "\<forall>nal \<in> set nals. readable (as_codec a) nal \<Longrightarrow> fits (put_raw nals a) \<Longrightarrow> inject_nals nals a = (put_raw nals a, Inr ())"
proof (induction nals arbitrary: a)
  case Nil
  then show ?case by (simp add: as_ok_def put_raw_def)
next
  case (Cons nal nals)
  have "fits (put_raw nals (put_raw [nal] a))" using Cons.prems(2) by (simp add: put_raw_def fits_def)
  from Cons.IH [OF _ this] Cons.prems show ?case
    by (simp add: as_then_def observe_readable append_start_code_def append_bytes_def put_raw_def fits_def)
qed

lemma begin_vcl_fits:
  assumes "\<forall>n \<in> set (bootstrap_nals a). readable (as_codec a) n" and "fits (opened nal a)"
  shows "begin_vcl (is_vcl (as_codec a) nal) (nal_is_random_access (as_codec a) nal) a = (opened nal a, Inr ())"
proof -
  have a: "(if is_vcl (as_codec a) nal \<and> nal_is_random_access (as_codec a) nal
      then a\<lparr>has_random_access := True, bootstrap_pending := (bootstrap_nals a \<noteq> [])\<rparr> else a) = armed nal a"
    by (simp add: armed_def random_point_def)
  show ?thesis
  proof (cases "is_vcl (as_codec a) nal \<and> bootstrap_pending (armed nal a) \<and> \<not> bootstrap_injected_for_unit a")
    case True
    then have "fits (put_raw (bootstrap_nals a) (armed nal a))" using assms(2) by (simp add: opened_def fits_def)
    then show ?thesis using True assms(1) inject_nals_fits [of "bootstrap_nals a" "armed nal a"]
      unfolding begin_vcl_def a by (simp add: inject_bootstrap_before_vcl_def opened_def as_then_def)
  next
    case False
    then show ?thesis unfolding begin_vcl_def a by (auto simp: inject_bootstrap_before_vcl_def opened_def)
  qed
qed

lemma append_nal_fits:
  assumes "\<forall>n \<in> set (bootstrap_nals a). readable (as_codec a) n" and "readable (as_codec a) nal" and "fits (put_nal a nal)"
  shows "append_nal nal (is_vcl (as_codec a) nal) a = (put_nal a nal, Inr ())"
proof -
  have "fits (opened nal a)" "length (as_bytes (opened nal a)) + 4 + length nal \<le> unat (as_maximum_bytes a)"
    using assms(3) length_put [of a nal] by (simp_all add: fits_def)
  then show ?thesis
    using begin_vcl_fits [OF assms(1), of nal] assms(2) observe_readable [of "opened nal a" nal]
    by (simp add: append_nal_def as_then_def append_start_code_def append_bytes_def START_CODE_def put_nal_def put_raw_def)
qed

section \<open>Carriers\<close>

text \<open>The ways a sender may carry NAL units: one packet for one unit, one packet for several, several packets for one. The
  first component of an aggregate is its payload header.\<close>

datatype carrier = Whole "byte list" | Together "byte list" "byte list list" | Pieces "byte list" "byte list" "byte list list" "byte list"

fun nals_of :: "carrier \<Rightarrow> byte list list" where
  "nals_of (Whole nal) = [nal]"
| "nals_of (Together _ nals) = nals"
| "nals_of (Pieces header first middle final) = [header @ first @ concat middle @ final]"

definition sized :: "byte list \<Rightarrow> byte list" where
  "sized nal = of_nat (length nal div 256) # of_nat (length nal) # nal"

fun fragment_header :: "RtspCodec \<Rightarrow> byte list \<Rightarrow> byte \<Rightarrow> byte list" where
  "fragment_header H264 header flag = [(header ! 0 AND 0xe0) OR 28, flag OR (header ! 0 AND 0x1f)]"
| "fragment_header H265 header flag = [(header ! 0 AND 0x81) OR 98, header ! 1, flag OR (drop_bit 1 (header ! 0) AND 0x3f)]"

fun payloads :: "RtspCodec \<Rightarrow> carrier \<Rightarrow> byte list list" where
  "payloads c (Whole nal) = [nal]"
| "payloads c (Together header nals) = [header @ concat (map sized nals)]"
| "payloads c (Pieces header first middle final) =
     (fragment_header c header 0x80 @ first) # map (\<lambda>m. fragment_header c header 0 @ m) middle @ [fragment_header c header 0x40 @ final]"

fun nal_type :: "RtspCodec \<Rightarrow> byte list \<Rightarrow> byte" where
  "nal_type H264 nal = nal ! 0 AND 0x1f"
| "nal_type H265 nal = drop_bit 1 (nal ! 0) AND 0x3f"

fun header_size :: "RtspCodec \<Rightarrow> nat" where
  "header_size H264 = 1"
| "header_size H265 = 2"

fun carrier_ok :: "RtspCodec \<Rightarrow> carrier \<Rightarrow> bool" where
  "carrier_ok c (Whole nal) \<longleftrightarrow> header_size c \<le> length nal \<and>
     (case c of H264 \<Rightarrow> nal_type c nal \<in> {1..23} | H265 \<Rightarrow> nal_type c nal \<le> 47)"
| "carrier_ok c (Together header nals) \<longleftrightarrow> length header = header_size c \<and>
     nal_type c header = (case c of H264 \<Rightarrow> 24 | H265 \<Rightarrow> 48) \<and> (\<forall>nal \<in> set nals. header_size c \<le> length nal \<and> length nal < 65536)"
| "carrier_ok c (Pieces header first middle final) \<longleftrightarrow> length header = header_size c \<and>
     (\<forall>m \<in> set (first # middle @ [final]). m \<noteq> [])"

lemma byte_eq_bits:
  "(a :: byte) = b \<longleftrightarrow> (bit a 0 = bit b 0) \<and> (bit a 1 = bit b 1) \<and> (bit a 2 = bit b 2) \<and> (bit a 3 = bit b 3) \<and>
     (bit a 4 = bit b 4) \<and> (bit a 5 = bit b 5) \<and> (bit a 6 = bit b 6) \<and> (bit a 7 = bit b 7)" (is "_ \<longleftrightarrow> ?bits")
proof -
  have "a = b \<longleftrightarrow> (\<forall>n < 8. bit a n = bit b n)"
    by (auto simp: bit_eq_iff dest: bit_imp_le_length)
  also have "\<dots> \<longleftrightarrow> ?bits" by (simp add: numeral_eq_Suc All_less_Suc conj_ac)
  finally show ?thesis .
qed

lemma fragment_h264:
  "((h AND 0xe0) OR 28) AND 0x1f = (28 :: byte)"
  "f AND 0x1f = 0 \<Longrightarrow> (((h AND 0xe0) OR 28) AND 0xe0) OR ((f OR (h AND 0x1f)) AND 0x1f) = (h :: byte)"
  "(f OR (h AND 0x1f)) AND 0x80 = f AND (0x80 :: byte)" "(f OR (h AND 0x1f)) AND 0x40 = f AND (0x40 :: byte)"
  by (auto simp: byte_eq_bits bit_simps)

lemma fragment_h265:
  "drop_bit 1 ((h AND 0x81) OR 98) AND 0x3f = (49 :: byte)"
  "f AND 0x3f = 0 \<Longrightarrow> (f OR (drop_bit 1 h AND 0x3f)) AND 0x3f = drop_bit 1 h AND (0x3f :: byte)"
  "(((h AND 0x81) OR 98) AND 0x81) OR push_bit 1 (drop_bit 1 h AND 0x3f) = (h :: byte)"
  "(f OR (drop_bit 1 h AND 0x3f)) AND 0x80 = f AND (0x80 :: byte)" "(f OR (drop_bit 1 h AND 0x3f)) AND 0x40 = f AND (0x40 :: byte)"
  by (unfold byte_eq_bits bit_or_iff bit_and_iff bit_push_bit_iff bit_drop_bit_eq) (auto simp: numeral_eq_Suc)

definition rtp_packet :: "byte \<Rightarrow> 32 word \<Rightarrow> 16 word \<Rightarrow> bool \<Rightarrow> byte list \<Rightarrow> RtpPacket" where
  "rtp_packet pt ts q m payload = \<lparr>rtp_marker = m, rtp_payload_type = pt, rtp_sequence = q, rtp_timestamp = ts, rtp_payload = payload\<rparr>"

lemma rtp_packet_simps [simp]:
  "rtp_marker (rtp_packet pt ts q m payload) = m" "rtp_payload_type (rtp_packet pt ts q m payload) = pt"
  "rtp_sequence (rtp_packet pt ts q m payload) = q" "rtp_timestamp (rtp_packet pt ts q m payload) = ts"
  "rtp_payload (rtp_packet pt ts q m payload) = payload"
  by (simp_all add: rtp_packet_def)

fun fu_name :: "RtspCodec \<Rightarrow> string" where
  "fu_name H264 = ''H.264 FU-A''"
| "fu_name H265 = ''H.265 FU''"

lemma push_h265_fragment:
  assumes "4 \<le> length p" and "drop_bit 1 (p ! 0) AND 0x3f = 49" and "p ! 2 AND 0x3f = t" and "(p ! 0 AND 0x81) OR push_bit 1 t = h"
    and "p ! 2 AND 0x80 = s" and "p ! 2 AND 0x40 = e" and "rtp_payload packet = p"
  shows "push_h265 packet = push_fragment ''H.265 FU'' (s \<noteq> 0) (e \<noteq> 0) [h, p ! 1] (t \<le> 31) (t \<in> {16..23}) (drop 3 p) packet"
proof -
  have "\<not> length p < 2" "\<not> length p < 4" using assms(1) by simp_all
  then show ?thesis unfolding push_h265_def Let_def assms by simp
qed

lemma push_payload_fragment:
  assumes "length header = header_size (as_codec a)" and "m \<noteq> []" and "nal = header @ rest" and "f \<in> {0x80, 0, 0x40}"
  shows "push_payload (rtp_packet pt ts q k (fragment_header (as_codec a) header f @ m)) a =
    push_fragment (fu_name (as_codec a)) (f = 0x80) (f = 0x40) header (is_vcl (as_codec a) nal)
      (nal_is_random_access (as_codec a) nal) m (rtp_packet pt ts q k (fragment_header (as_codec a) header f @ m)) a"
proof (cases "as_codec a")
  case H264
  then obtain h where "header = [h]" using assms(1) by (cases header) auto
  moreover have "f AND 0x1f = 0" "(f AND 0x80 \<noteq> 0) = (f = 0x80)" "(f AND 0x40 \<noteq> 0) = (f = 0x40)" using assms(4) by auto
  ultimately show ?thesis using H264 assms(2,3)
    by (cases m) (auto simp: push_payload_def push_h264_def Let_def fragment_h264)
next
  case H265
  then obtain h h' where header: "header = [h, h']" using assms(1) by (cases header; cases "tl header") auto
  let ?p = "fragment_header H265 header f @ m"
  have f: "f AND 0x3f = 0" "(f AND 0x80 \<noteq> 0) = (f = 0x80)" "(f AND 0x40 \<noteq> 0) = (f = 0x40)" using assms(4) by auto
  have "4 \<le> length ?p" using assms(2) by (cases m) simp_all
  moreover have p: "?p ! 0 = (h AND 0x81) OR 98" "?p ! 1 = h'" "?p ! 2 = f OR (drop_bit 1 h AND 0x3f)" "drop 3 ?p = m"
    using header by simp_all
  ultimately have "push_h265 (rtp_packet pt ts q k ?p) = push_fragment ''H.265 FU'' (f AND 0x80 \<noteq> 0) (f AND 0x40 \<noteq> 0) [h, ?p ! 1]
      (drop_bit 1 h AND 0x3f \<le> 31) (drop_bit 1 h AND 0x3f \<in> {16..23}) (drop 3 ?p) (rtp_packet pt ts q k ?p)"
    by (intro push_h265_fragment) (simp_all only: p fragment_h265(1,3,4,5) fragment_h265(2) [OF f(1)] rtp_packet_simps)
  then show ?thesis using H265 header assms(3) f(2,3) p by (simp add: push_payload_def h265_vcl_def)
qed

lemma push_payload_whole:
  assumes "carrier_ok (as_codec a) (Whole nal)"
  shows "push_payload (rtp_packet pt ts q k nal) a = append_nal nal (is_vcl (as_codec a) nal) a"
  using assms by (cases "as_codec a") (auto simp: push_payload_def push_h264_def push_h265_def Let_def h264_vcl_def h265_vcl_def)

lemma sized_not_Nil [simp]: "sized nal \<noteq> []"
  by (simp add: sized_def)

lemma from_be_sized: "length nal < 65536 \<Longrightarrow> from_be_bytes (take 2 (sized nal @ rest)) = length nal"
  by (simp add: sized_def numeral_2_eq_2 unat_of_nat)

lemma aggregated_fits:
  assumes "\<forall>n \<in> set (bootstrap_nals a) \<union> set nals. readable (as_codec a) n" and "fits (foldl put_nal a nals)"
    and "\<forall>n \<in> set nals. least \<le> length n \<and> length n < 65536" and "0 < least" and "\<And>nal. is_vcl (as_codec a) nal = vcl (nal ! 0)"
  shows "append_aggregated name least vcl (concat (map sized nals)) a = (foldl put_nal a nals, Inr ())"
  using assms
proof (induction nals arbitrary: a)
  case Nil
  then show ?case by (simp add: append_aggregated.simps)
next
  case (Cons nal nals)
  let ?rest = "concat (map sized nals)"
  have "length (sized nal @ ?rest) \<ge> 2" "drop 2 (sized nal @ ?rest) = nal @ ?rest" by (simp_all add: sized_def)
  moreover have "fits (put_nal a nal)" using Cons.prems(2) fits_prefix by simp
  then have "append_nal nal (vcl (nal ! 0)) a = (put_nal a nal, Inr ())"
    using append_nal_fits [of a nal] Cons.prems(1,5) by simp
  moreover have "append_aggregated name least vcl ?rest (put_nal a nal) = (foldl put_nal (put_nal a nal) nals, Inr ())"
    by (rule Cons.IH) (use Cons.prems in auto)
  moreover have "(nal @ ?rest) ! 0 = nal ! 0" using Cons.prems(3,4) by (auto simp: nth_append)
  ultimately show ?case using Cons.prems(3) from_be_sized [of nal ?rest]
    by (subst append_aggregated.simps) (auto simp: Let_def)
qed

section \<open>A unit packet by packet\<close>

definition aim :: "32 word \<Rightarrow> 16 word \<Rightarrow> AccessUnitAssembler \<Rightarrow> AccessUnitAssembler" where
  "aim ts q a = a\<lparr>as_timestamp := Some ts, expected_sequence := Some q\<rparr>"

lemma aim_simps [simp]:
  "as_codec (aim ts q a) = as_codec a" "as_maximum_bytes (aim ts q a) = as_maximum_bytes a" "fragment (aim ts q a) = fragment a"
  "as_payload_type (aim ts q a) = as_payload_type a" "bootstrap_nals (aim ts q a) = bootstrap_nals a" "as_bytes (aim ts q a) = as_bytes a"
  "has_vcl (aim ts q a) = has_vcl a" "aim ts q (aim ts' q' a) = aim ts q a"
  "as_timestamp (aim ts q a) = Some ts" "expected_sequence (aim ts q a) = Some q" "fits (aim ts q a) = fits a"
  by (simp_all add: aim_def fits_def)

lemma opened_aim [simp]: "opened nal (aim ts q a) = aim ts q (opened nal a)"
  by (cases a) (simp add: opened_def armed_def put_raw_def aim_def)

lemma put_nal_aim [simp]: "put_nal (aim ts q a) nal = aim ts q (put_nal a nal)"
  unfolding put_nal_def opened_aim by (simp add: put_raw_def aim_def)

lemma fold_put_aim [simp]: "foldl put_nal (aim ts q a) nals = aim ts q (foldl put_nal a nals)"
  by (induction nals arbitrary: a) simp_all

fun absorb :: "byte \<Rightarrow> 32 word \<Rightarrow> 16 word \<Rightarrow> byte list list \<Rightarrow> unit assembling" where
  "absorb pt ts q [] a = (a, Inr ())"
| "absorb pt ts q (p # ps) a = as_then (push_payload (rtp_packet pt ts q False p)) (\<lambda>_. absorb pt ts (q + 1) ps) (aim ts (q + 1) a)"

lemma absorb_append:
  "absorb pt ts q (ps @ ps') a = as_then (absorb pt ts q ps) (\<lambda>_. absorb pt ts (q + of_nat (length ps)) ps') a"
  by (induction ps arbitrary: q a) (auto simp: as_then_def add.assoc split: prod.splits sum.splits)

definition open_fragment :: "32 word \<Rightarrow> 16 word \<Rightarrow> byte list \<Rightarrow> byte list \<Rightarrow> AccessUnitAssembler \<Rightarrow> AccessUnitAssembler" where
  "open_fragment ts q nal got a = (opened nal a)\<lparr>as_bytes := as_bytes (opened nal a) @ START_CODE @ got,
     has_vcl := has_vcl a \<or> is_vcl (as_codec a) nal,
     fragment := Some \<lparr>fr_timestamp = ts, fr_expected_sequence = q, nal_offset = length (as_bytes (opened nal a)) + 4\<rparr>\<rparr>"

lemma open_fragment_simps [simp]:
  "as_codec (open_fragment ts q nal got a) = as_codec a" "as_maximum_bytes (open_fragment ts q nal got a) = as_maximum_bytes a"
  "as_bytes (open_fragment ts q nal got a) = as_bytes (opened nal a) @ START_CODE @ got"
  "aim ts' q' (open_fragment ts q nal got a) = open_fragment ts q nal got (aim ts' q' a)"
  by (simp_all add: open_fragment_def aim_def) (simp add: aim_def [symmetric], simp add: aim_def)

lemma begin_fragment_fits:
  assumes "\<forall>n \<in> set (bootstrap_nals a). readable (as_codec a) n" and "fragment a = None"
    and "length (as_bytes (opened nal a)) + 4 + length (header @ content) \<le> unat (as_maximum_bytes a)"
  shows "begin_fragment name header (is_vcl (as_codec a) nal) (nal_is_random_access (as_codec a) nal) content packet a =
    (open_fragment (rtp_timestamp packet) (rtp_sequence packet + 1) nal (header @ content) a, Inr ())"
proof -
  have "fits (opened nal a)" using assms(3) by (simp add: fits_def)
  then show ?thesis using assms begin_vcl_fits [OF assms(1), of nal]
    by (simp add: begin_fragment_def as_then_def append_start_code_def append_bytes_def START_CODE_def Let_def open_fragment_def)
qed

lemma continue_fragment_fits:
  assumes "length (as_bytes (opened nal a)) + 4 + length (got @ content) \<le> unat (as_maximum_bytes a)"
    and "rtp_timestamp packet = ts" and "rtp_sequence packet = q"
  shows "continue_fragment name False content packet (open_fragment ts q nal got a) =
    (open_fragment ts (q + 1) nal (got @ content) a, Inr ())"
  using assms by (simp add: continue_fragment_def open_fragment_def as_then_def append_bytes_def START_CODE_def)

lemma end_fragment_fits:
  assumes "fits (put_nal a nal)" and "rtp_timestamp packet = ts" and "rtp_sequence packet = q"
    and "nal = got @ content" and "readable (as_codec a) nal" and "fragment a = None"
  shows "continue_fragment name True content packet (open_fragment ts q nal got a) = (put_nal a nal, Inr ())"
proof -
  let ?o = "opened nal a"
  have l: "length (as_bytes ?o) + 4 + length nal \<le> unat (as_maximum_bytes a)" using assms(1) length_put [of a nal] by (simp add: fits_def)
  have "put_nal a nal = (?o\<lparr>as_bytes := as_bytes ?o @ START_CODE @ nal, has_vcl := has_vcl a \<or> is_vcl (as_codec a) nal,
      fragment := None, as_dimensions := dims_after (as_codec a) (as_dimensions ?o) nal\<rparr>)"
    using frame_simps(3,15) [of nal a] assms(6) by (cases ?o) (auto simp: put_nal_def put_raw_def)
  then show ?thesis using l assms
    by (simp add: continue_fragment_def open_fragment_def as_then_def append_bytes_def START_CODE_def observe_readable)
qed

lemma pieces_fit:
  assumes "fits (put_nal a nal)" and "readable (as_codec a) nal" and "fragment a = None"
    and "length header = header_size (as_codec a)" and "nal = header @ rest" and "final \<noteq> []"
  shows "\<forall>m \<in> set middle. m \<noteq> [] \<Longrightarrow> nal = got @ concat middle @ final \<Longrightarrow>
    absorb pt ts q (map (\<lambda>m. fragment_header (as_codec a) header 0 @ m) middle @ [fragment_header (as_codec a) header 0x40 @ final])
      (open_fragment ts q nal got (aim ts q' a)) = (aim ts (q + of_nat (length middle) + 1) (put_nal a nal), Inr ())"
proof (induction middle arbitrary: q q' got)
  case Nil
  then show ?case
    using push_payload_fragment [of header "open_fragment ts q nal got (aim ts (q + 1) a)" final nal rest "0x40" pt ts q False] assms
      end_fragment_fits [where a = "aim ts (q + 1) a" and nal = nal and got = got and content = final]
    by (simp add: as_then_def push_fragment_def)
next
  case (Cons m middle)
  let ?o = "open_fragment ts q nal got (aim ts (q + 1) a)"
  have "length (as_bytes (opened nal a)) + 4 + length (got @ m) \<le> unat (as_maximum_bytes a)"
    using assms(1) length_put [of a nal] Cons.prems(2) by (simp add: fits_def)
  then have "push_payload (rtp_packet pt ts q False (fragment_header (as_codec a) header 0 @ m)) ?o =
      (open_fragment ts (q + 1) nal (got @ m) (aim ts (q + 1) a), Inr ())"
    using push_payload_fragment [of header ?o m nal rest 0 pt ts q False] assms Cons.prems(1)
      continue_fragment_fits [where a = "aim ts (q + 1) a" and nal = nal and got = got and content = m]
    by (simp add: push_fragment_def)
  then show ?case using Cons.IH [of "got @ m" "q + 1" "q + 1"] Cons.prems by (simp add: as_then_def algebra_simps)
qed

lemma carrier_fits:
  assumes "carrier_ok (as_codec a) car" and "\<forall>n \<in> set (bootstrap_nals a) \<union> set (nals_of car). readable (as_codec a) n"
    and "fits (foldl put_nal a (nals_of car))" and "fragment a = None"
  shows "absorb pt ts q (payloads (as_codec a) car) a =
    (aim ts (q + of_nat (length (payloads (as_codec a) car))) (foldl put_nal a (nals_of car)), Inr ())"
proof (cases car)
  case (Whole nal)
  then show ?thesis using assms append_nal_fits [of "aim ts (q + 1) a" nal] push_payload_whole [of "aim ts (q + 1) a" nal pt ts q False]
    by (simp add: as_then_def)
next
  case (Together header nals)
  have "push_payload (rtp_packet pt ts q False (header @ concat (map sized nals))) (aim ts (q + 1) a) =
      (foldl put_nal (aim ts (q + 1) a) nals, Inr ())"
  proof (cases "as_codec a")
    case H264
    then obtain h where "header = [h]" "h AND 0x1f = 24" using assms(1) Together by (cases header) auto
    then show ?thesis using aggregated_fits [of "aim ts (q + 1) a" nals 1 h264_vcl "''H.264 STAP-A''"] H264 assms Together
      by (auto simp: push_payload_def push_h264_def Let_def)
  next
    case H265
    then obtain h h' where "header = [h, h']" "drop_bit 1 h AND 0x3f = 48" using assms(1) Together by (cases header; cases "tl header") auto
    then show ?thesis using aggregated_fits [of "aim ts (q + 1) a" nals 2 h265_vcl "''H.265 AP''"] H265 assms Together
      by (auto simp: push_payload_def push_h265_def Let_def)
  qed
  then show ?thesis using Together by (simp add: as_then_def)
next
  case (Pieces header first middle final)
  let ?nal = "header @ first @ concat middle @ final"
  have "length (as_bytes (opened ?nal a)) + 4 + length (header @ first) \<le> unat (as_maximum_bytes a)"
    using assms(3) Pieces length_put [of a ?nal] by (simp add: fits_def)
  then have "push_payload (rtp_packet pt ts q False (fragment_header (as_codec a) header 0x80 @ first)) (aim ts (q + 1) a) =
      (open_fragment ts (q + 1) ?nal (header @ first) (aim ts (q + 1) a), Inr ())"
    using push_payload_fragment [of header "aim ts (q + 1) a" first ?nal _ "0x80" pt ts q False] assms Pieces
      begin_fragment_fits [where a = "aim ts (q + 1) a" and nal = ?nal and header = header and content = first]
    by (simp add: push_fragment_def)
  moreover have "absorb pt ts (q + 1) (map (\<lambda>m. fragment_header (as_codec a) header 0 @ m) middle @
        [fragment_header (as_codec a) header 0x40 @ final]) (open_fragment ts (q + 1) ?nal (header @ first) (aim ts (q + 1) a)) =
      (aim ts (q + 1 + of_nat (length middle) + 1) (put_nal a ?nal), Inr ())"
    by (rule pieces_fit [where rest = "first @ concat middle @ final"]) (use assms Pieces in auto)
  moreover have "q + of_nat (length (payloads (as_codec a) car)) = q + 1 + of_nat (length middle) + 1" using Pieces by simp
  ultimately show ?thesis using Pieces by (simp add: as_then_def ac_simps)
qed

lemma carriers_fit:
  assumes "\<forall>n \<in> set (bootstrap_nals a) \<union> set (concat (map nals_of cars)). readable (as_codec a) n" and "fragment a = None"
    and "fits (foldl put_nal a (concat (map nals_of cars)))" and "\<forall>car \<in> set cars. carrier_ok (as_codec a) car"
  shows "absorb pt ts q (concat (map (payloads (as_codec a)) cars)) (aim ts q a) =
    (aim ts (q + of_nat (length (concat (map (payloads (as_codec a)) cars)))) (foldl put_nal a (concat (map nals_of cars))), Inr ())"
  using assms
proof (induction cars arbitrary: a q)
  case (Cons car cars)
  have "fits (foldl put_nal a (nals_of car))"
    using Cons.prems(3) fits_prefix [of "foldl put_nal a (nals_of car)" "concat (map nals_of cars)"] by simp
  then have "absorb pt ts q (payloads (as_codec a) car) (aim ts q a) =
      (aim ts (q + of_nat (length (payloads (as_codec a) car))) (foldl put_nal a (nals_of car)), Inr ())"
    using carrier_fits [of "aim ts q a" car pt ts q] Cons.prems(1,2,4) by auto
  moreover have "absorb pt ts q' (concat (map (payloads (as_codec a)) cars)) (aim ts q' (foldl put_nal a (nals_of car))) =
      (aim ts (q' + of_nat (length (concat (map (payloads (as_codec a)) cars))))
        (foldl put_nal (foldl put_nal a (nals_of car)) (concat (map nals_of cars))), Inr ())" for q'
    using Cons.IH [of "foldl put_nal a (nals_of car)" q'] Cons.prems by auto
  ultimately show ?case by (simp add: absorb_append as_then_def add.assoc)
qed simp

section \<open>Delivery\<close>

definition between_units :: "AccessUnitAssembler \<Rightarrow> bool" where
  "between_units a \<longleftrightarrow> as_timestamp a = None \<and> expected_sequence a = None \<and> fragment a = None \<and> as_bytes a = [] \<and>
     \<not> has_vcl a \<and> \<not> has_random_access a \<and> \<not> bootstrap_injected_for_unit a"

text \<open>The packets of one picture: consecutive numbers, one timestamp, the marker on the last.\<close>

fun send :: "byte \<Rightarrow> 32 word \<Rightarrow> 16 word \<Rightarrow> byte list list \<Rightarrow> RtpPacket list" where
  "send pt ts q [] = []"
| "send pt ts q (p # ps) = rtp_packet pt ts q (ps = []) p # send pt ts (q + 1) ps"

text \<open>The parameter sets stand in front of the first picture unit when they are still owed, and of the first
  random-access unit in any case.\<close>

fun dressed :: "RtspCodec \<Rightarrow> bool \<Rightarrow> byte list list \<Rightarrow> byte list list \<Rightarrow> byte list list" where
  "dressed c owed boot [] = []"
| "dressed c owed boot (nal # nals) =
     (if is_vcl c nal \<and> (owed \<or> random_point c nal) then boot @ nal # nals else nal # dressed c owed boot nals)"

lemma push_payload_marker: "push_payload (rtp_packet pt ts q m p) a = push_payload (rtp_packet pt ts q False p) a"
proof (cases m)
  case True
  have "begin_fragment n h v r c (rtp_packet pt ts q True p) = begin_fragment n h v r c (rtp_packet pt ts q False p)"
    "continue_fragment n e c (rtp_packet pt ts q True p) = continue_fragment n e c (rtp_packet pt ts q False p)" for n h v r c e
    unfolding begin_fragment_def [abs_def] continue_fragment_def [abs_def] rtp_packet_simps by (rule refl)+
  then have "push_fragment n s e h v r c (rtp_packet pt ts q True p) = push_fragment n s e h v r c (rtp_packet pt ts q False p)"
    for n s e h v r c by (simp add: push_fragment_def)
  then show ?thesis using True by (cases "as_codec a") (simp_all add: push_payload_def push_h264_def push_h265_def Let_def)
qed simp

lemma push_in_step:
  assumes "push_payload (rtp_packet pt ts q False p) (aim ts (q + 1) a) = (a', Inr ())" and "as_payload_type a = pt"
    and "expected_sequence a \<in> {None, Some q}" and "as_timestamp a \<in> {None, Some ts}"
  shows "push_packet (rtp_packet pt ts q m p) a = (if m then finish_unit a' else (a', Inr None))"
proof -
  have "admit_packet (rtp_packet pt ts q m p) a = aim ts (q + 1) a"
    using assms(3,4) by (simp add: admit_packet_def Let_def discard_unless_def aim_def)
  then show ?thesis using assms(1,2) by (simp add: push_packet_unfold push_payload_marker [of pt ts q m])
qed

lemma payload_placed: "placed c pt ts q a \<Longrightarrow> placed c pt ts q (fst (push_payload packet a))"
  using place.keeps_payload by (auto simp: push_payload_def keeps_def split: RtspCodec.splits)

lemma push_all_sent:
  assumes "absorb pt ts q ps a = (a', Inr ())" and "ps \<noteq> []" and "as_payload_type a = pt"
    and "expected_sequence a \<in> {None, Some q}" and "as_timestamp a \<in> {None, Some ts}"
    and "finish_unit a' = (a'', Inr (Some u))"
  shows "push_all (send pt ts q ps) a = (a'', Inr [u])"
  using assms
proof (induction ps arbitrary: q a)
  case (Cons p ps)
  from Cons.prems(1) obtain a1 where a1: "push_payload (rtp_packet pt ts q False p) (aim ts (q + 1) a) = (a1, Inr ())"
    "absorb pt ts (q + 1) ps a1 = (a', Inr ())"
    by (auto simp: as_then_def split: prod.splits sum.splits)
  have "as_payload_type a1 = pt" "expected_sequence a1 = Some (q + 1)" "as_timestamp a1 = Some ts"
    using payload_placed [of "as_codec a" pt "Some ts" "Some (q + 1)" "aim ts (q + 1) a" "rtp_packet pt ts q False p"] a1(1) Cons.prems(3)
    by (simp_all add: placed_def)
  then show ?case
    using push_in_step [OF a1(1) Cons.prems(3-5)] Cons.IH [OF a1(2)] Cons.prems(6) a1(2)
    by (cases "ps = []") (auto simp: as_then_def as_ok_def)
qed simp

lemma put_nal_simps:
  "as_bytes (put_nal a nal) = as_bytes a @ annex_b (if is_vcl (as_codec a) nal \<and> \<not> bootstrap_injected_for_unit a \<and>
     bootstrap_pending (armed nal a) then bootstrap_nals a @ [nal] else [nal])"
  "as_dimensions (put_nal a nal) = foldl (dims_after (as_codec a)) (as_dimensions a)
     (if is_vcl (as_codec a) nal \<and> \<not> bootstrap_injected_for_unit a \<and> bootstrap_pending (armed nal a) then bootstrap_nals a @ [nal] else [nal])"
  "bootstrap_injected_for_unit (put_nal a nal) \<longleftrightarrow> bootstrap_injected_for_unit a \<or> is_vcl (as_codec a) nal \<and> bootstrap_pending (armed nal a)"
  "bootstrap_pending (put_nal a nal) = bootstrap_pending (armed nal a)"
  "has_vcl (put_nal a nal) \<longleftrightarrow> has_vcl a \<or> is_vcl (as_codec a) nal"
  "has_random_access (put_nal a nal) \<longleftrightarrow> has_random_access a \<or> random_point (as_codec a) nal"
  "bootstrap_pending (armed nal a) \<longleftrightarrow> (if random_point (as_codec a) nal then bootstrap_nals a \<noteq> [] else bootstrap_pending a)"
  by (auto simp: put_nal_def opened_def put_raw_def armed_def)

lemma dressed_sub: "dressed c owed [] nals = nals"
  by (induction nals) simp_all

lemma fold_put_injected:
  "bootstrap_injected_for_unit a \<Longrightarrow> as_bytes (foldl put_nal a nals) = as_bytes a @ annex_b nals \<and>
     as_dimensions (foldl put_nal a nals) = foldl (dims_after (as_codec a)) (as_dimensions a) nals \<and>
     bootstrap_injected_for_unit (foldl put_nal a nals)"
  by (induction nals arbitrary: a) (simp_all add: put_nal_simps)

lemma fold_put_dressed:
  "\<not> bootstrap_injected_for_unit a \<Longrightarrow> bootstrap_pending a \<longrightarrow> bootstrap_nals a \<noteq> [] \<Longrightarrow>
     as_bytes (foldl put_nal a nals) = as_bytes a @ annex_b (dressed (as_codec a) (bootstrap_pending a) (bootstrap_nals a) nals) \<and>
     as_dimensions (foldl put_nal a nals) =
       foldl (dims_after (as_codec a)) (as_dimensions a) (dressed (as_codec a) (bootstrap_pending a) (bootstrap_nals a) nals)"
proof (induction nals arbitrary: a)
  case (Cons nal nals)
  show ?case
  proof (cases "is_vcl (as_codec a) nal \<and> bootstrap_pending (armed nal a)")
    case True
    then show ?thesis using Cons.prems fold_put_injected [of "put_nal a nal" nals]
      by (auto simp: put_nal_simps split: if_splits)
  next
    case False
    then show ?thesis using Cons.prems Cons.IH [of "put_nal a nal"] dressed_sub
      by (auto simp: put_nal_simps random_point_def split: if_splits)
  qed
qed simp

lemma fold_put_flags:
  "has_vcl (foldl put_nal a nals) \<longleftrightarrow> has_vcl a \<or> (\<exists>n \<in> set nals. is_vcl (as_codec a) n)"
  "has_random_access (foldl put_nal a nals) \<longleftrightarrow> has_random_access a \<or> (\<exists>n \<in> set nals. random_point (as_codec a) n)"
  by (induction nals arbitrary: a) (auto simp: put_nal_simps)

lemma fold_put_owed:
  "(bootstrap_pending a \<longrightarrow> bootstrap_injected_for_unit a \<or> \<not> has_vcl a) \<Longrightarrow>
     bootstrap_pending (foldl put_nal a nals) \<longrightarrow> bootstrap_injected_for_unit (foldl put_nal a nals) \<or> \<not> has_vcl (foldl put_nal a nals)"
proof (induction nals arbitrary: a)
  case (Cons nal nals)
  have "bootstrap_pending (put_nal a nal) \<longrightarrow> bootstrap_injected_for_unit (put_nal a nal) \<or> \<not> has_vcl (put_nal a nal)"
    using Cons.prems by (auto simp: put_nal_simps random_point_def)
  from Cons.IH [OF this] show ?case by simp
qed simp

lemma fold_put_frame:
  "as_timestamp (foldl put_nal a nals) = as_timestamp a" "expected_sequence (foldl put_nal a nals) = expected_sequence a"
  "incomplete_units (foldl put_nal a nals) = incomplete_units a"
  by (induction nals arbitrary: a) (simp_all add: put_nal_def opened_def put_raw_def armed_def)

lemma absorb_aim: "ps \<noteq> [] \<Longrightarrow> absorb pt ts q ps (aim ts q' a) = absorb pt ts q ps a"
  by (cases ps) simp_all

lemma payloads_not_Nil: "n \<in> set (nals_of car) \<Longrightarrow> payloads c car \<noteq> []"
  by (cases car) simp_all

lemma finish_picture:
  assumes "between_units a" and "bootstrap_pending a \<longrightarrow> bootstrap_nals a \<noteq> []" and "\<exists>n \<in> set nals. is_vcl (as_codec a) n"
    and "content = dressed (as_codec a) (bootstrap_pending a) (bootstrap_nals a) nals"
    and "d = foldl (dims_after (as_codec a)) (as_dimensions a) content"
  shows "finish_unit (aim ts q (foldl put_nal a nals)) = (a\<lparr>bootstrap_pending := False, as_dimensions := d\<rparr>,
    Inr (Some \<lparr>au_bytes = annex_b content, au_rtp_timestamp = ts, compressed_bytes = of_nat (length (annex_b content)),
      au_dimensions = d, au_random_access = (\<exists>n \<in> set nals. random_point (as_codec a) n)\<rparr>))"
proof -
  let ?b = "foldl put_nal a nals"
  note a = assms(1) [unfolded between_units_def]
  have b: "as_bytes ?b = annex_b content" "as_dimensions ?b = d" using fold_put_dressed [of a nals] a assms(2,4,5) by simp_all
  have v: "has_vcl ?b" using fold_put_flags(1) assms(3) by blast
  have o: "\<not> (bootstrap_pending ?b \<and> \<not> bootstrap_injected_for_unit ?b)" using fold_put_owed [of a nals] a v by blast
  have "nals \<noteq> []" using assms(3) by auto
  then have "as_bytes ?b \<noteq> []" using length_put [of a "hd nals"] length_fold [of "put_nal a (hd nals)" "tl nals"] by (cases nals) auto
  then show ?thesis using a b v o fold_put_flags(2) [of a nals] fold_put_frame [of a nals]
    by (simp add: finish_unit_def) (simp add: aim_def AccessUnitAssembler.equality)
qed

text \<open>C40: Whatever mix of packets carries it, a picture is delivered whole. Take an assembler between two units, of either codec, and
  the NAL units of a picture, one of which codes the picture itself, sent in order as single packets, aggregates and fragments
  in any combination, with consecutive numbers (around the end of the 16 bits too), one timestamp and the marker on the last packet.
  When the parameter sets among them and those of the session description can be read, the latter are owed only if there are any,
  and the unit fits the bound, the packets deliver exactly one unit: the NAL units in order behind their start codes, with the parameter sets of the session description put in front of
  the first picture unit when they are still owed or of the first random-access unit; with the picture size
  these parameter sets declare. The assembler is between units again and owes no parameter sets.\<close>

theorem picture_reassembled:
  assumes "between_units a" and "bootstrap_pending a \<longrightarrow> bootstrap_nals a \<noteq> []" and "c = as_codec a"
    and "\<forall>car \<in> set cars. carrier_ok c car" and "nals = concat (map nals_of cars)"
    and "\<forall>n \<in> set (bootstrap_nals a) \<union> set nals. readable c n" and "\<exists>n \<in> set nals. is_vcl c n"
    and "content = dressed c (bootstrap_pending a) (bootstrap_nals a) nals" and "length (annex_b content) \<le> unat (as_maximum_bytes a)"
    and "d = foldl (dims_after c) (as_dimensions a) content"
  shows "push_all (send (as_payload_type a) ts q (concat (map (payloads c) cars))) a =
    (a\<lparr>bootstrap_pending := False, as_dimensions := d\<rparr>,
     Inr [\<lparr>au_bytes = annex_b content, au_rtp_timestamp = ts, compressed_bytes = of_nat (length (annex_b content)),
       au_dimensions = d, au_random_access = (\<exists>n \<in> set nals. random_point c n)\<rparr>])"
proof -
  let ?ps = "concat (map (payloads c) cars)"
  note a = assms(1) [unfolded between_units_def]
  have "as_bytes (foldl put_nal a nals) = annex_b content" using fold_put_dressed [of a nals] a assms(2,3,8) by simp
  then have "fits (foldl put_nal a nals)" using assms(9) by (simp add: fits_def)
  then have "absorb (as_payload_type a) ts q ?ps (aim ts q a) = (aim ts (q + of_nat (length ?ps)) (foldl put_nal a nals), Inr ())"
    using carriers_fit [of a cars] assms(3-6) a by simp
  moreover have "?ps \<noteq> []" using assms(5,7) payloads_not_Nil by fastforce
  ultimately have "absorb (as_payload_type a) ts q ?ps a = (aim ts (q + of_nat (length ?ps)) (foldl put_nal a nals), Inr ())" "?ps \<noteq> []"
    using absorb_aim by metis+
  from push_all_sent [OF this _ _ _ finish_picture [OF assms(1,2)]] show ?thesis using a assms(3,7,8,10) by simp
qed

section \<open>What ends a session\<close>

abbreviation limit_error :: camera_error where
  "limit_error \<equiv> rejected ResourceLimit ''RTSP compressed access unit exceeds maximumFrameBytes''"

abbreviation lacks_start :: "RtspCodec \<Rightarrow> camera_error" where
  "lacks_start c \<equiv> rtsp_security_error (fu_name c @ '' continuation lacks start'')"

lemma fragment_admitted:
  "fragment a = None \<or> (\<exists>e. expected_sequence a = Some e \<and> e \<noteq> rtp_sequence packet) \<Longrightarrow> fragment (admit_packet packet a) = None"
  by (auto simp: admit_packet_def Let_def discard_unless_def discard_incomplete_def)

lemma stray_continuation:
  assumes "fragment a = None \<or> (\<exists>e. expected_sequence a = Some e \<and> e \<noteq> q)" and "as_payload_type a = pt" and "as_codec a = c"
    and "length header = header_size c" and "m \<noteq> []" and "f \<in> {0, 0x40}"
  shows "\<exists>a'. push_packet (rtp_packet pt ts q k (fragment_header c header f @ m)) a = (a', Inl (lacks_start c))"
proof -
  let ?p = "rtp_packet pt ts q k (fragment_header c header f @ m)"
  have "fragment (admit_packet ?p a) = None" using assms(1) by (intro fragment_admitted) simp
  then have "push_payload ?p (admit_packet ?p a) = (admit_packet ?p a, Inl (lacks_start c))"
    using push_payload_fragment [of header "admit_packet ?p a" m "header @ []" "[]" f pt ts q k] assms(3-6)
    by (auto simp: push_fragment_def continue_fragment_def as_err_def)
  then show ?thesis using assms(2) by (simp add: push_packet_unfold rtsp_security_error_def rtsp_backend_error_def)
qed

lemma inject_nals_over:
  assumes "fits a" and "\<not> fits (put_raw nals a)" and "\<forall>nal \<in> set nals. readable (as_codec a) nal"
  shows "\<exists>a'. inject_nals nals a = (a', Inl limit_error)"
  using assms
proof (induction nals arbitrary: a)
  case Nil
  then show ?case by (simp add: put_raw_def fits_def)
next
  case (Cons nal nals)
  show ?case
  proof (cases "fits (put_raw [nal] a)")
    case True
    have "\<not> fits (put_raw nals (put_raw [nal] a))" using Cons.prems(2) by (simp add: put_raw_def fits_def)
    from Cons.IH [OF True this] Cons.prems(3) True show ?thesis
      by (auto simp: as_then_def observe_readable append_start_code_def append_bytes_def put_raw_def fits_def)
  next
    case False
    then show ?thesis using Cons.prems(3)
      by (auto simp: as_then_def observe_readable append_start_code_def append_bytes_def put_raw_def fits_def)
  qed
qed

lemma begin_vcl_over:
  assumes "fits a" and "\<forall>n \<in> set (bootstrap_nals a). readable (as_codec a) n" and "\<not> fits (opened nal a)"
  shows "\<exists>a'. begin_vcl (is_vcl (as_codec a) nal) (nal_is_random_access (as_codec a) nal) a = (a', Inl limit_error)"
proof -
  have a: "(if is_vcl (as_codec a) nal \<and> nal_is_random_access (as_codec a) nal
      then a\<lparr>has_random_access := True, bootstrap_pending := (bootstrap_nals a \<noteq> [])\<rparr> else a) = armed nal a"
    by (simp add: armed_def random_point_def)
  have "is_vcl (as_codec a) nal \<and> bootstrap_pending (armed nal a) \<and> \<not> bootstrap_injected_for_unit a"
    "\<not> fits (put_raw (bootstrap_nals a) (armed nal a))" "fits (armed nal a)"
    using assms(1,3) by (auto simp: opened_def fits_def split: if_splits)
  then show ?thesis using assms(2) inject_nals_over [of "armed nal a" "bootstrap_nals a"]
    unfolding begin_vcl_def a by (auto simp: inject_bootstrap_before_vcl_def as_then_def)
qed

lemma begin_fragment_over:
  assumes "\<forall>n \<in> set (bootstrap_nals a). readable (as_codec a) n" and "fragment a = None" and "fits a"
    and "unat (as_maximum_bytes a) < length (as_bytes (opened nal a)) + 4 + length (header @ content)"
  shows "\<exists>a'. begin_fragment name header (is_vcl (as_codec a) nal) (nal_is_random_access (as_codec a) nal) content packet a =
    (a', Inl limit_error)"
proof (cases "fits (opened nal a)")
  case True
  then show ?thesis using assms begin_vcl_fits [OF assms(1) True]
    by (auto simp: begin_fragment_def as_then_def append_start_code_def append_bytes_def START_CODE_def Let_def)
next
  case False
  then show ?thesis using assms(2) begin_vcl_over [OF assms(3,1) False] by (auto simp: begin_fragment_def as_then_def)
qed

lemma push_all_error: "push_packet p a = (a', Inl e) \<Longrightarrow> push_all (p # ps) a = (a', Inl e)"
  by (simp add: as_then_def)

lemma push_all_pass: "push_packet p a = (a', Inr None) \<Longrightarrow> push_all ps a' = (a'', Inl e) \<Longrightarrow> push_all (p # ps) a = (a'', Inl e)"
  by (simp add: as_then_def)

text \<open>A unit that was given up in the middle of a fragmented NAL unit fails on the next fragment.\<close>

lemma given_up:
  assumes "as_payload_type a = pt" and "as_codec a = c" and "length header = header_size c"
    and "\<forall>m \<in> set (middle @ [final]). m \<noteq> []" and "fragment a = None"
  shows "\<exists>a'. push_all (send pt ts q (map (\<lambda>m. fragment_header c header 0 @ m) middle @ (fragment_header c header 0x40 @ final) # rest)) a =
    (a', Inl (lacks_start c))"
proof (cases middle)
  case Nil
  then show ?thesis using stray_continuation [of a q pt c header final "0x40" ts "rest = []"] assms by (auto simp: as_then_def)
next
  case (Cons m ms)
  then show ?thesis using stray_continuation [of a q pt c header m 0 ts False] assms by (auto simp: as_then_def)
qed

lemma overrun:
  assumes "placed c pt (Some ts) (Some q) a" and "fragment a = Some st" and "fr_timestamp st = ts" and "fr_expected_sequence st = q"
    and "length header = header_size c" and "\<forall>m \<in> set (middle @ [final]). m \<noteq> []" and "fits a"
    and "unat (as_maximum_bytes a) < length (as_bytes a) + length (concat middle)"
  shows "\<exists>a'. push_all (send pt ts q (map (\<lambda>m. fragment_header c header 0 @ m) middle @ (fragment_header c header 0x40 @ final) # rest)) a =
    (a', Inl (lacks_start c))"
  using assms
proof (induction middle arbitrary: a st q)
  case Nil
  then show ?case by (simp add: fits_def)
next
  case (Cons m middle)
  let ?p = "rtp_packet pt ts q False (fragment_header c header 0 @ m)"
  let ?a = "aim ts (q + 1) a"
  let ?later = "map (\<lambda>m. fragment_header c header 0 @ m) middle @ (fragment_header c header 0x40 @ final) # rest"
  have a: "as_codec a = c" "as_payload_type a = pt" "expected_sequence a = Some q" "as_timestamp a = Some ts"
    using Cons.prems(1) by (simp_all add: placed_def)
  then have admitted: "admit_packet ?p a = ?a" by (simp add: admit_packet_def Let_def discard_unless_def aim_def)
  have pushed: "push_payload ?p ?a = continue_fragment (fu_name c) False m ?p ?a"
    using push_payload_fragment [of header ?a m "header @ []" "[]" 0 pt ts q False] a Cons.prems(5,6) by (simp add: push_fragment_def)
  have more: "send pt ts q (map (\<lambda>m. fragment_header c header 0 @ m) (m # middle) @ (fragment_header c header 0x40 @ final) # rest) =
      ?p # send pt ts (q + 1) ?later" by simp
  show ?case
  proof (cases "length (as_bytes a) + length m \<le> unat (as_maximum_bytes a)")
    case True
    let ?b = "?a\<lparr>fragment := Some (st\<lparr>fr_expected_sequence := q + 1\<rparr>), as_bytes := as_bytes a @ m\<rparr>"
    have "push_packet ?p a = (?b, Inr None)"
      using True a admitted pushed Cons.prems(2-4) by (simp add: push_packet_unfold continue_fragment_def as_then_def append_bytes_def)
    moreover have "\<exists>a'. push_all (send pt ts (q + 1) ?later) ?b = (a', Inl (lacks_start c))"
      by (rule Cons.IH [where st = "st\<lparr>fr_expected_sequence := q + 1\<rparr>"])
        (use True a Cons.prems in \<open>simp_all add: placed_def fits_def\<close>)
    ultimately show ?thesis unfolding more using push_all_pass by blast
  next
    case False
    then obtain b where b: "push_payload ?p ?a = (b, Inl limit_error)"
      using pushed Cons.prems(2-4) by (simp add: continue_fragment_def as_then_def append_bytes_def)
    then have "push_packet ?p a = (discard_incomplete b, Inr None)" using a admitted by (simp add: push_packet_unfold)
    moreover have "as_payload_type b = pt" "as_codec b = c"
      using payload_placed [of c pt "Some ts" "Some (q + 1)" ?a ?p] b a by (simp_all add: placed_def)
    then have "\<exists>a'. push_all (send pt ts (q + 1) ?later) (discard_incomplete b) = (a', Inl (lacks_start c))"
      using Cons.prems(5,6) by (intro given_up) (simp_all add: discard_incomplete_def)
    ultimately show ?thesis unfolding more using push_all_pass by blast
  qed
qed

text \<open>A NAL unit that is sent in fragments and does not fit the bound ends the session. Take an assembler between two units, and
  a NAL unit of any type in two or more fragments of which those before the last already exceed the bound: the fragment that does not
  fit is dropped without an error and the unit given up, but the next fragment is then an error, which the worker returns and stops
  with. The comment at the drop says that such a unit costs a frame and not the session.\<close>

theorem oversized_fragments_end_session:
  assumes "between_units a" and "c = as_codec a" and "carrier_ok c (Pieces header first middle final)"
    and "\<forall>n \<in> set (bootstrap_nals a). readable c n"
    and "unat (as_maximum_bytes a) < 4 + length (header @ first @ concat middle)"
  shows "\<exists>a'. push_all (send (as_payload_type a) ts q (payloads c (Pieces header first middle final) @ rest)) a = (a', Inl (lacks_start c))"
proof -
  let ?pt = "as_payload_type a" and ?nal = "header @ first @ concat middle @ final"
  let ?p = "rtp_packet ?pt ts q False (fragment_header c header 0x80 @ first)" and ?a = "aim ts (q + 1) a"
  let ?later = "map (\<lambda>m. fragment_header c header 0 @ m) middle @ (fragment_header c header 0x40 @ final) # rest"
  note a = assms(1) [unfolded between_units_def]
  have ok: "length header = header_size c" "first \<noteq> []" "\<forall>m \<in> set (middle @ [final]). m \<noteq> []" using assms(3) by auto
  have admitted: "admit_packet ?p a = ?a" using a by (simp add: admit_packet_def Let_def discard_unless_def aim_def)
  have pushed: "push_payload ?p ?a = begin_fragment (fu_name c) header (is_vcl c ?nal) (nal_is_random_access c ?nal) first ?p ?a"
    using push_payload_fragment [of header ?a first ?nal _ "0x80" ?pt ts q False] assms(2) ok by (simp add: push_fragment_def)
  have fit: "fits ?a" "fragment ?a = None" using a by (simp_all add: fits_def)
  have more: "send ?pt ts q (payloads c (Pieces header first middle final) @ rest) = ?p # send ?pt ts (q + 1) ?later" by simp
  show ?thesis
  proof (cases "length (as_bytes (opened ?nal ?a)) + 4 + length (header @ first) \<le> unat (as_maximum_bytes a)")
    case True
    let ?b = "open_fragment ts (q + 1) ?nal (header @ first) ?a"
    have "push_packet ?p a = (?b, Inr None)"
      using begin_fragment_fits [of ?a ?nal header first "fu_name c" ?p] pushed admitted True fit assms(2,4) by (simp add: push_packet_unfold)
    moreover have "\<exists>a'. push_all (send ?pt ts (q + 1) ?later) ?b = (a', Inl (lacks_start c))"
    proof (rule overrun)
      show "placed c ?pt (Some ts) (Some (q + 1)) ?b"
        using payload_placed [of c ?pt "Some ts" "Some (q + 1)" ?a ?p] assms(2) begin_fragment_fits [of ?a ?nal header first "fu_name c" ?p]
          pushed True fit assms(4) by (simp add: placed_def)
      show "fragment ?b = Some \<lparr>fr_timestamp = ts, fr_expected_sequence = q + 1, nal_offset = length (as_bytes (opened ?nal ?a)) + 4\<rparr>"
        by (simp add: open_fragment_def)
      show "fits ?b" using True by (simp add: fits_def START_CODE_def)
      show "unat (as_maximum_bytes ?b) < length (as_bytes ?b) + length (concat middle)" using assms(5) by (simp add: START_CODE_def)
    qed (use ok in simp_all)
    ultimately show ?thesis unfolding more using push_all_pass by blast
  next
    case False
    then obtain b where b: "push_payload ?p ?a = (b, Inl limit_error)"
      using begin_fragment_over [of ?a ?nal header first "fu_name c" ?p] pushed fit assms(2,4) by auto
    then have "push_packet ?p a = (discard_incomplete b, Inr None)" using admitted by (simp add: push_packet_unfold)
    moreover have "as_payload_type b = ?pt" "as_codec b = c"
      using payload_placed [of c ?pt "Some ts" "Some (q + 1)" ?a ?p] b assms(2) by (simp_all add: placed_def)
    then have "\<exists>a'. push_all (send ?pt ts (q + 1) ?later) (discard_incomplete b) = (a', Inl (lacks_start c))"
      using ok by (intro given_up) (simp_all add: discard_incomplete_def)
    ultimately show ?thesis unfolding more using push_all_pass by blast
  qed
qed

text \<open>A packet lost within a fragmented NAL unit ends the session too: whatever the assembler holds, a fragment that is not the first of
  its unit and does not carry the expected number is an error.\<close>

theorem lost_fragment_ends_session:
  assumes "expected_sequence a = Some e" and "e \<noteq> q" and "length header = header_size (as_codec a)" and "m \<noteq> []" and "f \<in> {0, 0x40}"
  shows "\<exists>a'. push_packet (rtp_packet (as_payload_type a) ts q k (fragment_header (as_codec a) header f @ m)) a =
    (a', Inl (lacks_start (as_codec a)))"
  using stray_continuation [of a q] assms by blast

text \<open>After a loss between whole NAL units, what is left of the picture is assembled as if it were all of it, and delivered.\<close>

lemma between_discarded: "between_units (discard_incomplete a)"
  by (simp add: between_units_def discard_incomplete_def)

theorem rest_of_picture_delivered:
  assumes "expected_sequence a = Some e" and "e \<noteq> q" and "ps \<noteq> []"
  shows "push_all (send (as_payload_type a) ts q ps) a = push_all (send (as_payload_type a) ts q ps) (discard_incomplete a) \<and>
    between_units (discard_incomplete a)"
proof -
  obtain p ps' where ps: "ps = p # ps'" using assms(3) by (cases ps) auto
  let ?p = "rtp_packet (as_payload_type a) ts q (ps' = []) p"
  have "admit_packet ?p a = admit_packet ?p (discard_incomplete a)"
    using assms(1,2) by (simp add: admit_packet_def Let_def discard_unless_def discard_incomplete_def)
  then have "push_packet ?p a = push_packet ?p (discard_incomplete a)" by (simp add: push_packet_unfold discard_incomplete_def)
  then show ?thesis using ps by (simp add: as_then_def between_discarded)
qed

section \<open>The bound and the header\<close>

text \<open>No packets make a new assembler deliver an empty unit or one beyond its bound.\<close>

theorem delivered_within_bound:
  assumes "assembler_new track m = Inr a" and "push_all packets a = (a', Inr units)" and "u \<in> set units"
  shows "au_bytes u \<noteq> [] \<and> length (au_bytes u) \<le> unat m \<and> compressed_bytes u = of_nat (length (au_bytes u))"
proof (rule units_within [OF _ assms(2,3)])
  show "within_bound m a" using assms(1) by (auto simp: assembler_new_def within_bound_def split: if_splits)
qed

fun to_be_bytes :: "nat \<Rightarrow> nat \<Rightarrow> byte list" where
  "to_be_bytes 0 n = []"
| "to_be_bytes (Suc k) n = of_nat (n div 256 ^ k) # to_be_bytes k n"

lemma length_to_be [simp]: "length (to_be_bytes k n) = k"
  by (induction k) simp_all

lemma from_to_be: "from_be_bytes (to_be_bytes k n) = n mod 256 ^ k"
proof (induction k)
  case (Suc k)
  have "n mod 256 ^ Suc k = n div 256 ^ k mod 256 * 256 ^ k + n mod 256 ^ k"
    using mod_mult2_eq [of n "256 ^ k" 256] by (simp add: mult.commute)
  then show ?case using Suc by (simp add: unat_of_nat)
qed simp

text \<open>A packet as the protocol writes it: contributing sources, one extension and padding are optional.\<close>

record RtpHeader =
  hd_marker :: bool
  hd_payload_type :: byte
  hd_sequence :: "16 word"
  hd_timestamp :: "32 word"
  hd_source :: "byte list"
  hd_contributors :: "byte list list"
  hd_extension :: "(byte list \<times> byte list list) option"
  hd_padding :: nat

definition extension_bytes :: "RtpHeader \<Rightarrow> byte list" where
  "extension_bytes h = (case hd_extension h of None \<Rightarrow> [] | Some (profile, words) \<Rightarrow> profile @ to_be_bytes 2 (length words) @ concat words)"

definition first_byte :: "RtpHeader \<Rightarrow> byte" where
  "first_byte h = 0x80 OR (if 0 < hd_padding h then 0x20 else 0) OR (if hd_extension h = None then 0 else 0x10) OR
     of_nat (length (hd_contributors h))"

definition rtp_bytes :: "RtpHeader \<Rightarrow> byte list \<Rightarrow> byte list" where
  "rtp_bytes h payload =
     [first_byte h, (if hd_marker h then 0x80 else 0) OR hd_payload_type h] @ to_be_bytes 2 (unat (hd_sequence h)) @
     to_be_bytes 4 (unat (hd_timestamp h)) @ hd_source h @ concat (hd_contributors h) @ extension_bytes h @ payload @
     (if hd_padding h = 0 then [] else replicate (hd_padding h - 1) 0 @ [of_nat (hd_padding h)])"

definition header_ok :: "RtpHeader \<Rightarrow> bool" where
  "header_ok h \<longleftrightarrow> hd_payload_type h AND 0x80 = 0 \<and> length (hd_source h) = 4 \<and> length (hd_contributors h) \<le> 15 \<and>
     (\<forall>w \<in> set (hd_contributors h). length w = 4) \<and> hd_padding h \<le> 255 \<and>
     (\<forall>profile words. hd_extension h = Some (profile, words) \<longrightarrow>
        length profile = 2 \<and> length words < 65536 \<and> (\<forall>w \<in> set words. length w = 4))"

lemma small_count: "n \<le> 15 \<Longrightarrow> (of_nat n :: byte) AND 0xf0 = 0 \<and> unat (of_nat n :: byte) = n"
proof -
  assume "n \<le> 15"
  then have "n \<in> {0, 1, 2, 3, 4, 5, 6, 7, 8, 9, 10, 11, 12, 13, 14, 15}" by simp arith
  then show ?thesis by auto
qed

lemma first_byte_bits:
  assumes "header_ok h"
  shows "drop_bit 6 (first_byte h) = 2" "unat (first_byte h AND 0x0f) = length (hd_contributors h)"
    "(first_byte h AND 0x10 = 0) = (hd_extension h = None)" "(first_byte h AND 0x20 = 0) = (hd_padding h = 0)"
proof -
  let ?k = "of_nat (length (hd_contributors h)) :: byte"
  have k: "?k AND 0xf0 = 0" "unat ?k = length (hd_contributors h)" using assms small_count by (simp_all add: header_ok_def)
  have "first_byte h AND 0x0f = ?k" using k(1) by (auto simp: first_byte_def byte_eq_bits bit_simps)
  then show "unat (first_byte h AND 0x0f) = length (hd_contributors h)" using k(2) by simp
  show "drop_bit 6 (first_byte h) = 2" using k(1)
    unfolding byte_eq_bits first_byte_def bit_drop_bit_eq bit_or_iff by (auto simp: bit_simps numeral_eq_Suc)
  show "(first_byte h AND 0x10 = 0) = (hd_extension h = None)" "(first_byte h AND 0x20 = 0) = (hd_padding h = 0)"
    using k(1) by (auto simp: first_byte_def byte_eq_bits bit_simps)
qed

definition fixed_bytes :: "RtpHeader \<Rightarrow> byte list" where
  "fixed_bytes h = [first_byte h, (if hd_marker h then 0x80 else 0) OR hd_payload_type h] @ to_be_bytes 2 (unat (hd_sequence h)) @
     to_be_bytes 4 (unat (hd_timestamp h)) @ hd_source h @ concat (hd_contributors h)"

definition padding_bytes :: "RtpHeader \<Rightarrow> byte list" where
  "padding_bytes h = (if hd_padding h = 0 then [] else replicate (hd_padding h - 1) 0 @ [of_nat (hd_padding h)])"

lemma rtp_bytes_parts: "rtp_bytes h payload = fixed_bytes h @ extension_bytes h @ payload @ padding_bytes h"
  by (simp add: rtp_bytes_def fixed_bytes_def padding_bytes_def)

lemma length_words: "\<forall>w \<in> set ws. length w = n \<Longrightarrow> length (concat ws) = length ws * n"
  by (induction ws) simp_all

lemma length_parts:
  "header_ok h \<Longrightarrow> length (fixed_bytes h) = 12 + length (hd_contributors h) * 4" "length (padding_bytes h) = hd_padding h"
  by (simp_all add: fixed_bytes_def padding_bytes_def header_ok_def length_words)

lemma fixed_fields:
  assumes "header_ok h" and "bytes = fixed_bytes h @ rest"
  shows "bytes ! 0 = first_byte h" "bytes ! 1 = (if hd_marker h then 0x80 else 0) OR hd_payload_type h"
    "take 2 (drop 2 bytes) = to_be_bytes 2 (unat (hd_sequence h))" "take 4 (drop 4 bytes) = to_be_bytes 4 (unat (hd_timestamp h))"
  using assms(2) by (simp_all add: fixed_bytes_def del: to_be_bytes.simps)

lemma extension_skipped:
  assumes "header_ok h" and "bytes = fixed_bytes h @ extension_bytes h @ rest"
  shows "skip_extension bytes (length (fixed_bytes h)) = Inr (length (fixed_bytes h) + length (extension_bytes h))"
proof (cases "hd_extension h")
  case None
  then show ?thesis using fixed_fields(1) [OF assms] first_byte_bits(3) [OF assms(1)] by (simp add: skip_extension_def extension_bytes_def)
next
  case (Some e)
  obtain profile ws where e: "e = (profile, ws)" by fastforce
  then have ok: "length profile = 2" "length ws < 65536" "length (concat ws) = length ws * 4"
    using assms(1) Some length_words [of ws 4] by (simp_all add: header_ok_def)
  obtain b b' where p: "profile = [b, b']" using ok(1) by (auto simp: length_Suc_conv numeral_2_eq_2)
  have "drop (length (fixed_bytes h)) bytes = [b, b'] @ to_be_bytes 2 (length ws) @ concat ws @ rest"
    using assms(2) Some e p by (simp add: extension_bytes_def del: to_be_bytes.simps)
  then have "bytes ! (length (fixed_bytes h) + 2) = of_nat (length ws div 256)" "bytes ! (length (fixed_bytes h) + 3) = of_nat (length ws)"
    "length (fixed_bytes h) + 4 + length ws * 4 \<le> length bytes"
    using assms(2) Some e p ok(3) by (simp_all add: nth_append extension_bytes_def numeral_2_eq_2)
  moreover have "from_be_bytes [of_nat (length ws div 256), of_nat (length ws)] = length ws"
    using from_to_be [of 2 "length ws"] ok(2) by (simp add: numeral_2_eq_2)
  ultimately show ?thesis
    using fixed_fields(1) [OF assms] first_byte_bits(3) [OF assms(1)] Some e p ok(3)
    by (simp add: skip_extension_def extension_bytes_def Let_def del: from_be_bytes.simps)
qed

text \<open>The header of a packet is read back: whatever the marker, the numbers, the contributing sources, the extension and the
  padding, the parser returns the fields and exactly the payload.\<close>

theorem rtp_packet_read:
  assumes "header_ok h" and "payload \<noteq> []" and "length (rtp_bytes h payload) \<le> 65535"
  shows "parse_rtp_packet (rtp_bytes h payload) =
    Inr (rtp_packet (hd_payload_type h) (hd_timestamp h) (hd_sequence h) (hd_marker h) payload)"
proof -
  let ?b = "rtp_bytes h payload" and ?f = "length (fixed_bytes h)" and ?x = "length (extension_bytes h)"
  note parts = rtp_bytes_parts [of h payload] and f = first_byte_bits [OF assms(1)]
  note fields = fixed_fields [OF assms(1) parts]
  have len: "length ?b = ?f + ?x + length payload + hd_padding h" by (simp add: parts length_parts)
  have skips: "skip_csrc ?b = Inr ?f" "skip_extension ?b ?f = Inr (?f + ?x)"
    using fields(1) f(2) len length_parts(1) [OF assms(1)] extension_skipped [OF assms(1) parts]
    by (simp_all add: skip_csrc_def Let_def)
  have "unat (of_nat (hd_padding h) :: byte) = hd_padding h" using assms(1) by (simp add: header_ok_def unat_of_nat)
  then have "strip_padding ?b (?f + ?x) = Inr (?f + ?x + length payload)"
    using fields(1) f(4) len by (simp add: strip_padding_def Let_def parts padding_bytes_def)
  moreover have "hd_payload_type h AND 0x80 = 0" using assms(1) by (simp add: header_ok_def)
  then have "(?b ! 1 AND 0x80 \<noteq> 0) = hd_marker h" "?b ! 1 AND 0x7f = hd_payload_type h"
    unfolding fields(2) by (auto simp: byte_eq_bits bit_simps)
  moreover have "take (length payload) (drop (?f + ?x) ?b) = payload" by (simp add: parts)
  moreover have "(of_nat (unat (hd_sequence h) mod 256 ^ 2) :: 16 word) = hd_sequence h"
    "(of_nat (unat (hd_timestamp h) mod 256 ^ 4) :: 32 word) = hd_timestamp h"
    using unsigned_less [of "hd_sequence h", where 'a = nat] unsigned_less [of "hd_timestamp h", where 'a = nat] by simp_all
  ultimately show ?thesis
    using skips fields(1,3,4) f(1) len assms(2,3) length_parts(1) [OF assms(1)]
    by (simp add: parse_rtp_packet_def MAX_INTERLEAVED_PACKET_BYTES_def from_to_be rtp_packet_def)
qed

section \<open>A concrete stream\<close>

definition demo_track :: RtspTrack where
  "demo_track = \<lparr>control_uri = ''trackID=1'', tr_codec = H264, tr_payload_type = 96, clock_rate = 90000, tr_bootstrap_nals = [[0x68, 7]]\<rparr>"

definition demo_assembler :: AccessUnitAssembler where
  "demo_assembler = (case assembler_new demo_track 64 of Inr a \<Rightarrow> a | Inl _ \<Rightarrow> undefined)"

definition demo_carriers :: "carrier list" where
  "demo_carriers = [Whole [6, 1], Together [0x78] [[0x68, 1], [0x65, 2]], Pieces [0x65] [3] [[4]] [5]]"

lemmas demo_eval = demo_assembler_def assembler_new_def demo_track_def demo_carriers_def between_units_def readable_def h264_vcl_def
  random_point_def dims_after_def START_CODE_def

theorem picture_reassembled_witness:
  "\<exists>a. push_all (send 96 9000 0xffff (concat (map (payloads H264) demo_carriers))) demo_assembler =
    (a, Inr [\<lparr>au_bytes = annex_b [[6, 1], [0x68, 1], [0x68, 7], [0x65, 2], [0x65, 3, 4, 5]], au_rtp_timestamp = 9000,
      compressed_bytes = 32, au_dimensions = None, au_random_access = True\<rparr>])"
  using picture_reassembled [of demo_assembler H264 demo_carriers, OF _ _ _ _ refl _ _ refl _ refl, of 9000 "0xffff"]
  by (simp add: demo_eval)

theorem oversized_fragments_end_session_witness:
  "\<exists>a'. push_all (send 96 9000 7 (payloads H264 (Pieces [0x65] (replicate 40 1) [replicate 40 2] [3]))) demo_assembler =
    (a', Inl (lacks_start H264))"
  using oversized_fragments_end_session [of demo_assembler H264 "[0x65]" "replicate 40 1" "[replicate 40 2]" "[3]" 9000 7 "[]"]
  by (simp add: demo_eval)

end
