(* ===== verification/Spec2Isabelle.thy ===== *)
theory Spec2Isabelle
  imports Camera_Error Model Json Config_Data Config Admission_Queue Control_Lanes Resource_Budgets
    Supervisor Registry Dispatch Scheduler Storage_Pressure Idempotency Catalog_Guarantees
    Encoding Output_Path Storage_Recovery Messages Task Jobs Jobs_Announce Jobs_Guarantees
    Commands Intake Intake_Guarantees Paging Operator_Commands Queue_Status Ptz_Commands
    Actor Thumbnails Codec_Params Access_Units
begin

text \<open>
  A verification development for the camera adapter (the Rust crate under \<open>src/\<close>): a process that
  supervises a fleet of cameras, accepts capture commands and cron schedules, admits captures under
  memory, disk and concurrency budgets, and records every job in a durable catalog.

  \<^bold>\<open>How the parts fit.\<close> A configuration document (\<open>config.rs\<close>) is validated into the limits, timeouts,
  cameras and schedules of the process. A command or a schedule occurrence (\<open>scheduler.rs\<close>,
  \<open>runtime/schedule.rs\<close>) becomes a job of the durable catalog (\<open>catalog.rs\<close>), keyed by the canonical
  form of its request (\<open>idempotency.rs\<close>). A job reserves a fleet slot, waits in the capture queue of
  \<open>admission.rs\<close>, is handed to its camera by \<open>dispatch.rs\<close> and then acquires its budgets. Camera state
  is published in \<open>registry.rs\<close> and driven by the lifecycle machine of \<open>supervisor.rs\<close>. A frame is encoded
  (\<open>encoding.rs\<close>) into a partial file below the output root and installed under its rendered name
  (\<open>storage.rs\<close>) after the catalog has recorded the start of the installation. The job engine (\<open>jobs.rs\<close>)
  drives a capture through all of this, writes its terminal result and announces it (\<open>messages.rs\<close>) with a
  preview (\<open>thumbnail.rs\<close>). Free space is watched by \<open>storage_pressure.rs\<close>. Outside commands are decoded and
  checked by \<open>commands.rs\<close> and carried out by \<open>runtime/command.rs\<close>: captures go to the job engine,
  movements and presets to the task that owns the camera's session (\<open>actor.rs\<close>), whose control lane lets an
  emergency stop pass everything else.

  \<^bold>\<open>Theories.\<close>
  \<^item> \<open>Prelude\<close>: fallible results, fixed-width arithmetic, vectors and ordered maps as the Rust library
    has them, UTF-8 strings as byte lists, and two interfaces: a system of operations with an invariant,
    and facts no operation undoes.
  \<^item> \<open>Camera_Error\<close>, \<open>Model\<close>, \<open>Json\<close>: \<open>error.rs\<close>, the value types and job state graph of \<open>model.rs\<close>,
    and JSON values.
  \<^item> \<open>Config_Data\<close>, \<open>Config\<close>: the records, defaults and checks of \<open>config.rs\<close>, startup and reload.
  \<^item> \<open>Admission_Queue\<close>, \<open>Control_Lanes\<close>, \<open>Resource_Budgets\<close>: the three parts of \<open>admission.rs\<close>. A task
    waiting for budgets is its list of remaining steps; polling it once runs the code up to its next
    await.
  \<^item> \<open>Dispatch\<close>: fleet slots, reservations and execution slots of \<open>dispatch.rs\<close>.
  \<^item> \<open>Scheduler\<close>: plans, occurrences and decisions of \<open>scheduler.rs\<close> and the two loops of
    \<open>runtime/schedule.rs\<close>. The cron library is a parameter.
  \<^item> \<open>Supervisor\<close>, \<open>Registry\<close>: lifecycle and reconnect policy; camera snapshots, with every update split
    at its lock sections so that interleavings are explicit.
  \<^item> \<open>Storage_Pressure\<close>: assessment of the output and state roots.
  \<^item> \<open>Idempotency\<close>: the canonical form of a request. Printing of JSON strings and numbers, SHA-256 and
    Unicode categories are parameters.
  \<^item> \<open>Sql_Table\<close>, \<open>Catalog_Data\<close>, \<open>Catalog_Jobs\<close>, \<open>Catalog_Groups\<close>: the tables of the durable catalog as
    lists of rows and one definition per transaction, errors rolling the transaction back.
  \<^item> \<open>Catalog\<close>, \<open>Catalog_Ledger\<close>, \<open>Catalog_Guarantees\<close>: the abstract step relation on a job row, the
    proof that every transaction refines it, and what follows for whole runs.
  \<^item> \<open>Encoding\<close>: frame validation and the encoders over a bounded, cancellable writer. The image codecs are
    parameters that can do nothing to the file but write and seek through that writer.
  \<^item> \<open>Output_Path\<close>: rendering and validation of output paths.
  \<^item> \<open>Storage\<close>: the Linux backend of \<open>storage.rs\<close> as programs over a map of names, in which every system
    call can fail, every check can find the capture cancelled or the directory moved, and every change of
    the directory is recorded. \<open>Storage_Install\<close> and \<open>Storage_Recovery\<close> hold a logic for these programs and
    what installation and reconciliation guarantee.
  \<^item> \<open>Messages\<close>: terminal messages, their bodies and serialisation, and the checks of \<open>messages.rs\<close>.
  \<^item> \<open>Task\<close>: asynchronous code as resumptions that act atomically between suspension points, a
    rely-guarantee logic with rights that are earned and spent, and pools of interleaved tasks that can
    crash.
  \<^item> \<open>Jobs\<close>: every operation of the engine of \<open>jobs.rs\<close> as such a task over a world that holds the catalog,
    the runtimes, the active table and a log of what others see. Clock, camera, bus, budgets and file work
    are functions of a running counter, so that a theorem holds for every behaviour of theirs; a durable
    write can be refused, and a refused one may have taken effect. \<open>Jobs_Announce\<close> proves every operation
    in the logic; \<open>Jobs_Guarantees\<close> holds what follows.
  \<^item> \<open>Commands\<close>: every request record of \<open>commands.rs\<close> with its checks. \<open>Intake\<close>, \<open>Intake_Guarantees\<close>: the
    submission of captures, groups and schedule occurrences by \<open>runtime.rs\<close>, \<open>runtime/command.rs\<close> and
    \<open>runtime/schedule.rs\<close>, with deferred replies, on top of the engine of \<open>Jobs\<close>.
  \<^item> \<open>Paging\<close>: the page functions of \<open>runtime.rs\<close>, cursors, and the size tests of status pages.
    \<open>Operator_Commands\<close>: cancellation, queue drain and reconnection with the durable command ledger.
    \<open>Queue_Status\<close>: the queue report. \<open>Ptz_Commands\<close>: movements, stops and presets, with the motion
    stop that a movement arms.
  \<^item> \<open>Actor\<close>: the task of \<open>actor.rs\<close> cut at its awaits into a step system over mailbox slots, control lanes
    and the operation under way; the answers of session and job engine are arguments of the steps.
  \<^item> \<open>Thumbnails\<close>: policy, geometry, pixel access and the quality ladder of \<open>thumbnail.rs\<close>. The JPEG codec
    and the resampling filter are parameters.
  \<^item> \<open>Codec_Params\<close>: the bit reader of \<open>backend/rtsp.rs\<close> and its parsers of H.264 and H.265 sequence parameter
    sets, compared with writers of the two syntaxes. \<open>Access_Units\<close>: its RTP packet headers and the assembler of
    access units, compared with senders that carry NAL units whole, aggregated or in fragments.

  \<^bold>\<open>What the theorems show.\<close> Each component has an invariant kept by every operation, hence by every
  finite interleaving: queue bounds, conservation of permits and bytes, exact fleet counters, monotone
  session generations, unique job rows with consistent terminal facts. On top of these stand the
  functional theorems (which entry is popped, what a decision consumes, what a reload changes), the
  safety theorems (one terminal decision per capture, success only with an installed artifact, disk
  floors, at most one announcement of a capture and only of its durable result, one hand-over of a movement
  per admitted request, emergency stops before other controls and, but for the one capture being taken, before captures) and the theorems that tie components together
  below: a validated configuration starts every component, its memory budget keeps the promised
  concurrency, and its schedules compile. Paging is compared with the plain slice of the list, the status
  report with a recount, a preview with the transport's limit, a parsed picture size and an assembled picture with
  what was sent. Theorems of kind error exhibit behaviour of
  the code that its documentation does not promise: a drain that never ends, a movement left without its
  motion stop, an emergency stop dropped by a failing actor, a stream session ended by one oversized picture.

  \<^bold>\<open>Bounds and fuel.\<close> \<open>Write::write_all\<close> is a partial function: a run that never returns is \<open>None\<close>, and
  the theorems that promise a result prove it. Loops over due occurrences carry the code's own limit of
  ten thousand. Searches in the cron library and retry loops use fuel, and the theorems about them state
  that enough fuel returns. The search for overlapping pages and the drain loop take a number of rounds; the
  first is shown to end within the number of its rows, the second is shown not to end for any number. Polling a moving camera and the deadline reaper take a number of rounds; a task that runs out
  of them halts, and what is claimed of every reachable state holds for any number. All other recursion is
  structural or has a measure.

  \<^bold>\<open>Not modelled.\<close> The network exchanges of the ONVIF and RTSP backends, the C bindings of GenICam, process
  start-up and credentials, metrics publication, and the opening and migration of the database file are
  effects outside the checked core. Of the runtime, discovery, the reload of a running process and the
  supervision tasks that open and close camera sessions are left out, and so are task spawning and panics. The Windows backend of
  \<open>storage.rs\<close> and the loss of unsynchronised directory entries in a power failure are not modelled: the
  recorded states are those a stopped process leaves behind.
\<close>

section \<open>From a validated configuration to a running adapter\<close>

lemma controls_in_range: "validate_limits l = Inr () \<Longrightarrow> max_queued_controls_per_camera l \<le> 1024"
  by (simp add: validate_limits_def validate_limit_ranges_def and_then_Inr_iff range_usize_ok)

lemma validate_global_parts:
  assumes "validate_global g = Inr ()"
  shows "validate_output (g_output g) = Inr ()" "validate_limits (g_limits g) = Inr ()"
    "validate_timeouts (g_timeouts g) = Inr ()"
  using assms by (simp_all add: validate_global_def and_then_Inr_iff)

lemma backoff_maximum_in_range:
  assumes "validate_timeouts t = Inr ()"
  shows "unat (reconnect_backoff_max_ms t) \<le> 3600000"
proof -
  have "reconnect_backoff_max_ms t \<le> 3600000"
    using assms by (simp add: validate_timeouts_def and_then_Inr_iff range_u64_ok)
  then have "unat (reconnect_backoff_max_ms t) \<le> unat (3600000 :: u64)" by (simp only: word_le_nat_alt)
  then show ?thesis by simp
qed

lemma controller_from_valid:
  assumes "validate_limits l = Inr ()" and "minimum_free_percent out \<le> 100"
  shows "is_ok (admission_controller_new l out)"
proof -
  note facts = validate_limits_facts [OF assms(1)]
  have "max_in_flight_bytes l \<noteq> 0" using facts(8) by auto
  moreover have "for_each (\<lambda>(name, grp).
      if rg_max_concurrent_captures grp = 0 \<or> max_concurrent_captures l < rg_max_concurrent_captures grp
      then Inl (Rejected BadArgs ''resource-group capacity must be between 1 and the global capture limit'')
      else Inr ()) (lim_resource_groups l) = Inr ()"
    using facts(10) by (fastforce simp: for_each_Inr_iff)
  ultimately show ?thesis
    using facts assms(2)
    by (simp add: admission_controller_new_def byte_budget_new_def disk_budget_new_def is_ok_def)
qed

text \<open>A validated global block builds the whole adapter core: the admission controller, the fleet
  scheduler, every camera's control lanes and the reconnect policy are constructed without an error,
  and the reconnect maximum is far enough inside the range of durations for the delay bounds to hold.\<close>

theorem validated_global_starts:
  assumes "validate_global g = Inr ()"
  shows "is_ok (admission_controller_new (g_limits g) (g_output g)) \<and> is_ok (scheduler_new (g_limits g)) \<and>
    is_ok (control_new (max_queued_controls_per_camera (g_limits g)) :: 'o ControlLanes result) \<and>
    is_ok (backoff_policy_new (unat (reconnect_backoff_min_ms (g_timeouts g)) * 1000000)
      (unat (reconnect_backoff_max_ms (g_timeouts g)) * 1000000)) \<and>
    2 * (unat (reconnect_backoff_max_ms (g_timeouts g)) * 1000000) \<le> u64_max * nanos_per_second"
proof -
  note parts = validate_global_parts [OF assms(1)]
  note facts = validate_limits_facts [OF parts(2)] and times = validate_timeouts_facts [OF parts(3)]
  have "minimum_free_percent (g_output g) \<le> 100"
    using parts(1) by (simp add: validate_output_def and_then_Inr_iff range_usize_ok)
  note controller = controller_from_valid [OF parts(2) this]
  have scheduler: "is_ok (scheduler_new (g_limits g))"
    using facts by (simp add: scheduler_new_def queue_new_def aging_interval_nanos_def is_ok_def)
  have lanes: "is_ok (control_new (max_queued_controls_per_camera (g_limits g)) :: 'o ControlLanes result)"
    using facts(6) controls_in_range [OF parts(2)] by (simp add: control_new_def is_ok_def)
  have backoff: "is_ok (backoff_policy_new (unat (reconnect_backoff_min_ms (g_timeouts g)) * 1000000)
      (unat (reconnect_backoff_max_ms (g_timeouts g)) * 1000000))"
    using times(1,2) by (simp add: backoff_policy_new_def word_le_nat_alt is_ok_def)
  have "2 * (unat (reconnect_backoff_max_ms (g_timeouts g)) * 1000000) \<le> u64_max * nanos_per_second"
    using backoff_maximum_in_range [OF parts(3)] by (simp add: u64_max_def nanos_per_second_def)
  with controller scheduler lanes backoff show ?thesis by (intro conjI)
qed

theorem validated_global_starts_witness:
  "is_ok (scheduler_new (g_limits demo_global)) \<and>
   is_ok (control_new (max_queued_controls_per_camera (g_limits demo_global)) :: nat ControlLanes result)"
  using validated_global_starts [OF demo_global_ok] by blast

text \<open>The frame budget that the configuration check guarantees.\<close>

lemma total_of_le_count:
  assumes "\<forall>t \<in> set ts. f (t_held t) \<le> b"
  shows "total_of f ts \<le> length (filter (\<lambda>t. f (t_held t) \<noteq> 0) ts) * b"
  using assms by (induction ts) (auto simp: total_of_def)

text \<open>C29: Frame memory never narrows the configured concurrency below its width. With limits that
  passed validation, whatever has happened since the controller was built: as long as every capture
  holds at most the per-camera frame ceiling, and fewer captures than the configured concurrency hold
  frame memory, a full frame ceiling is still free, so the next reservation is not refused for want of
  memory.\<close>

theorem memory_keeps_concurrency:
  assumes "validate_limits lims = Inr ()" and "admission_controller_new lims out = Inr c\<^sub>0"
    and "s = foldl exec_admission \<lparr>controller = c\<^sub>0, holders = []\<rparr> ops"
    and "\<forall>t \<in> set (holders s). h_memory (t_held t) \<le> max_frame_bytes_per_camera lims"
    and "length (filter (\<lambda>t. h_memory (t_held t) \<noteq> 0) (holders s)) < max_concurrent_captures lims"
  shows "max_frame_bytes_per_camera lims \<le> available (memory (controller s))"
proof -
  let ?k = "length (filter (\<lambda>t. h_memory (t_held t) \<noteq> 0) (holders s))"
  let ?b = "unat (max_frame_bytes_per_camera lims)"
  have "admission_inv c\<^sub>0 s"
    unfolding assms(3) by (rule admission.run_inv [OF fresh_admission_inv [OF assms(2)]])
  then have "unat (available (memory (controller s))) + total_of (\<lambda>h. unat (h_memory h)) (holders s) =
      unat (capacity (memory c\<^sub>0))"
    by (simp add: admission_inv_def conserved_def)
  also have "\<dots> = unat (max_in_flight_bytes lims)"
    using admission_controller_new_ok [OF assms(2)] by simp
  finally have sum: "unat (available (memory (controller s))) +
      total_of (\<lambda>h. unat (h_memory h)) (holders s) = unat (max_in_flight_bytes lims)" .
  have "total_of (\<lambda>h. unat (h_memory h)) (holders s) \<le> ?k * ?b"
    using total_of_le_count [of "holders s" "\<lambda>h. unat (h_memory h)" ?b] assms(4)
    by (simp add: word_le_nat_alt unat_eq_0)
  moreover have "(?k + 1) * ?b \<le> unat (max_in_flight_bytes lims)"
  proof (rule order_trans [OF _ validate_limits_facts(11) [OF assms(1)]])
    show "(?k + 1) * ?b \<le> max_concurrent_captures lims * ?b" using assms(5) by (intro mult_le_mono1) simp
  qed
  ultimately show ?thesis using sum by (simp add: word_le_nat_alt)
qed


theorem memory_keeps_concurrency_witness:
  "max_frame_bytes_per_camera (g_limits demo_global) \<le> available (memory (controller (foldl exec_admission
     \<lparr>controller = (case admission_controller_new (g_limits demo_global) (g_output demo_global) of
        Inr c \<Rightarrow> c | Inl _ \<Rightarrow> undefined), holders = []\<rparr> [])))"
proof -
  have valid: "validate_limits (g_limits demo_global) = Inr ()"
    by (rule validate_global_parts [OF demo_global_ok])
  obtain c where c: "admission_controller_new (g_limits demo_global) (g_output demo_global) = Inr c"
    using controller_from_valid [OF valid, of "g_output demo_global"]
    by (auto simp: is_ok_def demo_global_def split: sum.splits)
  have "0 < max_concurrent_captures (g_limits demo_global)"
    using validate_limits_facts(1) [OF valid] by simp
  then show ?thesis using memory_keeps_concurrency [OF valid c refl, of "[]"] c by simp
qed

section \<open>Validated schedules compile\<close>

text \<open>The validator and the scheduler consult the same cron library and timezone database.\<close>

definition same_libraries :: "ConfigEnv \<Rightarrow> ('cron, 'tz) ScheduleEnv \<Rightarrow> bool" where
  "same_libraries env libs \<longleftrightarrow>
     (\<forall>c. cron_ok env c \<longleftrightarrow> is_ok (cron_from_str libs c)) \<and>
     (\<forall>z. tz_ok env z \<longleftrightarrow> is_ok (tz_parse libs z))"

lemma plan_build_ok:
  assumes "cron_and_timezone env cron timezone path = Inr ()" and "same_libraries env libs"
    and "jitter \<le> 3600"
  shows "is_ok (plan_build libs scope schedule_id cron timezone jitter misfire overlap)"
proof -
  have n: "split_whitespace_count cron = 6" "cron_ok env cron" "tz_ok env timezone"
    using assms(1) by (simp_all add: cron_and_timezone_def and_then_Inr_iff)
  then have "is_ok (cron_from_str libs cron)" "is_ok (tz_parse libs timezone)"
    using assms(2) unfolding same_libraries_def by blast+
  then show ?thesis using n(1) assms(3)
    by (cases "cron_from_str libs cron"; cases "tz_parse libs timezone") (simp_all add: plan_build_def is_ok_def)
qed

lemma validate_schedules_cron:
  "validate_schedules env camera path i seen ss = Inr () \<Longrightarrow> s \<in> set ss \<Longrightarrow>
     (\<exists>p. cron_and_timezone env (sc_cron s) (sc_timezone s) p = Inr ()) \<and> sc_jitter_seconds s \<le> 3600"
  by (induction ss arbitrary: i seen) (auto simp: Let_def and_then_Inr_iff range_usize_ok)

lemma group_schedule_cron:
  "validate_group_schedule env cams g declared seen path gs = Inr () \<Longrightarrow>
     cron_and_timezone env (gs_cron gs) (gs_timezone gs) path = Inr () \<and> gs_jitter_seconds gs \<le> 3600"
  by (simp add: validate_group_schedule_def and_then_Inr_iff range_usize_ok)

lemma accepted_group_schedule:
  assumes "validate_cross_instance env cams g declared = Inr ()" and "gs \<in> set (g_capture_group_schedules g)"
  shows "\<exists>seen path. validate_group_schedule env cams g declared seen path gs = Inr ()"
  using assms group_schedules_loop_ok
  by (fastforce simp: validate_cross_instance_def validate_group_schedules_def split: if_splits)

lemma validate_camera_schedules:
  "validate_camera env c g path = Inr () \<Longrightarrow> validate_schedules env c path 0 [] (cam_schedules c) = Inr ()"
  by (simp add: validate_camera_def and_then_Inr_iff)

text \<open>Starting the schedulers of an accepted configuration cannot fail on a schedule: every camera
  schedule and every group schedule of a configuration accepted at startup compiles to a plan.\<close>

theorem accepted_schedules_compile:
  assumes "from_core_initial env dg raw_id deser raw_global raws = Inr (cfg, skipped)"
    and "same_libraries env libs"
  shows "(\<forall>c \<in> set (ad_instances cfg). \<forall>s \<in> set (cam_schedules c). is_ok (plan_compile libs (cam_id c) s)) \<and>
    (\<forall>gs \<in> set (g_capture_group_schedules (ad_global cfg)). is_ok (plan_compile_group libs gs))"
proof (intro conjI ballI)
  note parts = from_core_initial_parts [OF assms(1)]
  fix c s assume c: "c \<in> set (ad_instances cfg)" and s: "s \<in> set (cam_schedules c)"
  obtain path where "validate_camera env c (ad_global cfg) path = Inr ()" using parts(3) c by blast
  from validate_schedules_cron [OF validate_camera_schedules [OF this] s]
  show "is_ok (plan_compile libs (cam_id c) s)"
    using plan_build_ok [OF _ assms(2)] unfolding plan_compile_def by blast
next
  note parts = from_core_initial_parts [OF assms(1)]
  fix gs assume "gs \<in> set (g_capture_group_schedules (ad_global cfg))"
  then show "is_ok (plan_compile_group libs gs)"
    using parts(5) accepted_group_schedule group_schedule_cron plan_build_ok [OF _ assms(2)]
    unfolding plan_compile_group_def by metis
qed

definition demo_libraries :: "(unit, unit) ScheduleEnv" where
  "demo_libraries = every_minute\<lparr>
     cron_from_str := (\<lambda>c. if c = ''0 0 * * * *'' then Inr () else Inl ''unsupported''),
     tz_parse := (\<lambda>z. if z = ''UTC'' then Inr () else Inl ''unknown'')\<rparr>"

theorem accepted_schedules_compile_witness:
  "is_ok (plan_compile_group demo_libraries demo_group_schedule)"
proof -
  have "same_libraries demo_env demo_libraries"
    by (simp add: same_libraries_def demo_env_def demo_libraries_def is_ok_def)
  from accepted_schedules_compile [OF demo_initial this] show ?thesis by (simp add: demo_global_def)
qed

end
